(* ===== verification/A1_Prelude.thy ===== *)
theory A1_Prelude
  imports Main "HOL-Library.Word" "HOL-Library.List_Lexorder" "HOL-Library.Char_ord"
begin

unbundle bit_operations_syntax

text \<open>
  The prelude of the development: the names of the machine types, the result type of the
  fallible operations with the combinators that stand for Rust's question mark operator and
  for \<open>collect\<close> into a \<open>Result\<close>, saturating arithmetic, byte encodings of integers and
  strings, the ordered map behind \<open>BTreeMap\<close>, and the generic lemmas about them that the
  component theories share.
\<close>

section \<open>Machine types\<close>

type_synonym u8 = "8 word"
type_synonym u32 = "32 word"
type_synonym u64 = "64 word"

text \<open>
  A byte buffer (\<open>Vec<u8>\<close>, \<open>[u8; N]\<close>) is a list of bytes; a fixed-size array is a list
  whose length a well-formedness predicate states. A Rust \<open>String\<close> is its UTF-8 bytes,
  written as an Isabelle \<open>string\<close> (an Isabelle character is one byte), so \<open>length\<close> is
  Rust's \<open>len()\<close>. A \<open>usize\<close> that only counts or indexes is a \<open>nat\<close>.
\<close>

type_synonym bytes = "u8 list"

named_theorems result_simps "rules that evaluate and invert the result combinators"
named_theorems enc_len "lengths of the byte encodings"

section \<open>Results\<close>

definition bindR :: "('e + 'a) \<Rightarrow> ('a \<Rightarrow> 'e + 'b) \<Rightarrow> 'e + 'b" where
  "bindR m f = (case m of Inl e \<Rightarrow> Inl e | Inr a \<Rightarrow> f a)"

definition map_errR :: "('e \<Rightarrow> 'f) \<Rightarrow> ('e + 'a) \<Rightarrow> 'f + 'a" where
  "map_errR g m = (case m of Inl e \<Rightarrow> Inl (g e) | Inr a \<Rightarrow> Inr a)"

definition ok_or :: "'e \<Rightarrow> 'a option \<Rightarrow> 'e + 'a" where
  "ok_or e x = (case x of None \<Rightarrow> Inl e | Some a \<Rightarrow> Inr a)"

text \<open>\<open>traverse f xs\<close> is \<open>xs.iter().map(f).collect::<Result<Vec<_>, _>>()\<close>: the first error wins.\<close>

fun traverse :: "('a \<Rightarrow> 'e + 'b) \<Rightarrow> 'a list \<Rightarrow> 'e + 'b list" where
  "traverse f [] = Inr []"
| "traverse f (x # xs) = bindR (f x) (\<lambda>y. bindR (traverse f xs) (\<lambda>ys. Inr (y # ys)))"

text \<open>\<open>each f xs\<close> is \<open>for x in xs { f(x)?; }\<close>.\<close>

fun each :: "('a \<Rightarrow> 'e + unit) \<Rightarrow> 'a list \<Rightarrow> 'e + unit" where
  "each f [] = Inr ()"
| "each f (x # xs) = bindR (f x) (\<lambda>_. each f xs)"

lemma bindR_simps [simp]:
  "bindR (Inl e) f = Inl e" "bindR (Inr a) f = f a"
  by (simp_all add: bindR_def)

lemma bindR_Inr_iff [result_simps]: "bindR m f = Inr b \<longleftrightarrow> (\<exists>a. m = Inr a \<and> f a = Inr b)"
  by (cases m) auto

lemma bindR_Inl_iff [result_simps]:
  "bindR m f = Inl e \<longleftrightarrow> m = Inl e \<or> (\<exists>a. m = Inr a \<and> f a = Inl e)"
  by (cases m) auto

lemma map_errR_simps [simp]:
  "map_errR g (Inl e) = Inl (g e)" "map_errR g (Inr a) = Inr a"
  by (simp_all add: map_errR_def)

lemma map_errR_Inr_iff [simp]: "map_errR g m = Inr a \<longleftrightarrow> m = Inr a"
  by (cases m) auto

lemma map_errR_Inl_iff [result_simps]:
  "map_errR g m = Inl f \<longleftrightarrow> (\<exists>e. m = Inl e \<and> f = g e)"
  by (cases m) auto

lemma ok_or_simps [simp]: "ok_or e None = Inl e" "ok_or e (Some a) = Inr a"
  by (simp_all add: ok_or_def)

lemma ok_or_Inr_iff [simp]: "ok_or e x = Inr a \<longleftrightarrow> x = Some a"
  by (cases x) auto

lemma ok_or_Inl_iff [simp]: "ok_or e x = Inl f \<longleftrightarrow> x = None \<and> f = e"
  by (cases x) auto

lemma traverse_Inr_iff: "traverse f xs = Inr ys \<longleftrightarrow> list_all2 (\<lambda>x y. f x = Inr y) xs ys"
  by (induction xs arbitrary: ys) (auto simp: result_simps list_all2_Cons1)

lemma traverse_total: "(\<And>x. x \<in> set xs \<Longrightarrow> f x = Inr (g x)) \<Longrightarrow> traverse f xs = Inr (map g xs)"
  by (induction xs) auto

lemma traverse_Inl: "traverse f xs = Inl e \<Longrightarrow> \<exists>x\<in>set xs. f x = Inl e"
  by (induction xs) (auto simp: result_simps)

lemma each_Inr_iff: "each f xs = Inr () \<longleftrightarrow> (\<forall>x\<in>set xs. f x = Inr ())"
  by (induction xs) (auto simp: result_simps)

lemma each_Inl: "each f xs = Inl e \<Longrightarrow> \<exists>x\<in>set xs. f x = Inl e"
  by (induction xs) (auto simp: result_simps)

section \<open>Saturating arithmetic\<close>

definition sat_add :: "'a::len word \<Rightarrow> 'a word \<Rightarrow> 'a word" where
  "sat_add x y = (if x + y < x then -1 else x + y)"

definition sat_sub :: "'a::len word \<Rightarrow> 'a word \<Rightarrow> 'a word" where
  "sat_sub x y = (if y \<le> x then x - y else 0)"

lemma unat_sat_add: "unat (sat_add x y) = min (unat x + unat y) (2 ^ LENGTH('a) - 1)"
  for x y :: "'a::len word"
proof (cases "unat x + unat y < 2 ^ LENGTH('a)")
  case True
  then have "unat (x + y) = unat x + unat y" by (simp add: unat_word_ariths)
  with True show ?thesis by (simp add: sat_add_def word_less_nat_alt)
next
  case False
  have lt: "unat x < 2 ^ LENGTH('a)" "unat y < 2 ^ LENGTH('a)" by (rule unsigned_less)+
  have "unat (x + y) = (unat x + unat y) mod 2 ^ LENGTH('a)" by (simp add: unat_word_ariths)
  also have "\<dots> = unat x + unat y - 2 ^ LENGTH('a)"
  proof -
    have "unat x + unat y - 2 ^ LENGTH('a) < 2 ^ LENGTH('a)" using lt by linarith
    then show ?thesis using False by (simp add: le_mod_geq)
  qed
  finally have "unat (x + y) < unat x" using lt False by linarith
  then have "sat_add x y = -1" by (simp add: sat_add_def word_less_nat_alt)
  moreover have "unat (-1 :: 'a word) = 2 ^ LENGTH('a) - 1" by (simp add: unsigned_minus_1_eq_mask mask_eq_exp_minus_1)
  ultimately show ?thesis using False by simp
qed

lemma unat_sat_sub: "unat (sat_sub x y) = unat x - unat y"
  by (auto simp: sat_sub_def word_le_nat_alt unat_sub)

section \<open>Byte encodings\<close>

definition str_bytes :: "string \<Rightarrow> bytes" where
  "str_bytes s = map of_char s"

lemma of_char_u8_inj: "of_char c = (of_char d :: u8) \<Longrightarrow> c = d"
proof -
  assume eq: "of_char c = (of_char d :: u8)"
  have conv: "of_char e = (of_nat (of_char e) :: u8)" for e
    by (simp add: of_nat_of_char)
  have "(of_char c :: nat) mod 256 = of_char d mod 256"
    using arg_cong [OF eq, of unat] unfolding conv [of c] conv [of d] by (simp add: unat_of_nat)
  moreover have "(of_char c :: nat) < 256" "(of_char d :: nat) < 256"
    by (rule nat_of_char_less_256)+
  ultimately have "(of_char c :: nat) = of_char d" by simp
  then show "c = d" by simp
qed

lemma str_bytes_inj: "str_bytes s = str_bytes t \<longleftrightarrow> s = t"
  unfolding str_bytes_def by (rule inj_map_eq_map) (rule injI, erule of_char_u8_inj)

lemma length_str_bytes [simp, enc_len]: "length (str_bytes s) = length s"
  by (simp add: str_bytes_def)

lemma str_bytes_append: "str_bytes (s @ t) = str_bytes s @ str_bytes t"
  by (simp add: str_bytes_def)

lemma str_bytes_Nil [simp]: "str_bytes [] = []"
  by (simp add: str_bytes_def)

text \<open>\<open>to_le_bytes\<close> and \<open>to_be_bytes\<close>, and \<open>from_le_bytes\<close> on eight bytes.\<close>

definition le_bytes :: "nat \<Rightarrow> 'a::len word \<Rightarrow> bytes" where
  "le_bytes n w = map (\<lambda>i. ucast (drop_bit (8 * i) w)) [0..<n]"

abbreviation le64 :: "u64 \<Rightarrow> bytes" where "le64 \<equiv> le_bytes 8"
abbreviation le32 :: "u32 \<Rightarrow> bytes" where "le32 \<equiv> le_bytes 4"

definition be64 :: "u64 \<Rightarrow> bytes" where
  "be64 w = rev (le64 w)"

definition from_le64 :: "bytes \<Rightarrow> u64" where
  "from_le64 bs = foldr (\<lambda>b acc. ucast b OR push_bit 8 acc) bs 0"

lemma length_le_bytes [simp, enc_len]: "length (le_bytes n w) = n"
  by (simp add: le_bytes_def)

lemma length_be64 [simp, enc_len]: "length (be64 w) = 8"
  by (simp add: be64_def)

lemma bit_le_bytes: "m < n \<Longrightarrow> j < 8 \<Longrightarrow> bit (le_bytes n w ! m) j = bit w (8 * m + j)"
  by (simp add: le_bytes_def bit_ucast_iff bit_drop_bit_eq)

lemma le_bytes_inj:
  fixes v w :: "'a::len word"
  assumes eq: "le_bytes n v = le_bytes n w" and wide: "LENGTH('a) \<le> 8 * n"
  shows "v = w"
proof (rule bit_word_eqI)
  fix k assume "k < LENGTH('a)"
  with wide have "k div 8 < n" by auto
  then have "bit v (8 * (k div 8) + k mod 8) = bit w (8 * (k div 8) + k mod 8)"
    using eq bit_le_bytes [of "k div 8" n "k mod 8"] by (metis mod_less_divisor zero_less_numeral)
  then show "bit v k = bit w k" by simp
qed

lemma le64_inj [simp]: "le64 v = le64 w \<longleftrightarrow> v = w"
  using le_bytes_inj [of 8 v w] by auto

lemma le32_inj [simp]: "le32 v = le32 w \<longleftrightarrow> v = w"
  using le_bytes_inj [of 4 v w] by auto

lemma be64_inj [simp]: "be64 v = be64 w \<longleftrightarrow> v = w"
  by (simp add: be64_def)

lemma bit_from_le64_gen:
  "k < 64 \<Longrightarrow> bit (foldr (\<lambda>b acc. ucast b OR push_bit 8 acc) (bs :: bytes) (0::u64)) k \<longleftrightarrow>
     k div 8 < length bs \<and> bit (bs ! (k div 8)) (k mod 8)"
proof (induction bs arbitrary: k)
  case Nil
  then show ?case by simp
next
  case (Cons b bs)
  show ?case
  proof (cases "k < 8")
    case True
    with Cons.prems show ?thesis by (simp add: bit_or_iff bit_ucast_iff bit_push_bit_iff)
  next
    case False
    then have nb: "\<not> bit b k" using bit_imp_le_length [of b k] by auto
    have "k = 8 + (k - 8)" using False by simp
    then have "k div 8 = Suc ((k - 8) div 8)" "k mod 8 = (k - 8) mod 8"
      by (metis div_add_self1 plus_1_eq_Suc add.commute zero_neq_numeral, metis mod_add_self1)
    with False nb Cons.prems Cons.IH [of "k - 8"] show ?thesis
      by (simp add: bit_or_iff bit_ucast_iff bit_push_bit_iff)
  qed
qed

lemma bit_from_le64:
  "length bs = 8 \<Longrightarrow> k < 64 \<Longrightarrow> bit (from_le64 bs) k \<longleftrightarrow> bit (bs ! (k div 8)) (k mod 8)"
  by (auto simp: from_le64_def bit_from_le64_gen)

text \<open>
  A length-prefixed field is \<open>le64\<close> of the length, then the content. Rust writes it with
  \<open>h.update(&(s.len() as u64).to_le_bytes()); h.update(s)\<close>. Two such encodings followed by
  anything agree only if the fields and the rests agree, as long as the lengths fit a
  \<open>u64\<close> (a Rust allocation never exceeds \<open>isize::MAX\<close> bytes).
\<close>

abbreviation u64_of :: "nat \<Rightarrow> u64" where
  "u64_of n \<equiv> word_of_nat n"

definition fits :: "'a list \<Rightarrow> bool" where
  "fits xs \<longleftrightarrow> length xs < 2 ^ 63"

definition lp :: "bytes \<Rightarrow> bytes" where
  "lp s = le64 (u64_of (length s)) @ s"

lemma unat_u64_of: "n < 2 ^ 63 \<Longrightarrow> unat (u64_of n) = n"
  by (simp add: unat_of_nat)

lemma u64_of_inj: "m < 2 ^ 63 \<Longrightarrow> n < 2 ^ 63 \<Longrightarrow> u64_of m = u64_of n \<Longrightarrow> m = n"
  by (metis unat_u64_of)

lemma app_fixed: "x @ a = y @ b \<Longrightarrow> length x = length y \<Longrightarrow> x = y \<and> a = b"
  by simp

lemma len_prefix_inj:
  assumes "m < 2 ^ 63" "n < 2 ^ 63" "le64 (u64_of m) @ a = le64 (u64_of n) @ b"
  shows "m = n \<and> a = b"
proof -
  have "le64 (u64_of m) = le64 (u64_of n) \<and> a = b"
    using assms(3) by (rule app_fixed) (simp only: length_le_bytes)
  then have "u64_of m = u64_of n" and "a = b" by (simp_all only: le64_inj)
  then show ?thesis using u64_of_inj assms(1,2) by blast
qed

lemma length_lp [simp, enc_len]: "length (lp s) = 8 + length s"
  by (simp add: lp_def)

lemma lp_append_inj:
  assumes "fits s" "fits t" and eq: "lp s @ a = lp t @ b"
  shows "s = t \<and> a = b"
proof -
  have "length s = length t \<and> s @ a = t @ b"
    using assms unfolding fits_def lp_def append_assoc by (rule len_prefix_inj)
  then show ?thesis using app_fixed by blast
qed

text \<open>A counted list of encoded items, each of them self-delimiting, is again self-delimiting.\<close>

definition self_delim :: "('a \<Rightarrow> bool) \<Rightarrow> ('a \<Rightarrow> bytes) \<Rightarrow> bool" where
  "self_delim P e \<longleftrightarrow> (\<forall>x y a b. P x \<longrightarrow> P y \<longrightarrow> e x @ a = e y @ b \<longrightarrow> x = y \<and> a = b)"

definition counted :: "('a \<Rightarrow> bytes) \<Rightarrow> 'a list \<Rightarrow> bytes" where
  "counted e xs = le64 (u64_of (length xs)) @ concat (map e xs)"

lemma self_delimD:
  "self_delim P e \<Longrightarrow> P x \<Longrightarrow> P y \<Longrightarrow> e x @ a = e y @ b \<Longrightarrow> x = y \<and> a = b"
  unfolding self_delim_def by blast

lemma concat_self_delim:
  assumes "self_delim P e"
  shows "length xs = length ys \<Longrightarrow> list_all P xs \<Longrightarrow> list_all P ys \<Longrightarrow>
     concat (map e xs) @ a = concat (map e ys) @ b \<Longrightarrow> xs = ys \<and> a = b"
proof (induction xs ys arbitrary: a b rule: list_induct2)
  case Nil
  then show ?case by simp
next
  case (Cons x xs y ys)
  have xy: "x = y \<and> concat (map e xs) @ a = concat (map e ys) @ b"
    by (rule self_delimD [OF assms]) (use Cons.prems in simp_all)
  have "xs = ys \<and> a = b"
    by (rule Cons.IH) (use Cons.prems xy in simp_all)
  with xy show ?case by blast
qed

lemma self_delim_counted:
  assumes "self_delim P e"
  shows "self_delim (\<lambda>xs. fits xs \<and> list_all P xs) (counted e)"
  unfolding self_delim_def
proof (intro allI impI)
  fix xs ys a b
  assume P: "fits xs \<and> list_all P xs" "fits ys \<and> list_all P ys"
    and eq: "counted e xs @ a = counted e ys @ b"
  have "length xs = length ys \<and> concat (map e xs) @ a = concat (map e ys) @ b"
    using P [THEN conjunct1] eq unfolding fits_def counted_def append_assoc by (rule len_prefix_inj)
  with concat_self_delim [OF assms, of xs ys a b] P show "xs = ys \<and> a = b" by blast
qed

lemma self_delim_lp: "self_delim fits lp"
  unfolding self_delim_def using lp_append_inj by blast

lemma self_delim_lp_str: "self_delim fits (\<lambda>s. lp (str_bytes s))"
  unfolding self_delim_def
proof (intro allI impI)
  fix s t :: string and a b
  assume "fits s" "fits t" "lp (str_bytes s) @ a = lp (str_bytes t) @ b"
  then show "s = t \<and> a = b"
    using lp_append_inj [of "str_bytes s" "str_bytes t" a b] by (simp add: fits_def str_bytes_inj)
qed

lemma self_delim_fixed:
  assumes len: "\<And>x. P x \<Longrightarrow> length (e x) = n"
    and inj: "\<And>x y. P x \<Longrightarrow> P y \<Longrightarrow> e x = e y \<Longrightarrow> x = y"
  shows "self_delim P e"
  unfolding self_delim_def
proof (intro allI impI)
  fix x y a b assume "P x" "P y" "e x @ a = e y @ b"
  then have "e x = e y \<and> a = b" by (intro app_fixed) (simp_all only: len)
  with inj \<open>P x\<close> \<open>P y\<close> show "x = y \<and> a = b" by blast
qed

lemma self_delim_pair:
  assumes "self_delim P e" "self_delim Q f"
  shows "self_delim (\<lambda>p. P (fst p) \<and> Q (snd p)) (\<lambda>p. e (fst p) @ f (snd p))"
  unfolding self_delim_def
proof (intro allI impI)
  fix p q a b
  assume P: "P (fst p) \<and> Q (snd p)" "P (fst q) \<and> Q (snd q)"
    and eq: "(e (fst p) @ f (snd p)) @ a = (e (fst q) @ f (snd q)) @ b"
  have "fst p = fst q \<and> f (snd p) @ a = f (snd q) @ b"
    by (rule self_delimD [OF assms(1)]) (use P eq in auto)
  then show "p = q \<and> a = b"
    using self_delimD [OF assms(2), of "snd p" "snd q" a b] P by (auto simp: prod_eq_iff)
qed

section \<open>Decimal printing\<close>

fun dec :: "nat \<Rightarrow> string" where
  "dec n = (if n < 10 then [char_of (48 + n)] else dec (n div 10) @ [char_of (48 + n mod 10)])"

declare dec.simps [simp del]

section \<open>Ordered maps\<close>

text \<open>
  The contract of \<open>BTreeMap\<close> the code relies on: \<open>insert\<close> replaces, \<open>get\<close> finds the last
  value, and the map holds nothing but its entries in key order, so two maps with the same
  entries are the same map and iterate alike whatever the order of insertion.
\<close>

locale ordered_map =
  fixes ins :: "'k \<Rightarrow> 'v \<Rightarrow> 'm \<Rightarrow> 'm"
    and get :: "'m \<Rightarrow> 'k \<Rightarrow> 'v option"
    and inv :: "'m \<Rightarrow> bool"
  assumes get_ins: "inv m \<Longrightarrow> get (ins k v m) = (get m)(k \<mapsto> v)"
    and inv_ins: "inv m \<Longrightarrow> inv (ins k v m)"
    and canonical: "inv m \<Longrightarrow> inv m' \<Longrightarrow> get m = get m' \<Longrightarrow> m = m'"
begin

definition ins_all :: "('k \<times> 'v) list \<Rightarrow> 'm \<Rightarrow> 'm" where
  "ins_all kvs m = fold (\<lambda>(k, v). ins k v) kvs m"

lemma ins_commute: "inv m \<Longrightarrow> k \<noteq> k' \<Longrightarrow> ins k v (ins k' v' m) = ins k' v' (ins k v m)"
  by (rule canonical) (auto simp: inv_ins get_ins)

lemma ins_overwrite: "inv m \<Longrightarrow> ins k v (ins k v' m) = ins k v m"
  by (rule canonical) (auto simp: inv_ins get_ins)

lemma inv_ins_all: "inv m \<Longrightarrow> inv (ins_all kvs m)"
  by (induction kvs arbitrary: m) (auto simp: ins_all_def inv_ins)

lemma get_ins_all: "inv m \<Longrightarrow> get (ins_all kvs m) = (get m)(map fst kvs [\<mapsto>] map snd kvs)"
  by (induction kvs arbitrary: m) (auto simp: ins_all_def inv_ins get_ins)

lemma ins_all_perm:
  assumes "inv m" "distinct (map fst xs)" "distinct (map fst ys)" "set xs = set ys"
  shows "ins_all xs m = ins_all ys m"
proof (rule canonical)
  have "map_of (rev xs) = map_of (rev ys)"
    using assms(2-4) by (simp add: map_of_inject_set rev_map [symmetric])
  then show "get (ins_all xs m) = get (ins_all ys m)"
    using assms(1) by (simp add: get_ins_all map_upds_def zip_map_fst_snd)
qed (simp_all add: assms inv_ins_all)

end

type_synonym ('k, 'v) btree = "('k \<times> 'v) list"

fun bt_insert :: "'k::linorder \<Rightarrow> 'v \<Rightarrow> ('k, 'v) btree \<Rightarrow> ('k, 'v) btree" where
  "bt_insert k v [] = [(k, v)]"
| "bt_insert k v ((k', v') # m) =
     (if k < k' then (k, v) # (k', v') # m
      else if k = k' then (k, v) # m
      else (k', v') # bt_insert k v m)"

definition bt_inv :: "('k::linorder, 'v) btree \<Rightarrow> bool" where
  "bt_inv m \<longleftrightarrow> sorted_wrt (<) (map fst m)"

lemma bt_keys_insert: "set (map fst (bt_insert k v m)) = insert k (set (map fst m))"
proof (induction m)
  case Nil
  then show ?case by simp
next
  case (Cons kv m)
  then show ?case by (cases kv) (simp add: insert_commute)
qed

lemma bt_inv_Nil [simp]: "bt_inv []"
  by (simp add: bt_inv_def)

lemma bt_inv_insert: "bt_inv m \<Longrightarrow> bt_inv (bt_insert k v m)"
proof (induction m)
  case Nil
  then show ?case by (simp add: bt_inv_def)
next
  case (Cons kv m)
  obtain k' v' where kv: "kv = (k', v')" by (cases kv)
  from Cons.prems have "bt_inv m" "\<forall>x\<in>set (map fst m). k' < x" by (auto simp: bt_inv_def kv)
  with Cons.IH bt_keys_insert [of k v m] show ?case
    using Cons.prems by (auto simp: bt_inv_def kv)
qed

lemma map_of_bt_insert: "bt_inv m \<Longrightarrow> map_of (bt_insert k v m) = (map_of m)(k \<mapsto> v)"
  by (induction m) (auto simp: bt_inv_def fun_eq_iff)

lemma bt_canonical: "bt_inv m \<Longrightarrow> bt_inv m' \<Longrightarrow> map_of m = map_of m' \<Longrightarrow> m = m'"
proof (rule map_sorted_distinct_set_unique [where f = fst])
  assume m: "bt_inv m" "bt_inv m'" "map_of m = map_of m'"
  then have d: "distinct (map fst m)" "distinct (map fst m')"
    by (auto simp: bt_inv_def strict_sorted_iff)
  with m(3) show eq: "set m = set m'"
    by (metis map_of_inject_set)
  show "inj_on fst (set m \<union> set m')" using d eq by (simp add: distinct_map)
qed (auto simp: bt_inv_def strict_sorted_iff)

interpretation bt: ordered_map bt_insert map_of bt_inv
  by unfold_locales (simp_all add: map_of_bt_insert bt_inv_insert bt_canonical)

lemma bt_insert_length: "length (bt_insert k v m) \<le> Suc (length m)"
  by (induction m) auto

end
