(* ===== verification/A1_Errors.thy ===== *)
theory A1_Errors
  imports A1_Prelude
begin

text \<open>
  The errors of \<open>src/error.rs\<close>: \<open>A1StorageError\<close>, the enumeration \<open>A1Error\<close> with its
  display text, its stable error code and its HTTP status. Numbers keep their widths where
  the code has \<open>u8\<close> and \<open>u64\<close>; a hop index is a \<open>usize\<close> and a \<open>nat\<close> here.
\<close>

section \<open>Storage errors\<close>

datatype storage_error_kind = Transient | Permanent

record storage_error =
  se_kind :: storage_error_kind
  se_message :: string

definition storage_transient :: "string \<Rightarrow> storage_error" where
  "storage_transient msg = \<lparr>se_kind = Transient, se_message = msg\<rparr>"

definition storage_permanent :: "string \<Rightarrow> storage_error" where
  "storage_permanent msg = \<lparr>se_kind = Permanent, se_message = msg\<rparr>"

definition storage_is_transient :: "storage_error \<Rightarrow> bool" where
  "storage_is_transient e \<longleftrightarrow> se_kind e = Transient"

text \<open>The hand-written \<open>PartialEq\<close>: two storage errors are equal when their kinds are.\<close>

definition storage_error_eq :: "storage_error \<Rightarrow> storage_error \<Rightarrow> bool" where
  "storage_error_eq a b \<longleftrightarrow> se_kind a = se_kind b"

definition display_storage_error :: "storage_error \<Rightarrow> string" where
  "display_storage_error e =
     (case se_kind e of Transient \<Rightarrow> ''transient'' | Permanent \<Rightarrow> ''permanent'')
       @ '' storage error: '' @ se_message e"

section \<open>Library errors\<close>

datatype a1_error =
    EmptyChain
  | StorageFailure storage_error
  | RootMismatch
  | BrokenLinkage nat
  | InvalidSignature nat
  | NotYetValid nat u64 u64
  | Expired nat u64 u64
  | TemporalViolation nat u64 u64
  | MaxDepthExceeded nat u8
  | InvalidSubScopeProof
  | ScopeEscalation nat
  | UnauthorizedLeaf
  | ScopeViolation
  | NonceReplay
  | Revoked
  | IntentNotFound
  | EmptyTree
  | WireFormatError string
  | UnsupportedVersion u8 u8
  | PolicyViolation string
  | BatchItemFailed nat string
  | MacVerificationFailed
  | NamespaceMismatch string string
  | RateLimitExceeded
  | StorageUnhealthy string
  | PassportNarrowingViolation
  | UnsupportedAlgorithm u8
  | AlgorithmMismatch string string
  | HybridSignatureInvalid string
  | PqSignatureMissing string
  | InvalidHybridKeyLength string nat nat

abbreviation decw :: "'a::len word \<Rightarrow> string" where
  "decw w \<equiv> dec (unat w)"

text \<open>A value in single quotes (character 39), as the format strings write it.\<close>

definition quoted :: "string \<Rightarrow> string" where
  "quoted s = char_of (39::nat) # s @ [char_of (39::nat)]"

fun display_error :: "a1_error \<Rightarrow> string" where
  "display_error EmptyChain = ''delegation chain is empty''"
| "display_error (StorageFailure e) = ''storage backend failure: '' @ display_storage_error e"
| "display_error RootMismatch = ''chain does not anchor to the declared principal''"
| "display_error (BrokenLinkage i) = ''delegation linkage broken at hop '' @ dec i"
| "display_error (InvalidSignature i) = ''invalid signature at hop '' @ dec i"
| "display_error (NotYetValid i a b) =
     ''delegation at hop '' @ dec i @ '' not yet valid (issued_at='' @ decw a @ '', now='' @ decw b @ '')''"
| "display_error (Expired i a b) =
     ''delegation at hop '' @ dec i @ '' has expired (expiry='' @ decw a @ '', now='' @ decw b @ '')''"
| "display_error (TemporalViolation i a b) =
     ''temporal violation at hop '' @ dec i @ '': child expiry '' @ decw a
       @ '' exceeds parent expiry '' @ decw b"
| "display_error (MaxDepthExceeded i l) =
     ''depth limit exceeded at hop '' @ dec i @ '' (limit='' @ decw l @ '')''"
| "display_error InvalidSubScopeProof = ''sub-scope proof is structurally invalid''"
| "display_error (ScopeEscalation i) =
     ''scope escalation at hop '' @ dec i
       @ '': delegated scope is not within the delegator'' @ [char_of (39::nat)] @ ''s authorization''"
| "display_error UnauthorizedLeaf = ''executing agent is not the terminal delegate''"
| "display_error ScopeViolation = ''execution intent is not within the terminal scope''"
| "display_error NonceReplay = ''nonce has already been consumed''"
| "display_error Revoked = ''delegation certificate has been revoked''"
| "display_error IntentNotFound = ''intent is not present in this tree''"
| "display_error EmptyTree = ''intent tree requires at least one intent''"
| "display_error (WireFormatError m) = ''wire format error: '' @ m"
| "display_error (UnsupportedVersion e g) =
     ''unsupported certificate version: expected '' @ decw e @ '', got '' @ decw g"
| "display_error (PolicyViolation m) = ''policy violation: '' @ m"
| "display_error (BatchItemFailed i r) =
     ''batch authorization failed at index '' @ dec i @ '': '' @ r"
| "display_error MacVerificationFailed = ''MAC verification failed''"
| "display_error (NamespaceMismatch c r) =
     ''namespace mismatch: chain namespace is '' @ quoted c @ '', authorization requested for ''
       @ quoted r"
| "display_error RateLimitExceeded = ''rate limit exceeded for key''"
| "display_error (StorageUnhealthy m) = ''storage health check failed: '' @ m"
| "display_error PassportNarrowingViolation =
     ''passport capability narrowing violation: requested scope exceeds granted passport capabilities''"
| "display_error (UnsupportedAlgorithm t) = ''unsupported signature algorithm tag: '' @ decw t"
| "display_error (AlgorithmMismatch e f) =
     ''signature algorithm mismatch: expected '' @ e @ '', found '' @ f"
| "display_error (HybridSignatureInvalid c) =
     ''hybrid signature invalid: '' @ c @ '' component failed verification''"
| "display_error (PqSignatureMissing a) =
     ''post-quantum signature component is missing for algorithm '' @ a"
| "display_error (InvalidHybridKeyLength a e f) =
     ''invalid hybrid key length for '' @ a @ '': expected '' @ dec e @ '' bytes, found '' @ dec f"

definition as_storage_error :: "a1_error \<Rightarrow> storage_error option" where
  "as_storage_error e = (case e of StorageFailure s \<Rightarrow> Some s | _ \<Rightarrow> None)"

definition is_transient_storage_failure :: "a1_error \<Rightarrow> bool" where
  "is_transient_storage_failure e =
     (case as_storage_error e of None \<Rightarrow> False | Some s \<Rightarrow> storage_is_transient s)"

definition error_code :: "a1_error \<Rightarrow> string" where
  "error_code err = (case err of
      Expired _ _ _ \<Rightarrow> ''CERT_EXPIRED''
    | Revoked \<Rightarrow> ''CERT_REVOKED''
    | NonceReplay \<Rightarrow> ''NONCE_REPLAY''
    | ScopeViolation \<Rightarrow> ''SCOPE_VIOLATION''
    | ScopeEscalation _ \<Rightarrow> ''SCOPE_ESCALATION''
    | InvalidSignature _ \<Rightarrow> ''INVALID_SIGNATURE''
    | BrokenLinkage _ \<Rightarrow> ''CHAIN_BROKEN_LINKAGE''
    | MaxDepthExceeded _ _ \<Rightarrow> ''CHAIN_DEPTH_EXCEEDED''
    | PolicyViolation _ \<Rightarrow> ''POLICY_VIOLATION''
    | StorageFailure _ \<Rightarrow> ''STORAGE_ERROR''
    | BatchItemFailed _ _ \<Rightarrow> ''BATCH_ITEM_FAILED''
    | MacVerificationFailed \<Rightarrow> ''MAC_VERIFICATION_FAILED''
    | NamespaceMismatch _ _ \<Rightarrow> ''NAMESPACE_MISMATCH''
    | RateLimitExceeded \<Rightarrow> ''RATE_LIMIT_EXCEEDED''
    | StorageUnhealthy _ \<Rightarrow> ''STORAGE_UNHEALTHY''
    | PassportNarrowingViolation \<Rightarrow> ''PASSPORT_NARROWING_VIOLATION''
    | UnsupportedAlgorithm _ \<Rightarrow> ''UNSUPPORTED_ALGORITHM''
    | AlgorithmMismatch _ _ \<Rightarrow> ''ALGORITHM_MISMATCH''
    | HybridSignatureInvalid _ \<Rightarrow> ''HYBRID_SIGNATURE_INVALID''
    | PqSignatureMissing _ \<Rightarrow> ''PQ_SIGNATURE_MISSING''
    | InvalidHybridKeyLength _ _ _ \<Rightarrow> ''INVALID_HYBRID_KEY_LENGTH''
    | _ \<Rightarrow> ''AUTHORIZATION_FAILED'')"

definition http_status :: "a1_error \<Rightarrow> nat" where
  "http_status err = (case err of
      StorageFailure e \<Rightarrow> if storage_is_transient e then 503 else 500
    | StorageUnhealthy _ \<Rightarrow> 503
    | RateLimitExceeded \<Rightarrow> 429
    | EmptyChain \<Rightarrow> 400 | WireFormatError _ \<Rightarrow> 400 | UnsupportedVersion _ _ \<Rightarrow> 400
    | Revoked \<Rightarrow> 401 | Expired _ _ _ \<Rightarrow> 401 | NotYetValid _ _ _ \<Rightarrow> 401 | NonceReplay \<Rightarrow> 401
    | ScopeViolation \<Rightarrow> 403 | ScopeEscalation _ \<Rightarrow> 403 | UnauthorizedLeaf \<Rightarrow> 403
    | InvalidSignature _ \<Rightarrow> 403 | RootMismatch \<Rightarrow> 403 | BrokenLinkage _ \<Rightarrow> 403
    | PolicyViolation _ \<Rightarrow> 403 | NamespaceMismatch _ _ \<Rightarrow> 403
    | MacVerificationFailed \<Rightarrow> 401
    | PassportNarrowingViolation \<Rightarrow> 403
    | UnsupportedAlgorithm _ \<Rightarrow> 400
    | AlgorithmMismatch _ _ \<Rightarrow> 400
    | HybridSignatureInvalid _ \<Rightarrow> 403
    | PqSignatureMissing _ \<Rightarrow> 400
    | InvalidHybridKeyLength _ _ _ \<Rightarrow> 400
    | _ \<Rightarrow> 403)"

lemma http_status_retryable:
  "http_status e = 503 \<longleftrightarrow> is_transient_storage_failure e \<or> (\<exists>m. e = StorageUnhealthy m)"
  by (cases e) (simp_all add: http_status_def is_transient_storage_failure_def as_storage_error_def)

text \<open>\<open>PolicyViolation\<close> is the only error an audit record files under its own outcome.\<close>

definition is_policy_violation :: "a1_error \<Rightarrow> bool" where
  "is_policy_violation e = (case e of PolicyViolation _ \<Rightarrow> True | _ \<Rightarrow> False)"

lemma storage_error_sims [simp]:
  "storage_is_transient (storage_permanent m) = False"
  "storage_is_transient (storage_transient m) = True"
  by (simp_all add: storage_is_transient_def storage_permanent_def storage_transient_def)

end
