(* ===== verification/A1_Crypto.thy ===== *)
theory A1_Crypto
  imports A1_Errors
begin

text \<open>
  The cryptographic layer of \<open>src/crypto.rs\<close> over the third-party crates the code calls.
  Those crates (\<open>blake3\<close>, \<open>ed25519_dalek\<close>, \<open>hex\<close>) are not part of the repository: they
  are the fields of the record \<open>ext\<close>, which every definition that uses them takes as its
  first argument. What a theorem relies on of them is a named predicate (\<open>hash32\<close>,
  \<open>batch_ok\<close>, \<open>hex_ok\<close>, \<open>signer_ok\<close>). \<open>subtle\<close>'s constant-time comparison is equality.
\<close>

section \<open>The third-party crates\<close>

record ext =
  b3_derive :: "string \<Rightarrow> bytes \<Rightarrow> bytes" \<comment> \<open>\<open>blake3\<close> in derive-key mode: context, input\<close>
  b3_keyed :: "bytes \<Rightarrow> bytes \<Rightarrow> bytes" \<comment> \<open>\<open>blake3\<close> in keyed mode: key, input\<close>
  b3_hash :: "bytes \<Rightarrow> bytes" \<comment> \<open>\<open>blake3::hash\<close>\<close>
  ed_verify :: "bytes \<Rightarrow> bytes \<Rightarrow> bytes \<Rightarrow> bool" \<comment> \<open>public key, message, signature\<close>
  ed_verify_batch :: "bytes list \<Rightarrow> bytes list \<Rightarrow> bytes list \<Rightarrow> bool"
    \<comment> \<open>messages, signatures, public keys\<close>
  ed_valid_pk :: "bytes \<Rightarrow> bool" \<comment> \<open>\<open>VerifyingKey::from_bytes\<close> succeeds\<close>
  hex_enc :: "bytes \<Rightarrow> string"
  hex_dec :: "string \<Rightarrow> bytes option"

text \<open>A signing backend, the trait \<open>Signer\<close>: its public key and its signing function.\<close>

record signer =
  verifying_key :: bytes
  sign_message :: "bytes \<Rightarrow> bytes"

text \<open>Documented behaviour of the crates, each named where a theorem assumes it.\<close>

definition hash32 :: "ext \<Rightarrow> bool" where
  "hash32 E \<longleftrightarrow> (\<forall>c m. length (b3_derive E c m) = 32)"

definition batch_complete :: "ext \<Rightarrow> bool" where
  "batch_complete E \<longleftrightarrow> (\<forall>ms ss ps. length ms = length ss \<longrightarrow> length ss = length ps \<longrightarrow>
     (\<forall>i<length ms. ed_verify E (ps ! i) (ms ! i) (ss ! i)) \<longrightarrow> ed_verify_batch E ms ss ps)"

definition batch_sound :: "ext \<Rightarrow> bool" where
  "batch_sound E \<longleftrightarrow> (\<forall>ms ss ps. length ms = length ss \<longrightarrow> length ss = length ps \<longrightarrow>
     ed_verify_batch E ms ss ps \<longrightarrow> (\<forall>i<length ms. ed_verify E (ps ! i) (ms ! i) (ss ! i)))"

definition hex_ok :: "ext \<Rightarrow> bool" where
  "hex_ok E \<longleftrightarrow> (\<forall>b. hex_dec E (hex_enc E b) = Some b)"

definition signer_ok :: "ext \<Rightarrow> signer \<Rightarrow> bool" where
  "signer_ok E s \<longleftrightarrow> (\<forall>m. ed_verify E (verifying_key s) m (sign_message s m))"

section \<open>Incremental hashing\<close>

text \<open>
  A \<open>blake3::Hasher\<close> in derive-key mode is its context string and the input absorbed so far:
  \<open>update\<close> appends, \<open>finalize\<close> hashes the whole input.
\<close>

type_synonym hasher = "string \<times> bytes"

definition new_derive_key :: "string \<Rightarrow> hasher" where
  "new_derive_key c = (c, [])"

definition h_update :: "hasher \<Rightarrow> bytes \<Rightarrow> hasher" where
  "h_update h b = (fst h, snd h @ b)"

definition h_updates :: "hasher \<Rightarrow> bytes list \<Rightarrow> hasher" where
  "h_updates h bs = fold (\<lambda>b h. h_update h b) bs h"

definition h_finalize :: "ext \<Rightarrow> hasher \<Rightarrow> bytes" where
  "h_finalize E h = b3_derive E (fst h) (snd h)"

lemma h_updates_eq: "h_updates h bs = (fst h, snd h @ concat bs)"
  by (induction bs arbitrary: h) (auto simp: h_updates_def h_update_def)

lemma length_h_finalize [simp, enc_len]: "hash32 E \<Longrightarrow> length (h_finalize E h) = 32"
  by (simp add: h_finalize_def hash32_def)

section \<open>Domain separation (src/crypto.rs)\<close>

definition CERT_VERSION :: u8 where "CERT_VERSION = 1"

definition DOMAIN_CERT_SIG :: string where
  "DOMAIN_CERT_SIG = ''a1::64796f6c6f::cert::sig::v2.8.0''"
definition DOMAIN_CERT_FP :: string where
  "DOMAIN_CERT_FP = ''a1::64796f6c6f::cert::fp::v2.8.0''"
definition DOMAIN_CHAIN_FP :: string where
  "DOMAIN_CHAIN_FP = ''a1::64796f6c6f::chain::fp::v2.8.0''"
definition DOMAIN_INTENT_LEAF :: string where
  "DOMAIN_INTENT_LEAF = ''a1::64796f6c6f::intent::leaf::v2.8.0''"
definition DOMAIN_MERKLE_NODE :: string where
  "DOMAIN_MERKLE_NODE = ''a1::64796f6c6f::merkle::node::v2.8.0''"
definition DOMAIN_SUBSCOPE :: string where
  "DOMAIN_SUBSCOPE = ''a1::64796f6c6f::subscope::commit::v2.8.0''"
definition DOMAIN_CERT_EXT :: string where
  "DOMAIN_CERT_EXT = ''a1::64796f6c6f::cert::ext::v2.8.0''"

definition derive_key :: "string \<Rightarrow> u8 \<Rightarrow> hasher" where
  "derive_key domain version = h_update (new_derive_key domain) [version]"

definition hasher_cert_sig :: "u8 \<Rightarrow> hasher" where
  "hasher_cert_sig v = derive_key DOMAIN_CERT_SIG v"
definition hasher_cert_fp :: "u8 \<Rightarrow> hasher" where
  "hasher_cert_fp v = derive_key DOMAIN_CERT_FP v"
definition hasher_intent_leaf :: "u8 \<Rightarrow> hasher" where
  "hasher_intent_leaf v = derive_key DOMAIN_INTENT_LEAF v"
definition hasher_merkle_node :: "u8 \<Rightarrow> hasher" where
  "hasher_merkle_node v = derive_key DOMAIN_MERKLE_NODE v"
definition hasher_subscope :: "u8 \<Rightarrow> hasher" where
  "hasher_subscope v = derive_key DOMAIN_SUBSCOPE v"
definition hasher_cert_ext :: "u8 \<Rightarrow> hasher" where
  "hasher_cert_ext v = derive_key DOMAIN_CERT_EXT v"

definition merkle_node :: "ext \<Rightarrow> bytes \<Rightarrow> bytes \<Rightarrow> bytes" where
  "merkle_node E l r = h_finalize E (h_updates (hasher_merkle_node CERT_VERSION) [l, r])"

definition derive_subkey :: "ext \<Rightarrow> bytes \<Rightarrow> bytes \<Rightarrow> bytes" where
  "derive_subkey E seed info =
     h_finalize E (h_updates (new_derive_key ''a1::64796f6c6f::kdf::v2.8.0'')
       [seed, le64 (u64_of (length info)), info])"

lemmas hasher_defs = hasher_cert_sig_def hasher_cert_fp_def hasher_intent_leaf_def
  hasher_merkle_node_def hasher_subscope_def hasher_cert_ext_def derive_key_def
  new_derive_key_def h_update_def h_updates_eq

text \<open>Every domain string of \<open>crypto.rs\<close> is used by one kind of digest only.\<close>

lemma domains_distinct:
  "distinct [DOMAIN_CERT_SIG, DOMAIN_CERT_FP, DOMAIN_CHAIN_FP, DOMAIN_INTENT_LEAF,
     DOMAIN_MERKLE_NODE, DOMAIN_SUBSCOPE, DOMAIN_CERT_EXT]"
  by (simp add: DOMAIN_CERT_SIG_def DOMAIN_CERT_FP_def DOMAIN_CHAIN_FP_def
      DOMAIN_INTENT_LEAF_def DOMAIN_MERKLE_NODE_def DOMAIN_SUBSCOPE_def DOMAIN_CERT_EXT_def)

section \<open>A concrete instance\<close>

text \<open>
  An executable stand-in for the crates, used by the witnesses only: a keyless 32-byte
  checksum for the hash, a signature that is the public key followed by the message digest,
  and the usual hexadecimal codec. It satisfies every predicate above.
\<close>

definition toy_digest :: "bytes \<Rightarrow> bytes" where
  "toy_digest m = (let s = fold (\<lambda>b a. a * 31 + ucast b + 7) m (5381 :: u64)
     in le64 s @ le64 (s * 33 + 1) @ le64 (s XOR drop_bit 7 s) @ le64 (s + 99))"

fun nibble :: "nat \<Rightarrow> char" where
  "nibble n = (if n < 10 then char_of (48 + n) else char_of (87 + n))"

definition unnibble :: "char \<Rightarrow> nat option" where
  "unnibble c = (let n = of_char c in
     if 48 \<le> n \<and> n < 58 then Some (n - 48)
     else if 97 \<le> n \<and> n < 103 then Some (n - 87) else None)"

fun toy_hex_enc :: "bytes \<Rightarrow> string" where
  "toy_hex_enc [] = []"
| "toy_hex_enc (b # bs) = nibble (unat b div 16) # nibble (unat b mod 16) # toy_hex_enc bs"

fun toy_hex_dec :: "string \<Rightarrow> bytes option" where
  "toy_hex_dec [] = Some []"
| "toy_hex_dec (c # d # cs) = (case (unnibble c, unnibble d, toy_hex_dec cs) of
     (Some h, Some l, Some bs) \<Rightarrow> Some (word_of_nat (16 * h + l) # bs) | _ \<Rightarrow> None)"
| "toy_hex_dec [c] = None"

definition toy_verify :: "bytes \<Rightarrow> bytes \<Rightarrow> bytes \<Rightarrow> bool" where
  "toy_verify pk m s \<longleftrightarrow> s = pk @ toy_digest m"

definition toy_ext :: ext where
  "toy_ext = \<lparr>b3_derive = (\<lambda>c m. toy_digest (str_bytes c @ m)), b3_keyed = (\<lambda>k m. toy_digest (k @ m)),
     b3_hash = toy_digest, ed_verify = toy_verify,
     ed_verify_batch = (\<lambda>ms ss ps. length ms = length ss \<and> length ss = length ps \<and>
       list_all (\<lambda>(m, s, p). toy_verify p m s) (zip ms (zip ss ps))),
     ed_valid_pk = (\<lambda>pk. length pk = 32), hex_enc = toy_hex_enc, hex_dec = toy_hex_dec\<rparr>"

definition toy_signer :: "bytes \<Rightarrow> signer" where
  "toy_signer pk = \<lparr>verifying_key = pk, sign_message = (\<lambda>m. pk @ toy_digest m)\<rparr>"

lemma toy_hash32 [simp]: "hash32 toy_ext"
  by (simp add: hash32_def toy_ext_def toy_digest_def Let_def)

lemma toy_batch_complete [simp]: "batch_complete toy_ext"
  by (auto simp: batch_complete_def toy_ext_def list_all_iff set_zip)

lemma toy_batch_sound [simp]: "batch_sound toy_ext"
  by (auto simp: batch_sound_def toy_ext_def list_all_length)

lemma toy_signer_ok [simp]: "signer_ok toy_ext (toy_signer pk)"
  by (simp add: signer_ok_def toy_ext_def toy_signer_def toy_verify_def)

lemma unnibble_nibble: "n < 16 \<Longrightarrow> unnibble (nibble n) = Some n"
  by (auto simp: unnibble_def Let_def of_char_of)

lemma toy_hex_round: "toy_hex_dec (toy_hex_enc bs) = Some bs"
proof (induction bs)
  case Nil
  then show ?case by simp
next
  case (Cons b bs)
  have "unat b < 256" using unsigned_less [of b] by simp
  then have "unat b div 16 < 16" "unat b mod 16 < 16" by auto
  moreover have "16 * (unat b div 16) + unat b mod 16 = unat b" by simp
  ultimately show ?case using Cons
    by (simp add: unnibble_nibble del: nibble.simps of_nat_add of_nat_mult)
qed

lemma toy_hex_ok [simp]: "hex_ok toy_ext"
  by (simp add: hex_ok_def toy_ext_def toy_hex_round)

end
