(* ===== verification/A1_Intent.thy ===== *)
theory A1_Intent
  imports A1_Crypto
begin

text \<open>
  \<open>src/intent.rs\<close>: structured intents with canonical hashing, the Merkle tree over a set of
  intent hashes with its inclusion proofs, and the sub-scope proof that a delegated scope lies
  inside its parent. The trees are the lists of layers the code builds. Completeness (every
  leaf has a proof that verifies) needs nothing of the hash; soundness (a proof that verifies
  speaks of a leaf) assumes that the node hash does not collide on the pairs that the tree
  and the proof actually hash.
\<close>

section \<open>Structured intents\<close>

definition MAX_ACTION_LEN :: nat where "MAX_ACTION_LEN = 256"
definition MAX_PARAM_KEY_LEN :: nat where "MAX_PARAM_KEY_LEN = 128"
definition MAX_PARAM_VALUE_LEN :: nat where "MAX_PARAM_VALUE_LEN = 4096"
definition MAX_INTENT_PARAMS :: nat where "MAX_INTENT_PARAMS = 64"

text \<open>
  \<open>str::trim\<close> and \<open>str::to_lowercase\<close> on ASCII text; bytes outside ASCII are left alone, so
  the model speaks for ASCII keys and values.
\<close>

definition is_ws :: "char \<Rightarrow> bool" where
  "is_ws c \<longleftrightarrow> (let n = of_char c :: nat in n = 32 \<or> (9 \<le> n \<and> n \<le> 13))"

definition str_trim :: "string \<Rightarrow> string" where
  "str_trim s = rev (dropWhile is_ws (rev (dropWhile is_ws s)))"

definition lower_char :: "char \<Rightarrow> char" where
  "lower_char c = (let n = of_char c :: nat in if 65 \<le> n \<and> n \<le> 90 then char_of (n + 32) else c)"

definition str_lower :: "string \<Rightarrow> string" where
  "str_lower s = map lower_char s"

record intent =
  action :: string
  params :: "(string, string) btree"

definition intent_new :: "string \<Rightarrow> a1_error + intent" where
  "intent_new a =
     (if a = [] then Inl (WireFormatError ''Intent action cannot be empty'')
      else if length a > MAX_ACTION_LEN
      then Inl (WireFormatError (''Intent action exceeds maximum length of '' @ dec MAX_ACTION_LEN))
      else Inr \<lparr>action = a, params = []\<rparr>)"

definition intent_try_new :: "string \<Rightarrow> a1_error + intent" where
  "intent_try_new a = intent_new a"

definition intent_try_param :: "intent \<Rightarrow> string \<Rightarrow> string \<Rightarrow> a1_error + intent" where
  "intent_try_param i key value =
     (if length (params i) \<ge> MAX_INTENT_PARAMS
      then Inl (WireFormatError (''Intent exceeds maximum parameter count of '' @ dec MAX_INTENT_PARAMS))
      else let k = str_lower (str_trim key); v = str_lower (str_trim value) in
        if length k > MAX_PARAM_KEY_LEN
        then Inl (WireFormatError (''Intent parameter key exceeds maximum length of '' @ dec MAX_PARAM_KEY_LEN))
        else if length v > MAX_PARAM_VALUE_LEN
        then Inl (WireFormatError (''Intent parameter value exceeds maximum length of '' @ dec MAX_PARAM_VALUE_LEN))
        else Inr (i\<lparr>params := bt_insert k v (params i)\<rparr>))"

text \<open>\<open>param\<close> panics where \<open>try_param\<close> fails; \<open>None\<close> is the panic.\<close>

definition intent_param :: "intent \<Rightarrow> string \<Rightarrow> string \<Rightarrow> intent option" where
  "intent_param i key value = (case intent_try_param i key value of Inl _ \<Rightarrow> None | Inr j \<Rightarrow> Some j)"

definition field :: "string \<Rightarrow> bytes list" where
  "field s = [le64 (u64_of (length s)), str_bytes s]"

definition intent_chunks :: "intent \<Rightarrow> bytes list" where
  "intent_chunks i =
     [str_bytes ''a1::dyolo::intent::v2.8.0'']
     @ field (action i)
     @ [le64 (u64_of (length (params i)))]
     @ concat (map (\<lambda>(k, v). field k @ field v) (params i))"

definition intent_hash_of :: "ext \<Rightarrow> intent \<Rightarrow> bytes" where
  "intent_hash_of E i = h_finalize E (h_updates (hasher_intent_leaf CERT_VERSION) (intent_chunks i))"

fun join_params :: "(string \<times> string) list \<Rightarrow> string" where
  "join_params [] = []"
| "join_params [(k, v)] = k @ ''='' @ v"
| "join_params ((k, v) # ps) = k @ ''='' @ v @ '','' @ join_params ps"

definition intent_display :: "intent \<Rightarrow> string" where
  "intent_display i = action i @ (if params i = [] then [] else ''['' @ join_params (params i) @ '']'')"

definition intent_hash :: "ext \<Rightarrow> string \<Rightarrow> bytes \<Rightarrow> bytes" where
  "intent_hash E a ps = h_finalize E (h_updates (hasher_intent_leaf CERT_VERSION)
     (field a @ [le64 (u64_of (length ps)), ps]))"

text \<open>The invariant of a built intent.\<close>

definition intent_wf :: "intent \<Rightarrow> bool" where
  "intent_wf i \<longleftrightarrow> action i \<noteq> [] \<and> length (action i) \<le> MAX_ACTION_LEN
     \<and> length (params i) \<le> MAX_INTENT_PARAMS \<and> bt_inv (params i)
     \<and> (\<forall>(k, v)\<in>set (params i). length k \<le> MAX_PARAM_KEY_LEN \<and> length v \<le> MAX_PARAM_VALUE_LEN)"

lemma intent_new_wf: "intent_new a = Inr i \<Longrightarrow> intent_wf i \<and> action i = a \<and> params i = []"
  by (auto simp: intent_new_def intent_wf_def split: if_splits)

lemma intent_new_Inr_iff:
  "intent_new a = Inr i \<longleftrightarrow> a \<noteq> [] \<and> length a \<le> MAX_ACTION_LEN \<and> i = \<lparr>action = a, params = []\<rparr>"
  by (auto simp: intent_new_def)

lemma set_bt_insert: "set (bt_insert k v m) \<subseteq> insert (k, v) (set m)"
proof (induction m)
  case Nil
  then show ?case by simp
next
  case (Cons kv m)
  then show ?case by (cases kv) auto
qed

lemma intent_try_param_wf: "intent_wf i \<Longrightarrow> intent_try_param i k v = Inr j \<Longrightarrow> intent_wf j"
  using bt_insert_length [of "str_lower (str_trim k)" "str_lower (str_trim v)" "params i"]
    set_bt_insert [of "str_lower (str_trim k)" "str_lower (str_trim v)" "params i"]
  by (auto simp: intent_try_param_def intent_wf_def Let_def bt_inv_insert split: if_splits)

text \<open>Two parameters with different normal keys may be added in either order.\<close>

lemma intent_param_commute:
  assumes "intent_wf i" and ne: "str_lower (str_trim k) \<noteq> str_lower (str_trim k')"
    and a: "intent_try_param i k v = Inr i1" "intent_try_param i1 k' v' = Inr i2"
    and b: "intent_try_param i k' v' = Inr j1" "intent_try_param j1 k v = Inr j2"
  shows "i2 = j2"
proof -
  have inv: "bt_inv (params i)" using assms(1) by (simp add: intent_wf_def)
  show ?thesis
    using a b bt.ins_commute [OF inv ne] by (auto simp: intent_try_param_def Let_def split: if_splits)
qed

text \<open>The canonical encoding is injective on well-formed intents.\<close>

lemma concat_field: "concat (field s) = lp (str_bytes s)"
  by (simp add: field_def lp_def)

lemma concat_intent_chunks:
  "concat (intent_chunks i) = str_bytes ''a1::dyolo::intent::v2.8.0''
     @ lp (str_bytes (action i))
     @ counted (\<lambda>p. lp (str_bytes (fst p)) @ lp (str_bytes (snd p))) (params i)"
proof -
  have "concat (concat (map (\<lambda>(k, v). field k @ field v) ps)) =
      concat (map (\<lambda>p. lp (str_bytes (fst p)) @ lp (str_bytes (snd p))) ps)" for ps
    by (induction ps) (auto simp: concat_field)
  then show ?thesis by (simp add: intent_chunks_def concat_field counted_def)
qed

lemma intent_encoding_inj:
  assumes "intent_wf i" "intent_wf j" "concat (intent_chunks i) = concat (intent_chunks j)"
  shows "i = j"
proof -
  let ?e = "\<lambda>p :: string \<times> string. lp (str_bytes (fst p)) @ lp (str_bytes (snd p))"
  let ?P = "\<lambda>p :: string \<times> string. fits (fst p) \<and> fits (snd p)"
  have sd: "self_delim (\<lambda>xs. fits xs \<and> list_all ?P xs) (counted ?e)"
    by (intro self_delim_counted self_delim_pair self_delim_lp_str)
  have fit: "fits (action k)" "fits (params k) \<and> list_all ?P (params k)" if "intent_wf k" for k
    using that by (auto simp: intent_wf_def fits_def list_all_iff MAX_ACTION_LEN_def
        MAX_INTENT_PARAMS_def MAX_PARAM_KEY_LEN_def MAX_PARAM_VALUE_LEN_def)
  have eq: "lp (str_bytes (action i)) @ counted ?e (params i)
      = lp (str_bytes (action j)) @ counted ?e (params j)"
    using assms(3) unfolding concat_intent_chunks by simp
  have "action i = action j \<and> counted ?e (params i) = counted ?e (params j)"
    by (rule self_delimD [OF self_delim_lp_str]) (use fit assms(1,2) eq in auto)
  moreover from this have "params i = params j"
    using self_delimD [OF sd fit(2) [OF assms(1)] fit(2) [OF assms(2)], of "[]" "[]"] by simp
  ultimately show "i = j" by simp
qed

section \<open>Merkle proofs\<close>

record sibling_node =
  sib_hash :: bytes
  is_left :: bool

record merkle_proof =
  siblings :: "sibling_node list"

definition proof_default :: merkle_proof where
  "proof_default = \<lparr>siblings = []\<rparr>"

definition verify_step :: "ext \<Rightarrow> sibling_node \<Rightarrow> bytes \<Rightarrow> bytes" where
  "verify_step E node current =
     (if is_left node then merkle_node E (sib_hash node) current
      else merkle_node E current (sib_hash node))"

definition merkle_verify :: "ext \<Rightarrow> merkle_proof \<Rightarrow> bytes \<Rightarrow> bytes \<Rightarrow> bool" where
  "merkle_verify E p leaf expected_root \<longleftrightarrow> fold (verify_step E) (siblings p) leaf = expected_root"

section \<open>Intent trees\<close>

record intent_tree =
  leaves :: "bytes list"
  layers :: "bytes list list"

text \<open>One pass over \<open>current.chunks(2)\<close>: pairs are hashed, an odd last node moves up as it is.\<close>

fun next_layer :: "ext \<Rightarrow> bytes list \<Rightarrow> bytes list" where
  "next_layer E [] = []"
| "next_layer E [a] = [a]"
| "next_layer E (a # b # rest) = merkle_node E a b # next_layer E rest"

lemma length_next_layer: "length (next_layer E xs) = (length xs + 1) div 2"
  by (induction E xs rule: next_layer.induct) auto

text \<open>The layers above \<open>current\<close>: the \<open>while current.len() > 1\<close> loop of \<open>build\<close>.\<close>

function merkle_layers :: "ext \<Rightarrow> bytes list \<Rightarrow> bytes list list" where
  "merkle_layers E current =
     (if length current > 1
      then let next = next_layer E current in next # merkle_layers E next
      else [])"
  by pat_completeness auto
termination
  by (relation "measure (\<lambda>(E, current). length current)") (auto simp: length_next_layer)

declare merkle_layers.simps [simp del]

definition tree_build :: "ext \<Rightarrow> bytes list \<Rightarrow> a1_error + intent_tree" where
  "tree_build E intents =
     (if intents = [] then Inl EmptyTree
      else let current = remdups_adj (sort intents);
               ls = current # merkle_layers E current
           in Inr \<lparr>leaves = hd ls, layers = ls\<rparr>)"

definition tree_root :: "intent_tree \<Rightarrow> bytes" where
  "tree_root t = hd (last (layers t))"

text \<open>\<open>binary_search\<close> on the strictly sorted leaves: the position of the element, if it is there.\<close>

fun position :: "'a \<Rightarrow> 'a list \<Rightarrow> nat option" where
  "position x [] = None"
| "position x (y # ys) = (if x = y then Some 0 else map_option Suc (position x ys))"

fun prove_path :: "bytes list list \<Rightarrow> nat \<Rightarrow> sibling_node list" where
  "prove_path [] pos = []"
| "prove_path (layer # ls) pos =
     (let sibling_pos = (if even pos then pos + 1 else pos - 1) in
      (if sibling_pos < length layer
       then [\<lparr>sib_hash = layer ! sibling_pos, is_left = odd pos\<rparr>] else [])
      @ prove_path ls (pos div 2))"

definition tree_prove :: "intent_tree \<Rightarrow> bytes \<Rightarrow> a1_error + merkle_proof" where
  "tree_prove t x =
     bindR (ok_or IntentNotFound (position x (leaves t))) (\<lambda>pos.
       Inr \<lparr>siblings = prove_path (take (length (layers t) - 1) (layers t)) pos\<rparr>)"

definition tree_contains :: "intent_tree \<Rightarrow> bytes \<Rightarrow> bool" where
  "tree_contains t x \<longleftrightarrow> position x (leaves t) \<noteq> None"

definition leaf_count :: "intent_tree \<Rightarrow> nat" where
  "leaf_count t = length (leaves t)"

subsection \<open>Shape of the layers\<close>

lemma position_Some: "position x xs = Some i \<Longrightarrow> i < length xs \<and> xs ! i = x"
  by (induction xs arbitrary: i) (auto split: if_splits)

lemma position_None: "position x xs = None \<longleftrightarrow> x \<notin> set xs"
  by (induction xs) auto

lemma position_distinct: "distinct xs \<Longrightarrow> i < length xs \<Longrightarrow> position (xs ! i) xs = Some i"
  by (induction xs arbitrary: i) (auto simp: nth_Cons split: nat.splits)

lemma next_layer_nth:
  "i < (length xs + 1) div 2 \<Longrightarrow> next_layer E xs ! i =
     (if 2 * i + 1 < length xs then merkle_node E (xs ! (2 * i)) (xs ! (2 * i + 1)) else xs ! (2 * i))"
proof (induction E xs arbitrary: i rule: next_layer.induct)
  case (3 E a b rest)
  then show ?case by (cases i) auto
qed auto

lemma layers_last_single:
  "current \<noteq> [] \<Longrightarrow> length (last (current # merkle_layers E current)) = 1"
proof (induction E current rule: merkle_layers.induct)
  case (1 E current)
  show ?case
  proof (cases "length current > 1")
    case True
    then have "next_layer E current \<noteq> []"
      using length_next_layer [of E current] by (metis One_nat_def add_is_0 div_2_gt_zero
          list.size(3) less_add_one less_nat_zero_code not_gr_zero trans_less_add1)
    with 1 True show ?thesis by (simp add: merkle_layers.simps [of E current] Let_def)
  next
    case False
    with "1.prems" have "length current = 1" by (cases current) auto
    with False show ?thesis by (simp add: merkle_layers.simps [of E current])
  qed
qed

lemma remdups_adj_strict: "sorted xs \<Longrightarrow> sorted_wrt (<) (remdups_adj (xs :: 'a::linorder list))"
proof (induction xs rule: remdups_adj.induct)
  case (3 x y xs)
  show ?case
  proof (cases "x = y")
    case True
    with 3 show ?thesis by simp
  next
    case False
    with "3.prems" have "\<forall>z\<in>set (remdups_adj (y # xs)). x < z" by fastforce
    with False 3 show ?thesis by simp
  qed
qed simp_all

lemma sorted_dedup: "sorted_wrt (<) (remdups_adj (sort (xs :: 'a::linorder list)))"
  by (rule remdups_adj_strict) simp

lemma tree_build_Inr:
  assumes "tree_build E xs = Inr t"
  shows "xs \<noteq> []" "set (leaves t) = set xs" "sorted_wrt (<) (leaves t)"
    "layers t = leaves t # merkle_layers E (leaves t)" "leaves t \<noteq> []"
proof -
  let ?c = "remdups_adj (sort xs)"
  show xs: "xs \<noteq> []" using assms by (auto simp: tree_build_def)
  have t: "t = \<lparr>leaves = ?c, layers = ?c # merkle_layers E ?c\<rparr>"
    using assms xs by (simp add: tree_build_def Let_def)
  then show "set (leaves t) = set xs" "sorted_wrt (<) (leaves t)"
    "layers t = leaves t # merkle_layers E (leaves t)"
    using sorted_dedup [of xs] by simp_all
  with xs show "leaves t \<noteq> []" by (metis set_empty)
qed

text \<open>The tree depends on the set of intents only.\<close>

lemma tree_build_set:
  assumes "set xs = set ys" shows "tree_build E xs = tree_build E ys"
proof -
  have "remdups_adj (sort xs) = remdups_adj (sort ys)"
    using assms by (intro strict_sorted_equal sorted_dedup) simp
  moreover have "xs = [] \<longleftrightarrow> ys = []" using assms by (metis set_empty)
  ultimately show ?thesis by (simp add: tree_build_def Let_def)
qed

subsection \<open>Completeness of proofs\<close>

lemma step_up:
  assumes "pos < length layer" "length layer > 1"
  shows "fold (verify_step E) (prove_path [layer] pos) (layer ! pos) = next_layer E layer ! (pos div 2)"
proof -
  have lt: "pos div 2 < (length layer + 1) div 2" using assms by auto
  show ?thesis
  proof (cases "even pos")
    case True
    then have "2 * (pos div 2) = pos" by simp
    with True assms show ?thesis
      by (auto simp: next_layer_nth [OF lt] verify_step_def Let_def)
  next
    case False
    then have "2 * (pos div 2) = pos - 1" "Suc (pos - 1) = pos" by presburger+
    with False assms show ?thesis
      by (auto simp: next_layer_nth [OF lt] verify_step_def Let_def)
  qed
qed

lemma prove_path_Cons:
  "prove_path (layer # ls) pos = prove_path [layer] pos @ prove_path ls (pos div 2)"
  by (simp add: Let_def)

lemma climb:
  "pos < length current \<Longrightarrow>
     fold (verify_step E) (prove_path (butlast (current # merkle_layers E current)) pos) (current ! pos)
     = hd (last (current # merkle_layers E current))"
proof (induction E current arbitrary: pos rule: merkle_layers.induct)
  case (1 E current)
  show ?case
  proof (cases "length current > 1")
    case True
    let ?n = "next_layer E current"
    have lt: "pos div 2 < length ?n" using "1.prems" by (auto simp: length_next_layer)
    have ls: "merkle_layers E current = ?n # merkle_layers E ?n"
      using True by (simp add: merkle_layers.simps [of E current] Let_def)
    have "fold (verify_step E) (prove_path (butlast (current # merkle_layers E current)) pos) (current ! pos)
        = fold (verify_step E) (prove_path (butlast (?n # merkle_layers E ?n)) (pos div 2)) (?n ! (pos div 2))"
      unfolding ls by (subst butlast.simps, simp only: list.distinct if_False, subst prove_path_Cons)
        (simp only: fold_append o_apply step_up [OF "1.prems" True])
    also have "\<dots> = hd (last (?n # merkle_layers E ?n))"
      using "1.IH" [OF True refl lt] .
    finally show ?thesis unfolding ls by simp
  next
    case False
    with "1.prems" have "current \<noteq> []" "pos = 0" by auto
    with False show ?thesis by (simp add: merkle_layers.simps [of E current] hd_conv_nth)
  qed
qed

lemma tree_prove_complete:
  assumes "tree_build E xs = Inr t" "x \<in> set xs"
  shows "\<exists>p. tree_prove t x = Inr p \<and> merkle_verify E p x (tree_root t)"
proof -
  note t = tree_build_Inr [OF assms(1)]
  from assms(2) t(2) obtain pos where pos: "position x (leaves t) = Some pos"
    using position_None [of x "leaves t"] by (cases "position x (leaves t)") auto
  from position_Some [OF pos] have "pos < length (leaves t)" "leaves t ! pos = x" by auto
  with climb [of pos "leaves t" E] t(4) show ?thesis
    by (simp add: tree_prove_def pos merkle_verify_def tree_root_def butlast_conv_take)
qed

lemma tree_prove_missing:
  "tree_build E xs = Inr t \<Longrightarrow> x \<notin> set xs \<Longrightarrow> tree_prove t x = Inl IntentNotFound"
  using tree_build_Inr(2) [of E xs t] position_None [of x "leaves t"] by (simp add: tree_prove_def)

subsection \<open>Soundness of proofs\<close>

text \<open>The pairs hashed while building a tree, and while checking a proof from a leaf.\<close>

fun layer_pairs :: "bytes list \<Rightarrow> (bytes \<times> bytes) list" where
  "layer_pairs (a # b # rest) = (a, b) # layer_pairs rest"
| "layer_pairs _ = []"

definition tree_pairs :: "intent_tree \<Rightarrow> (bytes \<times> bytes) list" where
  "tree_pairs t = concat (map layer_pairs (layers t))"

fun proof_pairs :: "ext \<Rightarrow> sibling_node list \<Rightarrow> bytes \<Rightarrow> (bytes \<times> bytes) list" where
  "proof_pairs E [] x = []"
| "proof_pairs E (n # ns) x =
     (if is_left n then (sib_hash n, x) else (x, sib_hash n)) # proof_pairs E ns (verify_step E n x)"

definition node_of :: "ext \<Rightarrow> bytes \<times> bytes \<Rightarrow> bytes" where
  "node_of E p = merkle_node E (fst p) (snd p)"

text \<open>
  What the code trusts \<open>blake3\<close> for, on the finitely many inputs at hand: the node hash does
  not collide on the pairs hashed by the tree and by the proof, a leaf of the tree is not also
  a node digest of the proof, and the claimed intent is not a node digest of the tree (intent
  hashes and node hashes live in different domains).
\<close>

definition collision_free :: "ext \<Rightarrow> intent_tree \<Rightarrow> merkle_proof \<Rightarrow> bytes \<Rightarrow> bool" where
  "collision_free E t p x \<longleftrightarrow>
     (let tp = set (tree_pairs t); pp = set (proof_pairs E (siblings p) x) in
      inj_on (node_of E) (tp \<union> pp)
      \<and> set (leaves t) \<inter> node_of E ` pp = {}
      \<and> x \<notin> node_of E ` tp)"

lemma proof_pairs_append:
  "proof_pairs E (ns @ ms) x = proof_pairs E ns x @ proof_pairs E ms (fold (verify_step E) ns x)"
  by (induction ns arbitrary: x) auto

lemma verify_step_node:
  "verify_step E n x = node_of E (if is_left n then (sib_hash n, x) else (x, sib_hash n))"
  by (simp add: verify_step_def node_of_def)

lemma next_layer_members:
  "y \<in> set (next_layer E xs) \<Longrightarrow>
     y \<in> set xs \<or> (\<exists>a b. (a, b) \<in> set (layer_pairs xs) \<and> y = merkle_node E a b)"
  by (induction E xs rule: next_layer.induct) auto

lemma layer_pairs_members: "(a, b) \<in> set (layer_pairs xs) \<Longrightarrow> a \<in> set xs \<and> b \<in> set xs"
  by (induction xs rule: layer_pairs.induct) auto

text \<open>Every digest in the layers is a leaf or the node of a hashed pair of digests in the layers.\<close>

lemma layers_member:
  "y \<in> \<Union> (set ` set (current # merkle_layers E current)) \<Longrightarrow>
     y \<in> set current \<or> (\<exists>pr \<in> set (concat (map layer_pairs (current # merkle_layers E current))).
        y = node_of E pr)"
proof (induction E current rule: merkle_layers.induct)
  case (1 E current)
  show ?case
  proof (cases "length current > 1")
    case True
    let ?n = "next_layer E current"
    have ls: "merkle_layers E current = ?n # merkle_layers E ?n"
      using True by (simp add: merkle_layers.simps [of E current] Let_def)
    show ?thesis
    proof (cases "y \<in> set current")
      case False
      with "1.prems" have "y \<in> \<Union> (set ` set (?n # merkle_layers E ?n))" by (auto simp: ls)
      then have "y \<in> set ?n \<or> (\<exists>pr\<in>set (concat (map layer_pairs (?n # merkle_layers E ?n))). y = node_of E pr)"
        by (rule "1.IH" [OF True refl])
      then show ?thesis
      proof
        assume "y \<in> set ?n"
        then show ?thesis using next_layer_members [of y E current] False
          by (force simp: node_of_def)
      qed (auto simp: ls)
    qed simp
  next
    case False
    with "1.prems" show ?thesis by (simp add: merkle_layers.simps [of E current])
  qed
qed

lemma tree_node_cases:
  assumes "tree_build E xs = Inr t" "y \<in> \<Union> (set ` set (layers t))"
  shows "y \<in> set xs \<or> (\<exists>pr \<in> set (tree_pairs t). y = node_of E pr)"
  using layers_member [of y "leaves t" E] assms tree_build_Inr [OF assms(1)]
  by (simp add: tree_pairs_def)

lemma tree_pairs_members:
  "(a, b) \<in> set (tree_pairs t) \<Longrightarrow> {a, b} \<subseteq> \<Union> (set ` set (layers t))"
  by (auto simp: tree_pairs_def dest: layer_pairs_members)

lemma tree_root_member: "tree_build E xs = Inr t \<Longrightarrow> tree_root t \<in> \<Union> (set ` set (layers t))"
proof -
  assume b: "tree_build E xs = Inr t"
  note t = tree_build_Inr [OF b]
  have "length (last (layers t)) = 1" using layers_last_single [of "leaves t" E] t by simp
  then have "last (layers t) \<noteq> []" by auto
  moreover have "last (layers t) \<in> set (layers t)" using t(4) by simp
  ultimately show ?thesis unfolding tree_root_def using hd_in_set by fastforce
qed

lemma fold_back_into_tree:
  assumes "tree_build E xs = Inr t"
    and "inj_on (node_of E) (set (tree_pairs t) \<union> set (proof_pairs E ns x))"
    and "set xs \<inter> node_of E ` set (proof_pairs E ns x) = {}"
    and "fold (verify_step E) ns x \<in> \<Union> (set ` set (layers t))"
  shows "x \<in> \<Union> (set ` set (layers t))"
  using assms(2-)
proof (induction ns rule: rev_induct)
  case Nil
  then show ?case by simp
next
  case (snoc n ns)
  let ?v = "fold (verify_step E) ns x"
  let ?pr = "if is_left n then (sib_hash n, ?v) else (?v, sib_hash n)"
  have pp: "set (proof_pairs E (ns @ [n]) x) = insert ?pr (set (proof_pairs E ns x))"
    by (auto simp: proof_pairs_append)
  have top: "node_of E ?pr \<in> \<Union> (set ` set (layers t))"
    using snoc.prems(3) unfolding verify_step_node [symmetric] by simp
  moreover have "node_of E ?pr \<notin> set xs" using snoc.prems(2) unfolding pp by blast
  ultimately obtain q where q: "q \<in> set (tree_pairs t)" "node_of E ?pr = node_of E q"
    using tree_node_cases [OF assms(1)] by blast
  have "?pr = q"
    by (rule inj_onD [OF snoc.prems(1) q(2)]) (use q(1) in \<open>simp_all only: pp Un_iff insert_iff simp_thms\<close>)
  then have "?v \<in> \<Union> (set ` set (layers t))"
    using tree_pairs_members [of "fst q" "snd q" t] q(1) by (auto split: if_splits)
  moreover have "inj_on (node_of E) (set (tree_pairs t) \<union> set (proof_pairs E ns x))"
    using snoc.prems(1) unfolding pp by (rule inj_on_subset) auto
  moreover have "set xs \<inter> node_of E ` set (proof_pairs E ns x) = {}"
    using snoc.prems(2) unfolding pp by blast
  ultimately show ?case by (intro snoc.IH)
qed

lemma merkle_verify_sound:
  assumes build: "tree_build E xs = Inr t" and cf: "collision_free E t p x"
    and ok: "merkle_verify E p x (tree_root t)"
  shows "x \<in> set xs"
proof -
  note t = tree_build_Inr [OF build]
  from ok tree_root_member [OF build]
  have top: "fold (verify_step E) (siblings p) x \<in> \<Union> (set ` set (layers t))"
    by (simp add: merkle_verify_def)
  have inj: "inj_on (node_of E) (set (tree_pairs t) \<union> set (proof_pairs E (siblings p) x))"
    and disj: "set xs \<inter> node_of E ` set (proof_pairs E (siblings p) x) = {}"
    and leaf: "x \<notin> node_of E ` set (tree_pairs t)"
    using cf t(2) unfolding collision_free_def Let_def by simp_all
  from tree_node_cases [OF build fold_back_into_tree [OF build inj disj top]] leaf
  show ?thesis by blast
qed

section \<open>Sub-scope proofs\<close>

record sub_scope_proof =
  subset_intents :: "bytes list"
  ssp_proofs :: "merkle_proof list"

definition full_passthrough :: sub_scope_proof where
  "full_passthrough = \<lparr>subset_intents = [], ssp_proofs = []\<rparr>"

definition sub_scope_build :: "intent_tree \<Rightarrow> bytes list \<Rightarrow> a1_error + sub_scope_proof" where
  "sub_scope_build parent_tree intents =
     bindR (traverse (tree_prove parent_tree) intents) (\<lambda>ps.
       Inr \<lparr>subset_intents = intents, ssp_proofs = ps\<rparr>)"

definition verify_and_derive_root :: "ext \<Rightarrow> sub_scope_proof \<Rightarrow> bytes \<Rightarrow> a1_error + bytes" where
  "verify_and_derive_root E s parent_root =
     (if subset_intents s = [] then Inr parent_root
      else if length (subset_intents s) \<noteq> length (ssp_proofs s) then Inl InvalidSubScopeProof
      else bindR (each (\<lambda>(intent, p). if merkle_verify E p intent parent_root then Inr ()
                                  else Inl InvalidSubScopeProof)
                   (zip (subset_intents s) (ssp_proofs s))) (\<lambda>_.
           bindR (tree_build E (subset_intents s)) (\<lambda>sub_tree. Inr (tree_root sub_tree))))"

definition node_chunks :: "sibling_node \<Rightarrow> bytes list" where
  "node_chunks n = [sib_hash n, [if is_left n then 1 else 0]]"

definition sub_scope_chunks :: "sub_scope_proof \<Rightarrow> bytes list" where
  "sub_scope_chunks s =
     [str_bytes ''a1::dyolo::subscope::v2.8.0'']
     @ [le64 (u64_of (length (subset_intents s)))] @ subset_intents s
     @ [le64 (u64_of (length (ssp_proofs s)))]
     @ concat (map (\<lambda>p. [le64 (u64_of (length (siblings p)))]
                    @ concat (map node_chunks (siblings p))) (ssp_proofs s))"

definition sub_scope_commitment :: "ext \<Rightarrow> sub_scope_proof \<Rightarrow> bytes" where
  "sub_scope_commitment E s =
     h_finalize E (h_updates (hasher_subscope CERT_VERSION) (sub_scope_chunks s))"

lemma sub_scope_build_Inr:
  "sub_scope_build t xs = Inr s \<longleftrightarrow>
     list_all2 (\<lambda>x p. tree_prove t x = Inr p) xs (ssp_proofs s) \<and> subset_intents s = xs"
  by (cases s) (auto simp: sub_scope_build_def result_simps traverse_Inr_iff)

text \<open>A proof built against a tree derives the root of the subset's own tree.\<close>

lemma sub_scope_roundtrip:
  assumes build: "tree_build E xs = Inr t" and sub: "set ys \<subseteq> set xs" "ys \<noteq> []"
  shows "\<exists>s u. sub_scope_build t ys = Inr s \<and> tree_build E ys = Inr u
           \<and> verify_and_derive_root E s (tree_root t) = Inr (tree_root u)"
proof -
  have "\<exists>p. tree_prove t y = Inr p \<and> merkle_verify E p y (tree_root t)" if "y \<in> set ys" for y
    using tree_prove_complete [OF build] sub that by blast
  then obtain f where f: "\<And>y. y \<in> set ys \<Longrightarrow> tree_prove t y = Inr (f y) \<and> merkle_verify E (f y) y (tree_root t)"
    by metis
  let ?s = "\<lparr>subset_intents = ys, ssp_proofs = map f ys\<rparr>"
  have b: "sub_scope_build t ys = Inr ?s"
    using f by (simp add: sub_scope_build_Inr list_all2_conv_all_nth)
  obtain u where u: "tree_build E ys = Inr u" using sub(2) by (simp add: tree_build_def Let_def)
  have "each (\<lambda>(intent, p). if merkle_verify E p intent (tree_root t) then Inr ()
        else Inl InvalidSubScopeProof) (zip ys (map f ys)) = Inr ()"
    using f by (auto simp: each_Inr_iff zip_map2 zip_same)
  with u sub(2) have "verify_and_derive_root E ?s (tree_root t) = Inr (tree_root u)"
    by (simp add: verify_and_derive_root_def)
  with b u show ?thesis by blast
qed

lemma sub_scope_escalation:
  "tree_build E xs = Inr t \<Longrightarrow> \<not> set ys \<subseteq> set xs \<Longrightarrow> sub_scope_build t ys = Inl IntentNotFound"
proof -
  assume b: "tree_build E xs = Inr t" and n: "\<not> set ys \<subseteq> set xs"
  have cases: "(\<exists>p. tree_prove t y = Inr p) \<or> tree_prove t y = Inl IntentNotFound" for y
    using tree_prove_complete [OF b, of y] tree_prove_missing [OF b, of y] by blast
  from n obtain y where y: "y \<in> set ys" "tree_prove t y = Inl IntentNotFound"
    using tree_prove_missing [OF b] by blast
  have "traverse (tree_prove t) ys = Inl IntentNotFound"
  proof (cases "traverse (tree_prove t) ys")
    case (Inl e)
    then obtain z where "tree_prove t z = Inl e" using traverse_Inl by metis
    with cases [of z] Inl show ?thesis by auto
  next
    case (Inr ps)
    then have "\<exists>p. tree_prove t y = Inr p"
      using y(1) by (auto simp: traverse_Inr_iff list_all2_conv_all_nth in_set_conv_nth)
    with y(2) show ?thesis by simp
  qed
  then show ?thesis by (simp add: sub_scope_build_def)
qed

text \<open>A sub-scope proof that verifies derives the root of a subset of the parent's intents.\<close>

lemma verify_and_derive_root_sound:
  assumes build: "tree_build E xs = Inr t" and ne: "subset_intents s \<noteq> []"
    and cf: "\<And>x p. (x, p) \<in> set (zip (subset_intents s) (ssp_proofs s)) \<Longrightarrow> collision_free E t p x"
    and ok: "verify_and_derive_root E s (tree_root t) = Inr r"
  shows "set (subset_intents s) \<subseteq> set xs"
    and "\<exists>u. tree_build E (subset_intents s) = Inr u \<and> r = tree_root u"
proof -
  from ok ne have len: "length (subset_intents s) = length (ssp_proofs s)"
    and v: "\<forall>(x, p)\<in>set (zip (subset_intents s) (ssp_proofs s)). merkle_verify E p x (tree_root t)"
    and u: "\<exists>u. tree_build E (subset_intents s) = Inr u \<and> r = tree_root u"
    by (auto simp: verify_and_derive_root_def result_simps each_Inr_iff split: if_splits)
  show "\<exists>u. tree_build E (subset_intents s) = Inr u \<and> r = tree_root u" by (rule u)
  show "set (subset_intents s) \<subseteq> set xs"
  proof
    fix x assume "x \<in> set (subset_intents s)"
    then obtain p where "(x, p) \<in> set (zip (subset_intents s) (ssp_proofs s))"
      using len by (metis in_set_impl_in_set_zip1)
    with v cf merkle_verify_sound [OF build] show "x \<in> set xs" by blast
  qed
qed

end
