(* ===== verification/A1_Cert.thy ===== *)
theory A1_Cert
  imports A1_Intent
begin

text \<open>
  \<open>src/cert_extensions.rs\<close> and \<open>src/cert.rs\<close> (with the \<open>wire\<close> feature): the typed
  extension map with its byte limit and its commitment, the delegation certificate, what its
  signature covers, the builder with its one validation, and bundles. The encodings are shown
  to be injective, so a signature speaks of one certificate only.
\<close>

section \<open>Extensions\<close>

definition MAX_EXTENSION_BYTES :: nat where "MAX_EXTENSION_BYTES = 16384"

datatype ext_value = ExtStr string | ExtU64 u64 | ExtStrings "string list"

record cert_extensions =
  ext_fields :: "(string, ext_value) btree"
  byte_count :: nat

definition extensions_new :: cert_extensions where
  "extensions_new = \<lparr>ext_fields = [], byte_count = 0\<rparr>"

fun ext_value_bytes :: "ext_value \<Rightarrow> nat" where
  "ext_value_bytes (ExtStr s) = length s"
| "ext_value_bytes (ExtU64 _) = 8"
| "ext_value_bytes (ExtStrings v) = sum_list (map length v)"

definition ext_set_checked :: "cert_extensions \<Rightarrow> string \<Rightarrow> ext_value \<Rightarrow> a1_error + cert_extensions" where
  "ext_set_checked x key val =
     (if key = [] then Inl (WireFormatError ''extension key must not be empty'')
      else let add_bytes = length key + ext_value_bytes val in
        if byte_count x + add_bytes > MAX_EXTENSION_BYTES
        then Inl (WireFormatError ''maximum extension byte limit exceeded'')
        else Inr \<lparr>ext_fields = bt_insert key val (ext_fields x), byte_count = byte_count x + add_bytes\<rparr>)"

text \<open>\<open>set\<close> panics where \<open>set_checked\<close> fails.\<close>

definition ext_set :: "string \<Rightarrow> ext_value \<Rightarrow> cert_extensions \<Rightarrow> cert_extensions option" where
  "ext_set key val x = (case ext_set_checked x key val of Inl _ \<Rightarrow> None | Inr y \<Rightarrow> Some y)"

definition ext_get :: "cert_extensions \<Rightarrow> string \<Rightarrow> ext_value option" where
  "ext_get x key = map_of (ext_fields x) key"

definition ext_is_empty :: "cert_extensions \<Rightarrow> bool" where
  "ext_is_empty x \<longleftrightarrow> ext_fields x = []"

fun ext_value_chunks :: "ext_value \<Rightarrow> bytes list" where
  "ext_value_chunks (ExtStr s) = [[0], le64 (u64_of (length s)), str_bytes s]"
| "ext_value_chunks (ExtU64 n) = [[1], le64 n]"
| "ext_value_chunks (ExtStrings v) =
     [[2], le64 (u64_of (length v))] @ concat (map (\<lambda>s. [le64 (u64_of (length s)), str_bytes s]) v)"

definition ext_chunks :: "cert_extensions \<Rightarrow> bytes list" where
  "ext_chunks x =
     [str_bytes ''a1::dyolo::cert::ext::v2.8.0''] @
     (if ext_fields x = [] then [le64 0]
      else [le64 (u64_of (length (ext_fields x)))]
        @ concat (map (\<lambda>(k, v). [le64 (u64_of (length k)), str_bytes k] @ ext_value_chunks v) (ext_fields x)))"

definition ext_commitment :: "ext \<Rightarrow> cert_extensions \<Rightarrow> bytes" where
  "ext_commitment E x = h_finalize E (h_updates (hasher_cert_ext CERT_VERSION) (ext_chunks x))"

fun ext_value_fits :: "ext_value \<Rightarrow> bool" where
  "ext_value_fits (ExtStr s) = fits s"
| "ext_value_fits (ExtU64 _) = True"
| "ext_value_fits (ExtStrings v) = (fits v \<and> list_all fits v)"

text \<open>
  The invariant of the map: sorted keys, and every entry counted at least once in
  \<open>byte_count\<close> (a replaced entry stays counted).
\<close>

definition entry_bytes :: "string \<times> ext_value \<Rightarrow> nat" where
  "entry_bytes p = length (fst p) + ext_value_bytes (snd p)"

definition ext_wf :: "cert_extensions \<Rightarrow> bool" where
  "ext_wf x \<longleftrightarrow> bt_inv (ext_fields x) \<and> (\<forall>p\<in>set (ext_fields x). fst p \<noteq> [])
     \<and> sum_list (map entry_bytes (ext_fields x)) \<le> byte_count x
     \<and> byte_count x \<le> MAX_EXTENSION_BYTES"

definition ext_encodable :: "cert_extensions \<Rightarrow> bool" where
  "ext_encodable x \<longleftrightarrow> fits (ext_fields x)
     \<and> list_all (\<lambda>p. fits (fst p) \<and> ext_value_fits (snd p)) (ext_fields x)"

lemma ext_new_wf: "ext_wf extensions_new"
  by (simp add: ext_wf_def extensions_new_def)

lemma bt_insert_sum:
  "sum_list (map entry_bytes (bt_insert k v m)) \<le> entry_bytes (k, v) + sum_list (map entry_bytes m)"
proof (induction m)
  case Nil
  then show ?case by simp
next
  case (Cons kv m)
  then show ?case by (cases kv) auto
qed

lemma ext_set_checked_wf:
  assumes "ext_wf x" "ext_set_checked x k v = Inr y"
  shows "ext_wf y" "ext_get y k = Some v" "\<And>j. j \<noteq> k \<Longrightarrow> ext_get y j = ext_get x j"
proof -
  from assms have y: "y = \<lparr>ext_fields = bt_insert k v (ext_fields x),
      byte_count = byte_count x + (length k + ext_value_bytes v)\<rparr>"
    and k: "k \<noteq> []" and le: "byte_count x + (length k + ext_value_bytes v) \<le> MAX_EXTENSION_BYTES"
    by (auto simp: ext_set_checked_def Let_def split: if_splits)
  from assms(1) have inv: "bt_inv (ext_fields x)" by (simp add: ext_wf_def)
  then show "ext_get y k = Some v" "\<And>j. j \<noteq> k \<Longrightarrow> ext_get y j = ext_get x j"
    by (simp_all add: y ext_get_def map_of_bt_insert)
  show "ext_wf y"
    using assms(1) k le bt_insert_sum [of k v "ext_fields x"] set_bt_insert [of k v "ext_fields x"]
    by (auto simp: y ext_wf_def bt_inv_insert entry_bytes_def)
qed

text \<open>The commitment input is injective on extension maps whose lengths fit a \<open>u64\<close>.\<close>

definition ext_value_enc :: "ext_value \<Rightarrow> bytes" where
  "ext_value_enc v = concat (ext_value_chunks v)"

lemma ext_value_enc_simps:
  "ext_value_enc (ExtStr s) = 0 # lp (str_bytes s)"
  "ext_value_enc (ExtU64 n) = 1 # le64 n"
  "ext_value_enc (ExtStrings v) = 2 # counted (\<lambda>s. lp (str_bytes s)) v"
proof -
  have "concat (concat (map (\<lambda>s. [le64 (u64_of (length s)), str_bytes s]) v)) =
      concat (map (\<lambda>s. lp (str_bytes s)) v)"
    by (induction v) (simp_all add: lp_def)
  then show "ext_value_enc (ExtStrings v) = 2 # counted (\<lambda>s. lp (str_bytes s)) v"
    by (simp add: ext_value_enc_def counted_def)
qed (simp_all add: ext_value_enc_def lp_def)

lemma self_delim_ext_value: "self_delim ext_value_fits ext_value_enc"
  unfolding self_delim_def
proof (intro allI impI)
  fix v w a b
  assume P: "ext_value_fits v" "ext_value_fits w" and eq: "ext_value_enc v @ a = ext_value_enc w @ b"
  note strs = self_delimD [OF self_delim_counted [OF self_delim_lp_str]]
  show "v = w \<and> a = b"
  proof (cases v)
    case (ExtStr s)
    with eq obtain t where w: "w = ExtStr t" by (cases w) (simp_all add: ext_value_enc_simps)
    show ?thesis using self_delimD [OF self_delim_lp_str, of s t a b] P eq
      by (simp add: ExtStr w ext_value_enc_simps)
  next
    case (ExtU64 n)
    with eq obtain m where w: "w = ExtU64 m" by (cases w) (simp_all add: ext_value_enc_simps)
    then have "le64 n = le64 m \<and> a = b" using eq by (intro app_fixed) (simp_all add: ExtU64 ext_value_enc_simps)
    then show ?thesis by (simp add: ExtU64 w)
  next
    case (ExtStrings s)
    with eq obtain t where w: "w = ExtStrings t" by (cases w) (simp_all add: ext_value_enc_simps)
    show ?thesis using strs [of s t a b] P eq by (simp add: ExtStrings w ext_value_enc_simps)
  qed
qed

lemma concat_ext_chunks:
  "concat (ext_chunks x) = str_bytes ''a1::dyolo::cert::ext::v2.8.0''
     @ counted (\<lambda>p. lp (str_bytes (fst p)) @ ext_value_enc (snd p)) (ext_fields x)"
proof -
  have "concat (concat (map (\<lambda>(k, v). [le64 (u64_of (length k)), str_bytes k] @ ext_value_chunks v) ps))
      = concat (map (\<lambda>p. lp (str_bytes (fst p)) @ ext_value_enc (snd p)) ps)" for ps
    by (induction ps) (auto simp: lp_def ext_value_enc_def)
  then show ?thesis by (simp add: ext_chunks_def counted_def)
qed

lemma ext_encoding_inj:
  assumes "ext_encodable x" "ext_encodable y" "concat (ext_chunks x) = concat (ext_chunks y)"
  shows "ext_fields x = ext_fields y"
proof -
  have "self_delim (\<lambda>xs. fits xs \<and> list_all (\<lambda>p. fits (fst p) \<and> ext_value_fits (snd p)) xs)
     (counted (\<lambda>p. lp (str_bytes (fst p)) @ ext_value_enc (snd p)))"
    by (intro self_delim_counted self_delim_pair self_delim_lp_str self_delim_ext_value)
  from self_delimD [OF this, of "ext_fields x" "ext_fields y" "[]" "[]"] assms
  show ?thesis by (simp add: ext_encodable_def concat_ext_chunks)
qed

section \<open>Sub-scope commitments\<close>

definition node_wf :: "sibling_node \<Rightarrow> bool" where
  "node_wf n \<longleftrightarrow> length (sib_hash n) = 32"

definition proof_wf :: "merkle_proof \<Rightarrow> bool" where
  "proof_wf p \<longleftrightarrow> fits (siblings p) \<and> list_all node_wf (siblings p)"

definition sub_scope_wf :: "sub_scope_proof \<Rightarrow> bool" where
  "sub_scope_wf s \<longleftrightarrow> fits (subset_intents s) \<and> list_all (\<lambda>x. length x = 32) (subset_intents s)
     \<and> fits (ssp_proofs s) \<and> list_all proof_wf (ssp_proofs s)"

definition node_enc :: "sibling_node \<Rightarrow> bytes" where
  "node_enc n = sib_hash n @ [if is_left n then 1 else 0]"

lemma self_delim_node: "self_delim node_wf node_enc"
proof (rule self_delim_fixed)
  fix x y assume "node_wf x" "node_wf y" "node_enc x = node_enc y"
  then show "x = y" by (cases x; cases y) (auto simp: node_enc_def split: if_splits)
qed (simp add: node_wf_def node_enc_def)

lemma self_delim_proof: "self_delim proof_wf (\<lambda>p. counted node_enc (siblings p))"
  unfolding self_delim_def
proof (intro allI impI)
  fix p q a b
  assume "proof_wf p" "proof_wf q" "counted node_enc (siblings p) @ a = counted node_enc (siblings q) @ b"
  then have "siblings p = siblings q \<and> a = b"
    using self_delimD [OF self_delim_counted [OF self_delim_node], of "siblings p" "siblings q" a b]
    by (simp add: proof_wf_def)
  then show "p = q \<and> a = b" by simp
qed

lemma concat_sub_scope_chunks:
  "concat (sub_scope_chunks s) = str_bytes ''a1::dyolo::subscope::v2.8.0''
     @ counted (\<lambda>x. x) (subset_intents s)
     @ counted (\<lambda>p. counted node_enc (siblings p)) (ssp_proofs s)"
proof -
  have n: "concat (concat (map node_chunks ns)) = concat (map node_enc ns)" for ns
    by (induction ns) (simp_all add: node_chunks_def node_enc_def)
  have "concat (concat (map (\<lambda>p. [le64 (u64_of (length (siblings p)))]
        @ concat (map node_chunks (siblings p))) ps))
      = concat (map (\<lambda>p. counted node_enc (siblings p)) ps)" for ps
    by (induction ps) (simp_all add: counted_def n)
  then show ?thesis by (simp add: sub_scope_chunks_def counted_def)
qed

lemma sub_scope_encoding_inj:
  assumes "sub_scope_wf s" "sub_scope_wf t" "concat (sub_scope_chunks s) = concat (sub_scope_chunks t)"
  shows "s = t"
proof -
  have d: "self_delim (\<lambda>x :: bytes. length x = 32) (\<lambda>x. x)"
    by (rule self_delim_fixed [where n = 32]) simp_all
  have eq: "counted (\<lambda>x. x) (subset_intents s) @ counted (\<lambda>p. counted node_enc (siblings p)) (ssp_proofs s)
     = counted (\<lambda>x. x) (subset_intents t) @ counted (\<lambda>p. counted node_enc (siblings p)) (ssp_proofs t)"
    using assms(3) by (simp add: concat_sub_scope_chunks)
  have "subset_intents s = subset_intents t
      \<and> counted (\<lambda>p. counted node_enc (siblings p)) (ssp_proofs s)
        = counted (\<lambda>p. counted node_enc (siblings p)) (ssp_proofs t)"
    by (rule self_delimD [OF self_delim_counted [OF d] _ _ eq]) (use assms in \<open>simp_all add: sub_scope_wf_def\<close>)
  moreover from this have "ssp_proofs s = ssp_proofs t"
    using self_delimD [OF self_delim_counted [OF self_delim_proof], of "ssp_proofs s" "ssp_proofs t" "[]" "[]"]
      assms by (simp add: sub_scope_wf_def)
  ultimately show "s = t" by simp
qed

section \<open>Certificates\<close>

record delegation_cert =
  version :: u8
  delegator_pk :: bytes
  delegate_pk :: bytes
  scope_root :: bytes
  scope_proof :: sub_scope_proof
  nonce :: bytes
  issued_at :: u64
  expiration_unix :: u64
  max_depth :: u8
  extensions :: cert_extensions
  signature :: bytes

definition signable_chunks ::
  "ext \<Rightarrow> bytes \<Rightarrow> bytes \<Rightarrow> bytes \<Rightarrow> sub_scope_proof \<Rightarrow> bytes \<Rightarrow> u64 \<Rightarrow> u64 \<Rightarrow> u8 \<Rightarrow> bytes \<Rightarrow> bytes list" where
  "signable_chunks E dr dt sr sp nn iat exp md ext_commit =
     [str_bytes ''a1::dyolo::cert::sig::v2.8.0'', dr, dt, sr, sub_scope_commitment E sp, nn,
      be64 iat, be64 exp, [md], ext_commit]"

definition signable_bytes ::
  "ext \<Rightarrow> u8 \<Rightarrow> bytes \<Rightarrow> bytes \<Rightarrow> bytes \<Rightarrow> sub_scope_proof \<Rightarrow> bytes \<Rightarrow> u64 \<Rightarrow> u64 \<Rightarrow> u8 \<Rightarrow> bytes \<Rightarrow> bytes" where
  "signable_bytes E v dr dt sr sp nn iat exp md ext_commit =
     h_finalize E (h_updates (hasher_cert_sig v) (signable_chunks E dr dt sr sp nn iat exp md ext_commit))"

definition cert_issue ::
  "ext \<Rightarrow> signer \<Rightarrow> bytes \<Rightarrow> bytes \<Rightarrow> sub_scope_proof \<Rightarrow> bytes \<Rightarrow> u64 \<Rightarrow> u64 \<Rightarrow> u8 \<Rightarrow> cert_extensions
     \<Rightarrow> delegation_cert" where
  "cert_issue E delegator dt sr sp nn iat exp md x =
     (let dr = verifying_key delegator;
          msg = signable_bytes E CERT_VERSION dr dt sr sp nn iat exp md (ext_commitment E x)
      in \<lparr>version = CERT_VERSION, delegator_pk = dr, delegate_pk = dt, scope_root = sr,
          scope_proof = sp, nonce = nn, issued_at = iat, expiration_unix = exp, max_depth = md,
          extensions = x, signature = sign_message delegator msg\<rparr>)"

definition cert_message :: "ext \<Rightarrow> delegation_cert \<Rightarrow> bytes" where
  "cert_message E c =
     signable_bytes E (version c) (delegator_pk c) (delegate_pk c) (scope_root c) (scope_proof c)
       (nonce c) (issued_at c) (expiration_unix c) (max_depth c) (ext_commitment E (extensions c))"

definition verify_signature :: "ext \<Rightarrow> delegation_cert \<Rightarrow> bool" where
  "verify_signature E c \<longleftrightarrow> ed_verify E (delegator_pk c) (cert_message E c) (signature c)"

definition cert_fingerprint :: "ext \<Rightarrow> delegation_cert \<Rightarrow> bytes" where
  "cert_fingerprint E c =
     h_finalize E (h_updates (hasher_cert_fp (version c))
       [str_bytes ''a1::dyolo::cert::fp::v2.8.0'', signature c])"

definition cert_fingerprint_hex :: "ext \<Rightarrow> delegation_cert \<Rightarrow> string" where
  "cert_fingerprint_hex E c = hex_enc E (cert_fingerprint E c)"

definition ttl_secs :: "delegation_cert \<Rightarrow> u64" where
  "ttl_secs c = sat_sub (expiration_unix c) (issued_at c)"

subsection \<open>The builder\<close>

record cert_builder =
  b_delegate_pk :: bytes
  b_scope_root :: bytes
  b_scope_proof :: sub_scope_proof
  b_nonce :: bytes
  b_issued_at :: u64
  b_expiration_unix :: u64
  b_max_depth :: u8
  b_extensions :: cert_extensions

text \<open>\<open>CertBuilder::new\<close>; \<open>fresh\<close> is the nonce \<open>fresh_nonce()\<close> draws.\<close>

definition builder_new :: "bytes \<Rightarrow> bytes \<Rightarrow> bytes \<Rightarrow> u64 \<Rightarrow> u64 \<Rightarrow> cert_builder" where
  "builder_new fresh dt sr iat exp =
     \<lparr>b_delegate_pk = dt, b_scope_root = sr, b_scope_proof = full_passthrough, b_nonce = fresh,
      b_issued_at = iat, b_expiration_unix = exp, b_max_depth = 16, b_extensions = extensions_new\<rparr>"

definition builder_scope_proof :: "sub_scope_proof \<Rightarrow> cert_builder \<Rightarrow> cert_builder" where
  "builder_scope_proof p b = b\<lparr>b_scope_proof := p\<rparr>"

definition builder_nonce :: "bytes \<Rightarrow> cert_builder \<Rightarrow> cert_builder" where
  "builder_nonce n b = b\<lparr>b_nonce := n\<rparr>"

definition builder_max_depth :: "u8 \<Rightarrow> cert_builder \<Rightarrow> cert_builder" where
  "builder_max_depth d b = b\<lparr>b_max_depth := d\<rparr>"

definition builder_extensions :: "cert_extensions \<Rightarrow> cert_builder \<Rightarrow> cert_builder" where
  "builder_extensions x b = b\<lparr>b_extensions := x\<rparr>"

definition builder_build :: "ext \<Rightarrow> signer \<Rightarrow> cert_builder \<Rightarrow> a1_error + delegation_cert" where
  "builder_build E delegator b =
     (if b_issued_at b \<ge> b_expiration_unix b
      then Inl (WireFormatError (''issued_at ('' @ decw (b_issued_at b)
             @ '') must be strictly less than expiration_unix ('' @ decw (b_expiration_unix b) @ '')''))
      else Inr (cert_issue E delegator (b_delegate_pk b) (b_scope_root b) (b_scope_proof b) (b_nonce b)
             (b_issued_at b) (b_expiration_unix b) (b_max_depth b) (b_extensions b)))"

text \<open>\<open>sign\<close> panics on an invalid validity window.\<close>

definition builder_sign :: "ext \<Rightarrow> signer \<Rightarrow> cert_builder \<Rightarrow> delegation_cert option" where
  "builder_sign E delegator b = (case builder_build E delegator b of Inl _ \<Rightarrow> None | Inr c \<Rightarrow> Some c)"

text \<open>
  \<open>build_async\<close> writes the certificate out again, for a signing backend that is awaited; the
  awaited answer is \<open>sign_message\<close>.
\<close>

definition builder_build_async :: "ext \<Rightarrow> signer \<Rightarrow> cert_builder \<Rightarrow> a1_error + delegation_cert" where
  "builder_build_async E delegator b =
     (if b_issued_at b \<ge> b_expiration_unix b
      then Inl (WireFormatError (''issued_at ('' @ decw (b_issued_at b)
             @ '') must be strictly less than expiration_unix ('' @ decw (b_expiration_unix b) @ '')''))
      else
        let dr = verifying_key delegator;
            ext_commit = ext_commitment E (b_extensions b);
            msg = signable_bytes E CERT_VERSION dr (b_delegate_pk b) (b_scope_root b) (b_scope_proof b)
                    (b_nonce b) (b_issued_at b) (b_expiration_unix b) (b_max_depth b) ext_commit
        in Inr \<lparr>version = CERT_VERSION, delegator_pk = dr, delegate_pk = b_delegate_pk b,
             scope_root = b_scope_root b, scope_proof = b_scope_proof b, nonce = b_nonce b,
             issued_at = b_issued_at b, expiration_unix = b_expiration_unix b, max_depth = b_max_depth b,
             extensions = b_extensions b, signature = sign_message delegator msg\<rparr>)"

definition builder_sign_async :: "ext \<Rightarrow> signer \<Rightarrow> cert_builder \<Rightarrow> delegation_cert option" where
  "builder_sign_async E delegator b =
     (case builder_build_async E delegator b of Inl _ \<Rightarrow> None | Inr c \<Rightarrow> Some c)"

lemma builder_build_async_eq: "builder_build_async E s b = builder_build E s b"
  by (simp add: builder_build_async_def builder_build_def cert_issue_def Let_def)

subsection \<open>Bundles\<close>

record cert_bundle =
  bundle_certs :: "delegation_cert list"
  bundle_issued_at :: u64

definition bundle_issue :: "ext \<Rightarrow> signer \<Rightarrow> u64 \<Rightarrow> cert_builder list \<Rightarrow> cert_bundle option" where
  "bundle_issue E delegator iat bs =
     map_option (\<lambda>cs. \<lparr>bundle_certs = cs, bundle_issued_at = iat\<rparr>) (those (map (builder_sign E delegator) bs))"

definition bundle_from_certs :: "delegation_cert list \<Rightarrow> u64 \<Rightarrow> cert_bundle" where
  "bundle_from_certs cs now = \<lparr>bundle_certs = cs, bundle_issued_at = now\<rparr>"

definition bundle_fingerprints :: "ext \<Rightarrow> cert_bundle \<Rightarrow> bytes list" where
  "bundle_fingerprints E b = map (cert_fingerprint E) (bundle_certs b)"

subsection \<open>Properties\<close>

lemma cert_issue_simps [simp]:
  "version (cert_issue E s dt sr sp nn iat exp md x) = CERT_VERSION"
  "delegator_pk (cert_issue E s dt sr sp nn iat exp md x) = verifying_key s"
  "delegate_pk (cert_issue E s dt sr sp nn iat exp md x) = dt"
  "scope_root (cert_issue E s dt sr sp nn iat exp md x) = sr"
  "scope_proof (cert_issue E s dt sr sp nn iat exp md x) = sp"
  "nonce (cert_issue E s dt sr sp nn iat exp md x) = nn"
  "issued_at (cert_issue E s dt sr sp nn iat exp md x) = iat"
  "expiration_unix (cert_issue E s dt sr sp nn iat exp md x) = exp"
  "max_depth (cert_issue E s dt sr sp nn iat exp md x) = md"
  "extensions (cert_issue E s dt sr sp nn iat exp md x) = x"
  by (simp_all add: cert_issue_def Let_def)

lemma cert_issue_verifies:
  "signer_ok E s \<Longrightarrow> verify_signature E (cert_issue E s dt sr sp nn iat exp md x)"
  by (simp add: verify_signature_def cert_message_def signer_ok_def) (simp add: cert_issue_def Let_def)

lemma builder_build_Inr_iff:
  "builder_build E s b = Inr c \<longleftrightarrow> b_issued_at b < b_expiration_unix b \<and>
     c = cert_issue E s (b_delegate_pk b) (b_scope_root b) (b_scope_proof b) (b_nonce b)
           (b_issued_at b) (b_expiration_unix b) (b_max_depth b) (b_extensions b)"
  by (auto simp: builder_build_def)

lemma builder_sign_Some_iff: "builder_sign E s b = Some c \<longleftrightarrow> builder_build E s b = Inr c"
  by (auto simp: builder_sign_def split: sum.splits)

lemma those_Some_iff: "those xs = Some ys \<longleftrightarrow> xs = map Some ys"
  by (induction xs arbitrary: ys) (auto simp: Cons_eq_map_conv split: option.splits)

lemma bundle_issue_Some_iff:
  "bundle_issue E s iat bs = Some u \<longleftrightarrow>
     bundle_issued_at u = iat \<and> list_all2 (\<lambda>b c. builder_build E s b = Inr c) bs (bundle_certs u)"
proof -
  have "map (builder_sign E s) bs = map Some cs \<longleftrightarrow> list_all2 (\<lambda>b c. builder_build E s b = Inr c) bs cs" for cs
    by (auto simp: list_all2_conv_all_nth list_eq_iff_nth_eq builder_sign_Some_iff)
  then show ?thesis by (cases u) (auto simp: bundle_issue_def those_Some_iff)
qed

text \<open>What a signature covers.\<close>

definition cert_wf :: "delegation_cert \<Rightarrow> bool" where
  "cert_wf c \<longleftrightarrow> length (delegator_pk c) = 32 \<and> length (delegate_pk c) = 32
     \<and> length (scope_root c) = 32 \<and> length (nonce c) = 16
     \<and> sub_scope_wf (scope_proof c) \<and> ext_encodable (extensions c)"

definition cert_hasher :: "ext \<Rightarrow> delegation_cert \<Rightarrow> hasher" where
  "cert_hasher E c = h_updates (hasher_cert_sig (version c))
     (signable_chunks E (delegator_pk c) (delegate_pk c) (scope_root c) (scope_proof c)
       (nonce c) (issued_at c) (expiration_unix c) (max_depth c) (ext_commitment E (extensions c)))"

definition hash_binds :: "ext \<Rightarrow> hasher \<Rightarrow> hasher \<Rightarrow> bool" where
  "hash_binds E g h \<longleftrightarrow> h_finalize E g = h_finalize E h \<longrightarrow> g = h"

text \<open>No collision among the three digests that go into the signed messages of two certificates.\<close>

definition certs_bind :: "ext \<Rightarrow> delegation_cert \<Rightarrow> delegation_cert \<Rightarrow> bool" where
  "certs_bind E c d \<longleftrightarrow> hash_binds E (cert_hasher E c) (cert_hasher E d)
     \<and> hash_binds E (h_updates (hasher_subscope CERT_VERSION) (sub_scope_chunks (scope_proof c)))
                    (h_updates (hasher_subscope CERT_VERSION) (sub_scope_chunks (scope_proof d)))
     \<and> hash_binds E (h_updates (hasher_cert_ext CERT_VERSION) (ext_chunks (extensions c)))
                    (h_updates (hasher_cert_ext CERT_VERSION) (ext_chunks (extensions d)))"

lemma cert_message_hasher: "cert_message E c = h_finalize E (cert_hasher E c)"
  by (simp add: cert_message_def signable_bytes_def cert_hasher_def)

lemma h_updates_inj: "h_updates g xs = h_updates g ys \<Longrightarrow> concat xs = concat ys"
  by (simp add: h_updates_eq)

lemma signable_chunks_inj:
  assumes h: "hash32 E" and wf: "cert_wf c" "cert_wf d" and eq: "cert_hasher E c = cert_hasher E d"
  shows "version c = version d \<and> delegator_pk c = delegator_pk d \<and> delegate_pk c = delegate_pk d
    \<and> scope_root c = scope_root d \<and> nonce c = nonce d \<and> issued_at c = issued_at d
    \<and> expiration_unix c = expiration_unix d \<and> max_depth c = max_depth d
    \<and> sub_scope_commitment E (scope_proof c) = sub_scope_commitment E (scope_proof d)
    \<and> ext_commitment E (extensions c) = ext_commitment E (extensions d)"
proof -
  have l: "length (sub_scope_commitment E x) = 32" for x
    using h by (simp add: sub_scope_commitment_def)
  from eq have "version c = version d" and
    r: "delegator_pk c @ delegate_pk c @ scope_root c @ sub_scope_commitment E (scope_proof c) @ nonce c
      @ be64 (issued_at c) @ be64 (expiration_unix c) @ [max_depth c] @ ext_commitment E (extensions c) =
      delegator_pk d @ delegate_pk d @ scope_root d @ sub_scope_commitment E (scope_proof d) @ nonce d
      @ be64 (issued_at d) @ be64 (expiration_unix d) @ [max_depth d] @ ext_commitment E (extensions d)"
    by (simp_all add: cert_hasher_def hasher_defs signable_chunks_def)
  with wf show ?thesis by (simp add: cert_wf_def l append_eq_append_conv)
qed

lemma cert_message_binds:
  assumes "hash32 E" "cert_wf c" "cert_wf d" "certs_bind E c d" "cert_message E c = cert_message E d"
  shows "c\<lparr>extensions := extensions d, signature := signature d\<rparr> = d
    \<and> ext_fields (extensions c) = ext_fields (extensions d)"
proof -
  have "cert_hasher E c = cert_hasher E d"
    using assms(4,5) by (simp add: cert_message_hasher certs_bind_def hash_binds_def)
  note f = signable_chunks_inj [OF assms(1,2,3) this]
  from f assms(4) have "concat (sub_scope_chunks (scope_proof c)) = concat (sub_scope_chunks (scope_proof d))"
    "concat (ext_chunks (extensions c)) = concat (ext_chunks (extensions d))"
    by (auto simp: certs_bind_def hash_binds_def sub_scope_commitment_def ext_commitment_def
        intro: h_updates_inj)
  then have "scope_proof c = scope_proof d" "ext_fields (extensions c) = ext_fields (extensions d)"
    using assms(2,3) by (auto simp: cert_wf_def intro: sub_scope_encoding_inj ext_encoding_inj)
  with f show ?thesis by (cases c; cases d) simp
qed

end
