(* ===== verification/A1_Delegation.thy ===== *)
theory A1_Delegation
  imports A1_Cert
begin

text \<open>
  The data of \<open>src/chain.rs\<close>: the chain of certificates anchored at a principal, its
  construction, the namespace derivation, its fingerprint and the verification receipt. The
  authorization itself is in \<open>A1_Chain\<close>.
\<close>

section \<open>Receipts\<close>

record verification_receipt =
  chain_depth :: nat
  verified_scope_root :: bytes
  receipt_intent :: bytes
  verified_at_unix :: u64
  chain_fingerprint :: bytes
  receipt_namespace :: "string option"

definition receipt_fingerprint_hex :: "ext \<Rightarrow> verification_receipt \<Rightarrow> string" where
  "receipt_fingerprint_hex E r = hex_enc E (chain_fingerprint r)"

definition receipt_canonical_bytes :: "verification_receipt \<Rightarrow> bytes" where
  "receipt_canonical_bytes r =
     str_bytes ''a1_dyolo_v2.8.0:'' @ be64 (u64_of (chain_depth r)) @ verified_scope_root r
     @ receipt_intent r @ be64 (verified_at_unix r) @ chain_fingerprint r
     @ (case receipt_namespace r of
          Some ns \<Rightarrow> be64 (u64_of (length ns)) @ str_bytes ns
        | None \<Rightarrow> be64 0)"

text \<open>A receipt whose digests have their 32 bytes and whose counters fit a \<open>u64\<close>.\<close>

definition receipt_wf :: "verification_receipt \<Rightarrow> bool" where
  "receipt_wf r \<longleftrightarrow> chain_depth r < 2 ^ 63 \<and> length (verified_scope_root r) = 32
     \<and> length (receipt_intent r) = 32 \<and> length (chain_fingerprint r) = 32
     \<and> (case receipt_namespace r of None \<Rightarrow> True | Some ns \<Rightarrow> fits ns)"

definition namespace_text :: "string option \<Rightarrow> string" where
  "namespace_text ns = (case ns of None \<Rightarrow> [] | Some s \<Rightarrow> s)"

lemma receipt_canonical_alt:
  "receipt_canonical_bytes r =
     str_bytes ''a1_dyolo_v2.8.0:'' @ be64 (u64_of (chain_depth r)) @ verified_scope_root r
     @ receipt_intent r @ be64 (verified_at_unix r) @ chain_fingerprint r
     @ be64 (u64_of (length (namespace_text (receipt_namespace r))))
     @ str_bytes (namespace_text (receipt_namespace r))"
  by (simp add: receipt_canonical_bytes_def namespace_text_def split: option.split)

text \<open>
  The encoding determines every field, except that it does not tell an absent namespace from
  an empty one.
\<close>

lemma receipt_canonical_iff:
  assumes "receipt_wf r" "receipt_wf s"
  shows "receipt_canonical_bytes r = receipt_canonical_bytes s \<longleftrightarrow>
    chain_depth r = chain_depth s \<and> verified_scope_root r = verified_scope_root s
    \<and> receipt_intent r = receipt_intent s \<and> verified_at_unix r = verified_at_unix s
    \<and> chain_fingerprint r = chain_fingerprint s
    \<and> namespace_text (receipt_namespace r) = namespace_text (receipt_namespace s)"
    (is "?l \<longleftrightarrow> ?r")
proof
  assume ?l
  then have "be64 (u64_of (chain_depth r)) @ verified_scope_root r
     @ receipt_intent r @ be64 (verified_at_unix r) @ chain_fingerprint r
     @ be64 (u64_of (length (namespace_text (receipt_namespace r))))
     @ str_bytes (namespace_text (receipt_namespace r)) =
     be64 (u64_of (chain_depth s)) @ verified_scope_root s
     @ receipt_intent s @ be64 (verified_at_unix s) @ chain_fingerprint s
     @ be64 (u64_of (length (namespace_text (receipt_namespace s))))
     @ str_bytes (namespace_text (receipt_namespace s))"
    unfolding receipt_canonical_alt same_append_eq .
  then have d: "u64_of (chain_depth r) = u64_of (chain_depth s)" and
    rest: "verified_scope_root r = verified_scope_root s" "receipt_intent r = receipt_intent s"
      "verified_at_unix r = verified_at_unix s" "chain_fingerprint r = chain_fingerprint s"
      "str_bytes (namespace_text (receipt_namespace r)) = str_bytes (namespace_text (receipt_namespace s))"
    using assms by (simp_all add: receipt_wf_def append_eq_append_conv del: of_nat_eq_iff word_of_nat_eq_iff)
  have "chain_depth r = chain_depth s"
    by (rule u64_of_inj [OF _ _ d]) (use assms in \<open>simp_all add: receipt_wf_def\<close>)
  with rest show ?r by (simp add: str_bytes_inj)
qed (simp add: receipt_canonical_alt)

section \<open>Chains\<close>

record dyolo_chain =
  principal_pk :: bytes
  principal_scope :: bytes
  certs :: "delegation_cert list"
  drift_tolerance_secs :: u64
  namespace :: "string option"

definition namespace_scope :: "ext \<Rightarrow> string \<Rightarrow> bytes \<Rightarrow> bytes" where
  "namespace_scope E ns scope =
     h_finalize E (h_updates (new_derive_key ''a1::dyolo::namespace::scope::v2.8.0'')
       [le64 (u64_of (length ns)), str_bytes ns, scope])"

definition chain_new :: "bytes \<Rightarrow> bytes \<Rightarrow> dyolo_chain" where
  "chain_new pk scope =
     \<lparr>principal_pk = pk, principal_scope = scope, certs = [], drift_tolerance_secs = 15, namespace = None\<rparr>"

definition with_namespace :: "ext \<Rightarrow> string \<Rightarrow> dyolo_chain \<Rightarrow> dyolo_chain" where
  "with_namespace E ns c =
     c\<lparr>principal_scope := namespace_scope E ns (principal_scope c), namespace := Some ns\<rparr>"

definition with_drift_tolerance :: "u64 \<Rightarrow> dyolo_chain \<Rightarrow> dyolo_chain" where
  "with_drift_tolerance secs c = c\<lparr>drift_tolerance_secs := secs\<rparr>"

definition chain_push :: "delegation_cert \<Rightarrow> dyolo_chain \<Rightarrow> dyolo_chain" where
  "chain_push cert c = c\<lparr>certs := certs c @ [cert]\<rparr>"

definition chain_len :: "dyolo_chain \<Rightarrow> nat" where
  "chain_len c = length (certs c)"

definition chain_hasher :: "ext \<Rightarrow> dyolo_chain \<Rightarrow> hasher" where
  "chain_hasher E c =
     (let h = h_updates (new_derive_key DOMAIN_CHAIN_FP)
                [str_bytes ''a1::dyolo::chain::v2.8.0'', principal_pk c, principal_scope c];
          h = (case namespace c of
                 Some ns \<Rightarrow> h_updates h [le64 (u64_of (length ns)), str_bytes ns]
               | None \<Rightarrow> h_updates h [le64 0])
      in fold (\<lambda>cert h. h_update h (cert_fingerprint E cert)) (certs c) h)"

definition fingerprint :: "ext \<Rightarrow> dyolo_chain \<Rightarrow> bytes" where
  "fingerprint E c = h_finalize E (chain_hasher E c)"

lemma chain_hasher_eq:
  "chain_hasher E c = (DOMAIN_CHAIN_FP,
     str_bytes ''a1::dyolo::chain::v2.8.0'' @ principal_pk c @ principal_scope c
     @ lp (str_bytes (namespace_text (namespace c))) @ concat (map (cert_fingerprint E) (certs c)))"
proof -
  have "fold (\<lambda>cert h. h_update h (cert_fingerprint E cert)) cs h =
      (fst h, snd h @ concat (map (cert_fingerprint E) cs))" for cs h
    by (induction cs arbitrary: h) (simp_all add: h_update_def)
  then show ?thesis
    by (simp add: chain_hasher_def h_updates_eq new_derive_key_def lp_def namespace_text_def Let_def
        split: option.split)
qed

text \<open>
  The fingerprint input determines the principal, its scope, the namespace text and the
  fingerprints of the certificates in order.
\<close>

lemma concat_fixed_inj:
  assumes "\<And>x. x \<in> set xs \<union> set ys \<Longrightarrow> length x = n" "0 < n" "concat xs = concat ys"
  shows "xs = ys"
  using assms(1,3)
proof (induction xs arbitrary: ys)
  case Nil
  then have "\<forall>y\<in>set ys. y = []" by simp
  with Nil(1) assms(2) show ?case by (cases ys) auto
next
  case (Cons x xs)
  then obtain y ys' where ys: "ys = y # ys'" using assms(2) by (cases ys) auto
  then have "x = y \<and> concat xs = concat ys'"
    using Cons.prems by (intro app_fixed) simp_all
  moreover have "xs = ys'" using Cons.IH [of ys'] Cons.prems(1) calculation ys by simp
  ultimately show ?case by (simp add: ys)
qed

lemma chain_hasher_inj:
  assumes "hash32 E" and "length (principal_pk c) = 32" "length (principal_pk d) = 32"
    and "length (principal_scope c) = 32" "length (principal_scope d) = 32"
    and "fits (namespace_text (namespace c))" "fits (namespace_text (namespace d))"
    and eq: "chain_hasher E c = chain_hasher E d"
  shows "principal_pk c = principal_pk d \<and> principal_scope c = principal_scope d
    \<and> namespace_text (namespace c) = namespace_text (namespace d)
    \<and> map (cert_fingerprint E) (certs c) = map (cert_fingerprint E) (certs d)"
proof -
  from eq have "principal_pk c @ principal_scope c @ lp (str_bytes (namespace_text (namespace c)))
      @ concat (map (cert_fingerprint E) (certs c)) =
      principal_pk d @ principal_scope d @ lp (str_bytes (namespace_text (namespace d)))
      @ concat (map (cert_fingerprint E) (certs d))"
    by (simp add: chain_hasher_eq)
  then have h: "principal_pk c = principal_pk d" "principal_scope c = principal_scope d"
    and r: "lp (str_bytes (namespace_text (namespace c))) @ concat (map (cert_fingerprint E) (certs c)) =
      lp (str_bytes (namespace_text (namespace d))) @ concat (map (cert_fingerprint E) (certs d))"
    using assms(2-5) by simp_all
  have n: "namespace_text (namespace c) = namespace_text (namespace d)
      \<and> concat (map (cert_fingerprint E) (certs c)) = concat (map (cert_fingerprint E) (certs d))"
    by (rule self_delimD [OF self_delim_lp_str assms(6,7) r])
  have "map (cert_fingerprint E) (certs c) = map (cert_fingerprint E) (certs d)"
    by (rule concat_fixed_inj [where n = 32])
      (use n assms(1) in \<open>auto simp: cert_fingerprint_def\<close>)
  with h n show ?thesis by blast
qed

end
