(* ===== verification/A1_Policy.thy ===== *)
theory A1_Policy
  imports A1_Delegation
begin

text \<open>
  \<open>src/policy.rs\<close>: capability sets with prefix matching, delegation policies with their
  checks of a chain, of a certificate and of an intent, and ordered policy sets with their texts.
\<close>

datatype policy_violation =
    ChainDepthExceeded u8 nat
  | IntentNotAllowed string string
  | TtlExceedsMaximum u64 u64
  | SubDelegationForbidden
  | RequiredExtensionAbsent string
  | PrincipalNotTrusted

fun display_violation :: "policy_violation \<Rightarrow> string" where
  "display_violation (ChainDepthExceeded allowed actual) =
     ''chain depth '' @ dec actual @ '' exceeds policy maximum '' @ decw allowed"
| "display_violation (IntentNotAllowed i p) =
     ''intent '' @ quoted i @ '' not permitted under policy '' @ quoted p"
| "display_violation (TtlExceedsMaximum allowed actual) =
     ''cert TTL '' @ decw actual @ ''s exceeds policy maximum '' @ decw allowed @ ''s''"
| "display_violation SubDelegationForbidden = ''sub-delegation is not permitted under this policy''"
| "display_violation (RequiredExtensionAbsent k) =
     ''required extension '' @ quoted k @ '' is absent from cert''"
| "display_violation PrincipalNotTrusted = ''principal public key is not in the trusted set''"

section \<open>Capability sets\<close>

record capability_set =
  prefixes :: "string list"

definition capset_new :: capability_set where "capset_new = \<lparr>prefixes = []\<rparr>"
definition capset_wildcard :: capability_set where "capset_wildcard = \<lparr>prefixes = [''*'']\<rparr>"

definition capset_allow :: "string \<Rightarrow> capability_set \<Rightarrow> capability_set" where
  "capset_allow p s = s\<lparr>prefixes := prefixes s @ [p]\<rparr>"

definition is_stem_sep :: "char \<Rightarrow> bool" where
  "is_stem_sep c \<longleftrightarrow> c = CHR ''*'' \<or> c = CHR ''.''"

definition trim_stem :: "string \<Rightarrow> string" where
  "trim_stem p = rev (dropWhile is_stem_sep (rev p))"

definition starts_with :: "string \<Rightarrow> string \<Rightarrow> bool" where
  "starts_with s p \<longleftrightarrow> take (length p) s = p"

definition permits :: "capability_set \<Rightarrow> string \<Rightarrow> bool" where
  "permits s a \<longleftrightarrow> list_ex (\<lambda>p.
     if p = ''*'' then True
     else if p \<noteq> [] \<and> is_stem_sep (last p) then starts_with a (trim_stem p)
     else a = p) (prefixes s)"

lemma starts_with_append [simp]: "starts_with (p @ s) p"
  by (simp add: starts_with_def)

lemma trim_stem_snoc: "\<not> is_stem_sep c \<Longrightarrow> list_all is_stem_sep t \<Longrightarrow> trim_stem (s @ [c] @ t) = s @ [c]"
proof -
  assume c: "\<not> is_stem_sep c" and t: "list_all is_stem_sep t"
  have "dropWhile is_stem_sep (rev t @ c # rev s) = dropWhile is_stem_sep (c # rev s)"
    by (rule dropWhile_append2) (use t in \<open>simp add: list_all_iff\<close>)
  with c show ?thesis by (simp add: trim_stem_def)
qed

text \<open>
  A prefix ending in a separator permits exactly the actions that extend it without the
  trailing separators: the prefix \<open>trade.\<close> permits \<open>trademark\<close> as well as \<open>trade.equity\<close>.
\<close>

lemma permits_stem_iff:
  assumes "\<not> is_stem_sep c" "list_all is_stem_sep t" "t \<noteq> []"
  shows "permits \<lparr>prefixes = [s @ [c] @ t]\<rparr> a \<longleftrightarrow> (\<exists>r. a = (s @ [c]) @ r)"
proof -
  have "s @ [c] @ t \<noteq> ''*''" using assms(1,3) by (cases s) (auto simp: is_stem_sep_def)
  moreover have "is_stem_sep (last (s @ [c] @ t))"
    using assms(2,3) by (simp add: list_all_iff)
  ultimately have "permits \<lparr>prefixes = [s @ [c] @ t]\<rparr> a \<longleftrightarrow> starts_with a (s @ [c])"
    using trim_stem_snoc [OF assms(1,2), of s] by (simp add: permits_def)
  also have "\<dots> \<longleftrightarrow> (\<exists>r. a = (s @ [c]) @ r)"
    unfolding starts_with_def by (metis append_eq_conv_conj)
  finally show ?thesis .
qed

lemma permits_exact_iff:
  "p \<noteq> [] \<Longrightarrow> \<not> is_stem_sep (last p) \<Longrightarrow> permits \<lparr>prefixes = [p]\<rparr> a \<longleftrightarrow> a = p"
  by (auto simp: permits_def is_stem_sep_def)

lemma permits_wildcard: "permits capset_wildcard a"
  by (simp add: permits_def capset_wildcard_def)

lemma permits_allow_mono: "permits s a \<Longrightarrow> permits (capset_allow p s) a"
  by (simp add: permits_def capset_allow_def)

section \<open>Delegation policies\<close>

record delegation_policy =
  pol_name :: string
  pol_max_chain_depth :: "u8 option"
  pol_max_ttl_secs :: "u64 option"
  pol_capabilities :: "capability_set option"
  allow_sub_delegation :: bool
  required_extensions :: "string list"
  trusted_principal_pks :: "bytes list"

definition policy_new :: "string \<Rightarrow> delegation_policy" where
  "policy_new n = \<lparr>pol_name = n, pol_max_chain_depth = None, pol_max_ttl_secs = None,
     pol_capabilities = None, allow_sub_delegation = True, required_extensions = [],
     trusted_principal_pks = []\<rparr>"

definition policy_permissive :: "string \<Rightarrow> delegation_policy" where
  "policy_permissive n = policy_new n"

definition policy_max_chain_depth :: "u8 \<Rightarrow> delegation_policy \<Rightarrow> delegation_policy" where
  "policy_max_chain_depth d p = p\<lparr>pol_max_chain_depth := Some d\<rparr>"

definition policy_max_ttl_secs :: "u64 \<Rightarrow> delegation_policy \<Rightarrow> delegation_policy" where
  "policy_max_ttl_secs t p = p\<lparr>pol_max_ttl_secs := Some t\<rparr>"

definition policy_capabilities :: "capability_set \<Rightarrow> delegation_policy \<Rightarrow> delegation_policy" where
  "policy_capabilities s p = p\<lparr>pol_capabilities := Some s\<rparr>"

definition forbid_sub_delegation :: "delegation_policy \<Rightarrow> delegation_policy" where
  "forbid_sub_delegation p = p\<lparr>allow_sub_delegation := False\<rparr>"

definition require_extension :: "string \<Rightarrow> delegation_policy \<Rightarrow> delegation_policy" where
  "require_extension k p = p\<lparr>required_extensions := required_extensions p @ [k]\<rparr>"

definition trust_principal :: "bytes \<Rightarrow> delegation_policy \<Rightarrow> delegation_policy" where
  "trust_principal pk p = p\<lparr>trusted_principal_pks := trusted_principal_pks p @ [pk]\<rparr>"

definition check_cert :: "delegation_policy \<Rightarrow> delegation_cert \<Rightarrow> policy_violation + unit" where
  "check_cert p cert =
     bindR (case pol_max_ttl_secs p of
              Some max_ttl \<Rightarrow>
                (let ttl = sat_sub (expiration_unix cert) (issued_at cert)
                 in if ttl > max_ttl then Inl (TtlExceedsMaximum max_ttl ttl) else Inr ())
            | None \<Rightarrow> Inr ()) (\<lambda>_.
     bindR (if \<not> allow_sub_delegation p
            then (let has_sub = subset_intents (scope_proof cert) \<noteq> [] \<or> ssp_proofs (scope_proof cert) \<noteq> []
                  in if has_sub \<and> max_depth cert > 0 then Inl SubDelegationForbidden else Inr ())
            else Inr ()) (\<lambda>_.
     each (\<lambda>key. if ext_get (extensions cert) key = None then Inl (RequiredExtensionAbsent key) else Inr ())
       (required_extensions p)))"

definition check_chain :: "delegation_policy \<Rightarrow> dyolo_chain \<Rightarrow> policy_violation + unit" where
  "check_chain p chain =
     bindR (if trusted_principal_pks p \<noteq> []
            then (if principal_pk chain \<in> set (trusted_principal_pks p) then Inr () else Inl PrincipalNotTrusted)
            else Inr ()) (\<lambda>_.
     bindR (case pol_max_chain_depth p of
              Some d \<Rightarrow> (if chain_len chain > unat d then Inl (ChainDepthExceeded d (chain_len chain)) else Inr ())
            | None \<Rightarrow> Inr ()) (\<lambda>_.
     each (check_cert p) (certs chain)))"

definition check_intent :: "delegation_policy \<Rightarrow> intent \<Rightarrow> policy_violation + unit" where
  "check_intent p i =
     (case pol_capabilities p of
        Some caps \<Rightarrow> (if \<not> permits caps (action i) then Inl (IntentNotAllowed (action i) (pol_name p)) else Inr ())
      | None \<Rightarrow> Inr ())"

section \<open>Policy sets\<close>

type_synonym policy_set = "delegation_policy list"

definition policy_set_add :: "delegation_policy \<Rightarrow> policy_set \<Rightarrow> policy_set" where
  "policy_set_add p ps = ps @ [p]"

definition set_check_chain :: "policy_set \<Rightarrow> dyolo_chain \<Rightarrow> a1_error + unit" where
  "set_check_chain ps chain =
     each (\<lambda>p. map_errR (\<lambda>v. PolicyViolation (display_violation v)) (check_chain p chain)) ps"

definition set_check_intent :: "policy_set \<Rightarrow> intent \<Rightarrow> a1_error + unit" where
  "set_check_intent ps i =
     each (\<lambda>p. map_errR (\<lambda>v. PolicyViolation (display_violation v)) (check_intent p i)) ps"

subsection \<open>Policies as text\<close>

text \<open>
  An untagged \<open>PolicyInput\<close>: the value that is read from the text (\<open>parse\<close>) is taken as one policy if it is
  one, else as a list of policies, else it is refused; \<open>one\<close> and \<open>many\<close> are serde's readings of a value.
\<close>

datatype policy_input = SinglePolicy delegation_policy | PolicyList "delegation_policy list"

record 'v policy_codec =
  pc_parse :: "string \<Rightarrow> string + 'v"
  pc_one :: "'v \<Rightarrow> delegation_policy option"
  pc_many :: "'v \<Rightarrow> delegation_policy list option"
  pc_print :: "delegation_policy list \<Rightarrow> string + string"

definition policy_input_of :: "'v policy_codec \<Rightarrow> 'v \<Rightarrow> string + policy_input" where
  "policy_input_of C v =
     (case pc_one C v of
        Some p \<Rightarrow> Inr (SinglePolicy p)
      | None \<Rightarrow> (case pc_many C v of
                   Some ps \<Rightarrow> Inr (PolicyList ps)
                 | None \<Rightarrow> Inl ''data did not match any variant of untagged enum PolicyInput''))"

definition policy_set_from_yaml :: "'v policy_codec \<Rightarrow> string \<Rightarrow> string + policy_set" where
  "policy_set_from_yaml C t =
     bindR (bindR (pc_parse C t) (policy_input_of C)) (\<lambda>i.
       case i of SinglePolicy p \<Rightarrow> Inr [p] | PolicyList ps \<Rightarrow> Inr ps)"

definition policy_set_from_json :: "'v policy_codec \<Rightarrow> string \<Rightarrow> string + policy_set" where
  "policy_set_from_json C t =
     bindR (bindR (pc_parse C t) (policy_input_of C)) (\<lambda>i.
       case i of SinglePolicy p \<Rightarrow> Inr [p] | PolicyList ps \<Rightarrow> Inr ps)"

definition policy_set_to_yaml :: "'v policy_codec \<Rightarrow> policy_set \<Rightarrow> string + string" where
  "policy_set_to_yaml C ps = pc_print C ps"

text \<open>A set comes back from its text, when a printed list reads as itself and is not a policy.\<close>

lemma policy_set_roundtrip:
  assumes "policy_set_to_yaml C ps = Inr t"
    and "\<And>ps t. pc_print C ps = Inr t \<Longrightarrow> \<exists>v. pc_parse C t = Inr v \<and> pc_one C v = None \<and> pc_many C v = Some ps"
  shows "policy_set_from_yaml C t = Inr ps"
  using assms(2) [of ps t] assms(1)
  by (auto simp: policy_set_to_yaml_def policy_set_from_yaml_def policy_input_of_def bindR_def)

text \<open>A text of a single policy and the text of the list of it are the same set.\<close>

lemma policy_set_single:
  assumes "pc_parse C t = Inr v" "pc_one C v = Some p"
  shows "policy_set_from_json C t = Inr [p]"
  using assms by (simp add: policy_set_from_json_def policy_input_of_def bindR_def)

subsection \<open>What a policy accepts\<close>

text \<open>
  Where sub-delegation is forbidden, a certificate may still permit further hops (\<open>max_depth\<close> above
  zero) if it passes its whole scope on, that is, carries no scope proof: only a narrowing certificate is
  held to the rule.
\<close>

definition cert_conforms :: "delegation_policy \<Rightarrow> delegation_cert \<Rightarrow> bool" where
  "cert_conforms p c \<longleftrightarrow>
     (\<forall>m. pol_max_ttl_secs p = Some m \<longrightarrow> unat (expiration_unix c) - unat (issued_at c) \<le> unat m)
     \<and> (allow_sub_delegation p \<or> max_depth c = 0
        \<or> (subset_intents (scope_proof c) = [] \<and> ssp_proofs (scope_proof c) = []))
     \<and> (\<forall>k\<in>set (required_extensions p). ext_get (extensions c) k \<noteq> None)"

lemma less_sat_sub: "m < sat_sub a b \<longleftrightarrow> unat m < unat a - unat b"
  by (simp add: word_less_nat_alt unat_sat_sub)

lemma check_cert_iff: "check_cert p c = Inr () \<longleftrightarrow> cert_conforms p c"
  by (cases "pol_max_ttl_secs p")
    (auto simp: check_cert_def cert_conforms_def result_simps each_Inr_iff Let_def not_less
      word_gt_0 less_sat_sub split: if_splits)

lemma check_chain_iff:
  "check_chain p chain = Inr () \<longleftrightarrow>
     (trusted_principal_pks p = [] \<or> principal_pk chain \<in> set (trusted_principal_pks p))
     \<and> (\<forall>d. pol_max_chain_depth p = Some d \<longrightarrow> length (certs chain) \<le> unat d)
     \<and> (\<forall>c\<in>set (certs chain). cert_conforms p c)"
  by (auto simp: check_chain_def chain_len_def result_simps each_Inr_iff check_cert_iff
      split: option.splits if_splits)

lemma check_intent_iff:
  "check_intent p i = Inr () \<longleftrightarrow> (\<forall>caps. pol_capabilities p = Some caps \<longrightarrow> permits caps (action i))"
  by (auto simp: check_intent_def split: option.splits)

lemma set_check_chain_iff: "set_check_chain ps chain = Inr () \<longleftrightarrow> (\<forall>p\<in>set ps. check_chain p chain = Inr ())"
  by (simp add: set_check_chain_def each_Inr_iff)

lemma set_check_intent_iff: "set_check_intent ps i = Inr () \<longleftrightarrow> (\<forall>p\<in>set ps. check_intent p i = Inr ())"
  by (simp add: set_check_intent_def each_Inr_iff)

lemma set_check_chain_error:
  "set_check_chain ps chain = Inl e \<Longrightarrow> is_policy_violation e"
  unfolding set_check_chain_def
  by (drule each_Inl) (auto simp: map_errR_Inl_iff is_policy_violation_def)

text \<open>So a chain that never narrows its scope passes as before when every policy forbids sub-delegation.\<close>

lemma check_chain_forbid:
  assumes "\<And>x. x \<in> set (certs chain) \<Longrightarrow> subset_intents (scope_proof x) = [] \<and> ssp_proofs (scope_proof x) = []"
    and "check_chain p chain = Inr ()"
  shows "check_chain (forbid_sub_delegation p) chain = Inr ()"
  using assms unfolding check_chain_iff by (auto simp: cert_conforms_def forbid_sub_delegation_def)

lemma set_check_chain_forbid:
  assumes "\<And>x. x \<in> set (certs chain) \<Longrightarrow> subset_intents (scope_proof x) = [] \<and> ssp_proofs (scope_proof x) = []"
    and "set_check_chain ps chain = Inr ()"
  shows "set_check_chain (map forbid_sub_delegation ps) chain = Inr ()"
  using assms check_chain_forbid [OF assms(1)] by (auto simp: set_check_chain_iff)

text \<open>Adding a policy to a set only restricts it.\<close>

lemma set_check_chain_add:
  "set_check_chain (ps @ [p]) chain = Inr () \<longleftrightarrow>
     set_check_chain ps chain = Inr () \<and> check_chain p chain = Inr ()"
  by (auto simp: set_check_chain_iff)

text \<open>The chain checks never look at the capability set of a policy.\<close>

lemma check_chain_capabilities: "check_chain (p\<lparr>pol_capabilities := caps\<rparr>) chain = check_chain p chain"
proof -
  have "check_cert (p\<lparr>pol_capabilities := caps\<rparr>) = check_cert p"
    by (rule HOL.ext) (simp add: check_cert_def)
  then show ?thesis by (simp add: check_chain_def)
qed

lemma set_check_chain_capabilities:
  "set_check_chain (map (\<lambda>p. p\<lparr>pol_capabilities := f p\<rparr>) ps) chain = set_check_chain ps chain"
  by (induction ps) (simp_all add: set_check_chain_def check_chain_capabilities)

end
