(* ===== verification/A1_Audit.thy ===== *)
theory A1_Audit
  imports A1_Crypto
begin

text \<open>
  \<open>src/audit.rs\<close>: the outcome of an authorization attempt, the event that records it with
  its time-sortable identifier, and the sinks events go to. The sixteen random bytes of
  an identifier are the argument \<open>rnd\<close>; a sink is the state it keeps with its \<open>emit\<close>
  function, where \<open>None\<close> is a panic. The exporting sinks are in A1_Siem.
\<close>

datatype audit_outcome = Authorized | Denied | PolicyViolated | StorageErrored

fun display_outcome :: "audit_outcome \<Rightarrow> string" where
  "display_outcome Authorized = ''AUTHORIZED''"
| "display_outcome Denied = ''DENIED''"
| "display_outcome PolicyViolated = ''POLICY_VIOLATION''"
| "display_outcome StorageErrored = ''STORAGE_ERROR''"

record audit_event =
  event_id :: string
  timestamp_unix :: u64
  outcome :: audit_outcome
  principal_pk_hex :: string
  executor_pk_hex :: string
  ev_chain_depth :: nat
  ev_chain_fingerprint :: "string option"
  intent_hex :: string
  error_message :: "string option"
  policy_name :: "string option"
  request_id :: "string option"
  trace_id :: "string option"
  span_id :: "string option"
  batch_size :: "nat option"
  batch_outcomes :: "audit_outcome list option"

text \<open>
  The identifier bytes of \<open>AuditEvent::new\<close>: the random bytes, five of them overwritten, the
  48-bit millisecond clock in front, and the version and variant bits of a UUIDv7.
\<close>

definition ts_millis :: "u64 \<Rightarrow> u64" where
  "ts_millis ts = word_of_nat (min (unat ts * 1000) (2 ^ 48 - 1))"

definition event_id_bytes :: "bytes \<Rightarrow> u64 \<Rightarrow> bytes" where
  "event_id_bytes rnd ts =
     (let b = rnd[10 := 0x64, 11 := 0x79, 12 := 0x6f, 13 := 0x6c, 14 := 0x6f];
          b = take 6 (drop 2 (be64 (ts_millis ts))) @ drop 6 b;
          b = b[6 := (b ! 6 AND 0x0F) OR 0x70]
      in b[8 := (b ! 8 AND 0x3F) OR 0x80])"

definition hex_slice :: "string \<Rightarrow> nat \<Rightarrow> nat \<Rightarrow> string" where
  "hex_slice h i j = take (j - i) (drop i h)"

definition event_id_of :: "ext \<Rightarrow> bytes \<Rightarrow> u64 \<Rightarrow> string" where
  "event_id_of E rnd ts =
     (let hex = hex_enc E (event_id_bytes rnd ts)
      in hex_slice hex 0 8 @ ''-'' @ hex_slice hex 8 12 @ ''-'' @ hex_slice hex 12 16 @ ''-''
         @ hex_slice hex 16 20 @ ''-'' @ hex_slice hex 20 32)"

definition audit_event_new ::
  "ext \<Rightarrow> bytes \<Rightarrow> audit_outcome \<Rightarrow> string \<Rightarrow> string \<Rightarrow> nat \<Rightarrow> bytes \<Rightarrow> u64 \<Rightarrow> audit_event" where
  "audit_event_new E rnd oc prin executor depth intent ts =
     \<lparr>event_id = event_id_of E rnd ts, timestamp_unix = ts, outcome = oc, principal_pk_hex = prin,
      executor_pk_hex = executor, ev_chain_depth = depth, ev_chain_fingerprint = None,
      intent_hex = hex_enc E intent, error_message = None, policy_name = None, request_id = None,
      trace_id = None, span_id = None, batch_size = None, batch_outcomes = None\<rparr>"

definition with_fingerprint :: "ext \<Rightarrow> bytes \<Rightarrow> audit_event \<Rightarrow> audit_event" where
  "with_fingerprint E fp ev = ev\<lparr>ev_chain_fingerprint := Some (hex_enc E fp)\<rparr>"

definition with_error :: "string \<Rightarrow> audit_event \<Rightarrow> audit_event" where
  "with_error msg ev = ev\<lparr>error_message := Some msg\<rparr>"

definition with_policy :: "string \<Rightarrow> audit_event \<Rightarrow> audit_event" where
  "with_policy n ev = ev\<lparr>policy_name := Some n\<rparr>"

definition with_request_id :: "string \<Rightarrow> audit_event \<Rightarrow> audit_event" where
  "with_request_id i ev = ev\<lparr>request_id := Some i\<rparr>"

definition with_trace :: "string \<Rightarrow> string \<Rightarrow> audit_event \<Rightarrow> audit_event" where
  "with_trace t s ev = ev\<lparr>trace_id := Some t, span_id := Some s\<rparr>"

definition with_batch_info :: "nat \<Rightarrow> audit_outcome list \<Rightarrow> audit_event \<Rightarrow> audit_event" where
  "with_batch_info n os ev = ev\<lparr>batch_size := Some n, batch_outcomes := Some os\<rparr>"

section \<open>Sinks\<close>

type_synonym 'k emitter = "audit_event \<Rightarrow> 'k \<Rightarrow> 'k option"

definition noop_emit :: "'k emitter" where
  "noop_emit ev k = Some k"

text \<open>
  \<open>CompositeAuditSink::emit\<close>: every downstream sink in turn, each under \<open>catch_unwind\<close>. A sink
  that panics keeps the state it had here; the loop goes on.
\<close>

definition composite_emit :: "'k emitter list \<Rightarrow> audit_event \<Rightarrow> 'k \<Rightarrow> 'k" where
  "composite_emit sinks ev k =
     fold (\<lambda>emit k. case emit ev k of None \<Rightarrow> k | Some k' \<Rightarrow> k') sinks k"

text \<open>A panicking sink takes nothing from the others: the outcome is that of the sinks that do not panic.\<close>

lemma composite_emit_isolates:
  "(\<And>k. bad ev k = None) \<Longrightarrow> composite_emit (xs @ bad # ys) ev k = composite_emit (xs @ ys) ev k"
  by (simp add: composite_emit_def)

section \<open>Identifiers\<close>

lemma version_nibble: "drop_bit 4 ((b AND 0x0F) OR (0x70 :: u8)) = 7"
  by (simp add: drop_bit_or drop_bit_and)

lemma variant_bits: "drop_bit 6 ((b AND 0x3F) OR (0x80 :: u8)) = 2"
  by (simp add: drop_bit_or drop_bit_and)

lemma event_id_bytes_nth:
  assumes "length rnd = 16" "i < 16"
  shows "event_id_bytes rnd ts ! i =
    (if i < 6 then be64 (ts_millis ts) ! (i + 2)
     else if i = 6 then (rnd ! 6 AND 0x0F) OR 0x70
     else if i = 8 then (rnd ! 8 AND 0x3F) OR 0x80
     else if 10 \<le> i \<and> i < 15 then str_bytes ''dyolo'' ! (i - 10)
     else rnd ! i)"
proof -
  have d: "str_bytes ''dyolo'' = [0x64, 0x79, 0x6f, 0x6c, 0x6f]" by (simp add: str_bytes_def)
  have b: "be64 w ! (2 + i) = be64 w ! (i + 2)" for w by (simp add: add.commute)
  show ?thesis
    using assms unfolding event_id_bytes_def Let_def d
    by (auto simp: nth_append nth_list_update b not_less less_Suc_eq numeral_eq_Suc)
qed

lemma length_event_id_bytes: "length rnd = 16 \<Longrightarrow> length (event_id_bytes rnd ts) = 16"
  by (simp add: event_id_bytes_def Let_def)

end
