(* ===== verification/A1_Registry.thy ===== *)
theory A1_Registry
  imports A1_Errors
begin

text \<open>
  \<open>src/registry.rs\<close>: what a revocation store and a nonce store promise, as locales; the
  default batch operations of the traits; and the in-memory stores with their Bloom filters,
  sharding, lock poisoning and expiry, refined to the sets they stand for. The rate limiter is
  the third store. A store's clock reading (\<open>unix_now()\<close>) is the argument \<open>now\<close>. The locks
  make each call atomic, so a call is one step of the state.
\<close>

section \<open>Store contracts\<close>

text \<open>A revocation store answers for a set of fingerprints that only grows.\<close>

locale revocation_store =
  fixes is_rev :: "'s \<Rightarrow> bytes \<Rightarrow> storage_error + bool"
    and rev_one :: "'s \<Rightarrow> bytes \<Rightarrow> (storage_error + unit) \<times> 's"
    and inv :: "'s \<Rightarrow> bool"
    and revoked :: "'s \<Rightarrow> bytes set"
  assumes is_rev_spec: "inv s \<Longrightarrow> is_rev s fp = Inr (fp \<in> revoked s)"
    and rev_ok: "inv s \<Longrightarrow> fst (rev_one s fp) = Inr ()"
    and rev_inv: "inv s \<Longrightarrow> inv (snd (rev_one s fp))"
    and rev_set: "inv s \<Longrightarrow> revoked (snd (rev_one s fp)) = insert fp (revoked s)"

text \<open>The trait's default \<open>revoke_batch\<close>: one call per fingerprint, stopping at an error.\<close>

fun default_revoke_batch ::
  "('s \<Rightarrow> bytes \<Rightarrow> (storage_error + unit) \<times> 's) \<Rightarrow> 's \<Rightarrow> bytes list \<Rightarrow> (storage_error + unit) \<times> 's" where
  "default_revoke_batch rev_one s [] = (Inr (), s)"
| "default_revoke_batch rev_one s (fp # fps) =
     (case rev_one s fp of
        (Inl e, s') \<Rightarrow> (Inl e, s')
      | (Inr _, s') \<Rightarrow> default_revoke_batch rev_one s' fps)"

context revocation_store
begin

lemma revoke_batch_spec:
  "inv s \<Longrightarrow> \<exists>s'. default_revoke_batch rev_one s fps = (Inr (), s') \<and> inv s' \<and> revoked s' = set fps \<union> revoked s"
proof (induction fps arbitrary: s)
  case Nil
  then show ?case by simp
next
  case (Cons fp fps)
  from rev_ok [OF Cons.prems, of fp] obtain s1 where s1: "rev_one s fp = (Inr (), s1)"
    by (metis prod.collapse)
  with rev_inv [OF Cons.prems, of fp] rev_set [OF Cons.prems, of fp]
  have "inv s1" "revoked s1 = insert fp (revoked s)" by simp_all
  with Cons.IH [of s1] s1 show ?case by auto
qed

lemma revoked_forever: "inv s \<Longrightarrow> fp \<in> revoked s \<Longrightarrow> is_rev (snd (rev_one s fp')) fp = Inr True"
  by (simp add: is_rev_spec rev_inv rev_set)

end

text \<open>
  A nonce store consumes a batch at once or not at all: the batch is refused exactly when one
  of its nonces is already in use, and a refusal changes nothing. \<open>used t s\<close> is what the
  store \<open>s\<close> holds at time \<open>t\<close>.
\<close>

locale nonce_store =
  fixes consume :: "u64 \<Rightarrow> 's \<Rightarrow> bytes list \<Rightarrow> (storage_error + bool) \<times> 's"
    and inv :: "'s \<Rightarrow> bool"
    and used :: "u64 \<Rightarrow> 's \<Rightarrow> bytes set"
  assumes consume_refused: "inv s \<Longrightarrow> set ns \<inter> used t s \<noteq> {} \<Longrightarrow> consume t s ns = (Inr False, s)"
    and consume_fresh: "inv s \<Longrightarrow> set ns \<inter> used t s = {} \<Longrightarrow>
      \<exists>s'. consume t s ns = (Inr True, s') \<and> inv s' \<and> used t s' = set ns \<union> used t s"
begin

lemma consume_total: "inv s \<Longrightarrow> \<exists>b s'. consume t s ns = (Inr b, s') \<and> inv s'"
  by (cases "set ns \<inter> used t s = {}") (use consume_fresh consume_refused in blast)+

lemma consume_twice:
  assumes "inv s" "ns \<noteq> []" "consume t s ns = (Inr True, s')"
  shows "consume t s' ns = (Inr False, s')"
proof -
  have "set ns \<inter> used t s = {}" using consume_refused [OF assms(1), of ns t] assms(3) by auto
  from consume_fresh [OF assms(1) this] assms(3) have "inv s'" "used t s' = set ns \<union> used t s" by auto
  moreover have "set ns \<inter> (set ns \<union> used t s) \<noteq> {}" using assms(2) by (cases ns) auto
  ultimately show ?thesis by (intro consume_refused) simp_all
qed

end

text \<open>A store that never forgets a nonce refuses it at every later (or earlier) time.\<close>

locale persistent_nonce_store = nonce_store +
  assumes used_time: "inv s \<Longrightarrow> used t s = used t' s"
begin

lemma consume_ever_after:
  assumes "inv s" "consume t s ns = (Inr True, s')" "set ms \<inter> set ns \<noteq> {}"
  shows "consume t' s' ms = (Inr False, s')"
proof -
  have "set ns \<inter> used t s = {}" using consume_refused [OF assms(1), of ns t] assms(2) by auto
  from consume_fresh [OF assms(1) this] assms(2) have i: "inv s'" and "used t s' = set ns \<union> used t s"
    by auto
  then have "used t' s' = set ns \<union> used t s" using used_time by metis
  with assms(3) show ?thesis by (intro consume_refused [OF i]) blast
qed

end

text \<open>
  The trait's default \<open>try_consume_batch\<close>, from \<open>is_consumed\<close> and \<open>mark_consumed\<close>: look at
  every nonce first, then mark them all.
\<close>

fun any_consumed ::
  "('s \<Rightarrow> bytes \<Rightarrow> storage_error + bool) \<Rightarrow> 's \<Rightarrow> bytes list \<Rightarrow> storage_error + bool" where
  "any_consumed is_c s [] = Inr False"
| "any_consumed is_c s (n # ns) =
     bindR (is_c s n) (\<lambda>b. if b then Inr True else any_consumed is_c s ns)"

fun mark_all ::
  "('s \<Rightarrow> bytes \<Rightarrow> (storage_error + unit) \<times> 's) \<Rightarrow> 's \<Rightarrow> bytes list \<Rightarrow> (storage_error + unit) \<times> 's" where
  "mark_all mark s [] = (Inr (), s)"
| "mark_all mark s (n # ns) =
     (case mark s n of (Inl e, s') \<Rightarrow> (Inl e, s') | (Inr _, s') \<Rightarrow> mark_all mark s' ns)"

definition default_try_consume_batch ::
  "('s \<Rightarrow> bytes \<Rightarrow> storage_error + bool) \<Rightarrow> ('s \<Rightarrow> bytes \<Rightarrow> (storage_error + unit) \<times> 's)
     \<Rightarrow> 's \<Rightarrow> bytes list \<Rightarrow> (storage_error + bool) \<times> 's" where
  "default_try_consume_batch is_c mark s ns =
     (case any_consumed is_c s ns of
        Inl e \<Rightarrow> (Inl e, s)
      | Inr True \<Rightarrow> (Inr False, s)
      | Inr False \<Rightarrow> (case mark_all mark s ns of (Inl e, s') \<Rightarrow> (Inl e, s') | (Inr _, s') \<Rightarrow> (Inr True, s')))"

locale nonce_basic =
  fixes is_c :: "u64 \<Rightarrow> 's \<Rightarrow> bytes \<Rightarrow> storage_error + bool"
    and mark :: "u64 \<Rightarrow> 's \<Rightarrow> bytes \<Rightarrow> (storage_error + unit) \<times> 's"
    and inv :: "'s \<Rightarrow> bool"
    and used :: "u64 \<Rightarrow> 's \<Rightarrow> bytes set"
  assumes is_c_spec: "inv s \<Longrightarrow> is_c t s n = Inr (n \<in> used t s)"
    and mark_spec: "inv s \<Longrightarrow> \<exists>s'. mark t s n = (Inr (), s') \<and> inv s' \<and> used t s' = insert n (used t s)"
begin

lemma any_consumed_spec: "inv s \<Longrightarrow> any_consumed (is_c t) s ns = Inr (set ns \<inter> used t s \<noteq> {})"
  by (induction ns) (auto simp: is_c_spec)

lemma mark_all_spec:
  "inv s \<Longrightarrow> \<exists>s'. mark_all (mark t) s ns = (Inr (), s') \<and> inv s' \<and> used t s' = set ns \<union> used t s"
proof (induction ns arbitrary: s)
  case Nil
  then show ?case by simp
next
  case (Cons n ns)
  from mark_spec [OF Cons.prems, of t n] obtain s1
    where s1: "mark t s n = (Inr (), s1)" "inv s1" "used t s1 = insert n (used t s)" by blast
  from Cons.IH [OF s1(2)] s1 show ?case by auto
qed

end

sublocale nonce_basic \<subseteq> batch: nonce_store
  "\<lambda>t. default_try_consume_batch (is_c t) (mark t)" inv used
proof unfold_locales
  fix s ns t
  assume i: "inv s"
  show "default_try_consume_batch (is_c t) (mark t) s ns = (Inr False, s)" if "set ns \<inter> used t s \<noteq> {}"
    using any_consumed_spec [OF i, of t ns] that by (simp add: default_try_consume_batch_def)
  show "\<exists>s'. default_try_consume_batch (is_c t) (mark t) s ns = (Inr True, s') \<and> inv s'
      \<and> used t s' = set ns \<union> used t s" if "set ns \<inter> used t s = {}"
    using any_consumed_spec [OF i, of t ns] mark_all_spec [OF i, of t ns] that
    by (auto simp: default_try_consume_batch_def)
qed

section \<open>Bloom filters\<close>

text \<open>A filter is a list of 64-bit words; \<open>fetch_or\<close> and the test of one bit mask.\<close>

definition fetch_or :: "u64 list \<Rightarrow> nat \<times> u64 \<Rightarrow> u64 list" where
  "fetch_or bloom ix = bloom[fst ix := (bloom ! fst ix) OR snd ix]"

definition bloom_hit :: "u64 list \<Rightarrow> nat \<times> u64 \<Rightarrow> bool" where
  "bloom_hit bloom ix \<longleftrightarrow> (bloom ! fst ix) AND snd ix \<noteq> 0"

definition one_bit :: "u64 \<Rightarrow> u64" where
  "one_bit h = push_bit (unat (h mod 64)) 1"

lemma word_nonzero: "w \<noteq> 0 \<longleftrightarrow> (\<exists>k. bit w k)" for w :: u64
proof
  assume "w \<noteq> 0"
  then show "\<exists>k. bit w k" by (rule contrapos_np) (auto intro: bit_word_eqI)
qed auto

lemma one_bit_nonzero: "one_bit h \<noteq> 0"
proof -
  have "unat (h mod 64) < 64" by (simp add: unat_mod)
  then have "bit (one_bit h) (unat (h mod 64))"
    unfolding one_bit_def push_bit_eq_mult by (simp add: bit_exp_iff)
  then show ?thesis by (auto simp: word_nonzero)
qed

lemma bloom_hit_bit: "bloom_hit b ix \<longleftrightarrow> (\<exists>k. bit (b ! fst ix) k \<and> bit (snd ix) k)"
  by (simp add: bloom_hit_def word_nonzero bit_and_iff)

lemma length_fetch_or [simp]: "length (fetch_or b ix) = length b"
  by (simp add: fetch_or_def)

lemma bloom_hit_mono: "bloom_hit b jx \<Longrightarrow> bloom_hit (fetch_or b ix) jx"
proof -
  assume "bloom_hit b jx"
  then obtain k where k: "bit (b ! fst jx) k" "bit (snd jx) k" by (auto simp: bloom_hit_bit)
  then have "bit (fetch_or b ix ! fst jx) k"
    by (cases "fst ix = fst jx"; cases "fst jx < length b")
      (simp_all add: fetch_or_def bit_or_iff list_update_beyond)
  with k show ?thesis by (auto simp: bloom_hit_bit)
qed

lemma bloom_hit_self: "fst ix < length b \<Longrightarrow> snd ix \<noteq> 0 \<Longrightarrow> bloom_hit (fetch_or b ix) ix"
  by (auto simp: bloom_hit_bit fetch_or_def bit_or_iff word_nonzero)

lemma length_fold_fetch_or [simp]: "length (fold (\<lambda>ix b. fetch_or b ix) ixs b) = length b"
  by (induction ixs arbitrary: b) simp_all

lemma fold_fetch_or_mono: "bloom_hit b jx \<Longrightarrow> bloom_hit (fold (\<lambda>ix b. fetch_or b ix) ixs b) jx"
  by (induction ixs arbitrary: b) (simp_all add: bloom_hit_mono)

lemma fold_fetch_or_hit:
  "list_all (\<lambda>ix. fst ix < length b \<and> snd ix \<noteq> 0) ixs \<Longrightarrow>
     list_all (bloom_hit (fold (\<lambda>ix b. fetch_or b ix) ixs b)) ixs"
proof (induction ixs arbitrary: b)
  case Nil
  then show ?case by simp
next
  case (Cons ix ixs)
  from Cons.prems have "bloom_hit (fetch_or b ix) ix" by (simp add: bloom_hit_self)
  then have "bloom_hit (fold (\<lambda>ix b. fetch_or b ix) ixs (fetch_or b ix)) ix" by (rule fold_fetch_or_mono)
  with Cons.IH [of "fetch_or b ix"] Cons.prems show ?case by simp
qed

section \<open>The in-memory revocation store\<close>

definition IDENTITY_SEED :: u64 where "IDENTITY_SEED = 0x64796F6C6FA12800"

record memory_revocation_store =
  r_bloom :: "u64 list"
  r_shards :: "bytes set list"
  r_poisoned :: "bool list"

definition mem_rev_new :: memory_revocation_store where
  "mem_rev_new = \<lparr>r_bloom = replicate 64 0, r_shards = replicate 64 {}, r_poisoned = replicate 64 False\<rparr>"

definition bloom_indices :: "bytes \<Rightarrow> (nat \<times> u64) list" where
  "bloom_indices fp =
     (let h1 = from_le64 (take 8 fp) * IDENTITY_SEED;
          h2 = from_le64 (take 8 (drop 8 fp)) + word_rotl 17 IDENTITY_SEED;
          h3 = from_le64 (take 8 (drop 16 fp)) XOR IDENTITY_SEED
      in [(unat (h1 mod 64), one_bit (word_rotr 13 h1)),
          (unat (h2 mod 64), one_bit (word_rotr 27 h2)),
          (unat (h3 mod 64), one_bit (word_rotr 41 h3))])"

definition shard_index :: "bytes \<Rightarrow> nat" where
  "shard_index fp = unat (from_le64 (take 8 (drop 24 fp)) mod 64)"

definition mem_is_revoked :: "memory_revocation_store \<Rightarrow> bytes \<Rightarrow> storage_error + bool" where
  "mem_is_revoked s fp =
     (if list_all (bloom_hit (r_bloom s)) (bloom_indices fp)
      then (if r_poisoned s ! shard_index fp
            then Inl (storage_permanent ''revocation shard lock poisoned'')
            else Inr (fp \<in> r_shards s ! shard_index fp))
      else Inr False)"

definition set_bloom :: "bytes \<Rightarrow> memory_revocation_store \<Rightarrow> memory_revocation_store" where
  "set_bloom fp s = s\<lparr>r_bloom := fold (\<lambda>ix b. fetch_or b ix) (bloom_indices fp) (r_bloom s)\<rparr>"

definition insert_shard ::
  "memory_revocation_store \<Rightarrow> bytes \<Rightarrow> (storage_error + unit) \<times> memory_revocation_store" where
  "insert_shard s fp =
     (let i = shard_index fp in
      if r_poisoned s ! i then (Inl (storage_permanent ''revocation shard lock poisoned''), s)
      else (Inr (), s\<lparr>r_shards := (r_shards s)[i := insert fp (r_shards s ! i)]\<rparr>))"

definition mem_revoke ::
  "memory_revocation_store \<Rightarrow> bytes \<Rightarrow> (storage_error + unit) \<times> memory_revocation_store" where
  "mem_revoke s fp = insert_shard (set_bloom fp s) fp"

definition mem_revoke_batch ::
  "memory_revocation_store \<Rightarrow> bytes list \<Rightarrow> (storage_error + unit) \<times> memory_revocation_store" where
  "mem_revoke_batch s fps = default_revoke_batch insert_shard (fold set_bloom fps s) fps"

text \<open>
  The invariant: a revoked fingerprint sits in its own shard and all its filter bits are set,
  so the filter's early "not revoked" is never wrong.
\<close>

definition revoked_set :: "memory_revocation_store \<Rightarrow> bytes set" where
  "revoked_set s = \<Union> (set (r_shards s))"

definition mem_rev_inv :: "memory_revocation_store \<Rightarrow> bool" where
  "mem_rev_inv s \<longleftrightarrow> length (r_bloom s) = 64 \<and> length (r_shards s) = 64 \<and> r_poisoned s = replicate 64 False
     \<and> (\<forall>i<64. \<forall>fp\<in>r_shards s ! i. shard_index fp = i \<and> list_all (bloom_hit (r_bloom s)) (bloom_indices fp))"

lemma mod64: "unat (h mod (64 :: u64)) < 64"
  by (simp add: unat_mod)

lemma shard_index_less: "shard_index fp < 64"
  by (simp add: shard_index_def mod64)

lemma bloom_indices_wf: "length b = 64 \<Longrightarrow> list_all (\<lambda>ix. fst ix < length b \<and> snd ix \<noteq> 0) (bloom_indices fp)"
  by (simp add: bloom_indices_def Let_def mod64 one_bit_nonzero)

lemma mem_rev_inv_new: "mem_rev_inv mem_rev_new"
  by (simp add: mem_rev_inv_def mem_rev_new_def)

lemma mem_rev_member:
  "mem_rev_inv s \<Longrightarrow> fp \<in> revoked_set s \<longleftrightarrow> fp \<in> r_shards s ! shard_index fp"
proof -
  assume i: "mem_rev_inv s"
  have "fp \<in> revoked_set s \<longleftrightarrow> (\<exists>j<64. fp \<in> r_shards s ! j)"
    using i unfolding revoked_set_def mem_rev_inv_def by (simp add: set_conv_nth) metis
  also have "\<dots> \<longleftrightarrow> fp \<in> r_shards s ! shard_index fp"
    using i shard_index_less [of fp] by (auto simp: mem_rev_inv_def)
  finally show ?thesis .
qed

lemma mem_is_revoked_spec: "mem_rev_inv s \<Longrightarrow> mem_is_revoked s fp = Inr (fp \<in> revoked_set s)"
  using shard_index_less [of fp]
  by (auto simp: mem_is_revoked_def mem_rev_member mem_rev_inv_def)

lemma set_bloom_mono: "bloom_hit (r_bloom s) jx \<Longrightarrow> bloom_hit (r_bloom (set_bloom fp s)) jx"
  by (simp add: set_bloom_def fold_fetch_or_mono)

lemma set_bloom_mono_all:
  "list_all (bloom_hit (r_bloom s)) xs \<Longrightarrow> list_all (bloom_hit (r_bloom (set_bloom fp s))) xs"
  unfolding list_all_iff using set_bloom_mono by blast

lemma set_bloom_revoked [simp]: "revoked_set (set_bloom fp s) = revoked_set s"
  by (simp add: set_bloom_def revoked_set_def)

lemma set_bloom_hit:
  "mem_rev_inv s \<Longrightarrow> list_all (bloom_hit (r_bloom (set_bloom fp s))) (bloom_indices fp)"
proof -
  assume "mem_rev_inv s"
  then have "length (r_bloom s) = 64" by (simp add: mem_rev_inv_def)
  from fold_fetch_or_hit [OF bloom_indices_wf [OF this]] show ?thesis by (simp add: set_bloom_def)
qed

lemma set_bloom_inv:
  assumes "mem_rev_inv s"
  shows "mem_rev_inv (set_bloom fp s)"
proof -
  have "r_shards (set_bloom fp s) = r_shards s" "r_poisoned (set_bloom fp s) = r_poisoned s"
    "length (r_bloom (set_bloom fp s)) = length (r_bloom s)"
    by (simp_all add: set_bloom_def)
  then show ?thesis using assms set_bloom_mono_all unfolding mem_rev_inv_def by metis
qed

lemma insert_shard_spec:
  assumes "mem_rev_inv s" "list_all (bloom_hit (r_bloom s)) (bloom_indices fp)"
  shows "\<exists>s'. insert_shard s fp = (Inr (), s') \<and> mem_rev_inv s' \<and> r_bloom s' = r_bloom s
    \<and> revoked_set s' = insert fp (revoked_set s)"
proof -
  let ?i = "shard_index fp"
  let ?s = "s\<lparr>r_shards := (r_shards s)[?i := insert fp (r_shards s ! ?i)]\<rparr>"
  have len: "length (r_shards s) = 64" using assms(1) by (simp add: mem_rev_inv_def)
  have e: "insert_shard s fp = (Inr (), ?s)"
    using assms(1) shard_index_less [of fp] by (simp add: insert_shard_def Let_def mem_rev_inv_def)
  have "mem_rev_inv ?s"
    using assms shard_index_less [of fp] by (auto simp: mem_rev_inv_def nth_list_update)
  moreover have "revoked_set ?s = insert fp (revoked_set s)"
  proof (rule set_eqI)
    fix x
    have "x \<in> revoked_set ?s \<longleftrightarrow> x \<in> (r_shards s)[?i := insert fp (r_shards s ! ?i)] ! shard_index x"
      using mem_rev_member [OF \<open>mem_rev_inv ?s\<close>, of x] by simp
    also have "\<dots> \<longleftrightarrow> x = fp \<or> x \<in> r_shards s ! shard_index x"
      using shard_index_less [of fp] len by (auto simp: nth_list_update)
    finally show "x \<in> revoked_set ?s \<longleftrightarrow> x \<in> insert fp (revoked_set s)"
      by (simp add: mem_rev_member [OF assms(1)])
  qed
  ultimately show ?thesis using e by simp
qed

lemma mem_revoke_spec:
  assumes "mem_rev_inv s"
  shows "\<exists>s'. mem_revoke s fp = (Inr (), s') \<and> mem_rev_inv s' \<and> revoked_set s' = insert fp (revoked_set s)"
  using insert_shard_spec [OF set_bloom_inv [OF assms] set_bloom_hit [OF assms]]
  by (auto simp: mem_revoke_def)

interpretation mem_rev: revocation_store mem_is_revoked mem_revoke mem_rev_inv revoked_set
proof unfold_locales
  fix s fp assume i: "mem_rev_inv s"
  show "mem_is_revoked s fp = Inr (fp \<in> revoked_set s)" using i by (rule mem_is_revoked_spec)
  obtain s' where s': "mem_revoke s fp = (Inr (), s')" "mem_rev_inv s'" "revoked_set s' = insert fp (revoked_set s)"
    using mem_revoke_spec [OF i, of fp] by blast
  then show "fst (mem_revoke s fp) = Inr ()" "mem_rev_inv (snd (mem_revoke s fp))"
    "revoked_set (snd (mem_revoke s fp)) = insert fp (revoked_set s)"
    by (simp_all only: s' fst_conv snd_conv)
qed

text \<open>
  The overridden batch operation sets every filter first and then fills the shards; it revokes
  the same fingerprints as the trait's default.
\<close>

lemma mem_revoke_batch_spec:
  assumes "mem_rev_inv s"
  shows "\<exists>s'. mem_revoke_batch s fps = (Inr (), s') \<and> mem_rev_inv s' \<and> revoked_set s' = set fps \<union> revoked_set s"
proof -
  have bi: "mem_rev_inv (fold set_bloom xs s)" for xs
    by (induction xs rule: rev_induct) (simp_all add: assms set_bloom_inv)
  have br: "revoked_set (fold set_bloom xs s) = revoked_set s" for xs
    by (induction xs rule: rev_induct) simp_all
  have bh: "\<forall>x\<in>set xs. list_all (bloom_hit (r_bloom (fold set_bloom xs s))) (bloom_indices x)" for xs
  proof (induction xs rule: rev_induct)
    case (snoc y ys)
    show ?case
    proof
      fix x assume "x \<in> set (ys @ [y])"
      then consider "x = y" | "x \<in> set ys" by auto
      then show "list_all (bloom_hit (r_bloom (fold set_bloom (ys @ [y]) s))) (bloom_indices x)"
      proof cases
        case 1
        show ?thesis unfolding 1 fold_append comp_apply fold.simps id_apply by (rule set_bloom_hit [OF bi])
      next
        case 2
        with snoc have "list_all (bloom_hit (r_bloom (fold set_bloom ys s))) (bloom_indices x)" by blast
        then show ?thesis unfolding fold_append comp_apply fold.simps id_apply by (rule set_bloom_mono_all)
      qed
    qed
  qed simp
  have sh: "\<exists>s'. default_revoke_batch insert_shard u xs = (Inr (), s') \<and> mem_rev_inv s'
      \<and> revoked_set s' = set xs \<union> revoked_set u"
    if "mem_rev_inv u" "\<forall>x\<in>set xs. list_all (bloom_hit (r_bloom u)) (bloom_indices x)" for u xs
    using that
  proof (induction xs arbitrary: u)
    case Nil
    then show ?case by simp
  next
    case (Cons x xs)
    then obtain u' where u': "insert_shard u x = (Inr (), u')" "mem_rev_inv u'" "r_bloom u' = r_bloom u"
        "revoked_set u' = insert x (revoked_set u)"
      using insert_shard_spec [of u x] by auto
    then show ?case using Cons.IH [OF u'(2)] Cons.prems(2) by auto
  qed
  show ?thesis unfolding mem_revoke_batch_def using sh [OF bi bh, of fps] by (simp add: br)
qed

end
