(* ===== verification/A1_Nonces.thy ===== *)
theory A1_Nonces
  imports A1_Registry
begin

text \<open>
  The in-memory nonce store of \<open>src/registry.rs\<close>, with its Bloom filter and optional expiry,
  refined to the set of nonces in use at a time; and the in-memory rate limiter, refined to
  the count of the current window.
\<close>

section \<open>The in-memory nonce store\<close>

definition PROVENANCE_SEED :: u64 where "PROVENANCE_SEED = 0x64796F6C6FA12800"

record memory_nonce_store =
  n_bloom :: "u64 list"
  n_store :: "bytes \<rightharpoonup> u64"
  n_ttl_secs :: "u64 option"
  n_poisoned :: bool

definition mem_nonce_new :: memory_nonce_store where
  "mem_nonce_new = \<lparr>n_bloom = replicate 1024 0, n_store = Map.empty, n_ttl_secs = None, n_poisoned = False\<rparr>"

definition with_ttl_secs :: "u64 \<Rightarrow> memory_nonce_store \<Rightarrow> memory_nonce_store" where
  "with_ttl_secs ttl s = s\<lparr>n_ttl_secs := Some ttl\<rparr>"

definition nonce_indices :: "bytes \<Rightarrow> nat \<times> u64" where
  "nonce_indices nonce =
     (let e1 = from_le64 (take 8 nonce);
          e2 = from_le64 (take 8 (drop 8 nonce));
          h = (e1 * PROVENANCE_SEED + word_rotl 23 e2) XOR 0x9E3779B185EBCA87
      in (unat (h mod 1024), one_bit (word_rotr 11 h)))"

definition lock_poisoned :: storage_error where
  "lock_poisoned = storage_permanent ''nonce store lock poisoned''"

text \<open>The test both entry points make: the filter bit is set and the entry has not expired.\<close>

definition in_use :: "u64 \<Rightarrow> memory_nonce_store \<Rightarrow> bytes \<Rightarrow> bool" where
  "in_use now s nonce \<longleftrightarrow> bloom_hit (n_bloom s) (nonce_indices nonce)
     \<and> (case n_store s nonce of None \<Rightarrow> False | Some exp \<Rightarrow> exp \<ge> now)"

definition retain_live :: "u64 \<Rightarrow> (bytes \<rightharpoonup> u64) \<Rightarrow> (bytes \<rightharpoonup> u64)" where
  "retain_live now m = (\<lambda>n. case m n of None \<Rightarrow> None | Some exp \<Rightarrow> if exp \<ge> now then Some exp else None)"

definition put_nonce :: "u64 \<Rightarrow> bytes \<Rightarrow> memory_nonce_store \<Rightarrow> memory_nonce_store" where
  "put_nonce exp nonce s =
     s\<lparr>n_store := (n_store s)(nonce \<mapsto> exp), n_bloom := fetch_or (n_bloom s) (nonce_indices nonce)\<rparr>"

definition mem_try_consume ::
  "u64 \<Rightarrow> memory_nonce_store \<Rightarrow> bytes \<Rightarrow> (storage_error + bool) \<times> memory_nonce_store" where
  "mem_try_consume now s nonce =
     (if n_poisoned s then (Inl lock_poisoned, s)
      else if in_use now s nonce then (Inr False, s)
      else case n_ttl_secs s of
        Some ttl \<Rightarrow>
          (Inr True, put_nonce (sat_add now ttl) nonce (s\<lparr>n_store := retain_live now (n_store s)\<rparr>))
      | None \<Rightarrow> (Inr True, put_nonce (- 1) nonce s))"

definition mem_try_consume_batch ::
  "u64 \<Rightarrow> memory_nonce_store \<Rightarrow> bytes list \<Rightarrow> (storage_error + bool) \<times> memory_nonce_store" where
  "mem_try_consume_batch now s nonces =
     (if n_poisoned s then (Inl lock_poisoned, s)
      else if list_ex (in_use now s) nonces then (Inr False, s)
      else case n_ttl_secs s of
        Some ttl \<Rightarrow>
          (Inr True, fold (put_nonce (sat_add now ttl)) nonces (s\<lparr>n_store := retain_live now (n_store s)\<rparr>))
      | None \<Rightarrow> (Inr True, fold (put_nonce (- 1)) nonces s))"

definition mem_is_consumed :: "u64 \<Rightarrow> memory_nonce_store \<Rightarrow> bytes \<Rightarrow> storage_error + bool" where
  "mem_is_consumed now s nonce =
     (if \<not> bloom_hit (n_bloom s) (nonce_indices nonce) then Inr False
      else if n_poisoned s then Inl lock_poisoned
      else case n_store s nonce of Some exp \<Rightarrow> Inr (exp \<ge> now) | None \<Rightarrow> Inr False)"

definition mem_mark_consumed ::
  "u64 \<Rightarrow> memory_nonce_store \<Rightarrow> bytes \<Rightarrow> (storage_error + unit) \<times> memory_nonce_store" where
  "mem_mark_consumed now s nonce =
     (case mem_try_consume now s nonce of (r, s') \<Rightarrow> (bindR r (\<lambda>_. Inr ()), s'))"

text \<open>
  The nonces in use at a time, and the invariant: the lock is sound and every stored nonce has
  its filter bit set.
\<close>

definition live :: "u64 \<Rightarrow> memory_nonce_store \<Rightarrow> bytes set" where
  "live now s = {n. \<exists>exp. n_store s n = Some exp \<and> exp \<ge> now}"

definition nonce_inv :: "memory_nonce_store \<Rightarrow> bool" where
  "nonce_inv s \<longleftrightarrow> length (n_bloom s) = 1024 \<and> \<not> n_poisoned s
     \<and> (\<forall>n\<in>dom (n_store s). bloom_hit (n_bloom s) (nonce_indices n))"

lemma nonce_inv_new: "nonce_inv mem_nonce_new"
  by (simp add: nonce_inv_def mem_nonce_new_def)

lemma nonce_inv_ttl: "nonce_inv (with_ttl_secs ttl s) = nonce_inv s"
  by (simp add: nonce_inv_def with_ttl_secs_def)

lemma nonce_indices_wf: "fst (nonce_indices n) < 1024" "snd (nonce_indices n) \<noteq> 0"
  by (simp_all add: nonce_indices_def Let_def unat_mod one_bit_nonzero)

lemma in_use_live: "nonce_inv s \<Longrightarrow> in_use now s n \<longleftrightarrow> n \<in> live now s"
  unfolding in_use_def live_def nonce_inv_def by (auto split: option.splits)

lemma put_nonce_inv: "nonce_inv s \<Longrightarrow> nonce_inv (put_nonce exp n s)"
  unfolding nonce_inv_def put_nonce_def
  using bloom_hit_self [of "nonce_indices n" "n_bloom s"] bloom_hit_mono nonce_indices_wf
  by simp

lemma put_nonce_live: "exp \<ge> now \<Longrightarrow> live now (put_nonce exp n s) = insert n (live now s)"
  by (auto simp: live_def put_nonce_def)

lemma put_nonce_ttl [simp]: "n_ttl_secs (put_nonce exp n s) = n_ttl_secs s"
  by (simp add: put_nonce_def)

lemma fold_put_inv: "nonce_inv s \<Longrightarrow> nonce_inv (fold (put_nonce exp) ns s)"
  by (induction ns arbitrary: s) (simp_all add: put_nonce_inv)

lemma fold_put_live: "exp \<ge> now \<Longrightarrow> live now (fold (put_nonce exp) ns s) = set ns \<union> live now s"
  by (induction ns arbitrary: s) (simp_all add: put_nonce_live)

lemma retain_inv: "nonce_inv s \<Longrightarrow> nonce_inv (s\<lparr>n_store := retain_live now (n_store s)\<rparr>)"
  unfolding nonce_inv_def retain_live_def by (auto simp: dom_def split: option.splits if_splits)

lemma retain_live_live [simp]: "live now (s\<lparr>n_store := retain_live now (n_store s)\<rparr>) = live now s"
  by (auto simp: live_def retain_live_def split: option.splits if_splits)

lemma sat_add_ge: "now \<le> sat_add now (ttl :: u64)"
  using unsigned_less [where ?'a = nat and ?'b = 64, of now] by (simp add: word_le_nat_alt unat_sat_add)

text \<open>The overriding batch operation meets the contract of a nonce store.\<close>

interpretation mem_nonce: nonce_store mem_try_consume_batch nonce_inv live
proof unfold_locales
  fix s ns t
  assume i: "nonce_inv s"
  then have p: "\<not> n_poisoned s" by (simp add: nonce_inv_def)
  have ex: "list_ex (in_use t s) ns \<longleftrightarrow> set ns \<inter> live t s \<noteq> {}"
    using in_use_live [OF i] by (auto simp: list_ex_iff)
  show "mem_try_consume_batch t s ns = (Inr False, s)" if "set ns \<inter> live t s \<noteq> {}"
    unfolding mem_try_consume_batch_def ex using p that by simp
  show "\<exists>s'. mem_try_consume_batch t s ns = (Inr True, s') \<and> nonce_inv s' \<and> live t s' = set ns \<union> live t s"
    if "set ns \<inter> live t s = {}"
    unfolding mem_try_consume_batch_def ex using p that i
    by (cases "n_ttl_secs s")
      (simp_all add: fold_put_inv fold_put_live retain_inv sat_add_ge word_order.extremum)
qed

lemma mem_try_consume_batch_one: "mem_try_consume_batch now s [n] = mem_try_consume now s n"
  by (simp add: mem_try_consume_batch_def mem_try_consume_def split: option.split)

lemma mem_is_consumed_spec: "nonce_inv s \<Longrightarrow> mem_is_consumed now s n = Inr (n \<in> live now s)"
  unfolding mem_is_consumed_def live_def nonce_inv_def by (auto split: option.splits)


text \<open>
  The single-nonce operations make a basic store, so the trait's default batch operation, built
  from them, meets the same contract.
\<close>

lemma mem_mark_spec:
  assumes "nonce_inv s"
  shows "\<exists>s'. mem_mark_consumed t s n = (Inr (), s') \<and> nonce_inv s' \<and> live t s' = insert n (live t s)"
proof (cases "n \<in> live t s")
  case True
  then have "mem_try_consume t s n = (Inr False, s)"
    using mem_nonce.consume_refused [OF assms, of "[n]" t] by (simp add: mem_try_consume_batch_one)
  then show ?thesis using assms True by (simp add: mem_mark_consumed_def insert_absorb)
next
  case False
  then obtain s' where "mem_try_consume t s n = (Inr True, s')" "nonce_inv s'" "live t s' = insert n (live t s)"
    using mem_nonce.consume_fresh [OF assms, of "[n]" t] by (auto simp: mem_try_consume_batch_one)
  then show ?thesis by (simp add: mem_mark_consumed_def)
qed

interpretation mem_basic: nonce_basic mem_is_consumed mem_mark_consumed nonce_inv live
  by unfold_locales (rule mem_is_consumed_spec mem_mark_spec; assumption)+

text \<open>Without an expiry every entry is stored with \<open>u64::MAX\<close>, and is in use at every time.\<close>

definition nonce_inv_forever :: "memory_nonce_store \<Rightarrow> bool" where
  "nonce_inv_forever s \<longleftrightarrow> nonce_inv s \<and> n_ttl_secs s = None \<and> ran (n_store s) \<subseteq> {- 1}"

lemma nonce_inv_forever_new: "nonce_inv_forever mem_nonce_new"
  by (simp add: nonce_inv_forever_def nonce_inv_new) (simp add: mem_nonce_new_def)

lemma fold_put_forever: "nonce_inv_forever s \<Longrightarrow> nonce_inv_forever (fold (put_nonce (- 1)) ns s)"
proof (induction ns arbitrary: s)
  case (Cons n ns)
  have "nonce_inv_forever (put_nonce (- 1) n s)"
    using Cons.prems put_nonce_inv unfolding nonce_inv_forever_def
    by (auto simp: put_nonce_def ran_def)
  then show ?case by (simp add: Cons.IH)
qed simp

interpretation mem_forever: persistent_nonce_store mem_try_consume_batch nonce_inv_forever live
proof unfold_locales
  fix s ns t t'
  assume i: "nonce_inv_forever s"
  then have i': "nonce_inv s" "n_ttl_secs s = None" and r: "ran (n_store s) \<subseteq> {- 1}"
    by (simp_all add: nonce_inv_forever_def)
  show "mem_try_consume_batch t s ns = (Inr False, s)" if "set ns \<inter> live t s \<noteq> {}"
    using mem_nonce.consume_refused [OF i'(1) that] .
  show "\<exists>s'. mem_try_consume_batch t s ns = (Inr True, s') \<and> nonce_inv_forever s' \<and> live t s' = set ns \<union> live t s"
    if d: "set ns \<inter> live t s = {}"
  proof -
    obtain s' where s': "mem_try_consume_batch t s ns = (Inr True, s')" "live t s' = set ns \<union> live t s"
      using mem_nonce.consume_fresh [OF i'(1) d] by blast
    then have "s' = fold (put_nonce (- 1)) ns s"
      using i' by (simp add: mem_try_consume_batch_def split: if_splits)
    then show ?thesis using s' fold_put_forever [OF i] by blast
  qed
  have "live u s = dom (n_store s)" for u
    using r by (force simp: live_def ran_def dom_def)
  then show "live t s = live t' s" by simp
qed

text \<open>
  With an expiry the store forgets: a nonce consumed at \<open>t\<close> can be consumed again after
  \<open>t + ttl\<close>.
\<close>

lemma mem_try_consume_ttl:
  assumes "nonce_inv s" "n_ttl_secs s = Some ttl" "mem_try_consume t s n = (Inr True, s')"
  shows "mem_is_consumed t' s' n = Inr (t' \<le> sat_add t ttl)"
proof -
  have s': "s' = put_nonce (sat_add t ttl) n (s\<lparr>n_store := retain_live t (n_store s)\<rparr>)"
    using assms by (auto simp: mem_try_consume_def split: if_splits)
  then have "nonce_inv s'" using assms(1) by (simp add: put_nonce_inv retain_inv)
  then show ?thesis by (simp add: mem_is_consumed_spec) (simp add: s' live_def put_nonce_def)
qed

section \<open>The in-memory rate limiter\<close>

record rate_bucket =
  window_start_secs :: u64
  bucket_count :: u32

record memory_rate_limit_store =
  rl_buckets :: "bytes \<rightharpoonup> rate_bucket"
  rl_poisoned :: bool

definition rate_limit_new :: memory_rate_limit_store where
  "rate_limit_new = \<lparr>rl_buckets = Map.empty, rl_poisoned = False\<rparr>"

text \<open>
  \<open>check_and_record\<close>. The \<open>retain\<close> closure computes \<open>window_secs.max(1) * 2\<close> for each bucket
  held, and \<open>Cargo.toml\<close> turns \<open>overflow-checks\<close> on: an overflow there is a panic (\<open>None\<close>).
\<close>

definition window_start :: "u64 \<Rightarrow> u64 \<Rightarrow> u64" where
  "window_start now window_secs = (now div max window_secs 1) * max window_secs 1"

definition retain_buckets :: "u64 \<Rightarrow> u64 \<Rightarrow> (bytes \<rightharpoonup> rate_bucket) \<Rightarrow> (bytes \<rightharpoonup> rate_bucket) option" where
  "retain_buckets now window_secs m =
     (if m \<noteq> Map.empty \<and> unat (max window_secs 1) * 2 \<ge> 2 ^ 64 then None
      else Some (\<lambda>k. case m k of None \<Rightarrow> None
        | Some v \<Rightarrow> if sat_sub now (window_start_secs v) < max window_secs 1 * 2 then Some v else None))"

definition check_and_record ::
  "u64 \<Rightarrow> memory_rate_limit_store \<Rightarrow> bytes \<Rightarrow> u32 \<Rightarrow> u64
     \<Rightarrow> ((storage_error + bool) \<times> memory_rate_limit_store) option" where
  "check_and_record now s key max_per_window window_secs =
     (let start = window_start now window_secs in
      if rl_poisoned s then Some (Inl (storage_permanent ''rate limit store lock poisoned''), s)
      else case retain_buckets now window_secs (rl_buckets s) of
        None \<Rightarrow> None
      | Some kept \<Rightarrow>
          (let b0 = (case kept key of None \<Rightarrow> \<lparr>window_start_secs = start, bucket_count = 0\<rparr> | Some b \<Rightarrow> b);
               b1 = (if window_start_secs b0 \<noteq> start then \<lparr>window_start_secs = start, bucket_count = 0\<rparr> else b0)
           in if bucket_count b1 \<ge> max_per_window
              then Some (Inr False, s\<lparr>rl_buckets := kept(key \<mapsto> b1)\<rparr>)
              else Some (Inr True,
                s\<lparr>rl_buckets := kept(key \<mapsto> b1\<lparr>bucket_count := bucket_count b1 + 1\<rparr>)\<rparr>)))"

text \<open>What the store stands for: the requests counted for a key in the window that starts at \<open>start\<close>.\<close>

definition window_count :: "u64 \<Rightarrow> memory_rate_limit_store \<Rightarrow> bytes \<Rightarrow> u32" where
  "window_count start s key =
     (case rl_buckets s key of None \<Rightarrow> 0
      | Some b \<Rightarrow> if window_start_secs b = start then bucket_count b else 0)"

lemma window_start_recent:
  assumes "unat (max window_secs (1 :: u64)) * 2 < 2 ^ 64"
  shows "sat_sub now (window_start now window_secs) < max window_secs 1 * 2"
proof -
  let ?w = "max window_secs 1"
  have w: "unat ?w > 0"
  proof -
    have "1 \<le> ?w" by simp
    then have "unat (1 :: u64) \<le> unat ?w" by (simp only: word_le_nat_alt)
    then show ?thesis by simp
  qed
  have d: "unat (now div ?w) = unat now div unat ?w" by (rule unat_div)
  have "unat now div unat ?w * unat ?w \<le> unat now" by simp
  also have "\<dots> < 2 ^ LENGTH(64)" by (rule unsigned_less)
  finally have "unat (now div ?w * ?w) = unat now div unat ?w * unat ?w"
    by (subst unat_word_ariths) (simp only: d mod_less)
  then have ws: "unat (window_start now window_secs) = unat now div unat ?w * unat ?w"
    by (simp only: window_start_def)
  have "unat now - unat now div unat ?w * unat ?w = unat now mod unat ?w"
    by (simp add: minus_div_mult_eq_mod)
  moreover have "unat (?w * 2) = unat ?w * 2" using assms by (simp add: unat_word_ariths)
  moreover have "unat now mod unat ?w < unat ?w" using w by simp
  ultimately show ?thesis by (simp add: word_less_nat_alt unat_sat_sub ws)
qed

lemma check_and_record_spec:
  assumes "\<not> rl_poisoned s" "unat (max window_secs 1) * 2 < 2 ^ 64"
  shows "\<exists>s'. check_and_record now s key m window_secs
        = Some (Inr (window_count (window_start now window_secs) s key < m), s')
    \<and> \<not> rl_poisoned s'
    \<and> (\<forall>k. window_count (window_start now window_secs) s' k
        = window_count (window_start now window_secs) s k
          + (if k = key \<and> window_count (window_start now window_secs) s key < m then 1 else 0))"
proof -
  let ?st = "window_start now window_secs"
  obtain kept where k: "retain_buckets now window_secs (rl_buckets s) = Some kept"
    "\<And>k. kept k = (case rl_buckets s k of None \<Rightarrow> None
        | Some v \<Rightarrow> if sat_sub now (window_start_secs v) < max window_secs 1 * 2 then Some v else None)"
    using assms(2) by (simp add: retain_buckets_def)
  have cnt: "(case kept k of None \<Rightarrow> 0 | Some b \<Rightarrow> if window_start_secs b = ?st then bucket_count b else 0)
      = window_count ?st s k" for k
    using window_start_recent [OF assms(2), of now]
    by (auto simp: k(2) window_count_def split: option.splits)
  show ?thesis
    using assms(1) cnt [of key] cnt
    by (cases "kept key")
      (auto simp: check_and_record_def Let_def k(1) window_count_def word_gt_0 split: if_splits)
qed

text \<open>
  A sequence of requests at given times: the answers, and the store after them. \<open>None\<close> as soon as a
  call panics or fails.
\<close>

fun rate_serve ::
  "u32 \<Rightarrow> u64 \<Rightarrow> (u64 \<times> bytes) list \<Rightarrow> memory_rate_limit_store \<Rightarrow> (bool list \<times> memory_rate_limit_store) option" where
  "rate_serve m w [] s = Some ([], s)"
| "rate_serve m w ((now, key) # qs) s =
     (case check_and_record now s key m w of
        Some (Inr b, s') \<Rightarrow> map_option (\<lambda>(bs, s''). (b # bs, s'')) (rate_serve m w qs s')
      | _ \<Rightarrow> None)"

definition requests_of :: "bytes \<Rightarrow> (u64 \<times> bytes) list \<Rightarrow> nat" where
  "requests_of k qs = length (filter (\<lambda>q. snd q = k) qs)"

definition accepted_of :: "bytes \<Rightarrow> (u64 \<times> bytes) list \<Rightarrow> bool list \<Rightarrow> nat" where
  "accepted_of k qs bs = length (filter (\<lambda>(q, b). snd q = k \<and> b) (zip qs bs))"

lemma unat_Suc_below: "c < m \<Longrightarrow> unat (c + 1) = Suc (unat c)" for c m :: u32
proof -
  have "unat m < 2 ^ LENGTH(32)" by (rule unsigned_less)
  moreover assume "c < m"
  ultimately show ?thesis by (simp add: unat_word_ariths word_less_nat_alt)
qed

lemma rate_serve_spec:
  assumes "unat (max w 1) * 2 < 2 ^ 64"
  shows "\<not> rl_poisoned s \<Longrightarrow> (\<And>q. q \<in> set qs \<Longrightarrow> window_start (fst q) w = st) \<Longrightarrow>
    \<exists>bs s'. rate_serve m w qs s = Some (bs, s') \<and> length bs = length qs
      \<and> (\<forall>k. accepted_of k qs bs = min (requests_of k qs) (unat m - unat (window_count st s k)))"
proof (induction qs arbitrary: s)
  case Nil
  then show ?case by (simp add: accepted_of_def requests_of_def)
next
  case (Cons q qs)
  obtain now key where q: "q = (now, key)" by (cases q)
  with Cons.prems(2) [of q] have st: "window_start now w = st" by simp
  let ?b = "window_count st s key < m"
  from check_and_record_spec [OF Cons.prems(1) assms, of now key m] obtain s1 where s1:
    "check_and_record now s key m w = Some (Inr ?b, s1)" "\<not> rl_poisoned s1"
    "\<And>k. window_count st s1 k = window_count st s k + (if k = key \<and> ?b then 1 else 0)"
    unfolding st by blast
  from Cons.IH [OF s1(2)] Cons.prems(2) obtain bs s2 where r: "rate_serve m w qs s1 = Some (bs, s2)"
    "length bs = length qs"
    "\<And>k. accepted_of k qs bs = min (requests_of k qs) (unat m - unat (window_count st s1 k))" by fastforce
  have "accepted_of k (q # qs) (?b # bs) = min (requests_of k (q # qs)) (unat m - unat (window_count st s k))" for k
  proof -
    have a: "accepted_of k (q # qs) (?b # bs) = (if k = key \<and> ?b then Suc (accepted_of k qs bs) else accepted_of k qs bs)"
      "requests_of k (q # qs) = (if k = key then Suc (requests_of k qs) else requests_of k qs)"
      by (auto simp: accepted_of_def requests_of_def q)
    show ?thesis
    proof (cases "k = key \<and> ?b")
      case True
      then have "unat (window_count st s1 k) = Suc (unat (window_count st s k))" "unat (window_count st s k) < unat m"
        using s1(3) [of k] unat_Suc_below [of "window_count st s k" m] by (auto simp: word_less_nat_alt)
      with a True r(3) [of k] show ?thesis by simp
    next
      case False
      then have "k = key \<Longrightarrow> unat m - unat (window_count st s k) = 0" by (auto simp: word_less_nat_alt)
      with a False r(3) [of k] s1(3) [of k] show ?thesis by auto
    qed
  qed
  with r(1,2) show ?case by (auto simp: q s1(1))
qed

end
