(* ===== verification/A1_Chain.thy ===== *)
theory A1_Chain
  imports A1_Policy A1_Audit A1_Nonces
begin

text \<open>
  The authorization of \<open>src/chain.rs\<close>: \<open>validate_structure\<close> with its loop over the hops in
  source order, \<open>authorize\<close> with its options and its audit event, and \<open>authorize_batch\<close>. The
  asynchronous twins run the same steps over the asynchronous stores. The clock's readings are
  arguments: \<open>now\<close> inside the validation, \<open>now'\<close> where the code reads the clock again. The stores
  are arguments too: \<open>is_rev\<close> answers for the revocation store, \<open>consume\<close> is one call of
  \<open>try_consume_batch\<close> on the state of the nonce store.
\<close>

section \<open>Structural validation\<close>

record walk =
  current_scope :: bytes
  expected_delegator :: bytes
  depth :: nat
  max_allowed_depth :: u8
  parent_expiry :: u64
  seen_nonces :: "bytes list"
  cert_fingerprints :: "bytes list"
  batch_sigs :: "bytes list"
  batch_pks :: "bytes list"
  batch_msgs :: "bytes list"

definition is_passthrough :: "delegation_cert \<Rightarrow> bool" where
  "is_passthrough c \<longleftrightarrow> subset_intents (scope_proof c) = [] \<and> ssp_proofs (scope_proof c) = []"

definition scope_step :: "ext \<Rightarrow> nat \<Rightarrow> bytes \<Rightarrow> delegation_cert \<Rightarrow> a1_error + unit" where
  "scope_step E i scope c =
     (if is_passthrough c
      then (if scope_root c = scope then Inr () else Inl (ScopeEscalation i))
      else bindR (map_errR (\<lambda>_. ScopeEscalation i) (verify_and_derive_root E (scope_proof c) scope))
             (\<lambda>derived. if derived = scope_root c then Inr () else Inl (ScopeEscalation i)))"

text \<open>One turn of the loop, with its checks in the order of the code.\<close>

definition hop :: "ext \<Rightarrow> u64 \<Rightarrow> u64 \<Rightarrow> nat \<Rightarrow> delegation_cert \<Rightarrow> walk \<Rightarrow> a1_error + walk" where
  "hop E now drift i c w =
     (if delegator_pk c \<noteq> expected_delegator w then Inl (BrokenLinkage i)
      else if version c \<noteq> CERT_VERSION then Inl (UnsupportedVersion CERT_VERSION (version c))
      else
        let w = w\<lparr>batch_msgs := batch_msgs w @ [cert_message E c],
                  batch_sigs := batch_sigs w @ [signature c],
                  batch_pks := batch_pks w @ [delegator_pk c]\<rparr> in
      if sat_add now drift < issued_at c then Inl (NotYetValid i (issued_at c) now)
      else if expiration_unix c < sat_sub now drift then Inl (Expired i (expiration_unix c) now)
      else if expiration_unix c > parent_expiry w
        then Inl (TemporalViolation i (expiration_unix c) (parent_expiry w))
      else
        let w = w\<lparr>depth := depth w + 1\<rparr> in
      if depth w > unat (max_allowed_depth w) then Inl (MaxDepthExceeded i (max_allowed_depth w))
      else
        let w = (if max_depth c < max_allowed_depth w then w\<lparr>max_allowed_depth := max_depth c\<rparr> else w) in
      if nonce c \<in> set (seen_nonces w) then Inl NonceReplay
      else
        let w = w\<lparr>seen_nonces := seen_nonces w @ [nonce c],
                  cert_fingerprints := cert_fingerprints w @ [cert_fingerprint E c]\<rparr> in
      bindR (scope_step E i (current_scope w) c) (\<lambda>_.
        Inr (w\<lparr>parent_expiry := expiration_unix c, current_scope := scope_root c,
               expected_delegator := delegate_pk c\<rparr>)))"

fun walk_chain ::
  "ext \<Rightarrow> u64 \<Rightarrow> u64 \<Rightarrow> nat \<Rightarrow> delegation_cert list \<Rightarrow> walk \<Rightarrow> a1_error + walk" where
  "walk_chain E now drift i [] w = Inr w"
| "walk_chain E now drift i (c # cs) w = bindR (hop E now drift i c w) (walk_chain E now drift (i + 1) cs)"

definition walk_start :: "dyolo_chain \<Rightarrow> walk" where
  "walk_start c = \<lparr>current_scope = principal_scope c, expected_delegator = principal_pk c, depth = 0,
     max_allowed_depth = 255, parent_expiry = - 1, seen_nonces = [], cert_fingerprints = [],
     batch_sigs = [], batch_pks = [], batch_msgs = []\<rparr>"

text \<open>
  When the batch verification fails the certificates are checked one by one to name the hop at
  fault; when each of them verifies on its own the error names hop 0.
\<close>

fun blame_signature :: "ext \<Rightarrow> nat \<Rightarrow> delegation_cert list \<Rightarrow> a1_error" where
  "blame_signature E i [] = InvalidSignature 0"
| "blame_signature E i (c # cs) =
     (if \<not> verify_signature E c then InvalidSignature i else blame_signature E (i + 1) cs)"

definition intent_authorized :: "ext \<Rightarrow> merkle_proof \<Rightarrow> bytes \<Rightarrow> bytes \<Rightarrow> bool" where
  "intent_authorized E p intent scope \<longleftrightarrow>
     (if siblings p = [] then intent = scope else merkle_verify E p intent scope)"

record chain_validation_result =
  v_depth :: nat
  v_scope_root :: bytes
  v_verified_at :: u64
  v_seen_nonces :: "bytes list"
  v_cert_fingerprints :: "bytes list"
  v_chain_fingerprint :: bytes

definition validate_structure ::
  "ext \<Rightarrow> bytes \<Rightarrow> bytes \<Rightarrow> merkle_proof \<Rightarrow> u64 \<Rightarrow> u64 \<Rightarrow> dyolo_chain
     \<Rightarrow> a1_error + chain_validation_result" where
  "validate_structure E agent_pk intent p now drift c =
     (if certs c = [] then Inl EmptyChain
      else if delegator_pk (hd (certs c)) \<noteq> principal_pk c then Inl RootMismatch
      else if length (certs c) > 255 then Inl (MaxDepthExceeded 255 255)
      else bindR (walk_chain E now drift 0 (certs c) (walk_start c)) (\<lambda>w.
        if expected_delegator w \<noteq> agent_pk then Inl UnauthorizedLeaf
        else if \<not> ed_verify_batch E (batch_msgs w) (batch_sigs w) (batch_pks w)
          then Inl (blame_signature E 0 (certs c))
        else if \<not> intent_authorized E p intent (current_scope w) then Inl ScopeViolation
        else Inr \<lparr>v_depth = depth w, v_scope_root = current_scope w, v_verified_at = now,
               v_seen_nonces = seen_nonces w, v_cert_fingerprints = cert_fingerprints w,
               v_chain_fingerprint = fingerprint E c\<rparr>))"

section \<open>Authorization\<close>

type_synonym 'n consumer = "'n \<Rightarrow> bytes list \<Rightarrow> (storage_error + bool) \<times> 'n"

definition check_revocations :: "(bytes \<Rightarrow> storage_error + bool) \<Rightarrow> bytes list \<Rightarrow> a1_error + unit" where
  "check_revocations is_rev fps =
     each (\<lambda>fp. bindR (map_errR StorageFailure (is_rev fp)) (\<lambda>b. if b then Inl Revoked else Inr ())) fps"

definition receipt_of ::
  "dyolo_chain \<Rightarrow> chain_validation_result \<Rightarrow> bytes \<Rightarrow> u64 \<Rightarrow> verification_receipt" where
  "receipt_of c v intent at =
     \<lparr>chain_depth = v_depth v, verified_scope_root = v_scope_root v, receipt_intent = intent,
      verified_at_unix = at, chain_fingerprint = v_chain_fingerprint v,
      receipt_namespace = namespace c\<rparr>"

definition authorize_inner ::
  "ext \<Rightarrow> bytes \<Rightarrow> bytes \<Rightarrow> merkle_proof \<Rightarrow> u64 \<Rightarrow> (bytes \<Rightarrow> storage_error + bool) \<Rightarrow> 'n consumer
     \<Rightarrow> policy_set option \<Rightarrow> dyolo_chain \<Rightarrow> 'n \<Rightarrow> (a1_error + verification_receipt) \<times> 'n" where
  "authorize_inner E agent_pk intent p now is_rev consume policy c s =
     (case bindR (case policy of Some ps \<Rightarrow> set_check_chain ps c | None \<Rightarrow> Inr ()) (\<lambda>_.
             validate_structure E agent_pk intent p now (drift_tolerance_secs c) c) of
        Inl e \<Rightarrow> (Inl e, s)
      | Inr v \<Rightarrow>
          (case check_revocations is_rev (v_cert_fingerprints v) of
             Inl e \<Rightarrow> (Inl e, s)
           | Inr _ \<Rightarrow>
               (case consume s (v_seen_nonces v) of
                  (Inl e, s') \<Rightarrow> (Inl (StorageFailure e), s')
                | (Inr False, s') \<Rightarrow> (Inl NonceReplay, s')
                | (Inr True, s') \<Rightarrow> (Inr (receipt_of c v intent (v_verified_at v)), s'))))"

definition outcome_of :: "a1_error + verification_receipt \<Rightarrow> audit_outcome" where
  "outcome_of r =
     (case r of Inr _ \<Rightarrow> Authorized
      | Inl e \<Rightarrow> if is_policy_violation e then PolicyViolated
                 else if is_transient_storage_failure e then StorageErrored else Denied)"

definition authorize_event ::
  "ext \<Rightarrow> bytes \<Rightarrow> bytes \<Rightarrow> bytes \<Rightarrow> u64 \<Rightarrow> dyolo_chain \<Rightarrow> a1_error + verification_receipt \<Rightarrow> audit_event" where
  "authorize_event E rnd agent_pk intent now' c r =
     (let ev = audit_event_new E rnd (outcome_of r) (hex_enc E (principal_pk c)) (hex_enc E agent_pk)
                 (length (certs c)) intent now'
      in case r of
           Inr receipt \<Rightarrow> with_fingerprint E (chain_fingerprint receipt) ev
         | Inl e \<Rightarrow> with_error (display_error e) ev)"

text \<open>\<open>authorize_with_options\<close>: the result, the nonce store and the event handed to the sink.\<close>

definition authorize_with_options ::
  "ext \<Rightarrow> bytes \<Rightarrow> bytes \<Rightarrow> bytes \<Rightarrow> merkle_proof \<Rightarrow> u64 \<Rightarrow> u64 \<Rightarrow> (bytes \<Rightarrow> storage_error + bool)
     \<Rightarrow> 'n consumer \<Rightarrow> policy_set option \<Rightarrow> dyolo_chain \<Rightarrow> 'n
     \<Rightarrow> ((a1_error + verification_receipt) \<times> 'n) \<times> audit_event" where
  "authorize_with_options E rnd agent_pk intent p now now' is_rev consume policy c s =
     (let r = authorize_inner E agent_pk intent p now is_rev consume policy c s
      in (r, authorize_event E rnd agent_pk intent now' c (fst r)))"

text \<open>\<open>authorize\<close>: no policy, and the sink that discards the event.\<close>

definition authorize ::
  "ext \<Rightarrow> bytes \<Rightarrow> bytes \<Rightarrow> bytes \<Rightarrow> merkle_proof \<Rightarrow> u64 \<Rightarrow> u64 \<Rightarrow> (bytes \<Rightarrow> storage_error + bool)
     \<Rightarrow> 'n consumer \<Rightarrow> dyolo_chain \<Rightarrow> 'n \<Rightarrow> (a1_error + verification_receipt) \<times> 'n" where
  "authorize E rnd agent_pk intent p now now' is_rev consume c s =
     fst (authorize_with_options E rnd agent_pk intent p now now' is_rev consume None c s)"

section \<open>Batches\<close>

record batch_authorize_result =
  receipts :: "verification_receipt option list"
  errors :: "a1_error option list"
  all_authorized :: bool

definition authorized_count :: "batch_authorize_result \<Rightarrow> nat" where
  "authorized_count b = length (filter (\<lambda>r. r \<noteq> None) (receipts b))"

definition batch_failure :: "nat \<Rightarrow> (nat \<Rightarrow> a1_error) \<Rightarrow> batch_authorize_result" where
  "batch_failure n f =
     \<lparr>receipts = replicate n None, errors = map (\<lambda>i. Some (f i)) [0..<n], all_authorized = False\<rparr>"

fun check_revocations_batch :: "(bytes \<Rightarrow> storage_error + bool) \<Rightarrow> nat \<Rightarrow> bytes list \<Rightarrow> batch_authorize_result + unit" where
  "check_revocations_batch is_rev n [] = Inr ()"
| "check_revocations_batch is_rev n (fp # fps) =
     (case is_rev fp of
        Inr True \<Rightarrow> Inl (batch_failure n (\<lambda>_. Revoked))
      | Inl e \<Rightarrow> Inl (batch_failure n (\<lambda>_. BatchItemFailed 0 (display_error (StorageFailure e))))
      | Inr False \<Rightarrow> check_revocations_batch is_rev n fps)"

definition batch_item ::
  "ext \<Rightarrow> dyolo_chain \<Rightarrow> chain_validation_result \<Rightarrow> u64 \<Rightarrow> nat \<Rightarrow> bytes \<times> merkle_proof
     \<Rightarrow> verification_receipt option \<times> a1_error option" where
  "batch_item E c v now i x =
     (if intent_authorized E (snd x) (fst x) (v_scope_root v)
      then (Some (receipt_of c v (fst x) now), None)
      else (None, Some (BatchItemFailed i (display_error ScopeViolation))))"

definition authorize_batch ::
  "ext \<Rightarrow> bytes \<Rightarrow> (bytes \<times> merkle_proof) list \<Rightarrow> u64 \<Rightarrow> u64 \<Rightarrow> (bytes \<Rightarrow> storage_error + bool)
     \<Rightarrow> 'n consumer \<Rightarrow> dyolo_chain \<Rightarrow> 'n \<Rightarrow> batch_authorize_result \<times> 'n" where
  "authorize_batch E agent_pk intents now now' is_rev consume c s =
     (if intents = [] then (\<lparr>receipts = [], errors = [], all_authorized = True\<rparr>, s)
      else
        let n = length intents in
        case validate_structure E agent_pk (fst (hd intents)) (snd (hd intents)) now'
               (drift_tolerance_secs c) c of
          Inl e \<Rightarrow> (batch_failure n (\<lambda>i. BatchItemFailed i (display_error e)), s)
        | Inr v \<Rightarrow>
            (case check_revocations_batch is_rev n (v_cert_fingerprints v) of
               Inl b \<Rightarrow> (b, s)
             | Inr _ \<Rightarrow>
                 let items = map (\<lambda>(i, x). batch_item E c v now i x) (zip [0..<n] intents);
                     rs = map fst items; es = map snd items in
                 if \<not> list_all (\<lambda>e. e = None) es
                 then (\<lparr>receipts = rs, errors = es, all_authorized = False\<rparr>, s)
                 else (case consume s (v_seen_nonces v) of
                     (Inr True, s') \<Rightarrow> (\<lparr>receipts = rs, errors = es, all_authorized = True\<rparr>, s')
                   | (Inr False, s') \<Rightarrow> (batch_failure n (\<lambda>_. NonceReplay), s')
                   | (Inl e, s') \<Rightarrow>
                       (batch_failure n (\<lambda>_. BatchItemFailed 0 (display_error (StorageFailure e))), s'))))"


section \<open>What the validation accepts\<close>

text \<open>The link of each certificate to the one before it, and the scopes along the chain.\<close>

fun linked :: "bytes \<Rightarrow> delegation_cert list \<Rightarrow> bool" where
  "linked p [] \<longleftrightarrow> True"
| "linked p (c # cs) \<longleftrightarrow> delegator_pk c = p \<and> linked (delegate_pk c) cs"

fun scoped :: "ext \<Rightarrow> bytes \<Rightarrow> delegation_cert list \<Rightarrow> bool" where
  "scoped E s [] \<longleftrightarrow> True"
| "scoped E s (c # cs) \<longleftrightarrow>
     (if is_passthrough c then scope_root c = s
      else verify_and_derive_root E (scope_proof c) s = Inr (scope_root c))
     \<and> scoped E (scope_root c) cs"

definition leaf_pk :: "bytes \<Rightarrow> delegation_cert list \<Rightarrow> bytes" where
  "leaf_pk p cs = (if cs = [] then p else delegate_pk (last cs))"

definition leaf_scope :: "bytes \<Rightarrow> delegation_cert list \<Rightarrow> bytes" where
  "leaf_scope s cs = (if cs = [] then s else scope_root (last cs))"

definition in_window :: "u64 \<Rightarrow> u64 \<Rightarrow> delegation_cert \<Rightarrow> bool" where
  "in_window now drift c \<longleftrightarrow> issued_at c \<le> sat_add now drift \<and> sat_sub now drift \<le> expiration_unix c"

text \<open>Hop \<open>i\<close> (counted from 0) is at depth \<open>i + 1\<close>, which every certificate before it must allow.\<close>

definition depths_ok :: "delegation_cert list \<Rightarrow> bool" where
  "depths_ok cs \<longleftrightarrow> (\<forall>i<length cs. \<forall>j<i. i + 1 \<le> unat (max_depth (cs ! j)))"

text \<open>
  What \<open>validate_structure\<close> accepts. The protocol document asks for more of the window (\<open>issued_at\<close>
  before the expiry, the expiry after the tolerated present) and for less of the depth: see \<open>A1_Protocol\<close>.
\<close>

definition chain_valid ::
  "ext \<Rightarrow> bytes \<Rightarrow> bytes \<Rightarrow> merkle_proof \<Rightarrow> u64 \<Rightarrow> u64 \<Rightarrow> dyolo_chain \<Rightarrow> bool" where
  "chain_valid E agent_pk intent p now drift c \<longleftrightarrow>
     certs c \<noteq> [] \<and> length (certs c) \<le> 255
     \<and> linked (principal_pk c) (certs c) \<and> leaf_pk (principal_pk c) (certs c) = agent_pk
     \<and> (\<forall>x\<in>set (certs c). version x = CERT_VERSION \<and> in_window now drift x \<and> verify_signature E x)
     \<and> sorted_wrt (\<lambda>x y. expiration_unix y \<le> expiration_unix x) (certs c)
     \<and> depths_ok (certs c)
     \<and> distinct (map nonce (certs c))
     \<and> scoped E (principal_scope c) (certs c)
     \<and> intent_authorized E p intent (leaf_scope (principal_scope c) (certs c))"

lemma scope_step_Inr_iff:
  "scope_step E i s c = Inr () \<longleftrightarrow>
     (if is_passthrough c then scope_root c = s
      else verify_and_derive_root E (scope_proof c) s = Inr (scope_root c))"
  by (auto simp: scope_step_def result_simps)

lemma scope_step_Inl: "scope_step E i s c = Inl e \<Longrightarrow> e = ScopeEscalation i"
  by (cases "verify_and_derive_root E (scope_proof c) s") (auto simp: scope_step_def split: if_splits)

text \<open>The step of the loop on success.\<close>

definition hop_next :: "ext \<Rightarrow> delegation_cert \<Rightarrow> walk \<Rightarrow> walk" where
  "hop_next E c w = \<lparr>current_scope = scope_root c, expected_delegator = delegate_pk c,
     depth = depth w + 1, max_allowed_depth = min (max_depth c) (max_allowed_depth w),
     parent_expiry = expiration_unix c, seen_nonces = seen_nonces w @ [nonce c],
     cert_fingerprints = cert_fingerprints w @ [cert_fingerprint E c],
     batch_sigs = batch_sigs w @ [signature c], batch_pks = batch_pks w @ [delegator_pk c],
     batch_msgs = batch_msgs w @ [cert_message E c]\<rparr>"

lemma hop_Inr_iff:
  "hop E now drift i c w = Inr w' \<longleftrightarrow>
     delegator_pk c = expected_delegator w \<and> version c = CERT_VERSION \<and> in_window now drift c
     \<and> expiration_unix c \<le> parent_expiry w \<and> depth w + 1 \<le> unat (max_allowed_depth w)
     \<and> nonce c \<notin> set (seen_nonces w) \<and> scope_step E i (current_scope w) c = Inr ()
     \<and> w' = hop_next E c w"
proof -
  have m: "min (max_depth c) (max_allowed_depth w) =
      (if max_depth c < max_allowed_depth w then max_depth c else max_allowed_depth w)"
    by (metis min.absorb3 min.absorb2 not_less)
  show ?thesis
    by (cases w) (auto simp: hop_def Let_def result_simps in_window_def hop_next_def m not_less)
qed

lemma walk_chain_fields:
  "walk_chain E now drift i cs w = Inr w' \<Longrightarrow>
     depth w' = depth w + length cs
     \<and> expected_delegator w' = leaf_pk (expected_delegator w) cs
     \<and> current_scope w' = leaf_scope (current_scope w) cs
     \<and> seen_nonces w' = seen_nonces w @ map nonce cs
     \<and> cert_fingerprints w' = cert_fingerprints w @ map (cert_fingerprint E) cs
     \<and> batch_sigs w' = batch_sigs w @ map signature cs
     \<and> batch_pks w' = batch_pks w @ map delegator_pk cs
     \<and> batch_msgs w' = batch_msgs w @ map (cert_message E) cs"
proof (induction cs arbitrary: i w)
  case Nil
  then show ?case by (simp add: leaf_pk_def leaf_scope_def)
next
  case (Cons c cs)
  then have "walk_chain E now drift (i + 1) cs (hop_next E c w) = Inr w'"
    by (auto simp: result_simps hop_Inr_iff)
  from Cons.IH [OF this] show ?case
    by (simp add: hop_next_def leaf_pk_def leaf_scope_def)
qed

text \<open>The loop's conditions from a state of the walk on.\<close>

definition walk_ok :: "ext \<Rightarrow> u64 \<Rightarrow> u64 \<Rightarrow> delegation_cert list \<Rightarrow> walk \<Rightarrow> bool" where
  "walk_ok E now drift cs w \<longleftrightarrow>
     linked (expected_delegator w) cs
     \<and> (\<forall>x\<in>set cs. version x = CERT_VERSION \<and> in_window now drift x)
     \<and> sorted_wrt (\<lambda>x y. expiration_unix y \<le> expiration_unix x) cs
     \<and> (\<forall>x\<in>set cs. expiration_unix x \<le> parent_expiry w)
     \<and> (\<forall>i<length cs. depth w + i + 1 \<le> unat (max_allowed_depth w)
          \<and> (\<forall>j<i. depth w + i + 1 \<le> unat (max_depth (cs ! j))))
     \<and> distinct (map nonce cs) \<and> set (map nonce cs) \<inter> set (seen_nonces w) = {}
     \<and> scoped E (current_scope w) cs"

lemma all_less_Suc_split: "(\<forall>i<Suc n. P i) \<longleftrightarrow> P 0 \<and> (\<forall>i<n. P (Suc i))"
  by (metis gr0_conv_Suc less_Suc_eq_0_disj)

lemma unat_min_le: "n \<le> unat (min a b) \<longleftrightarrow> n \<le> unat a \<and> n \<le> unat (b :: u8)"
  by (auto simp: min_def word_le_nat_alt)

lemma depth_cond_Cons:
  "(\<forall>i<length (c # cs). d + i + 1 \<le> unat m \<and> (\<forall>j<i. d + i + 1 \<le> unat (max_depth ((c # cs) ! j))))
   \<longleftrightarrow> d + 1 \<le> unat m
     \<and> (\<forall>i<length cs. (d + 1) + i + 1 \<le> unat (min (max_depth c) m)
          \<and> (\<forall>j<i. (d + 1) + i + 1 \<le> unat (max_depth (cs ! j))))"
  by (auto simp: all_less_Suc_split unat_min_le)

lemma walk_ok_Cons:
  "walk_ok E now drift (c # cs) w \<longleftrightarrow>
     (\<exists>w'. hop E now drift i c w = Inr w' \<and> walk_ok E now drift cs w')"
proof -
  let ?w = "hop_next E c w"
  have "walk_ok E now drift (c # cs) w \<longleftrightarrow>
      (delegator_pk c = expected_delegator w \<and> version c = CERT_VERSION \<and> in_window now drift c
       \<and> expiration_unix c \<le> parent_expiry w \<and> depth w + 1 \<le> unat (max_allowed_depth w)
       \<and> nonce c \<notin> set (seen_nonces w) \<and> scope_step E i (current_scope w) c = Inr ())
      \<and> walk_ok E now drift cs ?w"
    unfolding walk_ok_def depth_cond_Cons scope_step_Inr_iff
    by (auto simp: hop_next_def)
  then show ?thesis by (auto simp: hop_Inr_iff)
qed

lemma walk_chain_Inr_iff: "(\<exists>w'. walk_chain E now drift i cs w = Inr w') \<longleftrightarrow> walk_ok E now drift cs w"
proof (induction cs arbitrary: i w)
  case Nil
  then show ?case by (simp add: walk_ok_def)
next
  case (Cons c cs)
  have "(\<exists>w'. walk_chain E now drift i (c # cs) w = Inr w') \<longleftrightarrow>
      (\<exists>v. hop E now drift i c w = Inr v \<and> (\<exists>w'. walk_chain E now drift (i + 1) cs v = Inr w'))"
    by (auto simp: result_simps)
  then show ?case unfolding Cons.IH walk_ok_Cons [of E now drift c cs w i] .
qed


subsection \<open>The validation accepts the valid chains\<close>

lemma walk_ok_start:
  "walk_ok E now drift (certs c) (walk_start c) \<longleftrightarrow>
     linked (principal_pk c) (certs c)
     \<and> (\<forall>x\<in>set (certs c). version x = CERT_VERSION \<and> in_window now drift x)
     \<and> sorted_wrt (\<lambda>x y. expiration_unix y \<le> expiration_unix x) (certs c)
     \<and> length (certs c) \<le> 255 \<and> depths_ok (certs c) \<and> distinct (map nonce (certs c))
     \<and> scoped E (principal_scope c) (certs c)"
proof -
  have e: "expiration_unix x \<le> - 1" for x by simp
  have d: "(\<forall>i<n. i + 1 \<le> 255) \<longleftrightarrow> n \<le> 255" for n :: nat
    by (cases n) (auto simp: less_Suc_eq)
  show ?thesis
    unfolding walk_ok_def walk_start_def depths_ok_def using d [of "length (certs c)"] e
    by auto
qed

lemma linked_hd: "cs \<noteq> [] \<Longrightarrow> linked p cs \<Longrightarrow> delegator_pk (hd cs) = p"
  by (cases cs) auto

lemma batch_verify_iff:
  assumes "batch_complete E" "batch_sound E"
  shows "ed_verify_batch E (map (cert_message E) cs) (map signature cs) (map delegator_pk cs)
    \<longleftrightarrow> (\<forall>x\<in>set cs. verify_signature E x)"
proof
  assume v: "ed_verify_batch E (map (cert_message E) cs) (map signature cs) (map delegator_pk cs)"
  have "\<forall>i<length cs. ed_verify E (map delegator_pk cs ! i) (map (cert_message E) cs ! i) (map signature cs ! i)"
    using assms(2) [unfolded batch_sound_def, rule_format, OF _ _ v] by simp
  then show "\<forall>x\<in>set cs. verify_signature E x"
    by (auto simp: in_set_conv_nth verify_signature_def)
next
  assume "\<forall>x\<in>set cs. verify_signature E x"
  then show "ed_verify_batch E (map (cert_message E) cs) (map signature cs) (map delegator_pk cs)"
    using assms(1) [unfolded batch_complete_def, rule_format,
        of "map (cert_message E) cs" "map signature cs" "map delegator_pk cs"]
    by (simp add: verify_signature_def)
qed

definition result_of :: "ext \<Rightarrow> u64 \<Rightarrow> dyolo_chain \<Rightarrow> chain_validation_result" where
  "result_of E now c = \<lparr>v_depth = length (certs c),
     v_scope_root = leaf_scope (principal_scope c) (certs c), v_verified_at = now,
     v_seen_nonces = map nonce (certs c), v_cert_fingerprints = map (cert_fingerprint E) (certs c),
     v_chain_fingerprint = fingerprint E c\<rparr>"

lemma walk_result:
  assumes "walk_chain E now drift 0 (certs c) (walk_start c) = Inr w"
  shows "depth w = length (certs c)" "expected_delegator w = leaf_pk (principal_pk c) (certs c)"
    "current_scope w = leaf_scope (principal_scope c) (certs c)" "seen_nonces w = map nonce (certs c)"
    "cert_fingerprints w = map (cert_fingerprint E) (certs c)" "batch_sigs w = map signature (certs c)"
    "batch_pks w = map delegator_pk (certs c)" "batch_msgs w = map (cert_message E) (certs c)"
  using walk_chain_fields [OF assms] by (simp_all add: walk_start_def)

lemma validate_structure_Inr:
  "validate_structure E a i p now drift c = Inr v \<Longrightarrow> v = result_of E now c"
  by (auto simp: validate_structure_def result_simps result_of_def walk_result split: if_splits)

lemma validate_structure_iff:
  assumes "batch_complete E" "batch_sound E"
  shows "validate_structure E a i p now drift c = Inr v \<longleftrightarrow>
    chain_valid E a i p now drift c \<and> v = result_of E now c"
proof -
  have "(\<exists>v. validate_structure E a i p now drift c = Inr v) \<longleftrightarrow>
      certs c \<noteq> [] \<and> delegator_pk (hd (certs c)) = principal_pk c \<and> length (certs c) \<le> 255
      \<and> (\<exists>w. walk_chain E now drift 0 (certs c) (walk_start c) = Inr w)
      \<and> leaf_pk (principal_pk c) (certs c) = a
      \<and> ed_verify_batch E (map (cert_message E) (certs c)) (map signature (certs c)) (map delegator_pk (certs c))
      \<and> intent_authorized E p i (leaf_scope (principal_scope c) (certs c))"
  proof (cases "walk_chain E now drift 0 (certs c) (walk_start c)")
    case (Inr w)
    show ?thesis
      unfolding validate_structure_def Inr bindR_simps walk_result [OF Inr] by auto
  qed (auto simp: validate_structure_def)
  also have "\<dots> \<longleftrightarrow> chain_valid E a i p now drift c"
    unfolding walk_chain_Inr_iff walk_ok_start batch_verify_iff [OF assms] chain_valid_def
    using linked_hd [of "certs c" "principal_pk c"] by blast
  finally have "(\<exists>v. validate_structure E a i p now drift c = Inr v) \<longleftrightarrow> chain_valid E a i p now drift c" .
  then show ?thesis using validate_structure_Inr by blast
qed

text \<open>
  An error of the loop comes from one hop: the hops before it pass, and the error is what that
  hop returns in the state they leave.
\<close>

lemma walk_chain_Inl:
  "walk_chain E now drift i cs w = Inl e \<Longrightarrow>
     \<exists>k w'. k < length cs \<and> walk_chain E now drift i (take k cs) w = Inr w'
       \<and> hop E now drift (i + k) (cs ! k) w' = Inl e"
proof (induction cs arbitrary: i w)
  case Nil
  then show ?case by simp
next
  case (Cons c cs)
  show ?case
  proof (cases "hop E now drift i c w")
    case (Inl e')
    with Cons.prems show ?thesis by (intro exI [of _ 0]) simp
  next
    case (Inr v)
    with Cons.prems have "walk_chain E now drift (i + 1) cs v = Inl e" by simp
    from Cons.IH [OF this] obtain k w' where k: "k < length cs"
      "walk_chain E now drift (i + 1) (take k cs) v = Inr w'" "hop E now drift (i + 1 + k) (cs ! k) w' = Inl e"
      by blast
    then show ?thesis using Inr by (intro exI [of _ "Suc k"] exI [of _ w']) simp
  qed
qed

lemma hop_Inl_cases:
  assumes "hop E now drift i c w = Inl e"
  shows "e = BrokenLinkage i \<and> delegator_pk c \<noteq> expected_delegator w
    \<or> e = UnsupportedVersion CERT_VERSION (version c) \<and> version c \<noteq> CERT_VERSION
    \<or> e = NotYetValid i (issued_at c) now \<and> sat_add now drift < issued_at c
    \<or> e = Expired i (expiration_unix c) now \<and> expiration_unix c < sat_sub now drift
    \<or> e = TemporalViolation i (expiration_unix c) (parent_expiry w) \<and> parent_expiry w < expiration_unix c
    \<or> e = MaxDepthExceeded i (max_allowed_depth w) \<and> unat (max_allowed_depth w) < depth w + 1
    \<or> e = NonceReplay \<and> nonce c \<in> set (seen_nonces w)
    \<or> e = ScopeEscalation i \<and> scope_step E i (current_scope w) c \<noteq> Inr ()"
  using assms scope_step_Inl [of E i "current_scope w" c]
  by (cases w) (auto simp: hop_def Let_def result_simps split: if_splits)


subsection \<open>What an error says\<close>

text \<open>The fact each error of \<open>validate_structure\<close> reports about the chain.\<close>

fun error_holds ::
  "ext \<Rightarrow> bytes \<Rightarrow> bytes \<Rightarrow> merkle_proof \<Rightarrow> u64 \<Rightarrow> u64 \<Rightarrow> dyolo_chain \<Rightarrow> a1_error \<Rightarrow> bool" where
  "error_holds E a i p now drift c EmptyChain \<longleftrightarrow> certs c = []"
| "error_holds E a i p now drift c RootMismatch \<longleftrightarrow> delegator_pk (hd (certs c)) \<noteq> principal_pk c"
| "error_holds E a i p now drift c (BrokenLinkage k) \<longleftrightarrow> k < length (certs c)
     \<and> delegator_pk (certs c ! k) \<noteq> leaf_pk (principal_pk c) (take k (certs c))"
| "error_holds E a i p now drift c (UnsupportedVersion e g) \<longleftrightarrow> e = CERT_VERSION \<and> g \<noteq> CERT_VERSION
     \<and> (\<exists>x\<in>set (certs c). version x = g)"
| "error_holds E a i p now drift c (NotYetValid k x n) \<longleftrightarrow> k < length (certs c)
     \<and> x = issued_at (certs c ! k) \<and> n = now \<and> sat_add now drift < x"
| "error_holds E a i p now drift c (Expired k x n) \<longleftrightarrow> k < length (certs c)
     \<and> x = expiration_unix (certs c ! k) \<and> n = now \<and> x < sat_sub now drift"
| "error_holds E a i p now drift c (TemporalViolation k x y) \<longleftrightarrow> 0 < k \<and> k < length (certs c)
     \<and> x = expiration_unix (certs c ! k) \<and> y = expiration_unix (certs c ! (k - 1)) \<and> y < x"
| "error_holds E a i p now drift c (MaxDepthExceeded k l) \<longleftrightarrow>
     255 < length (certs c) \<and> k = 255 \<and> l = 255
     \<or> k < length (certs c) \<and> (\<exists>j<k. l = max_depth (certs c ! j) \<and> unat l < k + 1)"
| "error_holds E a i p now drift c NonceReplay \<longleftrightarrow> \<not> distinct (map nonce (certs c))"
| "error_holds E a i p now drift c (ScopeEscalation k) \<longleftrightarrow> k < length (certs c)
     \<and> \<not> scoped E (leaf_scope (principal_scope c) (take k (certs c))) [certs c ! k]"
| "error_holds E a i p now drift c UnauthorizedLeaf \<longleftrightarrow> leaf_pk (principal_pk c) (certs c) \<noteq> a"
| "error_holds E a i p now drift c (InvalidSignature k) \<longleftrightarrow> k < length (certs c)
     \<and> \<not> verify_signature E (certs c ! k) \<and> (\<forall>j<k. verify_signature E (certs c ! j))"
| "error_holds E a i p now drift c ScopeViolation \<longleftrightarrow>
     \<not> intent_authorized E p i (leaf_scope (principal_scope c) (certs c))"
| "error_holds E a i p now drift c _ \<longleftrightarrow> False"

lemma walk_chain_limits:
  "walk_chain E now drift i cs w = Inr w' \<Longrightarrow>
     parent_expiry w' = (if cs = [] then parent_expiry w else expiration_unix (last cs))
     \<and> max_allowed_depth w' \<in> insert (max_allowed_depth w) (max_depth ` set cs)"
proof (induction cs arbitrary: i w)
  case (Cons c cs)
  then have "walk_chain E now drift (i + 1) cs (hop_next E c w) = Inr w'"
    by (auto simp: result_simps hop_Inr_iff)
  from Cons.IH [OF this] show ?case by (auto simp: hop_next_def min_def split: if_splits)
qed simp

lemma walk_error_holds:
  assumes e: "walk_chain E now drift 0 (certs c) (walk_start c) = Inl e" and len: "length (certs c) \<le> 255"
  shows "error_holds E a i p now drift c e"
proof -
  let ?cs = "certs c"
  from walk_chain_Inl [OF e] obtain k w where k: "k < length ?cs"
    and w: "walk_chain E now drift 0 (take k ?cs) (walk_start c) = Inr w"
    and h: "hop E now drift k (?cs ! k) w = Inl e" by auto
  have f: "expected_delegator w = leaf_pk (principal_pk c) (take k ?cs)"
    "current_scope w = leaf_scope (principal_scope c) (take k ?cs)"
    "seen_nonces w = map nonce (take k ?cs)" "depth w = k"
    using walk_chain_fields [OF w] k by (simp_all add: walk_start_def)
  have pe: "parent_expiry w = (if k = 0 then - 1 else expiration_unix (?cs ! (k - 1)))"
    using walk_chain_limits [OF w] k
    by (auto simp: walk_start_def last_conv_nth min_def not_less)
  have md: "max_allowed_depth w = 255 \<or> (\<exists>j<k. max_allowed_depth w = max_depth (?cs ! j))"
  proof -
    have "max_allowed_depth w \<in> insert 255 (max_depth ` set (take k ?cs))"
      using walk_chain_limits [OF w] by (simp add: walk_start_def)
    then show ?thesis using k by (auto simp: in_set_conv_nth) blast
  qed
  have dup: "\<not> distinct (map nonce ?cs)" if "nonce (?cs ! k) \<in> set (map nonce (take k ?cs))"
  proof -
    from that obtain j where "j < k" "nonce (?cs ! j) = nonce (?cs ! k)"
      using k by (auto simp: in_set_conv_nth)
    with k nth_eq_iff_index_eq [of "map nonce ?cs" j k] show ?thesis by auto
  qed
  from hop_Inl_cases [OF h] show ?thesis
  proof (elim disjE conjE)
    assume e: "e = MaxDepthExceeded k (max_allowed_depth w)" "unat (max_allowed_depth w) < depth w + 1"
    have "max_allowed_depth w \<noteq> 255" using e(2) len k f(4) by auto
    with md e k f show ?thesis by auto
  next
    assume e: "e = TemporalViolation k (expiration_unix (?cs ! k)) (parent_expiry w)"
      "parent_expiry w < expiration_unix (?cs ! k)"
    have le: "expiration_unix (?cs ! k) \<le> - 1" by simp
    have "k \<noteq> 0"
    proof
      assume "k = 0"
      with pe have "parent_expiry w = - 1" by simp
      with e(2) have "- 1 < expiration_unix (?cs ! k)" by argo
      with le show False by (meson leD)
    qed
    with e k pe show ?thesis by simp
  next
    assume "e = NonceReplay" "nonce (?cs ! k) \<in> set (seen_nonces w)"
    with dup f show ?thesis by simp
  next
    assume "e = ScopeEscalation k" "scope_step E k (current_scope w) (?cs ! k) \<noteq> Inr ()"
    with k f show ?thesis by (simp add: scope_step_Inr_iff)
  qed (use k f in auto)
qed

lemma blame_signature_first:
  assumes "\<exists>x\<in>set cs. \<not> verify_signature E x"
  shows "\<exists>k<length cs. blame_signature E i cs = InvalidSignature (i + k) \<and> \<not> verify_signature E (cs ! k)
    \<and> (\<forall>j<k. verify_signature E (cs ! j))"
  using assms
proof (induction cs arbitrary: i)
  case (Cons c cs)
  show ?case
  proof (cases "verify_signature E c")
    case True
    with Cons obtain k where k: "k < length cs" "blame_signature E (i + 1) cs = InvalidSignature (i + 1 + k)"
      "\<not> verify_signature E (cs ! k)" "\<forall>j<k. verify_signature E (cs ! j)" by fastforce
    with True show ?thesis by (intro exI [of _ "Suc k"]) (auto simp: nth_Cons split: nat.splits)
  qed auto
qed simp

lemma validate_error_holds:
  assumes "batch_complete E" and e: "validate_structure E a i p now drift c = Inl err"
  shows "error_holds E a i p now drift c err"
proof (cases "certs c = [] \<or> delegator_pk (hd (certs c)) \<noteq> principal_pk c \<or> 255 < length (certs c)")
  case True
  with e show ?thesis by (auto simp: validate_structure_def split: if_splits)
next
  case F: False
  show ?thesis
  proof (cases "walk_chain E now drift 0 (certs c) (walk_start c)")
    case (Inl e')
    with e F have "err = e'" by (auto simp: validate_structure_def)
    with Inl F show ?thesis by (simp add: walk_error_holds)
  next
    case (Inr w)
    have b: "\<exists>x\<in>set (certs c). \<not> verify_signature E x"
      if "\<not> ed_verify_batch E (map (cert_message E) (certs c)) (map signature (certs c)) (map delegator_pk (certs c))"
    proof (rule ccontr)
      assume "\<not> ?thesis"
      then have "\<forall>j<length (certs c). verify_signature E (certs c ! j)" by auto
      with that assms(1) [unfolded batch_complete_def, rule_format,
        of "map (cert_message E) (certs c)" "map signature (certs c)" "map delegator_pk (certs c)"]
      show False by (simp add: verify_signature_def)
    qed
    from e F Inr have "err = UnauthorizedLeaf \<and> leaf_pk (principal_pk c) (certs c) \<noteq> a
      \<or> err = blame_signature E 0 (certs c)
        \<and> \<not> ed_verify_batch E (map (cert_message E) (certs c)) (map signature (certs c)) (map delegator_pk (certs c))
      \<or> err = ScopeViolation \<and> \<not> intent_authorized E p i (leaf_scope (principal_scope c) (certs c))"
      by (auto simp: validate_structure_def walk_result [OF Inr] split: if_splits)
    then show ?thesis
    proof (elim disjE conjE)
      assume "err = blame_signature E 0 (certs c)"
        "\<not> ed_verify_batch E (map (cert_message E) (certs c)) (map signature (certs c)) (map delegator_pk (certs c))"
      with blame_signature_first [OF b, of 0] show ?thesis by auto
    qed auto
  qed
qed

section \<open>Authorization over any stores that keep their contracts\<close>

definition policy_ok :: "policy_set option \<Rightarrow> dyolo_chain \<Rightarrow> bool" where
  "policy_ok policy c \<longleftrightarrow> (case policy of None \<Rightarrow> True | Some ps \<Rightarrow> set_check_chain ps c = Inr ())"

definition chain_fps :: "ext \<Rightarrow> dyolo_chain \<Rightarrow> bytes set" where
  "chain_fps E c = set (map (cert_fingerprint E) (certs c))"

definition chain_nonces :: "dyolo_chain \<Rightarrow> bytes set" where
  "chain_nonces c = set (map nonce (certs c))"

definition receipt_for :: "ext \<Rightarrow> u64 \<Rightarrow> bytes \<Rightarrow> dyolo_chain \<Rightarrow> verification_receipt" where
  "receipt_for E now i c = receipt_of c (result_of E now c) i now"

lemma result_of_sels [simp]:
  "v_depth (result_of E now c) = length (certs c)"
  "v_scope_root (result_of E now c) = leaf_scope (principal_scope c) (certs c)"
  "v_verified_at (result_of E now c) = now"
  "v_seen_nonces (result_of E now c) = map nonce (certs c)"
  "v_cert_fingerprints (result_of E now c) = map (cert_fingerprint E) (certs c)"
  "v_chain_fingerprint (result_of E now c) = fingerprint E c"
  by (simp_all add: result_of_def)

locale authorizer =
  rev: revocation_store is_rev rev_one rinv revoked + nonces: nonce_store consume ninv used
  for is_rev :: "'r \<Rightarrow> bytes \<Rightarrow> storage_error + bool"
    and rev_one :: "'r \<Rightarrow> bytes \<Rightarrow> (storage_error + unit) \<times> 'r"
    and rinv :: "'r \<Rightarrow> bool"
    and revoked :: "'r \<Rightarrow> bytes set"
    and consume :: "u64 \<Rightarrow> 'n \<Rightarrow> bytes list \<Rightarrow> (storage_error + bool) \<times> 'n"
    and ninv :: "'n \<Rightarrow> bool"
    and used :: "u64 \<Rightarrow> 'n \<Rightarrow> bytes set"
begin

lemma check_revocations_spec:
  "rinv r \<Longrightarrow> check_revocations (is_rev r) fps = (if set fps \<inter> revoked r = {} then Inr () else Inl Revoked)"
  by (induction fps) (auto simp: check_revocations_def rev.is_rev_spec)

lemma check_revocations_batch_spec:
  "rinv r \<Longrightarrow> check_revocations_batch (is_rev r) n fps =
     (if set fps \<inter> revoked r = {} then Inr () else Inl (batch_failure n (\<lambda>_. Revoked)))"
  by (induction fps) (auto simp: rev.is_rev_spec split: bool.splits)

lemma authorize_ok:
  assumes "rinv r" "ninv s" "batch_complete E" "batch_sound E"
    and "policy_ok pol c" "chain_valid E a i p now (drift_tolerance_secs c) c"
    and "chain_fps E c \<inter> revoked r = {}" "chain_nonces c \<inter> used t s = {}"
  shows "\<exists>s'. authorize_inner E a i p now (is_rev r) (consume t) pol c s = (Inr (receipt_for E now i c), s')
    \<and> ninv s' \<and> used t s' = chain_nonces c \<union> used t s"
proof -
  have v: "validate_structure E a i p now (drift_tolerance_secs c) c = Inr (result_of E now c)"
    using validate_structure_iff [OF assms(3,4)] assms(6) by blast
  have pol: "(case pol of Some ps \<Rightarrow> set_check_chain ps c | None \<Rightarrow> Inr ()) = Inr ()"
    using assms(5) by (simp add: policy_ok_def split: option.splits)
  obtain s' where s': "consume t s (map nonce (certs c)) = (Inr True, s')" "ninv s'"
      "used t s' = chain_nonces c \<union> used t s"
    using nonces.consume_fresh [OF assms(2), of "map nonce (certs c)" t] assms(8)
    unfolding chain_nonces_def by blast
  have r: "check_revocations (is_rev r) (map (cert_fingerprint E) (certs c)) = Inr ()"
    using check_revocations_spec [OF assms(1), of "map (cert_fingerprint E) (certs c)"] assms(7)
    unfolding chain_fps_def by simp
  show ?thesis unfolding authorize_inner_def pol bindR_simps v sum.case result_of_sels r s'(1) prod.case
    using s'(2,3) by (simp add: receipt_for_def)
qed

lemma authorize_denied_policy:
  "pol = Some ps \<Longrightarrow> set_check_chain ps c = Inl e \<Longrightarrow>
     authorize_inner E a i p now (is_rev r) (consume t) pol c s = (Inl e, s)"
  by (simp add: authorize_inner_def)

lemma authorize_denied_structure:
  "policy_ok pol c \<Longrightarrow> validate_structure E a i p now (drift_tolerance_secs c) c = Inl e \<Longrightarrow>
     authorize_inner E a i p now (is_rev r) (consume t) pol c s = (Inl e, s)"
  by (simp add: authorize_inner_def policy_ok_def split: option.splits)

lemma authorize_denied_revoked:
  assumes "rinv r" "policy_ok pol c"
    and v: "validate_structure E a i p now (drift_tolerance_secs c) c = Inr v"
    and "chain_fps E c \<inter> revoked r \<noteq> {}"
  shows "authorize_inner E a i p now (is_rev r) (consume t) pol c s = (Inl Revoked, s)"
proof -
  have pol: "(case pol of Some ps \<Rightarrow> set_check_chain ps c | None \<Rightarrow> Inr ()) = Inr ()"
    using assms(2) by (simp add: policy_ok_def split: option.splits)
  have r: "check_revocations (is_rev r) (v_cert_fingerprints v) = Inl Revoked"
    using check_revocations_spec [OF assms(1), of "v_cert_fingerprints v"] assms(4)
      validate_structure_Inr [OF v] by (simp add: chain_fps_def)
  show ?thesis unfolding authorize_inner_def pol bindR_simps v sum.case r by simp
qed

lemma authorize_denied_replay:
  assumes "rinv r" "ninv s" "policy_ok pol c"
    and v: "validate_structure E a i p now (drift_tolerance_secs c) c = Inr v"
    and "chain_fps E c \<inter> revoked r = {}" "chain_nonces c \<inter> used t s \<noteq> {}"
  shows "authorize_inner E a i p now (is_rev r) (consume t) pol c s = (Inl NonceReplay, s)"
proof -
  have pol: "(case pol of Some ps \<Rightarrow> set_check_chain ps c | None \<Rightarrow> Inr ()) = Inr ()"
    using assms(3) by (simp add: policy_ok_def split: option.splits)
  have r: "check_revocations (is_rev r) (v_cert_fingerprints v) = Inr ()"
    using check_revocations_spec [OF assms(1), of "v_cert_fingerprints v"] assms(5)
      validate_structure_Inr [OF v] by (simp add: chain_fps_def)
  have n: "consume t s (v_seen_nonces v) = (Inr False, s)"
    using nonces.consume_refused [OF assms(2), of "v_seen_nonces v" t] assms(6)
      validate_structure_Inr [OF v] by (simp add: chain_nonces_def)
  show ?thesis unfolding authorize_inner_def pol bindR_simps v sum.case r n by simp
qed

text \<open>Every call ends in one of the five ways, and only a success changes the nonce store.\<close>

lemma authorize_inner_iff:
  assumes "rinv r" "ninv s" "batch_complete E" "batch_sound E"
  shows "(\<exists>rc s'. authorize_inner E a i p now (is_rev r) (consume t) pol c s = (Inr rc, s')) \<longleftrightarrow>
    policy_ok pol c \<and> chain_valid E a i p now (drift_tolerance_secs c) c
    \<and> chain_fps E c \<inter> revoked r = {} \<and> chain_nonces c \<inter> used t s = {}"
    and "authorize_inner E a i p now (is_rev r) (consume t) pol c s = (Inl e, s') \<Longrightarrow> s' = s"
proof -
  let ?A = "authorize_inner E a i p now (is_rev r) (consume t) pol c s"
  let ?ok = "policy_ok pol c \<and> chain_valid E a i p now (drift_tolerance_secs c) c
    \<and> chain_fps E c \<inter> revoked r = {} \<and> chain_nonces c \<inter> used t s = {}"
  have bad: "\<exists>e. ?A = (Inl e, s)" if n: "\<not> ?ok"
  proof (cases "policy_ok pol c")
    case False
    then obtain ps e where "pol = Some ps" "set_check_chain ps c = Inl e"
      unfolding policy_ok_def by (cases pol; cases "set_check_chain (the pol) c") auto
    then show ?thesis using authorize_denied_policy by blast
  next
    case pol: True
    show ?thesis
    proof (cases "validate_structure E a i p now (drift_tolerance_secs c) c")
      case (Inl e)
      then show ?thesis using authorize_denied_structure [OF pol] by blast
    next
      case (Inr v)
      with n pol have "chain_fps E c \<inter> revoked r \<noteq> {} \<or> chain_nonces c \<inter> used t s \<noteq> {}"
        using validate_structure_iff [OF assms(3,4)] by blast
      then show ?thesis
        using authorize_denied_revoked [OF assms(1) pol Inr] authorize_denied_replay [OF assms(1,2) pol Inr]
        by blast
    qed
  qed
  show "(\<exists>rc s'. ?A = (Inr rc, s')) \<longleftrightarrow> ?ok"
    using bad authorize_ok [OF assms] by (metis Inl_Inr_False prod.inject)
  show "s' = s" if "?A = (Inl e, s')"
    using that bad authorize_ok [OF assms] by (metis Inl_Inr_False prod.inject)
qed

lemma authorize_cases:
  assumes "rinv r" "ninv s" "batch_complete E" "batch_sound E"
  shows "case authorize_inner E a i p now (is_rev r) (consume t) pol c s of
      (Inr rc, s') \<Rightarrow>
        policy_ok pol c \<and> chain_valid E a i p now (drift_tolerance_secs c) c
        \<and> chain_fps E c \<inter> revoked r = {} \<and> chain_nonces c \<inter> used t s = {}
        \<and> rc = receipt_for E now i c \<and> ninv s' \<and> used t s' = chain_nonces c \<union> used t s
    | (Inl e, s') \<Rightarrow>
        \<not> (policy_ok pol c \<and> chain_valid E a i p now (drift_tolerance_secs c) c
           \<and> chain_fps E c \<inter> revoked r = {} \<and> chain_nonces c \<inter> used t s = {})
        \<and> s' = s"
proof -
  obtain x s' where x: "authorize_inner E a i p now (is_rev r) (consume t) pol c s = (x, s')"
    using prod.exhaust by blast
  note iff = authorize_inner_iff [OF assms, of a i p now t pol c]
  show ?thesis
  proof (cases x)
    case (Inl e)
    with x iff(1) have "\<not> (policy_ok pol c \<and> chain_valid E a i p now (drift_tolerance_secs c) c
       \<and> chain_fps E c \<inter> revoked r = {} \<and> chain_nonces c \<inter> used t s = {})" by fastforce
    moreover have "s' = s" using x Inl by (intro iff(2)) simp
    ultimately show ?thesis unfolding x Inl prod.case sum.case by blast
  next
    case (Inr rc)
    with x iff(1) have ok: "policy_ok pol c" "chain_valid E a i p now (drift_tolerance_secs c) c"
      "chain_fps E c \<inter> revoked r = {}" "chain_nonces c \<inter> used t s = {}" by blast+
    obtain s2 where "authorize_inner E a i p now (is_rev r) (consume t) pol c s = (Inr (receipt_for E now i c), s2)"
      "ninv s2" "used t s2 = chain_nonces c \<union> used t s"
      using authorize_ok [OF assms ok] by blast
    with x Inr have "rc = receipt_for E now i c" "ninv s'" "used t s' = chain_nonces c \<union> used t s" by simp_all
    with ok show ?thesis unfolding x Inr prod.case sum.case by blast
  qed
qed

text \<open>
  A batch is authorized as a whole or not at all: the nonces are consumed once, and exactly when
  the chain is valid, no certificate is revoked, every intent is in scope and the nonces are fresh.
\<close>

lemma batch_ok:
  assumes "rinv r" "ninv s" "batch_complete E" "batch_sound E"
    and ne: "intents \<noteq> []"
    and "chain_valid E a (fst (hd intents)) (snd (hd intents)) now' (drift_tolerance_secs c) c"
    and sc: "\<forall>x\<in>set intents. intent_authorized E (snd x) (fst x) (leaf_scope (principal_scope c) (certs c))"
    and "chain_fps E c \<inter> revoked r = {}" "chain_nonces c \<inter> used t s = {}"
  shows "\<exists>s'. authorize_batch E a intents now now' (is_rev r) (consume t) c s =
      (\<lparr>receipts = map (\<lambda>x. Some (receipt_of c (result_of E now' c) (fst x) now)) intents,
        errors = replicate (length intents) None, all_authorized = True\<rparr>, s')
    \<and> ninv s' \<and> used t s' = chain_nonces c \<union> used t s"
proof -
  let ?v = "result_of E now' c" and ?n = "length intents"
  let ?items = "map (\<lambda>(i, x). batch_item E c ?v now i x) (zip [0..<?n] intents)"
  have v: "validate_structure E a (fst (hd intents)) (snd (hd intents)) now' (drift_tolerance_secs c) c = Inr ?v"
    using validate_structure_iff [OF assms(3,4)] assms(6) by blast
  have r: "check_revocations_batch (is_rev r) ?n (map (cert_fingerprint E) (certs c)) = Inr ()"
    using check_revocations_batch_spec [OF assms(1), of _ "map (cert_fingerprint E) (certs c)"] assms(8)
    unfolding chain_fps_def by simp
  have items: "?items = map (\<lambda>x. (Some (receipt_of c ?v (fst x) now), None)) intents"
    using sc by (intro nth_equalityI) (auto simp: batch_item_def)
  obtain s' where s': "consume t s (map nonce (certs c)) = (Inr True, s')" "ninv s'"
      "used t s' = chain_nonces c \<union> used t s"
    using nonces.consume_fresh [OF assms(2), of "map nonce (certs c)" t] assms(9)
    unfolding chain_nonces_def by blast
  have es: "map snd ?items = replicate ?n None" unfolding items by (simp add: map_replicate_const comp_def)
  show ?thesis
    using ne s'(2,3) unfolding authorize_batch_def Let_def v sum.case result_of_sels r es
    by (simp add: items s'(1) comp_def list_all_iff)
qed

lemma batch_failed:
  assumes "rinv r" "ninv s" "batch_complete E" "batch_sound E" and ne: "intents \<noteq> []"
    and bad: "\<not> (chain_valid E a (fst (hd intents)) (snd (hd intents)) now' (drift_tolerance_secs c) c
     \<and> (\<forall>x\<in>set intents. intent_authorized E (snd x) (fst x) (leaf_scope (principal_scope c) (certs c)))
     \<and> chain_fps E c \<inter> revoked r = {} \<and> chain_nonces c \<inter> used t s = {})"
  shows "\<exists>b. authorize_batch E a intents now now' (is_rev r) (consume t) c s = (b, s) \<and> \<not> all_authorized b"
proof (cases "validate_structure E a (fst (hd intents)) (snd (hd intents)) now' (drift_tolerance_secs c) c")
  case (Inl e)
  then show ?thesis using ne by (simp add: authorize_batch_def Let_def batch_failure_def)
next
  case (Inr v)
  let ?n = "length intents"
  let ?items = "map (\<lambda>(i, x). batch_item E c v now i x) (zip [0..<?n] intents)"
  note vi = Inr [unfolded validate_structure_iff [OF assms(3,4)]]
  have scope: "list_all (\<lambda>e. e = None) (map snd ?items) \<longleftrightarrow>
      (\<forall>x\<in>set intents. intent_authorized E (snd x) (fst x) (leaf_scope (principal_scope c) (certs c)))"
    using vi by (auto simp: list_all_length batch_item_def all_set_conv_all_nth)
  note rv = check_revocations_batch_spec [OF assms(1), of ?n "v_cert_fingerprints v"]
  show ?thesis
  proof (cases "chain_fps E c \<inter> revoked r = {} \<and> list_all (\<lambda>e. e = None) (map snd ?items)")
    case False
    then show ?thesis
      using ne Inr rv vi by (auto simp: authorize_batch_def Let_def batch_failure_def chain_fps_def)
  next
    case True
    then have "chain_nonces c \<inter> used t s \<noteq> {}" using bad vi scope by blast
    then have "consume t s (v_seen_nonces v) = (Inr False, s)"
      using nonces.consume_refused [OF assms(2), of "v_seen_nonces v" t] vi by (simp add: chain_nonces_def)
    then show ?thesis
      using ne Inr rv vi True by (simp add: authorize_batch_def Let_def batch_failure_def chain_fps_def)
  qed
qed


text \<open>One intent, read at one time: the batch succeeds exactly when the single call does.\<close>

lemma authorize_batch_one:
  assumes "rinv r" "ninv s" "batch_complete E" "batch_sound E"
  shows "(\<exists>b s'. authorize_batch E a [(i, p)] now now (is_rev r) (consume t) c s = (b, s') \<and> all_authorized b) \<longleftrightarrow>
    (\<exists>rc s'. authorize_inner E a i p now (is_rev r) (consume t) None c s = (Inr rc, s'))"
proof -
  let ?ok = "chain_valid E a i p now (drift_tolerance_secs c) c
    \<and> chain_fps E c \<inter> revoked r = {} \<and> chain_nonces c \<inter> used t s = {}"
  have sc: "chain_valid E a i p now (drift_tolerance_secs c) c \<Longrightarrow>
      intent_authorized E p i (leaf_scope (principal_scope c) (certs c))" by (simp add: chain_valid_def)
  have "(\<exists>b s'. authorize_batch E a [(i, p)] now now (is_rev r) (consume t) c s = (b, s') \<and> all_authorized b) \<longleftrightarrow> ?ok"
  proof (cases ?ok)
    case True
    with sc batch_ok [OF assms, of "[(i, p)]" a now c t now] show ?thesis by fastforce
  next
    case False
    with batch_failed [OF assms, of "[(i, p)]" a now c t now] show ?thesis by auto
  qed
  also have "\<dots> \<longleftrightarrow> (\<exists>rc s'. authorize_inner E a i p now (is_rev r) (consume t) None c s = (Inr rc, s'))"
    using authorize_inner_iff(1) [OF assms, of a i p now t None c] by (simp add: policy_ok_def)
  finally show ?thesis .
qed

end

interpretation mem_auth: authorizer mem_is_revoked mem_revoke mem_rev_inv revoked_set
  mem_try_consume_batch nonce_inv live ..

section \<open>Scope along a chain\<close>

text \<open>
  The empty-proof shortcut of \<open>validate_structure\<close> is what the Merkle verification computes
  anyway.
\<close>

text \<open>What a grant under policies says of the chain, and what forbidding sub-delegation does not change.\<close>

lemma authorize_inner_policy:
  assumes "authorize_inner E a i p now is_rev consume (Some ps) c s = (Inr rc, s')"
  shows "set_check_chain ps c = Inr ()"
proof (rule ccontr)
  assume "set_check_chain ps c \<noteq> Inr ()"
  then obtain e where "set_check_chain ps c = Inl e" by (cases "set_check_chain ps c") auto
  with assms show False by (simp add: authorize_inner_def)
qed

lemma authorize_inner_forbid:
  assumes "authorize_inner E a i p now is_rev consume (Some ps) c s = (Inr rc, s')"
    and "\<And>x. x \<in> set (certs c) \<Longrightarrow> is_passthrough x"
  shows "authorize_inner E a i p now is_rev consume (Some (map forbid_sub_delegation ps)) c s = (Inr rc, s')"
proof -
  have "set_check_chain (map forbid_sub_delegation ps) c = Inr ()"
    using assms(2) by (intro set_check_chain_forbid [OF _ authorize_inner_policy [OF assms(1)]]) (simp add: is_passthrough_def)
  with assms(1) authorize_inner_policy [OF assms(1)] show ?thesis by (simp add: authorize_inner_def)
qed

lemma intent_authorized_merkle: "intent_authorized E p i scope = merkle_verify E p i scope"
  by (simp add: intent_authorized_def merkle_verify_def)

definition narrowed :: "bytes list \<Rightarrow> delegation_cert \<Rightarrow> bytes list" where
  "narrowed xs c = (if subset_intents (scope_proof c) = [] then xs else subset_intents (scope_proof c))"

fun leaf_intents :: "bytes list \<Rightarrow> delegation_cert list \<Rightarrow> bytes list" where
  "leaf_intents xs [] = xs"
| "leaf_intents xs (c # cs) = leaf_intents (narrowed xs c) cs"

text \<open>The hash is trusted on the inputs each hop's sub-scope proof brings, against the tree of the hop before.\<close>

fun scope_trust :: "ext \<Rightarrow> bytes list \<Rightarrow> delegation_cert list \<Rightarrow> bool" where
  "scope_trust E xs [] \<longleftrightarrow> True"
| "scope_trust E xs (c # cs) \<longleftrightarrow>
     (\<forall>t. tree_build E xs = Inr t \<longrightarrow>
        (\<forall>(x, p)\<in>set (zip (subset_intents (scope_proof c)) (ssp_proofs (scope_proof c))). collision_free E t p x))
     \<and> scope_trust E (narrowed xs c) cs"

lemma scoped_hop:
  assumes b: "tree_build E xs = Inr t" and tr: "scope_trust E xs (c # cs)"
    and s: "scoped E (tree_root t) (c # cs)"
  shows "set (narrowed xs c) \<subseteq> set xs
    \<and> (\<exists>u. tree_build E (narrowed xs c) = Inr u \<and> tree_root u = scope_root c)"
proof (cases "subset_intents (scope_proof c) = []")
  case True
  with s have "scope_root c = tree_root t"
    by (auto simp: verify_and_derive_root_def split: if_splits)
  with True b show ?thesis by (simp add: narrowed_def)
next
  case False
  have np: "\<not> is_passthrough c" using False by (simp add: is_passthrough_def)
  with s have ok: "verify_and_derive_root E (scope_proof c) (tree_root t) = Inr (scope_root c)" by simp
  have cf: "\<And>x p. (x, p) \<in> set (zip (subset_intents (scope_proof c)) (ssp_proofs (scope_proof c))) \<Longrightarrow> collision_free E t p x"
    using tr b by auto
  from verify_and_derive_root_sound [OF b False cf ok] False show ?thesis
    by (auto simp: narrowed_def)
qed

lemma scoped_narrows:
  "tree_build E xs = Inr t \<Longrightarrow> scope_trust E xs cs \<Longrightarrow> scoped E (tree_root t) cs \<Longrightarrow>
     set (leaf_intents xs cs) \<subseteq> set xs
     \<and> (\<exists>u. tree_build E (leaf_intents xs cs) = Inr u \<and> tree_root u = leaf_scope (tree_root t) cs)"
proof (induction cs arbitrary: xs t)
  case Nil
  then show ?case by (simp add: leaf_scope_def)
next
  case (Cons c cs)
  from scoped_hop [OF Cons.prems] obtain u where u: "set (narrowed xs c) \<subseteq> set xs"
    "tree_build E (narrowed xs c) = Inr u" "tree_root u = scope_root c" by blast
  have "scope_trust E (narrowed xs c) cs" "scoped E (tree_root u) cs"
    using Cons.prems u(3) by simp_all
  from Cons.IH [OF u(2) this] u(1,3) show ?case by (auto simp: leaf_scope_def)
qed

text \<open>An intent a valid chain authorizes is one of the intents the principal's scope was built from.\<close>

lemma valid_chain_intent:
  assumes b: "tree_build E xs = Inr t" "principal_scope c = tree_root t"
    and tr: "scope_trust E xs (certs c)"
    and cf: "\<And>u. tree_build E (leaf_intents xs (certs c)) = Inr u \<Longrightarrow> collision_free E u p i"
    and v: "chain_valid E a i p now drift c"
  shows "i \<in> set (leaf_intents xs (certs c)) \<and> set (leaf_intents xs (certs c)) \<subseteq> set xs"
proof -
  have "scoped E (tree_root t) (certs c)" using v b(2) by (simp add: chain_valid_def)
  from scoped_narrows [OF b(1) tr this] obtain u where
    u: "set (leaf_intents xs (certs c)) \<subseteq> set xs" "tree_build E (leaf_intents xs (certs c)) = Inr u"
      "tree_root u = leaf_scope (tree_root t) (certs c)" by blast
  have "merkle_verify E p i (tree_root u)"
    using v b(2) u(3) by (simp add: chain_valid_def intent_authorized_merkle)
  from merkle_verify_sound [OF u(2) cf [OF u(2)] this] u(1) show ?thesis by blast
qed

end
