(* ===== verification/A1_Runs.thy ===== *)
theory A1_Runs
  imports A1_Chain
begin

text \<open>
  The authorizer over time: a system is a revocation store and a nonce store without expiry,
  its steps are the calls of \<open>src/chain.rs\<close> and \<open>src/registry.rs\<close> that change them, and a run is
  any interleaving of such calls. What holds over runs is replay protection across
  authorizations of every kind, and that a revocation is final.
\<close>

record system =
  sys_rev :: memory_revocation_store
  sys_nonces :: memory_nonce_store

definition system_new :: system where
  "system_new = \<lparr>sys_rev = mem_rev_new, sys_nonces = mem_nonce_new\<rparr>"

text \<open>
  A call of \<open>authorize_with_options\<close>, at \<open>q_now\<close> by its clock and \<open>q_store_now\<close> by the store's; a batch reads
  its clock twice, for its receipts and in the validation.
\<close>

record request =
  q_agent :: bytes
  q_intent :: bytes
  q_proof :: merkle_proof
  q_now :: u64
  q_store_now :: u64
  q_policy :: "policy_set option"
  q_chain :: dyolo_chain

record batch_request =
  bq_agent :: bytes
  bq_intents :: "(bytes \<times> merkle_proof) list"
  bq_now :: u64
  bq_check_now :: u64
  bq_store_now :: u64
  bq_chain :: dyolo_chain

datatype call =
    Authorize request "a1_error + verification_receipt"
  | AuthorizeBatch batch_request batch_authorize_result
  | RevokeCert bytes
  | RevokeBatch "bytes list"

definition do_authorize :: "ext \<Rightarrow> system \<Rightarrow> request \<Rightarrow> (a1_error + verification_receipt) \<times> memory_nonce_store" where
  "do_authorize E s q = authorize_inner E (q_agent q) (q_intent q) (q_proof q) (q_now q)
     (mem_is_revoked (sys_rev s)) (mem_try_consume_batch (q_store_now q)) (q_policy q) (q_chain q) (sys_nonces s)"

definition do_batch :: "ext \<Rightarrow> system \<Rightarrow> batch_request \<Rightarrow> batch_authorize_result \<times> memory_nonce_store" where
  "do_batch E s q = authorize_batch E (bq_agent q) (bq_intents q) (bq_now q) (bq_check_now q)
     (mem_is_revoked (sys_rev s)) (mem_try_consume_batch (bq_store_now q)) (bq_chain q) (sys_nonces s)"

inductive sys_step :: "ext \<Rightarrow> system \<Rightarrow> call \<Rightarrow> system \<Rightarrow> bool" where
  authorize: "do_authorize E s q = (res, n') \<Longrightarrow> sys_step E s (Authorize q res) (s\<lparr>sys_nonces := n'\<rparr>)"
| batch: "do_batch E s q = (b, n') \<Longrightarrow> sys_step E s (AuthorizeBatch q b) (s\<lparr>sys_nonces := n'\<rparr>)"
| revoke: "mem_revoke (sys_rev s) fp = (Inr (), r') \<Longrightarrow> sys_step E s (RevokeCert fp) (s\<lparr>sys_rev := r'\<rparr>)"
| revoke_batch: "mem_revoke_batch (sys_rev s) fps = (Inr (), r') \<Longrightarrow>
    sys_step E s (RevokeBatch fps) (s\<lparr>sys_rev := r'\<rparr>)"

inductive run :: "ext \<Rightarrow> system \<Rightarrow> call list \<Rightarrow> system \<Rightarrow> bool" where
  done_run: "run E s [] s"
| step_run: "sys_step E s a s1 \<Longrightarrow> run E s1 as s2 \<Longrightarrow> run E s (a # as) s2"

inductive_cases authorizeE: "sys_step E s (Authorize q res) s'"
inductive_cases batchE: "sys_step E s (AuthorizeBatch q b) s'"
inductive_cases revokeE: "sys_step E s (RevokeCert fp) s'"
inductive_cases revoke_batchE: "sys_step E s (RevokeBatch fps) s'"
inductive_cases run_consE: "run E s (a # as) s'"

lemmas stepEs = authorizeE batchE revokeE revoke_batchE

definition sys_inv :: "system \<Rightarrow> bool" where
  "sys_inv s \<longleftrightarrow> mem_rev_inv (sys_rev s) \<and> nonce_inv_forever (sys_nonces s)"

definition sys_used :: "system \<Rightarrow> bytes set" where
  "sys_used s = live 0 (sys_nonces s)"

definition sys_revoked :: "system \<Rightarrow> bytes set" where
  "sys_revoked s = revoked_set (sys_rev s)"

text \<open>The chain a call authorizes, if it does, and the fingerprints it revokes.\<close>

fun granted :: "call \<Rightarrow> dyolo_chain option" where
  "granted (Authorize q (Inr _)) = Some (q_chain q)"
| "granted (AuthorizeBatch q b) =
     (if all_authorized b \<and> bq_intents q \<noteq> [] then Some (bq_chain q) else None)"
| "granted _ = None"

fun revokes :: "call \<Rightarrow> bytes set" where
  "revokes (RevokeCert fp) = {fp}"
| "revokes (RevokeBatch fps) = set fps"
| "revokes _ = {}"

definition granted_nonces :: "call \<Rightarrow> bytes set" where
  "granted_nonces a = (case granted a of None \<Rightarrow> {} | Some c \<Rightarrow> chain_nonces c)"

definition granted_fps :: "ext \<Rightarrow> call \<Rightarrow> bytes set" where
  "granted_fps E a = (case granted a of None \<Rightarrow> {} | Some c \<Rightarrow> chain_fps E c)"

interpretation sys_auth: authorizer mem_is_revoked mem_revoke mem_rev_inv revoked_set
  mem_try_consume_batch nonce_inv_forever live ..

lemma sys_inv_new: "sys_inv system_new"
  by (simp add: sys_inv_def system_new_def mem_rev_inv_new nonce_inv_forever_new)

lemma live_any: "sys_inv s \<Longrightarrow> live t (sys_nonces s) = sys_used s"
  unfolding sys_used_def sys_inv_def by (rule mem_forever.used_time) blast

text \<open>One step: what it adds, and that a grant needs its nonces fresh and its certificates unrevoked.\<close>

definition step_ok :: "ext \<Rightarrow> system \<Rightarrow> call \<Rightarrow> system \<Rightarrow> bool" where
  "step_ok E s a s' \<longleftrightarrow> sys_inv s'
     \<and> sys_used s' = granted_nonces a \<union> sys_used s \<and> sys_revoked s' = revokes a \<union> sys_revoked s
     \<and> granted_nonces a \<inter> sys_used s = {} \<and> granted_fps E a \<inter> sys_revoked s = {}"

lemma step_okI:
  assumes "sys_inv s" "nonce_inv_forever n'" "live 0 n' = granted_nonces a \<union> sys_used s"
    "revokes a = {}" "granted_nonces a \<inter> sys_used s = {}" "granted_fps E a \<inter> sys_revoked s = {}"
  shows "step_ok E s a (s\<lparr>sys_nonces := n'\<rparr>)"
  using assms by (simp add: step_ok_def sys_inv_def sys_used_def sys_revoked_def)

lemma step_ok_none:
  "sys_inv s \<Longrightarrow> granted a = None \<Longrightarrow> revokes a = {} \<Longrightarrow> step_ok E s a s"
  by (simp add: step_ok_def granted_nonces_def granted_fps_def)

lemma authorize_step_ok:
  assumes "batch_complete E" "batch_sound E" "sys_inv s" "do_authorize E s q = (res, n')"
  shows "step_ok E s (Authorize q res) (s\<lparr>sys_nonces := n'\<rparr>)"
proof -
  have i: "mem_rev_inv (sys_rev s)" "nonce_inv_forever (sys_nonces s)" using assms(3) by (simp_all add: sys_inv_def)
  note iff = sys_auth.authorize_inner_iff [OF i assms(1,2)]
  show ?thesis
  proof (cases res)
    case (Inl e)
    with assms(4) iff(2) have "n' = sys_nonces s" unfolding do_authorize_def by blast
    with assms(3) Inl show ?thesis by (simp add: step_ok_none)
  next
    case (Inr rc)
    with assms(4) iff(1) have ok: "policy_ok (q_policy q) (q_chain q)"
      "chain_valid E (q_agent q) (q_intent q) (q_proof q) (q_now q) (drift_tolerance_secs (q_chain q)) (q_chain q)"
      "chain_fps E (q_chain q) \<inter> revoked_set (sys_rev s) = {}"
      "chain_nonces (q_chain q) \<inter> live (q_store_now q) (sys_nonces s) = {}"
      unfolding do_authorize_def by blast+
    from sys_auth.authorize_ok [OF i assms(1,2) ok] assms(4)
    have n': "nonce_inv_forever n'" "live (q_store_now q) n' = chain_nonces (q_chain q) \<union> live (q_store_now q) (sys_nonces s)"
      unfolding do_authorize_def by auto
    have "live 0 n' = live (q_store_now q) n'" using n'(1) by (rule mem_forever.used_time)
    with ok n' show ?thesis using Inr live_any [OF assms(3)] assms(3)
      by (intro step_okI) (simp_all add: granted_nonces_def granted_fps_def sys_revoked_def)
  qed
qed

lemma batch_step_ok:
  assumes "batch_complete E" "batch_sound E" "sys_inv s" "do_batch E s q = (b, n')"
  shows "step_ok E s (AuthorizeBatch q b) (s\<lparr>sys_nonces := n'\<rparr>)"
proof (cases "bq_intents q = []")
  case True
  with assms(4) have "n' = sys_nonces s" by (simp add: do_batch_def authorize_batch_def)
  with True assms(3) show ?thesis by (simp add: step_ok_none)
next
  case ne: False
  have i: "mem_rev_inv (sys_rev s)" "nonce_inv_forever (sys_nonces s)" using assms(3) by (simp_all add: sys_inv_def)
  let ?c = "bq_chain q" and ?x = "hd (bq_intents q)"
  let ?ok = "chain_valid E (bq_agent q) (fst ?x) (snd ?x) (bq_check_now q) (drift_tolerance_secs ?c) ?c
    \<and> (\<forall>x\<in>set (bq_intents q). intent_authorized E (snd x) (fst x) (leaf_scope (principal_scope ?c) (certs ?c)))
    \<and> chain_fps E ?c \<inter> revoked_set (sys_rev s) = {} \<and> chain_nonces ?c \<inter> live (bq_store_now q) (sys_nonces s) = {}"
  show ?thesis
  proof (cases ?ok)
    case False
    with sys_auth.batch_failed [OF i assms(1,2) ne False, of "bq_now q"] assms(4)
    show ?thesis unfolding do_batch_def using assms(3) by (auto intro: step_ok_none)
  next
    case True
    with sys_auth.batch_ok [OF i assms(1,2) ne, of "bq_agent q" "bq_check_now q" ?c "bq_store_now q" "bq_now q"] assms(4)
    have n': "all_authorized b" "nonce_inv_forever n'"
      "live (bq_store_now q) n' = chain_nonces ?c \<union> live (bq_store_now q) (sys_nonces s)"
      unfolding do_batch_def by auto
    have "live 0 n' = live (bq_store_now q) n'" using n'(2) by (rule mem_forever.used_time)
    with True n' show ?thesis using ne live_any [OF assms(3)] assms(3)
      by (intro step_okI) (simp_all add: granted_nonces_def granted_fps_def sys_revoked_def)
  qed
qed

lemma sys_step_ok:
  assumes "batch_complete E" "batch_sound E" "sys_inv s" "sys_step E s a s'"
  shows "step_ok E s a s'"
  using assms(4,3)
proof (cases rule: sys_step.cases)
  case (authorize q res n')
  then show ?thesis using authorize_step_ok [OF assms(1-3)] by simp
next
  case (batch q b n')
  then show ?thesis using batch_step_ok [OF assms(1-3)] by simp
next
  case (revoke fp r')
  then show ?thesis using mem_revoke_spec [of "sys_rev s" fp] assms(3)
    by (auto simp: step_ok_def sys_inv_def sys_used_def sys_revoked_def granted_nonces_def granted_fps_def)
next
  case (revoke_batch fps r')
  then show ?thesis using mem_revoke_batch_spec [of "sys_rev s" fps] assms(3)
    by (auto simp: step_ok_def sys_inv_def sys_used_def sys_revoked_def granted_nonces_def granted_fps_def)
qed

lemma run_invariant:
  assumes "batch_complete E" "batch_sound E" "run E s as s'" "sys_inv s"
  shows "sys_inv s' \<and> sys_used s' = (\<Union>a\<in>set as. granted_nonces a) \<union> sys_used s
    \<and> sys_revoked s' = (\<Union>a\<in>set as. revokes a) \<union> sys_revoked s"
  using assms(3,1,2,4)
proof (induction rule: run.induct)
  case (step_run E s a s1 as s2)
  then show ?case using sys_step_ok [of E s a s1] by (auto simp: step_ok_def)
qed simp

text \<open>Nothing that was used, or revoked, before or during a run is granted by a later call of it.\<close>

lemma run_excludes:
  assumes "batch_complete E" "batch_sound E" "run E s as s'" "sys_inv s"
  shows "a \<in> set as \<Longrightarrow> granted_nonces a \<inter> sys_used s = {} \<and> granted_fps E a \<inter> sys_revoked s = {}"
  using assms(3,1,2,4)
proof (induction rule: run.induct)
  case (step_run E s b s1 as s2)
  then show ?case using sys_step_ok [of E s b s1] by (auto simp: step_ok_def)
qed simp

lemma run_append: "run E s xs t \<Longrightarrow> run E t ys u \<Longrightarrow> run E s (xs @ ys) u"
  by (induction rule: run.induct) (auto intro: step_run)

lemma run_split:
  "run E s (xs @ ys) s' \<Longrightarrow> \<exists>t. run E s xs t \<and> run E t ys s'"
proof (induction xs arbitrary: s)
  case Nil
  then show ?case by (auto intro: done_run)
next
  case (Cons x xs)
  then show ?case by (auto elim!: run_consE intro: step_run) (blast intro: step_run)
qed


text \<open>Any two calls of a run: what the earlier one consumed or revoked the later one does not use.\<close>

lemma run_pair:
  assumes h: "batch_complete E" "batch_sound E" and r: "run E s (xs @ a # ys @ b # zs) s'" and i: "sys_inv s"
  shows "granted_nonces a \<inter> granted_nonces b = {} \<and> revokes a \<inter> granted_fps E b = {}"
proof -
  from r have "run E s ((xs @ [a]) @ (ys @ b # zs)) s'" by simp
  then obtain t where t: "run E s (xs @ [a]) t" "run E t (ys @ b # zs) s'" using run_split by blast
  from run_invariant [OF h t(1) i] have ti: "sys_inv t" "granted_nonces a \<subseteq> sys_used t" "revokes a \<subseteq> sys_revoked t"
    by auto
  from run_excludes [OF h t(2) ti(1), of b] ti show ?thesis by auto
qed

end
