(* ===== verification/A1_Narrowing.thy ===== *)
theory A1_Narrowing
  imports A1_Intent
begin

text \<open>
  \<open>src/identity/narrowing.rs\<close>: the 256-bit capability mask, its subset test over four
  little-endian words, the hash-based mapping of capability names to bits, and the
  collision-free \<open>CapabilityRegistry\<close>. What both mappings promise of their masks is the
  locale \<open>capability_encoding\<close>; the registry also interprets \<open>exact_encoding\<close>.
\<close>

section \<open>Masks\<close>

record narrowing_matrix =
  mask :: bytes

definition mask_wf :: "narrowing_matrix \<Rightarrow> bool" where
  "mask_wf m \<longleftrightarrow> length (mask m) = 32"

definition EMPTY :: narrowing_matrix where "EMPTY = \<lparr>mask = replicate 32 0\<rparr>"
definition FULL :: narrowing_matrix where "FULL = \<lparr>mask = replicate 32 255\<rparr>"

definition NARROWING_DOMAIN :: string where
  "NARROWING_DOMAIN = ''a1::dyolo::narrowing::v2.8.0''"

definition capability_to_bit :: "ext \<Rightarrow> string \<Rightarrow> nat \<times> nat" where
  "capability_to_bit E name =
     (let b = h_finalize E (h_updates (new_derive_key NARROWING_DOMAIN) [str_bytes name])
      in (unat (b ! 0) mod 32, unat (b ! 1) mod 8))"

text \<open>\<open>mask[byte_idx] |= 1u8 << bit_idx\<close>\<close>

definition or_bit :: "bytes \<Rightarrow> nat \<Rightarrow> nat \<Rightarrow> bytes" where
  "or_bit m byte_idx bit_idx = m[byte_idx := (m ! byte_idx) OR push_bit bit_idx 1]"

definition from_capabilities :: "ext \<Rightarrow> string list \<Rightarrow> narrowing_matrix" where
  "from_capabilities E caps =
     \<lparr>mask = fold (\<lambda>cap m. case capability_to_bit E cap of (byte_idx, bit_idx) \<Rightarrow> or_bit m byte_idx bit_idx)
        caps (replicate 32 0)\<rparr>"

fun split_on :: "char \<Rightarrow> string \<Rightarrow> string list" where
  "split_on c [] = [[]]"
| "split_on c (x # xs) =
     (if x = c then [] # split_on c xs
      else (case split_on c xs of [] \<Rightarrow> [[x]] | w # ws \<Rightarrow> (x # w) # ws))"

text \<open>\<open>csv.split(',').map(str::trim).filter(|s| !s.is_empty())\<close>\<close>

definition csv_items :: "string \<Rightarrow> string list" where
  "csv_items csv = filter (\<lambda>s. s \<noteq> []) (map str_trim (split_on (CHR '','') csv))"

definition from_csv :: "ext \<Rightarrow> string \<Rightarrow> narrowing_matrix" where
  "from_csv E csv = from_capabilities E (csv_items csv)"

definition from_raw :: "bytes \<Rightarrow> narrowing_matrix" where
  "from_raw m = \<lparr>mask = m\<rparr>"

definition read_u64 :: "bytes \<Rightarrow> nat \<Rightarrow> u64" where
  "read_u64 bs i = from_le64 (take 8 (drop (i * 8) bs))"

definition is_subset_of :: "narrowing_matrix \<Rightarrow> narrowing_matrix \<Rightarrow> bool" where
  "is_subset_of self parent \<longleftrightarrow>
     list_all (\<lambda>i. let s = read_u64 (mask self) i; p = read_u64 (mask parent) i in s AND p = s) [0..<4]"

definition enforce_narrowing :: "narrowing_matrix \<Rightarrow> narrowing_matrix \<Rightarrow> a1_error + unit" where
  "enforce_narrowing self parent =
     (if is_subset_of self parent then Inr () else Inl PassportNarrowingViolation)"

definition intersect :: "narrowing_matrix \<Rightarrow> narrowing_matrix \<Rightarrow> narrowing_matrix" where
  "intersect self other = \<lparr>mask = map (\<lambda>i. (mask self ! i) AND (mask other ! i)) [0..<32]\<rparr>"

definition mask_commitment :: "ext \<Rightarrow> narrowing_matrix \<Rightarrow> bytes" where
  "mask_commitment E m = h_finalize E (h_updates (new_derive_key NARROWING_DOMAIN) [mask m])"

definition mask_to_hex :: "ext \<Rightarrow> narrowing_matrix \<Rightarrow> string" where
  "mask_to_hex E m = hex_enc E (mask m)"

definition mask_from_hex :: "ext \<Rightarrow> string \<Rightarrow> a1_error + narrowing_matrix" where
  "mask_from_hex E s =
     bindR (ok_or (WireFormatError ''invalid narrowing matrix hex'') (hex_dec E s)) (\<lambda>b.
       if length b \<noteq> 32
       then Inl (WireFormatError ''narrowing matrix must be exactly 32 bytes'')
       else Inr \<lparr>mask = b\<rparr>)"

definition mask_is_empty :: "narrowing_matrix \<Rightarrow> bool" where
  "mask_is_empty m \<longleftrightarrow> list_all (\<lambda>b. b = 0) (mask m)"

definition count_ones :: "u8 \<Rightarrow> nat" where
  "count_ones b = length (filter (bit b) [0..<8])"

definition capacity_count :: "narrowing_matrix \<Rightarrow> nat" where
  "capacity_count m = sum_list (map count_ones (mask m))"

subsection \<open>Bits of a mask\<close>

definition mask_bit :: "narrowing_matrix \<Rightarrow> nat \<Rightarrow> bool" where
  "mask_bit m k \<longleftrightarrow> bit (mask m ! (k div 8)) (k mod 8)"

definition mask_bits :: "narrowing_matrix \<Rightarrow> nat set" where
  "mask_bits m = {k. k < 256 \<and> mask_bit m k}"

lemma bit_read_u64:
  "length bs = 32 \<Longrightarrow> i < 4 \<Longrightarrow> j < 64 \<Longrightarrow>
     bit (read_u64 bs i) j = bit (bs ! ((64 * i + j) div 8)) ((64 * i + j) mod 8)"
proof -
  assume a: "length bs = 32" "i < 4" "j < 64"
  have "64 * i + j = j + (8 * i) * 8" by simp
  then have e: "(64 * i + j) div 8 = i * 8 + j div 8" "(64 * i + j) mod 8 = j mod 8"
    by (metis div_mult_self1 mult.commute zero_neq_numeral, metis mod_mult_self1)
  from a have "length (take 8 (drop (i * 8) bs)) = 8" by simp
  with a show ?thesis by (simp add: read_u64_def bit_from_le64 e)
qed

lemma word_and_eq_iff: "s AND p = s \<longleftrightarrow> (\<forall>j<LENGTH('a). bit s j \<longrightarrow> bit p j)"
  for s p :: "'a::len word"
proof
  assume eq: "s AND p = s"
  show "\<forall>j<LENGTH('a). bit s j \<longrightarrow> bit p j" using bit_and_iff [of s p] unfolding eq by blast
next
  assume "\<forall>j<LENGTH('a). bit s j \<longrightarrow> bit p j"
  then show "s AND p = s" by (intro bit_word_eqI) (auto simp: bit_and_iff)
qed

text \<open>The four word comparisons decide inclusion of the 256 bits.\<close>

lemma is_subset_of_iff:
  assumes "mask_wf a" "mask_wf b"
  shows "is_subset_of a b \<longleftrightarrow> mask_bits a \<subseteq> mask_bits b"
proof -
  have w: "(read_u64 (mask a) i AND read_u64 (mask b) i = read_u64 (mask a) i) \<longleftrightarrow>
      (\<forall>j<64. mask_bit a (64 * i + j) \<longrightarrow> mask_bit b (64 * i + j))" if "i < 4" for i
    using assms that by (simp add: word_and_eq_iff bit_read_u64 mask_wf_def mask_bit_def)
  have all: "(\<forall>k<256. P k) \<longleftrightarrow> (\<forall>i<4. \<forall>j<64. P (64 * i + j))" for P :: "nat \<Rightarrow> bool"
  proof
    assume r: "\<forall>i<4. \<forall>j<64. P (64 * i + j)"
    show "\<forall>k<256. P k"
    proof (intro allI impI)
      fix k :: nat assume "k < 256"
      then have "k div 64 < 4" "k mod 64 < 64" by auto
      with r have "P (64 * (k div 64) + k mod 64)" by blast
      then show "P k" by simp
    qed
  qed auto
  have "is_subset_of a b \<longleftrightarrow> (\<forall>i<4. \<forall>j<64. mask_bit a (64 * i + j) \<longrightarrow> mask_bit b (64 * i + j))"
    unfolding is_subset_of_def list_all_iff Let_def set_upt atLeast0LessThan Ball_def lessThan_iff
    using w by blast
  also have "\<dots> \<longleftrightarrow> mask_bits a \<subseteq> mask_bits b"
    using all [of "\<lambda>k. mask_bit a k \<longrightarrow> mask_bit b k"] by (auto simp: mask_bits_def)
  finally show ?thesis .
qed

lemma enforce_narrowing_iff:
  "mask_wf a \<Longrightarrow> mask_wf b \<Longrightarrow> enforce_narrowing a b = Inr () \<longleftrightarrow> mask_bits a \<subseteq> mask_bits b"
  by (simp add: enforce_narrowing_def is_subset_of_iff)

lemma mask_eqI:
  assumes "mask_wf a" "mask_wf b" "mask_bits a = mask_bits b" shows "a = b"
proof -
  have "mask a ! i = mask b ! i" if "i < 32" for i
  proof (rule bit_word_eqI)
    fix j :: nat assume "j < LENGTH(8)"
    then have "j < 8" by simp
    with that have k: "8 * i + j < 256" "(8 * i + j) div 8 = i" "(8 * i + j) mod 8 = j" by auto
    have "8 * i + j \<in> mask_bits a \<longleftrightarrow> 8 * i + j \<in> mask_bits b" using assms(3) by (rule arg_cong)
    then show "bit (mask a ! i) j = bit (mask b ! i) j"
      unfolding mask_bits_def mask_bit_def mem_Collect_eq k(2,3) using k(1) by blast
  qed
  then have "mask a = mask b" using assms(1,2) by (intro nth_equalityI) (auto simp: mask_wf_def)
  then show ?thesis by simp
qed

lemma mask_wf_simps [simp]: "mask_wf EMPTY" "mask_wf FULL" "mask_wf (intersect a b)"
  by (simp_all add: mask_wf_def EMPTY_def FULL_def intersect_def)

lemma mask_bits_EMPTY [simp]: "mask_bits EMPTY = {}"
  by (auto simp: mask_bits_def mask_bit_def EMPTY_def)

lemma mask_bits_FULL [simp]: "mask_bits FULL = {..<256}"
proof -
  have "(255 :: u8) = -1" by simp
  then have "bit (255 :: u8) j" if "j < 8" for j
    using that by (simp only: bit_minus_1_iff possible_bit_word) simp
  then show ?thesis by (auto simp: mask_bits_def mask_bit_def FULL_def)
qed

lemma mask_bits_intersect [simp]: "mask_bits (intersect a b) = mask_bits a \<inter> mask_bits b"
  by (auto simp: mask_bits_def mask_bit_def intersect_def bit_and_iff)

text \<open>\<open>intersect\<close> is the largest mask that narrows both arguments.\<close>

lemma intersect_greatest:
  assumes "mask_wf a" "mask_wf b" "mask_wf c"
  shows "is_subset_of c (intersect a b) \<longleftrightarrow> is_subset_of c a \<and> is_subset_of c b"
  using assms by (simp add: is_subset_of_iff)

lemma or_bit_bits:
  assumes "length m = 32" "y < 32" "j < 8"
  shows "mask_wf \<lparr>mask = or_bit m y j\<rparr>"
    and "mask_bits \<lparr>mask = or_bit m y j\<rparr> = insert (8 * y + j) (mask_bits \<lparr>mask = m\<rparr>)"
proof -
  show "mask_wf \<lparr>mask = or_bit m y j\<rparr>" using assms(1) by (simp add: mask_wf_def or_bit_def)
  have one: "bit (push_bit j (1 :: u8)) n \<longleftrightarrow> n = j" for n
    using assms(3) unfolding push_bit_eq_mult by (auto simp: bit_exp_iff)
  have "mask_bit \<lparr>mask = or_bit m y j\<rparr> k \<longleftrightarrow> k = 8 * y + j \<or> mask_bit \<lparr>mask = m\<rparr> k"
    if "k < 256" for k
  proof -
    have "k div 8 < 32" using that by auto
    moreover have "k = 8 * y + j \<longleftrightarrow> k div 8 = y \<and> k mod 8 = j"
    proof
      assume "k = 8 * y + j" then show "k div 8 = y \<and> k mod 8 = j" using assms(3) by simp
    next
      assume "k div 8 = y \<and> k mod 8 = j" then show "k = 8 * y + j" by (metis mult_div_mod_eq)
    qed
    ultimately show ?thesis
      using assms(1,2) one [of "k mod 8"]
      by (cases "y = k div 8")
        (simp_all add: mask_bit_def or_bit_def bit_or_iff disj_commute eq_commute)
  qed
  then show "mask_bits \<lparr>mask = or_bit m y j\<rparr> = insert (8 * y + j) (mask_bits \<lparr>mask = m\<rparr>)"
    using assms(2,3) by (auto simp: mask_bits_def)
qed

text \<open>A loop of such assignments sets exactly the named bits.\<close>

lemma fold_or_bit:
  assumes "length m = 32" "\<And>c. c \<in> set cs \<Longrightarrow> fst (f c) < 32 \<and> snd (f c) < 8"
  shows "mask_wf \<lparr>mask = fold (\<lambda>c m. or_bit m (fst (f c)) (snd (f c))) cs m\<rparr> \<and>
    mask_bits \<lparr>mask = fold (\<lambda>c m. or_bit m (fst (f c)) (snd (f c))) cs m\<rparr>
      = (\<lambda>c. 8 * fst (f c) + snd (f c)) ` set cs \<union> mask_bits \<lparr>mask = m\<rparr>"
  using assms
proof (induction cs arbitrary: m)
  case Nil
  then show ?case by (simp add: mask_wf_def)
next
  case (Cons c cs)
  have fc: "fst (f c) < 32" "snd (f c) < 8" using Cons.prems(2) [of c] by auto
  note ob = or_bit_bits [OF Cons.prems(1) fc]
  have "length (or_bit m (fst (f c)) (snd (f c))) = 32" using ob(1) by (simp add: mask_wf_def)
  from Cons.IH [OF this] Cons.prems(2) show ?case by (auto simp: ob(2))
qed

lemma capacity_count_bits: "mask_wf m \<Longrightarrow> capacity_count m = card (mask_bits m)"
proof -
  assume "mask_wf m"
  have gen: "sum_list (map count_ones bs) = card {k. k < 8 * length bs \<and> bit (bs ! (k div 8)) (k mod 8)}" for bs
  proof (induction bs rule: rev_induct)
    case Nil
    then show ?case by simp
  next
    case (snoc b bs)
    let ?n = "8 * length bs"
    let ?A = "{k. k < ?n \<and> bit (bs ! (k div 8)) (k mod 8)}"
    let ?B = "(\<lambda>j. ?n + j) ` {j. j < 8 \<and> bit b j}"
    have "{k. k < 8 * length (bs @ [b]) \<and> bit ((bs @ [b]) ! (k div 8)) (k mod 8)} = ?A \<union> ?B"
    proof (intro set_eqI iffI)
      fix k assume k: "k \<in> {k. k < 8 * length (bs @ [b]) \<and> bit ((bs @ [b]) ! (k div 8)) (k mod 8)}"
      show "k \<in> ?A \<union> ?B"
      proof (cases "k < ?n")
        case True
        then have "k div 8 < length bs" by auto
        with k True show ?thesis by (simp add: nth_append)
      next
        case False
        with k have d: "k div 8 = length bs" by auto
        then have "k = ?n + k mod 8" by (metis mult_div_mod_eq)
        with k d show ?thesis by (auto simp: nth_append)
      qed
    next
      fix k assume "k \<in> ?A \<union> ?B"
      then show "k \<in> {k. k < 8 * length (bs @ [b]) \<and> bit ((bs @ [b]) ! (k div 8)) (k mod 8)}"
        by (auto simp: nth_append)
    qed
    moreover have "?A \<inter> ?B = {}" by auto
    moreover have "card ?B = count_ones b"
    proof -
      have "card ?B = card {j. j < 8 \<and> bit b j}" by (rule card_image) (simp add: inj_on_def)
      moreover have "{j. j < 8 \<and> bit b j} = set (filter (bit b) [0..<8])" by auto
      moreover have "card (set (filter (bit b) [0..<8])) = length (filter (bit b) [0..<8])"
        by (intro distinct_card distinct_filter distinct_upt)
      ultimately show ?thesis by (simp only: count_ones_def)
    qed
    ultimately show ?case using snoc by (simp add: card_Un_disjoint)
  qed
  have "mask_bits m = {k. k < 8 * length (mask m) \<and> bit (mask m ! (k div 8)) (k mod 8)}"
    using \<open>mask_wf m\<close> by (simp add: mask_bits_def mask_bit_def mask_wf_def)
  then show ?thesis by (simp add: capacity_count_def gen)
qed

lemma mask_hex_roundtrip:
  "hex_ok E \<Longrightarrow> mask_wf m \<Longrightarrow> mask_from_hex E (mask_to_hex E m) = Inr m"
  by (simp add: hex_ok_def mask_wf_def mask_to_hex_def mask_from_hex_def)

lemma mask_from_hex_wf: "mask_from_hex E s = Inr m \<Longrightarrow> mask_wf m"
  by (auto simp: mask_from_hex_def result_simps mask_wf_def split: if_splits)

section \<open>Capability encodings\<close>

text \<open>
  A client of a mask cares about one thing: which bit a capability name owns, and that the
  mask of a list of names has exactly their bits. \<open>valid\<close> names what the encoding accepts.
\<close>

locale capability_encoding =
  fixes valid :: "'c \<Rightarrow> bool"
    and pos :: "'c \<Rightarrow> nat"
    and build :: "'c list \<Rightarrow> narrowing_matrix"
  assumes build_wf: "list_all valid cs \<Longrightarrow> mask_wf (build cs)"
    and build_bits: "list_all valid cs \<Longrightarrow> mask_bits (build cs) = pos ` set cs"
begin

lemma subset_iff:
  "list_all valid as \<Longrightarrow> list_all valid bs \<Longrightarrow>
     is_subset_of (build as) (build bs) \<longleftrightarrow> pos ` set as \<subseteq> pos ` set bs"
  by (simp add: is_subset_of_iff build_wf build_bits)

lemma subset_mono:
  "list_all valid bs \<Longrightarrow> set as \<subseteq> set bs \<Longrightarrow> is_subset_of (build as) (build bs)"
  by (subst subset_iff) (auto simp: list_all_iff)

lemma single_iff:
  "valid c \<Longrightarrow> list_all valid bs \<Longrightarrow>
     is_subset_of (build [c]) (build bs) \<longleftrightarrow> (\<exists>d\<in>set bs. pos d = pos c)"
  by (subst subset_iff) (auto simp: image_iff, metis)

lemma build_set: "list_all valid as \<Longrightarrow> set as = set bs \<Longrightarrow> build as = build bs"
  by (rule mask_eqI) (auto simp: build_wf build_bits list_all_iff)

end

locale exact_encoding = capability_encoding +
  assumes pos_inj: "valid c \<Longrightarrow> valid d \<Longrightarrow> pos c = pos d \<Longrightarrow> c = d"
begin

lemma subset_exact:
  assumes "list_all valid as" "list_all valid bs"
  shows "is_subset_of (build as) (build bs) \<longleftrightarrow> set as \<subseteq> set bs"
  using assms pos_inj unfolding subset_iff [OF assms] list_all_iff by blast

lemma capacity_exact: "list_all valid cs \<Longrightarrow> capacity_count (build cs) = card (set cs)"
  by (subst capacity_count_bits)
    (auto simp: build_wf build_bits list_all_iff inj_on_def intro!: card_image pos_inj)

lemma disjoint_exact:
  assumes "list_all valid as" "list_all valid bs"
  shows "intersect (build as) (build bs) = EMPTY \<longleftrightarrow> set as \<inter> set bs = {}"
proof -
  have "intersect (build as) (build bs) = EMPTY \<longleftrightarrow> mask_bits (build as) \<inter> mask_bits (build bs) = {}"
    using mask_eqI [of "intersect (build as) (build bs)" EMPTY] mask_bits_intersect mask_bits_EMPTY
    by (metis mask_wf_simps(1,3))
  also have "\<dots> \<longleftrightarrow> set as \<inter> set bs = {}"
    using assms pos_inj unfolding build_bits [OF assms(1)] build_bits [OF assms(2)] list_all_iff
    by blast
  finally show ?thesis .
qed

end

text \<open>The hash-based mapping is an encoding, and not an exact one.\<close>

definition cap_pos :: "ext \<Rightarrow> string \<Rightarrow> nat" where
  "cap_pos E c = 8 * fst (capability_to_bit E c) + snd (capability_to_bit E c)"

lemma capability_to_bit_bounds: "fst (capability_to_bit E c) < 32" "snd (capability_to_bit E c) < 8"
  by (simp_all add: capability_to_bit_def Let_def)

lemma from_capabilities_spec:
  "mask_wf (from_capabilities E cs) \<and> mask_bits (from_capabilities E cs) = cap_pos E ` set cs"
proof -
  have "from_capabilities E cs = \<lparr>mask = fold (\<lambda>c m. or_bit m (fst (capability_to_bit E c))
      (snd (capability_to_bit E c))) cs (mask EMPTY)\<rparr>"
    by (simp add: from_capabilities_def EMPTY_def case_prod_beta)
  moreover have "length (mask EMPTY) = 32" by (simp add: EMPTY_def)
  moreover have "\<lparr>mask = mask EMPTY\<rparr> = EMPTY" by simp
  ultimately show ?thesis
    using fold_or_bit [of "mask EMPTY" cs "capability_to_bit E"] mask_bits_EMPTY
    by (simp only: capability_to_bit_bounds cap_pos_def [abs_def] simp_thms Un_empty_right)
qed

interpretation hashed: capability_encoding "\<lambda>c :: string. True" "cap_pos E" "from_capabilities E" for E
  by unfold_locales (simp_all add: from_capabilities_spec)

section \<open>The capability registry\<close>

text \<open>
  \<open>slots\<close> is the \<open>HashMap\<close> from names to slots, as an association list with distinct keys;
  what the code reads off it (a lookup, the sum of all values, the names sorted by slot) does
  not depend on the iteration order.
\<close>

record capability_registry =
  slots :: "(string \<times> u8) list"
  next_slot :: u8
  reg_count :: nat

definition registry_new :: capability_registry where
  "registry_new = \<lparr>slots = [], next_slot = 0, reg_count = 0\<rparr>"

definition register ::
  "capability_registry \<Rightarrow> string \<Rightarrow> (a1_error + u8) \<times> capability_registry" where
  "register r name =
     (case map_of (slots r) name of
        Some slot \<Rightarrow> (Inr slot, r)
      | None \<Rightarrow>
          if reg_count r \<ge> 256
          then (Inl (WireFormatError ''CapabilityRegistry is full: maximum 256 capabilities per registry''), r)
          else (Inr (next_slot r),
                r\<lparr>slots := slots r @ [(name, next_slot r)],
                  next_slot := next_slot r + 1, reg_count := reg_count r + 1\<rparr>))"

fun register_all ::
  "capability_registry \<Rightarrow> string list \<Rightarrow> (a1_error + unit) \<times> capability_registry" where
  "register_all r [] = (Inr (), r)"
| "register_all r (name # names) =
     (case register r name of
        (Inl e, r') \<Rightarrow> (Inl e, r')
      | (Inr _, r') \<Rightarrow> register_all r' names)"

fun build_mask_loop :: "capability_registry \<Rightarrow> string list \<Rightarrow> bytes \<Rightarrow> a1_error + bytes" where
  "build_mask_loop r [] m = Inr m"
| "build_mask_loop r (cap # caps) m =
     bindR (ok_or (WireFormatError (''capability '' @ quoted cap
              @ '' is not registered; call register() first'')) (map_of (slots r) cap)) (\<lambda>slot.
       build_mask_loop r caps (or_bit m (unat slot div 8) (unat slot mod 8)))"

definition build_mask :: "capability_registry \<Rightarrow> string list \<Rightarrow> a1_error + narrowing_matrix" where
  "build_mask r caps = bindR (build_mask_loop r caps (replicate 32 0)) (\<lambda>m. Inr (from_raw m))"

definition build_full_mask :: "capability_registry \<Rightarrow> narrowing_matrix" where
  "build_full_mask r =
     from_raw (fold (\<lambda>slot m. or_bit m (unat slot div 8) (unat slot mod 8)) (map snd (slots r))
       (replicate 32 0))"

definition slot_of :: "capability_registry \<Rightarrow> string \<Rightarrow> u8 option" where
  "slot_of r name = map_of (slots r) name"

definition names_in_order :: "capability_registry \<Rightarrow> string list" where
  "names_in_order r = map fst (sort_key snd (slots r))"

definition registry_len :: "capability_registry \<Rightarrow> nat" where
  "registry_len r = reg_count r"

text \<open>
  The invariant: the names are distinct and hold the slots 0, 1, 2, \<open>\<dots>\<close> in registration
  order. At 256 names \<open>next\<close> has wrapped round to 0, which is why \<open>count\<close> is kept apart.
\<close>

definition reg_inv :: "capability_registry \<Rightarrow> bool" where
  "reg_inv r \<longleftrightarrow> distinct (map fst (slots r)) \<and> reg_count r = length (slots r)
     \<and> reg_count r \<le> 256 \<and> next_slot r = word_of_nat (reg_count r)
     \<and> map snd (slots r) = map word_of_nat [0..<reg_count r]"

lemma reg_inv_new: "reg_inv registry_new"
  by (simp add: reg_inv_def registry_new_def)

lemma register_cases:
  assumes "reg_inv r"
  shows "(\<exists>s. map_of (slots r) name = Some s \<and> register r name = (Inr s, r))
    \<or> (name \<notin> dom (map_of (slots r)) \<and> reg_count r = 256
        \<and> register r name = (Inl (WireFormatError
             ''CapabilityRegistry is full: maximum 256 capabilities per registry''), r))
    \<or> (name \<notin> dom (map_of (slots r)) \<and> reg_count r < 256
        \<and> register r name = (Inr (next_slot r), r\<lparr>slots := slots r @ [(name, next_slot r)],
             next_slot := next_slot r + 1, reg_count := reg_count r + 1\<rparr>))"
  using assms by (auto simp: register_def reg_inv_def split: option.splits)

lemma register_inv:
  assumes "reg_inv r" shows "reg_inv (snd (register r name))"
  using register_cases [OF assms, of name]
proof (elim disjE exE conjE)
  assume new: "name \<notin> dom (map_of (slots r))" "reg_count r < 256"
    "register r name = (Inr (next_slot r), r\<lparr>slots := slots r @ [(name, next_slot r)],
       next_slot := next_slot r + 1, reg_count := reg_count r + 1\<rparr>)"
  then show ?thesis using assms
    by (auto simp: reg_inv_def map_of_eq_None_iff domIff image_iff)
qed (use assms in auto)

lemma register_all_inv: "reg_inv r \<Longrightarrow> reg_inv (snd (register_all r names))"
proof (induction names arbitrary: r)
  case Nil
  then show ?case by simp
next
  case (Cons n ns)
  obtain x r' where rg: "register r n = (x, r')" by (cases "register r n")
  with register_inv [OF Cons.prems, of n] have "reg_inv r'" by simp
  with Cons.IH rg show ?case by (cases x) simp_all
qed

lemma reg_slot_index:
  assumes "reg_inv r" "map_of (slots r) c = Some s"
  shows "\<exists>i<length (slots r). slots r ! i = (c, word_of_nat i) \<and> unat s = i"
proof -
  from assms(2) have "(c, s) \<in> set (slots r)" by (rule map_of_SomeD)
  then obtain i where i: "i < length (slots r)" "slots r ! i = (c, s)" by (auto simp: in_set_conv_nth)
  have "map snd (slots r) ! i = (map word_of_nat [0..<length (slots r)] :: u8 list) ! i"
    using assms(1) unfolding reg_inv_def by metis
  with i have s: "s = word_of_nat i" by simp
  have "i < 256" using i(1) assms(1) by (simp add: reg_inv_def)
  then have "unat s = i" by (simp add: s unat_of_nat)
  with i s show ?thesis by blast
qed

definition reg_valid :: "capability_registry \<Rightarrow> string \<Rightarrow> bool" where
  "reg_valid r c \<longleftrightarrow> reg_inv r \<and> map_of (slots r) c \<noteq> None"

definition reg_pos :: "capability_registry \<Rightarrow> string \<Rightarrow> nat" where
  "reg_pos r c = (case map_of (slots r) c of None \<Rightarrow> 0 | Some s \<Rightarrow> unat s)"

definition reg_mask :: "capability_registry \<Rightarrow> string list \<Rightarrow> narrowing_matrix" where
  "reg_mask r cs = (case build_mask r cs of Inl _ \<Rightarrow> EMPTY | Inr m \<Rightarrow> m)"

lemma build_mask_loop_Inr:
  assumes "list_all (reg_valid r) cs"
  shows "build_mask_loop r cs m =
     Inr (fold (\<lambda>c m. or_bit m (fst (reg_pos r c div 8, reg_pos r c mod 8))
                                   (snd (reg_pos r c div 8, reg_pos r c mod 8))) cs m)"
  using assms
proof (induction cs arbitrary: m)
  case Nil
  then show ?case by simp
next
  case (Cons c cs)
  then obtain s where "map_of (slots r) c = Some s" by (auto simp: reg_valid_def)
  then show ?case using Cons by (simp add: reg_pos_def)
qed

lemma build_mask_spec:
  assumes "list_all (reg_valid r) cs"
  shows "\<exists>m. build_mask r cs = Inr m \<and> mask_wf m \<and> mask_bits m = reg_pos r ` set cs"
proof -
  let ?f = "\<lambda>c. (reg_pos r c div 8, reg_pos r c mod 8)"
  have "reg_pos r c < 256" for c
    using unsigned_less [where ?'b = 8] by (auto simp: reg_pos_def split: option.splits)
  then have b: "fst (?f c) < 32 \<and> snd (?f c) < 8" for c
    using div_less_iff_less_mult [of 8 "reg_pos r c" 32] by simp
  have "mask_bits \<lparr>mask = replicate 32 0\<rparr> = {}" using mask_bits_EMPTY by (simp only: EMPTY_def)
  moreover have "(\<lambda>c. 8 * fst (?f c) + snd (?f c)) = reg_pos r" by (rule ext) simp
  ultimately show ?thesis
    using fold_or_bit [of "replicate 32 0" cs ?f] b
    by (simp only: build_mask_def build_mask_loop_Inr [OF assms] bindR_simps from_raw_def
        length_replicate Un_empty_right simp_thms) blast
qed

lemma build_mask_unregistered:
  "c \<in> set cs \<Longrightarrow> map_of (slots r) c = None \<Longrightarrow> \<exists>msg. build_mask r cs = Inl (WireFormatError msg)"
proof -
  assume c: "c \<in> set cs" "map_of (slots r) c = None"
  have "\<exists>msg. build_mask_loop r cs m = Inl (WireFormatError msg)" for m
    using c(1)
  proof (induction cs arbitrary: m)
    case (Cons d ds)
    then show ?case using c(2) by (cases "map_of (slots r) d") auto
  qed simp
  then show ?thesis by (metis build_mask_def bindR_simps(1))
qed

interpretation registry: exact_encoding "reg_valid r" "reg_pos r" "reg_mask r" for r
proof unfold_locales
  fix cs assume v: "list_all (reg_valid r) cs"
  from build_mask_spec [OF v] show "mask_wf (reg_mask r cs)" by (auto simp: reg_mask_def)
  from build_mask_spec [OF v] show "mask_bits (reg_mask r cs) = reg_pos r ` set cs"
    by (auto simp: reg_mask_def)
next
  fix c d assume v: "reg_valid r c" "reg_valid r d" and eq: "reg_pos r c = reg_pos r d"
  then obtain s t where s: "map_of (slots r) c = Some s" "map_of (slots r) d = Some t"
    by (auto simp: reg_valid_def)
  have inv: "reg_inv r" using v(1) by (simp add: reg_valid_def)
  obtain i j where "slots r ! i = (c, word_of_nat i)" "unat s = i"
      "slots r ! j = (d, word_of_nat j)" "unat t = j"
    using reg_slot_index [OF inv s(1)] reg_slot_index [OF inv s(2)] by blast
  moreover have "unat s = unat t" using eq s by (simp add: reg_pos_def)
  ultimately show "c = d" by (metis fst_conv)
qed

lemma build_mask_Inr_valid:
  assumes "reg_inv r" "build_mask r cs = Inr m"
  shows "list_all (reg_valid r) cs \<and> m = reg_mask r cs"
proof -
  have "\<forall>c\<in>set cs. map_of (slots r) c \<noteq> None"
    using build_mask_unregistered [of _ cs r] assms(2) by (metis Inl_Inr_False)
  with assms show ?thesis by (auto simp: list_all_iff reg_valid_def reg_mask_def)
qed

text \<open>\<open>names_in_order\<close> returns the names in registration order.\<close>

lemma names_in_order_inv: "reg_inv r \<Longrightarrow> names_in_order r = map fst (slots r)"
proof -
  assume r: "reg_inv r"
  have "sorted (map (word_of_nat :: nat \<Rightarrow> u8) [0..<n])" if "n \<le> 256" for n
    unfolding sorted_iff_nth_mono
  proof (intro allI impI)
    fix i j assume "i \<le> j" "j < length (map (word_of_nat :: nat \<Rightarrow> u8) [0..<n])"
    then show "map (word_of_nat :: nat \<Rightarrow> u8) [0..<n] ! i \<le> map word_of_nat [0..<n] ! j"
      using that by (simp add: word_le_nat_alt unat_of_nat)
  qed
  with r have "sorted (map snd (slots r))" by (metis reg_inv_def)
  then show ?thesis by (simp add: names_in_order_def sort_key_id_if_sorted)
qed

lemma register_all_distinct:
  "reg_inv r \<Longrightarrow> distinct names \<Longrightarrow> set names \<inter> fst ` set (slots r) = {} \<Longrightarrow>
     reg_count r + length names \<le> 256 \<Longrightarrow>
     fst (register_all r names) = Inr () \<and>
     map fst (slots (snd (register_all r names))) = map fst (slots r) @ names"
proof (induction names arbitrary: r)
  case Nil
  then show ?case by simp
next
  case (Cons n ns)
  then have new: "n \<notin> dom (map_of (slots r))" "reg_count r < 256"
    by (auto simp: dom_map_of_conv_image_fst)
  let ?r = "r\<lparr>slots := slots r @ [(n, next_slot r)], next_slot := next_slot r + 1,
    reg_count := reg_count r + 1\<rparr>"
  have rg: "register r n = (Inr (next_slot r), ?r)"
    using register_cases [OF Cons.prems(1), of n] new by auto
  have "reg_inv ?r" using register_inv [OF Cons.prems(1), of n] by (simp add: rg)
  from Cons.IH [OF this] Cons.prems show ?case by (simp add: rg)
qed

end
