(* ===== verification/A1_Provenance.thy ===== *)
theory A1_Provenance
  imports A1_Delegation A1_Narrowing
begin

text \<open>
  \<open>src/provenance.rs\<close> and \<open>src/identity/receipt.rs\<close>: a reasoning trace is hashed into a perfect
  Merkle tree, padded with its last leaf; its root is bound to the fingerprint of a chain and
  attached to a receipt; one step can be disclosed with an inclusion proof that also fixes its
  position. The random trace identifier is the argument \<open>fresh\<close>.
\<close>

definition DOMAIN_PROVENANCE_LEAF :: string where "DOMAIN_PROVENANCE_LEAF = ''a1::provenance::leaf::v1''"
definition DOMAIN_PROVENANCE_ROOT :: string where "DOMAIN_PROVENANCE_ROOT = ''a1::provenance::root::v1''"
definition DOMAIN_PROVENANCE_META :: string where "DOMAIN_PROVENANCE_META = ''a1::provenance::meta::v1''"

section \<open>Steps\<close>

datatype reasoning_step_kind =
    Thought | ToolCall | Observation | Decision | PlanStep | FinalAction | Error | Retrieval

fun kind_as_u8 :: "reasoning_step_kind \<Rightarrow> u8" where
  "kind_as_u8 Thought = 1"
| "kind_as_u8 ToolCall = 2"
| "kind_as_u8 Observation = 3"
| "kind_as_u8 Decision = 4"
| "kind_as_u8 PlanStep = 5"
| "kind_as_u8 FinalAction = 6"
| "kind_as_u8 Error = 7"
| "kind_as_u8 Retrieval = 8"

fun kind_name :: "reasoning_step_kind \<Rightarrow> string" where
  "kind_name Thought = ''thought''"
| "kind_name ToolCall = ''tool_call''"
| "kind_name Observation = ''observation''"
| "kind_name Decision = ''decision''"
| "kind_name PlanStep = ''plan_step''"
| "kind_name FinalAction = ''final_action''"
| "kind_name Error = ''error''"
| "kind_name Retrieval = ''retrieval''"

record reasoning_step =
  step_index :: u32
  step_kind :: reasoning_step_kind
  content_hash :: bytes
  timestamp :: u64
  metadata_hash :: bytes

definition leaf_chunks :: "reasoning_step \<Rightarrow> bytes list" where
  "leaf_chunks s = [[CERT_VERSION], le32 (step_index s), [kind_as_u8 (step_kind s)], content_hash s,
     be64 (timestamp s), metadata_hash s]"

definition leaf_hash :: "ext \<Rightarrow> reasoning_step \<Rightarrow> bytes" where
  "leaf_hash E s = h_finalize E (h_updates (new_derive_key DOMAIN_PROVENANCE_LEAF) (leaf_chunks s))"

definition step_wf :: "reasoning_step \<Rightarrow> bool" where
  "step_wf s \<longleftrightarrow> length (content_hash s) = 32 \<and> length (metadata_hash s) = 32"

lemma kind_as_u8_inj: "kind_as_u8 a = kind_as_u8 b \<longleftrightarrow> a = b"
  by (cases a; cases b) simp_all

lemma leaf_chunks_inj:
  "step_wf s \<Longrightarrow> step_wf t \<Longrightarrow> concat (leaf_chunks s) = concat (leaf_chunks t) \<Longrightarrow> s = t"
  by (cases s; cases t) (simp add: leaf_chunks_def step_wf_def kind_as_u8_inj append_eq_append_conv)

section \<open>Roots and proofs\<close>

record provenance_root =
  step_count :: u32
  merkle_root :: bytes
  prov_trace_id :: bytes
  started_at_unix :: u64
  finalized_at_unix :: u64
  chain_binding :: bytes

definition binding_chunks :: "provenance_root \<Rightarrow> bytes \<Rightarrow> bytes list" where
  "binding_chunks r chain_fp = [le32 (step_count r), merkle_root r, prov_trace_id r,
     be64 (started_at_unix r), be64 (finalized_at_unix r), chain_fp]"

definition compute_chain_binding :: "ext \<Rightarrow> provenance_root \<Rightarrow> bytes \<Rightarrow> bytes" where
  "compute_chain_binding E r chain_fp =
     h_finalize E (h_updates (new_derive_key DOMAIN_PROVENANCE_ROOT) (binding_chunks r chain_fp))"

definition verify_chain_binding :: "ext \<Rightarrow> provenance_root \<Rightarrow> bytes \<Rightarrow> bool" where
  "verify_chain_binding E r chain_fp \<longleftrightarrow> compute_chain_binding E r chain_fp = chain_binding r"

text \<open>\<open>next_power_of_two\<close>: the loop doubles \<open>p\<close>, from 1, while it is below \<open>n\<close>.\<close>

function pow2_loop :: "nat \<Rightarrow> nat \<Rightarrow> nat" where
  "pow2_loop p n = (if 0 < p \<and> p < n then pow2_loop (2 * p) n else p)"
  by pat_completeness auto
termination by (relation "measure (\<lambda>(p, n). n - p)") auto

declare pow2_loop.simps [simp del]

definition next_power_of_two :: "nat \<Rightarrow> nat" where
  "next_power_of_two n = (if n \<le> 1 then 1 else pow2_loop 1 n)"

text \<open>\<open>usize::trailing_zeros\<close>\<close>

fun trailing_zeros :: "nat \<Rightarrow> nat" where
  "trailing_zeros n = (if n = 0 then 64 else if even n then Suc (trailing_zeros (n div 2)) else 0)"

declare trailing_zeros.simps [simp del]

record step_proof =
  sp_step :: reasoning_step
  sp_siblings :: "bytes list"
  sp_step_count :: u32

fun climb_path :: "ext \<Rightarrow> bytes list \<Rightarrow> nat \<Rightarrow> bytes \<Rightarrow> bytes" where
  "climb_path E [] idx current = current"
| "climb_path E (s # ss) idx current =
     climb_path E ss (idx div 2) (if even idx then merkle_node E current s else merkle_node E s current)"

definition step_proof_verify :: "ext \<Rightarrow> step_proof \<Rightarrow> provenance_root \<Rightarrow> bool" where
  "step_proof_verify E p r \<longleftrightarrow>
     (if step_index (sp_step p) \<ge> sp_step_count p then False
      else if sp_step_count p \<noteq> step_count r then False
      else
        let leaf_count = next_power_of_two (unat (sp_step_count p));
            expected_depth = trailing_zeros leaf_count in
        if length (sp_siblings p) \<noteq> expected_depth then False
        else climb_path E (sp_siblings p) (unat (step_index (sp_step p))) (leaf_hash E (sp_step p)) = merkle_root r)"

section \<open>Traces\<close>

record reasoning_trace =
  steps :: "reasoning_step list"
  trace_nonce :: bytes
  trace_started :: u64

definition trace_new :: "bytes \<Rightarrow> u64 \<Rightarrow> reasoning_trace" where
  "trace_new fresh started = \<lparr>steps = [], trace_nonce = fresh, trace_started = started\<rparr>"

definition record_hashed ::
  "reasoning_step_kind \<Rightarrow> bytes \<Rightarrow> bytes \<Rightarrow> u64 \<Rightarrow> reasoning_trace \<Rightarrow> reasoning_trace" where
  "record_hashed k ch mh ts t =
     t\<lparr>steps := steps t @ [\<lparr>step_index = word_of_nat (length (steps t)), step_kind = k,
        content_hash = ch, timestamp = ts, metadata_hash = mh\<rparr>]\<rparr>"

definition hash_metadata :: "ext \<Rightarrow> (string \<times> string) list \<Rightarrow> bytes" where
  "hash_metadata E pairs =
     h_finalize E (h_updates (new_derive_key DOMAIN_PROVENANCE_META)
       (le32 (word_of_nat (length pairs))
        # concat (map (\<lambda>(k, v). [le32 (word_of_nat (length k)), str_bytes k,
                                le32 (word_of_nat (length v)), str_bytes v]) pairs)))"

definition record_step :: "ext \<Rightarrow> reasoning_step_kind \<Rightarrow> bytes \<Rightarrow> u64 \<Rightarrow> reasoning_trace \<Rightarrow> reasoning_trace" where
  "record_step E k content ts t = record_hashed k (b3_hash E content) (replicate 32 0) ts t"

definition record_tool_call :: "ext \<Rightarrow> string \<Rightarrow> bytes \<Rightarrow> u64 \<Rightarrow> reasoning_trace \<Rightarrow> reasoning_trace" where
  "record_tool_call E tool input ts t =
     record_hashed ToolCall (b3_hash E input) (hash_metadata E [(''tool'', tool)]) ts t"

definition record_observation :: "ext \<Rightarrow> string \<Rightarrow> bytes \<Rightarrow> u64 \<Rightarrow> reasoning_trace \<Rightarrow> reasoning_trace" where
  "record_observation E tool output ts t =
     record_hashed Observation (b3_hash E output) (hash_metadata E [(''tool'', tool)]) ts t"

definition pair_up :: "ext \<Rightarrow> bytes list \<Rightarrow> bytes list" where
  "pair_up E layer = map (\<lambda>i. merkle_node E (layer ! (2 * i)) (layer ! (2 * i + 1))) [0..<length layer div 2]"

function fold_layers :: "ext \<Rightarrow> bytes list \<Rightarrow> bytes" where
  "fold_layers E layer = (if length layer > 1 then fold_layers E (pair_up E layer) else layer ! 0)"
  by pat_completeness auto
termination by (relation "measure (\<lambda>(E, layer). length layer)") (auto simp: pair_up_def)

declare fold_layers.simps [simp del]

definition padded_leaves :: "ext \<Rightarrow> reasoning_step list \<Rightarrow> bytes list" where
  "padded_leaves E ss =
     (let layer = map (leaf_hash E) ss; leaf_count = next_power_of_two (length ss)
      in take leaf_count layer @ replicate (leaf_count - length layer) (last layer))"

definition build_merkle_root :: "ext \<Rightarrow> reasoning_step list \<Rightarrow> bytes" where
  "build_merkle_root E ss = fold_layers E (padded_leaves E ss)"

definition finalize_trace :: "ext \<Rightarrow> u64 \<Rightarrow> bytes \<Rightarrow> reasoning_trace \<Rightarrow> a1_error + provenance_root" where
  "finalize_trace E finalized chain_fp t =
     (if steps t = [] then Inl EmptyTree
      else
        let root = \<lparr>step_count = word_of_nat (length (steps t)),
                    merkle_root = build_merkle_root E (steps t), prov_trace_id = trace_nonce t,
                    started_at_unix = trace_started t, finalized_at_unix = finalized,
                    chain_binding = replicate 32 0\<rparr>
        in Inr (root\<lparr>chain_binding := compute_chain_binding E root chain_fp\<rparr>))"

fun sibling_path :: "ext \<Rightarrow> nat \<Rightarrow> bytes list \<Rightarrow> nat \<Rightarrow> bytes list" where
  "sibling_path E 0 layer idx = []"
| "sibling_path E (Suc d) layer idx =
     layer ! (if even idx then idx + 1 else idx - 1) # sibling_path E d (pair_up E layer) (idx div 2)"

definition trace_step_proof :: "ext \<Rightarrow> reasoning_trace \<Rightarrow> nat \<Rightarrow> step_proof option" where
  "trace_step_proof E t index =
     (if index \<ge> length (steps t) then None
      else
        let leaf_count = next_power_of_two (length (steps t)); depth = trailing_zeros leaf_count
        in Some \<lparr>sp_step = steps t ! index,
                 sp_siblings = sibling_path E depth (padded_leaves E (steps t)) index,
                 sp_step_count = word_of_nat (length (steps t))\<rparr>)"


subsection \<open>The shape of the tree\<close>

lemma pow2_loop_power: "0 < p \<Longrightarrow> \<exists>d. pow2_loop p n = p * 2 ^ d \<and> n \<le> p * 2 ^ d"
proof (induction p n rule: pow2_loop.induct)
  case (1 p n)
  show ?case
  proof (cases "p < n")
    case True
    with 1 obtain d where "pow2_loop (2 * p) n = 2 * p * 2 ^ d" "n \<le> 2 * p * 2 ^ d" by auto
    with True 1(2) show ?thesis
      by (intro exI [of _ "Suc d"]) (simp add: pow2_loop.simps [of p n] mult.assoc mult.left_commute)
  next
    case False
    then show ?thesis by (intro exI [of _ 0]) (simp add: pow2_loop.simps [of p n])
  qed
qed

lemma next_power_of_two_power: "\<exists>d. next_power_of_two n = 2 ^ d \<and> n \<le> 2 ^ d"
proof (cases "n \<le> 1")
  case True
  then show ?thesis by (intro exI [of _ 0]) (simp add: next_power_of_two_def)
next
  case False
  then show ?thesis using pow2_loop_power [of 1 n] by (simp add: next_power_of_two_def)
qed

lemma trailing_zeros_power: "trailing_zeros (2 ^ d) = d"
  by (induction d) (simp_all add: trailing_zeros.simps [of "Suc 0"] trailing_zeros.simps [of "2 * n" for n])

lemma length_pair_up: "length (pair_up E layer) = length layer div 2"
  by (simp add: pair_up_def)

lemma pair_up_nth:
  "length layer = 2 ^ Suc d \<Longrightarrow> i < 2 ^ d \<Longrightarrow>
     pair_up E layer ! i = merkle_node E (layer ! (2 * i)) (layer ! (2 * i + 1))"
  by (simp add: pair_up_def)

lemma fold_layers_Suc: "length layer = 2 ^ Suc d \<Longrightarrow> fold_layers E layer = fold_layers E (pair_up E layer)"
proof -
  assume l: "length layer = 2 ^ Suc d"
  have "(1 :: nat) \<le> 2 ^ d" by simp
  with l have "length layer > 1" unfolding power_Suc by linarith
  then show ?thesis by (subst fold_layers.simps) simp
qed

lemma fold_layers_0: "length layer = 1 \<Longrightarrow> fold_layers E layer = layer ! 0"
  by (subst fold_layers.simps) simp

lemma index_parity:
  fixes idx :: nat
  shows "even idx \<Longrightarrow> 2 * (idx div 2) = idx" "odd idx \<Longrightarrow> 2 * (idx div 2) = idx - 1"
    "odd idx \<Longrightarrow> idx - 1 + 1 = idx"
  by presburger+

text \<open>Climbing from a leaf with its siblings reaches the root.\<close>

lemma climb_sibling_path:
  "length layer = 2 ^ d \<Longrightarrow> idx < 2 ^ d \<Longrightarrow>
     climb_path E (sibling_path E d layer idx) idx (layer ! idx) = fold_layers E layer"
proof (induction d arbitrary: layer idx)
  case 0
  then show ?case by (simp add: fold_layers_0)
next
  case (Suc d)
  have i: "idx div 2 < 2 ^ d" using Suc.prems(2) by (simp add: less_mult_imp_div_less mult.commute)
  have l: "length (pair_up E layer) = 2 ^ d" using Suc.prems(1) by (simp add: length_pair_up)
  have "climb_path E (sibling_path E (Suc d) layer idx) idx (layer ! idx)
      = climb_path E (sibling_path E d (pair_up E layer) (idx div 2)) (idx div 2) (pair_up E layer ! (idx div 2))"
    using pair_up_nth [OF Suc.prems(1) i, of E] index_parity [of idx] by (cases "even idx") simp_all
  also have "\<dots> = fold_layers E (pair_up E layer)" by (rule Suc.IH [OF l i])
  finally show ?case by (simp only: fold_layers_Suc [OF Suc.prems(1)])
qed

text \<open>The pairs hashed on the way up, and in the whole tree.\<close>

fun climb_pairs :: "ext \<Rightarrow> bytes list \<Rightarrow> nat \<Rightarrow> bytes \<Rightarrow> (bytes \<times> bytes) list" where
  "climb_pairs E [] idx current = []"
| "climb_pairs E (s # ss) idx current =
     (let pr = (if even idx then (current, s) else (s, current))
      in pr # climb_pairs E ss (idx div 2) (node_of E pr))"

fun tree_hash_pairs :: "ext \<Rightarrow> nat \<Rightarrow> bytes list \<Rightarrow> (bytes \<times> bytes) list" where
  "tree_hash_pairs E 0 layer = []"
| "tree_hash_pairs E (Suc d) layer =
     map (\<lambda>i. (layer ! (2 * i), layer ! (2 * i + 1))) [0..<length layer div 2] @ tree_hash_pairs E d (pair_up E layer)"

lemma climb_path_sound:
  assumes "length layer = 2 ^ d" "idx < 2 ^ d" "length ss = d"
    and "inj_on (node_of E) (set (climb_pairs E ss idx x) \<union> set (tree_hash_pairs E d layer))"
    and "climb_path E ss idx x = fold_layers E layer"
  shows "x = layer ! idx"
  using assms
proof (induction d arbitrary: layer idx ss x)
  case 0
  then show ?case by (simp add: fold_layers_0)
next
  case (Suc d)
  then obtain s ss' where ss: "ss = s # ss'" "length ss' = d" by (cases ss) auto
  let ?pr = "if even idx then (x, s) else (s, x)"
  let ?q = "(layer ! (2 * (idx div 2)), layer ! (2 * (idx div 2) + 1))"
  have i: "idx div 2 < 2 ^ d" using Suc.prems(2) by (simp add: less_mult_imp_div_less mult.commute)
  have l: "length (pair_up E layer) = 2 ^ d" using Suc.prems(1) by (simp add: length_pair_up)
  have q: "?q \<in> set (tree_hash_pairs E (Suc d) layer)" using Suc.prems(1) i by auto
  have pr: "?pr \<in> set (climb_pairs E ss idx x)" by (simp add: ss Let_def)
  have inj: "inj_on (node_of E) (set (climb_pairs E ss' (idx div 2) (node_of E ?pr))
      \<union> set (tree_hash_pairs E d (pair_up E layer)))"
    using Suc.prems(4) by (rule inj_on_subset) (auto simp: ss Let_def)
  have up: "climb_path E ss' (idx div 2) (node_of E ?pr) = fold_layers E (pair_up E layer)"
    using Suc.prems(5) unfolding fold_layers_Suc [OF Suc.prems(1)] by (cases "even idx") (simp_all add: ss node_of_def)
  have "node_of E ?pr = pair_up E layer ! (idx div 2)" by (rule Suc.IH [OF l i ss(2) inj up])
  also have "\<dots> = node_of E ?q" using pair_up_nth [OF Suc.prems(1) i, of E] by (simp add: node_of_def)
  finally have "?pr = ?q" using inj_onD [OF Suc.prems(4)] pr q by blast
  then show ?case using index_parity [of idx] by (cases "even idx") auto
qed

lemma length_padded_leaves: "length (padded_leaves E ss) = next_power_of_two (length ss)"
  using next_power_of_two_power [of "length ss"] by (auto simp: padded_leaves_def Let_def)

lemma padded_leaves_nth: "i < length ss \<Longrightarrow> padded_leaves E ss ! i = leaf_hash E (ss ! i)"
  using next_power_of_two_power [of "length ss"] by (auto simp: padded_leaves_def Let_def nth_append)

subsection \<open>Traces are numbered consecutively\<close>

definition trace_wf :: "reasoning_trace \<Rightarrow> bool" where
  "trace_wf t \<longleftrightarrow> (\<forall>i<length (steps t). step_index (steps t ! i) = word_of_nat i \<and> step_wf (steps t ! i))"

lemma trace_new_wf: "trace_wf (trace_new fresh ts)"
  by (simp add: trace_wf_def trace_new_def)

lemma record_hashed_wf:
  "trace_wf t \<Longrightarrow> length ch = 32 \<Longrightarrow> length mh = 32 \<Longrightarrow> trace_wf (record_hashed k ch mh ts t)"
  by (auto simp: trace_wf_def record_hashed_def nth_append less_Suc_eq step_wf_def)

text \<open>Every step of a finalized trace has a proof that verifies, whatever the chain it is bound to.\<close>

lemma finalize_trace_Inr:
  "finalize_trace E at fp t = Inr r \<Longrightarrow> steps t \<noteq> [] \<and> step_count r = word_of_nat (length (steps t))
     \<and> merkle_root r = build_merkle_root E (steps t) \<and> prov_trace_id r = trace_nonce t
     \<and> started_at_unix r = trace_started t \<and> finalized_at_unix r = at
     \<and> verify_chain_binding E r fp"
  by (auto simp: finalize_trace_def Let_def verify_chain_binding_def compute_chain_binding_def
      binding_chunks_def split: if_splits)

lemma step_proof_complete:
  assumes "trace_wf t" "length (steps t) < 2 ^ 32" "i < length (steps t)" "finalize_trace E at fp t = Inr r"
  shows "\<exists>p. trace_step_proof E t i = Some p \<and> sp_step p = steps t ! i \<and> step_proof_verify E p r"
proof -
  let ?n = "length (steps t)"
  obtain d where d: "next_power_of_two ?n = 2 ^ d" "?n \<le> 2 ^ d" using next_power_of_two_power by blast
  let ?p = "\<lparr>sp_step = steps t ! i, sp_siblings = sibling_path E d (padded_leaves E (steps t)) i,
     sp_step_count = word_of_nat ?n\<rparr> :: step_proof"
  have n: "unat (word_of_nat ?n :: u32) = ?n" "unat (word_of_nat i :: u32) = i"
    using assms(2,3) by (simp_all add: unat_of_nat)
  have len: "length (sibling_path E k l j) = k" for k l j by (induction k arbitrary: l j) simp_all
  have "climb_path E (sibling_path E d (padded_leaves E (steps t)) i) i (padded_leaves E (steps t) ! i)
      = fold_layers E (padded_leaves E (steps t))"
    using d assms(3) by (intro climb_sibling_path) (simp_all add: length_padded_leaves)
  moreover have "step_index (steps t ! i) = word_of_nat i" using assms(1,3) by (simp add: trace_wf_def)
  moreover have "(word_of_nat i :: u32) < word_of_nat ?n" using n assms(3) by (simp add: word_less_nat_alt)
  ultimately have "step_proof_verify E ?p r"
    using finalize_trace_Inr [OF assms(4)] assms(3)
    by (simp add: step_proof_verify_def Let_def n d trailing_zeros_power len padded_leaves_nth
        build_merkle_root_def not_le)
  moreover have "trace_step_proof E t i = Some ?p"
    using assms(3) by (simp add: trace_step_proof_def Let_def d trailing_zeros_power)
  ultimately show ?thesis by (intro exI [of _ ?p]) simp
qed

text \<open>
  A proof that verifies shows the step recorded at the position it claims, when the hash does
  not collide on the pairs and the two leaves involved.
\<close>

definition step_proof_trust :: "ext \<Rightarrow> reasoning_trace \<Rightarrow> step_proof \<Rightarrow> bool" where
  "step_proof_trust E t p \<longleftrightarrow>
     (let idx = unat (step_index (sp_step p)); n = length (steps t) in
      inj_on (node_of E) (set (climb_pairs E (sp_siblings p) idx (leaf_hash E (sp_step p)))
        \<union> set (tree_hash_pairs E (trailing_zeros (next_power_of_two n)) (padded_leaves E (steps t))))
      \<and> (idx < n \<longrightarrow> leaf_hash E (sp_step p) = leaf_hash E (steps t ! idx) \<longrightarrow>
           concat (leaf_chunks (sp_step p)) = concat (leaf_chunks (steps t ! idx))))"

lemma step_proof_sound:
  assumes "trace_wf t" "length (steps t) < 2 ^ 32" "finalize_trace E at fp t = Inr r"
    and "step_wf (sp_step p)" "step_proof_trust E t p" "step_proof_verify E p r"
  shows "unat (step_index (sp_step p)) < length (steps t)
    \<and> sp_step p = steps t ! unat (step_index (sp_step p))"
proof -
  let ?n = "length (steps t)" and ?i = "unat (step_index (sp_step p))"
  obtain d where d: "next_power_of_two ?n = 2 ^ d" "?n \<le> 2 ^ d" using next_power_of_two_power by blast
  have n: "unat (word_of_nat ?n :: u32) = ?n" using assms(2) by (simp add: unat_of_nat)
  note r = finalize_trace_Inr [OF assms(3)]
  from assms(6) r have c: "sp_step_count p = word_of_nat ?n" and i: "step_index (sp_step p) < sp_step_count p"
    by (auto simp: step_proof_verify_def not_le split: if_splits)
  from i c n have lt: "?i < ?n" by (simp add: word_less_nat_alt)
  from assms(6) r i c have v: "length (sp_siblings p) = d"
    "climb_path E (sp_siblings p) ?i (leaf_hash E (sp_step p)) = fold_layers E (padded_leaves E (steps t))"
    by (auto simp: step_proof_verify_def Let_def n d trailing_zeros_power build_merkle_root_def split: if_splits)
  have "leaf_hash E (sp_step p) = padded_leaves E (steps t) ! ?i"
  proof (rule climb_path_sound [OF _ _ v(1) _ v(2)])
    show "length (padded_leaves E (steps t)) = 2 ^ d" by (simp add: length_padded_leaves d)
    show "?i < 2 ^ d" using lt d(2) by simp
    show "inj_on (node_of E) (set (climb_pairs E (sp_siblings p) ?i (leaf_hash E (sp_step p)))
        \<union> set (tree_hash_pairs E d (padded_leaves E (steps t))))"
      using assms(5) by (simp add: step_proof_trust_def Let_def d trailing_zeros_power)
  qed
  then have "leaf_hash E (sp_step p) = leaf_hash E (steps t ! ?i)" using lt by (simp add: padded_leaves_nth)
  with assms(5) lt have "concat (leaf_chunks (sp_step p)) = concat (leaf_chunks (steps t ! ?i))"
    by (simp add: step_proof_trust_def Let_def)
  moreover have "step_wf (steps t ! ?i)" using assms(1) lt by (simp add: trace_wf_def)
  ultimately show ?thesis using lt leaf_chunks_inj assms(4) by blast
qed

end
