(* ===== verification/A1_Passport.thy ===== *)
theory A1_Passport
  imports A1_Provenance A1_Chain
begin

text \<open>
  \<open>src/passport/mod.rs\<close> and \<open>src/identity/receipt.rs\<close>: a passport is a capability list with its
  mask and a self-signed root certificate; it issues sub-certificates for a subset of its
  capabilities, and \<open>guard\<close> checks the mask before it authorizes a chain. Panics of the
  extension map (\<open>CertExtensions::set\<close>) are \<open>None\<close>. JSON itself is third-party: saving and loading
  are the conversions to and from the record that is serialized.
\<close>

section \<open>Provable receipts\<close>

record provable_receipt =
  inner :: verification_receipt
  passport_namespace :: string
  narrowing_commitment :: bytes
  capability_mask_hex :: string
  provenance :: "provenance_root option"

definition provable_receipt_new :: "ext \<Rightarrow> verification_receipt \<Rightarrow> string \<Rightarrow> narrowing_matrix \<Rightarrow> provable_receipt" where
  "provable_receipt_new E rc ns m = \<lparr>inner = rc, passport_namespace = ns,
     narrowing_commitment = mask_commitment E m, capability_mask_hex = mask_to_hex E m, provenance = None\<rparr>"

definition provable_fingerprint_hex :: "ext \<Rightarrow> provable_receipt \<Rightarrow> string" where
  "provable_fingerprint_hex E r = receipt_fingerprint_hex E (inner r)"

definition verify_commitment :: "ext \<Rightarrow> provable_receipt \<Rightarrow> bool" where
  "verify_commitment E r =
     (case mask_from_hex E (capability_mask_hex r) of
        Inr m \<Rightarrow> mask_commitment E m = narrowing_commitment r
      | Inl _ \<Rightarrow> False)"

definition with_provenance :: "provenance_root \<Rightarrow> provable_receipt \<Rightarrow> provable_receipt" where
  "with_provenance root r = r\<lparr>provenance := Some root\<rparr>"

definition bind_reasoning_trace ::
  "ext \<Rightarrow> reasoning_trace \<Rightarrow> u64 \<Rightarrow> provable_receipt \<Rightarrow> a1_error + provable_receipt" where
  "bind_reasoning_trace E t at r =
     bindR (finalize_trace E at (chain_fingerprint (inner r)) t) (\<lambda>root. Inr (with_provenance root r))"

definition verify_provenance_step :: "ext \<Rightarrow> step_proof \<Rightarrow> provable_receipt \<Rightarrow> bool" where
  "verify_provenance_step E p r =
     (case provenance r of Some root \<Rightarrow> step_proof_verify E p root | None \<Rightarrow> False)"

definition has_provenance :: "provable_receipt \<Rightarrow> bool" where
  "has_provenance r \<longleftrightarrow> provenance r \<noteq> None"

lemma verify_commitment_new:
  "hex_ok E \<Longrightarrow> mask_wf m \<Longrightarrow> verify_commitment E (provable_receipt_new E rc ns m)"
  by (simp add: verify_commitment_def provable_receipt_new_def mask_hex_roundtrip)

text \<open>A trace bound to a receipt: each of its steps verifies against that receipt, and the root carries the receipt's own fingerprint.\<close>

lemma bind_trace_steps:
  assumes "trace_wf t" "length (steps t) < 2 ^ 32" "i < length (steps t)"
    and "bind_reasoning_trace E t at r = Inr r'"
  shows "\<exists>p root. trace_step_proof E t i = Some p \<and> sp_step p = steps t ! i \<and> verify_provenance_step E p r'
    \<and> provenance r' = Some root \<and> verify_chain_binding E root (chain_fingerprint (inner r'))"
proof -
  from assms(4) obtain root where root: "finalize_trace E at (chain_fingerprint (inner r)) t = Inr root"
    "r' = with_provenance root r"
    by (auto simp: bind_reasoning_trace_def result_simps)
  from step_proof_complete [OF assms(1-3) root(1)] finalize_trace_Inr [OF root(1)] root(2)
  show ?thesis by (auto simp: verify_provenance_step_def with_provenance_def)
qed

section \<open>Passports\<close>

record dyolo_passport =
  pp_namespace :: string
  capability_mask :: narrowing_matrix
  pp_capabilities :: "string list"
  pp_cert :: delegation_cert

definition cap_hashes :: "ext \<Rightarrow> string list \<Rightarrow> a1_error + bytes list" where
  "cap_hashes E caps = traverse (\<lambda>c. bindR (intent_new c) (\<lambda>i. Inr (intent_hash_of E i))) caps"

definition passport_ext :: "ext \<Rightarrow> string \<Rightarrow> narrowing_matrix \<Rightarrow> string list \<Rightarrow> cert_extensions option" where
  "passport_ext E ns m caps =
     Option.bind (ext_set ''dyolo.passport.v'' (ExtU64 1) extensions_new) (\<lambda>x.
     Option.bind (ext_set ''dyolo.passport.namespace'' (ExtStr ns) x) (\<lambda>x.
     Option.bind (ext_set ''dyolo.passport.mask'' (ExtStr (mask_to_hex E m)) x) (\<lambda>x.
     ext_set ''dyolo.passport.caps'' (ExtStrings caps) x)))"

definition issue_inner ::
  "ext \<Rightarrow> bytes \<Rightarrow> string \<Rightarrow> string list \<Rightarrow> u64 \<Rightarrow> signer \<Rightarrow> u64 \<Rightarrow> (a1_error + dyolo_passport) option" where
  "issue_inner E fresh ns caps ttl signer now =
     (let m = from_capabilities E caps in
      case bindR (cap_hashes E caps) (tree_build E) of
        Inl e \<Rightarrow> Some (Inl e)
      | Inr tree \<Rightarrow>
          (let expiry = sat_add now ttl in
           case passport_ext E ns m caps of
             None \<Rightarrow> None
           | Some x \<Rightarrow> Some (bindR
               (builder_build E signer (builder_extensions x (builder_max_depth 255
                  (builder_new fresh (verifying_key signer) (tree_root tree) now expiry))))
               (\<lambda>cert. Inr \<lparr>pp_namespace = ns, capability_mask = m, pp_capabilities = caps, pp_cert = cert\<rparr>))))"

definition passport_issue ::
  "ext \<Rightarrow> bytes \<Rightarrow> string \<Rightarrow> string list \<Rightarrow> u64 \<Rightarrow> signer \<Rightarrow> u64 \<Rightarrow> (a1_error + dyolo_passport) option" where
  "passport_issue E fresh ns caps ttl signer now = issue_inner E fresh ns caps ttl signer now"

definition issue_from_csv ::
  "ext \<Rightarrow> bytes \<Rightarrow> string \<Rightarrow> string \<Rightarrow> u64 \<Rightarrow> signer \<Rightarrow> u64 \<Rightarrow> (a1_error + dyolo_passport) option" where
  "issue_from_csv E fresh ns csv ttl signer now = issue_inner E fresh ns (csv_items csv) ttl signer now"

definition passport_verifying_key :: "dyolo_passport \<Rightarrow> bytes" where
  "passport_verifying_key p = delegator_pk (pp_cert p)"

definition capability_tree :: "ext \<Rightarrow> dyolo_passport \<Rightarrow> a1_error + intent_tree" where
  "capability_tree E p = bindR (cap_hashes E (pp_capabilities p)) (tree_build E)"

definition passport_scope_root :: "ext \<Rightarrow> dyolo_passport \<Rightarrow> a1_error + bytes" where
  "passport_scope_root E p = bindR (capability_tree E p) (\<lambda>t. Inr (tree_root t))"

definition passport_new_chain :: "dyolo_passport \<Rightarrow> a1_error + dyolo_chain" where
  "passport_new_chain p =
     Inr ((chain_new (delegator_pk (pp_cert p)) (scope_root (pp_cert p)))\<lparr>namespace := Some (pp_namespace p)\<rparr>)"

definition sub_ext :: "ext \<Rightarrow> string \<Rightarrow> narrowing_matrix \<Rightarrow> cert_extensions option" where
  "sub_ext E ns m =
     Option.bind (ext_set ''dyolo.passport.v'' (ExtU64 1) extensions_new) (\<lambda>x.
     Option.bind (ext_set ''dyolo.passport.namespace'' (ExtStr ns) x) (\<lambda>x.
     ext_set ''dyolo.passport.mask'' (ExtStr (mask_to_hex E m)) x))"

definition issue_sub ::
  "ext \<Rightarrow> bytes \<Rightarrow> dyolo_passport \<Rightarrow> bytes \<Rightarrow> string list \<Rightarrow> u64 \<Rightarrow> signer \<Rightarrow> u64
     \<Rightarrow> (a1_error + delegation_cert) option" where
  "issue_sub E fresh p delegate caps ttl signer now =
     (let requested = from_capabilities E caps in
      case bindR (enforce_narrowing requested (capability_mask p)) (\<lambda>_.
           bindR (capability_tree E p) (\<lambda>parent_tree.
           bindR (cap_hashes E caps) (\<lambda>sub_hashes.
           bindR (sub_scope_build parent_tree sub_hashes) (\<lambda>scope_proof.
           bindR (tree_build E sub_hashes) (\<lambda>sub_tree. Inr (scope_proof, tree_root sub_tree)))))) of
        Inl e \<Rightarrow> Some (Inl e)
      | Inr (pf, sub_scope_root) \<Rightarrow>
          (let expiry = sat_add now ttl in
           case sub_ext E (pp_namespace p) requested of
             None \<Rightarrow> None
           | Some x \<Rightarrow> Some (builder_build E signer (builder_extensions x (builder_scope_proof pf
               (builder_new fresh delegate sub_scope_root now expiry))))))"

definition issue_sub_from_csv ::
  "ext \<Rightarrow> bytes \<Rightarrow> dyolo_passport \<Rightarrow> bytes \<Rightarrow> string \<Rightarrow> u64 \<Rightarrow> signer \<Rightarrow> u64
     \<Rightarrow> (a1_error + delegation_cert) option" where
  "issue_sub_from_csv E fresh p delegate csv ttl signer now =
     issue_sub E fresh p delegate (csv_items csv) ttl signer now"

text \<open>The two gates of \<open>guard\<close>: the mask, then the chain.\<close>

definition guard ::
  "ext \<Rightarrow> bytes \<Rightarrow> dyolo_passport \<Rightarrow> dyolo_chain \<Rightarrow> bytes \<Rightarrow> intent \<Rightarrow> merkle_proof \<Rightarrow> u64 \<Rightarrow> u64
     \<Rightarrow> (bytes \<Rightarrow> storage_error + bool) \<Rightarrow> 'n consumer \<Rightarrow> 'n \<Rightarrow> (a1_error + provable_receipt) \<times> 'n" where
  "guard E rnd p chain agent_pk i pf now now' is_rev consume s =
     (let requested = from_capabilities E [action i] in
      case enforce_narrowing requested (capability_mask p) of
        Inl e \<Rightarrow> (Inl e, s)
      | Inr _ \<Rightarrow>
          (case authorize E rnd agent_pk (intent_hash_of E i) pf now now' is_rev consume chain s of
             (Inl e, s') \<Rightarrow> (Inl e, s')
           | (Inr rc, s') \<Rightarrow> (Inr (provable_receipt_new E rc (pp_namespace p) (capability_mask p)), s')))"

definition guard_local ::
  "ext \<Rightarrow> bytes \<Rightarrow> dyolo_passport \<Rightarrow> dyolo_chain \<Rightarrow> bytes \<Rightarrow> intent \<Rightarrow> u64 \<Rightarrow> u64 \<Rightarrow> u64
     \<Rightarrow> a1_error + provable_receipt" where
  "guard_local E rnd p chain agent_pk i now now' t =
     (let requested = from_capabilities E [action i] in
      case enforce_narrowing requested (capability_mask p) of
        Inl e \<Rightarrow> Inl e
      | Inr _ \<Rightarrow>
          (case fst (authorize E rnd agent_pk (intent_hash_of E i) proof_default now now'
                       (mem_is_revoked mem_rev_new) (mem_try_consume_batch t) chain mem_nonce_new) of
             Inl e \<Rightarrow> Inl e
           | Inr rc \<Rightarrow> Inr (provable_receipt_new E rc (pp_namespace p) (capability_mask p))))"

section \<open>The passport file\<close>

record passport_file =
  pf_version :: u8
  pf_namespace :: string
  pf_mask_hex :: string
  pf_capabilities :: "string list"
  pf_cert :: delegation_cert
  pf_magic :: string

definition default_dyolo_magic :: string where "default_dyolo_magic = ''dyolo_v2.8.0''"

definition passport_to_file :: "ext \<Rightarrow> dyolo_passport \<Rightarrow> passport_file" where
  "passport_to_file E p = \<lparr>pf_version = 1, pf_namespace = pp_namespace p,
     pf_mask_hex = mask_to_hex E (capability_mask p), pf_capabilities = pp_capabilities p,
     pf_cert = pp_cert p, pf_magic = default_dyolo_magic\<rparr>"

definition passport_from_file :: "ext \<Rightarrow> passport_file \<Rightarrow> a1_error + dyolo_passport" where
  "passport_from_file E f =
     bindR (mask_from_hex E (pf_mask_hex f)) (\<lambda>m.
       Inr \<lparr>pp_namespace = pf_namespace f, capability_mask = m, pp_capabilities = pf_capabilities f,
            pp_cert = pf_cert f\<rparr>)"

lemma passport_file_roundtrip:
  "hex_ok E \<Longrightarrow> mask_wf (capability_mask p) \<Longrightarrow> passport_from_file E (passport_to_file E p) = Inr p"
  by (simp add: passport_from_file_def passport_to_file_def mask_hex_roundtrip)


section \<open>What issuance guarantees\<close>

definition cap_hash :: "ext \<Rightarrow> string \<Rightarrow> bytes" where
  "cap_hash E c = intent_hash_of E \<lparr>action = c, params = []\<rparr>"

definition cap_ok :: "string \<Rightarrow> bool" where
  "cap_ok c \<longleftrightarrow> c \<noteq> [] \<and> length c \<le> MAX_ACTION_LEN"

lemma cap_hashes_Inr: "cap_hashes E caps = Inr hs \<longleftrightarrow> list_all cap_ok caps \<and> hs = map (cap_hash E) caps"
proof -
  have one: "bindR (intent_new c) (\<lambda>i. Inr (intent_hash_of E i)) = Inr h \<longleftrightarrow> cap_ok c \<and> h = cap_hash E c" for c h
    by (auto simp: result_simps intent_new_Inr_iff cap_ok_def cap_hash_def)
  show ?thesis
    by (auto simp: cap_hashes_def traverse_Inr_iff one list_all2_conv_all_nth list_all_length list_eq_iff_nth_eq)
qed

text \<open>What an issued passport is.\<close>

definition passport_wf :: "ext \<Rightarrow> dyolo_passport \<Rightarrow> bool" where
  "passport_wf E p \<longleftrightarrow> list_all cap_ok (pp_capabilities p)
     \<and> capability_mask p = from_capabilities E (pp_capabilities p)
     \<and> (\<exists>t. tree_build E (map (cap_hash E) (pp_capabilities p)) = Inr t \<and> scope_root (pp_cert p) = tree_root t)"

lemma issue_inner_Inr:
  assumes "issue_inner E fresh ns caps ttl S now = Some (Inr p)"
  shows "passport_wf E p" "pp_capabilities p = caps" "pp_namespace p = ns"
    "delegator_pk (pp_cert p) = verifying_key S" "delegate_pk (pp_cert p) = verifying_key S"
    "issued_at (pp_cert p) = now" "expiration_unix (pp_cert p) = sat_add now ttl"
    "max_depth (pp_cert p) = 255" "signer_ok E S \<Longrightarrow> verify_signature E (pp_cert p)"
proof -
  from assms obtain t x where t: "bindR (cap_hashes E caps) (tree_build E) = Inr t"
    and b: "builder_build E S (builder_extensions x (builder_max_depth 255
         (builder_new fresh (verifying_key S) (tree_root t) now (sat_add now ttl)))) = Inr (pp_cert p)"
    and p: "pp_namespace p = ns" "capability_mask p = from_capabilities E caps" "pp_capabilities p = caps"
    unfolding issue_inner_def Let_def
    by (auto simp: result_simps split: sum.splits option.splits)
  from t have "list_all cap_ok caps" "tree_build E (map (cap_hash E) caps) = Inr t"
    by (auto simp: result_simps cap_hashes_Inr)
  with b p show "passport_wf E p" "pp_capabilities p = caps" "pp_namespace p = ns"
    "delegator_pk (pp_cert p) = verifying_key S" "delegate_pk (pp_cert p) = verifying_key S"
    "issued_at (pp_cert p) = now" "expiration_unix (pp_cert p) = sat_add now ttl"
    "max_depth (pp_cert p) = 255" "signer_ok E S \<Longrightarrow> verify_signature E (pp_cert p)"
    by (auto simp: passport_wf_def builder_build_Inr_iff builder_extensions_def builder_max_depth_def
        builder_new_def cert_issue_verifies)
qed

text \<open>
  A sub-certificate is issued only for capabilities the passport has in its tree, and its scope
  derives from the passport's. The mask test before it cannot refuse a subset.
\<close>

lemma issue_sub_Inr:
  assumes p: "passport_wf E p" and s: "issue_sub E fresh p delegate caps ttl S now = Some (Inr c)"
  shows "cap_hash E ` set caps \<subseteq> cap_hash E ` set (pp_capabilities p)" "list_all cap_ok caps"
    "\<exists>u. tree_build E (map (cap_hash E) caps) = Inr u \<and> scope_root c = tree_root u"
    "verify_and_derive_root E (scope_proof c) (scope_root (pp_cert p)) = Inr (scope_root c)"
    "subset_intents (scope_proof c) = map (cap_hash E) caps"
    "delegator_pk c = verifying_key S" "delegate_pk c = delegate" "nonce c = fresh"
    "version c = CERT_VERSION"
    "issued_at c = now" "expiration_unix c = sat_add now ttl" "signer_ok E S \<Longrightarrow> verify_signature E c"
proof -
  let ?r = "from_capabilities E caps"
  from s obtain pf root x where
    e: "bindR (enforce_narrowing ?r (capability_mask p)) (\<lambda>_.
           bindR (capability_tree E p) (\<lambda>parent_tree.
           bindR (cap_hashes E caps) (\<lambda>sub_hashes.
           bindR (sub_scope_build parent_tree sub_hashes) (\<lambda>scope_proof.
           bindR (tree_build E sub_hashes) (\<lambda>sub_tree. Inr (scope_proof, tree_root sub_tree)))))) = Inr (pf, root)"
    and b: "builder_build E S (builder_extensions x (builder_scope_proof pf
        (builder_new fresh delegate root now (sat_add now ttl)))) = Inr c"
    unfolding issue_sub_def Let_def by (auto split: sum.splits prod.splits option.splits)
  from e obtain t hs u where t: "capability_tree E p = Inr t" and hs: "cap_hashes E caps = Inr hs"
    and pf: "sub_scope_build t hs = Inr pf" and u: "tree_build E hs = Inr u" "root = tree_root u"
    by (auto simp: result_simps)
  have hs': "hs = map (cap_hash E) caps" "list_all cap_ok caps" using hs by (simp_all add: cap_hashes_Inr)
  obtain t' where t': "tree_build E (map (cap_hash E) (pp_capabilities p)) = Inr t'"
    "scope_root (pp_cert p) = tree_root t'" using p by (auto simp: passport_wf_def)
  have "capability_tree E p = Inr t'"
    using p t'(1) cap_hashes_Inr [of E "pp_capabilities p" "map (cap_hash E) (pp_capabilities p)"] by (simp add: capability_tree_def passport_wf_def)
  with t have tt: "tree_build E (map (cap_hash E) (pp_capabilities p)) = Inr t"
    "scope_root (pp_cert p) = tree_root t" using t' by simp_all
  have sub: "set hs \<subseteq> set (map (cap_hash E) (pp_capabilities p))"
    using sub_scope_escalation [OF tt(1), of hs] pf by auto
  then show "cap_hash E ` set caps \<subseteq> cap_hash E ` set (pp_capabilities p)" by (simp add: hs')
  show "list_all cap_ok caps" by (rule hs')
  have c: "scope_root c = tree_root u" "scope_proof c = pf" "delegator_pk c = verifying_key S"
    "delegate_pk c = delegate" "nonce c = fresh" "version c = CERT_VERSION" "issued_at c = now"
    "expiration_unix c = sat_add now ttl" "signer_ok E S \<Longrightarrow> verify_signature E c"
    using b u(2) by (auto simp: builder_build_Inr_iff builder_extensions_def builder_scope_proof_def
        builder_new_def cert_issue_verifies)
  show "\<exists>u. tree_build E (map (cap_hash E) caps) = Inr u \<and> scope_root c = tree_root u"
    using u(1) c(1) by (simp add: hs')
  have "hs \<noteq> []" using u(1) by (auto simp: tree_build_def)
  from sub_scope_roundtrip [OF tt(1) sub this] pf u(1) c(1,2) tt(2)
  show "verify_and_derive_root E (scope_proof c) (scope_root (pp_cert p)) = Inr (scope_root c)" by auto
  show "subset_intents (scope_proof c) = map (cap_hash E) caps"
    using pf by (simp add: sub_scope_build_Inr c(2) hs')
  show "delegator_pk c = verifying_key S" "delegate_pk c = delegate" "nonce c = fresh"
    "version c = CERT_VERSION" "issued_at c = now" "expiration_unix c = sat_add now ttl"
    "signer_ok E S \<Longrightarrow> verify_signature E c"
    using c(3-) by blast+
qed

lemma mask_test_subset:
  "set caps \<subseteq> set (pp_capabilities p) \<Longrightarrow> capability_mask p = from_capabilities E (pp_capabilities p) \<Longrightarrow>
     enforce_narrowing (from_capabilities E caps) (capability_mask p) = Inr ()"
  using hashed.subset_mono [of "pp_capabilities p" caps E]
  by (simp add: enforce_narrowing_def list_all_iff)

text \<open>
  Issuance succeeds on every input within the limits: a non-empty list of capabilities that are
  actions, extensions that fit, and a lifetime that the clock can hold.
\<close>

definition ext_fits :: "ext \<Rightarrow> string \<Rightarrow> string list \<Rightarrow> bool" where
  "ext_fits E ns caps \<longleftrightarrow> length (mask_to_hex E (from_capabilities E caps)) \<le> 64
     \<and> length ns + sum_list (map length caps) \<le> 16000"

lemma passport_ext_Some: "ext_fits E ns caps \<Longrightarrow> \<exists>x. passport_ext E ns (from_capabilities E caps) caps = Some x"
  by (simp add: ext_fits_def passport_ext_def ext_set_def ext_set_checked_def extensions_new_def Let_def
      MAX_EXTENSION_BYTES_def)

lemma sub_ext_Some: "ext_fits E ns caps \<Longrightarrow> \<exists>x. sub_ext E ns (from_capabilities E caps) = Some x"
  by (simp add: ext_fits_def sub_ext_def ext_set_def ext_set_checked_def extensions_new_def Let_def
      MAX_EXTENSION_BYTES_def)

lemma tree_build_nonempty: "xs \<noteq> [] \<Longrightarrow> \<exists>t. tree_build E xs = Inr t"
  by (simp add: tree_build_def Let_def)

lemma issue_inner_succeeds:
  assumes "caps \<noteq> []" "list_all cap_ok caps" "ext_fits E ns caps" "now < sat_add now ttl"
  shows "\<exists>p. issue_inner E fresh ns caps ttl S now = Some (Inr p)"
proof -
  have "cap_hashes E caps = Inr (map (cap_hash E) caps)" using assms(2) by (simp add: cap_hashes_Inr)
  moreover obtain t where "tree_build E (map (cap_hash E) caps) = Inr t"
    using tree_build_nonempty [of "map (cap_hash E) caps" E] assms(1) by auto
  moreover obtain x where "passport_ext E ns (from_capabilities E caps) caps = Some x"
    using passport_ext_Some [OF assms(3)] by blast
  ultimately show ?thesis using assms(4)
    by (simp add: issue_inner_def Let_def builder_build_def builder_extensions_def builder_max_depth_def builder_new_def)
qed

lemma issue_sub_succeeds:
  assumes p: "passport_wf E p" and "set caps \<subseteq> set (pp_capabilities p)" "caps \<noteq> []"
    and x: "ext_fits E (pp_namespace p) caps" and "now < sat_add now ttl"
  shows "\<exists>c. issue_sub E fresh p delegate caps ttl S now = Some (Inr c)"
proof -
  have m: "enforce_narrowing (from_capabilities E caps) (capability_mask p) = Inr ()"
    using hashed.subset_mono [of "pp_capabilities p" caps E] p assms(2)
    by (simp add: enforce_narrowing_def passport_wf_def list_all_iff)
  have ok: "list_all cap_ok caps" using p assms(2) by (auto simp: passport_wf_def list_all_iff)
  then have h: "cap_hashes E caps = Inr (map (cap_hash E) caps)" by (simp add: cap_hashes_Inr)
  obtain t where t: "tree_build E (map (cap_hash E) (pp_capabilities p)) = Inr t" using p by (auto simp: passport_wf_def)
  have "cap_hashes E (pp_capabilities p) = Inr (map (cap_hash E) (pp_capabilities p))"
    using p by (simp add: cap_hashes_Inr passport_wf_def)
  with t have ct: "capability_tree E p = Inr t" by (simp add: capability_tree_def)
  obtain s u where "sub_scope_build t (map (cap_hash E) caps) = Inr s" "tree_build E (map (cap_hash E) caps) = Inr u"
    using sub_scope_roundtrip [OF t, of "map (cap_hash E) caps"] assms(2,3) by auto
  moreover obtain y where "sub_ext E (pp_namespace p) (from_capabilities E caps) = Some y"
    using sub_ext_Some [OF x] by blast
  ultimately show ?thesis using m h ct assms(5)
    by (simp add: issue_sub_def Let_def builder_build_def builder_extensions_def builder_scope_proof_def builder_new_def)
qed

text \<open>The whole cycle: issue, delegate one capability, build the chain, guard.\<close>

lemma tree_root_single: "tree_build E [h] = Inr u \<Longrightarrow> tree_root u = h"
  by (auto simp: tree_build_def Let_def tree_root_def merkle_layers.simps)

lemma single_hop_valid:
  assumes "linked pk [c]" "version c = CERT_VERSION" "in_window now drift c" "verify_signature E c"
    and "scoped E scope [c]" "merkle_verify E pf i (scope_root c)"
    and "ch = \<lparr>principal_pk = pk, principal_scope = scope, certs = [c], drift_tolerance_secs = drift, namespace = ns\<rparr>"
  shows "chain_valid E (delegate_pk c) i pf now drift ch"
  using assms by (simp add: chain_valid_def leaf_pk_def leaf_scope_def depths_ok_def intent_authorized_merkle)

lemma passport_cycle_valid:
  assumes p: "issue_inner E f1 ns caps ttl S now0 = Some (Inr p)" and sg: "signer_ok E S"
    and s: "issue_sub E f2 p agent [cap] ttl2 S now1 = Some (Inr sub)"
    and ch: "passport_new_chain p = Inr ch"
    and w: "now1 \<le> sat_add now 15" "sat_sub now 15 \<le> sat_add now1 ttl2"
  shows "chain_valid E agent (cap_hash E cap) proof_default now 15 (chain_push sub ch)"
proof -
  note pi = issue_inner_Inr [OF p]
  note si = issue_sub_Inr [OF pi(1) s]
  obtain u where "tree_build E [cap_hash E cap] = Inr u" "scope_root sub = tree_root u" using si(3) by auto
  then have root: "scope_root sub = cap_hash E cap" by (simp add: tree_root_single)
  have np: "\<not> is_passthrough sub" using si(5) by (simp add: is_passthrough_def)
  have c: "chain_push sub ch = \<lparr>principal_pk = delegator_pk (pp_cert p), principal_scope = scope_root (pp_cert p),
      certs = [sub], drift_tolerance_secs = 15, namespace = Some (pp_namespace p)\<rparr>"
    using ch by (auto simp: passport_new_chain_def chain_new_def chain_push_def)
  have "chain_valid E (delegate_pk sub) (cap_hash E cap) proof_default now 15 (chain_push sub ch)"
  proof (rule single_hop_valid [OF _ _ _ _ _ _ c])
    show "linked (delegator_pk (pp_cert p)) [sub]" using si(6) pi(4) by simp
    show "version sub = CERT_VERSION" by (rule si(9))
    show "in_window now 15 sub" using w si(10,11) by (simp add: in_window_def)
    show "verify_signature E sub" by (rule si(12) [OF sg])
    show "scoped E (scope_root (pp_cert p)) [sub]" using np si(4) by simp
    show "merkle_verify E proof_default (cap_hash E cap) (scope_root sub)"
      by (simp add: merkle_verify_def proof_default_def root)
  qed
  then show ?thesis by (simp only: si(7))
qed

lemma chain_push_single:
  "passport_new_chain p = Inr ch \<Longrightarrow>
     drift_tolerance_secs (chain_push sub ch) = 15 \<and> certs (chain_push sub ch) = [sub]
     \<and> namespace (chain_push sub ch) = Some (pp_namespace p)"
  by (auto simp: passport_new_chain_def chain_new_def chain_push_def)

lemma guard_cycle:
  assumes p: "issue_inner E f1 ns caps ttl S now0 = Some (Inr p)" and sg: "signer_ok E S"
    and bt: "batch_complete E" "batch_sound E"
    and s: "issue_sub E f2 p agent [cap] ttl2 S now1 = Some (Inr sub)"
    and ch: "passport_new_chain p = Inr ch" and i: "intent_new cap = Inr i"
    and m: "cap \<in> set caps"
    and w: "now1 \<le> sat_add now 15" "sat_sub now 15 \<le> sat_add now1 ttl2"
    and st: "mem_rev_inv r" "nonce_inv n" "cert_fingerprint E sub \<notin> revoked_set r" "f2 \<notin> live t n"
  shows "\<exists>n'. guard E rnd p (chain_push sub ch) agent i proof_default now now' (mem_is_revoked r)
      (mem_try_consume_batch t) n
    = (Inr (provable_receipt_new E (receipt_for E now (cap_hash E cap) (chain_push sub ch)) ns (capability_mask p)), n')
    \<and> f2 \<in> live t n'"
proof -
  note pi = issue_inner_Inr [OF p]
  note si = issue_sub_Inr [OF pi(1) s]
  let ?c = "chain_push sub ch"
  note cs = chain_push_single [OF ch, of sub]
  have v: "chain_valid E agent (cap_hash E cap) proof_default now (drift_tolerance_secs ?c) ?c"
    using passport_cycle_valid [OF p sg s ch w] cs by simp
  have "policy_ok None ?c" by (simp add: policy_ok_def)
  moreover have "chain_fps E ?c \<inter> revoked_set r = {}" "chain_nonces ?c \<inter> live t n = {}"
    using st(3,4) cs si(8) by (simp_all add: chain_fps_def chain_nonces_def)
  ultimately obtain n' where n': "authorize_inner E agent (cap_hash E cap) proof_default now (mem_is_revoked r)
      (mem_try_consume_batch t) None ?c n = (Inr (receipt_for E now (cap_hash E cap) ?c), n')"
    "live t n' = chain_nonces ?c \<union> live t n"
    using mem_auth.authorize_ok [OF st(1,2) bt _ v] by blast
  have act: "action i = cap" "intent_hash_of E i = cap_hash E cap"
    using i by (auto simp: intent_new_Inr_iff cap_hash_def)
  have "enforce_narrowing (from_capabilities E [cap]) (capability_mask p) = Inr ()"
    using mask_test_subset [of "[cap]" p E] m pi(1,2) by (simp add: passport_wf_def)
  with n' act show ?thesis
    using cs si(8) pi(3)
    by (simp add: guard_def Let_def authorize_def authorize_with_options_def chain_nonces_def)
qed

text \<open>What \<open>guard\<close> decides. The passport enters with its mask and its namespace only.\<close>

lemma guard_iff:
  assumes "mem_rev_inv r" "nonce_inv n" "batch_complete E" "batch_sound E" "mask_wf (capability_mask p)"
  shows "(\<exists>rc n'. guard E rnd p c agent i pf now now' (mem_is_revoked r) (mem_try_consume_batch t) n = (Inr rc, n')) \<longleftrightarrow>
    cap_pos E (action i) \<in> mask_bits (capability_mask p)
    \<and> chain_valid E agent (intent_hash_of E i) pf now (drift_tolerance_secs c) c
    \<and> chain_fps E c \<inter> revoked_set r = {} \<and> chain_nonces c \<inter> live t n = {}"
proof -
  have w: "mask_wf (from_capabilities E [action i])" "mask_bits (from_capabilities E [action i]) = {cap_pos E (action i)}"
    using from_capabilities_spec [of E "[action i]"] by simp_all
  have g: "enforce_narrowing (from_capabilities E [action i]) (capability_mask p) = Inr ()
      \<longleftrightarrow> cap_pos E (action i) \<in> mask_bits (capability_mask p)"
    using enforce_narrowing_iff [OF w(1) assms(5)] by (simp add: w(2))
  have a: "fst (authorize E rnd agent (intent_hash_of E i) pf now now' (mem_is_revoked r) (mem_try_consume_batch t) c n) = x
      \<longleftrightarrow> fst (authorize_inner E agent (intent_hash_of E i) pf now (mem_is_revoked r) (mem_try_consume_batch t) None c n) = x" for x
    by (simp add: authorize_def authorize_with_options_def Let_def)
  have "(\<exists>rc n'. guard E rnd p c agent i pf now now' (mem_is_revoked r) (mem_try_consume_batch t) n = (Inr rc, n')) \<longleftrightarrow>
      enforce_narrowing (from_capabilities E [action i]) (capability_mask p) = Inr ()
      \<and> (\<exists>rc n'. authorize_inner E agent (intent_hash_of E i) pf now (mem_is_revoked r) (mem_try_consume_batch t) None c n = (Inr rc, n'))"
    by (auto simp: guard_def Let_def authorize_def authorize_with_options_def split: sum.splits prod.splits)
  also have "\<dots> \<longleftrightarrow> cap_pos E (action i) \<in> mask_bits (capability_mask p)
    \<and> chain_valid E agent (intent_hash_of E i) pf now (drift_tolerance_secs c) c
    \<and> chain_fps E c \<inter> revoked_set r = {} \<and> chain_nonces c \<inter> live t n = {}"
    unfolding g mem_auth.authorize_inner_iff(1) [OF assms(1-4)] by (simp add: policy_ok_def)
  finally show ?thesis .
qed

end
