(* ===== verification/A1_Swarm.thy ===== *)
theory A1_Swarm
  imports A1_Passport
begin

text \<open>
  \<open>src/swarm.rs\<close>: a passport shared by a set of member agents with roles. The \<open>HashMap\<close> of
  members is a map in key order here; nothing the code returns depends on its iteration order
  but the order of \<open>active_members\<close>. \<open>now + ttl_secs\<close> panics on overflow (\<open>overflow-checks\<close>), and
  \<open>sign\<close> panics on an empty validity window: \<open>None\<close> is a panic.
\<close>

datatype swarm_role =
    Orchestrator
  | Auditor
  | Worker "string list"
  | Supervisor "string list" u64
  | Custom string "string list" bool u8

fun role_name :: "swarm_role \<Rightarrow> string" where
  "role_name Orchestrator = ''orchestrator''"
| "role_name Auditor = ''auditor''"
| "role_name (Worker _) = ''worker''"
| "role_name (Supervisor _ _) = ''supervisor''"
| "role_name (Custom n _ _ _) = n"

fun role_can_delegate :: "swarm_role \<Rightarrow> bool" where
  "role_can_delegate Orchestrator = True"
| "role_can_delegate (Supervisor _ _) = True"
| "role_can_delegate (Custom _ _ d _) = d"
| "role_can_delegate _ = False"

fun role_max_depth :: "swarm_role \<Rightarrow> u8" where
  "role_max_depth Orchestrator = 16"
| "role_max_depth (Supervisor _ _) = 4"
| "role_max_depth (Custom _ _ _ m) = m"
| "role_max_depth _ = 0"

fun role_capabilities :: "swarm_role \<Rightarrow> string list" where
  "role_capabilities (Worker cs) = cs"
| "role_capabilities (Supervisor cs _) = cs"
| "role_capabilities (Custom _ cs _ _) = cs"
| "role_capabilities _ = []"

record swarm_member =
  agent_did :: string
  agent_pk_hex :: string
  member_role :: swarm_role
  issued_at_unix :: u64
  expires_at_unix :: u64
  cert_fingerprint_hex_opt :: "string option"
  role_commitment :: bytes

definition DOMAIN_SWARM_BIND :: string where "DOMAIN_SWARM_BIND = ''a1::dyolo::swarm::bind::v2.8.0''"
definition DOMAIN_SWARM_ROLE :: string where "DOMAIN_SWARM_ROLE = ''a1::dyolo::swarm::role::v2.8.0''"

definition compute_role_commitment :: "ext \<Rightarrow> swarm_role \<Rightarrow> string \<Rightarrow> u64 \<Rightarrow> bytes" where
  "compute_role_commitment E role did issued =
     h_finalize E (h_updates (new_derive_key DOMAIN_SWARM_ROLE)
       ([str_bytes (role_name role)]
        @ concat (map (\<lambda>cap. [le64 (u64_of (length cap)), str_bytes cap]) (role_capabilities role))
        @ [[if role_can_delegate role then 1 else 0], le64 (ucast (role_max_depth role)),
           str_bytes did, le64 issued]))"

definition verify_role_commitment :: "ext \<Rightarrow> swarm_member \<Rightarrow> bool" where
  "verify_role_commitment E m \<longleftrightarrow>
     compute_role_commitment E (member_role m) (agent_did m) (issued_at_unix m) = role_commitment m"

definition is_expired :: "swarm_member \<Rightarrow> u64 \<Rightarrow> bool" where
  "is_expired m now \<longleftrightarrow> now \<ge> expires_at_unix m"

record swarm_passport =
  root_passport :: dyolo_passport
  swarm_name :: string
  swarm_id :: bytes
  members :: "(string, swarm_member) btree"

definition compute_swarm_id :: "ext \<Rightarrow> string \<Rightarrow> bytes \<Rightarrow> bytes" where
  "compute_swarm_id E name m =
     h_finalize E (h_updates (new_derive_key DOMAIN_SWARM_BIND) [le64 (u64_of (length name)), str_bytes name, m])"

definition swarm_new :: "ext \<Rightarrow> dyolo_passport \<Rightarrow> string \<Rightarrow> swarm_passport" where
  "swarm_new E p name = \<lparr>root_passport = p, swarm_name = name,
     swarm_id = compute_swarm_id E name (mask (capability_mask p)), members = []\<rparr>"

definition did_of_pk :: "ext \<Rightarrow> bytes \<Rightarrow> string" where
  "did_of_pk E pk = ''did:a1:'' @ hex_enc E pk"

text \<open>\<open>u64\<close> addition under \<open>overflow-checks\<close>.\<close>

definition checked_add :: "u64 \<Rightarrow> u64 \<Rightarrow> u64 option" where
  "checked_add a b = (if unat a + unat b < 2 ^ 64 then Some (a + b) else None)"

lemma checked_add_unat: "checked_add a b = Some c \<Longrightarrow> unat c = unat a + unat b"
proof -
  assume "checked_add a b = Some c"
  then have c: "c = a + b" and l: "unat a + unat b < 2 ^ 64" by (auto simp: checked_add_def split: if_splits)
  have "unat (a + b) = (unat a + unat b) mod 2 ^ 64" by (simp add: unat_word_ariths)
  with c l show ?thesis by simp
qed

definition role_mask :: "ext \<Rightarrow> swarm_role \<Rightarrow> narrowing_matrix" where
  "role_mask E role =
     (if role_capabilities role = [] then EMPTY else from_capabilities E (role_capabilities role))"

definition add_member ::
  "ext \<Rightarrow> bytes \<Rightarrow> bytes \<Rightarrow> swarm_role \<Rightarrow> u64 \<Rightarrow> signer \<Rightarrow> u64 \<Rightarrow> swarm_passport
     \<Rightarrow> ((a1_error + swarm_member) \<times> swarm_passport) option" where
  "add_member E fresh agent_pk role ttl orchestrator now sw =
     (let did = did_of_pk E agent_pk in
      case bindR (enforce_narrowing (role_mask E role) (capability_mask (root_passport sw))) (\<lambda>_.
             passport_scope_root E (root_passport sw)) of
        Inl e \<Rightarrow> Some (Inl e, sw)
      | Inr scope \<Rightarrow>
          Option.bind (checked_add now ttl) (\<lambda>expiry.
          Option.bind (builder_sign E orchestrator
              (builder_max_depth (role_max_depth role) (builder_new fresh agent_pk scope now expiry))) (\<lambda>cert.
          let member = \<lparr>agent_did = did, agent_pk_hex = hex_enc E agent_pk, member_role = role,
                issued_at_unix = now, expires_at_unix = expiry,
                cert_fingerprint_hex_opt = Some (cert_fingerprint_hex E cert),
                role_commitment = compute_role_commitment E role did now\<rparr>
          in Some (Inr member, sw\<lparr>members := bt_insert did member (members sw)\<rparr>))))"

definition chain_for_member ::
  "ext \<Rightarrow> bytes \<Rightarrow> bytes \<Rightarrow> signer \<Rightarrow> u64 \<Rightarrow> u64 \<Rightarrow> swarm_passport \<Rightarrow> (a1_error + dyolo_chain) option" where
  "chain_for_member E fresh agent_pk orchestrator now ttl sw =
     (let did = did_of_pk E agent_pk in
      case map_of (members sw) did of
        None \<Rightarrow> Some (Inl (WireFormatError (''agent '' @ did @ '' is not a swarm member'')))
      | Some member \<Rightarrow>
          (case passport_scope_root E (root_passport sw) of
             Inl e \<Rightarrow> Some (Inl e)
           | Inr scope \<Rightarrow>
               Option.bind (checked_add now ttl) (\<lambda>expiry.
               Option.bind (builder_sign E orchestrator
                   (builder_max_depth (role_max_depth (member_role member))
                      (builder_new fresh agent_pk scope now expiry))) (\<lambda>cert.
               Some (Inr (chain_push cert (chain_new (verifying_key orchestrator) scope)))))))"

definition active_members :: "swarm_passport \<Rightarrow> u64 \<Rightarrow> swarm_member list" where
  "active_members sw now = filter (\<lambda>m. \<not> is_expired m now) (map snd (members sw))"

definition evict_expired :: "u64 \<Rightarrow> swarm_passport \<Rightarrow> nat \<times> swarm_passport" where
  "evict_expired now sw =
     (let before = length (members sw);
          kept = filter (\<lambda>(_, m). \<not> is_expired m now) (members sw)
      in (before - length kept, sw\<lparr>members := kept\<rparr>))"

definition remove_member :: "string \<Rightarrow> swarm_passport \<Rightarrow> swarm_member option \<times> swarm_passport" where
  "remove_member did sw =
     (map_of (members sw) did, sw\<lparr>members := filter (\<lambda>(k, _). k \<noteq> did) (members sw)\<rparr>)"

definition member_count :: "swarm_passport \<Rightarrow> nat" where
  "member_count sw = length (members sw)"

definition swarm_id_hex :: "ext \<Rightarrow> swarm_passport \<Rightarrow> string" where
  "swarm_id_hex E sw = hex_enc E (swarm_id sw)"

definition has_role :: "swarm_passport \<Rightarrow> string \<Rightarrow> u64 \<Rightarrow> string \<Rightarrow> bool" where
  "has_role sw did now name =
     (case map_of (members sw) did of
        Some m \<Rightarrow> \<not> is_expired m now \<and> role_name (member_role m) = name
      | None \<Rightarrow> False)"

section \<open>Membership\<close>

definition swarm_inv :: "ext \<Rightarrow> swarm_passport \<Rightarrow> bool" where
  "swarm_inv E sw \<longleftrightarrow> bt_inv (members sw)
     \<and> (\<forall>(did, m)\<in>set (members sw). agent_did m = did \<and> verify_role_commitment E m
          \<and> is_subset_of (role_mask E (member_role m)) (capability_mask (root_passport sw)))"

lemma swarm_new_inv: "swarm_inv E (swarm_new E p name)"
  by (simp add: swarm_inv_def swarm_new_def)

lemma add_member_Inr:
  assumes "add_member E fresh pk role ttl orc now sw = Some (Inr m, sw')"
  shows "agent_did m = did_of_pk E pk" "member_role m = role" "verify_role_commitment E m"
    "issued_at_unix m = now" "unat (expires_at_unix m) = unat now + unat ttl" "now < expires_at_unix m"
    "is_subset_of (role_mask E role) (capability_mask (root_passport sw))"
    "sw' = sw\<lparr>members := bt_insert (did_of_pk E pk) m (members sw)\<rparr>"
proof -
  from assms obtain e where e: "checked_add now ttl = Some e" "expires_at_unix m = e" "now < e"
    and r: "agent_did m = did_of_pk E pk" "member_role m = role" "verify_role_commitment E m"
      "issued_at_unix m = now" "sw' = sw\<lparr>members := bt_insert (did_of_pk E pk) m (members sw)\<rparr>"
    and s: "is_subset_of (role_mask E role) (capability_mask (root_passport sw))"
    unfolding add_member_def Let_def
    by (auto simp: enforce_narrowing_def builder_sign_Some_iff builder_build_Inr_iff builder_max_depth_def
        builder_new_def verify_role_commitment_def split: sum.splits option.splits if_splits bind_splits)
  from checked_add_unat [OF e(1)] have "unat e = unat now + unat ttl" .
  with e r s show "agent_did m = did_of_pk E pk" "member_role m = role" "verify_role_commitment E m"
    "issued_at_unix m = now" "unat (expires_at_unix m) = unat now + unat ttl" "now < expires_at_unix m"
    "is_subset_of (role_mask E role) (capability_mask (root_passport sw))"
    "sw' = sw\<lparr>members := bt_insert (did_of_pk E pk) m (members sw)\<rparr>" by simp_all
qed

lemma add_member_inv:
  assumes "swarm_inv E sw" "add_member E fresh pk role ttl orc now sw = Some (x, sw')"
  shows "swarm_inv E sw'"
proof (cases x)
  case (Inl e)
  with assms have "sw' = sw"
    by (auto simp: add_member_def Let_def split: sum.splits option.splits bind_splits)
  with assms(1) show ?thesis by simp
next
  case (Inr m)
  note m = add_member_Inr [OF assms(2) [unfolded Inr]]
  have "set (members sw') \<subseteq> insert (did_of_pk E pk, m) (set (members sw))"
    using m(8) set_bt_insert by fastforce
  moreover have "root_passport sw' = root_passport sw" "bt_inv (members sw')"
    using m(8) assms(1) by (simp_all add: swarm_inv_def bt_inv_insert)
  ultimately show ?thesis using assms(1) m(1,2,3,7) by (fastforce simp: swarm_inv_def)
qed

lemma add_member_has_role:
  assumes "swarm_inv E sw" "add_member E fresh pk role ttl orc now sw = Some (Inr m, sw')"
  shows "has_role sw' (did_of_pk E pk) t n \<longleftrightarrow> unat t < unat now + unat ttl \<and> role_name role = n"
proof -
  note m = add_member_Inr [OF assms(2)]
  have "map_of (members sw') (did_of_pk E pk) = Some m"
    using m(8) assms(1) by (simp add: map_of_bt_insert swarm_inv_def)
  then show ?thesis using m(2,5) by (simp add: has_role_def is_expired_def not_le word_less_nat_alt)
qed

lemma evict_expired_spec:
  "evict_expired now sw = (n, sw') \<Longrightarrow>
     n + member_count sw' = member_count sw \<and> map snd (members sw') = active_members sw now
     \<and> active_members sw' now = active_members sw now"
  unfolding evict_expired_def Let_def split_beta
  by (auto simp: member_count_def active_members_def filter_map comp_def length_filter_le)

lemma filter_bt_inv: "bt_inv m \<Longrightarrow> bt_inv (filter P m)"
  unfolding bt_inv_def by (induction m) auto

lemma evict_expired_inv: "swarm_inv E sw \<Longrightarrow> swarm_inv E (snd (evict_expired now sw))"
  by (auto simp: swarm_inv_def evict_expired_def Let_def filter_bt_inv)

lemma remove_member_inv: "swarm_inv E sw \<Longrightarrow> swarm_inv E (snd (remove_member did sw))"
  by (auto simp: swarm_inv_def remove_member_def filter_bt_inv)

lemma remove_member_gone: "\<not> has_role (snd (remove_member did sw)) did now n"
proof -
  have "map_of (filter (\<lambda>(k, _). k \<noteq> did) xs) did = None" for xs :: "(string, swarm_member) btree"
    by (induction xs) auto
  then show ?thesis by (simp add: has_role_def remove_member_def)
qed

text \<open>Joining succeeds when the role's mask fits and the clock can hold the expiry.\<close>

lemma passport_scope_root_wf: "passport_wf E p \<Longrightarrow> passport_scope_root E p = Inr (scope_root (pp_cert p))"
  using cap_hashes_Inr [of E "pp_capabilities p" "map (cap_hash E) (pp_capabilities p)"]
  by (auto simp: passport_scope_root_def capability_tree_def passport_wf_def)

lemma checked_add_Some: "now < sat_add now ttl \<Longrightarrow> unat now + unat ttl < 2 ^ 64 \<Longrightarrow> checked_add now ttl = Some (now + ttl) \<and> now < now + ttl"
  by (simp add: checked_add_def word_less_nat_alt unat_sat_add unat_word_ariths)

lemma add_member_succeeds:
  assumes "passport_wf E (root_passport sw)" "is_subset_of (role_mask E role) (capability_mask (root_passport sw))"
    and "now < sat_add now ttl" "unat now + unat ttl < 2 ^ 64"
  shows "\<exists>m sw'. add_member E fresh pk role ttl orc now sw = Some (Inr m, sw')"
  using assms checked_add_Some [OF assms(3,4)] passport_scope_root_wf [OF assms(1)]
  by (simp add: add_member_def Let_def enforce_narrowing_def builder_sign_def builder_build_def
      builder_max_depth_def builder_new_def not_le)

lemma chain_for_member_succeeds:
  assumes "passport_wf E (root_passport sw)" "map_of (members sw) (did_of_pk E pk) = Some m"
    and "now < sat_add now ttl" "unat now + unat ttl < 2 ^ 64"
  shows "\<exists>ch. chain_for_member E fresh pk orc now ttl sw = Some (Inr ch)"
  using assms checked_add_Some [OF assms(3,4)] passport_scope_root_wf [OF assms(1)]
  by (simp add: chain_for_member_def Let_def builder_sign_def builder_build_def
      builder_max_depth_def builder_new_def not_le)

text \<open>The states a swarm can be in, whoever calls its operations and in whatever order.\<close>

inductive swarm_reachable :: "ext \<Rightarrow> dyolo_passport \<Rightarrow> swarm_passport \<Rightarrow> bool" for E p where
  created: "swarm_reachable E p (swarm_new E p name)"
| added: "swarm_reachable E p sw \<Longrightarrow> add_member E fresh pk role ttl orc now sw = Some (x, sw') \<Longrightarrow>
    swarm_reachable E p sw'"
| removed: "swarm_reachable E p sw \<Longrightarrow> remove_member did sw = (m, sw') \<Longrightarrow> swarm_reachable E p sw'"
| evicted: "swarm_reachable E p sw \<Longrightarrow> evict_expired now sw = (n, sw') \<Longrightarrow> swarm_reachable E p sw'"

lemma add_member_root:
  "add_member E fresh pk role ttl orc now sw = Some (x, sw') \<Longrightarrow> root_passport sw' = root_passport sw"
  by (auto simp: add_member_def Let_def split: sum.splits bind_splits)

lemma swarm_reachable_inv:
  "swarm_reachable E p sw \<Longrightarrow> swarm_inv E sw \<and> root_passport sw = p"
proof (induction rule: swarm_reachable.induct)
  case (created name)
  then show ?case using swarm_new_inv by (simp add: swarm_new_def)
next
  case added
  then show ?case using add_member_inv add_member_root by metis
next
  case (removed sw did m sw')
  then show ?case using remove_member_inv [of E sw did] by (auto simp: remove_member_def)
next
  case (evicted sw now n sw')
  then show ?case using evict_expired_inv [of E sw now] by (auto simp: evict_expired_def Let_def)
qed

text \<open>A member of a reachable swarm: its role's mask lies within the passport's.\<close>

lemma swarm_reachable_member:
  assumes "swarm_reachable E p sw" "map_of (members sw) did = Some m"
  shows "agent_did m = did \<and> verify_role_commitment E m \<and> is_subset_of (role_mask E (member_role m)) (capability_mask p)"
  using swarm_reachable_inv [OF assms(1)] map_of_SomeD [OF assms(2)] by (auto simp: swarm_inv_def)

section \<open>What a member's chain authorizes\<close>

text \<open>
  The chain built for a member carries the scope of the whole passport: the capabilities of the
  role do not enter, and the member's expiry is not looked at.
\<close>

lemma chain_for_member_scope:
  assumes wf: "passport_wf E (root_passport sw)" and m: "map_of (members sw) (did_of_pk E pk) = Some m"
    and sg: "signer_ok E orc" and r: "chain_for_member E fresh pk orc now ttl sw = Some (Inr ch)"
    and cap: "cap \<in> set (pp_capabilities (root_passport sw))"
  shows "\<exists>pf. chain_valid E pk (cap_hash E cap) pf now (drift_tolerance_secs ch) ch"
proof -
  let ?caps = "pp_capabilities (root_passport sw)"
  obtain t where t: "tree_build E (map (cap_hash E) ?caps) = Inr t" using wf by (auto simp: passport_wf_def)
  have "cap_hashes E ?caps = Inr (map (cap_hash E) ?caps)"
    using wf by (simp add: cap_hashes_Inr passport_wf_def)
  with t have sr: "passport_scope_root E (root_passport sw) = Inr (tree_root t)"
    by (simp add: passport_scope_root_def capability_tree_def)
  from r m sr obtain e c where e: "checked_add now ttl = Some e" and
    c: "builder_sign E orc (builder_max_depth (role_max_depth (member_role m))
       (builder_new fresh pk (tree_root t) now e)) = Some c"
    and ch: "ch = chain_push c (chain_new (verifying_key orc) (tree_root t))"
    unfolding chain_for_member_def Let_def by (auto split: bind_splits)
  from c have cs: "delegator_pk c = verifying_key orc" "delegate_pk c = pk" "scope_root c = tree_root t"
    "scope_proof c = full_passthrough" "issued_at c = now" "expiration_unix c = e" "now < e"
    "version c = CERT_VERSION" "verify_signature E c"
    by (auto simp: builder_sign_Some_iff builder_build_Inr_iff builder_max_depth_def builder_new_def
        cert_issue_verifies [OF sg])
  have ch': "ch = \<lparr>principal_pk = verifying_key orc, principal_scope = tree_root t, certs = [c],
      drift_tolerance_secs = 15, namespace = None\<rparr>"
    by (simp add: ch chain_push_def chain_new_def)
  obtain pf where pf: "merkle_verify E pf (cap_hash E cap) (tree_root t)"
    using tree_prove_complete [OF t, of "cap_hash E cap"] cap by auto
  have w: "in_window now 15 c" using cs(5,6,7)
    unfolding in_window_def word_le_nat_alt word_less_nat_alt unat_sat_add unat_sat_sub
    using unsigned_less [where ?'a = nat and ?'b = 64, of now] by auto
  have "chain_valid E (delegate_pk c) (cap_hash E cap) pf now 15 ch"
    by (rule single_hop_valid [OF _ cs(8) w cs(9) _ _ ch'])
      (use cs pf in \<open>simp_all add: is_passthrough_def full_passthrough_def\<close>)
  then show ?thesis using cs(2) by (auto simp: ch')
qed

text \<open>Two different roles can have the same commitment.\<close>

lemma role_commitment_collision:
  "compute_role_commitment E (Custom ''worker'' cs False 0) did t = compute_role_commitment E (Worker cs) did t"
  by (simp add: compute_role_commitment_def)

end
