(* ===== verification/A1_Negotiate.thy ===== *)
theory A1_Negotiate
  imports A1_Swarm
begin

text \<open>
  \<open>src/negotiate.rs\<close>: the three signed messages by which an agent asks for a capability, is
  offered a certificate and accepts it. All three share one shape, the locale
  \<open>signed_message\<close>: what verification accepts is a signature, by the key it returns, over the
  message's canonical digest. The fresh nonces are arguments; \<open>pk_msg\<close> is the text of a key error.
\<close>

definition DOMAIN_NEG_REQUEST :: string where "DOMAIN_NEG_REQUEST = ''a1::dyolo::negotiate::request::v2.8.0''"
definition DOMAIN_NEG_OFFER :: string where "DOMAIN_NEG_OFFER = ''a1::dyolo::negotiate::offer::v2.8.0''"
definition DOMAIN_NEG_ACCEPT :: string where "DOMAIN_NEG_ACCEPT = ''a1::dyolo::negotiate::accept::v2.8.0''"

section \<open>Parsing\<close>

definition fixed_bytes :: "nat \<Rightarrow> string \<Rightarrow> bytes \<Rightarrow> a1_error + bytes" where
  "fixed_bytes n msg b = (if length b = n then Inr b else Inl (WireFormatError msg))"

definition parse_pk_hex :: "ext \<Rightarrow> (bytes \<Rightarrow> string) \<Rightarrow> string \<Rightarrow> a1_error + bytes" where
  "parse_pk_hex E pk_msg s =
     bindR (ok_or (WireFormatError ''invalid public key hex'') (hex_dec E s)) (\<lambda>b.
     bindR (fixed_bytes 32 ''public key must be 32 bytes'' b) (\<lambda>arr.
     if ed_valid_pk E arr then Inr arr else Inl (WireFormatError (''invalid Ed25519 key: '' @ pk_msg arr))))"

definition parse_nonce_hex :: "ext \<Rightarrow> string \<Rightarrow> a1_error + bytes" where
  "parse_nonce_hex E s =
     bindR (ok_or (WireFormatError ''invalid nonce hex'') (hex_dec E s)) (\<lambda>b.
       fixed_bytes 16 ''nonce must be 16 bytes'' b)"

definition parse_sig_hex :: "ext \<Rightarrow> string \<Rightarrow> a1_error + bytes" where
  "parse_sig_hex E s =
     bindR (ok_or (WireFormatError ''invalid signature hex'') (hex_dec E s)) (\<lambda>b.
       fixed_bytes 64 ''signature must be 64 bytes'' b)"

definition strip_prefix :: "string \<Rightarrow> string \<Rightarrow> string option" where
  "strip_prefix p s = (if take (length p) s = p then Some (drop (length p) s) else None)"

text \<open>A signing backend as \<open>ed25519_dalek\<close> documents it: a valid key of 32 bytes, signatures of 64.\<close>

definition signer_wf :: "ext \<Rightarrow> signer \<Rightarrow> bool" where
  "signer_wf E s \<longleftrightarrow> signer_ok E s \<and> length (verifying_key s) = 32 \<and> ed_valid_pk E (verifying_key s)
     \<and> (\<forall>m. length (sign_message s m) = 64)"

lemma parse_pk_round: "hex_ok E \<Longrightarrow> signer_wf E s \<Longrightarrow> parse_pk_hex E pm (hex_enc E (verifying_key s)) = Inr (verifying_key s)"
  by (simp add: parse_pk_hex_def hex_ok_def signer_wf_def fixed_bytes_def ok_or_def)

lemma parse_nonce_round: "hex_ok E \<Longrightarrow> length n = 16 \<Longrightarrow> parse_nonce_hex E (hex_enc E n) = Inr n"
  by (simp add: parse_nonce_hex_def hex_ok_def fixed_bytes_def ok_or_def)

lemma parse_sig_round: "hex_ok E \<Longrightarrow> signer_wf E s \<Longrightarrow> parse_sig_hex E (hex_enc E (sign_message s m)) = Inr (sign_message s m)"
  by (simp add: parse_sig_hex_def hex_ok_def signer_wf_def fixed_bytes_def ok_or_def)

lemma strip_prefix_append [simp]: "strip_prefix p (p @ s) = Some s"
  by (simp add: strip_prefix_def)

section \<open>Capability requests\<close>

record capability_request =
  requester_did :: string
  requester_pk_hex :: string
  requested_capabilities :: "string list"
  intent_name :: string
  rq_ttl_secs :: u64
  rq_nonce :: string
  rq_timestamp :: u64
  rq_signature :: string

definition request_chunks :: "string \<Rightarrow> bytes \<Rightarrow> u64 \<Rightarrow> u64 \<Rightarrow> string \<Rightarrow> string list \<Rightarrow> bytes list" where
  "request_chunks did nn ts ttl name caps =
     [le64 (u64_of (length did)), str_bytes did, nn, le64 ts, le64 ttl,
      le64 (u64_of (length name)), str_bytes name, le64 (u64_of (length caps))]
     @ concat (map (\<lambda>c. [le64 (u64_of (length c)), str_bytes c]) caps)"

definition request_signable_bytes ::
  "ext \<Rightarrow> string \<Rightarrow> bytes \<Rightarrow> u64 \<Rightarrow> u64 \<Rightarrow> string \<Rightarrow> string list \<Rightarrow> bytes" where
  "request_signable_bytes E did nn ts ttl name caps =
     h_finalize E (h_updates (new_derive_key DOMAIN_NEG_REQUEST) (request_chunks did nn ts ttl name caps))"

definition request_build ::
  "ext \<Rightarrow> bytes \<Rightarrow> signer \<Rightarrow> string list \<Rightarrow> string \<Rightarrow> u64 \<Rightarrow> u64 \<Rightarrow> capability_request" where
  "request_build E fresh requester caps name ttl ts =
     (let vk = verifying_key requester; did = did_of_pk E vk;
          msg = request_signable_bytes E did fresh ts ttl name caps
      in \<lparr>requester_did = did, requester_pk_hex = hex_enc E vk, requested_capabilities = caps,
          intent_name = name, rq_ttl_secs = ttl, rq_nonce = hex_enc E fresh, rq_timestamp = ts,
          rq_signature = hex_enc E (sign_message requester msg)\<rparr>)"

definition request_verify :: "ext \<Rightarrow> (bytes \<Rightarrow> string) \<Rightarrow> capability_request \<Rightarrow> a1_error + bytes" where
  "request_verify E pk_msg r =
     bindR (parse_pk_hex E pk_msg (requester_pk_hex r)) (\<lambda>vk.
     bindR (parse_nonce_hex E (rq_nonce r)) (\<lambda>nn.
     let msg = request_signable_bytes E (requester_did r) nn (rq_timestamp r) (rq_ttl_secs r)
                 (intent_name r) (requested_capabilities r) in
     bindR (parse_sig_hex E (rq_signature r)) (\<lambda>sig.
     if ed_verify E vk msg sig then Inr vk else Inl (InvalidSignature 0))))"

text \<open>\<open>timestamp + max_age\<close> is computed only where it cannot overflow.\<close>

definition verify_freshness :: "u64 \<Rightarrow> u64 \<Rightarrow> capability_request \<Rightarrow> a1_error + unit" where
  "verify_freshness now max_age r =
     (let age = sat_sub now (rq_timestamp r) in
      if age > max_age then Inl (Expired 0 (rq_timestamp r + max_age) now) else Inr ())"

section \<open>Offers and acceptances\<close>

record delegation_offer =
  offerer_did :: string
  request_nonce :: string
  offer_cert :: delegation_cert
  offer_nonce :: string
  of_timestamp :: u64
  offer_ttl_secs :: u64
  of_signature :: string

definition offer_signable_bytes :: "ext \<Rightarrow> string \<Rightarrow> bytes \<Rightarrow> bytes \<Rightarrow> u64 \<Rightarrow> bytes \<Rightarrow> bytes" where
  "offer_signable_bytes E did rn onn ts fp =
     h_finalize E (h_updates (new_derive_key DOMAIN_NEG_OFFER)
       [le64 (u64_of (length did)), str_bytes did, rn, onn, le64 ts, fp])"

definition offer_build ::
  "ext \<Rightarrow> bytes \<Rightarrow> signer \<Rightarrow> capability_request \<Rightarrow> delegation_cert \<Rightarrow> u64 \<Rightarrow> u64 \<Rightarrow> a1_error + delegation_offer" where
  "offer_build E fresh offerer r cert ts ttl =
     (let vk = verifying_key offerer; did = did_of_pk E vk; fp = cert_fingerprint E cert in
      bindR (parse_nonce_hex E (rq_nonce r)) (\<lambda>rn.
      let msg = offer_signable_bytes E did rn fresh ts fp in
      Inr \<lparr>offerer_did = did, request_nonce = rq_nonce r, offer_cert = cert, offer_nonce = hex_enc E fresh,
           of_timestamp = ts, offer_ttl_secs = ttl, of_signature = hex_enc E (sign_message offerer msg)\<rparr>))"

definition offer_verify :: "ext \<Rightarrow> (bytes \<Rightarrow> string) \<Rightarrow> delegation_offer \<Rightarrow> a1_error + bytes" where
  "offer_verify E pk_msg o' =
     bindR (ok_or (WireFormatError ''invalid offerer DID'') (strip_prefix ''did:a1:'' (offerer_did o'))) (\<lambda>pk_hex.
     bindR (parse_pk_hex E pk_msg pk_hex) (\<lambda>vk.
     bindR (parse_nonce_hex E (request_nonce o')) (\<lambda>rn.
     bindR (parse_nonce_hex E (offer_nonce o')) (\<lambda>onn.
     let msg = offer_signable_bytes E (offerer_did o') rn onn (of_timestamp o') (cert_fingerprint E (offer_cert o')) in
     bindR (parse_sig_hex E (of_signature o')) (\<lambda>sig.
     if ed_verify E vk msg sig then Inr vk else Inl (InvalidSignature 0))))))"

record delegation_acceptance =
  acceptor_did :: string
  ac_offer_nonce :: string
  ac_timestamp :: u64
  ac_signature :: string

definition accept_signable_bytes :: "ext \<Rightarrow> string \<Rightarrow> bytes \<Rightarrow> u64 \<Rightarrow> bytes" where
  "accept_signable_bytes E did onn ts =
     h_finalize E (h_updates (new_derive_key DOMAIN_NEG_ACCEPT) [le64 (u64_of (length did)), str_bytes did, onn, le64 ts])"

definition acceptance_build :: "ext \<Rightarrow> signer \<Rightarrow> delegation_offer \<Rightarrow> u64 \<Rightarrow> a1_error + delegation_acceptance" where
  "acceptance_build E acceptor o' ts =
     (let vk = verifying_key acceptor; did = did_of_pk E vk in
      bindR (parse_nonce_hex E (offer_nonce o')) (\<lambda>onn.
      let msg = accept_signable_bytes E did onn ts in
      Inr \<lparr>acceptor_did = did, ac_offer_nonce = offer_nonce o', ac_timestamp = ts,
           ac_signature = hex_enc E (sign_message acceptor msg)\<rparr>))"

definition acceptance_verify :: "ext \<Rightarrow> (bytes \<Rightarrow> string) \<Rightarrow> delegation_acceptance \<Rightarrow> a1_error + bytes" where
  "acceptance_verify E pk_msg a =
     bindR (ok_or (WireFormatError ''invalid acceptor DID'') (strip_prefix ''did:a1:'' (acceptor_did a))) (\<lambda>pk_hex.
     bindR (parse_pk_hex E pk_msg pk_hex) (\<lambda>vk.
     bindR (parse_nonce_hex E (ac_offer_nonce a)) (\<lambda>onn.
     let msg = accept_signable_bytes E (acceptor_did a) onn (ac_timestamp a) in
     bindR (parse_sig_hex E (ac_signature a)) (\<lambda>sig.
     if ed_verify E vk msg sig then Inr vk else Inl (InvalidSignature 0)))))"

section \<open>The contract of a signed message\<close>

text \<open>
  \<open>digest\<close> is the canonical digest, where it can be parsed, and \<open>sig_of\<close> the signature text. A
  signature that verifies for one message only is \<open>binding\<close>.
\<close>

definition sig_binding :: "ext \<Rightarrow> bytes \<Rightarrow> bytes \<Rightarrow> bool" where
  "sig_binding E pk sg \<longleftrightarrow> (\<forall>m m'. ed_verify E pk m sg \<longrightarrow> ed_verify E pk m' sg \<longrightarrow> m = m')"

locale signed_message =
  fixes E :: ext
    and verify :: "'m \<Rightarrow> a1_error + bytes"
    and digest :: "'m \<Rightarrow> a1_error + bytes"
    and sig_of :: "'m \<Rightarrow> string"
  assumes accepted: "verify m = Inr pk \<Longrightarrow>
    \<exists>d sg. digest m = Inr d \<and> parse_sig_hex E (sig_of m) = Inr sg \<and> ed_verify E pk d sg"
begin

lemma signature_fixes_digest:
  assumes "verify m = Inr pk" "verify m' = Inr pk" "sig_of m = sig_of m'"
    and "\<And>sg. parse_sig_hex E (sig_of m) = Inr sg \<Longrightarrow> sig_binding E pk sg"
  shows "digest m = digest m'"
  using accepted [OF assms(1)] accepted [OF assms(2)] assms(3,4)
  unfolding sig_binding_def by fastforce

end

definition request_digest :: "ext \<Rightarrow> capability_request \<Rightarrow> a1_error + bytes" where
  "request_digest E r = bindR (parse_nonce_hex E (rq_nonce r)) (\<lambda>nn.
     Inr (request_signable_bytes E (requester_did r) nn (rq_timestamp r) (rq_ttl_secs r)
       (intent_name r) (requested_capabilities r)))"

definition offer_digest :: "ext \<Rightarrow> delegation_offer \<Rightarrow> a1_error + bytes" where
  "offer_digest E o' = bindR (parse_nonce_hex E (request_nonce o')) (\<lambda>rn.
     bindR (parse_nonce_hex E (offer_nonce o')) (\<lambda>onn.
     Inr (offer_signable_bytes E (offerer_did o') rn onn (of_timestamp o') (cert_fingerprint E (offer_cert o')))))"

definition acceptance_digest :: "ext \<Rightarrow> delegation_acceptance \<Rightarrow> a1_error + bytes" where
  "acceptance_digest E a = bindR (parse_nonce_hex E (ac_offer_nonce a)) (\<lambda>onn.
     Inr (accept_signable_bytes E (acceptor_did a) onn (ac_timestamp a)))"

interpretation request_msg: signed_message E "request_verify E pk_msg" "request_digest E" rq_signature for E pk_msg
  by unfold_locales (auto simp: request_verify_def request_digest_def result_simps Let_def split: if_splits)

interpretation offer_msg: signed_message E "offer_verify E pk_msg" "offer_digest E" of_signature for E pk_msg
  by unfold_locales (auto simp: offer_verify_def offer_digest_def result_simps Let_def split: if_splits)

interpretation acceptance_msg: signed_message E "acceptance_verify E pk_msg" "acceptance_digest E" ac_signature
  for E pk_msg
  by unfold_locales (auto simp: acceptance_verify_def acceptance_digest_def result_simps Let_def split: if_splits)

section \<open>The handshake\<close>

lemma request_roundtrip:
  assumes "hex_ok E" "signer_wf E s" "length fresh = 16"
  shows "request_verify E pm (request_build E fresh s caps name ttl ts) = Inr (verifying_key s)"
  using assms parse_pk_round [OF assms(1,2)] parse_nonce_round [OF assms(1,3)] parse_sig_round [OF assms(1,2)]
  by (simp add: request_verify_def request_build_def Let_def signer_wf_def signer_ok_def)

lemma offer_roundtrip:
  assumes "hex_ok E" "signer_wf E s" "length fresh = 16" "parse_nonce_hex E (rq_nonce r) = Inr rn"
  shows "\<exists>o'. offer_build E fresh s r cert ts ttl = Inr o' \<and> offer_verify E pm o' = Inr (verifying_key s)
    \<and> request_nonce o' = rq_nonce r \<and> offer_cert o' = cert \<and> parse_nonce_hex E (offer_nonce o') = Inr fresh"
  using assms parse_pk_round [OF assms(1,2)] parse_nonce_round [OF assms(1,3)] parse_sig_round [OF assms(1,2)]
  by (simp add: offer_build_def offer_verify_def Let_def signer_wf_def signer_ok_def did_of_pk_def ok_or_def
      del: append.simps)

lemma acceptance_roundtrip:
  assumes "hex_ok E" "signer_wf E s" "parse_nonce_hex E (offer_nonce o') = Inr onn"
  shows "\<exists>a. acceptance_build E s o' ts = Inr a \<and> acceptance_verify E pm a = Inr (verifying_key s)
    \<and> ac_offer_nonce a = offer_nonce o'"
  using assms parse_pk_round [OF assms(1,2)] parse_sig_round [OF assms(1,2)]
  by (simp add: acceptance_build_def acceptance_verify_def Let_def signer_wf_def signer_ok_def did_of_pk_def ok_or_def
      del: append.simps)

text \<open>The request's canonical bytes determine every signed field.\<close>

lemma concat_request_chunks:
  "concat (request_chunks did nn ts ttl name caps) =
     lp (str_bytes did) @ nn @ le64 ts @ le64 ttl @ lp (str_bytes name) @ counted (\<lambda>c. lp (str_bytes c)) caps"
proof -
  have "concat (concat (map (\<lambda>c. [le64 (u64_of (length c)), str_bytes c]) cs)) = concat (map (\<lambda>c. lp (str_bytes c)) cs)"
    for cs by (induction cs) (simp_all add: lp_def)
  then show ?thesis by (simp add: request_chunks_def lp_def counted_def)
qed

lemma request_chunks_inj:
  assumes "fits did" "fits did'" "fits name" "fits name'" "length nn = 16" "length nn' = 16"
    and "length caps < 2 ^ 63" "length caps' < 2 ^ 63" "list_all fits caps" "list_all fits caps'"
    and eq: "concat (request_chunks did nn ts ttl name caps) = concat (request_chunks did' nn' ts' ttl' name' caps')"
  shows "did = did' \<and> nn = nn' \<and> ts = ts' \<and> ttl = ttl' \<and> name = name' \<and> caps = caps'"
proof -
  have s: "self_delim fits (\<lambda>c. lp (str_bytes c))" by (rule self_delim_lp_str)
  have 1: "did = did' \<and> nn @ le64 ts @ le64 ttl @ lp (str_bytes name) @ counted (\<lambda>c. lp (str_bytes c)) caps
      = nn' @ le64 ts' @ le64 ttl' @ lp (str_bytes name') @ counted (\<lambda>c. lp (str_bytes c)) caps'"
    by (rule self_delimD [OF s assms(1,2)]) (use eq in \<open>simp only: concat_request_chunks append_assoc\<close>)
  then have 2: "nn = nn'" "ts = ts'" "ttl = ttl'"
    and 3: "lp (str_bytes name) @ counted (\<lambda>c. lp (str_bytes c)) caps
      = lp (str_bytes name') @ counted (\<lambda>c. lp (str_bytes c)) caps'"
    using assms(5,6) by (simp_all add: append_eq_append_conv)
  have 4: "name = name' \<and> counted (\<lambda>c. lp (str_bytes c)) caps = counted (\<lambda>c. lp (str_bytes c)) caps'"
    by (rule self_delimD [OF s assms(3,4) 3])
  then have "caps = caps'"
    using self_delimD [OF self_delim_counted [OF s], of caps caps' "[]" "[]"] assms(7-10) by (simp add: list_all_iff fits_def)
  with 1 2 4 show ?thesis by blast
qed

text \<open>Freshness looks at the past only: a request stamped in the future is fresh.\<close>

lemma verify_freshness_iff:
  "verify_freshness now max_age r = Inr () \<longleftrightarrow> unat now \<le> unat (rq_timestamp r) + unat max_age"
  by (auto simp: verify_freshness_def Let_def word_less_nat_alt unat_sat_sub)

end
