(* ===== verification/A1_Wire.thy ===== *)
theory A1_Wire
  imports A1_Chain
begin

text \<open>
  \<open>src/wire.rs\<close>: a chain as a portable document and back, and a receipt authenticated with a
  shared key. JSON and CBOR are third-party. The texts the \<open>hex\<close> and \<open>ed25519_dalek\<close> crates give
  their errors are the arguments \<open>hex_msg\<close> and \<open>pk_msg\<close>.
\<close>

section \<open>Signed chains\<close>

record signed_chain =
  sc_version :: u8
  sc_principal_pk :: string
  sc_principal_scope :: string
  sc_certs :: "delegation_cert list"

definition from_chain :: "ext \<Rightarrow> dyolo_chain \<Rightarrow> signed_chain" where
  "from_chain E c = \<lparr>sc_version = 1, sc_principal_pk = hex_enc E (principal_pk c),
     sc_principal_scope = hex_enc E (principal_scope c), sc_certs = certs c\<rparr>"

definition into_chain_with_drift ::
  "ext \<Rightarrow> (string \<Rightarrow> string) \<Rightarrow> (bytes \<Rightarrow> string) \<Rightarrow> u64 \<Rightarrow> signed_chain \<Rightarrow> a1_error + dyolo_chain" where
  "into_chain_with_drift E hex_msg pk_msg drift sc =
     (if sc_version sc \<noteq> 1 then Inl (UnsupportedVersion 1 (sc_version sc))
      else
        bindR (ok_or (WireFormatError (''principal_pk: '' @ hex_msg (sc_principal_pk sc)))
                 (hex_dec E (sc_principal_pk sc))) (\<lambda>pk.
        bindR (if length pk = 32 then Inr () else Inl (WireFormatError ''principal_pk must be 32 bytes'')) (\<lambda>_.
        bindR (ok_or (WireFormatError (''principal_scope: '' @ hex_msg (sc_principal_scope sc)))
                 (hex_dec E (sc_principal_scope sc))) (\<lambda>scope.
        bindR (if length scope = 32 then Inr () else Inl (WireFormatError ''principal_scope must be 32 bytes'')) (\<lambda>_.
        bindR (if ed_valid_pk E pk then Inr ()
               else Inl (WireFormatError (''invalid principal_pk: '' @ pk_msg pk))) (\<lambda>_.
        Inr (fold chain_push (sc_certs sc) (with_drift_tolerance drift (chain_new pk scope)))))))))"

definition into_chain ::
  "ext \<Rightarrow> (string \<Rightarrow> string) \<Rightarrow> (bytes \<Rightarrow> string) \<Rightarrow> signed_chain \<Rightarrow> a1_error + dyolo_chain" where
  "into_chain E hex_msg pk_msg sc = into_chain_with_drift E hex_msg pk_msg 15 sc"

lemma fold_chain_push: "fold chain_push xs c = c\<lparr>certs := certs c @ xs\<rparr>"
  by (induction xs arbitrary: c) (simp_all add: chain_push_def)

text \<open>
  The round trip returns the chain but for its drift tolerance, which the receiver chooses, and
  its namespace, which the document does not carry.
\<close>

lemma signed_chain_roundtrip:
  assumes "hex_ok E" "length (principal_pk c) = 32" "length (principal_scope c) = 32"
    "ed_valid_pk E (principal_pk c)"
  shows "into_chain_with_drift E hm pm drift (from_chain E c) =
    Inr (c\<lparr>drift_tolerance_secs := drift, namespace := None\<rparr>)"
  using assms
  by (cases c) (simp add: into_chain_with_drift_def from_chain_def hex_ok_def ok_or_def
      fold_chain_push chain_new_def with_drift_tolerance_def)

text \<open>What the receiver validates does not depend on the namespace, but the fingerprint does.\<close>

lemma chain_valid_namespace:
  "chain_valid E a i p now d (c\<lparr>drift_tolerance_secs := x, namespace := ns\<rparr>) = chain_valid E a i p now d c"
  by (simp add: chain_valid_def)

lemma into_chain_Inr:
  assumes "into_chain_with_drift E hm pm drift sc = Inr c"
  shows "sc_version sc = 1 \<and> certs c = sc_certs sc \<and> drift_tolerance_secs c = drift \<and> namespace c = None
    \<and> hex_dec E (sc_principal_pk sc) = Some (principal_pk c) \<and> length (principal_pk c) = 32
    \<and> hex_dec E (sc_principal_scope sc) = Some (principal_scope c) \<and> length (principal_scope c) = 32"
  using assms
  by (auto simp: into_chain_with_drift_def result_simps ok_or_def fold_chain_push chain_new_def
      with_drift_tolerance_def split: if_splits option.splits)

section \<open>Texts\<close>

text \<open>
  JSON, compact or pretty, and CBOR. What the crates print and parse are arguments, with their messages.
\<close>

definition signed_chain_from_json :: "(string \<Rightarrow> string + signed_chain) \<Rightarrow> string \<Rightarrow> a1_error + signed_chain" where
  "signed_chain_from_json parse t = map_errR WireFormatError (parse t)"

definition signed_chain_to_json :: "(signed_chain \<Rightarrow> string + string) \<Rightarrow> signed_chain \<Rightarrow> a1_error + string" where
  "signed_chain_to_json print sc = map_errR WireFormatError (print sc)"

definition signed_chain_to_json_pretty :: "(signed_chain \<Rightarrow> string + string) \<Rightarrow> signed_chain \<Rightarrow> a1_error + string" where
  "signed_chain_to_json_pretty print_pretty sc = map_errR WireFormatError (print_pretty sc)"

definition signed_chain_from_cbor :: "(bytes \<Rightarrow> string + signed_chain) \<Rightarrow> bytes \<Rightarrow> a1_error + signed_chain" where
  "signed_chain_from_cbor parse b = map_errR WireFormatError (parse b)"

definition signed_chain_to_cbor :: "(signed_chain \<Rightarrow> string + bytes) \<Rightarrow> signed_chain \<Rightarrow> a1_error + bytes" where
  "signed_chain_to_cbor print sc = map_errR WireFormatError (print sc)"

text \<open>A format that reads back what it printed; then the chain that was exported is the chain that arrives.\<close>

definition lossless :: "('a \<Rightarrow> string + 't) \<Rightarrow> ('t \<Rightarrow> string + 'a) \<Rightarrow> bool" where
  "lossless print parse \<longleftrightarrow> (\<forall>x t. print x = Inr t \<longrightarrow> parse t = Inr x)"

lemma text_back:
  "lossless print parse \<Longrightarrow> signed_chain_to_json print sc = Inr t \<Longrightarrow> signed_chain_from_json parse t = Inr sc"
  "lossless print parse \<Longrightarrow> signed_chain_to_json_pretty print sc = Inr t \<Longrightarrow> signed_chain_from_json parse t = Inr sc"
  "lossless print' parse' \<Longrightarrow> signed_chain_to_cbor print' sc = Inr b \<Longrightarrow> signed_chain_from_cbor parse' b = Inr sc"
  by (simp_all add: lossless_def signed_chain_to_json_def signed_chain_to_json_pretty_def signed_chain_to_cbor_def
      signed_chain_from_json_def signed_chain_from_cbor_def)

lemma chain_text_arrives:
  assumes "hex_ok E" "length (principal_pk c) = 32" "length (principal_scope c) = 32" "ed_valid_pk E (principal_pk c)"
    and "lossless print parse" "signed_chain_to_json print (from_chain E c) = Inr t"
  shows "bindR (signed_chain_from_json parse t) (into_chain_with_drift E hm pm drift) =
    Inr (c\<lparr>drift_tolerance_secs := drift, namespace := None\<rparr>)"
  using signed_chain_roundtrip [OF assms(1-4), of hm pm drift] text_back(1) [OF assms(5,6)] by simp

section \<open>Verified tokens\<close>

record verified_token =
  vt_receipt :: verification_receipt
  vt_mac :: string

definition compute_mac :: "ext \<Rightarrow> verification_receipt \<Rightarrow> bytes \<Rightarrow> bytes" where
  "compute_mac E r key = b3_keyed E key (receipt_canonical_bytes r)"

definition token_sign :: "ext \<Rightarrow> verification_receipt \<Rightarrow> bytes \<Rightarrow> verified_token" where
  "token_sign E r key = \<lparr>vt_receipt = r, vt_mac = hex_enc E (compute_mac E r key)\<rparr>"

definition token_verify :: "ext \<Rightarrow> verified_token \<Rightarrow> bytes \<Rightarrow> a1_error + verification_receipt" where
  "token_verify E t key =
     bindR (ok_or (WireFormatError ''invalid MAC hex'') (hex_dec E (vt_mac t))) (\<lambda>mac.
     bindR (if length mac = 32 then Inr () else Inl (WireFormatError ''MAC must be 32 bytes'')) (\<lambda>_.
     if mac \<noteq> compute_mac E (vt_receipt t) key then Inl MacVerificationFailed else Inr (vt_receipt t)))"

definition keyed32 :: "ext \<Rightarrow> bool" where
  "keyed32 E \<longleftrightarrow> (\<forall>k m. length (b3_keyed E k m) = 32)"

lemma token_roundtrip:
  "hex_ok E \<Longrightarrow> keyed32 E \<Longrightarrow> token_verify E (token_sign E r key) key = Inr r"
  by (simp add: token_verify_def token_sign_def hex_ok_def ok_or_def keyed32_def compute_mac_def)

text \<open>
  A MAC that verifies for two receipts is a collision of the keyed hash, unless the receipts
  agree in everything but an empty namespace against an absent one.
\<close>

lemma token_binds:
  assumes "token_verify E \<lparr>vt_receipt = r, vt_mac = m\<rparr> key = Inr r"
    and "token_verify E \<lparr>vt_receipt = r', vt_mac = m\<rparr> key = Inr r'"
    and "receipt_wf r" "receipt_wf r'"
    and "b3_keyed E key (receipt_canonical_bytes r) = b3_keyed E key (receipt_canonical_bytes r') \<longrightarrow>
           receipt_canonical_bytes r = receipt_canonical_bytes r'"
  shows "chain_depth r = chain_depth r' \<and> verified_scope_root r = verified_scope_root r'
    \<and> receipt_intent r = receipt_intent r' \<and> verified_at_unix r = verified_at_unix r'
    \<and> chain_fingerprint r = chain_fingerprint r'
    \<and> namespace_text (receipt_namespace r) = namespace_text (receipt_namespace r')"
proof -
  have "compute_mac E r key = compute_mac E r' key"
    using assms(1,2) by (auto simp: token_verify_def result_simps ok_or_def split: if_splits option.splits)
  with assms(5) have "receipt_canonical_bytes r = receipt_canonical_bytes r'" by (simp add: compute_mac_def)
  then show ?thesis using receipt_canonical_iff [OF assms(3,4)] by blast
qed

end
