(* ===== verification/A1_Demo.thy ===== *)
theory A1_Demo
  imports A1_Runs A1_Swarm A1_Negotiate A1_Wire
begin

text \<open>
  A concrete two-hop delegation over \<open>toy_ext\<close>, on which the theorems that carry
  hypotheses are instantiated: a principal, an intermediate agent, an executing agent, two
  intents, and the certificates signed hop by hop.
\<close>

definition demo_pk :: "u8 \<Rightarrow> bytes" where
  "demo_pk n = replicate 32 n"

definition demo_intents :: "bytes list" where
  "demo_intents = [[1], [2]]"

definition demo_tree :: intent_tree where
  "demo_tree = \<lparr>leaves = [[1], [2]], layers = [[[1], [2]], [merkle_node toy_ext [1] [2]]]\<rparr>"

definition demo_scope :: bytes where
  "demo_scope = merkle_node toy_ext [1] [2]"

definition demo_proof :: merkle_proof where
  "demo_proof = \<lparr>siblings = [\<lparr>sib_hash = [2], is_left = False\<rparr>]\<rparr>"

definition demo_cert :: "u8 \<Rightarrow> u8 \<Rightarrow> bytes \<Rightarrow> u64 \<Rightarrow> delegation_cert" where
  "demo_cert a b nn exp = cert_issue toy_ext (toy_signer (demo_pk a)) (demo_pk b) demo_scope
     full_passthrough nn 100 exp 16 extensions_new"

definition demo_chain :: dyolo_chain where
  "demo_chain = \<lparr>principal_pk = demo_pk 1, principal_scope = demo_scope,
     certs = [demo_cert 1 2 (replicate 16 7) 1000, demo_cert 2 3 (replicate 16 8) 900],
     drift_tolerance_secs = 15, namespace = None\<rparr>"

lemma demo_pk_simps [simp]: "demo_pk a = demo_pk b \<longleftrightarrow> a = b" "length (demo_pk a) = 32"
  by (simp_all add: demo_pk_def)

lemma demo_tree_build: "tree_build toy_ext demo_intents = Inr demo_tree"
proof -
  have "remdups_adj (sort demo_intents) = [[1], [2]]"
    by (simp add: demo_intents_def)
  moreover have "merkle_layers toy_ext [[1], [2]] = [[merkle_node toy_ext [1] [2]]]"
    by (simp add: merkle_layers.simps [of toy_ext "[[1], [2]]"] merkle_layers.simps [of toy_ext "[x]" for x])
  moreover have "demo_intents \<noteq> []" by (simp add: demo_intents_def)
  ultimately show ?thesis by (simp add: tree_build_def Let_def demo_tree_def)
qed

lemma demo_tree_root: "tree_root demo_tree = demo_scope"
  by (simp add: demo_tree_def demo_scope_def tree_root_def)

lemma demo_node_length: "length (merkle_node toy_ext a b) = 32"
  by (simp add: merkle_node_def)

lemma demo_proof_verifies: "merkle_verify toy_ext demo_proof [1] demo_scope"
  by (simp add: merkle_verify_def demo_proof_def demo_scope_def verify_step_def)

lemma demo_collision_free: "collision_free toy_ext demo_tree demo_proof [1]"
proof -
  have "merkle_node toy_ext [1] [2] \<noteq> [x]" for x
    using demo_node_length [of "[1]" "[2]"] by (metis length_Cons list.size(3) numeral_eq_one_iff
        One_nat_def semiring_norm(85))
  then show ?thesis
    by (auto simp: collision_free_def demo_tree_def demo_proof_def tree_pairs_def node_of_def eq_commute)
qed

lemma demo_passthrough: "is_passthrough (demo_cert a b nn e)"
  by (simp add: is_passthrough_def demo_cert_def full_passthrough_def)

lemma demo_cert_sels [simp]:
  "version (demo_cert a b nn e) = CERT_VERSION" "delegator_pk (demo_cert a b nn e) = demo_pk a"
  "delegate_pk (demo_cert a b nn e) = demo_pk b" "scope_root (demo_cert a b nn e) = demo_scope"
  "nonce (demo_cert a b nn e) = nn" "issued_at (demo_cert a b nn e) = 100"
  "expiration_unix (demo_cert a b nn e) = e" "max_depth (demo_cert a b nn e) = 16"
  "verify_signature toy_ext (demo_cert a b nn e)"
  by (simp_all add: demo_cert_def cert_issue_verifies) (simp add: toy_signer_def)

lemma demo_chain_sels [simp]:
  "principal_pk demo_chain = demo_pk 1" "principal_scope demo_chain = demo_scope"
  "certs demo_chain = [demo_cert 1 2 (replicate 16 7) 1000, demo_cert 2 3 (replicate 16 8) 900]"
  "drift_tolerance_secs demo_chain = 15" "namespace demo_chain = None"
  by (simp_all add: demo_chain_def)

lemma depths_ok_two: "depths_ok [a, b] \<longleftrightarrow> 2 \<le> unat (max_depth a)"
  by (auto simp: depths_ok_def less_Suc_eq)

lemma demo_window: "500 \<le> e \<Longrightarrow> in_window 500 15 (demo_cert a b nn e)"
  by (auto simp: in_window_def word_le_nat_alt unat_sat_add unat_sat_sub)

lemma demo_valid: "chain_valid toy_ext (demo_pk 3) [1] demo_proof 500 15 demo_chain"
proof -
  have "in_window 500 15 (demo_cert 1 2 (replicate 16 7) 1000)"
    "in_window 500 15 (demo_cert 2 3 (replicate 16 8) 900)"
    by (rule demo_window; simp)+
  moreover have "replicate 16 (7 :: u8) \<noteq> replicate 16 8" by simp
  ultimately show ?thesis
    using demo_proof_verifies
    by (simp add: chain_valid_def leaf_pk_def leaf_scope_def depths_ok_two demo_passthrough
        intent_authorized_merkle)
qed

text \<open>More facts about the demonstration chain, and the empty stores.\<close>

lemma demo_cert_scope [simp]: "scope_proof (demo_cert a b nn e) = full_passthrough"
  by (simp add: demo_cert_def)

lemma demo_not_member: "\<not> merkle_verify toy_ext proof_default [9] demo_scope"
  using demo_node_length [of "[1]" "[2]"]
  by (auto simp: merkle_verify_def proof_default_def demo_scope_def dest: arg_cong [of _ _ length])

lemma revoked_set_new [simp]: "revoked_set mem_rev_new = {}"
  by (simp add: revoked_set_def mem_rev_new_def)

lemma live_new [simp]: "live t mem_nonce_new = {}"
  by (simp add: live_def mem_nonce_new_def)

definition demo_request :: request where
  "demo_request = \<lparr>q_agent = demo_pk 3, q_intent = [1], q_proof = demo_proof, q_now = 500, q_store_now = 500,
     q_policy = None, q_chain = demo_chain\<rparr>"

lemma demo_scope_length [simp]: "length demo_scope = 32"
  by (simp add: demo_scope_def demo_node_length)

lemma demo_cert_wf: "length nn = 16 \<Longrightarrow> cert_wf (demo_cert a b nn e)"
  by (simp add: cert_wf_def sub_scope_wf_def full_passthrough_def demo_cert_def extensions_new_def
      ext_encodable_def fits_def) (simp add: toy_signer_def)

definition demo_receipt :: "nat \<Rightarrow> string option \<Rightarrow> verification_receipt" where
  "demo_receipt n ns = \<lparr>chain_depth = n, verified_scope_root = demo_pk 1, receipt_intent = demo_pk 2,
     verified_at_unix = 500, chain_fingerprint = demo_pk 3, receipt_namespace = ns\<rparr>"

section \<open>Passports, traces and swarms\<close>

lemma length_toy_hex_enc: "length (toy_hex_enc bs) = 2 * length bs"
  by (induction bs) simp_all

lemma toy_ext_fits: "length ns + sum_list (map length caps) \<le> 16000 \<Longrightarrow> ext_fits toy_ext ns caps"
  using from_capabilities_spec [of toy_ext caps]
  by (simp add: ext_fits_def mask_to_hex_def mask_wf_def) (simp add: toy_ext_def length_toy_hex_enc)

lemma demo_signer_wf: "signer_wf toy_ext (toy_signer (demo_pk n))"
  using toy_hash32 by (simp add: signer_wf_def) (simp add: toy_signer_def toy_ext_def toy_digest_def Let_def)

definition demo_caps :: "string list" where
  "demo_caps = [''files.read'', ''files.write'']"

lemma demo_caps_ok: "list_all cap_ok demo_caps" "demo_caps \<noteq> []" "''files.read'' \<in> set demo_caps"
  by (simp_all add: demo_caps_def cap_ok_def MAX_ACTION_LEN_def)

lemma demo_time: "(100 :: u64) < sat_add 100 3600"
  by (simp add: sat_add_def)

lemma demo_passport:
  "\<exists>p. issue_inner toy_ext (replicate 16 1) ''acme'' demo_caps 3600 (toy_signer (demo_pk 1)) 100 = Some (Inr p)"
  by (rule issue_inner_succeeds [OF demo_caps_ok(2,1) toy_ext_fits demo_time]) (simp add: demo_caps_def)

definition demo_trace :: "nat \<Rightarrow> reasoning_trace" where
  "demo_trace n = fold (\<lambda>i. record_hashed Thought (replicate 32 (word_of_nat i)) (replicate 32 0) 100) [0..<n]
     (trace_new (replicate 16 9) 100)"

lemma demo_trace_wf: "trace_wf (demo_trace n)"
  by (induction n) (simp_all add: demo_trace_def trace_new_wf record_hashed_wf)

lemma demo_trace_length: "length (steps (demo_trace n)) = n"
  by (induction n) (simp_all add: demo_trace_def trace_new_def record_hashed_def)

lemma demo_swarm:
  "\<exists>p sw m. swarm_reachable toy_ext p sw \<and> root_passport sw = p \<and> passport_wf toy_ext p \<and> pp_capabilities p = demo_caps
     \<and> map_of (members sw) (did_of_pk toy_ext (demo_pk 2)) = Some m \<and> role_capabilities (member_role m) = [''files.read'']"
proof -
  obtain p where p: "issue_inner toy_ext (replicate 16 1) ''acme'' demo_caps 3600 (toy_signer (demo_pk 1)) 100
      = Some (Inr p)" using demo_passport by blast
  note pi = issue_inner_Inr [OF p]
  let ?sw = "swarm_new toy_ext p ''team''"
  let ?role = "Worker [''files.read'']"
  have r: "root_passport ?sw = p" by (simp add: swarm_new_def)
  have sub: "is_subset_of (role_mask toy_ext ?role) (capability_mask (root_passport ?sw))"
    using mask_test_subset [of "[''files.read'']" p toy_ext] pi(1,2) demo_caps_ok(3)
    by (simp add: r role_mask_def enforce_narrowing_def passport_wf_def split: if_splits)
  obtain m sw' where a: "add_member toy_ext (replicate 16 4) (demo_pk 2) ?role 3600 (toy_signer (demo_pk 1)) 100 ?sw
      = Some (Inr m, sw')"
    using add_member_succeeds [OF _ sub demo_time] pi(1) r by fastforce
  note ai = add_member_Inr [OF a]
  have "map_of (members sw') (did_of_pk toy_ext (demo_pk 2)) = Some m"
    using ai(8) by (simp add: swarm_new_def)
  moreover have "root_passport sw' = p" using add_member_root [OF a] r by simp
  moreover have "swarm_reachable toy_ext p sw'" using a by (blast intro: swarm_reachable.intros)
  ultimately show ?thesis using pi(1,2) ai(2) by auto
qed

lemma demo_member_chain:
  "map_of (members sw) (did_of_pk toy_ext (demo_pk 2)) = Some m \<Longrightarrow> passport_wf toy_ext (root_passport sw) \<Longrightarrow>
     \<exists>ch. chain_for_member toy_ext (replicate 16 3) (demo_pk 2) (toy_signer (demo_pk 1)) 100 3600 sw = Some (Inr ch)"
  using chain_for_member_succeeds [OF _ _ demo_time] by fastforce

lemma demo_valid_pk: "ed_valid_pk toy_ext (demo_pk n)"
  by (simp add: toy_ext_def)

lemma toy_keyed32: "keyed32 toy_ext"
  by (simp add: keyed32_def toy_ext_def toy_digest_def Let_def)

end
