(* ===== verification/A1_Context.thy ===== *)
theory A1_Context
  imports A1_Chain
begin

text \<open>
  \<open>src/context.rs\<close> and the asynchronous half of \<open>src/chain.rs\<close> and \<open>src/registry.rs\<close>: the context that
  holds an application's dependencies, its builder and its defaults, the adapters that run a
  synchronous store on a blocking task, and the asynchronous authorization. A context is the
  record of its policy and namespace; the stores, the clock readings and the sink are arguments,
  as in \<open>A1_Chain\<close>.
\<close>

section \<open>Adapters\<close>

text \<open>
  \<open>SyncRevocationAdapter\<close>, \<open>SyncNonceAdapter\<close> and \<open>SyncRateLimitAdapter\<close> run the call on
  \<open>spawn_blocking\<close>; \<open>join\<close> is the text of the \<open>JoinError\<close>, if the task failed, which becomes a transient
  storage error.
\<close>

definition adapt :: "string option \<Rightarrow> storage_error + 'a \<Rightarrow> storage_error + 'a" where
  "adapt join r = (case join of Some msg \<Rightarrow> Inl (storage_transient msg) | None \<Rightarrow> r)"

definition adapt_is_revoked ::
  "(bytes \<Rightarrow> string option) \<Rightarrow> (bytes \<Rightarrow> storage_error + bool) \<Rightarrow> bytes \<Rightarrow> storage_error + bool" where
  "adapt_is_revoked join is_rev fp = adapt (join fp) (is_rev fp)"

definition adapt_consume :: "string option \<Rightarrow> 'n consumer \<Rightarrow> 'n consumer" where
  "adapt_consume join consume s ns = (case consume s ns of (r, s') \<Rightarrow> (adapt join r, s'))"

section \<open>Asynchronous authorization\<close>

text \<open>\<open>authorize_async_with_options\<close>, written out as the code does.\<close>

definition authorize_async_with_options ::
  "ext \<Rightarrow> bytes \<Rightarrow> bytes \<Rightarrow> bytes \<Rightarrow> merkle_proof \<Rightarrow> u64 \<Rightarrow> u64 \<Rightarrow> (bytes \<Rightarrow> storage_error + bool)
     \<Rightarrow> 'n consumer \<Rightarrow> policy_set option \<Rightarrow> dyolo_chain \<Rightarrow> 'n
     \<Rightarrow> ((a1_error + verification_receipt) \<times> 'n) \<times> audit_event" where
  "authorize_async_with_options E rnd agent_pk intent p now now' is_rev consume policy c s =
     (let principal_hex = hex_enc E (principal_pk c);
          executor_hex = hex_enc E agent_pk;
          result =
            (case (case policy of Some ps \<Rightarrow> set_check_chain ps c | None \<Rightarrow> Inr ()) of
               Inl e \<Rightarrow> (Inl e, s)
             | Inr _ \<Rightarrow>
                 (case validate_structure E agent_pk intent p now (drift_tolerance_secs c) c of
                    Inl e \<Rightarrow> (Inl e, s)
                  | Inr v \<Rightarrow>
                      (case check_revocations is_rev (v_cert_fingerprints v) of
                         Inl e \<Rightarrow> (Inl e, s)
                       | Inr _ \<Rightarrow>
                           (case consume s (v_seen_nonces v) of
                              (Inl e, s') \<Rightarrow> (Inl (StorageFailure e), s')
                            | (Inr fresh, s') \<Rightarrow>
                                if \<not> fresh then (Inl NonceReplay, s')
                                else (Inr \<lparr>chain_depth = v_depth v, verified_scope_root = v_scope_root v,
                                           receipt_intent = intent, verified_at_unix = v_verified_at v,
                                           chain_fingerprint = v_chain_fingerprint v,
                                           receipt_namespace = namespace c\<rparr>, s')))));
          oc = (case fst result of
                  Inr _ \<Rightarrow> Authorized
                | Inl (PolicyViolation _) \<Rightarrow> PolicyViolated
                | Inl e \<Rightarrow> if is_transient_storage_failure e then StorageErrored else Denied);
          ev = audit_event_new E rnd oc principal_hex executor_hex (length (certs c)) intent now';
          ev = (case fst result of
                  Inr receipt \<Rightarrow> with_fingerprint E (chain_fingerprint receipt) ev
                | Inl e \<Rightarrow> with_error (display_error e) ev)
      in (result, ev))"

definition authorize_async ::
  "ext \<Rightarrow> bytes \<Rightarrow> bytes \<Rightarrow> bytes \<Rightarrow> merkle_proof \<Rightarrow> u64 \<Rightarrow> u64 \<Rightarrow> (bytes \<Rightarrow> storage_error + bool)
     \<Rightarrow> 'n consumer \<Rightarrow> dyolo_chain \<Rightarrow> 'n \<Rightarrow> (a1_error + verification_receipt) \<times> 'n" where
  "authorize_async E rnd agent_pk intent p now now' is_rev consume c s =
     fst (authorize_async_with_options E rnd agent_pk intent p now now' is_rev consume None c s)"

text \<open>The asynchronous authorization decides, stores and audits exactly as the synchronous one.\<close>

lemma authorize_async_eq:
  "authorize_async_with_options E rnd a i p now now' is_rev consume policy c s =
     authorize_with_options E rnd a i p now now' is_rev consume policy c s"
proof -
  define pol where "pol = (case policy of Some ps \<Rightarrow> set_check_chain ps c | None \<Rightarrow> Inr ())"
  have o: "(case x of Inr _ \<Rightarrow> Authorized | Inl (PolicyViolation _) \<Rightarrow> PolicyViolated
      | Inl e \<Rightarrow> if is_transient_storage_failure e then StorageErrored else Denied) = outcome_of x"
    for x :: "a1_error + verification_receipt"
  proof (cases x)
    case (Inl e)
    then show ?thesis by (cases e) (simp_all add: outcome_of_def is_policy_violation_def)
  qed (simp add: outcome_of_def)
  have inner: "(case pol of Inl e \<Rightarrow> (Inl e, s)
     | Inr _ \<Rightarrow> (case validate_structure E a i p now (drift_tolerance_secs c) c of
          Inl e \<Rightarrow> (Inl e, s)
        | Inr v \<Rightarrow> (case check_revocations is_rev (v_cert_fingerprints v) of
             Inl e \<Rightarrow> (Inl e, s)
           | Inr _ \<Rightarrow> (case consume s (v_seen_nonces v) of
                (Inl e, s') \<Rightarrow> (Inl (StorageFailure e), s')
              | (Inr fresh, s') \<Rightarrow> if \<not> fresh then (Inl NonceReplay, s')
                 else (Inr \<lparr>chain_depth = v_depth v, verified_scope_root = v_scope_root v,
                   receipt_intent = i, verified_at_unix = v_verified_at v,
                   chain_fingerprint = v_chain_fingerprint v, receipt_namespace = namespace c\<rparr>, s')))))
     = authorize_inner E a i p now is_rev consume policy c s"
    unfolding authorize_inner_def pol_def [symmetric]
    by (auto simp: receipt_of_def split: sum.splits prod.splits bool.splits)
  show ?thesis
    unfolding authorize_async_with_options_def Let_def pol_def [symmetric] inner o
    by (simp add: authorize_with_options_def authorize_event_def Let_def)
qed

text \<open>\<open>authorize_batch_async\<close>, its loop over the intents with the two growing vectors and the flag.\<close>

fun batch_loop ::
  "ext \<Rightarrow> dyolo_chain \<Rightarrow> chain_validation_result \<Rightarrow> u64 \<Rightarrow> nat \<Rightarrow> (bytes \<times> merkle_proof) list
     \<Rightarrow> verification_receipt option list \<Rightarrow> a1_error option list \<Rightarrow> bool
     \<Rightarrow> verification_receipt option list \<times> a1_error option list \<times> bool" where
  "batch_loop E c v now i [] rs es all_ok = (rs, es, all_ok)"
| "batch_loop E c v now i ((intent, p) # xs) rs es all_ok =
     (if intent_authorized E p intent (v_scope_root v)
      then batch_loop E c v now (i + 1) xs
             (rs @ [Some \<lparr>chain_depth = v_depth v, verified_scope_root = v_scope_root v, receipt_intent = intent,
                         verified_at_unix = now, chain_fingerprint = v_chain_fingerprint v,
                         receipt_namespace = namespace c\<rparr>]) (es @ [None]) all_ok
      else batch_loop E c v now (i + 1) xs (rs @ [None])
             (es @ [Some (BatchItemFailed i (display_error ScopeViolation))]) False)"

definition authorize_batch_async ::
  "ext \<Rightarrow> bytes \<Rightarrow> (bytes \<times> merkle_proof) list \<Rightarrow> u64 \<Rightarrow> u64 \<Rightarrow> (bytes \<Rightarrow> storage_error + bool)
     \<Rightarrow> 'n consumer \<Rightarrow> dyolo_chain \<Rightarrow> 'n \<Rightarrow> batch_authorize_result \<times> 'n" where
  "authorize_batch_async E agent_pk intents now now' is_rev consume c s =
     (if intents = [] then (\<lparr>receipts = [], errors = [], all_authorized = True\<rparr>, s)
      else
        let n = length intents in
        case validate_structure E agent_pk (fst (intents ! 0)) (snd (intents ! 0)) now'
               (drift_tolerance_secs c) c of
          Inl e \<Rightarrow> (\<lparr>receipts = replicate n None,
                     errors = map (\<lambda>i. Some (BatchItemFailed i (display_error e))) [0..<n],
                     all_authorized = False\<rparr>, s)
        | Inr v \<Rightarrow>
            (case check_revocations_batch is_rev n (v_cert_fingerprints v) of
               Inl b \<Rightarrow> (b, s)
             | Inr _ \<Rightarrow>
                 (case batch_loop E c v now 0 intents [] [] True of
                    (rs, es, all_ok) \<Rightarrow>
                      if \<not> all_ok then (\<lparr>receipts = rs, errors = es, all_authorized = False\<rparr>, s)
                      else (case consume s (v_seen_nonces v) of
                          (Inr True, s') \<Rightarrow> (\<lparr>receipts = rs, errors = es, all_authorized = True\<rparr>, s')
                        | (Inr False, s') \<Rightarrow>
                            (\<lparr>receipts = replicate n None, errors = map (\<lambda>_. Some NonceReplay) [0..<n],
                              all_authorized = False\<rparr>, s')
                        | (Inl e, s') \<Rightarrow>
                            (\<lparr>receipts = replicate n None,
                              errors = map (\<lambda>_. Some (BatchItemFailed 0 (display_error (StorageFailure e)))) [0..<n],
                              all_authorized = False\<rparr>, s')))))"

lemma batch_loop_eq:
  "batch_loop E c v now i xs rs es ok =
     (let items = map (\<lambda>(j, x). batch_item E c v now j x) (zip [i..<i + length xs] xs)
      in (rs @ map fst items, es @ map snd items, ok \<and> list_all (\<lambda>e. e = None) (map snd items)))"
proof (induction xs arbitrary: i rs es ok)
  case Nil
  then show ?case by simp
next
  case (Cons x xs)
  obtain intent p where x: "x = (intent, p)" by (cases x)
  have u: "[i..<i + length (x # xs)] = i # [i + 1..<i + 1 + length xs]"
    by (subst upt_conv_Cons) simp_all
  have h: "batch_item E c v now i (intent, p) =
      (if intent_authorized E p intent (v_scope_root v)
       then (Some \<lparr>chain_depth = v_depth v, verified_scope_root = v_scope_root v, receipt_intent = intent,
                   verified_at_unix = now, chain_fingerprint = v_chain_fingerprint v,
                   receipt_namespace = namespace c\<rparr>, None)
       else (None, Some (BatchItemFailed i (display_error ScopeViolation))))"
    by (simp add: batch_item_def receipt_of_def)
  show ?case unfolding x batch_loop.simps Cons.IH u [unfolded x]
    by (cases "intent_authorized E p intent (v_scope_root v)") (simp_all add: Let_def h)
qed

lemma authorize_batch_async_eq:
  "authorize_batch_async E a intents now now' is_rev consume c s =
     authorize_batch E a intents now now' is_rev consume c s"
  unfolding authorize_batch_async_def authorize_batch_def batch_loop_eq Let_def batch_failure_def
  by (cases "intents = []")
    (simp_all only: if_True if_False hd_conv_nth append_Nil add_0_left simp_thms prod.case not_False_eq_True)

text \<open>A store behind an adapter whose tasks do not fail is the store itself.\<close>

lemma adapt_joined: "adapt_is_revoked (\<lambda>_. None) is_rev = is_rev" "adapt_consume None consume = consume"
  by (rule HOL.ext, simp add: adapt_is_revoked_def adapt_def)
    (rule HOL.ext, rule HOL.ext, simp add: adapt_consume_def adapt_def)

text \<open>A consuming task that is not joined reports an error, so nothing is granted.\<close>

lemma adapt_consume_unjoined: "fst (adapt_consume (Some m) consume s ns) = Inl (storage_transient m)"
  by (simp add: adapt_consume_def adapt_def split: prod.splits)

lemma adapt_consume_not_Inr [simp]: "adapt_consume (Some m) consume s ns \<noteq> (Inr b, s')"
  using adapt_consume_unjoined [of m consume s ns] by (metis Inl_Inr_False fst_conv)

lemma unjoined_not_granted:
  "fst (fst (authorize_with_options E rnd a i p now now' is_rev (adapt_consume (Some m) consume) policy c s)) \<noteq> Inr rc"
  by (auto simp: authorize_with_options_def authorize_inner_def Let_def split: sum.splits prod.splits bool.splits)

lemma unjoined_batch:
  "all_authorized (fst (authorize_batch E a intents now now' is_rev (adapt_consume (Some m) consume) c s)) \<longleftrightarrow> intents = []"
proof -
  have f: "\<not> all_authorized b" if "check_revocations_batch is_rev n fps = Inl b" for n fps b
    using that by (induction fps) (auto simp: batch_failure_def split: sum.splits bool.splits)
  show ?thesis
    unfolding authorize_batch_def Let_def
    by (auto simp: batch_failure_def dest: f split: sum.splits prod.splits bool.splits)
qed

section \<open>The context\<close>

record a1_context =
  ctx_policy :: "policy_set option"
  ctx_namespace :: "string option"

text \<open>The builder: every dependency optional; the stores default to empty in-memory ones.\<close>

record a1_context_builder =
  cb_revocation :: "memory_revocation_store option"
  cb_nonces :: "memory_nonce_store option"
  cb_policy :: "policy_set option"
  cb_namespace :: "string option"

definition context_builder :: a1_context_builder where
  "context_builder = \<lparr>cb_revocation = None, cb_nonces = None, cb_policy = None, cb_namespace = None\<rparr>"

definition cb_set_revocation :: "memory_revocation_store \<Rightarrow> a1_context_builder \<Rightarrow> a1_context_builder" where
  "cb_set_revocation r b = b\<lparr>cb_revocation := Some r\<rparr>"
definition cb_set_nonces :: "memory_nonce_store \<Rightarrow> a1_context_builder \<Rightarrow> a1_context_builder" where
  "cb_set_nonces n b = b\<lparr>cb_nonces := Some n\<rparr>"
definition cb_set_policy :: "policy_set \<Rightarrow> a1_context_builder \<Rightarrow> a1_context_builder" where
  "cb_set_policy p b = b\<lparr>cb_policy := Some p\<rparr>"
definition cb_set_namespace :: "string \<Rightarrow> a1_context_builder \<Rightarrow> a1_context_builder" where
  "cb_set_namespace ns b = b\<lparr>cb_namespace := Some ns\<rparr>"

definition cb_build :: "a1_context_builder \<Rightarrow> a1_context \<times> memory_revocation_store \<times> memory_nonce_store" where
  "cb_build b = (\<lparr>ctx_policy = cb_policy b, ctx_namespace = cb_namespace b\<rparr>,
     case cb_revocation b of Some r \<Rightarrow> r | None \<Rightarrow> mem_rev_new,
     case cb_nonces b of Some n \<Rightarrow> n | None \<Rightarrow> mem_nonce_new)"

definition ctx_authorize ::
  "ext \<Rightarrow> bytes \<Rightarrow> a1_context \<Rightarrow> dyolo_chain \<Rightarrow> bytes \<Rightarrow> bytes \<Rightarrow> merkle_proof \<Rightarrow> u64 \<Rightarrow> u64
     \<Rightarrow> (bytes \<Rightarrow> storage_error + bool) \<Rightarrow> 'n consumer \<Rightarrow> 'n
     \<Rightarrow> ((a1_error + verification_receipt) \<times> 'n) \<times> audit_event" where
  "ctx_authorize E rnd ctx c agent_pk intent p now now' is_rev consume s =
     authorize_with_options E rnd agent_pk intent p now now' is_rev consume (ctx_policy ctx) c s"

definition ctx_authorize_batch ::
  "ext \<Rightarrow> a1_context \<Rightarrow> dyolo_chain \<Rightarrow> bytes \<Rightarrow> (bytes \<times> merkle_proof) list \<Rightarrow> u64 \<Rightarrow> u64
     \<Rightarrow> (bytes \<Rightarrow> storage_error + bool) \<Rightarrow> 'n consumer \<Rightarrow> 'n \<Rightarrow> batch_authorize_result \<times> 'n" where
  "ctx_authorize_batch E ctx c agent_pk intents now now' is_rev consume s =
     authorize_batch E agent_pk intents now now' is_rev consume c s"

text \<open>\<open>AsyncA1Context\<close>: the same, over the asynchronous authorization.\<close>

definition actx_authorize ::
  "ext \<Rightarrow> bytes \<Rightarrow> a1_context \<Rightarrow> dyolo_chain \<Rightarrow> bytes \<Rightarrow> bytes \<Rightarrow> merkle_proof \<Rightarrow> u64 \<Rightarrow> u64
     \<Rightarrow> (bytes \<Rightarrow> storage_error + bool) \<Rightarrow> 'n consumer \<Rightarrow> 'n
     \<Rightarrow> ((a1_error + verification_receipt) \<times> 'n) \<times> audit_event" where
  "actx_authorize E rnd ctx c agent_pk intent p now now' is_rev consume s =
     authorize_async_with_options E rnd agent_pk intent p now now' is_rev consume (ctx_policy ctx) c s"

definition actx_authorize_batch ::
  "ext \<Rightarrow> a1_context \<Rightarrow> dyolo_chain \<Rightarrow> bytes \<Rightarrow> (bytes \<times> merkle_proof) list \<Rightarrow> u64 \<Rightarrow> u64
     \<Rightarrow> (bytes \<Rightarrow> storage_error + bool) \<Rightarrow> 'n consumer \<Rightarrow> 'n \<Rightarrow> batch_authorize_result \<times> 'n" where
  "actx_authorize_batch E ctx c agent_pk intents now now' is_rev consume s =
     authorize_batch_async E agent_pk intents now now' is_rev consume c s"

definition ctx_health_check :: "storage_error + unit \<Rightarrow> storage_error + unit \<Rightarrow> a1_error + unit" where
  "ctx_health_check rev_health nonce_health =
     bindR (map_errR (\<lambda>e. StorageUnhealthy (''revocation: '' @ display_storage_error e)) rev_health) (\<lambda>_.
     map_errR (\<lambda>e. StorageUnhealthy (''nonces: '' @ display_storage_error e)) nonce_health)"

text \<open>
  The context's policy guards \<open>authorize\<close> and not \<open>authorize_batch\<close>: a chain the policy refuses is
  authorized when its one intent is sent as a batch.
\<close>

lemma ctx_batch_without_policy:
  assumes "mem_rev_inv r" "nonce_inv s" "batch_complete E" "batch_sound E"
    and "ctx_policy ctx = Some ps" "set_check_chain ps c = Inl e"
    and "chain_valid E a i p now (drift_tolerance_secs c) c"
    and "chain_fps E c \<inter> revoked_set r = {}" "chain_nonces c \<inter> live t s = {}"
  shows "fst (fst (ctx_authorize E rnd ctx c a i p now now' (mem_is_revoked r) (mem_try_consume_batch t) s)) = Inl e"
    and "\<exists>b s'. ctx_authorize_batch E ctx c a [(i, p)] now now (mem_is_revoked r) (mem_try_consume_batch t) s = (b, s')
      \<and> all_authorized b \<and> authorized_count b = 1"
proof -
  show "fst (fst (ctx_authorize E rnd ctx c a i p now now' (mem_is_revoked r) (mem_try_consume_batch t) s)) = Inl e"
    using assms(5,6) by (simp add: ctx_authorize_def authorize_with_options_def Let_def authorize_inner_def)
  have "\<forall>x\<in>set [(i, p)]. intent_authorized E (snd x) (fst x) (leaf_scope (principal_scope c) (certs c))"
    using assms(7) by (simp add: chain_valid_def)
  with mem_auth.batch_ok [OF assms(1-4), of "[(i, p)]" a now c t now] assms(7-9)
  show "\<exists>b s'. ctx_authorize_batch E ctx c a [(i, p)] now now (mem_is_revoked r) (mem_try_consume_batch t) s = (b, s')
      \<and> all_authorized b \<and> authorized_count b = 1"
    by (auto simp: ctx_authorize_batch_def authorized_count_def)
qed

end
