(* ===== verification/A1_Gateway.thy ===== *)
theory A1_Gateway
  imports A1_Context A1_Wire A1_Negotiate
begin

text \<open>
  The gateway's frame: \<open>a1-gateway/src/main.rs\<close> (the route tables and the three middleware layers),
  the configuration of \<open>state.rs\<close>, and the authorization routes \<open>routes/authorize.rs\<close> (shared by
  \<open>routes/passport.rs\<close>), \<open>routes/batch.rs\<close> and \<open>routes/chain.rs\<close>. A response is its status with an
  error or a body. The environment is a map of variables; the rate limiter of the \<open>governor\<close> crate,
  the connections of the stores and the random bytes are parameters. A \<open>HashMap\<close> of a request is the
  list of its entries in the order the map is iterated.
\<close>

section \<open>Routes and middleware\<close>

type_synonym environment = "string \<Rightarrow> string option"
type_synonym 'a response = "nat \<times> 'a"

text \<open>A path is matched by segments; \<open>Any\<close> stands for a segment that is a parameter.\<close>

datatype segment = Lit string | Any

fun segments_match :: "segment list \<Rightarrow> string list \<Rightarrow> bool" where
  "segments_match [] [] = True"
| "segments_match (Lit s # ps) (x # xs) = (s = x \<and> segments_match ps xs)"
| "segments_match (Any # ps) (x # xs) = segments_match ps xs"
| "segments_match _ _ = False"

definition v1 :: "string list \<Rightarrow> segment list" where
  "v1 ss = map Lit (''v1'' # ss)"

definition admin_routes :: "(string \<times> segment list) list" where
  "admin_routes = map (Pair ''POST'')
     [v1 [''cert'', ''issue''], v1 [''cert'', ''issue-batch''], v1 [''vc'', ''issue''],
      v1 [''swarm'', ''create''], v1 [''swarm'', ''member'', ''add''], v1 [''swarm'', ''member'', ''remove''],
      v1 [''governance'', ''audit-report''], v1 [''webhook'', ''test''], v1 [''jwt'', ''exchange'']]"

definition public_posts :: "segment list list" where
  "public_posts =
     [v1 [''authorize''], v1 [''authorize'', ''batch''], v1 [''passport'', ''authorize''],
      v1 [''studio'', ''check''], v1 [''cert'', ''revoke''], v1 [''cert'', ''revoke-batch''],
      v1 [''token'', ''verify''], v1 [''vc'', ''verify''], v1 [''anchor''], v1 [''negotiate''],
      v1 [''governance'', ''approval'', ''verify''], v1 [''ai'', ''chat''], [Lit ''mcp''],
      v1 [''agents'', ''connect''], v1 [''agents'', ''restart''], v1 [''agents'', ''remove''],
      v1 [''agents'', ''probe-live''], v1 [''agents'', ''probe''], v1 [''agents'', ''relay''],
      v1 [''agents'', ''read-file''], v1 [''agents'', ''write-file''],
      v1 [''passports'', ''issue''], v1 [''passports'', ''renew''], v1 [''passports'', ''restore''],
      v1 [''passports'', ''revoke-by-namespace''], v1 [''system'', ''autostart''],
      v1 [''system'', ''shutdown''], v1 [''system'', ''force-stop''], v1 [''agents'', ''disconnect''],
      v1 [''system'', ''install-docker''], v1 [''system'', ''gitignore-add''],
      v1 [''debug'', ''explain-error'']]"

definition public_gets :: "segment list list" where
  "public_gets =
     [[Lit ''health''], [Lit ''healthz''], [Lit ''studio''], [Lit ''studio'', Lit ''''],
      [Lit ''.well-known'', Lit ''a1-configuration''], v1 [''cert''] @ [Any], v1 [''did'', ''gateway''],
      v1 [''did''] @ [Any], v1 [''swarm''] @ [Any, Lit ''members''], v1 [''governance'', ''policy''],
      v1 [''ai'', ''status''], [Lit ''mcp''], [Lit ''mcp'', Lit ''tools''], v1 [''agents'', ''scan''],
      v1 [''agents'', ''pull''], v1 [''agents'', ''integration-check''], v1 [''agents'', ''list-files''],
      v1 [''passports'', ''list''], v1 [''passports'', ''read''], v1 [''system'', ''status''],
      v1 [''tenant'', ''info''], v1 [''tenant'', ''config''], v1 [''webhook'', ''status'']]"

definition public_routes :: "(string \<times> segment list) list" where
  "public_routes = map (Pair ''POST'') public_posts @ map (Pair ''GET'') public_gets
     @ [(''DELETE'', v1 [''system'', ''autostart''])]"

text \<open>
  The router picks a path before it looks at the method, and a path written out before one with a
  parameter: \<open>GET /v1/cert/issue\<close> is not \<open>/v1/cert/:fp\<close>. (A route for GET also takes HEAD, which
  is left out.)
\<close>

definition written_out :: "string list \<Rightarrow> bool" where
  "written_out path \<longleftrightarrow> list_ex (\<lambda>(m, p). p = map Lit path) (admin_routes @ public_routes)"

definition has_path :: "(string \<times> segment list) list \<Rightarrow> string list \<Rightarrow> bool" where
  "has_path rs path \<longleftrightarrow>
     (let exact = written_out path in list_ex (\<lambda>(m, p). if exact then p = map Lit path else segments_match p path) rs)"

definition has_route :: "(string \<times> segment list) list \<Rightarrow> string \<Rightarrow> string list \<Rightarrow> bool" where
  "has_route rs m path \<longleftrightarrow> has_path (filter (\<lambda>(m', p). m' = m) rs) path"

text \<open>\<open>require_auth\<close>: with no secret configured every request passes.\<close>

definition require_auth :: "string option \<Rightarrow> string option \<Rightarrow> (string + 'b) response \<Rightarrow> (string + 'b) response" where
  "require_auth secret auth_header run =
     (case secret of
        Some sec \<Rightarrow> if auth_header \<noteq> Some (''Bearer '' @ sec) then (401, Inl ''invalid or missing admin secret'') else run
      | None \<Rightarrow> run)"

definition per_ip_rate_limit :: "('l \<Rightarrow> 'i \<Rightarrow> bool \<times> 'l) \<Rightarrow> 'l \<Rightarrow> 'i \<Rightarrow> (string + 'b) response \<Rightarrow> (string + 'b) response \<times> 'l" where
  "per_ip_rate_limit check_key lim ip run =
     (case check_key lim ip of (ok, lim') \<Rightarrow> ((if \<not> ok then (429, Inl ''rate limit exceeded'') else run), lim'))"

definition inject_protocol_header :: "'b response \<Rightarrow> 'b response \<times> string \<times> string" where
  "inject_protocol_header r = (r, ''X-A1-Protocol'', ''dyolo_v2.8.0'')"

text \<open>
  The service of \<open>main\<close>: the header outside the rate limit, the rate limit outside the router, and the
  secret on the admin routes only, where it comes before the answer to a method the path does not have.
  \<open>run\<close> is what the handler of the route answers.
\<close>

definition serve ::
  "string option \<Rightarrow> ('l \<Rightarrow> 'i \<Rightarrow> bool \<times> 'l) \<Rightarrow> 'l \<Rightarrow> 'i \<Rightarrow> string \<Rightarrow> string list \<Rightarrow> string option
     \<Rightarrow> (string + 'b) response \<Rightarrow> ((string + 'b) response \<times> string \<times> string) \<times> 'l" where
  "serve secret check_key lim ip m path auth_header run =
     (let answer = (if has_route admin_routes m path then require_auth secret auth_header run
                    else if has_route public_routes m path then run
                    else if has_path admin_routes path then require_auth secret auth_header (405, Inl '''')
                    else (if has_path public_routes path then 405 else 404, Inl ''''));
          (r, lim') = per_ip_rate_limit check_key lim ip answer
      in (inject_protocol_header r, lim'))"

section \<open>Configuration\<close>

record app_state =
  signing_identity :: signer
  mac_key :: bytes
  gw_pk_hex :: string
  admin_secret :: "string option"
  webhook_url :: "string option"
  webhook_secret :: "string option"

datatype store_backend = RedisBackend string | PgBackend string | MemoryBackend

text \<open>\<open>u32::from_str\<close>: an optional plus sign, then decimal digits, within the type.\<close>

fun dec_digits :: "nat \<Rightarrow> string \<Rightarrow> nat option" where
  "dec_digits acc [] = Some acc"
| "dec_digits acc (c # cs) =
     (let n = of_char c :: nat in if 48 \<le> n \<and> n \<le> 57 then dec_digits (10 * acc + (n - 48)) cs else None)"

definition parse_uint :: "nat \<Rightarrow> string \<Rightarrow> nat option" where
  "parse_uint width s =
     (let ds = (case s of c # cs \<Rightarrow> if c = CHR ''+'' then cs else s | [] \<Rightarrow> []) in
      if ds = [] then None
      else case dec_digits 0 ds of Some n \<Rightarrow> if n < 2 ^ width then Some n else None | None \<Rightarrow> None)"

text \<open>\<open>identity_of\<close> is \<open>DyoloIdentity::from_signing_bytes\<close>, \<open>generated\<close> and \<open>base\<close> what the operating system's generator gives.\<close>

definition signing_identity_from_env :: "ext \<Rightarrow> (bytes \<Rightarrow> signer) \<Rightarrow> signer \<Rightarrow> environment \<Rightarrow> string + signer" where
  "signing_identity_from_env E identity_of generated env =
     (case env ''A1_SIGNING_KEY_HEX'' of
        Some h \<Rightarrow>
          bindR (ok_or ''A1_SIGNING_KEY_HEX must be valid hex'' (hex_dec E h)) (\<lambda>b.
          if length b \<noteq> 32 then Inl ''A1_SIGNING_KEY_HEX must be exactly 32 bytes (64 hex chars)''
          else if b = replicate 32 0
          then Inl (''A1_SIGNING_KEY_HEX cannot be all zeros '' @ [CHR 0xE2, CHR 0x80, CHR 0x94]
                 @ '' generate a real key with `a1 keygen` and set it in your environment.'')
          else Inr (identity_of b))
      | None \<Rightarrow> Inr generated)"

definition mac_key_from_env :: "ext \<Rightarrow> (string \<Rightarrow> string) \<Rightarrow> bytes \<Rightarrow> environment \<Rightarrow> string + bytes" where
  "mac_key_from_env E hex_msg base env =
     (case env ''A1_MAC_KEY_HEX'' of
        Some h \<Rightarrow> bindR (ok_or (hex_msg h) (hex_dec E h)) (\<lambda>b.
                 if length b = 32 then Inr b else Inl ''A1_MAC_KEY_HEX must be 32 bytes'')
      | None \<Rightarrow> Inr (h_finalize E (h_updates (new_derive_key ''a1::64796f6c6f::mac::ephemeral::v2.8.0'') [base])))"

definition backend_from_env :: "environment \<Rightarrow> store_backend" where
  "backend_from_env env =
     (case env ''A1_REDIS_URL'' of
        Some u \<Rightarrow> RedisBackend u
      | None \<Rightarrow> (case env ''A1_PG_URL'' of Some u \<Rightarrow> PgBackend u | None \<Rightarrow> MemoryBackend))"

definition rps_from_env :: "environment \<Rightarrow> nat" where
  "rps_from_env env =
     max (case Option.bind (env ''A1_RATE_LIMIT_RPS'') (parse_uint 32) of Some n \<Rightarrow> n | None \<Rightarrow> 500) 1"

definition state_from_env ::
  "ext \<Rightarrow> (bytes \<Rightarrow> signer) \<Rightarrow> signer \<Rightarrow> (string \<Rightarrow> string) \<Rightarrow> bytes \<Rightarrow> environment \<Rightarrow> string + app_state" where
  "state_from_env E identity_of generated hex_msg base env =
     bindR (signing_identity_from_env E identity_of generated env) (\<lambda>s.
     bindR (mac_key_from_env E hex_msg base env) (\<lambda>k.
     Inr \<lparr>signing_identity = s, mac_key = k, gw_pk_hex = hex_enc E (verifying_key s),
          admin_secret = env ''A1_ADMIN_SECRET'', webhook_url = env ''A1_WEBHOOK_URL'',
          webhook_secret = env ''A1_WEBHOOK_SECRET''\<rparr>))"

section \<open>Single authorization\<close>

record authorize_request =
  ag_chain :: signed_chain
  ag_intent_name :: string
  ag_intent_params :: "(string \<times> string) list"
  ag_executor_pk_hex :: string
  ag_return_token :: bool
  ag_request_id :: "string option"

record authorize_receipt =
  ao_chain_depth :: nat
  ao_fingerprint_hex :: string
  ao_verified_at_unix :: u64
  ao_passport_namespace :: string
  ao_capability_mask_hex :: string
  ao_narrowing_commitment_hex :: string

record authorize_response =
  ao_authorized :: bool
  ao_depth :: nat
  ao_fingerprint :: string
  ao_verified_at :: u64
  ao_error_code :: "string option"
  ao_receipt :: authorize_receipt
  ao_token :: "verified_token option"

record error_body =
  eb_error :: string
  eb_code :: string

text \<open>The executor's key, with the texts the routes share.\<close>

definition executor_key :: "ext \<Rightarrow> string \<Rightarrow> a1_error + bytes" where
  "executor_key E h =
     bindR (ok_or (WireFormatError ''invalid executor_pk_hex'') (hex_dec E h)) (\<lambda>b.
     bindR (fixed_bytes 32 ''executor_pk must be 32 bytes'' b) (\<lambda>arr.
     if ed_valid_pk E arr then Inr arr else Inl (WireFormatError ''invalid executor Ed25519 key'')))"

fun add_params :: "(string \<times> string) list \<Rightarrow> intent \<Rightarrow> a1_error + intent" where
  "add_params [] i = Inr i"
| "add_params ((k, v) # ps) i = bindR (intent_try_param i k v) (add_params ps)"

definition build_intent :: "string \<Rightarrow> (string \<times> string) list \<Rightarrow> a1_error + intent" where
  "build_intent name ps = bindR (intent_try_new name) (add_params ps)"

definition ext_text :: "cert_extensions \<Rightarrow> string \<Rightarrow> string" where
  "ext_text x key = (case ext_get x key of Some (ExtStr s) \<Rightarrow> s | _ \<Rightarrow> [])"

definition extract_passport_fields :: "ext \<Rightarrow> signed_chain \<Rightarrow> string \<times> string \<times> string" where
  "extract_passport_fields E chain =
     (if sc_certs chain = [] then ([], [], [])
      else let last_cert = last (sc_certs chain);
               ns = ext_text (extensions last_cert) ''dyolo.passport.namespace'';
               mask_hex = ext_text (extensions last_cert) ''dyolo.passport.mask'';
               commitment_hex = (if mask_hex \<noteq> [] then
                  (case mask_from_hex E mask_hex of Inr m \<Rightarrow> hex_enc E (mask_commitment E m) | Inl _ \<Rightarrow> []) else [])
           in (ns, mask_hex, commitment_hex))"

text \<open>What the response makes of a receipt.\<close>

definition authorize_response_of ::
  "ext \<Rightarrow> app_state \<Rightarrow> authorize_request \<Rightarrow> verification_receipt \<Rightarrow> authorize_response" where
  "authorize_response_of E st req rc =
     (case extract_passport_fields E (ag_chain req) of (ext_namespace, mask_hex, commitment_hex) \<Rightarrow>
       (let token = (if ag_return_token req then Some (token_sign E rc (mac_key st)) else None);
            fp = receipt_fingerprint_hex E rc;
            ns = (case receipt_namespace rc of Some s \<Rightarrow> if s \<noteq> [] then s else ext_namespace | None \<Rightarrow> ext_namespace);
            mask_hex = (if mask_hex \<noteq> [] then mask_hex else concat (replicate 32 ''00''));
            commitment_hex = (if commitment_hex \<noteq> [] then commitment_hex else hex_enc E (mask_commitment E EMPTY))
        in \<lparr>ao_authorized = True, ao_depth = chain_depth rc, ao_fingerprint = fp,
            ao_verified_at = verified_at_unix rc, ao_error_code = None,
            ao_receipt = \<lparr>ao_chain_depth = chain_depth rc, ao_fingerprint_hex = fp,
              ao_verified_at_unix = verified_at_unix rc, ao_passport_namespace = ns,
              ao_capability_mask_hex = mask_hex, ao_narrowing_commitment_hex = commitment_hex\<rparr>,
            ao_token = token\<rparr>))"

definition gw_authorize_inner ::
  "ext \<Rightarrow> (string \<Rightarrow> string) \<Rightarrow> (bytes \<Rightarrow> string) \<Rightarrow> bytes \<Rightarrow> app_state \<Rightarrow> u64 \<Rightarrow> u64
     \<Rightarrow> (bytes \<Rightarrow> storage_error + bool) \<Rightarrow> 'n consumer \<Rightarrow> authorize_request \<Rightarrow> 'n
     \<Rightarrow> (a1_error + authorize_response) \<times> 'n" where
  "gw_authorize_inner E hex_msg pk_msg rnd st now now' is_rev consume req s =
     (case bindR (executor_key E (ag_executor_pk_hex req)) (\<lambda>pk.
           bindR (build_intent (ag_intent_name req) (ag_intent_params req)) (\<lambda>i.
           bindR (into_chain_with_drift E hex_msg pk_msg 15 (ag_chain req)) (\<lambda>c.
           Inr (pk, intent_hash_of E i, c)))) of
        Inl e \<Rightarrow> (Inl e, s)
      | Inr (pk, intent, c) \<Rightarrow>
          (case authorize_async E rnd pk intent proof_default now now' is_rev consume c s of
             (Inl e, s') \<Rightarrow> (Inl e, s')
           | (Inr rc, s') \<Rightarrow> (Inr (authorize_response_of E st req rc), s')))"

section \<open>Webhook events\<close>

record webhook_event =
  we_event :: string
  we_schema_ver :: u8
  we_provenance :: string
  we_timestamp :: u64
  we_authorized :: bool
  we_chain_depth :: nat
  we_fingerprint :: string
  we_intent_hex :: string
  we_namespace :: "string option"
  we_error_code :: "string option"
  we_request_id :: "string option"
  we_tenant_id :: "string option"

definition from_authorization ::
  "bool \<Rightarrow> nat \<Rightarrow> string \<Rightarrow> string \<Rightarrow> string option \<Rightarrow> string option \<Rightarrow> string option \<Rightarrow> string option \<Rightarrow> u64
     \<Rightarrow> webhook_event" where
  "from_authorization ok d fp ih ns code rid tenant ts =
     \<lparr>we_event = ''authorization.result'', we_schema_ver = 1, we_provenance = ''64796f6c6f'', we_timestamp = ts,
      we_authorized = ok, we_chain_depth = d, we_fingerprint = fp, we_intent_hex = ih,
      we_namespace = ns, we_error_code = code, we_request_id = rid, we_tenant_id = tenant\<rparr>"

text \<open>\<open>dispatch\<close>: the events handed to the delivery task.\<close>

definition dispatch :: "app_state \<Rightarrow> webhook_event \<Rightarrow> webhook_event list" where
  "dispatch st ev = (if webhook_url st = None then [] else [ev])"

text \<open>\<open>authorize::handler\<close>, with its clock reading \<open>now0\<close>, also mounted at \<open>/v1/passport/authorize\<close>.\<close>

definition authorize_handler ::
  "ext \<Rightarrow> (string \<Rightarrow> string) \<Rightarrow> (bytes \<Rightarrow> string) \<Rightarrow> bytes \<Rightarrow> app_state \<Rightarrow> u64 \<Rightarrow> u64 \<Rightarrow> u64
     \<Rightarrow> (bytes \<Rightarrow> storage_error + bool) \<Rightarrow> 'n consumer \<Rightarrow> authorize_request \<Rightarrow> 'n
     \<Rightarrow> ((error_body + authorize_response) response \<times> 'n) \<times> webhook_event list" where
  "authorize_handler E hex_msg pk_msg rnd st now0 now now' is_rev consume req s =
     (case gw_authorize_inner E hex_msg pk_msg rnd st now now' is_rev consume req s of
        (Inr resp, s') \<Rightarrow>
          (let intent_hex = hex_enc E (b3_hash E (str_bytes (ag_intent_name req)));
               ns = ao_passport_namespace (ao_receipt resp);
               ev = from_authorization True (ao_depth resp) (ao_fingerprint resp) intent_hex
                      (if ns = [] then None else Some ns) None (ag_request_id req) None now0
           in (((200, Inr resp), s'), dispatch st ev))
      | (Inl e, s') \<Rightarrow>
          (let status = (if is_transient_storage_failure e then 503 else 403) in
           (((status, Inl \<lparr>eb_error = display_error e, eb_code = error_code e\<rparr>), s'), [])))"

section \<open>Batches\<close>

definition MAX_BATCH_SIZE :: nat where "MAX_BATCH_SIZE = 256"

record intent_request =
  ir_name :: string
  ir_params :: "(string \<times> string) list"

record batch_authorize_request =
  br_chain :: signed_chain
  br_executor_pk_hex :: string
  br_intents :: "intent_request list"

record batch_response_item =
  bi_intent_name :: string
  bi_authorized :: bool
  bi_fingerprint :: "string option"
  bi_error :: "string option"
  bi_error_code :: "string option"

record batch_authorize_response =
  bo_all_authorized :: bool
  bo_authorized_count :: nat
  bo_total_count :: nat
  bo_results :: "batch_response_item list"

definition intent_pairs :: "ext \<Rightarrow> intent_request list \<Rightarrow> a1_error + (bytes \<times> merkle_proof) list" where
  "intent_pairs E rs = traverse (\<lambda>r. bindR (build_intent (ir_name r) (ir_params r)) (\<lambda>i. Inr (intent_hash_of E i, proof_default))) rs"

definition batch_response_of :: "ext \<Rightarrow> intent_request list \<Rightarrow> batch_authorize_result \<Rightarrow> batch_authorize_response" where
  "batch_response_of E rs b =
     \<lparr>bo_all_authorized = all_authorized b, bo_authorized_count = authorized_count b, bo_total_count = length rs,
      bo_results = map (\<lambda>i. \<lparr>bi_intent_name = ir_name (rs ! i), bi_authorized = (receipts b ! i \<noteq> None),
         bi_fingerprint = map_option (\<lambda>r. hex_enc E (chain_fingerprint r)) (receipts b ! i),
         bi_error = map_option display_error (errors b ! i), bi_error_code = map_option error_code (errors b ! i)\<rparr>)
        [0..<length rs]\<rparr>"

definition batch_inner ::
  "ext \<Rightarrow> (string \<Rightarrow> string) \<Rightarrow> (bytes \<Rightarrow> string) \<Rightarrow> u64 \<Rightarrow> u64 \<Rightarrow> (bytes \<Rightarrow> storage_error + bool) \<Rightarrow> 'n consumer
     \<Rightarrow> batch_authorize_request \<Rightarrow> 'n \<Rightarrow> (a1_error + batch_authorize_response) \<times> 'n" where
  "batch_inner E hex_msg pk_msg now now' is_rev consume req s =
     (if length (br_intents req) > MAX_BATCH_SIZE
      then (Inl (WireFormatError (''Batch size '' @ dec (length (br_intents req)) @ '' exceeds maximum allowed of ''
              @ dec MAX_BATCH_SIZE)), s)
      else case bindR (executor_key E (br_executor_pk_hex req)) (\<lambda>pk.
                bindR (into_chain_with_drift E hex_msg pk_msg 15 (br_chain req)) (\<lambda>c.
                bindR (intent_pairs E (br_intents req)) (\<lambda>ps. Inr (pk, c, ps)))) of
             Inl e \<Rightarrow> (Inl e, s)
           | Inr (pk, c, ps) \<Rightarrow>
               (case authorize_batch_async E pk ps now now' is_rev consume c s of
                  (b, s') \<Rightarrow> (Inr (batch_response_of E (br_intents req) b), s')))"

definition batch_handler ::
  "ext \<Rightarrow> (string \<Rightarrow> string) \<Rightarrow> (bytes \<Rightarrow> string) \<Rightarrow> u64 \<Rightarrow> u64 \<Rightarrow> (bytes \<Rightarrow> storage_error + bool) \<Rightarrow> 'n consumer
     \<Rightarrow> batch_authorize_request \<Rightarrow> 'n \<Rightarrow> (error_body + batch_authorize_response) response \<times> 'n" where
  "batch_handler E hex_msg pk_msg now now' is_rev consume req s =
     (case batch_inner E hex_msg pk_msg now now' is_rev consume req s of
        (Inr resp, s') \<Rightarrow> ((200, Inr resp), s')
      | (Inl e, s') \<Rightarrow> ((400, Inl \<lparr>eb_error = display_error e, eb_code = error_code e\<rparr>), s'))"

section \<open>Token verification\<close>

record verify_token_response =
  vo_valid :: bool
  vo_chain_depth :: nat
  vo_fingerprint :: string
  vo_verified_at :: u64

definition verify_token_handler :: "ext \<Rightarrow> app_state \<Rightarrow> verified_token \<Rightarrow> (string + verify_token_response) response" where
  "verify_token_handler E st t =
     (case token_verify E t (mac_key st) of
        Inr r \<Rightarrow> (200, Inr \<lparr>vo_valid = True, vo_chain_depth = chain_depth r,
                        vo_fingerprint = receipt_fingerprint_hex E r, vo_verified_at = verified_at_unix r\<rparr>)
      | Inl e \<Rightarrow> (401, Inl (display_error e)))"

section \<open>What the layers and the routes do\<close>

lemmas route_simps = has_route_def has_path_def written_out_def admin_routes_def public_routes_def public_posts_def
  public_gets_def v1_def

lemma has_admin_cert_issue: "has_route admin_routes ''POST'' [''v1'', ''cert'', ''issue'']"
  by (simp add: route_simps)

lemma revoke_routes_public:
  "has_route public_routes ''POST'' [''v1'', ''cert'', ''revoke'']" "\<not> has_route admin_routes ''POST'' [''v1'', ''cert'', ''revoke'']"
  "has_route public_routes ''POST'' [''v1'', ''cert'', ''revoke-batch'']" "\<not> has_route admin_routes ''POST'' [''v1'', ''cert'', ''revoke-batch'']"
  "has_route public_routes ''POST'' [''v1'', ''passports'', ''issue'']" "\<not> has_route admin_routes ''POST'' [''v1'', ''passports'', ''issue'']"
  by (simp_all add: route_simps)

text \<open>No request for an admin route reaches its handler without the secret; the others do whatever they carry.\<close>

lemma serve_admin:
  assumes "has_route admin_routes m path" "h \<noteq> Some (''Bearer '' @ sec)"
  shows "fst (fst (fst (serve (Some sec) chk l ip m path h run))) \<in> {401, 429}
    \<and> serve (Some sec) chk l ip m path h run = serve (Some sec) chk l ip m path h run'"
  using assms by (auto simp: serve_def require_auth_def per_ip_rate_limit_def inject_protocol_header_def Let_def
      split: prod.splits)

lemma serve_public:
  assumes "has_route public_routes m path" "\<not> has_route admin_routes m path"
  shows "serve secret chk l ip m path h run = serve None chk l ip m path h' run
    \<and> (fst (chk l ip) \<longrightarrow> fst (fst (serve secret chk l ip m path h run)) = run)"
  using assms by (auto simp: serve_def per_ip_rate_limit_def inject_protocol_header_def Let_def split: prod.splits)

lemma executor_key_Inr: "executor_key E h = Inr pk \<longleftrightarrow> hex_dec E h = Some pk \<and> length pk = 32 \<and> ed_valid_pk E pk"
  by (auto simp: executor_key_def result_simps fixed_bytes_def ok_or_def split: if_splits option.splits)

lemma add_params_wf: "add_params ps i = Inr j \<Longrightarrow> intent_wf i \<Longrightarrow> intent_wf j"
  by (induction ps i rule: add_params.induct) (auto simp: result_simps dest: intent_try_param_wf)

lemma build_intent_wf: "build_intent name ps = Inr i \<Longrightarrow> intent_wf i"
  unfolding build_intent_def intent_try_new_def bindR_Inr_iff using intent_new_wf add_params_wf by blast

lemma default_proof_intent: "intent_authorized E proof_default i scope \<longleftrightarrow> i = scope"
  by (simp add: intent_authorized_def proof_default_def)

text \<open>The route answers 200 exactly when the request parses and the chain authorizes its leaf's one intent.\<close>

lemma authorize_async_inner:
  "authorize_async E rnd a i p now now' is_rev consume c s = authorize_inner E a i p now is_rev consume None c s"
  by (simp add: authorize_async_def authorize_async_eq authorize_with_options_def Let_def)

lemma gw_authorize_ok:
  assumes st: "mem_rev_inv r" "nonce_inv s" "batch_complete E" "batch_sound E"
  shows "(\<exists>resp s'. gw_authorize_inner E hm pm rnd gs now now' (mem_is_revoked r) (mem_try_consume_batch t) req s = (Inr resp, s'))
    \<longleftrightarrow> (\<exists>pk i c. executor_key E (ag_executor_pk_hex req) = Inr pk
      \<and> build_intent (ag_intent_name req) (ag_intent_params req) = Inr i
      \<and> into_chain_with_drift E hm pm 15 (ag_chain req) = Inr c
      \<and> chain_valid E pk (intent_hash_of E i) proof_default now 15 c
      \<and> chain_fps E c \<inter> revoked_set r = {} \<and> chain_nonces c \<inter> live t s = {})"
proof -
  note inv = mem_auth.authorize_inner_iff(1) [OF st, where pol = None]
  show ?thesis
  proof (cases "executor_key E (ag_executor_pk_hex req)")
    case (Inr pk)
    show ?thesis
    proof (cases "build_intent (ag_intent_name req) (ag_intent_params req)")
      case (Inr i)
      show ?thesis
      proof (cases "into_chain_with_drift E hm pm 15 (ag_chain req)")
        case c: (Inr c)
        have d: "drift_tolerance_secs c = 15" using into_chain_Inr [OF c] by blast
        have "(\<exists>resp s'. gw_authorize_inner E hm pm rnd gs now now' (mem_is_revoked r) (mem_try_consume_batch t) req s = (Inr resp, s'))
          \<longleftrightarrow> (\<exists>rc s'. authorize_inner E pk (intent_hash_of E i) proof_default now (mem_is_revoked r) (mem_try_consume_batch t) None c s = (Inr rc, s'))"
          using \<open>executor_key E _ = Inr pk\<close> Inr c
          by (auto simp: gw_authorize_inner_def authorize_async_inner split: prod.splits sum.splits)
        then show ?thesis
          using \<open>executor_key E _ = Inr pk\<close> Inr c d by (simp add: inv policy_ok_def)
      qed (use \<open>executor_key E _ = Inr pk\<close> Inr in \<open>simp add: gw_authorize_inner_def\<close>)
    qed (use Inr in \<open>simp add: gw_authorize_inner_def\<close>)
  qed (simp add: gw_authorize_inner_def)
qed

text \<open>
  The route sends no inclusion proofs, so a batch whose intents do not all hash to the leaf's scope is
  not authorized: two different intents never are.
\<close>

lemma intent_pairs_default: "intent_pairs E rs = Inr ps \<Longrightarrow> x \<in> set ps \<Longrightarrow> snd x = proof_default"
proof -
  assume a: "intent_pairs E rs = Inr ps" and x: "x \<in> set ps"
  from x obtain k where k: "k < length ps" "x = ps ! k" by (auto simp: in_set_conv_nth)
  with a have "\<exists>i. (intent_hash_of E i, proof_default) = ps ! k"
    by (auto simp: intent_pairs_def traverse_Inr_iff list_all2_conv_all_nth result_simps)
  with k show "snd x = proof_default" by (metis snd_conv)
qed

lemma batch_inner_distinct:
  assumes st: "mem_rev_inv r" "nonce_inv s" "batch_complete E" "batch_sound E"
    and ps: "intent_pairs E (br_intents req) = Inr ps" "x \<in> set ps" "y \<in> set ps" "fst x \<noteq> fst y"
    and b: "batch_inner E hm pm now now' (mem_is_revoked r) (mem_try_consume_batch t) req s = (Inr resp, s')"
  shows "\<not> bo_all_authorized resp \<and> s' = s"
proof -
  from b ps(1) obtain pk c b' where c: "authorize_batch_async E pk ps now now' (mem_is_revoked r) (mem_try_consume_batch t) c s = (b', s')"
    and resp: "resp = batch_response_of E (br_intents req) b'"
    by (auto simp: batch_inner_def result_simps split: if_splits sum.splits prod.splits)
  have "ps \<noteq> []" using ps(2) by auto
  moreover have "\<not> (\<forall>z\<in>set ps. intent_authorized E (snd z) (fst z) (leaf_scope (principal_scope c) (certs c)))"
  proof
    assume "\<forall>z\<in>set ps. intent_authorized E (snd z) (fst z) (leaf_scope (principal_scope c) (certs c))"
    then have "fst x = leaf_scope (principal_scope c) (certs c)" "fst y = leaf_scope (principal_scope c) (certs c)"
      using ps(2,3) intent_pairs_default [OF ps(1)] by (simp_all add: default_proof_intent)
    with ps(4) show False by simp
  qed
  ultimately obtain b where "authorize_batch E pk ps now now' (mem_is_revoked r) (mem_try_consume_batch t) c s = (b, s)" "\<not> all_authorized b"
    using mem_auth.batch_failed [OF st, of ps pk now' c t now] by blast
  with c resp show ?thesis by (simp add: authorize_batch_async_eq batch_response_of_def)
qed

text \<open>Only a granted request is announced, and with what the response says.\<close>

lemma authorize_handler_events:
  assumes "authorize_handler E hm pm rnd gs now0 now now' is_rev consume req s = (((status, body), s'), evs)"
  shows "(evs \<noteq> [] \<longrightarrow> webhook_url gs \<noteq> None) \<and> length evs \<le> 1
    \<and> (\<forall>ev\<in>set evs. we_authorized ev \<and> (\<exists>resp. body = Inr resp \<and> we_fingerprint ev = ao_fingerprint resp))
    \<and> (status = 200 \<longleftrightarrow> (\<exists>resp. body = Inr resp)) \<and> (body = Inl e \<longrightarrow> evs = [])"
  using assms
  by (auto simp: authorize_handler_def dispatch_def from_authorization_def Let_def split: prod.splits sum.splits if_splits)

end
