(* ===== verification/A1_Calendar.thy ===== *)
theory A1_Calendar
  imports A1_Prelude
begin

text \<open>
  The two calendar routines of the repository, \<open>unix_to_iso8601\<close> with \<open>days_to_ymd\<close> of
  \<open>src/did.rs\<close> and \<open>unix_to_iso\<close> of \<open>src/governance.rs\<close>. The first is shown to count days
  correctly; the second prints the day of the month counted from zero.
\<close>

definition is_leap :: "nat \<Rightarrow> bool" where
  "is_leap y \<longleftrightarrow> (4 dvd y \<and> \<not> 100 dvd y) \<or> 400 dvd y"

definition year_len :: "nat \<Rightarrow> nat" where
  "year_len y = (if is_leap y then 366 else 365)"

definition month_days :: "nat \<Rightarrow> nat list" where
  "month_days y = [31, if is_leap y then 29 else 28, 31, 30, 31, 30, 31, 31, 30, 31, 30, 31]"

text \<open>The \<open>loop\<close> over years, from \<open>year\<close> with \<open>days\<close> left, and the one over the months of a year.\<close>

function year_loop :: "nat \<Rightarrow> nat \<Rightarrow> nat \<times> nat" where
  "year_loop days year = (if days < year_len year then (days, year) else year_loop (days - year_len year) (year + 1))"
  by pat_completeness auto
termination by (relation "measure fst") (auto simp: year_len_def)

declare year_loop.simps [simp del]

fun month_loop :: "nat list \<Rightarrow> nat \<Rightarrow> nat \<Rightarrow> nat \<times> nat" where
  "month_loop [] days month = (days, month)"
| "month_loop (mlen # ms) days month =
     (if days < mlen then (days, month) else month_loop ms (days - mlen) (month + 1))"

definition days_to_ymd :: "nat \<Rightarrow> nat \<times> nat \<times> nat" where
  "days_to_ymd days =
     (case year_loop days 1970 of (days, year) \<Rightarrow>
      case month_loop (month_days year) days 1 of (days, month) \<Rightarrow> (year, month, days + 1))"

text \<open>\<open>{:04}\<close> and \<open>{:02}\<close>\<close>

definition padded :: "nat \<Rightarrow> nat \<Rightarrow> string" where
  "padded w n = replicate (w - length (dec n)) (CHR ''0'') @ dec n"

definition iso_text :: "nat \<Rightarrow> nat \<Rightarrow> nat \<Rightarrow> nat \<Rightarrow> nat \<Rightarrow> nat \<Rightarrow> string" where
  "iso_text y mo d h m s = padded 4 y @ ''-'' @ padded 2 mo @ ''-'' @ padded 2 d @ ''T''
     @ padded 2 h @ '':'' @ padded 2 m @ '':'' @ padded 2 s @ ''Z''"

definition unix_to_iso8601 :: "u64 \<Rightarrow> string" where
  "unix_to_iso8601 t =
     (let unix = unat t; s = unix mod 60; m = (unix div 60) mod 60; h = (unix div 3600) mod 24 in
      case days_to_ymd (unix div 86400) of (year, month, day) \<Rightarrow> iso_text year month day h m s)"

definition unix_to_iso :: "u64 \<Rightarrow> string" where
  "unix_to_iso t =
     (let unix = unat t; s = unix mod 60; m = (unix div 60) mod 60; h = (unix div 3600) mod 24 in
      case year_loop (unix div 86400) 1970 of (d, y) \<Rightarrow>
      case month_loop (month_days y) d 1 of (d, mo) \<Rightarrow> iso_text y mo d h m s)"

section \<open>The day count\<close>

definition days_before_year :: "nat \<Rightarrow> nat" where
  "days_before_year y = sum_list (map year_len [1970..<y])"

definition day_number :: "nat \<Rightarrow> nat \<Rightarrow> nat \<Rightarrow> nat" where
  "day_number y mo d = days_before_year y + sum_list (take (mo - 1) (month_days y)) + (d - 1)"

lemma year_loop_spec:
  "year_loop days year = (d, y) \<Longrightarrow>
     year \<le> y \<and> d < year_len y \<and> days = sum_list (map year_len [year..<y]) + d"
proof (induction days year arbitrary: d y rule: year_loop.induct)
  case (1 days year)
  show ?case
  proof (cases "days < year_len year")
    case True
    with "1.prems" show ?thesis by (simp add: year_loop.simps [of days year])
  next
    case False
    with "1.prems" have l: "year_loop (days - year_len year) (year + 1) = (d, y)"
      by (simp add: year_loop.simps [of days year])
    from "1.IH" [OF False l]
    have r: "year + 1 \<le> y" "d < year_len y"
      "days - year_len year = sum_list (map year_len [year + 1..<y]) + d" by auto
    then have "[year..<y] = year # [year + 1..<y]" by (simp add: upt_conv_Cons)
    with r False show ?thesis by simp
  qed
qed

lemma month_loop_spec:
  "month_loop ms days month = (d, mo) \<Longrightarrow> days < sum_list ms \<Longrightarrow>
     month \<le> mo \<and> mo - month < length ms \<and> d < ms ! (mo - month)
     \<and> days = sum_list (take (mo - month) ms) + d"
proof (induction ms arbitrary: days month)
  case Nil
  then show ?case by simp
next
  case (Cons mlen ms)
  show ?case
  proof (cases "days < mlen")
    case True
    with Cons.prems show ?thesis by auto
  next
    case False
    with Cons.IH [of "days - mlen" "month + 1"] Cons.prems
    have r: "month + 1 \<le> mo" "mo - (month + 1) < length ms" "d < ms ! (mo - (month + 1))"
      "days - mlen = sum_list (take (mo - (month + 1)) ms) + d" by auto
    then have "mo - month = Suc (mo - (month + 1))" by simp
    with r False show ?thesis by simp
  qed
qed

lemma sum_month_days: "sum_list (month_days y) = year_len y"
  by (simp add: month_days_def year_len_def)

lemma length_month_days: "length (month_days y) = 12"
  by (simp add: month_days_def)

lemma days_to_ymd_spec:
  assumes "days_to_ymd n = (y, mo, d)"
  shows "n = day_number y mo d \<and> 1970 \<le> y \<and> 1 \<le> mo \<and> mo \<le> 12 \<and> 1 \<le> d \<and> d \<le> month_days y ! (mo - 1)"
proof -
  obtain d1 where l: "year_loop n 1970 = (d1, y)" and m: "month_loop (month_days y) d1 1 = (d - 1, mo)" "1 \<le> d"
    using assms by (auto simp: days_to_ymd_def split: prod.splits)
  from year_loop_spec [OF l] have y: "1970 \<le> y" "d1 < sum_list (month_days y)" "n = days_before_year y + d1"
    by (simp_all add: sum_month_days days_before_year_def)
  from month_loop_spec [OF m(1) y(2)]
  have mo: "1 \<le> mo" "mo - 1 < 12" "d - 1 < month_days y ! (mo - 1)"
    "d1 = sum_list (take (mo - 1) (month_days y)) + (d - 1)"
    by (simp_all add: length_month_days)
  from mo(3) m(2) have "d \<le> month_days y ! (mo - 1)" by linarith
  with mo m(2) y show ?thesis unfolding day_number_def by linarith
qed

text \<open>
  The two routines agree on everything but the day of the month: where the first prints \<open>d\<close>, the
  second prints \<open>d - 1\<close>.
\<close>

lemma unix_to_iso_day:
  fixes t :: u64
  assumes "days_to_ymd (unat t div 86400) = (y, mo, d)"
  shows "unix_to_iso8601 t = iso_text y mo d (unat t div 3600 mod 24) (unat t div 60 mod 60) (unat t mod 60)"
    and "unix_to_iso t = iso_text y mo (d - 1) (unat t div 3600 mod 24) (unat t div 60 mod 60) (unat t mod 60)"
  using assms
  by (auto simp: unix_to_iso8601_def unix_to_iso_def days_to_ymd_def Let_def split: prod.splits)

end
