(* ===== verification/A1_Did.thy ===== *)
theory A1_Did
  imports A1_Negotiate A1_Calendar
begin

text \<open>
  \<open>src/did.rs\<close> and \<open>a1-gateway/src/routes/did.rs\<close>: identifiers derived from keys, DID documents and
  verifiable credentials. The JSON form is serde's. \<open>hex_msg\<close> and \<open>pk_msg\<close> are the texts of the
  \<open>hex\<close> and \<open>ed25519_dalek\<close> errors.
\<close>

definition DOMAIN_VC_SIGN :: string where "DOMAIN_VC_SIGN = ''a1::dyolo::vc::sign::v2.8.0''"
definition DID_METHOD :: string where "DID_METHOD = ''a1''"

section \<open>Identifiers\<close>

text \<open>One step of \<open>splitn\<close>: what comes before the first separator, and what comes after it, if there is one.\<close>

fun break_at :: "char \<Rightarrow> string \<Rightarrow> string \<times> string option" where
  "break_at c [] = ([], None)"
| "break_at c (x # xs) = (if x = c then ([], Some xs) else (case break_at c xs of (a, b) \<Rightarrow> (x # a, b)))"

text \<open>\<open>splitn(3, ':')\<close>, absent parts read as empty.\<close>

definition did_parts :: "string \<Rightarrow> string \<times> string \<times> string" where
  "did_parts did =
     (case break_at CHR '':'' did of
        (scheme, None) \<Rightarrow> (scheme, [], [])
      | (scheme, Some r) \<Rightarrow>
          (case break_at CHR '':'' r of
             (meth, None) \<Rightarrow> (scheme, meth, [])
           | (meth, Some i) \<Rightarrow> (scheme, meth, i)))"

definition did_from_key :: "ext \<Rightarrow> bytes \<Rightarrow> string" where
  "did_from_key E vk = ''did:'' @ DID_METHOD @ '':'' @ hex_enc E vk"

definition did_parse :: "ext \<Rightarrow> string \<Rightarrow> a1_error + string" where
  "did_parse E did =
     (case did_parts did of (scheme, meth, i) \<Rightarrow>
        if scheme \<noteq> ''did'' \<or> meth \<noteq> DID_METHOD \<or> i = []
        then Inl (WireFormatError (''expected did:a1:<hex>, got: '' @ did))
        else bindR (ok_or (WireFormatError ''DID identifier must be hex'') (hex_dec E i)) (\<lambda>b.
             if length b \<noteq> 32 then Inl (WireFormatError ''DID identifier must be 32 bytes (Ed25519 key)'')
             else Inr did))"

definition did_verifying_key :: "ext \<Rightarrow> (bytes \<Rightarrow> string) \<Rightarrow> string \<Rightarrow> a1_error + bytes" where
  "did_verifying_key E pk_msg did =
     (case did_parts did of (_, _, hex_part) \<Rightarrow>
        bindR (ok_or (WireFormatError ''invalid DID hex'') (hex_dec E hex_part)) (\<lambda>b.
        bindR (fixed_bytes 32 ''DID key must be 32 bytes'' b) (\<lambda>arr.
        if ed_valid_pk E arr then Inr arr else Inl (WireFormatError (''invalid DID key: '' @ pk_msg arr)))))"

definition did_key_id :: "string \<Rightarrow> string" where
  "did_key_id did = did @ ''#key-0''"

section \<open>Documents\<close>

record verification_method =
  vm_id :: string
  method_type :: string
  controller :: string
  public_key_hex :: string

record did_document =
  doc_context :: "string list"
  doc_id :: string
  doc_methods :: "verification_method list"
  authentication :: "string list"
  assertion_method :: "string list"
  capability_delegation :: "string list"
  doc_namespace :: "string option"
  doc_mask_hex :: "string option"
  a1_version :: string

definition did_for_identity :: "ext \<Rightarrow> bytes \<Rightarrow> did_document" where
  "did_for_identity E vk =
     (let did = did_from_key E vk; key_id = did_key_id did in
      \<lparr>doc_context = [''https://www.w3.org/ns/did/v1'', ''https://w3id.org/security/suites/ed25519-2020/v1'',
         ''https://a1.dev/contexts/v1''],
       doc_id = did,
       doc_methods = [\<lparr>vm_id = key_id, method_type = ''Ed25519VerificationKey2020'', controller = did,
                       public_key_hex = hex_enc E vk\<rparr>],
       authentication = [key_id], assertion_method = [key_id], capability_delegation = [key_id],
       doc_namespace = None, doc_mask_hex = None, a1_version = ''2.8.0''\<rparr>)"

definition with_passport_metadata :: "string \<Rightarrow> string \<Rightarrow> did_document \<Rightarrow> did_document" where
  "with_passport_metadata ns m d = d\<lparr>doc_namespace := Some ns, doc_mask_hex := Some m\<rparr>"

section \<open>Verifiable credentials\<close>

record credential_subject =
  subject_id :: string
  subject_namespace :: string
  subject_capabilities :: "string list"
  subject_fingerprint :: string
  subject_version :: string

record vc_proof =
  proof_type :: string
  proof_created :: string
  proof_method :: string
  proof_purpose :: string
  proof_value :: string

record verifiable_credential =
  vc_context :: "string list"
  vc_type :: "string list"
  vc_id :: string
  vc_issuer :: string
  issuance_date :: string
  expiration_date :: "string option"
  vc_subject :: credential_subject
  vc_proof_of :: vc_proof

definition vc_chunks :: "string \<Rightarrow> string \<Rightarrow> string \<Rightarrow> string \<Rightarrow> credential_subject \<Rightarrow> bytes list" where
  "vc_chunks i issuer issuance expiry s =
     concat (map (\<lambda>x. [le64 (u64_of (length x)), str_bytes x]) [i, issuer, issuance, expiry, subject_namespace s])
     @ [le64 (u64_of (length (subject_capabilities s)))]
     @ concat (map (\<lambda>x. [le64 (u64_of (length x)), str_bytes x]) (subject_capabilities s))
     @ [str_bytes (subject_fingerprint s)]"

definition vc_signable_bytes :: "ext \<Rightarrow> string \<Rightarrow> string \<Rightarrow> string \<Rightarrow> string \<Rightarrow> credential_subject \<Rightarrow> bytes" where
  "vc_signable_bytes E i issuer issuance expiry s =
     h_finalize E (h_updates (new_derive_key DOMAIN_VC_SIGN) (vc_chunks i issuer issuance expiry s))"

definition vc_issue ::
  "ext \<Rightarrow> signer \<Rightarrow> string \<Rightarrow> string \<Rightarrow> string list \<Rightarrow> u64 \<Rightarrow> u64 \<Rightarrow> bytes \<Rightarrow> a1_error + verifiable_credential" where
  "vc_issue E issuer subject_did ns caps issued expiry_unix fp =
     (let issuer_did = did_from_key E (verifying_key issuer);
          cred_id = ''urn:a1:cred:'' @ hex_enc E (take 16 fp);
          issuance = unix_to_iso8601 issued; expiry = unix_to_iso8601 expiry_unix;
          subject = \<lparr>subject_id = subject_did, subject_namespace = ns, subject_capabilities = caps,
                     subject_fingerprint = hex_enc E fp, subject_version = ''2.8.0''\<rparr>;
          signable = vc_signable_bytes E cred_id issuer_did issuance expiry subject;
          sig = sign_message issuer signable
      in Inr \<lparr>vc_context = [''https://www.w3.org/2018/credentials/v1'', ''https://a1.dev/contexts/v1''],
              vc_type = [''VerifiableCredential'', ''A1CapabilityCredential''],
              vc_id = cred_id, vc_issuer = issuer_did, issuance_date = issuance, expiration_date = Some expiry,
              vc_subject = subject,
              vc_proof_of = \<lparr>proof_type = ''Ed25519Signature2020'', proof_created = issuance,
                 proof_method = did_key_id issuer_did, proof_purpose = ''assertionMethod'', proof_value = hex_enc E sig\<rparr>\<rparr>)"

definition vc_verify :: "ext \<Rightarrow> (bytes \<Rightarrow> string) \<Rightarrow> verifiable_credential \<Rightarrow> a1_error + unit" where
  "vc_verify E pk_msg v =
     bindR (did_parse E (vc_issuer v)) (\<lambda>issuer_did.
     bindR (did_verifying_key E pk_msg issuer_did) (\<lambda>vk.
     let expiry = (case expiration_date v of Some e \<Rightarrow> e | None \<Rightarrow> []);
         signable = vc_signable_bytes E (vc_id v) (vc_issuer v) (issuance_date v) expiry (vc_subject v) in
     bindR (ok_or (WireFormatError ''invalid proof_value hex'') (hex_dec E (proof_value (vc_proof_of v)))) (\<lambda>sig_bytes.
     bindR (fixed_bytes 64 ''signature must be 64 bytes'' sig_bytes) (\<lambda>sig.
     if ed_verify E vk signable sig then Inr () else Inl (HybridSignatureInvalid ''vc-ed25519'')))))"

section \<open>Gateway routes\<close>

text \<open>A response is its status with the body, or with the text of the error.\<close>

definition resolve_handler :: "ext \<Rightarrow> string \<Rightarrow> nat \<times> (string + did_document)" where
  "resolve_handler E pk_hex =
     (case hex_dec E pk_hex of
        None \<Rightarrow> (400, Inl ''pk_hex must be valid hex'')
      | Some b \<Rightarrow>
          if length b \<noteq> 32 then (400, Inl ''pk_hex must be 32 bytes'')
          else if \<not> ed_valid_pk E b then (400, Inl ''invalid Ed25519 public key'')
          else (200, Inr (did_for_identity E b)))"

definition gateway_did_handler :: "ext \<Rightarrow> signer \<Rightarrow> nat \<times> did_document" where
  "gateway_did_handler E gateway = (200, did_for_identity E (verifying_key gateway))"

record issue_vc_request =
  iv_subject_pk_hex :: string
  iv_namespace :: string
  iv_capabilities :: "string list"
  iv_ttl_seconds :: u64
  iv_fingerprint_hex :: "string option"

definition default_vc_ttl :: u64 where "default_vc_ttl = 86400"

record issue_vc_response =
  ivr_credential :: verifiable_credential
  ivr_subject_did :: string
  ivr_issuer_did :: string

text \<open>\<open>now + req.ttl_seconds\<close> panics on overflow: \<open>None\<close>.\<close>

definition issue_vc_inner ::
  "ext \<Rightarrow> (string \<Rightarrow> string) \<Rightarrow> (bytes \<Rightarrow> string) \<Rightarrow> signer \<Rightarrow> u64 \<Rightarrow> issue_vc_request
     \<Rightarrow> (string + issue_vc_response) option" where
  "issue_vc_inner E hex_msg pk_msg gateway now req =
     (case bindR (ok_or (hex_msg (iv_subject_pk_hex req)) (hex_dec E (iv_subject_pk_hex req))) (\<lambda>b.
           bindR (if length b = 32 then Inr b else Inl ''subject_pk_hex must be 32 bytes'') (\<lambda>arr.
           bindR (if ed_valid_pk E arr then Inr arr else Inl (pk_msg arr)) (\<lambda>vk.
           bindR (case iv_fingerprint_hex req of
               Some h \<Rightarrow> bindR (ok_or (hex_msg h) (hex_dec E h)) (\<lambda>fb.
                  if length fb = 32 then Inr fb else Inl ''chain fingerprint must be 32 bytes'')
             | None \<Rightarrow> Inr (replicate 32 0)) (\<lambda>fp. Inr (vk, fp))))) of
        Inl e \<Rightarrow> Some (Inl e)
      | Inr (vk, fp) \<Rightarrow>
          (let subject_did = did_from_key E vk; issuer_did = did_from_key E (verifying_key gateway) in
           Option.bind (checked_add now (iv_ttl_seconds req)) (\<lambda>expiry.
           Some (bindR (map_errR display_error
                   (vc_issue E gateway subject_did (iv_namespace req) (iv_capabilities req) now expiry fp)) (\<lambda>vc.
                 Inr \<lparr>ivr_credential = vc, ivr_subject_did = subject_did, ivr_issuer_did = issuer_did\<rparr>)))))"

definition issue_vc_handler ::
  "ext \<Rightarrow> (string \<Rightarrow> string) \<Rightarrow> (bytes \<Rightarrow> string) \<Rightarrow> signer \<Rightarrow> u64 \<Rightarrow> issue_vc_request
     \<Rightarrow> (nat \<times> (string + issue_vc_response)) option" where
  "issue_vc_handler E hex_msg pk_msg gateway now req =
     map_option (\<lambda>r. case r of Inr resp \<Rightarrow> (201, Inr resp) | Inl e \<Rightarrow> (400, Inl e))
       (issue_vc_inner E hex_msg pk_msg gateway now req)"

record verify_vc_response =
  vvr_valid :: bool
  vvr_issuer_did :: string
  vvr_subject_did :: string
  vvr_namespace :: string
  vvr_capabilities :: "string list"
  vvr_error :: "string option"

definition verify_vc_handler :: "ext \<Rightarrow> (bytes \<Rightarrow> string) \<Rightarrow> verifiable_credential \<Rightarrow> nat \<times> verify_vc_response" where
  "verify_vc_handler E pk_msg v =
     (case vc_verify E pk_msg v of
        Inr _ \<Rightarrow> (200, \<lparr>vvr_valid = True, vvr_issuer_did = vc_issuer v, vvr_subject_did = subject_id (vc_subject v),
                  vvr_namespace = subject_namespace (vc_subject v),
                  vvr_capabilities = subject_capabilities (vc_subject v), vvr_error = None\<rparr>)
      | Inl e \<Rightarrow> (200, \<lparr>vvr_valid = False, vvr_issuer_did = vc_issuer v, vvr_subject_did = subject_id (vc_subject v),
                  vvr_namespace = subject_namespace (vc_subject v),
                  vvr_capabilities = [], vvr_error = Some (display_error e)\<rparr>))"

section \<open>What a credential proves\<close>

lemma did_parts_from_key: "did_parts (did_from_key E vk) = (''did'', ''a1'', hex_enc E vk)"
  by (simp add: did_parts_def did_from_key_def DID_METHOD_def)

text \<open>\<open>from_key\<close> followed by \<open>parse\<close> and \<open>verifying_key\<close> gives the key back.\<close>

lemma did_roundtrip:
  assumes "hex_ok E" "length vk = 32" "ed_valid_pk E vk" "hex_enc E vk \<noteq> []"
  shows "did_parse E (did_from_key E vk) = Inr (did_from_key E vk)
    \<and> did_verifying_key E pm (did_from_key E vk) = Inr vk"
  using assms
  by (simp add: did_parse_def did_verifying_key_def did_parts_from_key DID_METHOD_def hex_ok_def fixed_bytes_def)

lemma hex_nonempty: "hex_ok E \<Longrightarrow> b \<noteq> c \<Longrightarrow> hex_enc E c = [] \<Longrightarrow> hex_enc E b \<noteq> []"
  unfolding hex_ok_def by (metis option.inject)

lemma vc_roundtrip:
  assumes "hex_ok E" "signer_wf E s" "hex_enc E (verifying_key s) \<noteq> []"
    and "vc_issue E s did ns caps issued expiry fp = Inr v"
  shows "vc_verify E pm v = Inr ()"
proof -
  have k: "did_parse E (did_from_key E (verifying_key s)) = Inr (did_from_key E (verifying_key s))"
    "did_verifying_key E pm (did_from_key E (verifying_key s)) = Inr (verifying_key s)"
    using did_roundtrip [of E "verifying_key s"] assms(1-3) by (auto simp: signer_wf_def)
  then show ?thesis
    using assms(1,2,4) by (auto simp: vc_issue_def vc_verify_def Let_def hex_ok_def signer_wf_def signer_ok_def fixed_bytes_def)
qed

text \<open>
  The subject's identifier, and the version, are not among the signed bytes: verification answers the
  same whoever the credential is said to be about.
\<close>

lemma vc_signable_subject:
  "vc_signable_bytes E i iss d e (s\<lparr>subject_id := x, subject_version := y\<rparr>) = vc_signable_bytes E i iss d e s"
  by (simp add: vc_signable_bytes_def vc_chunks_def)

lemma vc_verify_subject:
  "vc_verify E pm (v\<lparr>vc_subject := (vc_subject v)\<lparr>subject_id := x, subject_version := y\<rparr>\<rparr>) = vc_verify E pm v"
  by (simp add: vc_verify_def vc_signable_subject)

text \<open>Everything else is: equal signed bytes mean equal fields.\<close>

lemma concat_vc_chunks:
  "concat (vc_chunks i iss d e s) =
     lp (str_bytes i) @ lp (str_bytes iss) @ lp (str_bytes d) @ lp (str_bytes e)
     @ lp (str_bytes (subject_namespace s)) @ counted (\<lambda>c. lp (str_bytes c)) (subject_capabilities s)
     @ str_bytes (subject_fingerprint s)"
proof -
  have "concat (concat (map (\<lambda>c. [le64 (u64_of (length c)), str_bytes c]) cs)) = concat (map (\<lambda>c. lp (str_bytes c)) cs)"
    for cs by (induction cs) (simp_all add: lp_def)
  then show ?thesis by (simp add: vc_chunks_def lp_def counted_def)
qed

lemma vc_chunks_inj:
  assumes "list_all fits [i, iss, d, e, subject_namespace s]" "list_all fits [i', iss', d', e', subject_namespace s']"
    and "fits (subject_capabilities s)" "fits (subject_capabilities s')"
    and "list_all fits (subject_capabilities s)" "list_all fits (subject_capabilities s')"
    and "concat (vc_chunks i iss d e s) = concat (vc_chunks i' iss' d' e' s')"
  shows "i = i' \<and> iss = iss' \<and> d = d' \<and> e = e' \<and> subject_namespace s = subject_namespace s'
    \<and> subject_capabilities s = subject_capabilities s' \<and> subject_fingerprint s = subject_fingerprint s'"
proof -
  note x = self_delimD [OF self_delim_lp_str]
  have f: "fits i" "fits iss" "fits d" "fits e" "fits (subject_namespace s)"
    "fits i'" "fits iss'" "fits d'" "fits e'" "fits (subject_namespace s')" using assms(1,2) by simp_all
  note eq = assms(7) [unfolded concat_vc_chunks]
  note 1 = x [OF f(1,6) eq]
  note 2 = x [OF f(2,7) conjunct2 [OF 1]]
  note 3 = x [OF f(3,8) conjunct2 [OF 2]]
  note 4 = x [OF f(4,9) conjunct2 [OF 3]]
  note 5 = x [OF f(5,10) conjunct2 [OF 4]]
  have 6: "subject_capabilities s = subject_capabilities s' \<and> str_bytes (subject_fingerprint s) = str_bytes (subject_fingerprint s')"
    by (rule self_delimD [OF self_delim_counted [OF self_delim_lp_str] _ _ conjunct2 [OF 5]])
      (use assms(3-6) in \<open>simp_all\<close>)
  from 1 2 3 4 5 6 show ?thesis by (simp add: str_bytes_inj)
qed

end
