(* ===== verification/A1_Json.thy ===== *)
theory A1_Json
  imports A1_Did
begin

text \<open>
  The values of \<open>serde_json\<close> that the gateway handles without a type of its own, with the accessors
  the code calls on them, and the string routines of the standard library that the routes share. A
  number is one of the three cases the crate has; a float is kept as its text. An object is the list
  of its members. Reading and printing the text is the crate's (\<open>json_text\<close>, where a value is printed).
\<close>

datatype json =
    JNull
  | JBool bool
  | JPosInt u64
  | JNegInt int
  | JFloat string
  | JStr string
  | JArr "json list"
  | JObj "(string \<times> json) list"

fun j_get :: "string \<Rightarrow> json \<Rightarrow> json option" where
  "j_get k (JObj ms) = map_of ms k"
| "j_get k _ = None"

fun as_str :: "json \<Rightarrow> string option" where
  "as_str (JStr s) = Some s"
| "as_str _ = None"

fun as_u64 :: "json \<Rightarrow> u64 option" where
  "as_u64 (JPosInt n) = Some n"
| "as_u64 _ = None"

fun as_i64 :: "json \<Rightarrow> int option" where
  "as_i64 (JPosInt n) = (if unat n < 2 ^ 63 then Some (uint n) else None)"
| "as_i64 (JNegInt i) = Some i"
| "as_i64 _ = None"

fun as_array :: "json \<Rightarrow> json list option" where
  "as_array (JArr xs) = Some xs"
| "as_array _ = None"

text \<open>\<open>get(k).and_then(as_str).unwrap_or("")\<close>.\<close>

definition j_str :: "string \<Rightarrow> json \<Rightarrow> string" where
  "j_str k v = (case Option.bind (j_get k v) as_str of Some s \<Rightarrow> s | None \<Rightarrow> [])"

section \<open>Splitting text\<close>

text \<open>\<open>split(c)\<close> gives all the parts, \<open>splitn(3, c)\<close> the first two and the rest.\<close>

lemma break_at_shorter: "break_at c s = (a, Some r) \<Longrightarrow> length r < length s"
  by (induction c s arbitrary: a rule: break_at.induct) (force split: if_splits prod.splits)+

function split_all :: "char \<Rightarrow> string \<Rightarrow> string list" where
  "split_all c s = (case break_at c s of (a, None) \<Rightarrow> [a] | (a, Some r) \<Rightarrow> a # split_all c r)"
  by pat_completeness auto

termination
  by (relation "measure (\<lambda>(c, s). length s)") (auto dest: break_at_shorter [OF sym])

declare split_all.simps [simp del]

definition splitn3 :: "char \<Rightarrow> string \<Rightarrow> string list" where
  "splitn3 c s =
     (case break_at c s of (a, None) \<Rightarrow> [a]
      | (a, Some r) \<Rightarrow> (case break_at c r of (b, None) \<Rightarrow> [a, b] | (b, Some t) \<Rightarrow> [a, b, t]))"

text \<open>A comma-separated list with its parts trimmed and the empty ones left out.\<close>

definition csv_nonempty :: "string \<Rightarrow> string list" where
  "csv_nonempty s = filter (\<lambda>x. x \<noteq> []) (map str_trim (split_all CHR '','' s))"

lemma break_at_join: "break_at c s = (a, b) \<Longrightarrow> s = a @ (case b of None \<Rightarrow> [] | Some r \<Rightarrow> c # r) \<and> c \<notin> set a"
  by (induction c s arbitrary: a rule: break_at.induct) (auto split: if_splits prod.splits)

text \<open>Splitting loses nothing: the parts joined by the separator are the text, and no part holds one.\<close>

fun join_with :: "char \<Rightarrow> string list \<Rightarrow> string" where
  "join_with c [] = []"
| "join_with c [s] = s"
| "join_with c (s # ss) = s @ c # join_with c ss"

lemma split_all_nonempty: "split_all c s \<noteq> []"
  by (subst split_all.simps) (auto split: prod.splits option.splits)

lemma join_split_all: "join_with c (split_all c s) = s \<and> (\<forall>x\<in>set (split_all c s). c \<notin> set x)"
proof (induction c s rule: split_all.induct)
  case (1 c s)
  obtain a b where ab: "break_at c s = (a, b)" by (cases "break_at c s")
  note j = break_at_join [OF ab]
  have e: "split_all c s = (case b of None \<Rightarrow> [a] | Some r \<Rightarrow> a # split_all c r)"
    by (subst split_all.simps) (simp add: ab)
  show ?case
  proof (cases b)
    case None
    with e j show ?thesis by simp
  next
    case (Some r)
    then have "join_with c (split_all c r) = r \<and> (\<forall>x\<in>set (split_all c r). c \<notin> set x)"
      using 1 ab by simp
    moreover obtain x xs where "split_all c r = x # xs" using split_all_nonempty by (cases "split_all c r") auto
    ultimately show ?thesis using e j Some by simp
  qed
qed

end
