(* ===== verification/A1_GwIssue.thy ===== *)
theory A1_GwIssue
  imports A1_Gateway A1_Json
begin

text \<open>
  The gateway's routes that issue and revoke: \<open>a1-gateway/src/routes/cert.rs\<close> with its idempotency
  caches, \<open>routes/negotiate.rs\<close> and \<open>routes/jwt_bridge.rs\<close>. The texts of foreign errors
  (\<open>hex_msg\<close>, \<open>pk_msg\<close>), fresh nonces and clock readings are arguments. \<open>None\<close> is a panic: an addition
  that overflows, an empty validity window given to \<open>sign\<close>, or an extension map over its limit.
\<close>

section \<open>Issuing certificates\<close>

record issue_cert_request =
  iq_delegate_pk_hex :: string
  iq_intents :: "intent_request list"
  iq_ttl_seconds :: u64
  iq_max_depth :: u8
  iq_extensions :: "(string \<times> json) list"

definition default_ttl :: u64 where "default_ttl = 3600"
definition default_cert_depth :: u8 where "default_cert_depth = 16"

record issue_cert_response =
  is_cert :: delegation_cert
  is_fingerprint_hex :: string
  is_scope_root_hex :: string

definition pk_from_hex :: "ext \<Rightarrow> (string \<Rightarrow> string) \<Rightarrow> (bytes \<Rightarrow> string) \<Rightarrow> string \<Rightarrow> string + bytes" where
  "pk_from_hex E hex_msg pk_msg h =
     bindR (ok_or (hex_msg h) (hex_dec E h)) (\<lambda>b.
     if length b \<noteq> 32 then Inl ''pk must be 32 bytes''
     else if ed_valid_pk E b then Inr b else Inl (pk_msg b))"

text \<open>\<open>ExtValue::from(serde_json::Value)\<close>.\<close>

fun ext_value_of_json :: "(json \<Rightarrow> string) \<Rightarrow> json \<Rightarrow> ext_value" where
  "ext_value_of_json json_text (JPosInt n) = ExtU64 n"
| "ext_value_of_json json_text (JStr s) = ExtStr s"
| "ext_value_of_json json_text (JArr xs) =
     ExtStrings (map (\<lambda>x. case x of JStr s \<Rightarrow> s | other \<Rightarrow> json_text other) xs)"
| "ext_value_of_json json_text other = ExtStr (json_text other)"

fun set_extensions :: "(json \<Rightarrow> string) \<Rightarrow> (string \<times> json) list \<Rightarrow> cert_extensions \<Rightarrow> a1_error + cert_extensions" where
  "set_extensions json_text [] x = Inr x"
| "set_extensions json_text ((k, v) # kvs) x =
     bindR (ext_set_checked x k (ext_value_of_json json_text v)) (set_extensions json_text kvs)"

definition intent_hashes :: "ext \<Rightarrow> intent_request list \<Rightarrow> a1_error + bytes list" where
  "intent_hashes E rs =
     traverse (\<lambda>r. bindR (intent_new (ir_name r)) (\<lambda>i. bindR (add_params (ir_params r) i) (\<lambda>j. Inr (intent_hash_of E j)))) rs"

definition gw_issue_inner ::
  "ext \<Rightarrow> (string \<Rightarrow> string) \<Rightarrow> (bytes \<Rightarrow> string) \<Rightarrow> (json \<Rightarrow> string) \<Rightarrow> bytes \<Rightarrow> app_state \<Rightarrow> u64 \<Rightarrow> issue_cert_request
     \<Rightarrow> (string + issue_cert_response) option" where
  "gw_issue_inner E hex_msg pk_msg json_text fresh st now req =
     (case bindR (pk_from_hex E hex_msg pk_msg (iq_delegate_pk_hex req)) (\<lambda>pk.
           bindR (map_errR display_error (intent_hashes E (iq_intents req))) (\<lambda>hs.
           bindR (map_errR display_error (tree_build E hs)) (\<lambda>t. Inr (pk, tree_root t)))) of
        Inl e \<Rightarrow> Some (Inl e)
      | Inr (pk, root) \<Rightarrow>
          Option.bind (checked_add now (iq_ttl_seconds req)) (\<lambda>expiry.
          case map_errR display_error (set_extensions json_text (iq_extensions req) extensions_new) of
            Inl e \<Rightarrow> Some (Inl e)
          | Inr x \<Rightarrow>
              Option.bind (builder_sign E (signing_identity st) (builder_extensions x
                  (builder_max_depth (iq_max_depth req) (builder_new fresh pk root now expiry)))) (\<lambda>cert.
              Some (Inr \<lparr>is_cert = cert, is_fingerprint_hex = cert_fingerprint_hex E cert,
                         is_scope_root_hex = hex_enc E root\<rparr>))))"

subsection \<open>Idempotency\<close>

text \<open>
  Both caches are the same code over another response: entries with their expiry, dropped only when
  there are more than a thousand. The key is the whole of the lookup: the body of the request is not
  compared.
\<close>

type_synonym 'r idem_cache = "(string, u64 \<times> 'r) btree"

definition cache_evict :: "u64 \<Rightarrow> 'r idem_cache \<Rightarrow> 'r idem_cache" where
  "cache_evict now m = (if length m > 1000 then filter (\<lambda>(_, (e, _)). e > now) m else m)"

definition cache_lookup :: "u64 \<Rightarrow> string \<Rightarrow> 'r idem_cache \<Rightarrow> 'r option" where
  "cache_lookup now key m =
     (case map_of m key of Some (e, resp) \<Rightarrow> if e > now then Some resp else None | None \<Rightarrow> None)"

definition cache_insert :: "u64 \<Rightarrow> string \<Rightarrow> 'r \<Rightarrow> 'r idem_cache \<Rightarrow> 'r idem_cache option" where
  "cache_insert now key resp m = map_option (\<lambda>e. bt_insert key (e, resp) m) (checked_add now 300)"

text \<open>
  A handler behind a cache: \<open>now0\<close>, \<open>now2\<close> are the clock at the lookup and at the insertion, \<open>run\<close> what
  the route makes of the request (\<open>None\<close> a panic).
\<close>

definition idempotent ::
  "u64 \<Rightarrow> u64 \<Rightarrow> string option \<Rightarrow> (string + 'r) option \<Rightarrow> 'r idem_cache \<Rightarrow> ((string + 'r) response \<times> 'r idem_cache) option" where
  "idempotent now0 now2 key run m =
     (let m0 = (case key of Some _ \<Rightarrow> cache_evict now0 m | None \<Rightarrow> m);
          hit = (case key of Some k \<Rightarrow> cache_lookup now0 k m0 | None \<Rightarrow> None) in
      case hit of
        Some resp \<Rightarrow> Some ((200, Inr resp), m0)
      | None \<Rightarrow>
          (case run of
             None \<Rightarrow> None
           | Some (Inl e) \<Rightarrow> Some ((400, Inl e), m0)
           | Some (Inr resp) \<Rightarrow>
               (case key of
                  Some k \<Rightarrow> map_option (\<lambda>m1. ((201, Inr resp), m1)) (cache_insert now2 k resp m0)
                | None \<Rightarrow> Some ((201, Inr resp), m0))))"

definition issue_handler ::
  "ext \<Rightarrow> (string \<Rightarrow> string) \<Rightarrow> (bytes \<Rightarrow> string) \<Rightarrow> (json \<Rightarrow> string) \<Rightarrow> bytes \<Rightarrow> app_state \<Rightarrow> u64 \<Rightarrow> u64 \<Rightarrow> u64
     \<Rightarrow> string option \<Rightarrow> issue_cert_request \<Rightarrow> issue_cert_response idem_cache
     \<Rightarrow> ((string + issue_cert_response) response \<times> issue_cert_response idem_cache) option" where
  "issue_handler E hex_msg pk_msg json_text fresh st now0 now1 now2 key req m =
     idempotent now0 now2 key (gw_issue_inner E hex_msg pk_msg json_text fresh st now1 req) m"

record issue_batch_response =
  ib_bundle :: cert_bundle
  ib_issued :: "issue_cert_response list"
  ib_total :: nat

text \<open>The loop stops at the first request that fails; each turn has its own nonce and clock reading.\<close>

fun issue_all ::
  "ext \<Rightarrow> (string \<Rightarrow> string) \<Rightarrow> (bytes \<Rightarrow> string) \<Rightarrow> (json \<Rightarrow> string) \<Rightarrow> app_state \<Rightarrow> (bytes \<times> u64) list \<Rightarrow> issue_cert_request list
     \<Rightarrow> (string + issue_cert_response list) option" where
  "issue_all E hex_msg pk_msg json_text st fs [] = Some (Inr [])"
| "issue_all E hex_msg pk_msg json_text st fs (r # rs) =
     (case gw_issue_inner E hex_msg pk_msg json_text (fst (hd fs)) st (snd (hd fs)) r of
        None \<Rightarrow> None
      | Some (Inl e) \<Rightarrow> Some (Inl e)
      | Some (Inr resp) \<Rightarrow>
          map_option (\<lambda>x. bindR x (\<lambda>resps. Inr (resp # resps))) (issue_all E hex_msg pk_msg json_text st (tl fs) rs))"

definition issue_batch_run ::
  "ext \<Rightarrow> (string \<Rightarrow> string) \<Rightarrow> (bytes \<Rightarrow> string) \<Rightarrow> (json \<Rightarrow> string) \<Rightarrow> app_state \<Rightarrow> (bytes \<times> u64) list \<Rightarrow> u64
     \<Rightarrow> issue_cert_request list \<Rightarrow> (string + issue_batch_response) option" where
  "issue_batch_run E hex_msg pk_msg json_text st fs now1 rs =
     (if rs = [] then Some (Inl ''requests array must not be empty'')
      else map_option (\<lambda>x. bindR x (\<lambda>issued.
             Inr \<lparr>ib_bundle = \<lparr>bundle_certs = map is_cert issued, bundle_issued_at = now1\<rparr>, ib_issued = issued,
                  ib_total = length issued\<rparr>))
        (issue_all E hex_msg pk_msg json_text st fs rs))"

definition issue_batch_handler ::
  "ext \<Rightarrow> (string \<Rightarrow> string) \<Rightarrow> (bytes \<Rightarrow> string) \<Rightarrow> (json \<Rightarrow> string) \<Rightarrow> (bytes \<times> u64) list \<Rightarrow> app_state \<Rightarrow> u64 \<Rightarrow> u64 \<Rightarrow> u64
     \<Rightarrow> string option \<Rightarrow> issue_cert_request list \<Rightarrow> issue_batch_response idem_cache
     \<Rightarrow> ((string + issue_batch_response) response \<times> issue_batch_response idem_cache) option" where
  "issue_batch_handler E hex_msg pk_msg json_text fs st now0 now1 now2 key rs m =
     idempotent now0 now2 key (issue_batch_run E hex_msg pk_msg json_text st fs now1 rs) m"

section \<open>Revoking and inspecting\<close>

definition parse_fp :: "ext \<Rightarrow> string \<Rightarrow> string + bytes" where
  "parse_fp E h =
     bindR (ok_or ''invalid hex'' (hex_dec E h)) (\<lambda>b.
     if length b = 32 then Inr b else Inl ''fingerprint must be 32 bytes'')"

definition revoke_handler ::
  "ext \<Rightarrow> ('r \<Rightarrow> bytes \<Rightarrow> (storage_error + unit) \<times> 'r) \<Rightarrow> string \<Rightarrow> 'r \<Rightarrow> (string + string) response \<times> 'r" where
  "revoke_handler E revoke fp_hex r =
     (case parse_fp E fp_hex of
        Inl e \<Rightarrow> ((400, Inl e), r)
      | Inr fp \<Rightarrow> (case revoke r fp of
                   (Inr _, r') \<Rightarrow> ((200, Inr fp_hex), r')
                 | (Inl e, r') \<Rightarrow> ((500, Inl (display_storage_error e)), r')))"

text \<open>A store that fails reads as not revoked.\<close>

definition inspect_handler ::
  "ext \<Rightarrow> (bytes \<Rightarrow> storage_error + bool) \<Rightarrow> string \<Rightarrow> (string + string \<times> bool) response" where
  "inspect_handler E is_rev fp_hex =
     (case parse_fp E fp_hex of
        Inl e \<Rightarrow> (400, Inl e)
      | Inr fp \<Rightarrow> (200, Inr (fp_hex, case is_rev fp of Inr b \<Rightarrow> b | Inl _ \<Rightarrow> False)))"

record revoke_batch_response =
  rv_revoked_count :: nat
  rv_failed :: "string list"

definition decode_fp :: "ext \<Rightarrow> string \<Rightarrow> bytes option" where
  "decode_fp E h = Option.bind (hex_dec E h) (\<lambda>b. if length b = 32 then Some b else None)"

definition revoke_batch_handler ::
  "ext \<Rightarrow> ('r \<Rightarrow> bytes list \<Rightarrow> (storage_error + unit) \<times> 'r) \<Rightarrow> string list \<Rightarrow> 'r
     \<Rightarrow> (string + revoke_batch_response) response \<times> 'r" where
  "revoke_batch_handler E revoke_batch hs r =
     (let fps = List.map_filter (decode_fp E) hs; failed = filter (\<lambda>h. decode_fp E h = None) hs in
      case revoke_batch r fps of
        (Inr _, r') \<Rightarrow> ((200, Inr \<lparr>rv_revoked_count = length fps, rv_failed = failed\<rparr>), r')
      | (Inl e, r') \<Rightarrow> ((500, Inl (display_storage_error e)), r'))"

section \<open>Negotiation\<close>

definition check_capability_policy :: "environment \<Rightarrow> string list \<Rightarrow> a1_error + unit" where
  "check_capability_policy env requested =
     (if env ''A1_NEGOTIATE_ALLOW_ALL'' = Some ''1'' then Inr ()
      else
        let allowed_raw = (case env ''A1_NEGOTIATE_CAPABILITIES'' of Some s \<Rightarrow> s | None \<Rightarrow> []) in
        if allowed_raw = []
        then Inl (PolicyViolation (''negotiation not configured on this gateway '' @ [CHR 0xE2, CHR 0x80, CHR 0x94]
               @ '' set A1_NEGOTIATE_CAPABILITIES''))
        else
          let allowed = map str_trim (split_all CHR '','' allowed_raw) in
          each (\<lambda>cap. if \<not> List.member allowed cap
                     then Inl (PolicyViolation (''capability '' @ quoted cap @ '' is not offered by this gateway''))
                     else Inr ()) requested)"

record negotiation_result =
  nr_fingerprint_hex :: string
  nr_offerer_did :: string
  nr_requester_did :: string
  nr_cert :: delegation_cert
  nr_offer :: delegation_offer

definition requester_key :: "ext \<Rightarrow> string \<Rightarrow> a1_error + bytes" where
  "requester_key E h =
     bindR (ok_or (WireFormatError ''invalid requester_pk_hex'') (hex_dec E h)) (\<lambda>b.
     bindR (fixed_bytes 32 ''requester_pk_hex must be 32 bytes'' b) (\<lambda>arr.
     if ed_valid_pk E arr then Inr arr else Inl (WireFormatError ''invalid requester Ed25519 key'')))"

definition negotiate_inner ::
  "ext \<Rightarrow> (bytes \<Rightarrow> string) \<Rightarrow> environment \<Rightarrow> bytes \<Rightarrow> bytes \<Rightarrow> app_state \<Rightarrow> u64 \<Rightarrow> capability_request
     \<Rightarrow> (a1_error + negotiation_result) option" where
  "negotiate_inner E pk_msg env f1 f2 st now req =
     (case bindR (request_verify E pk_msg req) (\<lambda>_.
           bindR (verify_freshness now 300 req) (\<lambda>_.
           bindR (check_capability_policy env (requested_capabilities req)) (\<lambda>_.
           bindR (requester_key E (requester_pk_hex req)) (\<lambda>pk.
           bindR (intent_new (intent_name req)) (\<lambda>i. Inr (pk, intent_hash_of E i)))))) of
        Inl e \<Rightarrow> Some (Inl e)
      | Inr (pk, intent) \<Rightarrow>
          Option.bind (checked_add now (min (rq_ttl_secs req) 86400)) (\<lambda>expiry.
          Option.bind (builder_sign E (signing_identity st) (builder_new f1 pk intent now expiry)) (\<lambda>cert.
          Some (bindR (offer_build E f2 (signing_identity st) req cert now 120) (\<lambda>offer.
            Inr \<lparr>nr_fingerprint_hex = cert_fingerprint_hex E cert, nr_offerer_did = offerer_did offer,
                 nr_requester_did = requester_did req, nr_cert = cert, nr_offer = offer\<rparr>)))))"

definition negotiate_handler ::
  "ext \<Rightarrow> (bytes \<Rightarrow> string) \<Rightarrow> environment \<Rightarrow> bytes \<Rightarrow> bytes \<Rightarrow> app_state \<Rightarrow> u64 \<Rightarrow> capability_request
     \<Rightarrow> (error_body + negotiation_result) response option" where
  "negotiate_handler E pk_msg env f1 f2 st now req =
     map_option (\<lambda>x. case x of
         Inr res \<Rightarrow> (200, Inr res)
       | Inl e \<Rightarrow> (http_status e, Inl \<lparr>eb_error = display_error e, eb_code = error_code e\<rparr>))
       (negotiate_inner E pk_msg env f1 f2 st now req)"

section \<open>Idempotency replays the response, not the request\<close>

lemma cache_evict_keeps:
  "bt_inv m \<Longrightarrow> map_of m k = Some (e, r) \<Longrightarrow> e > now \<Longrightarrow> map_of (cache_evict now m) k = Some (e, r)"
proof -
  assume i: "bt_inv m" and k: "map_of m k = Some (e, r)" and e: "e > now"
  have d: "distinct (map fst m)" using i by (simp add: bt_inv_def strict_sorted_iff)
  then have "distinct (map fst (cache_evict now m))"
    using distinct_map_filter by (auto simp: cache_evict_def)
  moreover have "(k, e, r) \<in> set (cache_evict now m)" using map_of_SomeD [OF k] e by (auto simp: cache_evict_def)
  ultimately show ?thesis by simp
qed

lemma cache_evict_inv: "bt_inv m \<Longrightarrow> bt_inv (cache_evict now m)"
  by (simp add: cache_evict_def filter_bt_inv)

text \<open>A created response is what every later request with the key gets for five minutes, and nothing is run.\<close>

lemma idempotent_repeat:
  assumes "bt_inv m" and c: "idempotent t0 t2 (Some k) run m = Some ((201, Inr resp), m1)"
    and t: "unat t3 < unat t2 + 300"
  shows "\<exists>m2. idempotent t3 t4 (Some k) run' m1 = Some ((200, Inr resp), m2) \<and> bt_inv m2"
proof -
  let ?m0 = "cache_evict t0 m"
  have i0: "bt_inv ?m0" using assms(1) by (rule cache_evict_inv)
  from c obtain e where e: "checked_add t2 300 = Some e" and m1: "m1 = bt_insert k (e, resp) ?m0"
    by (auto simp: idempotent_def Let_def cache_insert_def split: option.splits sum.splits if_splits)
  have i1: "bt_inv m1" using i0 by (simp add: m1 bt_inv_insert)
  have "e > t3" using checked_add_unat [OF e] t by (simp add: word_less_nat_alt)
  moreover have "map_of m1 k = Some (e, resp)" using i0 by (simp add: m1 map_of_bt_insert)
  ultimately have "map_of (cache_evict t3 m1) k = Some (e, resp)" "e > t3"
    using cache_evict_keeps [OF i1] by blast+
  then show ?thesis using cache_evict_inv [OF i1] by (simp add: idempotent_def cache_lookup_def Let_def)
qed

text \<open>After five minutes, or without a key, the route runs.\<close>

lemma idempotent_runs:
  assumes "\<And>e r. map_of (cache_evict t0 m) k = Some (e, r) \<Longrightarrow> e \<le> t0"
  shows "idempotent t0 t2 (Some k) (Some (Inl e)) m = Some ((400, Inl e), cache_evict t0 m)"
    and "checked_add t2 300 \<noteq> None \<Longrightarrow>
      \<exists>m1. idempotent t0 t2 (Some k) (Some (Inr resp)) m = Some ((201, Inr resp), m1)"
proof -
  have h: "cache_lookup t0 k (cache_evict t0 m) = None"
    using assms by (auto simp: cache_lookup_def not_less split: option.splits)
  show "idempotent t0 t2 (Some k) (Some (Inl e)) m = Some ((400, Inl e), cache_evict t0 m)"
    by (simp add: idempotent_def h)
  show "checked_add t2 300 \<noteq> None \<Longrightarrow>
      \<exists>m1. idempotent t0 t2 (Some k) (Some (Inr resp)) m = Some ((201, Inr resp), m1)"
    by (auto simp: idempotent_def h cache_insert_def)
qed

section \<open>From issuing to authorizing\<close>

lemma pk_from_hex_Inr: "pk_from_hex E hm pm h = Inr pk \<longleftrightarrow> hex_dec E h = Some pk \<and> length pk = 32 \<and> ed_valid_pk E pk"
  by (auto simp: pk_from_hex_def result_simps ok_or_def split: option.splits if_splits)

lemma gw_issue_inner_Inr:
  assumes "gw_issue_inner E hm pm jt fresh st now req = Some (Inr resp)" "signer_ok E (signing_identity st)"
  shows "\<exists>hs t. intent_hashes E (iq_intents req) = Inr hs \<and> tree_build E hs = Inr t \<and> scope_root (is_cert resp) = tree_root t
    \<and> hex_dec E (iq_delegate_pk_hex req) = Some (delegate_pk (is_cert resp)) \<and> length (delegate_pk (is_cert resp)) = 32
    \<and> ed_valid_pk E (delegate_pk (is_cert resp))
    \<and> delegator_pk (is_cert resp) = verifying_key (signing_identity st) \<and> verify_signature E (is_cert resp)
    \<and> version (is_cert resp) = CERT_VERSION \<and> scope_proof (is_cert resp) = full_passthrough \<and> nonce (is_cert resp) = fresh
    \<and> issued_at (is_cert resp) = now \<and> now < expiration_unix (is_cert resp)
    \<and> unat (expiration_unix (is_cert resp)) = unat now + unat (iq_ttl_seconds req)
    \<and> is_fingerprint_hex resp = cert_fingerprint_hex E (is_cert resp) \<and> is_scope_root_hex resp = hex_enc E (tree_root t)"
proof -
  from assms(1) obtain pk hs t e x cert where
    pk: "pk_from_hex E hm pm (iq_delegate_pk_hex req) = Inr pk" and hs: "intent_hashes E (iq_intents req) = Inr hs"
    and t: "tree_build E hs = Inr t" and e: "checked_add now (iq_ttl_seconds req) = Some e"
    and c: "builder_sign E (signing_identity st) (builder_extensions x
        (builder_max_depth (iq_max_depth req) (builder_new fresh pk (tree_root t) now e))) = Some cert"
    and resp: "resp = \<lparr>is_cert = cert, is_fingerprint_hex = cert_fingerprint_hex E cert, is_scope_root_hex = hex_enc E (tree_root t)\<rparr>"
    by (auto simp: gw_issue_inner_def result_simps split: sum.splits bind_splits prod.splits)
  from c have cs: "cert = cert_issue E (signing_identity st) pk (tree_root t) full_passthrough fresh now e (iq_max_depth req) x" "now < e"
    by (auto simp: builder_sign_Some_iff builder_build_Inr_iff builder_new_def builder_max_depth_def builder_extensions_def)
  show ?thesis
    using pk hs t cs cert_issue_verifies [OF assms(2)] checked_add_unat [OF e] by (auto simp: resp pk_from_hex_Inr)
qed

text \<open>The document a client makes of an issued certificate, rooted at the gateway's own key.\<close>

definition issued_document :: "app_state \<Rightarrow> issue_cert_response \<Rightarrow> ext \<Rightarrow> signed_chain" where
  "issued_document st resp E = \<lparr>sc_version = 1, sc_principal_pk = hex_enc E (verifying_key (signing_identity st)),
     sc_principal_scope = is_scope_root_hex resp, sc_certs = [is_cert resp]\<rparr>"

lemma tree_root_one: "tree_build E [h] = Inr t \<Longrightarrow> tree_root t = h"
  by (auto simp: tree_build_def tree_root_def Let_def merkle_layers.simps [of E "[h]"])

lemma add_params_intent_new: "build_intent n ps = bindR (intent_new n) (add_params ps)"
  by (simp add: build_intent_def intent_try_new_def)

lemma issued_document_chain:
  assumes iss: "gw_issue_inner E hm pm jt fresh st now0 req = Some (Inr resp)" and one: "iq_intents req = [r]"
    and sg: "signer_wf E (signing_identity st)" "hash32 E" "hex_ok E"
    and w: "now0 \<le> sat_add now 15" "sat_sub now 15 \<le> expiration_unix (is_cert resp)"
  shows "\<exists>i c. build_intent (ir_name r) (ir_params r) = Inr i
    \<and> into_chain_with_drift E hm pm 15 (issued_document st resp E) = Inr c
    \<and> certs c = [is_cert resp]
    \<and> chain_valid E (delegate_pk (is_cert resp)) (intent_hash_of E i) proof_default now 15 c"
proof -
  let ?c = "is_cert resp"
  have so: "signer_ok E (signing_identity st)" using sg by (simp add: signer_wf_def)
  obtain hs t where hs: "intent_hashes E [r] = Inr hs" and t: "tree_build E hs = Inr t" and
    f: "scope_root ?c = tree_root t" "delegator_pk ?c = verifying_key (signing_identity st)" "verify_signature E ?c"
    "version ?c = CERT_VERSION" "scope_proof ?c = full_passthrough" "issued_at ?c = now0" "is_scope_root_hex resp = hex_enc E (tree_root t)"
    using gw_issue_inner_Inr [OF iss so] one by auto
  from hs obtain i where i: "build_intent (ir_name r) (ir_params r) = Inr i" and h: "hs = [intent_hash_of E i]"
    by (auto simp: intent_hashes_def result_simps add_params_intent_new)
  have root: "tree_root t = intent_hash_of E i" using tree_root_one t h by blast
  define c where "c = \<lparr>principal_pk = verifying_key (signing_identity st), principal_scope = intent_hash_of E i,
     certs = [?c], drift_tolerance_secs = 15, namespace = None\<rparr>"
  have doc: "into_chain_with_drift E hm pm 15 (issued_document st resp E) = Inr c"
    using sg f(7) root
    by (simp add: into_chain_with_drift_def issued_document_def hex_ok_def signer_wf_def ok_or_def fold_chain_push
        chain_new_def with_drift_tolerance_def c_def intent_hash_of_def chain_push_def)
  have "chain_valid E (delegate_pk ?c) (intent_hash_of E i) proof_default now 15 c"
    using f root w
    by (simp add: chain_valid_def c_def leaf_pk_def leaf_scope_def in_window_def depths_ok_def default_proof_intent
        is_passthrough_def full_passthrough_def)
  with i doc show ?thesis by (auto simp: c_def)
qed

text \<open>A certificate issued for one intent is good for exactly one authorization of it at the gateway.\<close>

lemma issue_then_authorize:
  assumes iss: "gw_issue_inner E hm pm jt fresh st now0 req = Some (Inr resp)" and one: "iq_intents req = [r]"
    and sg: "signer_wf E (signing_identity st)" "hash32 E" "hex_ok E"
    and w: "now0 \<le> sat_add now 15" "sat_sub now 15 \<le> expiration_unix (is_cert resp)"
    and bt: "batch_complete E" "batch_sound E"
    and stores: "mem_rev_inv rv" "nonce_inv s" "cert_fingerprint E (is_cert resp) \<notin> revoked_set rv" "fresh \<notin> live t s"
    and a: "ag_chain areq = issued_document st resp E" "ag_intent_name areq = ir_name r" "ag_intent_params areq = ir_params r"
      "ag_executor_pk_hex areq = iq_delegate_pk_hex req"
  shows "\<exists>aresp s'. gw_authorize_inner E hm pm rnd gs now now' (mem_is_revoked rv) (mem_try_consume_batch t) areq s = (Inr aresp, s')
    \<and> ao_authorized aresp \<and> ao_depth aresp = 1 \<and> nonce_inv s' \<and> fresh \<in> live t s'"
proof -
  let ?c = "is_cert resp"
  have so: "signer_ok E (signing_identity st)" using sg by (simp add: signer_wf_def)
  have f: "hex_dec E (iq_delegate_pk_hex req) = Some (delegate_pk ?c)" "length (delegate_pk ?c) = 32"
    "ed_valid_pk E (delegate_pk ?c)" "nonce ?c = fresh"
    using gw_issue_inner_Inr [OF iss so] by auto
  obtain i c where i: "build_intent (ir_name r) (ir_params r) = Inr i"
    and c: "into_chain_with_drift E hm pm 15 (issued_document st resp E) = Inr c" "certs c = [?c]"
    and v: "chain_valid E (delegate_pk ?c) (intent_hash_of E i) proof_default now 15 c"
    using issued_document_chain [OF iss one sg w] by blast
  have d: "drift_tolerance_secs c = 15" using into_chain_Inr [OF c(1)] by blast
  have "policy_ok None c" "chain_fps E c \<inter> revoked_set rv = {}" "chain_nonces c \<inter> live t s = {}"
    using c(2) stores(3,4) f(4) by (simp_all add: policy_ok_def chain_fps_def chain_nonces_def)
  then obtain s' where s': "authorize_inner E (delegate_pk ?c) (intent_hash_of E i) proof_default now (mem_is_revoked rv)
      (mem_try_consume_batch t) None c s = (Inr (receipt_for E now (intent_hash_of E i) c), s')"
    "nonce_inv s'" "live t s' = chain_nonces c \<union> live t s"
    using mem_auth.authorize_ok [OF stores(1,2) bt] v d by metis
  have k: "executor_key E (iq_delegate_pk_hex req) = Inr (delegate_pk ?c)" using f by (simp add: executor_key_Inr)
  have "chain_depth (receipt_for E now (intent_hash_of E i) c) = 1" using c(2) by (simp add: receipt_for_def receipt_of_def)
  then show ?thesis
    using s' i c k a f(4)
    by (auto simp: gw_authorize_inner_def authorize_async_inner authorize_response_of_def Let_def chain_nonces_def split: prod.splits)
qed

text \<open>
  In general the route presents the empty proof, so an issued certificate authorizes an intent only when
  the hash of the intent is the root of the certificate's tree. Over several hashes that root is an inner node.
\<close>

lemma merkle_root_many:
  "length xs > 1 \<Longrightarrow> \<exists>a b. hd (last (merkle_layers E xs)) = merkle_node E a b"
proof (induction "length xs" arbitrary: xs rule: less_induct)
  case less
  let ?n = "next_layer E xs"
  have m: "merkle_layers E xs = ?n # merkle_layers E ?n"
    using less.prems by (simp add: merkle_layers.simps [of E xs] Let_def)
  show ?case
  proof (cases "length ?n > 1")
    case True
    then have "merkle_layers E ?n \<noteq> []" by (simp add: merkle_layers.simps [of E ?n] Let_def)
    moreover have "length ?n < length xs" using less.prems by (simp add: length_next_layer)
    ultimately show ?thesis using less.hyps [of ?n] True m by simp
  next
    case False
    then have "merkle_layers E ?n = []" by (simp add: merkle_layers.simps [of E ?n])
    moreover obtain a b r where "xs = a # b # r" using less.prems by (cases xs; cases "tl xs") auto
    ultimately show ?thesis using m by auto
  qed
qed

lemma tree_root_many:
  assumes "tree_build E xs = Inr t" "x \<in> set xs" "y \<in> set xs" "x \<noteq> y"
  shows "\<exists>a b. tree_root t = merkle_node E a b"
proof -
  note t = tree_build_Inr [OF assms(1)]
  have "card {x, y} \<le> card (set (leaves t))" using assms t(2) by (intro card_mono) auto
  also have "\<dots> \<le> length (leaves t)" by (rule card_length)
  finally have l: "length (leaves t) > 1" using assms(4) by simp
  then have "merkle_layers E (leaves t) \<noteq> []" by (simp add: merkle_layers.simps [of E "leaves t"] Let_def)
  with merkle_root_many [OF l, of E] t(4) show ?thesis by (auto simp: tree_root_def)
qed

lemma intent_hashes_member:
  assumes "intent_hashes E rs = Inr hs" "r \<in> set rs"
  shows "\<exists>i. build_intent (ir_name r) (ir_params r) = Inr i \<and> intent_hash_of E i \<in> set hs"
  using assms unfolding intent_hashes_def
  by (induction rs arbitrary: hs) (auto simp: result_simps add_params_intent_new)

lemma intent_hashes_length:
  assumes "intent_hashes E rs = Inr hs" "h \<in> set hs" "hash32 E"
  shows "length h = 32"
proof -
  obtain k where k: "k < length hs" "h = hs ! k" using assms(2) by (metis in_set_conv_nth)
  with assms(1) have "\<exists>j. hs ! k = intent_hash_of E j"
    unfolding intent_hashes_def traverse_Inr_iff
    by (auto dest!: list_all2_nthD2 [OF _ k(1)] simp: result_simps simp del: bindR_simps) metis
  with k assms(3) show ?thesis by (auto simp: intent_hash_of_def)
qed

lemma issued_authorizes_iff:
  assumes iss: "gw_issue_inner E hm pm jt fresh st now0 req = Some (Inr resp)"
    and sg: "signer_wf E (signing_identity st)" "hash32 E" "hex_ok E"
    and w: "now0 \<le> sat_add now 15" "sat_sub now 15 \<le> expiration_unix (is_cert resp)"
    and bt: "batch_complete E" "batch_sound E"
    and stores: "mem_rev_inv rv" "nonce_inv s" "cert_fingerprint E (is_cert resp) \<notin> revoked_set rv" "fresh \<notin> live t s"
    and a: "ag_chain areq = issued_document st resp E" "build_intent (ag_intent_name areq) (ag_intent_params areq) = Inr i"
      "ag_executor_pk_hex areq = iq_delegate_pk_hex req"
  shows "(\<exists>aresp s'. gw_authorize_inner E hm pm rnd gs now now' (mem_is_revoked rv) (mem_try_consume_batch t) areq s = (Inr aresp, s'))
    \<longleftrightarrow> intent_hash_of E i = scope_root (is_cert resp)"
proof -
  let ?c = "is_cert resp"
  have so: "signer_ok E (signing_identity st)" using sg by (simp add: signer_wf_def)
  obtain hs t where t: "tree_build E hs = Inr t" and
    f: "scope_root ?c = tree_root t" "delegator_pk ?c = verifying_key (signing_identity st)" "verify_signature E ?c"
    "version ?c = CERT_VERSION" "scope_proof ?c = full_passthrough" "issued_at ?c = now0" "is_scope_root_hex resp = hex_enc E (tree_root t)"
    "hex_dec E (iq_delegate_pk_hex req) = Some (delegate_pk ?c)" "length (delegate_pk ?c) = 32" "ed_valid_pk E (delegate_pk ?c)"
    "nonce ?c = fresh" "intent_hashes E (iq_intents req) = Inr hs"
    using gw_issue_inner_Inr [OF iss so] by auto
  have len: "length (tree_root t) = 32"
  proof (cases "\<exists>x\<in>set hs. \<exists>y\<in>set hs. x \<noteq> y")
    case True
    then obtain a b where "tree_root t = merkle_node E a b" using tree_root_many [OF t] by blast
    then show ?thesis using sg(2) by (simp add: merkle_node_def)
  next
    case False
    from tree_build_Inr(1) [OF t] obtain h where h: "h \<in> set hs" by (cases hs) auto
    with False have "set hs = set [h]" by auto
    then have "tree_build E [h] = Inr t" using t tree_build_set by metis
    then have "tree_root t = h" by (rule tree_root_one)
    moreover have "length h = 32" using intent_hashes_length [OF f(12) h sg(2)] .
    ultimately show ?thesis by simp
  qed
  define c where "c = \<lparr>principal_pk = verifying_key (signing_identity st), principal_scope = tree_root t,
     certs = [?c], drift_tolerance_secs = 15, namespace = None\<rparr>"
  have doc: "into_chain_with_drift E hm pm 15 (issued_document st resp E) = Inr c"
    using sg f(7) len
    by (simp add: into_chain_with_drift_def issued_document_def hex_ok_def signer_wf_def ok_or_def fold_chain_push
        chain_new_def with_drift_tolerance_def c_def chain_push_def)
  have "chain_valid E (delegate_pk ?c) h proof_default now 15 c \<longleftrightarrow> h = tree_root t" for h
    using f w
    by (auto simp: chain_valid_def c_def leaf_pk_def leaf_scope_def in_window_def depths_ok_def default_proof_intent
        is_passthrough_def full_passthrough_def)
  moreover have "chain_fps E c \<inter> revoked_set rv = {}" "chain_nonces c \<inter> live t' s = {} \<longleftrightarrow> fresh \<notin> live t' s" for t'
    using stores(3) f(11) by (simp_all add: chain_fps_def chain_nonces_def c_def)
  moreover have "executor_key E (iq_delegate_pk_hex req) = Inr pk \<longleftrightarrow> pk = delegate_pk ?c" for pk
    using f by (auto simp: executor_key_Inr)
  ultimately show ?thesis
    unfolding gw_authorize_ok [OF stores(1,2) bt] a doc f(1) using stores(4) by auto
qed

lemma issued_intents:
  assumes "gw_issue_inner E hm pm jt fresh st now0 req = Some (Inr resp)" "signer_wf E (signing_identity st)"
    and "r \<in> set (iq_intents req)"
  obtains i where "build_intent (ir_name r) (ir_params r) = Inr i"
    and "\<And>r2 i2. r2 \<in> set (iq_intents req) \<Longrightarrow> build_intent (ir_name r2) (ir_params r2) = Inr i2 \<Longrightarrow>
      intent_hash_of E i2 \<noteq> intent_hash_of E i \<Longrightarrow> \<exists>a b. scope_root (is_cert resp) = merkle_node E a b"
proof -
  obtain hs t where hs: "intent_hashes E (iq_intents req) = Inr hs" and t: "tree_build E hs = Inr t"
    and root: "scope_root (is_cert resp) = tree_root t"
    using gw_issue_inner_Inr [OF assms(1)] assms(2) unfolding signer_wf_def by blast
  obtain i where i: "build_intent (ir_name r) (ir_params r) = Inr i" "intent_hash_of E i \<in> set hs"
    using intent_hashes_member [OF hs assms(3)] by blast
  show ?thesis
  proof (rule that [OF i(1)])
    fix r2 i2
    assume "r2 \<in> set (iq_intents req)" "build_intent (ir_name r2) (ir_params r2) = Inr i2" "intent_hash_of E i2 \<noteq> intent_hash_of E i"
    then show "\<exists>a b. scope_root (is_cert resp) = merkle_node E a b"
      using intent_hashes_member [OF hs, of r2] tree_root_many [OF t _ i(2)] unfolding root by auto
  qed
qed

section \<open>Negotiation grants the intent that was named\<close>

lemma check_capability_policy_Inr:
  "check_capability_policy env caps = Inr () \<longleftrightarrow> env ''A1_NEGOTIATE_ALLOW_ALL'' = Some ''1'' \<or>
     (\<exists>s. env ''A1_NEGOTIATE_CAPABILITIES'' = Some s \<and> s \<noteq> [] \<and> set caps \<subseteq> set (map str_trim (split_all CHR '','' s)))"
  by (auto simp: check_capability_policy_def Let_def each_Inr_iff split: option.splits)

text \<open>
  The capabilities that are checked are the ones in the request's list; the certificate is for the
  intent the request names, which need not be among them.
\<close>

lemma negotiate_grants_named_intent:
  assumes v: "request_verify E pm req = Inr pk" and fr: "verify_freshness now 300 req = Inr ()"
    and pol: "check_capability_policy env (requested_capabilities req) = Inr ()"
    and i: "intent_new (intent_name req) = Inr i" and ttl: "rq_ttl_secs req \<noteq> 0" "unat now + 86400 < 2 ^ 64"
    and sg: "signer_ok E (signing_identity st)"
  shows "\<exists>res. negotiate_inner E pm env f1 f2 st now req = Some (Inr res)
    \<and> scope_root (nr_cert res) = intent_hash_of E i \<and> delegate_pk (nr_cert res) = pk
    \<and> delegator_pk (nr_cert res) = verifying_key (signing_identity st) \<and> verify_signature E (nr_cert res)
    \<and> offer_cert (nr_offer res) = nr_cert res"
proof -
  let ?t = "min (rq_ttl_secs req) 86400"
  have k: "requester_key E (requester_pk_hex req) = Inr pk" and n: "\<exists>nn. parse_nonce_hex E (rq_nonce req) = Inr nn"
    using v by (auto simp: request_verify_def requester_key_def parse_pk_hex_def result_simps fixed_bytes_def ok_or_def Let_def
        split: if_splits option.splits)
  from n obtain nn where nn: "parse_nonce_hex E (rq_nonce req) = Inr nn" by blast
  have tl: "unat ?t \<le> 86400" "0 < unat ?t"
  proof -
    have "?t \<le> 86400" by simp
    then show "unat ?t \<le> 86400" by (simp add: word_le_nat_alt)
    show "0 < unat ?t" using ttl(1) by (auto simp: min_def unat_gt_0)
  qed
  then obtain e where e: "checked_add now ?t = Some e" using ttl(2) by (auto simp: checked_add_def)
  then have lt: "now < e" using checked_add_unat [OF e] tl by (simp add: word_less_nat_alt)
  define cert where "cert = cert_issue E (signing_identity st) pk (intent_hash_of E i) full_passthrough f1 now e 16 extensions_new"
  have b: "builder_sign E (signing_identity st) (builder_new f1 pk (intent_hash_of E i) now e) = Some cert"
    using lt by (simp add: builder_sign_Some_iff builder_build_Inr_iff builder_new_def cert_def)
  obtain off where off: "offer_build E f2 (signing_identity st) req cert now 120 = Inr off" "offer_cert off = cert"
    by (simp add: offer_build_def Let_def nn)
  have "negotiate_inner E pm env f1 f2 st now req = Some (Inr \<lparr>nr_fingerprint_hex = cert_fingerprint_hex E cert,
      nr_offerer_did = offerer_did off, nr_requester_did = requester_did req, nr_cert = cert, nr_offer = off\<rparr>)"
    using v fr pol k i e b off by (simp add: negotiate_inner_def)
  then show ?thesis using cert_issue_verifies [OF sg] off(2) by (simp add: cert_def)
qed

end
