(* ===== verification/A1_DemoGw.thy ===== *)
theory A1_DemoGw
  imports A1_Demo A1_GwIssue
begin

text \<open>
  A gateway with the demonstration's first key and a request for one certificate, on which the theorems
  about the gateway and the C interface are instantiated.
\<close>

definition demo_state :: app_state where
  "demo_state = \<lparr>signing_identity = toy_signer (demo_pk 1), mac_key = [], gw_pk_hex = [], admin_secret = None,
     webhook_url = None, webhook_secret = None\<rparr>"

definition demo_issue_request :: issue_cert_request where
  "demo_issue_request = \<lparr>iq_delegate_pk_hex = hex_enc toy_ext (demo_pk 2), iq_intents = [\<lparr>ir_name = ''files.read'', ir_params = []\<rparr>],
     iq_ttl_seconds = 3600, iq_max_depth = 16, iq_extensions = []\<rparr>"

lemma demo_issue_simps:
  "iq_intents demo_issue_request = [\<lparr>ir_name = ''files.read'', ir_params = []\<rparr>]"
  "iq_delegate_pk_hex demo_issue_request = hex_enc toy_ext (demo_pk 2)"
  "signing_identity demo_state = toy_signer (demo_pk 1)"
  by (simp_all add: demo_issue_request_def demo_state_def)

lemma demo_issue:
  "\<exists>resp. gw_issue_inner toy_ext (\<lambda>_. []) (\<lambda>_. []) (\<lambda>_. []) (replicate 16 5) demo_state 100 demo_issue_request = Some (Inr resp)
     \<and> expiration_unix (is_cert resp) = 3700 \<and> nonce (is_cert resp) = replicate 16 5 \<and> delegate_pk (is_cert resp) = demo_pk 2"
proof -
  obtain i where i: "intent_new ''files.read'' = Inr i" by (simp add: intent_new_def MAX_ACTION_LEN_def)
  obtain t where t: "tree_build toy_ext [intent_hash_of toy_ext i] = Inr t"
    using tree_build_nonempty [of "[intent_hash_of toy_ext i]" toy_ext] by auto
  have "pk_from_hex toy_ext (\<lambda>_. []) (\<lambda>_. []) (hex_enc toy_ext (demo_pk 2)) = Inr (demo_pk 2)"
    using toy_hex_ok by (simp add: pk_from_hex_def hex_ok_def ok_or_def demo_valid_pk)
  with i t show ?thesis
    by (simp add: gw_issue_inner_def demo_issue_request_def intent_hashes_def map_errR_def checked_add_def builder_sign_def
        builder_build_def builder_extensions_def builder_max_depth_def builder_new_def Let_def)
qed

end
