(* ===== verification/A1_Governance.thy ===== *)
theory A1_Governance
  imports A1_Negotiate A1_Calendar
begin

text \<open>
  \<open>src/governance.rs\<close> and \<open>a1-gateway/src/routes/governance.rs\<close>: approval tokens, key rotation, the
  governance policy with its four checks, audit reports, and the tool check of the studio. The JSON
  text that \<open>serde_json\<close> gives a policy or a report is a parameter \<open>json\<close>, as is an error it may
  return. \<open>granted_at + ttl_secs\<close> panics on overflow (\<open>overflow-checks\<close>): \<open>None\<close> is a panic.
\<close>

definition DOMAIN_GOV_POLICY :: string where "DOMAIN_GOV_POLICY = ''a1::dyolo::governance::policy::v2.8.0''"
definition DOMAIN_GOV_APPROVAL :: string where "DOMAIN_GOV_APPROVAL = ''a1::dyolo::governance::approval::v2.8.0''"
definition DOMAIN_GOV_AUDIT :: string where "DOMAIN_GOV_AUDIT = ''a1::dyolo::governance::audit::v2.8.0''"

section \<open>Approval tokens\<close>

record approval_gate =
  gate_capability :: string
  gate_approver_did :: string
  approval_ttl_secs :: u64
  allow_retroactive :: bool

record approval_token =
  at_capability :: string
  at_approver_did :: string
  at_agent_did :: string
  at_action_id :: string
  granted_at_unix :: u64
  at_expires_at_unix :: u64
  at_nonce :: string
  at_signature :: string

definition approval_chunks :: "string \<Rightarrow> string \<Rightarrow> string \<Rightarrow> string \<Rightarrow> u64 \<Rightarrow> u64 \<Rightarrow> bytes \<Rightarrow> bytes list" where
  "approval_chunks cap approver agent act granted expires nn =
     concat (map (\<lambda>s. [le64 (u64_of (length s)), str_bytes s]) [cap, approver, agent, act])
     @ [le64 granted, le64 expires, nn]"

definition approval_signable ::
  "ext \<Rightarrow> string \<Rightarrow> string \<Rightarrow> string \<Rightarrow> string \<Rightarrow> u64 \<Rightarrow> u64 \<Rightarrow> bytes \<Rightarrow> bytes" where
  "approval_signable E cap approver agent act granted expires nn =
     h_finalize E (h_updates (new_derive_key DOMAIN_GOV_APPROVAL)
       (approval_chunks cap approver agent act granted expires nn))"

definition approval_issue ::
  "ext \<Rightarrow> bytes \<Rightarrow> signer \<Rightarrow> string \<Rightarrow> string \<Rightarrow> string \<Rightarrow> u64 \<Rightarrow> u64 \<Rightarrow> approval_token option" where
  "approval_issue E fresh approver cap agent act granted ttl =
     (let did = did_of_pk E (verifying_key approver) in
      Option.bind (checked_add granted ttl) (\<lambda>expires.
      let msg = approval_signable E cap did agent act granted expires fresh in
      Some \<lparr>at_capability = cap, at_approver_did = did, at_agent_did = agent, at_action_id = act,
            granted_at_unix = granted, at_expires_at_unix = expires, at_nonce = hex_enc E fresh,
            at_signature = hex_enc E (sign_message approver msg)\<rparr>))"

definition approval_verify :: "ext \<Rightarrow> approval_token \<Rightarrow> u64 \<Rightarrow> a1_error + unit" where
  "approval_verify E t now =
     (if now > at_expires_at_unix t then Inl (Expired 0 (at_expires_at_unix t) now)
      else
      bindR (ok_or (WireFormatError ''invalid approver DID'') (strip_prefix ''did:a1:'' (at_approver_did t))) (\<lambda>pk_hex.
      bindR (ok_or (WireFormatError ''invalid DID hex'') (hex_dec E pk_hex)) (\<lambda>pk_bytes.
      bindR (fixed_bytes 32 ''key must be 32 bytes'' pk_bytes) (\<lambda>vk.
      bindR (if ed_valid_pk E vk then Inr () else Inl (WireFormatError ''invalid Ed25519 key'')) (\<lambda>_.
      bindR (ok_or (WireFormatError ''invalid nonce hex'') (hex_dec E (at_nonce t))) (\<lambda>nonce_bytes.
      bindR (fixed_bytes 16 ''nonce must be 16 bytes'' nonce_bytes) (\<lambda>nn.
      let msg = approval_signable E (at_capability t) (at_approver_did t) (at_agent_did t) (at_action_id t)
                  (granted_at_unix t) (at_expires_at_unix t) nn in
      bindR (ok_or (WireFormatError ''invalid sig hex'') (hex_dec E (at_signature t))) (\<lambda>sig_bytes.
      bindR (fixed_bytes 64 ''sig must be 64 bytes'' sig_bytes) (\<lambda>sig.
      if ed_verify E vk msg sig then Inr () else Inl (HybridSignatureInvalid ''approval-token''))))))))))"

text \<open>What \<open>verify\<close> has read when it accepts: the approver's key, and the token's canonical digest.\<close>

definition approver_key :: "ext \<Rightarrow> approval_token \<Rightarrow> bytes option" where
  "approver_key E t = Option.bind (strip_prefix ''did:a1:'' (at_approver_did t)) (hex_dec E)"

definition approval_digest :: "ext \<Rightarrow> approval_token \<Rightarrow> a1_error + bytes" where
  "approval_digest E t = bindR (parse_nonce_hex E (at_nonce t)) (\<lambda>nn.
     Inr (approval_signable E (at_capability t) (at_approver_did t) (at_agent_did t) (at_action_id t)
       (granted_at_unix t) (at_expires_at_unix t) nn))"

definition approval_accepts :: "ext \<Rightarrow> u64 \<Rightarrow> approval_token \<Rightarrow> a1_error + bytes" where
  "approval_accepts E now t =
     bindR (approval_verify E t now) (\<lambda>_. ok_or (WireFormatError ''invalid approver DID'') (approver_key E t))"

lemma fixed_bytes_Inr [simp]: "fixed_bytes n m b = Inr c \<longleftrightarrow> b = c \<and> length c = n"
  by (auto simp: fixed_bytes_def)

interpretation approval_msg: signed_message E "approval_accepts E now" "approval_digest E" at_signature for E now
proof unfold_locales
  fix t pk
  assume "approval_accepts E now t = Inr pk"
  then show "\<exists>d sg. approval_digest E t = Inr d \<and> parse_sig_hex E (at_signature t) = Inr sg \<and> ed_verify E pk d sg"
    unfolding approval_accepts_def approval_verify_def approver_key_def approval_digest_def
      parse_nonce_hex_def parse_sig_hex_def Let_def
    by (auto simp: result_simps split: if_splits)
qed

lemma approval_roundtrip:
  assumes "hex_ok E" "signer_wf E s" "length fresh = 16"
    and "approval_issue E fresh s cap agent act granted ttl = Some t"
  shows "approval_verify E t now = (if now \<le> at_expires_at_unix t then Inr () else Inl (Expired 0 (at_expires_at_unix t) now))
    \<and> unat (at_expires_at_unix t) = unat granted + unat ttl
    \<and> at_capability t = cap \<and> at_agent_did t = agent \<and> at_action_id t = act \<and> granted_at_unix t = granted
    \<and> approver_key E t = Some (verifying_key s)"
proof -
  obtain e where e: "checked_add granted ttl = Some e" and t: "t =
      \<lparr>at_capability = cap, at_approver_did = did_of_pk E (verifying_key s), at_agent_did = agent, at_action_id = act,
       granted_at_unix = granted, at_expires_at_unix = e, at_nonce = hex_enc E fresh,
       at_signature = hex_enc E (sign_message s (approval_signable E cap (did_of_pk E (verifying_key s)) agent act granted e fresh))\<rparr>"
    using assms(4) by (auto simp: approval_issue_def Let_def split: bind_splits)
  have "strip_prefix ''did:a1:'' (did_of_pk E (verifying_key s)) = Some (hex_enc E (verifying_key s))"
    unfolding did_of_pk_def by (rule strip_prefix_append)
  then show ?thesis using assms(1-3) checked_add_unat [OF e]
    by (simp add: t approval_verify_def approver_key_def Let_def hex_ok_def signer_wf_def signer_ok_def fixed_bytes_def
        ok_or_def not_le)
qed

lemma concat_approval_chunks:
  "concat (approval_chunks cap approver agent act granted expires nn) =
     lp (str_bytes cap) @ lp (str_bytes approver) @ lp (str_bytes agent) @ lp (str_bytes act)
     @ le64 granted @ le64 expires @ nn"
  by (simp add: approval_chunks_def lp_def)

lemma approval_chunks_inj:
  assumes "fits cap" "fits cap'" "fits ap" "fits ap'" "fits ag" "fits ag'" "fits ac" "fits ac'"
    and "concat (approval_chunks cap ap ag ac g e nn) = concat (approval_chunks cap' ap' ag' ac' g' e' nn')"
  shows "cap = cap' \<and> ap = ap' \<and> ag = ag' \<and> ac = ac' \<and> g = g' \<and> e = e' \<and> nn = nn'"
proof -
  note d = self_delimD [OF self_delim_lp_str]
  note eq = assms(9) [unfolded concat_approval_chunks]
  note 1 = d [OF assms(1,2) eq]
  note 2 = d [OF assms(3,4) conjunct2 [OF 1]]
  note 3 = d [OF assms(5,6) conjunct2 [OF 2]]
  note 4 = d [OF assms(7,8) conjunct2 [OF 3]]
  from 1 2 3 4 show ?thesis by (simp add: append_eq_append_conv)
qed

section \<open>Key rotation\<close>

record key_rotation_policy =
  max_age_days :: u32
  mandatory :: bool
  rotation_authority_did :: "string option"

definition key_rotation_default :: key_rotation_policy where
  "key_rotation_default = \<lparr>max_age_days = 90, mandatory = True, rotation_authority_did = None\<rparr>"

datatype rotation_status = RotationValid u64 | RotationRecommended u64 | RotationRequired u64

definition rotation_check :: "key_rotation_policy \<Rightarrow> u64 \<Rightarrow> u64 \<Rightarrow> rotation_status" where
  "rotation_check p issued now =
     (let age_days = sat_sub now issued div 86400 in
      if age_days \<ge> ucast (max_age_days p)
      then (if mandatory p then RotationRequired age_days else RotationRecommended age_days)
      else RotationValid (ucast (max_age_days p) - age_days))"

text \<open>The days left are counted without wrap-around, and a key is due after exactly its days.\<close>

lemma rotation_check_spec:
  "rotation_check p i now =
     (let age = (unat now - unat i) div 86400; m = unat (max_age_days p) in
      if m \<le> age then (if mandatory p then RotationRequired (word_of_nat age) else RotationRecommended (word_of_nat age))
      else RotationValid (word_of_nat (m - age)))"
proof -
  let ?a = "sat_sub now i div 86400"
  have a: "unat ?a = (unat now - unat i) div 86400" by (simp add: unat_div unat_sat_sub)
  then have w: "?a = word_of_nat ((unat now - unat i) div 86400)" by (simp flip: a)
  have m: "unat (ucast (max_age_days p) :: u64) = unat (max_age_days p)"
  proof -
    have "unat (max_age_days p) < 2 ^ LENGTH(32)" by (rule unsigned_less)
    then have "unat (max_age_days p) < 2 ^ 64" by simp
    then show ?thesis by (simp add: unsigned_ucast_eq take_bit_nat_eq_self)
  qed
  show ?thesis
  proof (cases "ucast (max_age_days p) \<le> ?a")
    case True
    then have "unat (max_age_days p) \<le> (unat now - unat i) div 86400" by (simp add: word_le_nat_alt m a)
    with True show ?thesis by (simp add: rotation_check_def Let_def w)
  next
    case False
    then have l: "(unat now - unat i) div 86400 < unat (max_age_days p)" by (simp add: word_le_nat_alt m a not_le)
    have "ucast (max_age_days p) - ?a = (word_of_nat (unat (max_age_days p) - (unat now - unat i) div 86400) :: u64)"
      using l by (simp add: of_nat_diff w flip: m)
    with False l show ?thesis by (simp add: rotation_check_def Let_def)
  qed
qed

section \<open>The governance policy\<close>

record governance_policy =
  approval_gates :: "approval_gate list"
  key_rotation :: key_rotation_policy
  gov_max_chain_depth :: u8
  allowed_namespaces :: "string list"
  blocked_capabilities :: "string list"
  require_human_approval_for :: "string list"
  audit_all_authorizations :: bool

definition default_max_depth :: u8 where "default_max_depth = 16"
definition default_true :: bool where "default_true = True"

definition governance_default :: governance_policy where
  "governance_default = \<lparr>approval_gates = [], key_rotation = key_rotation_default, gov_max_chain_depth = 16,
     allowed_namespaces = [], blocked_capabilities = [], require_human_approval_for = [],
     audit_all_authorizations = True\<rparr>"

definition check_namespace :: "governance_policy \<Rightarrow> string \<Rightarrow> a1_error + unit" where
  "check_namespace g ns =
     (if allowed_namespaces g = [] \<or> list_ex (\<lambda>n. n = ns) (allowed_namespaces g) then Inr ()
      else Inl (PolicyViolation (''namespace '' @ quoted ns @ '' not in governance allowlist'')))"

definition check_capability_not_blocked :: "governance_policy \<Rightarrow> string \<Rightarrow> a1_error + unit" where
  "check_capability_not_blocked g cap =
     (if list_ex (\<lambda>c. c = cap) (blocked_capabilities g)
      then Inl (PolicyViolation (''capability '' @ quoted cap @ '' is blocked by governance policy'')) else Inr ())"

definition check_chain_depth :: "governance_policy \<Rightarrow> nat \<Rightarrow> a1_error + unit" where
  "check_chain_depth g d =
     (if d > unat (gov_max_chain_depth g) then Inl (MaxDepthExceeded d (gov_max_chain_depth g)) else Inr ())"

definition requires_human_approval :: "governance_policy \<Rightarrow> string \<Rightarrow> bool" where
  "requires_human_approval g cap \<longleftrightarrow> list_ex (\<lambda>c. c = cap) (require_human_approval_for g)"

definition gov_commitment :: "ext \<Rightarrow> (governance_policy \<Rightarrow> string + string) \<Rightarrow> governance_policy \<Rightarrow> a1_error + bytes" where
  "gov_commitment E json g =
     bindR (map_errR WireFormatError (json g)) (\<lambda>j.
       Inr (h_finalize E (h_updates (new_derive_key DOMAIN_GOV_POLICY) [str_bytes j])))"

section \<open>Audit reports\<close>

datatype finding_severity = FInfo | FWarning | FCritical

record audit_finding =
  f_severity :: finding_severity
  f_code :: string
  f_description :: string
  f_count :: u64
  f_recommendation :: string

record audit_report =
  ar_title :: string
  ar_scope :: string
  period_start_unix :: u64
  period_end_unix :: u64
  total_authorizations :: u64
  denied_authorizations :: u64
  revocations_issued :: u64
  passports_due_rotation :: u64
  policy_commitment_hex :: string
  generated_at :: string
  compliance_standards :: "string list"
  ar_findings :: "audit_finding list"
  report_hash :: string

definition em_dash :: string where "em_dash = [CHR 0xE2, CHR 0x80, CHR 0x94]"

definition report_new ::
  "ext \<Rightarrow> (governance_policy \<Rightarrow> string + string) \<Rightarrow> string \<Rightarrow> u64 \<Rightarrow> u64 \<Rightarrow> governance_policy \<Rightarrow> a1_error + audit_report" where
  "report_new E json scope start fin g =
     bindR (gov_commitment E json g) (\<lambda>c.
       Inr \<lparr>ar_title = ''A1 Compliance Audit '' @ em_dash @ '' '' @ scope, ar_scope = scope, period_start_unix = start,
            period_end_unix = fin, total_authorizations = 0, denied_authorizations = 0, revocations_issued = 0,
            passports_due_rotation = 0, policy_commitment_hex = hex_enc E c, generated_at = unix_to_iso fin,
            compliance_standards = [''EU AI Act (Art. 13, 14, 17)'', ''NIST AI RMF Govern 1.7, 6.2'',
              ''SOC 2 Type II (CC6.1, CC7.2)'', ''ISO/IEC 27001:2022 A.9''],
            ar_findings = [], report_hash = []\<rparr>)"

definition add_finding :: "audit_finding \<Rightarrow> audit_report \<Rightarrow> audit_report" where
  "add_finding f r = r\<lparr>ar_findings := ar_findings r @ [f]\<rparr>"

definition report_finalize :: "ext \<Rightarrow> (audit_report \<Rightarrow> string + string) \<Rightarrow> audit_report \<Rightarrow> a1_error + audit_report" where
  "report_finalize E json r =
     bindR (map_errR WireFormatError (json r)) (\<lambda>j.
       Inr (r\<lparr>report_hash := hex_enc E (h_finalize E (h_updates (new_derive_key DOMAIN_GOV_AUDIT) [str_bytes j]))\<rparr>))"

section \<open>The gateway's governance routes\<close>

definition BLOCKED_TOOLS :: "string list" where
  "BLOCKED_TOOLS = [''network.raw_socket'', ''network.raw_tcp'', ''process.kill_system'', ''process.kill_all'',
     ''system.format'', ''shell.exec_root'', ''shell.rm_rf'', ''fs.wipe'']"

definition APPROVAL_TOOLS :: "string list" where
  "APPROVAL_TOOLS = [''files.write'', ''files.delete'', ''process.spawn'', ''network.outbound_unrestricted'']"

record studio_check_response =
  sc_authorized :: bool
  sc_decision :: string
  sc_reason :: string
  sc_tool :: string

definition studio_check_handler :: "string \<Rightarrow> studio_check_response" where
  "studio_check_handler req_tool =
     (let tool = str_lower (str_trim req_tool) in
      if list_ex (\<lambda>t. t = tool) BLOCKED_TOOLS
      then \<lparr>sc_authorized = False, sc_decision = ''block'',
            sc_reason = ''A1 policy: '' @ quoted tool @ '' is on the capability deny-list. Blocked '' @ em_dash
              @ '' the agent never sees this request.'', sc_tool = req_tool\<rparr>
      else if list_ex (\<lambda>t. t = tool) APPROVAL_TOOLS
      then \<lparr>sc_authorized = False, sc_decision = ''require_approval'',
            sc_reason = ''A1 policy: '' @ quoted tool
              @ '' requires a human approval token before the agent may proceed.'', sc_tool = req_tool\<rparr>
      else \<lparr>sc_authorized = True, sc_decision = ''allow'',
            sc_reason = ''A1 policy: '' @ quoted tool @ '' is permitted. Gateway authorized '' @ em_dash
              @ '' forwarding to agent.'', sc_tool = req_tool\<rparr>)"

text \<open>
  \<open>audit_report_handler\<close>; \<open>loaded\<close> is what \<open>GovernancePolicy::from_env\<close> returns. An unreadable policy
  file is replaced by the default policy, and a failed \<open>finalize\<close> leaves the report without its hash.
\<close>

definition policy_or_default :: "a1_error + governance_policy option \<Rightarrow> governance_policy" where
  "policy_or_default loaded = (case loaded of Inr (Some g) \<Rightarrow> g | _ \<Rightarrow> governance_default)"

record audit_report_request =
  rr_scope :: string
  rr_period_start :: u64
  rr_period_end :: u64
  rr_total :: "u64 option"
  rr_denied :: "u64 option"
  rr_revocations :: "u64 option"

definition set_or :: "'a \<Rightarrow> 'a option \<Rightarrow> 'a" where
  "set_or d x = (case x of Some v \<Rightarrow> v | None \<Rightarrow> d)"

definition audit_report_handler ::
  "ext \<Rightarrow> (governance_policy \<Rightarrow> string + string) \<Rightarrow> (audit_report \<Rightarrow> string + string)
     \<Rightarrow> a1_error + governance_policy option \<Rightarrow> audit_report_request \<Rightarrow> nat \<times> (a1_error + audit_report)" where
  "audit_report_handler E gjson rjson loaded req =
     (case report_new E gjson (rr_scope req) (rr_period_start req) (rr_period_end req) (policy_or_default loaded) of
        Inl e \<Rightarrow> (500, Inl e)
      | Inr report \<Rightarrow>
          (let report = report\<lparr>total_authorizations := set_or (total_authorizations report) (rr_total req),
                 denied_authorizations := set_or (denied_authorizations report) (rr_denied req),
                 revocations_issued := set_or (revocations_issued report) (rr_revocations req)\<rparr> in
           case report_finalize E rjson report of
             Inl _ \<Rightarrow> (200, Inr report)
           | Inr final \<Rightarrow> (200, Inr final)))"

text \<open>The verdict of \<open>verify_approval_handler\<close>: valid with the capability and the agent, or the error's text.\<close>

definition verify_approval_handler :: "ext \<Rightarrow> u64 \<Rightarrow> approval_token \<Rightarrow> string + string \<times> string" where
  "verify_approval_handler E now t =
     (case approval_verify E t now of
        Inr _ \<Rightarrow> Inr (at_capability t, at_agent_did t)
      | Inl e \<Rightarrow> Inl (display_error e))"

text \<open>
  The tool check authorizes exactly the names that are on neither list once trimmed and lowered; it
  asks neither who the agent is nor what it holds.
\<close>

lemma studio_check_iff:
  "sc_authorized (studio_check_handler t) \<longleftrightarrow>
     str_lower (str_trim t) \<notin> set BLOCKED_TOOLS \<and> str_lower (str_trim t) \<notin> set APPROVAL_TOOLS"
  unfolding studio_check_handler_def Let_def by (auto simp: list_ex_iff)

lemma studio_check_decision:
  "sc_decision (studio_check_handler t) =
     (if str_lower (str_trim t) \<in> set BLOCKED_TOOLS then ''block''
      else if str_lower (str_trim t) \<in> set APPROVAL_TOOLS then ''require_approval'' else ''allow'')"
  unfolding studio_check_handler_def Let_def by (auto simp: list_ex_iff)

end
