(* ===== verification/A1_Zk.thy ===== *)
theory A1_Zk
  imports A1_Negotiate A1_Wire
begin

text \<open>
  \<open>src/zk.rs\<close> and \<open>src/anchor.rs\<close>: commitments sealed over an authorized chain, the combined proof
  of chain and reasoning trace, and the receipts prepared for anchoring on a public chain, with the
  ABI encoding of the call.
\<close>

definition DOMAIN_ZK_COMMIT :: string where "DOMAIN_ZK_COMMIT = ''a1::dyolo::zk::commit::v2.8.0''"
definition DOMAIN_ZK_BIND :: string where "DOMAIN_ZK_BIND = ''a1::dyolo::zk::bind::v2.8.0''"
definition DOMAIN_ANCHOR_SEAL :: string where "DOMAIN_ANCHOR_SEAL = ''a1::dyolo::anchor::seal::v2.8.0''"

section \<open>Chain commitments\<close>

datatype zk_proof_mode = Blake3Commit | ExternalZkvm

fun zk_mode_as_u8 :: "zk_proof_mode \<Rightarrow> u8" where
  "zk_mode_as_u8 Blake3Commit = 1"
| "zk_mode_as_u8 ExternalZkvm = 2"

record zk_chain_commitment =
  zk_commitment :: bytes
  zk_intent :: bytes
  sealed_at_unix :: u64
  chain_fingerprint_hex :: string
  authority_signature :: string
  authority_did :: string
  zk_mode :: zk_proof_mode
  zk_proof_hex :: string
  zk_namespace :: "string option"

definition compute_commitment :: "ext \<Rightarrow> bytes \<Rightarrow> bytes \<Rightarrow> bytes \<Rightarrow> u64 \<Rightarrow> bytes" where
  "compute_commitment E fp intent nc sealed =
     h_finalize E (h_updates (new_derive_key DOMAIN_ZK_COMMIT) [fp, intent, nc, le64 sealed])"

definition zk_seal ::
  "ext \<Rightarrow> dyolo_chain \<Rightarrow> bytes \<Rightarrow> bytes \<Rightarrow> u64 \<Rightarrow> signer \<Rightarrow> string option \<Rightarrow> zk_chain_commitment" where
  "zk_seal E chain intent nc sealed authority ns =
     (let fp = fingerprint E chain; c = compute_commitment E fp intent nc sealed in
      \<lparr>zk_commitment = c, zk_intent = intent, sealed_at_unix = sealed, chain_fingerprint_hex = hex_enc E fp,
       authority_signature = hex_enc E (sign_message authority c),
       authority_did = did_of_pk E (verifying_key authority), zk_mode = Blake3Commit, zk_proof_hex = [],
       zk_namespace = ns\<rparr>)"

text \<open>The authority's key out of its identifier and its signature, with the texts of each caller.\<close>

definition authority_key :: "ext \<Rightarrow> string \<Rightarrow> string \<Rightarrow> string \<Rightarrow> a1_error + bytes" where
  "authority_key E hex_text key_text did =
     bindR (ok_or (WireFormatError ''invalid authority DID'') (strip_prefix ''did:a1:'' did)) (\<lambda>pk_hex.
     bindR (ok_or (WireFormatError hex_text) (hex_dec E pk_hex)) (\<lambda>b.
     bindR (fixed_bytes 32 ''authority key must be 32 bytes'' b) (\<lambda>arr.
     if ed_valid_pk E arr then Inr arr else Inl (WireFormatError key_text))))"

definition authority_sig :: "ext \<Rightarrow> string \<Rightarrow> string \<Rightarrow> a1_error + bytes" where
  "authority_sig E hex_text s =
     bindR (ok_or (WireFormatError hex_text) (hex_dec E s)) (\<lambda>b. fixed_bytes 64 ''signature must be 64 bytes'' b)"

definition zk_verify_commitment ::
  "ext \<Rightarrow> bytes \<Rightarrow> u64 \<Rightarrow> u64 option \<Rightarrow> zk_chain_commitment \<Rightarrow> a1_error + unit" where
  "zk_verify_commitment E nc now max_age z =
     bindR (ok_or (WireFormatError ''invalid chain_fingerprint_hex'') (hex_dec E (chain_fingerprint_hex z))) (\<lambda>b.
     bindR (fixed_bytes 32 ''chain fingerprint must be 32 bytes'' b) (\<lambda>fp.
     bindR (if compute_commitment E fp (zk_intent z) nc (sealed_at_unix z) = zk_commitment z then Inr ()
            else Inl InvalidSubScopeProof) (\<lambda>_.
     bindR (case max_age of
         None \<Rightarrow> Inr ()
       | Some m \<Rightarrow> if sat_sub now (sealed_at_unix z) > m then Inl (Expired 0 (sealed_at_unix z + m) now) else Inr ()) (\<lambda>_.
     bindR (authority_key E ''invalid authority DID hex'' ''invalid authority Ed25519 key'' (authority_did z)) (\<lambda>vk.
     bindR (authority_sig E ''invalid authority_signature hex'' (authority_signature z)) (\<lambda>sig.
     if ed_verify E vk (zk_commitment z) sig then Inr () else Inl (HybridSignatureInvalid ''zk-commitment'')))))))"

definition with_zk_proof :: "ext \<Rightarrow> bytes \<Rightarrow> zk_chain_commitment \<Rightarrow> zk_chain_commitment" where
  "with_zk_proof E p z = z\<lparr>zk_proof_hex := hex_enc E p, zk_mode := ExternalZkvm\<rparr>"

definition has_zk_proof :: "zk_chain_commitment \<Rightarrow> bool" where
  "has_zk_proof z \<longleftrightarrow> zk_mode z = ExternalZkvm \<and> zk_proof_hex z \<noteq> []"

definition anchor_hash :: "ext \<Rightarrow> zk_chain_commitment \<Rightarrow> bytes" where
  "anchor_hash E z = h_finalize E (h_updates (new_derive_key DOMAIN_ZK_BIND)
     [zk_commitment z, le64 (sealed_at_unix z), str_bytes (authority_did z)])"

section \<open>Trace proofs\<close>

record zk_trace_proof =
  chain_commitment :: zk_chain_commitment
  trace_root :: provenance_root
  combined_commitment :: bytes
  tp_authority_signature :: string
  tp_authority_did :: string
  tp_zk_proof_hex :: string

definition trace_combined_commitment :: "ext \<Rightarrow> bytes \<Rightarrow> bytes \<Rightarrow> bytes" where
  "trace_combined_commitment E c r =
     h_finalize E (h_updates (new_derive_key ''a1::dyolo::zk::trace::v2.8.0'') [c, r])"

definition zk_trace_seal :: "ext \<Rightarrow> zk_chain_commitment \<Rightarrow> provenance_root \<Rightarrow> signer \<Rightarrow> zk_trace_proof" where
  "zk_trace_seal E z r authority =
     (let combined = trace_combined_commitment E (zk_commitment z) (merkle_root r) in
      \<lparr>chain_commitment = z, trace_root = r, combined_commitment = combined,
       tp_authority_signature = hex_enc E (sign_message authority combined),
       tp_authority_did = did_of_pk E (verifying_key authority), tp_zk_proof_hex = []\<rparr>)"

definition zk_trace_verify :: "ext \<Rightarrow> zk_trace_proof \<Rightarrow> a1_error + unit" where
  "zk_trace_verify E t =
     bindR (if trace_combined_commitment E (zk_commitment (chain_commitment t)) (merkle_root (trace_root t))
               = combined_commitment t then Inr () else Inl InvalidSubScopeProof) (\<lambda>_.
     bindR (authority_key E ''invalid DID hex'' ''invalid Ed25519 key'' (tp_authority_did t)) (\<lambda>vk.
     bindR (authority_sig E ''invalid signature hex'' (tp_authority_signature t)) (\<lambda>sig.
     if ed_verify E vk (combined_commitment t) sig then Inr () else Inl (HybridSignatureInvalid ''zk-trace''))))"

definition trace_with_zk_proof :: "ext \<Rightarrow> bytes \<Rightarrow> zk_trace_proof \<Rightarrow> zk_trace_proof" where
  "trace_with_zk_proof E p t = t\<lparr>tp_zk_proof_hex := hex_enc E p\<rparr>"

definition trace_has_zk_proof :: "zk_trace_proof \<Rightarrow> bool" where
  "trace_has_zk_proof t \<longleftrightarrow> tp_zk_proof_hex t \<noteq> []"

section \<open>Anchored receipts\<close>

datatype anchor_network =
    Ethereum | EthereumSepolia | Polygon | BaseNet | Arbitrum | Solana | CustomNet u64 string

fun network_chain_id :: "anchor_network \<Rightarrow> u64 option" where
  "network_chain_id Ethereum = Some 1"
| "network_chain_id EthereumSepolia = Some 11155111"
| "network_chain_id Polygon = Some 137"
| "network_chain_id BaseNet = Some 8453"
| "network_chain_id Arbitrum = Some 42161"
| "network_chain_id Solana = None"
| "network_chain_id (CustomNet n _) = Some n"

fun network_name :: "anchor_network \<Rightarrow> string" where
  "network_name Ethereum = ''ethereum''"
| "network_name EthereumSepolia = ''ethereum-sepolia''"
| "network_name Polygon = ''polygon''"
| "network_name BaseNet = ''base''"
| "network_name Arbitrum = ''arbitrum''"
| "network_name Solana = ''solana''"
| "network_name (CustomNet _ n) = n"

definition network_is_evm :: "anchor_network \<Rightarrow> bool" where
  "network_is_evm n \<longleftrightarrow> (case n of Solana \<Rightarrow> False | _ \<Rightarrow> True)"

text \<open>\<open>div_ceil(32) * 32\<close> and the 32-byte slot with a big-endian number at its end.\<close>

definition pad32 :: "nat \<Rightarrow> nat" where
  "pad32 n = (n + 31) div 32 * 32"

definition slot32 :: "u64 \<Rightarrow> bytes" where
  "slot32 v = replicate 24 0 @ be64 v"

definition build_evm_calldata :: "bytes \<Rightarrow> bytes \<Rightarrow> u64 \<Rightarrow> string \<Rightarrow> bytes" where
  "build_evm_calldata ah ih sealed did =
     (let did_bytes = str_bytes did; did_len = length did_bytes; did_padded_len = pad32 did_len in
      [0xd5, 0xe5, 0xb5, 0xb0] @ ah @ ih @ slot32 sealed @ slot32 128 @ slot32 (u64_of did_len)
      @ did_bytes @ replicate (did_padded_len - did_len) 0)"

definition build_solana_instruction_data :: "ext \<Rightarrow> bytes \<Rightarrow> bytes \<Rightarrow> u64 \<Rightarrow> bytes" where
  "build_solana_instruction_data E ah ih sealed =
     (let disc = h_finalize E (h_updates (new_derive_key ''a1::dyolo::anchor::solana::v2.8.0'') [str_bytes ''discriminator''])
      in take 8 disc @ ah @ ih @ le64 sealed)"

record anchored_receipt =
  ar_commitment :: zk_chain_commitment
  ar_anchor_hash :: bytes
  ar_passport_did :: string
  ar_network :: anchor_network
  evm_calldata :: "string option"
  solana_instruction_data :: "string option"
  tx_hash :: "string option"
  block_number :: "u64 option"
  ar_authority_signature :: string
  prepared_at_unix :: u64

definition anchor_prepare ::
  "ext \<Rightarrow> zk_chain_commitment \<Rightarrow> string \<Rightarrow> anchor_network \<Rightarrow> u64 \<Rightarrow> signer \<Rightarrow> anchored_receipt" where
  "anchor_prepare E z did network prepared authority =
     (let ah = anchor_hash E z;
          seal_bytes = h_finalize E (h_updates (new_derive_key DOMAIN_ANCHOR_SEAL) [ah, le64 prepared]) in
      \<lparr>ar_commitment = z, ar_anchor_hash = ah, ar_passport_did = did, ar_network = network,
       evm_calldata = (if network_is_evm network
         then Some (hex_enc E (build_evm_calldata ah (zk_intent z) (sealed_at_unix z) did)) else None),
       solana_instruction_data = (if \<not> network_is_evm network
         then Some (hex_enc E (build_solana_instruction_data E ah (zk_intent z) (sealed_at_unix z))) else None),
       tx_hash = None, block_number = None,
       ar_authority_signature = hex_enc E (sign_message authority seal_bytes), prepared_at_unix = prepared\<rparr>)"

definition with_confirmation :: "string \<Rightarrow> u64 \<Rightarrow> anchored_receipt \<Rightarrow> anchored_receipt" where
  "with_confirmation tx n r = r\<lparr>tx_hash := Some tx, block_number := Some n\<rparr>"

definition is_anchored :: "anchored_receipt \<Rightarrow> bool" where
  "is_anchored r \<longleftrightarrow> tx_hash r \<noteq> None \<and> block_number r \<noteq> None"

definition anchor_hash_hex :: "ext \<Rightarrow> anchored_receipt \<Rightarrow> string" where
  "anchor_hash_hex E r = ''0x'' @ hex_enc E (ar_anchor_hash r)"

definition verify_integrity :: "ext \<Rightarrow> anchored_receipt \<Rightarrow> bool" where
  "verify_integrity E r \<longleftrightarrow> anchor_hash E (ar_commitment r) = ar_anchor_hash r"

section \<open>What the proofs show\<close>

lemma authority_key_round:
  assumes "hex_ok E" "signer_wf E s"
  shows "authority_key E h k (did_of_pk E (verifying_key s)) = Inr (verifying_key s)"
proof -
  have "strip_prefix ''did:a1:'' (did_of_pk E (verifying_key s)) = Some (hex_enc E (verifying_key s))"
    unfolding did_of_pk_def by (rule strip_prefix_append)
  with assms show ?thesis by (simp add: authority_key_def hex_ok_def signer_wf_def fixed_bytes_def)
qed

lemma authority_sig_round:
  "hex_ok E \<Longrightarrow> signer_wf E s \<Longrightarrow> authority_sig E h (hex_enc E (sign_message s m)) = Inr (sign_message s m)"
  by (simp add: authority_sig_def hex_ok_def signer_wf_def fixed_bytes_def)

lemma length_fingerprint: "hash32 E \<Longrightarrow> length (fingerprint E c) = 32"
  by (simp add: fingerprint_def)

text \<open>A sealed commitment verifies under its narrowing until it is older than allowed.\<close>

lemma zk_seal_verifies:
  assumes "hex_ok E" "hash32 E" "signer_wf E s"
  shows "zk_verify_commitment E nc now max_age (zk_seal E c i nc sealed s ns) =
    (case max_age of
       Some m \<Rightarrow> if unat sealed + unat m < unat now then Inl (Expired 0 (sealed + m) now) else Inr ()
     | None \<Rightarrow> Inr ())"
proof -
  have a: "m < sat_sub now sealed \<longleftrightarrow> unat sealed + unat m < unat now" for m
    by (auto simp: word_less_nat_alt unat_sat_sub)
  have "hex_dec E (hex_enc E (fingerprint E c)) = Some (fingerprint E c)" using assms(1) by (simp add: hex_ok_def)
  then show ?thesis
    using assms(3) authority_key_round [OF assms(1,3)] authority_sig_round [OF assms(1,3)] length_fingerprint [OF assms(2)]
    by (auto simp: zk_verify_commitment_def zk_seal_def Let_def fixed_bytes_def a signer_wf_def signer_ok_def
        split: option.splits)
qed

text \<open>
  One commitment stands for one chain fingerprint, intent, narrowing and time, unless the hash
  collides on the two inputs.
\<close>

lemma compute_commitment_binds:
  assumes "length fp = 32" "length fp' = 32" "length i = 32" "length i' = 32" "length n = 32" "length n' = 32"
    and "hash_binds E (h_updates (new_derive_key DOMAIN_ZK_COMMIT) [fp, i, n, le64 t])
                      (h_updates (new_derive_key DOMAIN_ZK_COMMIT) [fp', i', n', le64 t'])"
    and "compute_commitment E fp i n t = compute_commitment E fp' i' n' t'"
  shows "fp = fp' \<and> i = i' \<and> n = n' \<and> t = t'"
proof -
  have "concat [fp, i, n, le64 t] = concat [fp', i', n', le64 t']"
    using assms(7,8) h_updates_inj unfolding hash_binds_def compute_commitment_def by blast
  then show ?thesis using assms(1-6) by (simp add: append_eq_append_conv)
qed

lemma zk_trace_seal_verifies:
  assumes "hex_ok E" "signer_wf E s"
  shows "zk_trace_verify E (zk_trace_seal E z r s) = Inr ()"
  using assms authority_key_round [OF assms] authority_sig_round [OF assms]
  by (simp add: zk_trace_verify_def zk_trace_seal_def Let_def signer_wf_def signer_ok_def)

text \<open>
  Of the trace root the combined proof fixes the Merkle root only: the step count, the times, the trace
  identifier and the binding to the chain can all be other, and neither the commitment's own signature
  nor the binding is looked at.
\<close>

lemma zk_trace_verify_root:
  "merkle_root r = merkle_root (trace_root t) \<Longrightarrow> zk_trace_verify E (t\<lparr>trace_root := r\<rparr>) = zk_trace_verify E t"
  by (simp add: zk_trace_verify_def)

lemma zk_trace_verify_commitment:
  "zk_commitment z = zk_commitment (chain_commitment t) \<Longrightarrow>
     zk_trace_verify E (t\<lparr>chain_commitment := z\<rparr>) = zk_trace_verify E t"
  by (simp add: zk_trace_verify_def)

text \<open>The calldata is a selector and whole slots, and its last words are the text with its length.\<close>

lemma pad32_bounds: "n \<le> pad32 n" "pad32 n < n + 32" "32 dvd pad32 n"
  by (simp_all add: pad32_def)

lemma evm_calldata_layout:
  assumes "length ah = 32" "length ih = 32"
  shows "length (build_evm_calldata ah ih t did) = 4 + 32 * 5 + pad32 (length did)"
    and "take 32 (drop 4 (build_evm_calldata ah ih t did)) = ah"
    and "take 32 (drop 36 (build_evm_calldata ah ih t did)) = ih"
    and "take (length did) (drop 164 (build_evm_calldata ah ih t did)) = str_bytes did"
  using assms pad32_bounds(1) [of "length did"]
  by (simp_all add: build_evm_calldata_def Let_def slot32_def)

lemma evm_calldata_inj:
  assumes "length ah = 32" "length ih = 32" "length ah' = 32" "length ih' = 32" "fits did" "fits did'"
    and eq: "build_evm_calldata ah ih t did = build_evm_calldata ah' ih' t' did'"
  shows "ah = ah' \<and> ih = ih' \<and> t = t' \<and> did = did'"
proof -
  from eq have r: "ah = ah'" "ih = ih'" "be64 t = be64 t'"
    "be64 (u64_of (length did)) = be64 (u64_of (length did'))"
    "str_bytes did @ replicate (pad32 (length did) - length did) 0
      = str_bytes did' @ replicate (pad32 (length did') - length did') 0"
    using assms(1-4) by (simp_all add: build_evm_calldata_def Let_def slot32_def append_eq_append_conv)
  from r(4) have l: "length did = length did'"
    using assms(5,6) u64_of_inj [of "length did" "length did'"] by (simp add: fits_def)
  with r(5) have "did = did'" by (simp add: append_eq_append_conv str_bytes_inj)
  with r show ?thesis by simp
qed

lemma prepare_integrity: "verify_integrity E (anchor_prepare E z did network t s)"
  by (simp add: verify_integrity_def anchor_prepare_def Let_def)

end
