(* ===== verification/A1_ZkGuest.thy ===== *)
theory A1_ZkGuest
  imports A1_Chain
begin

text \<open>
  \<open>src/zk_guest/src/main.rs\<close>: the program run inside the zero-knowledge virtual machine. It reads a
  chain, checks it with its own copies of the library's digests, and commits a journal of 136 bytes.
  A panic (a failed assertion) is \<open>Inl\<close> with its text. Reading the inputs one by one from the host
  is the virtual machine's, so the inputs read are the record \<open>guest_input\<close>; the loop that reads a
  certificate pushes one proof for every intent of its subset.
\<close>

definition GUEST_CERT_SIG :: string where "GUEST_CERT_SIG = ''dyolo::cert::sig::v1''"
definition GUEST_CERT_FP :: string where "GUEST_CERT_FP = ''dyolo::cert::fp::v1''"
definition GUEST_CHAIN_FP :: string where "GUEST_CHAIN_FP = ''dyolo::chain::fp::v1''"
definition GUEST_SUBSCOPE :: string where "GUEST_SUBSCOPE = ''dyolo::subscope::commit::v1''"
definition GUEST_MERKLE_NODE :: string where "GUEST_MERKLE_NODE = ''dyolo::merkle::node::v1''"
definition GUEST_VERSION :: u8 where "GUEST_VERSION = 1"

record guest_cert =
  g_delegator_pk :: bytes
  g_delegate_pk :: bytes
  g_scope_root :: bytes
  g_subset :: "bytes list"
  g_proofs :: "sibling_node list list"
  g_nonce :: bytes
  g_issued_at :: u64
  g_expiration :: u64
  g_max_depth :: u8
  g_ext_hash :: bytes
  g_signature :: bytes

record guest_input =
  gi_principal_pk :: bytes
  gi_principal_scope :: bytes
  gi_certs :: "guest_cert list"
  gi_executor_pk :: bytes
  gi_intent :: bytes
  gi_fingerprint :: bytes
  gi_verified_at :: u64

section \<open>The digests\<close>

definition guest_derive_key :: "string \<Rightarrow> u8 \<Rightarrow> hasher" where
  "guest_derive_key domain v = h_update (new_derive_key domain) [v]"

definition guest_signable_chunks :: "bytes \<Rightarrow> guest_cert \<Rightarrow> bytes list" where
  "guest_signable_chunks sc c =
     [g_delegator_pk c, g_delegate_pk c, g_scope_root c, sc, g_nonce c, be64 (g_issued_at c),
      be64 (g_expiration c), [g_max_depth c], g_ext_hash c]"

definition guest_signable_bytes :: "ext \<Rightarrow> u8 \<Rightarrow> bytes \<Rightarrow> guest_cert \<Rightarrow> bytes" where
  "guest_signable_bytes E v sc c =
     h_finalize E (h_updates (guest_derive_key GUEST_CERT_SIG v) (guest_signable_chunks sc c))"

definition guest_cert_fingerprint :: "ext \<Rightarrow> bytes \<Rightarrow> bytes" where
  "guest_cert_fingerprint E sig = h_finalize E (h_update (guest_derive_key GUEST_CERT_FP GUEST_VERSION) sig)"

definition guest_chain_hasher :: "bytes \<Rightarrow> bytes \<Rightarrow> bytes list \<Rightarrow> hasher" where
  "guest_chain_hasher pk scope fps =
     h_updates (h_updates (guest_derive_key GUEST_CHAIN_FP GUEST_VERSION) [pk, scope]) fps"

definition guest_chain_fingerprint :: "ext \<Rightarrow> bytes \<Rightarrow> bytes \<Rightarrow> bytes list \<Rightarrow> bytes" where
  "guest_chain_fingerprint E pk scope fps = h_finalize E (guest_chain_hasher pk scope fps)"

definition guest_merkle_node :: "ext \<Rightarrow> bytes \<Rightarrow> bytes \<Rightarrow> bytes" where
  "guest_merkle_node E l r =
     h_finalize E (h_updates (guest_derive_key GUEST_MERKLE_NODE GUEST_VERSION) [l, r])"

definition guest_subscope_commitment :: "ext \<Rightarrow> bytes list \<Rightarrow> sibling_node list list \<Rightarrow> bytes" where
  "guest_subscope_commitment E xs ps =
     h_finalize E (h_updates (guest_derive_key GUEST_SUBSCOPE GUEST_VERSION)
       ([le64 (u64_of (length xs))] @ xs @ [le64 (u64_of (length ps))]
        @ concat (map (\<lambda>p. [le64 (u64_of (length p))] @ concat (map node_chunks p)) ps)))"

section \<open>The loop over the certificates\<close>

definition guest_climb :: "ext \<Rightarrow> sibling_node \<Rightarrow> bytes \<Rightarrow> bytes" where
  "guest_climb E n current =
     (if is_left n then guest_merkle_node E (sib_hash n) current
      else guest_merkle_node E current (sib_hash n))"

fun guest_next_layer :: "ext \<Rightarrow> bytes list \<Rightarrow> bytes list" where
  "guest_next_layer E (a # b # rest) = guest_merkle_node E a b # guest_next_layer E rest"
| "guest_next_layer E rest = rest"

lemma length_guest_next_layer: "length (guest_next_layer E xs) = (length xs + 1) div 2"
  by (induction E xs rule: guest_next_layer.induct) auto

text \<open>\<open>while layer.len() > 1\<close>, then \<open>layer[0]\<close>; the layer is never empty where the code calls it.\<close>

function guest_root_of :: "ext \<Rightarrow> bytes list \<Rightarrow> bytes" where
  "guest_root_of E layer =
     (if length layer > 1 then guest_root_of E (guest_next_layer E layer) else hd layer)"
  by pat_completeness auto
termination
  by (relation "measure (\<lambda>(E, layer). length layer)") (auto simp: length_guest_next_layer)

declare guest_root_of.simps [simp del]

definition guest_derived_root :: "ext \<Rightarrow> bytes list \<Rightarrow> bytes" where
  "guest_derived_root E xs = guest_root_of E (remdups_adj (sort xs))"

definition guest_scope_step :: "ext \<Rightarrow> nat \<Rightarrow> bytes \<Rightarrow> guest_cert \<Rightarrow> string + unit" where
  "guest_scope_step E i scope c =
     (if g_subset c = []
      then if g_scope_root c = scope then Inr () else Inl (''dyolo::zk: scope escalation at hop '' @ dec i)
      else bindR (each (\<lambda>(x, nodes). if fold (guest_climb E) nodes x = scope then Inr ()
                                     else Inl (''dyolo::zk: invalid subscope proof at hop '' @ dec i))
                   (zip (g_subset c) (g_proofs c))) (\<lambda>_.
           if guest_derived_root E (g_subset c) = g_scope_root c then Inr ()
           else Inl (''dyolo::zk: derived scope root mismatch at hop '' @ dec i)))"

record guest_walk =
  gw_scope :: bytes
  gw_delegator :: bytes
  gw_expiry :: u64
  gw_depth :: u8
  gw_fps :: "bytes list"

text \<open>\<open>(i + 1) as u8\<close> keeps the low eight bits.\<close>

definition guest_hop :: "ext \<Rightarrow> u64 \<Rightarrow> nat \<Rightarrow> guest_cert \<Rightarrow> guest_walk \<Rightarrow> string + guest_walk" where
  "guest_hop E t i c w =
     (if g_delegator_pk c \<noteq> gw_delegator w then Inl (''dyolo::zk: broken linkage at hop '' @ dec i)
      else if \<not> g_expiration c \<le> gw_expiry w then Inl (''dyolo::zk: temporal violation at hop '' @ dec i)
      else if \<not> g_issued_at c \<le> t then Inl (''dyolo::zk: cert not yet valid at hop '' @ dec i)
      else if \<not> t \<le> g_expiration c then Inl (''dyolo::zk: cert expired at hop '' @ dec i)
      else if \<not> (word_of_nat (i + 1) :: u8) \<le> gw_depth w then Inl (''dyolo::zk: max depth exceeded at hop '' @ dec i)
      else
        let w = (if g_max_depth c < gw_depth w then w\<lparr>gw_depth := g_max_depth c\<rparr> else w) in
      bindR (guest_scope_step E i (gw_scope w) c) (\<lambda>_.
        let sc = guest_subscope_commitment E (g_subset c) (g_proofs c) in
        if \<not> ed_valid_pk E (g_delegator_pk c) then Inl ''dyolo::zk: invalid delegator key''
        else if \<not> ed_verify E (g_delegator_pk c) (guest_signable_bytes E GUEST_VERSION sc c) (g_signature c)
        then Inl (''dyolo::zk: invalid signature at hop '' @ dec i)
        else Inr (w\<lparr>gw_fps := gw_fps w @ [guest_cert_fingerprint E (g_signature c)],
                   gw_expiry := g_expiration c, gw_delegator := g_delegate_pk c,
                   gw_scope := g_scope_root c\<rparr>)))"

fun guest_walk_chain :: "ext \<Rightarrow> u64 \<Rightarrow> nat \<Rightarrow> guest_cert list \<Rightarrow> guest_walk \<Rightarrow> string + guest_walk" where
  "guest_walk_chain E t i [] w = Inr w"
| "guest_walk_chain E t i (c # cs) w = bindR (guest_hop E t i c w) (guest_walk_chain E t (i + 1) cs)"

definition guest_start :: "guest_input \<Rightarrow> guest_walk" where
  "guest_start g = \<lparr>gw_scope = gi_principal_scope g, gw_delegator = gi_principal_pk g, gw_expiry = - 1,
     gw_depth = 255, gw_fps = []\<rparr>"

definition guest_journal :: "guest_input \<Rightarrow> bytes" where
  "guest_journal g = gi_principal_pk g @ gi_executor_pk g @ gi_intent g @ gi_fingerprint g @ be64 (gi_verified_at g)"

definition guest_main :: "ext \<Rightarrow> guest_input \<Rightarrow> string + bytes" where
  "guest_main E g =
     bindR (guest_walk_chain E (gi_verified_at g) 0 (gi_certs g) (guest_start g)) (\<lambda>w.
       if gw_delegator w \<noteq> gi_executor_pk g then Inl ''dyolo::zk: unauthorized leaf''
       else if guest_chain_fingerprint E (gi_principal_pk g) (gi_principal_scope g) (gw_fps w) \<noteq> gi_fingerprint g
       then Inl ''dyolo::zk: chain fingerprint mismatch''
       else Inr (guest_journal g))"

section \<open>What an accepting run has checked\<close>

text \<open>What the loop holds when it comes to a hop, read off the certificates before it.\<close>

definition guest_at :: "ext \<Rightarrow> guest_input \<Rightarrow> nat \<Rightarrow> guest_walk" where
  "guest_at E g i =
     (let before = take i (gi_certs g) in
      \<lparr>gw_scope = last (gi_principal_scope g # map g_scope_root before),
       gw_delegator = last (gi_principal_pk g # map g_delegate_pk before),
       gw_expiry = last (- 1 # map g_expiration before),
       gw_depth = fold (\<lambda>c d. min (g_max_depth c) d) before 255,
       gw_fps = map (\<lambda>c. guest_cert_fingerprint E (g_signature c)) before\<rparr>)"

definition guest_scope_ok :: "ext \<Rightarrow> bytes \<Rightarrow> guest_cert \<Rightarrow> bool" where
  "guest_scope_ok E scope c \<longleftrightarrow>
     (if g_subset c = [] then g_scope_root c = scope
      else (\<forall>(x, nodes)\<in>set (zip (g_subset c) (g_proofs c)). fold (guest_climb E) nodes x = scope)
        \<and> guest_derived_root E (g_subset c) = g_scope_root c)"

definition guest_signed :: "ext \<Rightarrow> guest_cert \<Rightarrow> bool" where
  "guest_signed E c \<longleftrightarrow> ed_valid_pk E (g_delegator_pk c) \<and>
     ed_verify E (g_delegator_pk c)
       (guest_signable_bytes E GUEST_VERSION (guest_subscope_commitment E (g_subset c) (g_proofs c)) c) (g_signature c)"

definition guest_hop_ok :: "ext \<Rightarrow> u64 \<Rightarrow> nat \<Rightarrow> guest_cert \<Rightarrow> guest_walk \<Rightarrow> bool" where
  "guest_hop_ok E t i c w \<longleftrightarrow> g_delegator_pk c = gw_delegator w \<and> g_expiration c \<le> gw_expiry w
     \<and> g_issued_at c \<le> t \<and> t \<le> g_expiration c \<and> (word_of_nat (i + 1) :: u8) \<le> gw_depth w
     \<and> guest_scope_ok E (gw_scope w) c \<and> guest_signed E c"

definition guest_accepts :: "ext \<Rightarrow> guest_input \<Rightarrow> bool" where
  "guest_accepts E g \<longleftrightarrow>
     (\<forall>i<length (gi_certs g). guest_hop_ok E (gi_verified_at g) i (gi_certs g ! i) (guest_at E g i))
     \<and> gi_executor_pk g = last (gi_principal_pk g # map g_delegate_pk (gi_certs g))
     \<and> gi_fingerprint g = guest_chain_fingerprint E (gi_principal_pk g) (gi_principal_scope g)
         (map (\<lambda>c. guest_cert_fingerprint E (g_signature c)) (gi_certs g))"

lemma guest_scope_step_Inr: "guest_scope_step E i scope c = Inr () \<longleftrightarrow> guest_scope_ok E scope c"
  by (auto simp: guest_scope_step_def guest_scope_ok_def bindR_Inr_iff each_Inr_iff split: if_splits)

definition guest_next :: "ext \<Rightarrow> guest_cert \<Rightarrow> guest_walk \<Rightarrow> guest_walk" where
  "guest_next E c w = \<lparr>gw_scope = g_scope_root c, gw_delegator = g_delegate_pk c, gw_expiry = g_expiration c,
     gw_depth = min (g_max_depth c) (gw_depth w), gw_fps = gw_fps w @ [guest_cert_fingerprint E (g_signature c)]\<rparr>"

lemma guest_hop_Inr:
  "guest_hop E t i c w = Inr w' \<longleftrightarrow> guest_hop_ok E t i c w \<and> w' = guest_next E c w"
proof -
  let ?w = "if g_max_depth c < gw_depth w then w\<lparr>gw_depth := g_max_depth c\<rparr> else w"
  have n: "?w\<lparr>gw_fps := gw_fps ?w @ [guest_cert_fingerprint E (g_signature c)],
      gw_expiry := g_expiration c, gw_delegator := g_delegate_pk c, gw_scope := g_scope_root c\<rparr> = guest_next E c w"
    by (cases w) (auto simp: guest_next_def min_def)
  have s: "gw_scope ?w = gw_scope w" by simp
  show ?thesis
    unfolding guest_hop_def Let_def n s guest_hop_ok_def guest_signed_def
    using guest_scope_step_Inr [of E i "gw_scope w" c]
    by (auto simp: bindR_Inr_iff split: if_splits)
qed

lemma guest_at_Suc:
  "i < length (gi_certs g) \<Longrightarrow> guest_at E g (Suc i) = guest_next E (gi_certs g ! i) (guest_at E g i)"
  by (simp add: guest_at_def guest_next_def Let_def take_Suc_conv_app_nth)

lemma all_from_Suc:
  "i < n \<Longrightarrow> (\<forall>k. i \<le> k \<longrightarrow> k < n \<longrightarrow> P k) \<longleftrightarrow> P i \<and> (\<forall>k. Suc i \<le> k \<longrightarrow> k < n \<longrightarrow> P k)"
  by (metis Suc_le_eq order_le_less less_imp_le)

lemma guest_walk_chain_Inr:
  "i \<le> length (gi_certs g) \<Longrightarrow>
     guest_walk_chain E t i (drop i (gi_certs g)) (guest_at E g i) = Inr w \<longleftrightarrow>
       (\<forall>k. i \<le> k \<longrightarrow> k < length (gi_certs g) \<longrightarrow> guest_hop_ok E t k (gi_certs g ! k) (guest_at E g k))
       \<and> w = guest_at E g (length (gi_certs g))"
proof (induction "length (gi_certs g) - i" arbitrary: i)
  case 0
  then show ?case by auto
next
  case (Suc n)
  then have i: "i < length (gi_certs g)" by simp
  then have d: "drop i (gi_certs g) = gi_certs g ! i # drop (Suc i) (gi_certs g)" by (rule Cons_nth_drop_Suc [symmetric])
  have ih: "guest_walk_chain E t (Suc i) (drop (Suc i) (gi_certs g)) (guest_at E g (Suc i)) = Inr w \<longleftrightarrow>
      (\<forall>k. Suc i \<le> k \<longrightarrow> k < length (gi_certs g) \<longrightarrow> guest_hop_ok E t k (gi_certs g ! k) (guest_at E g k))
      \<and> w = guest_at E g (length (gi_certs g))"
    using Suc i by (intro Suc.hyps(1)) auto
  have "guest_walk_chain E t i (drop i (gi_certs g)) (guest_at E g i) = Inr w \<longleftrightarrow>
      guest_hop_ok E t i (gi_certs g ! i) (guest_at E g i) \<and>
      guest_walk_chain E t (Suc i) (drop (Suc i) (gi_certs g)) (guest_at E g (Suc i)) = Inr w"
    unfolding d by (simp add: bindR_Inr_iff guest_hop_Inr guest_at_Suc [OF i])
  then show ?case unfolding ih all_from_Suc [OF i] by blast
qed

lemma guest_main_Inr: "guest_main E g = Inr j \<longleftrightarrow> guest_accepts E g \<and> j = guest_journal g"
proof -
  have s: "guest_start g = guest_at E g 0" by (simp add: guest_start_def guest_at_def Let_def)
  have e: "gw_delegator (guest_at E g (length (gi_certs g))) = last (gi_principal_pk g # map g_delegate_pk (gi_certs g))"
    "gw_fps (guest_at E g (length (gi_certs g))) = map (\<lambda>c. guest_cert_fingerprint E (g_signature c)) (gi_certs g)"
    by (simp_all add: guest_at_def Let_def)
  have "guest_walk_chain E (gi_verified_at g) 0 (gi_certs g) (guest_start g) = Inr w \<longleftrightarrow>
      (\<forall>i<length (gi_certs g). guest_hop_ok E (gi_verified_at g) i (gi_certs g ! i) (guest_at E g i))
      \<and> w = guest_at E g (length (gi_certs g))" for w
    using guest_walk_chain_Inr [of 0 g E "gi_verified_at g" w] by (simp add: s)
  then show ?thesis
    unfolding guest_main_def guest_accepts_def bindR_Inr_iff using e by (auto split: if_splits)
qed

text \<open>The intent is written to the journal and read nowhere else.\<close>

lemma guest_accepts_intent: "guest_accepts E (g\<lparr>gi_intent := x\<rparr>) = guest_accepts E g"
  by (simp add: guest_accepts_def guest_at_def Let_def)

text \<open>
  The digests of the guest are taken under other contexts and without the labels of the library, so
  a chain's own fingerprint is one the guest refuses unless two hash inputs under different contexts
  collide.
\<close>

lemma guest_domains_differ:
  "GUEST_CERT_SIG \<noteq> DOMAIN_CERT_SIG" "GUEST_CERT_FP \<noteq> DOMAIN_CERT_FP" "GUEST_CHAIN_FP \<noteq> DOMAIN_CHAIN_FP"
  "GUEST_SUBSCOPE \<noteq> DOMAIN_SUBSCOPE" "GUEST_MERKLE_NODE \<noteq> DOMAIN_MERKLE_NODE"
  by (simp_all add: GUEST_CERT_SIG_def DOMAIN_CERT_SIG_def GUEST_CERT_FP_def DOMAIN_CERT_FP_def
      GUEST_CHAIN_FP_def DOMAIN_CHAIN_FP_def GUEST_SUBSCOPE_def DOMAIN_SUBSCOPE_def
      GUEST_MERKLE_NODE_def DOMAIN_MERKLE_NODE_def)

lemma guest_chain_hasher_context: "fst (guest_chain_hasher pk scope fps) = GUEST_CHAIN_FP"
  by (simp add: guest_chain_hasher_def h_updates_eq guest_derive_key_def new_derive_key_def h_update_def)

lemma guest_hashers_differ: "guest_chain_hasher pk scope fps \<noteq> chain_hasher E c"
  using guest_chain_hasher_context [of pk scope fps] guest_domains_differ(3)
  by (auto simp: chain_hasher_eq)

text \<open>So is every digest of the guest, whatever is hashed on either side.\<close>

lemma guest_contexts_differ:
  "h_updates (guest_derive_key GUEST_CERT_SIG v) xs \<noteq> h_updates (hasher_cert_sig v') ys"
  "h_updates (guest_derive_key GUEST_CERT_FP v) xs \<noteq> h_updates (hasher_cert_fp v') ys"
  "h_updates (guest_derive_key GUEST_SUBSCOPE v) xs \<noteq> h_updates (hasher_subscope v') ys"
  "h_updates (guest_derive_key GUEST_MERKLE_NODE v) xs \<noteq> h_updates (hasher_merkle_node v') ys"
  using guest_domains_differ
  by (simp_all add: h_updates_eq guest_derive_key_def hasher_defs new_derive_key_def h_update_def)

text \<open>The hash input of the fingerprint that the guest demands.\<close>

definition guest_final_hasher :: "ext \<Rightarrow> guest_input \<Rightarrow> hasher" where
  "guest_final_hasher E g = guest_chain_hasher (gi_principal_pk g) (gi_principal_scope g)
     (map (\<lambda>c. guest_cert_fingerprint E (g_signature c)) (gi_certs g))"

lemma guest_library_fingerprint:
  assumes "guest_accepts E g" "gi_fingerprint g = fingerprint E c"
  shows "guest_final_hasher E g \<noteq> chain_hasher E c \<and> h_finalize E (guest_final_hasher E g) = h_finalize E (chain_hasher E c)"
  using assms guest_hashers_differ
  by (simp add: guest_accepts_def guest_final_hasher_def guest_chain_fingerprint_def fingerprint_def)

end
