(* ===== verification/A1_GwJwt.thy ===== *)
theory A1_GwJwt
  imports A1_GwIssue
begin

text \<open>
  \<open>a1-gateway/src/routes/jwt_bridge.rs\<close>: a JSON web token verified against the issuer's key set is
  exchanged for a certificate. Base64, JSON reading, HTTP and RSA are third-party: the record
  \<open>jwt_ext\<close>. Instants are nanoseconds. \<open>None\<close> is a panic (the extension map over its limit).
\<close>

record jwt_ext =
  b64_decode :: "string \<Rightarrow> string + bytes" \<comment> \<open>\<open>URL_SAFE_NO_PAD.decode\<close>, or its error text\<close>
  json_of_bytes :: "bytes \<Rightarrow> string + json" \<comment> \<open>\<open>serde_json::from_slice\<close>\<close>
  http_get :: "string \<Rightarrow> string + (string + json)" \<comment> \<open>\<open>reqwest::get\<close>, then its \<open>json()\<close>\<close>
  rsa_verify :: "bytes \<Rightarrow> bytes \<Rightarrow> bytes \<Rightarrow> bytes \<Rightarrow> bool" \<comment> \<open>modulus, exponent, message, signature\<close>

section \<open>Key sets\<close>

record jwks_key =
  jk_kid :: "string option"
  jk_n :: bytes
  jk_e :: bytes

record jwks_cache_entry =
  jc_keys :: "jwks_key list"
  jc_fetched :: nat

fun parse_keys :: "jwt_ext \<Rightarrow> json list \<Rightarrow> string + jwks_key list" where
  "parse_keys J [] = Inr []"
| "parse_keys J (key # ks) =
     (if j_str ''kty'' key \<noteq> ''RSA'' then parse_keys J ks
      else bindR (map_errR (\<lambda>e. ''JWKS n decode: '' @ e) (b64_decode J (j_str ''n'' key))) (\<lambda>n.
           bindR (map_errR (\<lambda>e. ''JWKS e decode: '' @ e) (b64_decode J (j_str ''e'' key))) (\<lambda>e.
           bindR (parse_keys J ks) (\<lambda>rest.
           Inr (\<lparr>jk_kid = Option.bind (j_get ''kid'' key) as_str, jk_n = n, jk_e = e\<rparr> # rest)))))"

definition refresh_jwks ::
  "jwt_ext \<Rightarrow> nat \<Rightarrow> string \<Rightarrow> (string, jwks_cache_entry) btree
     \<Rightarrow> (string + jwks_key list) \<times> (string, jwks_cache_entry) btree" where
  "refresh_jwks J t1 url cache =
     (case bindR (map_errR (\<lambda>e. ''JWKS fetch failed: '' @ e) (http_get J url)) (\<lambda>r.
        bindR (map_errR (\<lambda>e. ''JWKS parse failed: '' @ e) r) (\<lambda>body.
        bindR (ok_or ''JWKS missing 'keys' array'' (Option.bind (j_get ''keys'' body) as_array)) (parse_keys J))) of
        Inl e \<Rightarrow> (Inl e, cache)
      | Inr ks \<Rightarrow> (Inr ks, bt_insert url \<lparr>jc_keys = ks, jc_fetched = t1\<rparr> cache))"

definition fetch_jwks ::
  "jwt_ext \<Rightarrow> nat \<Rightarrow> nat \<Rightarrow> string \<Rightarrow> (string, jwks_cache_entry) btree
     \<Rightarrow> (string + jwks_key list) \<times> (string, jwks_cache_entry) btree" where
  "fetch_jwks J t0 t1 url cache =
     (case map_of cache url of
        Some entry \<Rightarrow>
          if t0 - jc_fetched entry < 300 * 10 ^ 9 then (Inr (jc_keys entry), cache)
          else refresh_jwks J t1 url cache
      | None \<Rightarrow> refresh_jwks J t1 url cache)"

section \<open>Tokens\<close>

definition decode_jwt_claims :: "jwt_ext \<Rightarrow> string \<Rightarrow> string + json \<times> string" where
  "decode_jwt_claims J token =
     (let parts = splitn3 CHR ''.'' token in
      if length parts \<noteq> 3 then Inl ''malformed JWT: expected 3 parts''
      else bindR (map_errR (\<lambda>e. ''JWT payload decode: '' @ e) (b64_decode J (parts ! 1))) (\<lambda>payload.
           bindR (map_errR (\<lambda>e. ''JWT payload JSON: '' @ e) (json_of_bytes J payload)) (\<lambda>claims.
           Inr (claims, parts ! 2))))"

definition key_matches :: "string option \<Rightarrow> jwks_key \<Rightarrow> bool" where
  "key_matches kid k = (case (kid, jk_kid k) of (Some req, Some have_kid) \<Rightarrow> req = have_kid | _ \<Rightarrow> True)"

definition verify_jwt_rsa :: "jwt_ext \<Rightarrow> string \<Rightarrow> jwks_key list \<Rightarrow> string + json" where
  "verify_jwt_rsa J token keys =
     (let parts = splitn3 CHR ''.'' token in
      if length parts \<noteq> 3 then Inl ''malformed JWT''
      else bindR (map_errR (\<lambda>e. ''JWT header decode: '' @ e) (b64_decode J (parts ! 0))) (\<lambda>header_bytes.
           bindR (map_errR (\<lambda>e. ''JWT header JSON: '' @ e) (json_of_bytes J header_bytes)) (\<lambda>header.
           bindR (ok_or ''no matching JWKS key'' (find (key_matches (Option.bind (j_get ''kid'' header) as_str)) keys)) (\<lambda>key.
           bindR (map_errR (\<lambda>e. ''JWT sig decode: '' @ e) (b64_decode J (parts ! 2))) (\<lambda>sig.
           if \<not> rsa_verify J (jk_n key) (jk_e key) (str_bytes (parts ! 0 @ ''.'' @ parts ! 1)) sig
           then Inl ''JWT RSA signature verification failed''
           else bindR (decode_jwt_claims J token) (\<lambda>(claims, _). Inr claims))))))"

section \<open>The exchange\<close>

record jwt_exchange_request =
  jx_token :: string
  jx_delegate_pk_hex :: string
  jx_capabilities :: "string list"
  jx_ttl_seconds :: u64
  jx_request_id :: "string option"

record jwt_exchange_response =
  jr_fingerprint_hex :: string
  jr_scope_root_hex :: string
  jr_expires_at_unix :: u64
  jr_subject :: string
  jr_issuer :: string
  jr_capabilities :: "string list"

type_synonym gw_error = "nat \<times> string \<times> string"

definition allowed_jwt_caps :: "environment \<Rightarrow> string list" where
  "allowed_jwt_caps env = csv_nonempty (case env ''A1_JWT_ALLOWED_CAPS'' of Some s \<Rightarrow> s | None \<Rightarrow> [])"

definition check_jwt_caps :: "environment \<Rightarrow> string list \<Rightarrow> gw_error + unit" where
  "check_jwt_caps env caps =
     (if allowed_jwt_caps env \<noteq> []
      then each (\<lambda>cap. if cap \<notin> set (allowed_jwt_caps env)
                      then Inl (403, ''E4003'', ''capability '' @ quoted cap @ '' is not in A1_JWT_ALLOWED_CAPS'')
                      else Inr ()) caps
      else Inr ())"

text \<open>The claims the exchange reads: subject, issuer and expiry, the largest \<open>u64\<close> when absent.\<close>

definition claims_exp :: "json \<Rightarrow> u64" where
  "claims_exp claims = (case Option.bind (j_get ''exp'' claims) as_u64 of Some n \<Rightarrow> n | None \<Rightarrow> - 1)"

definition delegate_key :: "ext \<Rightarrow> string \<Rightarrow> gw_error + bytes" where
  "delegate_key E h =
     bindR (ok_or (400, ''E4031'', ''invalid delegate_pk_hex'') (hex_dec E h)) (\<lambda>b.
     if length b \<noteq> 32 then Inl (400, ''E4031'', ''delegate_pk_hex must be 32 bytes'')
     else if ed_valid_pk E b then Inr b else Inl (400, ''E4031'', ''invalid Ed25519 delegate_pk_hex''))"

definition jwt_extensions :: "ext \<Rightarrow> string \<Rightarrow> string \<Rightarrow> string list \<Rightarrow> cert_extensions option" where
  "jwt_extensions E subject issuer caps =
     Option.bind (ext_set ''dyolo.jwt.v'' (ExtU64 1) extensions_new) (\<lambda>x.
     Option.bind (ext_set ''dyolo.jwt.subject'' (ExtStr subject) x) (\<lambda>x.
     Option.bind (ext_set ''dyolo.jwt.issuer'' (ExtStr issuer) x) (\<lambda>x.
     Option.bind (ext_set ''dyolo.jwt.mask'' (ExtStr (mask_to_hex E (from_capabilities E caps))) x) (\<lambda>x.
     Option.bind (ext_set ''dyolo.jwt.caps'' (ExtStrings caps) x) (\<lambda>x.
     ext_set ''dyolo.prov'' (ExtStr ''64796f6c6f'') x)))))"

text \<open>What follows the verification of the token: the certificate and the response, with the certificate kept to state properties.\<close>

definition exchange_claims ::
  "ext \<Rightarrow> bytes \<Rightarrow> app_state \<Rightarrow> u64 \<Rightarrow> jwt_exchange_request \<Rightarrow> json
     \<Rightarrow> (gw_error + delegation_cert \<times> jwt_exchange_response) option" where
  "exchange_claims E fresh st now req claims =
     (let subject = j_str ''sub'' claims; issuer = j_str ''iss'' claims; jwt_exp = claims_exp claims in
      if subject = [] then Some (Inl (400, ''E4022'', ''JWT missing 'sub' claim''))
      else if jwt_exp \<le> now then Some (Inl (401, ''E4010'', ''JWT has expired''))
      else
        let ttl = min (jx_ttl_seconds req) (sat_sub jwt_exp now) in
        case bindR (delegate_key E (jx_delegate_pk_hex req)) (\<lambda>pk.
             bindR (map_errR (\<lambda>e. (400, ''E4032'', display_error e)) (cap_hashes E (jx_capabilities req))) (\<lambda>hs.
             bindR (map_errR (\<lambda>e. (400, ''E4032'', display_error e)) (tree_build E hs)) (\<lambda>t. Inr (pk, tree_root t)))) of
          Inl e \<Rightarrow> Some (Inl e)
        | Inr (pk, root) \<Rightarrow>
            (let expiry = sat_add now ttl in
             Option.bind (jwt_extensions E subject issuer (jx_capabilities req)) (\<lambda>x.
             Some (bindR (map_errR (\<lambda>e. (500, ''E5001'', display_error e))
                 (builder_build E (signing_identity st) (builder_extensions x (builder_max_depth 1
                    (builder_new fresh pk root now expiry))))) (\<lambda>cert.
               Inr (cert, \<lparr>jr_fingerprint_hex = hex_enc E (cert_fingerprint E cert), jr_scope_root_hex = hex_enc E root,
                  jr_expires_at_unix = expiry, jr_subject = subject, jr_issuer = issuer,
                  jr_capabilities = jx_capabilities req\<rparr>))))))"

definition exchange_inner ::
  "ext \<Rightarrow> jwt_ext \<Rightarrow> environment \<Rightarrow> bytes \<Rightarrow> app_state \<Rightarrow> nat \<Rightarrow> nat \<Rightarrow> u64 \<Rightarrow> jwt_exchange_request
     \<Rightarrow> (string, jwks_cache_entry) btree
     \<Rightarrow> (gw_error + delegation_cert \<times> jwt_exchange_response) option \<times> (string, jwks_cache_entry) btree" where
  "exchange_inner E J env fresh st t0 t1 now req cache =
     (case env ''A1_JWT_JWKS_URL'' of
        None \<Rightarrow> (Some (Inl (501, ''E5011'', ''JWT exchange not configured: set A1_JWT_JWKS_URL'')), cache)
      | Some url \<Rightarrow>
          (case check_jwt_caps env (jx_capabilities req) of
             Inl e \<Rightarrow> (Some (Inl e), cache)
           | Inr _ \<Rightarrow>
               (case fetch_jwks J t0 t1 url cache of
                  (Inl e, cache') \<Rightarrow> (Some (Inl (502, ''E5021'', ''JWKS unavailable: '' @ e)), cache')
                | (Inr keys, cache') \<Rightarrow>
                    (case verify_jwt_rsa J (jx_token req) keys of
                       Inl e \<Rightarrow> (Some (Inl (401, ''E4001'', ''JWT verification failed: '' @ e)), cache')
                     | Inr claims \<Rightarrow> (exchange_claims E fresh st now req claims, cache')))))"

text \<open>The handler answers with the response alone: the certificate is dropped.\<close>

definition exchange_handler ::
  "ext \<Rightarrow> jwt_ext \<Rightarrow> environment \<Rightarrow> bytes \<Rightarrow> app_state \<Rightarrow> nat \<Rightarrow> nat \<Rightarrow> u64 \<Rightarrow> jwt_exchange_request
     \<Rightarrow> (string, jwks_cache_entry) btree
     \<Rightarrow> (error_body + jwt_exchange_response) response option \<times> (string, jwks_cache_entry) btree" where
  "exchange_handler E J env fresh st t0 t1 now req cache =
     (case exchange_inner E J env fresh st t0 t1 now req cache of
        (r, cache') \<Rightarrow> (map_option (\<lambda>x. case x of
            Inr (_, resp) \<Rightarrow> (200, Inr resp)
          | Inl (status, code, msg) \<Rightarrow> (status, Inl \<lparr>eb_error = msg, eb_code = code\<rparr>)) r, cache'))"

section \<open>What a granted exchange has checked\<close>

lemma check_jwt_caps_Inr:
  "check_jwt_caps env caps = Inr () \<longleftrightarrow> allowed_jwt_caps env = [] \<or> set caps \<subseteq> set (allowed_jwt_caps env)"
  by (auto simp: check_jwt_caps_def each_Inr_iff)

lemma verify_jwt_rsa_Inr:
  assumes "verify_jwt_rsa J token keys = Inr claims"
  shows "\<exists>h p s sg key payload. splitn3 CHR ''.'' token = [h, p, s] \<and> key \<in> set keys
    \<and> b64_decode J s = Inr sg \<and> rsa_verify J (jk_n key) (jk_e key) (str_bytes (h @ ''.'' @ p)) sg
    \<and> b64_decode J p = Inr payload \<and> json_of_bytes J payload = Inr claims"
proof -
  from assms have l: "length (splitn3 CHR ''.'' token) = 3" by (auto simp: verify_jwt_rsa_def Let_def split: if_splits)
  then obtain h p s where hps: "splitn3 CHR ''.'' token = [h, p, s]"
    by (auto simp: numeral_3_eq_3 length_Suc_conv)
  with assms show ?thesis
    by (auto simp: verify_jwt_rsa_def decode_jwt_claims_def Let_def result_simps find_Some_iff split: if_splits)
      (metis nth_mem)
qed

lemma exchange_claims_Inr:
  assumes "exchange_claims E fresh st now req claims = Some (Inr (cert, resp))" "signer_ok E (signing_identity st)"
  shows "j_str ''sub'' claims \<noteq> [] \<and> now < claims_exp claims \<and> expiration_unix cert \<le> claims_exp claims
    \<and> issued_at cert = now \<and> max_depth cert = 1 \<and> verify_signature E cert
    \<and> delegator_pk cert = verifying_key (signing_identity st)
    \<and> hex_dec E (jx_delegate_pk_hex req) = Some (delegate_pk cert)
    \<and> jr_fingerprint_hex resp = cert_fingerprint_hex E cert \<and> jr_expires_at_unix resp = expiration_unix cert
    \<and> bindR (cap_hashes E (jx_capabilities req)) (tree_build E) \<noteq> Inl EmptyTree
    \<and> (\<exists>t. bindR (cap_hashes E (jx_capabilities req)) (tree_build E) = Inr t \<and> scope_root cert = tree_root t)"
proof -
  let ?ttl = "min (jx_ttl_seconds req) (sat_sub (claims_exp claims) now)"
  have le: "sat_add now ?ttl \<le> claims_exp claims" if "now < claims_exp claims"
  proof -
    have "unat ?ttl \<le> unat (claims_exp claims) - unat now"
      using unat_sat_sub [of "claims_exp claims" now] by (metis min.cobounded2 word_le_nat_alt)
    moreover have "unat now < unat (claims_exp claims)" using that by (simp add: word_less_nat_alt)
    ultimately have "unat now + unat ?ttl \<le> unat (claims_exp claims)" by linarith
    then show ?thesis by (simp add: word_le_nat_alt unat_sat_add)
  qed
  from assms(1) show ?thesis
    using le assms(2)
    by (auto simp: exchange_claims_def Let_def result_simps builder_build_Inr_iff builder_new_def builder_max_depth_def
        builder_extensions_def delegate_key_def ok_or_def cert_fingerprint_hex_def cert_issue_verifies
        split: if_splits bind_splits sum.splits option.splits)
qed

end
