(* ===== verification/A1_GwSwarm.thy ===== *)
theory A1_GwSwarm
  imports A1_Gateway
begin

text \<open>
  \<open>a1-gateway/src/routes/swarm.rs\<close>: the gateway's store of swarms and its four routes. \<open>identity_of\<close> is
  \<open>DyoloIdentity::from_signing_bytes\<close>. The store is the map from swarm identifiers to swarms that the
  mutex guards. \<open>None\<close> is a panic, which ends the process (\<open>panic = "abort"\<close> in the release profile).
\<close>

type_synonym swarm_store = "(string, swarm_passport) btree"

record create_swarm_request =
  cs_swarm_name :: string
  cs_capabilities :: "string list"
  cs_ttl_days :: u32
  cs_signing_key_hex :: string

definition default_ttl_days :: u32 where "default_ttl_days = 30"

record create_swarm_response =
  cr_swarm_id :: string
  cr_swarm_id_hex :: string
  cr_swarm_name :: string

definition signing_key :: "ext \<Rightarrow> (string \<Rightarrow> string) \<Rightarrow> (bytes \<Rightarrow> signer) \<Rightarrow> string \<Rightarrow> string + signer" where
  "signing_key E hex_msg identity_of h =
     bindR (ok_or (hex_msg h) (hex_dec E h)) (\<lambda>b.
     if length b = 32 then Inr (identity_of b) else Inl ''signing key must be 32 bytes'')"

fun join_csv :: "string list \<Rightarrow> string" where
  "join_csv [] = []"
| "join_csv [s] = s"
| "join_csv (s # ss) = s @ '','' @ join_csv ss"

definition create_swarm_inner ::
  "ext \<Rightarrow> (string \<Rightarrow> string) \<Rightarrow> (bytes \<Rightarrow> signer) \<Rightarrow> bytes \<Rightarrow> u64 \<Rightarrow> create_swarm_request \<Rightarrow> swarm_store
     \<Rightarrow> ((string + create_swarm_response) \<times> swarm_store) option" where
  "create_swarm_inner E hex_msg identity_of fresh now req m =
     (case signing_key E hex_msg identity_of (cs_signing_key_hex req) of
        Inl e \<Rightarrow> Some (Inl e, m)
      | Inr identity \<Rightarrow>
          (case issue_from_csv E fresh (cs_swarm_name req) (join_csv (cs_capabilities req))
                  (ucast (cs_ttl_days req) * 86400) identity now of
             None \<Rightarrow> None
           | Some (Inl e) \<Rightarrow> Some (Inl (display_error e), m)
           | Some (Inr passport) \<Rightarrow>
               (let sw = swarm_new E passport (cs_swarm_name req); sid = swarm_id_hex E sw in
                Some (Inr \<lparr>cr_swarm_id = sid, cr_swarm_id_hex = sid, cr_swarm_name = swarm_name sw\<rparr>,
                      bt_insert sid sw m))))"

text \<open>The answer of a route: 201 when it made something, 400 with the error otherwise.\<close>

definition created :: "(string + 'b) \<Rightarrow> (string + 'b) response" where
  "created r = (case r of Inr x \<Rightarrow> (201, Inr x) | Inl e \<Rightarrow> (400, Inl e))"

definition create_handler ::
  "ext \<Rightarrow> (string \<Rightarrow> string) \<Rightarrow> (bytes \<Rightarrow> signer) \<Rightarrow> bytes \<Rightarrow> u64 \<Rightarrow> create_swarm_request \<Rightarrow> swarm_store
     \<Rightarrow> ((string + create_swarm_response) response \<times> swarm_store) option" where
  "create_handler E hex_msg identity_of fresh now req m =
     map_option (\<lambda>(r, m'). (created r, m')) (create_swarm_inner E hex_msg identity_of fresh now req m)"

record add_member_request =
  am_swarm_id :: string
  am_agent_pk_hex :: string
  am_role :: string
  am_capabilities :: "string list"
  am_ttl_seconds :: u64
  am_signing_key_hex :: string

definition default_member_ttl :: u64 where "default_member_ttl = 3600"

text \<open>Any name but the first three is a worker.\<close>

definition role_of_request :: "add_member_request \<Rightarrow> swarm_role" where
  "role_of_request req =
     (if am_role req = ''orchestrator'' then Orchestrator
      else if am_role req = ''auditor'' then Auditor
      else if am_role req = ''supervisor'' then Supervisor (am_capabilities req) (am_ttl_seconds req)
      else Worker (am_capabilities req))"

definition add_member_inner ::
  "ext \<Rightarrow> (string \<Rightarrow> string) \<Rightarrow> (bytes \<Rightarrow> string) \<Rightarrow> (bytes \<Rightarrow> signer) \<Rightarrow> bytes \<Rightarrow> u64 \<Rightarrow> add_member_request \<Rightarrow> swarm_store
     \<Rightarrow> ((string + swarm_member) \<times> swarm_store) option" where
  "add_member_inner E hex_msg pk_msg identity_of fresh now req m =
     (case bindR (signing_key E hex_msg identity_of (am_signing_key_hex req)) (\<lambda>orchestrator.
           bindR (ok_or (hex_msg (am_agent_pk_hex req)) (hex_dec E (am_agent_pk_hex req))) (\<lambda>b.
           bindR (if length b = 32 then Inr b else Inl ''agent_pk_hex must be 32 bytes'') (\<lambda>arr.
           bindR (if ed_valid_pk E arr then Inr arr else Inl (pk_msg arr)) (\<lambda>agent_pk.
           bindR (ok_or ''swarm not found'' (map_of m (am_swarm_id req))) (\<lambda>sw. Inr (orchestrator, agent_pk, sw)))))) of
        Inl e \<Rightarrow> Some (Inl e, m)
      | Inr (orchestrator, agent_pk, sw) \<Rightarrow>
          map_option (\<lambda>(r, sw'). (map_errR display_error r, bt_insert (am_swarm_id req) sw' m))
            (add_member E fresh agent_pk (role_of_request req) (am_ttl_seconds req) orchestrator now sw))"

definition add_member_handler ::
  "ext \<Rightarrow> (string \<Rightarrow> string) \<Rightarrow> (bytes \<Rightarrow> string) \<Rightarrow> (bytes \<Rightarrow> signer) \<Rightarrow> bytes \<Rightarrow> u64 \<Rightarrow> add_member_request \<Rightarrow> swarm_store
     \<Rightarrow> ((string + swarm_member) response \<times> swarm_store) option" where
  "add_member_handler E hex_msg pk_msg identity_of fresh now req m =
     map_option (\<lambda>(r, m'). (created r, m')) (add_member_inner E hex_msg pk_msg identity_of fresh now req m)"

definition remove_member_handler :: "string \<Rightarrow> string \<Rightarrow> swarm_store \<Rightarrow> (string + string) response \<times> swarm_store" where
  "remove_member_handler sid did m =
     (case map_of m sid of
        None \<Rightarrow> ((404, Inl ''swarm not found''), m)
      | Some sw \<Rightarrow>
          (case remove_member did sw of
             (None, sw') \<Rightarrow> ((404, Inl ''member not found''), bt_insert sid sw' m)
           | (Some _, sw') \<Rightarrow> ((200, Inr did), bt_insert sid sw' m)))"

definition list_members_handler :: "u64 \<Rightarrow> string \<Rightarrow> swarm_store \<Rightarrow> (string + swarm_member list \<times> nat) response" where
  "list_members_handler now sid m =
     (case map_of m sid of
        None \<Rightarrow> (404, Inl ''swarm not found'')
      | Some sw \<Rightarrow> (let ms = active_members sw now in (200, Inr (ms, length ms))))"

section \<open>Every store the routes can produce\<close>

text \<open>A request that does not panic, by whomever and whenever it is sent.\<close>

inductive swarm_route :: "ext \<Rightarrow> swarm_store \<Rightarrow> swarm_store \<Rightarrow> bool" for E where
  route_create: "create_handler E hm idf fresh now req m = Some (r, m') \<Longrightarrow> swarm_route E m m'"
| route_add: "add_member_handler E hm pm idf fresh now areq m = Some (r', m') \<Longrightarrow> swarm_route E m m'"
| route_remove: "remove_member_handler sid did m = (r'', m') \<Longrightarrow> swarm_route E m m'"

inductive_cases swarm_routeE: "swarm_route E m m'"

inductive store_reachable :: "ext \<Rightarrow> swarm_store \<Rightarrow> bool" for E where
  store_empty: "store_reachable E []"
| store_step: "store_reachable E m \<Longrightarrow> swarm_route E m m' \<Longrightarrow> store_reachable E m'"

text \<open>Each entry is a well-formed swarm filed under its own identifier.\<close>

definition store_inv :: "ext \<Rightarrow> swarm_store \<Rightarrow> bool" where
  "store_inv E m \<longleftrightarrow> bt_inv m \<and> (\<forall>(sid, sw)\<in>set m. swarm_inv E sw \<and> swarm_id_hex E sw = sid)"

lemma store_inv_insert:
  assumes "store_inv E m" "swarm_inv E sw" "swarm_id_hex E sw = sid"
  shows "store_inv E (bt_insert sid sw m)"
  using assms set_bt_insert [of sid sw m] by (fastforce simp: store_inv_def bt_inv_insert)

lemma store_inv_lookup: "store_inv E m \<Longrightarrow> map_of m sid = Some sw \<Longrightarrow> swarm_inv E sw \<and> swarm_id_hex E sw = sid"
  by (auto simp: store_inv_def dest!: map_of_SomeD)

lemma add_member_id: "add_member E fresh pk role ttl orc now sw = Some (x, sw') \<Longrightarrow> swarm_id sw' = swarm_id sw"
  by (auto simp: add_member_def Let_def split: sum.splits bind_splits)

lemma remove_member_id: "swarm_id (snd (remove_member did sw)) = swarm_id sw"
  by (simp add: remove_member_def)

lemma create_handler_inv: "store_inv E m \<Longrightarrow> create_handler E hm idf fresh now req m = Some (r, m') \<Longrightarrow> store_inv E m'"
  by (auto simp: create_handler_def create_swarm_inner_def Let_def swarm_new_inv intro!: store_inv_insert
      split: sum.splits option.splits)

lemma add_member_handler_inv:
  assumes i: "store_inv E m" and a: "add_member_handler E hm pm idf fresh now req m = Some (r, m')"
  shows "store_inv E m'"
proof (cases "m' = m")
  case False
  with a obtain orc pk sw x sw' where sw: "map_of m (am_swarm_id req) = Some sw"
    and x: "add_member E fresh pk (role_of_request req) (am_ttl_seconds req) orc now sw = Some (x, sw')"
    and m': "m' = bt_insert (am_swarm_id req) sw' m"
    by (auto simp: add_member_handler_def add_member_inner_def result_simps split: sum.splits prod.splits)
  from store_inv_lookup [OF i sw] have "swarm_inv E sw" "swarm_id_hex E sw = am_swarm_id req" by auto
  with add_member_inv [OF _ x] add_member_id [OF x] show ?thesis
    unfolding m' by (intro store_inv_insert [OF i]) (auto simp: swarm_id_hex_def)
qed (use i in simp)

lemma remove_member_handler_inv:
  assumes i: "store_inv E m" and r: "remove_member_handler sid did m = (r, m')"
  shows "store_inv E m'"
proof (cases "map_of m sid")
  case None
  with i r show ?thesis by (simp add: remove_member_handler_def)
next
  case (Some sw)
  with r have m': "m' = bt_insert sid (snd (remove_member did sw)) m"
    by (auto simp: remove_member_handler_def split: prod.splits option.splits)
  from store_inv_lookup [OF i Some] show ?thesis
    unfolding m' by (intro store_inv_insert [OF i]) (auto simp: remove_member_inv swarm_id_hex_def remove_member_id)
qed

lemma swarm_route_inv: "swarm_route E m m' \<Longrightarrow> store_inv E m \<Longrightarrow> store_inv E m'"
  by (elim swarm_routeE) (rule create_handler_inv add_member_handler_inv remove_member_handler_inv, assumption+)+

lemma store_reachable_inv: "store_reachable E m \<Longrightarrow> store_inv E m"
proof (induction rule: store_reachable.induct)
  case store_empty
  then show ?case by (simp add: store_inv_def)
next
  case (store_step m m')
  then show ?case using swarm_route_inv by blast
qed

text \<open>What \<open>list_members\<close> answers: members under their own identifiers, unexpired, with roles inside the passport.\<close>

lemma list_members_confined:
  assumes "store_reachable E m" "list_members_handler now sid m = (200, Inr (ms, n))" "x \<in> set ms"
  shows "n = length ms \<and> now < expires_at_unix x \<and> verify_role_commitment E x
    \<and> (\<exists>sw. map_of m sid = Some sw \<and> map_of (members sw) (agent_did x) = Some x
          \<and> is_subset_of (role_mask E (member_role x)) (capability_mask (root_passport sw)))"
proof -
  from assms(2) obtain sw where sw: "map_of m sid = Some sw" and ms: "ms = active_members sw now" "n = length ms"
    by (auto simp: list_members_handler_def Let_def split: option.splits)
  have inv: "swarm_inv E sw" using store_inv_lookup [OF store_reachable_inv [OF assms(1)] sw] by blast
  from assms(3) ms obtain did where x: "(did, x) \<in> set (members sw)" "\<not> is_expired x now"
    by (auto simp: active_members_def)
  with inv have p: "agent_did x = did" "verify_role_commitment E x"
    "is_subset_of (role_mask E (member_role x)) (capability_mask (root_passport sw))"
    by (auto simp: swarm_inv_def)
  have "distinct (map fst (members sw))" using inv by (simp add: swarm_inv_def bt_inv_def strict_sorted_iff)
  with x p have "map_of (members sw) (agent_did x) = Some x" by simp
  with sw ms p x(2) show ?thesis by (auto simp: is_expired_def not_le)
qed

end
