(* ===== verification/A1_GwOps.thy ===== *)
theory A1_GwOps
  imports A1_GwIssue A1_Zk A1_Governance
begin

text \<open>
  The gateway's operational routes: \<open>routes/tenant.rs\<close>, \<open>routes/webhook.rs\<close>, \<open>routes/anchor.rs\<close>,
  \<open>routes/health.rs\<close> and \<open>routes/wellknown.rs\<close>. A header is its text, if it is present and readable.
  The HTTP client, URL parsing and the JSON text are third-party and are parameters.
\<close>

section \<open>Tenants\<close>

definition env_flag :: "environment \<Rightarrow> string \<Rightarrow> bool" where
  "env_flag env name = (case env name of Some v \<Rightarrow> v = ''true'' \<or> v = ''1'' | None \<Rightarrow> False)"

definition env_text :: "environment \<Rightarrow> string \<Rightarrow> string" where
  "env_text env name = (case env name of Some v \<Rightarrow> v | None \<Rightarrow> [])"

definition tenant_header :: "string option \<Rightarrow> string option" where
  "tenant_header h = (case h of Some s \<Rightarrow> (if str_trim s \<noteq> [] then Some (str_trim s) else None) | None \<Rightarrow> None)"

definition resolve_tenant :: "environment \<Rightarrow> string option \<Rightarrow> (nat \<times> string) + string option" where
  "resolve_tenant env header =
     (if \<not> env_flag env ''A1_MULTI_TENANT'' then Inr None
      else case tenant_header header of
        Some tenant \<Rightarrow>
          (let allowlist = env_text env ''A1_TENANT_ALLOWLIST'' in
           if allowlist \<noteq> [] \<and> tenant \<notin> set (map str_trim (split_all CHR '','' allowlist))
           then Inl (403, ''tenant '' @ quoted tenant @ '' is not in the allowlist'')
           else if CHR '':'' \<in> set tenant \<or> CHR 0x0A \<in> set tenant \<or> CHR 0x0D \<in> set tenant
           then Inl (400, ''tenant ID must not contain ':' or newlines'')
           else Inr (Some tenant))
      | None \<Rightarrow>
          if env_flag env ''A1_TENANT_REQUIRED'' then Inl (400, ''X-A1-Tenant-ID header is required for this gateway'')
          else Inr None)"

definition tenant_store_prefix :: "string \<Rightarrow> string option \<Rightarrow> string" where
  "tenant_store_prefix ns tenant =
     (case tenant of
        Some tid \<Rightarrow> if tid \<noteq> [] then ''a1::64796f6c6f::'' @ ns @ ''::'' @ tid else ''a1::64796f6c6f::'' @ ns
      | None \<Rightarrow> ''a1::64796f6c6f::'' @ ns)"

record tenant_info_response =
  ti_multi_tenant_enabled :: bool
  ti_tenant_required :: bool
  ti_active_tenant :: "string option"
  ti_allowlist :: "string list"
  ti_store_prefix :: string

text \<open>The route reports the header as the active tenant whatever \<open>resolve_tenant\<close> would say of it.\<close>

definition tenant_info_handler :: "environment \<Rightarrow> string option \<Rightarrow> tenant_info_response" where
  "tenant_info_handler env header =
     \<lparr>ti_multi_tenant_enabled = env_flag env ''A1_MULTI_TENANT'', ti_tenant_required = env_flag env ''A1_TENANT_REQUIRED'',
      ti_active_tenant = tenant_header header, ti_allowlist = csv_nonempty (env_text env ''A1_TENANT_ALLOWLIST''),
      ti_store_prefix = tenant_store_prefix ''rev'' (tenant_header header)\<rparr>"

definition upper_char :: "char \<Rightarrow> char" where
  "upper_char c = (let n = of_char c :: nat in if 97 \<le> n \<and> n \<le> 122 then char_of (n - 32) else c)"

definition tenant_var :: "string \<Rightarrow> string \<Rightarrow> string" where
  "tenant_var tid suffix =
     ''A1_TENANT_'' @ map (\<lambda>c. if c = CHR ''-'' then CHR ''_'' else c) (map upper_char tid) @ suffix"

record tenant_config_response =
  tc_tenant :: "string option"
  tc_allowed_caps :: "string list"
  tc_max_chain_depth :: u8
  tc_max_ttl_seconds :: u64

definition or_option :: "'a option \<Rightarrow> 'a option \<Rightarrow> 'a option" where
  "or_option x y = (case x of Some v \<Rightarrow> Some v | None \<Rightarrow> y)"

definition tenant_config_handler :: "environment \<Rightarrow> string option \<Rightarrow> tenant_config_response" where
  "tenant_config_handler env header =
     (let tenant = tenant_header header;
          caps = or_option (Option.bind tenant (\<lambda>tid. env (tenant_var tid ''_CAPS''))) (env ''A1_JWT_ALLOWED_CAPS'');
          d = or_option (Option.bind tenant (\<lambda>tid. Option.bind (env (tenant_var tid ''_MAX_DEPTH'')) (parse_uint 8)))
                (Option.bind (env ''A1_MAX_CHAIN_DEPTH'') (parse_uint 8));
          ttl = Option.bind tenant (\<lambda>tid. Option.bind (env (tenant_var tid ''_MAX_TTL'')) (parse_uint 64))
      in \<lparr>tc_tenant = tenant, tc_allowed_caps = csv_nonempty (set_or [] caps),
          tc_max_chain_depth = word_of_nat (set_or 8 d), tc_max_ttl_seconds = word_of_nat (set_or (86400 * 365) ttl)\<rparr>)"

section \<open>Webhooks\<close>

text \<open>The signature over the body: the secret is part of the context string of the hash.\<close>

definition webhook_signature :: "ext \<Rightarrow> app_state \<Rightarrow> bytes \<Rightarrow> string" where
  "webhook_signature E st body =
     (let key = (case webhook_secret st of Some k \<Rightarrow> k | None \<Rightarrow> ''a1::64796f6c6f::webhook::v2.8.0'') in
      hex_enc E (h_finalize E (h_updates (new_derive_key (''a1::64796f6c6f::webhook::'' @ key @ ''::v2.8.0'')) [body])))"

text \<open>
  \<open>serialize\<close> is \<open>serde_json::to_vec\<close>, \<open>post\<close> builds the client and sends: URL, headers and body to an
  error text or a status.
\<close>

definition deliver ::
  "ext \<Rightarrow> (webhook_event \<Rightarrow> string + bytes) \<Rightarrow> (string \<Rightarrow> (string \<times> string) list \<Rightarrow> bytes \<Rightarrow> string + nat)
     \<Rightarrow> (nat \<Rightarrow> string) \<Rightarrow> webhook_event \<Rightarrow> app_state \<Rightarrow> string + unit" where
  "deliver E serialize post status_text ev st =
     (case webhook_url st of
        None \<Rightarrow> Inr ()
      | Some url \<Rightarrow>
          bindR (map_errR (\<lambda>e. ''serialize: '' @ e) (serialize ev)) (\<lambda>body.
          bindR (post url [(''Content-Type'', ''application/json''),
                   (''X-A1-Webhook-Signature'', ''sha256='' @ webhook_signature E st body),
                   (''X-A1-Protocol'', ''dyolo_v2.8.0'')] body) (\<lambda>status.
          if \<not> (200 \<le> status \<and> status < 300) then Inl (''non-2xx status: '' @ status_text status) else Inr ())))"

record test_response =
  tr_dispatched :: bool
  tr_webhook_url :: "string option"
  tr_message :: string

definition webhook_test_handler :: "app_state \<Rightarrow> u64 \<Rightarrow> test_response response \<times> webhook_event list" where
  "webhook_test_handler st now =
     (let ev = from_authorization True 1 ''a1_test_fingerprint_64796f6c6f'' ''a1_test_intent_64796f6c6f''
                 (Some ''a1-webhook-test'') None (Some ''test-request'') None now;
          dispatched = (webhook_url st \<noteq> None);
          url = (case webhook_url st of Some u \<Rightarrow> u | None \<Rightarrow> []);
          message = (if dispatched then ''test event dispatched to '' @ url
                     else ''A1_WEBHOOK_URL is not configured '' @ em_dash @ '' no event dispatched'')
      in ((200, \<lparr>tr_dispatched = dispatched, tr_webhook_url = webhook_url st, tr_message = message\<rparr>),
          if dispatched then dispatch st ev else []))"

record status_response =
  sr_enabled :: bool
  sr_url :: "string option"
  sr_signed :: bool

text \<open>\<open>parse_url\<close> gives scheme and host of a URL that parses; one that does not is shown whole.\<close>

definition webhook_status_handler :: "(string \<Rightarrow> (string \<times> string option) option) \<Rightarrow> app_state \<Rightarrow> status_response" where
  "webhook_status_handler parse_url st =
     \<lparr>sr_enabled = (webhook_url st \<noteq> None),
      sr_url = map_option (\<lambda>u. case parse_url u of
          Some (scheme, host) \<Rightarrow> scheme @ ''://'' @ set_or ''?'' host
        | None \<Rightarrow> u) (webhook_url st),
      sr_signed = (webhook_secret st \<noteq> None)\<rparr>"

section \<open>Anchoring\<close>

record anchor_request =
  an_commitment :: zk_chain_commitment
  an_passport_did :: string
  an_network :: anchor_network

definition default_network :: anchor_network where "default_network = Ethereum"

record submission_guide =
  contract_function :: string
  contract_interface :: string
  ethersjs_snippet :: "string option"
  viemjs_snippet :: "string option"

record anchor_response =
  ao_anchored_receipt :: anchored_receipt
  ao_anchor_hash_hex :: string
  ao_network :: string
  ao_evm_calldata :: "string option"
  ao_solana_instruction_data :: "string option"
  ao_submission_guide :: submission_guide

text \<open>The route seals what it is given: the commitment is not verified first.\<close>

definition anchor_handler :: "ext \<Rightarrow> app_state \<Rightarrow> u64 \<Rightarrow> anchor_request \<Rightarrow> anchor_response response" where
  "anchor_handler E st now req =
     (let r = anchor_prepare E (an_commitment req) (an_passport_did req) (an_network req) now (signing_identity st);
          call = set_or [] (evm_calldata r);
          is_evm = network_is_evm (an_network req);
          snippet = (\<lambda>f. if is_evm then Some (''await '' @ f @ ''.sendTransaction({ to: A1_ANCHOR_CONTRACT, data: '' @ quoted (''0x'' @ call) @ '' });'') else None)
      in (200, \<lparr>ao_anchored_receipt = r, ao_anchor_hash_hex = anchor_hash_hex E r, ao_network = network_name (an_network req),
            ao_evm_calldata = evm_calldata r, ao_solana_instruction_data = solana_instruction_data r,
            ao_submission_guide = \<lparr>contract_function = ''anchor(bytes32,bytes32,uint64,string)'',
              contract_interface = ''https://github.com/dyologician/a1/blob/main/contracts/IA1Anchor.sol'',
              ethersjs_snippet = snippet ''provider'', viemjs_snippet = snippet ''walletClient''\<rparr>\<rparr>))"

section \<open>Health\<close>

record health_response =
  hr_status :: string
  hr_signing_pk_hex :: string
  hr_version :: string
  hr_webhook_enabled :: bool
  hr_jwt_exchange_enabled :: bool
  hr_multi_tenant_enabled :: bool
  hr_storage_backend :: string

definition health_handler :: "environment \<Rightarrow> app_state \<Rightarrow> health_response" where
  "health_handler env st =
     \<lparr>hr_status = ''ok'', hr_signing_pk_hex = gw_pk_hex st, hr_version = ''2.8.0'',
      hr_webhook_enabled = (webhook_url st \<noteq> None), hr_jwt_exchange_enabled = (env ''A1_JWT_JWKS_URL'' \<noteq> None),
      hr_multi_tenant_enabled = env_flag env ''A1_MULTI_TENANT'',
      hr_storage_backend = (if env ''A1_REDIS_URL'' \<noteq> None then ''redis''
        else if env ''A1_PG_URL'' \<noteq> None then ''postgres'' else ''memory'')\<rparr>"

definition nl :: string where "nl = [CHR 0x0A]"

section \<open>The published configuration\<close>

text \<open>The paths the configuration advertises, in the order of its fields, with the method of their routes.\<close>

definition wk_endpoints :: "(string \<times> string) list" where
  "wk_endpoints =
     [(''POST'', ''/v1/authorize''), (''POST'', ''/v1/authorize/batch''), (''POST'', ''/v1/passport/authorize''),
      (''POST'', ''/v1/cert/issue''), (''POST'', ''/v1/cert/revoke''), (''POST'', ''/v1/cert/revoke-batch''),
      (''POST'', ''/v1/token/verify''), (''POST'', ''/v1/cert/revoke-batch''), (''GET'', ''/v1/did/{pk_hex}''),
      (''GET'', ''/v1/did/gateway''), (''POST'', ''/v1/vc/issue''), (''POST'', ''/v1/vc/verify''),
      (''POST'', ''/v1/anchor''), (''POST'', ''/v1/negotiate''), (''POST'', ''/v1/jwt/exchange''),
      (''GET'', ''/v1/webhook/status''), (''GET'', ''/v1/tenant/info'')]"

record a1_configuration =
  wk_issuer :: string
  wk_gateway_signing_pk_hex :: string
  wk_gateway_did :: string
  wk_endpoint_urls :: "string list"
  wk_a1_version :: string
  wk_protocol_enforcer :: string
  wk_supported_algorithms :: "string list"
  wk_supported_features :: "string list"
  wk_supported_networks :: "string list"
  wk_jwt_exchange_enabled :: bool
  wk_webhook_enabled :: bool
  wk_multi_tenant_enabled :: bool

definition wellknown_handler :: "string \<Rightarrow> environment \<Rightarrow> app_state \<Rightarrow> a1_configuration" where
  "wellknown_handler pkg_version env st =
     (let base = (case env ''A1_PUBLIC_BASE_URL'' of Some b \<Rightarrow> b | None \<Rightarrow> ''http://localhost:8080'') in
      \<lparr>wk_issuer = base, wk_gateway_signing_pk_hex = gw_pk_hex st, wk_gateway_did = ''did:a1:'' @ gw_pk_hex st,
       wk_endpoint_urls = map (\<lambda>(m, p). base @ p) wk_endpoints, wk_a1_version = pkg_version,
       wk_protocol_enforcer = ''dyolo_v2.8.0'',
       wk_supported_algorithms = [''Ed25519'', ''HybridMlDsa44Ed25519'', ''HybridMlDsa65Ed25519''],
       wk_supported_features = [''delegation'', ''passports'', ''did'', ''vc'', ''zk-commitment'', ''zk-trace-proof'',
         ''on-chain-anchor'', ''agent-negotiation'', ''post-quantum-ready'', ''mcp-server'', ''jwt-exchange'',
         ''webhook-siem'', ''multi-tenant''],
       wk_supported_networks = [''ethereum'', ''ethereum-sepolia'', ''polygon'', ''base'', ''arbitrum'', ''solana''],
       wk_jwt_exchange_enabled = (env ''A1_JWT_JWKS_URL'' \<noteq> None), wk_webhook_enabled = (webhook_url st \<noteq> None),
       wk_multi_tenant_enabled = env_flag env ''A1_MULTI_TENANT''\<rparr>)"

section \<open>Properties\<close>

text \<open>Every advertised path is served.\<close>

lemma wk_endpoints_served:
  "list_all (\<lambda>(m, p). has_route (admin_routes @ public_routes) m (tl (split_all CHR ''/'' p))) wk_endpoints"
  by code_simp

lemma health_backend: "hr_storage_backend (health_handler env st) =
    (case backend_from_env env of RedisBackend _ \<Rightarrow> ''redis'' | PgBackend _ \<Rightarrow> ''postgres'' | MemoryBackend \<Rightarrow> ''memory'')"
  by (simp add: health_handler_def backend_from_env_def split: option.splits)

text \<open>A tenant that is resolved is a trimmed, listed name without separators; two such never share a prefix.\<close>

lemma resolve_tenant_Some:
  "resolve_tenant env h = Inr (Some tenant) \<Longrightarrow>
     env_flag env ''A1_MULTI_TENANT'' \<and> tenant \<noteq> [] \<and> (\<exists>s. h = Some s \<and> tenant = str_trim s)
     \<and> CHR '':'' \<notin> set tenant
     \<and> (env_text env ''A1_TENANT_ALLOWLIST'' \<noteq> [] \<longrightarrow> tenant \<in> set (map str_trim (split_all CHR '','' (env_text env ''A1_TENANT_ALLOWLIST''))))"
  by (auto simp: resolve_tenant_def tenant_header_def Let_def split: if_splits option.splits)

lemma tenant_prefix_inj:
  assumes "CHR '':'' \<notin> set a" "CHR '':'' \<notin> set b" "CHR '':'' \<notin> set ns" "CHR '':'' \<notin> set ns'"
    and "tenant_store_prefix ns (Some a) @ CHR '':'' # x = tenant_store_prefix ns' (Some b) @ CHR '':'' # y" "a \<noteq> []" "b \<noteq> []"
  shows "ns = ns' \<and> a = b \<and> x = y"
proof -
  have cut: "u @ c # x = v @ c # y \<Longrightarrow> c \<notin> set u \<Longrightarrow> c \<notin> set v \<Longrightarrow> u = v \<and> x = y" for u v x y :: string and c
    by (induction u arbitrary: v) (case_tac v; auto)+
  from assms(5-7) have "ns @ CHR '':'' # CHR '':'' # a @ CHR '':'' # x = ns' @ CHR '':'' # CHR '':'' # b @ CHR '':'' # y"
    by (simp add: tenant_store_prefix_def)
  from cut [OF this assms(3,4)] have "ns = ns'" and r: "a @ CHR '':'' # x = b @ CHR '':'' # y" by auto
  with cut [OF r assms(1,2)] show ?thesis by blast
qed

text \<open>Tenants whose names differ in case, or in a hyphen against an underscore, share one configuration.\<close>

lemma tenant_var_folds: "tenant_var ''a-b'' s = tenant_var ''A_B'' s"
  by code_simp

text \<open>A delivery is signed under the key the receiver holds; what is delivered is one body under one signature.\<close>

lemma deliver_posts:
  assumes "deliver E serialize post txt ev st = Inr ()" "webhook_url st = Some url"
  shows "\<exists>body status. serialize ev = Inr body \<and> 200 \<le> status \<and> status < 300
    \<and> post url [(''Content-Type'', ''application/json''),
        (''X-A1-Webhook-Signature'', ''sha256='' @ webhook_signature E st body), (''X-A1-Protocol'', ''dyolo_v2.8.0'')] body = Inr status"
  using assms by (auto simp: deliver_def result_simps split: if_splits)

lemma anchor_handler_seals:
  "verify_integrity E (ao_anchored_receipt (snd (anchor_handler E st now req)))
   \<and> ar_commitment (ao_anchored_receipt (snd (anchor_handler E st now req))) = an_commitment req"
  by (simp add: anchor_handler_def Let_def prepare_integrity) (simp add: anchor_prepare_def Let_def)

end
