(* ===== verification/A1_Mcp.thy ===== *)
theory A1_Mcp
  imports A1_GwOps
begin

text \<open>
  The gateway's Model Context Protocol endpoint, \<open>a1-gateway/src/routes/mcp.rs\<close>: the JSON-RPC
  dispatcher with its six tools, and the tool manifest. The HTTP client is the parameter \<open>post\<close> (address,
  body and \<open>Authorization\<close> header; an error text, or a status with the body if it is JSON), the file
  system is \<open>read_file\<close>, and printing and parsing JSON are \<open>json_text\<close>, \<open>json_pretty\<close> and \<open>json_parse\<close>.
\<close>

section \<open>Envelope\<close>

record json_rpc_request =
  rq_jsonrpc :: string
  rq_id :: "json option"
  rq_method :: string
  rq_params :: "json option"

record json_rpc_response =
  rr_jsonrpc :: string
  rr_id :: "json option"
  rr_result :: "json option"
  rr_error :: "(int \<times> string) option"

definition rpc_ok :: "json option \<Rightarrow> json \<Rightarrow> json_rpc_response" where
  "rpc_ok i r = \<lparr>rr_jsonrpc = ''2.0'', rr_id = i, rr_result = Some r, rr_error = None\<rparr>"

definition rpc_err :: "json option \<Rightarrow> int \<Rightarrow> string \<Rightarrow> json_rpc_response" where
  "rpc_err i code msg = \<lparr>rr_jsonrpc = ''2.0'', rr_id = i, rr_result = None, rr_error = Some (code, msg)\<rparr>"

section \<open>Manifest\<close>

definition mcp_tool :: "string \<Rightarrow> string \<Rightarrow> string list option \<Rightarrow> (string \<times> json) list \<Rightarrow> json" where
  "mcp_tool name desc req props =
     JObj [(''name'', JStr name), (''description'', JStr desc),
       (''inputSchema'', JObj ((''type'', JStr ''object'')
          # (case req of Some rs \<Rightarrow> [(''required'', JArr (map JStr rs))] | None \<Rightarrow> [])
          @ [(''properties'', JObj props)]))]"

definition tool_list :: json where
  "tool_list = JObj [(''tools'', JArr [
     mcp_tool ''a1_authorize''
       ''Verify that an AI agent is authorized to perform an action. Checks the delegation chain, capability scope, nonce, and revocation status. Returns a ProvableReceipt if authorized.''
       (Some [''intent_name'', ''executor_pk_hex''])
       [(''intent_name'', JObj ([(''type'', JStr ''string''), (''description'', JStr ''The capability the agent wants to use (e.g. 'trade.equity', 'files.read', 'web.search')'')])),
        (''executor_pk_hex'', JObj ([(''type'', JStr ''string''), (''description'', JStr ''The executing agent's Ed25519 public key as a hex string'')])),
        (''chain'', JObj ([(''type'', JStr ''object''), (''description'', JStr ''The SignedChain delegation chain JSON. If omitted and a passport is configured, uses the root passport chain.'')])),
        (''intent_params'', JObj ([(''type'', JStr ''object''), (''description'', JStr ''Optional parameters describing the specific action (e.g. {symbol: 'AAPL', qty: 100})'')]))],
     mcp_tool ''a1_check_health''
       ''Check that the A1 gateway is running and return the gateway's identity.''
       (None)
       [],
     mcp_tool ''a1_inspect_passport''
       ''Inspect a passport file to see its capabilities, namespace, expiry date, and current status.''
       (Some [''passport_path''])
       [(''passport_path'', JObj ([(''type'', JStr ''string''), (''description'', JStr ''Path to the passport JSON file on disk (e.g. './passport.json')'')]))],
     mcp_tool ''a1_list_capabilities''
       ''List all recognized A1 capability names with descriptions. Useful when deciding what capabilities to grant a new agent.''
       (None)
       [],
     mcp_tool ''a1_issue_cert''
       ''Issue a delegation certificate to a sub-agent. Requires admin access. The new cert is a subset of the capabilities in the provided chain.''
       (Some [''delegate_pk_hex'', ''capabilities'', ''ttl_seconds''])
       [(''delegate_pk_hex'', JObj ([(''type'', JStr ''string''), (''description'', JStr ''The sub-agent's Ed25519 public key as a hex string'')])),
        (''capabilities'', JObj ([(''type'', JStr ''array''), (''description'', JStr ''List of capability names to grant (must be a subset of the current chain's capabilities)'')] @ [(''items'', JObj [(''type'', JStr ''string'')])])),
        (''ttl_seconds'', JObj ([(''type'', JStr ''integer''), (''description'', JStr ''How long the cert is valid in seconds (e.g. 3600 = 1 hour)'')]))],
     mcp_tool ''a1_revoke''
       ''Revoke a certificate by its fingerprint. After revocation, the cert cannot be used for authorization. Requires admin access.''
       (Some [''fingerprint''])
       [(''fingerprint'', JObj ([(''type'', JStr ''string''), (''description'', JStr ''The hex fingerprint of the certificate to revoke'')]))]])]"

definition capability_list :: "(string \<times> string) list" where
  "capability_list = [
     (''files.read'', ''Read files and documents from disk''),
     (''files.write'', ''Write, create, or edit files on disk''),
     (''code.execute'', ''Execute code or run scripts''),
     (''web.search'', ''Search the internet''),
     (''email.send'', ''Send email messages''),
     (''email.read'', ''Read email messages''),
     (''database.read'', ''Query databases or spreadsheets''),
     (''database.write'', ''Write or modify database records''),
     (''trade.equity'', ''Execute equity buy/sell orders''),
     (''portfolio.read'', ''Read portfolio balances and holdings''),
     (''api.call'', ''Call external third-party APIs''),
     (''agent.delegate'', ''Delegate tasks to other sub-agents''),
     (''memory.read'', ''Read from agent memory store''),
     (''memory.write'', ''Write to agent memory store''),
     (''calendar.read'', ''Read calendar events''),
     (''calendar.write'', ''Create or modify calendar events''),
     (''payments.send'', ''Initiate payment transactions''),
     (''compute.run'', ''Provision and run compute jobs'')]"

section \<open>Tools\<close>

text \<open>The content of an answer, with the error flag where the code sets one.\<close>

definition text_content :: "string \<Rightarrow> bool option \<Rightarrow> json" where
  "text_content t is_error =
     JObj ((''content'', JArr [JObj [(''type'', JStr ''text''), (''text'', JStr t)]])
        # (case is_error of Some b \<Rightarrow> [(''isError'', JBool b)] | None \<Rightarrow> []))"

definition is_success :: "nat \<Rightarrow> bool" where
  "is_success status \<longleftrightarrow> 200 \<le> status \<and> status \<le> 299"

definition check_mark :: string where "check_mark = [CHR 0xE2, CHR 0x9C, CHR 0x85]"
definition cross_mark :: string where "cross_mark = [CHR 0xE2, CHR 0x9D, CHR 0x8C]"

definition public_base :: "environment \<Rightarrow> string" where
  "public_base env = (case env ''A1_PUBLIC_BASE_URL'' of Some b \<Rightarrow> b | None \<Rightarrow> ''http://localhost:8080'')"

type_synonym http_post = "string \<Rightarrow> json \<Rightarrow> string option \<Rightarrow> string + nat \<times> json option"

definition tool_check_health :: "string \<Rightarrow> app_state \<Rightarrow> json option \<Rightarrow> json_rpc_response" where
  "tool_check_health pkg_version st i =
     rpc_ok i (text_content (''A1 gateway is running.'' @ nl @ ''Version: '' @ pkg_version @ nl
       @ ''Gateway public key: '' @ gw_pk_hex st @ nl @ ''Status: OK'') None)"

text \<open>\<open>{name:<24}\<close>.\<close>

definition pad_right :: "nat \<Rightarrow> string \<Rightarrow> string" where
  "pad_right n s = s @ replicate (n - length s) CHR '' ''"

fun join_lines :: "string list \<Rightarrow> string" where
  "join_lines [] = []"
| "join_lines [s] = s"
| "join_lines (s # ss) = s @ nl @ join_lines ss"

definition tool_list_capabilities :: "json option \<Rightarrow> json_rpc_response" where
  "tool_list_capabilities i =
     rpc_ok i (text_content (''A1 capability names:'' @ nl @ nl
       @ join_lines (map (\<lambda>(name, desc). ''  '' @ pad_right 24 name @ '' '' @ em_dash @ '' '' @ desc) capability_list)) None)"

definition tool_authorize :: "environment \<Rightarrow> http_post \<Rightarrow> (json \<Rightarrow> string) \<Rightarrow> json option \<Rightarrow> json \<Rightarrow> json_rpc_response" where
  "tool_authorize env post json_pretty i args =
     (let intent_name = j_str ''intent_name'' args; executor_pk = j_str ''executor_pk_hex'' args in
      if intent_name = [] \<or> executor_pk = [] then rpc_err i (-32602) ''intent_name and executor_pk_hex are required''
      else let chain = (case j_get ''chain'' args of Some c \<Rightarrow> c | None \<Rightarrow> JNull);
               params_body = (case j_get ''intent_params'' args of Some p \<Rightarrow> p | None \<Rightarrow> JObj []);
               body = JObj [(''chain'', chain), (''intent_name'', JStr intent_name),
                            (''executor_pk_hex'', JStr executor_pk), (''intent_params'', params_body)]
           in case post (public_base env @ ''/v1/authorize'') body None of
                Inl e \<Rightarrow> rpc_err i (-32000) (''Gateway request failed: '' @ e)
              | Inr (status, answer) \<Rightarrow>
                  (let json_body = (case answer of Some v \<Rightarrow> v | None \<Rightarrow> JObj []) in
                   if is_success status
                   then rpc_ok i (text_content (check_mark @ '' Authorized'' @ nl @ nl @ json_pretty json_body) None)
                   else let msg = (case Option.bind (j_get ''error'' json_body) as_str of
                                     Some m \<Rightarrow> m | None \<Rightarrow> ''Authorization denied'')
                        in rpc_ok i (text_content (cross_mark @ '' Authorization denied: '' @ msg) (Some True))))"

definition tool_inspect_passport ::
  "(string \<Rightarrow> string + string) \<Rightarrow> (string \<Rightarrow> string + json) \<Rightarrow> (json \<Rightarrow> string) \<Rightarrow> u64 \<Rightarrow> json option \<Rightarrow> json
     \<Rightarrow> json_rpc_response" where
  "tool_inspect_passport read_file json_parse json_text now i args =
     (let path = (case Option.bind (j_get ''passport_path'' args) as_str of Some p \<Rightarrow> p | None \<Rightarrow> ''passport.json'') in
      case read_file path of
        Inl e \<Rightarrow> rpc_err i (-32000) (''Cannot read passport file '' @ [CHR 0x27] @ path @ [CHR 0x27] @ '': '' @ e)
      | Inr content \<Rightarrow>
          (case json_parse content of
             Inl e \<Rightarrow> rpc_err i (-32000) (''Invalid passport JSON: '' @ e)
           | Inr p \<Rightarrow>
               (let ns = (case Option.bind (j_get ''namespace'' p) as_str of Some s \<Rightarrow> s | None \<Rightarrow> ''unknown'');
                    caps = (case j_get ''capabilities'' p of Some c \<Rightarrow> json_text c | None \<Rightarrow> ''none'');
                    stat = (case Option.bind (j_get ''expiration_unix'' p) as_i64 of
                              Some ts \<Rightarrow> if sint now < ts then ''VALID'' else ''EXPIRED''
                            | None \<Rightarrow> ''unknown'')
                in rpc_ok i (text_content (''Passport: '' @ path @ nl @ ''  Namespace:    '' @ ns @ nl
                     @ ''  Capabilities: '' @ caps @ nl @ ''  Status:       '' @ stat) None))))"

definition member_or_null :: "string \<Rightarrow> json \<Rightarrow> string \<times> json" where
  "member_or_null k args = (k, case j_get k args of Some v \<Rightarrow> v | None \<Rightarrow> JNull)"

text \<open>The path and the body that the two administrative tools forward.\<close>

definition admin_forward :: "bool \<Rightarrow> json \<Rightarrow> string \<times> json" where
  "admin_forward issue args =
     (if issue
      then (''/v1/cert/issue'', JObj [member_or_null ''delegate_pk_hex'' args, member_or_null ''capabilities'' args,
                                     member_or_null ''ttl_seconds'' args])
      else (''/v1/cert/revoke'', JObj [member_or_null ''fingerprint'' args]))"

definition tool_admin ::
  "environment \<Rightarrow> http_post \<Rightarrow> (json \<Rightarrow> string) \<Rightarrow> json option \<Rightarrow> bool \<Rightarrow> json \<Rightarrow> json_rpc_response" where
  "tool_admin env post json_pretty i issue args =
     (case admin_forward issue args of (path, body) \<Rightarrow>
       (case post (public_base env @ path) body (map_option (\<lambda>sec. ''Bearer '' @ sec) (env ''A1_ADMIN_SECRET'')) of
          Inl e \<Rightarrow> rpc_err i (-32000) e
        | Inr (status, answer) \<Rightarrow>
            (let ok = is_success status; t = json_pretty (case answer of Some v \<Rightarrow> v | None \<Rightarrow> JObj []) in
             rpc_ok i (text_content ((if ok then check_mark @ '' Done'' else cross_mark @ '' Failed'') @ nl @ nl @ t)
                         (Some (\<not> ok))))))"

section \<open>Dispatch\<close>

record mcp_env =
  me_version :: string
  me_env :: environment
  me_post :: http_post
  me_read_file :: "string \<Rightarrow> string + string"
  me_parse :: "string \<Rightarrow> string + json"
  me_text :: "json \<Rightarrow> string"
  me_pretty :: "json \<Rightarrow> string"

definition call_tool :: "mcp_env \<Rightarrow> app_state \<Rightarrow> u64 \<Rightarrow> json option \<Rightarrow> string \<Rightarrow> json \<Rightarrow> json_rpc_response" where
  "call_tool M st now i tool args =
     (if tool = ''a1_check_health'' then tool_check_health (me_version M) st i
      else if tool = ''a1_list_capabilities'' then tool_list_capabilities i
      else if tool = ''a1_authorize'' then tool_authorize (me_env M) (me_post M) (me_pretty M) i args
      else if tool = ''a1_inspect_passport''
      then tool_inspect_passport (me_read_file M) (me_parse M) (me_text M) now i args
      else if tool = ''a1_issue_cert'' \<or> tool = ''a1_revoke''
      then tool_admin (me_env M) (me_post M) (me_pretty M) i (tool = ''a1_issue_cert'') args
      else rpc_err i (-32601) (''Unknown tool: '' @ [CHR 0x27] @ tool @ [CHR 0x27] @ ''. Call tools/list to see available tools.''))"

definition mcp_post_handler :: "mcp_env \<Rightarrow> app_state \<Rightarrow> u64 \<Rightarrow> json_rpc_request \<Rightarrow> json_rpc_response" where
  "mcp_post_handler M st now req =
     (if rq_jsonrpc req \<noteq> ''2.0''
      then rpc_err (rq_id req) (-32600)
             (''Invalid JSON-RPC version '' @ em_dash @ '' must be '' @ [CHR 0x22] @ ''2.0'' @ [CHR 0x22])
      else let i = rq_id req; m = rq_method req in
        if m = ''initialize''
        then rpc_ok i (JObj [(''protocolVersion'', JStr ''2024-11-05''),
               (''serverInfo'', JObj [(''name'', JStr ''a1-gateway''), (''version'', JStr (me_version M)),
                 (''description'', JStr (''A1 '' @ em_dash @ '' cryptographic chain-of-custody for AI agent delegation''))]),
               (''capabilities'', JObj [(''tools'', JObj [])])])
        else if m = ''notifications/initialized'' then rpc_ok i (JObj [])
        else if m = ''tools/list'' then rpc_ok i tool_list
        else if m = ''tools/call''
        then let params = (case rq_params req of Some p \<Rightarrow> p | None \<Rightarrow> JObj []);
                 tool_name = j_str ''name'' params;
                 args = (case j_get ''arguments'' params of Some a \<Rightarrow> a | None \<Rightarrow> JObj [])
             in call_tool M st now i tool_name args
        else rpc_err i (-32601) (''Method not found: '' @ [CHR 0x27] @ m @ [CHR 0x27]))"

definition tools_handler :: json where
  "tools_handler = tool_list"

text \<open>The stream of events: one, then nothing more until the client leaves.\<close>

definition sse_handler :: "(json \<Rightarrow> string) \<Rightarrow> (string \<times> string) list" where
  "sse_handler show_json = [(''tools'', show_json tool_list)]"

section \<open>Properties\<close>

text \<open>Every answer carries the id of its request, and a result or an error but never both.\<close>

lemmas rpc_simps = rpc_ok_def rpc_err_def

definition rpc_wf :: "json option \<Rightarrow> json_rpc_response \<Rightarrow> bool" where
  "rpc_wf i r \<longleftrightarrow> rr_jsonrpc r = ''2.0'' \<and> rr_id r = i \<and> (rr_result r = None \<longleftrightarrow> rr_error r \<noteq> None)"

lemma rpc_wf_simps [simp]: "rpc_wf i (rpc_ok i r)" "rpc_wf i (rpc_err i c m)"
  by (simp_all add: rpc_wf_def rpc_simps)

lemma tools_wf [simp]:
  "rpc_wf i (tool_check_health v st i)" "rpc_wf i (tool_list_capabilities i)"
  "rpc_wf i (tool_authorize env post pr i a)" "rpc_wf i (tool_inspect_passport rd ps tx now i a)"
  "rpc_wf i (tool_admin env post pr i issue a)"
  by (simp_all add: tool_check_health_def tool_list_capabilities_def tool_authorize_def
      tool_inspect_passport_def tool_admin_def Let_def split: sum.split prod.split)

lemma call_tool_wf [simp]: "rpc_wf i (call_tool M st now i t a)"
  by (simp add: call_tool_def)

lemma mcp_wf: "rpc_wf (rq_id req) (mcp_post_handler M st now req)"
  by (simp add: mcp_post_handler_def Let_def)

text \<open>Every tool of the manifest is dispatched.\<close>

definition manifest_names :: "string list" where
  "manifest_names = map (j_str ''name'') (case Option.bind (j_get ''tools'' tool_list) as_array of Some xs \<Rightarrow> xs | None \<Rightarrow> [])"

lemma manifest_names_eq:
  "manifest_names = [''a1_authorize'', ''a1_check_health'', ''a1_inspect_passport'', ''a1_list_capabilities'',
     ''a1_issue_cert'', ''a1_revoke'']"
  by (simp add: manifest_names_def tool_list_def mcp_tool_def j_str_def)

text \<open>
  The administrative tools send bodies that the routes they address cannot read: the structures of
  \<open>routes/cert.rs\<close> need the members \<open>intents\<close> and \<open>fingerprint_hex\<close>.
\<close>

definition required_members :: "string \<Rightarrow> string list" where
  "required_members path =
     (if path = ''/v1/cert/issue'' then [''delegate_pk_hex'', ''intents'']
      else if path = ''/v1/cert/revoke'' then [''fingerprint_hex'']
      else if path = ''/v1/authorize'' then [''chain'', ''intent_name'', ''executor_pk_hex''] else [])"

lemma admin_forward_misses:
  "admin_forward issue args = (path, body) \<Longrightarrow> \<exists>k\<in>set (required_members path). j_get k body = None"
  by (cases issue) (auto simp: admin_forward_def required_members_def member_or_null_def)

lemma tool_admin_never_done:
  assumes "\<And>path body h. \<exists>k\<in>set (required_members path). j_get k body = None \<Longrightarrow>
             \<exists>status answer. post (public_base env @ path) body h = Inr (status, answer) \<and> \<not> is_success status"
  shows "\<exists>t. tool_admin env post json_pretty i issue args = rpc_ok i (text_content (cross_mark @ '' Failed'' @ t) (Some True))"
proof -
  obtain path body where f: "admin_forward issue args = (path, body)" by (cases "admin_forward issue args")
  from assms [OF admin_forward_misses [OF f]] obtain status answer
    where "post (public_base env @ path) body (map_option (\<lambda>sec. ''Bearer '' @ sec) (env ''A1_ADMIN_SECRET''))
      = Inr (status, answer)" "\<not> is_success status" by blast
  with f show ?thesis by (auto simp: tool_admin_def Let_def)
qed

text \<open>An authorization is reported only when the route accepted the very intent and executor that were asked about.\<close>

lemma tool_authorize_reports:
  assumes "tool_authorize env post json_pretty i args = rpc_ok i (text_content (check_mark @ t) None)"
  shows "\<exists>body status answer. post (public_base env @ ''/v1/authorize'') body None = Inr (status, answer) \<and> is_success status
    \<and> j_get ''intent_name'' body = Some (JStr (j_str ''intent_name'' args))
    \<and> j_get ''executor_pk_hex'' body = Some (JStr (j_str ''executor_pk_hex'' args))"
  using assms by (fastforce simp: tool_authorize_def rpc_simps text_content_def Let_def split: if_splits sum.splits prod.splits)

end
