(* ===== verification/A1_GwPassports.thy ===== *)
theory A1_GwPassports
  imports A1_GwIssue A1_Passport
begin

text \<open>
  The gateway's passport files, \<open>a1-gateway/src/routes/passports.rs\<close>: issuing, listing, renewing,
  revoking, reading and restoring. The file system is a map from paths to the texts that can be read
  there; whether a write or a removal succeeds, the texts of its errors and what \<open>canonicalize\<close> gives
  are in \<open>os\<close>. Paths are texts in normal form. Creating a directory changes no file. Printing and
  parsing JSON are parameters. \<open>None\<close> is a panic: the build checks overflow.
\<close>

section \<open>Files\<close>

type_synonym files = "string \<Rightarrow> string option"

record os =
  os_env :: environment
  os_writable :: "string \<Rightarrow> bool"
  os_removable :: "string \<Rightarrow> bool"
  os_read_msg :: "string \<Rightarrow> string"
  os_write_msg :: "string \<Rightarrow> string"
  os_canonical :: "string \<Rightarrow> string option"

definition read_to_string :: "os \<Rightarrow> files \<Rightarrow> string \<Rightarrow> string + string" where
  "read_to_string S fs p = ok_or (os_read_msg S p) (fs p)"

definition write_file :: "os \<Rightarrow> string \<Rightarrow> string \<Rightarrow> files \<Rightarrow> (string + unit) \<times> files" where
  "write_file S p t fs = (if os_writable S p then (Inr (), fs(p \<mapsto> t)) else (Inl (os_write_msg S p), fs))"

definition remove_file :: "os \<Rightarrow> string \<Rightarrow> files \<Rightarrow> files" where
  "remove_file S p fs = (if os_removable S p then fs(p := None) else fs)"

definition rename_file :: "os \<Rightarrow> string \<Rightarrow> string \<Rightarrow> files \<Rightarrow> files" where
  "rename_file S p q fs = (if os_removable S p \<and> os_writable S q then fs(q := fs p, p := None) else fs)"

text \<open>\<open>Path::join\<close>: an absolute right side replaces the left.\<close>

definition join_path :: "string \<Rightarrow> string \<Rightarrow> string" where
  "join_path d f =
     (if f \<noteq> [] \<and> hd f = CHR ''/'' then f else if d \<noteq> [] \<and> last d = CHR ''/'' then d @ f else d @ CHR ''/'' # f)"

definition passports_dir :: "environment \<Rightarrow> string" where
  "passports_dir env =
     (let home = (case env ''HOME'' of Some h \<Rightarrow> h | None \<Rightarrow> (case env ''USERPROFILE'' of Some h \<Rightarrow> h | None \<Rightarrow> ''/tmp''))
      in join_path (join_path home ''.a1'') ''passports'')"

definition path_char_ok :: "char \<Rightarrow> bool" where
  "path_char_ok c \<longleftrightarrow> (let n = of_char c :: nat in
     (48 \<le> n \<and> n \<le> 57) \<or> (65 \<le> n \<and> n \<le> 90) \<or> (97 \<le> n \<and> n \<le> 122) \<or> c = CHR ''-'' \<or> c = CHR ''_'')"

definition safe_name :: "string \<Rightarrow> string" where
  "safe_name ns = map (\<lambda>c. if path_char_ok c then c else CHR ''-'') ns"

definition passport_path :: "environment \<Rightarrow> string \<Rightarrow> string" where
  "passport_path env ns = join_path (passports_dir env) (safe_name ns @ ''.json'')"

text \<open>\<open>s.strip_suffix(c)\<close>, and a factor that overflows.\<close>

definition strip_last :: "char \<Rightarrow> string \<Rightarrow> string option" where
  "strip_last c s = (if s \<noteq> [] \<and> last s = c then Some (butlast s) else None)"

definition times_secs :: "nat \<Rightarrow> nat option \<Rightarrow> nat option option" where
  "times_secs k m = (case m of None \<Rightarrow> Some None | Some n \<Rightarrow> if n * k < 2 ^ 64 then Some (Some (n * k)) else None)"

definition ttl_str_to_secs :: "string \<Rightarrow> nat option option" where
  "ttl_str_to_secs s0 =
     (let s = str_trim s0 in
      case strip_last CHR ''d'' s of Some d \<Rightarrow> times_secs 86400 (parse_uint 64 d)
      | None \<Rightarrow> (case strip_last CHR ''h'' s of Some h \<Rightarrow> times_secs 3600 (parse_uint 64 h)
      | None \<Rightarrow> (case strip_last CHR ''m'' s of Some m \<Rightarrow> times_secs 60 (parse_uint 64 m)
      | None \<Rightarrow> (case strip_last CHR ''y'' s of Some y \<Rightarrow> times_secs 31536000 (parse_uint 64 y)
      | None \<Rightarrow> Some (parse_uint 64 s)))))"

section \<open>Passport files\<close>

text \<open>The JSON text of a passport file, and the members a reader of the text sees.\<close>

record codec =
  pf_print :: "passport_file \<Rightarrow> string"
  pf_parse :: "string \<Rightarrow> string + passport_file"
  js_parse :: "string \<Rightarrow> string + json"
  js_pretty :: "json \<Rightarrow> string"

definition passport_file_json :: "(delegation_cert \<Rightarrow> json) \<Rightarrow> passport_file \<Rightarrow> json" where
  "passport_file_json cert_json f =
     JObj [(''a1_passport'', JPosInt (ucast (pf_version f))), (''namespace'', JStr (pf_namespace f)),
           (''capability_mask_hex'', JStr (pf_mask_hex f)), (''capabilities'', JArr (map JStr (pf_capabilities f))),
           (''cert'', cert_json (pf_cert f)), (''_magic'', JStr (pf_magic f))]"

definition codec_ok :: "(delegation_cert \<Rightarrow> json) \<Rightarrow> codec \<Rightarrow> bool" where
  "codec_ok cert_json C \<longleftrightarrow> (\<forall>f. pf_parse C (pf_print C f) = Inr f \<and> js_parse C (pf_print C f) = Inr (passport_file_json cert_json f))"

definition passport_save :: "os \<Rightarrow> ext \<Rightarrow> codec \<Rightarrow> dyolo_passport \<Rightarrow> string \<Rightarrow> files \<Rightarrow> (a1_error + unit) \<times> files" where
  "passport_save S E C p path fs =
     (case write_file S path (pf_print C (passport_to_file E p)) fs of
        (Inl e, fs') \<Rightarrow> (Inl (WireFormatError e), fs')
      | (Inr u, fs') \<Rightarrow> (Inr u, fs'))"

definition passport_load :: "os \<Rightarrow> ext \<Rightarrow> codec \<Rightarrow> files \<Rightarrow> string \<Rightarrow> a1_error + dyolo_passport" where
  "passport_load S E C fs path =
     bindR (map_errR WireFormatError (read_to_string S fs path)) (\<lambda>t.
     bindR (map_errR WireFormatError (pf_parse C t)) (passport_from_file E))"

section \<open>Issuing and renewing\<close>

record issue_passport_request =
  ipr_namespace :: string
  ipr_capabilities :: "string list"
  ipr_ttl :: string
  ipr_output_path :: "string option"

record issue_passport_response =
  ips_success :: bool
  ips_namespace :: string
  ips_path :: string
  ips_public_key_hex :: string
  ips_capabilities :: "string list"
  ips_ttl_seconds :: nat
  ips_expires_at :: string
  ips_error :: "string option"

definition issue_refused :: "string \<Rightarrow> string \<Rightarrow> issue_passport_response" where
  "issue_refused ns e = \<lparr>ips_success = False, ips_namespace = ns, ips_path = [], ips_public_key_hex = [],
     ips_capabilities = [], ips_ttl_seconds = 0, ips_expires_at = [], ips_error = Some e\<rparr>"

text \<open>The path given, unless it is blank.\<close>

definition chosen_path :: "environment \<Rightarrow> string option \<Rightarrow> string \<Rightarrow> string" where
  "chosen_path env given ns =
     (case given of Some p \<Rightarrow> if str_trim p \<noteq> [] then p else passport_path env ns | None \<Rightarrow> passport_path env ns)"

definition save_issued ::
  "os \<Rightarrow> ext \<Rightarrow> codec \<Rightarrow> dyolo_passport \<Rightarrow> issue_passport_response \<Rightarrow> files \<Rightarrow> issue_passport_response \<times> files" where
  "save_issued S E C p resp fs =
     (case passport_save S E C p (ips_path resp) fs of
        (Inr _, fs') \<Rightarrow> (resp, fs')
      | (Inl e, fs') \<Rightarrow> (resp\<lparr>ips_success := False,
            ips_error := Some (''Passport issued but could not save to disk: '' @ display_error e)\<rparr>, fs'))"

text \<open>\<open>identity\<close> is the key pair generated for the passport; only its certificate is written.\<close>

definition issue_passport_handler ::
  "os \<Rightarrow> ext \<Rightarrow> codec \<Rightarrow> bytes \<Rightarrow> signer \<Rightarrow> u64 \<Rightarrow> u64 \<Rightarrow> issue_passport_request \<Rightarrow> files
     \<Rightarrow> (issue_passport_response \<times> files) option" where
  "issue_passport_handler S E C fresh identity now now' req fs =
     (let ns = str_trim (ipr_namespace req) in
      if ns = [] then Some (issue_refused ns ''Namespace cannot be empty'', fs)
      else if ipr_capabilities req = [] then Some (issue_refused ns ''At least one capability is required'', fs)
      else case ttl_str_to_secs (ipr_ttl req) of
        None \<Rightarrow> None
      | Some ttl0 \<Rightarrow>
          (case (case ttl0 of Some n \<Rightarrow> if 0 < n then Some n else None | None \<Rightarrow> None) of
             None \<Rightarrow> Some (issue_refused ns (''Invalid TTL '' @ [CHR 0x27] @ ipr_ttl req @ [CHR 0x27] @ ''. Use '' @ [CHR 0x27]
                      @ ''30d'' @ [CHR 0x27] @ '', '' @ [CHR 0x27] @ ''7d'' @ [CHR 0x27] @ '', '' @ [CHR 0x27] @ ''1y'' @ [CHR 0x27]
                      @ '', '' @ [CHR 0x27] @ ''3600'' @ [CHR 0x27] @ '' etc.''), fs)
           | Some ttl \<Rightarrow>
               (let pk_hex = hex_enc E (verifying_key identity) in
                case passport_issue E fresh ns (ipr_capabilities req) (of_nat ttl) identity now of
                  None \<Rightarrow> None
                | Some (Inl e) \<Rightarrow>
                    Some (\<lparr>ips_success = False, ips_namespace = ns, ips_path = [], ips_public_key_hex = pk_hex,
                       ips_capabilities = ipr_capabilities req, ips_ttl_seconds = ttl, ips_expires_at = [],
                       ips_error = Some (''Passport issuance failed: '' @ display_error e)\<rparr>, fs)
                | Some (Inr p) \<Rightarrow>
                    (let out_path = chosen_path (os_env S) (ipr_output_path req) ns in
                     Option.bind (checked_add now' (of_nat ttl)) (\<lambda>unix.
                     let expires_at = ''Unix timestamp: '' @ dec (unat unix) @ ''  (~'' @ dec (ttl div 86400) @ '' days from now)''
                     in Some (save_issued S E C p
                          \<lparr>ips_success = True, ips_namespace = ns, ips_path = out_path, ips_public_key_hex = pk_hex,
                           ips_capabilities = ipr_capabilities req, ips_ttl_seconds = ttl,
                           ips_expires_at = expires_at, ips_error = None\<rparr> fs))))))"

definition json_strings :: "json \<Rightarrow> string list" where
  "json_strings v = (case as_array v of Some xs \<Rightarrow> List.map_filter as_str xs | None \<Rightarrow> [])"

definition listed_capabilities :: "json \<Rightarrow> string list" where
  "listed_capabilities v = (case j_get ''capabilities'' v of Some c \<Rightarrow> json_strings c | None \<Rightarrow> [])"

record renew_passport_request =
  rpr_path :: string
  rpr_ttl :: string

definition renew_passport_handler ::
  "os \<Rightarrow> ext \<Rightarrow> codec \<Rightarrow> bytes \<Rightarrow> signer \<Rightarrow> u64 \<Rightarrow> u64 \<Rightarrow> renew_passport_request \<Rightarrow> files
     \<Rightarrow> ((string + issue_passport_response) response \<times> files) option" where
  "renew_passport_handler S E C fresh identity now now' req fs =
     (case read_to_string S fs (rpr_path req) of
        Inl e \<Rightarrow> Some ((404, Inl (''Cannot read passport at '' @ [CHR 0x27] @ rpr_path req @ [CHR 0x27] @ '': '' @ e)), fs)
      | Inr content \<Rightarrow>
          (case js_parse C content of
             Inl e \<Rightarrow> Some ((400, Inl (''Invalid passport JSON: '' @ e)), fs)
           | Inr v \<Rightarrow>
               (let ns = (case Option.bind (j_get ''namespace'' v) as_str of Some n \<Rightarrow> n | None \<Rightarrow> ''unknown'') in
                map_option (\<lambda>(r, fs'). ((200, Inr r), fs'))
                  (issue_passport_handler S E C fresh identity now now'
                     \<lparr>ipr_namespace = ns, ipr_capabilities = listed_capabilities v, ipr_ttl = rpr_ttl req,
                      ipr_output_path = Some (rpr_path req)\<rparr> fs))))"

section \<open>Listing\<close>

record passport_entry =
  pe_filename :: string
  pe_path :: string
  pe_namespace :: "string option"
  pe_capabilities :: "string list"
  pe_expiration_unix :: "int option"
  pe_status :: string
  pe_fingerprint_hex :: "string option"
  pe_days_remaining :: "int option"

definition ends_with :: "string \<Rightarrow> string \<Rightarrow> bool" where
  "ends_with s p \<longleftrightarrow> length p \<le> length s \<and> drop (length s - length p) s = p"

definition is_passport_file :: "string \<Rightarrow> bool" where
  "is_passport_file f \<longleftrightarrow> ends_with f ''.json'' \<and> \<not> ends_with f ''.bak''"

text \<open>\<open>(exp - now) / 86400\<close> on \<open>i64\<close>: the difference may overflow, the quotient goes towards zero.\<close>

definition days_left :: "int \<Rightarrow> int \<Rightarrow> int option" where
  "days_left e now =
     (let d = e - now in
      if - (2 ^ 63) \<le> d \<and> d < 2 ^ 63 then Some (if d < 0 then - ((- d) div 86400) else d div 86400) else None)"

definition list_status :: "int option \<Rightarrow> int \<Rightarrow> string" where
  "list_status e now = (case e of Some x \<Rightarrow> if now < x then ''valid'' else ''expired'' | None \<Rightarrow> ''valid'')"

text \<open>One turn of the loop: the entry to show, if there is one, and the files left.\<close>

definition list_entry ::
  "os \<Rightarrow> ext \<Rightarrow> codec \<Rightarrow> (bytes \<Rightarrow> storage_error + bool) \<Rightarrow> int \<Rightarrow> string \<Rightarrow> string \<Rightarrow> files
     \<Rightarrow> (passport_entry option \<times> files) option" where
  "list_entry S E C is_rev now path filename fs =
     (case bindR (read_to_string S fs path) (js_parse C) of
        Inl _ \<Rightarrow> Some (None, fs)
      | Inr v \<Rightarrow>
          (let expires = Option.bind (j_get ''expiration_unix'' v) as_i64 in
           Option.bind (case expires of None \<Rightarrow> Some None | Some e \<Rightarrow> map_option Some (days_left e now)) (\<lambda>days.
           let loaded = (case passport_load S E C fs path of Inr p \<Rightarrow> Some p | Inl _ \<Rightarrow> None);
               revoked = (case loaded of
                            Some p \<Rightarrow> (case is_rev (cert_fingerprint E (pp_cert p)) of Inr b \<Rightarrow> b | Inl _ \<Rightarrow> False)
                          | None \<Rightarrow> False)
           in if revoked then Some (None, remove_file S path fs)
              else Some (Some \<lparr>pe_filename = filename, pe_path = path,
                     pe_namespace = Option.bind (j_get ''namespace'' v) as_str,
                     pe_capabilities = listed_capabilities v, pe_expiration_unix = expires,
                     pe_status = list_status expires now,
                     pe_fingerprint_hex = map_option (\<lambda>p. cert_fingerprint_hex E (pp_cert p)) loaded,
                     pe_days_remaining = days\<rparr>, fs))))"

fun list_loop ::
  "os \<Rightarrow> ext \<Rightarrow> codec \<Rightarrow> (bytes \<Rightarrow> storage_error + bool) \<Rightarrow> int \<Rightarrow> (string \<times> string) list \<Rightarrow> files
     \<Rightarrow> (passport_entry list \<times> files) option" where
  "list_loop S E C is_rev now [] fs = Some ([], fs)"
| "list_loop S E C is_rev now ((path, filename) # es) fs =
     (case list_entry S E C is_rev now path filename fs of
        None \<Rightarrow> None
      | Some (x, fs') \<Rightarrow>
          map_option (\<lambda>(xs, fs''). (case x of Some e \<Rightarrow> e # xs | None \<Rightarrow> xs, fs'')) (list_loop S E C is_rev now es fs'))"

text \<open>\<open>names\<close> is what \<open>read_dir\<close> gives for the directory.\<close>

definition list_passports_handler ::
  "os \<Rightarrow> ext \<Rightarrow> codec \<Rightarrow> (bytes \<Rightarrow> storage_error + bool) \<Rightarrow> u64 \<Rightarrow> string list \<Rightarrow> files
     \<Rightarrow> ((passport_entry list \<times> string) \<times> files) option" where
  "list_passports_handler S E C is_rev now names fs =
     (let dir = passports_dir (os_env S);
          entries = map (\<lambda>f. (join_path dir f, f)) (filter is_passport_file names)
      in map_option (\<lambda>(es, fs'). ((es, dir), fs')) (list_loop S E C is_rev (sint now) entries fs))"

section \<open>Revoking by namespace\<close>

record revoke_by_namespace_request =
  rnr_namespace :: string
  rnr_passport_path :: "string option"

record revoke_by_namespace_response =
  rns_success :: bool
  rns_namespace :: string
  rns_fingerprint_hex :: "string option"
  rns_error :: "string option"

text \<open>\<open>revoke\<close> is the revocation store's own operation, on its state \<open>rs\<close>.\<close>

definition revoke_by_namespace_handler ::
  "os \<Rightarrow> ext \<Rightarrow> codec \<Rightarrow> (bytes \<Rightarrow> 'r \<Rightarrow> (storage_error + unit) \<times> 'r) \<Rightarrow> revoke_by_namespace_request \<Rightarrow> files \<Rightarrow> 'r
     \<Rightarrow> revoke_by_namespace_response \<times> files \<times> 'r" where
  "revoke_by_namespace_handler S E C revoke req fs rs =
     (let ns = str_trim (rnr_namespace req);
          answer = (\<lambda>ok fp e. \<lparr>rns_success = ok, rns_namespace = ns, rns_fingerprint_hex = fp, rns_error = e\<rparr>) in
      if ns = [] then (answer False None (Some ''Namespace cannot be empty''), fs, rs)
      else let path = chosen_path (os_env S) (rnr_passport_path req) ns in
        case passport_load S E C fs path of
          Inl e \<Rightarrow> (answer False None (Some (''Could not load passport at '' @ [CHR 0x27] @ path @ [CHR 0x27] @ '': ''
                      @ display_error e)), fs, rs)
        | Inr p \<Rightarrow>
            (let fp = cert_fingerprint E (pp_cert p); fp_hex = hex_enc E fp in
             case revoke fp rs of
               (Inl e, rs') \<Rightarrow> (answer False (Some fp_hex) (Some (''Revocation store error: '' @ display_storage_error e)), fs, rs')
             | (Inr _, rs') \<Rightarrow> (answer True (Some fp_hex) None, remove_file S path fs, rs')))"

section \<open>Reading and restoring\<close>

text \<open>\<open>Path::starts_with\<close> compares whole components.\<close>

definition path_starts_with :: "string \<Rightarrow> string \<Rightarrow> bool" where
  "path_starts_with p d \<longleftrightarrow> starts_with p d \<and> (length p = length d \<or> p ! length d = CHR ''/'' \<or> (d \<noteq> [] \<and> last d = CHR ''/''))"

definition read_passport_handler :: "os \<Rightarrow> codec \<Rightarrow> string option \<Rightarrow> files \<Rightarrow> (string + json) response" where
  "read_passport_handler S C given fs =
     (case given of
        None \<Rightarrow> (400, Inl ''path required'')
      | Some p \<Rightarrow>
          if p = [] then (400, Inl ''path required'')
          else (case os_canonical S p of
                  None \<Rightarrow> (404, Inl ''file not found'')
                | Some canonical \<Rightarrow>
                    if \<not> path_starts_with canonical (passports_dir (os_env S)) then (403, Inl ''access denied'')
                    else (case bindR (read_to_string S fs canonical) (js_parse C) of
                            Inr v \<Rightarrow> (200, Inr v)
                          | Inl _ \<Rightarrow> (422, Inl ''invalid passport file''))))"

record restore_passport =
  rp_path :: "string option"
  rp_namespace :: "string option"
  rp_content :: json

fun contains :: "string \<Rightarrow> string \<Rightarrow> bool" where
  "contains [] p \<longleftrightarrow> p = []"
| "contains (c # s) p \<longleftrightarrow> starts_with (c # s) p \<or> contains s p"

text \<open>\<open>Path::file_name\<close> of a path in normal form: its last component, unless that is \<open>..\<close> or there is none.\<close>

definition file_name :: "string \<Rightarrow> string option" where
  "file_name p = (let f = last (split_all CHR ''/'' p) in if f = [] \<or> f = ''..'' then None else Some f)"

definition restore_name :: "nat \<Rightarrow> restore_passport \<Rightarrow> string" where
  "restore_name n pp =
     (case rp_namespace pp of Some ns \<Rightarrow> ns @ ''.json''
      | None \<Rightarrow> (case Option.bind (rp_path pp) file_name of Some f \<Rightarrow> f | None \<Rightarrow> ''restored-'' @ dec n @ ''.json''))"

definition restore_name_ok :: "string \<Rightarrow> bool" where
  "restore_name_ok f \<longleftrightarrow> ends_with f ''.json'' \<and> \<not> contains f ''..'' \<and> CHR ''/'' \<notin> set f"

text \<open>
  One backup: an existing file is moved aside. \<open>with_extension("json.bak")\<close> replaces \<open>json\<close>, except that
  a name that is \<open>.json\<close> alone has no extension and gets one.
\<close>

definition restore_one :: "os \<Rightarrow> codec \<Rightarrow> string \<Rightarrow> string \<Rightarrow> json \<Rightarrow> files \<Rightarrow> bool \<times> files" where
  "restore_one S C dir filename content fs =
     (let dest = join_path dir filename;
          bak = join_path dir ((if filename = ''.json'' then filename @ ''.'' else take (length filename - 4) filename) @ ''json.bak'');
          fs1 = (if fs dest \<noteq> None then rename_file S dest bak fs else fs)
      in case write_file S dest (js_pretty C content) fs1 of (Inr _, fs') \<Rightarrow> (True, fs') | (Inl _, fs') \<Rightarrow> (False, fs'))"

fun restore_loop :: "os \<Rightarrow> codec \<Rightarrow> string \<Rightarrow> restore_passport list \<Rightarrow> nat \<Rightarrow> nat \<Rightarrow> files \<Rightarrow> (nat \<times> nat) \<times> files" where
  "restore_loop S C dir [] restored skipped fs = ((restored, skipped), fs)"
| "restore_loop S C dir (pp # pps) restored skipped fs =
     (let filename = restore_name (restored + skipped) pp in
      if \<not> restore_name_ok filename then restore_loop S C dir pps restored (skipped + 1) fs
      else case restore_one S C dir filename (rp_content pp) fs of
             (True, fs') \<Rightarrow> restore_loop S C dir pps (restored + 1) skipped fs'
           | (False, fs') \<Rightarrow> restore_loop S C dir pps restored (skipped + 1) fs')"

text \<open>\<open>dir_err\<close> is the error of creating the directory, if that fails.\<close>

definition restore_passports_handler ::
  "os \<Rightarrow> codec \<Rightarrow> string option \<Rightarrow> restore_passport list \<Rightarrow> files \<Rightarrow> (string + nat \<times> nat) \<times> files" where
  "restore_passports_handler S C dir_err pps fs =
     (case dir_err of
        Some e \<Rightarrow> (Inl (''Cannot create passports dir: '' @ e), fs)
      | None \<Rightarrow> (case restore_loop S C (passports_dir (os_env S)) pps 0 0 fs of (counts, fs') \<Rightarrow> (Inr counts, fs')))"

section \<open>Properties\<close>

text \<open>A path made from a namespace is a file of the directory itself, whatever the namespace holds.\<close>

lemma safe_name_chars: "c \<in> set (safe_name ns) \<Longrightarrow> path_char_ok c"
  by (auto simp: safe_name_def path_char_ok_def Let_def)

lemma path_char_plain: "path_char_ok c \<Longrightarrow> c \<noteq> CHR ''/'' \<and> c \<noteq> CHR ''.''"
  by (auto simp: path_char_ok_def)

lemma slash_notin_safe: "CHR ''/'' \<notin> set (safe_name ns @ ''.json'')"
  using safe_name_chars path_char_plain by fastforce

lemma safe_name_id: "list_all path_char_ok ns \<Longrightarrow> safe_name ns = ns"
  by (induction ns) (simp_all add: safe_name_def)

text \<open>Two namespaces that differ in a character that is not kept share one file.\<close>

lemma passport_path_collides: "passport_path env ''a.b'' = passport_path env ''a b''"
  by (simp add: passport_path_def safe_name_def path_char_ok_def)

text \<open>A suffix scales the number; a product outside 64 bits stops the process.\<close>

lemma ttl_days: "ttl_str_to_secs ''30d'' = Some (Some 2592000)"
  by (simp add: ttl_str_to_secs_def str_trim_def is_ws_def strip_last_def times_secs_def parse_uint_def Let_def)
lemma ttl_years: "ttl_str_to_secs ''1y'' = Some (Some 31536000)"
  by (simp add: ttl_str_to_secs_def str_trim_def is_ws_def strip_last_def times_secs_def parse_uint_def Let_def)
lemma ttl_overflow: "ttl_str_to_secs ''1000000000000y'' = None"
  by (simp add: ttl_str_to_secs_def str_trim_def is_ws_def strip_last_def times_secs_def parse_uint_def Let_def)

lemma times_secs_bound: "times_secs k m = Some (Some n) \<Longrightarrow> m = Some x \<Longrightarrow> n = x * k \<and> n < 2 ^ 64"
  by (auto simp: times_secs_def split: if_splits option.splits)

lemma parse_uint_bound: "parse_uint w s = Some n \<Longrightarrow> n < 2 ^ w"
  by (auto simp: parse_uint_def Let_def split: if_splits option.splits)

lemma times_secs_less: "times_secs k m = Some (Some n) \<Longrightarrow> n < 2 ^ 64"
  by (cases m) (auto simp: times_secs_def split: if_splits)

lemma ttl_bound: "ttl_str_to_secs s = Some (Some n) \<Longrightarrow> n < 2 ^ 64"
  by (auto simp: ttl_str_to_secs_def Let_def split: option.splits dest: times_secs_less parse_uint_bound)

text \<open>
  A passport that is reported as issued is on disk under the reported path, loads again, and is the
  one asked for, under the generated key and with the time asked for.
\<close>

lemma passport_save_load:
  assumes "codec_ok cj C" "hex_ok E" "mask_wf (capability_mask p)" "passport_save S E C p path fs = (Inr (), fs')"
  shows "passport_load S E C fs' path = Inr p \<and> fs' = fs(path \<mapsto> pf_print C (passport_to_file E p))"
  using assms by (auto simp: passport_save_def passport_load_def write_file_def read_to_string_def codec_ok_def
      result_simps passport_file_roundtrip split: if_splits sum.splits prod.splits)

lemma issue_passport_success:
  assumes ok: "codec_ok cj C" "hex_ok E"
    and run: "issue_passport_handler S E C fresh identity now now' req fs = Some (r, fs')" and s: "ips_success r"
  shows "\<exists>p n. ttl_str_to_secs (ipr_ttl req) = Some (Some n) \<and> 0 < n
    \<and> passport_issue E fresh (str_trim (ipr_namespace req)) (ipr_capabilities req) (of_nat n) identity now = Some (Inr p)
    \<and> ips_path r = chosen_path (os_env S) (ipr_output_path req) (str_trim (ipr_namespace req))
    \<and> passport_load S E C fs' (ips_path r) = Inr p
    \<and> fs' = fs(ips_path r \<mapsto> pf_print C (passport_to_file E p))"
proof -
  let ?ns = "str_trim (ipr_namespace req)" and ?path = "chosen_path (os_env S) (ipr_output_path req) (str_trim (ipr_namespace req))"
  from run s obtain n where n: "ttl_str_to_secs (ipr_ttl req) = Some (Some n)" "0 < n"
    by (auto simp: issue_passport_handler_def issue_refused_def Let_def split: if_splits option.splits)
  let ?issue = "passport_issue E fresh ?ns (ipr_capabilities req) (of_nat n) identity now"
  from run s n obtain p where p: "?issue = Some (Inr p)"
    by (cases ?issue) (auto simp: issue_passport_handler_def issue_refused_def Let_def split: if_splits sum.splits)
  with run s n have "\<exists>resp. save_issued S E C p resp fs = (r, fs') \<and> ips_path resp = ?path"
    by (auto simp: issue_passport_handler_def issue_refused_def Let_def bind_eq_Some_conv split: if_splits)
  then obtain resp where "save_issued S E C p resp fs = (r, fs')" "ips_path resp = ?path" by blast
  with s have v: "passport_save S E C p ?path fs = (Inr (), fs')" and path: "ips_path r = ?path"
    by (auto simp: save_issued_def split: prod.splits sum.splits)
  have "passport_wf E p" using p issue_inner_Inr(1) by (auto simp: passport_issue_def)
  then have "mask_wf (capability_mask p)" using from_capabilities_spec by (auto simp: passport_wf_def)
  from passport_save_load [OF ok this v] n p path show ?thesis by auto
qed

lemma renew_keeps_identity_fields:
  assumes ok: "codec_ok cj C" "hex_ok E" and old: "fs (rpr_path req) = Some (pf_print C (passport_to_file E p))"
    and run: "renew_passport_handler S E C fresh identity now now' req fs = Some ((st, Inr r), fs')" and s: "ips_success r"
    and blank: "str_trim (rpr_path req) \<noteq> []"
  shows "\<exists>q. passport_load S E C fs' (rpr_path req) = Inr q \<and> pp_namespace q = str_trim (pp_namespace p)
    \<and> pp_capabilities q = pp_capabilities p \<and> delegator_pk (pp_cert q) = verifying_key identity"
proof -
  have caps: "listed_capabilities (passport_file_json cj (passport_to_file E p)) = pp_capabilities p"
    by (simp add: listed_capabilities_def passport_file_json_def json_strings_def passport_to_file_def
        List.map_filter_def comp_def)
  have ns: "Option.bind (j_get ''namespace'' (passport_file_json cj (passport_to_file E p))) as_str = Some (pp_namespace p)"
    by (simp add: passport_file_json_def passport_to_file_def)
  let ?req = "\<lparr>ipr_namespace = pp_namespace p, ipr_capabilities = pp_capabilities p, ipr_ttl = rpr_ttl req,
    ipr_output_path = Some (rpr_path req)\<rparr>"
  have "js_parse C (pf_print C (passport_to_file E p)) = Inr (passport_file_json cj (passport_to_file E p))"
    using ok(1) by (simp add: codec_ok_def)
  then have "issue_passport_handler S E C fresh identity now now' ?req fs = Some (r, fs')"
    using run old caps ns by (auto simp: renew_passport_handler_def read_to_string_def ok_or_def split: option.splits)
  from issue_passport_success [OF ok this s] obtain q n where
    q: "passport_issue E fresh (str_trim (pp_namespace p)) (pp_capabilities p) (of_nat n) identity now = Some (Inr q)"
      "ips_path r = chosen_path (os_env S) (Some (rpr_path req)) (str_trim (pp_namespace p))"
      "passport_load S E C fs' (ips_path r) = Inr q" by auto
  moreover have "ips_path r = rpr_path req" using q(2) blank by (simp add: chosen_path_def)
  ultimately show ?thesis using issue_inner_Inr(2-4) [of E fresh _ _ _ identity now q] by (auto simp: passport_issue_def)
qed

text \<open>
  A file written by \<open>save\<close> has no member \<open>expiration_unix\<close>: the list calls every such passport valid,
  with no days to show, however old its certificate is.
\<close>

lemma listed_never_expired:
  assumes "codec_ok cj C" "fs path = Some (pf_print C f)" "list_entry S E C is_rev now path filename fs = Some (Some e, fs')"
  shows "pe_status e = ''valid'' \<and> pe_expiration_unix e = None \<and> pe_days_remaining e = None"
proof -
  have "j_get ''expiration_unix'' (passport_file_json cj f) = None"
    by (simp add: passport_file_json_def)
  moreover have "js_parse C (pf_print C f) = Inr (passport_file_json cj f)" using assms(1) by (simp add: codec_ok_def)
  ultimately show ?thesis
    using assms(2,3) by (auto simp: list_entry_def read_to_string_def ok_or_def result_simps list_status_def Let_def
        split: if_splits option.splits)
qed

text \<open>Listing removes a file only when it holds a passport whose certificate the store calls revoked.\<close>

lemma list_entry_files:
  assumes "list_entry S E C is_rev now path filename fs = Some (x, fs')" "fs' q \<noteq> fs q"
  shows "q = path \<and> fs' q = None \<and> (\<exists>p. passport_load S E C fs q = Inr p \<and> is_rev (cert_fingerprint E (pp_cert p)) = Inr True)"
  using assms by (auto simp: list_entry_def remove_file_def Let_def bind_eq_Some_conv split: if_splits option.splits sum.splits)

lemma load_cong: "fs q = fs' q \<Longrightarrow> passport_load S E C fs q = passport_load S E C fs' q"
  by (simp add: passport_load_def read_to_string_def)

lemma list_loop_files:
  assumes "list_loop S E C is_rev now entries fs = Some (es, fs')" "fs' q \<noteq> fs q"
  shows "q \<in> fst ` set entries \<and> fs' q = None
    \<and> (\<exists>p. passport_load S E C fs q = Inr p \<and> is_rev (cert_fingerprint E (pp_cert p)) = Inr True)"
  using assms
proof (induction entries arbitrary: fs es)
  case Nil
  then show ?case by simp
next
  case (Cons en entries)
  obtain path f where en: "en = (path, f)" by (cases en)
  with Cons.prems obtain x fs1 es1 where one: "list_entry S E C is_rev now path f fs = Some (x, fs1)"
    and rest: "list_loop S E C is_rev now entries fs1 = Some (es1, fs')"
    by (auto split: option.splits)
  show ?case
  proof (cases "fs1 q = fs q")
    case True
    with Cons.IH [OF rest] Cons.prems(2) load_cong [of fs1 q fs] show ?thesis by auto
  next
    case False
    from list_entry_files [OF one this] have h: "q = path" "fs1 q = None"
      "\<exists>p. passport_load S E C fs q = Inr p \<and> is_rev (cert_fingerprint E (pp_cert p)) = Inr True" by auto
    have "fs' q = None"
      using Cons.IH [OF rest] h(2) by (cases "fs' q = fs1 q") auto
    with h en show ?thesis by auto
  qed
qed

text \<open>An answer that says revoked: the store has the certificate of the file that was there.\<close>

lemma revoke_by_namespace_success:
  assumes "revoke_by_namespace_handler S E C revoke req fs rs = (r, fs', rs')" "rns_success r"
  shows "\<exists>p. passport_load S E C fs (chosen_path (os_env S) (rnr_passport_path req) (str_trim (rnr_namespace req))) = Inr p
    \<and> revoke (cert_fingerprint E (pp_cert p)) rs = (Inr (), rs')
    \<and> rns_fingerprint_hex r = Some (hex_enc E (cert_fingerprint E (pp_cert p)))"
  using assms by (auto simp: revoke_by_namespace_handler_def Let_def split: if_splits sum.splits prod.splits)

lemma revoke_by_namespace_revokes:
  assumes "mem_rev_inv rs" "revoke_by_namespace_handler S E C (\<lambda>fp s. mem_revoke s fp) req fs rs = (r, fs', rs')" "rns_success r"
  shows "\<exists>p. passport_load S E C fs (chosen_path (os_env S) (rnr_passport_path req) (str_trim (rnr_namespace req))) = Inr p
    \<and> mem_rev_inv rs' \<and> mem_is_revoked rs' (cert_fingerprint E (pp_cert p)) = Inr True"
proof -
  from revoke_by_namespace_success [OF assms(2,3)] obtain p where
    p: "passport_load S E C fs (chosen_path (os_env S) (rnr_passport_path req) (str_trim (rnr_namespace req))) = Inr p"
       "mem_revoke rs (cert_fingerprint E (pp_cert p)) = (Inr (), rs')" by auto
  with mem_revoke_spec [OF assms(1), of "cert_fingerprint E (pp_cert p)"]
  have "mem_rev_inv rs'" "revoked_set rs' = insert (cert_fingerprint E (pp_cert p)) (revoked_set rs)" by auto
  with p(1) show ?thesis by (auto simp: mem_is_revoked_spec)
qed

text \<open>Reading is confined to the directory.\<close>

lemma read_passport_confined:
  assumes "read_passport_handler S C given fs = (200, a)"
  shows "\<exists>p canonical t v. given = Some p \<and> os_canonical S p = Some canonical
    \<and> path_starts_with canonical (passports_dir (os_env S)) \<and> fs canonical = Some t \<and> js_parse C t = Inr v \<and> a = Inr v"
proof -
  from assms obtain p canonical where "given = Some p" "os_canonical S p = Some canonical"
    "path_starts_with canonical (passports_dir (os_env S))"
    "(case bindR (read_to_string S fs canonical) (js_parse C) of Inr v \<Rightarrow> (200, Inr v) | Inl _ \<Rightarrow> (422, Inl ''invalid passport file''))
      = (200::nat, a)"
    by (auto simp: read_passport_handler_def split: if_splits option.splits)
  then show ?thesis
    by (auto simp: read_to_string_def ok_or_def result_simps split: sum.splits option.splits)
qed

text \<open>Restoring writes only files of the directory itself.\<close>

definition in_dir :: "string \<Rightarrow> string \<Rightarrow> bool" where
  "in_dir dir q \<longleftrightarrow> (\<exists>f. q = join_path dir f \<and> CHR ''/'' \<notin> set f)"

lemma restore_one_files:
  assumes "restore_one S C dir f v fs = (ok, fs')" "CHR ''/'' \<notin> set f" "fs' q \<noteq> fs q"
  shows "in_dir dir q"
proof -
  have a: "in_dir dir (join_path dir f)" using assms(2) by (auto simp: in_dir_def)
  have "CHR ''/'' \<notin> set ((if f = ''.json'' then f @ ''.'' else take (length f - 4) f) @ ''json.bak'')"
    using assms(2) by (auto dest: in_set_takeD)
  then have b: "in_dir dir (join_path dir ((if f = ''.json'' then f @ ''.'' else take (length f - 4) f) @ ''json.bak''))"
    unfolding in_dir_def by blast
  from assms(1,3) a b show ?thesis
    unfolding restore_one_def Let_def write_file_def rename_file_def
    by (auto split: if_splits)
qed

lemma restore_loop_files:
  "restore_loop S C dir pps n k fs = (r, fs') \<Longrightarrow> fs' q \<noteq> fs q \<Longrightarrow> in_dir dir q"
proof (induction S C dir pps n k fs rule: restore_loop.induct)
  case (2 S C dir pp pps n k fs)
  let ?f = "restore_name (n + k) pp"
  show ?case
  proof (cases "restore_name_ok ?f")
    case False
    with 2 show ?thesis by simp
  next
    case True
    obtain ok fs1 where o: "restore_one S C dir ?f (rp_content pp) fs = (ok, fs1)"
      by (cases "restore_one S C dir ?f (rp_content pp) fs")
    have s: "CHR ''/'' \<notin> set ?f" using True by (simp add: restore_name_ok_def)
    show ?thesis
    proof (cases "fs1 q = fs q")
      case False
      with restore_one_files [OF o s] show ?thesis by simp
    next
      case fs1: True
      show ?thesis using 2 True o fs1 by (cases ok) (auto simp: Let_def)
    qed
  qed
qed simp

lemma restore_loop_counts: "restore_loop S C dir pps n k fs = ((n', k'), fs') \<Longrightarrow> n' + k' = n + k + length pps"
  by (induction S C dir pps n k fs rule: restore_loop.induct)
    (auto simp: Let_def split: if_splits prod.splits bool.splits)

end
