(* ===== verification/A1_GwSystem.thy ===== *)
theory A1_GwSystem
  imports A1_GwPassports A1_GwOps
begin

text \<open>
  The rest of \<open>a1-gateway/src/routes/passports.rs\<close>: the explanation of errors, the installation of the
  gateway as a service on each operating system, and the \<open>.gitignore\<close> helper. Commands that are run are
  listed with their arguments; only the one whose outcome the code reads is a parameter.
\<close>

section \<open>Explaining errors\<close>

record explain_entry =
  ee_plain :: string
  ee_cause :: string
  ee_fix :: string
  ee_steps :: "string list"
  ee_fix_type :: string
  ee_severity :: string

text \<open>The chain of conditions, in its order: the texts looked for, the code, and the entry.\<close>

definition explain_rules :: "(string list \<times> string option \<times> explain_entry) list" where
  "explain_rules =
    [([''capability not granted'', ''capabilitynotgranted''], Some ''E4003'',
      \<lparr>ee_plain = ''Your agent tried to do something it's not allowed to do.'',
      ee_cause = ''The capability is not listed in the agent's passport. The passport was issued without this permission.'',
      ee_fix = ''Go to 'Protect My Agent', add the missing capability, and issue a new passport.'',
      ee_steps = [''Open the 'Protect My Agent' tab from the sidebar.'',
        ''Add the missing capability (e.g. 'trade.equity') to the capabilities list.'',
        ''Issue a new passport '' @ [CHR 0xE2, CHR 0x80, CHR 0x94] @ '' the wizard saves a new passport.json.'',
        ''Restart your agent so it picks up the updated passport.''],
      ee_fix_type = ''capability'', ee_severity = ''medium''\<rparr>),
     ([''expired'', ''certificate expired''], Some ''E4010'',
      \<lparr>ee_plain = ''Your agent's authorization has expired.'',
      ee_cause = ''The passport or delegation certificate reached its expiry date (TTL elapsed).'',
      ee_fix = ''Open the Passport Vault and click Renew next to the expired agent.'',
      ee_steps = [''Open the 'Passport Vault' tab from the sidebar.'',
        ''Find the expired passport (shown with a red badge).'',
        ''Select a new expiry duration from the dropdown, then click Renew.'',
        ''Restart your agent '' @ [CHR 0xE2, CHR 0x80, CHR 0x94] @ '' it will pick up the renewed passport automatically.''],
      ee_fix_type = ''expired'', ee_severity = ''high''\<rparr>),
     ([''revoked''], Some ''E4012'',
      \<lparr>ee_plain = ''This agent's access was revoked.'',
      ee_cause = ''The certificate was explicitly revoked, or the passport file was manually removed.'',
      ee_fix = ''Issue a new passport via 'Protect My Agent'.'',
      ee_steps = [''Open 'Protect My Agent' and create a new passport with the same agent name.'',
        ''Update the passport path in your agent configuration.'',
        ''Restart your agent.'',
        ''If you didn't revoke this yourself, review who has gateway admin access.''],
      ee_fix_type = ''revoked'', ee_severity = ''high''\<rparr>),
     ([''narrowing'', ''narrowing violation''], None,
      \<lparr>ee_plain = ''An agent tried to grant a sub-agent more permissions than it has.'',
      ee_cause = ''Delegation narrowing enforcement: a parent agent cannot delegate capabilities it was not itself granted.'',
      ee_fix = ''Reduce the sub-agent's requested capabilities to a strict subset of the parent's.'',
      ee_steps = [''Check what capabilities the parent agent's passport contains.'',
        ''Open 'Protect My Agent' and re-issue the sub-agent's passport.'',
        ''Ensure the sub-agent's capabilities are a subset of the parent's list.'',
        ''Restart both agents after updating their passports.''],
      ee_fix_type = ''narrowing'', ee_severity = ''medium''\<rparr>),
     ([''replay'', ''nonce''], Some ''E4011'',
      \<lparr>ee_plain = ''A1 blocked a duplicate request.'',
      ee_cause = ''The same authorization nonce was seen twice. This prevents replay attacks.'',
      ee_fix = ''Ensure your agent generates a fresh nonce for every request.'',
      ee_steps = [''This usually resolves itself '' @ [CHR 0xE2, CHR 0x80, CHR 0x94] @ '' the A1 SDK generates fresh nonces automatically.'',
        ''If it keeps happening, check your agent code for request caching or retries that reuse the same payload.'',
        ''Ensure you are not manually constructing nonces or reusing authorization tokens.''],
      ee_fix_type = ''nonce'', ee_severity = ''low''\<rparr>),
     ([''signature'', ''invalid signature''], Some ''E4001'',
      \<lparr>ee_plain = ''The agent's cryptographic identity could not be verified.'',
      ee_cause = ''The delegation certificate signature is invalid '' @ [CHR 0xE2, CHR 0x80, CHR 0x94] @ '' usually a corrupted or wrong passport file.'',
      ee_fix = ''Re-issue the passport via 'Protect My Agent' and make sure your agent loads the new file.'',
      ee_steps = [''Open 'Protect My Agent' and issue a fresh passport for this agent.'',
        ''Make sure the passport.json path in your agent config matches the newly issued file.'',
        ''Delete any old passport.json files that might be getting loaded by mistake.'',
        ''Restart your agent.''],
      ee_fix_type = ''signature'', ee_severity = ''high''\<rparr>),
     ([''missing chain'', ''missing signed chain''], Some ''E4002'',
      \<lparr>ee_plain = ''A1 received a request with no delegation chain attached.'',
      ee_cause = ''The agent did not include the signed_chain in its authorization request. The A1 integration code may be incomplete.'',
      ee_fix = ''Run the AI Integration Assistant to re-patch your agent's tool files.'',
      ee_steps = [''Open the 'AI Integration' tab from the sidebar.'',
        ''Select your framework and let the assistant patch your tool files.'',
        ''The @a1_guard / withDyoloPassport decorators inject the chain automatically.'',
        ''Restart your agent and retry the action.''],
      ee_fix_type = ''chain'', ee_severity = ''medium''\<rparr>),
     ([''namespace''], Some ''E4005'',
      \<lparr>ee_plain = ''The agent used a passport issued for a different namespace.'',
      ee_cause = ''The passport namespace in the file doesn't match what the gateway expects. Usually a wrong file path.'',
      ee_fix = ''Check which passport.json your agent is loading and ensure it matches this agent's namespace.'',
      ee_steps = [''Open the 'Passport Vault' and check the namespace on each passport.'',
        ''In your agent config, verify the passport_path points to the correct file.'',
        ''If needed, re-issue a fresh passport for this specific agent namespace.''],
      ee_fix_type = ''namespace'', ee_severity = ''medium''\<rparr>),
     ([''gateway'', ''connection refused'', ''econnrefused''], None,
      \<lparr>ee_plain = ''A1 is not running.'',
      ee_cause = ''The A1 gateway process stopped '' @ [CHR 0xE2, CHR 0x80, CHR 0x94] @ '' after a reboot, terminal close, or crash.'',
      ee_fix = ''Go to the 'Start / Stop' tab and start A1.'',
      ee_steps = [''Open the 'Start / Stop' tab from the sidebar.'',
        ''Click 'Start A1' and run the command shown in your terminal.'',
        ''Enable 'Auto-start on login' so this doesn't happen again after reboots.'',
        ''Once the green dot appears, retry your agent's action.''],
      ee_fix_type = ''gateway'', ee_severity = ''high''\<rparr>),
     ([''rate limit''], Some ''E4029'',
      \<lparr>ee_plain = ''Your agent is sending requests too fast.'',
      ee_cause = ''The gateway's per-IP rate limit was exceeded. Default is 500 req/s.'',
      ee_fix = ''Reduce request frequency in your agent code, or increase A1_RATE_LIMIT_RPS.'',
      ee_steps = [''Add throttling or backoff logic to your agent's tool calls.'',
        ''For high-volume deployments, set A1_RATE_LIMIT_RPS=2000 in gateway environment variables.'',
        ''Batch authorization calls where possible using POST /v1/authorize/batch.''],
      ee_fix_type = ''rate'', ee_severity = ''low''\<rparr>),
     ([''depth'', ''max depth''], Some ''E4007'',
      \<lparr>ee_plain = ''The delegation chain is too long.'',
      ee_cause = ''Too many agents delegated to each other in sequence '' @ [CHR 0xE2, CHR 0x80, CHR 0x94] @ '' chain depth limit reached.'',
      ee_fix = ''Reduce the number of delegation hops in your agent architecture.'',
      ee_steps = [''Most setups need only 1-2 levels: human '' @ [CHR 0xE2, CHR 0x86, CHR 0x92] @ '' orchestrator '' @ [CHR 0xE2, CHR 0x86, CHR 0x92] @ '' executor.'',
        ''Refactor so orchestrators delegate directly to final executors instead of chaining through intermediaries.'',
        ''If deeper chains are needed, increase A1_MAX_CHAIN_DEPTH in gateway config.''],
      ee_fix_type = ''chain'', ee_severity = ''medium''\<rparr>)]"

definition explain_default :: explain_entry where
  "explain_default = \<lparr>ee_plain = ''An authorization error occurred.'',
      ee_cause = ''The exact cause is unclear from the error message alone.'',
      ee_fix = ''Check the Live Log for the full request and response JSON.'',
      ee_steps = [''Open the 'Live Log' tab in A1 Studio.'',
        ''Find the failed request and expand it to see the full response JSON.'',
        ''Look for the 'error_code' field and paste it into this Error Help form.''],
      ee_fix_type = ''unknown'', ee_severity = ''unknown''\<rparr>"

definition rule_applies :: "string \<Rightarrow> string \<Rightarrow> string list \<times> string option \<times> explain_entry \<Rightarrow> bool" where
  "rule_applies err code r = (case r of (needles, c, _) \<Rightarrow> list_ex (contains err) needles \<or> c = Some code)"

definition explain_error_handler :: "string \<Rightarrow> string option \<Rightarrow> explain_entry" where
  "explain_error_handler error error_code0 =
     (let err = str_lower error; code = map upper_char (set_or [] error_code0) in
      case find (rule_applies err code) explain_rules of Some (_, _, e) \<Rightarrow> e | None \<Rightarrow> explain_default)"

section \<open>Starting with the system\<close>

datatype platform = MacOS | Linux | Windows | OtherOS

type_synonym command = "string \<times> string list"

record autostart_response =
  at_success :: bool
  at_method :: string
  at_path :: "string option"
  at_message :: string
  at_error :: "string option"

definition gw_bin_path :: "environment \<Rightarrow> string" where
  "gw_bin_path env = set_or ''~'' (env ''HOME'') @ ''/.a1/bin/a1-gateway''"

definition log_file_path :: "environment \<Rightarrow> string" where
  "log_file_path env = set_or ''~'' (env ''HOME'') @ ''/.a1/logs/gateway.log''"

definition plist_text :: "string \<Rightarrow> string \<Rightarrow> string" where
  "plist_text gw_bin log_file =
     (
       ''<?xml version='' @ [CHR 0x22] @ ''1.0'' @ [CHR 0x22] @ '' encoding='' @ [CHR 0x22] @ ''UTF-8'' @ [CHR 0x22] @ ''?>'' @ 
       nl @ 
       ''<!DOCTYPE plist PUBLIC '' @ [CHR 0x22] @ ''-//Apple//DTD PLIST 1.0//EN'' @ [CHR 0x22] @ '' '' @ [CHR 0x22] @ ''http://www.apple.com/DTDs/PropertyList-1.0.dtd'' @ [CHR 0x22] @ ''>'' @ 
       nl @ ''<plist version='' @ [CHR 0x22] @ ''1.0'' @ [CHR 0x22] @ ''>'' @ nl @ ''<dict>'' @ nl @ 
       ''    <key>Label</key>'' @ nl @ ''    <string>com.dyolo.a1-gateway</string>'' @ nl @ 
       ''    <key>ProgramArguments</key>'' @ nl @ ''    <array>'' @ nl @ ''        <string>'' @ gw_bin @ 
       ''</string>'' @ nl @ ''    </array>'' @ nl @ ''    <key>RunAtLoad</key>'' @ nl @ ''    <true/>'' @ nl @ 
       ''    <key>KeepAlive</key>'' @ nl @ ''    <true/>'' @ nl @ ''    <key>StandardOutPath</key>'' @ nl @ 
       ''    <string>'' @ log_file @ ''</string>'' @ nl @ ''    <key>StandardErrorPath</key>'' @ nl @ 
       ''    <string>'' @ log_file @ ''</string>'' @ nl @ ''    <key>EnvironmentVariables</key>'' @ nl @ 
       ''    <dict>'' @ nl @ ''        <key>RUST_LOG</key>'' @ nl @ ''        <string>a1_gateway=info</string>'' @ nl @ 
       ''    </dict>'' @ nl @ ''</dict>'' @ nl @ ''</plist>'')"

definition unit_text :: "string \<Rightarrow> string \<Rightarrow> string" where
  "unit_text gw_bin log_file =
     (''[Unit]'' @ nl @ ''Description=A1 Gateway '' @ [CHR 0xE2, CHR 0x80, CHR 0x94] @ '' Know Your Agent'' @ nl @ 
       ''After=network.target'' @ nl @ nl @ ''[Service]'' @ nl @ ''ExecStart='' @ gw_bin @ nl @ ''Restart=always'' @ 
       nl @ ''RestartSec=5'' @ nl @ ''StandardOutput=append:'' @ log_file @ nl @ ''StandardError=append:'' @ log_file @ 
       nl @ ''Environment=RUST_LOG=a1_gateway=info'' @ nl @ nl @ ''[Install]'' @ nl @ ''WantedBy=default.target'' @ 
       nl)"

definition plist_path :: "environment \<Rightarrow> string" where
  "plist_path env = set_or ''/tmp'' (env ''HOME'') @ ''/Library/LaunchAgents/com.dyolo.a1-gateway.plist''"

definition service_path :: "environment \<Rightarrow> string" where
  "service_path env = set_or ''/tmp'' (env ''HOME'') @ ''/.config/systemd/user/a1-gateway.service''"

text \<open>\<open>schtasks\<close> is what that command gives: an error text of the launch, or success with its error output.\<close>

definition install_autostart_handler ::
  "os \<Rightarrow> platform \<Rightarrow> string + bool \<times> string \<Rightarrow> files \<Rightarrow> autostart_response \<times> command list \<times> files" where
  "install_autostart_handler S pf schtasks fs =
     (let env = os_env S; gw_bin = gw_bin_path env; log_file = log_file_path env in
      case pf of
        MacOS \<Rightarrow>
          (case write_file S (plist_path env) (plist_text gw_bin log_file) fs of
             (Inr _, fs') \<Rightarrow>
               (\<lparr>at_success = True, at_method = ''launchd'', at_path = Some (plist_path env),
                 at_message = ''A1 will now start automatically every time you log in to your Mac.'', at_error = None\<rparr>,
                [(''launchctl'', [''load'', ''-w'', plist_path env])], fs')
           | (Inl e, fs') \<Rightarrow>
               (\<lparr>at_success = False, at_method = ''launchd'', at_path = Some (plist_path env), at_message = [],
                 at_error = Some (''Could not write plist: '' @ e)\<rparr>, [], fs'))
      | Linux \<Rightarrow>
          (case write_file S (service_path env) (unit_text gw_bin log_file) fs of
             (Inr _, fs') \<Rightarrow>
               (\<lparr>at_success = True, at_method = ''systemd --user'', at_path = Some (service_path env),
                 at_message = ''A1 will now start automatically every time you log in.'', at_error = None\<rparr>,
                [(''systemctl'', [''--user'', ''daemon-reload'']),
                 (''systemctl'', [''--user'', ''enable'', ''--now'', ''a1-gateway''])], fs')
           | (Inl e, fs') \<Rightarrow>
               (\<lparr>at_success = False, at_method = ''systemd'', at_path = Some (service_path env), at_message = [],
                 at_error = Some (''Could not write service file: '' @ e)\<rparr>, [], fs'))
      | Windows \<Rightarrow>
          (let gw_bin_win = map (\<lambda>c. if c = CHR ''/'' then CHR 0x5C else c) gw_bin;
               cmd = (''schtasks'', [''/create'', ''/tn'', ''A1Gateway'', ''/tr'', gw_bin_win, ''/sc'', ''ONLOGON'',
                                    ''/rl'', ''LIMITED'', ''/f''])
           in (case schtasks of
                 Inr (True, _) \<Rightarrow>
                   \<lparr>at_success = True, at_method = ''Task Scheduler'', at_path = None,
                    at_message = ''A1 will now start automatically when you log in to Windows.'', at_error = None\<rparr>
               | Inr (False, stderr) \<Rightarrow>
                   \<lparr>at_success = False, at_method = ''Task Scheduler'', at_path = None, at_message = [], at_error = Some stderr\<rparr>
               | Inl e \<Rightarrow>
                   \<lparr>at_success = False, at_method = ''Task Scheduler'', at_path = None, at_message = [], at_error = Some e\<rparr>,
               [cmd], fs))
      | OtherOS \<Rightarrow>
          (\<lparr>at_success = False, at_method = ''unknown'', at_path = None, at_message = [],
            at_error = Some ''Autostart is not supported on this platform. Add 'a1 start' to your shell profile manually.''\<rparr>, [], fs))"

text \<open>The entry at \<open>path\<close>, if there is one: the command, and whether the file is gone.\<close>

definition drop_service :: "os \<Rightarrow> command \<Rightarrow> string \<Rightarrow> files \<Rightarrow> string list \<times> command list \<times> files" where
  "drop_service S cmd path fs =
     (if fs path = None then ([], [], fs)
      else (if os_removable S path then [path] else [], [cmd], remove_file S path fs))"

fun join_comma :: "string list \<Rightarrow> string" where
  "join_comma [] = []"
| "join_comma [s] = s"
| "join_comma (s # ss) = s @ '', '' @ join_comma ss"

definition remove_autostart_handler :: "os \<Rightarrow> files \<Rightarrow> autostart_response \<times> command list \<times> files" where
  "remove_autostart_handler S fs =
     (let plist = plist_path (os_env S); service = service_path (os_env S);
          (r1, c1, fs1) = drop_service S (''launchctl'', [''unload'', plist]) plist fs;
          (r2, c2, fs2) = drop_service S (''systemctl'', [''--user'', ''disable'', ''a1-gateway'']) service fs1;
          removed = r1 @ r2
      in (if removed = []
          then \<lparr>at_success = True, at_method = ''none found'', at_path = None,
                at_message = ''No autostart entries were found (A1 was not set to start on login).'', at_error = None\<rparr>
          else \<lparr>at_success = True, at_method = ''removed'', at_path = Some (join_comma removed),
                at_message = ''Autostart removed. A1 will no longer start automatically.'', at_error = None\<rparr>,
          c1 @ c2 @ [(''schtasks'', [''/delete'', ''/tn'', ''A1Gateway'', ''/f''])], fs2))"

section \<open>Ignoring passports in git\<close>

record gitignore_response =
  gi_success :: bool
  gi_path :: "string option"
  gi_pattern :: string
  gi_was_present :: bool
  gi_error :: "string option"

text \<open>The directory is its components, the innermost first; popping ends with none.\<close>

fun git_root :: "(string list \<Rightarrow> bool) \<Rightarrow> string list \<Rightarrow> string list option" where
  "git_root is_git [] = (if is_git [] then Some [] else None)"
| "git_root is_git (c # cs) = (if is_git (c # cs) then Some (c # cs) else git_root is_git cs)"

text \<open>\<open>str::lines\<close>: a line break ends a line, with the carriage return before it.\<close>

definition chomp_cr :: "string \<Rightarrow> string" where
  "chomp_cr s = (if s \<noteq> [] \<and> last s = CHR 0x0D then butlast s else s)"

definition str_lines :: "string \<Rightarrow> string list" where
  "str_lines s =
     (let ps = split_all (CHR 0x0A) s in map chomp_cr (butlast ps) @ (if last ps = [] then [] else [last ps]))"

definition gitignore_add_handler ::
  "os \<Rightarrow> (string list \<Rightarrow> string) \<Rightarrow> (string list \<Rightarrow> bool) \<Rightarrow> string list \<Rightarrow> string \<Rightarrow> files \<Rightarrow> gitignore_response \<times> files" where
  "gitignore_add_handler S path_text is_git dir pattern fs =
     (case git_root is_git dir of
        None \<Rightarrow> (\<lparr>gi_success = False, gi_path = None, gi_pattern = pattern, gi_was_present = False,
             gi_error = Some ''Not inside a Git repository. No .gitignore needed (but keep the file safe regardless).''\<rparr>, fs)
      | Some root \<Rightarrow>
          (let gi = join_path (path_text root) ''.gitignore'';
               existing = set_or [] (fs gi);
               clean = str_trim pattern
           in if list_ex (\<lambda>l. str_trim l = clean) (str_lines existing)
              then (\<lparr>gi_success = True, gi_path = Some gi, gi_pattern = clean, gi_was_present = True, gi_error = None\<rparr>, fs)
              else let added = ''# A1 passport '' @ em_dash @ '' do not commit'' @ nl @ clean @ nl;
                       new_content = (if existing = [] \<or> last existing = CHR 0x0A then existing @ added
                                      else existing @ nl @ added)
                   in case write_file S gi new_content fs of
                        (Inr _, fs') \<Rightarrow> (\<lparr>gi_success = True, gi_path = Some gi, gi_pattern = clean, gi_was_present = False,
                             gi_error = None\<rparr>, fs')
                      | (Inl e, fs') \<Rightarrow> (\<lparr>gi_success = False, gi_path = Some gi, gi_pattern = clean, gi_was_present = False,
                             gi_error = Some (''Could not write .gitignore: '' @ e)\<rparr>, fs')))"

section \<open>Properties\<close>

lemma find_rule: "find P xs = Some x \<Longrightarrow> x \<in> set xs \<and> P x"
  by (auto simp: find_Some_iff)

text \<open>The codes that are tested are none of the library's: a code alone explains nothing.\<close>

lemma rule_codes:
  "map (\<lambda>r. fst (snd r)) explain_rules = [Some ''E4003'', Some ''E4010'', Some ''E4012'', None, Some ''E4011'', Some ''E4001'',
     Some ''E4002'', Some ''E4005'', None, Some ''E4029'', Some ''E4007'']"
  by (simp add: explain_rules_def)

lemma explain_codes_dead:
  assumes "(needles, Some c, x) \<in> set explain_rules"
  shows "error_code e \<noteq> c"
proof -
  have "Some c \<in> set (map (\<lambda>r. fst (snd r)) explain_rules)" using assms by force
  then have c: "hd c = CHR ''E'' \<and> c ! 1 = CHR ''4''" unfolding rule_codes by auto
  have "error_code e ! 1 \<noteq> CHR ''4''" by (cases e) (simp_all add: error_code_def)
  with c show ?thesis by metis
qed

lemma contains_nil [simp]: "contains s [] = True"
  by (cases s) (simp_all add: starts_with_def)

lemma contains_sublist: "contains s p \<longleftrightarrow> (\<exists>a b. s = a @ p @ b)"
proof (induction s)
  case Nil
  show ?case by auto
next
  case (Cons c s)
  have "starts_with (c # s) p \<longleftrightarrow> (\<exists>b. c # s = p @ b)"
    by (auto simp: starts_with_def) (metis append_take_drop_id)
  then show ?case using Cons.IH by (auto simp: Cons_eq_append_conv)
qed

text \<open>The nearest directory above, itself included, that is a work tree.\<close>

lemma git_root_Some:
  "git_root is_git dir = Some r \<Longrightarrow> is_git r \<and> (\<exists>below. dir = below @ r \<and> (\<forall>i<length below. \<not> is_git (drop i dir)))"
proof (induction is_git dir rule: git_root.induct)
  case (2 is_git c cs)
  show ?case
  proof (cases "is_git (c # cs)")
    case True
    with 2 show ?thesis by simp
  next
    case False
    with 2 obtain below where b: "is_git r" "cs = below @ r" "\<forall>i<length below. \<not> is_git (drop i cs)" by auto
    have "\<not> is_git (drop i (c # cs))" if "i < length (c # below)" for i
      using that False b(3) by (cases i) auto
    with b show ?thesis by (intro conjI exI [of _ "c # below"]) auto
  qed
qed (simp split: if_splits)

lemma git_root_None: "git_root is_git dir = None \<longleftrightarrow> (\<forall>i\<le>length dir. \<not> is_git (drop i dir))"
proof (induction is_git dir rule: git_root.induct)
  case (2 is_git c cs)
  have "(\<forall>i\<le>length (c # cs). \<not> is_git (drop i (c # cs))) \<longleftrightarrow> \<not> is_git (c # cs) \<and> (\<forall>i\<le>length cs. \<not> is_git (drop i cs))"
    by (auto simp: less_Suc_eq_le [symmetric] all_less_Suc_split)
  with 2 show ?case by simp
qed simp

lemma split_all_append: "split_all c (a @ c # b) = split_all c a @ split_all c b"
proof (induction c a rule: split_all.induct)
  case (1 c a)
  have ba: "break_at c (s @ c # b) = (case break_at c s of (x, None) \<Rightarrow> (x, Some b) | (x, Some r) \<Rightarrow> (x, Some (r @ c # b)))" for s
    by (induction c s rule: break_at.induct) (auto split: prod.splits option.splits)
  obtain x y where xy: "break_at c a = (x, y)" by (cases "break_at c a")
  have e1: "split_all c a = (case y of None \<Rightarrow> [x] | Some r \<Rightarrow> x # split_all c r)"
    by (subst split_all.simps) (simp add: xy)
  have e2: "split_all c (a @ c # b) = (case y of None \<Rightarrow> x # split_all c b | Some r \<Rightarrow> x # split_all c (r @ c # b))"
    by (subst split_all.simps) (simp add: ba xy split: option.split)
  show ?case using 1 xy by (cases y) (auto simp: e1 e2)
qed

lemma split_all_plain: "c \<notin> set s \<Longrightarrow> split_all c s = [s]"
proof -
  assume "c \<notin> set s"
  then have "break_at c s = (s, None)" by (induction c s rule: break_at.induct) auto
  then show ?thesis by (subst split_all.simps) simp
qed

lemma last_line: "CHR 0x0A \<notin> set l \<Longrightarrow> chomp_cr l \<in> set (str_lines (a @ CHR 0x0A # l @ nl))"
proof -
  assume l: "CHR 0x0A \<notin> set l"
  have "split_all (CHR 0x0A) (a @ CHR 0x0A # l @ nl) = split_all (CHR 0x0A) a @ [l, []]"
    using split_all_append [of "CHR 0x0A" a "l @ nl"] split_all_append [of "CHR 0x0A" l "[]"]
    by (simp add: nl_def split_all_plain l)
  then show ?thesis by (simp add: str_lines_def butlast_append)
qed

text \<open>What is added is found the next time: adding again changes nothing.\<close>

lemma trim_no_cr: "chomp_cr (str_trim s) = str_trim s"
proof -
  have "str_trim s = [] \<or> \<not> is_ws (last (str_trim s))"
    by (metis str_trim_def hd_dropWhile last_rev rev_is_Nil_conv rev_rev_ident)
  moreover have "is_ws (CHR 0x0D)" by (simp add: is_ws_def)
  ultimately show ?thesis by (auto simp: chomp_cr_def)
qed

lemma gitignore_add_found:
  assumes run: "gitignore_add_handler S pt is_git dir pat fs = (r, fs')" and ok: "gi_success r"
    and plain: "CHR 0x0A \<notin> set (str_trim pat)" and idem: "str_trim (str_trim pat) = str_trim pat"
  shows "\<exists>r'. gitignore_add_handler S pt is_git dir pat fs' = (r', fs') \<and> gi_was_present r'"
proof -
  from run ok obtain root where root: "git_root is_git dir = Some root"
    by (cases "git_root is_git dir") (auto simp: gitignore_add_handler_def)
  let ?gi = "join_path (pt root) ''.gitignore''"
  let ?found = "\<lambda>fs. list_ex (\<lambda>l. str_trim l = str_trim pat) (str_lines (set_or [] (fs ?gi)))"
  have "?found fs'"
  proof (cases "?found fs")
    case True
    with run root show ?thesis by (auto simp: gitignore_add_handler_def Let_def)
  next
    case False
    from run ok root False obtain a where
      "fs' ?gi = Some (a @ CHR 0x0A # str_trim pat @ nl)"
      by (force simp: gitignore_add_handler_def Let_def write_file_def nl_def em_dash_def split: if_splits)
    then have "chomp_cr (str_trim pat) \<in> set (str_lines (set_or [] (fs' ?gi)))"
      using last_line [OF plain, of a] by (simp add: set_or_def)
    then show ?thesis using trim_no_cr idem by (auto simp: list_ex_iff intro!: bexI [of _ "str_trim pat"])
  qed
  then show ?thesis using root by (simp add: gitignore_add_handler_def Let_def)
qed

text \<open>Removing leaves no service file that can be removed.\<close>

lemma remove_autostart_clears:
  assumes "os_removable S (plist_path (os_env S))" "os_removable S (service_path (os_env S))"
    and "remove_autostart_handler S fs = (r, cmds, fs')"
  shows "fs' (plist_path (os_env S)) = None \<and> fs' (service_path (os_env S)) = None \<and> at_success r"
  using assms by (auto simp: remove_autostart_handler_def drop_service_def remove_file_def Let_def split: if_splits)

end
