(* ===== verification/A1_GwAgents.thy ===== *)
theory A1_GwAgents
  imports A1_GwSystem A1_Mcp
begin

text \<open>
  The routes by which the Studio reaches an agent: \<open>a1-gateway/src/routes/agent_patch.rs\<close> (its source
  files), \<open>agent_relay.rs\<close> (its local interface), \<open>ai_proxy.rs\<close> and the status of \<open>automagic.rs\<close>. The
  HTTP client is a parameter of each route, and so are the parts of the file system that a map of texts
  does not hold: what a path resolves to, links, sizes and directories.
\<close>

section \<open>Files of an agent\<close>

record patch_os = os +
  po_cwd :: "string option"
  po_resolve :: "string \<Rightarrow> string + string"
  po_is_link :: "string \<Rightarrow> bool"
  po_size :: "string \<Rightarrow> string + nat"
  po_exists :: "string \<Rightarrow> bool"
  po_follow :: "string \<Rightarrow> string"
  po_copy :: "string \<Rightarrow> string \<Rightarrow> (string \<times> string option) option"
  po_write :: "string \<Rightarrow> (string \<times> string option) option"
  po_mkdir :: "string \<Rightarrow> string option"

text \<open>
  \<open>po_follow\<close> is where an access by a path ends: at the path, or where a symbolic link there leads.
  \<open>po_copy\<close> and \<open>po_write\<close> are None when the operation succeeds; when it fails, the error with what the
  failure leaves in the file that was opened for writing, or None if it could not be opened.
\<close>

definition home_dir :: "environment \<Rightarrow> string" where
  "home_dir env = (case env ''HOME'' of Some h \<Rightarrow> h | None \<Rightarrow> set_or ''/tmp'' (env ''USERPROFILE''))"

definition BLOCKED :: "string list" where
  "BLOCKED = [''/etc'', ''/sys'', ''/proc'', ''/dev'', ''/boot'', ''/var/run'', ''/sbin'', ''/bin'', ''/usr/bin'']"

definition expand_home :: "environment \<Rightarrow> string \<Rightarrow> string" where
  "expand_home env raw =
     (if starts_with raw ''~/'' then join_path (home_dir env) (drop 2 raw)
      else if raw = ''~'' then home_dir env else raw)"

definition validate_path :: "'x patch_os_scheme \<Rightarrow> string \<Rightarrow> string + string" where
  "validate_path S raw =
     (let home = home_dir (os_env S); cwd = set_or home (po_cwd S) in
      if str_trim raw = [] then Inl ''Path is empty''
      else let expanded = expand_home (os_env S) raw;
               absolute = (if starts_with expanded ''/'' then expanded else join_path cwd expanded)
           in bindR (map_errR (\<lambda>e. ''Cannot resolve path: '' @ e) (po_resolve S absolute)) (\<lambda>canonical.
              if po_is_link S canonical then Inl ''Symlinks are not allowed''
              else if \<not> path_starts_with canonical home
                \<and> \<not> (path_starts_with canonical ''/tmp'' \<or> path_starts_with canonical ''/var/tmp'')
                \<and> \<not> path_starts_with canonical cwd
              then Inl (''Path must be inside your home directory ('' @ home @ ''). Got: '' @ canonical)
              else (case find (path_starts_with canonical) BLOCKED of
                      Some b \<Rightarrow> Inl (''Access to '' @ b @ '' is blocked'')
                    | None \<Rightarrow> Inr canonical)))"

definition MAX_READ_BYTES :: nat where "MAX_READ_BYTES = 256 * 1024"
definition MAX_WRITE_BYTES :: nat where "MAX_WRITE_BYTES = 512 * 1024"

record read_file_response =
  rf_path :: string
  rf_content :: "string option"
  rf_lines :: nat
  rf_size_bytes :: nat
  rf_error :: "string option"

definition read_failed :: "string \<Rightarrow> nat \<Rightarrow> string \<Rightarrow> read_file_response" where
  "read_failed p n e = \<lparr>rf_path = p, rf_content = None, rf_lines = 0, rf_size_bytes = n, rf_error = Some e\<rparr>"

definition read_file_handler :: "'x patch_os_scheme \<Rightarrow> string \<Rightarrow> files \<Rightarrow> read_file_response" where
  "read_file_handler S raw fs =
     (case validate_path S raw of
        Inl e \<Rightarrow> read_failed raw 0 e
      | Inr path \<Rightarrow>
          (case po_size S path of
             Inl e \<Rightarrow> read_failed path 0 (''Cannot read file: '' @ e)
           | Inr n \<Rightarrow>
               if n > MAX_READ_BYTES
               then read_failed path n (''File is too large ('' @ dec (n div 1024) @ '' KB). Max readable size is 256 KB.'')
               else (case fs path of
                       Some t \<Rightarrow> \<lparr>rf_path = path, rf_content = Some t, rf_lines = length (str_lines t),
                                  rf_size_bytes = length t, rf_error = None\<rparr>
                     | None \<Rightarrow> read_failed path 0 (''Cannot read: '' @ os_read_msg S path @ '' (is this a binary file?)''))))"

text \<open>
  \<open>Path::extension\<close> and \<open>with_extension\<close> on the last component: what follows its last dot, unless the
  dot is its first character.
\<close>

definition split_name :: "string \<Rightarrow> string \<times> string" where
  "split_name p = (let d = length (takeWhile (\<lambda>c. c \<noteq> CHR ''/'') (rev p)) in (take (length p - d) p, drop (length p - d) p))"

definition ext_of_name :: "string \<Rightarrow> (string \<times> string) option" where
  "ext_of_name f =
     (let e = takeWhile (\<lambda>c. c \<noteq> CHR ''.'') (rev f); stem = take (length f - length e - 1) f in
      if CHR ''.'' \<in> set f \<and> stem \<noteq> [] then Some (stem, rev e) else None)"

definition with_extension :: "string \<Rightarrow> string \<Rightarrow> string" where
  "with_extension p x =
     (case split_name p of (dir, f) \<Rightarrow> dir @ (case ext_of_name f of Some (stem, _) \<Rightarrow> stem | None \<Rightarrow> f) @ CHR ''.'' # x)"

definition backup_of :: "string \<Rightarrow> string" where
  "backup_of p = with_extension p (case ext_of_name (snd (split_name p)) of Some (_, e) \<Rightarrow> e @ ''.bak'' | None \<Rightarrow> ''bak'')"

record write_file_request =
  wq_path :: string
  wq_content :: string
  wq_backup :: "bool option"

record write_file_response =
  wr_path :: string
  wr_backup_path :: "string option"
  wr_bytes_written :: nat
  wr_success :: bool
  wr_error :: "string option"

definition write_failed :: "string \<Rightarrow> string option \<Rightarrow> string \<Rightarrow> write_file_response" where
  "write_failed p b e =
     \<lparr>wr_path = p, wr_backup_path = b, wr_bytes_written = 0, wr_success = False, wr_error = Some e\<rparr>"

text \<open>
  \<open>std::fs::copy\<close> and \<open>std::fs::write\<close>. The copy opens its target through links and truncates it first:
  a target that is the source itself ends up empty. The path written is a resolved one.
\<close>

definition copy_file :: "patch_os \<Rightarrow> string \<Rightarrow> string \<Rightarrow> files \<Rightarrow> (string + unit) \<times> files" where
  "copy_file S a b fs =
     (let t = po_follow S b in
      case po_copy S a b of
        Some (e, None) \<Rightarrow> (Inl e, fs)
      | Some (e, Some left) \<Rightarrow> (Inl e, fs(t \<mapsto> left))
      | None \<Rightarrow> (Inr (), fs(t := if t = a then map_option (\<lambda>_. []) (fs a) else fs a)))"

definition overwrite_file :: "patch_os \<Rightarrow> string \<Rightarrow> string \<Rightarrow> files \<Rightarrow> (string + unit) \<times> files" where
  "overwrite_file S p t fs =
     (case po_write S p of
        Some (e, None) \<Rightarrow> (Inl e, fs)
      | Some (e, Some left) \<Rightarrow> (Inl e, fs(p \<mapsto> left))
      | None \<Rightarrow> (Inr (), fs(p \<mapsto> t)))"

definition write_file_handler ::
  "patch_os \<Rightarrow> write_file_request \<Rightarrow> files \<Rightarrow> write_file_response response \<times> files" where
  "write_file_handler S req fs =
     (if length (wq_content req) > MAX_WRITE_BYTES
      then ((413, write_failed (wq_path req) None ''Content exceeds 512 KB write limit''), fs)
      else case validate_path S (wq_path req) of
        Inl e \<Rightarrow> ((400, write_failed (wq_path req) None e), fs)
      | Inr path \<Rightarrow>
          (let bak = backup_of path; copying = set_or True (wq_backup req) \<and> po_exists S path in
           case (if copying then copy_file S path bak fs else (Inr (), fs)) of
             (Inl e, fs1) \<Rightarrow> ((500, write_failed path None (''Could not create backup: '' @ e)), fs1)
           | (Inr _, fs1) \<Rightarrow>
               (let backup_path = (if copying then Some bak else None)
                in case po_mkdir S path of
                     Some e \<Rightarrow> ((500, write_failed path backup_path (''Cannot create parent directory: '' @ e)), fs1)
                   | None \<Rightarrow>
                       (case overwrite_file S path (wq_content req) fs1 of
                          (Inr _, fs2) \<Rightarrow> ((200, \<lparr>wr_path = path, wr_backup_path = backup_path,
                             wr_bytes_written = length (wq_content req), wr_success = True, wr_error = None\<rparr>), fs2)
                        | (Inl e, fs2) \<Rightarrow> ((500, write_failed path backup_path (''Write failed: '' @ e)), fs2)))))"

definition CODE_EXTS :: "string list" where
  "CODE_EXTS = [''py'', ''ts'', ''js'', ''mts'', ''mjs'', ''go'', ''rs'', ''rb'', ''toml'', ''json'', ''yaml'', ''yml'']"

record file_entry =
  fe_name :: string
  fe_path :: string
  fe_size_bytes :: nat
  fe_extension :: string

text \<open>\<open>names\<close> is what \<open>read_dir\<close> gives: each name, whether it is a file, and its size.\<close>

definition list_one :: "string \<Rightarrow> string \<times> bool \<times> nat \<Rightarrow> file_entry option" where
  "list_one dir en =
     (case en of (name, is_file, nbytes) \<Rightarrow>
       if \<not> is_file \<or> starts_with name ''.'' \<or> ends_with name ''.bak'' then None
       else let e = str_lower (case ext_of_name name of Some (_, x) \<Rightarrow> x | None \<Rightarrow> []) in
         if e \<notin> set CODE_EXTS then None
         else Some \<lparr>fe_name = name, fe_path = join_path dir name, fe_size_bytes = nbytes, fe_extension = e\<rparr>)"

definition list_files_handler ::
  "'x patch_os_scheme \<Rightarrow> (string \<Rightarrow> (string \<times> bool \<times> nat) list option) \<Rightarrow> string option
     \<Rightarrow> string \<times> file_entry list \<times> string option" where
  "list_files_handler S read_dir given =
     (let raw = set_or ''~'' given in
      case validate_path S raw of
        Inl e \<Rightarrow> (raw, [], Some e)
      | Inr dir \<Rightarrow>
          (case read_dir dir of
             None \<Rightarrow> (dir, [], Some ''Path is not a directory'')
           | Some names \<Rightarrow> (dir, sort_key fe_name (List.map_filter (list_one dir) names), None)))"

section \<open>Talking to an agent\<close>

record agent_endpoint =
  ae_agent_id :: string
  ae_name :: string
  ae_port :: nat
  ae_base_url :: string
  ae_chat_path :: string
  ae_health_path :: string
  ae_api_style :: string
  ae_reachable :: bool
  ae_version :: "string option"

definition AGENT_PROBES :: "(string \<times> string \<times> nat \<times> string \<times> string \<times> string) list" where
  "AGENT_PROBES =
    [(''openclaw'', ''OpenClaw'', 3000, ''/health'', ''/api/chat'', ''openclaw''),
     (''openclaw'', ''OpenClaw'', 3001, ''/health'', ''/api/chat'', ''openclaw''),
     (''ironclaw'', ''IronClaw'', 4000, ''/healthz'', ''/api/v1/chat'', ''ironclaw''),
     (''ironclaw'', ''IronClaw'', 4001, ''/healthz'', ''/api/v1/chat'', ''ironclaw''),
     (''claude_code'', ''Claude Code'', 8181, ''/health'', ''/messages'', ''anthropic''),
     (''openai_agents'', ''OpenAI Agents SDK'', 8000, ''/health'', ''/v1/chat/completions'', ''openai''),
     (''openai_agents'', ''OpenAI Agents SDK'', 8001, ''/health'', ''/v1/chat/completions'', ''openai''),
     (''openai'', ''OpenAI Agent'', 8000, ''/health'', ''/v1/chat/completions'', ''openai''),
     (''langchain'', ''LangChain Agent'', 7860, ''/health'', ''/chat'', ''generic''),
     (''langchain'', ''LangChain Agent'', 7861, ''/health'', ''/chat'', ''generic''),
     (''crewai'', ''CrewAI Agent'', 7862, ''/health'', ''/chat'', ''generic''),
     (''crewai'', ''CrewAI Agent'', 7863, ''/health'', ''/chat'', ''generic''),
     (''autogen'', ''AutoGen Agent'', 7864, ''/health'', ''/chat'', ''generic''),
     (''ollama'', ''Ollama'', 11434, ''/api/tags'', ''/api/chat'', ''generic''),
     (''custom'', ''Custom Agent'', 5000, ''/health'', ''/chat'', ''generic''),
     (''custom'', ''Custom Agent'', 5001, ''/health'', ''/v1/chat'', ''generic''),
     (''custom'', ''Custom Agent'', 8888, ''/health'', ''/chat'', ''generic''),
     (''custom'', ''Custom Agent'', 9000, ''/health'', ''/chat'', ''generic'')]"

definition local_base :: "nat \<Rightarrow> string" where
  "local_base port = ''http://127.0.0.1:'' @ dec port"

text \<open>\<open>http_get url\<close>: the status with the body, if it is JSON, or \<open>None\<close> when there is no answer.\<close>

definition probe_known ::
  "(string \<Rightarrow> (nat \<times> json option) option) \<Rightarrow> string option
     \<Rightarrow> string \<times> string \<times> nat \<times> string \<times> string \<times> string \<Rightarrow> agent_endpoint list \<times> nat \<Rightarrow> agent_endpoint list \<times> nat" where
  "probe_known http_get wanted probe st =
     (case (probe, st) of ((aid, name, port, health_path, chat_path, style), (found, checked)) \<Rightarrow>
       if (case wanted of Some f \<Rightarrow> aid \<noteq> f \<and> f \<noteq> ''all'' | None \<Rightarrow> False) then st
       else (case http_get (local_base port @ health_path) of
               Some (status, answer) \<Rightarrow>
                 if is_success status \<or> status < 500
                 then let v = Option.bind (Option.bind answer (j_get ''version'')) as_str in
                   (if list_ex (\<lambda>e. ae_port e = port \<and> ae_agent_id e = aid) found then found
                    else found @ [\<lparr>ae_agent_id = aid, ae_name = name, ae_port = port, ae_base_url = local_base port,
                      ae_chat_path = chat_path, ae_health_path = health_path, ae_api_style = style,
                      ae_reachable = True, ae_version = v\<rparr>], checked + 1)
                 else (found, checked + 1)
             | None \<Rightarrow> (found, checked + 1)))"

text \<open>The paths tried on an extra port, up to the first that answers.\<close>

fun probe_paths ::
  "(string \<Rightarrow> (nat \<times> json option) option) \<Rightarrow> nat \<Rightarrow> string list \<Rightarrow> agent_endpoint list \<times> nat \<Rightarrow> agent_endpoint list \<times> nat" where
  "probe_paths http_get port [] st = st"
| "probe_paths http_get port (path # paths) (found, checked) =
     (if http_get (local_base port @ path) \<noteq> None
      then (if list_ex (\<lambda>e. ae_port e = port) found then found
            else found @ [\<lparr>ae_agent_id = ''custom'', ae_name = ''Agent on port '' @ dec port, ae_port = port,
              ae_base_url = local_base port, ae_chat_path = ''/chat'', ae_health_path = path,
              ae_api_style = ''generic'', ae_reachable = True, ae_version = None\<rparr>], checked + 1)
      else probe_paths http_get port paths (found, checked + 1))"

definition probe_handler ::
  "(string \<Rightarrow> (nat \<times> json option) option) \<Rightarrow> string option \<Rightarrow> nat list option \<Rightarrow> agent_endpoint list \<times> nat" where
  "probe_handler http_get wanted extra =
     (let st = fold (probe_known http_get wanted) AGENT_PROBES ([], 0) in
      case extra of
        Some ports \<Rightarrow> fold (\<lambda>port. probe_paths http_get port [''/health'', ''/healthz'', ''/'', ''/status'']) ports st
      | None \<Rightarrow> st)"

record relay_request =
  rl_base_url :: string
  rl_chat_path :: string
  rl_api_style :: string
  rl_message :: string
  rl_system :: "string option"
  rl_history :: "json list option"

record relay_response =
  rs_success :: bool
  rs_reply :: "string option"
  rs_raw :: "json option"
  rs_error :: "string option"

definition json_opt :: "string option \<Rightarrow> json" where
  "json_opt s = (case s of Some x \<Rightarrow> JStr x | None \<Rightarrow> JNull)"

definition chat_message :: "string \<Rightarrow> string \<Rightarrow> json" where
  "chat_message role content = JObj [(''role'', JStr role), (''content'', JStr content)]"

definition with_system :: "relay_request \<Rightarrow> json list" where
  "with_system req =
     (case rl_system req of Some s \<Rightarrow> [chat_message ''system'' s] | None \<Rightarrow> [])
       @ set_or [] (rl_history req) @ [chat_message ''user'' (rl_message req)]"

definition relay_body :: "relay_request \<Rightarrow> json" where
  "relay_body req =
     (let style = rl_api_style req; history = set_or [] (rl_history req) in
      if style = ''openclaw''
      then JObj [(''message'', JStr (rl_message req)), (''system'', json_opt (rl_system req)), (''history'', JArr history)]
      else if style = ''ironclaw''
      then JObj [(''prompt'', JStr (rl_message req)), (''system_prompt'', json_opt (rl_system req)), (''messages'', JArr history)]
      else if style = ''openai''
      then JObj [(''model'', JStr ''gpt-4o''), (''messages'', JArr (with_system req))]
      else if style = ''anthropic''
      then JObj [(''model'', JStr ''claude-opus-4-5''), (''max_tokens'', JPosInt 2048), (''system'', json_opt (rl_system req)),
                 (''messages'', JArr (history @ [chat_message ''user'' (rl_message req)]))]
      else JObj [(''message'', JStr (rl_message req)), (''messages'', JArr (with_system req)), (''prompt'', JStr (rl_message req))])"

definition j_first :: "json \<Rightarrow> json option" where
  "j_first v = (case as_array v of Some (x # _) \<Rightarrow> Some x | _ \<Rightarrow> None)"

definition get_or :: "string \<Rightarrow> string \<Rightarrow> json \<Rightarrow> string option" where
  "get_or a b v = Option.bind (case j_get a v of Some x \<Rightarrow> Some x | None \<Rightarrow> j_get b v) as_str"

definition openai_reply :: "json \<Rightarrow> string option" where
  "openai_reply v = Option.bind (Option.bind (Option.bind (Option.bind (j_get ''choices'' v) j_first)
     (j_get ''message'')) (j_get ''content'')) as_str"

fun first_field :: "string list \<Rightarrow> json \<Rightarrow> string option" where
  "first_field [] v = None"
| "first_field (k # ks) v = (case Option.bind (j_get k v) as_str of Some s \<Rightarrow> Some s | None \<Rightarrow> first_field ks v)"

definition extract_reply :: "json \<Rightarrow> string \<Rightarrow> string option" where
  "extract_reply raw style =
     (if style = ''openclaw'' then get_or ''reply'' ''message'' raw
      else if style = ''ironclaw'' then get_or ''response'' ''output'' raw
      else if style = ''openai'' then openai_reply raw
      else if style = ''anthropic''
      then Option.bind (Option.bind (Option.bind (j_get ''content'' raw) j_first) (j_get ''text'')) as_str
      else (case first_field [''reply'', ''response'', ''output'', ''message'', ''text'', ''content''] raw of
              Some s \<Rightarrow> Some s
            | None \<Rightarrow> openai_reply raw))"

definition local_target :: "string \<Rightarrow> bool" where
  "local_target url \<longleftrightarrow> starts_with url ''http://127.0.0.1:'' \<or> starts_with url ''http://localhost:''
     \<or> starts_with url ''http://[::1]:''"

text \<open>
  \<open>http_post url body\<close>: an error text, or the status (with its text) and the body or the error of parsing
  it. The request that is sent, if one is, is the second result.
\<close>

definition relay_handler ::
  "(string \<Rightarrow> json \<Rightarrow> string + nat \<times> string \<times> (string + json)) \<Rightarrow> relay_request
     \<Rightarrow> relay_response \<times> (string \<times> json) option" where
  "relay_handler http_post req =
     (let url = str_trim (rl_base_url req) in
      if \<not> local_target url
      then (\<lparr>rs_success = False, rs_reply = None, rs_raw = None,
             rs_error = Some (''Security: only localhost targets allowed. Got: '' @ url)\<rparr>, None)
      else let endpoint = url @ rl_chat_path req; body = relay_body req in
        (case http_post endpoint body of
           Inl e \<Rightarrow> \<lparr>rs_success = False, rs_reply = None, rs_raw = None,
                     rs_error = Some (''Could not reach agent at '' @ endpoint @ '': '' @ e)\<rparr>
         | Inr (status, status_text, answer) \<Rightarrow>
             (case answer of
                Inl e \<Rightarrow> \<lparr>rs_success = False, rs_reply = None, rs_raw = None,
                  rs_error = Some (''HTTP '' @ status_text @ '' '' @ em_dash @ '' could not parse response: '' @ e)\<rparr>
              | Inr raw \<Rightarrow> \<lparr>rs_success = is_success status, rs_reply = extract_reply raw (rl_api_style req),
                  rs_raw = Some raw, rs_error = (if is_success status then None else Some (''HTTP '' @ status_text))\<rparr>),
         Some (endpoint, body)))"

record integration_response =
  ic_integrated :: bool
  ic_method :: string
  ic_config_path :: "string option"
  ic_auth_test_passed :: bool
  ic_details :: string

definition mcp_candidates :: "environment \<Rightarrow> string list" where
  "mcp_candidates env =
     (let home = home_dir env in
      [home @ ''/.openclaw/.mcp.json'', home @ ''/.claude/.mcp.json'', home @ ''/.config/openclaw/.mcp.json'',
       ''.mcp.json'', ''./agent/.mcp.json''])"

definition toml_candidates :: "environment \<Rightarrow> string list" where
  "toml_candidates env = [home_dir env @ ''/.ironclaw/a1_plugin.toml'', ''./a1_plugin.toml'']"

definition mentions_a1 :: "string \<Rightarrow> bool" where
  "mentions_a1 t \<longleftrightarrow> contains t ''localhost:8080/mcp'' \<or> contains t ([CHR 0x22] @ ''a1'' @ [CHR 0x22])"

text \<open>\<open>health_ok\<close> is whether the gateway's own \<open>/mcp\<close> answers the health tool with success.\<close>

definition integration_check_handler :: "environment \<Rightarrow> bool \<Rightarrow> string \<Rightarrow> files \<Rightarrow> integration_response" where
  "integration_check_handler env health_ok agent_id fs =
     (case find (\<lambda>p. case fs p of Some t \<Rightarrow> mentions_a1 t | None \<Rightarrow> False) (mcp_candidates env) of
        Some p \<Rightarrow> \<lparr>ic_integrated = True, ic_method = ''mcp_json'', ic_config_path = Some p, ic_auth_test_passed = health_ok,
          ic_details = ''Found .mcp.json at '' @ p @ '' pointing to A1 gateway. Auth test: ''
            @ (if health_ok then ''passed'' else ''failed (gateway may be starting)'')\<rparr>
      | None \<Rightarrow>
          (case find (\<lambda>p. fs p \<noteq> None) (toml_candidates env) of
             Some p \<Rightarrow> \<lparr>ic_integrated = True, ic_method = ''config_toml'', ic_config_path = Some p,
               ic_auth_test_passed = True, ic_details = ''Found a1_plugin.toml at '' @ p\<rparr>
           | None \<Rightarrow> \<lparr>ic_integrated = False, ic_method = ''none'', ic_config_path = None, ic_auth_test_passed = False,
               ic_details = ''No A1 integration config found for agent '' @ quoted agent_id
                 @ ''. Check .mcp.json or a1_plugin.toml.''\<rparr>))"

section \<open>The language model proxy\<close>

definition proxy_model :: "environment \<Rightarrow> string" where
  "proxy_model env = set_or ''claude-sonnet-4-20250514'' (env ''A1_AI_MODEL'')"

record ai_status_response =
  as_available :: bool
  as_model :: string
  as_note :: string

definition ai_status_handler :: "environment \<Rightarrow> ai_status_response" where
  "ai_status_handler env =
     (let available = starts_with (env_text env ''A1_AI_KEY'') ''sk-ant-'' in
      \<lparr>as_available = available, as_model = (if available then proxy_model env else []),
       as_note = (if available then ''Gateway AI proxy is active. No user API key required.''
                  else ''Set A1_AI_KEY in the gateway environment to enable proxy mode.'')\<rparr>)"

record ai_chat_request =
  ac_messages :: json
  ac_system :: "string option"
  ac_tools :: "json option"
  ac_max_tokens :: u32

definition default_max_tokens :: u32 where "default_max_tokens = 4096"

definition chat_body :: "environment \<Rightarrow> ai_chat_request \<Rightarrow> json" where
  "chat_body env req =
     JObj ([(''model'', JStr (proxy_model env)), (''max_tokens'', JPosInt (ucast (ac_max_tokens req))),
            (''messages'', ac_messages req)]
       @ (case ac_system req of Some s \<Rightarrow> [(''system'', JStr s)] | None \<Rightarrow> [])
       @ (case ac_tools req of Some t \<Rightarrow> [(''tools'', t)] | None \<Rightarrow> []))"

definition error_message :: "string \<Rightarrow> json" where
  "error_message m = JObj [(''error'', JObj [(''message'', JStr m)])]"

definition proxy_not_configured :: "json response" where
  "proxy_not_configured = (503, JObj [(''error'', JObj [(''type'', JStr ''proxy_not_configured''), (''message'', JStr
     ''A1_AI_KEY is not set on this gateway. Set it to enable AI proxy mode, or enter your own Claude API key in the Studio.'')])])"

text \<open>\<open>client\<close>: the error of building the client, or what a post to the address with the key and the body gives.\<close>

definition chat_handler ::
  "environment \<Rightarrow> string + (string \<Rightarrow> string \<Rightarrow> json \<Rightarrow> string + nat \<times> (string + json)) \<Rightarrow> ai_chat_request \<Rightarrow> json response" where
  "chat_handler env client req =
     (case env ''A1_AI_KEY'' of
        Some key \<Rightarrow>
          if starts_with key ''sk-ant-''
          then (case client of
                  Inl e \<Rightarrow> (500, error_message (''HTTP client error: '' @ e))
                | Inr send \<Rightarrow>
                    (case send ''https://api.anthropic.com/v1/messages'' key (chat_body env req) of
                       Inl e \<Rightarrow> (502, error_message (''Upstream error: '' @ e))
                     | Inr (status, answer) \<Rightarrow>
                         (case answer of Inr j \<Rightarrow> (status, j) | Inl e \<Rightarrow> (502, error_message (''Parse error: '' @ e)))))
          else proxy_not_configured
      | None \<Rightarrow> proxy_not_configured)"

section \<open>Status of the installation\<close>

definition dirs_home :: "environment \<Rightarrow> string option" where
  "dirs_home env = (case env ''HOME'' of Some h \<Rightarrow> Some h | None \<Rightarrow> env ''USERPROFILE'')"

definition binary_path :: "environment \<Rightarrow> string" where
  "binary_path env = join_path (set_or ''/tmp'' (dirs_home env)) ''.a1/bin/a1-gateway''"

definition marker_path :: "environment \<Rightarrow> string" where
  "marker_path env = join_path (set_or ''/tmp'' (dirs_home env)) ''.a1/autostart-enabled''"

definition autostart_is_enabled :: "environment \<Rightarrow> files \<Rightarrow> bool" where
  "autostart_is_enabled env fs \<longleftrightarrow> fs (marker_path env) \<noteq> None"

definition mark_autostart_done :: "os \<Rightarrow> files \<Rightarrow> files" where
  "mark_autostart_done S fs = snd (write_file S (marker_path (os_env S)) ''1'' fs)"

definition platform_name :: "platform \<Rightarrow> string" where
  "platform_name pf = (case pf of MacOS \<Rightarrow> ''macos'' | Linux \<Rightarrow> ''linux'' | Windows \<Rightarrow> ''windows'' | OtherOS \<Rightarrow> ''unknown'')"

record automagic_status =
  am_autostart_enabled :: bool
  am_docker_installed :: bool
  am_automagic_mode :: bool
  am_platform :: string

definition get_status :: "environment \<Rightarrow> platform \<Rightarrow> bool \<Rightarrow> files \<Rightarrow> automagic_status" where
  "get_status env pf docker_info fs =
     \<lparr>am_autostart_enabled = autostart_is_enabled env fs, am_docker_installed = docker_info,
      am_automagic_mode = (env ''AUTOMAGIC_MODE'' = Some ''1''), am_platform = platform_name pf\<rparr>"

definition svc_text :: "string \<Rightarrow> string" where
  "svc_text bin = ''[Unit]'' @ nl @ ''Description=A1 Gateway'' @ nl @ ''After=network.target'' @ nl @ nl @ ''[Service]'' @ nl
     @ ''ExecStart='' @ bin @ nl @ ''Restart=always'' @ nl @ nl @ ''[Install]'' @ nl @ ''WantedBy=default.target'' @ nl"

section \<open>Properties\<close>

text \<open>What passes validation lies in one of the three trees and in none of the blocked ones.\<close>

lemma validate_path_Inr:
  "validate_path S raw = Inr p \<Longrightarrow>
     (path_starts_with p (home_dir (os_env S)) \<or> path_starts_with p ''/tmp'' \<or> path_starts_with p ''/var/tmp''
        \<or> path_starts_with p (set_or (home_dir (os_env S)) (po_cwd S)))
     \<and> (\<forall>b\<in>set BLOCKED. \<not> path_starts_with p b) \<and> (\<exists>a. po_resolve S a = Inr p)"
  by (auto simp: validate_path_def Let_def result_simps find_None_iff split: if_splits option.splits)

text \<open>A resolved path is never a link, so the refusal of links is never given: links are followed.\<close>

lemma symlink_refusal_dead:
  "(\<And>a p. po_resolve S a = Inr p \<Longrightarrow> \<not> po_is_link S p) \<Longrightarrow> validate_path S raw \<noteq> Inl ''Symlinks are not allowed''"
  by (auto simp: validate_path_def Let_def result_simps split: if_splits option.splits)

lemma read_file_confined:
  assumes "rf_content (read_file_handler S raw fs) = Some t"
  shows "\<exists>p. validate_path S raw = Inr p \<and> fs p = Some t \<and> rf_path (read_file_handler S raw fs) = p"
  using assms by (auto simp: read_file_handler_def read_failed_def split: sum.splits if_splits option.splits)

lemma split_name_id: "fst (split_name p) @ snd (split_name p) = p"
  by (simp add: split_name_def Let_def)

lemma ext_of_name_id: "ext_of_name f = Some (stem, e) \<Longrightarrow> f = stem @ CHR ''.'' # e"
proof -
  assume a: "ext_of_name f = Some (stem, e)"
  let ?t = "takeWhile (\<lambda>c. c \<noteq> CHR ''.'') (rev f)" and ?d = "dropWhile (\<lambda>c. c \<noteq> CHR ''.'') (rev f)"
  from a have e: "e = rev ?t" and st: "stem = take (length f - length ?t - 1) f" and dot: "CHR ''.'' \<in> set f"
    by (auto simp: ext_of_name_def Let_def split: if_splits)
  from dot have ne: "?d \<noteq> []" by (auto simp: dropWhile_eq_Nil_conv)
  then obtain r where r: "?d = CHR ''.'' # r" using hd_dropWhile [OF ne] by (cases ?d) auto
  have "rev f = ?t @ CHR ''.'' # r" using takeWhile_dropWhile_id [of "\<lambda>c. c \<noteq> CHR ''.''" "rev f"] r by simp
  from arg_cong [OF this, of rev] have f: "f = rev r @ CHR ''.'' # rev ?t" by simp
  from arg_cong [OF this, of length] have "length f - length ?t - 1 = length (rev r)" by simp
  with st f have "stem = rev r" by (metis append_eq_conv_conj)
  with f e show ?thesis by simp
qed

text \<open>The backup is the file's own name with \<open>.bak\<close> after it, in the same directory.\<close>

lemma backup_of_eq: "backup_of p = p @ ''.bak''"
proof -
  obtain dir f where sn: "split_name p = (dir, f)" by (cases "split_name p")
  then have p: "p = dir @ f" using split_name_id [of p] by simp
  show ?thesis
  proof (cases "ext_of_name f")
    case None
    then show ?thesis by (simp add: backup_of_def with_extension_def sn) (simp add: p)
  next
    case (Some x)
    then obtain stem e where x: "ext_of_name f = Some (stem, e)" by (cases x) auto
    then have "f = stem @ CHR ''.'' # e" by (rule ext_of_name_id)
    with x show ?thesis by (simp add: backup_of_def with_extension_def sn) (simp add: p)
  qed
qed

text \<open>
  Whatever the outcome, only the resolved path changes and, when a backup was asked for, the file to
  which the path of the backup leads, which may be anywhere.
\<close>

lemma copy_file_changes:
  "copy_file S a b fs = (r, fs') \<Longrightarrow> q \<noteq> po_follow S b \<Longrightarrow> fs' q = fs q"
  "copy_file S a b fs = (Inr u, fs') \<Longrightarrow> po_follow S b \<noteq> a \<Longrightarrow> fs' (po_follow S b) = fs a"
  by (auto simp: copy_file_def Let_def split: option.splits)

lemma overwrite_file_changes:
  "overwrite_file S p t fs = (r, fs') \<Longrightarrow> q \<noteq> p \<Longrightarrow> fs' q = fs q"
  "overwrite_file S p t fs = (Inr u, fs') \<Longrightarrow> fs' p = Some t"
  by (auto simp: overwrite_file_def split: option.splits)

lemma write_file_outcomes:
  assumes "write_file_handler S req fs = ((st, r), fs')"
  shows "fs' = fs \<and> \<not> wr_success r \<or> (\<exists>p. validate_path S (wq_path req) = Inr p \<and> length (wq_content req) \<le> MAX_WRITE_BYTES
    \<and> (\<forall>q. q \<noteq> p \<longrightarrow> q \<noteq> po_follow S (p @ ''.bak'') \<or> wq_backup req = Some False \<longrightarrow> fs' q = fs q)
    \<and> (wr_success r \<longrightarrow> fs' p = Some (wq_content req) \<and> wr_path r = p)
    \<and> (wr_success r \<and> wq_backup req \<noteq> Some False \<and> po_exists S p \<and> po_follow S (p @ ''.bak'') \<noteq> p \<longrightarrow>
         fs' (po_follow S (p @ ''.bak'')) = fs p))"
proof (cases "length (wq_content req) > MAX_WRITE_BYTES \<or> isl (validate_path S (wq_path req))")
  case True
  with assms show ?thesis by (auto simp: write_file_handler_def write_failed_def split: sum.splits if_splits)
next
  case False
  then obtain p where len: "length (wq_content req) \<le> MAX_WRITE_BYTES" and p: "validate_path S (wq_path req) = Inr p"
    by (cases "validate_path S (wq_path req)") auto
  define copying where "copying \<longleftrightarrow> set_or True (wq_backup req) \<and> po_exists S p"
  let ?bak = "p @ ''.bak''"
  obtain c fs1 where c: "(if copying then copy_file S p ?bak fs else (Inr (), fs)) = (c, fs1)" by fastforce
  have no: "\<not> copying" if "wq_backup req = Some False" using that by (simp add: copying_def set_or_def)
  have yes: "copying" if "wq_backup req \<noteq> Some False" "po_exists S p"
    using that by (cases "wq_backup req") (auto simp: copying_def set_or_def)
  have c1: "fs1 q = fs q" if "q \<noteq> po_follow S ?bak \<or> wq_backup req = Some False" for q
    using that c no copy_file_changes(1) [of S p ?bak fs c fs1 q] by (auto split: if_splits)
  have c2: "fs1 (po_follow S ?bak) = fs p"
    if "c = Inr ()" "wq_backup req \<noteq> Some False" "po_exists S p" "po_follow S ?bak \<noteq> p"
    using that c yes copy_file_changes(2) [of S p ?bak fs "()" fs1] by auto
  note h = assms [unfolded write_file_handler_def Let_def backup_of_eq p sum.case, folded copying_def, unfolded c prod.case]
  show ?thesis
  proof (cases "c = Inr () \<and> po_mkdir S p = None")
    case False
    with h len have "fs' = fs1" "\<not> wr_success r"
      by (auto simp: write_failed_def split: sum.splits option.splits)
    with c1 p len show ?thesis by blast
  next
    case True
    obtain w fs2 where w: "overwrite_file S p (wq_content req) fs1 = (w, fs2)" by fastforce
    with True h len have f: "fs' = fs2" "wr_success r \<longleftrightarrow> w = Inr ()" "w = Inr () \<Longrightarrow> wr_path r = p"
      by (auto simp: write_failed_def split: sum.splits)
    have o: "fs' q = fs1 q" if "q \<noteq> p" for q using overwrite_file_changes(1) [OF w that] f(1) by simp
    have "wr_success r \<longrightarrow> fs' p = Some (wq_content req) \<and> wr_path r = p"
      using f overwrite_file_changes(2) [of S p "wq_content req" fs1 "()" fs2] w by auto
    moreover have "wr_success r \<and> wq_backup req \<noteq> Some False \<and> po_exists S p \<and> po_follow S ?bak \<noteq> p \<longrightarrow>
        fs' (po_follow S ?bak) = fs p"
      using o c2 True by auto
    ultimately show ?thesis using p len o c1 by auto
  qed
qed

text \<open>The list is sorted, and holds only code files that are not hidden.\<close>

lemma list_files_ok:
  assumes "list_files_handler S rd given = (d, es, None)"
  shows "sorted (map fe_name es) \<and> (\<forall>e\<in>set es. fe_extension e \<in> set CODE_EXTS \<and> \<not> starts_with (fe_name e) ''.'')"
proof -
  have one: "list_one dir en = Some e \<Longrightarrow> fe_extension e \<in> set CODE_EXTS \<and> \<not> starts_with (fe_name e) ''.''" for dir en e
    by (cases en) (auto simp: list_one_def Let_def simp del: set_simps split: if_splits)
  from assms obtain dir names where "es = sort_key fe_name (List.map_filter (list_one dir) names)"
    by (auto simp: list_files_handler_def Let_def split: sum.splits option.splits)
  moreover have "e \<in> set (List.map_filter (list_one dir) names) \<Longrightarrow> \<exists>en. list_one dir en = Some e" for e
    by (force simp: List.map_filter_def)
  ultimately have "sorted (map fe_name es)" and m: "\<And>e. e \<in> set es \<Longrightarrow> \<exists>en. list_one dir en = Some e" by auto
  then show ?thesis using one by blast
qed

text \<open>
  The host of an address by the generic syntax (RFC 3986): the authority ends at a slash, a question mark
  or a hash, and what stands before an at sign in it is user information.
\<close>

definition url_authority :: "string \<Rightarrow> string" where
  "url_authority url = takeWhile (\<lambda>c. c \<noteq> CHR ''/'' \<and> c \<noteq> CHR ''?'' \<and> c \<noteq> CHR ''#'') (drop (length ''http://'') url)"

definition url_host :: "string \<Rightarrow> string" where
  "url_host url =
     (let a = url_authority url; h = rev (takeWhile (\<lambda>c. c \<noteq> CHR ''@'') (rev a))
      in takeWhile (\<lambda>c. c \<noteq> CHR '':'') h)"

lemma relay_sends_only_local:
  "snd (relay_handler post req) = Some (u, b) \<Longrightarrow> local_target u \<and> b = relay_body req"
proof -
  assume a: "snd (relay_handler post req) = Some (u, b)"
  then have "local_target (str_trim (rl_base_url req))" "u = str_trim (rl_base_url req) @ rl_chat_path req" "b = relay_body req"
    by (auto simp: relay_handler_def Let_def split: if_splits)
  moreover have "starts_with s p \<Longrightarrow> starts_with (s @ t) p" for s t p :: string
    unfolding starts_with_def by (metis append_take_drop_id append.assoc append_eq_conv_conj)
  ultimately show ?thesis unfolding local_target_def by blast
qed

definition escaping_request :: relay_request where
  "escaping_request = \<lparr>rl_base_url = ''http://127.0.0.1:80'', rl_chat_path = ''@example.com/collect'', rl_api_style = ''openai'',
     rl_message = ''x'', rl_system = None, rl_history = None\<rparr>"

lemma relay_escapes:
  "\<exists>u b. snd (relay_handler post escaping_request) = Some (u, b) \<and> url_host u = ''example.com''"
  by (simp add: relay_handler_def escaping_request_def local_target_def starts_with_def str_trim_def is_ws_def
      url_host_def url_authority_def Let_def)

lemma probe_paths_ports:
  "probe_paths http_get port ps (found, k) = (found', k') \<Longrightarrow>
     (\<forall>e\<in>set found'. e \<in> set found \<or> (ae_port e = port \<and> ae_base_url e = local_base port)) \<and> k \<le> k' \<and> k' \<le> k + length ps"
proof (induction ps arbitrary: found k)
  case (Cons p ps)
  show ?case
  proof (cases "http_get (local_base port @ p) = None")
    case True
    with Cons.prems have "probe_paths http_get port ps (found, k + 1) = (found', k')" by simp
    from Cons.IH [OF this] show ?thesis by auto
  next
    case False
    with Cons.prems show ?thesis by (auto split: if_splits)
  qed
qed simp

text \<open>
  Installing through the route writes no marker: the status goes on saying that the start with the
  system is not enabled. The function that does write the marker has no route.
\<close>

lemma install_keeps_status:
  assumes "install_autostart_handler S pf sch fs = (r, cmds, fs')"
    and "marker_path (os_env S) \<noteq> plist_path (os_env S)" "marker_path (os_env S) \<noteq> service_path (os_env S)"
  shows "autostart_is_enabled (os_env S) fs' = autostart_is_enabled (os_env S) fs"
  using assms
  by (auto simp: install_autostart_handler_def write_file_def autostart_is_enabled_def Let_def
      split: platform.splits if_splits sum.splits prod.splits)

text \<open>A plug-in file alone counts as a passed test.\<close>

lemma toml_counts_as_tested:
  assumes "\<forall>p\<in>set (mcp_candidates env). fs p = None" "p \<in> set (toml_candidates env)" "fs p \<noteq> None"
  shows "ic_auth_test_passed (integration_check_handler env False agent fs)"
proof -
  have "find (\<lambda>p. case fs p of Some t \<Rightarrow> mentions_a1 t | None \<Rightarrow> False) (mcp_candidates env) = None"
    using assms(1) by (auto simp: find_None_iff)
  moreover have "find (\<lambda>p. fs p \<noteq> None) (toml_candidates env) \<noteq> None"
    using assms(2,3) by (auto simp: find_None_iff)
  ultimately show ?thesis by (auto simp: integration_check_handler_def)
qed

text \<open>The proxy never sends unless the key has the provider's form, and the key goes to the provider only.\<close>

lemma chat_handler_unconfigured:
  "\<not> starts_with (env_text env ''A1_AI_KEY'') ''sk-ant-'' \<Longrightarrow> chat_handler env client req = proxy_not_configured"
  by (auto simp: chat_handler_def env_text_def split: option.split)

end
