(* ===== verification/A1_GwConnect.thy ===== *)
theory A1_GwConnect
  imports A1_GwAgents "HOL-Library.AList"
begin

text \<open>
  The routes by which the Studio finds the agents installed on the machine, connects them to the
  gateway and disconnects them, \<open>a1-gateway/src/routes/agent_connect.rs\<close>. The disk is the texts that
  can be read and the directories there are; what a directory request creates, which files exist
  without being readable, and the programs a command runs are in \<open>agent_os\<close>. Texts outside ASCII are
  written as their bytes.
\<close>

section \<open>The machine\<close>

record agent_os = os +
  ac_cwd :: "string option"
  ac_mkdir :: "string \<Rightarrow> (string \<Rightarrow> bool) \<Rightarrow> string \<Rightarrow> bool"
  ac_opaque :: "string \<Rightarrow> bool"
  ac_remove_msg :: "string \<Rightarrow> string"
  ac_shell :: "string \<Rightarrow> string + bool \<times> string \<times> string"
  ac_spawn :: "string \<Rightarrow> string + string list \<times> string list \<times> bool"

record disk =
  dk_files :: files
  dk_dirs :: "string \<Rightarrow> bool"

definition path_exists :: "agent_os \<Rightarrow> disk \<Rightarrow> string \<Rightarrow> bool" where
  "path_exists S d p \<longleftrightarrow> dk_files d p \<noteq> None \<or> ac_opaque S p \<or> dk_dirs d p"

definition is_file :: "agent_os \<Rightarrow> disk \<Rightarrow> string \<Rightarrow> bool" where
  "is_file S d p \<longleftrightarrow> dk_files d p \<noteq> None \<or> ac_opaque S p"

definition make_dirs :: "agent_os \<Rightarrow> string \<Rightarrow> disk \<Rightarrow> disk" where
  "make_dirs S p d = d\<lparr>dk_dirs := ac_mkdir S p (dk_dirs d)\<rparr>"

definition write_disk :: "agent_os \<Rightarrow> string \<Rightarrow> string \<Rightarrow> disk \<Rightarrow> (string + unit) \<times> disk" where
  "write_disk S p t d = (case write_file (os.truncate S) p t (dk_files d) of (r, fs) \<Rightarrow> (r, d\<lparr>dk_files := fs\<rparr>))"

text \<open>\<open>Path::join\<close> on a directory that may be the empty path.\<close>

definition under :: "string \<Rightarrow> string \<Rightarrow> string" where
  "under dir f = (if dir = [] then f else join_path dir f)"

definition home :: "agent_os \<Rightarrow> disk \<Rightarrow> string" where
  "home S d =
     (if os_env S ''A1_RUNNING_IN_DOCKER'' \<noteq> None \<and> os_env S ''A1_HOST_HOME'' \<noteq> None \<and> path_exists S d ''/host-home''
      then ''/host-home''
      else case os_env S ''HOME'' of Some h \<Rightarrow> h | None \<Rightarrow> set_or ''/tmp'' (os_env S ''USERPROFILE''))"

definition which_binary :: "agent_os \<Rightarrow> disk \<Rightarrow> string \<Rightarrow> string option" where
  "which_binary S d name =
     find (\<lambda>p. path_exists S d p \<and> is_file S d p)
       (map (\<lambda>dir. under dir name) (split_all CHR '':'' (set_or [] (os_env S ''PATH''))))"

definition current_dir :: "agent_os \<Rightarrow> disk \<Rightarrow> string" where
  "current_dir S d = set_or (home S d) (ac_cwd S)"

section \<open>Known agents\<close>

record known_agent =
  ka_id :: string
  ka_name :: string
  ka_description :: string
  ka_icon :: string
  ka_connect_method :: string
  ka_homepage :: string
  ka_install_cmd_unix :: string
  ka_install_cmd_win :: string
  ka_uninstall_cmd :: string
  ka_recommended :: bool

definition known_ironclaw :: known_agent where
  "known_ironclaw =
     \<lparr>ka_id = ''ironclaw'', ka_name = ''IronClaw'', ka_description = ''Security-focused Rust AI agent runtime. WASM sandboxes, encrypted enclaves, memory safety. Recommended for A1.'',
       ka_icon = [CHR 0xF0, CHR 0x9F, CHR 0xA6, CHR 0xBE], ka_connect_method = ''config_toml'', ka_homepage = ''https://github.com/ironclaw/ironclaw'',
       ka_install_cmd_unix = ''cargo install ironclaw'',
       ka_install_cmd_win = ''cargo install ironclaw'',
       ka_uninstall_cmd = ''cargo uninstall ironclaw'', ka_recommended = True\<rparr>"

definition known_openclaw :: known_agent where
  "known_openclaw =
     \<lparr>ka_id = ''openclaw'', ka_name = ''OpenClaw'', ka_description = ''Open-source personal AI agent (Node.js). Runs locally, connects to WhatsApp, Telegram, email, calendar, and browser.'',
       ka_icon = [CHR 0xF0, CHR 0x9F, CHR 0xA6, CHR 0x85], ka_connect_method = ''mcp_json'', ka_homepage = ''https://github.com/openclaw/openclaw'',
       ka_install_cmd_unix = (''mkdir -p '' @ [CHR 0x22] @ ''$HOME/.npm-global'' @ [CHR 0x22] @ '' && npm install --prefix '' @ [CHR 0x22]
       @ ''$HOME/.npm-global'' @ [CHR 0x22] @ '' openclaw --no-fund --no-audit && echo '' @ [CHR 0x27]
       @ [CHR 0xE2, CHR 0x9C, CHR 0x93] @ '' Add $HOME/.npm-global/bin to PATH: export PATH='' @ [CHR 0x22]
       @ ''$HOME/.npm-global/bin:$PATH'' @ [CHR 0x22] @ [CHR 0x27]),
       ka_install_cmd_win = ''npm install -g openclaw --no-fund --no-audit'',
       ka_uninstall_cmd = (''npm uninstall --prefix '' @ [CHR 0x22] @ ''$HOME/.npm-global'' @ [CHR 0x22]
       @ '' openclaw 2>/dev/null || npm uninstall -g openclaw''), ka_recommended = False\<rparr>"

definition known_claude_code :: known_agent where
  "known_claude_code =
     \<lparr>ka_id = ''claude_code'', ka_name = ''Claude Code'', ka_description = ''Anthropic's AI coding agent. Runs in your terminal and edits code directly.'',
       ka_icon = [CHR 0xF0, CHR 0x9F, CHR 0xA4, CHR 0x96], ka_connect_method = ''mcp_json'', ka_homepage = ''https://claude.ai/code'',
       ka_install_cmd_unix = (''mkdir -p '' @ [CHR 0x22] @ ''$HOME/.npm-global'' @ [CHR 0x22] @ '' && npm install --prefix '' @ [CHR 0x22]
       @ ''$HOME/.npm-global'' @ [CHR 0x22] @ '' @anthropic-ai/claude-code --no-fund --no-audit && echo '' @ [CHR 0x27]
       @ [CHR 0xE2, CHR 0x9C, CHR 0x93] @ '' Add $HOME/.npm-global/bin to PATH: export PATH='' @ [CHR 0x22]
       @ ''$HOME/.npm-global/bin:$PATH'' @ [CHR 0x22] @ [CHR 0x27]),
       ka_install_cmd_win = ''npm install -g @anthropic-ai/claude-code --no-fund --no-audit'',
       ka_uninstall_cmd = (''npm uninstall --prefix '' @ [CHR 0x22] @ ''$HOME/.npm-global'' @ [CHR 0x22]
       @ '' @anthropic-ai/claude-code 2>/dev/null || npm uninstall -g @anthropic-ai/claude-code''), ka_recommended = False\<rparr>"

definition known_claude_desktop :: known_agent where
  "known_claude_desktop =
     \<lparr>ka_id = ''claude_desktop'', ka_name = ''Claude Desktop'', ka_description = ''Anthropic's desktop AI assistant with MCP support.'',
       ka_icon = [CHR 0xF0, CHR 0x9F, CHR 0x92, CHR 0xAC], ka_connect_method = ''mcp_json'', ka_homepage = ''https://claude.ai/desktop'',
       ka_install_cmd_unix = (''echo 'Download from https://claude.ai/desktop'' @ [CHR 0x27]),
       ka_install_cmd_win = (''echo 'Download from https://claude.ai/desktop'' @ [CHR 0x27]),
       ka_uninstall_cmd = [], ka_recommended = False\<rparr>"

definition known_ollama :: known_agent where
  "known_ollama =
     \<lparr>ka_id = ''ollama'', ka_name = ''Ollama (Local LLM)'', ka_description = ''Run local LLMs (Llama 3, Mistral, Phi, Gemma) privately on your machine. No API key required.'',
       ka_icon = [CHR 0xF0, CHR 0x9F, CHR 0xA6, CHR 0x99], ka_connect_method = ''mcp_json'', ka_homepage = ''https://ollama.ai'',
       ka_install_cmd_unix = ''curl -fsSL https://ollama.ai/install.sh | sh'',
       ka_install_cmd_win = ''winget install Ollama.Ollama'',
       ka_uninstall_cmd = ''which ollama && sudo rm $(which ollama) || true'', ka_recommended = False\<rparr>"

definition known_langchain :: known_agent where
  "known_langchain =
     \<lparr>ka_id = ''langchain'', ka_name = ''LangChain'', ka_description = ''Popular Python AI agent framework for chaining LLM calls and tools.'',
       ka_icon = [CHR 0xF0, CHR 0x9F, CHR 0xA6, CHR 0x9C], ka_connect_method = ''mcp_json'', ka_homepage = ''https://langchain.com'',
       ka_install_cmd_unix = ''pip3 install --break-system-packages --user langchain langchain-openai 2>/dev/null || pip3 install --user langchain langchain-openai 2>/dev/null || python3 -m pip install --break-system-packages --user langchain langchain-openai'',
       ka_install_cmd_win = ''pip install langchain langchain-openai'',
       ka_uninstall_cmd = ''pip3 uninstall -y langchain 2>/dev/null || python3 -m pip uninstall -y langchain'', ka_recommended = False\<rparr>"

definition known_crewai :: known_agent where
  "known_crewai =
     \<lparr>ka_id = ''crewai'', ka_name = ''CrewAI'', ka_description = ''Multi-agent framework. Groups of AI agents working as a crew on complex tasks.'',
       ka_icon = [CHR 0xE2, CHR 0x9B, CHR 0xB5], ka_connect_method = ''mcp_json'', ka_homepage = ''https://crewai.com'',
       ka_install_cmd_unix = ''pip3 install --break-system-packages --user crewai 2>/dev/null || pip3 install --user crewai 2>/dev/null || python3 -m pip install --break-system-packages --user crewai'',
       ka_install_cmd_win = ''pip install crewai'',
       ka_uninstall_cmd = ''pip3 uninstall -y crewai 2>/dev/null || python3 -m pip uninstall -y crewai'', ka_recommended = False\<rparr>"

definition known_openai_agents :: known_agent where
  "known_openai_agents =
     \<lparr>ka_id = ''openai_agents'', ka_name = ''OpenAI Agents SDK'', ka_description = ''OpenAI's official agent SDK for building agentic applications.'',
       ka_icon = [CHR 0xF0, CHR 0x9F, CHR 0x9F, CHR 0xA2], ka_connect_method = ''mcp_json'', ka_homepage = ''https://openai.com/agents'',
       ka_install_cmd_unix = ''pip3 install --break-system-packages --user openai-agents 2>/dev/null || pip3 install --user openai-agents 2>/dev/null || python3 -m pip install --break-system-packages --user openai-agents'',
       ka_install_cmd_win = ''pip install openai-agents'',
       ka_uninstall_cmd = ''pip3 uninstall -y openai-agents 2>/dev/null || python3 -m pip uninstall -y openai-agents'', ka_recommended = False\<rparr>"

definition known_custom :: known_agent where
  "known_custom =
     \<lparr>ka_id = ''custom'', ka_name = ''Custom Agent'', ka_description = ''Any other AI agent or application. Connect via MCP config file or REST API.'',
       ka_icon = [CHR 0xE2, CHR 0x9A, CHR 0x99, CHR 0xEF, CHR 0xB8, CHR 0x8F], ka_connect_method = ''mcp_json'', ka_homepage = ''https://github.com/dyologician/a1'',
       ka_install_cmd_unix = [],
       ka_install_cmd_win = [],
       ka_uninstall_cmd = [], ka_recommended = False\<rparr>"

definition KNOWN_AGENTS :: "known_agent list" where
  "KNOWN_AGENTS = [known_ironclaw, known_openclaw, known_claude_code, known_claude_desktop, known_ollama, known_langchain, known_crewai, known_openai_agents, known_custom]"

section \<open>Finding installed agents\<close>

definition note_path :: "string \<Rightarrow> string list \<Rightarrow> string list" where
  "note_path s checked = (if s \<in> set checked then checked else checked @ [s])"

text \<open>The candidates in turn, each noted, up to the first that is a directory.\<close>

fun first_dir :: "disk \<Rightarrow> string list \<Rightarrow> string list \<Rightarrow> string option \<times> string list" where
  "first_dir d [] checked = (None, checked)"
| "first_dir d (p # ps) checked =
     (if dk_dirs d p then (Some p, note_path p checked) else first_dir d ps (note_path p checked))"

text \<open>Failing them, a program on the path makes the fallback directory.\<close>

definition or_binary :: "agent_os \<Rightarrow> string \<Rightarrow> string \<Rightarrow> string list \<times> disk \<Rightarrow> string option \<times> string list \<times> disk" where
  "or_binary S name fallback st =
     (case st of (checked, d) \<Rightarrow>
       if which_binary S d name \<noteq> None then (Some fallback, note_path fallback checked, make_dirs S fallback d)
       else (None, checked, d))"

type_synonym finder = "string list \<times> disk \<Rightarrow> string option \<times> string list \<times> disk"

definition find_ironclaw :: "agent_os \<Rightarrow> finder" where
  "find_ironclaw S st =
     (case st of (checked, d) \<Rightarrow> (let h = home S d in
       case first_dir d [under h ''.ironclaw'', under h ''ironclaw'', under (under h ''.config'') ''ironclaw''] checked of
         (Some p, ck) \<Rightarrow> (Some p, ck, d)
       | (None, ck) \<Rightarrow> or_binary S ''ironclaw'' (under h ''.ironclaw'') (ck, d)))"

definition find_openclaw :: "agent_os \<Rightarrow> finder" where
  "find_openclaw S st =
     (case st of (checked, d) \<Rightarrow> (let h = home S d in
       case first_dir d [under h ''.openclaw'', under h ''openclaw'', under (under h ''.config'') ''openclaw'',
                         under (under (under h ''AppData'') ''Roaming'') ''openclaw''] checked of
         (Some p, ck) \<Rightarrow> (Some p, ck, d)
       | (None, ck) \<Rightarrow> or_binary S ''openclaw'' (under h ''.openclaw'') (ck, d)))"

definition find_claude_code :: "agent_os \<Rightarrow> finder" where
  "find_claude_code S st =
     (case st of (checked, d) \<Rightarrow> (let h = home S d in
       case first_dir d [under h ''.claude'', under (under h ''.config'') ''claude'',
                         under (under (under h ''AppData'') ''Roaming'') ''claude''] checked of
         (Some p, ck) \<Rightarrow> (Some p, ck, d)
       | (None, ck) \<Rightarrow>
           if path_exists S d (under (under (under h ''.npm-global'') ''bin'') ''claude'')
           then (Some (under h ''.claude''), ck, make_dirs S (under h ''.claude'') d)
           else or_binary S ''claude'' (under h ''.claude'') (ck, d)))"

definition find_claude_desktop :: "agent_os \<Rightarrow> finder" where
  "find_claude_desktop S st =
     (case st of (checked, d) \<Rightarrow> (let h = home S d in
       case first_dir d [under (under (under h ''Library'') ''Application Support'') ''Claude'',
                         under (under h ''.config'') ''Claude'',
                         under (under (under h ''AppData'') ''Roaming'') ''Claude''] checked of
         (p, ck) \<Rightarrow> (p, ck, d)))"

definition find_ollama :: "agent_os \<Rightarrow> finder" where
  "find_ollama S st =
     (case st of (checked, d) \<Rightarrow> (let h = home S d in
       case first_dir d [under h ''.ollama'', under (under (under h ''Library'') ''Application Support'') ''Ollama''] checked of
         (Some p, ck) \<Rightarrow> (Some p, ck, d)
       | (None, ck) \<Rightarrow> or_binary S ''ollama'' (under h ''.ollama'') (ck, d)))"

definition find_python_agent :: "agent_os \<Rightarrow> string \<Rightarrow> finder" where
  "find_python_agent S pkg st =
     (case st of (checked, d) \<Rightarrow>
       let ck = note_path (''python3 -c import '' @ pkg) checked;
           ok = (case ac_shell S (''python3 -c '' @ [CHR 0x22] @ ''import '' @ pkg @ [CHR 0x22] @ '' 2>/dev/null && echo ok'') of
                   Inr (_, out, _) \<Rightarrow> contains out ''ok'' | Inl _ \<Rightarrow> False)
       in (if ok then Some (current_dir S d) else None, ck, d))"

section \<open>Whether an agent is connected\<close>

definition quoted_a1 :: string where "quoted_a1 = ([CHR 0x22] @ ''a1'' @ [CHR 0x22])"

definition ironclaw_connected :: "agent_os \<Rightarrow> disk \<Rightarrow> string \<Rightarrow> bool \<times> string option" where
  "ironclaw_connected S d dir =
     (let p = under dir ''a1_plugin.toml'' in if path_exists S d p then (True, Some p) else (False, None))"

definition mcp_connected :: "agent_os \<Rightarrow> disk \<Rightarrow> string \<Rightarrow> bool \<times> string option" where
  "mcp_connected S d dir =
     (let p = under dir ''.mcp.json'' in
      if path_exists S d p
      then (case dk_files d p of Some c \<Rightarrow> if contains c quoted_a1 then (True, Some p) else (False, None)
            | None \<Rightarrow> (False, None))
      else (False, None))"

section \<open>Scanning\<close>

record detected_agent =
  da_id :: string
  da_name :: string
  da_description :: string
  da_icon :: string
  da_homepage :: string
  da_connect_method :: string
  da_install_path :: "string option"
  da_connected :: bool
  da_config_file :: "string option"
  da_connect_hint :: string
  da_install_cmd_unix :: string
  da_install_cmd_win :: string
  da_uninstall_cmd :: string
  da_recommended :: bool

record scan_response =
  sr_agents :: "detected_agent list"
  sr_scan_paths_checked :: "string list"

text \<open>One block of the scan: find the directory, then look for the connection in it.\<close>

definition detect :: "agent_os \<Rightarrow> finder \<Rightarrow> (agent_os \<Rightarrow> disk \<Rightarrow> string \<Rightarrow> bool \<times> string option) \<Rightarrow> detected_agent
    \<Rightarrow> string list \<times> disk \<Rightarrow> detected_agent \<times> string list \<times> disk" where
  "detect S look connected_in entry st =
     (case look st of (p, checked, d) \<Rightarrow>
       (case (case p of Some dir \<Rightarrow> connected_in S d dir | None \<Rightarrow> (False, None)) of (c, f) \<Rightarrow>
         (entry\<lparr>da_install_path := p, da_connected := c, da_config_file := f\<rparr>, checked, d)))"

definition scan_ironclaw :: "agent_os \<Rightarrow> string list \<times> disk \<Rightarrow> detected_agent \<times> string list \<times> disk" where
  "scan_ironclaw S st =
     detect S (find_ironclaw S) ironclaw_connected
       \<lparr>da_id = ''ironclaw'', da_name = ''IronClaw'', da_description = ''Security-focused Rust AI agent runtime. WASM sandboxes, encrypted enclaves, memory safety. Recommended for A1.'',
       da_icon = [CHR 0xF0, CHR 0x9F, CHR 0xA6, CHR 0xBE], da_homepage = ''https://github.com/ironclaw/ironclaw'', da_connect_method = ''config_toml'',
       da_install_path = None, da_connected = False, da_config_file = None,
       da_connect_hint = ''Writes a1_plugin.toml to IronClaw's config directory'',
       da_install_cmd_unix = ''cargo install ironclaw'',
       da_install_cmd_win = ''cargo install ironclaw'',
       da_uninstall_cmd = ''cargo uninstall ironclaw'', da_recommended = True\<rparr> st"

definition scan_openclaw :: "agent_os \<Rightarrow> string list \<times> disk \<Rightarrow> detected_agent \<times> string list \<times> disk" where
  "scan_openclaw S st =
     detect S (find_openclaw S) mcp_connected
       \<lparr>da_id = ''openclaw'', da_name = ''OpenClaw'', da_description = ''Open-source personal AI agent (Node.js). Runs locally, connects to WhatsApp, Telegram, email, calendar, and browser.'',
       da_icon = [CHR 0xF0, CHR 0x9F, CHR 0xA6, CHR 0x85], da_homepage = ''https://github.com/openclaw/openclaw'', da_connect_method = ''mcp_json'',
       da_install_path = None, da_connected = False, da_config_file = None,
       da_connect_hint = ''Writes .mcp.json to OpenClaw's config directory'',
       da_install_cmd_unix = (''mkdir -p '' @ [CHR 0x22] @ ''$HOME/.npm-global'' @ [CHR 0x22] @ '' && npm install --prefix '' @ [CHR 0x22]
       @ ''$HOME/.npm-global'' @ [CHR 0x22] @ '' openclaw --no-fund --no-audit && echo '' @ [CHR 0x27]
       @ [CHR 0xE2, CHR 0x9C, CHR 0x93] @ '' Add $HOME/.npm-global/bin to PATH: export PATH='' @ [CHR 0x22]
       @ ''$HOME/.npm-global/bin:$PATH'' @ [CHR 0x22] @ [CHR 0x27]),
       da_install_cmd_win = ''npm install -g openclaw --no-fund --no-audit'',
       da_uninstall_cmd = (''npm uninstall --prefix '' @ [CHR 0x22] @ ''$HOME/.npm-global'' @ [CHR 0x22]
       @ '' openclaw 2>/dev/null || npm uninstall -g openclaw''), da_recommended = False\<rparr> st"

definition scan_claude_code :: "agent_os \<Rightarrow> string list \<times> disk \<Rightarrow> detected_agent \<times> string list \<times> disk" where
  "scan_claude_code S st =
     detect S (find_claude_code S) mcp_connected
       \<lparr>da_id = ''claude_code'', da_name = ''Claude Code'', da_description = ''Anthropic's AI coding agent. Runs in your terminal and edits code directly.'',
       da_icon = [CHR 0xF0, CHR 0x9F, CHR 0xA4, CHR 0x96], da_homepage = ''https://claude.ai/code'', da_connect_method = ''mcp_json'',
       da_install_path = None, da_connected = False, da_config_file = None,
       da_connect_hint = ''Adds A1 to ~/.claude/.mcp.json'',
       da_install_cmd_unix = (''mkdir -p '' @ [CHR 0x22] @ ''$HOME/.npm-global'' @ [CHR 0x22] @ '' && npm install --prefix '' @ [CHR 0x22]
       @ ''$HOME/.npm-global'' @ [CHR 0x22] @ '' @anthropic-ai/claude-code --no-fund --no-audit && echo '' @ [CHR 0x27]
       @ [CHR 0xE2, CHR 0x9C, CHR 0x93] @ '' Add $HOME/.npm-global/bin to PATH: export PATH='' @ [CHR 0x22]
       @ ''$HOME/.npm-global/bin:$PATH'' @ [CHR 0x22] @ [CHR 0x27]),
       da_install_cmd_win = ''npm install -g @anthropic-ai/claude-code --no-fund --no-audit'',
       da_uninstall_cmd = (''npm uninstall --prefix '' @ [CHR 0x22] @ ''$HOME/.npm-global'' @ [CHR 0x22]
       @ '' @anthropic-ai/claude-code 2>/dev/null || npm uninstall -g @anthropic-ai/claude-code''), da_recommended = False\<rparr> st"

definition scan_claude_desktop :: "agent_os \<Rightarrow> string list \<times> disk \<Rightarrow> detected_agent \<times> string list \<times> disk" where
  "scan_claude_desktop S st =
     detect S (find_claude_desktop S) mcp_connected
       \<lparr>da_id = ''claude_desktop'', da_name = ''Claude Desktop'', da_description = ''Anthropic's desktop AI assistant with MCP support.'',
       da_icon = [CHR 0xF0, CHR 0x9F, CHR 0x92, CHR 0xAC], da_homepage = ''https://claude.ai/desktop'', da_connect_method = ''mcp_json'',
       da_install_path = None, da_connected = False, da_config_file = None,
       da_connect_hint = ''Adds A1 to Claude Desktop's config'',
       da_install_cmd_unix = [],
       da_install_cmd_win = [],
       da_uninstall_cmd = [], da_recommended = False\<rparr> st"

definition scan_ollama :: "agent_os \<Rightarrow> string list \<times> disk \<Rightarrow> detected_agent \<times> string list \<times> disk" where
  "scan_ollama S st =
     detect S (find_ollama S) mcp_connected
       \<lparr>da_id = ''ollama'', da_name = ''Ollama (Local LLM)'', da_description = ''Run Llama 3, Mistral, Phi, Gemma locally. No API key, full privacy.'',
       da_icon = [CHR 0xF0, CHR 0x9F, CHR 0xA6, CHR 0x99], da_homepage = ''https://ollama.ai'', da_connect_method = ''mcp_json'',
       da_install_path = None, da_connected = False, da_config_file = None,
       da_connect_hint = ''Adds A1 as an MCP server for Ollama agents'',
       da_install_cmd_unix = ''curl -fsSL https://ollama.ai/install.sh | sh'',
       da_install_cmd_win = ''winget install Ollama.Ollama'',
       da_uninstall_cmd = ''which ollama && sudo rm $(which ollama) || true'', da_recommended = False\<rparr> st"

definition scan_langchain :: "agent_os \<Rightarrow> string list \<times> disk \<Rightarrow> detected_agent \<times> string list \<times> disk" where
  "scan_langchain S st =
     detect S (find_python_agent S ''langchain'') mcp_connected
       \<lparr>da_id = ''langchain'', da_name = ''LangChain'', da_description = ''Popular Python AI agent framework for chaining LLM calls and tools.'',
       da_icon = [CHR 0xF0, CHR 0x9F, CHR 0xA6, CHR 0x9C], da_homepage = ''https://langchain.com'', da_connect_method = ''mcp_json'',
       da_install_path = None, da_connected = False, da_config_file = None,
       da_connect_hint = ''Adds A1 guard to your LangChain project directory'',
       da_install_cmd_unix = ''pip3 install --break-system-packages --user langchain langchain-openai 2>/dev/null || pip3 install --user langchain langchain-openai 2>/dev/null || python3 -m pip install --break-system-packages --user langchain langchain-openai'',
       da_install_cmd_win = ''pip install langchain langchain-openai'',
       da_uninstall_cmd = ''pip3 uninstall -y langchain 2>/dev/null || python3 -m pip uninstall -y langchain'', da_recommended = False\<rparr> st"

definition scan_crewai :: "agent_os \<Rightarrow> string list \<times> disk \<Rightarrow> detected_agent \<times> string list \<times> disk" where
  "scan_crewai S st =
     detect S (find_python_agent S ''crewai'') mcp_connected
       \<lparr>da_id = ''crewai'', da_name = ''CrewAI'', da_description = ''Multi-agent framework. Groups of AI agents working as a crew.'',
       da_icon = [CHR 0xE2, CHR 0x9B, CHR 0xB5], da_homepage = ''https://crewai.com'', da_connect_method = ''mcp_json'',
       da_install_path = None, da_connected = False, da_config_file = None,
       da_connect_hint = ''Adds A1 guard to your CrewAI project directory'',
       da_install_cmd_unix = ''pip3 install --user crewai 2>/dev/null || python3 -m pip install --user crewai'',
       da_install_cmd_win = ''pip install crewai'',
       da_uninstall_cmd = ''pip3 uninstall -y crewai 2>/dev/null || python3 -m pip uninstall -y crewai'', da_recommended = False\<rparr> st"

definition scan_openai_agents :: "agent_os \<Rightarrow> string list \<times> disk \<Rightarrow> detected_agent \<times> string list \<times> disk" where
  "scan_openai_agents S st =
     detect S (find_python_agent S ''openai'') mcp_connected
       \<lparr>da_id = ''openai_agents'', da_name = ''OpenAI Agents SDK'', da_description = ''OpenAI's official agent SDK for building agentic applications.'',
       da_icon = [CHR 0xF0, CHR 0x9F, CHR 0x9F, CHR 0xA2], da_homepage = ''https://openai.com/agents'', da_connect_method = ''mcp_json'',
       da_install_path = None, da_connected = False, da_config_file = None,
       da_connect_hint = ''Adds A1 guard to your OpenAI Agents project'',
       da_install_cmd_unix = ''pip3 install --break-system-packages --user openai-agents 2>/dev/null || pip3 install --user openai-agents 2>/dev/null || python3 -m pip install --break-system-packages --user openai-agents'',
       da_install_cmd_win = ''pip install openai-agents'',
       da_uninstall_cmd = ''pip3 uninstall -y openai-agents 2>/dev/null || python3 -m pip uninstall -y openai-agents'', da_recommended = False\<rparr> st"

fun scan_all :: "(string list \<times> disk \<Rightarrow> detected_agent \<times> string list \<times> disk) list \<Rightarrow> string list \<times> disk
    \<Rightarrow> detected_agent list \<times> string list \<times> disk" where
  "scan_all [] st = ([], st)"
| "scan_all (f # fs) st = (case f st of (a, st1) \<Rightarrow> (case scan_all fs st1 of (as, st2) \<Rightarrow> (a # as, st2)))"

definition scan_handler :: "agent_os \<Rightarrow> disk \<Rightarrow> scan_response \<times> disk" where
  "scan_handler S d =
     (case scan_all [scan_ironclaw S, scan_openclaw S, scan_claude_code S, scan_claude_desktop S, scan_ollama S, scan_langchain S, scan_crewai S, scan_openai_agents S] ([], d) of
        (agents, checked, d') \<Rightarrow> (\<lparr>sr_agents = agents, sr_scan_paths_checked = checked\<rparr>, d'))"

section \<open>Texts of the configuration files\<close>

definition mcp_json_content :: "environment \<Rightarrow> string" where
  "mcp_json_content env =
     (''{'' @ nl @ ''  '' @ [CHR 0x22] @ ''mcpServers'' @ [CHR 0x22] @ '': {'' @ nl @ ''    '' @ [CHR 0x22] @ ''a1''
       @ [CHR 0x22] @ '': {'' @ nl @ ''      '' @ [CHR 0x22] @ ''type'' @ [CHR 0x22] @ '': '' @ [CHR 0x22] @ ''http''
       @ [CHR 0x22] @ '','' @ nl @ ''      '' @ [CHR 0x22] @ ''url'' @ [CHR 0x22] @ '': '' @ [CHR 0x22]
       @ public_base env @ ''/mcp'' @ [CHR 0x22] @ '','' @ nl @ ''      '' @ [CHR 0x22] @ ''description'' @ [CHR 0x22]
       @ '': '' @ [CHR 0x22] @ ''A1 '' @ [CHR 0xE2, CHR 0x80, CHR 0x94] @ '' cryptographic agent authorization''
       @ [CHR 0x22] @ nl @ ''    }'' @ nl @ ''  }'' @ nl @ ''}'')"

definition ironclaw_toml_content :: "environment \<Rightarrow> string" where
  "ironclaw_toml_content env =
     (''# A1 Plugin for IronClaw'' @ nl @ ''# Generated by A1 Studio '' @ [CHR 0xE2, CHR 0x80, CHR 0x94]
       @ '' do not edit manually.'' @ nl @ nl @ ''[plugin.a1]'' @ nl @ ''enabled       = true'' @ nl
       @ ''gateway_url   = '' @ [CHR 0x22] @ public_base env @ [CHR 0x22] @ nl @ ''authorize_url = '' @ [CHR 0x22]
       @ public_base env @ ''/v1/authorize'' @ [CHR 0x22] @ nl @ ''health_url    = '' @ [CHR 0x22] @ public_base env
       @ ''/health'' @ [CHR 0x22] @ nl @ ''version       = '' @ [CHR 0x22] @ ''2.8.0'' @ [CHR 0x22] @ nl @ nl
       @ ''[plugin.a1.policy]'' @ nl @ ''# Tools IronClaw is permitted to call through A1'' @ nl @ ''allow = [''
       @ [CHR 0x22] @ ''files.read'' @ [CHR 0x22] @ '', '' @ [CHR 0x22] @ ''web.search'' @ [CHR 0x22] @ '', ''
       @ [CHR 0x22] @ ''web.fetch'' @ [CHR 0x22] @ '', '' @ [CHR 0x22] @ ''shell.run'' @ [CHR 0x22] @ '']'' @ nl
       @ ''# Tools that require explicit human approval'' @ nl @ ''require_approval = ['' @ [CHR 0x22] @ ''files.write''
       @ [CHR 0x22] @ '', '' @ [CHR 0x22] @ ''shell.exec_privileged'' @ [CHR 0x22] @ '']'' @ nl
       @ ''# Tools that are always denied'' @ nl @ ''deny = ['' @ [CHR 0x22] @ ''network.raw_socket'' @ [CHR 0x22]
       @ '', '' @ [CHR 0x22] @ ''process.kill_system'' @ [CHR 0x22] @ '', '' @ [CHR 0x22] @ ''registry.write''
       @ [CHR 0x22] @ '']'' @ nl @ nl @ ''[plugin.a1.audit]'' @ nl @ ''enabled   = true'' @ nl @ ''audit_log = ''
       @ [CHR 0x22] @ ''~/.ironclaw/a1-audit.jsonl'' @ [CHR 0x22] @ nl)"

definition a1_entry :: "environment \<Rightarrow> string" where
  "a1_entry env =
     ([CHR 0x22] @ ''a1'' @ [CHR 0x22] @ '': {'' @ [CHR 0x22] @ ''type'' @ [CHR 0x22] @ '': '' @ [CHR 0x22] @ ''http''
       @ [CHR 0x22] @ '', '' @ [CHR 0x22] @ ''url'' @ [CHR 0x22] @ '': '' @ [CHR 0x22] @ public_base env @ ''/mcp''
       @ [CHR 0x22] @ '', '' @ [CHR 0x22] @ ''description'' @ [CHR 0x22] @ '': '' @ [CHR 0x22] @ ''A1 ''
       @ [CHR 0xE2, CHR 0x80, CHR 0x94] @ '' cryptographic agent authorization'' @ [CHR 0x22] @ ''}'')"

text \<open>\<open>str::find\<close>: where the first occurrence starts.\<close>

fun str_find :: "string \<Rightarrow> string \<Rightarrow> nat option" where
  "str_find [] n = (if n = [] then Some 0 else None)"
| "str_find (c # s) n = (if starts_with (c # s) n then Some 0 else map_option Suc (str_find s n))"

definition merge_mcp_json :: "environment \<Rightarrow> string \<Rightarrow> string option" where
  "merge_mcp_json env existing =
     (case str_find existing ([CHR 0x22] @ ''mcpServers'' @ [CHR 0x22]) of
        None \<Rightarrow> None
      | Some i \<Rightarrow>
          (case str_find (drop i existing) [CHR 0x7B] of
             None \<Rightarrow> None
           | Some b \<Rightarrow> (let at = i + b + 1 in
               Some (take at existing @ nl @ ''    '' @ a1_entry env @ '','' @ drop at existing))))"

definition merge_desktop_config :: "environment \<Rightarrow> string \<Rightarrow> string option" where
  "merge_desktop_config env existing = merge_mcp_json env existing"

section \<open>Connecting\<close>

record connect_request =
  cq_agent_id :: string
  cq_install_path :: "string option"

record connect_response =
  cn_connected :: bool
  cn_agent_id :: string
  cn_files_written :: "string list"
  cn_message :: string
  cn_next_step :: string

definition resolve_install :: "agent_os \<Rightarrow> connect_request \<Rightarrow> disk \<Rightarrow> string option \<times> disk" where
  "resolve_install S req d =
     (case cq_install_path req of
        Some p \<Rightarrow> (Some p, d)
      | None \<Rightarrow>
          (let run = (\<lambda>f. case f ([], d) of (p, _, d') \<Rightarrow> (p, d')); i = cq_agent_id req in
           if i = ''openclaw'' then run (find_openclaw S)
           else if i = ''ironclaw'' then run (find_ironclaw S)
           else if i = ''claude_code'' then run (find_claude_code S)
           else if i = ''claude_desktop'' then run (find_claude_desktop S)
           else if i = ''ollama'' then run (find_ollama S)
           else if i \<in> {''langchain'', ''crewai'', ''openai_agents'', ''custom''} then (Some (current_dir S d), d)
           else (None, d)))"

definition or_create :: "agent_os \<Rightarrow> string \<Rightarrow> string option \<times> disk \<Rightarrow> string \<times> disk" where
  "or_create S fallback pd =
     (case pd of (Some p, d) \<Rightarrow> (p, d) | (None, d) \<Rightarrow> (fallback, make_dirs S fallback d))"

definition connect_failed :: "string \<Rightarrow> string \<Rightarrow> string \<Rightarrow> connect_response" where
  "connect_failed i msg next_step =
     \<lparr>cn_connected = False, cn_agent_id = i, cn_files_written = [], cn_message = msg, cn_next_step = next_step\<rparr>"

definition mcp_fallback :: "agent_os \<Rightarrow> disk \<Rightarrow> string \<Rightarrow> string" where
  "mcp_fallback S d i =
     (if i = ''openclaw'' then under (home S d) ''.openclaw''
      else if i = ''claude_code'' then under (home S d) ''.claude''
      else if i = ''ollama'' then under (home S d) ''.ollama''
      else current_dir S d)"

definition mcp_final :: "agent_os \<Rightarrow> disk \<Rightarrow> string \<Rightarrow> string" where
  "mcp_final S d p =
     (let content = mcp_json_content (os_env S) in
      if path_exists S d p
      then (case dk_files d p of
              Some existing \<Rightarrow> if contains existing quoted_a1 then existing
                               else set_or content (merge_mcp_json (os_env S) existing)
            | None \<Rightarrow> content)
      else content)"

definition mcp_next_step :: "string \<Rightarrow> string" where
  "mcp_next_step i =
     (if i = ''openclaw'' then ''Restart OpenClaw. A1 authorization is now active on all tools.''
      else if i = ''claude_code'' then (''Open a new Claude Code session. Type: 'Use a1_check_health to verify A1 is connected'' @ [CHR 0x27])
      else if i = ''ollama'' then ''Restart your Ollama-based agent. A1 will authorize all tool calls.''
      else ''A1 is now connected. Restart your agent if it's running.'')"

definition connect_mcp :: "agent_os \<Rightarrow> string \<Rightarrow> string option \<times> disk \<Rightarrow> connect_response response \<times> disk" where
  "connect_mcp S i pd =
     (case or_create S (mcp_fallback S (snd pd) i) pd of (dir, d) \<Rightarrow>
       (let mcp_path = under dir ''.mcp.json'' in
        case write_disk S mcp_path (mcp_final S d mcp_path) d of
          (Inr _, d') \<Rightarrow> ((200, \<lparr>cn_connected = True, cn_agent_id = i, cn_files_written = [mcp_path],
             cn_message = ([CHR 0xE2, CHR 0x9C, CHR 0x93] @ '' Connected. Wrote .mcp.json to '' @ dir), cn_next_step = mcp_next_step i\<rparr>), d')
        | (Inl e, d') \<Rightarrow> ((500, connect_failed i (''Failed to write '' @ mcp_path @ '': '' @ e)
             ''Check file permissions on the target directory.''), d')))"

definition connect_ironclaw :: "agent_os \<Rightarrow> string \<Rightarrow> string option \<times> disk \<Rightarrow> connect_response response \<times> disk" where
  "connect_ironclaw S i pd =
     (case or_create S (under (home S (snd pd)) ''.ironclaw'') pd of (dir, d) \<Rightarrow>
       (let toml_path = under dir ''a1_plugin.toml'' in
        case write_disk S toml_path (ironclaw_toml_content (os_env S)) d of
          (Inr _, d') \<Rightarrow> ((200, \<lparr>cn_connected = True, cn_agent_id = i, cn_files_written = [toml_path],
             cn_message = ([CHR 0xE2, CHR 0x9C, CHR 0x93] @ '' Connected. Wrote a1_plugin.toml to '' @ dir),
             cn_next_step = ''Restart IronClaw. A1 will enforce authorization on all tool calls.''\<rparr>), d')
        | (Inl e, d') \<Rightarrow> ((500, connect_failed i (''Failed to write '' @ toml_path @ '': '' @ e)
             ''Check file permissions on the target directory.''), d')))"

definition desktop_fallback :: "agent_os \<Rightarrow> platform \<Rightarrow> disk \<Rightarrow> string" where
  "desktop_fallback S pf d =
     (if pf = MacOS then under (under (under (home S d) ''Library'') ''Application Support'') ''Claude''
      else under (under (home S d) ''.config'') ''Claude'')"

definition connect_desktop :: "agent_os \<Rightarrow> platform \<Rightarrow> string \<Rightarrow> string option \<times> disk \<Rightarrow> connect_response response \<times> disk" where
  "connect_desktop S pf i pd =
     (case or_create S (desktop_fallback S pf (snd pd)) pd of (dir, d) \<Rightarrow>
       (let config_path = under dir ''claude_desktop_config.json'';
            content = mcp_json_content (os_env S);
            final = (if path_exists S d config_path
                     then (case dk_files d config_path of
                             Some existing \<Rightarrow> set_or content (merge_desktop_config (os_env S) existing)
                           | None \<Rightarrow> content)
                     else content)
        in case write_disk S config_path final d of
          (Inr _, d') \<Rightarrow> ((200, \<lparr>cn_connected = True, cn_agent_id = i, cn_files_written = [config_path],
             cn_message = ([CHR 0xE2, CHR 0x9C, CHR 0x93] @ '' Connected. Updated claude_desktop_config.json''),
             cn_next_step = ''Restart Claude Desktop. A1 will appear in the toolbar as an available tool.''\<rparr>), d')
        | (Inl e, d') \<Rightarrow> ((500, connect_failed i (''Failed: '' @ e)
             ''Try writing the file manually. See templates/mcp-connect.md''), d')))"

definition mcp_agents :: "string list" where
  "mcp_agents = [''openclaw'', ''claude_code'', ''langchain'', ''crewai'', ''openai_agents'', ''ollama'', ''custom'']"

definition connect_handler :: "agent_os \<Rightarrow> platform \<Rightarrow> connect_request \<Rightarrow> disk \<Rightarrow> connect_response response \<times> disk" where
  "connect_handler S pf req d =
     (let i = cq_agent_id req; pd = resolve_install S req d in
      if i \<in> set mcp_agents then connect_mcp S i pd
      else if i = ''ironclaw'' then connect_ironclaw S i pd
      else if i = ''claude_desktop'' then connect_desktop S pf i pd
      else ((400, connect_failed i (''Unknown agent ID: '' @ [CHR 0x27] @ i @ [CHR 0x27] @ ''. Call /v1/agents/scan for valid IDs.'') []), snd pd))"

section \<open>Disconnecting\<close>

record disconnect_request =
  dq_agent_id :: string
  dq_install_path :: "string option"

record disconnect_response =
  dn_success :: bool
  dn_agent_id :: string
  dn_message :: string

definition drop_server :: "json \<Rightarrow> json" where
  "drop_server v =
     (case v of
        JObj ms \<Rightarrow>
          (case map_of ms ''mcpServers'' of
             Some (JObj servers) \<Rightarrow>
               JObj (AList.update ''mcpServers'' (JObj (filter (\<lambda>m. fst m \<noteq> ''a1'') servers)) ms)
           | _ \<Rightarrow> v)
      | _ \<Rightarrow> v)"

definition remove_a1_from_mcp_json :: "codec \<Rightarrow> string \<Rightarrow> string option" where
  "remove_a1_from_mcp_json C src =
     (case js_parse C src of Inl _ \<Rightarrow> None | Inr v \<Rightarrow> Some (js_pretty C (drop_server v)))"

definition disconnect_ironclaw :: "agent_os \<Rightarrow> disconnect_request \<Rightarrow> string \<Rightarrow> disk \<Rightarrow> disconnect_response \<times> disk" where
  "disconnect_ironclaw S req i d =
     (let toml_path = under (set_or (under (home S d) ''.ironclaw'') (dq_install_path req)) ''a1_plugin.toml'';
          answer = (\<lambda>ok msg. \<lparr>dn_success = ok, dn_agent_id = i, dn_message = msg\<rparr>)
      in if \<not> path_exists S d toml_path
         then (answer True (''No a1_plugin.toml found '' @ [CHR 0xE2, CHR 0x80, CHR 0x94] @ '' IronClaw was already disconnected.''), d)
         else if os_removable S toml_path
         then (answer True (''A1 plugin removed from '' @ toml_path @ ''. Restart IronClaw to apply.''),
               d\<lparr>dk_files := (dk_files d)(toml_path := None)\<rparr>)
         else (answer False (''Could not remove '' @ toml_path @ '': '' @ ac_remove_msg S toml_path @ ''. Delete it manually to disconnect.''), d))"

definition disconnect_dir :: "agent_os \<Rightarrow> disconnect_request \<Rightarrow> string \<Rightarrow> disk \<Rightarrow> string option" where
  "disconnect_dir S req i d =
     (case dq_install_path req of
        Some p \<Rightarrow> Some p
      | None \<Rightarrow>
          if i = ''claude_code'' then Some (under (home S d) ''.claude'')
          else if i = ''openclaw'' then Some (under (home S d) ''.openclaw'')
          else if i = ''ollama'' then Some (under (home S d) ''.ollama'')
          else if i = ''claude_desktop'' then None
          else Some (current_dir S d))"

definition disconnect_mcp :: "agent_os \<Rightarrow> codec \<Rightarrow> string \<Rightarrow> string \<Rightarrow> disk \<Rightarrow> disconnect_response \<times> disk" where
  "disconnect_mcp S C i mcp_path d =
     (let answer = (\<lambda>ok msg. \<lparr>dn_success = ok, dn_agent_id = i, dn_message = msg\<rparr>) in
      if \<not> path_exists S d mcp_path
      then (answer True (''No .mcp.json found '' @ [CHR 0xE2, CHR 0x80, CHR 0x94] @ '' agent was already disconnected.''), d)
      else case dk_files d mcp_path of
          Some existing \<Rightarrow>
            if \<not> contains existing quoted_a1
            then (answer True (''A1 was not found in this agent's config '' @ [CHR 0xE2, CHR 0x80, CHR 0x94] @ '' already disconnected.''), d)
            else (case write_disk S mcp_path (set_or existing (remove_a1_from_mcp_json C existing)) d of
                    (Inr _, d') \<Rightarrow> (answer True (''A1 removed from '' @ mcp_path @ ''. Restart your agent to apply.''), d')
                  | (Inl e, d') \<Rightarrow> (answer False (''Could not write '' @ mcp_path @ '': '' @ e), d'))
        | None \<Rightarrow> (answer False (''Could not read '' @ mcp_path @ '': '' @ os_read_msg S mcp_path), d))"

definition disconnect_handler :: "agent_os \<Rightarrow> codec \<Rightarrow> disconnect_request \<Rightarrow> disk \<Rightarrow> disconnect_response \<times> disk" where
  "disconnect_handler S C req d =
     (let i = str_trim (dq_agent_id req) in
      if i = ''ironclaw'' then disconnect_ironclaw S req i d
      else case disconnect_dir S req i d of
          None \<Rightarrow> (\<lparr>dn_success = False, dn_agent_id = i, dn_message = ''Cannot locate config directory for this agent. Remove the A1 entry from your .mcp.json manually.''\<rparr>, d)
        | Some dir \<Rightarrow> disconnect_mcp S C i (under dir ''.mcp.json'') d)"

section \<open>Properties\<close>

lemma rev_under: "\<exists>r. rev (under dir f) = rev f @ r" if "f \<noteq> []" "hd f \<noteq> CHR ''/''"
  using that by (auto simp: under_def join_path_def)

lemma mcp_path_not_desktop: "under dir ''.mcp.json'' \<noteq> under dir' ''claude_desktop_config.json''"
  using rev_under [of "''.mcp.json''" dir] rev_under [of "''claude_desktop_config.json''" dir'] by auto

lemma mcp_connected_eq:
  "mcp_connected S d dir =
     (case dk_files d (under dir ''.mcp.json'') of
        Some c \<Rightarrow> if contains c quoted_a1 then (True, Some (under dir ''.mcp.json'')) else (False, None)
      | None \<Rightarrow> (False, None))"
  by (auto simp: mcp_connected_def Let_def path_exists_def split: option.splits)

lemma contains_mid: "contains (a @ p @ b) p"
  by (auto simp: contains_sublist)

lemma contains_within: "contains b p \<Longrightarrow> contains (a @ b @ c) p"
  by (metis append_assoc contains_sublist)

lemma str_find_Some: "str_find s n = Some i \<Longrightarrow> i \<le> length s \<and> starts_with (drop i s) n"
  by (induction s n arbitrary: i rule: str_find.induct) (auto simp: starts_with_def split: if_splits)

lemma merge_mcp_json_inserts:
  assumes "merge_mcp_json env existing = Some t"
  shows "\<exists>a b. existing = a @ b \<and> t = a @ nl @ ''    '' @ a1_entry env @ '','' @ b"
  using assms unfolding merge_mcp_json_def Let_def
  by (auto split: option.splits) (metis append_take_drop_id)

lemma a1_entry_names: "contains (a1_entry env) quoted_a1" "contains (mcp_json_content env) quoted_a1"
proof -
  have "\<exists>b. a1_entry env = quoted_a1 @ b" by (simp add: a1_entry_def quoted_a1_def)
  then show "contains (a1_entry env) quoted_a1" by (metis append_Nil contains_sublist)
  have "\<exists>a b. mcp_json_content env = a @ quoted_a1 @ b"
  proof -
    let ?a = "''{'' @ nl @ ''  '' @ [CHR 0x22] @ ''mcpServers'' @ [CHR 0x22] @ '': {'' @ nl @ ''    ''"
    have "\<exists>b. mcp_json_content env = ?a @ quoted_a1 @ b" by (simp add: mcp_json_content_def quoted_a1_def nl_def)
    then show ?thesis by blast
  qed
  then show "contains (mcp_json_content env) quoted_a1" by (simp add: contains_sublist)
qed

lemma merged_names: "merge_mcp_json env existing = Some t \<Longrightarrow> contains t quoted_a1"
  using merge_mcp_json_inserts [of env existing t] a1_entry_names(1) contains_within
  by (metis append_assoc)

lemma mcp_final_names: "contains (mcp_final S d p) quoted_a1"
  by (auto simp: mcp_final_def Let_def set_or_def a1_entry_names merged_names split: option.splits)

lemma write_disk_cases:
  "write_disk S p t d = (r, d') \<Longrightarrow>
     (r = Inr () \<and> os_writable S p \<and> d' = d\<lparr>dk_files := (dk_files d)(p \<mapsto> t)\<rparr>)
     \<or> (r = Inl (os_write_msg S p) \<and> \<not> os_writable S p \<and> d' = d)"
  by (auto simp: write_disk_def write_file_def os.truncate_def split: if_splits)

lemma or_create_files: "or_create S f pd = (dir, d) \<Longrightarrow> dk_files d = dk_files (snd pd)"
  by (cases pd; cases "fst pd") (auto simp: or_create_def make_dirs_def)

lemma connect_mcp_success:
  assumes "connect_mcp S i pd = ((st, r), d')" "cn_connected r"
  shows "st = 200 \<and> (\<exists>dir old. old = dk_files (snd pd) (under dir ''.mcp.json'') \<and> cn_files_written r = [under dir ''.mcp.json'']
    \<and> mcp_connected S d' dir = (True, Some (under dir ''.mcp.json''))
    \<and> (\<forall>q. q \<noteq> under dir ''.mcp.json'' \<longrightarrow> dk_files d' q = dk_files (snd pd) q)
    \<and> (\<forall>t. old = Some t \<longrightarrow> contains t quoted_a1 \<longrightarrow> dk_files d' = dk_files (snd pd))
    \<and> (\<forall>t t'. old = Some t \<longrightarrow> \<not> contains t quoted_a1 \<longrightarrow> merge_mcp_json (os_env S) t = Some t' \<longrightarrow>
          dk_files d' (under dir ''.mcp.json'') = Some t')
    \<and> (\<forall>t. old = Some t \<longrightarrow> \<not> contains t quoted_a1 \<longrightarrow> merge_mcp_json (os_env S) t = None \<longrightarrow>
          dk_files d' (under dir ''.mcp.json'') = Some (mcp_json_content (os_env S))))"
proof -
  obtain dir d where c: "or_create S (mcp_fallback S (snd pd) i) pd = (dir, d)" by fastforce
  note fs = or_create_files [OF c]
  let ?p = "under dir ''.mcp.json''"
  obtain w e where w: "write_disk S ?p (mcp_final S d ?p) d = (w, e)" by fastforce
  from write_disk_cases [OF w] assms have s: "st = 200" "cn_files_written r = [?p]"
    and d': "d' = d\<lparr>dk_files := (dk_files d)(?p \<mapsto> mcp_final S d ?p)\<rparr>"
    by (auto simp: connect_mcp_def c Let_def w connect_failed_def)
  have f: "dk_files d' = (dk_files (snd pd))(?p \<mapsto> mcp_final S d ?p)" using d' fs by simp
  have g: "mcp_final S d ?p = (if contains t quoted_a1 then t else set_or (mcp_json_content (os_env S)) (merge_mcp_json (os_env S) t))"
    if "dk_files (snd pd) ?p = Some t" for t
    using that fs by (auto simp: mcp_final_def path_exists_def Let_def)
  have "mcp_connected S d' dir = (True, Some ?p)" by (simp add: mcp_connected_eq f mcp_final_names)
  moreover have "dk_files d' = dk_files (snd pd)" if "dk_files (snd pd) ?p = Some t" "contains t quoted_a1" for t
    using that g [OF that(1)] by (simp add: f fun_upd_idem)
  ultimately show ?thesis using s f g by (auto simp: set_or_def)
qed

text \<open>
  The desktop application's status is read from a file that connecting it never writes.
\<close>

lemma connect_desktop_status:
  assumes "connect_desktop S pf i pd = ((st, r), d')"
  shows "mcp_connected S d' dir = mcp_connected S (snd pd) dir"
proof -
  obtain dir' d where c: "or_create S (desktop_fallback S pf (snd pd)) pd = (dir', d)" by fastforce
  note fs = or_create_files [OF c]
  have "dk_files d' (under dir ''.mcp.json'') = dk_files d (under dir ''.mcp.json'')"
    using assms mcp_path_not_desktop [of dir dir']
    by (auto simp: connect_desktop_def c Let_def dest!: write_disk_cases split: prod.splits sum.splits)
  then show ?thesis by (simp add: mcp_connected_eq fs)
qed


lemma map_of_dropped: "map_of (filter (\<lambda>m. fst m \<noteq> k) xs) k = None"
  by (induction xs) auto

lemma drop_server_gone:
  assumes "js = drop_server v" "j_get ''mcpServers'' js = Some (JObj ss)"
  shows "map_of ss ''a1'' = None"
  using assms by (cases v) (auto simp: drop_server_def update_conv map_of_dropped split: option.splits json.splits)

lemma drop_server_others:
  "k \<noteq> ''mcpServers'' \<Longrightarrow> j_get k (drop_server v) = j_get k v"
  "k \<noteq> ''a1'' \<Longrightarrow> j_get ''mcpServers'' v = Some (JObj ss) \<Longrightarrow>
     \<exists>ss'. j_get ''mcpServers'' (drop_server v) = Some (JObj ss') \<and> map_of ss' k = map_of ss k"
proof -
  show "k \<noteq> ''mcpServers'' \<Longrightarrow> j_get k (drop_server v) = j_get k v"
    by (cases v) (auto simp: drop_server_def update_conv split: option.splits json.splits)
  have f: "k \<noteq> ''a1'' \<Longrightarrow> map_of (filter (\<lambda>m. fst m \<noteq> ''a1'') ss) k = map_of ss k"
    by (induction ss) auto
  show "k \<noteq> ''a1'' \<Longrightarrow> j_get ''mcpServers'' v = Some (JObj ss) \<Longrightarrow>
     \<exists>ss'. j_get ''mcpServers'' (drop_server v) = Some (JObj ss') \<and> map_of ss' k = map_of ss k"
    by (cases v) (auto simp: drop_server_def update_conv f)
qed

lemma disconnect_mcp_success:
  assumes "disconnect_mcp S C i p d = (r, d')" "dn_success r" "dk_files d p = Some t" "contains t quoted_a1"
    and "js_parse C t = Inr v"
  shows "dk_files d' = (dk_files d)(p \<mapsto> js_pretty C (drop_server v))"
  using assms by (auto simp: disconnect_mcp_def Let_def path_exists_def remove_a1_from_mcp_json_def set_or_def
      split: prod.splits sum.splits dest!: write_disk_cases)

text \<open>A file that is not JSON is written back as it was, and the answer says that the entry is gone.\<close>

lemma disconnect_unparsed:
  assumes "dk_files d p = Some t" "contains t quoted_a1" "js_parse C t = Inl e" "os_writable S p"
  shows "\<exists>r. disconnect_mcp S C i p d = (r, d) \<and> dn_success r"
proof -
  have "write_disk S p t d = (Inr (), d)"
    using assms by (simp add: write_disk_def write_file_def os.truncate_def fun_upd_idem)
  then show ?thesis
    using assms by (simp add: disconnect_mcp_def Let_def path_exists_def remove_a1_from_mcp_json_def set_or_def)
qed

definition empty_servers :: string where
  "empty_servers = (''{'' @ [CHR 0x22] @ ''mcpServers'' @ [CHR 0x22] @ '': {}}'')"

lemma str_find_skip:
  "starts_with (c # s) n = False \<Longrightarrow> str_find (c # s) n = map_option Suc (str_find s n)"
  "starts_with (c # s) n \<Longrightarrow> str_find (c # s) n = Some 0"
  by simp_all

lemma merge_empty_servers:
  "\<exists>t. merge_mcp_json env empty_servers = Some t \<and> contains t '',}''"
proof -
  have "merge_mcp_json env empty_servers
      = Some ((''{'' @ [CHR 0x22] @ ''mcpServers'' @ [CHR 0x22] @ '': {'') @ nl @ ''    '' @ a1_entry env @ '',}}'')"
    by (simp add: merge_mcp_json_def empty_servers_def starts_with_def)
  then show ?thesis
    using contains_mid [of "(''{'' @ [CHR 0x22] @ ''mcpServers'' @ [CHR 0x22] @ '': {'') @ nl @ ''    '' @ a1_entry env" "'',}''" "''}''"] by simp
qed

text \<open>
  Connecting an agent whose file has no server yet leaves a comma before the closing brace. A parser
  that refuses such a text cannot take the entry out again: disconnecting reports success and changes
  nothing.
\<close>

lemma connect_then_stuck:
  assumes f: "dk_files d (under dir ''.mcp.json'') = Some empty_servers" and w: "os_writable S (under dir ''.mcp.json'')"
    and j: "\<And>s. contains s '',}'' \<Longrightarrow> \<exists>e. js_parse C s = Inl e"
  shows "\<exists>r r' d'. connect_mcp S i (Some dir, d) = ((200, r), d') \<and> cn_connected r
    \<and> disconnect_mcp S C i (under dir ''.mcp.json'') d' = (r', d') \<and> dn_success r'
    \<and> mcp_connected S d' dir = (True, Some (under dir ''.mcp.json''))"
proof -
  let ?p = "under dir ''.mcp.json''"
  obtain t where t: "merge_mcp_json (os_env S) empty_servers = Some t" "contains t '',}''"
    using merge_empty_servers by blast
  have "\<not> contains empty_servers quoted_a1" by code_simp
  then have m: "mcp_final S d ?p = t"
    using f by (simp add: mcp_final_def Let_def path_exists_def t set_or_def)
  obtain e where e: "js_parse C t = Inl e" using j t(2) by blast
  define d' where "d' = d\<lparr>dk_files := (dk_files d)(?p \<mapsto> t)\<rparr>"
  have wd: "write_disk S ?p t d = (Inr (), d')"
    using w by (simp add: write_disk_def write_file_def os.truncate_def d'_def)
  have c: "\<exists>r. connect_mcp S i (Some dir, d) = ((200, r), d') \<and> cn_connected r"
    by (simp add: connect_mcp_def or_create_def Let_def m wd)
  have a1: "contains t quoted_a1" using merged_names [OF t(1)] .
  have "dk_files d' ?p = Some t" by (simp add: d'_def)
  from disconnect_unparsed [OF this a1 e w] obtain r' where "disconnect_mcp S C i ?p d' = (r', d')" "dn_success r'" by blast
  with c a1 show ?thesis by (auto simp: mcp_connected_eq d'_def)
qed

text \<open>A scan reports the eight agents in their order and reads without writing a text.\<close>

definition looks_only :: "finder \<Rightarrow> bool" where
  "looks_only f \<longleftrightarrow> (\<forall>ck d p ck' d'. f (ck, d) = (p, ck', d') \<longrightarrow> distinct ck \<longrightarrow>
     distinct ck' \<and> set ck \<subseteq> set ck' \<and> dk_files d' = dk_files d)"

lemma note_path_spec: "distinct ck \<Longrightarrow> distinct (note_path s ck)" "set (note_path s ck) = insert s (set ck)"
  by (auto simp: note_path_def)

lemma first_dir_spec:
  "first_dir d ps ck = (p, ck') \<Longrightarrow> distinct ck \<Longrightarrow>
     distinct ck' \<and> set ck \<subseteq> set ck' \<and> (\<forall>q. p = Some q \<longrightarrow> q \<in> set ps \<and> dk_dirs d q \<and> q \<in> set ck')"
proof (induction d ps ck rule: first_dir.induct)
  case (2 d q ps ck)
  then show ?case by (auto simp: note_path_spec split: if_splits)
qed auto

lemma or_binary_spec:
  "or_binary S n f (ck, d) = (p, ck', d') \<Longrightarrow> distinct ck \<Longrightarrow> distinct ck' \<and> set ck \<subseteq> set ck' \<and> dk_files d' = dk_files d"
  by (auto simp: or_binary_def make_dirs_def note_path_spec split: if_splits)

lemma candidates_spec:
  assumes "(case first_dir d ps ck of (Some p, ck1) \<Rightarrow> (Some p, ck1, d) | (None, ck1) \<Rightarrow> rest ck1) = (p', ck', d')" "distinct ck"
    and "\<And>ck1. distinct ck1 \<Longrightarrow> rest ck1 = (p', ck', d') \<Longrightarrow> distinct ck' \<and> set ck1 \<subseteq> set ck' \<and> dk_files d' = dk_files d"
  shows "distinct ck' \<and> set ck \<subseteq> set ck' \<and> dk_files d' = dk_files d"
proof -
  obtain p ck1 where f: "first_dir d ps ck = (p, ck1)" by fastforce
  from first_dir_spec [OF f assms(2)] assms(1,3) show ?thesis by (cases p) (auto simp: f)
qed

lemma finders_look_only:
  "looks_only (find_ironclaw S)" "looks_only (find_openclaw S)" "looks_only (find_claude_code S)"
  "looks_only (find_claude_desktop S)" "looks_only (find_ollama S)" "looks_only (find_python_agent S pkg)"
proof -
  show "looks_only (find_ironclaw S)" "looks_only (find_openclaw S)" "looks_only (find_ollama S)"
    unfolding looks_only_def find_ironclaw_def find_openclaw_def find_ollama_def Let_def prod.case
    by (intro allI impI; erule (1) candidates_spec; rule or_binary_spec; assumption)+
  show "looks_only (find_claude_code S)"
    unfolding looks_only_def find_claude_code_def Let_def prod.case
    by (intro allI impI; erule (1) candidates_spec) (auto simp: make_dirs_def split: if_splits dest: or_binary_spec)
  show "looks_only (find_claude_desktop S)"
    unfolding looks_only_def find_claude_desktop_def Let_def prod.case
    by (auto split: prod.splits simp del: first_dir.simps dest: first_dir_spec)
  show "looks_only (find_python_agent S pkg)"
    by (auto simp: looks_only_def find_python_agent_def Let_def note_path_spec)
qed


lemma detect_looks:
  assumes "looks_only look" "detect S look con entry (ck, d) = (a, ck', d')" "distinct ck"
  shows "da_id a = da_id entry \<and> da_recommended a = da_recommended entry \<and> distinct ck' \<and> dk_files d' = dk_files d
    \<and> (da_connected a \<longrightarrow> da_install_path a \<noteq> None)"
proof -
  obtain p ck1 d1 where l: "look (ck, d) = (p, ck1, d1)" by (cases "look (ck, d)")
  with assms have "ck1 = ck'" "d1 = d'" by (auto simp: detect_def split: prod.splits)
  with l assms show ?thesis unfolding looks_only_def by (auto simp: detect_def split: prod.splits option.splits)
qed

definition entry_ok :: "string \<times> bool \<Rightarrow> (string list \<times> disk \<Rightarrow> detected_agent \<times> string list \<times> disk) \<Rightarrow> bool" where
  "entry_ok e f \<longleftrightarrow> (\<forall>ck d a ck' d'. f (ck, d) = (a, ck', d') \<longrightarrow> distinct ck \<longrightarrow>
     (da_id a, da_recommended a) = e \<and> distinct ck' \<and> dk_files d' = dk_files d \<and> (da_connected a \<longrightarrow> da_install_path a \<noteq> None))"

lemma scan_entries_ok:
  "entry_ok (''ironclaw'', True) (scan_ironclaw S)" "entry_ok (''openclaw'', False) (scan_openclaw S)"
  "entry_ok (''claude_code'', False) (scan_claude_code S)" "entry_ok (''claude_desktop'', False) (scan_claude_desktop S)"
  "entry_ok (''ollama'', False) (scan_ollama S)" "entry_ok (''langchain'', False) (scan_langchain S)"
  "entry_ok (''crewai'', False) (scan_crewai S)" "entry_ok (''openai_agents'', False) (scan_openai_agents S)"
  unfolding entry_ok_def scan_ironclaw_def scan_openclaw_def scan_claude_code_def scan_claude_desktop_def scan_ollama_def
    scan_langchain_def scan_crewai_def scan_openai_agents_def
  by (intro allI impI; frule (1) detect_looks [OF finders_look_only(1)] detect_looks [OF finders_look_only(2)]
      detect_looks [OF finders_look_only(3)] detect_looks [OF finders_look_only(4)] detect_looks [OF finders_look_only(5)]
      detect_looks [OF finders_look_only(6)]; simp)+

lemma scan_all_ok:
  assumes "list_all2 entry_ok es fs" "scan_all fs (ck, d) = (as, ck', d')" "distinct ck"
  shows "map (\<lambda>a. (da_id a, da_recommended a)) as = es \<and> distinct ck' \<and> dk_files d' = dk_files d
    \<and> (\<forall>a\<in>set as. da_connected a \<longrightarrow> da_install_path a \<noteq> None)"
  using assms
proof (induction es fs arbitrary: ck d as rule: list_all2_induct)
  case (Cons e es f fs)
  obtain a ck1 d1 where f: "f (ck, d) = (a, ck1, d1)" by (cases "f (ck, d)")
  obtain as2 ck2 d2 where r: "scan_all fs (ck1, d1) = (as2, ck2, d2)" by (cases "scan_all fs (ck1, d1)")
  have "(da_id a, da_recommended a) = e \<and> distinct ck1 \<and> dk_files d1 = dk_files d \<and> (da_connected a \<longrightarrow> da_install_path a \<noteq> None)"
    using Cons.hyps(1) f Cons.prems(2) unfolding entry_ok_def by blast
  moreover have "as = a # as2" "ck' = ck2" "d' = d2" using Cons.prems(1) f r by auto
  ultimately show ?case using Cons.IH [of ck1 d1 as2] r by auto
qed auto

lemma scan_handler_spec:
  assumes "scan_handler S d = (resp, d')"
  shows "map da_id (sr_agents resp) = [''ironclaw'', ''openclaw'', ''claude_code'', ''claude_desktop'', ''ollama'', ''langchain'',
      ''crewai'', ''openai_agents'']
    \<and> map da_recommended (sr_agents resp) = True # replicate 7 False
    \<and> distinct (sr_scan_paths_checked resp) \<and> dk_files d' = dk_files d
    \<and> (\<forall>a\<in>set (sr_agents resp). da_connected a \<longrightarrow> da_install_path a \<noteq> None)"
proof -
  let ?fs = "[scan_ironclaw S, scan_openclaw S, scan_claude_code S, scan_claude_desktop S, scan_ollama S, scan_langchain S, scan_crewai S, scan_openai_agents S]"
  obtain as ck e where a: "scan_all ?fs ([], d) = (as, ck, e)" by (cases "scan_all ?fs ([], d)")
  have l: "list_all2 entry_ok [(''ironclaw'', True), (''openclaw'', False), (''claude_code'', False), (''claude_desktop'', False),
      (''ollama'', False), (''langchain'', False), (''crewai'', False), (''openai_agents'', False)] ?fs"
    by (simp add: scan_entries_ok)
  from scan_all_ok [OF l a] have "map (\<lambda>a. (da_id a, da_recommended a)) as = [(''ironclaw'', True), (''openclaw'', False),
      (''claude_code'', False), (''claude_desktop'', False), (''ollama'', False), (''langchain'', False), (''crewai'', False),
      (''openai_agents'', False)]" and r: "distinct ck" "dk_files e = dk_files d" "\<forall>a\<in>set as. da_connected a \<longrightarrow> da_install_path a \<noteq> None"
    by auto
  from this(1) have "map (fst \<circ> (\<lambda>a. (da_id a, da_recommended a))) as = [''ironclaw'', ''openclaw'', ''claude_code'', ''claude_desktop'', ''ollama'',
      ''langchain'', ''crewai'', ''openai_agents'']" "map (snd \<circ> (\<lambda>a. (da_id a, da_recommended a))) as = True # replicate 7 False"
    by (simp_all only: map_map [symmetric], simp_all add: numeral_eq_Suc)
  then show ?thesis using assms r unfolding scan_handler_def a by (auto simp: comp_def)
qed

end
