(* ===== verification/A1_GwProbe.thy ===== *)
theory A1_GwProbe
  imports A1_GwConnect
begin

text \<open>
  The rest of \<open>a1-gateway/src/routes/agent_connect.rs\<close>: restarting, installing and removing an agent,
  and the live probe of a connection. An installation streams its output as server-sent events; the
  three tasks that feed the stream run side by side, so a run has a set of possible streams.
\<close>

section \<open>Restarting\<close>

record restart_request =
  tq_agent_id :: string
  tq_install_path :: "string option"

record restart_response =
  tr_success :: bool
  tr_agent_id :: string
  tr_message :: string
  tr_restart_cmd :: "string option"

definition restart_cmd :: "string \<Rightarrow> string option" where
  "restart_cmd i =
     (if i = ''openclaw'' then Some ''openclaw restart''
      else if i = ''ironclaw'' then Some ''ironclaw restart''
      else if i = ''claude-code'' then Some ''claude restart''
      else None)"

definition restart_handler :: "agent_os \<Rightarrow> restart_request \<Rightarrow> restart_response" where
  "restart_handler S req =
     (let i = str_lower (str_trim (tq_agent_id req)) in
      case restart_cmd i of
        Some c \<Rightarrow>
          (let ok = (case ac_shell S c of Inr (success, _, _) \<Rightarrow> success | Inl _ \<Rightarrow> False) in
           \<lparr>tr_success = ok, tr_agent_id = tq_agent_id req,
            tr_message = (if ok then ''Restarted '' @ i else (''Could not restart '' @ i @ '' automatically'')), tr_restart_cmd = Some c\<rparr>)
      | None \<Rightarrow>
          \<lparr>tr_success = False, tr_agent_id = tq_agent_id req,
           tr_message = ''Restart not supported automatically for this agent. Use the command below.'',
           tr_restart_cmd = (case tq_install_path req of
               Some p \<Rightarrow> Some (''cd '' @ p @ '' && kill $(pgrep -f agent) && python agent.py'')
             | None \<Rightarrow> Some ''Restart your agent manually or from its launcher'')\<rparr>)"

section \<open>Installing\<close>

datatype sse_event = LogEvent string | DoneEvent json

definition install_cmd :: "string \<Rightarrow> string \<Rightarrow> string" where
  "install_cmd agent_id plat =
     (case find (\<lambda>a. ka_id a = agent_id) KNOWN_AGENTS of
        Some a \<Rightarrow> if plat = ''win'' then ka_install_cmd_win a else ka_install_cmd_unix a
      | None \<Rightarrow> [])"

definition done_event :: "bool \<Rightarrow> string \<Rightarrow> sse_event" where
  "done_event ok msg = DoneEvent (JObj [(''success'', JBool ok), (''message'', JStr msg)])"

definition docker_events :: "string \<Rightarrow> string \<Rightarrow> sse_event list" where
  "docker_events agent_id cmd =
     [LogEvent ([CHR 0xE2, CHR 0x9A, CHR 0xA0]
       @ '' A1 is running inside Docker and cannot install software on your computer directly.''),
      LogEvent (''Open your terminal and run this command to install '' @ agent_id @ '':''),
      LogEvent (''$ '' @ cmd),
      DoneEvent (JObj [(''success'', JBool False), (''manual'', JBool True), (''install_cmd'', JStr cmd),
        (''message'', JStr ''Copy the command above and run it in your terminal, then click Rescan.'')])]"

text \<open>
  Once the process runs, its two outputs are read by tasks of their own and the last event is sent by
  the task that waits for the process: any interleaving of the three may be seen.
\<close>

definition process_streams :: "string \<Rightarrow> string list \<Rightarrow> string list \<Rightarrow> bool \<Rightarrow> sse_event list set" where
  "process_streams agent_id out err success =
     (let final = done_event success
            (if success then ([CHR 0xE2, CHR 0x9C, CHR 0x93] @ '' '' @ [CHR 0x27] @ agent_id @ [CHR 0x27]
       @ '' installed successfully. Click Connect to integrate with A1.'')
             else ([CHR 0xE2, CHR 0x9C, CHR 0x97] @ '' Installation of '' @ [CHR 0x27] @ agent_id @ [CHR 0x27]
       @ '' failed. See output above for details.''))
      in \<Union>logs\<in>shuffles (map LogEvent out) (map (\<lambda>l. LogEvent (''stderr: '' @ l)) err). shuffles logs [final])"

definition pull_handler :: "agent_os \<Rightarrow> string \<Rightarrow> string option \<Rightarrow> sse_event list set" where
  "pull_handler S agent_id given =
     (let cmd = install_cmd agent_id (set_or ''unix'' given) in
      if cmd = []
      then {[done_event False (''No install command available for agent '' @ [CHR 0x27] @ agent_id @ [CHR 0x27]
       @ ''. Download manually from the homepage.'')]}
      else if os_env S ''A1_RUNNING_IN_DOCKER'' \<noteq> None then {docker_events agent_id cmd}
      else (\<lambda>tail. LogEvent (''$ '' @ cmd) # tail) `
        (case ac_spawn S cmd of
           Inl e \<Rightarrow> {[done_event False (''Failed to start install process: '' @ e)]}
         | Inr (out, err, success) \<Rightarrow> process_streams agent_id out err success))"

section \<open>Removing\<close>

record remove_response =
  rv_success :: bool
  rv_agent_id :: string
  rv_message :: string
  rv_output :: string

definition remove_handler :: "agent_os \<Rightarrow> string \<Rightarrow> remove_response" where
  "remove_handler S agent_id =
     (let cmd = (case find (\<lambda>a. ka_id a = agent_id) KNOWN_AGENTS of Some a \<Rightarrow> ka_uninstall_cmd a | None \<Rightarrow> []);
          answer = (\<lambda>ok msg out. \<lparr>rv_success = ok, rv_agent_id = agent_id, rv_message = msg, rv_output = out\<rparr>)
      in if cmd = [] then answer False ''No automatic uninstall command available. Remove manually.'' []
         else if os_env S ''A1_RUNNING_IN_DOCKER'' \<noteq> None
         then answer False (''Run this in your terminal to uninstall: '' @ cmd) cmd
         else case ac_shell S cmd of
             Inr (success, out, err) \<Rightarrow> answer success
               (if success then ([CHR 0xE2, CHR 0x9C, CHR 0x93] @ '' '' @ [CHR 0x27] @ agent_id @ [CHR 0x27] @ '' uninstalled successfully.'')
                else ([CHR 0xE2, CHR 0x9C, CHR 0x97] @ '' Uninstall failed. Try running the command in your terminal.'')) (out @ err)
           | Inl e \<Rightarrow> answer False (''Failed to run uninstall: '' @ e) [])"

section \<open>The live probe\<close>

record policy_test_result =
  pt_tool :: string
  pt_allowed :: bool
  pt_reason :: string
  pt_a1_token_issued :: bool

record probe_live_response =
  pl_config_file_path :: "string option"
  pl_config_file_contents :: "string option"
  pl_binary_check_cmd :: string
  pl_binary_check_output :: string
  pl_binary_found :: bool
  pl_policy_test_allowed :: policy_test_result
  pl_policy_test_denied :: policy_test_result
  pl_runtime_reachable :: bool
  pl_runtime_port :: "nat option"
  pl_runtime_version :: "string option"
  pl_runtime_health_url :: "string option"
  pl_genuine_connection :: bool
  pl_proof_summary :: string

text \<open>The configuration file that is looked at, and its text.\<close>

definition config_in :: "agent_os \<Rightarrow> disk \<Rightarrow> string \<Rightarrow> string option \<times> string option" where
  "config_in S d p = (if path_exists S d p then (Some p, Some (set_or [] (dk_files d p))) else (Some p, None))"

definition probe_config :: "agent_os \<Rightarrow> disk \<Rightarrow> string \<Rightarrow> string option \<Rightarrow> string option \<times> string option" where
  "probe_config S d agent_id given =
     (if agent_id = ''ironclaw'' then config_in S d (under (set_or (under (home S d) ''.ironclaw'') given) ''a1_plugin.toml'')
      else if agent_id = ''claude_code'' then config_in S d (under (set_or (under (home S d) ''.claude'') given) ''.mcp.json'')
      else if agent_id = ''openclaw'' then config_in S d (under (set_or (under (home S d) ''.openclaw'') given) ''.mcp.json'')
      else if agent_id = ''ollama'' then config_in S d (under (set_or (under (home S d) ''.ollama'') given) ''.mcp.json'')
      else (None, None))"

definition version_cmd :: "string \<Rightarrow> string" where
  "version_cmd agent_id =
     (if agent_id = ''ironclaw'' then (''ironclaw --version 2>&1 || ironclaw version 2>&1 || echo 'not in PATH'' @ [CHR 0x27])
      else if agent_id = ''openclaw'' then (''openclaw --version 2>&1 || echo 'not in PATH'' @ [CHR 0x27])
      else if agent_id = ''claude_code'' then (''claude --version 2>&1 || echo 'not in PATH'' @ [CHR 0x27])
      else if agent_id = ''ollama'' then (''ollama --version 2>&1 || echo 'not in PATH'' @ [CHR 0x27])
      else (''echo 'no version command'' @ [CHR 0x27]))"

definition probe_binary :: "agent_os \<Rightarrow> string \<Rightarrow> string \<times> string \<times> bool" where
  "probe_binary S agent_id =
     (let cmd = version_cmd agent_id;
          output = (case ac_shell S cmd of Inr (_, out, err) \<Rightarrow> str_trim (out @ err) | Inl e \<Rightarrow> ''error: '' @ e)
      in (cmd, output, \<not> contains output ''not in PATH'' \<and> output \<noteq> []))"

definition probe_payload :: "string \<Rightarrow> string \<Rightarrow> (string \<times> json) list \<Rightarrow> string \<Rightarrow> json" where
  "probe_payload agent_id tool ctx gw_pk =
     JObj [(''agent_id'', JStr (agent_id @ ''-a1-probe'')), (''tool'', JStr tool), (''context'', JObj ctx), (''gateway_pk'', JStr gw_pk)]"

fun as_bool :: "json \<Rightarrow> bool option" where
  "as_bool (JBool b) = Some b"
| "as_bool _ = None"

definition authorized_in :: "json \<Rightarrow> bool" where
  "authorized_in body = set_or False (Option.bind (j_get ''authorized'' body) as_bool)"

definition reason_in :: "string \<Rightarrow> json \<Rightarrow> string" where
  "reason_in other body = set_or other (Option.bind (j_get ''reason'' body) as_str)"

definition policy_allowed_test :: "environment \<Rightarrow> http_post \<Rightarrow> string \<Rightarrow> string \<Rightarrow> policy_test_result" where
  "policy_allowed_test env post agent_id gw_pk =
     (case post (public_base env @ ''/v1/authorize'') (probe_payload agent_id ''files.read''
              [(''path'', JStr ''/tmp/test.txt''), (''source'', JStr ''a1-probe-live'')] gw_pk) None of
        Inr (status, answer) \<Rightarrow>
          (let body = set_or JNull answer in
           \<lparr>pt_tool = ''files.read'', pt_allowed = (is_success status \<and> authorized_in body),
            pt_reason = reason_in ''A1 evaluated the request'' body,
            pt_a1_token_issued = (j_get ''token'' body \<noteq> None \<or> j_get ''passport'' body \<noteq> None \<or> is_success status)\<rparr>)
      | Inl e \<Rightarrow> \<lparr>pt_tool = ''files.read'', pt_allowed = False, pt_reason = ''Could not reach A1 gateway: '' @ e,
            pt_a1_token_issued = False\<rparr>)"

definition policy_denied_test :: "environment \<Rightarrow> http_post \<Rightarrow> string \<Rightarrow> string \<Rightarrow> policy_test_result" where
  "policy_denied_test env post agent_id gw_pk =
     (case post (public_base env @ ''/v1/authorize'') (probe_payload agent_id ''network.raw_socket''
              [(''host'', JStr ''0.0.0.0''), (''source'', JStr ''a1-probe-live'')] gw_pk) None of
        Inr (status, answer) \<Rightarrow>
          (let body = set_or JNull answer; ok = authorized_in body in
           \<lparr>pt_tool = ''network.raw_socket'', pt_allowed = ok,
            pt_reason = reason_in (if \<not> ok then ''A1 policy: tool on deny list'' else ''Allowed'') body,
            pt_a1_token_issued = ok\<rparr>)
      | Inl e \<Rightarrow> \<lparr>pt_tool = ''network.raw_socket'', pt_allowed = False,
            pt_reason = (''A1 gateway unreachable '' @ [CHR 0xE2, CHR 0x80, CHR 0x94] @ '' gateway must be running for enforcement''), pt_a1_token_issued = False\<rparr>)"

definition live_probes :: "string \<Rightarrow> (nat \<times> string) list" where
  "live_probes agent_id =
     (if agent_id = ''ironclaw'' then [(4000, ''/healthz''), (4001, ''/healthz'')]
      else if agent_id = ''openclaw'' then [(3000, ''/health''), (3001, ''/health'')]
      else if agent_id = ''ollama'' then [(11434, ''/api/version'')]
      else [])"

text \<open>The first port that answers: its number, address and the version it names.\<close>

fun probe_runtime :: "(string \<Rightarrow> (nat \<times> json option) option) \<Rightarrow> (nat \<times> string) list \<Rightarrow> (nat \<times> string \<times> string option) option" where
  "probe_runtime http_get [] = None"
| "probe_runtime http_get ((port, path) # ps) =
     (case http_get (local_base port @ path) of
        Some (status, answer) \<Rightarrow>
          if status < 500
          then Some (port, local_base port @ path, Option.bind (Option.bind answer (j_get ''version'')) as_str)
          else probe_runtime http_get ps
      | None \<Rightarrow> probe_runtime http_get ps)"

definition proof_summary :: "string \<Rightarrow> string option \<Rightarrow> bool \<Rightarrow> bool \<Rightarrow> string \<Rightarrow> bool \<Rightarrow> string" where
  "proof_summary agent_id config_path config_ok bin_found bin_output allowed =
     (if config_ok \<and> bin_found \<and> allowed
      then ([CHR 0xE2, CHR 0x9C, CHR 0x85] @ '' GENUINE CONNECTION CONFIRMED '' @ [CHR 0xE2, CHR 0x80, CHR 0x94]
       @ '' Config file found at disk, '' @ [CHR 0x27] @ agent_id @ [CHR 0x27] @ '' binary verified (''
       @ (case str_lines bin_output of [] \<Rightarrow> ''installed'' | l # _ \<Rightarrow> l)
       @ ''), A1 policy enforcement active.'')
      else if config_ok \<and> bin_found
      then ([CHR 0xE2, CHR 0x9A, CHR 0xA0, CHR 0xEF, CHR 0xB8, CHR 0x8F] @ '' CONFIG + BINARY OK ''
       @ [CHR 0xE2, CHR 0x80, CHR 0x94] @ '' '' @ agent_id
       @ '' is installed and A1 config is written. Start the agent to enable runtime enforcement.'')
      else if config_ok
      then ([CHR 0xE2, CHR 0x9A, CHR 0xA0, CHR 0xEF, CHR 0xB8, CHR 0x8F] @ '' CONFIG WRITTEN ''
       @ [CHR 0xE2, CHR 0x80, CHR 0x94] @ '' A1 config file exists at '' @ [CHR 0x27] @ set_or ''?'' config_path
       @ [CHR 0x27] @ ''. Install the '' @ agent_id @ '' binary to complete setup.'')
      else if bin_found
      then ([CHR 0xE2, CHR 0x9A, CHR 0xA0, CHR 0xEF, CHR 0xB8, CHR 0x8F] @ '' BINARY FOUND ''
       @ [CHR 0xE2, CHR 0x80, CHR 0x94] @ '' '' @ agent_id
       @ '' binary is installed but A1 config not written. Click Connect first.'')
      else ([CHR 0xE2, CHR 0x9D, CHR 0x8C] @ '' NOT CONNECTED '' @ [CHR 0xE2, CHR 0x80, CHR 0x94] @ '' '' @ agent_id
       @ '' is not installed or A1 config not written. Install and Connect first.''))"

definition probe_live_handler ::
  "agent_os \<Rightarrow> http_post \<Rightarrow> (string \<Rightarrow> (nat \<times> json option) option) \<Rightarrow> app_state \<Rightarrow> string \<Rightarrow> string option \<Rightarrow> disk
     \<Rightarrow> probe_live_response" where
  "probe_live_handler S post http_get state agent_id given d =
     (case probe_config S d agent_id given of (config_path, config_contents) \<Rightarrow>
      case probe_binary S agent_id of (bin_cmd, bin_output, bin_found) \<Rightarrow>
        (let allowed = policy_allowed_test (os_env S) post agent_id (gw_pk_hex state);
             denied = policy_denied_test (os_env S) post agent_id (gw_pk_hex state);
             runtime = probe_runtime http_get (live_probes agent_id);
             config_ok = config_contents \<noteq> None
         in \<lparr>pl_config_file_path = config_path, pl_config_file_contents = config_contents, pl_binary_check_cmd = bin_cmd,
             pl_binary_check_output = bin_output, pl_binary_found = bin_found, pl_policy_test_allowed = allowed,
             pl_policy_test_denied = denied, pl_runtime_reachable = (runtime \<noteq> None),
             pl_runtime_port = map_option fst runtime, pl_runtime_version = Option.bind runtime (\<lambda>r. snd (snd r)),
             pl_runtime_health_url = map_option (\<lambda>r. fst (snd r)) runtime,
             pl_genuine_connection = (config_ok \<or> bin_found),
             pl_proof_summary = proof_summary agent_id config_path config_ok bin_found bin_output (pt_allowed allowed)\<rparr>))"

section \<open>Properties\<close>

definition is_done :: "sse_event \<Rightarrow> bool" where
  "is_done e \<longleftrightarrow> (\<exists>v. e = DoneEvent v)"

lemma filter_in_shuffles: "zs \<in> shuffles xs ys \<Longrightarrow> filter P zs \<in> shuffles (filter P xs) (filter P ys)"
  by (metis filter_shuffles imageI)

lemma append_in_shuffles: "xs @ ys \<in> shuffles xs ys"
  by (induction xs) (auto intro: Cons_in_shuffles_leftI)

lemma process_streams_logs:
  assumes "zs \<in> process_streams i out err ok"
  shows "(\<exists>v. filter is_done zs = [DoneEvent v])
    \<and> filter (\<lambda>e. \<not> is_done e) zs \<in> shuffles (map LogEvent out) (map (\<lambda>l. LogEvent (''stderr: '' @ l)) err)"
proof -
  obtain logs v where l: "logs \<in> shuffles (map LogEvent out) (map (\<lambda>l. LogEvent (''stderr: '' @ l)) err)"
    and z: "zs \<in> shuffles logs [DoneEvent v]"
    using assms by (auto simp: process_streams_def done_event_def Let_def)
  have n: "\<not> is_done e" if "e \<in> set logs" for e using set_shuffles [OF l] that by (auto simp: is_done_def)
  have "filter is_done zs \<in> shuffles (filter is_done logs) (filter is_done [DoneEvent v])"
    using z by (rule filter_in_shuffles)
  moreover have "filter is_done logs = []" using n by (simp add: filter_empty_conv)
  ultimately have "filter is_done zs = [DoneEvent v]" by (auto simp: is_done_def)
  moreover have "filter (\<lambda>e. \<not> is_done e) zs \<in> shuffles (filter (\<lambda>e. \<not> is_done e) logs) (filter (\<lambda>e. \<not> is_done e) [DoneEvent v])"
    using z by (rule filter_in_shuffles)
  moreover have "filter (\<lambda>e. \<not> is_done e) logs = logs" using n by simp
  ultimately show ?thesis using l by (auto simp: is_done_def)
qed

lemma pull_one_done:
  assumes "zs \<in> pull_handler S i given"
  shows "\<exists>v. filter is_done zs = [DoneEvent v]"
  using assms process_streams_logs
  by (fastforce simp: pull_handler_def Let_def docker_events_def done_event_def is_done_def split: if_splits sum.splits)

text \<open>The last event can overtake the output it announces.\<close>

lemma done_overtakes:
  assumes "out \<noteq> []"
  shows "\<exists>zs\<in>process_streams i out err ok. is_done (hd zs) \<and> \<not> is_done (last zs)"
proof -
  let ?logs = "map LogEvent out @ map (\<lambda>l. LogEvent (''stderr: '' @ l)) err"
  have l: "?logs \<in> shuffles (map LogEvent out) (map (\<lambda>l. LogEvent (''stderr: '' @ l)) err)" by (rule append_in_shuffles)
  have "[x] @ ?logs \<in> shuffles [x] ?logs" for x by (rule append_in_shuffles)
  then have x: "x # ?logs \<in> shuffles ?logs [x]" for x by (simp add: shuffles_commutes)
  have ne: "?logs \<noteq> []" using assms by simp
  from last_in_set [OF ne] have "\<not> is_done (last ?logs)" by (auto simp: is_done_def)
  then have "\<not> is_done (last (x # ?logs))" for x by (subst last_ConsR [OF ne])
  moreover have "is_done (hd (done_event ok m # ?logs))" for m by (simp add: is_done_def done_event_def)
  ultimately show ?thesis using l x unfolding process_streams_def Let_def by blast
qed

text \<open>
  An agent the probe has no command for is told from its echo to be installed: every such name is
  reported as a genuine connection.
\<close>

lemma probe_live_unknown:
  assumes "agent_id \<notin> {''ironclaw'', ''openclaw'', ''claude_code'', ''ollama''}"
    and "ac_shell S (''echo 'no version command'' @ [CHR 0x27]) = Inr (True, ''no version command'' @ nl, [])"
  shows "pl_genuine_connection (probe_live_handler S post http_get state agent_id given d)"
    and "pl_config_file_contents (probe_live_handler S post http_get state agent_id given d) = None"
proof -
  have t: "str_trim (''no version command'' @ nl) = ''no version command''" "\<not> contains ''no version command'' ''not in PATH''"
    by code_simp+
  have b: "probe_binary S agent_id = (version_cmd agent_id, ''no version command'', True)"
    using assms t by (simp add: probe_binary_def version_cmd_def Let_def del: append.simps)
  have "probe_config S d agent_id given = (None, None)" using assms(1) by (simp add: probe_config_def)
  then show "pl_genuine_connection (probe_live_handler S post http_get state agent_id given d)"
    and "pl_config_file_contents (probe_live_handler S post http_get state agent_id given d) = None"
    by (simp_all add: probe_live_handler_def b Let_def)
qed

text \<open>
  The probe's body has none of the members that the route needs, so an answer of the kind the route
  gives to a request it cannot read is the only one possible.
\<close>

lemma probe_payload_misses:
  "j_get ''chain'' (probe_payload i tool ctx pk) = None" "j_get ''intent_name'' (probe_payload i tool ctx pk) = None"
  "j_get ''executor_pk_hex'' (probe_payload i tool ctx pk) = None"
  by (simp_all add: probe_payload_def)

lemma probe_never_confirmed:
  assumes "\<And>path body h. j_get ''chain'' body = None \<Longrightarrow> path = public_base (os_env S) @ ''/v1/authorize'' \<Longrightarrow>
      \<exists>status answer. post path body h = Inr (status, answer) \<and> \<not> is_success status"
  shows "\<not> pt_allowed (pl_policy_test_allowed (probe_live_handler S post http_get state i given d))"
proof -
  obtain status answer where "post (public_base (os_env S) @ ''/v1/authorize'') (probe_payload i ''files.read''
      [(''path'', JStr ''/tmp/test.txt''), (''source'', JStr ''a1-probe-live'')] (gw_pk_hex state)) None = Inr (status, answer)"
    "\<not> is_success status"
    using assms [OF probe_payload_misses(1) refl] by blast
  then have "\<not> pt_allowed (policy_allowed_test (os_env S) post i (gw_pk_hex state))"
    by (simp add: policy_allowed_test_def Let_def)
  then show ?thesis by (simp add: probe_live_handler_def Let_def split: prod.splits)
qed

lemma probe_runtime_Some:
  "probe_runtime http_get ps = Some (port, url, v) \<Longrightarrow>
     \<exists>path status answer. (port, path) \<in> set ps \<and> url = local_base port @ path \<and> http_get url = Some (status, answer) \<and> status < 500"
proof (induction http_get ps rule: probe_runtime.induct)
  case (2 http_get port' path ps)
  then show ?case
    by (cases "http_get (local_base port' @ path)") (fastforce split: prod.splits if_splits)+
qed simp

text \<open>No agent the scan reports is restarted by its own name but the first two.\<close>

lemma restart_names: "restart_cmd i \<noteq> None \<Longrightarrow> i \<in> set (map ka_id KNOWN_AGENTS) \<Longrightarrow> i \<in> {''openclaw'', ''ironclaw''}"
  by (auto simp: restart_cmd_def KNOWN_AGENTS_def known_ironclaw_def known_openclaw_def known_claude_code_def
      known_claude_desktop_def known_ollama_def known_langchain_def known_crewai_def known_openai_agents_def known_custom_def
      split: if_splits)
end
