(* ===== verification/A1_Hybrid.thy ===== *)
theory A1_Hybrid
  imports A1_Cert
begin

text \<open>
  \<open>src/hybrid.rs\<close>: the algorithm tags, the algorithm consistency of a chain, hybrid keys and
  signatures, the trait \<open>HybridSigner\<close> with the adapter for classical signers, and the choice of an
  algorithm. \<open>pq\<close> tells whether the feature \<open>post-quantum\<close> is on.
\<close>

section \<open>Algorithms\<close>

datatype signature_algorithm = AlgEd25519 | HybridMlDsa44Ed25519 | HybridMlDsa65Ed25519

fun alg_as_u8 :: "signature_algorithm \<Rightarrow> u8" where
  "alg_as_u8 AlgEd25519 = 1"
| "alg_as_u8 HybridMlDsa44Ed25519 = 2"
| "alg_as_u8 HybridMlDsa65Ed25519 = 3"

lemma alg_as_u8_inj: "alg_as_u8 a = alg_as_u8 b \<longleftrightarrow> a = b"
  by (cases a; cases b; simp)

text \<open>Algorithms are ordered by their tags, the stronger ones above.\<close>

instantiation signature_algorithm :: linorder
begin

definition less_eq_signature_algorithm :: "signature_algorithm \<Rightarrow> signature_algorithm \<Rightarrow> bool" where
  "less_eq_signature_algorithm a b = (alg_as_u8 a \<le> alg_as_u8 b)"

definition less_signature_algorithm :: "signature_algorithm \<Rightarrow> signature_algorithm \<Rightarrow> bool" where
  "less_signature_algorithm a b = (alg_as_u8 a < alg_as_u8 b)"

instance
  by standard (auto simp: less_eq_signature_algorithm_def less_signature_algorithm_def less_le alg_as_u8_inj)

end

lemma classical_least: "AlgEd25519 \<le> a"
  by (cases a) (simp_all add: less_eq_signature_algorithm_def)

definition alg_from_u8 :: "u8 \<Rightarrow> a1_error + signature_algorithm" where
  "alg_from_u8 v =
     (if v = 1 then Inr AlgEd25519 else if v = 2 then Inr HybridMlDsa44Ed25519
      else if v = 3 then Inr HybridMlDsa65Ed25519 else Inl (UnsupportedAlgorithm v))"

fun requires_pq :: "signature_algorithm \<Rightarrow> bool" where
  "requires_pq AlgEd25519 = False"
| "requires_pq HybridMlDsa44Ed25519 = True"
| "requires_pq HybridMlDsa65Ed25519 = True"

fun pq_public_key_len :: "signature_algorithm \<Rightarrow> nat" where
  "pq_public_key_len AlgEd25519 = 0"
| "pq_public_key_len HybridMlDsa44Ed25519 = 1312"
| "pq_public_key_len HybridMlDsa65Ed25519 = 1952"

fun pq_signature_len :: "signature_algorithm \<Rightarrow> nat" where
  "pq_signature_len AlgEd25519 = 0"
| "pq_signature_len HybridMlDsa44Ed25519 = 2420"
| "pq_signature_len HybridMlDsa65Ed25519 = 3309"

fun alg_name :: "signature_algorithm \<Rightarrow> string" where
  "alg_name AlgEd25519 = ''ed25519''"
| "alg_name HybridMlDsa44Ed25519 = ''hybrid-ml-dsa-44-ed25519''"
| "alg_name HybridMlDsa65Ed25519 = ''hybrid-ml-dsa-65-ed25519''"

section \<open>The algorithms of a chain\<close>

datatype chain_compatibility =
    Uniform signature_algorithm
  | MixedClassicalToHybrid nat signature_algorithm

text \<open>
  The loop, from position \<open>i\<close>: the hybrid algorithm once one was seen, with the number of certificates
  before it. \<open>unwrap\<close> of a \<open>hybrid_alg\<close> that is still absent would panic; it is \<open>None\<close>.
\<close>

fun compat_loop ::
  "nat \<Rightarrow> (nat \<times> signature_algorithm) option \<Rightarrow> signature_algorithm list
     \<Rightarrow> a1_error + (nat \<times> signature_algorithm) option" where
  "compat_loop i st [] = Inr st"
| "compat_loop i st (alg # rest) =
     (if requires_pq alg
      then (case st of
              None \<Rightarrow> compat_loop (i + 1) (Some (i, alg)) rest
            | Some (_, h) \<Rightarrow>
                if h \<noteq> alg then Inl (AlgorithmMismatch (alg_name h) (alg_name alg)) else compat_loop (i + 1) st rest)
      else (case st of
              None \<Rightarrow> compat_loop (i + 1) st rest
            | Some (_, h) \<Rightarrow> Inl (AlgorithmMismatch (alg_name h) (alg_name alg))))"

definition from_algorithms :: "signature_algorithm list \<Rightarrow> (a1_error + chain_compatibility) option" where
  "from_algorithms algs =
     (case algs of
        [] \<Rightarrow> Some (Inr (Uniform AlgEd25519))
      | first # _ \<Rightarrow>
          if list_all (\<lambda>a. a = first) algs then Some (Inr (Uniform first))
          else (case compat_loop 0 None algs of
                  Inl e \<Rightarrow> Some (Inl e)
                | Inr (Some (d, h)) \<Rightarrow> Some (Inr (MixedClassicalToHybrid d h))
                | Inr None \<Rightarrow> None))"

section \<open>Keys and signatures\<close>

definition DOMAIN_HYBRID_BIND :: string where "DOMAIN_HYBRID_BIND = ''a1::hybrid::bind::v1''"
definition DOMAIN_HYBRID_ALGO :: string where "DOMAIN_HYBRID_ALGO = ''a1::hybrid::algo::v1''"

record hybrid_public_key =
  hk_algorithm :: signature_algorithm
  classical_key :: bytes
  pq_key_bytes :: bytes

definition hybrid_classical :: "bytes \<Rightarrow> hybrid_public_key" where
  "hybrid_classical vk = \<lparr>hk_algorithm = AlgEd25519, classical_key = vk, pq_key_bytes = []\<rparr>"

definition validate_lengths :: "hybrid_public_key \<Rightarrow> a1_error + unit" where
  "validate_lengths k =
     (let expected = pq_public_key_len (hk_algorithm k) in
      if length (pq_key_bytes k) \<noteq> expected
      then Inl (InvalidHybridKeyLength (alg_name (hk_algorithm k)) expected (length (pq_key_bytes k))) else Inr ())"

definition key_chunks :: "hybrid_public_key \<Rightarrow> bytes list" where
  "key_chunks k = [[alg_as_u8 (hk_algorithm k)], classical_key k, le64 (u64_of (length (pq_key_bytes k))), pq_key_bytes k]"

definition hybrid_key_commitment :: "ext \<Rightarrow> hybrid_public_key \<Rightarrow> bytes" where
  "hybrid_key_commitment E k = h_finalize E (h_updates (new_derive_key DOMAIN_HYBRID_ALGO) (key_chunks k))"

record hybrid_signature =
  hs_algorithm :: signature_algorithm
  classical_sig :: bytes
  pq_sig_bytes :: bytes
  pq_context :: bytes

definition context_chunks :: "signature_algorithm \<Rightarrow> bytes \<Rightarrow> bytes \<Rightarrow> bytes list" where
  "context_chunks alg msg pq_sig =
     [[alg_as_u8 alg], le64 (u64_of (length msg)), msg, le64 (u64_of (length pq_sig)), pq_sig]"

definition compute_pq_context :: "ext \<Rightarrow> signature_algorithm \<Rightarrow> bytes \<Rightarrow> bytes \<Rightarrow> bytes" where
  "compute_pq_context E alg msg pq_sig =
     h_finalize E (h_updates (new_derive_key DOMAIN_HYBRID_BIND) (context_chunks alg msg pq_sig))"

definition hybrid_verify :: "ext \<Rightarrow> bool \<Rightarrow> bytes \<Rightarrow> hybrid_public_key \<Rightarrow> hybrid_signature \<Rightarrow> a1_error + unit" where
  "hybrid_verify E pq msg pk s =
     (if hs_algorithm s \<noteq> hk_algorithm pk
      then Inl (AlgorithmMismatch (alg_name (hk_algorithm pk)) (alg_name (hs_algorithm s)))
      else if \<not> ed_verify E (classical_key pk) msg (classical_sig s) then Inl (HybridSignatureInvalid ''ed25519'')
      else if compute_pq_context E (hs_algorithm s) msg (pq_sig_bytes s) \<noteq> pq_context s
      then Inl (HybridSignatureInvalid ''pq-context'')
      else if pq \<and> requires_pq (hs_algorithm s)
      then (if pq_sig_bytes s = [] then Inl (PqSignatureMissing (alg_name (hs_algorithm s)))
            else let expected = pq_signature_len (hs_algorithm s) in
              if length (pq_sig_bytes s) \<noteq> expected
              then Inl (InvalidHybridKeyLength (alg_name (hs_algorithm s)) expected (length (pq_sig_bytes s)))
              else Inr ())
      else Inr ())"

section \<open>Signers\<close>

text \<open>The trait \<open>HybridSigner\<close>, over the states \<open>'s\<close> of an implementation that its \<open>ok\<close> admits.\<close>

locale hybrid_signer =
  fixes E :: ext
    and ok :: "'s \<Rightarrow> bool"
    and algorithm :: "'s \<Rightarrow> signature_algorithm"
    and hybrid_verifying_key :: "'s \<Rightarrow> hybrid_public_key"
    and sign_hybrid :: "'s \<Rightarrow> bytes \<Rightarrow> hybrid_signature"
  assumes key_alg: "hk_algorithm (hybrid_verifying_key s) = algorithm s"
    and sig_alg: "hs_algorithm (sign_hybrid s m) = algorithm s"
    and key_len: "validate_lengths (hybrid_verifying_key s) = Inr ()"
    and signs: "ok s \<Longrightarrow> hybrid_verify E pq m (hybrid_verifying_key s) (sign_hybrid s m) = Inr ()"
begin

text \<open>A signature is refused under every key of another algorithm, before its bytes are looked at.\<close>

lemma cross_algorithm:
  "hk_algorithm pk \<noteq> algorithm s \<Longrightarrow>
     hybrid_verify E pq m pk (sign_hybrid s m) = Inl (AlgorithmMismatch (alg_name (hk_algorithm pk)) (alg_name (algorithm s)))"
  by (simp add: hybrid_verify_def sig_alg)

text \<open>What a signer produces verifies with and without the feature: nothing has to be signed again.\<close>

lemma feature_independent:
  "ok s \<Longrightarrow> hybrid_verify E True m (hybrid_verifying_key s) (sign_hybrid s m)
     = hybrid_verify E False m (hybrid_verifying_key s) (sign_hybrid s m)"
  by (simp add: signs)

end

definition adapter_algorithm :: "signer \<Rightarrow> signature_algorithm" where
  "adapter_algorithm S = AlgEd25519"

definition adapter_key :: "signer \<Rightarrow> hybrid_public_key" where
  "adapter_key S = hybrid_classical (verifying_key S)"

definition adapter_sign :: "ext \<Rightarrow> signer \<Rightarrow> bytes \<Rightarrow> hybrid_signature" where
  "adapter_sign E S msg =
     \<lparr>hs_algorithm = AlgEd25519, classical_sig = sign_message S msg, pq_sig_bytes = [],
      pq_context = compute_pq_context E AlgEd25519 msg []\<rparr>"

interpretation classical_adapter: hybrid_signer E "signer_ok E" adapter_algorithm adapter_key "adapter_sign E" for E
  by unfold_locales
    (simp_all add: adapter_algorithm_def adapter_key_def adapter_sign_def hybrid_classical_def validate_lengths_def
      hybrid_verify_def signer_ok_def)

text \<open>\<open>max_by_key\<close> keeps the later of two equal candidates, and there are no two of the same tag.\<close>

definition negotiate_algorithm :: "bool \<Rightarrow> signature_algorithm list \<Rightarrow> signature_algorithm" where
  "negotiate_algorithm pq candidates =
     (if pq
      then (case candidates of
              [] \<Rightarrow> AlgEd25519
            | a # as \<Rightarrow> fold max as a)
      else AlgEd25519)"

section \<open>Properties\<close>

lemma alg_roundtrip: "alg_from_u8 (alg_as_u8 a) = Inr a"
  by (cases a) (simp_all add: alg_from_u8_def)

lemma alg_from_u8_Inr: "alg_from_u8 v = Inr a \<longleftrightarrow> alg_as_u8 a = v"
  by (cases a) (auto simp: alg_from_u8_def)

lemma alg_name_inj: "alg_name a = alg_name b \<longleftrightarrow> a = b"
  by (cases a; cases b; simp)

lemma requires_pq_iff: "requires_pq a \<longleftrightarrow> a \<noteq> AlgEd25519"
  by (cases a) simp_all

lemma all_eq_replicate: "list_all (\<lambda>x. x = a) xs \<longleftrightarrow> (\<exists>m. xs = replicate m a)"
proof
  assume "list_all (\<lambda>x. x = a) xs"
  then have "xs = replicate (length xs) a" by (intro replicate_eqI) (auto simp: list_all_iff)
  then show "\<exists>m. xs = replicate m a" ..
qed (auto simp: list_all_iff)

lemma compat_hybrid:
  "requires_pq h \<Longrightarrow> compat_loop i (Some (d, h)) algs = Inr r \<longleftrightarrow> list_all (\<lambda>a. a = h) algs \<and> r = Some (d, h)"
  by (induction algs arbitrary: i) (auto simp: requires_pq_iff)

lemma compat_classical:
  "compat_loop i None algs = Inr r \<longleftrightarrow>
     (r = None \<and> list_all (\<lambda>a. a = AlgEd25519) algs) \<or>
     (\<exists>d h m. r = Some (i + d, h) \<and> h \<noteq> AlgEd25519 \<and> algs = replicate d AlgEd25519 @ h # replicate m h)"
proof (induction algs arbitrary: i)
  case Nil
  show ?case by auto
next
  case (Cons a algs)
  show ?case
  proof (cases "a = AlgEd25519")
    case True
    then have "compat_loop i None (a # algs) = Inr r \<longleftrightarrow> compat_loop (i + 1) None algs = Inr r" by simp
    also have "\<dots> \<longleftrightarrow> (r = None \<and> list_all (\<lambda>a. a = AlgEd25519) (a # algs)) \<or>
       (\<exists>d h m. r = Some (i + d, h) \<and> h \<noteq> AlgEd25519 \<and> a # algs = replicate d AlgEd25519 @ h # replicate m h)"
    proof -
      have "(\<exists>d h m. r = Some (i + 1 + d, h) \<and> h \<noteq> AlgEd25519 \<and> algs = replicate d AlgEd25519 @ h # replicate m h) \<longleftrightarrow>
        (\<exists>d h m. r = Some (i + d, h) \<and> h \<noteq> AlgEd25519 \<and> a # algs = replicate d AlgEd25519 @ h # replicate m h)" (is "?l \<longleftrightarrow> ?r")
      proof
        assume ?l
        then obtain d h m where "r = Some (i + 1 + d, h)" "h \<noteq> AlgEd25519" "algs = replicate d AlgEd25519 @ h # replicate m h" by blast
        then show ?r using True by (intro exI [of _ "Suc d"] exI [of _ h] exI [of _ m]) simp
      next
        assume ?r
        then obtain d h m where e: "r = Some (i + d, h)" "h \<noteq> AlgEd25519" "a # algs = replicate d AlgEd25519 @ h # replicate m h" by blast
        with True obtain d' where "d = Suc d'" by (cases d) auto
        with e show ?l by (intro exI [of _ d'] exI [of _ h] exI [of _ m]) simp
      qed
      then show ?thesis using Cons.IH [of "i + 1"] True by simp
    qed
    finally show ?thesis .
  next
    case False
    then have pq: "requires_pq a" by (simp add: requires_pq_iff)
    have "compat_loop i None (a # algs) = Inr r \<longleftrightarrow> list_all (\<lambda>x. x = a) algs \<and> r = Some (i, a)"
      using compat_hybrid [OF pq, of "i + 1" i algs r] pq by simp
    also have "\<dots> \<longleftrightarrow> (\<exists>m. algs = replicate m a) \<and> r = Some (i, a)"
      by (simp only: all_eq_replicate)
    also have "\<dots> \<longleftrightarrow> (\<exists>d h m. r = Some (i + d, h) \<and> h \<noteq> AlgEd25519 \<and> a # algs = replicate d AlgEd25519 @ h # replicate m h)"
      (is "?l \<longleftrightarrow> ?r")
    proof
      assume ?l
      then obtain m where "algs = replicate m a" "r = Some (i, a)" by blast
      with False show ?r by (intro exI [of _ 0] exI [of _ a] exI [of _ m]) simp
    next
      assume ?r
      then obtain d h m where e: "r = Some (i + d, h)" "h \<noteq> AlgEd25519" "a # algs = replicate d AlgEd25519 @ h # replicate m h"
        by blast
      with False have "d = 0" by (cases d) auto
      with e show ?l by auto
    qed
    finally show ?thesis using False by simp
  qed
qed

lemma from_algorithms_ne:
  "algs \<noteq> [] \<Longrightarrow> from_algorithms algs =
     (if list_all (\<lambda>a. a = hd algs) algs then Some (Inr (Uniform (hd algs)))
      else (case compat_loop 0 None algs of
              Inl e \<Rightarrow> Some (Inl e)
            | Inr (Some (d, h)) \<Rightarrow> Some (Inr (MixedClassicalToHybrid d h))
            | Inr None \<Rightarrow> None))"
  by (cases algs) (simp_all add: from_algorithms_def)

text \<open>
  The classification is total, and it is what the comment says: one algorithm throughout, or a
  classical part and then one hybrid algorithm to the end. Everything else is refused.
\<close>

lemma from_algorithms_mixed:
  "from_algorithms algs = Some (Inr (MixedClassicalToHybrid d h)) \<longleftrightarrow>
     0 < d \<and> requires_pq h \<and> (\<exists>m. algs = replicate d AlgEd25519 @ replicate (Suc m) h)"
proof (cases algs)
  case Nil
  then show ?thesis by (auto simp: from_algorithms_def)
next
  case (Cons first rest)
  show ?thesis
  proof (cases "list_all (\<lambda>a. a = first) algs")
    case True
    have "\<not> (0 < d \<and> requires_pq h \<and> algs = replicate d AlgEd25519 @ replicate (Suc m) h)" for m
    proof
      assume m: "0 < d \<and> requires_pq h \<and> algs = replicate d AlgEd25519 @ replicate (Suc m) h"
      then have "AlgEd25519 \<in> set algs" "h \<in> set algs" by auto
      with True have "h = AlgEd25519" unfolding list_all_iff by metis
      with m show False by simp
    qed
    then have n: "\<not> (0 < d \<and> requires_pq h \<and> (\<exists>m. algs = replicate d AlgEd25519 @ replicate (Suc m) h))" by blast
    have "from_algorithms algs = Some (Inr (Uniform first))" using True Cons by (simp add: from_algorithms_def)
    with n show ?thesis by (metis chain_compatibility.distinct(1) option.inject sum.inject(2))
  next
    case False
    have "from_algorithms algs = Some (Inr (MixedClassicalToHybrid d h)) \<longleftrightarrow> compat_loop 0 None algs = Inr (Some (d, h))"
      using False Cons by (auto simp: from_algorithms_def split: sum.splits option.splits)
    also have "\<dots> \<longleftrightarrow> (\<exists>m. h \<noteq> AlgEd25519 \<and> algs = replicate d AlgEd25519 @ h # replicate m h)"
      by (auto simp: compat_classical)
    also have "\<dots> \<longleftrightarrow> (0 < d \<and> requires_pq h \<and> (\<exists>m. algs = replicate d AlgEd25519 @ replicate (Suc m) h))"
    proof -
      have "0 < d" if "algs = replicate d AlgEd25519 @ h # replicate m h" for m
        using that False Cons by (cases d) (auto simp: list_all_iff)
      then show ?thesis by (auto simp: requires_pq_iff)
    qed
    finally show ?thesis .
  qed
qed

lemma from_algorithms_total: "from_algorithms algs \<noteq> None"
proof (cases "algs = []")
  case True
  then show ?thesis by (simp add: from_algorithms_def)
next
  case False
  have "list_all (\<lambda>a. a = hd algs) algs" if "compat_loop 0 None algs = Inr None"
  proof -
    from that have "list_all (\<lambda>a. a = AlgEd25519) algs" using compat_classical [of 0 algs None] by blast
    with False show ?thesis by (cases algs) auto
  qed
  with False show ?thesis by (auto simp: from_algorithms_ne split: sum.split option.split)
qed

lemma from_algorithms_uniform:
  "algs \<noteq> [] \<Longrightarrow> from_algorithms algs = Some (Inr (Uniform a)) \<longleftrightarrow> list_all (\<lambda>x. x = a) algs"
  by (cases algs) (auto simp: from_algorithms_def split: sum.splits option.splits)

text \<open>The commitment of a key binds its algorithm and both parts.\<close>

lemma key_chunks_inj:
  assumes "fits (pq_key_bytes k)" "fits (pq_key_bytes k')" "length (classical_key k) = length (classical_key k')"
    and eq: "concat (key_chunks k) = concat (key_chunks k')"
  shows "k = k'"
proof -
  from eq assms(3) have "alg_as_u8 (hk_algorithm k) = alg_as_u8 (hk_algorithm k')" "classical_key k = classical_key k'"
    and r: "lp (pq_key_bytes k) @ [] = lp (pq_key_bytes k') @ []"
    by (simp_all add: key_chunks_def lp_def)
  with lp_append_inj [OF assms(1,2) r] show ?thesis by (simp add: alg_as_u8_inj)
qed

lemma context_chunks_inj:
  assumes "fits m" "fits m'" "fits p" "fits p'" "concat (context_chunks a m p) = concat (context_chunks a' m' p')"
  shows "a = a' \<and> m = m' \<and> p = p'"
proof -
  from assms(5) have "alg_as_u8 a = alg_as_u8 a'" and r: "lp m @ lp p = lp m' @ lp p'"
    by (simp_all add: context_chunks_def lp_def)
  from lp_append_inj [OF assms(1,2) r] have "m = m'" "lp p @ [] = lp p' @ []" by auto
  with lp_append_inj [OF assms(3,4)] \<open>alg_as_u8 a = alg_as_u8 a'\<close> show ?thesis by (auto simp: alg_as_u8_inj)
qed

lemma hybrid_verify_Inr:
  "hybrid_verify E pq msg pk s = Inr () \<longleftrightarrow>
     hs_algorithm s = hk_algorithm pk \<and> ed_verify E (classical_key pk) msg (classical_sig s)
     \<and> pq_context s = compute_pq_context E (hs_algorithm s) msg (pq_sig_bytes s)
     \<and> (pq \<and> requires_pq (hs_algorithm s) \<longrightarrow> length (pq_sig_bytes s) = pq_signature_len (hs_algorithm s))"
  by (cases "hs_algorithm s") (auto simp: hybrid_verify_def Let_def)

text \<open>
  The bytes of the post-quantum signature are counted and never verified, with the feature on as
  without it: the holder of the classical key alone makes a signature that passes, under any
  post-quantum key and with any bytes of the right length.
\<close>

lemma pq_component_unchecked:
  assumes "signer_ok E S" "length p = pq_signature_len a"
  shows "hybrid_verify E pq msg \<lparr>hk_algorithm = a, classical_key = verifying_key S, pq_key_bytes = k\<rparr>
    \<lparr>hs_algorithm = a, classical_sig = sign_message S msg, pq_sig_bytes = p, pq_context = compute_pq_context E a msg p\<rparr> = Inr ()"
  using assms by (simp add: hybrid_verify_Inr signer_ok_def)

text \<open>The choice is the greatest of the candidates; without the feature it is the least algorithm there is.\<close>

lemma negotiate_algorithm_Max:
  "candidates \<noteq> [] \<Longrightarrow> negotiate_algorithm True candidates = Max (set candidates)"
  by (cases candidates) (simp_all add: negotiate_algorithm_def flip: Max.set_eq_fold)

lemma negotiate_algorithm_strongest:
  "candidates \<noteq> [] \<Longrightarrow> negotiate_algorithm True candidates \<in> set candidates
     \<and> (\<forall>c\<in>set candidates. c \<le> negotiate_algorithm True candidates)"
  by (simp add: negotiate_algorithm_Max)

text \<open>A chain that is classified never goes back to a weaker algorithm.\<close>

lemma from_algorithms_sorted:
  assumes "from_algorithms algs = Some (Inr c)"
  shows "sorted algs"
proof (cases c)
  case (Uniform a)
  show ?thesis
  proof (cases "algs = []")
    case False
    with assms Uniform have "list_all (\<lambda>x. x = a) algs" by (simp add: from_algorithms_uniform)
    then obtain m where "algs = replicate m a" by (auto simp: all_eq_replicate)
    then show ?thesis by (simp add: sorted_replicate)
  qed simp
next
  case (MixedClassicalToHybrid d h)
  with assms obtain m where "algs = replicate d AlgEd25519 @ replicate (Suc m) h"
    by (auto simp: from_algorithms_mixed)
  then show ?thesis using classical_least [of h] by (auto simp: sorted_append sorted_replicate simp del: replicate_Suc)
qed

end
