(* ===== verification/A1_Bind.thy ===== *)
theory A1_Bind
  imports A1_Negotiate
begin

text \<open>
  The crate \<open>a1-identity\<close>: policy documents (\<open>policy.rs\<close>) with their validation and their compilation
  into delegation policies, and the bindings of a key to a JWT subject (\<open>jwt_binding.rs\<close>) and to a
  SPIFFE identity (\<open>spiffe_binding.rs\<close>). YAML and JSON are \<open>serde\<close>'s; decoding and validating a JWT is
  the crate \<open>jsonwebtoken\<close> and is a parameter. \<open>pk_msg\<close> is the text of a key error.
\<close>

section \<open>Policy documents\<close>

record policy_intent =
  pi_name :: string
  pi_params :: "(string \<times> string) list"

record policy_cert =
  pc_delegate_pk_hex :: string
  pc_intents :: "policy_intent list"
  pc_ttl_seconds :: u64
  pc_max_depth :: u8

definition policy_cert_ttl :: u64 where "policy_cert_ttl = 3600"
definition policy_cert_depth :: u8 where "policy_cert_depth = 16"

record policy_document =
  doc_name :: string
  doc_max_chain_depth :: "u8 option"
  doc_max_ttl_secs :: "u64 option"
  doc_forbid_sub_delegation :: bool
  doc_capabilities :: "string list"
  doc_required_extensions :: "string list"
  doc_certs :: "policy_cert list"

definition template_text :: "nat \<Rightarrow> string" where
  "template_text i = ''cert template '' @ dec i"

definition intent_errors :: "nat \<Rightarrow> policy_intent \<Rightarrow> string list" where
  "intent_errors i pin =
     (if pi_name pin = [] then [template_text i @ '' has an empty intent name''] else [])
     @ (if starts_with (pi_name pin) ''trad.''
        then [template_text i @ '' intent '' @ quoted (pi_name pin) @ '' looks like a typo of '' @ quoted ''trade.''] else [])"

definition cert_errors :: "ext \<Rightarrow> string \<Rightarrow> nat \<Rightarrow> policy_cert \<Rightarrow> string list" where
  "cert_errors E name i c =
     (if length (pc_delegate_pk_hex c) \<noteq> 64 \<or> hex_dec E (pc_delegate_pk_hex c) = None
      then [''Invalid delegate_pk_hex in '' @ template_text i @ '' for policy '' @ quoted name] else [])
     @ (if pc_ttl_seconds c = 0 then [template_text i @ '' ttl_seconds must be > 0''] else [])
     @ (if pc_intents c = [] then [template_text i @ '' must specify at least one intent'']
        else concat (map (intent_errors i) (pc_intents c)))"

definition doc_validate :: "ext \<Rightarrow> policy_document \<Rightarrow> string list + unit" where
  "doc_validate E d =
     (let errors =
        (if str_trim (doc_name d) = [] then [''Policy name cannot be empty''] else [])
        @ (if doc_max_chain_depth d = Some 0 then [''max_chain_depth must be > 0''] else [])
        @ (if doc_max_ttl_secs d = Some 0 then [''max_ttl_secs must be > 0''] else [])
        @ concat (map (\<lambda>(i, c). cert_errors E (doc_name d) i c) (List.enumerate 0 (doc_certs d)))
      in if errors = [] then Inr () else Inl errors)"

definition into_policy :: "policy_document \<Rightarrow> delegation_policy" where
  "into_policy d =
     (let p = policy_new (doc_name d);
          p = (case doc_max_chain_depth d of Some n \<Rightarrow> policy_max_chain_depth n p | None \<Rightarrow> p);
          p = (case doc_max_ttl_secs d of Some t \<Rightarrow> policy_max_ttl_secs t p | None \<Rightarrow> p);
          p = (if doc_forbid_sub_delegation d then forbid_sub_delegation p else p);
          p = (if doc_capabilities d \<noteq> []
               then policy_capabilities (fold capset_allow (doc_capabilities d) capset_new) p else p)
      in fold require_extension (doc_required_extensions d) p)"

section \<open>Bindings\<close>

text \<open>Both bindings hash their text fields, each with its length, and the time.\<close>

definition field_chunks :: "string list \<Rightarrow> u64 \<Rightarrow> bytes list" where
  "field_chunks fs at = concat (map (\<lambda>f. [le64 (u64_of (length f)), str_bytes f]) fs) @ [be64 at]"

definition binding_digest :: "ext \<Rightarrow> string \<Rightarrow> string list \<Rightarrow> u64 \<Rightarrow> bytes" where
  "binding_digest E domain fs at = h_finalize E (h_updates (new_derive_key domain) (field_chunks fs at))"

definition verify_binding ::
  "ext \<Rightarrow> (bytes \<Rightarrow> string) \<Rightarrow> (string \<Rightarrow> 'e) \<Rightarrow> 'e \<Rightarrow> string \<Rightarrow> string \<Rightarrow> bytes \<Rightarrow> 'e + unit" where
  "verify_binding E pk_msg key_err sig_err key_hex sig_hex msg =
     bindR (ok_or (key_err ''hex decode failed'') (hex_dec E key_hex)) (\<lambda>b.
     bindR (if length b = 32 then Inr b else Inl (key_err ''must be 32 bytes'')) (\<lambda>arr.
     bindR (if ed_valid_pk E arr then Inr arr else Inl (key_err (pk_msg arr))) (\<lambda>vk.
     bindR (ok_or sig_err (hex_dec E sig_hex)) (\<lambda>s.
     bindR (if length s = 64 then Inr s else Inl sig_err) (\<lambda>sig.
     if ed_verify E vk msg sig then Inr () else Inl sig_err)))))"

text \<open>
  The contract both share: what is accepted carries a valid signature, by the key it names, over its
  own digest.
\<close>

locale signed_binding =
  fixes E :: ext
    and verify :: "'b \<Rightarrow> 'e + unit"
    and key_of :: "'b \<Rightarrow> string"
    and digest_of :: "'b \<Rightarrow> bytes"
    and sig_of :: "'b \<Rightarrow> string"
  assumes accepted: "verify b = Inr () \<Longrightarrow>
    \<exists>vk sg. hex_dec E (key_of b) = Some vk \<and> length vk = 32 \<and> ed_valid_pk E vk
      \<and> hex_dec E (sig_of b) = Some sg \<and> ed_verify E vk (digest_of b) sg"
begin

lemma one_digest:
  assumes "verify b = Inr ()" "verify b' = Inr ()" "key_of b = key_of b'" "sig_of b = sig_of b'"
    and "\<And>vk sg. hex_dec E (key_of b) = Some vk \<Longrightarrow> hex_dec E (sig_of b) = Some sg \<Longrightarrow> sig_binding E vk sg"
  shows "digest_of b = digest_of b'"
  using accepted [OF assms(1)] accepted [OF assms(2)] assms(3-5) unfolding sig_binding_def by fastforce

end

subsection \<open>JWT subjects\<close>

definition DOMAIN_JWT_BINDING :: string where "DOMAIN_JWT_BINDING = ''dyolo::identity::jwt_binding::v1''"

record jwt_binding =
  jb_issuer :: string
  jb_sub :: string
  jb_verifying_key :: string
  jb_bound_at :: u64

record signed_jwt_binding =
  jb_binding :: jwt_binding
  jb_signature :: string

datatype jwt_binding_error =
    JbInvalidKey string
  | JbInvalidSignature
  | SubMismatch string string
  | JwtValidationFailed string

definition jwt_binding_new :: "ext \<Rightarrow> string \<Rightarrow> bytes \<Rightarrow> u64 \<Rightarrow> jwt_binding" where
  "jwt_binding_new E sub vk now = \<lparr>jb_issuer = [], jb_sub = sub, jb_verifying_key = hex_enc E vk, jb_bound_at = now\<rparr>"

record jwt_binding_builder =
  bb_issuer :: string
  bb_sub :: string

definition jb_builder_new :: jwt_binding_builder where
  "jb_builder_new = \<lparr>bb_issuer = [], bb_sub = []\<rparr>"

definition jb_builder_issuer :: "string \<Rightarrow> jwt_binding_builder \<Rightarrow> jwt_binding_builder" where
  "jb_builder_issuer i b = b\<lparr>bb_issuer := i\<rparr>"

definition jb_builder_sub :: "string \<Rightarrow> jwt_binding_builder \<Rightarrow> jwt_binding_builder" where
  "jb_builder_sub s b = b\<lparr>bb_sub := s\<rparr>"

definition jb_builder_build :: "ext \<Rightarrow> bytes \<Rightarrow> u64 \<Rightarrow> jwt_binding_builder \<Rightarrow> jwt_binding" where
  "jb_builder_build E vk now b = (jwt_binding_new E (bb_sub b) vk now)\<lparr>jb_issuer := bb_issuer b\<rparr>"

definition jwt_signable_bytes :: "ext \<Rightarrow> jwt_binding \<Rightarrow> bytes" where
  "jwt_signable_bytes E b = binding_digest E DOMAIN_JWT_BINDING [jb_issuer b, jb_sub b, jb_verifying_key b] (jb_bound_at b)"

definition jwt_binding_sign :: "ext \<Rightarrow> signer \<Rightarrow> jwt_binding \<Rightarrow> signed_jwt_binding" where
  "jwt_binding_sign E S b = \<lparr>jb_binding = b, jb_signature = hex_enc E (sign_message S (jwt_signable_bytes E b))\<rparr>"

definition jwt_verify_signature :: "ext \<Rightarrow> (bytes \<Rightarrow> string) \<Rightarrow> signed_jwt_binding \<Rightarrow> jwt_binding_error + unit" where
  "jwt_verify_signature E pk_msg s =
     verify_binding E pk_msg JbInvalidKey JbInvalidSignature (jb_verifying_key (jb_binding s)) (jb_signature s)
       (jwt_signable_bytes E (jb_binding s))"

definition verify_sub_matches :: "ext \<Rightarrow> (bytes \<Rightarrow> string) \<Rightarrow> string \<Rightarrow> signed_jwt_binding \<Rightarrow> jwt_binding_error + unit" where
  "verify_sub_matches E pk_msg expected s =
     bindR (jwt_verify_signature E pk_msg s) (\<lambda>_.
     if jb_sub (jb_binding s) \<noteq> expected then Inl (SubMismatch expected (jb_sub (jb_binding s))) else Inr ())"

record jwt_verification_options =
  expected_issuer :: string
  expected_audience :: string

text \<open>
  \<open>jwt_decode token issuer audience\<close> is \<open>jsonwebtoken::decode\<close> with the validation set to that issuer
  and audience, under the caller's key and algorithm: an error text, or the claim \<open>sub\<close>.
\<close>

definition verify_jwt_and_sub ::
  "ext \<Rightarrow> (bytes \<Rightarrow> string) \<Rightarrow> (string \<Rightarrow> string \<Rightarrow> string \<Rightarrow> string + string) \<Rightarrow> string \<Rightarrow> jwt_verification_options
     \<Rightarrow> signed_jwt_binding \<Rightarrow> jwt_binding_error + unit" where
  "verify_jwt_and_sub E pk_msg jwt_decode token opts s =
     bindR (jwt_verify_signature E pk_msg s) (\<lambda>_.
     bindR (map_errR JwtValidationFailed (jwt_decode token (expected_issuer opts) (expected_audience opts))) (\<lambda>sub.
     if jb_sub (jb_binding s) \<noteq> sub then Inl (SubMismatch sub (jb_sub (jb_binding s))) else Inr ()))"

subsection \<open>SPIFFE identities\<close>

definition DOMAIN_SPIFFE_BINDING :: string where "DOMAIN_SPIFFE_BINDING = ''dyolo::identity::spiffe_binding::v1''"

record spiffe_binding =
  sb_spiffe_id :: string
  sb_verifying_key :: string
  sb_bound_at :: u64

record signed_spiffe_binding =
  sb_binding :: spiffe_binding
  sb_signature :: string

datatype spiffe_binding_error =
    SbInvalidKey string
  | SbInvalidSignature
  | SpiffeIdMismatch string string

definition spiffe_binding_new :: "ext \<Rightarrow> string \<Rightarrow> bytes \<Rightarrow> u64 \<Rightarrow> spiffe_binding" where
  "spiffe_binding_new E i vk now = \<lparr>sb_spiffe_id = i, sb_verifying_key = hex_enc E vk, sb_bound_at = now\<rparr>"

definition spiffe_signable_bytes :: "ext \<Rightarrow> spiffe_binding \<Rightarrow> bytes" where
  "spiffe_signable_bytes E b = binding_digest E DOMAIN_SPIFFE_BINDING [sb_spiffe_id b, sb_verifying_key b] (sb_bound_at b)"

definition spiffe_binding_sign :: "ext \<Rightarrow> signer \<Rightarrow> spiffe_binding \<Rightarrow> signed_spiffe_binding" where
  "spiffe_binding_sign E S b = \<lparr>sb_binding = b, sb_signature = hex_enc E (sign_message S (spiffe_signable_bytes E b))\<rparr>"

definition spiffe_verify_signature :: "ext \<Rightarrow> (bytes \<Rightarrow> string) \<Rightarrow> signed_spiffe_binding \<Rightarrow> spiffe_binding_error + unit" where
  "spiffe_verify_signature E pk_msg s =
     verify_binding E pk_msg SbInvalidKey SbInvalidSignature (sb_verifying_key (sb_binding s)) (sb_signature s)
       (spiffe_signable_bytes E (sb_binding s))"

definition verify_svid_san :: "ext \<Rightarrow> (bytes \<Rightarrow> string) \<Rightarrow> string \<Rightarrow> signed_spiffe_binding \<Rightarrow> spiffe_binding_error + unit" where
  "verify_svid_san E pk_msg svid_uri_san s =
     bindR (spiffe_verify_signature E pk_msg s) (\<lambda>_.
     if sb_spiffe_id (sb_binding s) \<noteq> svid_uri_san
     then Inl (SpiffeIdMismatch svid_uri_san (sb_spiffe_id (sb_binding s))) else Inr ())"

section \<open>Properties\<close>

lemma verify_binding_Inr:
  "verify_binding E pm ke se kh sh msg = Inr () \<longleftrightarrow>
     (\<exists>vk sg. hex_dec E kh = Some vk \<and> length vk = 32 \<and> ed_valid_pk E vk \<and> hex_dec E sh = Some sg \<and> length sg = 64
        \<and> ed_verify E vk msg sg)"
  by (auto simp: verify_binding_def result_simps)

interpretation jwt: signed_binding E "jwt_verify_signature E pm" "\<lambda>s. jb_verifying_key (jb_binding s)"
    "\<lambda>s. jwt_signable_bytes E (jb_binding s)" jb_signature for E pm
  by unfold_locales (auto simp: jwt_verify_signature_def verify_binding_Inr)

interpretation spiffe: signed_binding E "spiffe_verify_signature E pm" "\<lambda>s. sb_verifying_key (sb_binding s)"
    "\<lambda>s. spiffe_signable_bytes E (sb_binding s)" sb_signature for E pm
  by unfold_locales (auto simp: spiffe_verify_signature_def verify_binding_Inr)

lemma verify_binding_signed:
  "hex_ok E \<Longrightarrow> signer_wf E S \<Longrightarrow>
     verify_binding E pm ke se (hex_enc E (verifying_key S)) (hex_enc E (sign_message S msg)) msg = Inr ()"
  by (simp add: verify_binding_Inr hex_ok_def signer_wf_def signer_ok_def)

lemma jwt_binding_roundtrip:
  "hex_ok E \<Longrightarrow> signer_wf E S \<Longrightarrow>
     verify_sub_matches E pm sub (jwt_binding_sign E S (jb_builder_build E (verifying_key S) now
       (jb_builder_sub sub (jb_builder_issuer iss b)))) = Inr ()"
  by (simp add: verify_sub_matches_def jwt_verify_signature_def jwt_binding_sign_def jb_builder_build_def
      jwt_binding_new_def jb_builder_sub_def jb_builder_issuer_def verify_binding_signed)

lemma spiffe_binding_roundtrip:
  "hex_ok E \<Longrightarrow> signer_wf E S \<Longrightarrow>
     verify_svid_san E pm i (spiffe_binding_sign E S (spiffe_binding_new E i (verifying_key S) now)) = Inr ()"
  by (simp add: verify_svid_san_def spiffe_verify_signature_def spiffe_binding_sign_def spiffe_binding_new_def
      verify_binding_signed)

text \<open>The digest determines every field, for bindings of one kind; the domains keep the kinds apart.\<close>

lemma concat_field_chunks: "concat (field_chunks fs at) = concat (map (\<lambda>f. lp (str_bytes f)) fs) @ be64 at"
proof -
  have "concat (concat (map (\<lambda>f. [le64 (u64_of (length f)), str_bytes f]) fs)) = concat (map (\<lambda>f. lp (str_bytes f)) fs)"
    by (induction fs) (simp_all add: lp_def)
  then show ?thesis by (simp add: field_chunks_def)
qed

lemma field_chunks_inj:
  assumes "length fs = length gs" "list_all fits fs" "list_all fits gs"
    and "concat (field_chunks fs at) = concat (field_chunks gs at')"
  shows "fs = gs \<and> at = at'"
  using concat_self_delim [OF self_delim_lp_str, of fs gs "be64 at" "be64 at'"] assms
  by (simp add: concat_field_chunks)

text \<open>
  The issuer inside the binding is signed but compared with nothing: a token of the issuer the verifier
  expects is accepted with a binding that names any other issuer.
\<close>

lemma binding_issuer_unchecked:
  assumes "hex_ok E" "signer_wf E S" "jwt_decode token (expected_issuer opts) (expected_audience opts) = Inr sub"
  shows "verify_jwt_and_sub E pm jwt_decode token opts
    (jwt_binding_sign E S \<lparr>jb_issuer = iss, jb_sub = sub, jb_verifying_key = hex_enc E (verifying_key S), jb_bound_at = at\<rparr>)
      = Inr ()"
  using assms by (simp add: verify_jwt_and_sub_def jwt_verify_signature_def jwt_binding_sign_def verify_binding_signed)

lemma verify_jwt_and_sub_Inr:
  "verify_jwt_and_sub E pm jwt_decode token opts s = Inr () \<longleftrightarrow>
     jwt_verify_signature E pm s = Inr ()
     \<and> jwt_decode token (expected_issuer opts) (expected_audience opts) = Inr (jb_sub (jb_binding s))"
  by (auto simp: verify_jwt_and_sub_def result_simps split: if_splits)

section \<open>What a document admits\<close>

definition template_ok :: "ext \<Rightarrow> policy_cert \<Rightarrow> bool" where
  "template_ok E c \<longleftrightarrow> length (pc_delegate_pk_hex c) = 64 \<and> hex_dec E (pc_delegate_pk_hex c) \<noteq> None
     \<and> pc_ttl_seconds c \<noteq> 0 \<and> pc_intents c \<noteq> []
     \<and> (\<forall>i\<in>set (pc_intents c). pi_name i \<noteq> [] \<and> \<not> starts_with (pi_name i) ''trad.'')"

lemma intent_errors_nil: "intent_errors i pin = [] \<longleftrightarrow> pi_name pin \<noteq> [] \<and> \<not> starts_with (pi_name pin) ''trad.''"
  by (simp add: intent_errors_def)

lemma cert_errors_nil: "cert_errors E n i c = [] \<longleftrightarrow> template_ok E c"
  by (auto simp: cert_errors_def template_ok_def intent_errors_nil)

lemma doc_validate_iff:
  "doc_validate E d = Inr () \<longleftrightarrow>
     str_trim (doc_name d) \<noteq> [] \<and> doc_max_chain_depth d \<noteq> Some 0 \<and> doc_max_ttl_secs d \<noteq> Some 0
     \<and> (\<forall>c\<in>set (doc_certs d). template_ok E c)"
proof -
  have e: "concat (map (\<lambda>(i, c). cert_errors E nm i c) (List.enumerate n cs)) = [] \<longleftrightarrow> (\<forall>c\<in>set cs. template_ok E c)" for n cs nm
    by (induction cs arbitrary: n) (simp_all add: cert_errors_nil del: concat_eq_Nil_conv)
  show ?thesis
    by (simp add: doc_validate_def Let_def e del: concat_eq_Nil_conv)
qed

lemma fold_require: "fold require_extension ks p = p\<lparr>required_extensions := required_extensions p @ ks\<rparr>"
  by (induction ks arbitrary: p) (simp_all add: require_extension_def)

lemma fold_allow: "fold capset_allow cs s = \<lparr>prefixes = prefixes s @ cs\<rparr>"
  by (induction cs arbitrary: s) (simp_all add: capset_allow_def)

lemma into_policy_fields:
  "into_policy d = \<lparr>pol_name = doc_name d, pol_max_chain_depth = doc_max_chain_depth d, pol_max_ttl_secs = doc_max_ttl_secs d,
     pol_capabilities = (if doc_capabilities d = [] then None else Some \<lparr>prefixes = doc_capabilities d\<rparr>),
     allow_sub_delegation = (\<not> doc_forbid_sub_delegation d), required_extensions = doc_required_extensions d,
     trusted_principal_pks = []\<rparr>"
  by (auto simp: into_policy_def Let_def fold_require fold_allow policy_new_def policy_max_chain_depth_def
      policy_max_ttl_secs_def policy_capabilities_def forbid_sub_delegation_def capset_new_def split: option.split)

text \<open>What the compiled policy accepts, in the words of the document.\<close>

lemma into_policy_check_chain:
  "check_chain (into_policy d) chain = Inr () \<longleftrightarrow>
     (\<forall>n. doc_max_chain_depth d = Some n \<longrightarrow> length (certs chain) \<le> unat n)
     \<and> (\<forall>c\<in>set (certs chain).
          (\<forall>m. doc_max_ttl_secs d = Some m \<longrightarrow> unat (expiration_unix c) - unat (issued_at c) \<le> unat m)
          \<and> (\<not> doc_forbid_sub_delegation d \<or> max_depth c = 0
             \<or> (subset_intents (scope_proof c) = [] \<and> ssp_proofs (scope_proof c) = []))
          \<and> (\<forall>k\<in>set (doc_required_extensions d). ext_get (extensions c) k \<noteq> None))"
  by (simp add: check_chain_iff cert_conforms_def into_policy_fields)

lemma into_policy_check_intent:
  "doc_capabilities d \<noteq> [] \<Longrightarrow>
     check_intent (into_policy d) i = Inr () \<longleftrightarrow> permits \<lparr>prefixes = doc_capabilities d\<rparr> (action i)"
  by (simp add: check_intent_iff into_policy_fields)

end
