(* ===== verification/A1_Stores.thy ===== *)
theory A1_Stores
  imports A1_Nonces A1_Crypto
begin

text \<open>
  The stores over Redis, \<open>a1-redis/src/lib.rs\<close>. The server is a parameter: the commands the code sends
  (\<open>redis\<close>), and for each call whether it gets through. What the commands do is documented behaviour,
  stated by \<open>redis_ok\<close>; under it the stores answer as the sets of \<open>A1_Registry\<close> do. Times of the Redis
  server are in milliseconds.
\<close>

section \<open>Redis\<close>

record 'd redis =
  rd_exists :: "u64 \<Rightarrow> string \<Rightarrow> 'd \<Rightarrow> bool"
  rd_set :: "u64 \<Rightarrow> string \<Rightarrow> u64 option \<Rightarrow> 'd \<Rightarrow> 'd"
  rd_set_nx :: "u64 \<Rightarrow> string \<Rightarrow> u64 \<Rightarrow> 'd \<Rightarrow> bool \<times> 'd"

datatype redis_error_kind = IoError | BusyLoadingError | TryAgain | NotBusy | MasterDown | OtherKind

text \<open>How a call goes: it gets through, there is no connection, or the command fails and leaves the server in some state.\<close>

datatype 'd outcome = Through | PoolFailed string | CommandFailed redis_error_kind string 'd

definition redis_err_to_storage :: "redis_error_kind \<Rightarrow> string \<Rightarrow> storage_error" where
  "redis_err_to_storage k msg =
     \<lparr>se_kind = (case k of IoError \<Rightarrow> Transient | BusyLoadingError \<Rightarrow> Transient | TryAgain \<Rightarrow> Transient
                 | NotBusy \<Rightarrow> Transient | MasterDown \<Rightarrow> Transient | OtherKind \<Rightarrow> Permanent),
      se_message = msg\<rparr>"

definition pool_err_to_storage :: "string \<Rightarrow> storage_error" where
  "pool_err_to_storage e = storage_transient (''Redis pool error: '' @ e)"

definition redis_call :: "'d outcome \<Rightarrow> ('d \<Rightarrow> 'a \<times> 'd) \<Rightarrow> 'd \<Rightarrow> (storage_error + 'a) \<times> 'd" where
  "redis_call oc f d =
     (case oc of
        Through \<Rightarrow> (case f d of (x, d') \<Rightarrow> (Inr x, d'))
      | PoolFailed e \<Rightarrow> (Inl (pool_err_to_storage e), d)
      | CommandFailed k msg d' \<Rightarrow> (Inl (redis_err_to_storage k msg), d'))"

definition redis_key :: "ext \<Rightarrow> string \<Rightarrow> bytes \<Rightarrow> string" where
  "redis_key E ns b = ns @ CHR '':'' # hex_enc E b"

record redis_revocation_store =
  rrs_namespace :: string
  rrs_ttl_secs :: "u64 option"

definition redis_is_revoked ::
  "ext \<Rightarrow> 'd redis \<Rightarrow> redis_revocation_store \<Rightarrow> u64 \<Rightarrow> 'd outcome \<Rightarrow> bytes \<Rightarrow> 'd \<Rightarrow> (storage_error + bool) \<times> 'd" where
  "redis_is_revoked E R st now oc fp d = redis_call oc (\<lambda>d. (rd_exists R now (redis_key E (rrs_namespace st) fp) d, d)) d"

text \<open>\<open>set_ex\<close> takes seconds.\<close>

definition redis_put :: "ext \<Rightarrow> 'd redis \<Rightarrow> redis_revocation_store \<Rightarrow> u64 \<Rightarrow> bytes \<Rightarrow> 'd \<Rightarrow> 'd" where
  "redis_put E R st now fp d =
     rd_set R now (redis_key E (rrs_namespace st) fp) (map_option (\<lambda>t. t * 1000) (rrs_ttl_secs st)) d"

definition redis_revoke ::
  "ext \<Rightarrow> 'd redis \<Rightarrow> redis_revocation_store \<Rightarrow> u64 \<Rightarrow> 'd outcome \<Rightarrow> bytes \<Rightarrow> 'd \<Rightarrow> (storage_error + unit) \<times> 'd" where
  "redis_revoke E R st now oc fp d = redis_call oc (\<lambda>d. ((), redis_put E R st now fp d)) d"

definition redis_revoke_batch ::
  "ext \<Rightarrow> 'd redis \<Rightarrow> redis_revocation_store \<Rightarrow> u64 \<Rightarrow> 'd outcome \<Rightarrow> bytes list \<Rightarrow> 'd \<Rightarrow> (storage_error + unit) \<times> 'd" where
  "redis_revoke_batch E R st now oc fps d =
     (if fps = [] then (Inr (), d) else redis_call oc (\<lambda>d. ((), fold (redis_put E R st now) fps d)) d)"

text \<open>
  The cursor loop of \<open>SCAN\<close>: \<open>scan i c\<close> is the server's answer to the \<open>i\<close>-th call, with cursor \<open>c\<close>. It may
  go on for ever, which is None.
\<close>

type_synonym scan_answers = "nat \<Rightarrow> u64 \<Rightarrow> (redis_error_kind \<times> string) + u64 \<times> string list"

partial_function (option) scan_keys :: "scan_answers \<Rightarrow> nat \<Rightarrow> u64 \<Rightarrow> (storage_error + string list) option" where
  "scan_keys scan i cursor =
     (case scan i cursor of
        Inl (k, msg) \<Rightarrow> Some (Inl (redis_err_to_storage k msg))
      | Inr (nxt, batch) \<Rightarrow>
          if nxt = 0 then Some (Inr batch)
          else Option.bind (scan_keys scan (Suc i) nxt) (\<lambda>r. Some (map_sum id (\<lambda>ks. batch @ ks) r)))"

text \<open>\<open>chars().skip(n)\<close> on the bytes of a text: a character is a byte with the continuation bytes after it.\<close>

definition is_continuation :: "char \<Rightarrow> bool" where
  "is_continuation c = (let n = of_char c :: nat in 128 \<le> n \<and> n < 192)"

fun skip_chars :: "nat \<Rightarrow> string \<Rightarrow> string" where
  "skip_chars 0 s = s"
| "skip_chars (Suc n) [] = []"
| "skip_chars (Suc n) (c # cs) = skip_chars n (dropWhile is_continuation cs)"

definition list_revoked ::
  "redis_revocation_store \<Rightarrow> string + unit \<Rightarrow> scan_answers \<Rightarrow> (storage_error + string list) option" where
  "list_revoked st pool scan =
     (case pool of
        Inl e \<Rightarrow> Some (Inl (pool_err_to_storage e))
      | Inr _ \<Rightarrow> map_option (map_sum id (map (skip_chars (length (rrs_namespace st) + 1)))) (scan_keys scan 0 0))"

definition count_revoked ::
  "redis_revocation_store \<Rightarrow> string + unit \<Rightarrow> scan_answers \<Rightarrow> (storage_error + nat) option" where
  "count_revoked st pool scan = map_option (map_sum id length) (list_revoked st pool scan)"

definition redis_ping :: "'d outcome \<Rightarrow> 'd \<Rightarrow> (storage_error + unit) \<times> 'd" where
  "redis_ping oc d = redis_call oc (\<lambda>d. ((), d)) d"

record redis_nonce_store =
  rno_namespace :: string
  nonce_ttl_ms :: u64

definition count_nonces :: "string + unit \<Rightarrow> scan_answers \<Rightarrow> (storage_error + nat) option" where
  "count_nonces pool scan =
     (case pool of
        Inl e \<Rightarrow> Some (Inl (pool_err_to_storage e))
      | Inr _ \<Rightarrow> map_option (map_sum id length) (scan_keys scan 0 0))"

text \<open>The script: nothing is set unless no key exists.\<close>

fun lua_any :: "'d redis \<Rightarrow> u64 \<Rightarrow> string list \<Rightarrow> 'd \<Rightarrow> bool" where
  "lua_any R now [] d = False"
| "lua_any R now (k # ks) d = (if rd_exists R now k d then True else lua_any R now ks d)"

definition lua_consume :: "'d redis \<Rightarrow> u64 \<Rightarrow> u64 \<Rightarrow> string list \<Rightarrow> 'd \<Rightarrow> bool \<times> 'd" where
  "lua_consume R now ttl ks d =
     (if lua_any R now ks d then (False, d) else (True, fold (\<lambda>k d. rd_set R now k (Some ttl) d) ks d))"

definition redis_try_consume_batch ::
  "ext \<Rightarrow> 'd redis \<Rightarrow> redis_nonce_store \<Rightarrow> u64 \<Rightarrow> 'd outcome \<Rightarrow> bytes list \<Rightarrow> 'd \<Rightarrow> (storage_error + bool) \<times> 'd" where
  "redis_try_consume_batch E R st now oc nonces d =
     (if nonces = [] then (Inr True, d)
      else redis_call oc (lua_consume R now (nonce_ttl_ms st) (map (redis_key E (rno_namespace st)) nonces)) d)"

definition redis_try_consume ::
  "ext \<Rightarrow> 'd redis \<Rightarrow> redis_nonce_store \<Rightarrow> u64 \<Rightarrow> 'd outcome \<Rightarrow> bytes \<Rightarrow> 'd \<Rightarrow> (storage_error + bool) \<times> 'd" where
  "redis_try_consume E R st now oc n d = redis_call oc (rd_set_nx R now (redis_key E (rno_namespace st) n) (nonce_ttl_ms st)) d"

definition redis_is_consumed ::
  "ext \<Rightarrow> 'd redis \<Rightarrow> redis_nonce_store \<Rightarrow> u64 \<Rightarrow> 'd outcome \<Rightarrow> bytes \<Rightarrow> 'd \<Rightarrow> (storage_error + bool) \<times> 'd" where
  "redis_is_consumed E R st now oc n d = redis_call oc (\<lambda>d. (rd_exists R now (redis_key E (rno_namespace st) n) d, d)) d"

definition redis_mark_consumed ::
  "ext \<Rightarrow> 'd redis \<Rightarrow> redis_nonce_store \<Rightarrow> u64 \<Rightarrow> 'd outcome \<Rightarrow> bytes \<Rightarrow> 'd \<Rightarrow> (storage_error + unit) \<times> 'd" where
  "redis_mark_consumed E R st now oc n d =
     (case redis_try_consume E R st now oc n d of (r, d') \<Rightarrow> (map_sum id (\<lambda>_. ()) r, d'))"

text \<open>\<open>connect\<close>: the pool, then a \<open>PING\<close>; the time to live is whole seconds, respectively milliseconds.\<close>

definition redis_revocation_connect ::
  "string + unit \<Rightarrow> 'd outcome \<Rightarrow> string \<Rightarrow> u64 option \<Rightarrow> 'd \<Rightarrow> storage_error + redis_revocation_store" where
  "redis_revocation_connect pool ping ns ttl d =
     bindR (map_errR (\<lambda>e. storage_permanent (''Redis pool creation failed: '' @ e)) pool) (\<lambda>_.
     bindR (fst (redis_call ping (\<lambda>d. ((), d)) d)) (\<lambda>_.
     Inr \<lparr>rrs_namespace = ns, rrs_ttl_secs = ttl\<rparr>))"

definition redis_nonce_connect ::
  "string + unit \<Rightarrow> 'd outcome \<Rightarrow> string \<Rightarrow> u64 \<Rightarrow> 'd \<Rightarrow> storage_error + redis_nonce_store" where
  "redis_nonce_connect pool ping ns ttl_ms d =
     bindR (map_errR (\<lambda>e. storage_permanent (''Redis pool creation failed: '' @ e)) pool) (\<lambda>_.
     bindR (fst (redis_call ping (\<lambda>d. ((), d)) d)) (\<lambda>_.
     Inr \<lparr>rno_namespace = ns, nonce_ttl_ms = ttl_ms\<rparr>))"

subsection \<open>The cursor loop\<close>

text \<open>
  What a scan should give: the batches up to the first cursor zero, or the first error. The loop gives
  exactly this, and does not end when there is no such answer.
\<close>

inductive scanned :: "scan_answers \<Rightarrow> nat \<Rightarrow> u64 \<Rightarrow> storage_error + string list \<Rightarrow> bool" for scan where
  fails: "scan i c = Inl (k, msg) \<Longrightarrow> scanned scan i c (Inl (redis_err_to_storage k msg))"
| ends: "scan i c = Inr (0, batch) \<Longrightarrow> scanned scan i c (Inr batch)"
| goes_on: "scan i c = Inr (nxt, batch) \<Longrightarrow> nxt \<noteq> 0 \<Longrightarrow> scanned scan (Suc i) nxt r
    \<Longrightarrow> scanned scan i c (map_sum id (\<lambda>ks. batch @ ks) r)"

lemma scan_keys_sound:
  assumes "scan_keys scan i c = Some r"
  shows "scanned scan i c r"
proof (rule scan_keys.raw_induct [OF _ assms])
  fix f :: "scan_answers \<Rightarrow> nat \<Rightarrow> u64 \<Rightarrow> (storage_error + string list) option" and scan i c r
  assume ih: "\<And>scan i c r. f scan i c = Some r \<Longrightarrow> scanned scan i c r"
    and eq: "(case scan i c of Inl (k, msg) \<Rightarrow> Some (Inl (redis_err_to_storage k msg))
      | Inr (nxt, batch) \<Rightarrow> if nxt = 0 then Some (Inr batch)
          else Option.bind (f scan (Suc i) nxt) (\<lambda>r. Some (map_sum id (\<lambda>ks. batch @ ks) r))) = Some r"
  show "scanned scan i c r"
  proof (cases "scan i c")
    case (Inl e)
    with eq show ?thesis by (cases e) (auto intro: scanned.fails)
  next
    case (Inr a)
    obtain nxt batch where a: "a = (nxt, batch)" by (cases a)
    show ?thesis
    proof (cases "nxt = 0")
      case True
      with eq Inr a show ?thesis by (auto intro: scanned.ends)
    next
      case False
      with eq Inr a obtain r' where r': "f scan (Suc i) nxt = Some r'" "r = map_sum id (\<lambda>ks. batch @ ks) r'"
        by (auto simp: bind_eq_Some_conv)
      from ih [OF r'(1)] Inr a False show ?thesis unfolding r'(2)
        by (intro scanned.goes_on) simp_all
    qed
  qed
qed

lemma scan_keys_complete: "scanned scan i c r \<Longrightarrow> scan_keys scan i c = Some r"
  by (induction rule: scanned.induct) (subst scan_keys.simps, simp)+

lemma scan_keys_iff: "scan_keys scan i c = Some r \<longleftrightarrow> scanned scan i c r"
  using scan_keys_sound scan_keys_complete by blast

text \<open>
  \<open>list_revoked\<close> takes the prefix off by its bytes and counts them as characters: right for an ASCII
  namespace, while another one costs each key a character for every extra byte.
\<close>

lemma skip_ascii:
  assumes "list_all (\<lambda>c. of_char c < (128 :: nat)) s" "case t of [] \<Rightarrow> True | c # _ \<Rightarrow> \<not> is_continuation c"
  shows "skip_chars (length s) (s @ t) = t"
  using assms
proof (induction s)
  case (Cons c s)
  have "dropWhile is_continuation (s @ t) = s @ t"
    using Cons.prems by (cases "s @ t") (auto simp: is_continuation_def Let_def split: list.splits simp: append_eq_Cons_conv)
  with Cons show ?case by simp
qed simp

lemma skip_prefix_of_key:
  assumes "list_all (\<lambda>c. of_char c < (128 :: nat)) ns" "case t of [] \<Rightarrow> True | c # _ \<Rightarrow> \<not> is_continuation c"
  shows "skip_chars (length ns + 1) (ns @ CHR '':'' # t) = t"
  using skip_ascii [of "ns @ '':''" t] assms by simp

lemma skip_prefix_not_ascii:
  "skip_chars (length [CHR 0xC3, CHR 0xA9] + 1) ([CHR 0xC3, CHR 0xA9] @ CHR '':'' # ''ab'') = ''b''"
  by (simp add: is_continuation_def eval_nat_numeral)

subsection \<open>What the commands do\<close>

text \<open>
  \<open>lv t d\<close>: the keys that exist in \<open>d\<close> at time \<open>t\<close>. \<open>SET\<close> gives a key its new expiry, whatever it
  had; \<open>SET NX\<close> does so only where the key does not exist.
\<close>

definition redis_ok :: "'d redis \<Rightarrow> (u64 \<Rightarrow> 'd \<Rightarrow> string set) \<Rightarrow> bool" where
  "redis_ok R lv \<longleftrightarrow>
     (\<forall>t k d. rd_exists R t k d \<longleftrightarrow> k \<in> lv t d)
     \<and> (\<forall>now t k ttl d. now \<le> t \<longrightarrow> lv t (rd_set R now k ttl d) =
          (case ttl of None \<Rightarrow> insert k (lv t d)
           | Some x \<Rightarrow> if unat t < unat now + unat x then insert k (lv t d) else lv t d - {k}))
     \<and> (\<forall>now k ttl d. rd_set_nx R now k ttl d = (if k \<in> lv now d then (False, d) else (True, rd_set R now k (Some ttl) d)))"

text \<open>A reference server: each key with the time it is gone, if any.\<close>

type_synonym redis_map = "string \<Rightarrow> nat option option"

definition map_has :: "u64 \<Rightarrow> string \<Rightarrow> redis_map \<Rightarrow> bool" where
  "map_has t k d = (case d k of None \<Rightarrow> False | Some e \<Rightarrow> (case e of None \<Rightarrow> True | Some x \<Rightarrow> unat t < x))"

definition map_live :: "u64 \<Rightarrow> redis_map \<Rightarrow> string set" where
  "map_live t d = {k. map_has t k d}"

definition map_set :: "u64 \<Rightarrow> string \<Rightarrow> u64 option \<Rightarrow> redis_map \<Rightarrow> redis_map" where
  "map_set now k ttl d = d(k \<mapsto> map_option (\<lambda>x. unat now + unat x) ttl)"

definition map_redis :: "redis_map redis" where
  "map_redis = \<lparr>rd_exists = map_has, rd_set = map_set,
     rd_set_nx = (\<lambda>now k ttl d. if map_has now k d then (False, d) else (True, map_set now k (Some ttl) d))\<rparr>"

lemma map_has_set: "map_has t k (map_set now k' ttl d) =
    (if k = k' then (case ttl of None \<Rightarrow> True | Some x \<Rightarrow> unat t < unat now + unat x) else map_has t k d)"
  by (simp add: map_has_def map_set_def split: option.split)

lemma map_redis_ok: "redis_ok map_redis map_live"
  by (auto simp: redis_ok_def map_redis_def map_live_def map_has_set split: option.split)

subsection \<open>The contracts\<close>

lemma redis_key_inj: "hex_ok E \<Longrightarrow> redis_key E ns a = redis_key E ns b \<longleftrightarrow> a = b"
  unfolding redis_key_def hex_ok_def by (metis append_same_eq list.inject option.inject same_append_eq)

lemma redis_okD:
  assumes "redis_ok R lv"
  shows "rd_exists R t k d = (k \<in> lv t d)"
    and "lv t (rd_set R t k None d) = insert k (lv t d)"
    and "0 < x \<Longrightarrow> lv t (rd_set R t k (Some x) d) = insert k (lv t d)"
  using assms by (auto simp: redis_ok_def word_less_nat_alt)

text \<open>Without a time to lv, the revocation store is one: what was revoked stays revoked, at every later time.\<close>

definition redis_revoked :: "ext \<Rightarrow> redis_revocation_store \<Rightarrow> (u64 \<Rightarrow> 'd \<Rightarrow> string set) \<Rightarrow> u64 \<Rightarrow> 'd \<Rightarrow> bytes set" where
  "redis_revoked E st lv t d = {fp. redis_key E (rrs_namespace st) fp \<in> lv t d}"

lemma redis_revocation_contract:
  assumes "redis_ok R lv" "hex_ok E" "rrs_ttl_secs st = None"
  shows "revocation_store (\<lambda>d fp. fst (redis_is_revoked E R st t Through fp d)) (\<lambda>d fp. redis_revoke E R st t Through fp d)
    (\<lambda>_. True) (redis_revoked E st lv t)"
  using redis_okD [OF assms(1)] assms(2,3)
  by unfold_locales (auto simp: redis_is_revoked_def redis_revoke_def redis_put_def redis_call_def redis_revoked_def redis_key_inj)

lemma redis_put_live:
  assumes "redis_ok R lv" "rrs_ttl_secs st = None" "now \<le> t"
  shows "lv t (redis_put E R st now fp d) = insert (redis_key E (rrs_namespace st) fp) (lv t d)"
  using assms by (simp add: redis_put_def redis_ok_def)

lemma redis_revoke_batch_spec:
  assumes "redis_ok R lv" "hex_ok E" "rrs_ttl_secs st = None" "now \<le> t"
    and "redis_revoke_batch E R st now Through fps d = (r, d')"
  shows "r = Inr () \<and> redis_revoked E st lv t d' = set fps \<union> redis_revoked E st lv t d"
proof -
  have "lv t (fold (redis_put E R st now) fps d) = redis_key E (rrs_namespace st) ` set fps \<union> lv t d"
    using redis_put_live [OF assms(1,3,4)] by (induction fps arbitrary: d) auto
  then show ?thesis using assms(2,5)
    by (auto simp: redis_revoke_batch_def redis_call_def redis_revoked_def redis_key_inj split: if_splits)
qed

text \<open>The nonce store meets its contract at each time, and forgets a nonce when its time to lv is over.\<close>

definition redis_used :: "ext \<Rightarrow> redis_nonce_store \<Rightarrow> (u64 \<Rightarrow> 'd \<Rightarrow> string set) \<Rightarrow> u64 \<Rightarrow> 'd \<Rightarrow> bytes set" where
  "redis_used E st lv t d = {n. redis_key E (rno_namespace st) n \<in> lv t d}"

lemma lua_any_iff: "redis_ok R lv \<Longrightarrow> lua_any R now ks d \<longleftrightarrow> set ks \<inter> lv now d \<noteq> {}"
  by (induction ks) (auto simp: redis_okD(1))

lemma fold_set_live:
  "redis_ok R lv \<Longrightarrow> now \<le> t \<Longrightarrow> lv t (fold (\<lambda>k d. rd_set R now k (Some x) d) ks d) =
     (if unat t < unat now + unat x then set ks \<union> lv t d else lv t d - set ks)"
proof (induction ks arbitrary: d)
  case (Cons k ks)
  have "lv t (rd_set R now k (Some x) d) = (if unat t < unat now + unat x then insert k (lv t d) else lv t d - {k})"
    using Cons.prems by (simp add: redis_ok_def)
  then show ?case using Cons.IH [OF Cons.prems, of "rd_set R now k (Some x) d"] by (auto split: if_splits)
qed simp

lemma redis_nonce_contract:
  assumes "redis_ok R lv" "hex_ok E" "0 < nonce_ttl_ms st"
  shows "nonce_store (\<lambda>t d ns. redis_try_consume_batch E R st t Through ns d) (\<lambda>_. True) (redis_used E st lv)"
proof
  fix s ns t
  let ?ks = "map (redis_key E (rno_namespace st)) ns"
  have any: "lua_any R t ?ks s \<longleftrightarrow> set ns \<inter> redis_used E st lv t s \<noteq> {}"
    using lua_any_iff [OF assms(1)] by (auto simp: redis_used_def)
  show "redis_try_consume_batch E R st t Through ns s = (Inr False, s)" if "set ns \<inter> redis_used E st lv t s \<noteq> {}"
    using that any by (auto simp: redis_try_consume_batch_def redis_call_def lua_consume_def)
  show "\<exists>s'. redis_try_consume_batch E R st t Through ns s = (Inr True, s') \<and> True
      \<and> redis_used E st lv t s' = set ns \<union> redis_used E st lv t s" if "set ns \<inter> redis_used E st lv t s = {}"
    using that any fold_set_live [OF assms(1) order_refl, of t "nonce_ttl_ms st" ?ks s] assms(2,3)
    by (auto simp: redis_try_consume_batch_def redis_call_def lua_consume_def redis_used_def redis_key_inj word_less_nat_alt)
qed

lemma redis_nonce_window:
  assumes "redis_ok R lv" "hex_ok E" "ns \<noteq> []" "now \<le> t" "0 < nonce_ttl_ms st"
    and "redis_try_consume_batch E R st now Through ns d = (Inr True, d')"
  shows "fst (redis_try_consume_batch E R st t Through ns d') = Inr (\<not> unat t < unat now + unat (nonce_ttl_ms st))"
proof -
  let ?ks = "map (redis_key E (rno_namespace st)) ns"
  from assms(3,6) have d': "d' = fold (\<lambda>k d. rd_set R now k (Some (nonce_ttl_ms st)) d) ?ks d"
    by (auto simp: redis_try_consume_batch_def redis_call_def lua_consume_def split: if_splits)
  have "lv t d' = (if unat t < unat now + unat (nonce_ttl_ms st) then set ?ks \<union> lv t d else lv t d - set ?ks)"
    unfolding d' by (rule fold_set_live [OF assms(1,4)])
  then have "lua_any R t ?ks d' \<longleftrightarrow> unat t < unat now + unat (nonce_ttl_ms st)"
    using lua_any_iff [OF assms(1), of t ?ks d'] assms(3) by (cases ns) auto
  then show ?thesis using assms(3) by (simp add: redis_try_consume_batch_def redis_call_def lua_consume_def)
qed

text \<open>One nonce alone: \<open>SET NX\<close> does what the script does on a single key.\<close>

lemma redis_single_eq_batch:
  assumes "redis_ok R lv"
  shows "redis_try_consume E R st now oc n d = redis_try_consume_batch E R st now oc [n] d"
proof -
  have "rd_set_nx R now k x d = lua_consume R now x [k] d" for k x d
    using assms redis_okD(1) [OF assms] by (simp add: lua_consume_def redis_ok_def)
  then show ?thesis by (simp add: redis_try_consume_def redis_try_consume_batch_def redis_call_def split: outcome.split)
qed

end
