(* ===== verification/A1_PgStore.thy ===== *)
theory A1_PgStore
  imports A1_Nonces
begin

text \<open>
  The PostgreSQL stores, \<open>a1-pg/src/lib.rs\<close>. The database is a parameter: the statements the code sends
  (\<open>pg\<close>), what they do being stated by \<open>pg_ok\<close>. A statement may fail; every such error is made transient
  by the code. A failure inside a transaction leaves the database as it was, except at the commit, where
  it may have gone through or not.
\<close>

section \<open>Statements\<close>

record 'd pg =
  pg_select :: "string \<Rightarrow> string \<Rightarrow> bytes \<Rightarrow> 'd \<Rightarrow> bool"
  pg_insert :: "string \<Rightarrow> string \<Rightarrow> bytes list \<Rightarrow> 'd \<Rightarrow> nat \<times> 'd"
  pg_count :: "string \<Rightarrow> string \<Rightarrow> bytes list \<Rightarrow> 'd \<Rightarrow> nat"

text \<open>\<open>rows d\<close> is the set of the keys (table, tenant, bytes) of \<open>d\<close>; \<open>ON CONFLICT DO NOTHING\<close> keeps the old row.\<close>

definition pg_ok :: "'d pg \<Rightarrow> ('d \<Rightarrow> (string \<times> string \<times> bytes) set) \<Rightarrow> bool" where
  "pg_ok P rows \<longleftrightarrow>
     (\<forall>tb tn b d. pg_select P tb tn b d \<longleftrightarrow> (tb, tn, b) \<in> rows d)
     \<and> (\<forall>tb tn bs d. rows (snd (pg_insert P tb tn bs d)) = (\<lambda>b. (tb, tn, b)) ` set bs \<union> rows d
          \<and> fst (pg_insert P tb tn bs d) = card ((\<lambda>b. (tb, tn, b)) ` set bs - rows d))
     \<and> (\<forall>tb tn bs d. pg_count P tb tn bs d = card ((\<lambda>b. (tb, tn, b)) ` set bs \<inter> rows d))"

text \<open>A reference database: its rows in the order they were inserted.\<close>

type_synonym pg_rows = "(string \<times> string \<times> bytes) list"

definition rows_insert :: "string \<Rightarrow> string \<Rightarrow> bytes list \<Rightarrow> pg_rows \<Rightarrow> nat \<times> pg_rows" where
  "rows_insert tb tn bs d =
     (let new = filter (\<lambda>k. k \<notin> set d) (remdups (map (\<lambda>b. (tb, tn, b)) bs)) in (length new, d @ new))"

definition rows_pg :: "pg_rows pg" where
  "rows_pg = \<lparr>pg_select = (\<lambda>tb tn b d. (tb, tn, b) \<in> set d), pg_insert = rows_insert,
     pg_count = (\<lambda>tb tn bs d. length (filter (\<lambda>k. k \<in> set d) (remdups (map (\<lambda>b. (tb, tn, b)) bs))))\<rparr>"

lemma length_filter_remdups:
  "length (filter (\<lambda>k. k \<in> B) (remdups (map f bs))) = card (f ` set bs \<inter> B)"
  "length (filter (\<lambda>k. k \<notin> B) (remdups (map f bs))) = card (f ` set bs - B)"
proof -
  have "card (set (filter P (remdups (map f bs)))) = length (filter P (remdups (map f bs)))" for P
    by (rule distinct_card) simp
  moreover have "set (filter (\<lambda>k. k \<in> B) (remdups (map f bs))) = f ` set bs \<inter> B"
    "set (filter (\<lambda>k. k \<notin> B) (remdups (map f bs))) = f ` set bs - B" by auto
  ultimately show "length (filter (\<lambda>k. k \<in> B) (remdups (map f bs))) = card (f ` set bs \<inter> B)"
    "length (filter (\<lambda>k. k \<notin> B) (remdups (map f bs))) = card (f ` set bs - B)" by metis+
qed

lemma rows_pg_ok: "pg_ok rows_pg set"
  by (auto simp: pg_ok_def rows_pg_def rows_insert_def Let_def length_filter_remdups)

text \<open>A statement: the result of its code, or the error, with the database the failure leaves.\<close>

definition pg_call :: "(string \<times> 'd) option \<Rightarrow> ('d \<Rightarrow> 'a \<times> 'd) \<Rightarrow> 'd \<Rightarrow> (storage_error + 'a) \<times> 'd" where
  "pg_call fault f d =
     (case fault of Some (e, d') \<Rightarrow> (Inl (storage_transient e), d') | None \<Rightarrow> (case f d of (x, d') \<Rightarrow> (Inr x, d')))"

section \<open>Revocations\<close>

text \<open>
  \<open>PgRevocationStore\<close> works in its table under the tenant with the empty name,
  \<open>NamespacedRevocationStore\<close> in the table of its inner store under its own name.
\<close>

record pg_revocation_store =
  prs_table :: string

record namespaced_revocation_store =
  nrs_inner :: pg_revocation_store
  nrs_namespace :: string

definition pg_revocation_new :: pg_revocation_store where
  "pg_revocation_new = \<lparr>prs_table = ''a1_revocations''\<rparr>"

definition pg_with_table :: "string \<Rightarrow> pg_revocation_store" where
  "pg_with_table t = \<lparr>prs_table = t\<rparr>"

definition pg_namespaced_new :: "string \<Rightarrow> namespaced_revocation_store" where
  "pg_namespaced_new ns = \<lparr>nrs_inner = pg_revocation_new, nrs_namespace = ns\<rparr>"

definition pg_is_revoked ::
  "'d pg \<Rightarrow> pg_revocation_store \<Rightarrow> (string \<times> 'd) option \<Rightarrow> bytes \<Rightarrow> 'd \<Rightarrow> (storage_error + bool) \<times> 'd" where
  "pg_is_revoked P st fault fp d = pg_call fault (\<lambda>d. (pg_select P (prs_table st) [] fp d, d)) d"

definition pg_revoke ::
  "'d pg \<Rightarrow> pg_revocation_store \<Rightarrow> (string \<times> 'd) option \<Rightarrow> bytes \<Rightarrow> 'd \<Rightarrow> (storage_error + unit) \<times> 'd" where
  "pg_revoke P st fault fp d = pg_call fault (\<lambda>d. ((), snd (pg_insert P (prs_table st) [] [fp] d))) d"

function chunks_of :: "nat \<Rightarrow> 'a list \<Rightarrow> 'a list list" where
  "chunks_of n xs = (if xs = [] \<or> n = 0 then [] else take n xs # chunks_of n (drop n xs))"
  by pat_completeness auto

termination by (relation "measure (\<lambda>(n, xs). length xs)") auto

declare chunks_of.simps [simp del]

text \<open>One statement per chunk; \<open>faults\<close> gives the outcome of each. The first failure ends the loop.\<close>

fun revoke_chunks ::
  "'d pg \<Rightarrow> string \<Rightarrow> string \<Rightarrow> (string \<times> 'd) option list \<Rightarrow> bytes list list \<Rightarrow> 'd \<Rightarrow> (storage_error + unit) \<times> 'd" where
  "revoke_chunks P tb tn faults [] d = (Inr (), d)"
| "revoke_chunks P tb tn faults (c # cs) d =
     (case pg_call (case faults of f # _ \<Rightarrow> f | [] \<Rightarrow> None) (\<lambda>d. ((), snd (pg_insert P tb tn c d))) d of
        (Inl e, d') \<Rightarrow> (Inl e, d')
      | (Inr _, d') \<Rightarrow> revoke_chunks P tb tn (tl faults) cs d')"

definition pg_revoke_batch ::
  "'d pg \<Rightarrow> pg_revocation_store \<Rightarrow> (string \<times> 'd) option list \<Rightarrow> bytes list \<Rightarrow> 'd \<Rightarrow> (storage_error + unit) \<times> 'd" where
  "pg_revoke_batch P st faults fps d =
     (if fps = [] then (Inr (), d) else revoke_chunks P (prs_table st) [] faults (chunks_of 500 fps) d)"

definition ns_is_revoked ::
  "'d pg \<Rightarrow> namespaced_revocation_store \<Rightarrow> (string \<times> 'd) option \<Rightarrow> bytes \<Rightarrow> 'd \<Rightarrow> (storage_error + bool) \<times> 'd" where
  "ns_is_revoked P st fault fp d =
     pg_call fault (\<lambda>d. (pg_select P (prs_table (nrs_inner st)) (nrs_namespace st) fp d, d)) d"

definition ns_revoke ::
  "'d pg \<Rightarrow> namespaced_revocation_store \<Rightarrow> (string \<times> 'd) option \<Rightarrow> bytes \<Rightarrow> 'd \<Rightarrow> (storage_error + unit) \<times> 'd" where
  "ns_revoke P st fault fp d =
     pg_call fault (\<lambda>d. ((), snd (pg_insert P (prs_table (nrs_inner st)) (nrs_namespace st) [fp] d))) d"

definition ns_revoke_batch ::
  "'d pg \<Rightarrow> namespaced_revocation_store \<Rightarrow> (string \<times> 'd) option list \<Rightarrow> bytes list \<Rightarrow> 'd
     \<Rightarrow> (storage_error + unit) \<times> 'd" where
  "ns_revoke_batch P st faults fps d =
     (if fps = [] then (Inr (), d)
      else revoke_chunks P (prs_table (nrs_inner st)) (nrs_namespace st) faults (chunks_of 500 fps) d)"

section \<open>Nonces\<close>

definition nonce_table :: string where "nonce_table = ''a1_nonces''"

definition pg_try_consume :: "'d pg \<Rightarrow> (string \<times> 'd) option \<Rightarrow> bytes \<Rightarrow> 'd \<Rightarrow> (storage_error + bool) \<times> 'd" where
  "pg_try_consume P fault n d =
     (case pg_call fault (pg_insert P nonce_table [] [n]) d of (r, d') \<Rightarrow> (map_sum id (\<lambda>k. k = 1) r, d'))"

definition pg_is_consumed :: "'d pg \<Rightarrow> (string \<times> 'd) option \<Rightarrow> bytes \<Rightarrow> 'd \<Rightarrow> (storage_error + bool) \<times> 'd" where
  "pg_is_consumed P fault n d = pg_call fault (\<lambda>d. (pg_select P nonce_table [] n d, d)) d"

definition pg_mark_consumed :: "'d pg \<Rightarrow> (string \<times> 'd) option \<Rightarrow> bytes \<Rightarrow> 'd \<Rightarrow> (storage_error + unit) \<times> 'd" where
  "pg_mark_consumed P fault n d = (case pg_try_consume P fault n d of (r, d') \<Rightarrow> (map_sum id (\<lambda>_. ()) r, d'))"

text \<open>
  \<open>prune_nonces_before\<close>; \<open>delete_before\<close> deletes the rows of a table that are older than a time, and counts them.
\<close>

definition prune_nonces_before ::
  "(string \<Rightarrow> u64 \<Rightarrow> 'd \<Rightarrow> nat \<times> 'd) \<Rightarrow> (string \<times> 'd) option \<Rightarrow> u64 \<Rightarrow> 'd \<Rightarrow> (storage_error + nat) \<times> 'd" where
  "prune_nonces_before delete_before fault timestamp d = pg_call fault (delete_before nonce_table timestamp) d"

text \<open>
  One transaction. \<open>Before e\<close>: one of the statements before the commit failed, or the rollback, and the
  database is unchanged. \<open>AtCommit e True\<close>: the commit was reported as failed but took place.
\<close>

datatype tx_fault = NoFault | Before string | AtCommit string bool

definition try_consume_batch_once :: "'d pg \<Rightarrow> tx_fault \<Rightarrow> bytes list \<Rightarrow> 'd \<Rightarrow> (storage_error + bool) \<times> 'd" where
  "try_consume_batch_once P fault nonces d =
     (case fault of
        Before e \<Rightarrow> (Inl (storage_transient e), d)
      | _ \<Rightarrow>
          if pg_count P nonce_table [] nonces d > 0 then (Inr False, d)
          else let d' = snd (pg_insert P nonce_table [] nonces d) in
            (case fault of
               AtCommit e done' \<Rightarrow> (Inl (storage_transient e), if done' then d' else d)
             | _ \<Rightarrow> (Inr True, d')))"

definition MAX_RETRIES :: nat where "MAX_RETRIES = 3"

text \<open>The retry loop over the attempts left, with the last error.\<close>

fun retry_consume ::
  "'d pg \<Rightarrow> (nat \<Rightarrow> tx_fault) \<Rightarrow> bytes list \<Rightarrow> nat \<Rightarrow> storage_error option \<Rightarrow> 'd \<Rightarrow> (storage_error + bool) \<times> 'd" where
  "retry_consume P faults nonces 0 last_err d =
     (Inl (case last_err of Some e \<Rightarrow> e
           | None \<Rightarrow> storage_transient ''batch nonce consume failed after max retries''), d)"
| "retry_consume P faults nonces (Suc k) last_err d =
     (case try_consume_batch_once P (faults (MAX_RETRIES - Suc k)) nonces d of
        (Inr b, d') \<Rightarrow> (Inr b, d')
      | (Inl e, d') \<Rightarrow>
          if storage_is_transient e then retry_consume P faults nonces k (Some e) d' else (Inl e, d'))"

definition pg_try_consume_batch :: "'d pg \<Rightarrow> (nat \<Rightarrow> tx_fault) \<Rightarrow> bytes list \<Rightarrow> 'd \<Rightarrow> (storage_error + bool) \<times> 'd" where
  "pg_try_consume_batch P faults nonces d =
     (if nonces = [] then (Inr True, d) else retry_consume P faults nonces MAX_RETRIES None d)"

section \<open>Properties\<close>

lemma pg_okD:
  assumes "pg_ok P rows"
  shows "pg_select P tb tn b d = ((tb, tn, b) \<in> rows d)"
    and "rows (snd (pg_insert P tb tn bs d)) = (\<lambda>b. (tb, tn, b)) ` set bs \<union> rows d"
    and "fst (pg_insert P tb tn bs d) = card ((\<lambda>b. (tb, tn, b)) ` set bs - rows d)"
    and "(pg_count P tb tn bs d > 0) = ((\<lambda>b. (tb, tn, b)) ` set bs \<inter> rows d \<noteq> {})"
  using assms by (auto simp: pg_ok_def card_gt_0_iff)

definition pg_revoked :: "string \<Rightarrow> string \<Rightarrow> ('d \<Rightarrow> (string \<times> string \<times> bytes) set) \<Rightarrow> 'd \<Rightarrow> bytes set" where
  "pg_revoked tb tn rows d = {fp. (tb, tn, fp) \<in> rows d}"

lemma pg_revocation_contract:
  assumes "pg_ok P rows"
  shows "revocation_store (\<lambda>d fp. fst (pg_is_revoked P st None fp d)) (\<lambda>d fp. pg_revoke P st None fp d)
    (\<lambda>_. True) (pg_revoked (prs_table st) [] rows)"
  using pg_okD [OF assms]
  by unfold_locales (auto simp: pg_is_revoked_def pg_revoke_def pg_call_def pg_revoked_def)

lemma ns_revocation_contract:
  assumes "pg_ok P rows"
  shows "revocation_store (\<lambda>d fp. fst (ns_is_revoked P st None fp d)) (\<lambda>d fp. ns_revoke P st None fp d)
    (\<lambda>_. True) (pg_revoked (prs_table (nrs_inner st)) (nrs_namespace st) rows)"
  using pg_okD [OF assms]
  by unfold_locales (auto simp: ns_is_revoked_def ns_revoke_def pg_call_def pg_revoked_def)

lemma concat_chunks_of: "0 < n \<Longrightarrow> concat (chunks_of n xs) = xs"
  by (induction n xs rule: chunks_of.induct) (subst chunks_of.simps, simp)

lemma chunks_of_length: "c \<in> set (chunks_of n xs) \<Longrightarrow> 0 < length c \<and> length c \<le> n"
proof (induction n xs rule: chunks_of.induct)
  case (1 n xs)
  then show ?case by (subst (asm) (2) chunks_of.simps) (auto split: if_splits)
qed

lemma revoke_chunks_ok:
  assumes "pg_ok P rows"
  shows "revoke_chunks P tb tn [] cs d = (Inr (), d') \<Longrightarrow> pg_revoked tb tn rows d' = set (concat cs) \<union> pg_revoked tb tn rows d"
proof (induction cs arbitrary: d)
  case (Cons c cs)
  then have "revoke_chunks P tb tn [] cs (snd (pg_insert P tb tn c d)) = (Inr (), d')"
    by (simp add: pg_call_def)
  from Cons.IH [OF this] show ?case using pg_okD(2) [OF assms] by (auto simp: pg_revoked_def)
qed simp

lemma revoke_chunks_runs: "\<exists>d'. revoke_chunks P tb tn [] cs d = (Inr (), d')"
  by (induction cs arbitrary: d) (simp_all add: pg_call_def)

lemma revoke_all_chunks:
  assumes "pg_ok P rows"
  shows "\<exists>d'. revoke_chunks P tb tn [] (chunks_of 500 fps) d = (Inr (), d')
    \<and> pg_revoked tb tn rows d' = set fps \<union> pg_revoked tb tn rows d"
proof -
  obtain d' where d': "revoke_chunks P tb tn [] (chunks_of 500 fps) d = (Inr (), d')"
    using revoke_chunks_runs [of P tb tn "chunks_of 500 fps" d] by auto
  have "concat (chunks_of 500 fps) = fps" by (rule concat_chunks_of) simp
  with revoke_chunks_ok [OF assms d'] d' show ?thesis by auto
qed

lemma pg_revoke_batch_spec:
  assumes "pg_ok P rows"
  shows "\<exists>d'. pg_revoke_batch P st [] fps d = (Inr (), d')
    \<and> pg_revoked (prs_table st) [] rows d' = set fps \<union> pg_revoked (prs_table st) [] rows d"
  using revoke_all_chunks [OF assms, of "prs_table st" "[]" fps d] by (auto simp: pg_revoke_batch_def)

lemma ns_revoke_batch_spec:
  assumes "pg_ok P rows"
  shows "\<exists>d'. ns_revoke_batch P st [] fps d = (Inr (), d')
    \<and> pg_revoked (prs_table (nrs_inner st)) (nrs_namespace st) rows d'
        = set fps \<union> pg_revoked (prs_table (nrs_inner st)) (nrs_namespace st) rows d"
  using revoke_all_chunks [OF assms, of "prs_table (nrs_inner st)" "nrs_namespace st" fps d]
  by (auto simp: ns_revoke_batch_def)

text \<open>
  Tenants are isolated: what one revokes, alone or in a batch, no other sees. The store without a
  namespace is the tenant of the empty name, which a namespace can be too.
\<close>

lemma pg_tenant_isolation:
  assumes "pg_ok P rows" "nrs_namespace st \<noteq> nrs_namespace st'"
  shows "fst (ns_is_revoked P st' None fp' (snd (ns_revoke P st None fp d))) = fst (ns_is_revoked P st' None fp' d)"
  using pg_okD(1,2) [OF assms(1)] assms(2) by (auto simp: ns_revoke_def ns_is_revoked_def pg_call_def)

lemma pg_empty_namespace:
  "ns_is_revoked P (pg_namespaced_new []) fault fp d = pg_is_revoked P pg_revocation_new fault fp d"
  by (simp add: ns_is_revoked_def pg_is_revoked_def pg_namespaced_new_def)

text \<open>The nonces: each transaction is all or nothing, and the loop never grants a nonce twice, whatever fails.\<close>

definition pg_used :: "('d \<Rightarrow> (string \<times> string \<times> bytes) set) \<Rightarrow> 'd \<Rightarrow> bytes set" where
  "pg_used rows d = {n. (nonce_table, [], n) \<in> rows d}"

text \<open>A nonce is good again once its row is pruned, whether or not its certificate has expired.\<close>

lemma pruned_nonce_granted:
  assumes "pg_ok P rows" "n \<notin> pg_used rows (snd (prune_nonces_before delete None ts d))"
  shows "fst (pg_try_consume P None n (snd (prune_nonces_before delete None ts d))) = Inr True"
proof -
  let ?d = "snd (prune_nonces_before delete None ts d)"
  have "fst (pg_insert P nonce_table [] [n] ?d) = 1"
  proof -
    have "(\<lambda>b. (nonce_table, [], b)) ` set [n] - rows ?d = {(nonce_table, [], n)}"
      using assms(2) by (auto simp: pg_used_def)
    then show ?thesis by (simp only: pg_okD(3) [OF assms(1)]) simp
  qed
  then show ?thesis by (cases "pg_insert P nonce_table [] [n] ?d") (simp add: pg_try_consume_def pg_call_def)
qed

lemma pg_insert_used: "pg_ok P rows \<Longrightarrow> pg_used rows (snd (pg_insert P nonce_table [] ns d)) = set ns \<union> pg_used rows d"
  by (auto simp: pg_used_def pg_okD(2))

lemma pg_count_used: "pg_ok P rows \<Longrightarrow> pg_count P nonce_table [] ns d > 0 \<longleftrightarrow> set ns \<inter> pg_used rows d \<noteq> {}"
  by (auto simp: pg_used_def pg_okD(4))

lemma once_cases:
  assumes "pg_ok P rows" "try_consume_batch_once P fault ns d = (r, d')"
  shows "(r = Inr True \<and> set ns \<inter> pg_used rows d = {} \<and> pg_used rows d' = set ns \<union> pg_used rows d)
    \<or> (r = Inr False \<and> set ns \<inter> pg_used rows d \<noteq> {} \<and> d' = d)
    \<or> ((\<exists>e. r = Inl (storage_transient e)) \<and> (d' = d \<or> set ns \<inter> pg_used rows d = {} \<and> pg_used rows d' = set ns \<union> pg_used rows d))"
  using assms pg_count_used [OF assms(1), of ns d] pg_insert_used [OF assms(1), of ns d]
  by (auto simp: try_consume_batch_once_def Let_def split: tx_fault.splits if_splits)

lemma retry_sound:
  assumes "pg_ok P rows"
  shows "retry_consume P faults ns k le d = (r, d') \<Longrightarrow> ns \<noteq> [] \<Longrightarrow>
     (r = Inr True \<longrightarrow> set ns \<inter> pg_used rows d = {} \<and> set ns \<subseteq> pg_used rows d')
     \<and> (pg_used rows d' = pg_used rows d \<or> pg_used rows d' = set ns \<union> pg_used rows d)
     \<and> (r = Inr False \<longrightarrow> set ns \<inter> pg_used rows d' \<noteq> {})"
proof (induction k arbitrary: le d)
  case 0
  then show ?case by auto
next
  case (Suc k)
  let ?once = "try_consume_batch_once P (faults (MAX_RETRIES - Suc k)) ns d"
  obtain r1 d1 where o: "?once = (r1, d1)" by (cases ?once)
  from once_cases [OF assms o] consider
      (granted) "r1 = Inr True" "set ns \<inter> pg_used rows d = {}" "pg_used rows d1 = set ns \<union> pg_used rows d"
    | (refused) "r1 = Inr False" "set ns \<inter> pg_used rows d \<noteq> {}" "d1 = d"
    | (failed) e where "r1 = Inl (storage_transient e)"
        "d1 = d \<or> set ns \<inter> pg_used rows d = {} \<and> pg_used rows d1 = set ns \<union> pg_used rows d" by blast
  then show ?case
  proof cases
    case granted
    with o Suc.prems(1) show ?thesis by auto
  next
    case refused
    with o Suc.prems(1) show ?thesis by auto
  next
    case failed
    then have rest: "retry_consume P faults ns k (Some (storage_transient e)) d1 = (r, d')"
      using o Suc.prems(1) by (simp add: storage_transient_def storage_is_transient_def)
    note ih = Suc.IH [OF rest Suc.prems(2)]
    from failed(2) show ?thesis
    proof
      assume "d1 = d"
      with ih show ?thesis by simp
    next
      assume a: "set ns \<inter> pg_used rows d = {} \<and> pg_used rows d1 = set ns \<union> pg_used rows d"
      have ne: "set ns \<inter> (set ns \<union> pg_used rows d) \<noteq> {}" using Suc.prems(2) by (cases ns) auto
      with ih a show ?thesis by auto
    qed
  qed
qed

lemma pg_nonce_contract:
  assumes "pg_ok P rows"
  shows "persistent_nonce_store (\<lambda>t d ns. pg_try_consume_batch P (\<lambda>_. NoFault) ns d) (\<lambda>_. True) (\<lambda>_. pg_used rows)"
proof
  fix s ns and t :: u64
  have r: "retry_consume P (\<lambda>_. NoFault) ns MAX_RETRIES None s = try_consume_batch_once P NoFault ns s"
    by (simp add: MAX_RETRIES_def numeral_3_eq_3 try_consume_batch_once_def Let_def)
  show "pg_try_consume_batch P (\<lambda>_. NoFault) ns s = (Inr False, s)" if "set ns \<inter> pg_used rows s \<noteq> {}"
    using that pg_count_used [OF assms, of ns s] by (auto simp: pg_try_consume_batch_def r try_consume_batch_once_def)
  show "\<exists>s'. pg_try_consume_batch P (\<lambda>_. NoFault) ns s = (Inr True, s') \<and> True \<and> pg_used rows s' = set ns \<union> pg_used rows s"
    if "set ns \<inter> pg_used rows s = {}"
    using that pg_count_used [OF assms, of ns s] pg_insert_used [OF assms, of ns s]
    by (auto simp: pg_try_consume_batch_def r try_consume_batch_once_def Let_def)
qed simp

text \<open>Three failures in a row are reported as the last of them; the error is always transient.\<close>

lemma retry_error:
  "retry_consume P faults ns k (Some (storage_transient m)) d = (Inl e, d') \<Longrightarrow> storage_is_transient e"
proof (induction k arbitrary: m d)
  case 0
  then show ?case by (auto simp: storage_is_transient_def storage_transient_def)
next
  case (Suc k)
  let ?once = "try_consume_batch_once P (faults (MAX_RETRIES - Suc k)) ns d"
  obtain r1 d1 where o: "?once = (r1, d1)" by (cases ?once)
  show ?case
  proof (cases r1)
    case (Inl e1)
    with o obtain m1 where "e1 = storage_transient m1"
      by (auto simp: try_consume_batch_once_def Let_def split: tx_fault.splits if_splits)
    with Suc o Inl show ?thesis by (simp add: storage_is_transient_def storage_transient_def)
  next
    case (Inr b)
    with Suc.prems o show ?thesis by simp
  qed
qed

text \<open>
  What the loop decides, over its last \<open>k\<close> attempts. \<open>lost_commit\<close>: one of them had its commit
  reported as failed although it took place. Only then can a fresh batch be refused.
\<close>

definition lost_commit :: "(nat \<Rightarrow> tx_fault) \<Rightarrow> nat \<Rightarrow> bool" where
  "lost_commit faults k \<longleftrightarrow> (\<exists>i\<in>{MAX_RETRIES - k..<MAX_RETRIES}. \<exists>e. faults i = AtCommit e True)"

definition clean_attempt :: "(nat \<Rightarrow> tx_fault) \<Rightarrow> nat \<Rightarrow> bool" where
  "clean_attempt faults k \<longleftrightarrow> (\<exists>i\<in>{MAX_RETRIES - k..<MAX_RETRIES}. faults i = NoFault)"

lemma attempts_Suc:
  assumes "Suc k \<le> MAX_RETRIES"
  shows "lost_commit faults (Suc k) \<longleftrightarrow> (\<exists>e. faults (MAX_RETRIES - Suc k) = AtCommit e True) \<or> lost_commit faults k"
    and "clean_attempt faults (Suc k) \<longleftrightarrow> faults (MAX_RETRIES - Suc k) = NoFault \<or> clean_attempt faults k"
proof -
  have "{MAX_RETRIES - Suc k..<MAX_RETRIES} = insert (MAX_RETRIES - Suc k) {MAX_RETRIES - k..<MAX_RETRIES}"
    using assms by auto
  then show "lost_commit faults (Suc k) \<longleftrightarrow> (\<exists>e. faults (MAX_RETRIES - Suc k) = AtCommit e True) \<or> lost_commit faults k"
    "clean_attempt faults (Suc k) \<longleftrightarrow> faults (MAX_RETRIES - Suc k) = NoFault \<or> clean_attempt faults k"
    by (auto simp: lost_commit_def clean_attempt_def)
qed

lemma once_fault:
  assumes "pg_ok P rows" "try_consume_batch_once P fault ns d = (Inl e, d')"
  shows "storage_is_transient e" "fault \<noteq> NoFault"
    "d' = d \<or> (\<exists>m. fault = AtCommit m True) \<and> set ns \<inter> pg_used rows d = {} \<and> pg_used rows d' = set ns \<union> pg_used rows d"
  using assms pg_count_used [OF assms(1), of ns d] pg_insert_used [OF assms(1), of ns d]
  by (auto simp: try_consume_batch_once_def Let_def storage_is_transient_def storage_transient_def
      split: tx_fault.splits if_splits)

lemma retry_decides:
  assumes "pg_ok P rows" "ns \<noteq> []"
  shows "retry_consume P faults ns k le d = (r, d') \<Longrightarrow> k \<le> MAX_RETRIES \<Longrightarrow>
     (case r of
        Inr True \<Rightarrow> set ns \<inter> pg_used rows d = {} \<and> pg_used rows d' = set ns \<union> pg_used rows d
      | Inr False \<Rightarrow> set ns \<inter> pg_used rows d \<noteq> {} \<and> d' = d
          \<or> set ns \<inter> pg_used rows d = {} \<and> pg_used rows d' = set ns \<union> pg_used rows d \<and> lost_commit faults k
      | Inl e \<Rightarrow> d' = d
          \<or> set ns \<inter> pg_used rows d = {} \<and> pg_used rows d' = set ns \<union> pg_used rows d \<and> lost_commit faults k)
     \<and> (clean_attempt faults k \<and> \<not> lost_commit faults k \<longrightarrow> r = Inr (set ns \<inter> pg_used rows d = {}))"
proof (induction k arbitrary: le d)
  case 0
  then show ?case by (auto simp: clean_attempt_def)
next
  case (Suc k)
  note att = attempts_Suc [OF Suc.prems(2), of faults]
  let ?once = "try_consume_batch_once P (faults (MAX_RETRIES - Suc k)) ns d"
  obtain r1 d1 where o: "?once = (r1, d1)" by (cases ?once)
  show ?case
  proof (cases r1)
    case (Inr b)
    with Suc.prems(1) o have "r = Inr b" "d' = d1" by simp_all
    with once_cases [OF assms(1) o] Inr show ?thesis by (cases b) auto
  next
    case (Inl e1)
    note f = once_fault [OF assms(1) o [unfolded Inl]]
    with o Inl Suc.prems(1) have rest: "retry_consume P faults ns k (Some e1) d1 = (r, d')" by simp
    note ih = Suc.IH [OF rest]
    from f(3) show ?thesis
    proof
      assume "d1 = d"
      with ih f(2) Suc.prems(2) att show ?thesis by (auto split: sum.splits bool.splits)
    next
      assume a: "(\<exists>m. faults (MAX_RETRIES - Suc k) = AtCommit m True) \<and> set ns \<inter> pg_used rows d = {}
        \<and> pg_used rows d1 = set ns \<union> pg_used rows d"
      then have "set ns \<inter> pg_used rows d1 \<noteq> {}" using assms(2) by (cases ns) auto
      with ih a Suc.prems(2) att show ?thesis by (auto split: sum.splits bool.splits)
    qed
  qed
qed

lemma pg_batch_error_transient:
  "pg_try_consume_batch P faults ns d = (Inl e, d') \<Longrightarrow> pg_ok P rows \<Longrightarrow> storage_is_transient e"
proof (cases "ns = []")
  case False
  assume h: "pg_try_consume_batch P faults ns d = (Inl e, d')" "pg_ok P rows"
  have *: "storage_is_transient e" if "retry_consume P faults ns k le d = (Inl e, d')" "\<forall>m. le = Some m \<longrightarrow> storage_is_transient m" for k le d
    using that
  proof (induction k arbitrary: le d)
    case 0
    then show ?case by (auto simp: storage_is_transient_def storage_transient_def split: option.splits)
  next
    case (Suc k)
    let ?once = "try_consume_batch_once P (faults (MAX_RETRIES - Suc k)) ns d"
    obtain r1 d1 where o: "?once = (r1, d1)" by (cases ?once)
    with Suc show ?case
      using once_fault(1) [OF h(2)] by (cases r1) auto
  qed
  from h(1) False show ?thesis by (auto simp: pg_try_consume_batch_def intro: *)
qed (simp add: pg_try_consume_batch_def)

end
