(* ===== verification/A1_Ffi.thy ===== *)
theory A1_Ffi
  imports A1_Wire A1_Runs
begin

text \<open>
  The C interface, \<open>src/ffi.rs\<close>. The heap is three maps from addresses to the values the opaque
  handles point to; a null pointer is \<open>None\<close>. A call on a handle that is not live, or freed before, is
  undefined in C and has the result \<open>None\<close>. C strings are the bytes before the terminator, of which
  \<open>fc_utf8\<close> tells whether they are UTF-8. JSON and the crates' error texts are parameters. The release
  profile aborts on a panic, so the branches that catch one are not modelled.
\<close>

section \<open>Status codes\<close>

datatype a1_status =
    A1Ok | A1ErrEmptyChain | A1ErrStorageFailure | A1ErrRootMismatch | A1ErrBrokenLinkage | A1ErrInvalidSig
  | A1ErrNotYetValid | A1ErrExpired | A1ErrTemporalViol | A1ErrMaxDepth | A1ErrInvalidProof | A1ErrScopeEscal
  | A1ErrUnauthorized | A1ErrScopeViol | A1ErrNonceReplay | A1ErrRevoked | A1ErrIntentNotFound | A1ErrEmptyTree
  | A1ErrWireFormat | A1ErrUnsupportedVer | A1ErrPolicyViolation | A1ErrBatchItemFailed | A1ErrMacFailed
  | A1ErrNamespaceMismatch | A1ErrRateLimit | A1ErrStorageUnhealthy | A1ErrPassportNarrowing | A1ErrPanic | A1ErrUnknown

primrec status_code :: "a1_status \<Rightarrow> nat" where
  "status_code A1Ok = 0"
| "status_code A1ErrEmptyChain = 1"
| "status_code A1ErrStorageFailure = 2"
| "status_code A1ErrRootMismatch = 3"
| "status_code A1ErrBrokenLinkage = 4"
| "status_code A1ErrInvalidSig = 5"
| "status_code A1ErrNotYetValid = 6"
| "status_code A1ErrExpired = 7"
| "status_code A1ErrTemporalViol = 8"
| "status_code A1ErrMaxDepth = 9"
| "status_code A1ErrInvalidProof = 10"
| "status_code A1ErrScopeEscal = 11"
| "status_code A1ErrUnauthorized = 12"
| "status_code A1ErrScopeViol = 13"
| "status_code A1ErrNonceReplay = 14"
| "status_code A1ErrRevoked = 15"
| "status_code A1ErrIntentNotFound = 16"
| "status_code A1ErrEmptyTree = 17"
| "status_code A1ErrWireFormat = 18"
| "status_code A1ErrUnsupportedVer = 19"
| "status_code A1ErrPolicyViolation = 20"
| "status_code A1ErrBatchItemFailed = 21"
| "status_code A1ErrMacFailed = 22"
| "status_code A1ErrNamespaceMismatch = 23"
| "status_code A1ErrRateLimit = 24"
| "status_code A1ErrStorageUnhealthy = 25"
| "status_code A1ErrPassportNarrowing = 26"
| "status_code A1ErrPanic = 98"
| "status_code A1ErrUnknown = 99"

fun a1_error_to_status :: "a1_error \<Rightarrow> nat" where
  "a1_error_to_status EmptyChain = status_code A1ErrEmptyChain"
| "a1_error_to_status (StorageFailure _) = status_code A1ErrStorageFailure"
| "a1_error_to_status RootMismatch = status_code A1ErrRootMismatch"
| "a1_error_to_status (BrokenLinkage _) = status_code A1ErrBrokenLinkage"
| "a1_error_to_status (InvalidSignature _) = status_code A1ErrInvalidSig"
| "a1_error_to_status (NotYetValid _ _ _) = status_code A1ErrNotYetValid"
| "a1_error_to_status (Expired _ _ _) = status_code A1ErrExpired"
| "a1_error_to_status (TemporalViolation _ _ _) = status_code A1ErrTemporalViol"
| "a1_error_to_status (MaxDepthExceeded _ _) = status_code A1ErrMaxDepth"
| "a1_error_to_status InvalidSubScopeProof = status_code A1ErrInvalidProof"
| "a1_error_to_status (ScopeEscalation _) = status_code A1ErrScopeEscal"
| "a1_error_to_status UnauthorizedLeaf = status_code A1ErrUnauthorized"
| "a1_error_to_status ScopeViolation = status_code A1ErrScopeViol"
| "a1_error_to_status NonceReplay = status_code A1ErrNonceReplay"
| "a1_error_to_status Revoked = status_code A1ErrRevoked"
| "a1_error_to_status IntentNotFound = status_code A1ErrIntentNotFound"
| "a1_error_to_status EmptyTree = status_code A1ErrEmptyTree"
| "a1_error_to_status (WireFormatError _) = status_code A1ErrWireFormat"
| "a1_error_to_status (UnsupportedVersion _ _) = status_code A1ErrUnsupportedVer"
| "a1_error_to_status (PolicyViolation _) = status_code A1ErrPolicyViolation"
| "a1_error_to_status (BatchItemFailed _ _) = status_code A1ErrBatchItemFailed"
| "a1_error_to_status MacVerificationFailed = status_code A1ErrMacFailed"
| "a1_error_to_status (NamespaceMismatch _ _) = status_code A1ErrNamespaceMismatch"
| "a1_error_to_status RateLimitExceeded = status_code A1ErrRateLimit"
| "a1_error_to_status (StorageUnhealthy _) = status_code A1ErrStorageUnhealthy"
| "a1_error_to_status PassportNarrowingViolation = status_code A1ErrPassportNarrowing"
| "a1_error_to_status _ = status_code A1ErrUnknown"

section \<open>Handles\<close>

type_synonym handle = "nat option"

record ffi_state =
  fx_identities :: "nat \<Rightarrow> signer option"
  fx_revocations :: "nat \<Rightarrow> memory_revocation_store option"
  fx_nonces :: "nat \<Rightarrow> memory_nonce_store option"
  fx_next :: nat
  fx_last_error :: "string option"

text \<open>\<open>CString::new\<close> refuses a text with a zero byte.\<close>

definition set_last_error :: "string \<Rightarrow> ffi_state \<Rightarrow> ffi_state" where
  "set_last_error msg st =
     st\<lparr>fx_last_error := Some (if CHR 0x00 \<in> set msg then ''error contains nul byte'' else msg)\<rparr>"

definition dyolo_last_error :: "ffi_state \<Rightarrow> string option" where
  "dyolo_last_error st = fx_last_error st"

definition dyolo_identity_generate :: "signer \<Rightarrow> ffi_state \<Rightarrow> handle \<times> ffi_state" where
  "dyolo_identity_generate fresh st =
     (Some (fx_next st), st\<lparr>fx_identities := (fx_identities st)(fx_next st \<mapsto> fresh), fx_next := fx_next st + 1\<rparr>)"

definition dyolo_identity_from_seed :: "(bytes \<Rightarrow> signer) \<Rightarrow> bytes option \<Rightarrow> ffi_state \<Rightarrow> handle \<times> ffi_state" where
  "dyolo_identity_from_seed of_seed seed st =
     (case seed of
        None \<Rightarrow> (None, set_last_error ''dyolo_identity_from_seed: seed pointer is null'' st)
      | Some b \<Rightarrow> dyolo_identity_generate (of_seed b) st)"

definition dyolo_identity_verifying_key :: "handle \<Rightarrow> bool \<Rightarrow> ffi_state \<Rightarrow> ((nat \<times> bytes option) \<times> ffi_state) option" where
  "dyolo_identity_verifying_key h out_null st =
     (case h of
        None \<Rightarrow> Some ((status_code A1ErrUnknown, None), set_last_error ''null pointer argument'' st)
      | Some a \<Rightarrow>
          if out_null then Some ((status_code A1ErrUnknown, None), set_last_error ''null pointer argument'' st)
          else (case fx_identities st a of
                  None \<Rightarrow> None
                | Some s \<Rightarrow> Some ((status_code A1Ok, Some (verifying_key s)), st)))"

definition dyolo_identity_free :: "handle \<Rightarrow> ffi_state \<Rightarrow> ffi_state option" where
  "dyolo_identity_free h st =
     (case h of None \<Rightarrow> Some st
      | Some a \<Rightarrow> (case fx_identities st a of
          None \<Rightarrow> None | Some _ \<Rightarrow> Some (st\<lparr>fx_identities := (fx_identities st)(a := None)\<rparr>)))"

definition dyolo_revocation_store_new :: "ffi_state \<Rightarrow> handle \<times> ffi_state" where
  "dyolo_revocation_store_new st =
     (Some (fx_next st), st\<lparr>fx_revocations := (fx_revocations st)(fx_next st \<mapsto> mem_rev_new), fx_next := fx_next st + 1\<rparr>)"

definition dyolo_revocation_store_free :: "handle \<Rightarrow> ffi_state \<Rightarrow> ffi_state option" where
  "dyolo_revocation_store_free h st =
     (case h of None \<Rightarrow> Some st
      | Some a \<Rightarrow> (case fx_revocations st a of
          None \<Rightarrow> None | Some _ \<Rightarrow> Some (st\<lparr>fx_revocations := (fx_revocations st)(a := None)\<rparr>)))"

definition dyolo_nonce_store_new :: "ffi_state \<Rightarrow> handle \<times> ffi_state" where
  "dyolo_nonce_store_new st =
     (Some (fx_next st), st\<lparr>fx_nonces := (fx_nonces st)(fx_next st \<mapsto> mem_nonce_new), fx_next := fx_next st + 1\<rparr>)"

definition dyolo_nonce_store_free :: "handle \<Rightarrow> ffi_state \<Rightarrow> ffi_state option" where
  "dyolo_nonce_store_free h st =
     (case h of None \<Rightarrow> Some st
      | Some a \<Rightarrow> (case fx_nonces st a of
          None \<Rightarrow> None | Some _ \<Rightarrow> Some (st\<lparr>fx_nonces := (fx_nonces st)(a := None)\<rparr>)))"

section \<open>Arguments\<close>

record ffi_codec =
  fc_utf8 :: "string \<Rightarrow> string option"
  fc_hex_msg :: "string \<Rightarrow> string"
  fc_pk_msg :: "bytes \<Rightarrow> string"
  fc_parse_chain :: "string \<Rightarrow> string + signed_chain"
  fc_parse_proof :: "string \<Rightarrow> string + merkle_proof"
  fc_print_token :: "verified_token \<Rightarrow> string + string"
  fc_print_receipt :: "verification_receipt \<Rightarrow> string + string"

definition utf8 :: "ffi_codec \<Rightarrow> string \<Rightarrow> string + string" where
  "utf8 F s = (case fc_utf8 F s of Some e \<Rightarrow> Inl e | None \<Rightarrow> Inr s)"

text \<open>A failure with the catch-all code, its text built from the crate's.\<close>

definition unknown :: "string \<Rightarrow> string + 'a \<Rightarrow> (nat \<times> string) + 'a" where
  "unknown prefix r = map_errR (\<lambda>e. (status_code A1ErrUnknown, prefix @ e)) r"

definition hex_bytes :: "ext \<Rightarrow> ffi_codec \<Rightarrow> string \<Rightarrow> string + bytes" where
  "hex_bytes E F h = ok_or (fc_hex_msg F h) (hex_dec E h)"

definition length_32 :: "string \<Rightarrow> bytes \<Rightarrow> string + bytes" where
  "length_32 msg b = (if length b = 32 then Inr b else Inl msg)"

definition valid_key :: "ext \<Rightarrow> ffi_codec \<Rightarrow> bytes \<Rightarrow> string + bytes" where
  "valid_key E F b = (if ed_valid_pk E b then Inr b else Inl (fc_pk_msg F b))"

definition dyolo_cert_revoke ::
  "ext \<Rightarrow> ffi_codec \<Rightarrow> handle \<Rightarrow> string option \<Rightarrow> ffi_state \<Rightarrow> (nat \<times> ffi_state) option" where
  "dyolo_cert_revoke E F store fp st =
     (let fail = (\<lambda>msg. Some (status_code A1ErrUnknown, set_last_error msg st)) in
      case (store, fp) of
        (Some a, Some s) \<Rightarrow>
          (case bindR (map_errR (\<lambda>e. ''invalid utf-8: '' @ e) (utf8 F s)) (\<lambda>t.
                bindR (map_errR (\<lambda>e. ''invalid hex: '' @ e) (hex_bytes E F t)) (length_32 ''fingerprint must be 32 bytes'')) of
             Inl msg \<Rightarrow> fail msg
           | Inr b \<Rightarrow>
               (case fx_revocations st a of
                  None \<Rightarrow> None
                | Some r \<Rightarrow>
                    (case mem_revoke r b of
                       (Inl e, r') \<Rightarrow> Some (status_code A1ErrUnknown,
                         set_last_error (display_storage_error e) (st\<lparr>fx_revocations := (fx_revocations st)(a \<mapsto> r')\<rparr>))
                     | (Inr _, r') \<Rightarrow> Some (status_code A1Ok, st\<lparr>fx_revocations := (fx_revocations st)(a \<mapsto> r')\<rparr>))))
      | _ \<Rightarrow> fail ''null pointer argument'')"

record ffi_call =
  fl_rev :: handle
  fl_nonce :: handle
  fl_chain :: "string option"
  fl_pk :: "string option"
  fl_action :: "string option"
  fl_proof :: "string option"
  fl_mac :: "bytes option"
  fl_out_null :: bool
  fl_out_len :: nat

record ffi_arguments =
  fa_rev :: nat
  fa_nonce :: nat
  fa_pk :: bytes
  fa_intent :: bytes
  fa_proof :: merkle_proof
  fa_chain :: dyolo_chain
  fa_mac :: bytes

text \<open>What \<open>dyolo_authorize_json\<close> reads, in its order.\<close>

definition json_arguments :: "ext \<Rightarrow> ffi_codec \<Rightarrow> ffi_call \<Rightarrow> (nat \<times> string) + ffi_arguments" where
  "json_arguments E F q =
     (case (fl_chain q, fl_pk q, fl_action q, fl_mac q) of
        (Some chain, Some pk, Some act_c, Some mac) \<Rightarrow>
          if fl_out_null q \<or> fl_out_len q = 0 then Inl (status_code A1ErrUnknown, ''null or zero-length argument'')
          else (case (fl_rev q, fl_nonce q) of
            (Some r, Some n) \<Rightarrow>
              bindR (unknown ''chain_json is not valid UTF-8: '' (utf8 F chain)) (\<lambda>chain_str.
              bindR (unknown ''agent_pk_hex is not valid UTF-8: '' (utf8 F pk)) (\<lambda>pk_hex.
              bindR (unknown ''intent_action is not valid UTF-8: '' (utf8 F act_c)) (\<lambda>act.
              bindR (unknown ''invalid agent_pk_hex: '' (hex_bytes E F pk_hex)) (\<lambda>b.
              bindR (unknown [] (length_32 ''agent_pk must be 32 bytes'' b)) (\<lambda>b.
              bindR (unknown ''invalid agent public key: '' (valid_key E F b)) (\<lambda>agent.
              bindR (map_errR (\<lambda>e. (status_code A1ErrWireFormat, ''chain_json parse error: '' @ e)) (fc_parse_chain F chain_str)) (\<lambda>signed.
              bindR (map_errR (\<lambda>e. (status_code A1ErrWireFormat, ''chain conversion error: '' @ display_error e))
                       (into_chain E (fc_hex_msg F) (fc_pk_msg F) signed)) (\<lambda>c.
              bindR (map_errR (\<lambda>e. (status_code A1ErrUnknown, ''intent error: '' @ display_error e)) (intent_new act)) (\<lambda>i.
              Inr \<lparr>fa_rev = r, fa_nonce = n, fa_pk = agent, fa_intent = intent_hash_of E i, fa_proof = proof_default,
                fa_chain = c, fa_mac = mac\<rparr>)))))))))
          | _ \<Rightarrow> Inl (status_code A1ErrUnknown, ''null store pointer argument''))
      | _ \<Rightarrow> Inl (status_code A1ErrUnknown, ''null or zero-length argument''))"

definition receipt_arguments :: "ext \<Rightarrow> ffi_codec \<Rightarrow> ffi_call \<Rightarrow> (nat \<times> string) + ffi_arguments" where
  "receipt_arguments E F q =
     (case (fl_chain q, fl_pk q, fl_action q, fl_rev q, fl_nonce q) of
        (Some chain, Some pk, Some act_c, Some r, Some n) \<Rightarrow>
          if fl_out_null q \<or> fl_out_len q = 0 then Inl (status_code A1ErrUnknown, ''null or zero-length argument'')
          else
              bindR (unknown ''chain_json: '' (utf8 F chain)) (\<lambda>chain_str.
              bindR (unknown ''agent_pk_hex: '' (utf8 F pk)) (\<lambda>pk_hex.
              bindR (unknown ''intent_action: '' (utf8 F act_c)) (\<lambda>act.
              bindR (unknown ''invalid agent_pk_hex: '' (hex_bytes E F pk_hex)) (\<lambda>b.
              bindR (unknown [] (length_32 ''agent_pk must be 32 bytes'' b)) (\<lambda>b.
              bindR (unknown ''invalid agent public key: '' (valid_key E F b)) (\<lambda>agent.
              bindR (map_errR (\<lambda>e. (status_code A1ErrWireFormat, ''chain_json parse error: '' @ e)) (fc_parse_chain F chain_str)) (\<lambda>signed.
              bindR (map_errR (\<lambda>e. (status_code A1ErrWireFormat, display_error e))
                       (into_chain E (fc_hex_msg F) (fc_pk_msg F) signed)) (\<lambda>c.
              bindR (map_errR (\<lambda>e. (status_code A1ErrUnknown, ''intent error: '' @ display_error e)) (intent_new act)) (\<lambda>i.
              Inr \<lparr>fa_rev = r, fa_nonce = n, fa_pk = agent, fa_intent = intent_hash_of E i, fa_proof = proof_default,
                fa_chain = c, fa_mac = []\<rparr>)))))))))
      | _ \<Rightarrow> Inl (status_code A1ErrUnknown, ''null or zero-length argument''))"

definition proof_arguments :: "ext \<Rightarrow> ffi_codec \<Rightarrow> ffi_call \<Rightarrow> string + ffi_arguments" where
  "proof_arguments E F q =
     (case (fl_chain q, fl_pk q, fl_action q, fl_mac q, fl_proof q, fl_rev q, fl_nonce q) of
        (Some chain, Some pk, Some act_c, Some mac, Some proof, Some r, Some n) \<Rightarrow>
          if fl_out_null q \<or> fl_out_len q = 0 then Inl ''null argument''
          else
              bindR (utf8 F proof) (\<lambda>proof_str.
              bindR (fc_parse_proof F proof_str) (\<lambda>p.
              bindR (utf8 F chain) (\<lambda>chain_str.
              bindR (utf8 F act_c) (\<lambda>act.
              bindR (utf8 F pk) (\<lambda>pk_hex.
              bindR (hex_bytes E F pk_hex) (\<lambda>b.
              bindR (length_32 ''32 bytes'' b) (\<lambda>b.
              bindR (valid_key E F b) (\<lambda>agent.
              bindR (fc_parse_chain F chain_str) (\<lambda>signed.
              bindR (map_errR display_error (into_chain E (fc_hex_msg F) (fc_pk_msg F) signed)) (\<lambda>c.
              bindR (map_errR display_error (intent_new act)) (\<lambda>i.
              Inr \<lparr>fa_rev = r, fa_nonce = n, fa_pk = agent, fa_intent = intent_hash_of E i, fa_proof = p,
                fa_chain = c, fa_mac = mac\<rparr>)))))))))))
      | _ \<Rightarrow> Inl ''null argument'')"

section \<open>Authorizing\<close>

text \<open>The call of \<open>authorize\<close> on the stores behind the two handles.\<close>

definition authorize_at ::
  "ext \<Rightarrow> bytes \<Rightarrow> u64 \<Rightarrow> u64 \<Rightarrow> u64 \<Rightarrow> ffi_arguments \<Rightarrow> ffi_state \<Rightarrow> ((a1_error + verification_receipt) \<times> ffi_state) option" where
  "authorize_at E rnd now now' t a st =
     (case (fx_revocations st (fa_rev a), fx_nonces st (fa_nonce a)) of
        (Some r, Some n) \<Rightarrow>
          (case authorize E rnd (fa_pk a) (fa_intent a) (fa_proof a) now now' (mem_is_revoked r) (mem_try_consume_batch t) (fa_chain a) n of
             (res, n') \<Rightarrow> Some (res, st\<lparr>fx_nonces := (fx_nonces st)(fa_nonce a \<mapsto> n')\<rparr>))
      | _ \<Rightarrow> None)"

definition c_string :: "string \<Rightarrow> string" where
  "c_string s = (if CHR 0x00 \<in> set s then [] else s)"

type_synonym ffi_result = "((nat \<times> string option) \<times> ffi_state) option"

definition ffi_failed :: "nat \<times> string \<Rightarrow> ffi_state \<Rightarrow> (nat \<times> string option) \<times> ffi_state" where
  "ffi_failed e st = ((fst e, None), set_last_error (snd e) st)"

text \<open>The result is written with its terminator, if the caller's buffer has the room.\<close>

definition write_result :: "nat \<Rightarrow> string \<Rightarrow> ffi_state \<Rightarrow> (nat \<times> string option) \<times> ffi_state" where
  "write_result room json st =
     (let s = c_string json in
      if length s + 1 > room
      then ffi_failed (status_code A1ErrUnknown, ''output buffer too small: need '' @ dec (length s + 1) @ '', got '' @ dec room) st
      else ((status_code A1Ok, Some s), st))"

definition dyolo_authorize_json :: "ext \<Rightarrow> ffi_codec \<Rightarrow> bytes \<Rightarrow> u64 \<Rightarrow> u64 \<Rightarrow> u64 \<Rightarrow> ffi_call \<Rightarrow> ffi_state \<Rightarrow> ffi_result" where
  "dyolo_authorize_json E F rnd now now' t q st =
     (case json_arguments E F q of
        Inl e \<Rightarrow> Some (ffi_failed e st)
      | Inr a \<Rightarrow>
          (case authorize_at E rnd now now' t a st of
             None \<Rightarrow> None
           | Some (Inl e, st') \<Rightarrow> Some (ffi_failed (a1_error_to_status e, display_error e) st')
           | Some (Inr rc, st') \<Rightarrow>
               (case unknown ''token serialization: '' (fc_print_token F (token_sign E rc (fa_mac a))) of
                  Inl e \<Rightarrow> Some (ffi_failed e st')
                | Inr json \<Rightarrow> Some (write_result (fl_out_len q) json st'))))"

definition dyolo_authorize_receipt_json :: "ext \<Rightarrow> ffi_codec \<Rightarrow> bytes \<Rightarrow> u64 \<Rightarrow> u64 \<Rightarrow> u64 \<Rightarrow> ffi_call \<Rightarrow> ffi_state \<Rightarrow> ffi_result" where
  "dyolo_authorize_receipt_json E F rnd now now' t q st =
     (case receipt_arguments E F q of
        Inl e \<Rightarrow> Some (ffi_failed e st)
      | Inr a \<Rightarrow>
          (case authorize_at E rnd now now' t a st of
             None \<Rightarrow> None
           | Some (Inl e, st') \<Rightarrow> Some (ffi_failed (a1_error_to_status e, display_error e) st')
           | Some (Inr rc, st') \<Rightarrow>
               (case unknown ''receipt serialization: '' (fc_print_receipt F rc) of
                  Inl e \<Rightarrow> Some (ffi_failed e st')
                | Inr json \<Rightarrow> Some (write_result (fl_out_len q) json st'))))"

text \<open>Here every failure has the catch-all code, and a small buffer leaves the last error as it was.\<close>

definition dyolo_authorize_with_proof_json :: "ext \<Rightarrow> ffi_codec \<Rightarrow> bytes \<Rightarrow> u64 \<Rightarrow> u64 \<Rightarrow> u64 \<Rightarrow> ffi_call \<Rightarrow> ffi_state \<Rightarrow> ffi_result" where
  "dyolo_authorize_with_proof_json E F rnd now now' t q st =
     (case proof_arguments E F q of
        Inl e \<Rightarrow> Some (ffi_failed (status_code A1ErrUnknown, e) st)
      | Inr a \<Rightarrow>
          (case authorize_at E rnd now now' t a st of
             None \<Rightarrow> None
           | Some (Inl e, st') \<Rightarrow> Some (ffi_failed (status_code A1ErrUnknown, display_error e) st')
           | Some (Inr rc, st') \<Rightarrow>
               (case fc_print_token F (token_sign E rc (fa_mac a)) of
                  Inl e \<Rightarrow> Some (ffi_failed (status_code A1ErrUnknown, e) st')
                | Inr json \<Rightarrow>
                    (if length (c_string json) + 1 > fl_out_len q then Some ((status_code A1ErrUnknown, None), st')
                     else Some ((status_code A1Ok, Some (c_string json)), st')))))"

definition dyolo_version :: string where "dyolo_version = ''2.8.0''"

section \<open>Properties\<close>

text \<open>No error is reported as success or as a panic, and the catch-all code is for errors without one.\<close>

lemma a1_error_to_status_range: "a1_error_to_status e \<in> {1..26} \<union> {99}"
  by (cases e) simp_all

lemma status_code_inj: "status_code a = status_code b \<longleftrightarrow> a = b"
  by (cases a; cases b) simp_all

lemma authorize_is_inner:
  "authorize E rnd a i p now now' is_rev consume c s = authorize_inner E a i p now is_rev consume None c s"
  by (simp add: authorize_def authorize_with_options_def Let_def split: prod.splits)

text \<open>The heap: live addresses were handed out, and every live store satisfies its invariant.\<close>

definition heap_ok :: "ffi_state \<Rightarrow> bool" where
  "heap_ok st \<longleftrightarrow>
     (\<forall>a\<ge>fx_next st. fx_identities st a = None \<and> fx_revocations st a = None \<and> fx_nonces st a = None)
     \<and> (\<forall>a r. fx_revocations st a = Some r \<longrightarrow> mem_rev_inv r)
     \<and> (\<forall>a n. fx_nonces st a = Some n \<longrightarrow> nonce_inv_forever n)"

definition ffi_new :: ffi_state where
  "ffi_new = \<lparr>fx_identities = Map.empty, fx_revocations = Map.empty, fx_nonces = Map.empty, fx_next = 1, fx_last_error = None\<rparr>"

lemma heap_ok_new: "heap_ok ffi_new"
  by (simp add: heap_ok_def ffi_new_def)

lemma heap_ok_error [simp]: "heap_ok (set_last_error m st) = heap_ok st"
  by (simp add: heap_ok_def set_last_error_def)

lemma heap_ok_alloc:
  assumes "heap_ok st"
  shows "heap_ok (snd (dyolo_identity_generate s st))" "heap_ok (snd (dyolo_revocation_store_new st))"
    "heap_ok (snd (dyolo_nonce_store_new st))"
  using assms by (auto simp: heap_ok_def dyolo_identity_generate_def dyolo_revocation_store_new_def dyolo_nonce_store_new_def
      mem_rev_inv_new nonce_inv_forever_new)

lemma heap_ok_free:
  assumes "heap_ok st"
  shows "dyolo_identity_free h st = Some st' \<Longrightarrow> heap_ok st'" "dyolo_revocation_store_free h st = Some st' \<Longrightarrow> heap_ok st'"
    "dyolo_nonce_store_free h st = Some st' \<Longrightarrow> heap_ok st'"
  using assms by (auto simp: heap_ok_def dyolo_identity_free_def dyolo_revocation_store_free_def dyolo_nonce_store_free_def
      split: option.splits if_splits)

lemma authorize_at_ok:
  assumes h: "heap_ok st" and e: "batch_complete E" "batch_sound E" and a: "authorize_at E rnd now now' t a st = Some (res, st')"
  shows "heap_ok st'"
proof -
  obtain r n where rn: "fx_revocations st (fa_rev a) = Some r" "fx_nonces st (fa_nonce a) = Some n"
    using a by (auto simp: authorize_at_def split: option.splits)
  obtain n' where n': "authorize_inner E (fa_pk a) (fa_intent a) (fa_proof a) now (mem_is_revoked r) (mem_try_consume_batch t)
      None (fa_chain a) n = (res, n')" and st': "st' = st\<lparr>fx_nonces := (fx_nonces st)(fa_nonce a \<mapsto> n')\<rparr>"
    using a by (auto simp: authorize_at_def rn authorize_is_inner split: prod.splits)
  have i: "mem_rev_inv r" "nonce_inv_forever n" using h rn by (auto simp: heap_ok_def)
  have "nonce_inv_forever n'"
    using sys_auth.authorize_cases [OF i e, where a = "fa_pk a" and i = "fa_intent a" and p = "fa_proof a" and now = now
        and t = t and pol = None and c = "fa_chain a"] i(2)
    unfolding n' by (auto split: sum.splits)
  moreover have "fa_nonce a < fx_next st" using h rn by (auto simp: heap_ok_def not_le [symmetric])
  ultimately show ?thesis using h st' by (auto simp: heap_ok_def)
qed

lemma json_arguments_Inr:
  assumes "json_arguments E F q = Inr a"
  shows "fa_proof a = proof_default \<and> drift_tolerance_secs (fa_chain a) = 15"
  using assms by (auto simp: json_arguments_def bindR_Inr_iff map_errR_Inr_iff into_chain_def dest!: into_chain_Inr
      split: option.splits if_splits)

lemma json_arguments_Inl: "json_arguments E F q = Inl e \<Longrightarrow> fst e \<in> {18, 99}"
  by (auto simp: json_arguments_def unknown_def bindR_Inl_iff map_errR_Inl_iff split: option.splits if_splits)

lemma authorize_at_Some:
  assumes "authorize_at E rnd now now' t a st = Some (res, st')"
  obtains r n n' where "fx_revocations st (fa_rev a) = Some r" "fx_nonces st (fa_nonce a) = Some n"
    "authorize_inner E (fa_pk a) (fa_intent a) (fa_proof a) now (mem_is_revoked r) (mem_try_consume_batch t)
       None (fa_chain a) n = (res, n')" "st' = st\<lparr>fx_nonces := (fx_nonces st)(fa_nonce a \<mapsto> n')\<rparr>"
  using assms by (auto simp: authorize_at_def authorize_is_inner split: option.splits prod.splits)

lemma write_result_cases:
  "write_result room json st = ((code, out), st') \<Longrightarrow>
     (code = 0 \<and> out = Some (c_string json) \<and> st' = st \<and> length (c_string json) < room)
     \<or> (code = 99 \<and> out = None \<and> room \<le> length (c_string json) \<and> (\<exists>m. st' = set_last_error m st))"
  by (auto simp: write_result_def ffi_failed_def Let_def split: if_splits)

text \<open>
  A zero status means that the chain was valid, none of its certificates revoked and its nonces fresh;
  the nonces are used up, and the text is the token of the receipt.
\<close>

lemma authorize_json_success:
  assumes h: "heap_ok st" and e: "batch_complete E" "batch_sound E"
    and run: "dyolo_authorize_json E F rnd now now' t q st = Some ((0, out), st')"
  shows "\<exists>a r n n' json. json_arguments E F q = Inr a
    \<and> fx_revocations st (fa_rev a) = Some r \<and> fx_nonces st (fa_nonce a) = Some n \<and> fx_nonces st' (fa_nonce a) = Some n'
    \<and> chain_valid E (fa_pk a) (fa_intent a) proof_default now 15 (fa_chain a)
    \<and> chain_fps E (fa_chain a) \<inter> revoked_set r = {} \<and> chain_nonces (fa_chain a) \<inter> live t n = {}
    \<and> live t n' = chain_nonces (fa_chain a) \<union> live t n
    \<and> fc_print_token F (token_sign E (receipt_for E now (fa_intent a) (fa_chain a)) (fa_mac a)) = Inr json
    \<and> out = Some (c_string json) \<and> length (c_string json) < fl_out_len q"
proof -
  obtain a where a: "json_arguments E F q = Inr a"
    using run json_arguments_Inl [of E F q] by (cases "json_arguments E F q") (auto simp: dyolo_authorize_json_def ffi_failed_def)
  obtain res st1 where at: "authorize_at E rnd now now' t a st = Some (res, st1)"
    using run by (auto simp: dyolo_authorize_json_def a split: option.splits)
  obtain rc where rc: "res = Inr rc"
    using run a1_error_to_status_range [of "projl res"]
    by (cases res) (auto simp: dyolo_authorize_json_def a at ffi_failed_def)
  obtain json where p: "fc_print_token F (token_sign E rc (fa_mac a)) = Inr json"
    using run by (cases "fc_print_token F (token_sign E rc (fa_mac a))")
      (auto simp: dyolo_authorize_json_def a at rc ffi_failed_def unknown_def)
  have "write_result (fl_out_len q) json st1 = ((0, out), st')"
    using run by (simp add: dyolo_authorize_json_def a at rc p unknown_def)
  from write_result_cases [OF this] have w: "out = Some (c_string json)" "st' = st1" "length (c_string json) < fl_out_len q"
    by auto
  from authorize_at_Some [OF at] obtain r n n' where st1: "fx_revocations st (fa_rev a) = Some r" "fx_nonces st (fa_nonce a) = Some n"
    and run1: "authorize_inner E (fa_pk a) (fa_intent a) (fa_proof a) now (mem_is_revoked r) (mem_try_consume_batch t)
       None (fa_chain a) n = (Inr rc, n')" "st1 = st\<lparr>fx_nonces := (fx_nonces st)(fa_nonce a \<mapsto> n')\<rparr>"
    using rc by metis
  have i: "mem_rev_inv r" "nonce_inv_forever n" using h st1 by (auto simp: heap_ok_def)
  note d = json_arguments_Inr [OF a]
  have "chain_valid E (fa_pk a) (fa_intent a) proof_default now 15 (fa_chain a)
      \<and> chain_fps E (fa_chain a) \<inter> revoked_set r = {} \<and> chain_nonces (fa_chain a) \<inter> live t n = {}
      \<and> rc = receipt_for E now (fa_intent a) (fa_chain a) \<and> live t n' = chain_nonces (fa_chain a) \<union> live t n"
    using sys_auth.authorize_cases [OF i e, where a = "fa_pk a" and i = "fa_intent a" and p = "fa_proof a" and now = now
        and t = t and pol = None and c = "fa_chain a"] d
    unfolding run1 by (simp add: policy_ok_def)
  then show ?thesis using a st1 run1(2) w p by auto
qed

text \<open>
  When the buffer is too small the call fails, but the authorization it made has used up the nonces:
  the same call with more room is refused as a replay.
\<close>

lemma small_buffer_burns:
  assumes h: "heap_ok st" and e: "batch_complete E" "batch_sound E"
    and q: "json_arguments E F q = Inr a" "json_arguments E F (q\<lparr>fl_out_len := room\<rparr>) = Inr a"
    and s: "fx_revocations st (fa_rev a) = Some r" "fx_nonces st (fa_nonce a) = Some n"
    and v: "chain_valid E (fa_pk a) (fa_intent a) proof_default now 15 (fa_chain a)"
      "chain_valid E (fa_pk a) (fa_intent a) proof_default now2 15 (fa_chain a)"
      "chain_fps E (fa_chain a) \<inter> revoked_set r = {}" "chain_nonces (fa_chain a) \<inter> live t n = {}"
    and p: "fc_print_token F (token_sign E (receipt_for E now (fa_intent a) (fa_chain a)) (fa_mac a)) = Inr json"
      "fl_out_len q \<le> length (c_string json)"
  shows "\<exists>st1 st2. dyolo_authorize_json E F rnd now now' t q st = Some ((99, None), st1)
    \<and> dyolo_authorize_json E F rnd2 now2 now3 t2 (q\<lparr>fl_out_len := room\<rparr>) st1 = Some ((14, None), st2)"
proof -
  note d = json_arguments_Inr [OF q(1)]
  have i: "mem_rev_inv r" "nonce_inv_forever n" using h s by (auto simp: heap_ok_def)
  obtain n' where n': "authorize_inner E (fa_pk a) (fa_intent a) (fa_proof a) now (mem_is_revoked r) (mem_try_consume_batch t)
      None (fa_chain a) n = (Inr (receipt_for E now (fa_intent a) (fa_chain a)), n')" "nonce_inv_forever n'"
      "live t n' = chain_nonces (fa_chain a) \<union> live t n"
    using sys_auth.authorize_ok [OF i e, where a = "fa_pk a" and i = "fa_intent a" and p = "fa_proof a" and now = now
        and t = t and pol = None and c = "fa_chain a"] v d
    by (auto simp: policy_ok_def)
  let ?st1 = "st\<lparr>fx_nonces := (fx_nonces st)(fa_nonce a \<mapsto> n')\<rparr>"
  have "authorize_at E rnd now now' t a st = Some (Inr (receipt_for E now (fa_intent a) (fa_chain a)), ?st1)"
    using s n'(1) by (simp add: authorize_at_def authorize_is_inner)
  then obtain m where one: "dyolo_authorize_json E F rnd now now' t q st = Some ((99, None), set_last_error m ?st1)"
    using p by (auto simp: dyolo_authorize_json_def q unknown_def write_result_def ffi_failed_def Let_def)
  have ne: "chain_nonces (fa_chain a) \<noteq> {}" using v(1) by (auto simp: chain_nonces_def chain_valid_def)
  have l: "live t2 n' = live t n'" using n'(2) by (rule mem_forever.used_time)
  obtain vs where vs: "validate_structure E (fa_pk a) (fa_intent a) (fa_proof a) now2 (drift_tolerance_secs (fa_chain a)) (fa_chain a) = Inr vs"
    using validate_structure_iff [OF e] v(2) d by auto
  have "authorize_inner E (fa_pk a) (fa_intent a) (fa_proof a) now2 (mem_is_revoked r) (mem_try_consume_batch t2)
      None (fa_chain a) n' = (Inl NonceReplay, n')"
    using sys_auth.authorize_denied_replay [OF i(1) n'(2) _ vs v(3), where t = t2 and pol = None] n'(3) l ne
    by (auto simp: policy_ok_def)
  then have "dyolo_authorize_json E F rnd2 now2 now3 t2 (q\<lparr>fl_out_len := room\<rparr>) (set_last_error m ?st1)
      = Some (ffi_failed (14, display_error NonceReplay) (set_last_error m ?st1\<lparr>fx_nonces := (fx_nonces ?st1)(fa_nonce a \<mapsto> n')\<rparr>))"
    using s by (simp add: dyolo_authorize_json_def q authorize_at_def authorize_is_inner set_last_error_def)
  then show ?thesis using one by (auto simp: ffi_failed_def)
qed

text \<open>A certificate revoked through the interface is not authorized through it.\<close>

lemma revoke_then_authorize:
  assumes h: "heap_ok st" and e: "batch_complete E" "batch_sound E"
    and rv: "dyolo_cert_revoke E F (Some ra) (Some fps) st = Some (0, st1)"
    and q: "json_arguments E F q = Inr a" "fa_rev a = ra" and fp: "hex_dec E fps = Some b" "b \<in> chain_fps E (fa_chain a)"
    and run: "dyolo_authorize_json E F rnd now now' t q st1 = Some ((code, out), st2)"
  shows "code \<noteq> 0"
proof
  assume c: "code = 0"
  obtain r r' where r: "fx_revocations st ra = Some r" "mem_revoke r b = (Inr (), r')"
      "st1 = st\<lparr>fx_revocations := (fx_revocations st)(ra \<mapsto> r')\<rparr>"
    using rv fp(1) by (auto simp: dyolo_cert_revoke_def Let_def bindR_Inr_iff map_errR_Inr_iff utf8_def hex_bytes_def length_32_def
        split: option.splits sum.splits prod.splits if_splits)
  have "mem_rev_inv r" using h r(1) by (auto simp: heap_ok_def)
  from mem_revoke_spec [OF this, of b] r(2) have i: "mem_rev_inv r'" "b \<in> revoked_set r'" by auto
  have "ra < fx_next st" using h r(1) by (auto simp: heap_ok_def not_le [symmetric])
  then have h1: "heap_ok st1" using h i(1) r(3) by (auto simp: heap_ok_def)
  from authorize_json_success [OF h1 e run [unfolded c]] q obtain r2 where
    "fx_revocations st1 ra = Some r2" "chain_fps E (fa_chain a) \<inter> revoked_set r2 = {}" by auto
  then show False using r(3) i(2) fp(2) by auto
qed
end
