(* ===== verification/A1_Siem.thy ===== *)
theory A1_Siem
  imports A1_Audit
begin

text \<open>
  The exporting sinks of \<open>src/audit.rs\<close>: the attributes of the OpenTelemetry event, the line of the log
  sink, and the SIEM exporter, a background task that batches the events of an unbounded channel and
  writes them as HTTP requests. The task never reads an answer: what the server makes of a request that was
  written is the environment's choice, as is whether it can be written at all. \<open>si_cleared\<close> records
  the batches the task has let go of, \<open>si_received\<close> the bodies the server took.
\<close>

section \<open>OpenTelemetry and log lines\<close>

datatype otel_value = OtelStr string | OtelInt nat

definition opt_attr :: "string \<Rightarrow> ('a \<Rightarrow> otel_value) \<Rightarrow> 'a option \<Rightarrow> (string \<times> otel_value) list" where
  "opt_attr k f x = (case x of Some v \<Rightarrow> [(k, f v)] | None \<Rightarrow> [])"

text \<open>\<open>None\<close> when the current span has no valid context, so that nothing is added.\<close>

definition otel_emit :: "bool \<Rightarrow> audit_event \<Rightarrow> (string \<times> otel_value) list option" where
  "otel_emit span_valid ev =
     (if \<not> span_valid then None
      else Some ([(''a1.event_id'', OtelStr (event_id ev)),
                  (''a1.outcome'', OtelStr (display_outcome (outcome ev))),
                  (''a1.principal'', OtelStr (principal_pk_hex ev)),
                  (''a1.executor'', OtelStr (executor_pk_hex ev)),
                  (''a1.intent'', OtelStr (intent_hex ev)),
                  (''a1.depth'', OtelInt (ev_chain_depth ev))]
        @ opt_attr ''a1.chain_fingerprint'' OtelStr (ev_chain_fingerprint ev)
        @ opt_attr ''a1.error'' OtelStr (error_message ev)
        @ opt_attr ''a1.policy'' OtelStr (policy_name ev)
        @ opt_attr ''a1.batch_size'' OtelInt (batch_size ev)))"

datatype log_target = Stdout | Stderr

text \<open>The output is the list of lines with the stream each went to; \<open>json\<close> is the printer, if it is compiled in.\<close>

definition log_text :: "audit_event \<Rightarrow> string" where
  "log_text ev = ''a1 audit: outcome='' @ display_outcome (outcome ev) @ '' principal='' @ principal_pk_hex ev
     @ '' executor='' @ executor_pk_hex ev @ '' depth='' @ dec (ev_chain_depth ev)"

definition log_emit :: "(audit_event \<Rightarrow> string option) option \<Rightarrow> log_target \<Rightarrow> (log_target \<times> string) list emitter" where
  "log_emit json target ev out =
     Some (case json of
             Some print \<Rightarrow> (case print ev of Some line \<Rightarrow> out @ [(target, line)] | None \<Rightarrow> out)
           | None \<Rightarrow> out @ [(target, log_text ev)])"

section \<open>The SIEM exporter\<close>

record url =
  url_host :: "string option"
  url_port_or_default :: "nat option"
  url_path :: string
  url_query :: "string option"

definition crlf :: string where "crlf = [CHR 0x0D, CHR 0x0A]"

definition siem_request :: "url \<Rightarrow> string \<Rightarrow> string \<Rightarrow> string" where
  "siem_request u token body =
     (let host = (case url_host u of Some h \<Rightarrow> h | None \<Rightarrow> ''localhost'');
          path = url_path u @ (case url_query u of Some q \<Rightarrow> ''?'' @ q | None \<Rightarrow> [])
      in ''POST '' @ path @ '' HTTP/1.1'' @ crlf @ ''Host: '' @ host @ crlf @ ''Authorization: Bearer '' @ token @ crlf
         @ ''Content-Type: application/json'' @ crlf @ ''Content-Length: '' @ dec (length body) @ crlf
         @ ''X-A1-Provenance: 64796f6c6f'' @ crlf @ ''Connection: close'' @ crlf @ crlf @ body)"

definition siem_address :: "url \<Rightarrow> string" where
  "siem_address u =
     (case url_host u of Some h \<Rightarrow> h | None \<Rightarrow> ''localhost'') @ '':''
       @ dec (case url_port_or_default u of Some p \<Rightarrow> p | None \<Rightarrow> 80)"

text \<open>
  How a post may end: the endpoint does not parse or no connection is made; writing or flushing fails
  after the connection was made; or everything was written. In the last two cases the server may
  have taken the request or not, which no one tells the task.
\<close>

datatype net = Refused | Broken (taken: bool) | Written (taken: bool)

record siem =
  si_queue :: "audit_event list"
  si_batch :: "audit_event list"
  si_closed :: bool
  si_stopped :: bool
  si_cleared :: "audit_event list list"
  si_received :: "audit_event list list"

definition siem_new :: siem where
  "siem_new = \<lparr>si_queue = [], si_batch = [], si_closed = False, si_stopped = False, si_cleared = [], si_received = []\<rparr>"

text \<open>
  The events in the body of a request: with the feature \<open>wire\<close> the batch as JSON, without it none.
  The batch is cleared when the request has been written, and kept by every error.
\<close>

definition siem_body :: "bool \<Rightarrow> siem \<Rightarrow> audit_event list" where
  "siem_body wire s = (if wire then si_batch s else [])"

definition flush_batch :: "bool \<Rightarrow> net \<Rightarrow> siem \<Rightarrow> siem" where
  "flush_batch wire n s =
     (case n of
        Refused \<Rightarrow> s
      | Broken b \<Rightarrow> s\<lparr>si_received := si_received s @ (if b then [siem_body wire s] else [])\<rparr>
      | Written b \<Rightarrow> s\<lparr>si_received := si_received s @ (if b then [siem_body wire s] else []),
                        si_cleared := si_cleared s @ [si_batch s], si_batch := []\<rparr>)"

definition siem_emit :: "audit_event \<Rightarrow> siem \<Rightarrow> siem" where
  "siem_emit ev s = (if si_stopped s then s else s\<lparr>si_queue := si_queue s @ [ev]\<rparr>)"

definition siem_tick :: "bool \<Rightarrow> net \<Rightarrow> siem \<Rightarrow> siem" where
  "siem_tick wire n s = (if si_batch s \<noteq> [] then flush_batch wire n s else s)"

definition siem_receive :: "bool \<Rightarrow> net \<Rightarrow> audit_event \<Rightarrow> siem \<Rightarrow> siem" where
  "siem_receive wire n ev s =
     (let s = s\<lparr>si_batch := si_batch s @ [ev]\<rparr> in if length (si_batch s) \<ge> 100 then flush_batch wire n s else s)"

text \<open>
  The steps of the application (sending and dropping the sink) and of the task, whose loop ends when
  the channel is closed and empty. \<open>N\<close> holds the outcomes a post may have; the trace, the events sent.
\<close>

inductive siem_run :: "bool \<Rightarrow> net set \<Rightarrow> audit_event list \<Rightarrow> siem \<Rightarrow> bool" for wire N where
  start: "siem_run wire N [] siem_new"
| emit: "siem_run wire N evs s \<Longrightarrow> \<not> si_closed s \<Longrightarrow> siem_run wire N (evs @ [ev]) (siem_emit ev s)"
| close: "siem_run wire N evs s \<Longrightarrow> siem_run wire N evs (s\<lparr>si_closed := True\<rparr>)"
| tick: "siem_run wire N evs s \<Longrightarrow> \<not> si_stopped s \<Longrightarrow> n \<in> N \<Longrightarrow> siem_run wire N evs (siem_tick wire n s)"
| receive: "siem_run wire N evs s \<Longrightarrow> \<not> si_stopped s \<Longrightarrow> n \<in> N \<Longrightarrow> si_queue s = ev # q \<Longrightarrow>
    siem_run wire N evs (siem_receive wire n ev (s\<lparr>si_queue := q\<rparr>))"
| stop: "siem_run wire N evs s \<Longrightarrow> \<not> si_stopped s \<Longrightarrow> si_closed s \<Longrightarrow> si_queue s = [] \<Longrightarrow>
    siem_run wire N evs (s\<lparr>si_stopped := True\<rparr>)"

section \<open>Properties\<close>

lemma flush_batch_fields [simp]:
  "si_queue (flush_batch w n s) = si_queue s" "si_closed (flush_batch w n s) = si_closed s" "si_stopped (flush_batch w n s) = si_stopped s"
  by (simp_all add: flush_batch_def split: net.splits)

lemma flush_batch_keeps [simp]:
  "concat (si_cleared (flush_batch w n s)) @ si_batch (flush_batch w n s) = concat (si_cleared s) @ si_batch s"
  by (simp add: flush_batch_def split: net.splits)

lemma flush_batch_keeps_append [simp]:
  "concat (si_cleared (flush_batch w n s)) @ si_batch (flush_batch w n s) @ q = concat (si_cleared s) @ si_batch s @ q"
  using flush_batch_keeps [of w n s] by (metis append_assoc)

lemma siem_stopped_closed: "siem_run w N evs s \<Longrightarrow> si_stopped s \<Longrightarrow> si_closed s"
  by (induction rule: siem_run.induct)
    (auto simp: siem_new_def siem_emit_def siem_tick_def siem_receive_def Let_def split: if_splits)

text \<open>Every event is in a batch that was let go, in the batch, or in the channel: once, in order.\<close>

lemma siem_accounts: "siem_run w N evs s \<Longrightarrow> concat (si_cleared s) @ si_batch s @ si_queue s = evs"
proof (induction rule: siem_run.induct)
  case (emit evs s ev)
  then have "\<not> si_stopped s" using siem_stopped_closed by blast
  then show ?case using emit by (simp add: siem_emit_def)
qed (auto simp: siem_new_def siem_receive_def siem_tick_def Let_def)

text \<open>
  What the server has: only events that were sent; all that was let go, when what is written is taken;
  in order and once, when what fails to be written is never taken either; and without \<open>wire\<close> nothing.
\<close>

definition siem_has :: "siem \<Rightarrow> audit_event set" where
  "siem_has s = set (concat (si_received s))"

lemma siem_has_flush [simp]:
  "siem_has (flush_batch w n s) = siem_has s \<union> (if n \<noteq> Refused \<and> taken n \<and> w then set (si_batch s) else {})"
  by (auto simp: siem_has_def flush_batch_def siem_body_def split: net.splits)

lemma siem_has_simps [simp]:
  "siem_has siem_new = {}" "siem_has (siem_emit ev s) = siem_has s"
  "siem_has (s\<lparr>si_batch := b\<rparr>) = siem_has s" "siem_has (s\<lparr>si_queue := q\<rparr>) = siem_has s"
  "siem_has (s\<lparr>si_closed := x\<rparr>) = siem_has s" "siem_has (s\<lparr>si_stopped := x\<rparr>) = siem_has s"
  by (simp_all add: siem_has_def siem_new_def siem_emit_def)

lemma siem_no_inventions: "siem_run w N evs s \<Longrightarrow> siem_has s \<subseteq> set evs"
proof (induction rule: siem_run.induct)
  case (tick evs s n)
  then show ?case using siem_accounts [OF tick.hyps(1)] by (auto simp: siem_tick_def)
next
  case (receive evs s n ev q)
  then show ?case using siem_accounts [OF receive.hyps(1)] by (auto simp: siem_receive_def Let_def)
qed auto

lemma siem_without_wire: "siem_run False N evs s \<Longrightarrow> siem_has s = {}"
  by (induction rule: siem_run.induct) (simp_all add: siem_tick_def siem_receive_def Let_def)

lemma siem_at_least_once:
  "siem_run True N evs s \<Longrightarrow> Written False \<notin> N \<Longrightarrow> set (concat (si_cleared s)) \<subseteq> siem_has s"
proof (induction rule: siem_run.induct)
  case (tick evs s n)
  then show ?case by (auto simp: siem_tick_def) (auto simp: flush_batch_def siem_body_def split: net.splits if_splits)
next
  case (receive evs s n ev q)
  then show ?case
    by (auto simp: siem_receive_def Let_def) (auto simp: flush_batch_def siem_body_def split: net.splits if_splits)
qed (simp_all add: siem_new_def siem_emit_def)

lemma siem_exactly_once:
  "siem_run True N evs s \<Longrightarrow> N \<subseteq> {Refused, Broken False, Written True} \<Longrightarrow> si_received s = si_cleared s"
proof (induction rule: siem_run.induct)
  case (tick evs s n)
  then have "n \<in> {Refused, Broken False, Written True}" by blast
  with tick show ?case by (auto simp: siem_tick_def flush_batch_def siem_body_def)
next
  case (receive evs s n ev q)
  then have "n \<in> {Refused, Broken False, Written True}" by blast
  with receive show ?case by (auto simp: siem_receive_def Let_def flush_batch_def siem_body_def)
qed (simp_all add: siem_new_def siem_emit_def)

text \<open>While no request can be written, the batch grows with every event.\<close>

lemma siem_batch_unbounded: "\<exists>s. siem_run w {Refused} evs s \<and> length (si_batch s) = length evs \<and> \<not> si_stopped s \<and> \<not> si_closed s \<and> si_queue s = []"
proof (induction evs rule: rev_induct)
  case Nil
  show ?case using siem_run.start [of w "{Refused}"] by (intro exI [of _ siem_new]) (simp add: siem_new_def)
next
  case (snoc ev evs)
  then obtain s where s: "siem_run w {Refused} evs s" "length (si_batch s) = length evs" "\<not> si_stopped s" "\<not> si_closed s"
    "si_queue s = []" by blast
  let ?e = "siem_emit ev s"
  have e: "siem_run w {Refused} (evs @ [ev]) ?e" "\<not> si_stopped ?e" "si_queue ?e = ev # []"
    using siem_run.emit [OF s(1,4)] s by (simp_all add: siem_emit_def)
  let ?r = "siem_receive w Refused ev (?e\<lparr>si_queue := []\<rparr>)"
  have r: "siem_run w {Refused} (evs @ [ev]) ?r" using siem_run.receive [OF e(1,2) _ e(3)] by simp
  have "length (si_batch ?r) = length (evs @ [ev]) \<and> \<not> si_stopped ?r \<and> \<not> si_closed ?r \<and> si_queue ?r = []"
    using s by (simp add: siem_receive_def siem_emit_def Let_def flush_batch_def)
  with r show ?case by blast
qed

text \<open>What a running task holds it can bring to the server: it reads the channel and writes one request.\<close>

lemma siem_drain:
  assumes "siem_run w N evs s" "Written b \<in> N" "\<not> si_stopped s"
  shows "\<exists>s'. siem_run w N evs s' \<and> si_batch s' = [] \<and> si_queue s' = [] \<and> \<not> si_stopped s'
    \<and> siem_has s' = siem_has s \<union> (if b \<and> w then set (si_batch s) \<union> set (si_queue s) else {})"
  using assms
proof (induction "si_queue s" arbitrary: s)
  case Nil
  let ?t = "siem_tick w (Written b) s"
  have r: "siem_run w N evs ?t" using siem_run.tick [OF Nil.prems(1,3,2)] .
  have f: "si_batch ?t = []" "si_queue ?t = []" "\<not> si_stopped ?t"
    using Nil by (auto simp: siem_tick_def flush_batch_def)
  have "siem_has ?t = siem_has s \<union> (if b \<and> w then set (si_batch s) \<union> set (si_queue s) else {})"
    using Nil.hyps by (auto simp: siem_tick_def)
  with r f show ?case by blast
next
  case (Cons ev q)
  let ?r = "siem_receive w (Written b) ev (s\<lparr>si_queue := q\<rparr>)"
  have r: "siem_run w N evs ?r" using siem_run.receive [OF Cons.prems(1,3,2)] Cons.hyps(2) by metis
  have q: "q = si_queue ?r" "\<not> si_stopped ?r" using Cons.prems by (simp_all add: siem_receive_def Let_def)
  have h: "siem_has ?r \<union> (if b \<and> w then set (si_batch ?r) \<union> set q else {})
      = siem_has s \<union> (if b \<and> w then set (si_batch s) \<union> set (si_queue s) else {})"
    using Cons.hyps(2) [symmetric] by (auto simp: siem_receive_def Let_def) (auto simp: flush_batch_def)
  from Cons.hyps(1) [OF q(1) r Cons.prems(2) q(2)] show ?case unfolding q(1) [symmetric] h .
qed

text \<open>
  Two ways to lose an event. A request that was written and that the server does not take is not written
  again. And the loop ends without a last post, so an event that is in the batch when the sink is dropped
  never leaves.
\<close>

lemma siem_written_lost:
  "\<exists>s. siem_run w {Written False} [ev] s \<and> \<not> si_stopped s \<and> si_batch s = [] \<and> si_queue s = [] \<and> siem_has s = {}"
proof -
  have r: "siem_run w {Written False} ([] @ [ev]) (siem_emit ev siem_new)"
    by (rule siem_run.emit [OF siem_run.start]) (simp add: siem_new_def)
  show ?thesis using siem_drain [OF r, of False] by (auto simp: siem_has_def siem_emit_def siem_new_def)
qed

lemma siem_shutdown_loses:
  "\<exists>s. siem_run w {Written True} [ev] s \<and> si_stopped s \<and> si_received s = [] \<and> si_batch s = [ev]"
proof -
  let ?N = "{Written True}"
  let ?s1 = "siem_emit ev siem_new"
  have 1: "siem_run w ?N ([] @ [ev]) ?s1" by (rule siem_run.emit [OF siem_run.start]) (simp add: siem_new_def)
  let ?s2 = "siem_receive w (Written True) ev (?s1\<lparr>si_queue := []\<rparr>)"
  have 2: "siem_run w ?N ([] @ [ev]) ?s2"
    by (rule siem_run.receive [OF 1]) (simp_all add: siem_new_def siem_emit_def)
  have 3: "siem_run w ?N ([] @ [ev]) (?s2\<lparr>si_closed := True\<rparr>)" using siem_run.close [OF 2] .
  have "siem_run w ?N ([] @ [ev]) (?s2\<lparr>si_closed := True, si_stopped := True\<rparr>)"
    using siem_run.stop [OF 3] by (simp add: siem_new_def siem_emit_def siem_receive_def Let_def)
  then show ?thesis
    by (intro exI [of _ "?s2\<lparr>si_closed := True, si_stopped := True\<rparr>"])
      (simp add: siem_new_def siem_emit_def siem_receive_def Let_def)
qed

lemma siem_request_framing:
  "\<exists>h. siem_request u token body = h @ crlf @ crlf @ body \<and> (\<exists>a b. h = a @ ''Content-Length: '' @ dec (length body) @ crlf @ b)"
proof -
  let ?h = "''POST '' @ (url_path u @ (case url_query u of Some q \<Rightarrow> ''?'' @ q | None \<Rightarrow> [])) @ '' HTTP/1.1'' @ crlf @ ''Host: ''
    @ (case url_host u of Some h \<Rightarrow> h | None \<Rightarrow> ''localhost'') @ crlf @ ''Authorization: Bearer '' @ token @ crlf
    @ ''Content-Type: application/json'' @ crlf"
  let ?b = "''X-A1-Provenance: 64796f6c6f'' @ crlf @ ''Connection: close''"
  have "siem_request u token body = (?h @ ''Content-Length: '' @ dec (length body) @ crlf @ ?b) @ crlf @ crlf @ body"
    by (simp only: siem_request_def Let_def append_assoc)
  then show ?thesis by blast
qed

lemma log_emit_total: "\<exists>out'. log_emit json target ev out = Some out' \<and> (\<exists>new. out' = out @ new \<and> length new \<le> 1)"
  by (auto simp: log_emit_def split: option.splits)
end
