(* ===== verification/A1_Async.thy ===== *)
theory A1_Async
  imports A1_Context A1_Siem
begin

text \<open>
  The asynchronous store traits of \<open>src/registry.rs\<close> with their default methods, the adapters that run a
  synchronous store on a blocking task, and the builder of the asynchronous context. The default
  \<open>try_consume_batch\<close> awaits the store between its checks and its marks, so two calls can interleave: they
  are modelled as tasks that take one await at a time.
\<close>

section \<open>Adapters\<close>

definition adapt_revoke :: "string option \<Rightarrow> ('s \<Rightarrow> bytes \<Rightarrow> (storage_error + unit) \<times> 's) \<Rightarrow> 's \<Rightarrow> bytes \<Rightarrow> (storage_error + unit) \<times> 's" where
  "adapt_revoke join rv s fp = (case rv s fp of (r, s') \<Rightarrow> (adapt join r, s'))"

definition adapt_revoke_batch ::
  "string option \<Rightarrow> ('s \<Rightarrow> bytes list \<Rightarrow> (storage_error + unit) \<times> 's) \<Rightarrow> 's \<Rightarrow> bytes list \<Rightarrow> (storage_error + unit) \<times> 's" where
  "adapt_revoke_batch join rv s fps = (case rv s fps of (r, s') \<Rightarrow> (adapt join r, s'))"

definition adapt_check_and_record ::
  "string option \<Rightarrow> ('s \<Rightarrow> 'k \<Rightarrow> u32 \<Rightarrow> u64 \<Rightarrow> (storage_error + bool) \<times> 's) \<Rightarrow> 's \<Rightarrow> 'k \<Rightarrow> u32 \<Rightarrow> u64 \<Rightarrow> (storage_error + bool) \<times> 's" where
  "adapt_check_and_record join chk s key m w = (case chk s key m w of (r, s') \<Rightarrow> (adapt join r, s'))"

definition adapt_try_consume :: "string option \<Rightarrow> ('s \<Rightarrow> bytes \<Rightarrow> (storage_error + bool) \<times> 's) \<Rightarrow> 's \<Rightarrow> bytes \<Rightarrow> (storage_error + bool) \<times> 's" where
  "adapt_try_consume join con s n = (case con s n of (r, s') \<Rightarrow> (adapt join r, s'))"

definition adapt_is_consumed :: "string option \<Rightarrow> ('s \<Rightarrow> bytes \<Rightarrow> storage_error + bool) \<Rightarrow> 's \<Rightarrow> bytes \<Rightarrow> storage_error + bool" where
  "adapt_is_consumed join is_c s n = adapt join (is_c s n)"

definition adapt_mark_consumed :: "string option \<Rightarrow> ('s \<Rightarrow> bytes \<Rightarrow> (storage_error + unit) \<times> 's) \<Rightarrow> 's \<Rightarrow> bytes \<Rightarrow> (storage_error + unit) \<times> 's" where
  "adapt_mark_consumed join mark s n = (case mark s n of (r, s') \<Rightarrow> (adapt join r, s'))"

definition adapt_health :: "string option \<Rightarrow> storage_error + unit \<Rightarrow> storage_error + unit" where
  "adapt_health join h = adapt join h"

definition emit_async :: "'k emitter \<Rightarrow> 'k emitter" where
  "emit_async sink ev k = sink ev k"

text \<open>An adapter whose tasks are joined keeps the contract of the store behind it.\<close>

lemma adapt_revocation_contract:
  assumes "revocation_store is_rev rev_one ok revoked"
  shows "revocation_store (\<lambda>s. adapt_is_revoked (\<lambda>_. None) (is_rev s)) (adapt_revoke None rev_one) ok revoked"
proof -
  have "adapt_revoke None rev_one = rev_one"
    by (intro HOL.ext) (simp add: adapt_revoke_def adapt_def)
  then show ?thesis using assms by (simp add: adapt_joined)
qed

lemma adapt_nonce_contract:
  assumes "nonce_store consume ok used"
  shows "nonce_store (\<lambda>t. adapt_consume None (consume t)) ok used"
  using assms by (simp add: adapt_joined)

text \<open>A task that is not joined reports a transient error, whatever the store did.\<close>

lemma adapt_unjoined:
  "fst (adapt_revoke (Some m) rv s fp) = Inl (storage_transient m)" "snd (adapt_revoke j rv s fp) = snd (rv s fp)"
  "storage_is_transient (storage_transient m)"
  by (simp_all add: adapt_revoke_def adapt_def storage_transient_def storage_is_transient_def split: prod.splits)

section \<open>The default batch under interleaving\<close>

text \<open>
  A call of \<open>try_consume_batch\<close> that is waiting for its store: for the answer about the first of the
  nonces still to be checked, or for the mark of the first of those still to be marked. What the code does
  between two awaits belongs to the turn of the first of them, so the move from the one loop to the other
  and the return take no await of their own, and a batch of no nonces returns at once. Every \<open>?\<close> ends
  the call with the store's error.
\<close>

datatype batch_task =
    Checking "bytes list" "bytes list"
  | Marking "bytes list"
  | Finished "storage_error + bool"

definition to_mark :: "bytes list \<Rightarrow> batch_task" where
  "to_mark ns = (if ns = [] then Finished (Inr True) else Marking ns)"

definition to_check :: "bytes list \<Rightarrow> bytes list \<Rightarrow> batch_task" where
  "to_check ns all = (if ns = [] then to_mark all else Checking ns all)"

definition batch_start :: "bytes list \<Rightarrow> batch_task" where
  "batch_start ns = to_check ns ns"

text \<open>One await: the call of the store that the task waits for, and the code up to the next one.\<close>

fun batch_await ::
  "('s \<Rightarrow> bytes \<Rightarrow> storage_error + bool) \<Rightarrow> ('s \<Rightarrow> bytes \<Rightarrow> (storage_error + unit) \<times> 's) \<Rightarrow> 's \<Rightarrow> batch_task \<Rightarrow> 's \<times> batch_task" where
  "batch_await is_c mark s (Checking (n # ns) all) =
     (s, case is_c s n of Inl e \<Rightarrow> Finished (Inl e)
         | Inr b \<Rightarrow> if b then Finished (Inr False) else to_check ns all)"
| "batch_await is_c mark s (Marking (n # ns)) =
     (case mark s n of (Inl e, s') \<Rightarrow> (s', Finished (Inl e)) | (Inr _, s') \<Rightarrow> (s', to_mark ns))"
| "batch_await is_c mark s a = (s, a)"

text \<open>
  A task among others: before its await number \<open>i\<close> they change the store by \<open>env i\<close>, and the store
  answers that await as \<open>is_c i\<close> and \<open>mark i\<close> say, so that it may fail at one time and not at another.
\<close>

fun batch_among ::
  "(nat \<Rightarrow> 's \<Rightarrow> 's) \<Rightarrow> (nat \<Rightarrow> 's \<Rightarrow> bytes \<Rightarrow> storage_error + bool) \<Rightarrow> (nat \<Rightarrow> 's \<Rightarrow> bytes \<Rightarrow> (storage_error + unit) \<times> 's)
     \<Rightarrow> nat \<Rightarrow> 's \<Rightarrow> batch_task \<Rightarrow> 's \<times> batch_task" where
  "batch_among env is_c mark 0 s a = (s, a)"
| "batch_among env is_c mark (Suc k) s a =
     (case batch_await (is_c 0) (mark 0) (env 0 s) a of
        (s', a') \<Rightarrow> batch_among (\<lambda>i. env (Suc i)) (\<lambda>i. is_c (Suc i)) (\<lambda>i. mark (Suc i)) k s' a')"

definition batch_alone ::
  "('s \<Rightarrow> bytes \<Rightarrow> storage_error + bool) \<Rightarrow> ('s \<Rightarrow> bytes \<Rightarrow> (storage_error + unit) \<times> 's) \<Rightarrow> nat \<Rightarrow> 's \<Rightarrow> batch_task \<Rightarrow> 's \<times> batch_task" where
  "batch_alone is_c mark = batch_among (\<lambda>_ s. s) (\<lambda>_. is_c) (\<lambda>_. mark)"

lemma batch_alone_simps [simp]:
  "batch_alone is_c mark 0 s a = (s, a)"
  "batch_alone is_c mark (Suc k) s a = (case batch_await is_c mark s a of (s', a') \<Rightarrow> batch_alone is_c mark k s' a')"
  by (simp_all add: batch_alone_def)

subsection \<open>It ends\<close>

text \<open>The awaits a task may still take.\<close>

fun awaits_left :: "batch_task \<Rightarrow> nat" where
  "awaits_left (Checking ns all) = length ns + length all"
| "awaits_left (Marking ns) = length ns"
| "awaits_left (Finished r) = 0"

text \<open>A task between its awaits waits for some call.\<close>

fun waiting :: "batch_task \<Rightarrow> bool" where
  "waiting (Checking ns all) \<longleftrightarrow> ns \<noteq> []"
| "waiting (Marking ns) \<longleftrightarrow> ns \<noteq> []"
| "waiting (Finished r) \<longleftrightarrow> True"

lemma awaits_left_to [simp]:
  "awaits_left (to_mark ns) = length ns" "awaits_left (to_check ns all) = length ns + length all"
  "waiting (to_mark ns)" "waiting (to_check ns all)"
  by (simp_all add: to_mark_def to_check_def)

lemma finished_iff: "waiting a \<Longrightarrow> (\<exists>r. a = Finished r) \<longleftrightarrow> awaits_left a = 0"
  by (cases a) auto

lemma batch_await_progress:
  assumes "waiting a" "batch_await is_c mark s a = (s', a')"
  shows "waiting a' \<and> awaits_left a' \<le> awaits_left a - 1"
  using assms by (induction is_c mark s a rule: batch_await.induct) (auto split: sum.splits prod.splits)

lemma batch_among_ends:
  "waiting a \<Longrightarrow> awaits_left a \<le> k \<Longrightarrow> \<exists>r. snd (batch_among env is_c mark k s a) = Finished r"
proof (induction k arbitrary: env is_c mark s a)
  case 0
  then show ?case using finished_iff [of a] by simp
next
  case (Suc k)
  obtain s' a' where 1: "batch_await (is_c 0) (mark 0) (env 0 s) a = (s', a')" by fastforce
  then have "waiting a'" "awaits_left a' \<le> k"
    using batch_await_progress [OF Suc.prems(1) 1] Suc.prems(2) by auto
  from Suc.IH [OF this] show ?case by (simp add: 1)
qed

lemma batch_finished [simp]: "batch_alone is_c mark k s (Finished r) = (s, Finished r)"
  by (induction k) simp_all

subsection \<open>Left alone it is the synchronous default\<close>

lemma batch_alone_marking:
  "length ns \<le> k \<Longrightarrow> batch_alone is_c mark k s (to_mark ns) =
     (case mark_all mark s ns of (r, s') \<Rightarrow> (s', Finished (bindR r (\<lambda>_. Inr True))))"
proof (induction ns arbitrary: k s)
  case (Cons n ns)
  then obtain j where "k = Suc j" "length ns \<le> j" by (cases k) auto
  then show ?case by (simp add: to_mark_def [of "n # ns"] Cons.IH split: prod.splits sum.splits)
qed (simp add: to_mark_def)

lemma batch_alone_checking:
  "length ns + length all \<le> k \<Longrightarrow> batch_alone is_c mark k s (to_check ns all) =
     (case any_consumed is_c s ns of Inl e \<Rightarrow> (s, Finished (Inl e)) | Inr True \<Rightarrow> (s, Finished (Inr False))
      | Inr False \<Rightarrow> (case mark_all mark s all of (r, s') \<Rightarrow> (s', Finished (bindR r (\<lambda>_. Inr True)))))"
proof (induction ns arbitrary: k)
  case Nil
  then show ?case by (simp add: to_check_def batch_alone_marking)
next
  case (Cons n ns)
  then obtain j where "k = Suc j" "length ns + length all \<le> j" by (cases k) auto
  then show ?case by (simp add: to_check_def [of "n # ns"] Cons.IH split: sum.splits)
qed

lemma batch_alone_is_default:
  assumes "default_try_consume_batch is_c mark s ns = (r, s')"
  shows "batch_alone is_c mark (2 * length ns) s (batch_start ns) = (s', Finished r)"
  using assms unfolding batch_start_def default_try_consume_batch_def
  by (subst batch_alone_checking) (auto split: sum.splits prod.splits bool.splits)

subsection \<open>Two of them together\<close>

inductive interleaved ::
  "('s \<Rightarrow> bytes \<Rightarrow> storage_error + bool) \<Rightarrow> ('s \<Rightarrow> bytes \<Rightarrow> (storage_error + unit) \<times> 's)
     \<Rightarrow> 's \<times> batch_task \<times> batch_task \<Rightarrow> 's \<times> batch_task \<times> batch_task \<Rightarrow> bool" for is_c mark where
  stay: "interleaved is_c mark x x"
| left: "interleaved is_c mark x (u, a, b) \<Longrightarrow> batch_await is_c mark u a = (u', a') \<Longrightarrow> interleaved is_c mark x (u', a', b)"
| right: "interleaved is_c mark x (u, a, b) \<Longrightarrow> batch_await is_c mark u b = (u', b') \<Longrightarrow> interleaved is_c mark x (u', a, b')"

text \<open>A task that fails saw one of its nonces in use, and what is marked stays.\<close>

definition task_ok :: "bytes set \<Rightarrow> bytes list \<Rightarrow> batch_task \<Rightarrow> bool" where
  "task_ok u ns a \<longleftrightarrow> (case a of
     Checking rest all \<Rightarrow> all = ns \<and> set rest \<subseteq> set ns
   | Marking rest \<Rightarrow> set rest \<subseteq> set ns \<and> set ns \<subseteq> set rest \<union> u
   | Finished (Inr True) \<Rightarrow> set ns \<subseteq> u
   | Finished (Inr False) \<Rightarrow> set ns \<inter> u \<noteq> {}
   | Finished (Inl e) \<Rightarrow> False)"

lemma task_ok_simps [simp]:
  "task_ok u ns (Checking rest all) \<longleftrightarrow> all = ns \<and> set rest \<subseteq> set ns"
  "task_ok u ns (Marking rest) \<longleftrightarrow> set rest \<subseteq> set ns \<and> set ns \<subseteq> set rest \<union> u"
  "task_ok u ns (Finished (Inr b)) \<longleftrightarrow> (if b then set ns \<subseteq> u else set ns \<inter> u \<noteq> {})"
  "\<not> task_ok u ns (Finished (Inl e))"
  "task_ok u ns (to_mark rest) \<longleftrightarrow> set rest \<subseteq> set ns \<and> set ns \<subseteq> set rest \<union> u"
  by (auto simp: task_ok_def to_mark_def split: bool.splits)

lemma task_ok_to_check: "all = ns \<Longrightarrow> set rest \<subseteq> set ns \<Longrightarrow> task_ok u ns (to_check rest all)"
  by (simp add: to_check_def)

lemma task_ok_mono: "task_ok u ns a \<Longrightarrow> u \<subseteq> u' \<Longrightarrow> task_ok u' ns a"
  by (auto simp: task_ok_def split: batch_task.splits bool.splits sum.splits)

context nonce_basic
begin

lemma batch_await_ok:
  assumes "inv s" "batch_await (is_c t) (mark t) s a = (s', a')" "task_ok (used t s) ns a"
  shows "inv s' \<and> used t s \<subseteq> used t s' \<and> used t s' \<subseteq> used t s \<union> set ns \<and> task_ok (used t s') ns a'"
proof (cases a)
  case (Checking rest all)
  with assms show ?thesis by (cases rest) (auto simp: is_c_spec task_ok_to_check)
next
  case (Marking rest)
  show ?thesis
  proof (cases rest)
    case (Cons n m)
    obtain s1 where "mark t s n = (Inr (), s1)" "inv s1" "used t s1 = insert n (used t s)"
      using mark_spec [OF assms(1)] by blast
    with assms Marking Cons show ?thesis by auto
  qed (use assms Marking in auto)
qed (use assms in auto)

lemma interleaved_inv:
  "interleaved (is_c t) (mark t) x y \<Longrightarrow> inv s0 \<Longrightarrow> x = (s0, batch_start ns, batch_start ms) \<Longrightarrow>
     (case y of (s, a, b) \<Rightarrow> inv s \<and> used t s0 \<subseteq> used t s \<and> used t s \<subseteq> used t s0 \<union> set ns \<union> set ms
        \<and> task_ok (used t s) ns a \<and> task_ok (used t s) ms b)"
proof (induction rule: interleaved.induct)
  case (stay x)
  then show ?case by (auto simp: batch_start_def task_ok_to_check)
next
  case (left x u a b u' a')
  then have i: "inv u" "task_ok (used t u) ns a" "task_ok (used t u) ms b"
    "used t s0 \<subseteq> used t u" "used t u \<subseteq> used t s0 \<union> set ns \<union> set ms" by auto
  from batch_await_ok [OF i(1) left.hyps(2) i(2)] i(3-5) task_ok_mono [of "used t u" ms b] show ?case by auto
next
  case (right x u a b u' b')
  then have i: "inv u" "task_ok (used t u) ns a" "task_ok (used t u) ms b"
    "used t s0 \<subseteq> used t u" "used t u \<subseteq> used t s0 \<union> set ns \<union> set ms" by auto
  from batch_await_ok [OF i(1) right.hyps(2) i(3)] i(2,4,5) task_ok_mono [of "used t u" ns a] show ?case by auto
qed

text \<open>But two tasks may both succeed on the same nonce.\<close>

lemma interleaved_double_spend:
  assumes "inv s" "n \<notin> used t s"
  shows "\<exists>s'. interleaved (is_c t) (mark t) (s, batch_start [n], batch_start [n]) (s', Finished (Inr True), Finished (Inr True))
    \<and> inv s' \<and> used t s' = insert n (used t s)"
proof -
  let ?I = "interleaved (is_c t) (mark t) (s, Checking [n] [n], Checking [n] [n])"
  have c: "batch_await (is_c t) (mark t) s (Checking [n] [n]) = (s, Marking [n])"
    using assms by (simp add: is_c_spec to_check_def to_mark_def)
  have m: "\<exists>v. batch_await (is_c t) (mark t) u (Marking [n]) = (v, Finished (Inr True)) \<and> inv v \<and> used t v = insert n (used t u)"
    if "inv u" for u using mark_spec [OF that, of t n] by (auto simp: to_mark_def)
  from m [OF assms(1)] obtain s1 where s1: "batch_await (is_c t) (mark t) s (Marking [n]) = (s1, Finished (Inr True))"
    "inv s1" "used t s1 = insert n (used t s)" by blast
  from m [OF s1(2)] obtain s2 where s2: "batch_await (is_c t) (mark t) s1 (Marking [n]) = (s2, Finished (Inr True))"
    "inv s2" "used t s2 = insert n (used t s)" using s1(3) by auto
  have "?I (s, Marking [n], Checking [n] [n])" by (rule interleaved.left [OF interleaved.stay c])
  then have "?I (s, Marking [n], Marking [n])" using c by (rule interleaved.right)
  then have "?I (s1, Finished (Inr True), Marking [n])" using s1(1) by (rule interleaved.left)
  then have "?I (s2, Finished (Inr True), Finished (Inr True))" using s2(1) by (rule interleaved.right)
  then show ?thesis using s2 by (auto simp: batch_start_def to_check_def)
qed

end

text \<open>The set of the used nonces is itself such a store.\<close>

definition set_is_consumed :: "u64 \<Rightarrow> bytes set \<Rightarrow> bytes \<Rightarrow> storage_error + bool" where
  "set_is_consumed t u n = Inr (n \<in> u)"

definition set_mark_consumed :: "u64 \<Rightarrow> bytes set \<Rightarrow> bytes \<Rightarrow> (storage_error + unit) \<times> bytes set" where
  "set_mark_consumed t u n = (Inr (), insert n u)"

interpretation set_basic: nonce_basic set_is_consumed set_mark_consumed "\<lambda>_. True" "\<lambda>_ u. u"
  by unfold_locales (auto simp: set_is_consumed_def set_mark_consumed_def)

section \<open>The asynchronous context\<close>

record ('r, 'n) async_context_builder =
  acb_revocation :: "'r option"
  acb_nonces :: "'n option"
  acb_policy :: "policy_set option"
  acb_namespace :: "string option"

definition acb_default :: "('r, 'n) async_context_builder" where
  "acb_default = \<lparr>acb_revocation = None, acb_nonces = None, acb_policy = None, acb_namespace = None\<rparr>"

definition acb_set_revocation :: "'r \<Rightarrow> ('r, 'n) async_context_builder \<Rightarrow> ('r, 'n) async_context_builder" where
  "acb_set_revocation r b = b\<lparr>acb_revocation := Some r\<rparr>"
definition acb_set_nonces :: "'n \<Rightarrow> ('r, 'n) async_context_builder \<Rightarrow> ('r, 'n) async_context_builder" where
  "acb_set_nonces n b = b\<lparr>acb_nonces := Some n\<rparr>"
definition acb_set_policy :: "policy_set \<Rightarrow> ('r, 'n) async_context_builder \<Rightarrow> ('r, 'n) async_context_builder" where
  "acb_set_policy p b = b\<lparr>acb_policy := Some p\<rparr>"
definition acb_set_namespace :: "string \<Rightarrow> ('r, 'n) async_context_builder \<Rightarrow> ('r, 'n) async_context_builder" where
  "acb_set_namespace ns b = b\<lparr>acb_namespace := Some ns\<rparr>"

text \<open>A store that is given is used as it is; the default is an empty in-memory store behind an adapter.\<close>

definition acb_build :: "('r, 'n) async_context_builder \<Rightarrow> a1_context \<times> ('r + memory_revocation_store) \<times> ('n + memory_nonce_store)" where
  "acb_build b = (\<lparr>ctx_policy = acb_policy b, ctx_namespace = acb_namespace b\<rparr>,
     case acb_revocation b of Some r \<Rightarrow> Inl r | None \<Rightarrow> Inr mem_rev_new,
     case acb_nonces b of Some n \<Rightarrow> Inl n | None \<Rightarrow> Inr mem_nonce_new)"

definition actx_health_check :: "storage_error + unit \<Rightarrow> storage_error + unit \<Rightarrow> a1_error + unit" where
  "actx_health_check rev_health nonce_health =
     bindR (map_errR (\<lambda>e. StorageUnhealthy (''revocation: '' @ display_storage_error e)) rev_health) (\<lambda>_.
     map_errR (\<lambda>e. StorageUnhealthy (''nonces: '' @ display_storage_error e)) nonce_health)"

text \<open>The default asynchronous context decides as the default context with the same policy.\<close>

lemma async_default_context:
  assumes "acb_build b = (actx, Inr r, Inr n)" "cb_build \<lparr>cb_revocation = None, cb_nonces = None, cb_policy = acb_policy b,
      cb_namespace = acb_namespace b\<rparr> = (ctx, r', n')"
  shows "r = r' \<and> n = n' \<and> actx_authorize E rnd actx c a i p now now' (adapt_is_revoked (\<lambda>_. None) (mem_is_revoked r))
      (adapt_consume None (mem_try_consume_batch t)) s
    = ctx_authorize E rnd ctx c a i p now now' (mem_is_revoked r') (mem_try_consume_batch t) s"
proof -
  have "ctx = actx" "r = r'" "n = n'" using assms by (auto simp: acb_build_def cb_build_def split: option.splits)
  then show ?thesis by (simp add: actx_authorize_def ctx_authorize_def authorize_async_eq adapt_joined)
qed
end
