(* ===== verification/A1_Vault.thy ===== *)
theory A1_Vault
  imports A1_Json
begin

text \<open>
  The signing backends of \<open>src/identity.rs\<close>: the in-process identity, its shared wrapper, and the signer
  of a HashiCorp Vault transit key. Ed25519, base64, JSON and the HTTP client are parameters; \<open>None\<close> is
  the panic of an \<open>expect\<close>. Zeroization has no counterpart here.
\<close>

section \<open>The in-process identity\<close>

text \<open>\<open>ed_public\<close> is the public key of a seed, \<open>ed_sign\<close> the signature made with it.\<close>

record dalek =
  ed_public :: "bytes \<Rightarrow> bytes"
  ed_sign :: "bytes \<Rightarrow> bytes \<Rightarrow> bytes"

record dyolo_identity =
  signing_key :: bytes

definition identity_generate :: "bytes \<Rightarrow> dyolo_identity" where
  "identity_generate rnd = \<lparr>signing_key = rnd\<rparr>"

definition from_signing_bytes :: "bytes \<Rightarrow> dyolo_identity" where
  "from_signing_bytes b = \<lparr>signing_key = b\<rparr>"

definition to_signing_bytes :: "dyolo_identity \<Rightarrow> bytes" where
  "to_signing_bytes i = signing_key i"

definition identity_verifying_key :: "dalek \<Rightarrow> dyolo_identity \<Rightarrow> bytes" where
  "identity_verifying_key D i = ed_public D (signing_key i)"

definition identity_sign :: "dalek \<Rightarrow> dyolo_identity \<Rightarrow> bytes \<Rightarrow> bytes" where
  "identity_sign D i m = ed_sign D (signing_key i) m"

definition identity_signer :: "dalek \<Rightarrow> dyolo_identity \<Rightarrow> signer" where
  "identity_signer D i = \<lparr>verifying_key = identity_verifying_key D i, sign_message = identity_sign D i\<rparr>"

text \<open>\<open>{:02x}\<close> of the first four bytes of the public key, with an ellipsis.\<close>

definition hex_byte :: "u8 \<Rightarrow> string" where
  "hex_byte b = [nibble (unat b div 16), nibble (unat b mod 16)]"

definition identity_debug :: "dalek \<Rightarrow> dyolo_identity \<Rightarrow> string" where
  "identity_debug D i = ''DyoloIdentity(vk:'' @ concat (map hex_byte (take 4 (identity_verifying_key D i)))
     @ [CHR 0xE2, CHR 0x80, CHR 0xA6] @ '')''"

text \<open>The wrapper, as a signer and as an asynchronous signer, is the identity it holds.\<close>

definition shared_signer :: "dalek \<Rightarrow> dyolo_identity \<Rightarrow> signer" where
  "shared_signer D i = \<lparr>verifying_key = identity_verifying_key D i, sign_message = sign_message (identity_signer D i)\<rparr>"

section \<open>The vault\<close>

type_synonym kms_client = "string \<Rightarrow> (string \<times> string) list \<Rightarrow> string \<Rightarrow> a1_error + bytes"

record vault_codec =
  vc_b64_encode :: "bytes \<Rightarrow> string"
  vc_b64_decode :: "string \<Rightarrow> bytes option"
  vc_json :: "bytes \<Rightarrow> json option"

record vault_signer =
  vault_addr :: string
  vault_token :: string
  vault_key_name :: string
  vault_public_key :: bytes
  vault_client :: kms_client

definition vault_new :: "ext \<Rightarrow> string \<Rightarrow> string \<Rightarrow> string \<Rightarrow> string \<Rightarrow> kms_client \<Rightarrow> a1_error + vault_signer" where
  "vault_new E addr token key_name pk_hex client =
     bindR (ok_or (WireFormatError ''invalid hex'') (hex_dec E pk_hex)) (\<lambda>b.
     if length b \<noteq> 32 then Inl (WireFormatError ''must be 32 bytes'')
     else if \<not> ed_valid_pk E b then Inl (WireFormatError ''invalid ed25519 key'')
     else Inr \<lparr>vault_addr = addr, vault_token = token, vault_key_name = key_name, vault_public_key = b,
               vault_client = client\<rparr>)"

text \<open>The debug text, which leaves out the token; \<open>quote\<close> writes a text as a literal.\<close>

definition vault_debug :: "ext \<Rightarrow> (string \<Rightarrow> string) \<Rightarrow> vault_signer \<Rightarrow> string" where
  "vault_debug E quote V =
     ''VaultSigner { vault_addr: '' @ quote (vault_addr V) @ '', key_name: '' @ quote (vault_key_name V)
       @ '', public_key: '' @ quote (hex_enc E (vault_public_key V)) @ '' }''"

text \<open>\<open>trim_start_matches\<close> takes the pattern away as often as it is there.\<close>

function trim_matches :: "string \<Rightarrow> string \<Rightarrow> string" where
  "trim_matches pat s =
     (if pat = [] \<or> take (length pat) s \<noteq> pat then s else trim_matches pat (drop (length pat) s))"
  by pat_completeness auto

termination
proof (relation "measure (\<lambda>(pat, s). length s)")
  fix pat s :: string
  assume "\<not> (pat = [] \<or> take (length pat) s \<noteq> pat)"
  then have "0 < length pat" "length pat \<le> length s" by (auto dest: arg_cong [where f = length])
  then have "length s - length pat < length s" by linarith
  then show "((pat, drop (length pat) s), pat, s) \<in> measure (\<lambda>(pat, s). length s)" by simp
qed simp

declare trim_matches.simps [simp del]

definition vault_payload :: "vault_codec \<Rightarrow> bytes \<Rightarrow> string" where
  "vault_payload K msg =
     (let q = [CHR 0x22] in ''{'' @ q @ ''input'' @ q @ '': '' @ q @ vc_b64_encode K msg @ q @ '', '' @ q @ ''context'' @ q
       @ '': '' @ q @ ''ZHlvbG9fdjIuOC4w'' @ q @ ''}'')"

definition vault_post :: "vault_codec \<Rightarrow> vault_signer \<Rightarrow> bytes \<Rightarrow> a1_error + bytes" where
  "vault_post K V msg =
     vault_client V (vault_addr V @ ''/v1/transit/sign/'' @ vault_key_name V)
       [(''X-Vault-Token'', vault_token V), (''Content-Type'', ''application/json'')] (vault_payload K msg)"

definition vault_sign_message :: "vault_codec \<Rightarrow> vault_signer \<Rightarrow> bytes \<Rightarrow> bytes option" where
  "vault_sign_message K V msg =
     (case vault_post K V msg of
        Inl _ \<Rightarrow> None
      | Inr resp \<Rightarrow>
          Option.bind (vc_json K resp) (\<lambda>v.
          Option.bind (Option.bind (j_get ''data'' v) (j_get ''signature'')) (\<lambda>sg.
          Option.bind (as_str sg) (\<lambda>t.
          Option.bind (vc_b64_decode K (trim_matches ''vault:v1:'' t)) (\<lambda>b.
          if length b = 64 then Some b else None)))))"

section \<open>Properties\<close>

text \<open>Two vaults that differ in their token only have one debug text.\<close>

lemma vault_debug_token: "vault_debug E quote (V\<lparr>vault_token := t\<rparr>) = vault_debug E quote V"
  by (simp add: vault_debug_def)

lemma seed_roundtrip: "from_signing_bytes (to_signing_bytes i) = i" "to_signing_bytes (from_signing_bytes b) = b"
  by (simp_all add: from_signing_bytes_def to_signing_bytes_def)

text \<open>A key pair that signs what it verifies makes a signer, shared or not.\<close>

lemma identity_signer_ok:
  assumes "\<And>seed m. ed_verify E (ed_public D seed) m (ed_sign D seed m)"
  shows "signer_ok E (identity_signer D i) \<and> shared_signer D i = identity_signer D i"
  using assms by (simp add: signer_ok_def identity_signer_def shared_signer_def identity_verifying_key_def identity_sign_def)

text \<open>The base64 crate decodes what it encoded, and has no colon in its alphabet, one way or the other.\<close>

definition b64_ok :: "vault_codec \<Rightarrow> bool" where
  "b64_ok K \<longleftrightarrow> (\<forall>b. vc_b64_decode K (vc_b64_encode K b) = Some b \<and> CHR '':'' \<notin> set (vc_b64_encode K b))
     \<and> (\<forall>s. CHR '':'' \<in> set s \<longrightarrow> vc_b64_decode K s = None)"

text \<open>
  A transit engine that holds the signer \<open>S\<close> under the key's name and its version \<open>n\<close>, and answers every
  request it can read with the signature of the input.
\<close>

definition transit :: "vault_codec \<Rightarrow> vault_signer \<Rightarrow> nat \<Rightarrow> signer \<Rightarrow> bool" where
  "transit K V n S \<longleftrightarrow> vault_public_key V = verifying_key S \<and> (\<forall>msg. length (sign_message S msg) = 64
     \<and> (\<exists>resp d. vault_post K V msg = Inr resp \<and> vc_json K resp = Some (JObj d)
          \<and> map_of d ''data'' = Some (JObj [(''signature'', JStr (''vault:v'' @ dec n @ '':'' @ vc_b64_encode K (sign_message S msg)))])))"

lemma trim_unchanged: "take (length pat) s \<noteq> pat \<Longrightarrow> trim_matches pat s = s"
  by (subst trim_matches.simps) simp

lemma trim_step: "pat \<noteq> [] \<Longrightarrow> trim_matches pat (pat @ s) = trim_matches pat s"
  by (subst trim_matches.simps) simp

lemma trim_matches_once:
  assumes "CHR '':'' \<notin> set s" shows "trim_matches ''vault:v1:'' (''vault:v1:'' @ s) = s"
proof -
  have "take (length ''vault:v1:'') s \<noteq> ''vault:v1:''"
  proof
    assume a: "take (length ''vault:v1:'') s = ''vault:v1:''"
    have "CHR '':'' \<in> set (take (length ''vault:v1:'') s)" by (simp only: a) simp
    with assms show False by (blast dest: in_set_takeD)
  qed
  then have "trim_matches ''vault:v1:'' s = s" by (rule trim_unchanged)
  then show ?thesis by (simp only: trim_step [OF list.discI [OF refl]])
qed

text \<open>With the first version of a key, the vault signs as the key itself would.\<close>

lemma vault_signs:
  assumes "b64_ok K" "transit K V 1 S"
  shows "vault_sign_message K V msg = Some (sign_message S msg) \<and> vault_public_key V = verifying_key S"
proof -
  obtain resp d where r: "vault_post K V msg = Inr resp" "vc_json K resp = Some (JObj d)"
      "map_of d ''data'' = Some (JObj [(''signature'', JStr (''vault:v'' @ dec 1 @ '':'' @ vc_b64_encode K (sign_message S msg)))])"
      "length (sign_message S msg) = 64" "vault_public_key V = verifying_key S"
    using assms(2) unfolding transit_def by blast
  have "trim_matches ''vault:v1:'' (''vault:v1:'' @ vc_b64_encode K (sign_message S msg)) = vc_b64_encode K (sign_message S msg)"
    using assms(1) by (intro trim_matches_once) (simp add: b64_ok_def)
  moreover have "dec (Suc 0) = ''1''" by (simp add: dec.simps char_of_def bit_iff_odd)
  ultimately show ?thesis using r assms(1) by (simp add: vault_sign_message_def b64_ok_def)
qed

text \<open>So an asynchronous certificate signed by the vault is the one signed in process.\<close>

lemma vault_certificate:
  assumes "b64_ok K" "transit K V 1 S"
  shows "builder_build_async E \<lparr>verifying_key = vault_public_key V, sign_message = (\<lambda>m. the (vault_sign_message K V m))\<rparr> b
    = builder_build_async E S b"
  by (simp add: builder_build_async_def Let_def vault_signs [OF assms])

lemma dec_no_colon: "CHR '':'' \<notin> set (dec n)"
proof (induction n rule: dec.induct)
  case (1 n)
  have d: "CHR '':'' \<noteq> char_of (48 + m)" if "m < 10" for m :: nat
  proof
    assume "CHR '':'' = char_of (48 + m)"
    then have "(of_char CHR '':'' :: nat) = of_char (char_of (48 + m) :: char)" by simp
    with that show False by simp
  qed
  show ?case
  proof (cases "n < 10")
    case True
    then show ?thesis using d [of n] by (subst dec.simps) simp
  next
    case False
    then show ?thesis using 1 d [of "n mod 10"] by (subst dec.simps) simp
  qed
qed

lemma dec_not_one: "n \<noteq> 1 \<Longrightarrow> take 2 (dec n @ '':'' @ s) \<noteq> ''1:''"
proof (cases "n < 10")
  case True
  assume "n \<noteq> 1"
  have "char_of (48 + n) \<noteq> CHR ''1''"
  proof
    assume "char_of (48 + n) = CHR ''1''"
    then have "(of_char (char_of (48 + n) :: char) :: nat) = of_char CHR ''1''" by simp
    with True \<open>n \<noteq> 1\<close> show False by simp
  qed
  moreover have "dec n = [char_of (48 + n)]" using True by (subst dec.simps) simp
  ultimately show ?thesis by simp
next
  case False
  have "dec n = dec (n div 10) @ [char_of (48 + n mod 10)]" using False by (subst dec.simps) simp
  moreover have "dec (n div 10) \<noteq> []" by (subst dec.simps) simp
  ultimately have "2 \<le> length (dec n)" by (cases "dec (n div 10)") auto
  then have "set (take 2 (dec n @ '':'' @ s)) \<subseteq> set (dec n)" by (auto dest: in_set_takeD)
  then have c: "CHR '':'' \<notin> set (take 2 (dec n @ '':'' @ s))" using dec_no_colon [of n] by blast
  show ?thesis
  proof
    assume a: "take 2 (dec n @ '':'' @ s) = ''1:''"
    from c show False unfolding a by simp
  qed
qed

text \<open>
  Once the key is rotated every signature starts with another version, which is not taken away: the
  decoder meets a colon, and the signer panics on every message.
\<close>

lemma vault_rotated_panics:
  assumes "b64_ok K" "transit K V n S" "n \<noteq> 1"
  shows "vault_sign_message K V msg = None"
proof -
  obtain resp d where r: "vault_post K V msg = Inr resp" "vc_json K resp = Some (JObj d)"
      "map_of d ''data'' = Some (JObj [(''signature'', JStr (''vault:v'' @ dec n @ '':'' @ vc_b64_encode K (sign_message S msg)))])"
    using assms(2) unfolding transit_def by blast
  let ?t = "''vault:v'' @ dec n @ '':'' @ vc_b64_encode K (sign_message S msg)"
  have "take (length ''vault:v1:'') (''vault:v'' @ x) \<noteq> ''vault:v1:''" if "take 2 x \<noteq> ''1:''" for x :: string
    using that by (simp add: numeral_2_eq_2)
  then have "take (length ''vault:v1:'') ?t \<noteq> ''vault:v1:''" using dec_not_one [OF assms(3)] by blast
  then have "trim_matches ''vault:v1:'' ?t = ?t" by (rule trim_unchanged)
  then have "vc_b64_decode K (trim_matches ''vault:v1:'' ?t) = None" using assms(1) by (simp add: b64_ok_def)
  with r show ?thesis by (simp add: vault_sign_message_def)
qed

end
