(* ===== verification/A1_Cli.thy ===== *)
theory A1_Cli
  imports A1_GwProbe A1_Mcp
begin

text \<open>
  The command line, \<open>a1-cli/src\<close>: the key and passport commands, which work on files, and the commands
  that call a gateway. A command gives how it ended, the lines it printed and, if it writes, the files;
  \<open>None\<close> is a panic. An error is the chain of its messages, outermost first. The HTTP client, the JSON
  and YAML crates and the texts of foreign errors are the members of \<open>cli\<close>. The entry of the program
  and the other commands are in \<open>A1_CliMain\<close>.
\<close>

section \<open>What the commands work with\<close>

datatype cli_end = Finished_Ok | Failed "string list" | Exited nat

record cli_request =
  cr_method :: string
  cr_url :: string
  cr_headers :: "(string \<times> string) list"
  cr_body :: "json option"

text \<open>\<open>cl_send\<close>: an error, or the status with the text of the body if it could be read.\<close>

record cli =
  cl_os :: os
  cl_codec :: codec
  cl_signer :: "bytes \<Rightarrow> signer"
  cl_send :: "cli_request \<Rightarrow> string + nat \<times> (string + string)"
  cl_status :: "nat \<Rightarrow> string"
  cl_show :: "json \<Rightarrow> string"
  cl_debug :: "json list \<Rightarrow> string"
  cl_yaml :: "string \<Rightarrow> string + (string + json)"
  cl_cert_parse :: "string \<Rightarrow> string + delegation_cert"
  cl_cert_pretty :: "delegation_cert \<Rightarrow> string"
  cl_uint_msg :: "string \<Rightarrow> string"
  cl_hex_msg :: "string \<Rightarrow> string"
  cl_pk_msg :: "bytes \<Rightarrow> string"

type_synonym cli_output = "cli_end \<times> string list"

text \<open>\<open>with_context\<close> puts a message in front of the chain.\<close>

definition ctx_err :: "string \<Rightarrow> string + 'a \<Rightarrow> string list + 'a" where
  "ctx_err msg r = map_errR (\<lambda>e. [msg, e]) r"

definition arrow :: string where "arrow = [CHR 0xE2, CHR 0x86, CHR 0x92]"

section \<open>Keys\<close>

definition keygen_lines :: "string \<Rightarrow> string \<Rightarrow> string list" where
  "keygen_lines sk vk =
     [''signing_key_hex  : '' @ sk, ''verifying_key_hex: '' @ vk, ''provenance_tag   : 64796f6c6f'', [],
      ''Set A1_SIGNING_KEY_HEX='' @ sk @ '' on the gateway.'',
      ''Use verifying_key_hex as the principal_pk when building chains.'']"

definition keygen_run :: "cli \<Rightarrow> ext \<Rightarrow> bytes \<Rightarrow> string option \<Rightarrow> files \<Rightarrow> cli_output \<times> files" where
  "keygen_run C E seed out fs =
     (let sk = hex_enc E seed;
          said = keygen_lines sk (hex_enc E (verifying_key (cl_signer C seed)))
      in case out of
           None \<Rightarrow> ((Finished_Ok, said), fs)
         | Some path \<Rightarrow>
             (case write_file (cl_os C) path sk fs of
                (Inl e, fs') \<Rightarrow> ((Failed [''failed to write key to '' @ path @ '': '' @ e], said), fs')
              | (Inr _, fs') \<Rightarrow> ((Finished_Ok, said @ [''Signing key written to: '' @ path]), fs')))"

definition load_identity :: "cli \<Rightarrow> ext \<Rightarrow> files \<Rightarrow> string \<Rightarrow> string list + signer" where
  "load_identity C E fs path =
     bindR (ctx_err (''reading key from '' @ path) (read_to_string (cl_os C) fs path)) (\<lambda>hex_str.
     bindR (ctx_err ''key file must contain a hex-encoded seed''
              (ok_or (cl_hex_msg C (str_trim hex_str)) (hex_dec E (str_trim hex_str)))) (\<lambda>b.
     if length b \<noteq> 32 then Inl [''key seed must be 32 bytes, got '' @ dec (length b)] else Inr (cl_signer C b)))"

section \<open>Passports\<close>

text \<open>A count with its unit; the product is checked.\<close>

definition ttl_count :: "cli \<Rightarrow> string \<Rightarrow> nat \<Rightarrow> string \<Rightarrow> (string list + nat) option" where
  "ttl_count C msg k part =
     (case parse_uint 64 (str_trim part) of
        None \<Rightarrow> Some (Inl [msg, cl_uint_msg C (str_trim part)])
      | Some n \<Rightarrow> if n * k < 2 ^ 64 then Some (Inr (n * k)) else None)"

definition parse_ttl :: "cli \<Rightarrow> string \<Rightarrow> (string list + nat) option" where
  "parse_ttl C s0 =
     (let s = str_trim s0; q = [CHR 0x27] in
      case strip_last CHR ''d'' s of Some d \<Rightarrow> ttl_count C (''invalid day count in ttl '' @ q @ s @ q) 86400 d
      | None \<Rightarrow> (case strip_last CHR ''h'' s of Some h \<Rightarrow> ttl_count C (''invalid hour count in ttl '' @ q @ s @ q) 3600 h
      | None \<Rightarrow> (case strip_last CHR ''m'' s of Some m \<Rightarrow> ttl_count C (''invalid minute count in ttl '' @ q @ s @ q) 60 m
      | None \<Rightarrow> Some (case parse_uint 64 s of
          None \<Rightarrow> Inl [''ttl must be a number of seconds or use a d/h/m suffix, got '' @ q @ s @ q, cl_uint_msg C s]
        | Some n \<Rightarrow> Inr n))))"

record issue_passport_args =
  ia_namespace :: string
  ia_allow :: string
  ia_ttl :: string
  ia_out :: "string option"
  ia_key :: "string option"

text \<open>The key of a file, or a new one that is written next to the passport.\<close>

definition issue_identity ::
  "cli \<Rightarrow> ext \<Rightarrow> bytes \<Rightarrow> issue_passport_args \<Rightarrow> files \<Rightarrow> (string list + signer \<times> string list) \<times> files" where
  "issue_identity C E seed a fs =
     (case ia_key a of
        Some path \<Rightarrow> (bindR (load_identity C E fs path) (\<lambda>s. Inr (s, [])), fs)
      | None \<Rightarrow>
          (let path = ia_namespace a @ ''-key.hex'' in
           case write_file (cl_os C) path (hex_enc E seed) fs of
             (Inl e, fs') \<Rightarrow> (Inl [''writing key to '' @ path, e], fs')
           | (Inr _, fs') \<Rightarrow> (Inr (cl_signer C seed, [''Generated new key '' @ arrow @ '' '' @ path]), fs')))"

definition passport_issue_run ::
  "cli \<Rightarrow> ext \<Rightarrow> bytes \<Rightarrow> bytes \<Rightarrow> u64 \<Rightarrow> issue_passport_args \<Rightarrow> files \<Rightarrow> (cli_output \<times> files) option" where
  "passport_issue_run C E fresh seed now a fs =
     (case parse_ttl C (ia_ttl a) of
        None \<Rightarrow> None
      | Some (Inl es) \<Rightarrow> Some ((Failed es, []), fs)
      | Some (Inr ttl) \<Rightarrow>
          (case issue_identity C E seed a fs of
             (Inl es, fs1) \<Rightarrow> Some ((Failed es, []), fs1)
           | (Inr (identity, said), fs1) \<Rightarrow>
               (case issue_from_csv E fresh (ia_namespace a) (ia_allow a) (of_nat ttl) identity now of
                  None \<Rightarrow> None
                | Some (Inl e) \<Rightarrow> Some ((Failed [display_error e], said), fs1)
                | Some (Inr p) \<Rightarrow>
                    (let out = set_or (ia_namespace a @ ''-passport.json'') (ia_out a) in
                     case passport_save (cl_os C) E (cl_codec C) p out fs1 of
                       (Inl e, fs2) \<Rightarrow> Some ((Failed [display_error e], said), fs2)
                     | (Inr _, fs2) \<Rightarrow>
                         (let said = said @ [''Passport issued '' @ arrow @ '' '' @ out, ''  Namespace : '' @ pp_namespace p] in
                          case passport_scope_root E p of
                            Inl e \<Rightarrow> Some ((Failed [display_error e], said), fs2)
                          | Inr root \<Rightarrow> Some ((Finished_Ok, said @
                              [''  Scope     : '' @ hex_enc E root, ''  Mask      : '' @ mask_to_hex E (capability_mask p),
                               ''  TTL       : '' @ dec ttl @ ''s'', ''  ProvTag   : 64796f6c6f'']), fs2))))))"

definition load_passport :: "cli \<Rightarrow> ext \<Rightarrow> files \<Rightarrow> string \<Rightarrow> string list + dyolo_passport" where
  "load_passport C E fs path =
     map_errR (\<lambda>e. [''loading passport from '' @ path, display_error e]) (passport_load (cl_os C) E (cl_codec C) fs path)"

definition passport_inspect_run :: "cli \<Rightarrow> ext \<Rightarrow> string \<Rightarrow> files \<Rightarrow> cli_output" where
  "passport_inspect_run C E path fs =
     (case load_passport C E fs path of
        Inl es \<Rightarrow> (Failed es, [])
      | Inr p \<Rightarrow>
          (let said = [''Passport: '' @ path, ''  Namespace        : '' @ pp_namespace p,
                       ''  Capability mask  : '' @ mask_to_hex E (capability_mask p)] in
           case passport_scope_root E p of
             Inl e \<Rightarrow> (Failed [display_error e], said)
           | Inr root \<Rightarrow> (Finished_Ok, said @
               [''  Scope root       : '' @ hex_enc E root,
                ''  Holder public key: '' @ hex_enc E (passport_verifying_key p),
                ''  Cert issued_at   : '' @ dec (unat (issued_at (pp_cert p))),
                ''  Cert expires_at  : '' @ dec (unat (expiration_unix (pp_cert p))),
                ''  ProvTag          : 64796f6c6f''])))"

record sub_passport_args =
  sa_passport :: string
  sa_delegate :: string
  sa_allow :: string
  sa_ttl :: string
  sa_key :: string
  sa_out :: "string option"

definition sub_delegate_key :: "cli \<Rightarrow> ext \<Rightarrow> string \<Rightarrow> string list + bytes" where
  "sub_delegate_key C E h =
     bindR (ctx_err ''delegate key must be hex-encoded'' (ok_or (cl_hex_msg C h) (hex_dec E h))) (\<lambda>b.
     if length b \<noteq> 32 then Inl [''delegate public key must be 32 bytes'']
     else if ed_valid_pk E b then Inr b else Inl [''invalid delegate public key'', cl_pk_msg C b])"

definition passport_sub_run ::
  "cli \<Rightarrow> ext \<Rightarrow> bytes \<Rightarrow> u64 \<Rightarrow> sub_passport_args \<Rightarrow> files \<Rightarrow> (cli_output \<times> files) option" where
  "passport_sub_run C E fresh now a fs =
     (case parse_ttl C (sa_ttl a) of
        None \<Rightarrow> None
      | Some (Inl es) \<Rightarrow> Some ((Failed es, []), fs)
      | Some (Inr ttl) \<Rightarrow>
          (case bindR (load_passport C E fs (sa_passport a)) (\<lambda>p.
                bindR (load_identity C E fs (sa_key a)) (\<lambda>identity.
                bindR (sub_delegate_key C E (sa_delegate a)) (\<lambda>pk. Inr (p, identity, pk)))) of
             Inl es \<Rightarrow> Some ((Failed es, []), fs)
           | Inr (p, identity, pk) \<Rightarrow>
               (case issue_sub E fresh p pk (map str_trim (split_all CHR '','' (sa_allow a))) (of_nat ttl) identity now of
                  None \<Rightarrow> None
                | Some (Inl e) \<Rightarrow> Some ((Failed [display_error e], []), fs)
                | Some (Inr c) \<Rightarrow>
                    (let out = set_or (pp_namespace p @ ''-sub-cert.json'') (sa_out a) in
                     case write_file (cl_os C) out (cl_cert_pretty C c) fs of
                       (Inl e, fs') \<Rightarrow> Some ((Failed [''writing sub-cert to '' @ out, e], []), fs')
                     | (Inr _, fs') \<Rightarrow> Some ((Finished_Ok,
                         [''Sub-cert issued '' @ arrow @ '' '' @ out, ''  Delegate: '' @ sa_delegate a,
                          ''  Scope   : '' @ hex_enc E (scope_root c), ''  TTL     : '' @ dec ttl @ ''s'',
                          ''  ProvTag : 64796f6c6f'']), fs')))))"

section \<open>Certificate files\<close>

fun display_ext_value :: "ext_value \<Rightarrow> string" where
  "display_ext_value (ExtStr s) = s"
| "display_ext_value (ExtU64 n) = dec (unat n)"
| "display_ext_value (ExtStrings v) = ''['' @ join_comma v @ '']''"

definition yes_no :: "bool \<Rightarrow> string" where
  "yes_no b = (if b then ''true'' else ''false'')"

definition decode_run :: "cli \<Rightarrow> ext \<Rightarrow> string \<Rightarrow> files \<Rightarrow> cli_output" where
  "decode_run C E path fs =
     (case bindR (read_to_string (cl_os C) fs path) (cl_cert_parse C) of
        Inl e \<Rightarrow> (Failed [e], [])
      | Inr c \<Rightarrow> (Finished_Ok,
          [''version     : '' @ dec (unat (version c)), ''delegator   : '' @ hex_enc E (delegator_pk c),
           ''delegate    : '' @ hex_enc E (delegate_pk c), ''scope_root  : '' @ hex_enc E (scope_root c),
           ''nonce       : '' @ hex_enc E (nonce c), ''issued_at   : '' @ dec (unat (issued_at c)),
           ''expires_at  : '' @ dec (unat (expiration_unix c)), ''max_depth   : '' @ dec (unat (max_depth c)),
           ''fingerprint : '' @ cert_fingerprint_hex E c, ''sig_valid   : '' @ yes_no (verify_signature E c),
           ''provenance  : 64796f6c6f'']
          @ (if ext_is_empty (extensions c) then []
             else ''extensions  :'' # map (\<lambda>(k, v). ''  '' @ k @ '': '' @ display_ext_value v) (ext_fields (extensions c)))))"

section \<open>Commands of the gateway\<close>

text \<open>A request and the text of its answer.\<close>

definition cli_exchange :: "cli \<Rightarrow> cli_request \<Rightarrow> string + nat \<times> string" where
  "cli_exchange C q = bindR (cl_send C q) (\<lambda>(status, body). bindR body (\<lambda>t. Inr (status, t)))"

definition tag_header :: "(string \<times> string) list" where
  "tag_header = [(''X-A1-Provenance'', ''64796f6c6f'')]"

definition gateway_error :: "cli \<Rightarrow> nat \<Rightarrow> string \<Rightarrow> cli_end" where
  "gateway_error C status t = Failed [''gateway error '' @ cl_status C status @ '': '' @ t]"

text \<open>Indexing a value by a missing name gives null.\<close>

definition j_index :: "string \<Rightarrow> json \<Rightarrow> json" where
  "j_index k v = set_or JNull (j_get k v)"

definition text_or :: "string \<Rightarrow> json \<Rightarrow> string" where
  "text_or d v = set_or d (as_str v)"

record issue_args =
  ic_delegate_pk :: string
  ic_intents :: "string list"
  ic_ttl :: u64
  ic_max_depth :: u8
  ic_extensions :: "string list"
  ic_kms_key_id :: "string option"

fun ext_members :: "string list \<Rightarrow> (string \<times> json) list \<Rightarrow> string + (string \<times> json) list" where
  "ext_members [] m = Inr m"
| "ext_members (e # es) m =
     (case break_at CHR ''='' e of
        (k, Some v) \<Rightarrow> ext_members es (bt_insert k (JStr v) m)
      | (_, None) \<Rightarrow> Inl (''--ext must be key=value, got: '' @ e))"

definition issue_body :: "issue_args \<Rightarrow> (string \<times> json) list \<Rightarrow> json" where
  "issue_body a m =
     JObj [(''delegate_pk_hex'', JStr (ic_delegate_pk a)),
           (''intents'', JArr (map (\<lambda>n. JObj [(''name'', JStr n)]) (ic_intents a))),
           (''ttl_seconds'', JPosInt (ic_ttl a)), (''max_depth'', JPosInt (ucast (ic_max_depth a))),
           (''extensions'', JObj m),
           (''kms_key_id'', case ic_kms_key_id a of Some k \<Rightarrow> JStr k | None \<Rightarrow> JNull)]"

definition issue_run :: "cli \<Rightarrow> string \<Rightarrow> issue_args \<Rightarrow> cli_output" where
  "issue_run C gateway a =
     (case bindR (ext_members (ic_extensions a) []) (\<lambda>m.
           cli_exchange C \<lparr>cr_method = ''POST'', cr_url = gateway @ ''/v1/cert/issue'', cr_headers = tag_header,
             cr_body = Some (issue_body a m)\<rparr>) of
        Inl e \<Rightarrow> (Failed [e], [])
      | Inr (status, t) \<Rightarrow>
          if is_success status
          then (case js_parse (cl_codec C) t of
                  Inl e \<Rightarrow> (Failed [e], [])
                | Inr v \<Rightarrow> (Finished_Ok,
                    [''fingerprint: '' @ text_or ''?'' (j_index ''fingerprint_hex'' v),
                     ''scope_root:  '' @ text_or ''?'' (j_index ''scope_root_hex'' v), [],
                     js_pretty (cl_codec C) (j_index ''cert'' v)]))
          else (gateway_error C status t, []))"

text \<open>A policy is YAML by the name of its file, else JSON, else YAML.\<close>

definition policy_file_value :: "cli \<Rightarrow> string \<Rightarrow> string \<Rightarrow> string + json" where
  "policy_file_value C file t =
     (let e = map_option snd (ext_of_name (snd (split_name file))) in
      if e = Some ''yaml'' \<or> e = Some ''yml''
      then bindR (map_errR (\<lambda>m. ''Invalid YAML policy format: '' @ m) (cl_yaml C t))
             (map_errR (\<lambda>m. ''YAML to JSON conversion failed: '' @ m))
      else (case js_parse (cl_codec C) t of
              Inr v \<Rightarrow> Inr v
            | Inl _ \<Rightarrow> bindR (map_errR (\<lambda>_. ''Policy must be valid JSON or YAML'') (cl_yaml C t))
                        (map_errR (\<lambda>m. ''YAML fallback conversion failed: '' @ m))))"

definition policy_run :: "cli \<Rightarrow> string \<Rightarrow> string \<Rightarrow> files \<Rightarrow> cli_output" where
  "policy_run C gateway file fs =
     (case bindR (read_to_string (cl_os C) fs file) (\<lambda>t.
           bindR (policy_file_value C file t) (\<lambda>doc.
           bindR (ok_or (''Policy must contain a '' @ [CHR 0x27] @ ''certs'' @ [CHR 0x27] @ '' array'')
                    (Option.bind (j_get ''certs'' doc) as_array)) (\<lambda>certs.
           cli_exchange C \<lparr>cr_method = ''POST'', cr_url = gateway @ ''/v1/cert/issue-batch'', cr_headers = [],
             cr_body = Some (JObj [(''requests'', JArr certs)])\<rparr>))) of
        Inl e \<Rightarrow> (Failed [e], [])
      | Inr (status, t) \<Rightarrow>
          if is_success status
          then (case js_parse (cl_codec C) t of
                  Inl e \<Rightarrow> (Failed [e], [])
                | Inr v \<Rightarrow> (Finished_Ok, [''Successfully applied policy.'',
                                          ''Total certs issued: '' @ cl_show C (j_index ''total'' v)]))
          else (gateway_error C status t, []))"

definition revoke_run :: "cli \<Rightarrow> string \<Rightarrow> string \<Rightarrow> cli_output" where
  "revoke_run C gateway fp =
     (case cli_exchange C \<lparr>cr_method = ''POST'', cr_url = gateway @ ''/v1/cert/revoke'', cr_headers = tag_header,
             cr_body = Some (JObj [(''fingerprint_hex'', JStr fp)])\<rparr> of
        Inl e \<Rightarrow> (Failed [e], [])
      | Inr (status, t) \<Rightarrow>
          if is_success status then (Finished_Ok, [''Revoked: '' @ fp, ''Provenance Confirmed: 64796f6c6f''])
          else (gateway_error C status t, []))"

definition revoke_batch_run :: "cli \<Rightarrow> string \<Rightarrow> string list \<Rightarrow> cli_output" where
  "revoke_batch_run C gateway fps =
     (case cli_exchange C \<lparr>cr_method = ''POST'', cr_url = gateway @ ''/v1/cert/revoke-batch'', cr_headers = [],
             cr_body = Some (JObj [(''fingerprints'', JArr (map JStr fps))])\<rparr> of
        Inl e \<Rightarrow> (Failed [e], [])
      | Inr (status, t) \<Rightarrow>
          if is_success status
          then (case js_parse (cl_codec C) t of
                  Inl e \<Rightarrow> (Failed [e], [])
                | Inr v \<Rightarrow> (Finished_Ok, (''Revoked count: '' @ cl_show C (j_index ''revoked_count'' v)) #
                    (case Option.bind (j_get ''failed'' v) as_array of
                       Some (x # xs) \<Rightarrow> [''Failed to revoke: '' @ cl_debug C (x # xs)] | _ \<Rightarrow> [])))
          else (gateway_error C status t, []))"

definition inspect_run :: "cli \<Rightarrow> string \<Rightarrow> string \<Rightarrow> cli_output" where
  "inspect_run C gateway fp =
     (case cli_exchange C \<lparr>cr_method = ''GET'', cr_url = gateway @ ''/v1/cert/'' @ fp, cr_headers = tag_header, cr_body = None\<rparr> of
        Inl e \<Rightarrow> (Failed [e], [])
      | Inr (status, t) \<Rightarrow>
          if is_success status
          then (case js_parse (cl_codec C) t of
                  Inl e \<Rightarrow> (Failed [e], [])
                | Inr v \<Rightarrow> (Finished_Ok,
                    [''fingerprint: '' @ text_or ''?'' (j_index ''fingerprint'' v),
                     ''revoked    : '' @ yes_no (set_or False (as_bool (j_index ''revoked'' v))),
                     ''provenance : 64796f6c6f'']))
          else (gateway_error C status t, []))"

definition verify_run :: "cli \<Rightarrow> string \<Rightarrow> string \<Rightarrow> files \<Rightarrow> cli_output" where
  "verify_run C gateway file fs =
     (case bindR (read_to_string (cl_os C) fs file) (\<lambda>content.
           bindR (js_parse (cl_codec C) content) (\<lambda>token.
           bindR (cli_exchange C \<lparr>cr_method = ''POST'', cr_url = gateway @ ''/v1/token/verify'', cr_headers = tag_header,
             cr_body = Some (JObj [(''token'', token)])\<rparr>) (\<lambda>(status, t).
           bindR (js_parse (cl_codec C) t) (\<lambda>v. Inr (status, v))))) of
        Inl e \<Rightarrow> (Failed [e], [])
      | Inr (status, v) \<Rightarrow>
          if is_success status
          then (Finished_Ok,
             [''valid              : '' @ cl_show C (j_index ''valid'' v),
              ''chain_depth        : '' @ cl_show C (j_index ''chain_depth'' v),
              ''chain_fingerprint  : '' @ text_or ''?'' (j_index ''chain_fingerprint'' v),
              ''verified_at_unix   : '' @ cl_show C (j_index ''verified_at_unix'' v),
              ''provenance_tag     : 64796f6c6f''])
          else (Exited 1, [''INVALID '' @ [CHR 0xE2, CHR 0x80, CHR 0x94] @ '' '' @ text_or ''unknown error'' (j_index ''error'' v)]))"

section \<open>Times to live\<close>

lemma str_trim_plain: "list_all (\<lambda>c. \<not> is_ws c) s \<Longrightarrow> str_trim s = s"
proof -
  assume a: "list_all (\<lambda>c. \<not> is_ws c) s"
  have d: "dropWhile is_ws xs = xs" if "list_all (\<lambda>c. \<not> is_ws c) xs" for xs
    using that by (cases xs) auto
  have "list_all (\<lambda>c. \<not> is_ws c) (rev s)" using a by (simp add: list_all_iff)
  with a show ?thesis by (simp add: str_trim_def d)
qed

lemma dec_digits_plain: "dec_digits acc ds = Some n \<Longrightarrow> list_all (\<lambda>c. \<not> is_ws c) ds"
  by (induction acc ds rule: dec_digits.induct) (auto simp: Let_def is_ws_def split: if_splits)

lemma parse_uint_trim: "parse_uint w s = Some n \<Longrightarrow> str_trim s = s"
  by (rule str_trim_plain)
     (auto simp: parse_uint_def Let_def is_ws_def split: if_splits list.splits option.splits dest!: dec_digits_plain)

lemma ttl_count_times: "times_secs k (parse_uint 64 d) = Some (Some n) \<Longrightarrow> ttl_count C msg k d = Some (Inr n)"
  by (auto simp: times_secs_def ttl_count_def parse_uint_trim split: option.splits if_splits)

text \<open>Every time to live that the gateway accepts, years apart, means the same on the command line.\<close>

lemma parse_ttl_agrees:
  assumes "ttl_str_to_secs s = Some (Some n)" "strip_last CHR ''y'' (str_trim s) = None"
  shows "parse_ttl C s = Some (Inr n)"
  using assms by (auto simp: ttl_str_to_secs_def parse_ttl_def Let_def ttl_count_times split: option.splits)

lemma ttl_count_bound: "ttl_count C msg k d = Some (Inr n) \<Longrightarrow> n < 2 ^ 64"
  by (auto simp: ttl_count_def split: option.splits if_splits)

lemma parse_ttl_bound: "parse_ttl C s = Some (Inr n) \<Longrightarrow> n < 2 ^ 64"
  by (auto simp: parse_ttl_def Let_def split: option.splits dest: ttl_count_bound parse_uint_bound)

section \<open>Keys and passports on disk\<close>

text \<open>The hex crate prints digits and letters only; the certificate text parses back.\<close>

definition hex_plain :: "ext \<Rightarrow> bool" where
  "hex_plain E \<longleftrightarrow> (\<forall>b. list_all (\<lambda>c. \<not> is_ws c) (hex_enc E b))"

definition cert_codec_ok :: "cli \<Rightarrow> bool" where
  "cert_codec_ok C \<longleftrightarrow> (\<forall>c. cl_cert_parse C (cl_cert_pretty C c) = Inr c)"

lemma load_identity_hex:
  assumes "hex_ok E" "hex_plain E" "length seed = 32" "fs path = Some (hex_enc E seed)"
  shows "load_identity C E fs path = Inr (cl_signer C seed)"
  using assms by (simp add: load_identity_def ctx_err_def read_to_string_def hex_ok_def hex_plain_def str_trim_plain
      map_errR_def ok_or_def)

lemma keygen_load:
  assumes "hex_ok E" "hex_plain E" "length seed = 32"
    and "keygen_run C E seed (Some path) fs = ((Finished_Ok, said), fs')"
  shows "load_identity C E fs' path = Inr (cl_signer C seed) \<and> fs' = fs(path \<mapsto> hex_enc E seed)"
proof -
  have "fs' = fs(path \<mapsto> hex_enc E seed)"
    using assms(4) by (auto simp: keygen_run_def Let_def write_file_def split: if_splits)
  with load_identity_hex [OF assms(1-3), of fs' path C] show ?thesis by simp
qed

lemma issue_from_csv_mask: "issue_from_csv E fresh ns csv ttl s now = Some (Inr p) \<Longrightarrow> mask_wf (capability_mask p)"
  unfolding issue_from_csv_def
  using issue_inner_Inr(1) from_capabilities_spec by (auto simp: passport_wf_def)

text \<open>A passport that was issued is on the disk, and so is its key when it was generated.\<close>

lemma passport_issue_run_ok:
  assumes ok: "codec_ok cj (cl_codec C)" "hex_ok E"
    and run: "passport_issue_run C E fresh seed now a fs = Some ((Finished_Ok, said), fs')"
    and key: "ia_key a = None"
  shows "\<exists>p ttl. parse_ttl C (ia_ttl a) = Some (Inr ttl)
    \<and> issue_from_csv E fresh (ia_namespace a) (ia_allow a) (of_nat ttl) (cl_signer C seed) now = Some (Inr p)
    \<and> passport_load (cl_os C) E (cl_codec C) fs' (set_or (ia_namespace a @ ''-passport.json'') (ia_out a)) = Inr p
    \<and> (set_or (ia_namespace a @ ''-passport.json'') (ia_out a) \<noteq> ia_namespace a @ ''-key.hex'' \<longrightarrow>
        fs' (ia_namespace a @ ''-key.hex'') = Some (hex_enc E seed))"
proof -
  let ?key = "ia_namespace a @ ''-key.hex''" and ?out = "set_or (ia_namespace a @ ''-passport.json'') (ia_out a)"
  obtain ttl where ttl: "parse_ttl C (ia_ttl a) = Some (Inr ttl)"
    using run by (auto simp: passport_issue_run_def split: option.splits sum.splits)
  have id: "issue_identity C E seed a fs = (Inr (cl_signer C seed, [''Generated new key '' @ arrow @ '' '' @ ?key]), fs(?key \<mapsto> hex_enc E seed))"
    using run key ttl by (auto simp: passport_issue_run_def issue_identity_def Let_def write_file_def split: if_splits)
  obtain p where p: "issue_from_csv E fresh (ia_namespace a) (ia_allow a) (of_nat ttl) (cl_signer C seed) now = Some (Inr p)"
    using run ttl id by (auto simp: passport_issue_run_def split: option.splits sum.splits)
  have s: "passport_save (cl_os C) E (cl_codec C) p ?out (fs(?key \<mapsto> hex_enc E seed)) = (Inr (), fs')"
    using run ttl id p by (auto simp: passport_issue_run_def Let_def split: sum.splits prod.splits)
  from passport_save_load [OF ok issue_from_csv_mask [OF p] s] ttl p show ?thesis by auto
qed

lemma passport_sub_run_ok:
  assumes run: "passport_sub_run C E fresh now a fs = Some ((Finished_Ok, said), fs')" and cc: "cert_codec_ok C"
  shows "\<exists>p s pk c ttl. parse_ttl C (sa_ttl a) = Some (Inr ttl)
    \<and> passport_load (cl_os C) E (cl_codec C) fs (sa_passport a) = Inr p \<and> load_identity C E fs (sa_key a) = Inr s
    \<and> hex_dec E (sa_delegate a) = Some pk \<and> length pk = 32 \<and> ed_valid_pk E pk
    \<and> issue_sub E fresh p pk (map str_trim (split_all CHR '','' (sa_allow a))) (of_nat ttl) s now = Some (Inr c)
    \<and> bindR (read_to_string (cl_os C) fs' (set_or (pp_namespace p @ ''-sub-cert.json'') (sa_out a))) (cl_cert_parse C) = Inr c"
proof -
  obtain ttl where ttl: "parse_ttl C (sa_ttl a) = Some (Inr ttl)"
    using run by (auto simp: passport_sub_run_def split: option.splits sum.splits)
  let ?args = "bindR (load_passport C E fs (sa_passport a)) (\<lambda>p.
    bindR (load_identity C E fs (sa_key a)) (\<lambda>identity.
    bindR (sub_delegate_key C E (sa_delegate a)) (\<lambda>pk. Inr (p, identity, pk))))"
  obtain p s pk where x: "?args = Inr (p, s, pk)"
    using run ttl by (cases ?args) (auto simp: passport_sub_run_def)
  then have l: "passport_load (cl_os C) E (cl_codec C) fs (sa_passport a) = Inr p" "load_identity C E fs (sa_key a) = Inr s"
    and d: "sub_delegate_key C E (sa_delegate a) = Inr pk"
    by (auto simp: result_simps load_passport_def)
  have k: "hex_dec E (sa_delegate a) = Some pk" "length pk = 32" "ed_valid_pk E pk"
    using d by (auto simp: sub_delegate_key_def ctx_err_def result_simps ok_or_def split: if_splits option.splits)
  let ?caps = "map str_trim (split_all CHR '','' (sa_allow a))"
  obtain c where c: "issue_sub E fresh p pk ?caps (of_nat ttl) s now = Some (Inr c)"
    using run ttl x by (auto simp: passport_sub_run_def split: option.splits sum.splits)
  have "fs' = fs(set_or (pp_namespace p @ ''-sub-cert.json'') (sa_out a) \<mapsto> cl_cert_pretty C c)"
    using run ttl x c by (auto simp: passport_sub_run_def Let_def write_file_def split: if_splits)
  with cc ttl l k c show ?thesis by (auto simp: cert_codec_ok_def read_to_string_def ok_or_def)
qed

text \<open>
  From the two commands to a chain that verifies: issue a passport with a new key, delegate one of its
  capabilities from the files, and the certificate in the file authorizes the delegate for it.
\<close>

lemma issue_then_sub_valid:
  assumes ok: "codec_ok cj (cl_codec C)" "hex_ok E" "hex_plain E" "cert_codec_ok C" "length seed = 32"
      "signer_ok E (cl_signer C seed)"
    and issue: "passport_issue_run C E f1 seed now0 a fs = Some ((Finished_Ok, said), fs1)" "ia_key a = None"
    and sub: "passport_sub_run C E f2 now1 b fs1 = Some ((Finished_Ok, said'), fs2)"
    and paths: "sa_passport b = set_or (ia_namespace a @ ''-passport.json'') (ia_out a)" "sa_key b = ia_namespace a @ ''-key.hex''"
      "sa_passport b \<noteq> sa_key b"
    and cap: "map str_trim (split_all CHR '','' (sa_allow b)) = [cap]"
  shows "\<exists>p ch c agent ttl. passport_load (cl_os C) E (cl_codec C) fs1 (sa_passport b) = Inr p
    \<and> passport_new_chain p = Inr ch \<and> hex_dec E (sa_delegate b) = Some agent \<and> parse_ttl C (sa_ttl b) = Some (Inr ttl)
    \<and> bindR (read_to_string (cl_os C) fs2 (set_or (ia_namespace a @ ''-sub-cert.json'') (sa_out b))) (cl_cert_parse C) = Inr c
    \<and> (\<forall>now. now1 \<le> sat_add now 15 \<longrightarrow> sat_sub now 15 \<le> sat_add now1 (of_nat ttl) \<longrightarrow>
         chain_valid E agent (cap_hash E cap) proof_default now 15 (chain_push c ch))"
proof -
  obtain p ttl0 where p: "issue_from_csv E f1 (ia_namespace a) (ia_allow a) (of_nat ttl0) (cl_signer C seed) now0 = Some (Inr p)"
      "passport_load (cl_os C) E (cl_codec C) fs1 (sa_passport b) = Inr p" "fs1 (sa_key b) = Some (hex_enc E seed)"
    using passport_issue_run_ok [OF ok(1,2) issue] paths by metis
  note inner = p(1) [unfolded issue_from_csv_def]
  have id: "load_identity C E fs1 (sa_key b) = Inr (cl_signer C seed)"
    by (rule load_identity_hex [OF ok(2) ok(3) ok(5), where fs = fs1 and path = "sa_key b", OF p(3)])
  obtain pk c ttl where c: "parse_ttl C (sa_ttl b) = Some (Inr ttl)" "hex_dec E (sa_delegate b) = Some pk"
      "issue_sub E f2 p pk [cap] (of_nat ttl) (cl_signer C seed) now1 = Some (Inr c)"
      "bindR (read_to_string (cl_os C) fs2 (set_or (pp_namespace p @ ''-sub-cert.json'') (sa_out b))) (cl_cert_parse C) = Inr c"
    using passport_sub_run_ok [OF sub ok(4)] p(2) id cap by auto
  obtain ch where ch: "passport_new_chain p = Inr ch" by (simp add: passport_new_chain_def)
  have "pp_namespace p = ia_namespace a" by (rule issue_inner_Inr(3) [OF inner])
  with passport_cycle_valid [OF inner ok(6) c(3) ch] p(2) c ch show ?thesis by metis
qed

text \<open>
  The key is not compared with the passport: with another key the command reports success as well, and
  writes a certificate that no chain of the passport accepts.
\<close>

lemma sub_with_other_key:
  assumes run: "passport_sub_run C E fresh now a fs = Some ((Finished_Ok, said), fs')" and cc: "cert_codec_ok C"
    and l: "passport_load (cl_os C) E (cl_codec C) fs (sa_passport a) = Inr p" "load_identity C E fs (sa_key a) = Inr s"
    and wf: "passport_wf E p" and other: "verifying_key s \<noteq> passport_verifying_key p" and ch: "passport_new_chain p = Inr ch"
  shows "\<exists>c. bindR (read_to_string (cl_os C) fs' (set_or (pp_namespace p @ ''-sub-cert.json'') (sa_out a))) (cl_cert_parse C) = Inr c
    \<and> (\<forall>agent i pf t drift. \<not> chain_valid E agent i pf t drift (chain_push c ch))"
proof -
  obtain pk c ttl caps where c: "issue_sub E fresh p pk caps (of_nat ttl) s now = Some (Inr c)"
      "bindR (read_to_string (cl_os C) fs' (set_or (pp_namespace p @ ''-sub-cert.json'') (sa_out a))) (cl_cert_parse C) = Inr c"
    using passport_sub_run_ok [OF run cc] l by auto
  have "delegator_pk c \<noteq> delegator_pk (pp_cert p)"
    using issue_sub_Inr(6) [OF wf c(1)] other by (simp add: passport_verifying_key_def)
  then have "\<not> linked (principal_pk (chain_push c ch)) (certs (chain_push c ch))"
    using ch by (auto simp: passport_new_chain_def chain_new_def chain_push_def)
  with c(2) show ?thesis by (auto simp: chain_valid_def)
qed

section \<open>Against a gateway with a secret\<close>

text \<open>
  The command line has no option for the secret and sends no \<open>Authorization\<close> header, so its two
  administrative commands fail whenever the client delivers them to a gateway that has one.
\<close>

definition delivers :: "cli \<Rightarrow> string \<Rightarrow> ('l \<Rightarrow> 'i \<Rightarrow> bool \<times> 'l) \<Rightarrow> 'l \<Rightarrow> 'i \<Rightarrow> (cli_request \<Rightarrow> (string + 'b) response) \<Rightarrow> string \<Rightarrow> string list \<Rightarrow> bool" where
  "delivers C sec chk l ip run url path \<longleftrightarrow> (\<forall>q. cr_url q = url \<longrightarrow>
     (\<exists>t. cl_send C q = Inr (fst (fst (fst (serve (Some sec) chk l ip (cr_method q) path
        (map_of (cr_headers q) ''Authorization'') (run q)))), Inr t)))"

lemma delivered_without_header:
  assumes "delivers C sec chk l ip run (cr_url q) path" "has_route admin_routes (cr_method q) path"
    and "map_of (cr_headers q) ''Authorization'' = None"
  shows "\<exists>status t. cli_exchange C q = Inr (status, t) \<and> status \<in> {401, 429}"
proof -
  have "None \<noteq> Some (''Bearer '' @ sec)" by simp
  from serve_admin [OF assms(2) this, of chk l ip "run q"] assms(1,3) show ?thesis
    by (auto simp: delivers_def cli_exchange_def)
qed

lemma issue_run_unauthorized:
  assumes "delivers C sec chk l ip run (gateway @ ''/v1/cert/issue'') [''v1'', ''cert'', ''issue'']"
  shows "\<exists>e. issue_run C gateway a = (Failed [e], [])"
proof (cases "ext_members (ic_extensions a) []")
  case (Inl e)
  then show ?thesis by (simp add: issue_run_def)
next
  case (Inr m)
  let ?q = "\<lparr>cr_method = ''POST'', cr_url = gateway @ ''/v1/cert/issue'', cr_headers = tag_header, cr_body = Some (issue_body a m)\<rparr>"
  have "has_route admin_routes (cr_method ?q) [''v1'', ''cert'', ''issue'']"
    by (simp add: route_simps)
  then obtain status t where "cli_exchange C ?q = Inr (status, t)" "status \<in> {401, 429}"
    using delivered_without_header [of C sec chk l ip run ?q "[''v1'', ''cert'', ''issue'']"] assms by (auto simp: tag_header_def)
  then show ?thesis using Inr by (auto simp: issue_run_def is_success_def gateway_error_def)
qed

lemma bindR_assoc: "bindR (bindR m f) g = bindR m (\<lambda>x. bindR (f x) g)"
  by (cases m) simp_all

lemma policy_run_unauthorized:
  assumes "delivers C sec chk l ip run (gateway @ ''/v1/cert/issue-batch'') [''v1'', ''cert'', ''issue-batch'']"
  shows "\<exists>e. policy_run C gateway file fs = (Failed [e], [])"
proof -
  let ?certs = "bindR (read_to_string (cl_os C) fs file) (\<lambda>t. bindR (policy_file_value C file t) (\<lambda>doc.
    ok_or (''Policy must contain a '' @ [CHR 0x27] @ ''certs'' @ [CHR 0x27] @ '' array'')
      (Option.bind (j_get ''certs'' doc) as_array)))"
  let ?q = "\<lambda>certs. \<lparr>cr_method = ''POST'', cr_url = gateway @ ''/v1/cert/issue-batch'', cr_headers = [],
    cr_body = Some (JObj [(''requests'', JArr certs)])\<rparr>"
  have run: "policy_run C gateway file fs = (case bindR ?certs (\<lambda>certs. cli_exchange C (?q certs)) of
      Inl e \<Rightarrow> (Failed [e], [])
    | Inr (status, t) \<Rightarrow>
        if is_success status
        then (case js_parse (cl_codec C) t of
                Inl e \<Rightarrow> (Failed [e], [])
              | Inr v \<Rightarrow> (Finished_Ok, [''Successfully applied policy.'',
                                        ''Total certs issued: '' @ cl_show C (j_index ''total'' v)]))
        else (gateway_error C status t, []))"
    by (simp add: policy_run_def bindR_assoc)
  show ?thesis
  proof (cases ?certs)
    case (Inl e)
    then show ?thesis unfolding run by simp
  next
    case (Inr certs)
    have "has_route admin_routes (cr_method (?q certs)) [''v1'', ''cert'', ''issue-batch'']"
      by (simp add: route_simps)
    then obtain status t where "cli_exchange C (?q certs) = Inr (status, t)" "status \<in> {401, 429}"
      using delivered_without_header [of C sec chk l ip run "?q certs" "[''v1'', ''cert'', ''issue-batch'']"] assms by auto
    then show ?thesis unfolding run Inr by (auto simp: is_success_def gateway_error_def)
  qed
qed

end
