(* ===== verification/A1_CliMain.thy ===== *)
theory A1_CliMain
  imports A1_Cli A1_PgStore
begin

text \<open>
  The entry of the command line, \<open>a1-cli/src/main.rs\<close>, with the dispatch of \<open>passport.rs\<close>, the defaults
  the argument structures declare, \<open>completion.rs\<close> and \<open>migrate.rs\<close> with the script of \<open>a1-pg\<close>. Reading
  the arguments, printing completions and the PostgreSQL driver are parameters. The lemmas: which
  commands write which files, which call the gateway, the exit code, and that the migration is
  refused by a driver that prepares its statements.
\<close>

section \<open>The migration\<close>

definition MIGRATION_DDL :: string where
  "MIGRATION_DDL = nl @
     ''CREATE TABLE IF NOT EXISTS a1_revocations ('' @ nl @
     ''    tenant_id   VARCHAR NOT NULL DEFAULT '' @ [CHR 0x27, CHR 0x27] @ '','' @ nl @
     ''    fingerprint BYTEA NOT NULL,'' @ nl @
     ''    revoked_at  TIMESTAMPTZ NOT NULL DEFAULT NOW(),'' @ nl @
     ''    prov_chain  VARCHAR NOT NULL DEFAULT '' @ [CHR 0x27] @ ''64796f6c6f'' @ [CHR 0x27] @ '','' @ nl @
     ''    PRIMARY KEY (tenant_id, fingerprint)'' @ nl @
     '');'' @ nl @
     ''CREATE INDEX IF NOT EXISTS idx_a1_revocations_revoked_at ON a1_revocations(revoked_at);'' @ nl @
     nl @
     ''CREATE TABLE IF NOT EXISTS a1_nonces ('' @ nl @
     ''    tenant_id   VARCHAR NOT NULL DEFAULT '' @ [CHR 0x27, CHR 0x27] @ '','' @ nl @
     ''    nonce       BYTEA NOT NULL,'' @ nl @
     ''    consumed_at TIMESTAMPTZ NOT NULL DEFAULT NOW(),'' @ nl @
     ''    prov_chain  VARCHAR NOT NULL DEFAULT '' @ [CHR 0x27] @ ''64796f6c6f'' @ [CHR 0x27] @ '','' @ nl @
     ''    PRIMARY KEY (tenant_id, nonce)'' @ nl @
     '');'' @ nl @
     ''CREATE INDEX IF NOT EXISTS idx_a1_nonces_consumed_at ON a1_nonces(consumed_at);'' @ nl"

record migrate_args =
  ma_database_url :: "string option"
  ma_print :: bool

text \<open>\<open>connect\<close> gives an error, or what executing a text on the pool gives: an error or nothing.\<close>

definition run_migration :: "(string \<Rightarrow> string option) \<Rightarrow> string option" where
  "run_migration execute = execute MIGRATION_DDL"

definition migrate_run :: "(string \<Rightarrow> string + (string \<Rightarrow> string option)) \<Rightarrow> migrate_args \<Rightarrow> cli_output" where
  "migrate_run connect a =
     (if ma_print a then (Finished_Ok, [str_trim MIGRATION_DDL])
      else case ma_database_url a of
        None \<Rightarrow> (Failed [''Provide --database-url or set DATABASE_URL.'' @ nl @
                          ''Use --print to emit the DDL for manual application.''], [])
      | Some url \<Rightarrow>
          (case connect url of
             Inl e \<Rightarrow> (Failed [e], [])
           | Inr execute \<Rightarrow>
               (case run_migration execute of
                  Some e \<Rightarrow> (Failed [e], [])
                | None \<Rightarrow> (Finished_Ok, [''a1: migration applied successfully.'']))))"

section \<open>Commands\<close>

datatype passport_command =
    PassportIssue issue_passport_args
  | PassportInspect string
  | PassportSub sub_passport_args

datatype cli_command =
    Keygen "string option"
  | Issue issue_args
  | Policy string
  | Revoke string
  | RevokeBatch "string list"
  | Inspect string
  | Verify string
  | Decode string
  | Completion string
  | Migrate migrate_args
  | Passport passport_command

text \<open>The gateway: the flag, else the variable, else the default.\<close>

definition gateway_of :: "environment \<Rightarrow> string option \<Rightarrow> string" where
  "gateway_of env flag =
     (case flag of Some g \<Rightarrow> g
      | None \<Rightarrow> (case env ''A1_GATEWAY_URL'' of Some g \<Rightarrow> g | None \<Rightarrow> ''http://localhost:8080''))"

definition database_url_of :: "environment \<Rightarrow> string option \<Rightarrow> string option" where
  "database_url_of env flag = (case flag of Some u \<Rightarrow> Some u | None \<Rightarrow> env ''DATABASE_URL'')"

definition issue_args_of :: "string \<Rightarrow> string list \<Rightarrow> u64 option \<Rightarrow> u8 option \<Rightarrow> string list \<Rightarrow> string option \<Rightarrow> issue_args" where
  "issue_args_of pk intents ttl depth_flag exts kms =
     \<lparr>ic_delegate_pk = pk, ic_intents = intents, ic_ttl = set_or 3600 ttl, ic_max_depth = set_or 16 depth_flag,
      ic_extensions = exts, ic_kms_key_id = kms\<rparr>"

definition issue_passport_args_of ::
  "string \<Rightarrow> string \<Rightarrow> string option \<Rightarrow> string option \<Rightarrow> string option \<Rightarrow> issue_passport_args" where
  "issue_passport_args_of ns allow ttl out key =
     \<lparr>ia_namespace = ns, ia_allow = allow, ia_ttl = set_or ''30d'' ttl, ia_out = out, ia_key = key\<rparr>"

definition sub_passport_args_of ::
  "string \<Rightarrow> string \<Rightarrow> string \<Rightarrow> string option \<Rightarrow> string \<Rightarrow> string option \<Rightarrow> sub_passport_args" where
  "sub_passport_args_of p delegate allow ttl key out =
     \<lparr>sa_passport = p, sa_delegate = delegate, sa_allow = allow, sa_ttl = set_or ''1h'' ttl, sa_key = key, sa_out = out\<rparr>"

text \<open>
  What a run of the program finds: its client and files as in \<open>cli\<close>, the random bytes for a certificate
  and for a key, the clock, the completions of a shell and the database.
\<close>

record cli_world =
  cw_cli :: cli
  cw_ext :: ext
  cw_fresh :: bytes
  cw_seed :: bytes
  cw_now :: u64
  cw_completions :: "string \<Rightarrow> string list"
  cw_connect :: "string \<Rightarrow> string + (string \<Rightarrow> string option)"

definition completion_run :: "cli_world \<Rightarrow> string \<Rightarrow> cli_output" where
  "completion_run W shell = (Finished_Ok, cw_completions W shell)"

definition passport_run :: "cli_world \<Rightarrow> passport_command \<Rightarrow> files \<Rightarrow> (cli_output \<times> files) option" where
  "passport_run W pc fs =
     (case pc of
        PassportIssue a \<Rightarrow> passport_issue_run (cw_cli W) (cw_ext W) (cw_fresh W) (cw_seed W) (cw_now W) a fs
      | PassportInspect path \<Rightarrow> Some (passport_inspect_run (cw_cli W) (cw_ext W) path fs, fs)
      | PassportSub a \<Rightarrow> passport_sub_run (cw_cli W) (cw_ext W) (cw_fresh W) (cw_now W) a fs)"

definition cli_main :: "cli_world \<Rightarrow> string \<Rightarrow> cli_command \<Rightarrow> files \<Rightarrow> (cli_output \<times> files) option" where
  "cli_main W gateway cmd fs =
     (let C = cw_cli W; E = cw_ext W in
      case cmd of
        Keygen out \<Rightarrow> Some (keygen_run C E (cw_seed W) out fs)
      | Issue a \<Rightarrow> Some (issue_run C gateway a, fs)
      | Policy file \<Rightarrow> Some (policy_run C gateway file fs, fs)
      | Revoke fp \<Rightarrow> Some (revoke_run C gateway fp, fs)
      | RevokeBatch fps \<Rightarrow> Some (revoke_batch_run C gateway fps, fs)
      | Inspect fp \<Rightarrow> Some (inspect_run C gateway fp, fs)
      | Verify file \<Rightarrow> Some (verify_run C gateway file fs, fs)
      | Decode file \<Rightarrow> Some (decode_run C E file fs, fs)
      | Completion shell \<Rightarrow> Some (completion_run W shell, fs)
      | Migrate a \<Rightarrow> Some (migrate_run (cw_connect W) a, fs)
      | Passport pc \<Rightarrow> passport_run W pc fs)"

text \<open>What the process returns: an error of \<open>main\<close> is 1, a panic 101.\<close>

definition exit_code :: "(cli_output \<times> files) option \<Rightarrow> nat" where
  "exit_code r =
     (case r of
        None \<Rightarrow> 101
      | Some ((Finished_Ok, _), _) \<Rightarrow> 0
      | Some ((Failed _, _), _) \<Rightarrow> 1
      | Some ((Exited n, _), _) \<Rightarrow> n)"

section \<open>What a command writes\<close>

text \<open>The files a command may write, given the files it starts from.\<close>

definition written_paths :: "cli_world \<Rightarrow> cli_command \<Rightarrow> files \<Rightarrow> string set" where
  "written_paths W cmd fs =
     (case cmd of
        Keygen out \<Rightarrow> set_option out
      | Passport (PassportIssue a) \<Rightarrow>
          (if ia_key a = None then {ia_namespace a @ ''-key.hex''} else {})
            \<union> {set_or (ia_namespace a @ ''-passport.json'') (ia_out a)}
      | Passport (PassportSub a) \<Rightarrow>
          {set_or (pp_namespace p @ ''-sub-cert.json'') (sa_out a) |p.
             passport_load (cl_os (cw_cli W)) (cw_ext W) (cl_codec (cw_cli W)) fs (sa_passport a) = Inr p}
      | _ \<Rightarrow> {})"

lemma write_file_frame: "write_file S p t fs = (r, fs') \<Longrightarrow> fs' x \<noteq> fs x \<Longrightarrow> x = p"
  by (auto simp: write_file_def split: if_splits)

lemma keygen_frame: "keygen_run C E seed out fs = (r, fs') \<Longrightarrow> fs' x \<noteq> fs x \<Longrightarrow> out = Some x"
  by (auto simp: keygen_run_def Let_def split: option.splits prod.splits sum.splits dest: write_file_frame)

lemma issue_identity_frame:
  "issue_identity C E seed a fs = (r, fs') \<Longrightarrow> fs' x \<noteq> fs x \<Longrightarrow> ia_key a = None \<and> x = ia_namespace a @ ''-key.hex''"
  by (auto simp: issue_identity_def Let_def split: option.splits prod.splits sum.splits dest: write_file_frame)

lemma passport_save_frame: "passport_save S E C p path fs = (r, fs') \<Longrightarrow> fs' x \<noteq> fs x \<Longrightarrow> x = path"
  unfolding passport_save_def by (auto split: prod.splits sum.splits dest: write_file_frame)

lemma passport_issue_frame:
  assumes "passport_issue_run C E fresh seed now a fs = Some (r, fs')" "fs' x \<noteq> fs x"
  shows "ia_key a = None \<and> x = ia_namespace a @ ''-key.hex'' \<or> x = set_or (ia_namespace a @ ''-passport.json'') (ia_out a)"
proof -
  obtain i fs1 where i: "issue_identity C E seed a fs = (i, fs1)" by (cases "issue_identity C E seed a fs")
  have "fs' = fs \<or> fs' = fs1 \<or> (\<exists>p r'. passport_save (cl_os C) E (cl_codec C) p (set_or (ia_namespace a @ ''-passport.json'') (ia_out a)) fs1 = (r', fs'))"
    using assms(1) i by (auto simp: passport_issue_run_def Let_def split: option.splits sum.splits prod.splits)
  then consider "fs' = fs" | "fs' = fs1"
    | p r' where "passport_save (cl_os C) E (cl_codec C) p (set_or (ia_namespace a @ ''-passport.json'') (ia_out a)) fs1 = (r', fs')"
    by blast
  then show ?thesis
  proof cases
    case (3 p r')
    then show ?thesis using passport_save_frame [OF 3] issue_identity_frame [OF i] assms(2) by metis
  qed (use assms(2) issue_identity_frame [OF i] in auto)
qed

lemma passport_sub_frame:
  assumes "passport_sub_run C E fresh now a fs = Some (r, fs')" "fs' x \<noteq> fs x"
  shows "\<exists>p. passport_load (cl_os C) E (cl_codec C) fs (sa_passport a) = Inr p
    \<and> x = set_or (pp_namespace p @ ''-sub-cert.json'') (sa_out a)"
proof -
  obtain ttl where ttl: "parse_ttl C (sa_ttl a) = Some (Inr ttl)"
    using assms by (auto simp: passport_sub_run_def split: option.splits sum.splits)
  let ?args = "bindR (load_passport C E fs (sa_passport a)) (\<lambda>p.
    bindR (load_identity C E fs (sa_key a)) (\<lambda>identity.
    bindR (sub_delegate_key C E (sa_delegate a)) (\<lambda>pk. Inr (p, identity, pk))))"
  obtain p s pk where x: "?args = Inr (p, s, pk)"
    using assms ttl by (cases ?args) (auto simp: passport_sub_run_def)
  then have l: "passport_load (cl_os C) E (cl_codec C) fs (sa_passport a) = Inr p"
    by (auto simp: result_simps load_passport_def)
  let ?out = "set_or (pp_namespace p @ ''-sub-cert.json'') (sa_out a)"
  have "fs' = fs \<or> (\<exists>t q. write_file (cl_os C) ?out t fs = (q, fs'))"
    using assms(1) ttl x by (auto simp: passport_sub_run_def Let_def split: option.splits sum.splits prod.splits)
  with assms(2) have "x = ?out" by (auto dest: write_file_frame)
  with l show ?thesis by blast
qed

text \<open>No command touches a file but the ones named for it; a command of the gateway touches none.\<close>

lemma cli_main_frame:
  assumes "cli_main W gateway cmd fs = Some (r, fs')" "fs' x \<noteq> fs x"
  shows "x \<in> written_paths W cmd fs"
proof (cases cmd)
  case (Keygen out)
  then show ?thesis
    using assms keygen_frame [of "cw_cli W" "cw_ext W" "cw_seed W" out fs r fs' x]
    by (simp add: cli_main_def written_paths_def Let_def)
next
  case (Passport pc)
  show ?thesis
  proof (cases pc)
    case (PassportIssue a)
    then show ?thesis
      using assms Passport passport_issue_frame [of "cw_cli W" "cw_ext W" "cw_fresh W" "cw_seed W" "cw_now W" a fs r fs' x]
      by (auto simp: cli_main_def passport_run_def written_paths_def Let_def)
  next
    case (PassportSub a)
    then show ?thesis
      using assms Passport passport_sub_frame [of "cw_cli W" "cw_ext W" "cw_fresh W" "cw_now W" a fs r fs' x]
      by (auto simp: cli_main_def passport_run_def written_paths_def Let_def)
  qed (use assms Passport in \<open>simp add: cli_main_def passport_run_def Let_def\<close>)
qed (use assms in \<open>auto simp: cli_main_def Let_def\<close>)

section \<open>What a command sends\<close>

fun is_local :: "cli_command \<Rightarrow> bool" where
  "is_local (Keygen out) \<longleftrightarrow> True"
| "is_local (Decode file) \<longleftrightarrow> True"
| "is_local (Completion shell) \<longleftrightarrow> True"
| "is_local (Migrate a) \<longleftrightarrow> True"
| "is_local (Passport pc) \<longleftrightarrow> True"
| "is_local _ \<longleftrightarrow> False"

lemma without_send:
  "cl_os (C\<lparr>cl_send := f\<rparr>) = cl_os C" "cl_codec (C\<lparr>cl_send := f\<rparr>) = cl_codec C" "cl_signer (C\<lparr>cl_send := f\<rparr>) = cl_signer C"
  "cl_cert_parse (C\<lparr>cl_send := f\<rparr>) = cl_cert_parse C" "cl_cert_pretty (C\<lparr>cl_send := f\<rparr>) = cl_cert_pretty C"
  "cl_uint_msg (C\<lparr>cl_send := f\<rparr>) = cl_uint_msg C" "cl_hex_msg (C\<lparr>cl_send := f\<rparr>) = cl_hex_msg C" "cl_pk_msg (C\<lparr>cl_send := f\<rparr>) = cl_pk_msg C"
  by simp_all

lemma parts_offline:
  "load_identity (C\<lparr>cl_send := f\<rparr>) = load_identity C" "parse_ttl (C\<lparr>cl_send := f\<rparr>) = parse_ttl C"
  "load_passport (C\<lparr>cl_send := f\<rparr>) = load_passport C" "sub_delegate_key (C\<lparr>cl_send := f\<rparr>) = sub_delegate_key C"
  unfolding fun_eq_iff load_identity_def parse_ttl_def ttl_count_def load_passport_def sub_delegate_key_def without_send by simp_all

lemma files_offline:
  "keygen_run (C\<lparr>cl_send := f\<rparr>) = keygen_run C" "decode_run (C\<lparr>cl_send := f\<rparr>) = decode_run C"
  "passport_inspect_run (C\<lparr>cl_send := f\<rparr>) = passport_inspect_run C"
  "passport_issue_run (C\<lparr>cl_send := f\<rparr>) = passport_issue_run C" "passport_sub_run (C\<lparr>cl_send := f\<rparr>) = passport_sub_run C"
  unfolding fun_eq_iff keygen_run_def decode_run_def passport_inspect_run_def passport_issue_run_def passport_sub_run_def
    issue_identity_def parts_offline without_send by simp_all

text \<open>
  Keys, passports and certificate files are handled without the gateway: these commands do the same
  whatever the HTTP client answers, and whatever gateway is given.
\<close>

lemma local_commands_offline:
  "is_local cmd \<Longrightarrow> cli_main (W\<lparr>cw_cli := (cw_cli W)\<lparr>cl_send := f\<rparr>\<rparr>) gateway cmd fs = cli_main W gateway' cmd fs"
  by (cases cmd) (simp_all add: cli_main_def passport_run_def completion_run_def files_offline split: passport_command.split)

lemma gateway_commands_write_nothing:
  "\<not> is_local cmd \<Longrightarrow> \<exists>r. cli_main W gateway cmd fs = Some (r, fs)"
  by (cases cmd) (simp_all add: cli_main_def Let_def)

lemma exit_code_ok: "exit_code r = 0 \<Longrightarrow> \<exists>said fs. r = Some ((Finished_Ok, said), fs) \<or> r = Some ((Exited 0, said), fs)"
  by (auto simp: exit_code_def split: option.splits cli_end.splits prod.splits)

lemma verify_run_exit: "verify_run C gateway file fs = (Exited n, said) \<Longrightarrow> n = 1"
  by (auto simp: verify_run_def split: sum.splits if_splits)

section \<open>The migration and prepared statements\<close>

text \<open>The statements of a text, split at semicolons that no quote encloses.\<close>

fun sql_pieces :: "bool \<Rightarrow> string \<Rightarrow> string \<Rightarrow> string list" where
  "sql_pieces q acc [] = [rev acc]"
| "sql_pieces q acc (c # s) =
     (if c = CHR 0x27 then sql_pieces (\<not> q) (c # acc) s
      else if c = CHR '';'' \<and> \<not> q then rev acc # sql_pieces q [] s
      else sql_pieces q (c # acc) s)"

definition sql_statements :: "string \<Rightarrow> string list" where
  "sql_statements sql = filter (\<lambda>p. str_trim p \<noteq> []) (sql_pieces False [] sql)"

text \<open>Texts whose semicolons only quotes can hide: no dollar quotes, comments, names in quotes or escapes.\<close>

definition plain_sql :: "string \<Rightarrow> bool" where
  "plain_sql sql \<longleftrightarrow> list_all (\<lambda>c. c \<notin> {CHR ''$'', CHR ''-'', CHR ''/'', CHR 0x22, CHR 0x5C}) sql"

text \<open>\<open>sqlx::query\<close> prepares its text, and PostgreSQL prepares a single command only.\<close>

definition prepares :: "(string \<Rightarrow> string option) \<Rightarrow> bool" where
  "prepares execute \<longleftrightarrow> (\<forall>sql. plain_sql sql \<longrightarrow> 1 < length (sql_statements sql) \<longrightarrow> execute sql \<noteq> None)"

lemma migration_statements: "length (sql_statements MIGRATION_DDL) = 4" "plain_sql MIGRATION_DDL"
  by code_simp+

lemma migrate_refused:
  assumes "connect url = Inr execute" "prepares execute" "ma_database_url a = Some url" "\<not> ma_print a"
  shows "\<exists>e. migrate_run connect a = (Failed [e], [])"
proof -
  have "execute MIGRATION_DDL \<noteq> None"
    using assms(2) migration_statements by (simp add: prepares_def)
  with assms show ?thesis by (auto simp: migrate_run_def run_migration_def)
qed

end
