(* ===== verification/A1_Studio.thy ===== *)
theory A1_Studio
  imports A1_GwAgents "HOL-Library.Multiset"
begin

text \<open>
  The Studio: the page \<open>a1-gateway/src/routes/studio.rs\<close> serves, and \<open>a1-gateway/build.rs\<close>, which puts
  it together from the files of \<open>studio/src\<close> before the gateway is compiled. \<open>None\<close> is a panic of the
  build script. What a directory lists, in whatever order, is a parameter. The lemmas: where the page
  comes from; that it does not depend on the order in which a directory is read; that
  \<open>99-app.js\<close> is loaded last and once; and what the page is when each mark stands once in the template.
\<close>

section \<open>Serving\<close>

definition studio_handler :: "os \<Rightarrow> string \<Rightarrow> files \<Rightarrow> string" where
  "studio_handler S embedded fs =
     (let fallback = (case read_to_string S fs ''/studio/index.html'' of Inr html \<Rightarrow> html | Inl _ \<Rightarrow> embedded) in
      case os_env S ''A1_STUDIO_PATH'' of
        None \<Rightarrow> fallback
      | Some path \<Rightarrow> (case read_to_string S fs path of Inr html \<Rightarrow> html | Inl _ \<Rightarrow> fallback))"

section \<open>Collecting the sources\<close>

text \<open>
  \<open>bo_list\<close>: \<open>None\<close> if the path is not a directory, the message if it cannot be read, else the names of
  its entries, with \<open>None\<close> for an entry that cannot be read.
\<close>

record build_os = os +
  bo_list :: "string \<Rightarrow> (string + string option list) option"
  bo_is_file :: "string \<Rightarrow> bool"

definition rerun :: "string \<Rightarrow> string" where
  "rerun p = ''cargo:rerun-if-changed='' @ p"

definition has_extension :: "string \<Rightarrow> string \<Rightarrow> bool" where
  "has_extension x p \<longleftrightarrow> map_option snd (ext_of_name (snd (split_name p))) = Some x"

text \<open>The lines for Cargo, and the paths in the order of the directory.\<close>

definition collect_and_watch :: "'x build_os_scheme \<Rightarrow> string \<Rightarrow> string \<Rightarrow> (string list \<times> string list) option" where
  "collect_and_watch S dir x =
     (case bo_list S dir of
        None \<Rightarrow> Some ([], [])
      | Some (Inl _) \<Rightarrow> None
      | Some (Inr entries) \<Rightarrow>
          (let found = filter (\<lambda>p. bo_is_file S p \<and> has_extension x p)
                         (map (join_path dir) (List.map_filter id entries))
           in Some (rerun dir # map rerun found, found)))"

definition numbered_root :: "string \<Rightarrow> bool" where
  "numbered_root p \<longleftrightarrow>
     (let name = set_or [] (file_name p) in
      name \<noteq> [] \<and> CHR ''0'' \<le> hd name \<and> hd name \<le> CHR ''9'' \<and> \<not> starts_with name ''99-'')"

text \<open>The texts of the files, one after the other; a file that cannot be read is a panic.\<close>

fun read_all :: "files \<Rightarrow> string list \<Rightarrow> string option" where
  "read_all fs [] = Some []"
| "read_all fs (p # ps) =
     (case fs p of None \<Rightarrow> None | Some t \<Rightarrow> map_option (\<lambda>r. t @ r) (read_all fs ps))"

section \<open>The page\<close>

text \<open>\<open>str::replace\<close> for a pattern that is not empty: from the left, and not inside what was put in.\<close>

function replace_all :: "string \<Rightarrow> string \<Rightarrow> string \<Rightarrow> string" where
  "replace_all pat by [] = []"
| "replace_all pat by (c # s) =
     (if starts_with (c # s) pat then by @ replace_all pat by (drop (length pat - 1) s)
      else c # replace_all pat by s)"
  by pat_completeness auto
termination by (relation "measure (\<lambda>(_, _, s). length s)") auto

definition css_mark :: string where "css_mark = ''/* {{CSS}} */''"
definition js_mark :: string where "js_mark = ''// {{JS}}''"

definition assemble :: "string \<Rightarrow> string \<Rightarrow> string \<Rightarrow> string" where
  "assemble template css js = replace_all js_mark js (replace_all css_mark css template)"

definition parent_path :: "string \<Rightarrow> string option" where
  "parent_path p =
     (if p = [] \<or> p = ''/'' then None
      else let d = fst (split_name p) in Some (if d = ''/'' then d else butlast d))"

text \<open>The sources in the order in which they are put together, with the lines printed on the way.\<close>

record studio_sources =
  ss_css :: "string list"
  ss_root :: "string list"
  ss_comps :: "string list"
  ss_app :: string

definition script_paths :: "studio_sources \<Rightarrow> string list" where
  "script_paths s = ss_root s @ ss_comps s @ [ss_app s]"

definition studio_sources_of :: "'x build_os_scheme \<Rightarrow> string \<Rightarrow> (string list \<times> studio_sources) option" where
  "studio_sources_of S src =
     (let js_dir = join_path src ''js''; app = join_path js_dir ''99-app.js'' in
      Option.bind (collect_and_watch S (join_path src ''css'') ''css'') (\<lambda>(said1, css).
      Option.bind (collect_and_watch S js_dir ''js'') (\<lambda>(said2, js_root).
      Option.bind (collect_and_watch S (join_path js_dir ''components'') ''js'') (\<lambda>(said3, comps).
      Some (said1 @ said2 @ said3 @ [rerun app],
            \<lparr>ss_css = sort css, ss_root = sort (filter numbered_root js_root), ss_comps = sort comps, ss_app = app\<rparr>)))))"

definition studio_html :: "files \<Rightarrow> string \<Rightarrow> studio_sources \<Rightarrow> string option" where
  "studio_html fs template_path s =
     Option.bind (read_all fs (ss_css s)) (\<lambda>css.
     Option.bind (read_all fs (script_paths s)) (\<lambda>js.
     map_option (\<lambda>template. assemble template css js) (fs template_path)))"

definition build_summary :: "studio_sources \<Rightarrow> string \<Rightarrow> string" where
  "build_summary s html =
     ''  [build-studio] '' @ dec (length (ss_css s)) @ '' CSS + '' @ dec (length (ss_root s) + length (ss_comps s) + 1)
       @ '' JS files '' @ [CHR 0xE2, CHR 0x86, CHR 0x92] @ '' studio/index.html ('' @ dec (length html) @ '' bytes)''"

text \<open>What it prints for Cargo, the last line on the error stream, and the files.\<close>

definition build_studio :: "'x build_os_scheme \<Rightarrow> files \<Rightarrow> string \<Rightarrow> (string list \<times> string \<times> files) option" where
  "build_studio S fs workspace_root =
     (let src = join_path (join_path workspace_root ''studio'') ''src'';
          out = join_path (join_path workspace_root ''studio'') ''index.html'';
          template_path = join_path src ''index.template.html''
      in Option.bind (studio_sources_of S src) (\<lambda>(said, s).
         Option.bind (studio_html fs template_path s) (\<lambda>html.
           case write_file (os.truncate S) out html fs of
             (Inl _, _) \<Rightarrow> None
           | (Inr _, fs') \<Rightarrow> Some ([rerun ''build.rs'', rerun template_path] @ said, build_summary s html, fs'))))"

definition build_main :: "'x build_os_scheme \<Rightarrow> files \<Rightarrow> (string list \<times> string \<times> files) option" where
  "build_main S fs =
     Option.bind (os_env S ''CARGO_MANIFEST_DIR'') (\<lambda>manifest_dir.
     Option.bind (parent_path manifest_dir) (build_studio S fs))"

section \<open>Where the page comes from\<close>

lemma studio_handler_path:
  "os_env S ''A1_STUDIO_PATH'' = Some p \<Longrightarrow> fs p = Some html \<Longrightarrow> studio_handler S embedded fs = html"
  by (simp add: studio_handler_def read_to_string_def)

lemma studio_handler_mounted:
  assumes "\<And>p. os_env S ''A1_STUDIO_PATH'' = Some p \<Longrightarrow> fs p = None" "fs ''/studio/index.html'' = Some html"
  shows "studio_handler S embedded fs = html"
  using assms by (simp add: studio_handler_def read_to_string_def split: option.splits)

lemma studio_handler_embedded:
  assumes "\<And>p. os_env S ''A1_STUDIO_PATH'' = Some p \<Longrightarrow> fs p = None" "fs ''/studio/index.html'' = None"
  shows "studio_handler S embedded fs = embedded"
  using assms by (simp add: studio_handler_def read_to_string_def split: option.splits)

section \<open>The order of a directory does not matter\<close>

text \<open>Two views of the same directories: the same entries, listed in any order.\<close>

definition same_dir :: "(string + string option list) option \<Rightarrow> (string + string option list) option \<Rightarrow> bool" where
  "same_dir a b \<longleftrightarrow> rel_option (rel_sum (\<lambda>_ _. True) (\<lambda>xs ys. mset xs = mset ys)) a b"

definition same_dirs :: "build_os \<Rightarrow> build_os \<Rightarrow> bool" where
  "same_dirs S T \<longleftrightarrow> os.truncate S = os.truncate T \<and> bo_is_file S = bo_is_file T
     \<and> (\<forall>d. same_dir (bo_list S d) (bo_list T d))"

lemma sort_mset_eq: "mset xs = mset ys \<Longrightarrow> sort xs = sort ys" for xs ys :: "'a::linorder list"
  by (rule properties_for_sort) simp_all

lemma mset_map_filter_cong: "mset xs = mset ys \<Longrightarrow> mset (List.map_filter f xs) = mset (List.map_filter f ys)"
proof -
  have "mset (List.map_filter f zs) = image_mset (the \<circ> f) (filter_mset (\<lambda>x. f x \<noteq> None) (mset zs))" for zs
    by (simp add: List.map_filter_def flip: mset_filter mset_map)
  then show "mset xs = mset ys \<Longrightarrow> mset (List.map_filter f xs) = mset (List.map_filter f ys)" by simp
qed

lemma collect_same_dirs:
  assumes "same_dirs S T"
  shows "rel_option (\<lambda>a b. mset (snd a) = mset (snd b)) (collect_and_watch S dir x) (collect_and_watch T dir x)"
proof -
  have f: "bo_is_file T = bo_is_file S" and d: "same_dir (bo_list S dir) (bo_list T dir)"
    using assms by (auto simp: same_dirs_def)
  let ?found = "\<lambda>xs. filter (\<lambda>p. bo_is_file S p \<and> has_extension x p) (map (join_path dir) (List.map_filter id xs))"
  have found: "mset (?found xs) = mset (?found ys)" if "mset xs = mset ys" for xs ys
    using mset_map_filter_cong [OF that, of id] by simp
  from d consider "bo_list S dir = None" "bo_list T dir = None"
    | e e' where "bo_list S dir = Some (Inl e)" "bo_list T dir = Some (Inl e')"
    | xs ys where "bo_list S dir = Some (Inr xs)" "bo_list T dir = Some (Inr ys)" "mset xs = mset ys"
    unfolding same_dir_def by (fastforce elim!: option.rel_cases rel_sum.cases)
  then show ?thesis
  proof cases
    case (3 xs ys)
    then show ?thesis using found [OF 3(3)] by (simp add: collect_and_watch_def Let_def f)
  qed (simp_all add: collect_and_watch_def)
qed

text \<open>
  The page and what is written do not depend on the order in which the directories are read; only the
  order of the lines for Cargo does.
\<close>

lemma rel_option_bind_map:
  assumes "rel_option R a b" "\<And>x y. R x y \<Longrightarrow> map_option k (f x) = map_option k (g y)"
  shows "map_option k (Option.bind a f) = map_option k (Option.bind b g)"
  using assms by (cases a; cases b) auto

lemma studio_sources_same:
  assumes "same_dirs S T"
  shows "map_option snd (studio_sources_of S src) = map_option snd (studio_sources_of T src)"
proof -
  have filt: "sort (filter P xs) = sort (filter P ys)" if "mset xs = mset ys" for P and xs ys :: "string list"
    by (rule sort_mset_eq) (simp add: that)
  note step = rel_option_bind_map [OF collect_same_dirs [OF assms]]
  show ?thesis
    unfolding studio_sources_of_def Let_def split_beta
  proof (rule step, rule step, rule step, goal_cases)
    case (1 a b c d e f)
    show ?case by (simp only: option.map snd_conv sort_mset_eq [OF 1(1)] filt [OF 1(2)] sort_mset_eq [OF 1(3)])
  qed
qed

lemma bind_write_snd:
  "map_option snd (Option.bind a (\<lambda>(said, s). Option.bind (h s) (\<lambda>html.
      case w html of (Inl _, _) \<Rightarrow> None | (Inr _, fs') \<Rightarrow> Some (p @ said, g s html, fs')))) =
    Option.bind (map_option snd a) (\<lambda>s. Option.bind (h s) (\<lambda>html.
      case w html of (Inl _, _) \<Rightarrow> None | (Inr _, fs') \<Rightarrow> Some (g s html, fs')))"
proof (cases a)
  case (Some x)
  obtain said s where x: "x = (said, s)" by (cases x)
  show ?thesis
  proof (cases "h s")
    case (Some html)
    obtain r fs' where "w html = (r, fs')" by (cases "w html")
    then show ?thesis using Some x \<open>a = Some x\<close> by (cases r) simp_all
  qed (simp add: Some x)
qed simp

lemma build_main_same_dirs:
  assumes "same_dirs S T"
  shows "map_option snd (build_main S fs) = map_option snd (build_main T fs)"
proof -
  have t: "os.truncate S = os.truncate T" using assms by (simp add: same_dirs_def)
  then have e: "os_env S = os_env T" by (simp add: os.truncate_def)
  have "map_option snd (build_studio S fs root) = map_option snd (build_studio T fs root)" for root
    unfolding build_studio_def Let_def bind_write_snd studio_sources_same [OF assms] t ..
  then show ?thesis unfolding build_main_def e by (cases "os_env T ''CARGO_MANIFEST_DIR''") (simp_all add: map_option_bind comp_def)
qed

section \<open>The order of the scripts\<close>

lemma numbered_root_app: "\<not> numbered_root (join_path d ''99-app.js'')"
proof -
  obtain e where e: "join_path d ''99-app.js'' = e @ CHR ''/'' # ''99-app.js''"
    by (cases "d \<noteq> [] \<and> last d = CHR ''/''") (auto simp: join_path_def dest!: append_butlast_last_id [symmetric])
  have "split_all CHR ''/'' ''99-app.js'' = [''99-app.js'']" by (rule split_all_plain) simp
  then have "file_name (join_path d ''99-app.js'') = Some ''99-app.js''"
    unfolding e file_name_def split_all_append by (simp add: Let_def)
  then show ?thesis by (simp add: numbered_root_def starts_with_def set_or_def)
qed

text \<open>The application is the last script, and it is not among the numbered ones.\<close>

lemma studio_scripts:
  assumes "studio_sources_of S src = Some (said, s)"
  shows "sorted (ss_css s)" "sorted (ss_root s)" "sorted (ss_comps s)" "last (script_paths s) = ss_app s" "ss_app s \<notin> set (ss_root s)"
    and "\<forall>p\<in>set (ss_root s). numbered_root p"
proof -
  obtain css js comps where s: "s = \<lparr>ss_css = sort css, ss_root = sort (filter numbered_root js), ss_comps = sort comps,
      ss_app = join_path (join_path src ''js'') ''99-app.js''\<rparr>"
    using assms by (auto simp: studio_sources_of_def Let_def bind_eq_Some_conv)
  show "sorted (ss_css s)" "sorted (ss_root s)" "sorted (ss_comps s)" "last (script_paths s) = ss_app s" "ss_app s \<notin> set (ss_root s)"
    "\<forall>p\<in>set (ss_root s). numbered_root p"
    by (simp_all add: s script_paths_def numbered_root_app)
qed

lemma read_all_Some_iff: "read_all fs ps = Some t \<longleftrightarrow> (\<forall>p\<in>set ps. fs p \<noteq> None) \<and> t = concat (map (the \<circ> fs) ps)"
  by (induction ps arbitrary: t) (auto split: option.splits)

section \<open>The marks\<close>

text \<open>No occurrence of \<open>pat\<close> starts in \<open>a\<close> when \<open>b\<close> follows.\<close>

fun free_of :: "string \<Rightarrow> string \<Rightarrow> string \<Rightarrow> bool" where
  "free_of pat [] b \<longleftrightarrow> True"
| "free_of pat (c # a) b \<longleftrightarrow> \<not> starts_with ((c # a) @ b) pat \<and> free_of pat a b"

lemma replace_all_free: "free_of pat a b \<Longrightarrow> replace_all pat by (a @ b) = a @ replace_all pat by b"
  by (induction a) auto

lemma replace_all_mark:
  "pat \<noteq> [] \<Longrightarrow> replace_all pat by (pat @ b) = by @ replace_all pat by b"
  by (cases pat) (simp_all add: starts_with_def)

lemma replace_all_none: "free_of pat a [] \<Longrightarrow> replace_all pat by a = a"
  using replace_all_free [of pat a "[]" "by"] by simp

text \<open>
  The page, when each mark stands once in the template and the style sheets hold no script mark: the
  style sheets and the scripts stand where the marks were, whatever the scripts hold.
\<close>

lemma assemble_once:
  assumes "free_of css_mark a (css_mark @ b @ js_mark @ d)" "free_of css_mark (b @ js_mark @ d) []"
    and "free_of js_mark (a @ css @ b) (js_mark @ d)" "free_of js_mark d []"
  shows "assemble (a @ css_mark @ b @ js_mark @ d) css js = a @ css @ b @ js @ d"
proof -
  have m: "css_mark \<noteq> []" "js_mark \<noteq> []" by (simp_all add: css_mark_def js_mark_def)
  have "replace_all css_mark css (a @ css_mark @ b @ js_mark @ d) = (a @ css @ b) @ js_mark @ d"
    using replace_all_free [OF assms(1)] replace_all_mark [OF m(1)] replace_all_none [OF assms(2)] by simp
  then show ?thesis
    unfolding assemble_def
    using replace_all_free [OF assms(3)] replace_all_mark [OF m(2)] replace_all_none [OF assms(4)] by simp
qed

text \<open>After a build the page that is embedded, or mounted, is the one that was put together.\<close>

lemma build_main_writes:
  assumes "build_main S fs = Some (said, summary, fs')"
  shows "\<exists>dir root s html. os_env S ''CARGO_MANIFEST_DIR'' = Some dir \<and> parent_path dir = Some root
    \<and> studio_sources_of S (join_path (join_path root ''studio'') ''src'') = Some (drop 2 said, s)
    \<and> studio_html fs (join_path (join_path (join_path root ''studio'') ''src'') ''index.template.html'') s = Some html
    \<and> fs' = fs(join_path (join_path root ''studio'') ''index.html'' \<mapsto> html)"
  using assms
  by (auto simp: build_main_def build_studio_def Let_def bind_eq_Some_conv write_file_def split: if_splits)

end
