(* ===== verification/A1_SerdeHex.thy ===== *)
theory A1_SerdeHex
  imports A1_Crypto
begin

text \<open>
  The modules by which byte fields are written as hexadecimal text in documents: \<open>hex_32\<close> and \<open>hex_16\<close> of
  \<open>src/provenance.rs\<close>, \<open>hex_32\<close> of \<open>src/anchor.rs\<close>, \<open>src/swarm.rs\<close> and \<open>src/hybrid.rs\<close>, \<open>hex_32_serde\<close>
  of \<open>src/zk.rs\<close>, and \<open>hex_bytes\<close> of \<open>src/hybrid.rs\<close>. \<open>hex_msg\<close> is the text of the decoder's error.
\<close>

definition sized :: "nat \<Rightarrow> string \<Rightarrow> bytes \<Rightarrow> string + bytes" where
  "sized n msg b = (if length b = n then Inr b else Inl msg)"

definition prov_hex_32_serialize :: "ext \<Rightarrow> bytes \<Rightarrow> string" where
  "prov_hex_32_serialize E v = hex_enc E v"

definition prov_hex_32_deserialize :: "ext \<Rightarrow> (string \<Rightarrow> string) \<Rightarrow> string \<Rightarrow> string + bytes" where
  "prov_hex_32_deserialize E hex_msg t = bindR (ok_or (hex_msg t) (hex_dec E t)) (sized 32 ''expected 32-byte hex'')"

definition prov_hex_16_serialize :: "ext \<Rightarrow> bytes \<Rightarrow> string" where
  "prov_hex_16_serialize E v = hex_enc E v"

definition prov_hex_16_deserialize :: "ext \<Rightarrow> (string \<Rightarrow> string) \<Rightarrow> string \<Rightarrow> string + bytes" where
  "prov_hex_16_deserialize E hex_msg t = bindR (ok_or (hex_msg t) (hex_dec E t)) (sized 16 ''expected 16-byte hex'')"

definition anchor_hex_32_serialize :: "ext \<Rightarrow> bytes \<Rightarrow> string" where
  "anchor_hex_32_serialize E v = hex_enc E v"

definition anchor_hex_32_deserialize :: "ext \<Rightarrow> (string \<Rightarrow> string) \<Rightarrow> string \<Rightarrow> string + bytes" where
  "anchor_hex_32_deserialize E hex_msg t = bindR (ok_or (hex_msg t) (hex_dec E t)) (sized 32 ''expected 32 bytes'')"

definition swarm_hex_32_serialize :: "ext \<Rightarrow> bytes \<Rightarrow> string" where
  "swarm_hex_32_serialize E v = hex_enc E v"

definition swarm_hex_32_deserialize :: "ext \<Rightarrow> (string \<Rightarrow> string) \<Rightarrow> string \<Rightarrow> string + bytes" where
  "swarm_hex_32_deserialize E hex_msg t = bindR (ok_or (hex_msg t) (hex_dec E t)) (sized 32 ''expected 32 bytes'')"

definition zk_hex_32_serialize :: "ext \<Rightarrow> bytes \<Rightarrow> string" where
  "zk_hex_32_serialize E v = hex_enc E v"

definition zk_hex_32_deserialize :: "ext \<Rightarrow> (string \<Rightarrow> string) \<Rightarrow> string \<Rightarrow> string + bytes" where
  "zk_hex_32_deserialize E hex_msg t = bindR (ok_or (hex_msg t) (hex_dec E t)) (sized 32 ''expected 32 bytes'')"

definition hybrid_hex_32_serialize :: "ext \<Rightarrow> bytes \<Rightarrow> string" where
  "hybrid_hex_32_serialize E v = hex_enc E v"

definition hybrid_hex_32_deserialize :: "ext \<Rightarrow> (string \<Rightarrow> string) \<Rightarrow> string \<Rightarrow> string + bytes" where
  "hybrid_hex_32_deserialize E hex_msg t =
     bindR (ok_or (hex_msg t) (hex_dec E t)) (sized 32 ''expected 32-byte hex string'')"

definition hex_blob_serialize :: "ext \<Rightarrow> bytes \<Rightarrow> string" where
  "hex_blob_serialize E v = hex_enc E v"

definition hex_blob_deserialize :: "ext \<Rightarrow> (string \<Rightarrow> string) \<Rightarrow> string \<Rightarrow> string + bytes" where
  "hex_blob_deserialize E hex_msg t = (if t = [] then Inr [] else ok_or (hex_msg t) (hex_dec E t))"

section \<open>What the modules share\<close>

text \<open>The hexadecimal codec, which takes the empty text for no bytes.\<close>

definition hex_exact :: "ext \<Rightarrow> bool" where
  "hex_exact E \<longleftrightarrow> hex_ok E \<and> hex_dec E [] = Some []"

lemma toy_hex_exact: "hex_exact toy_ext"
  by (simp add: hex_exact_def) (simp add: toy_ext_def)

text \<open>A codec of the values \<open>good\<close>: what was written is read back, and nothing else than good values is read.\<close>

locale byte_codec =
  fixes E :: ext
    and good :: "bytes \<Rightarrow> bool"
    and write_text :: "bytes \<Rightarrow> string"
    and read_text :: "string \<Rightarrow> string + bytes"
  assumes read_write: "hex_exact E \<Longrightarrow> good v \<Longrightarrow> read_text (write_text v) = Inr v"
    and read_good: "read_text t = Inr v \<Longrightarrow> good v"
begin

lemma write_inj: "hex_exact E \<Longrightarrow> good v \<Longrightarrow> good w \<Longrightarrow> write_text v = write_text w \<longleftrightarrow> v = w"
  using read_write by (metis sum.inject(2))

text \<open>A document that is read and written again reads as the same document.\<close>

lemma read_stable: "hex_exact E \<Longrightarrow> read_text t = Inr v \<Longrightarrow> read_text (write_text v) = read_text t"
  using read_good read_write by simp

end

lemma sized_Inr: "sized n m b = Inr v \<longleftrightarrow> b = v \<and> length v = n"
  by (auto simp: sized_def)

lemmas hex_module_defs =
  prov_hex_32_serialize_def prov_hex_32_deserialize_def prov_hex_16_serialize_def prov_hex_16_deserialize_def
  anchor_hex_32_serialize_def anchor_hex_32_deserialize_def swarm_hex_32_serialize_def swarm_hex_32_deserialize_def
  zk_hex_32_serialize_def zk_hex_32_deserialize_def hybrid_hex_32_serialize_def hybrid_hex_32_deserialize_def
  hex_blob_serialize_def hex_blob_deserialize_def

lemma sized_codec:
  assumes "\<And>v. w v = hex_enc E v" "\<And>t. r t = bindR (ok_or (hm t) (hex_dec E t)) (sized n m)"
  shows "byte_codec E (\<lambda>v. length v = n) w r"
  by unfold_locales (auto simp: assms hex_exact_def hex_ok_def sized_Inr ok_or_def bindR_def split: sum.splits option.splits)

interpretation prov_32: byte_codec E "\<lambda>v. length v = 32" "prov_hex_32_serialize E" "prov_hex_32_deserialize E hm" for E hm
  by (rule sized_codec) (simp_all only: hex_module_defs)

interpretation prov_16: byte_codec E "\<lambda>v. length v = 16" "prov_hex_16_serialize E" "prov_hex_16_deserialize E hm" for E hm
  by (rule sized_codec) (simp_all only: hex_module_defs)

interpretation anchor_32: byte_codec E "\<lambda>v. length v = 32" "anchor_hex_32_serialize E" "anchor_hex_32_deserialize E hm" for E hm
  by (rule sized_codec) (simp_all only: hex_module_defs)

interpretation swarm_32: byte_codec E "\<lambda>v. length v = 32" "swarm_hex_32_serialize E" "swarm_hex_32_deserialize E hm" for E hm
  by (rule sized_codec) (simp_all only: hex_module_defs)

interpretation zk_32: byte_codec E "\<lambda>v. length v = 32" "zk_hex_32_serialize E" "zk_hex_32_deserialize E hm" for E hm
  by (rule sized_codec) (simp_all only: hex_module_defs)

interpretation hybrid_32: byte_codec E "\<lambda>v. length v = 32" "hybrid_hex_32_serialize E" "hybrid_hex_32_deserialize E hm" for E hm
  by (rule sized_codec) (simp_all only: hex_module_defs)

interpretation hybrid_blob: byte_codec E "\<lambda>v. True" "hex_blob_serialize E" "hex_blob_deserialize E hm" for E hm
proof
  fix v
  assume "hex_exact E"
  then have d: "hex_dec E (hex_enc E v) = Some v" and n: "hex_dec E [] = Some []" by (simp_all add: hex_exact_def hex_ok_def)
  have "v = []" if "hex_enc E v = []" using d n that by simp
  with d show "hex_blob_deserialize E hm (hex_blob_serialize E v) = Inr v" by (auto simp: hex_module_defs ok_or_def)
qed simp

end
