(* ===== verification/A1_GwSetup.thy ===== *)
theory A1_GwSetup
  imports A1_GwAgents A1_Governance
begin

text \<open>
  How the gateway starts and stops, the rest of \<open>a1-gateway/src/main.rs\<close>; how it is made to start at
  login, the rest of \<open>routes/automagic.rs\<close>; and the loading of the governance policy, the rest of
  \<open>src/governance.rs\<close> with \<open>policy_handler\<close> of \<open>routes/governance.rs\<close>. The commands that are run are
  listed with their arguments; what the code reads of their outcome is a parameter, as are the
  connection to a store, the binding of the listener and the reading of JSON.
\<close>

section \<open>Starting\<close>

datatype cors_layer = CorsPermissive | CorsOrigin string "string list" | CorsMethods "string list"

text \<open>\<open>header_value\<close> tells whether a text is a header value; the code panics (None) when it is not.\<close>

definition cors_from_env :: "(string \<Rightarrow> bool) \<Rightarrow> environment \<Rightarrow> cors_layer option" where
  "cors_from_env header_value env =
     (case env ''A1_CORS_ALLOWED_ORIGIN'' of
        Some origin \<Rightarrow>
          if origin = ''*'' then Some CorsPermissive
          else if header_value origin then Some (CorsOrigin origin [''GET'', ''POST'', ''DELETE'']) else None
      | None \<Rightarrow> Some (CorsMethods [''GET'', ''POST'', ''DELETE'']))"

datatype ip_source = RightmostXForwardedFor | FlyClientIp | CfConnectingIp | ConnectInfo

definition ip_source_from_env :: "environment \<Rightarrow> ip_source" where
  "ip_source_from_env env =
     (let mode = set_or [] (env ''A1_TRUSTED_PROXY_MODE'') in
      if mode = ''x-forwarded-for'' then RightmostXForwardedFor
      else if mode = ''fly-client-ip'' then FlyClientIp
      else if mode = ''cf-connecting-ip'' then CfConnectingIp
      else ConnectInfo)"

text \<open>The state, with the connection to the store it names: an error of either ends the process.\<close>

definition init_state ::
  "ext \<Rightarrow> (bytes \<Rightarrow> signer) \<Rightarrow> signer \<Rightarrow> (string \<Rightarrow> string) \<Rightarrow> bytes \<Rightarrow> (store_backend \<Rightarrow> string option) \<Rightarrow> environment
     \<Rightarrow> string + app_state" where
  "init_state E identity_of generated hex_msg base connect env =
     bindR (state_from_env E identity_of generated hex_msg base env) (\<lambda>s.
       case connect (backend_from_env env) of Some e \<Rightarrow> Inl e | None \<Rightarrow> Inr s)"

datatype gateway_start = Exited nat string | Panicked | Serving app_state cors_layer ip_source string

definition gateway_addr :: "environment \<Rightarrow> string" where
  "gateway_addr env = set_or ''0.0.0.0:8080'' (env ''GATEWAY_ADDR'')"

definition gateway_main ::
  "(string \<Rightarrow> bool) \<Rightarrow> (string \<Rightarrow> string option) \<Rightarrow> string + app_state \<Rightarrow> environment \<Rightarrow> gateway_start" where
  "gateway_main header_value bind_addr init env =
     (case init of
        Inl e \<Rightarrow> Exited 1 (''Failed to initialize gateway state: '' @ e)
      | Inr s \<Rightarrow>
          (case cors_from_env header_value env of
             None \<Rightarrow> Panicked
           | Some cors \<Rightarrow>
               (case bind_addr (gateway_addr env) of
                  Some e \<Rightarrow> Exited 1 (''Failed to bind to '' @ gateway_addr env @ '': '' @ e)
                | None \<Rightarrow> Serving s cors (ip_source_from_env env) (gateway_addr env))))"

text \<open>
  The address is extracted from the request before the rate limit is asked; a request that does not
  have what the configured source reads is answered by the extractor's rejection.
\<close>

definition serve_from ::
  "string option \<Rightarrow> ('l \<Rightarrow> 'i \<Rightarrow> bool \<times> 'l) \<Rightarrow> 'l \<Rightarrow> (string + 'b) response + 'i \<Rightarrow> string \<Rightarrow> string list \<Rightarrow> string option
     \<Rightarrow> (string + 'b) response \<Rightarrow> ((string + 'b) response \<times> string \<times> string) \<times> 'l" where
  "serve_from secret check_key lim extracted m path auth_header run =
     (case extracted of
        Inl rejection \<Rightarrow> (inject_protocol_header rejection, lim)
      | Inr ip \<Rightarrow> serve secret check_key lim ip m path auth_header run)"

section \<open>Stopping\<close>

datatype gw_effect = SleepMillis nat | RunShell string | RaiseSigterm | ExitProcess nat

definition stop_self :: "bool \<Rightarrow> gw_effect list" where
  "stop_self is_unix = (if is_unix then [RaiseSigterm] else [ExitProcess 0])"

definition system_shutdown_handler :: "bool \<Rightarrow> json \<times> gw_effect list" where
  "system_shutdown_handler is_unix =
     (JObj [(''ok'', JBool True), (''message'', JStr ''Shutting down A1 gateway'')],
      SleepMillis 200 # stop_self is_unix)"

definition stop_containers_script :: string where
  "stop_containers_script =
     (let q = [CHR 0x27]; sel = ''--filter '' @ q @ ''name=a1'' @ q @ '' --filter '' @ q @ ''name=gateway'' @ q @ '' -q | xargs -r docker ''
      in ''docker ps '' @ sel @ ''stop; docker ps -a '' @ sel @ ''rm'')"

definition system_force_stop_handler :: "bool \<Rightarrow> json \<times> gw_effect list" where
  "system_force_stop_handler is_unix =
     (JObj [(''ok'', JBool True), (''message'', JStr (''Force stopping all A1 containers'' @ [CHR 0xE2, CHR 0x80, CHR 0xA6]))],
      [SleepMillis 200, RunShell stop_containers_script] @ stop_self is_unix)"

text \<open>
  Whether the future that ends the service is ready once the signals \<open>got\<close> have arrived. A handler of
  Ctrl+C that cannot be installed is ready at once; one of SIGTERM never is.
\<close>

datatype os_signal = CtrlC | Sigterm

definition shutdown_signal :: "bool \<Rightarrow> bool \<Rightarrow> bool \<Rightarrow> os_signal set \<Rightarrow> bool" where
  "shutdown_signal is_unix ctrl_c_installed term_installed got =
     ((\<not> ctrl_c_installed \<or> CtrlC \<in> got) \<or> (is_unix \<and> term_installed \<and> Sigterm \<in> got))"

section \<open>Starting at login\<close>

definition launchd_plist :: "string \<Rightarrow> string \<Rightarrow> string" where
  "launchd_plist bin home =
     ''<?xml version='' @ [CHR 0x22] @ ''1.0'' @ [CHR 0x22] @ '' encoding='' @ [CHR 0x22] @ ''UTF-8'' @ [CHR 0x22] @ ''?>'' @ nl @
     ''<!DOCTYPE plist PUBLIC '' @ [CHR 0x22] @ ''-//Apple//DTD PLIST 1.0//EN'' @ [CHR 0x22] @ nl @
     ''  '' @ [CHR 0x22] @ ''http://www.apple.com/DTDs/PropertyList-1.0.dtd'' @ [CHR 0x22] @ ''>'' @ nl @
     ''<plist version='' @ [CHR 0x22] @ ''1.0'' @ [CHR 0x22] @ ''>'' @ nl @
     ''<dict>'' @ nl @
     ''  <key>Label</key>             <string>com.a1.gateway</string>'' @ nl @
     ''  <key>ProgramArguments</key> <array><string>'' @ bin @ ''</string></array>'' @ nl @
     ''  <key>RunAtLoad</key>         <true/>'' @ nl @
     ''  <key>KeepAlive</key>         <true/>'' @ nl @
     ''  <key>StandardOutPath</key>   <string>'' @ home @ ''/.a1/gateway.log</string>'' @ nl @
     ''  <key>StandardErrorPath</key> <string>'' @ home @ ''/.a1/gateway.log</string>'' @ nl @
     ''</dict>'' @ nl @
     ''</plist>''"

text \<open>
  \<open>launched\<close> is the error of starting the last command, if it cannot be started; its exit status is not
  read on macOS and Linux. \<open>schtasks\<close> is the error of starting that command, or whether it succeeded with
  its error output.
\<close>

definition try_enable_autostart ::
  "os \<Rightarrow> platform \<Rightarrow> string option \<Rightarrow> string + bool \<times> string \<Rightarrow> files \<Rightarrow> (string + string) \<times> command list \<times> files" where
  "try_enable_autostart S pf launched schtasks fs =
     (let bin = binary_path (os_env S) in
      case pf of
        MacOS \<Rightarrow>
          (case dirs_home (os_env S) of
             None \<Rightarrow> (Inl ''Cannot find home directory'', [], fs)
           | Some home \<Rightarrow>
               (let plist = join_path home ''Library/LaunchAgents/com.a1.gateway.plist'' in
                case write_file S plist (launchd_plist bin home) fs of
                  (Inl e, fs1) \<Rightarrow> (Inl (''Could not write plist: '' @ e), [], fs1)
                | (Inr _, fs1) \<Rightarrow>
                    (let cmds = [(''launchctl'', [''unload'', plist]), (''launchctl'', [''load'', plist])] in
                     case launched of
                       Some e \<Rightarrow> (Inl (''launchctl load failed: '' @ e), cmds, fs1)
                     | None \<Rightarrow> (Inr ''Auto-start enabled via launchd.'', cmds, mark_autostart_done S fs1))))
      | Linux \<Rightarrow>
          (case dirs_home (os_env S) of
             None \<Rightarrow> (Inl ''Cannot find home directory'', [], fs)
           | Some home \<Rightarrow>
               (case write_file S (join_path home ''.config/systemd/user/a1-gateway.service'') (svc_text bin) fs of
                  (Inl e, fs1) \<Rightarrow> (Inl (''Cannot write service: '' @ e), [], fs1)
                | (Inr _, fs1) \<Rightarrow>
                    (let cmds = [(''systemctl'', [''--user'', ''daemon-reload'']),
                                 (''systemctl'', [''--user'', ''enable'', ''--now'', ''a1-gateway''])] in
                     case launched of
                       Some e \<Rightarrow> (Inl (''systemctl enable failed: '' @ e), cmds, fs1)
                     | None \<Rightarrow> (Inr ''Auto-start enabled via systemd user service.'', cmds, mark_autostart_done S fs1))))
      | Windows \<Rightarrow>
          (let bin_w = map (\<lambda>c. if c = CHR ''/'' then CHR 0x5C else c) bin;
               cmds = [(''schtasks'', [''/Create'', ''/F'', ''/SC'', ''ONLOGON'', ''/TN'', ''A1Gateway'', ''/TR'',
                         [CHR 0x22] @ bin_w @ [CHR 0x22], ''/RL'', ''HIGHEST''])] in
           case schtasks of
             Inl e \<Rightarrow> (Inl (''schtasks failed: '' @ e), cmds, fs)
           | Inr (True, _) \<Rightarrow> (Inr ''Auto-start enabled via Windows Task Scheduler.'', cmds, mark_autostart_done S fs)
           | Inr (False, stderr) \<Rightarrow> (Inl (''schtasks error: '' @ stderr), cmds, fs))
      | OtherOS \<Rightarrow> (Inl ''Auto-start not supported on this platform.'', [], fs))"

record simple_result =
  sr_success :: bool
  sr_message :: string

definition enable_autostart ::
  "os \<Rightarrow> platform \<Rightarrow> string option \<Rightarrow> string + bool \<times> string \<Rightarrow> files \<Rightarrow> simple_result \<times> command list \<times> files" where
  "enable_autostart S pf launched schtasks fs =
     (case try_enable_autostart S pf launched schtasks fs of
        (Inr msg, rest) \<Rightarrow> (\<lparr>sr_success = True, sr_message = msg\<rparr>, rest)
      | (Inl msg, rest) \<Rightarrow> (\<lparr>sr_success = False, sr_message = msg\<rparr>, rest))"

text \<open>The installation of Docker: every outcome is ignored. The disk image is removed on the way.\<close>

definition docker_image :: string where "docker_image = ''/tmp/Docker-A1-Install.dmg''"

definition run_docker_install :: "os \<Rightarrow> platform \<Rightarrow> bool \<Rightarrow> files \<Rightarrow> command list \<times> files" where
  "run_docker_install S pf aarch64 fs =
     (case pf of
        MacOS \<Rightarrow>
          (let arch = (if aarch64 then ''arm64'' else ''amd64'');
               url = ''https://desktop.docker.com/mac/main/'' @ arch @ ''/Docker.dmg''
           in ([(''curl'', [''-fL'', ''--progress-bar'', url, ''-o'', docker_image]),
                (''hdiutil'', [''attach'', docker_image, ''-quiet'', ''-nobrowse'']),
                (''cp'', [''-R'', ''/Volumes/Docker/Docker.app'', ''/Applications/'']),
                (''hdiutil'', [''detach'', ''/Volumes/Docker'', ''-quiet'']),
                (''open'', [''-a'', ''Docker''])],
               remove_file S docker_image fs))
      | Linux \<Rightarrow>
          ([(''sh'', [''-c'', ''curl -fsSL https://get.docker.com | sh'']),
            (''sudo'', [''usermod'', ''-aG'', ''docker'', set_or [] (os_env S ''USER'')])], fs)
      | _ \<Rightarrow> ([], fs))"

record install_started =
  is_started :: bool
  is_message :: string

definition install_docker :: install_started where
  "install_docker = \<lparr>is_started = True, is_message = ''Docker Desktop installation started. This takes 2-3 minutes.''\<rparr>"

section \<open>Loading the governance policy\<close>

text \<open>A document of the policy: what serde reads of it, a member that is missing being None.\<close>

record gov_document =
  gd_approval_gates :: "approval_gate list option"
  gd_key_rotation :: "key_rotation_policy option"
  gd_max_chain_depth :: "u8 option"
  gd_allowed_namespaces :: "string list option"
  gd_blocked_capabilities :: "string list option"
  gd_require_human_approval_for :: "string list option"
  gd_audit_all_authorizations :: "bool option"

definition gov_of_document :: "gov_document \<Rightarrow> governance_policy" where
  "gov_of_document d =
     \<lparr>approval_gates = set_or [] (gd_approval_gates d),
      key_rotation = set_or key_rotation_default (gd_key_rotation d),
      gov_max_chain_depth = set_or default_max_depth (gd_max_chain_depth d),
      allowed_namespaces = set_or [] (gd_allowed_namespaces d),
      blocked_capabilities = set_or [] (gd_blocked_capabilities d),
      require_human_approval_for = set_or [] (gd_require_human_approval_for d),
      audit_all_authorizations = set_or default_true (gd_audit_all_authorizations d)\<rparr>"

definition gov_from_json :: "(string \<Rightarrow> string + gov_document) \<Rightarrow> string \<Rightarrow> a1_error + governance_policy" where
  "gov_from_json parse t = bindR (map_errR WireFormatError (parse t)) (\<lambda>d. Inr (gov_of_document d))"

definition gov_from_env ::
  "os \<Rightarrow> (string \<Rightarrow> string + gov_document) \<Rightarrow> files \<Rightarrow> a1_error + governance_policy option" where
  "gov_from_env S parse fs =
     (case os_env S ''A1_GOVERNANCE_POLICY_FILE'' of
        Some path \<Rightarrow>
          bindR (map_errR (\<lambda>e. WireFormatError (''cannot read '' @ path @ '': '' @ e)) (read_to_string S fs path)) (\<lambda>t.
          bindR (gov_from_json parse t) (\<lambda>g. Inr (Some g)))
      | None \<Rightarrow> Inr None)"

datatype policy_answer = PolicyIs governance_policy | PolicyIsDefault string | PolicyFailed string

definition policy_handler :: "a1_error + governance_policy option \<Rightarrow> nat \<times> policy_answer" where
  "policy_handler loaded =
     (case loaded of
        Inr (Some g) \<Rightarrow> (200, PolicyIs g)
      | Inr None \<Rightarrow> (200, PolicyIsDefault ''Set A1_GOVERNANCE_POLICY_FILE to enable'')
      | Inl e \<Rightarrow> (500, PolicyFailed (display_error e)))"

section \<open>Properties\<close>

text \<open>The gateway serves exactly when the state, the header and the address are good; else it ends.\<close>

lemma gateway_main_Serving:
  "gateway_main hv ba init env = Serving s c src a \<longleftrightarrow>
     init = Inr s \<and> cors_from_env hv env = Some c \<and> ba a = None \<and> a = gateway_addr env \<and> src = ip_source_from_env env"
  by (auto simp: gateway_main_def split: sum.splits option.splits)

lemma init_state_Inr:
  "init_state E identity_of gen hm base connect env = Inr s \<longleftrightarrow>
     state_from_env E identity_of gen hm base env = Inr s \<and> connect (backend_from_env env) = None"
  by (auto simp: init_state_def bindR_def split: sum.splits option.splits)

text \<open>Without a secret in the environment the gateway serves with the administrative routes open.\<close>

lemma served_without_secret:
  assumes "gateway_main hv ba (init_state E identity_of gen hm base connect env) env = Serving s c src a"
  shows "admin_secret s = env ''A1_ADMIN_SECRET''"
  using assms unfolding gateway_main_Serving init_state_Inr
  by (auto simp: state_from_env_def bindR_def split: sum.splits)

text \<open>The route that stops the gateway raises the signal its service waits for, if it could be installed.\<close>

lemma shutdown_route_stops:
  "RaiseSigterm \<in> set (snd (system_shutdown_handler True)) \<and> shutdown_signal True c True {Sigterm}"
  by (simp add: system_shutdown_handler_def stop_self_def shutdown_signal_def)

lemma shutdown_signal_needs:
  "shutdown_signal unix True t got \<Longrightarrow> got \<noteq> {}"
  by (auto simp: shutdown_signal_def)

lemma ctrl_c_failure_stops_at_once: "shutdown_signal unix False t {}"
  by (simp add: shutdown_signal_def)

lemma write_file_cases:
  "write_file S p t fs = (r, fs') \<Longrightarrow> (r = Inr () \<and> fs' = fs(p \<mapsto> t) \<and> os_writable S p) \<or> (\<exists>e. r = Inl e \<and> fs' = fs)"
  by (auto simp: write_file_def split: if_splits)

text \<open>
  Success leaves the marker that the status route reads, on every platform; and nothing is written but
  the marker and the platform's own file.
\<close>

lemma try_enable_marks:
  assumes "try_enable_autostart S pf launched sch fs = (Inr m, cmds, fs')" "os_writable S (marker_path (os_env S))"
  shows "autostart_is_enabled (os_env S) fs'"
proof -
  have "\<exists>fs1. fs' = mark_autostart_done S fs1"
    using assms(1) by (auto simp: try_enable_autostart_def Let_def split: platform.splits option.splits sum.splits prod.splits bool.splits)
  then show ?thesis using assms(2) by (auto simp: mark_autostart_done_def write_file_def autostart_is_enabled_def)
qed

text \<open>A failing \<open>systemctl\<close> or \<open>launchctl\<close> is reported as success, a failing \<open>schtasks\<close> is not.\<close>

lemma try_enable_unix_ignores_status:
  assumes "dirs_home (os_env S) = Some home" "pf = MacOS \<or> pf = Linux" "\<And>p. os_writable S p"
  shows "\<not> isl (fst (try_enable_autostart S pf None sch fs))"
  using assms by (auto simp: try_enable_autostart_def write_file_def Let_def)

lemma try_enable_windows:
  "\<not> isl (fst (try_enable_autostart S Windows l sch fs)) \<longleftrightarrow> (\<exists>t. sch = Inr (True, t))"
  by (auto simp: try_enable_autostart_def Let_def split: sum.splits prod.splits bool.splits)

text \<open>
  A policy file that cannot be read or parsed is an error of the policy route, and no policy at all to
  the audit report, which is made under the default policy.
\<close>

lemma broken_policy_reported_as_default:
  assumes "gov_from_env S parse fs = Inl e"
  shows "fst (policy_handler (gov_from_env S parse fs)) = 500"
    and "audit_report_handler E gj rj (gov_from_env S parse fs) req = audit_report_handler E gj rj (Inr None) req"
  using assms by (simp_all add: policy_handler_def audit_report_handler_def policy_or_default_def)

lemma gov_empty_document:
  "gov_of_document \<lparr>gd_approval_gates = None, gd_key_rotation = None, gd_max_chain_depth = None,
     gd_allowed_namespaces = None, gd_blocked_capabilities = None, gd_require_human_approval_for = None,
     gd_audit_all_authorizations = None\<rparr> = governance_default"
  by (simp add: gov_of_document_def governance_default_def set_or_def default_max_depth_def default_true_def)

end
