(* ===== verification/A1_Tasks.thy ===== *)
theory A1_Tasks
  imports A1_Runs A1_Context
begin

text \<open>
  Concurrent authorizations, \<open>authorize_async\<close> of \<open>src/chain.rs\<close> as a task: the policy and the structure
  are checked when it is first polled, then it awaits the revocation store once for every certificate, and
  the nonce store at the end. Between two awaits other tasks run and certificates are revoked, and a task that
  waits may be dropped by its caller, which here ends it with some error. A pool is the two stores with all
  tasks there have been; the operations of the stores are atomic.
\<close>

section \<open>Tasks\<close>

datatype auth_task =
    Asking request chain_validation_result "bytes list"
  | Answered request "a1_error + verification_receipt"

definition task_start :: "ext \<Rightarrow> request \<Rightarrow> auth_task" where
  "task_start E q =
     (case bindR (case q_policy q of Some ps \<Rightarrow> set_check_chain ps (q_chain q) | None \<Rightarrow> Inr ()) (\<lambda>_.
             validate_structure E (q_agent q) (q_intent q) (q_proof q) (q_now q) (drift_tolerance_secs (q_chain q)) (q_chain q)) of
        Inl e \<Rightarrow> Answered q (Inl e)
      | Inr v \<Rightarrow> Asking q v (v_cert_fingerprints v))"

text \<open>One await: a question to the revocation store, or the batch given to the nonce store.\<close>

fun task_await ::
  "('r \<Rightarrow> bytes \<Rightarrow> storage_error + bool) \<Rightarrow> (u64 \<Rightarrow> 'n consumer) \<Rightarrow> 'r \<Rightarrow> auth_task \<Rightarrow> 'n \<Rightarrow> auth_task \<times> 'n" where
  "task_await is_rev consume r (Asking q v (fp # fps)) n =
     (case is_rev r fp of
        Inl e \<Rightarrow> Answered q (Inl (StorageFailure e))
      | Inr True \<Rightarrow> Answered q (Inl Revoked)
      | Inr False \<Rightarrow> Asking q v fps, n)"
| "task_await is_rev consume r (Asking q v []) n =
     (case consume (q_store_now q) n (v_seen_nonces v) of
        (Inl e, n') \<Rightarrow> (Answered q (Inl (StorageFailure e)), n')
      | (Inr False, n') \<Rightarrow> (Answered q (Inl NonceReplay), n')
      | (Inr True, n') \<Rightarrow> (Answered q (Inr (receipt_of (q_chain q) v (q_intent q) (v_verified_at v))), n'))"
| "task_await is_rev consume r (Answered q res) n = (Answered q res, n)"

text \<open>A task that runs alone.\<close>

fun task_alone ::
  "nat \<Rightarrow> ('r \<Rightarrow> bytes \<Rightarrow> storage_error + bool) \<Rightarrow> (u64 \<Rightarrow> 'n consumer) \<Rightarrow> 'r \<Rightarrow> auth_task \<times> 'n \<Rightarrow> auth_task \<times> 'n" where
  "task_alone 0 is_rev consume r s = s"
| "task_alone (Suc k) is_rev consume r s = task_alone k is_rev consume r (task_await is_rev consume r (fst s) (snd s))"

lemma task_alone_answered: "task_alone k is_rev consume r (Answered q res, n) = (Answered q res, n)"
  by (induction k) simp_all

lemma asking_alone:
  "task_alone (Suc (length fps)) is_rev consume r (Asking q v fps, n) =
     (case check_revocations (is_rev r) fps of
        Inl e \<Rightarrow> (Answered q (Inl e), n)
      | Inr _ \<Rightarrow> task_await is_rev consume r (Asking q v []) n)"
proof (induction fps)
  case Nil
  show ?case by (simp add: check_revocations_def)
next
  case (Cons fp fps)
  have e: "task_alone (Suc (length (fp # fps))) is_rev consume r (Asking q v (fp # fps), n) =
      task_alone (Suc (length fps)) is_rev consume r (task_await is_rev consume r (Asking q v (fp # fps)) n)" by simp
  show ?case
  proof (cases "is_rev r fp")
    case (Inl x)
    then show ?thesis unfolding e by (simp add: check_revocations_def task_alone_answered)
  next
    case (Inr b)
    then show ?thesis using Cons.IH unfolding e
      by (cases b) (simp_all add: check_revocations_def task_alone_answered del: task_alone.simps)
  qed
qed

text \<open>Alone a task ends after one await per certificate and one more, with what \<open>authorize\<close> decides.\<close>

lemma task_alone_authorize:
  assumes "authorize_inner E (q_agent q) (q_intent q) (q_proof q) (q_now q) (is_rev r) (consume (q_store_now q)) (q_policy q)
    (q_chain q) n = (res, n')"
  shows "task_alone (Suc (length (certs (q_chain q)))) is_rev consume r (task_start E q, n) = (Answered q res, n')"
proof -
  let ?b = "bindR (case q_policy q of Some ps \<Rightarrow> set_check_chain ps (q_chain q) | None \<Rightarrow> Inr ()) (\<lambda>_.
     validate_structure E (q_agent q) (q_intent q) (q_proof q) (q_now q) (drift_tolerance_secs (q_chain q)) (q_chain q))"
  show ?thesis
  proof (cases ?b)
    case (Inl e)
    with assms show ?thesis by (simp add: task_start_def authorize_inner_def task_alone_answered)
  next
    case (Inr v)
    then have "validate_structure E (q_agent q) (q_intent q) (q_proof q) (q_now q) (drift_tolerance_secs (q_chain q)) (q_chain q) = Inr v"
      by (simp add: bindR_Inr_iff)
    then have l: "length (v_cert_fingerprints v) = length (certs (q_chain q))"
      by (auto dest: validate_structure_Inr)
    have s: "task_start E q = Asking q v (v_cert_fingerprints v)" using Inr by (simp add: task_start_def)
    have "task_alone (Suc (length (v_cert_fingerprints v))) is_rev consume r (task_start E q, n) = (Answered q res, n')"
      using assms Inr unfolding s asking_alone
      by (auto simp: authorize_inner_def split: sum.splits prod.splits bool.splits)
    then show ?thesis unfolding l .
  qed
qed

text \<open>All questions answered with no, the task waits for the nonce store.\<close>

lemma asking_through:
  "check_revocations (is_rev r) fps = Inr () \<Longrightarrow>
     task_alone (length fps) is_rev consume r (Asking q v fps, n) = (Asking q v [], n)"
proof (induction fps)
  case (Cons fp fps)
  then have "is_rev r fp = Inr False" "check_revocations (is_rev r) fps = Inr ()"
    by (auto simp: check_revocations_def bindR_Inr_iff map_errR_Inr_iff split: if_splits)
  with Cons.IH show ?case by simp
qed simp

lemma asked_is_answered: "\<exists>res n'. task_await is_rev consume r (Asking q v []) n = (Answered q res, n')"
proof -
  obtain x n' where "consume (q_store_now q) n (v_seen_nonces v) = (x, n')" by (cases "consume (q_store_now q) n (v_seen_nonces v)")
  moreover have "(\<exists>e. x = Inl e) \<or> x = Inr True \<or> x = Inr False" by (cases x) auto
  ultimately show ?thesis by auto
qed

section \<open>Pools\<close>

record ('r, 'n) pool =
  pool_rev :: 'r
  pool_nonces :: 'n
  pool_tasks :: "auth_task list"

inductive pool_step ::
  "ext \<Rightarrow> ('r \<Rightarrow> bytes \<Rightarrow> storage_error + bool) \<Rightarrow> ('r \<Rightarrow> bytes \<Rightarrow> (storage_error + unit) \<times> 'r) \<Rightarrow> (u64 \<Rightarrow> 'n consumer)
     \<Rightarrow> ('r, 'n) pool \<Rightarrow> ('r, 'n) pool \<Rightarrow> bool" for E is_rev rev_one consume where
  spawn: "pool_step E is_rev rev_one consume p (p\<lparr>pool_tasks := pool_tasks p @ [task_start E q]\<rparr>)"
| await: "i < length (pool_tasks p) \<Longrightarrow> task_await is_rev consume (pool_rev p) (pool_tasks p ! i) (pool_nonces p) = (tk, n')
    \<Longrightarrow> pool_step E is_rev rev_one consume p (p\<lparr>pool_nonces := n', pool_tasks := (pool_tasks p)[i := tk]\<rparr>)"
| revoked: "rev_one (pool_rev p) fp = (Inr (), r') \<Longrightarrow> pool_step E is_rev rev_one consume p (p\<lparr>pool_rev := r'\<rparr>)"
| dropped: "i < length (pool_tasks p) \<Longrightarrow> pool_tasks p ! i = Asking q v fps
    \<Longrightarrow> pool_step E is_rev rev_one consume p (p\<lparr>pool_tasks := (pool_tasks p)[i := Answered q (Inl e)]\<rparr>)"

abbreviation pool_run where
  "pool_run E is_rev rev_one consume \<equiv> (pool_step E is_rev rev_one consume)\<^sup>*\<^sup>*"

text \<open>One of the tasks of a pool can be the only one that runs for a while.\<close>

lemma alone_in_pool:
  "i < length (pool_tasks p) \<Longrightarrow> task_alone k is_rev consume (pool_rev p) (pool_tasks p ! i, pool_nonces p) = (tk, n')
    \<Longrightarrow> pool_run E is_rev rev_one consume p (p\<lparr>pool_nonces := n', pool_tasks := (pool_tasks p)[i := tk]\<rparr>)"
proof (induction k arbitrary: p)
  case 0
  then show ?case by (cases p) (auto simp: list_update_id)
next
  case (Suc k)
  obtain t1 n1 where a: "task_await is_rev consume (pool_rev p) (pool_tasks p ! i) (pool_nonces p) = (t1, n1)"
    by (cases "task_await is_rev consume (pool_rev p) (pool_tasks p ! i) (pool_nonces p)")
  let ?p = "p\<lparr>pool_nonces := n1, pool_tasks := (pool_tasks p)[i := t1]\<rparr>"
  have "pool_run E is_rev rev_one consume ?p (?p\<lparr>pool_nonces := n', pool_tasks := (pool_tasks ?p)[i := tk]\<rparr>)"
    using Suc.prems a by (intro Suc.IH) simp_all
  moreover have "pool_step E is_rev rev_one consume p ?p" using Suc.prems(1) a by (rule pool_step.await)
  ultimately show ?case by (simp add: converse_rtranclp_into_rtranclp)
qed

text \<open>The chain a task was granted.\<close>

fun task_granted :: "auth_task \<Rightarrow> dyolo_chain option" where
  "task_granted (Answered q (Inr rc)) = Some (q_chain q)"
| "task_granted _ = None"

definition task_nonces :: "auth_task \<Rightarrow> bytes set" where
  "task_nonces tk = (case task_granted tk of Some c \<Rightarrow> chain_nonces c | None \<Rightarrow> {})"

text \<open>What is true of every task at every moment: it validated its chain, and has so many certificates left to ask about.\<close>

definition validated :: "ext \<Rightarrow> request \<Rightarrow> bool" where
  "validated E q \<longleftrightarrow> policy_ok (q_policy q) (q_chain q)
     \<and> (\<exists>v. validate_structure E (q_agent q) (q_intent q) (q_proof q) (q_now q) (drift_tolerance_secs (q_chain q)) (q_chain q) = Inr v)"

fun task_wf :: "ext \<Rightarrow> auth_task \<Rightarrow> bool" where
  "task_wf E (Asking q v fps) \<longleftrightarrow> validated E q \<and> v_seen_nonces v = map nonce (certs (q_chain q))
     \<and> (\<exists>asked. map (cert_fingerprint E) (certs (q_chain q)) = asked @ fps)"
| "task_wf E (Answered q res) \<longleftrightarrow> (isl res \<or> validated E q)"

text \<open>A task that can still be granted a chain with \<open>fp\<close> has it left to ask about.\<close>

fun must_ask :: "ext \<Rightarrow> bytes \<Rightarrow> auth_task \<Rightarrow> bool" where
  "must_ask E fp (Asking q v fps) \<longleftrightarrow> (fp \<in> chain_fps E (q_chain q) \<longrightarrow> fp \<in> set fps)"
| "must_ask E fp (Answered q res) \<longleftrightarrow> (isl res \<or> fp \<notin> chain_fps E (q_chain q))"

lemma task_start_wf: "task_wf E (task_start E q)" "must_ask E fp (task_start E q)" "task_nonces (task_start E q) = {}"
proof -
  let ?b = "bindR (case q_policy q of Some ps \<Rightarrow> set_check_chain ps (q_chain q) | None \<Rightarrow> Inr ()) (\<lambda>_.
     validate_structure E (q_agent q) (q_intent q) (q_proof q) (q_now q) (drift_tolerance_secs (q_chain q)) (q_chain q))"
  have "task_wf E (task_start E q) \<and> must_ask E fp (task_start E q) \<and> task_nonces (task_start E q) = {}"
  proof (cases ?b)
    case (Inl e)
    then show ?thesis by (simp add: task_start_def task_nonces_def)
  next
    case (Inr v)
    then have v: "validate_structure E (q_agent q) (q_intent q) (q_proof q) (q_now q) (drift_tolerance_secs (q_chain q)) (q_chain q) = Inr v"
      and "policy_ok (q_policy q) (q_chain q)" by (auto simp: bindR_Inr_iff policy_ok_def split: option.splits)
    then have "validated E q" by (auto simp: validated_def)
    with Inr validate_structure_Inr [OF v] show ?thesis
      by (simp add: task_start_def task_nonces_def chain_fps_def)
  qed
  then show "task_wf E (task_start E q)" "must_ask E fp (task_start E q)" "task_nonces (task_start E q) = {}" by blast+
qed

definition pool_inv ::
  "ext \<Rightarrow> ('r \<Rightarrow> bool) \<Rightarrow> ('n \<Rightarrow> bool) \<Rightarrow> (u64 \<Rightarrow> 'n \<Rightarrow> bytes set) \<Rightarrow> ('r, 'n) pool \<Rightarrow> bool" where
  "pool_inv E rinv ninv used p \<longleftrightarrow> rinv (pool_rev p) \<and> ninv (pool_nonces p)
     \<and> (\<forall>tk\<in>set (pool_tasks p). task_wf E tk \<and> task_nonces tk \<subseteq> used 0 (pool_nonces p))
     \<and> (\<forall>i<length (pool_tasks p). \<forall>j<length (pool_tasks p). i \<noteq> j \<longrightarrow>
          task_nonces (pool_tasks p ! i) \<inter> task_nonces (pool_tasks p ! j) = {})"

locale shared_stores =
  rev: revocation_store is_rev rev_one rinv revoked + nonces: persistent_nonce_store consume ninv used
  for is_rev :: "'r \<Rightarrow> bytes \<Rightarrow> storage_error + bool"
    and rev_one :: "'r \<Rightarrow> bytes \<Rightarrow> (storage_error + unit) \<times> 'r"
    and rinv :: "'r \<Rightarrow> bool"
    and revoked :: "'r \<Rightarrow> bytes set"
    and consume :: "u64 \<Rightarrow> 'n \<Rightarrow> bytes list \<Rightarrow> (storage_error + bool) \<times> 'n"
    and ninv :: "'n \<Rightarrow> bool"
    and used :: "u64 \<Rightarrow> 'n \<Rightarrow> bytes set"
begin

text \<open>An await: the task stays well formed, and what it is granted was not in use and is from now on.\<close>

lemma await_ok:
  assumes "rinv r" "ninv n" "task_wf E tk" "task_await is_rev consume r tk n = (tk', n')"
  shows "ninv n' \<and> task_wf E tk' \<and> (task_nonces tk' = task_nonces tk \<and> n' = n
      \<or> task_nonces tk = {} \<and> task_nonces tk' \<inter> used 0 n = {} \<and> used 0 n' = task_nonces tk' \<union> used 0 n)"
proof (cases tk)
  case (Answered q res)
  with assms show ?thesis by auto
next
  case (Asking q v fps)
  show ?thesis
  proof (cases fps)
    case (Cons fp rest)
    with assms Asking rev.is_rev_spec [OF assms(1), of fp] show ?thesis
      by (auto simp: task_nonces_def split: bool.splits)
  next
    case Nil
    have v: "v_seen_nonces v = map nonce (certs (q_chain q))" "validated E q" using assms(3) Asking by auto
    show ?thesis
    proof (cases "chain_nonces (q_chain q) \<inter> used (q_store_now q) n = {}")
      case True
      then obtain n1 where "consume (q_store_now q) n (v_seen_nonces v) = (Inr True, n1)" "ninv n1"
          "used (q_store_now q) n1 = chain_nonces (q_chain q) \<union> used (q_store_now q) n"
        using nonces.consume_fresh [OF assms(2), of "v_seen_nonces v" "q_store_now q"] by (auto simp: v chain_nonces_def)
      with assms(2,4) Asking Nil v(2) True nonces.used_time [of n "q_store_now q" 0] nonces.used_time [of n1 "q_store_now q" 0]
      show ?thesis by (auto simp: task_nonces_def)
    next
      case False
      then have "consume (q_store_now q) n (v_seen_nonces v) = (Inr False, n)"
        using nonces.consume_refused [OF assms(2), of "v_seen_nonces v" "q_store_now q"] by (simp add: v chain_nonces_def)
      with assms Asking Nil show ?thesis by (auto simp: task_nonces_def)
    qed
  qed
qed

lemma await_must_ask:
  assumes "rinv r" "fp \<in> revoked r" "must_ask E fp tk" "task_await is_rev consume r tk n = (tk', n')"
  shows "must_ask E fp tk'"
proof (cases tk)
  case (Answered q res)
  with assms show ?thesis by auto
next
  case (Asking q v fps)
  show ?thesis
  proof (cases fps)
    case Nil
    with assms Asking show ?thesis by (auto split: sum.splits bool.splits prod.splits)
  next
    case (Cons f rest)
    with assms Asking rev.is_rev_spec [OF assms(1), of f] show ?thesis by (auto split: bool.splits)
  qed
qed

text \<open>The invariant of a pool holds after every step.\<close>

lemma inv_spawn: "pool_inv E rinv ninv used p \<Longrightarrow> pool_inv E rinv ninv used (p\<lparr>pool_tasks := pool_tasks p @ [task_start E q]\<rparr>)"
  unfolding pool_inv_def by (auto simp: task_start_wf nth_append less_Suc_eq)

lemma inv_await:
  assumes "pool_inv E rinv ninv used p" "i < length (pool_tasks p)"
    and "task_await is_rev consume (pool_rev p) (pool_tasks p ! i) (pool_nonces p) = (tk, n')"
  shows "pool_inv E rinv ninv used (p\<lparr>pool_nonces := n', pool_tasks := (pool_tasks p)[i := tk]\<rparr>)"
proof -
  let ?ts = "pool_tasks p"
  from assms(1) have i: "rinv (pool_rev p)" "ninv (pool_nonces p)"
    and wf: "\<And>j. j < length ?ts \<Longrightarrow> task_wf E (?ts ! j) \<and> task_nonces (?ts ! j) \<subseteq> used 0 (pool_nonces p)"
    and dj: "\<And>j k. j < length ?ts \<Longrightarrow> k < length ?ts \<Longrightarrow> j \<noteq> k \<Longrightarrow> task_nonces (?ts ! j) \<inter> task_nonces (?ts ! k) = {}"
    by (auto simp: pool_inv_def)
  note a = await_ok [OF i conjunct1 [OF wf [OF assms(2)]] assms(3)]
  have u: "used 0 (pool_nonces p) \<subseteq> used 0 n'" "task_nonces tk \<subseteq> used 0 n'"
    using a wf [OF assms(2)] by auto
  have other: "task_nonces tk \<inter> task_nonces (?ts ! j) = {}" if "j < length ?ts" "j \<noteq> i" for j
  proof -
    from a consider "task_nonces tk = task_nonces (?ts ! i)" | "task_nonces tk \<inter> used 0 (pool_nonces p) = {}" by blast
    then show ?thesis using dj [OF assms(2) that(1)] wf [OF that(1)] that(2) by cases auto
  qed
  show ?thesis unfolding pool_inv_def
  proof (intro conjI allI ballI impI)
    fix t assume "t \<in> set (pool_tasks (p\<lparr>pool_nonces := n', pool_tasks := ?ts[i := tk]\<rparr>))"
    then obtain j where j: "j < length ?ts" "t = ?ts[i := tk] ! j" by (auto simp: in_set_conv_nth)
    then show "task_wf E t" "task_nonces t \<subseteq> used 0 (pool_nonces (p\<lparr>pool_nonces := n', pool_tasks := ?ts[i := tk]\<rparr>))"
      using a u wf [OF j(1)] by (cases "j = i"; auto)+
  next
    fix j k
    assume "j < length (pool_tasks (p\<lparr>pool_nonces := n', pool_tasks := ?ts[i := tk]\<rparr>))"
      "k < length (pool_tasks (p\<lparr>pool_nonces := n', pool_tasks := ?ts[i := tk]\<rparr>))" "j \<noteq> k"
    then show "task_nonces (pool_tasks (p\<lparr>pool_nonces := n', pool_tasks := ?ts[i := tk]\<rparr>) ! j)
        \<inter> task_nonces (pool_tasks (p\<lparr>pool_nonces := n', pool_tasks := ?ts[i := tk]\<rparr>) ! k) = {}"
      using dj [of j k] other [of j] other [of k] by (cases "j = i"; cases "k = i") auto
  qed (use a i in simp_all)
qed

lemma inv_dropped:
  assumes "pool_inv E rinv ninv used p" "i < length (pool_tasks p)"
  shows "pool_inv E rinv ninv used (p\<lparr>pool_tasks := (pool_tasks p)[i := Answered q (Inl e)]\<rparr>)"
proof -
  have "task_wf E (Answered q (Inl e))" "task_nonces (Answered q (Inl e)) = {}" by (simp_all add: task_nonces_def)
  with assms show ?thesis
    by (auto simp: pool_inv_def nth_list_update dest!: set_update_subset_insert [THEN subsetD])
qed

lemma inv_step:
  assumes "pool_step E is_rev rev_one consume p p'" "pool_inv E rinv ninv used p"
  shows "pool_inv E rinv ninv used p'"
  using assms
proof (cases rule: pool_step.cases)
  case (revoked fp r')
  then show ?thesis using assms(2) rev.rev_inv [of "pool_rev p" fp] by (auto simp: pool_inv_def)
qed (auto intro: inv_spawn inv_await inv_dropped)

lemma inv_run: "pool_run E is_rev rev_one consume p p' \<Longrightarrow> pool_inv E rinv ninv used p \<Longrightarrow> pool_inv E rinv ninv used p'"
  by (induction rule: rtranclp_induct) (auto intro: inv_step)

text \<open>
  A certificate that is revoked when a task is spawned stays revoked and is asked about, so the task is
  not granted a chain with it: this is invariant for all the tasks from position \<open>k\<close> on.
\<close>

definition revoked_before :: "ext \<Rightarrow> bytes \<Rightarrow> nat \<Rightarrow> ('r, 'n) pool \<Rightarrow> bool" where
  "revoked_before E fp k p \<longleftrightarrow> fp \<in> revoked (pool_rev p) \<and> k \<le> length (pool_tasks p)
     \<and> (\<forall>i. k \<le> i \<longrightarrow> i < length (pool_tasks p) \<longrightarrow> must_ask E fp (pool_tasks p ! i))"

lemma revoked_before_step:
  assumes "pool_step E is_rev rev_one consume p p'" "pool_inv E rinv ninv used p" "revoked_before E fp k p"
  shows "revoked_before E fp k p'"
  using assms(1)
proof (cases rule: pool_step.cases)
  case (spawn q)
  then show ?thesis using assms(3) by (auto simp: revoked_before_def nth_append task_start_wf)
next
  case (await i tk n')
  have r: "rinv (pool_rev p)" "fp \<in> revoked (pool_rev p)" using assms(2,3) by (auto simp: pool_inv_def revoked_before_def)
  have "must_ask E fp tk" if "k \<le> i"
    using await_must_ask [OF r _ await(3)] assms(3) that await(2) by (auto simp: revoked_before_def)
  with await assms(3) show ?thesis by (auto simp: revoked_before_def nth_list_update)
next
  case (revoked fp' r')
  then show ?thesis using assms(2,3) rev.rev_set [of "pool_rev p" fp'] by (auto simp: revoked_before_def pool_inv_def)
next
  case (dropped i q v fps e)
  then show ?thesis using assms(3) by (auto simp: revoked_before_def nth_list_update)
qed

lemma revoked_before_run:
  assumes "pool_run E is_rev rev_one consume p p'" "pool_inv E rinv ninv used p" "revoked_before E fp k p"
  shows "revoked_before E fp k p'"
proof -
  have "pool_inv E rinv ninv used p' \<and> revoked_before E fp k p'"
    using assms by (induction rule: rtranclp_induct) (auto intro: inv_step revoked_before_step)
  then show ?thesis ..
qed

text \<open>What the tasks of any run were granted.\<close>

lemma pool_grants:
  assumes run: "pool_run E is_rev rev_one consume p p'" and i: "pool_inv E rinv ninv used p"
  shows "i < length (pool_tasks p') \<Longrightarrow> pool_tasks p' ! i = Answered q (Inr rc) \<Longrightarrow>
      validated E q \<and> chain_nonces (q_chain q) \<subseteq> used 0 (pool_nonces p')"
    and "i < length (pool_tasks p') \<Longrightarrow> j < length (pool_tasks p') \<Longrightarrow> i \<noteq> j \<Longrightarrow>
      task_nonces (pool_tasks p' ! i) \<inter> task_nonces (pool_tasks p' ! j) = {}"
    and "fp \<in> revoked (pool_rev p) \<Longrightarrow> length (pool_tasks p) \<le> i \<Longrightarrow> i < length (pool_tasks p')
      \<Longrightarrow> pool_tasks p' ! i = Answered q (Inr rc) \<Longrightarrow> fp \<notin> chain_fps E (q_chain q)"
proof -
  have i': "pool_inv E rinv ninv used p'" using inv_run [OF run i] .
  show "i < length (pool_tasks p') \<Longrightarrow> pool_tasks p' ! i = Answered q (Inr rc) \<Longrightarrow>
      validated E q \<and> chain_nonces (q_chain q) \<subseteq> used 0 (pool_nonces p')"
    using i' nth_mem [of i "pool_tasks p'"] by (fastforce simp: pool_inv_def task_nonces_def)
  show "i < length (pool_tasks p') \<Longrightarrow> j < length (pool_tasks p') \<Longrightarrow> i \<noteq> j \<Longrightarrow>
      task_nonces (pool_tasks p' ! i) \<inter> task_nonces (pool_tasks p' ! j) = {}"
    using i' by (simp add: pool_inv_def)
  assume "fp \<in> revoked (pool_rev p)" and k: "length (pool_tasks p) \<le> i" "i < length (pool_tasks p')"
    and a: "pool_tasks p' ! i = Answered q (Inr rc)"
  then have "revoked_before E fp (length (pool_tasks p)) p" by (auto simp: revoked_before_def)
  from revoked_before_run [OF run i this] k a show "fp \<notin> chain_fps E (q_chain q)"
    by (auto simp: revoked_before_def)
qed

end

interpretation mem_tasks: shared_stores mem_is_revoked mem_revoke mem_rev_inv revoked_set
  mem_try_consume_batch nonce_inv_forever live ..

end
