(* ===== verification/A1_GwTasks.thy ===== *)
theory A1_GwTasks
  imports A1_Tasks A1_GwPassports
begin

text \<open>
  The gateway's requests as they run side by side: \<open>a1-gateway/src/routes/authorize.rs\<close> and
  \<open>cert.rs\<close> over stores in memory. A request for an authorization, of one intent or of a batch, is
  accepted, parsed and validated in one turn, and then awaits the revocation store once for every
  certificate and the nonce store at the end. Between two of its awaits any other request may run, and
  its client may go away. Left alone it is its handler; among others it is a task of
  \<open>A1_Tasks\<close>, so that what holds of all interleavings of those holds of the gateway's requests.
\<close>

section \<open>Requests and answers\<close>

record gateway_env =
  ge_hex_msg :: "string \<Rightarrow> string"
  ge_pk_msg :: "bytes \<Rightarrow> string"
  ge_state :: app_state
  ge_os :: os
  ge_codec :: codec

text \<open>A request with the answer it got.\<close>

datatype gateway_call =
    GwAuthorize authorize_request "(error_body + authorize_response) response"
  | GwBatch batch_authorize_request "(error_body + batch_authorize_response) response"
  | GwRevoke string "(string + string) response"
  | GwRevokeBatch "string list" "(string + revoke_batch_response) response"
  | GwRevokeNamespace revoke_by_namespace_request revoke_by_namespace_response
  | GwOther

text \<open>What a client was told: the certificates of the chain that was authorized, the fingerprints that were revoked.\<close>

fun gw_granted :: "gateway_call \<Rightarrow> delegation_cert list" where
  "gw_granted (GwAuthorize req (st, Inr resp)) = sc_certs (ag_chain req)"
| "gw_granted (GwBatch req (st, Inr resp)) =
     (if bo_all_authorized resp \<and> br_intents req \<noteq> [] then sc_certs (br_chain req) else [])"
| "gw_granted _ = []"

fun gw_revoked :: "ext \<Rightarrow> gateway_call \<Rightarrow> bytes set" where
  "gw_revoked E (GwRevoke h (st, Inr _)) = {fp. parse_fp E h = Inr fp}"
| "gw_revoked E (GwRevokeBatch hs (st, Inr _)) = {fp. \<exists>h\<in>set hs. decode_fp E h = Some fp}"
| "gw_revoked E (GwRevokeNamespace req r) = (if rns_success r then {fp. rns_fingerprint_hex r = Some (hex_enc E fp)} else {})"
| "gw_revoked E _ = {}"

lemma intent_pairs_Nil: "intent_pairs E rs = Inr ps \<Longrightarrow> ps = [] \<longleftrightarrow> rs = []"
  by (auto simp: intent_pairs_def traverse_Inr_iff)

lemma set_map_filter: "set (List.map_filter f xs) = {y. \<exists>x\<in>set xs. f x = Some y}"
  by (induction xs) (auto simp: List.map_filter_simps split: option.splits)

section \<open>Requests under way\<close>

datatype gw_task =
    AuthorizeTask authorize_request request chain_validation_result "bytes list"
  | BatchTask batch_authorize_request batch_request chain_validation_result "bytes list"
  | Replied gateway_call

fun waiting_task :: "gw_task \<Rightarrow> bool" where
  "waiting_task (Replied c) \<longleftrightarrow> False"
| "waiting_task _ \<longleftrightarrow> True"

definition authorize_reply ::
  "ext \<Rightarrow> app_state \<Rightarrow> authorize_request \<Rightarrow> a1_error + verification_receipt \<Rightarrow> gw_task" where
  "authorize_reply E st req r =
     Replied (GwAuthorize req
       (case r of Inr rc \<Rightarrow> (200, Inr (authorize_response_of E st req rc))
        | Inl e \<Rightarrow> (if is_transient_storage_failure e then 503 else 403, Inl \<lparr>eb_error = display_error e, eb_code = error_code e\<rparr>)))"

definition start_authorize :: "ext \<Rightarrow> gateway_env \<Rightarrow> u64 \<Rightarrow> u64 \<Rightarrow> authorize_request \<Rightarrow> gw_task" where
  "start_authorize E G now t req =
     (case bindR (executor_key E (ag_executor_pk_hex req)) (\<lambda>pk.
           bindR (build_intent (ag_intent_name req) (ag_intent_params req)) (\<lambda>i.
           bindR (into_chain_with_drift E (ge_hex_msg G) (ge_pk_msg G) 15 (ag_chain req)) (\<lambda>c.
           Inr (pk, intent_hash_of E i, c)))) of
        Inl e \<Rightarrow> authorize_reply E (ge_state G) req (Inl e)
      | Inr (pk, intent, c) \<Rightarrow>
          (case validate_structure E pk intent proof_default now (drift_tolerance_secs c) c of
             Inl e \<Rightarrow> authorize_reply E (ge_state G) req (Inl e)
           | Inr v \<Rightarrow> AuthorizeTask req \<lparr>q_agent = pk, q_intent = intent, q_proof = proof_default, q_now = now, q_store_now = t,
                        q_policy = None, q_chain = c\<rparr> v (v_cert_fingerprints v)))"

definition batch_reply :: "ext \<Rightarrow> batch_authorize_request \<Rightarrow> batch_authorize_result \<Rightarrow> gw_task" where
  "batch_reply E req b = Replied (GwBatch req (200, Inr (batch_response_of E (br_intents req) b)))"

definition batch_refused :: "batch_authorize_request \<Rightarrow> a1_error \<Rightarrow> gw_task" where
  "batch_refused req e = Replied (GwBatch req (400, Inl \<lparr>eb_error = display_error e, eb_code = error_code e\<rparr>))"

definition start_batch :: "ext \<Rightarrow> gateway_env \<Rightarrow> u64 \<Rightarrow> u64 \<Rightarrow> u64 \<Rightarrow> batch_authorize_request \<Rightarrow> gw_task" where
  "start_batch E G now now' t req =
     (if length (br_intents req) > MAX_BATCH_SIZE
      then batch_refused req (WireFormatError (''Batch size '' @ dec (length (br_intents req)) @ '' exceeds maximum allowed of ''
             @ dec MAX_BATCH_SIZE))
      else case bindR (executor_key E (br_executor_pk_hex req)) (\<lambda>pk.
                bindR (into_chain_with_drift E (ge_hex_msg G) (ge_pk_msg G) 15 (br_chain req)) (\<lambda>c.
                bindR (intent_pairs E (br_intents req)) (\<lambda>ps. Inr (pk, c, ps)))) of
             Inl e \<Rightarrow> batch_refused req e
           | Inr (pk, c, ps) \<Rightarrow>
               if ps = [] then batch_reply E req \<lparr>receipts = [], errors = [], all_authorized = True\<rparr>
               else (case validate_structure E pk (fst (hd ps)) (snd (hd ps)) now' (drift_tolerance_secs c) c of
                       Inl e \<Rightarrow> batch_reply E req (batch_failure (length ps) (\<lambda>i. BatchItemFailed i (display_error e)))
                     | Inr v \<Rightarrow> BatchTask req \<lparr>bq_agent = pk, bq_intents = ps, bq_now = now, bq_check_now = now', bq_store_now = t,
                                  bq_chain = c\<rparr> v (v_cert_fingerprints v)))"

text \<open>One await of a request that is under way. The items of a batch are checked in the turn of its last question.\<close>

definition batch_items :: "ext \<Rightarrow> batch_request \<Rightarrow> chain_validation_result \<Rightarrow> (verification_receipt option \<times> a1_error option) list" where
  "batch_items E bq v = map (\<lambda>(i, x). batch_item E (bq_chain bq) v (bq_now bq) i x) (zip [0..<length (bq_intents bq)] (bq_intents bq))"

fun gw_await ::
  "ext \<Rightarrow> gateway_env \<Rightarrow> memory_revocation_store \<Rightarrow> gw_task \<Rightarrow> memory_nonce_store \<Rightarrow> gw_task \<times> memory_nonce_store" where
  "gw_await E G r (AuthorizeTask req q v (fp # fps)) n =
     (case mem_is_revoked r fp of
        Inl e \<Rightarrow> authorize_reply E (ge_state G) req (Inl (StorageFailure e))
      | Inr True \<Rightarrow> authorize_reply E (ge_state G) req (Inl Revoked)
      | Inr False \<Rightarrow> AuthorizeTask req q v fps, n)"
| "gw_await E G r (AuthorizeTask req q v []) n =
     (case mem_try_consume_batch (q_store_now q) n (v_seen_nonces v) of
        (Inl e, n') \<Rightarrow> (authorize_reply E (ge_state G) req (Inl (StorageFailure e)), n')
      | (Inr False, n') \<Rightarrow> (authorize_reply E (ge_state G) req (Inl NonceReplay), n')
      | (Inr True, n') \<Rightarrow>
          (authorize_reply E (ge_state G) req (Inr (receipt_of (q_chain q) v (q_intent q) (v_verified_at v))), n'))"
| "gw_await E G r (BatchTask req bq v (fp # fps)) n =
     (case mem_is_revoked r fp of
        Inl e \<Rightarrow> batch_reply E req (batch_failure (length (bq_intents bq)) (\<lambda>_. BatchItemFailed 0 (display_error (StorageFailure e))))
      | Inr True \<Rightarrow> batch_reply E req (batch_failure (length (bq_intents bq)) (\<lambda>_. Revoked))
      | Inr False \<Rightarrow> BatchTask req bq v fps, n)"
| "gw_await E G r (BatchTask req bq v []) n =
     (let items = batch_items E bq v; rs = map fst items; es = map snd items in
      if \<not> list_all (\<lambda>e. e = None) es
      then (batch_reply E req \<lparr>receipts = rs, errors = es, all_authorized = False\<rparr>, n)
      else (case mem_try_consume_batch (bq_store_now bq) n (v_seen_nonces v) of
          (Inr True, n') \<Rightarrow> (batch_reply E req \<lparr>receipts = rs, errors = es, all_authorized = True\<rparr>, n')
        | (Inr False, n') \<Rightarrow> (batch_reply E req (batch_failure (length (bq_intents bq)) (\<lambda>_. NonceReplay)), n')
        | (Inl e, n') \<Rightarrow> (batch_reply E req (batch_failure (length (bq_intents bq))
              (\<lambda>_. BatchItemFailed 0 (display_error (StorageFailure e)))), n')))"
| "gw_await E G r (Replied c) n = (Replied c, n)"

section \<open>Alone it is the handler\<close>

fun gw_alone ::
  "nat \<Rightarrow> ext \<Rightarrow> gateway_env \<Rightarrow> memory_revocation_store \<Rightarrow> gw_task \<times> memory_nonce_store \<Rightarrow> gw_task \<times> memory_nonce_store" where
  "gw_alone 0 E G r s = s"
| "gw_alone (Suc k) E G r s = gw_alone k E G r (gw_await E G r (fst s) (snd s))"

lemma gw_alone_replied [simp]: "gw_alone k E G r (Replied c, n) = (Replied c, n)"
  by (induction k) simp_all

lemma replies [simp]: "gw_alone k E G r (authorize_reply E' st req x, n) = (authorize_reply E' st req x, n)"
  "gw_alone k E G r (batch_reply E' req' b, n) = (batch_reply E' req' b, n)"
  "gw_alone k E G r (batch_refused req' e, n) = (batch_refused req' e, n)"
  by (simp_all add: authorize_reply_def batch_reply_def batch_refused_def)

lemma authorize_task_alone:
  "gw_alone (Suc (length fps)) E G r (AuthorizeTask req q v fps, n) =
     (case check_revocations (mem_is_revoked r) fps of
        Inl e \<Rightarrow> (authorize_reply E (ge_state G) req (Inl e), n)
      | Inr _ \<Rightarrow> gw_await E G r (AuthorizeTask req q v []) n)"
proof (induction fps)
  case (Cons fp fps)
  have e: "gw_alone (Suc (length (fp # fps))) E G r (AuthorizeTask req q v (fp # fps), n) =
      gw_alone (Suc (length fps)) E G r (gw_await E G r (AuthorizeTask req q v (fp # fps)) n)" by simp
  show ?case
  proof (cases "mem_is_revoked r fp")
    case (Inl x)
    then show ?thesis unfolding e by (simp add: check_revocations_def del: gw_alone.simps)
  next
    case (Inr b)
    then show ?thesis using Cons.IH unfolding e by (cases b) (simp_all add: check_revocations_def del: gw_alone.simps)
  qed
qed (simp add: check_revocations_def)

lemma batch_task_alone:
  "gw_alone (Suc (length fps)) E G r (BatchTask req bq v fps, n) =
     (case check_revocations_batch (mem_is_revoked r) (length (bq_intents bq)) fps of
        Inl b \<Rightarrow> (batch_reply E req b, n)
      | Inr _ \<Rightarrow> gw_await E G r (BatchTask req bq v []) n)"
proof (induction fps)
  case (Cons fp fps)
  have e: "gw_alone (Suc (length (fp # fps))) E G r (BatchTask req bq v (fp # fps), n) =
      gw_alone (Suc (length fps)) E G r (gw_await E G r (BatchTask req bq v (fp # fps)) n)" by simp
  show ?case
  proof (cases "mem_is_revoked r fp")
    case (Inl x)
    then show ?thesis unfolding e by (simp del: gw_alone.simps)
  next
    case (Inr b)
    then show ?thesis using Cons.IH unfolding e by (cases b) (simp_all del: gw_alone.simps)
  qed
qed simp

text \<open>The request left alone ends as its handler does, after one await per certificate and one more.\<close>

lemma start_authorize_alone:
  assumes "authorize_handler E (ge_hex_msg G) (ge_pk_msg G) rnd (ge_state G) now0 now now' (mem_is_revoked r)
    (mem_try_consume_batch t) req n = ((res, n'), evs)"
  shows "\<exists>k. gw_alone k E G r (start_authorize E G now t req, n) = (Replied (GwAuthorize req res), n')"
proof -
  let ?parsed = "bindR (executor_key E (ag_executor_pk_hex req)) (\<lambda>pk.
     bindR (build_intent (ag_intent_name req) (ag_intent_params req)) (\<lambda>i.
     bindR (into_chain_with_drift E (ge_hex_msg G) (ge_pk_msg G) 15 (ag_chain req)) (\<lambda>c. Inr (pk, intent_hash_of E i, c))))"
  show ?thesis
  proof (cases ?parsed)
    case (Inl e)
    with assms show ?thesis
      by (auto simp: start_authorize_def authorize_handler_def gw_authorize_inner_def authorize_reply_def Let_def
          intro: exI [of _ 0])
  next
    case (Inr x)
    obtain pk i c where x: "x = (pk, i, c)" by (cases x)
    show ?thesis
    proof (cases "validate_structure E pk i proof_default now (drift_tolerance_secs c) c")
      case v: (Inl e)
      with assms Inr x show ?thesis
        by (auto simp: start_authorize_def authorize_handler_def gw_authorize_inner_def authorize_reply_def Let_def
            authorize_async_inner authorize_inner_def intro: exI [of _ 0])
    next
      case v: (Inr v)
      let ?q = "\<lparr>q_agent = pk, q_intent = i, q_proof = proof_default, q_now = now, q_store_now = t, q_policy = None, q_chain = c\<rparr>"
      have s: "start_authorize E G now t req = AuthorizeTask req ?q v (v_cert_fingerprints v)"
        using Inr x v by (simp add: start_authorize_def)
      have "gw_alone (Suc (length (v_cert_fingerprints v))) E G r (start_authorize E G now t req, n) = (Replied (GwAuthorize req res), n')"
        using assms Inr x v unfolding s authorize_task_alone
        by (auto simp: authorize_handler_def gw_authorize_inner_def authorize_reply_def Let_def
            authorize_async_inner authorize_inner_def split: sum.splits prod.splits bool.splits)
      then show ?thesis by blast
    qed
  qed
qed

lemma start_batch_alone:
  assumes "batch_handler E (ge_hex_msg G) (ge_pk_msg G) now now' (mem_is_revoked r) (mem_try_consume_batch t) req n = (res, n')"
  shows "\<exists>k. gw_alone k E G r (start_batch E G now now' t req, n) = (Replied (GwBatch req res), n')"
proof -
  let ?parsed = "bindR (executor_key E (br_executor_pk_hex req)) (\<lambda>pk.
     bindR (into_chain_with_drift E (ge_hex_msg G) (ge_pk_msg G) 15 (br_chain req)) (\<lambda>c.
     bindR (intent_pairs E (br_intents req)) (\<lambda>ps. Inr (pk, c, ps))))"
  show ?thesis
  proof (cases "length (br_intents req) > MAX_BATCH_SIZE \<or> isl ?parsed")
    case True
    with assms show ?thesis
      by (auto simp: start_batch_def batch_handler_def batch_inner_def batch_refused_def isl_def intro: exI [of _ 0] split: if_splits)
  next
    case False
    then obtain pk c ps where p: "?parsed = Inr (pk, c, ps)" and len: "\<not> length (br_intents req) > MAX_BATCH_SIZE"
      by (cases ?parsed) auto
    note h = assms [unfolded batch_handler_def batch_inner_def p sum.case prod.case authorize_batch_async_eq]
    show ?thesis
    proof (cases "ps = [] \<or> isl (validate_structure E pk (fst (hd ps)) (snd (hd ps)) now' (drift_tolerance_secs c) c)")
      case True
      with h len p show ?thesis
        by (auto simp: start_batch_def batch_reply_def authorize_batch_def Let_def isl_def intro: exI [of _ 0])
    next
      case False
      then obtain v where v: "validate_structure E pk (fst (hd ps)) (snd (hd ps)) now' (drift_tolerance_secs c) c = Inr v" and ne: "ps \<noteq> []"
        by (cases "validate_structure E pk (fst (hd ps)) (snd (hd ps)) now' (drift_tolerance_secs c) c") auto
      let ?bq = "\<lparr>bq_agent = pk, bq_intents = ps, bq_now = now, bq_check_now = now', bq_store_now = t, bq_chain = c\<rparr>"
      have s: "start_batch E G now now' t req = BatchTask req ?bq v (v_cert_fingerprints v)"
        using len p v ne by (simp add: start_batch_def)
      have "gw_alone (Suc (length (v_cert_fingerprints v))) E G r (start_batch E G now now' t req, n) = (Replied (GwBatch req res), n')"
        using h len v ne unfolding s batch_task_alone
        by (auto simp: batch_reply_def authorize_batch_def batch_items_def Let_def split: sum.splits prod.splits bool.splits if_splits)
      then show ?thesis by blast
    qed
  qed
qed

section \<open>The gateway with its requests\<close>

record gateway_now =
  gc_rev :: memory_revocation_store
  gc_nonces :: memory_nonce_store
  gc_files :: files
  gc_tasks :: "gw_task list"

definition fresh_gateway :: "files \<Rightarrow> gateway_now" where
  "fresh_gateway fs = \<lparr>gc_rev = mem_rev_new, gc_nonces = mem_nonce_new, gc_files = fs, gc_tasks = []\<rparr>"

text \<open>
  A request is accepted; a request under way takes one of its awaits, or is dropped when its client goes
  away; a route that revokes does so; files change otherwise. Every request keeps its place in \<open>gc_tasks\<close>.
\<close>

inductive gateway_step :: "ext \<Rightarrow> gateway_env \<Rightarrow> gateway_now \<Rightarrow> gateway_now \<Rightarrow> bool" for E G where
  accept_authorize: "gateway_step E G g (g\<lparr>gc_tasks := gc_tasks g @ [start_authorize E G now t req]\<rparr>)"
| accept_batch: "gateway_step E G g (g\<lparr>gc_tasks := gc_tasks g @ [start_batch E G now now' t breq]\<rparr>)"
| await_store: "i < length (gc_tasks g) \<Longrightarrow> gw_await E G (gc_rev g) (gc_tasks g ! i) (gc_nonces g) = (tk, n')
    \<Longrightarrow> gateway_step E G g (g\<lparr>gc_nonces := n', gc_tasks := (gc_tasks g)[i := tk]\<rparr>)"
| client_gone: "i < length (gc_tasks g) \<Longrightarrow> waiting_task (gc_tasks g ! i)
    \<Longrightarrow> gateway_step E G g (g\<lparr>gc_tasks := (gc_tasks g)[i := Replied GwOther]\<rparr>)"
| revoke_one: "revoke_handler E mem_revoke h (gc_rev g) = (rres, r')
    \<Longrightarrow> gateway_step E G g (g\<lparr>gc_rev := r', gc_tasks := gc_tasks g @ [Replied (GwRevoke h rres)]\<rparr>)"
| revoke_many: "revoke_batch_handler E mem_revoke_batch hs (gc_rev g) = (rbres, r')
    \<Longrightarrow> gateway_step E G g (g\<lparr>gc_rev := r', gc_tasks := gc_tasks g @ [Replied (GwRevokeBatch hs rbres)]\<rparr>)"
| revoke_namespace: "revoke_by_namespace_handler (ge_os G) E (ge_codec G) (\<lambda>fp s. mem_revoke s fp) nreq (gc_files g) (gc_rev g) = (nres, fs', r')
    \<Longrightarrow> gateway_step E G g (g\<lparr>gc_rev := r', gc_files := fs', gc_tasks := gc_tasks g @ [Replied (GwRevokeNamespace nreq nres)]\<rparr>)"
| other_files: "gateway_step E G g (g\<lparr>gc_files := fs'\<rparr>)"

abbreviation gateway_run where "gateway_run E G \<equiv> (gateway_step E G)\<^sup>*\<^sup>*"

text \<open>A request can be the only one that runs for a while.\<close>

lemma alone_in_gateway:
  "i < length (gc_tasks g) \<Longrightarrow> gw_alone k E G (gc_rev g) (gc_tasks g ! i, gc_nonces g) = (tk, n')
    \<Longrightarrow> gateway_run E G g (g\<lparr>gc_nonces := n', gc_tasks := (gc_tasks g)[i := tk]\<rparr>)"
proof (induction k arbitrary: g)
  case 0
  then show ?case by (cases g) auto
next
  case (Suc k)
  obtain t1 n1 where a: "gw_await E G (gc_rev g) (gc_tasks g ! i) (gc_nonces g) = (t1, n1)" by fastforce
  let ?g = "g\<lparr>gc_nonces := n1, gc_tasks := (gc_tasks g)[i := t1]\<rparr>"
  have "gateway_run E G ?g (?g\<lparr>gc_nonces := n', gc_tasks := (gc_tasks ?g)[i := tk]\<rparr>)"
    using Suc.prems a by (intro Suc.IH) simp_all
  moreover have "gateway_step E G g ?g" using Suc.prems(1) a by (rule gateway_step.await_store)
  ultimately show ?case by (simp add: converse_rtranclp_into_rtranclp)
qed

section \<open>Its requests are tasks\<close>

text \<open>The task a batch is: of its first intent, for the rest is checked without the stores.\<close>

definition task_of_batch :: "batch_request \<Rightarrow> request" where
  "task_of_batch bq = \<lparr>q_agent = bq_agent bq, q_intent = fst (hd (bq_intents bq)), q_proof = snd (hd (bq_intents bq)),
     q_now = bq_check_now bq, q_store_now = bq_store_now bq, q_policy = None, q_chain = bq_chain bq\<rparr>"

fun is_task :: "gw_task \<Rightarrow> auth_task \<Rightarrow> bool" where
  "is_task (AuthorizeTask req q v fps) tk \<longleftrightarrow> tk = Asking q v fps \<and> certs (q_chain q) = sc_certs (ag_chain req)"
| "is_task (BatchTask req bq v fps) tk \<longleftrightarrow> tk = Asking (task_of_batch bq) v fps \<and> certs (bq_chain bq) = sc_certs (br_chain req)"
| "is_task (Replied c) tk \<longleftrightarrow> (\<exists>q res. tk = Answered q res \<and>
     (gw_granted c \<noteq> [] \<longrightarrow> (\<exists>rc. res = Inr rc) \<and> gw_granted c = certs (q_chain q)))"

lemma is_task_replies:
  "is_task (authorize_reply E st req (Inl e)) (Answered q res)"
  "certs (q_chain q) = sc_certs (ag_chain req) \<Longrightarrow> is_task (authorize_reply E st req (Inr rc)) (Answered q (Inr rc'))"
  "\<not> all_authorized b \<Longrightarrow> is_task (batch_reply E breq b) (Answered q res)"
  "certs (q_chain q) = sc_certs (br_chain breq) \<Longrightarrow> is_task (batch_reply E breq b) (Answered q (Inr rc'))"
  "is_task (batch_refused breq e) (Answered q res)"
  by (auto simp: authorize_reply_def batch_reply_def batch_refused_def batch_response_of_def)

text \<open>A task that is answered at once, for the requests that are no task.\<close>

definition no_request :: request where
  "no_request = \<lparr>q_agent = [], q_intent = [], q_proof = proof_default, q_now = 0, q_store_now = 0, q_policy = None,
     q_chain = \<lparr>principal_pk = [], principal_scope = [], certs = [], drift_tolerance_secs = 0, namespace = None\<rparr>\<rparr>"

lemma start_no_request: "task_start E no_request = Answered no_request (Inl EmptyChain)"
  by (simp add: task_start_def no_request_def validate_structure_def)

lemma ungranted_is_task: "gw_granted c = [] \<Longrightarrow> is_task (Replied c) (task_start E no_request)"
  by (simp add: start_no_request)

lemma start_authorize_is_task: "\<exists>q. is_task (start_authorize E G now t req) (task_start E q)"
proof -
  let ?parsed = "bindR (executor_key E (ag_executor_pk_hex req)) (\<lambda>pk.
     bindR (build_intent (ag_intent_name req) (ag_intent_params req)) (\<lambda>i.
     bindR (into_chain_with_drift E (ge_hex_msg G) (ge_pk_msg G) 15 (ag_chain req)) (\<lambda>c. Inr (pk, intent_hash_of E i, c))))"
  show ?thesis
  proof (cases ?parsed)
    case (Inl e)
    then show ?thesis by (intro exI [of _ no_request]) (simp add: start_authorize_def start_no_request is_task_replies)
  next
    case (Inr x)
    obtain pk i c where x: "x = (pk, i, c)" by (cases x)
    with Inr have c: "into_chain_with_drift E (ge_hex_msg G) (ge_pk_msg G) 15 (ag_chain req) = Inr c" by (auto simp: bindR_Inr_iff)
    let ?q = "\<lparr>q_agent = pk, q_intent = i, q_proof = proof_default, q_now = now, q_store_now = t, q_policy = None, q_chain = c\<rparr>"
    have "is_task (start_authorize E G now t req) (task_start E ?q)"
      using Inr x into_chain_Inr [OF c]
      by (cases "validate_structure E pk i proof_default now (drift_tolerance_secs c) c")
        (simp_all add: start_authorize_def task_start_def is_task_replies)
    then show ?thesis by blast
  qed
qed

lemma start_batch_is_task: "\<exists>q. is_task (start_batch E G now now' t req) (task_start E q)"
proof -
  let ?parsed = "bindR (executor_key E (br_executor_pk_hex req)) (\<lambda>pk.
     bindR (into_chain_with_drift E (ge_hex_msg G) (ge_pk_msg G) 15 (br_chain req)) (\<lambda>c.
     bindR (intent_pairs E (br_intents req)) (\<lambda>ps. Inr (pk, c, ps))))"
  show ?thesis
  proof (cases "length (br_intents req) > MAX_BATCH_SIZE \<or> isl ?parsed")
    case True
    then show ?thesis
      by (intro exI [of _ no_request]) (auto simp: start_batch_def start_no_request is_task_replies isl_def)
  next
    case False
    then obtain pk c ps where p: "?parsed = Inr (pk, c, ps)" and len: "\<not> length (br_intents req) > MAX_BATCH_SIZE"
      by (cases ?parsed) auto
    then have c: "into_chain_with_drift E (ge_hex_msg G) (ge_pk_msg G) 15 (br_chain req) = Inr c"
      and ps: "intent_pairs E (br_intents req) = Inr ps" by (auto simp: bindR_Inr_iff)
    let ?bq = "\<lparr>bq_agent = pk, bq_intents = ps, bq_now = now, bq_check_now = now', bq_store_now = t, bq_chain = c\<rparr>"
    show ?thesis
    proof (cases "ps = []")
      case True
      then have "br_intents req = []" using intent_pairs_Nil [OF ps] by simp
      with True len p show ?thesis
        by (intro exI [of _ no_request]) (simp add: start_batch_def start_no_request batch_reply_def)
    next
      case False
      have "is_task (start_batch E G now now' t req) (task_start E (task_of_batch ?bq))"
        using False len p into_chain_Inr [OF c]
        by (cases "validate_structure E pk (fst (hd ps)) (snd (hd ps)) now' (drift_tolerance_secs c) c")
          (simp_all add: start_batch_def task_start_def task_of_batch_def is_task_replies batch_failure_def)
      then show ?thesis by blast
    qed
  qed
qed

text \<open>An await of a request is an await of its task, or the task is dropped, over stores that answer alike.\<close>

lemma gw_await_is_task:
  assumes "is_task a tk" "gw_await E G r a n = (a', n')" "\<And>fp. mem_is_revoked r' fp = mem_is_revoked r fp"
  shows "\<exists>tk'. is_task a' tk' \<and> (task_await mem_is_revoked mem_try_consume_batch r' tk n = (tk', n')
    \<or> n' = n \<and> (\<exists>q v fps e. tk = Asking q v fps \<and> tk' = Answered q (Inl e)))"
proof (cases a)
  case (AuthorizeTask req q v fps)
  then have tk: "tk = Asking q v fps" and c: "certs (q_chain q) = sc_certs (ag_chain req)" using assms(1) by auto
  obtain tk' n1 where t: "task_await mem_is_revoked mem_try_consume_batch r' tk n = (tk', n1)" by fastforce
  have "is_task a' tk' \<and> n1 = n'"
  proof (cases fps)
    case Nil
    with assms(2) t tk AuthorizeTask c show ?thesis
      by (auto simp: is_task_replies split: sum.splits prod.splits bool.splits)
  next
    case (Cons fp rest)
    with assms(2) t tk AuthorizeTask c assms(3) [of fp] show ?thesis
      by (auto simp: is_task_replies split: sum.splits bool.splits)
  qed
  with t show ?thesis by blast
next
  case (BatchTask req bq v fps)
  let ?q = "task_of_batch bq"
  have tk: "tk = Asking ?q v fps" and c: "certs (q_chain ?q) = sc_certs (br_chain req)"
    using assms(1) BatchTask by (auto simp: task_of_batch_def)
  obtain tk' n1 where t: "task_await mem_is_revoked mem_try_consume_batch r' tk n = (tk', n1)" by fastforce
  show ?thesis
  proof (cases fps)
    case (Cons fp rest)
    have "is_task a' tk' \<and> n1 = n'"
      using assms(2) t tk BatchTask Cons c assms(3) [of fp]
      by (auto simp: is_task_replies batch_failure_def task_of_batch_def split: sum.splits bool.splits)
    with t show ?thesis by blast
  next
    case Nil
    show ?thesis
    proof (cases "list_all (\<lambda>e. e = None) (map snd (batch_items E bq v))")
      case True
      have "is_task a' tk' \<and> n1 = n'"
        using assms(2) t tk BatchTask Nil c True
        by (auto simp: Let_def is_task_replies batch_failure_def task_of_batch_def split: sum.splits prod.splits bool.splits)
      with t show ?thesis by blast
    next
      case False
      with assms(2) BatchTask Nil have "a' = batch_reply E req \<lparr>receipts = map fst (batch_items E bq v),
          errors = map snd (batch_items E bq v), all_authorized = False\<rparr>" "n' = n" by (auto simp: Let_def)
      then have "is_task a' (Answered ?q (Inl Revoked))" by (simp add: is_task_replies)
      with tk \<open>n' = n\<close> show ?thesis by blast
    qed
  qed
next
  case (Replied c)
  with assms show ?thesis by auto
qed

section \<open>Every run is a run of the tasks\<close>

text \<open>What a route that revokes does: it adds fingerprints, and those it reports are in the store.\<close>

definition adds_revocations :: "memory_revocation_store \<Rightarrow> memory_revocation_store \<Rightarrow> bool" where
  "adds_revocations r r' \<longleftrightarrow> mem_rev_inv r' \<and> (\<exists>fps. revoked_set r' = set fps \<union> revoked_set r)"

lemma adds_none: "mem_rev_inv r \<Longrightarrow> adds_revocations r r"
  by (auto simp: adds_revocations_def intro: exI [of _ "[]"])

lemma revoke_adds:
  assumes "mem_rev_inv r" "mem_revoke r fp = (x, r')"
  shows "adds_revocations r r' \<and> fp \<in> revoked_set r' \<and> x = Inr ()"
proof -
  from mem_revoke_spec [OF assms(1), of fp] assms(2) have "mem_rev_inv r'" "revoked_set r' = set [fp] \<union> revoked_set r" "x = Inr ()" by auto
  then show ?thesis unfolding adds_revocations_def by (metis Un_iff list.set_intros(1))
qed

lemma revoke_handler_adds:
  assumes "mem_rev_inv r" "revoke_handler E mem_revoke h r = (res, r')"
  shows "adds_revocations r r' \<and> gw_revoked E (GwRevoke h res) \<subseteq> revoked_set r'"
proof (cases "parse_fp E h")
  case (Inl e)
  with assms show ?thesis by (auto simp: revoke_handler_def adds_none)
next
  case (Inr fp)
  obtain x r1 where m: "mem_revoke r fp = (x, r1)" by fastforce
  from revoke_adds [OF assms(1) this] m assms(2) Inr show ?thesis by (auto simp: revoke_handler_def)
qed

lemma revoke_batch_handler_adds:
  assumes "mem_rev_inv r" "revoke_batch_handler E mem_revoke_batch hs r = (res, r')"
  shows "adds_revocations r r' \<and> gw_revoked E (GwRevokeBatch hs res) \<subseteq> revoked_set r'"
proof -
  let ?fps = "List.map_filter (decode_fp E) hs"
  from mem_revoke_batch_spec [OF assms(1)] obtain r1 where r1: "mem_revoke_batch r ?fps = (Inr (), r1)" "mem_rev_inv r1"
    "revoked_set r1 = set ?fps \<union> revoked_set r" by blast
  with assms(2) obtain b where r: "r' = r1" "res = (200, Inr b)" by (auto simp: revoke_batch_handler_def Let_def)
  have "adds_revocations r r'" unfolding adds_revocations_def r(1) using r1(2,3) by blast
  moreover have "gw_revoked E (GwRevokeBatch hs res) \<subseteq> revoked_set r'"
    unfolding r r1(3) by (auto simp: set_map_filter)
  ultimately show ?thesis ..
qed

lemma revoke_namespace_adds:
  assumes "mem_rev_inv r" "hex_ok E"
    and "revoke_by_namespace_handler S E C (\<lambda>fp s. mem_revoke s fp) req fs r = (res, fs', r')"
  shows "adds_revocations r r' \<and> gw_revoked E (GwRevokeNamespace req res) \<subseteq> revoked_set r'"
proof (cases "rns_success res")
  case True
  from revoke_by_namespace_success [OF assms(3) True] obtain p :: dyolo_passport where
    p: "rns_fingerprint_hex res = Some (hex_enc E (cert_fingerprint E (pp_cert p)))"
       "mem_revoke r (cert_fingerprint E (pp_cert p)) = (Inr (), r')" by blast
  have inj: "hex_enc E a = hex_enc E b \<longleftrightarrow> a = b" for a b using assms(2) by (metis hex_ok_def option.inject)
  from revoke_adds [OF assms(1) p(2)] p(1) show ?thesis by (auto simp: inj)
next
  case False
  have "fst (mem_revoke r fp) = Inr ()" for fp using mem_revoke_spec [OF assms(1), of fp] by auto
  then have "mem_revoke r fp \<noteq> (Inl e, x)" for fp e x by (metis fst_conv sum.distinct(1))
  with assms(3) False have "r' = r"
    by (auto simp: revoke_by_namespace_handler_def Let_def split: if_splits sum.splits prod.splits)
  with False assms(1) show ?thesis by (simp add: adds_none)
qed

text \<open>A pool follows, one revocation after the other.\<close>

abbreviation mem_pool_run where
  "mem_pool_run E \<equiv> pool_run E mem_is_revoked mem_revoke mem_try_consume_batch"

lemma pool_adds:
  "mem_rev_inv (pool_rev p) \<Longrightarrow> \<exists>r'. mem_pool_run E p (p\<lparr>pool_rev := r'\<rparr>) \<and> mem_rev_inv r'
     \<and> revoked_set r' = set fps \<union> revoked_set (pool_rev p)"
proof (induction fps)
  case Nil
  then show ?case by (intro exI [of _ "pool_rev p"]) simp
next
  case (Cons fp fps)
  then obtain r' where r': "mem_pool_run E p (p\<lparr>pool_rev := r'\<rparr>)" "mem_rev_inv r'" "revoked_set r' = set fps \<union> revoked_set (pool_rev p)"
    by blast
  obtain r2 where r2: "mem_revoke r' fp = (Inr (), r2)" "mem_rev_inv r2" "revoked_set r2 = insert fp (revoked_set r')"
    using mem_revoke_spec [OF r'(2)] by blast
  have "pool_step E mem_is_revoked mem_revoke mem_try_consume_batch (p\<lparr>pool_rev := r'\<rparr>) (p\<lparr>pool_rev := r2\<rparr>)"
    using pool_step.revoked [of mem_revoke "p\<lparr>pool_rev := r'\<rparr>" fp r2] r2(1) by simp
  with r' r2 show ?case by (intro exI [of _ r2]) (simp add: rtranclp.rtrancl_into_rtrancl)
qed

definition same_run :: "ext \<Rightarrow> gateway_now \<Rightarrow> (memory_revocation_store, memory_nonce_store) pool \<Rightarrow> bool" where
  "same_run E g p \<longleftrightarrow> mem_rev_inv (gc_rev g) \<and> mem_rev_inv (pool_rev p) \<and> revoked_set (gc_rev g) = revoked_set (pool_rev p)
     \<and> gc_nonces g = pool_nonces p \<and> list_all2 is_task (gc_tasks g) (pool_tasks p)
     \<and> (\<forall>c. Replied c \<in> set (gc_tasks g) \<longrightarrow> gw_revoked E c \<subseteq> revoked_set (gc_rev g))"

lemma replied_revokes_nothing [simp]:
  "authorize_reply E st req r = Replied c \<Longrightarrow> gw_revoked E' c = {}"
  "batch_reply E breq b = Replied c \<Longrightarrow> gw_revoked E' c = {}"
  "batch_refused breq e = Replied c \<Longrightarrow> gw_revoked E' c = {}"
  by (auto simp: authorize_reply_def batch_reply_def batch_refused_def)

lemma starts_revoke_nothing:
  "start_authorize E G now t req = Replied c \<Longrightarrow> gw_revoked E' c = {}"
  "start_batch E G now now' t breq = Replied c \<Longrightarrow> gw_revoked E' c = {}"
  by (auto simp: start_authorize_def start_batch_def split: sum.splits prod.splits if_splits)

lemma await_revokes_nothing:
  "gw_await E G r a n = (Replied c, n') \<Longrightarrow> a = Replied c \<or> gw_revoked E' c = {}"
  by (induction E G r a n rule: gw_await.induct)
    (auto simp: Let_def split: sum.splits prod.splits bool.splits if_splits)

lemma same_run_spawn:
  assumes "same_run E g p" "is_task a (task_start E q)" "\<And>c. a = Replied c \<Longrightarrow> gw_revoked E c \<subseteq> revoked_set (gc_rev g)"
  shows "same_run E (g\<lparr>gc_tasks := gc_tasks g @ [a]\<rparr>) (p\<lparr>pool_tasks := pool_tasks p @ [task_start E q]\<rparr>)"
  using assms by (auto simp: same_run_def list_all2_appendI)

lemma same_run_revoke:
  assumes "same_run E g p" "adds_revocations (gc_rev g) r'" "gw_granted c = []" "gw_revoked E c \<subseteq> revoked_set r'"
  shows "\<exists>p'. mem_pool_run E p p' \<and> same_run E (g\<lparr>gc_rev := r', gc_tasks := gc_tasks g @ [Replied c]\<rparr>) p'"
proof -
  obtain fps where fps: "mem_rev_inv r'" "revoked_set r' = set fps \<union> revoked_set (gc_rev g)"
    using assms(2) by (auto simp: adds_revocations_def)
  obtain r1 where r1: "mem_pool_run E p (p\<lparr>pool_rev := r1\<rparr>)" "mem_rev_inv r1" "revoked_set r1 = set fps \<union> revoked_set (pool_rev p)"
    using pool_adds [of p E fps] assms(1) by (auto simp: same_run_def)
  have s: "same_run E (g\<lparr>gc_rev := r'\<rparr>) (p\<lparr>pool_rev := r1\<rparr>)"
    using assms(1) fps r1 unfolding same_run_def by simp blast
  have "same_run E (g\<lparr>gc_rev := r'\<rparr>\<lparr>gc_tasks := gc_tasks (g\<lparr>gc_rev := r'\<rparr>) @ [Replied c]\<rparr>)
      (p\<lparr>pool_rev := r1, pool_tasks := pool_tasks p @ [task_start E no_request]\<rparr>)"
    using same_run_spawn [OF s ungranted_is_task [OF assms(3)]] assms(4) by simp
  moreover have "mem_pool_run E p (p\<lparr>pool_rev := r1, pool_tasks := pool_tasks p @ [task_start E no_request]\<rparr>)"
    using r1(1) pool_step.spawn [of E mem_is_revoked mem_revoke mem_try_consume_batch "p\<lparr>pool_rev := r1\<rparr>" no_request]
    by (simp add: rtranclp.rtrancl_into_rtrancl)
  ultimately show ?thesis by auto
qed

lemma same_run_update:
  assumes "same_run E g p" "i < length (gc_tasks g)" "is_task a tk" "\<And>c. a = Replied c \<Longrightarrow> gw_revoked E c \<subseteq> revoked_set (gc_rev g)"
  shows "same_run E (g\<lparr>gc_nonces := n, gc_tasks := (gc_tasks g)[i := a]\<rparr>) (p\<lparr>pool_nonces := n, pool_tasks := (pool_tasks p)[i := tk]\<rparr>)"
  using assms by (auto simp: same_run_def list_all2_update_cong dest!: set_update_subset_insert [THEN subsetD])

lemma gateway_step_same:
  assumes "hex_ok E" "gateway_step E G g g'" "same_run E g p"
  shows "\<exists>p'. mem_pool_run E p p' \<and> same_run E g' p'"
  using assms(2)
proof (cases rule: gateway_step.cases)
  case (accept_authorize now t req)
  obtain q where "is_task (start_authorize E G now t req) (task_start E q)" using start_authorize_is_task by blast
  from same_run_spawn [OF assms(3) this] accept_authorize starts_revoke_nothing(1) [of E G now t req] show ?thesis
    by (metis empty_subsetI pool_step.spawn r_into_rtranclp)
next
  case (accept_batch now now' t breq)
  obtain q where "is_task (start_batch E G now now' t breq) (task_start E q)" using start_batch_is_task by blast
  from same_run_spawn [OF assms(3) this] accept_batch starts_revoke_nothing(2) [of E G now now' t breq] show ?thesis
    by (metis empty_subsetI pool_step.spawn r_into_rtranclp)
next
  case (await_store i tk n')
  let ?a = "gc_tasks g ! i" and ?tk = "pool_tasks p ! i"
  have s: "mem_rev_inv (gc_rev g)" "mem_rev_inv (pool_rev p)" "revoked_set (gc_rev g) = revoked_set (pool_rev p)"
    "gc_nonces g = pool_nonces p" "list_all2 is_task (gc_tasks g) (pool_tasks p)"
    "\<And>c. Replied c \<in> set (gc_tasks g) \<Longrightarrow> gw_revoked E c \<subseteq> revoked_set (gc_rev g)"
    using assms(3) by (auto simp: same_run_def)
  have len: "i < length (pool_tasks p)" using await_store(2) list_all2_lengthD [OF s(5)] by simp
  have a: "is_task ?a ?tk" using s(5) await_store(2) by (simp add: list_all2_nthD)
  have alike: "mem_is_revoked (pool_rev p) fp = mem_is_revoked (gc_rev g) fp" for fp
    using mem_is_revoked_spec s(1-3) by simp
  obtain tk' where tk': "is_task tk tk'" and c: "task_await mem_is_revoked mem_try_consume_batch (pool_rev p) ?tk (gc_nonces g) = (tk', n')
      \<or> n' = gc_nonces g \<and> (\<exists>q v fps e. ?tk = Asking q v fps \<and> tk' = Answered q (Inl e))"
    using gw_await_is_task [OF a await_store(3) alike] by blast
  let ?p = "p\<lparr>pool_nonces := n', pool_tasks := (pool_tasks p)[i := tk']\<rparr>"
  have "pool_step E mem_is_revoked mem_revoke mem_try_consume_batch p ?p"
    using c
  proof (elim disjE conjE exE)
    assume "task_await mem_is_revoked mem_try_consume_batch (pool_rev p) ?tk (gc_nonces g) = (tk', n')"
    then show ?thesis using len s(4) by (intro pool_step.await) simp_all
  next
    fix q v fps e
    assume n: "n' = gc_nonces g" and d: "?tk = Asking q v fps" "tk' = Answered q (Inl e)"
    have "?p = p\<lparr>pool_tasks := (pool_tasks p)[i := Answered q (Inl e)]\<rparr>" using n d(2) s(4) by (cases p) simp
    then show ?thesis using pool_step.dropped [OF len d(1)] by simp
  qed
  moreover have "same_run E g' ?p" unfolding await_store(1)
  proof (rule same_run_update [OF assms(3) await_store(2) tk'])
    fix c assume "tk = Replied c"
    then show "gw_revoked E c \<subseteq> revoked_set (gc_rev g)"
      using await_revokes_nothing [of E G "gc_rev g" ?a "gc_nonces g" c n'] await_store(2,3) s(6) [of c]
      by (metis empty_subsetI nth_mem)
  qed
  ultimately show ?thesis by blast
next
  case (client_gone i)
  have s: "list_all2 is_task (gc_tasks g) (pool_tasks p)" "gc_nonces g = pool_nonces p" using assms(3) by (auto simp: same_run_def)
  have len: "i < length (pool_tasks p)" using client_gone(2) list_all2_lengthD [OF s(1)] by simp
  have "is_task (gc_tasks g ! i) (pool_tasks p ! i)" using s(1) client_gone(2) by (simp add: list_all2_nthD)
  then obtain q v fps where d: "pool_tasks p ! i = Asking q v fps" using client_gone(3) by (cases "gc_tasks g ! i") auto
  let ?tk = "Answered q (Inl EmptyChain)"
  have "same_run E (g\<lparr>gc_nonces := gc_nonces g, gc_tasks := (gc_tasks g)[i := Replied GwOther]\<rparr>)
      (p\<lparr>pool_nonces := gc_nonces g, pool_tasks := (pool_tasks p)[i := ?tk]\<rparr>)"
    by (rule same_run_update [OF assms(3) client_gone(2)]) simp_all
  moreover have "g\<lparr>gc_nonces := gc_nonces g, gc_tasks := (gc_tasks g)[i := Replied GwOther]\<rparr> = g'" using client_gone(1) by (cases g) simp
  moreover have "p\<lparr>pool_nonces := gc_nonces g, pool_tasks := (pool_tasks p)[i := ?tk]\<rparr> = p\<lparr>pool_tasks := (pool_tasks p)[i := ?tk]\<rparr>"
    using s(2) by (cases p) simp
  ultimately show ?thesis using pool_step.dropped [OF len d] by (metis r_into_rtranclp)
next
  case (revoke_one h rres r')
  have "mem_rev_inv (gc_rev g)" using assms(3) by (simp add: same_run_def)
  from revoke_handler_adds [OF this revoke_one(2)] same_run_revoke [OF assms(3), of r' "GwRevoke h rres"] revoke_one(1)
  show ?thesis by simp
next
  case (revoke_many hs rbres r')
  have "mem_rev_inv (gc_rev g)" using assms(3) by (simp add: same_run_def)
  from revoke_batch_handler_adds [OF this revoke_many(2)] same_run_revoke [OF assms(3), of r' "GwRevokeBatch hs rbres"] revoke_many(1)
  show ?thesis by simp
next
  case (revoke_namespace nreq nres fs' r')
  have "mem_rev_inv (gc_rev g)" using assms(3) by (simp add: same_run_def)
  from revoke_namespace_adds [OF this assms(1) revoke_namespace(2)]
  have a: "adds_revocations (gc_rev g) r'" "gw_revoked E (GwRevokeNamespace nreq nres) \<subseteq> revoked_set r'" by blast+
  from same_run_revoke [OF assms(3) a(1) _ a(2)] obtain p' where "mem_pool_run E p p'"
    "same_run E (g\<lparr>gc_rev := r', gc_tasks := gc_tasks g @ [Replied (GwRevokeNamespace nreq nres)]\<rparr>) p'" by auto
  then show ?thesis using revoke_namespace(1) by (auto simp: same_run_def)
next
  case (other_files fs')
  then have "same_run E g' p" using assms(3) unfolding same_run_def by simp blast
  then show ?thesis by blast
qed

lemma gateway_run_same:
  assumes "hex_ok E" "gateway_run E G g g'" "same_run E g p"
  shows "\<exists>p'. mem_pool_run E p p' \<and> same_run E g' p'"
  using assms(2,3)
proof (induction rule: rtranclp_induct)
  case (step g1 g2)
  then obtain p1 where p1: "mem_pool_run E p p1" "same_run E g1 p1" by blast
  from gateway_step_same [OF assms(1) step.hyps(2) p1(2)] p1(1) show ?case by (meson rtranclp_trans)
qed blast

section \<open>What its clients are told\<close>

lemma same_run_start: "same_run E (fresh_gateway fs) \<lparr>pool_rev = mem_rev_new, pool_nonces = mem_nonce_new, pool_tasks = []\<rparr>"
  by (simp add: same_run_def fresh_gateway_def mem_rev_inv_new)

lemma granted_task:
  assumes "is_task (Replied c) tk" "gw_granted c \<noteq> []"
  shows "\<exists>q rc. tk = Answered q (Inr rc) \<and> gw_granted c = certs (q_chain q) \<and> task_nonces tk = nonce ` set (gw_granted c)"
  using assms by (auto simp: task_nonces_def chain_nonces_def)

lemma gateway_run_grants:
  assumes "hex_ok E" "gateway_run E G (fresh_gateway fs) g" "gateway_run E G g g'"
    and i: "i < length (gc_tasks g')" "gc_tasks g' ! i = Replied a"
  shows "j < length (gc_tasks g') \<Longrightarrow> gc_tasks g' ! j = Replied b \<Longrightarrow> i \<noteq> j \<Longrightarrow>
      nonce ` set (gw_granted a) \<inter> nonce ` set (gw_granted b) = {}"
    and "j < length (gc_tasks g) \<Longrightarrow> gc_tasks g ! j = Replied b \<Longrightarrow> length (gc_tasks g) \<le> i \<Longrightarrow>
      gw_revoked E b \<inter> cert_fingerprint E ` set (gw_granted a) = {}"
proof -
  obtain p where p: "mem_pool_run E \<lparr>pool_rev = mem_rev_new, pool_nonces = mem_nonce_new, pool_tasks = []\<rparr> p" "same_run E g p"
    using gateway_run_same [OF assms(1,2) same_run_start] by blast
  obtain p' where p': "mem_pool_run E p p'" "same_run E g' p'" using gateway_run_same [OF assms(1,3) p(2)] by blast
  have inv: "pool_inv E mem_rev_inv nonce_inv_forever live p"
    by (rule mem_tasks.inv_run [OF p(1)]) (simp add: pool_inv_def mem_rev_inv_new nonce_inv_forever_new)
  note grants = mem_tasks.pool_grants [OF p'(1) inv]
  have l: "list_all2 is_task (gc_tasks g') (pool_tasks p')" "list_all2 is_task (gc_tasks g) (pool_tasks p)"
    using p'(2) p(2) by (auto simp: same_run_def)
  note len = list_all2_lengthD [OF l(1)] list_all2_lengthD [OF l(2)]
  have t: "is_task (gc_tasks g' ! j) (pool_tasks p' ! j)" if "j < length (gc_tasks g')" for j
    using l(1) that by (simp add: list_all2_nthD)
  show "nonce ` set (gw_granted a) \<inter> nonce ` set (gw_granted b) = {}"
    if j: "j < length (gc_tasks g')" "gc_tasks g' ! j = Replied b" "i \<noteq> j"
  proof (cases "gw_granted a = [] \<or> gw_granted b = []")
    case False
    have "is_task (Replied a) (pool_tasks p' ! i)" "is_task (Replied b) (pool_tasks p' ! j)" using t [OF i(1)] t [OF j(1)] i(2) j(2) by simp_all
    then have "task_nonces (pool_tasks p' ! i) = nonce ` set (gw_granted a)" "task_nonces (pool_tasks p' ! j) = nonce ` set (gw_granted b)"
      using granted_task False by blast+
    with grants(2) [of i j] i(1) j(1,3) len(1) show ?thesis by simp
  qed auto
  show "gw_revoked E b \<inter> cert_fingerprint E ` set (gw_granted a) = {}"
    if j: "j < length (gc_tasks g)" "gc_tasks g ! j = Replied b" "length (gc_tasks g) \<le> i"
  proof (cases "gw_granted a = []")
    case False
    have "is_task (Replied a) (pool_tasks p' ! i)" using t [OF i(1)] i(2) by simp
    then obtain q rc where q: "pool_tasks p' ! i = Answered q (Inr rc)" "gw_granted a = certs (q_chain q)"
      using granted_task False by blast
    have "Replied b \<in> set (gc_tasks g)" using j(1,2) nth_mem by metis
    then have "gw_revoked E b \<subseteq> revoked_set (pool_rev p)" using p(2) by (auto simp: same_run_def)
    moreover have "fp \<notin> chain_fps E (q_chain q)" if "fp \<in> revoked_set (pool_rev p)" for fp
      using grants(3) [OF that _ _ q(1)] i(1) j(3) len by simp
    ultimately show ?thesis using q(2) by (auto simp: chain_fps_def)
  qed simp
qed

end
