(* ===== verification/A1_Scenarios.thy ===== *)
theory A1_Scenarios
  imports A1_Runs A1_Swarm "HOL-Library.Monad_Syntax"
begin

text \<open>
  The integration tests of the library, \<open>tests/integration.rs\<close>, as programs over the model: what a
  test builds, calls and asserts, in its order. A test is a \<open>unit option\<close>, \<open>None\<close> where the test
  panics, be it in an \<open>unwrap\<close> or in an assertion. Each is shown to pass for all keys, nonces and clocks
  that a test run can meet, so a test that the code passes by example the model passes in general.
\<close>

section \<open>Test programs\<close>

definition require :: "bool \<Rightarrow> unit option" where
  "require b = (if b then Some () else None)"

definition unwrap :: "'e + 'a \<Rightarrow> 'a option" where
  "unwrap r = (case r of Inl _ \<Rightarrow> None | Inr a \<Rightarrow> Some a)"

definition is_ok :: "'e + 'a \<Rightarrow> bool" where
  "is_ok r = (case r of Inl _ \<Rightarrow> False | Inr _ \<Rightarrow> True)"

lemma require_simps [simp]: "require True = Some ()" "require b = Some () \<longleftrightarrow> b"
  by (simp_all add: require_def)

lemma unwrap_simps [simp]: "unwrap (Inr a) = Some a" "unwrap (Inl e) = None"
  by (simp_all add: unwrap_def)

lemma is_ok_simps [simp]: "is_ok (Inr a)" "\<not> is_ok (Inl e)"
  by (simp_all add: is_ok_def)

text \<open>
  What a run of the tests draws: the keys that \<open>generate\<close> makes, the nonces of \<open>fresh_nonce\<close> and the
  readings of the system clock, each by its number in the test.
\<close>

record test_world =
  tw_ext :: ext
  tw_key :: "nat \<Rightarrow> signer"
  tw_nonce :: "nat \<Rightarrow> bytes"
  tw_clock :: "nat \<Rightarrow> u64"
  tw_rnd :: bytes

abbreviation tw_pk :: "test_world \<Rightarrow> nat \<Rightarrow> bytes" where
  "tw_pk W k \<equiv> verifying_key (tw_key W k)"

text \<open>Keys sign what they verify and differ, nonces differ, and a test takes less than an hour.\<close>

definition world_ok :: "test_world \<Rightarrow> bool" where
  "world_ok W \<longleftrightarrow> batch_complete (tw_ext W) \<and> batch_sound (tw_ext W)
     \<and> (\<forall>k. signer_ok (tw_ext W) (tw_key W k)) \<and> inj_on (tw_pk W) {..<8} \<and> inj_on (tw_nonce W) {..<8}
     \<and> (\<forall>k. tw_clock W 0 \<le> tw_clock W k \<and> unat (tw_clock W k) < unat (tw_clock W 0) + 3600)
     \<and> unat (tw_clock W 0) < 2 ^ 62"

text \<open>An intent of a test, by its action.\<close>

definition intent_named :: "ext \<Rightarrow> string \<Rightarrow> bytes option" where
  "intent_named E a = map_option (intent_hash_of E) (unwrap (intent_new a))"

definition named_hash :: "ext \<Rightarrow> string \<Rightarrow> bytes" where
  "named_hash E a = intent_hash_of E \<lparr>action = a, params = []\<rparr>"

lemma intent_named_Some: "a \<noteq> [] \<Longrightarrow> length a \<le> 256 \<Longrightarrow> intent_named E a = Some (named_hash E a)"
  by (simp add: intent_named_def intent_new_def MAX_ACTION_LEN_def named_hash_def)

text \<open>\<open>authorize\<close> over the stores in memory, the clock read from its \<open>k\<close>-th reading on.\<close>

definition authorize_mem ::
  "test_world \<Rightarrow> u64 \<Rightarrow> nat \<Rightarrow> bytes \<Rightarrow> bytes \<Rightarrow> merkle_proof \<Rightarrow> memory_revocation_store \<Rightarrow> dyolo_chain
     \<Rightarrow> memory_nonce_store \<Rightarrow> (a1_error + verification_receipt) \<times> memory_nonce_store" where
  "authorize_mem W now k agent i p rs c ns =
     authorize (tw_ext W) (tw_rnd W) agent i p now (tw_clock W (k + 1)) (mem_is_revoked rs)
       (mem_try_consume_batch (tw_clock W k)) c ns"

definition base_chain :: "test_world \<Rightarrow> u64 \<Rightarrow> dyolo_chain option" where
  "base_chain W ttl = do {
     trade \<leftarrow> intent_named (tw_ext W) ''trade.equity'';
     tree \<leftarrow> unwrap (tree_build (tw_ext W) [trade]);
     expiry \<leftarrow> checked_add (tw_clock W 0) ttl;
     cert \<leftarrow> builder_sign (tw_ext W) (tw_key W 0)
       (builder_nonce (tw_nonce W 1) (builder_new (tw_nonce W 0) (tw_pk W 1) (tree_root tree) (tw_clock W 0) expiry));
     Some (chain_push cert (chain_new (tw_pk W 0) (tree_root tree)))
   }"

section \<open>Chains of one certificate\<close>

lemma tree_build_one: "tree_build E [h] = Inr \<lparr>leaves = [h], layers = [[h]]\<rparr>"
  by (simp add: tree_build_def merkle_layers.simps Let_def)

lemma single_tree_root [simp]: "tree_root \<lparr>leaves = [h], layers = [[h]]\<rparr> = h"
  by (simp add: tree_root_def)

lemma merkle_default [simp]: "merkle_verify E proof_default i s \<longleftrightarrow> i = s"
  by (simp add: merkle_verify_def proof_default_def)

lemma intent_authorized_default [simp]: "intent_authorized E proof_default i s \<longleftrightarrow> i = s"
  by (simp add: intent_authorized_merkle)

definition one_hop :: "ext \<Rightarrow> signer \<Rightarrow> bytes \<Rightarrow> bytes \<Rightarrow> bytes \<Rightarrow> u64 \<Rightarrow> u64 \<Rightarrow> u8 \<Rightarrow> dyolo_chain" where
  "one_hop E s dt sr nn iat expiry md =
     chain_push (cert_issue E s dt sr full_passthrough nn iat expiry md extensions_new) (chain_new (verifying_key s) sr)"

lemma one_hop_sels [simp]:
  "certs (one_hop E s dt sr nn iat expiry md) = [cert_issue E s dt sr full_passthrough nn iat expiry md extensions_new]"
  "principal_pk (one_hop E s dt sr nn iat expiry md) = verifying_key s"
  "principal_scope (one_hop E s dt sr nn iat expiry md) = sr"
  "drift_tolerance_secs (one_hop E s dt sr nn iat expiry md) = 15"
  "chain_nonces (one_hop E s dt sr nn iat expiry md) = {nn}"
  by (simp_all add: one_hop_def chain_push_def chain_new_def chain_nonces_def)

lemma builder_sels [simp]:
  "b_delegate_pk (builder_new nn dt sr iat e) = dt" "b_scope_root (builder_new nn dt sr iat e) = sr"
  "b_scope_proof (builder_new nn dt sr iat e) = full_passthrough" "b_nonce (builder_new nn dt sr iat e) = nn"
  "b_issued_at (builder_new nn dt sr iat e) = iat" "b_expiration_unix (builder_new nn dt sr iat e) = e"
  "b_max_depth (builder_new nn dt sr iat e) = 16" "b_extensions (builder_new nn dt sr iat e) = extensions_new"
  "builder_nonce n' (builder_new nn dt sr iat e) = builder_new n' dt sr iat e"
  "b_delegate_pk (builder_scope_proof p b) = b_delegate_pk b" "b_scope_root (builder_scope_proof p b) = b_scope_root b"
  "b_scope_proof (builder_scope_proof p b) = p" "b_nonce (builder_scope_proof p b) = b_nonce b"
  "b_issued_at (builder_scope_proof p b) = b_issued_at b" "b_expiration_unix (builder_scope_proof p b) = b_expiration_unix b"
  "b_max_depth (builder_scope_proof p b) = b_max_depth b" "b_extensions (builder_scope_proof p b) = b_extensions b"
  "b_delegate_pk (builder_max_depth d b) = b_delegate_pk b" "b_scope_root (builder_max_depth d b) = b_scope_root b"
  "b_scope_proof (builder_max_depth d b) = b_scope_proof b" "b_nonce (builder_max_depth d b) = b_nonce b"
  "b_issued_at (builder_max_depth d b) = b_issued_at b" "b_expiration_unix (builder_max_depth d b) = b_expiration_unix b"
  "b_max_depth (builder_max_depth d b) = d" "b_extensions (builder_max_depth d b) = b_extensions b"
  by (simp_all add: builder_new_def builder_nonce_def builder_scope_proof_def builder_max_depth_def)

lemma builder_sign_issue:
  "b_issued_at b < b_expiration_unix b \<Longrightarrow> builder_sign E s b =
     Some (cert_issue E s (b_delegate_pk b) (b_scope_root b) (b_scope_proof b) (b_nonce b) (b_issued_at b)
       (b_expiration_unix b) (b_max_depth b) (b_extensions b))"
  by (simp add: builder_sign_def builder_build_def)

text \<open>What decides over a chain of one honest certificate.\<close>

lemma one_hop_valid_iff:
  assumes "signer_ok E s"
  shows "chain_valid E a i p now drift (one_hop E s dt sr nn iat expiry md) \<longleftrightarrow>
    a = dt \<and> iat \<le> sat_add now drift \<and> sat_sub now drift \<le> expiry \<and> merkle_verify E p i sr"
  using cert_issue_verifies [OF assms]
  by (auto simp: chain_valid_def leaf_pk_def leaf_scope_def depths_ok_def intent_authorized_merkle in_window_def
      is_passthrough_def full_passthrough_def)

section \<open>Calls over the stores in memory\<close>

lemma authorize_mem_cases:
  assumes "world_ok W" "mem_rev_inv rs" "nonce_inv_forever ns"
  shows "case authorize_mem W now k a i p rs c ns of
      (Inr rc, ns') \<Rightarrow> chain_valid (tw_ext W) a i p now (drift_tolerance_secs c) c
        \<and> chain_fps (tw_ext W) c \<inter> revoked_set rs = {} \<and> chain_nonces c \<inter> live 0 ns = {}
        \<and> rc = receipt_for (tw_ext W) now i c \<and> nonce_inv_forever ns' \<and> live 0 ns' = chain_nonces c \<union> live 0 ns
    | (Inl e, ns') \<Rightarrow> \<not> (chain_valid (tw_ext W) a i p now (drift_tolerance_secs c) c
        \<and> chain_fps (tw_ext W) c \<inter> revoked_set rs = {} \<and> chain_nonces c \<inter> live 0 ns = {}) \<and> ns' = ns"
proof -
  have bc: "batch_complete (tw_ext W)" "batch_sound (tw_ext W)" using assms(1) by (simp_all add: world_ok_def)
  let ?t = "tw_clock W k"
  have l: "live ?t n = live 0 n" if "nonce_inv_forever n" for n
    using that by (rule mem_forever.used_time)
  note c = sys_auth.authorize_cases [OF assms(2,3) bc, where a = a and i = i and p = p and now = now and t = "tw_clock W k" and pol = None and c = c]
  let ?A = "authorize_mem W now k a i p rs c ns"
  have eq: "authorize_inner (tw_ext W) a i p now (mem_is_revoked rs) (mem_try_consume_batch (tw_clock W k)) None c ns = ?A"
    by (simp add: authorize_mem_def authorize_def authorize_with_options_def Let_def)
  obtain x ns' where x: "?A = (x, ns')" by (cases ?A)
  show ?thesis
  proof (cases x)
    case (Inl e)
    show ?thesis using c unfolding eq x Inl by (simp add: policy_ok_def l [OF assms(3)])
  next
    case (Inr rc)
    show ?thesis using c l [of ns'] unfolding eq x Inr by (simp add: policy_ok_def l [OF assms(3)])
  qed
qed

lemma authorize_mem_ok_iff:
  assumes "world_ok W" "mem_rev_inv rs" "nonce_inv_forever ns"
  shows "is_ok (fst (authorize_mem W now k a i p rs c ns)) \<longleftrightarrow>
    chain_valid (tw_ext W) a i p now (drift_tolerance_secs c) c
    \<and> chain_fps (tw_ext W) c \<inter> revoked_set rs = {} \<and> chain_nonces c \<inter> live 0 ns = {}"
  using authorize_mem_cases [OF assms, where now = now and k = k and a = a and i = i and p = p and c = c]
  by (auto split: prod.splits sum.splits)

lemma authorize_mem_live:
  assumes "world_ok W" "mem_rev_inv rs" "nonce_inv_forever ns" "is_ok (fst (authorize_mem W now k a i p rs c ns))"
  shows "nonce_inv_forever (snd (authorize_mem W now k a i p rs c ns))"
    "live 0 (snd (authorize_mem W now k a i p rs c ns)) = chain_nonces c \<union> live 0 ns"
  using authorize_mem_cases [OF assms(1-3), where now = now and k = k and a = a and i = i and p = p and c = c] assms(4)
  by (auto split: prod.splits sum.splits)

text \<open>Every reading of the clock is in the window of a certificate issued at the first one.\<close>

lemma clock_window:
  assumes "world_ok W" "ttl \<le> 2 ^ 32" "ttl \<ge> 3600" "checked_add (tw_clock W 0) ttl = Some e"
  shows "tw_clock W 0 < e" "tw_clock W 0 \<le> sat_add (tw_clock W k) 15" "sat_sub (tw_clock W k) 15 \<le> e"
proof -
  have w: "tw_clock W 0 \<le> tw_clock W k" "unat (tw_clock W k) < unat (tw_clock W 0) + 3600"
    using assms(1) by (simp_all add: world_ok_def)
  have e: "unat e = unat (tw_clock W 0) + unat ttl" using assms(4) by (rule checked_add_unat)
  have t: "3600 \<le> unat ttl" using assms(3) by (simp add: word_le_nat_alt)
  show "tw_clock W 0 < e" using e t by (simp add: word_less_nat_alt)
  show "tw_clock W 0 \<le> sat_add (tw_clock W k) 15"
    using w(1) sat_add_ge [of "tw_clock W k" 15] by (rule order_trans)
  show "sat_sub (tw_clock W k) 15 \<le> e" using w e t by (simp add: word_le_nat_alt unat_sat_sub)
qed

lemma clock_window_hour:
  assumes "world_ok W" "checked_add (tw_clock W 0) 3600 = Some e"
  shows "tw_clock W 0 < e" "tw_clock W 0 \<le> sat_add (tw_clock W k) 15" "sat_sub (tw_clock W k) 15 \<le> e"
  by (rule clock_window [OF assms(1) _ _ assms(2)]; simp)+

lemma hour_fits:
  assumes "world_ok W"
  obtains e where "checked_add (tw_clock W 0) 3600 = Some e"
  using assms by (simp add: checked_add_def world_ok_def)

lemma new_stores [simp]: "mem_rev_inv mem_rev_new" "nonce_inv_forever mem_nonce_new" "revoked_set mem_rev_new = {}" "live t mem_nonce_new = {}"
  by (simp_all add: mem_rev_inv_new nonce_inv_forever_new) (simp_all add: revoked_set_def mem_rev_new_def live_def mem_nonce_new_def)

lemma world_signs [simp]: "world_ok W \<Longrightarrow> signer_ok (tw_ext W) (tw_key W k)"
  by (simp add: world_ok_def)

lemma world_distinct:
  assumes "world_ok W" "i < 8" "j < 8"
  shows "tw_pk W i = tw_pk W j \<longleftrightarrow> i = j" "tw_nonce W i = tw_nonce W j \<longleftrightarrow> i = j"
  using assms inj_on_eq_iff [of "tw_pk W" "{..<8}" i j] inj_on_eq_iff [of "tw_nonce W" "{..<8}" i j] by (simp_all add: world_ok_def)

section \<open>Time, tampering, revocation and replay\<close>

definition adversarial_clock_mismatch :: "test_world \<Rightarrow> unit option" where
  "adversarial_clock_mismatch W = do {
     trade \<leftarrow> intent_named (tw_ext W) ''trade'';
     tree \<leftarrow> unwrap (tree_build (tw_ext W) [trade]);
     cert \<leftarrow> builder_sign (tw_ext W) (tw_key W 0)
       (builder_new (tw_nonce W 0) (tw_pk W 1) (tree_root tree) 1000000 (1000000 + 3600));
     let chain = chain_push cert (chain_new (tw_pk W 0) (tree_root tree));
     require (\<not> is_ok (fst (authorize_mem W 2000000 0 (tw_pk W 1) trade proof_default mem_rev_new chain mem_nonce_new)))
   }"

lemma adversarial_clock_mismatch_passes:
  assumes "world_ok W"
  shows "adversarial_clock_mismatch W = Some ()"
proof -
  have "\<not> sat_sub (2000000 :: u64) 15 \<le> 1003600" by (simp add: word_le_nat_alt unat_sat_sub)
  then show ?thesis
    using assms
    by (simp add: adversarial_clock_mismatch_def intent_named_Some tree_build_one builder_sign_issue
        authorize_mem_ok_iff one_hop_valid_iff flip: one_hop_def)
qed

definition tamper_first :: "sub_scope_proof \<Rightarrow> sub_scope_proof option" where
  "tamper_first sp =
     (case ssp_proofs sp of
        [] \<Rightarrow> None
      | q # qs \<Rightarrow>
          Some (case siblings q of
                  [] \<Rightarrow> sp
                | n # ns \<Rightarrow> sp\<lparr>ssp_proofs := q\<lparr>siblings := n\<lparr>sib_hash := (hd (sib_hash n) XOR 0xFF) # tl (sib_hash n)\<rparr> # ns\<rparr> # qs\<rparr>))"

definition adversarial_tampered_subscope :: "test_world \<Rightarrow> unit option" where
  "adversarial_tampered_subscope W = do {
     let E = tw_ext W;
     intent1 \<leftarrow> intent_named E ''action.1'';
     intent2 \<leftarrow> intent_named E ''action.2'';
     parent \<leftarrow> unwrap (tree_build E [intent1, intent2]);
     built \<leftarrow> unwrap (sub_scope_build parent [intent1]);
     proof' \<leftarrow> tamper_first built;
     child \<leftarrow> unwrap (tree_build E [intent1]);
     expiry \<leftarrow> checked_add (tw_clock W 0) 3600;
     cert \<leftarrow> builder_sign E (tw_key W 0) (builder_scope_proof proof'
       (builder_new (tw_nonce W 0) (tw_pk W 1) (tree_root child) (tw_clock W 0) expiry));
     let chain = chain_push cert (chain_new (tw_pk W 0) (tree_root parent));
     require (\<not> is_ok (fst (authorize_mem W (tw_clock W 1) 2 (tw_pk W 1) intent1 proof_default mem_rev_new chain mem_nonce_new)))
   }"

text \<open>The tree of two leaves, and the proof of one of them.\<close>

definition pair_tree :: "ext \<Rightarrow> bytes \<Rightarrow> bytes \<Rightarrow> intent_tree" where
  "pair_tree E a b = \<lparr>leaves = [a, b], layers = [[a, b], [merkle_node E a b]]\<rparr>"

lemma tree_build_pair:
  assumes "a \<noteq> b"
  shows "tree_build E [a, b] = Inr (if a < b then pair_tree E a b else pair_tree E b a)"
proof -
  have two: "merkle_layers E [x, y] = [[merkle_node E x y]]" for x y
    by (simp add: merkle_layers.simps Let_def)
  show ?thesis
    using assms by (auto simp: tree_build_def Let_def pair_tree_def two remdups_adj_Cons)
qed

lemma pair_tree_prove:
  assumes "a \<noteq> b"
  shows "tree_prove (pair_tree E a b) a = Inr \<lparr>siblings = [\<lparr>sib_hash = b, is_left = False\<rparr>]\<rparr>"
    "tree_prove (pair_tree E a b) b = Inr \<lparr>siblings = [\<lparr>sib_hash = a, is_left = True\<rparr>]\<rparr>"
    "tree_root (pair_tree E a b) = merkle_node E a b"
  using assms by (simp_all add: tree_prove_def pair_tree_def tree_root_def Let_def)

text \<open>The hash with its first byte inverted; the node hash is trusted to tell it from the hash itself.\<close>

definition flip_first :: "bytes \<Rightarrow> bytes" where
  "flip_first h = (hd h XOR 0xFF) # tl h"

definition flip_seen :: "ext \<Rightarrow> bytes \<Rightarrow> bytes \<Rightarrow> bool" where
  "flip_seen E a b \<longleftrightarrow> merkle_node E a (flip_first b) \<noteq> merkle_node E a b \<and> merkle_node E (flip_first b) a \<noteq> merkle_node E b a"

lemma tampered_pair:
  assumes "a \<noteq> b" "tree_build E [a, b] = Inr t" "flip_seen E a b"
  shows "\<exists>built pr. sub_scope_build t [a] = Inr built \<and> tamper_first built = Some pr
    \<and> (\<forall>r. verify_and_derive_root E pr (tree_root t) \<noteq> Inr r) \<and> \<not> is_passthrough (x\<lparr>scope_proof := pr\<rparr>)"
proof (cases "a < b")
  case True
  with assms(1,2) have t: "t = pair_tree E a b" by (simp add: tree_build_pair)
  show ?thesis
    using assms(1,3)
    by (simp add: t sub_scope_build_def pair_tree_prove tamper_first_def verify_and_derive_root_def merkle_verify_def
        verify_step_def flip_seen_def flip_first_def is_passthrough_def)
next
  case False
  with assms(1,2) have t: "t = pair_tree E b a" by (simp add: tree_build_pair)
  show ?thesis
    using assms(1,3) not_sym [OF assms(1)]
    by (simp add: t sub_scope_build_def pair_tree_prove tamper_first_def verify_and_derive_root_def merkle_verify_def
        verify_step_def flip_seen_def flip_first_def is_passthrough_def)
qed

lemma adversarial_tampered_subscope_passes:
  assumes "world_ok W" "named_hash (tw_ext W) ''action.1'' \<noteq> named_hash (tw_ext W) ''action.2''"
    and "flip_seen (tw_ext W) (named_hash (tw_ext W) ''action.1'') (named_hash (tw_ext W) ''action.2'')"
  shows "adversarial_tampered_subscope W = Some ()"
proof -
  let ?E = "tw_ext W" and ?a = "named_hash (tw_ext W) ''action.1''" and ?b = "named_hash (tw_ext W) ''action.2''"
  obtain e where e: "checked_add (tw_clock W 0) 3600 = Some e" by (rule hour_fits [OF assms(1)])
  obtain t where t: "tree_build ?E [?a, ?b] = Inr t" using tree_build_nonempty [of "[?a, ?b]" ?E] by auto
  obtain built pr where p: "sub_scope_build t [?a] = Inr built" "tamper_first built = Some pr"
      "\<forall>r. verify_and_derive_root ?E pr (tree_root t) \<noteq> Inr r" "\<And>x. \<not> is_passthrough (x\<lparr>scope_proof := pr\<rparr>)"
    using tampered_pair [OF assms(2) t assms(3)] by (auto simp: is_passthrough_def)
  let ?b' = "builder_scope_proof pr (builder_new (tw_nonce W 0) (tw_pk W 1) ?a (tw_clock W 0) e)"
  obtain cert where c: "builder_sign ?E (tw_key W 0) ?b' = Some cert" "scope_proof cert = pr" "scope_root cert = ?a"
    using clock_window_hour(1) [OF assms(1) e] by (simp add: builder_sign_issue)
  have "\<not> is_passthrough cert" using p(4) [of cert] c(2) by (simp add: is_passthrough_def)
  then have "\<not> chain_valid ?E (tw_pk W 1) ?a proof_default now drift (chain_push cert (chain_new (tw_pk W 0) (tree_root t)))" for now drift
    using p(3) c(2) by (simp add: chain_valid_def chain_push_def chain_new_def)
  then show ?thesis
    using assms(1) c(1)
    by (simp add: adversarial_tampered_subscope_def intent_named_Some t p(1,2) tree_build_one e authorize_mem_ok_iff Let_def)
qed

definition adversarial_mid_execution_revocation :: "test_world \<Rightarrow> unit option" where
  "adversarial_mid_execution_revocation W = do {
     let E = tw_ext W;
     trade \<leftarrow> intent_named E ''trade'';
     tree \<leftarrow> unwrap (tree_build E [trade]);
     expiry \<leftarrow> checked_add (tw_clock W 0) 3600;
     cert1 \<leftarrow> builder_sign E (tw_key W 0)
       (builder_nonce (tw_nonce W 1) (builder_new (tw_nonce W 0) (tw_pk W 1) (tree_root tree) (tw_clock W 0) expiry));
     cert2 \<leftarrow> builder_sign E (tw_key W 0)
       (builder_nonce (tw_nonce W 3) (builder_new (tw_nonce W 2) (tw_pk W 1) (tree_root tree) (tw_clock W 0) expiry));
     let chain1 = chain_push cert1 (chain_new (tw_pk W 0) (tree_root tree));
     let chain2 = chain_push cert2 (chain_new (tw_pk W 0) (tree_root tree));
     let (first, nonces) = authorize_mem W (tw_clock W 1) 2 (tw_pk W 1) trade proof_default mem_rev_new chain1 mem_nonce_new;
     _ \<leftarrow> require (is_ok first);
     let (revoked, rs) = mem_revoke mem_rev_new (cert_fingerprint E cert2);
     _ \<leftarrow> unwrap revoked;
     require (\<not> is_ok (fst (authorize_mem W (tw_clock W 4) 5 (tw_pk W 1) trade proof_default rs chain2 nonces)))
   }"

text \<open>A chain of one certificate signed in this hour is good for its intent, as long as it is fresh and not revoked.\<close>

lemma one_hop_now_ok:
  assumes "world_ok W" "checked_add (tw_clock W 0) 3600 = Some e" "mem_rev_inv rs" "nonce_inv_forever ns"
  shows "is_ok (fst (authorize_mem W (tw_clock W j) k a i proof_default rs
      (one_hop (tw_ext W) (tw_key W m) dt sr nn (tw_clock W 0) e md) ns)) \<longleftrightarrow>
    a = dt \<and> i = sr \<and> chain_fps (tw_ext W) (one_hop (tw_ext W) (tw_key W m) dt sr nn (tw_clock W 0) e md) \<inter> revoked_set rs = {}
    \<and> nn \<notin> live 0 ns"
  using clock_window_hour [OF assms(1,2)] assms
  by (auto simp: authorize_mem_ok_iff one_hop_valid_iff)

lemma adversarial_mid_execution_revocation_passes:
  assumes "world_ok W"
  shows "adversarial_mid_execution_revocation W = Some ()"
proof -
  let ?E = "tw_ext W" and ?h = "named_hash (tw_ext W) ''trade''"
  obtain e where e: "checked_add (tw_clock W 0) 3600 = Some e" by (rule hour_fits [OF assms])
  let ?c = "\<lambda>n. one_hop ?E (tw_key W 0) (tw_pk W 1) ?h (tw_nonce W n) (tw_clock W 0) e 16"
  let ?cert = "\<lambda>n. cert_issue ?E (tw_key W 0) (tw_pk W 1) ?h full_passthrough (tw_nonce W n) (tw_clock W 0) e 16 extensions_new"
  obtain first ns where a: "authorize_mem W (tw_clock W 1) 2 (tw_pk W 1) ?h proof_default mem_rev_new (?c 1) mem_nonce_new = (first, ns)"
    by (meson surj_pair)
  have ok: "is_ok first" using one_hop_now_ok [OF assms e new_stores(1,2), of 1 2 "tw_pk W 1" ?h 0 "tw_pk W 1" ?h "tw_nonce W 1" 16] a by simp
  have ns: "nonce_inv_forever ns"
    using authorize_mem_live(1) [OF assms new_stores(1,2), of "tw_clock W 1" 2 "tw_pk W 1" ?h proof_default "?c 1"] a ok by simp
  obtain rs where r: "mem_revoke mem_rev_new (cert_fingerprint ?E (?cert 3)) = (Inr (), rs)" "mem_rev_inv rs"
      "revoked_set rs = {cert_fingerprint ?E (?cert 3)}"
    using mem_revoke_spec [OF new_stores(1)] by auto
  have "\<not> is_ok (fst (authorize_mem W (tw_clock W 4) 5 (tw_pk W 1) ?h proof_default rs (?c 3) ns))"
    using one_hop_now_ok [OF assms e r(2) ns] r(3) by (simp add: chain_fps_def)
  then show ?thesis
    using a ok r(1) clock_window_hour(1) [OF assms e]
    by (simp add: adversarial_mid_execution_revocation_def intent_named_Some tree_build_one e builder_sign_issue
        Let_def flip: one_hop_def)
qed

definition nonce_replay_rejected :: "test_world \<Rightarrow> unit option" where
  "nonce_replay_rejected W = do {
     let nonce = tw_nonce W 0;
     let (first, store) = mem_try_consume (tw_clock W 0) mem_nonce_new nonce;
     fresh \<leftarrow> unwrap first;
     _ \<leftarrow> require fresh;
     again \<leftarrow> unwrap (fst (mem_try_consume (tw_clock W 1) store nonce));
     require (\<not> again)
   }"

lemma try_consume_forever:
  assumes "nonce_inv_forever s"
  shows "\<exists>s'. mem_try_consume t s n = (Inr (n \<notin> live 0 s), s') \<and> nonce_inv_forever s' \<and> live 0 s' = insert n (live 0 s)"
proof (cases "n \<in> live t s")
  case True
  then show ?thesis
    using mem_forever.consume_refused [OF assms, of "[n]" t] mem_forever.used_time [OF assms, of t 0] assms
    by (auto simp: mem_try_consume_batch_one)
next
  case False
  then obtain s' where "mem_try_consume t s n = (Inr True, s')" "nonce_inv_forever s'" "live t s' = insert n (live t s)"
    using mem_forever.consume_fresh [OF assms, of "[n]" t] by (auto simp: mem_try_consume_batch_one)
  then show ?thesis using mem_forever.used_time [OF assms, of t 0] mem_forever.used_time [of s' t 0] False by auto
qed

lemma nonce_replay_rejected_passes: "nonce_replay_rejected W = Some ()"
proof -
  obtain s' where s: "mem_try_consume (tw_clock W 0) mem_nonce_new (tw_nonce W 0) = (Inr True, s')"
      "nonce_inv_forever s'" "live 0 s' = {tw_nonce W 0}"
    using try_consume_forever [OF new_stores(2), of "tw_clock W 0" "tw_nonce W 0"] by auto
  obtain s2 where "mem_try_consume (tw_clock W 1) s' (tw_nonce W 0) = (Inr False, s2)"
    using try_consume_forever [OF s(2), of "tw_clock W 1" "tw_nonce W 0"] s(3) by auto
  with s(1) show ?thesis by (simp add: nonce_replay_rejected_def Let_def)
qed

section \<open>Policies\<close>

text \<open>
  The loops that push one certificate after the other: \<open>from k\<close> signs for \<open>to k\<close>, and \<open>f k\<close> is what is done
  to the builder before.
\<close>

fun hand_out ::
  "ext \<Rightarrow> (nat \<Rightarrow> signer) \<Rightarrow> (nat \<Rightarrow> bytes) \<Rightarrow> (nat \<Rightarrow> cert_builder \<Rightarrow> cert_builder) \<Rightarrow> (nat \<Rightarrow> bytes) \<Rightarrow> bytes \<Rightarrow> u64 \<Rightarrow> u64
     \<Rightarrow> nat \<Rightarrow> nat \<Rightarrow> dyolo_chain \<Rightarrow> dyolo_chain option" where
  "hand_out E from_key to_pk f nn scope iat expiry k 0 c = Some c"
| "hand_out E from_key to_pk f nn scope iat expiry k (Suc n) c = do {
     cert \<leftarrow> builder_sign E (from_key k) (f k (builder_new (nn k) (to_pk k) scope iat expiry));
     hand_out E from_key to_pk f nn scope iat expiry (Suc k) n (chain_push cert c)
   }"

definition keeps_window :: "(nat \<Rightarrow> cert_builder \<Rightarrow> cert_builder) \<Rightarrow> bool" where
  "keeps_window f \<longleftrightarrow> (\<forall>k b. b_issued_at (f k b) = b_issued_at b \<and> b_expiration_unix (f k b) = b_expiration_unix b)"

lemma hand_out_spec:
  assumes "keeps_window f" "iat < expiry"
  shows "\<exists>c'. hand_out E from_key to_pk f nn scope iat expiry k n c = Some c' \<and> length (certs c') = length (certs c) + n
    \<and> principal_pk c' = principal_pk c
    \<and> (\<forall>x\<in>set (certs c'). x \<in> set (certs c) \<or> issued_at x = iat \<and> expiration_unix x = expiry)"
proof (induction n arbitrary: k c)
  case (Suc n)
  let ?b = "f k (builder_new (nn k) (to_pk k) scope iat expiry)"
  have w: "b_issued_at ?b = iat" "b_expiration_unix ?b = expiry" using assms(1) by (simp_all add: keeps_window_def)
  then obtain cert where c: "builder_sign E (from_key k) ?b = Some cert" "issued_at cert = iat" "expiration_unix cert = expiry"
    using assms(2) by (simp add: builder_sign_issue)
  obtain c' where "hand_out E from_key to_pk f nn scope iat expiry (Suc k) n (chain_push cert c) = Some c'"
      "length (certs c') = Suc (length (certs c)) + n" "principal_pk c' = principal_pk c"
      "\<forall>x\<in>set (certs c'). x \<in> set (certs c) \<or> x = cert \<or> issued_at x = iat \<and> expiration_unix x = expiry"
    using Suc.IH [of "Suc k" "chain_push cert c"] by (auto simp: chain_push_def)
  with c show ?case by auto
qed simp

lemma keeps_window_simps [simp]:
  "keeps_window (\<lambda>k b. b)" "keeps_window (\<lambda>k. builder_nonce (g k))"
  "keeps_window (\<lambda>k b. builder_max_depth d (builder_nonce (g k) b))"
  by (simp_all add: keeps_window_def builder_nonce_def)

lemma chain_new_sels [simp]: "certs (chain_new p s) = []" "principal_pk (chain_new p s) = p"
  by (simp_all add: chain_new_def)

text \<open>A policy that only limits depth, time to live or principals looks at no more than these.\<close>

lemma check_chain_limits:
  assumes "pol_max_chain_depth p = d" "pol_max_ttl_secs p = t" "allow_sub_delegation p" "required_extensions p = []"
    and "\<forall>x\<in>set (certs c). issued_at x = iat \<and> expiration_unix x = expiry" "certs c \<noteq> []"
  shows "is_ok (check_chain p c) \<longleftrightarrow>
    (trusted_principal_pks p = [] \<or> principal_pk c \<in> set (trusted_principal_pks p))
    \<and> (\<forall>m. d = Some m \<longrightarrow> length (certs c) \<le> unat m) \<and> (\<forall>m. t = Some m \<longrightarrow> unat expiry - unat iat \<le> unat m)"
proof -
  have "is_ok (check_chain p c) \<longleftrightarrow> check_chain p c = Inr ()" by (cases "check_chain p c") auto
  then show ?thesis unfolding check_chain_iff using assms by (auto simp: cert_conforms_def)
qed

lemmas policy_defs = policy_new_def policy_max_chain_depth_def policy_max_ttl_secs_def policy_capabilities_def trust_principal_def

definition policy_chain_depth_enforced :: "test_world \<Rightarrow> unit option" where
  "policy_chain_depth_enforced W = do {
     let E = tw_ext W;
     trade \<leftarrow> intent_named E ''trade.equity'';
     tree \<leftarrow> unwrap (tree_build E [trade]);
     let scope = tree_root tree;
     expiry \<leftarrow> checked_add (tw_clock W 0) 3600;
     chain \<leftarrow> hand_out E (tw_key W) (\<lambda>k. tw_pk W (Suc k)) (\<lambda>k b. b) (tw_nonce W) scope (tw_clock W 0) expiry 0 3
       (chain_new (tw_pk W 0) scope);
     let shallow = policy_max_chain_depth 2 (policy_new ''shallow'');
     let deep = policy_max_chain_depth 5 (policy_new ''deep'');
     _ \<leftarrow> require (\<not> is_ok (check_chain shallow chain));
     require (is_ok (check_chain deep chain))
   }"

lemma policy_chain_depth_enforced_passes:
  assumes "world_ok W"
  shows "policy_chain_depth_enforced W = Some ()"
proof -
  obtain e where e: "checked_add (tw_clock W 0) 3600 = Some e" by (rule hour_fits [OF assms])
  let ?h = "named_hash (tw_ext W) ''trade.equity''"
  obtain c where c: "hand_out (tw_ext W) (tw_key W) (\<lambda>k. tw_pk W (Suc k)) (\<lambda>k b. b) (tw_nonce W) ?h (tw_clock W 0) e 0 3
      (chain_new (tw_pk W 0) ?h) = Some c" "length (certs c) = 3" "\<forall>x\<in>set (certs c). issued_at x = tw_clock W 0 \<and> expiration_unix x = e"
    using hand_out_spec [OF keeps_window_simps(1) clock_window_hour(1) [OF assms e], where n = 3 and k = 0] by fastforce
  have "certs c \<noteq> []" using c(2) by auto
  then show ?thesis
    using c(1,2) check_chain_limits [OF refl refl _ _ c(3)]
    by (simp add: policy_chain_depth_enforced_def intent_named_Some tree_build_one e Let_def policy_defs)
qed

definition policy_ttl_enforced :: "test_world \<Rightarrow> unit option" where
  "policy_ttl_enforced W = do {
     let E = tw_ext W;
     trade \<leftarrow> intent_named E ''trade'';
     tree \<leftarrow> unwrap (tree_build E [trade]);
     let scope = tree_root tree;
     cert \<leftarrow> builder_sign E (tw_key W 0) (builder_new (tw_nonce W 0) (tw_pk W 1) scope 1700000000 (1700000000 + 7200));
     let chain = chain_push cert (chain_new (tw_pk W 0) scope);
     _ \<leftarrow> require (\<not> is_ok (check_chain (policy_max_ttl_secs 3600 (policy_new ''strict-ttl'')) chain));
     require (is_ok (check_chain (policy_max_ttl_secs 86400 (policy_new ''relaxed-ttl'')) chain))
   }"

lemma policy_ttl_enforced_passes: "policy_ttl_enforced W = Some ()"
proof -
  let ?h = "named_hash (tw_ext W) ''trade''"
  let ?c = "one_hop (tw_ext W) (tw_key W 0) (tw_pk W 1) ?h (tw_nonce W 0) 1700000000 1700007200 16"
  have a: "\<forall>x\<in>set (certs ?c). issued_at x = 1700000000 \<and> expiration_unix x = 1700007200" "certs ?c \<noteq> []" by simp_all
  show ?thesis
    using check_chain_limits [OF refl refl _ _ a]
    by (simp add: policy_ttl_enforced_def intent_named_Some tree_build_one builder_sign_issue Let_def policy_defs flip: one_hop_def)
qed

definition policy_capability_set_prefix_matching :: "unit option" where
  "policy_capability_set_prefix_matching = do {
     let caps = capset_allow ''query'' (capset_allow ''trade.'' capset_new);
     _ \<leftarrow> require (permits caps ''trade.equity'');
     _ \<leftarrow> require (permits caps ''trade.fx'');
     _ \<leftarrow> require (permits caps ''query'');
     require (\<not> permits caps ''admin.delete'')
   }"

lemma policy_capability_set_prefix_matching_passes: "policy_capability_set_prefix_matching = Some ()"
  by code_simp

definition policy_capability_wildcard_permits_all :: "unit option" where
  "policy_capability_wildcard_permits_all = do {
     _ \<leftarrow> require (permits capset_wildcard ''anything.at.all'');
     require (permits capset_wildcard ''admin.nuclear_launch'')
   }"

lemma policy_capability_wildcard_permits_all_passes: "policy_capability_wildcard_permits_all = Some ()"
  by (simp add: policy_capability_wildcard_permits_all_def permits_wildcard)

definition policy_intent_blocked_by_capability_set :: "unit option" where
  "policy_intent_blocked_by_capability_set = do {
     let policy = policy_capabilities (capset_allow ''trade.equity'' capset_new) (policy_new ''trade-only'');
     good \<leftarrow> unwrap (intent_new ''trade.equity'');
     _ \<leftarrow> require (is_ok (check_intent policy good));
     bad \<leftarrow> unwrap (intent_new ''admin.delete'');
     require (\<not> is_ok (check_intent policy bad))
   }"

lemma policy_intent_blocked_by_capability_set_passes: "policy_intent_blocked_by_capability_set = Some ()"
  by code_simp

definition policy_set_first_violation_short_circuits :: "test_world \<Rightarrow> unit option" where
  "policy_set_first_violation_short_circuits W = do {
     let E = tw_ext W;
     trade \<leftarrow> intent_named E ''trade'';
     tree \<leftarrow> unwrap (tree_build E [trade]);
     let scope = tree_root tree;
     chain \<leftarrow> hand_out E (\<lambda>_. tw_key W 0) (\<lambda>k. tw_pk W (Suc k)) (\<lambda>k b. b) (tw_nonce W) scope 1700000000 (1700000000 + 3600) 0 4
       (chain_new (tw_pk W 0) scope);
     let ps = policy_set_add (policy_max_ttl_secs 86400 (policy_new ''ttl''))
       (policy_set_add (policy_max_chain_depth 3 (policy_new ''depth'')) []);
     require (\<not> is_ok (set_check_chain ps chain))
   }"

lemma policy_set_first_violation_short_circuits_passes: "policy_set_first_violation_short_circuits W = Some ()"
proof -
  let ?h = "named_hash (tw_ext W) ''trade''"
  obtain c where c: "hand_out (tw_ext W) (\<lambda>_. tw_key W 0) (\<lambda>k. tw_pk W (Suc k)) (\<lambda>k b. b) (tw_nonce W) ?h 1700000000 1700003600 0 4
      (chain_new (tw_pk W 0) ?h) = Some c" "length (certs c) = 4"
    using hand_out_spec [OF keeps_window_simps(1), of 1700000000 1700003600, where n = 4 and k = 0] by fastforce
  have "check_chain (policy_max_chain_depth 3 (policy_new ''depth'')) c \<noteq> Inr ()"
    using c(2) by (simp add: check_chain_iff policy_defs)
  then have "set_check_chain [policy_max_chain_depth 3 (policy_new ''depth''), policy_max_ttl_secs 86400 (policy_new ''ttl'')] c \<noteq> Inr ()"
    by (simp add: set_check_chain_iff)
  then have "\<not> is_ok (set_check_chain [policy_max_chain_depth 3 (policy_new ''depth''), policy_max_ttl_secs 86400 (policy_new ''ttl'')] c)"
    by (auto simp: is_ok_def split: sum.splits)
  then show ?thesis using c(1)
    by (simp add: policy_set_first_violation_short_circuits_def intent_named_Some tree_build_one Let_def policy_set_add_def)
qed

definition policy_untrusted_principal_rejected :: "test_world \<Rightarrow> unit option" where
  "policy_untrusted_principal_rejected W = do {
     let E = tw_ext W;
     act \<leftarrow> intent_named E ''act'';
     tree \<leftarrow> unwrap (tree_build E [act]);
     let scope = tree_root tree;
     cert0 \<leftarrow> builder_sign E (tw_key W 0) (builder_new (tw_nonce W 0) (tw_pk W 2) scope 1700000000 (1700000000 + 3600));
     let trusted_chain = chain_push cert0 (chain_new (tw_pk W 0) scope);
     cert1 \<leftarrow> builder_sign E (tw_key W 1) (builder_new (tw_nonce W 1) (tw_pk W 3) scope 1700000000 (1700000000 + 3600));
     let untrusted_chain = chain_push cert1 (chain_new (tw_pk W 1) scope);
     let policy = trust_principal (tw_pk W 0) (policy_new ''acl'');
     _ \<leftarrow> require (is_ok (check_chain policy trusted_chain));
     require (\<not> is_ok (check_chain policy untrusted_chain))
   }"

lemma policy_untrusted_principal_rejected_passes:
  assumes "world_ok W"
  shows "policy_untrusted_principal_rejected W = Some ()"
proof -
  let ?h = "named_hash (tw_ext W) ''act''"
  let ?c = "\<lambda>i j n. one_hop (tw_ext W) (tw_key W i) (tw_pk W j) ?h (tw_nonce W n) 1700000000 1700003600 16"
  have a: "\<forall>x\<in>set (certs (?c i j n)). issued_at x = 1700000000 \<and> expiration_unix x = 1700003600" "certs (?c i j n) \<noteq> []" for i j n
    by simp_all
  have "tw_pk W 1 \<noteq> tw_pk W 0" by (simp add: world_distinct [OF assms])
  then show ?thesis
    using check_chain_limits [OF refl refl _ _ a(1) [of 0 2 0] a(2)] check_chain_limits [OF refl refl _ _ a(1) [of 1 3 1] a(2)]
    by (simp add: policy_untrusted_principal_rejected_def intent_named_Some tree_build_one builder_sign_issue Let_def policy_defs
        flip: one_hop_def)
qed

section \<open>Audit events and policies in a call\<close>

text \<open>\<open>authorize_with_options\<close> over the stores in memory, with the event it emits.\<close>

definition authorize_opt ::
  "test_world \<Rightarrow> u64 \<Rightarrow> nat \<Rightarrow> bytes \<Rightarrow> bytes \<Rightarrow> merkle_proof \<Rightarrow> memory_revocation_store \<Rightarrow> policy_set option \<Rightarrow> dyolo_chain
     \<Rightarrow> memory_nonce_store \<Rightarrow> ((a1_error + verification_receipt) \<times> memory_nonce_store) \<times> audit_event" where
  "authorize_opt W now k agent i p rs policy c ns =
     authorize_with_options (tw_ext W) (tw_rnd W) agent i p now (tw_clock W (k + 1)) (mem_is_revoked rs)
       (mem_try_consume_batch (tw_clock W k)) policy c ns"

lemma authorize_opt_none:
  "fst (authorize_opt W now k a i p rs None c ns) = authorize_mem W now k a i p rs c ns"
  by (simp add: authorize_opt_def authorize_mem_def authorize_def)

lemma authorize_opt_event:
  "snd (authorize_opt W now k a i p rs pol c ns) =
     authorize_event (tw_ext W) (tw_rnd W) a i (tw_clock W (k + 1)) c (fst (fst (authorize_opt W now k a i p rs pol c ns)))"
  by (simp add: authorize_opt_def authorize_with_options_def Let_def)

lemma authorize_opt_policy:
  assumes "set_check_chain ps c = Inl e"
  shows "fst (authorize_opt W now k a i p rs (Some ps) c ns) = (Inl e, ns)"
  using assms by (simp add: authorize_opt_def authorize_with_options_def authorize_inner_def Let_def)

lemma authorize_opt_pass:
  assumes "set_check_chain ps c = Inr ()"
  shows "fst (authorize_opt W now k a i p rs (Some ps) c ns) = authorize_mem W now k a i p rs c ns"
  using assms by (simp add: authorize_opt_def authorize_mem_def authorize_def authorize_with_options_def authorize_inner_def Let_def)

lemma event_authorized:
  assumes "is_ok r"
  shows "outcome (authorize_event E rnd a i t c r) = Authorized \<and> ev_chain_depth (authorize_event E rnd a i t c r) = length (certs c)
    \<and> ev_chain_fingerprint (authorize_event E rnd a i t c r) \<noteq> None"
  using assms
  by (cases r) (simp_all add: authorize_event_def Let_def outcome_of_def with_fingerprint_def audit_event_new_def)

lemma base_chain_Some:
  assumes "world_ok W"
  obtains e where "checked_add (tw_clock W 0) 3600 = Some e"
    "base_chain W 3600 = Some (one_hop (tw_ext W) (tw_key W 0) (tw_pk W 1) (named_hash (tw_ext W) ''trade.equity'') (tw_nonce W 1) (tw_clock W 0) e 16)"
proof -
  obtain e where e: "checked_add (tw_clock W 0) 3600 = Some e" by (rule hour_fits [OF assms])
  moreover have "base_chain W 3600 = Some (one_hop (tw_ext W) (tw_key W 0) (tw_pk W 1) (named_hash (tw_ext W) ''trade.equity'')
      (tw_nonce W 1) (tw_clock W 0) e 16)"
    using clock_window_hour(1) [OF assms e]
    by (simp add: base_chain_def intent_named_Some tree_build_one e builder_sign_issue flip: one_hop_def)
  ultimately show ?thesis using that by blast
qed

definition audit_sink_records_success_event :: "test_world \<Rightarrow> unit option" where
  "audit_sink_records_success_event W = do {
     chain \<leftarrow> base_chain W 3600;
     trade \<leftarrow> intent_named (tw_ext W) ''trade.equity'';
     let (res, event) = authorize_opt W (tw_clock W 1) 2 (tw_pk W 1) trade proof_default mem_rev_new None chain mem_nonce_new;
     _ \<leftarrow> unwrap (fst res);
     let events = [event];
     _ \<leftarrow> require (length events = 1);
     _ \<leftarrow> require (outcome (events ! 0) = Authorized);
     _ \<leftarrow> require (ev_chain_depth (events ! 0) = 1);
     require (ev_chain_fingerprint (events ! 0) \<noteq> None)
   }"

lemma audit_sink_records_success_event_passes:
  assumes "world_ok W"
  shows "audit_sink_records_success_event W = Some ()"
proof -
  let ?h = "named_hash (tw_ext W) ''trade.equity''"
  obtain e where e: "checked_add (tw_clock W 0) 3600 = Some e"
    and b: "base_chain W 3600 = Some (one_hop (tw_ext W) (tw_key W 0) (tw_pk W 1) ?h (tw_nonce W 1) (tw_clock W 0) e 16)"
    by (rule base_chain_Some [OF assms])
  let ?c = "one_hop (tw_ext W) (tw_key W 0) (tw_pk W 1) ?h (tw_nonce W 1) (tw_clock W 0) e 16"
  let ?A = "authorize_opt W (tw_clock W 1) 2 (tw_pk W 1) ?h proof_default mem_rev_new None ?c mem_nonce_new"
  have ok: "is_ok (fst (fst ?A))"
    unfolding authorize_opt_none by (simp add: one_hop_now_ok [OF assms e] del: One_nat_def)
  then obtain rc where rc: "unwrap (fst (fst ?A)) = Some rc" by (cases "fst (fst ?A)") auto
  obtain res event where A: "?A = (res, event)" by (cases ?A)
  have ev: "event = authorize_event (tw_ext W) (tw_rnd W) (tw_pk W 1) ?h (tw_clock W (2 + 1)) ?c (fst res)"
    using authorize_opt_event [of W "tw_clock W 1" 2 "tw_pk W 1" ?h proof_default mem_rev_new None ?c mem_nonce_new] unfolding A by simp
  have "is_ok (fst res)" using ok unfolding A by simp
  note e1 = event_authorized [OF this, of "tw_ext W" "tw_rnd W" "tw_pk W 1" ?h "tw_clock W (2 + 1)" ?c]
  show ?thesis
    using rc e1 by (simp add: audit_sink_records_success_event_def b intent_named_Some A Let_def ev del: One_nat_def)
qed

definition audit_sink_records_failure_event_on_replay :: "test_world \<Rightarrow> unit option" where
  "audit_sink_records_failure_event_on_replay W = do {
     let E = tw_ext W;
     trade \<leftarrow> intent_named E ''trade'';
     tree \<leftarrow> unwrap (tree_build E [trade]);
     expiry \<leftarrow> checked_add (tw_clock W 0) 3600;
     cert \<leftarrow> builder_sign E (tw_key W 0)
       (builder_nonce (tw_nonce W 0) (builder_new (tw_nonce W 1) (tw_pk W 1) (tree_root tree) (tw_clock W 0) expiry));
     let make_chain = (\<lambda>c. chain_push c (chain_new (tw_pk W 0) (tree_root tree)));
     let (res1, event1) = authorize_opt W (tw_clock W 1) 2 (tw_pk W 1) trade proof_default mem_rev_new None (make_chain cert) mem_nonce_new;
     _ \<leftarrow> unwrap (fst res1);
     let (res2, event2) = authorize_opt W (tw_clock W 4) 5 (tw_pk W 1) trade proof_default mem_rev_new None (make_chain cert) (snd res1);
     let events = [event1, event2];
     _ \<leftarrow> require (length events = 2);
     _ \<leftarrow> require (outcome (events ! 0) = Authorized);
     require (outcome (events ! 1) = Denied)
   }"

lemma authorize_opt_replay:
  assumes "world_ok W" "nonce_inv_forever ns" "chain_nonces c \<inter> live 0 ns \<noteq> {}" "mem_rev_inv rs" "chain_fps (tw_ext W) c \<inter> revoked_set rs = {}"
    and "chain_valid (tw_ext W) a i p now (drift_tolerance_secs c) c"
  shows "fst (authorize_opt W now k a i p rs None c ns) = (Inl NonceReplay, ns)"
proof -
  have bc: "batch_complete (tw_ext W)" "batch_sound (tw_ext W)" using assms(1) by (simp_all add: world_ok_def)
  have v: "validate_structure (tw_ext W) a i p now (drift_tolerance_secs c) c = Inr (result_of (tw_ext W) now c)"
    using validate_structure_iff [OF bc] assms(6) by blast
  have l: "chain_nonces c \<inter> live (tw_clock W k) ns \<noteq> {}"
    using assms(3) mem_forever.used_time [OF assms(2), of "tw_clock W k" 0] by simp
  show ?thesis
    using sys_auth.authorize_denied_replay [OF assms(4,2) _ v assms(5) l, of None]
    by (simp add: authorize_opt_def authorize_with_options_def Let_def policy_ok_def)
qed

lemma audit_sink_records_failure_event_on_replay_passes:
  assumes "world_ok W"
  shows "audit_sink_records_failure_event_on_replay W = Some ()"
proof -
  let ?E = "tw_ext W" and ?h = "named_hash (tw_ext W) ''trade''"
  obtain e where e: "checked_add (tw_clock W 0) 3600 = Some e" by (rule hour_fits [OF assms])
  let ?c = "one_hop ?E (tw_key W 0) (tw_pk W 1) ?h (tw_nonce W 0) (tw_clock W 0) e 16"
  let ?A = "authorize_opt W (tw_clock W 1) 2 (tw_pk W 1) ?h proof_default mem_rev_new None ?c mem_nonce_new"
  obtain r1 ns ev1 where A: "?A = ((r1, ns), ev1)" by (metis surj_pair)
  have m: "authorize_mem W (tw_clock W 1) 2 (tw_pk W 1) ?h proof_default mem_rev_new ?c mem_nonce_new = (r1, ns)"
    using authorize_opt_none [of W "tw_clock W 1" 2 "tw_pk W 1" ?h proof_default mem_rev_new ?c mem_nonce_new] unfolding A by simp
  have ok: "is_ok r1" using one_hop_now_ok [OF assms e new_stores(1,2), of 1 2 "tw_pk W 1" ?h 0 "tw_pk W 1" ?h "tw_nonce W 0" 16]
    unfolding m by simp
  have ns: "nonce_inv_forever ns" "live 0 ns = {tw_nonce W 0}"
    using authorize_mem_live [OF assms new_stores(1,2), of "tw_clock W 1" 2 "tw_pk W 1" ?h proof_default ?c] unfolding m by (simp_all add: ok)
  have "chain_valid ?E (tw_pk W 1) ?h proof_default (tw_clock W 4) (drift_tolerance_secs ?c) ?c"
    using clock_window_hour(2,3) [OF assms e, of 4] assms by (simp add: one_hop_valid_iff)
  then have B: "fst (authorize_opt W (tw_clock W 4) 5 (tw_pk W 1) ?h proof_default mem_rev_new None ?c ns) = (Inl NonceReplay, ns)"
    using authorize_opt_replay [OF assms ns(1), of ?c mem_rev_new "tw_pk W 1" ?h proof_default "tw_clock W 4" 5] ns(2) by simp
  obtain ev2 where B': "authorize_opt W (tw_clock W 4) 5 (tw_pk W 1) ?h proof_default mem_rev_new None ?c ns = ((Inl NonceReplay, ns), ev2)"
    using B by (metis prod.collapse)
  have "ev1 = authorize_event ?E (tw_rnd W) (tw_pk W 1) ?h (tw_clock W (2 + 1)) ?c r1"
    using authorize_opt_event [of W "tw_clock W 1" 2 "tw_pk W 1" ?h proof_default mem_rev_new None ?c mem_nonce_new] unfolding A by simp
  then have o1: "outcome ev1 = Authorized" using event_authorized [OF ok] by blast
  have "ev2 = authorize_event ?E (tw_rnd W) (tw_pk W 1) ?h (tw_clock W (5 + 1)) ?c (Inl NonceReplay)"
    using authorize_opt_event [of W "tw_clock W 4" 5 "tw_pk W 1" ?h proof_default mem_rev_new None ?c ns] unfolding B' by simp
  then have o2: "outcome ev2 = Denied"
    by (simp add: authorize_event_def Let_def outcome_of_def with_error_def audit_event_new_def is_policy_violation_def
        is_transient_storage_failure_def as_storage_error_def)
  obtain rc where "unwrap r1 = Some rc" using ok by (cases r1) auto
  then show ?thesis
    using clock_window_hour(1) [OF assms e] o1 o2
    by (simp add: audit_sink_records_failure_event_on_replay_def intent_named_Some tree_build_one e builder_sign_issue Let_def A B'
        flip: one_hop_def del: One_nat_def)
qed

definition authorize_with_options_policy_blocks_over_depth :: "test_world \<Rightarrow> unit option" where
  "authorize_with_options_policy_blocks_over_depth W = do {
     let E = tw_ext W;
     trade \<leftarrow> intent_named E ''trade'';
     tree \<leftarrow> unwrap (tree_build E [trade]);
     let scope = tree_root tree;
     expiry \<leftarrow> checked_add (tw_clock W 0) 3600;
     chain \<leftarrow> hand_out E (tw_key W) (\<lambda>k. tw_pk W (Suc k)) (\<lambda>k. builder_nonce (tw_nonce W (Suc (2 * k)))) (\<lambda>k. tw_nonce W (2 * k))
       scope (tw_clock W 0) expiry 0 3 (chain_new (tw_pk W 0) scope);
     let policy = policy_set_add (policy_max_chain_depth 2 (policy_new ''depth-2'')) [];
     let (res, event) = authorize_opt W (tw_clock W 1) 2 (tw_pk W 3) trade proof_default mem_rev_new (Some policy) chain mem_nonce_new;
     require (\<not> is_ok (fst res))
   }"

lemma authorize_with_options_policy_blocks_over_depth_passes:
  assumes "world_ok W"
  shows "authorize_with_options_policy_blocks_over_depth W = Some ()"
proof -
  let ?h = "named_hash (tw_ext W) ''trade''" and ?p = "policy_max_chain_depth 2 (policy_new ''depth-2'')"
  obtain e where e: "checked_add (tw_clock W 0) 3600 = Some e" by (rule hour_fits [OF assms])
  obtain c where c: "hand_out (tw_ext W) (tw_key W) (\<lambda>k. tw_pk W (Suc k)) (\<lambda>k. builder_nonce (tw_nonce W (Suc (2 * k)))) (\<lambda>k. tw_nonce W (2 * k))
      ?h (tw_clock W 0) e 0 3 (chain_new (tw_pk W 0) ?h) = Some c" "length (certs c) = 3"
    using hand_out_spec [OF keeps_window_simps(2) clock_window_hour(1) [OF assms e], where n = 3 and k = 0] by fastforce
  have "set_check_chain [?p] c \<noteq> Inr ()"
    using c(2) by (simp add: set_check_chain_iff check_chain_iff policy_defs)
  then obtain v where "set_check_chain [?p] c = Inl v" by (cases "set_check_chain [?p] c") auto
  note d = authorize_opt_policy [OF this, of W "tw_clock W 1" 2 "tw_pk W 3" ?h proof_default mem_rev_new mem_nonce_new]
  obtain ev where "authorize_opt W (tw_clock W 1) 2 (tw_pk W 3) ?h proof_default mem_rev_new (Some [?p]) c mem_nonce_new = ((Inl v, mem_nonce_new), ev)"
    using d by (metis prod.collapse)
  then show ?thesis
    using c(1) by (simp add: authorize_with_options_policy_blocks_over_depth_def intent_named_Some tree_build_one e Let_def policy_set_add_def
        del: One_nat_def)
qed

definition authorize_with_options_policy_passes_valid_chain :: "test_world \<Rightarrow> unit option" where
  "authorize_with_options_policy_passes_valid_chain W = do {
     chain \<leftarrow> base_chain W 3600;
     trade \<leftarrow> intent_named (tw_ext W) ''trade.equity'';
     let policy = policy_set_add (policy_capabilities (capset_allow ''trade.'' capset_new)
       (policy_max_ttl_secs 86400 (policy_max_chain_depth 5 (policy_new ''generous'')))) [];
     let (res, event) = authorize_opt W (tw_clock W 1) 2 (tw_pk W 1) trade proof_default mem_rev_new (Some policy) chain mem_nonce_new;
     require (is_ok (fst res))
   }"

lemma authorize_with_options_policy_passes_valid_chain_passes:
  assumes "world_ok W"
  shows "authorize_with_options_policy_passes_valid_chain W = Some ()"
proof -
  let ?h = "named_hash (tw_ext W) ''trade.equity''"
  obtain e where e: "checked_add (tw_clock W 0) 3600 = Some e"
    and b: "base_chain W 3600 = Some (one_hop (tw_ext W) (tw_key W 0) (tw_pk W 1) ?h (tw_nonce W 1) (tw_clock W 0) e 16)"
    by (rule base_chain_Some [OF assms])
  let ?c = "one_hop (tw_ext W) (tw_key W 0) (tw_pk W 1) ?h (tw_nonce W 1) (tw_clock W 0) e 16"
  let ?p = "policy_capabilities (capset_allow ''trade.'' capset_new)
       (policy_max_ttl_secs 86400 (policy_max_chain_depth 5 (policy_new ''generous'')))"
  have "unat e = unat (tw_clock W 0) + 3600" using checked_add_unat [OF e] by simp
  then have "set_check_chain [?p] ?c = Inr ()"
    by (simp add: set_check_chain_iff check_chain_iff policy_defs cert_conforms_def)
  note d = authorize_opt_pass [OF this, of W "tw_clock W 1" 2 "tw_pk W 1" ?h proof_default mem_rev_new mem_nonce_new]
  obtain res ev where A: "authorize_opt W (tw_clock W 1) 2 (tw_pk W 1) ?h proof_default mem_rev_new (Some [?p]) ?c mem_nonce_new = (res, ev)"
    by (meson surj_pair)
  have "is_ok (fst res)"
    using one_hop_now_ok [OF assms e new_stores(1,2), of 1 2 "tw_pk W 1" ?h 0 "tw_pk W 1" ?h "tw_nonce W 1" 16] d
    unfolding A by simp
  then show ?thesis
    by (simp add: authorize_with_options_policy_passes_valid_chain_def b intent_named_Some A Let_def policy_set_add_def del: One_nat_def)
qed

section \<open>Batches, races and random inputs\<close>

definition authorize_batch_all_or_nothing_on_bad_intent :: "test_world \<Rightarrow> unit option" where
  "authorize_batch_all_or_nothing_on_bad_intent W = do {
     let E = tw_ext W;
     trade \<leftarrow> intent_named E ''trade.equity'';
     bad \<leftarrow> intent_named E ''DRAIN_ACCOUNT'';
     tree \<leftarrow> unwrap (tree_build E [trade]);
     expiry \<leftarrow> checked_add (tw_clock W 0) 3600;
     cert \<leftarrow> builder_sign E (tw_key W 0)
       (builder_nonce (tw_nonce W 1) (builder_new (tw_nonce W 0) (tw_pk W 1) (tree_root tree) (tw_clock W 0) expiry));
     let chain = chain_push cert (chain_new (tw_pk W 0) (tree_root tree));
     t_proof \<leftarrow> unwrap (tree_prove tree trade);
     let (res, nonces) = authorize_batch E (tw_pk W 1) [(trade, t_proof), (bad, proof_default)] (tw_clock W 1) (tw_clock W 2)
       (mem_is_revoked mem_rev_new) (mem_try_consume_batch (tw_clock W 3)) chain mem_nonce_new;
     _ \<leftarrow> require (\<not> all_authorized res);
     consumed \<leftarrow> unwrap (mem_is_consumed (tw_clock W 4) nonces (nonce cert));
     require (\<not> consumed)
   }"

lemma authorize_batch_all_or_nothing_on_bad_intent_passes:
  assumes "world_ok W" "named_hash (tw_ext W) ''DRAIN_ACCOUNT'' \<noteq> named_hash (tw_ext W) ''trade.equity''"
  shows "authorize_batch_all_or_nothing_on_bad_intent W = Some ()"
proof -
  let ?E = "tw_ext W" and ?h = "named_hash (tw_ext W) ''trade.equity''" and ?b = "named_hash (tw_ext W) ''DRAIN_ACCOUNT''"
  have bc: "batch_complete ?E" "batch_sound ?E" using assms(1) by (simp_all add: world_ok_def)
  obtain e where e: "checked_add (tw_clock W 0) 3600 = Some e" by (rule hour_fits [OF assms(1)])
  let ?c = "one_hop ?E (tw_key W 0) (tw_pk W 1) ?h (tw_nonce W 1) (tw_clock W 0) e 16"
  obtain t_proof where t: "tree_prove \<lparr>leaves = [?h], layers = [[?h]]\<rparr> ?h = Inr t_proof"
    by (simp add: tree_prove_def)
  let ?xs = "[(?h, t_proof), (?b, proof_default)]"
  have "\<not> (\<forall>x\<in>set ?xs. intent_authorized ?E (snd x) (fst x) (leaf_scope (principal_scope ?c) (certs ?c)))"
    using assms(2) by (simp add: leaf_scope_def)
  then obtain res where r: "authorize_batch ?E (tw_pk W 1) ?xs (tw_clock W 1) (tw_clock W 2) (mem_is_revoked mem_rev_new)
      (mem_try_consume_batch (tw_clock W 3)) ?c mem_nonce_new = (res, mem_nonce_new)" "\<not> all_authorized res"
    using mem_auth.batch_failed [OF new_stores(1) nonce_inv_new bc, of ?xs] by blast
  have "mem_is_consumed (tw_clock W 4) mem_nonce_new n = Inr False" for n
    by (simp add: mem_is_consumed_spec [OF nonce_inv_new])
  then show ?thesis
    using r t clock_window_hour(1) [OF assms(1) e]
    by (simp add: authorize_batch_all_or_nothing_on_bad_intent_def intent_named_Some tree_build_one e builder_sign_issue Let_def
        flip: one_hop_def del: One_nat_def)
qed

text \<open>The threads take the lock of the store one after the other, in whatever order; each does the same.\<close>

fun race :: "(nat \<Rightarrow> u64) \<Rightarrow> bytes \<Rightarrow> nat \<Rightarrow> memory_nonce_store \<Rightarrow> nat option" where
  "race clock nn 0 store = Some 0"
| "race clock nn (Suc n) store = do {
     let (res, store') = mem_try_consume (clock n) store nn;
     won \<leftarrow> unwrap res;
     wins \<leftarrow> race clock nn n store';
     Some ((if won then 1 else 0) + wins)
   }"

lemma race_wins:
  "nonce_inv_forever s \<Longrightarrow> race clock nn n s = Some (if nn \<in> live 0 s \<or> n = 0 then 0 else 1)"
proof (induction n arbitrary: s)
  case (Suc n)
  obtain s' where "mem_try_consume (clock n) s nn = (Inr (nn \<notin> live 0 s), s')" "nonce_inv_forever s'" "live 0 s' = insert nn (live 0 s)"
    using try_consume_forever [OF Suc.prems] by blast
  then show ?case using Suc.IH [of s'] by simp
qed simp

definition nonce_try_consume_concurrent_exactly_one_winner :: "test_world \<Rightarrow> unit option" where
  "nonce_try_consume_concurrent_exactly_one_winner W = do {
     wins \<leftarrow> race (tw_clock W) (tw_nonce W 0) 32 mem_nonce_new;
     require (wins = 1)
   }"

lemma nonce_try_consume_concurrent_exactly_one_winner_passes: "nonce_try_consume_concurrent_exactly_one_winner W = Some ()"
  by (simp add: nonce_try_consume_concurrent_exactly_one_winner_def race_wins)

definition revocation_batch_marks_all_fingerprints :: "unit option" where
  "revocation_batch_marks_all_fingerprints = do {
     let fps = map (\<lambda>i. of_nat i # replicate 31 0) [0..<8];
     let (res, store) = mem_revoke_batch mem_rev_new fps;
     _ \<leftarrow> unwrap res;
     require (list_all (\<lambda>fp. mem_is_revoked store fp = Inr True) fps)
   }"

lemma revocation_batch_marks_all_fingerprints_passes: "revocation_batch_marks_all_fingerprints = Some ()"
proof -
  let ?fps = "map (\<lambda>i. of_nat i # replicate 31 0) [0..<8] :: bytes list"
  obtain s where s: "mem_revoke_batch mem_rev_new ?fps = (Inr (), s)" "mem_rev_inv s" "revoked_set s = set ?fps"
    using mem_revoke_batch_spec [OF new_stores(1), of ?fps] by auto
  then have "list_all (\<lambda>fp. mem_is_revoked s fp = Inr True) ?fps"
    using mem_rev.is_rev_spec [OF s(2)] by (simp only: list_all_iff s(3)) simp
  with s(1) show ?thesis unfolding revocation_batch_marks_all_fingerprints_def Let_def by (simp only: prod.case bind.bind_lunit unwrap_simps require_simps)
qed

definition fuzz_intent_creation :: "string \<Rightarrow> unit option" where
  "fuzz_intent_creation a =
     (if a = [] \<or> length a > 256 then require (\<not> is_ok (intent_new a)) else require (is_ok (intent_new a)))"

lemma fuzz_intent_creation_passes: "fuzz_intent_creation a = Some ()"
  by (simp add: fuzz_intent_creation_def intent_new_def MAX_ACTION_LEN_def)

definition fuzz_chain_depth_enforcement :: "test_world \<Rightarrow> nat \<Rightarrow> u8 \<Rightarrow> unit option" where
  "fuzz_chain_depth_enforcement W d m = do {
     let E = tw_ext W;
     trade \<leftarrow> intent_named E ''trade.fuzz'';
     tree \<leftarrow> unwrap (tree_build E [trade]);
     let scope = tree_root tree;
     expiry \<leftarrow> checked_add (tw_clock W 0) 3600;
     chain \<leftarrow> hand_out E (tw_key W) (\<lambda>k. tw_pk W (Suc k)) (\<lambda>k b. builder_max_depth m (builder_nonce (tw_nonce W (Suc (2 * k))) b))
       (\<lambda>k. tw_nonce W (2 * k)) scope (tw_clock W 0) expiry 0 d (chain_new (tw_pk W 0) scope);
     let res = check_chain (policy_max_chain_depth m (policy_new ''fuzz-depth'')) chain;
     (if d > unat m then require (\<not> is_ok res) else require (is_ok res))
   }"

lemma fuzz_chain_depth_enforcement_passes:
  assumes "world_ok W" "0 < d"
  shows "fuzz_chain_depth_enforcement W d m = Some ()"
proof -
  let ?h = "named_hash (tw_ext W) ''trade.fuzz''"
  obtain e where e: "checked_add (tw_clock W 0) 3600 = Some e" by (rule hour_fits [OF assms(1)])
  obtain c where c: "hand_out (tw_ext W) (tw_key W) (\<lambda>k. tw_pk W (Suc k)) (\<lambda>k b. builder_max_depth m (builder_nonce (tw_nonce W (Suc (2 * k))) b))
      (\<lambda>k. tw_nonce W (2 * k)) ?h (tw_clock W 0) e 0 d (chain_new (tw_pk W 0) ?h) = Some c" "length (certs c) = d"
      "\<forall>x\<in>set (certs c). issued_at x = tw_clock W 0 \<and> expiration_unix x = e"
    using hand_out_spec [OF keeps_window_simps(3) clock_window_hour(1) [OF assms(1) e], where n = d and k = 0] by fastforce
  have "certs c \<noteq> []" using c(2) assms(2) by auto
  then show ?thesis
    using c(1,2) check_chain_limits [OF refl refl _ _ c(3)]
    by (simp add: fuzz_chain_depth_enforcement_def intent_named_Some tree_build_one e Let_def policy_defs)
qed

definition fuzz_batch_conflicts :: "test_world \<Rightarrow> string list \<Rightarrow> string list \<Rightarrow> unit option" where
  "fuzz_batch_conflicts W valid_intents bad_intents = do {
     let E = tw_ext W;
     valid_hashes \<leftarrow> those (map (intent_named E) valid_intents);
     tree \<leftarrow> unwrap (tree_build E valid_hashes);
     expiry \<leftarrow> checked_add (tw_clock W 0) 3600;
     cert \<leftarrow> builder_sign E (tw_key W 0)
       (builder_nonce (replicate 16 0xFF) (builder_new (tw_nonce W 0) (tw_pk W 1) (tree_root tree) (tw_clock W 0) expiry));
     let chain = chain_push cert (chain_new (tw_pk W 0) (tree_root tree));
     good \<leftarrow> those (map (\<lambda>h. map_option (\<lambda>p. (h, p)) (unwrap (tree_prove tree h))) valid_hashes);
     bad \<leftarrow> those (map (\<lambda>a. map_option (\<lambda>h. (h, proof_default)) (intent_named E a)) bad_intents);
     require (\<not> all_authorized (fst (authorize_batch E (tw_pk W 1) (good @ bad) (tw_clock W 1) (tw_clock W 2)
       (mem_is_revoked mem_rev_new) (mem_try_consume_batch (tw_clock W 3)) chain mem_nonce_new)))
   }"

lemma those_map_Some: "(\<And>x. x \<in> set xs \<Longrightarrow> f x = Some (g x)) \<Longrightarrow> those (map f xs) = Some (map g xs)"
  by (induction xs) auto

lemma fuzz_batch_conflicts_passes:
  assumes "world_ok W" "\<forall>a\<in>set (vs @ bs). a \<noteq> [] \<and> length a \<le> 256" "vs \<noteq> []" "bs \<noteq> []"
    and root: "\<And>t. tree_build (tw_ext W) (map (named_hash (tw_ext W)) vs) = Inr t \<Longrightarrow> named_hash (tw_ext W) (hd bs) \<noteq> tree_root t"
  shows "fuzz_batch_conflicts W vs bs = Some ()"
proof -
  let ?E = "tw_ext W" and ?hs = "map (named_hash (tw_ext W)) vs"
  have bc: "batch_complete ?E" "batch_sound ?E" using assms(1) by (simp_all add: world_ok_def)
  obtain e where e: "checked_add (tw_clock W 0) 3600 = Some e" by (rule hour_fits [OF assms(1)])
  obtain t where t: "tree_build ?E ?hs = Inr t" using tree_build_nonempty [of ?hs ?E] assms(3) by auto
  let ?c = "one_hop ?E (tw_key W 0) (tw_pk W 1) (tree_root t) (replicate 16 0xFF) (tw_clock W 0) e 16"
  have "\<exists>p. tree_prove t h = Inr p" if "h \<in> set ?hs" for h using tree_prove_complete [OF t that] by blast
  then obtain pf where pf: "\<And>h. h \<in> set ?hs \<Longrightarrow> tree_prove t h = Inr (pf h)" by metis
  let ?good = "map (\<lambda>h. (h, pf h)) ?hs" and ?bad = "map (\<lambda>a. (named_hash ?E a, proof_default)) bs"
  have h: "those (map (intent_named ?E) vs) = Some ?hs" using assms(2) by (intro those_map_Some intent_named_Some) auto
  have g: "those (map (\<lambda>h. map_option (\<lambda>p. (h, p)) (unwrap (tree_prove t h))) ?hs) = Some ?good"
    by (rule those_map_Some) (simp add: pf)
  have b: "those (map (\<lambda>a. map_option (\<lambda>h. (h, proof_default)) (intent_named ?E a)) bs) = Some ?bad"
    by (rule those_map_Some) (use assms(2) in \<open>simp add: intent_named_Some\<close>)
  have s: "builder_sign ?E (tw_key W 0) (builder_nonce (replicate 16 0xFF) (builder_new (tw_nonce W 0) (tw_pk W 1) (tree_root t) (tw_clock W 0) e))
      = Some (cert_issue ?E (tw_key W 0) (tw_pk W 1) (tree_root t) full_passthrough (replicate 16 0xFF) (tw_clock W 0) e 16 extensions_new)"
    using clock_window_hour(1) [OF assms(1) e] by (simp add: builder_sign_issue)
  have "(named_hash ?E (hd bs), proof_default) \<in> set (?good @ ?bad)" using assms(4) by auto
  moreover have "\<not> intent_authorized ?E proof_default (named_hash ?E (hd bs)) (leaf_scope (principal_scope ?c) (certs ?c))"
    using root [OF t] by (simp add: leaf_scope_def)
  ultimately have "\<not> (\<forall>x\<in>set (?good @ ?bad). intent_authorized ?E (snd x) (fst x) (leaf_scope (principal_scope ?c) (certs ?c)))"
    by (intro notI) (drule (1) bspec, simp only: fst_conv snd_conv)
  then obtain res where "authorize_batch ?E (tw_pk W 1) (?good @ ?bad) (tw_clock W 1) (tw_clock W 2) (mem_is_revoked mem_rev_new)
      (mem_try_consume_batch (tw_clock W 3)) ?c mem_nonce_new = (res, mem_nonce_new)" "\<not> all_authorized res"
    using mem_auth.batch_failed [OF new_stores(1) nonce_inv_new bc, of "?good @ ?bad"] assms(4) by blast
  then show ?thesis
    by (simp only: fuzz_batch_conflicts_def Let_def h t e g b s one_hop_def [symmetric] bind.bind_lunit unwrap_simps
        fst_conv not_False_eq_True require_simps)
qed

end
