(* ===== verification/A1_TradingAgent.thy ===== *)
theory A1_TradingAgent
  imports A1_Scenarios A1_Vault
begin

text \<open>
  The example \<open>examples/trading_agent.rs\<close> as a program that returns what it prints: \<open>None\<close> where it panics.
  Its four scenarios are an authorized trade, an escalation, a replay and a revocation, over one chain of
  two certificates and a second one like it. Lines are byte strings in UTF-8; an argument of
  \<open>println!\<close> is one of them, with its leading newline where it has one.
\<close>

section \<open>How a call over the stores in memory ends\<close>

text \<open>A chain that some intent passes has nothing wrong but the intent.\<close>

lemma validate_intent_only:
  assumes "batch_complete E" "batch_sound E" "chain_valid E a i' p' now drift c"
  shows "validate_structure E a i p now drift c =
    (if intent_authorized E p i (leaf_scope (principal_scope c) (certs c)) then Inr (result_of E now c) else Inl ScopeViolation)"
proof (cases "intent_authorized E p i (leaf_scope (principal_scope c) (certs c))")
  case True
  with assms(3) have "chain_valid E a i p now drift c" by (simp add: chain_valid_def)
  with True show ?thesis using validate_structure_iff [OF assms(1,2)] by simp
next
  case False
  then have "\<not> chain_valid E a i p now drift c" by (simp add: chain_valid_def)
  then have "validate_structure E a i p now drift c \<noteq> Inr v" for v using validate_structure_iff [OF assms(1,2)] by blast
  then obtain e where e: "validate_structure E a i p now drift c = Inl e" by (cases "validate_structure E a i p now drift c") auto
  have "validate_structure E a i' p' now drift c = Inr (result_of E now c)"
    using validate_structure_iff [OF assms(1,2)] assms(3) by blast
  with e False show ?thesis
    by (auto simp: validate_structure_def walk_result result_simps split: if_splits)
qed

lemma authorize_mem_outcome:
  assumes W: "world_ok W" and st: "mem_rev_inv rs" "nonce_inv_forever ns"
    and v: "chain_valid (tw_ext W) a i' p' now (drift_tolerance_secs c) c"
  shows "authorize_mem W now k a i p rs c ns =
    (if \<not> intent_authorized (tw_ext W) p i (leaf_scope (principal_scope c) (certs c)) then (Inl ScopeViolation, ns)
     else if chain_fps (tw_ext W) c \<inter> revoked_set rs \<noteq> {} then (Inl Revoked, ns)
     else if chain_nonces c \<inter> live 0 ns \<noteq> {} then (Inl NonceReplay, ns)
     else (Inr (receipt_for (tw_ext W) now i c), snd (authorize_mem W now k a i p rs c ns)))"
proof -
  have bc: "batch_complete (tw_ext W)" "batch_sound (tw_ext W)" using W by (simp_all add: world_ok_def)
  note vs = validate_intent_only [OF bc v, of i p]
  have l: "live (tw_clock W k) ns = live 0 ns" using st(2) by (rule mem_forever.used_time)
  have A: "authorize_mem W now k a i p rs c ns =
      authorize_inner (tw_ext W) a i p now (mem_is_revoked rs) (mem_try_consume_batch (tw_clock W k)) None c ns"
    by (simp add: authorize_mem_def authorize_def authorize_with_options_def Let_def)
  have pol: "policy_ok None c" by (simp add: policy_ok_def)
  show ?thesis
  proof (cases "intent_authorized (tw_ext W) p i (leaf_scope (principal_scope c) (certs c))")
    case False
    with vs show ?thesis by (simp add: A sys_auth.authorize_denied_structure [OF pol])
  next
    case ia: True
    note vr = vs [unfolded if_P [OF ia]]
    show ?thesis
    proof (cases "chain_fps (tw_ext W) c \<inter> revoked_set rs = {}")
      case False
      with ia show ?thesis by (simp add: A sys_auth.authorize_denied_revoked [OF st(1) pol vr])
    next
      case nr: True
      show ?thesis
      proof (cases "chain_nonces c \<inter> live 0 ns = {}")
        case False
        with ia nr show ?thesis by (simp add: A sys_auth.authorize_denied_replay [OF st pol vr] l)
      next
        case True
        have "chain_valid (tw_ext W) a i p now (drift_tolerance_secs c) c" using v ia by (simp add: chain_valid_def)
        from sys_auth.authorize_ok [OF st bc pol this nr, of "tw_clock W k"] True ia nr
        show ?thesis by (auto simp: A l)
      qed
    qed
  qed
qed

section \<open>The program\<close>

definition trade_intent :: "intent option" where
  "trade_intent = do {
     i \<leftarrow> unwrap (intent_new ''trade.equity'');
     i \<leftarrow> intent_param i ''symbol'' ''AAPL'';
     i \<leftarrow> intent_param i ''side'' ''buy'';
     i \<leftarrow> intent_param i ''limit_usd'' ''182.50'';
     intent_param i ''qty'' ''100''
   }"

definition scenario_title :: "string \<Rightarrow> string" where
  "scenario_title t =
     (let dashes = [CHR 0xE2, CHR 0x94, CHR 0x80, CHR 0xE2, CHR 0x94, CHR 0x80]
      in CHR 0x0A # dashes @ '' '' @ t @ '' '' @ dashes)"

definition print_authorized :: "ext \<Rightarrow> a1_error + verification_receipt \<Rightarrow> string list" where
  "print_authorized E res =
     (case res of
        Inr r \<Rightarrow> [''[AUTHORIZED]'', ''  chain_depth       : '' @ dec (chain_depth r),
          ''  verified_scope    : '' @ hex_enc E (verified_scope_root r), ''  intent            : '' @ hex_enc E (receipt_intent r),
          ''  chain_fingerprint : '' @ hex_enc E (chain_fingerprint r)]
      | Inl e \<Rightarrow> [''[REJECTED] '' @ display_error e])"

definition print_attack :: "string \<Rightarrow> a1_error + verification_receipt \<Rightarrow> string list" where
  "print_attack failure res =
     (case res of
        Inr _ \<Rightarrow> [''[UNEXPECTED PASS] '' @ failure]
      | Inl e \<Rightarrow> [''[CORRECTLY REJECTED] '' @ display_error e])"

text \<open>\<open>ids\<close> are the three generated identities; their signers are the first keys of the world.\<close>

definition trading_agent :: "dalek \<Rightarrow> (nat \<Rightarrow> dyolo_identity) \<Rightarrow> test_world \<Rightarrow> string list option" where
  "trading_agent D ids W = do {
     let E = tw_ext W;
     trade \<leftarrow> map_option (intent_hash_of E) trade_intent;
     query \<leftarrow> intent_named E ''query.portfolio'';
     drain \<leftarrow> intent_named E ''admin.drain-account'';
     principal_tree \<leftarrow> unwrap (tree_build E [trade, query, drain]);
     let principal_scope = tree_root principal_tree;
     expiry \<leftarrow> checked_add (tw_clock W 0) 3600;
     cert_orch \<leftarrow> builder_sign E (tw_key W 0) (builder_new (tw_nonce W 0) (tw_pk W 1) principal_scope (tw_clock W 0) expiry);
     sub_proof \<leftarrow> unwrap (sub_scope_build principal_tree [trade, query]);
     sub_tree \<leftarrow> unwrap (tree_build E [trade, query]);
     let sub_scope = tree_root sub_tree;
     cert_exec \<leftarrow> builder_sign E (tw_key W 1) (builder_max_depth 0 (builder_scope_proof sub_proof
       (builder_new (tw_nonce W 1) (tw_pk W 2) sub_scope (tw_clock W 0) expiry)));
     let chain = chain_push cert_exec (chain_push cert_orch (chain_new (tw_pk W 0) principal_scope));
     trade_proof \<leftarrow> unwrap (tree_prove sub_tree trade);
     let (first, nonces) = authorize_mem W (tw_clock W 1) 2 (tw_pk W 2) trade trade_proof mem_rev_new chain mem_nonce_new;
     drain_proof \<leftarrow> unwrap (tree_prove principal_tree drain);
     let (second, nonces) = authorize_mem W (tw_clock W 4) 5 (tw_pk W 2) drain drain_proof mem_rev_new chain nonces;
     let (third, nonces) = authorize_mem W (tw_clock W 7) 8 (tw_pk W 2) trade trade_proof mem_rev_new chain nonces;
     cert_orch2 \<leftarrow> builder_sign E (tw_key W 0) (builder_new (tw_nonce W 2) (tw_pk W 1) principal_scope (tw_clock W 0) expiry);
     sub_proof2 \<leftarrow> unwrap (sub_scope_build principal_tree [trade, query]);
     cert_exec2 \<leftarrow> builder_sign E (tw_key W 1) (builder_max_depth 0 (builder_scope_proof sub_proof2
       (builder_new (tw_nonce W 3) (tw_pk W 2) sub_scope (tw_clock W 0) expiry)));
     let fp = cert_fingerprint E cert_orch2;
     let (revoked, revocation4) = mem_revoke mem_rev_new fp;
     _ \<leftarrow> unwrap revoked;
     let chain4 = chain_push cert_exec2 (chain_push cert_orch2 (chain_new (tw_pk W 0) principal_scope));
     let (fourth, nonces4) = authorize_mem W (tw_clock W 10) 11 (tw_pk W 2) trade proof_default revocation4 chain4 mem_nonce_new;
     Some ([''A1 v1 '' @ [CHR 0xE2, CHR 0x80, CHR 0x94] @ '' Know Your Agent Protocol'' @ [CHR 0x0A],
       ''Principal   : '' @ identity_debug D (ids 0), ''Orchestrator: '' @ identity_debug D (ids 1),
       ''Executor    : '' @ identity_debug D (ids 2) @ [CHR 0x0A],
       ''Principal scope root: '' @ hex_enc E principal_scope,
       CHR 0x0A # ''Principal delegated full scope to Orchestrator.'',
       ''  cert fingerprint: '' @ hex_enc E (cert_fingerprint E cert_orch),
       CHR 0x0A # ''Orchestrator narrowed scope (trade + query) to Executor.'',
       ''  sub-scope root  : '' @ hex_enc E sub_scope,
       ''  cert fingerprint: '' @ hex_enc E (cert_fingerprint E cert_exec),
       CHR 0x0A # ''Chain fingerprint: '' @ hex_enc E (fingerprint E chain),
       scenario_title ''Scenario 1: Authorized trade''] @ print_authorized E first
       @ [scenario_title ''Scenario 2: Escalation attempt (drain)''] @ print_attack ''Scope enforcement failed'' second
       @ [scenario_title ''Scenario 3: Replay attack''] @ print_attack ''Replay prevention failed'' third
       @ [scenario_title ''Scenario 4: Revocation'', ''Revoked cert: '' @ hex_enc E fp]
       @ print_attack ''Revocation failed'' fourth
       @ [CHR 0x0A # ''Protocol demonstration complete.''])
   }"

section \<open>Chains of two certificates\<close>

text \<open>The first passes the scope on, the second passes it on too or narrows it by a proof.\<close>

definition two_hops ::
  "ext \<Rightarrow> signer \<Rightarrow> signer \<Rightarrow> bytes \<Rightarrow> bytes \<Rightarrow> bytes \<Rightarrow> sub_scope_proof \<Rightarrow> bytes \<Rightarrow> bytes \<Rightarrow> u64 \<Rightarrow> u64 \<Rightarrow> u8
     \<Rightarrow> dyolo_chain" where
  "two_hops E s1 s2 dt sr1 sr2 pf n1 n2 iat e md =
     chain_push (cert_issue E s2 dt sr2 pf n2 iat e md extensions_new)
       (chain_push (cert_issue E s1 (verifying_key s2) sr1 full_passthrough n1 iat e 16 extensions_new)
         (chain_new (verifying_key s1) sr1))"

lemma two_hops_sels [simp]:
  "certs (two_hops E s1 s2 dt sr1 sr2 pf n1 n2 iat e md) =
     [cert_issue E s1 (verifying_key s2) sr1 full_passthrough n1 iat e 16 extensions_new,
      cert_issue E s2 dt sr2 pf n2 iat e md extensions_new]"
  "principal_pk (two_hops E s1 s2 dt sr1 sr2 pf n1 n2 iat e md) = verifying_key s1"
  "principal_scope (two_hops E s1 s2 dt sr1 sr2 pf n1 n2 iat e md) = sr1"
  "drift_tolerance_secs (two_hops E s1 s2 dt sr1 sr2 pf n1 n2 iat e md) = 15"
  "chain_nonces (two_hops E s1 s2 dt sr1 sr2 pf n1 n2 iat e md) = {n1, n2}"
  "leaf_scope sr1 [x, cert_issue E s2 dt sr2 pf n2 iat e md extensions_new] = sr2"
  by (simp_all add: two_hops_def chain_push_def chain_new_def chain_nonces_def leaf_scope_def insert_commute)

lemma two_hops_valid:
  assumes "signer_ok E s1" "signer_ok E s2"
    and "pf = full_passthrough \<and> sr2 = sr1 \<or> subset_intents pf \<noteq> [] \<and> verify_and_derive_root E pf sr1 = Inr sr2"
    and "n1 \<noteq> n2" "iat \<le> sat_add now 15" "sat_sub now 15 \<le> e" "intent_authorized E p i sr2"
  shows "chain_valid E dt i p now 15 (two_hops E s1 s2 dt sr1 sr2 pf n1 n2 iat e md)"
proof -
  have "depths_ok [x, y]" if "2 \<le> unat (max_depth x)" for x y
    using that by (auto simp: depths_ok_def less_Suc_eq)
  then show ?thesis
    using assms cert_issue_verifies [OF assms(1)] cert_issue_verifies [OF assms(2)]
    by (auto simp: chain_valid_def leaf_pk_def in_window_def is_passthrough_def full_passthrough_def)
qed

section \<open>What the example prints\<close>

text \<open>The roots the example computes differ from each other and from the trade, as hashes do.\<close>

definition example_apart :: "ext \<Rightarrow> bytes \<Rightarrow> bytes \<Rightarrow> bytes \<Rightarrow> bool" where
  "example_apart E trade query drain \<longleftrightarrow>
     (\<forall>t u. tree_build E [trade, query, drain] = Inr t \<and> tree_build E [trade, query] = Inr u \<longrightarrow>
        tree_root t \<noteq> tree_root u \<and> trade \<noteq> tree_root u)"

lemma trade_intent_Some:
  "trade_intent = Some \<lparr>action = ''trade.equity'',
     params = [(''limit_usd'', ''182.50''), (''qty'', ''100''), (''side'', ''buy''), (''symbol'', ''aapl'')]\<rparr>"
  by code_simp

text \<open>What two chains of the example give: the trade, the escalation and the replay over the first, and any call over the second.\<close>

lemma two_hops_calls:
  assumes W: "world_ok W" and e: "checked_add (tw_clock W 0) 3600 = Some e"
    and pf: "subset_intents pf \<noteq> []" "verify_and_derive_root (tw_ext W) pf sr1 = Inr sr2"
    and n: "n1 \<noteq> n2" and ok: "intent_authorized (tw_ext W) q i sr2"
    and st: "mem_rev_inv rs" "nonce_inv_forever ns"
    and c_def: "c = two_hops (tw_ext W) (tw_key W 0) (tw_key W 1) dt sr1 sr2 pf n1 n2 (tw_clock W 0) e md"
  shows "authorize_mem W (tw_clock W j) k dt i' p rs c ns =
    (if \<not> intent_authorized (tw_ext W) p i' sr2 then (Inl ScopeViolation, ns)
     else if chain_fps (tw_ext W) c \<inter> revoked_set rs \<noteq> {} then (Inl Revoked, ns)
     else if {n1, n2} \<inter> live 0 ns \<noteq> {} then (Inl NonceReplay, ns)
     else (Inr (receipt_for (tw_ext W) (tw_clock W j) i' c), snd (authorize_mem W (tw_clock W j) k dt i' p rs c ns)))"
proof -
  have "chain_valid (tw_ext W) dt i q (tw_clock W j) (drift_tolerance_secs c) c"
    unfolding c_def two_hops_sels
    by (rule two_hops_valid) (use assms clock_window_hour [OF W e] in \<open>simp_all\<close>)
  from authorize_mem_outcome [OF W st this, of k i' p] show ?thesis
    unfolding c_def two_hops_sels .
qed

text \<open>
  The run: the trade is authorized, the escalation is a scope violation, the replay is seen. The last
  rejection is a scope violation too: the call shows the empty proof for a scope of two intents, so it
  never comes to the revocation the scenario is named for.
\<close>

lemma trading_agent_output:
  assumes W: "world_ok W"
    and trade: "h1 = intent_hash_of (tw_ext W) (the trade_intent)"
    and apart: "example_apart (tw_ext W) h1 (named_hash (tw_ext W) ''query.portfolio'') (named_hash (tw_ext W) ''admin.drain-account'')"
  shows "\<exists>pre fp r. trading_agent D ids W = Some (pre
      @ [scenario_title ''Scenario 1: Authorized trade''] @ print_authorized (tw_ext W) (Inr r)
      @ [scenario_title ''Scenario 2: Escalation attempt (drain)'', ''[CORRECTLY REJECTED] '' @ display_error ScopeViolation,
         scenario_title ''Scenario 3: Replay attack'', ''[CORRECTLY REJECTED] '' @ display_error NonceReplay,
         scenario_title ''Scenario 4: Revocation'', ''Revoked cert: '' @ fp, ''[CORRECTLY REJECTED] '' @ display_error ScopeViolation,
         CHR 0x0A # ''Protocol demonstration complete.''])
    \<and> chain_depth r = 2 \<and> receipt_intent r = h1"
proof -
  let ?E = "tw_ext W" and ?q = "named_hash (tw_ext W) ''query.portfolio''" and ?d = "named_hash (tw_ext W) ''admin.drain-account''"
  obtain e where e: "checked_add (tw_clock W 0) 3600 = Some e" by (rule hour_fits [OF W])
  obtain t where t: "tree_build ?E [h1, ?q, ?d] = Inr t" using tree_build_nonempty [of "[h1, ?q, ?d]" ?E] by auto
  obtain s u where s: "sub_scope_build t [h1, ?q] = Inr s" and u: "tree_build ?E [h1, ?q] = Inr u"
    and d: "verify_and_derive_root ?E s (tree_root t) = Inr (tree_root u)"
    using sub_scope_roundtrip [OF t, of "[h1, ?q]"] by auto
  have ne: "subset_intents s \<noteq> []" using s by (simp add: sub_scope_build_Inr)
  have ap: "tree_root t \<noteq> tree_root u" "h1 \<noteq> tree_root u" using apart t u by (simp_all add: example_apart_def)
  obtain tp where tp: "tree_prove u h1 = Inr tp" "merkle_verify ?E tp h1 (tree_root u)"
    using tree_prove_complete [OF u, of h1] by auto
  obtain dp where dp: "tree_prove t ?d = Inr dp" "merkle_verify ?E dp ?d (tree_root t)"
    using tree_prove_complete [OF t, of ?d] by auto
  have ia: "intent_authorized ?E tp h1 (tree_root u)" "\<not> intent_authorized ?E dp ?d (tree_root u)"
    "\<not> intent_authorized ?E proof_default h1 (tree_root u)"
    using tp(2) dp(2) ap by (auto simp: intent_authorized_merkle merkle_verify_def proof_default_def)
  let ?c = "\<lambda>m n. two_hops ?E (tw_key W 0) (tw_key W 1) (tw_pk W 2) (tree_root t) (tree_root u) s (tw_nonce W m) (tw_nonce W n) (tw_clock W 0) e 0"
  have n: "tw_nonce W 0 \<noteq> tw_nonce W 1" "tw_nonce W 2 \<noteq> tw_nonce W 3" using world_distinct(2) [OF W] by simp_all
  note call1 = two_hops_calls [OF W e ne d n(1) ia(1) _ _ refl, where dt = "tw_pk W 2" and md = 0]
  note call2 = two_hops_calls [OF W e ne d n(2) ia(1) _ _ refl, where dt = "tw_pk W 2" and md = 0]
  let ?r = "receipt_for ?E (tw_clock W 1) h1 (?c 0 1)"
  obtain ns where a1: "authorize_mem W (tw_clock W 1) 2 (tw_pk W 2) h1 tp mem_rev_new (?c 0 1) mem_nonce_new = (Inr ?r, ns)"
    using call1 [OF new_stores(1,2), of 1 2 h1 tp] ia(1) by (simp del: One_nat_def)
  have ns: "nonce_inv_forever ns" "live 0 ns = {tw_nonce W 0, tw_nonce W 1}"
    using authorize_mem_live [OF W new_stores(1,2), of "tw_clock W 1" 2 "tw_pk W 2" h1 tp "?c 0 1"] unfolding a1
    by (simp_all del: One_nat_def)
  have a2: "authorize_mem W (tw_clock W 4) 5 (tw_pk W 2) ?d dp mem_rev_new (?c 0 1) ns = (Inl ScopeViolation, ns)"
    using call1 [OF new_stores(1) ns(1), of 4 5 ?d dp] ia(2) by (simp del: One_nat_def)
  have a3: "authorize_mem W (tw_clock W 7) 8 (tw_pk W 2) h1 tp mem_rev_new (?c 0 1) ns = (Inl NonceReplay, ns)"
    using call1 [OF new_stores(1) ns(1), of 7 8 h1 tp] ia(1) ns(2) by (simp del: One_nat_def)
  let ?fp = "cert_fingerprint ?E (cert_issue ?E (tw_key W 0) (tw_pk W 1) (tree_root t) full_passthrough (tw_nonce W 2) (tw_clock W 0) e 16 extensions_new)"
  obtain rs where rs: "mem_revoke mem_rev_new ?fp = (Inr (), rs)" "mem_rev_inv rs" using mem_revoke_spec [OF new_stores(1)] by auto
  have a4: "authorize_mem W (tw_clock W 10) 11 (tw_pk W 2) h1 proof_default rs (?c 2 3) mem_nonce_new = (Inl ScopeViolation, mem_nonce_new)"
    using call2 [OF rs(2) new_stores(2), of 10 11 h1 proof_default] ia(3) by (simp del: One_nat_def)
  have h1: "map_option (intent_hash_of ?E) trade_intent = Some h1" by (simp only: trade trade_intent_Some option.sel option.map)
  have "trading_agent D ids W = Some ([''A1 v1 '' @ [CHR 0xE2, CHR 0x80, CHR 0x94] @ '' Know Your Agent Protocol'' @ [CHR 0x0A],
       ''Principal   : '' @ identity_debug D (ids 0), ''Orchestrator: '' @ identity_debug D (ids 1),
       ''Executor    : '' @ identity_debug D (ids 2) @ [CHR 0x0A],
       ''Principal scope root: '' @ hex_enc ?E (tree_root t),
       CHR 0x0A # ''Principal delegated full scope to Orchestrator.'',
       ''  cert fingerprint: '' @ hex_enc ?E (cert_fingerprint ?E (cert_issue ?E (tw_key W 0) (tw_pk W 1) (tree_root t) full_passthrough (tw_nonce W 0) (tw_clock W 0) e 16 extensions_new)),
       CHR 0x0A # ''Orchestrator narrowed scope (trade + query) to Executor.'',
       ''  sub-scope root  : '' @ hex_enc ?E (tree_root u),
       ''  cert fingerprint: '' @ hex_enc ?E (cert_fingerprint ?E (cert_issue ?E (tw_key W 1) (tw_pk W 2) (tree_root u) s (tw_nonce W 1) (tw_clock W 0) e 0 extensions_new)),
       CHR 0x0A # ''Chain fingerprint: '' @ hex_enc ?E (fingerprint ?E (?c 0 1)),
       scenario_title ''Scenario 1: Authorized trade''] @ print_authorized ?E (Inr ?r)
      @ [scenario_title ''Scenario 2: Escalation attempt (drain)''] @ print_attack ''Scope enforcement failed'' (Inl ScopeViolation)
      @ [scenario_title ''Scenario 3: Replay attack''] @ print_attack ''Replay prevention failed'' (Inl NonceReplay)
      @ [scenario_title ''Scenario 4: Revocation'', ''Revoked cert: '' @ hex_enc ?E ?fp]
      @ print_attack ''Revocation failed'' (Inl ScopeViolation)
      @ [CHR 0x0A # ''Protocol demonstration complete.''])"
    using a1 a2 a3 a4 rs(1) clock_window_hour(1) [OF W e]
    unfolding trading_agent_def
    by (simp add: h1 intent_named_Some t u s e tp(1) dp(1) builder_sign_issue Let_def two_hops_def del: One_nat_def)
  moreover have "chain_depth ?r = 2" "receipt_intent ?r = h1" by (simp_all add: receipt_for_def receipt_of_def)
  ultimately show ?thesis
    by (intro exI conjI) (simp_all add: print_attack_def del: One_nat_def)
qed

text \<open>
  The call of the fourth scenario is refused whatever is revoked, also when nothing is. With the proof of
  the trade in its place, the same call would be authorized before the revocation and rejected as revoked
  after it.
\<close>

lemma trading_agent_revocation_unobserved:
  assumes W: "world_ok W" and e: "checked_add (tw_clock W 0) 3600 = Some e" and n: "n1 \<noteq> n2"
    and t: "tree_build (tw_ext W) [h1, h2, h3] = Inr t" and s: "sub_scope_build t [h1, h2] = Inr s"
    and u: "tree_build (tw_ext W) [h1, h2] = Inr u" and p: "tree_prove u h1 = Inr p" and ap: "h1 \<noteq> tree_root u"
    and c: "c = two_hops (tw_ext W) (tw_key W 0) (tw_key W 1) dt (tree_root t) (tree_root u) s n1 n2 (tw_clock W 0) e 0"
    and rs: "mem_rev_inv rs"
  shows "fst (authorize_mem W (tw_clock W j) k dt h1 proof_default rs c mem_nonce_new) = Inl ScopeViolation"
    and "is_ok (fst (authorize_mem W (tw_clock W j) k dt h1 p mem_rev_new c mem_nonce_new))"
    and "chain_fps (tw_ext W) c \<inter> revoked_set rs \<noteq> {} \<Longrightarrow>
      fst (authorize_mem W (tw_clock W j) k dt h1 p rs c mem_nonce_new) = Inl Revoked"
proof -
  have ne: "subset_intents s \<noteq> []" using s by (simp add: sub_scope_build_Inr)
  have d: "verify_and_derive_root (tw_ext W) s (tree_root t) = Inr (tree_root u)"
    using sub_scope_roundtrip [OF t, of "[h1, h2]"] s u by auto
  have ia: "intent_authorized (tw_ext W) p h1 (tree_root u)" using tree_prove_complete [OF u, of h1] p by (auto simp: intent_authorized_merkle)
  note call = two_hops_calls [OF W e ne d n ia _ new_stores(2) c, where j = j and k = k]
  show "fst (authorize_mem W (tw_clock W j) k dt h1 proof_default rs c mem_nonce_new) = Inl ScopeViolation"
    using call [OF rs, of h1 proof_default] ap by simp
  show "is_ok (fst (authorize_mem W (tw_clock W j) k dt h1 p mem_rev_new c mem_nonce_new))"
    using call [OF new_stores(1), of h1 p] ia by (cases "authorize_mem W (tw_clock W j) k dt h1 p mem_rev_new c mem_nonce_new") simp
  show "fst (authorize_mem W (tw_clock W j) k dt h1 p rs c mem_nonce_new) = Inl Revoked"
    if "chain_fps (tw_ext W) c \<inter> revoked_set rs \<noteq> {}"
    using call [OF rs, of h1 p] ia that by simp
qed

end
