(* ===== verification/A1_PassportScenarios.thy ===== *)
theory A1_PassportScenarios
  imports A1_TradingAgent
begin

text \<open>
  The tests of passports as programs over the model: the module \<open>passport_tests\<close> of
  \<open>tests/integration.rs\<close>, \<open>tests/passport_integration.rs\<close> and the unit tests of
  \<open>src/passport/mod.rs\<close>. Where a test needs that two names hash apart, its lemma says so; the mask needs
  it for one byte and three bits of the hash only, the scope for the whole of it.
\<close>

section \<open>What the tests of passports share\<close>

text \<open>The clock does not run backwards, a test takes less than a quarter of an hour, and \<open>hex\<close> writes two digits a byte.\<close>

definition passport_world :: "test_world \<Rightarrow> bool" where
  "passport_world W \<longleftrightarrow> world_ok W \<and> hex_ok (tw_ext W) \<and> (\<forall>b. length (hex_enc (tw_ext W) b) = 2 * length b)
     \<and> (\<forall>j k. j \<le> k \<longrightarrow> tw_clock W j \<le> tw_clock W k)
     \<and> (\<forall>k. unat (tw_clock W k) < unat (tw_clock W 0) + 900)"

definition issue_or_panic :: "test_world \<Rightarrow> nat \<Rightarrow> string \<Rightarrow> string list \<Rightarrow> u64 \<Rightarrow> dyolo_passport option" where
  "issue_or_panic W n ns caps ttl =
     Option.bind (passport_issue (tw_ext W) (tw_nonce W n) ns caps ttl (tw_key W 0) (tw_clock W 0)) unwrap"

definition sub_cert :: "test_world \<Rightarrow> dyolo_passport \<Rightarrow> string list \<Rightarrow> u64 \<Rightarrow> (a1_error + delegation_cert) option" where
  "sub_cert W p caps ttl = issue_sub (tw_ext W) (tw_nonce W 1) p (tw_pk W 1) caps ttl (tw_key W 0) (tw_clock W 1)"

definition sub_chain :: "test_world \<Rightarrow> dyolo_passport \<Rightarrow> string list \<Rightarrow> u64 \<Rightarrow> dyolo_chain option" where
  "sub_chain W p caps ttl = do {
     res \<leftarrow> sub_cert W p caps ttl;
     sub \<leftarrow> unwrap res;
     chain \<leftarrow> unwrap (passport_new_chain p);
     Some (chain_push sub chain)
   }"

definition guard_now :: "test_world \<Rightarrow> dyolo_passport \<Rightarrow> dyolo_chain \<Rightarrow> string \<Rightarrow> (a1_error + provable_receipt) option" where
  "guard_now W p chain a = do {
     intent \<leftarrow> unwrap (intent_new a);
     Some (guard_local (tw_ext W) (tw_rnd W) p chain (tw_pk W 1) intent (tw_clock W 2) (tw_clock W 4) (tw_clock W 3))
   }"

lemma mask_is_empty_bits: "mask_wf m \<Longrightarrow> mask_is_empty m \<longleftrightarrow> mask_bits m = {}"
proof
  assume w: "mask_wf m" and "mask_is_empty m"
  then have "mask m = replicate 32 0" unfolding mask_is_empty_def mask_wf_def by (intro replicate_eqI) (auto simp: list_all_iff)
  then have "m = EMPTY" by (simp add: EMPTY_def)
  then show "mask_bits m = {}" by simp
next
  assume w: "mask_wf m" and "mask_bits m = {}"
  then have "m = EMPTY" by (intro mask_eqI) simp_all
  then show "mask_is_empty m" by (simp add: EMPTY_def mask_is_empty_def list_all_iff)
qed

lemma from_capabilities_not_empty: "caps \<noteq> [] \<Longrightarrow> \<not> mask_is_empty (from_capabilities E caps)"
  using from_capabilities_spec [of E caps] by (simp add: mask_is_empty_bits)

lemma passport_fits:
  assumes "passport_world W" "length ns + sum_list (map length caps) \<le> 16000"
  shows "ext_fits (tw_ext W) ns caps"
  using assms from_capabilities_spec [of "tw_ext W" caps] by (simp add: passport_world_def ext_fits_def mask_to_hex_def mask_wf_def)

lemma clock_bounds:
  assumes "passport_world W" "900 \<le> unat ttl"
  shows "tw_clock W k < sat_add (tw_clock W k) ttl" "j \<le> k \<Longrightarrow> tw_clock W j \<le> sat_add (tw_clock W k) 15"
    "j \<le> k \<Longrightarrow> sat_sub (tw_clock W k) 15 \<le> sat_add (tw_clock W j) ttl"
proof -
  have w: "unat (tw_clock W 0) < 2 ^ 62" "\<And>k. unat (tw_clock W k) < unat (tw_clock W 0) + 900" "\<And>k. unat (tw_clock W 0) \<le> unat (tw_clock W k)"
    "\<And>j k. j \<le> k \<Longrightarrow> tw_clock W j \<le> tw_clock W k"
    using assms(1) by (auto simp: passport_world_def world_ok_def word_le_nat_alt)
  show "tw_clock W k < sat_add (tw_clock W k) ttl" using w(1) w(2) [of k] assms(2) by (simp add: word_less_nat_alt unat_sat_add)
  show "tw_clock W j \<le> sat_add (tw_clock W k) 15" if "j \<le> k" using w(4) [OF that] sat_add_ge [of "tw_clock W k" 15] by (rule order_trans)
  show "sat_sub (tw_clock W k) 15 \<le> sat_add (tw_clock W j) ttl" if "j \<le> k"
    using w(1) w(2) [of k] w(2) [of 0] w(3) [of j] assms(2)
    by (auto simp: word_le_nat_alt unat_sat_add unat_sat_sub min_def)
qed

lemma issue_or_panic_Some:
  assumes W: "passport_world W" and caps: "caps \<noteq> []" "list_all cap_ok caps" "length ns + sum_list (map length caps) \<le> 16000"
    and ttl: "900 \<le> unat ttl"
  obtains p where "issue_or_panic W n ns caps ttl = Some p"
    "issue_inner (tw_ext W) (tw_nonce W n) ns caps ttl (tw_key W 0) (tw_clock W 0) = Some (Inr p)"
    "passport_wf (tw_ext W) p" "pp_capabilities p = caps" "pp_namespace p = ns" "capability_mask p = from_capabilities (tw_ext W) caps"
proof -
  obtain p where p: "issue_inner (tw_ext W) (tw_nonce W n) ns caps ttl (tw_key W 0) (tw_clock W 0) = Some (Inr p)"
    using issue_inner_succeeds [OF caps(1,2) passport_fits [OF W caps(3)] clock_bounds(1) [OF W ttl]] by blast
  note i = issue_inner_Inr [OF p]
  show ?thesis
    by (rule that [OF _ p i(1-3)]) (use i(1,2) p in \<open>simp_all add: passport_wf_def issue_or_panic_def passport_issue_def\<close>)
qed

lemma sub_cert_Some:
  assumes W: "passport_world W" and p: "passport_wf (tw_ext W) p" and caps: "caps \<noteq> []" "set caps \<subseteq> set (pp_capabilities p)"
      "length (pp_namespace p) + sum_list (map length caps) \<le> 16000" and ttl: "900 \<le> unat ttl"
  obtains s where "sub_cert W p caps ttl = Some (Inr s)"
  using issue_sub_succeeds [OF p caps(2,1) passport_fits [OF W caps(3)] clock_bounds(1) [OF W ttl], of "tw_nonce W 1" "tw_pk W 1" "tw_key W 0" 1] that
  unfolding sub_cert_def by blast

text \<open>A capability whose hash the passport does not hold is refused, whatever the mask says.\<close>

lemma sub_cert_escalation:
  assumes p: "passport_wf (tw_ext W) p" and c: "c \<in> set caps" "cap_hash (tw_ext W) c \<notin> cap_hash (tw_ext W) ` set (pp_capabilities p)"
    and W: "passport_world W" and fits: "length (pp_namespace p) + sum_list (map length caps) \<le> 16000"
  obtains e where "sub_cert W p caps ttl = Some (Inl e)"
proof -
  have "sub_cert W p caps ttl \<noteq> Some (Inr s)" for s
    using issue_sub_Inr(1) [OF p, of "tw_nonce W 1" "tw_pk W 1" caps ttl "tw_key W 0" "tw_clock W 1"] c by (auto simp: sub_cert_def)
  moreover have "sub_cert W p caps ttl \<noteq> None"
    using sub_ext_Some [OF passport_fits [OF W fits]] by (auto simp: sub_cert_def issue_sub_def Let_def split: sum.splits prod.splits option.splits)
  ultimately show ?thesis using that by (metis not_None_eq sum.exhaust)
qed

lemma sub_cert_escalation_ok:
  assumes "passport_wf (tw_ext W) p" "c \<in> set caps" "cap_hash (tw_ext W) c \<notin> cap_hash (tw_ext W) ` set (pp_capabilities p)"
    "passport_world W" "length (pp_namespace p) + sum_list (map length caps) \<le> 16000"
  shows "\<exists>r. sub_cert W p caps ttl = Some r \<and> \<not> is_ok r"
proof -
  obtain e where "sub_cert W p caps ttl = Some (Inl e)" by (rule sub_cert_escalation [OF assms])
  then show ?thesis by simp
qed

text \<open>What the guard says of a chain of one certificate for one capability.\<close>

lemma guard_local_mem:
  "guard_local (tw_ext W) (tw_rnd W) p chain a i now (tw_clock W (k + 1)) (tw_clock W k) =
     (case enforce_narrowing (from_capabilities (tw_ext W) [action i]) (capability_mask p) of
        Inl e \<Rightarrow> Inl e
      | Inr _ \<Rightarrow>
          (case fst (authorize_mem W now k a (intent_hash_of (tw_ext W) i) proof_default mem_rev_new chain mem_nonce_new) of
             Inl e \<Rightarrow> Inl e
           | Inr rc \<Rightarrow> Inr (provable_receipt_new (tw_ext W) rc (pp_namespace p) (capability_mask p))))"
  unfolding guard_local_def authorize_mem_def Let_def by (rule refl)

lemma guard_single:
  assumes W: "passport_world W" and p: "issue_inner (tw_ext W) f ns caps ttl (tw_key W 0) (tw_clock W 0) = Some (Inr p)"
    and s: "sub_cert W p [cap] sttl = Some (Inr sub)" and ttl: "900 \<le> unat sttl" and ch: "passport_new_chain p = Inr ch"
    and a: "a \<noteq> []" "length a \<le> 256"
  shows "a = cap \<Longrightarrow> cap \<in> set caps \<Longrightarrow> guard_now W p (chain_push sub ch) a =
      Some (Inr (provable_receipt_new (tw_ext W) (receipt_for (tw_ext W) (tw_clock W 2) (cap_hash (tw_ext W) cap) (chain_push sub ch)) ns (capability_mask p)))"
    and "cap_hash (tw_ext W) a \<noteq> cap_hash (tw_ext W) cap \<Longrightarrow> \<exists>e. guard_now W p (chain_push sub ch) a = Some (Inl e)"
proof -
  let ?E = "tw_ext W" and ?c = "chain_push sub ch"
  have w: "world_ok W" using W by (simp add: passport_world_def)
  note pi = issue_inner_Inr [OF p]
  note si = issue_sub_Inr [OF pi(1) s [unfolded sub_cert_def]]
  note cs = chain_push_single [OF ch, of sub]
  have v: "chain_valid ?E (tw_pk W 1) (cap_hash ?E cap) proof_default (tw_clock W 2) (drift_tolerance_secs ?c) ?c"
    using passport_cycle_valid [OF p _ s [unfolded sub_cert_def] ch clock_bounds(2,3) [OF W ttl], of 2] w cs by simp
  have root: "leaf_scope (principal_scope ?c) (certs ?c) = cap_hash ?E cap"
    using v by (simp add: chain_valid_def)
  have g: "guard_now W p ?c a = Some (case enforce_narrowing (from_capabilities ?E [a]) (capability_mask p) of
        Inl e \<Rightarrow> Inl e
      | Inr _ \<Rightarrow>
          (case fst (authorize_mem W (tw_clock W 2) 3 (tw_pk W 1) (cap_hash ?E a) proof_default mem_rev_new ?c mem_nonce_new) of
             Inl e \<Rightarrow> Inl e
           | Inr rc \<Rightarrow> Inr (provable_receipt_new ?E rc (pp_namespace p) (capability_mask p))))"
  proof -
    have i: "intent_new a = Inr \<lparr>action = a, params = []\<rparr>" using a by (simp add: intent_new_def MAX_ACTION_LEN_def)
    have k: "tw_clock W 4 = tw_clock W (3 + 1)" by simp
    show ?thesis unfolding guard_now_def i unwrap_simps bind.bind_lunit k guard_local_mem cap_hash_def intent.select_convs by (rule refl)
  qed
  note call = authorize_mem_outcome [OF w new_stores(1,2) v, of 3 "cap_hash ?E a" proof_default]
  show "guard_now W p ?c a = Some (Inr (provable_receipt_new ?E (receipt_for ?E (tw_clock W 2) (cap_hash ?E cap) ?c) ns (capability_mask p)))"
    if "a = cap" "cap \<in> set caps"
  proof -
    have "enforce_narrowing (from_capabilities ?E [a]) (capability_mask p) = Inr ()"
      using mask_test_subset [of "[a]" p ?E] that pi(1,2) by (simp add: passport_wf_def)
    moreover have "fst (authorize_mem W (tw_clock W 2) 3 (tw_pk W 1) (cap_hash ?E a) proof_default mem_rev_new ?c mem_nonce_new)
        = Inr (receipt_for ?E (tw_clock W 2) (cap_hash ?E cap) ?c)"
      using call root that(1) by (simp add: prod_eq_iff)
    ultimately show ?thesis using pi(3) by (simp add: g)
  qed
  show "\<exists>e. guard_now W p ?c a = Some (Inl e)" if "cap_hash ?E a \<noteq> cap_hash ?E cap"
  proof -
    have "fst (authorize_mem W (tw_clock W 2) 3 (tw_pk W 1) (cap_hash ?E a) proof_default mem_rev_new ?c mem_nonce_new) = Inl ScopeViolation"
      using call root that by simp
    then show ?thesis by (auto simp: g split: sum.splits)
  qed
qed

text \<open>The receipt of such a chain: one link deep, with the passport's name and a commitment that opens to its mask.\<close>

definition good_receipt :: "ext \<Rightarrow> dyolo_passport \<Rightarrow> provable_receipt \<Rightarrow> bool" where
  "good_receipt E p r \<longleftrightarrow> passport_namespace r = pp_namespace p \<and> verify_commitment E r \<and> chain_depth (inner r) = 1
     \<and> capability_mask_hex r = mask_to_hex E (capability_mask p) \<and> narrowing_commitment r = mask_commitment E (capability_mask p)"

lemma sub_chain_guard:
  assumes W: "passport_world W" and p: "issue_inner (tw_ext W) f ns caps ttl (tw_key W 0) (tw_clock W 0) = Some (Inr p)"
    and cap: "cap \<in> set caps" "length ns + length cap \<le> 16000" and ttl: "900 \<le> unat sttl" and a: "a \<noteq> []" "length a \<le> 256"
  obtains c where "sub_chain W p [cap] sttl = Some c"
    "a = cap \<Longrightarrow> \<exists>r. guard_now W p c a = Some (Inr r) \<and> good_receipt (tw_ext W) p r"
    "cap_hash (tw_ext W) a \<noteq> cap_hash (tw_ext W) cap \<Longrightarrow> \<exists>r. guard_now W p c a = Some r \<and> \<not> is_ok r"
proof -
  note pi = issue_inner_Inr [OF p]
  obtain s where s: "sub_cert W p [cap] sttl = Some (Inr s)"
    by (rule sub_cert_Some [OF W pi(1), of "[cap]" sttl]) (use cap pi(2,3) ttl in simp_all)
  obtain ch where ch: "passport_new_chain p = Inr ch" by (simp add: passport_new_chain_def)
  have c: "sub_chain W p [cap] sttl = Some (chain_push s ch)" by (simp add: sub_chain_def s ch)
  note g = guard_single [OF W p s ttl ch a]
  have "hex_ok (tw_ext W)" "mask_wf (capability_mask p)"
    using W pi(1) from_capabilities_spec by (auto simp: passport_world_def passport_wf_def)
  then have "good_receipt (tw_ext W) p (provable_receipt_new (tw_ext W) (receipt_for (tw_ext W) now h (chain_push s ch)) ns (capability_mask p))" for now h
    using verify_commitment_new pi(3) chain_push_single [OF ch, of s]
    by (simp add: good_receipt_def provable_receipt_new_def receipt_for_def receipt_of_def)
  with g(1) cap(1) g(2) show ?thesis by (intro that [OF c]) auto
qed

section \<open>The tests\<close>

subsection \<open>\<open>passport_tests\<close> of the integration tests\<close>

definition make_passport :: "test_world \<Rightarrow> string \<Rightarrow> string list \<Rightarrow> dyolo_passport option" where
  "make_passport W ns caps = issue_or_panic W 0 ns caps 3600"

definition passport_issue_and_scope_root :: "test_world \<Rightarrow> unit option" where
  "passport_issue_and_scope_root W = do {
     p \<leftarrow> make_passport W ''acme-bot'' [''trade.equity'', ''portfolio.read''];
     _ \<leftarrow> require (pp_namespace p = ''acme-bot'');
     _ \<leftarrow> require (\<not> mask_is_empty (capability_mask p));
     scope \<leftarrow> unwrap (passport_scope_root (tw_ext W) p);
     require (scope \<noteq> replicate 32 0)
   }"

definition passport_new_chain_principal_matches :: "test_world \<Rightarrow> unit option" where
  "passport_new_chain_principal_matches W = do {
     p \<leftarrow> make_passport W ''test-agent'' [''trade.equity''];
     chain \<leftarrow> unwrap (passport_new_chain p);
     _ \<leftarrow> require (principal_pk chain = passport_verifying_key p);
     scope \<leftarrow> unwrap (passport_scope_root (tw_ext W) p);
     require (principal_scope chain = scope)
   }"

definition passport_issue_sub_subset_succeeds :: "test_world \<Rightarrow> unit option" where
  "passport_issue_sub_subset_succeeds W = do {
     p \<leftarrow> make_passport W ''bot'' [''trade.equity'', ''portfolio.read''];
     sub \<leftarrow> sub_cert W p [''trade.equity''] 1800;
     require (is_ok sub)
   }"

definition passport_issue_sub_escalation_rejected :: "test_world \<Rightarrow> unit option" where
  "passport_issue_sub_escalation_rejected W = do {
     p \<leftarrow> make_passport W ''bot'' [''portfolio.read''];
     result \<leftarrow> sub_cert W p [''trade.equity''] 1800;
     require (\<not> is_ok result)
   }"

text \<open>The tests of the guard differ in their names and lifetimes only.\<close>

definition guard_accepts :: "test_world \<Rightarrow> dyolo_passport \<Rightarrow> string \<Rightarrow> u64 \<Rightarrow> string \<Rightarrow> unit option" where
  "guard_accepts W p cap ttl ns = do {
     chain \<leftarrow> sub_chain W p [cap] ttl;
     res \<leftarrow> guard_now W p chain cap;
     receipt \<leftarrow> unwrap res;
     _ \<leftarrow> require (passport_namespace receipt = ns);
     _ \<leftarrow> require (verify_commitment (tw_ext W) receipt);
     require (chain_depth (inner receipt) = 1)
   }"

definition guard_refuses :: "test_world \<Rightarrow> dyolo_passport \<Rightarrow> string \<Rightarrow> u64 \<Rightarrow> string \<Rightarrow> unit option" where
  "guard_refuses W p cap ttl a = do {
     chain \<leftarrow> sub_chain W p [cap] ttl;
     res \<leftarrow> guard_now W p chain a;
     require (\<not> is_ok res)
   }"

definition guard_local_single_capability_end_to_end :: "test_world \<Rightarrow> unit option" where
  "guard_local_single_capability_end_to_end W = do {
     p \<leftarrow> make_passport W ''trading-bot'' [''trade.equity'', ''portfolio.read''];
     guard_accepts W p ''trade.equity'' 1800 ''trading-bot''
   }"

definition guard_local_rejects_out_of_scope :: "test_world \<Rightarrow> unit option" where
  "guard_local_rejects_out_of_scope W = do {
     p \<leftarrow> make_passport W ''read-only-bot'' [''portfolio.read''];
     guard_refuses W p ''portfolio.read'' 1800 ''trade.equity''
   }"

definition narrowing_matrix_subset_semantics :: "ext \<Rightarrow> unit option" where
  "narrowing_matrix_subset_semantics E = do {
     let parent = from_capabilities E [''trade.equity'', ''portfolio.read''];
     let child = from_capabilities E [''trade.equity''];
     _ \<leftarrow> require (is_subset_of child parent);
     _ \<leftarrow> require (\<not> is_subset_of parent child);
     _ \<leftarrow> require (is_subset_of EMPTY parent);
     _ \<leftarrow> require (is_subset_of parent FULL);
     _ \<leftarrow> require (is_ok (enforce_narrowing child parent));
     require (\<not> is_ok (enforce_narrowing parent child))
   }"

definition narrowing_matrix_commitment_stable_and_unique :: "ext \<Rightarrow> unit option" where
  "narrowing_matrix_commitment_stable_and_unique E = do {
     let a = from_capabilities E [''trade.equity''];
     let b = from_capabilities E [''portfolio.write''];
     _ \<leftarrow> require (mask_commitment E a = mask_commitment E a);
     require (mask_commitment E a \<noteq> mask_commitment E b)
   }"

definition narrowing_matrix_roundtrip_hex :: "ext \<Rightarrow> unit option" where
  "narrowing_matrix_roundtrip_hex E = do {
     let m = from_capabilities E [''trade.equity'', ''audit.read''];
     m2 \<leftarrow> unwrap (mask_from_hex E (mask_to_hex E m));
     require (m = m2)
   }"

definition narrowing_matrix_from_csv :: "ext \<Rightarrow> unit option" where
  "narrowing_matrix_from_csv E = do {
     let csv = from_csv E ''trade.equity , portfolio.read, audit.read'';
     require (csv = from_capabilities E [''trade.equity'', ''portfolio.read'', ''audit.read''])
   }"

definition provable_receipt_commitment_valid :: "test_world \<Rightarrow> unit option" where
  "provable_receipt_commitment_valid W = do {
     p \<leftarrow> make_passport W ''ns'' [''trade.equity''];
     chain \<leftarrow> sub_chain W p [''trade.equity''] 900;
     res \<leftarrow> guard_now W p chain ''trade.equity'';
     receipt \<leftarrow> unwrap res;
     _ \<leftarrow> require (verify_commitment (tw_ext W) receipt);
     m \<leftarrow> unwrap (mask_from_hex (tw_ext W) (capability_mask_hex receipt));
     require (mask_commitment (tw_ext W) m = narrowing_commitment receipt)
   }"

text \<open>Both ways of issuing, from a slice and from a comma-separated string.\<close>

definition csv_matches_slice :: "test_world \<Rightarrow> string \<Rightarrow> unit option" where
  "csv_matches_slice W ns = do {
     a \<leftarrow> issue_or_panic W 0 ns [''trade.equity'', ''portfolio.read''] 3600;
     res \<leftarrow> issue_from_csv (tw_ext W) (tw_nonce W 1) ns ''trade.equity, portfolio.read'' 3600 (tw_key W 0) (tw_clock W 1);
     b \<leftarrow> unwrap res;
     require (capability_mask a = capability_mask b)
   }"

definition passport_issue_from_csv_matches_slice :: "test_world \<Rightarrow> unit option" where
  "passport_issue_from_csv_matches_slice W = csv_matches_slice W ''ns''"

definition two_hop_delegation_chain :: "test_world \<Rightarrow> unit option" where
  "two_hop_delegation_chain W = do {
     p \<leftarrow> make_passport W ''enterprise-agent'' [''trade.equity'', ''portfolio.read''];
     chain \<leftarrow> sub_chain W p [''trade.equity''] 1800;
     res \<leftarrow> guard_now W p chain ''trade.equity'';
     receipt \<leftarrow> unwrap res;
     _ \<leftarrow> require (chain_depth (inner receipt) = 1);
     require (verify_commitment (tw_ext W) receipt)
   }"

lemma cap_ok_names [simp]: "cap_ok ''trade.equity''" "cap_ok ''portfolio.read''" "cap_ok ''portfolio.write''" "cap_ok ''admin.delete''"
  by (simp_all add: cap_ok_def MAX_ACTION_LEN_def)

lemma issued_scope:
  assumes "passport_wf E p"
  obtains "passport_scope_root E p = Inr (scope_root (pp_cert p))"
  using assms cap_hashes_Inr [of E "pp_capabilities p" "map (cap_hash E) (pp_capabilities p)"]
  by (auto simp: passport_wf_def passport_scope_root_def capability_tree_def)

text \<open>An issued passport of a test, and what each kind of test finds in it.\<close>

definition issued :: "test_world \<Rightarrow> nat \<Rightarrow> string \<Rightarrow> string list \<Rightarrow> u64 \<Rightarrow> dyolo_passport \<Rightarrow> bool" where
  "issued W n ns caps ttl p \<longleftrightarrow> issue_or_panic W n ns caps ttl = Some p
     \<and> issue_inner (tw_ext W) (tw_nonce W n) ns caps ttl (tw_key W 0) (tw_clock W 0) = Some (Inr p)
     \<and> passport_world W \<and> 900 \<le> unat ttl \<and> caps \<noteq> [] \<and> list_all cap_ok caps \<and> length ns + sum_list (map length caps) \<le> 15000"

lemma issued_exists:
  assumes "passport_world W" "900 \<le> unat ttl" "caps \<noteq> []" "list_all cap_ok caps" "length ns + sum_list (map length caps) \<le> 15000"
  obtains p where "issued W n ns caps ttl p"
proof -
  have f: "length ns + sum_list (map length caps) \<le> 16000" using assms(5) by simp
  show ?thesis by (rule issue_or_panic_Some [OF assms(1,3,4) f assms(2), of n]) (use that assms in \<open>simp add: issued_def\<close>)
qed

lemma issued_facts:
  assumes "issued W n ns caps ttl p"
  shows "issue_or_panic W n ns caps ttl = Some p" "pp_namespace p = ns" "capability_mask p = from_capabilities (tw_ext W) caps"
    "\<not> mask_is_empty (capability_mask p)" "passport_verifying_key p = tw_pk W 0"
    "passport_scope_root (tw_ext W) p = Inr (scope_root (pp_cert p))"
    "passport_new_chain p = Inr ((chain_new (tw_pk W 0) (scope_root (pp_cert p)))\<lparr>namespace := Some ns\<rparr>)"
    "\<exists>t. tree_build (tw_ext W) (map (cap_hash (tw_ext W)) caps) = Inr t \<and> scope_root (pp_cert p) = tree_root t"
    "passport_wf (tw_ext W) p" "pp_capabilities p = caps"
proof -
  have p: "issue_inner (tw_ext W) (tw_nonce W n) ns caps ttl (tw_key W 0) (tw_clock W 0) = Some (Inr p)" and c: "caps \<noteq> []"
    and o: "issue_or_panic W n ns caps ttl = Some p" using assms by (simp_all add: issued_def)
  note pi = issue_inner_Inr [OF p]
  show "issue_or_panic W n ns caps ttl = Some p" "pp_namespace p = ns" "passport_wf (tw_ext W) p" "pp_capabilities p = caps" by fact+
  show m: "capability_mask p = from_capabilities (tw_ext W) caps" using pi(1,2) by (simp add: passport_wf_def)
  show "\<not> mask_is_empty (capability_mask p)" by (simp add: m from_capabilities_not_empty [OF c])
  show "passport_verifying_key p = tw_pk W 0" by (simp add: passport_verifying_key_def pi(4))
  show "passport_scope_root (tw_ext W) p = Inr (scope_root (pp_cert p))" by (rule issued_scope [OF pi(1)])
  show "passport_new_chain p = Inr ((chain_new (tw_pk W 0) (scope_root (pp_cert p)))\<lparr>namespace := Some ns\<rparr>)"
    by (simp add: passport_new_chain_def pi(3,4))
  show "\<exists>t. tree_build (tw_ext W) (map (cap_hash (tw_ext W)) caps) = Inr t \<and> scope_root (pp_cert p) = tree_root t"
    using pi(1,2) by (auto simp: passport_wf_def)
qed

lemma issued_sub:
  assumes "issued W n ns caps ttl p" "cs \<noteq> []" "set cs \<subseteq> set caps" "sum_list (map length cs) \<le> 1000" "900 \<le> unat sttl"
  obtains s where "sub_cert W p cs sttl = Some (Inr s)"
  by (rule sub_cert_Some [OF _ issued_facts(9) [OF assms(1)] assms(2) _ _ assms(5)])
    (use assms that issued_facts(2,10) [OF assms(1)] in \<open>auto simp: issued_def\<close>)

lemma issued_escalation:
  assumes "issued W n ns caps ttl p" "c \<in> set cs" "cap_hash (tw_ext W) c \<notin> cap_hash (tw_ext W) ` set caps" "sum_list (map length cs) \<le> 1000"
  obtains r where "sub_cert W p cs sttl = Some r" "\<not> is_ok r"
proof -
  have "\<exists>r. sub_cert W p cs sttl = Some r \<and> \<not> is_ok r"
    by (rule sub_cert_escalation_ok [OF issued_facts(9) [OF assms(1)] assms(2)])
      (use assms issued_facts(2,10) [OF assms(1)] in \<open>auto simp: issued_def\<close>)
  then show ?thesis using that by blast
qed

lemma issued_guard:
  assumes "issued W n ns caps ttl p" "cap \<in> set caps" "900 \<le> unat sttl"
  obtains c r where "sub_chain W p [cap] sttl = Some c" "guard_now W p c cap = Some (Inr r)" "good_receipt (tw_ext W) p r"
proof -
  have c: "length cap \<le> 256" "cap \<noteq> []" using assms(1,2) by (auto simp: issued_def list_all_iff cap_ok_def MAX_ACTION_LEN_def)
  have i: "passport_world W" "issue_inner (tw_ext W) (tw_nonce W n) ns caps ttl (tw_key W 0) (tw_clock W 0) = Some (Inr p)"
      "length ns + length cap \<le> 16000" using assms(1) c by (auto simp: issued_def)
  obtain ch where "sub_chain W p [cap] sttl = Some ch" "\<exists>r. guard_now W p ch cap = Some (Inr r) \<and> good_receipt (tw_ext W) p r"
    by (rule sub_chain_guard [OF i(1,2) assms(2) i(3) assms(3) c(2,1)]) blast
  then show ?thesis using that by blast
qed

lemma issued_refusal:
  assumes "issued W n ns caps ttl p" "cap \<in> set caps" "900 \<le> unat sttl" "cap_ok a" "cap_hash (tw_ext W) a \<noteq> cap_hash (tw_ext W) cap"
  obtains c r where "sub_chain W p [cap] sttl = Some c" "guard_now W p c a = Some r" "\<not> is_ok r"
proof -
  have c: "length cap \<le> 256" "length a \<le> 256" "a \<noteq> []"
    using assms(1,2,4) by (auto simp: issued_def list_all_iff cap_ok_def MAX_ACTION_LEN_def)
  have i: "passport_world W" "issue_inner (tw_ext W) (tw_nonce W n) ns caps ttl (tw_key W 0) (tw_clock W 0) = Some (Inr p)"
      "length ns + length cap \<le> 16000" using assms(1) c by (auto simp: issued_def)
  obtain ch where "sub_chain W p [cap] sttl = Some ch" "\<exists>r. guard_now W p ch a = Some r \<and> \<not> is_ok r"
    by (rule sub_chain_guard [OF i(1,2) assms(2) i(3) assms(3) c(3,2)]) (use assms(5) in blast)
  then show ?thesis using that by blast
qed

lemma guard_accepts_passes:
  assumes "issued W n ns caps ttl p" "cap \<in> set caps" "900 \<le> unat sttl"
  shows "guard_accepts W p cap sttl ns = Some ()"
  by (rule issued_guard [OF assms]) (simp add: guard_accepts_def good_receipt_def issued_facts(2) [OF assms(1)])

lemma guard_refuses_passes:
  assumes "issued W n ns caps ttl p" "cap \<in> set caps" "900 \<le> unat sttl" "cap_ok a" "cap_hash (tw_ext W) a \<noteq> cap_hash (tw_ext W) cap"
  shows "guard_refuses W p cap sttl a = Some ()"
  by (rule issued_refusal [OF assms]) (simp add: guard_refuses_def)

text \<open>The tests issue with a lifetime of an hour, which is more than a quarter of one.\<close>

lemma make_passport_issued:
  assumes "passport_world W" "caps \<noteq> []" "list_all cap_ok caps" "length ns + sum_list (map length caps) \<le> 15000"
  obtains p where "make_passport W ns caps = Some p" "issued W 0 ns caps 3600 p"
proof (rule issued_exists [OF assms(1) _ assms(2-4), of 3600 0])
  fix p assume "issued W 0 ns caps 3600 p"
  then show ?thesis using that issued_facts(1) by (simp add: make_passport_def)
qed simp

lemma passport_issue_and_scope_root_passes:
  assumes "passport_world W"
    and "\<And>t. tree_build (tw_ext W) (map (cap_hash (tw_ext W)) [''trade.equity'', ''portfolio.read'']) = Inr t \<Longrightarrow> tree_root t \<noteq> replicate 32 0"
  shows "passport_issue_and_scope_root W = Some ()"
proof (rule make_passport_issued [OF assms(1), of "[''trade.equity'', ''portfolio.read'']" "''acme-bot''"])
  fix p assume p: "make_passport W ''acme-bot'' [''trade.equity'', ''portfolio.read''] = Some p"
    and i: "issued W 0 ''acme-bot'' [''trade.equity'', ''portfolio.read''] 3600 p"
  have "scope_root (pp_cert p) \<noteq> replicate 32 0" using issued_facts(8) [OF i] assms(2) by auto
  with p show ?thesis by (simp add: passport_issue_and_scope_root_def issued_facts(2,4,6) [OF i])
qed simp_all

lemma passport_new_chain_principal_matches_passes:
  assumes "passport_world W"
  shows "passport_new_chain_principal_matches W = Some ()"
  by (rule make_passport_issued [OF assms, of "[''trade.equity'']" "''test-agent''"])
    (simp_all add: passport_new_chain_principal_matches_def issued_facts chain_new_def)

lemma passport_issue_sub_subset_succeeds_passes:
  assumes "passport_world W"
  shows "passport_issue_sub_subset_succeeds W = Some ()"
proof (rule make_passport_issued [OF assms, of "[''trade.equity'', ''portfolio.read'']" "''bot''"])
  fix p assume p: "make_passport W ''bot'' [''trade.equity'', ''portfolio.read''] = Some p"
    and i: "issued W 0 ''bot'' [''trade.equity'', ''portfolio.read''] 3600 p"
  show ?thesis by (rule issued_sub [OF i, of "[''trade.equity'']" 1800]) (simp_all add: passport_issue_sub_subset_succeeds_def p)
qed simp_all

lemma passport_issue_sub_escalation_rejected_passes:
  assumes "passport_world W" "cap_hash (tw_ext W) ''trade.equity'' \<noteq> cap_hash (tw_ext W) ''portfolio.read''"
  shows "passport_issue_sub_escalation_rejected W = Some ()"
proof (rule make_passport_issued [OF assms(1), of "[''portfolio.read'']" "''bot''"])
  fix p assume p: "make_passport W ''bot'' [''portfolio.read''] = Some p" and i: "issued W 0 ''bot'' [''portfolio.read''] 3600 p"
  show ?thesis
    by (rule issued_escalation [OF i, of "''trade.equity''" "[''trade.equity'']" 1800])
      (use assms(2) in \<open>simp_all add: passport_issue_sub_escalation_rejected_def p\<close>)
qed simp_all

lemma guard_local_single_capability_end_to_end_passes:
  assumes "passport_world W"
  shows "guard_local_single_capability_end_to_end W = Some ()"
  by (rule make_passport_issued [OF assms, of "[''trade.equity'', ''portfolio.read'']" "''trading-bot''"])
    (simp_all add: guard_local_single_capability_end_to_end_def guard_accepts_passes)

lemma guard_local_rejects_out_of_scope_passes:
  assumes "passport_world W" "cap_hash (tw_ext W) ''trade.equity'' \<noteq> cap_hash (tw_ext W) ''portfolio.read''"
  shows "guard_local_rejects_out_of_scope W = Some ()"
  by (rule make_passport_issued [OF assms(1), of "[''portfolio.read'']" "''read-only-bot''"])
    (use assms(2) in \<open>simp_all add: guard_local_rejects_out_of_scope_def guard_refuses_passes\<close>)

lemma provable_receipt_commitment_valid_passes:
  assumes "passport_world W"
  shows "provable_receipt_commitment_valid W = Some ()"
proof (rule make_passport_issued [OF assms, of "[''trade.equity'']" "''ns''"])
  fix p assume p: "make_passport W ''ns'' [''trade.equity''] = Some p" and i: "issued W 0 ''ns'' [''trade.equity''] 3600 p"
  have m: "mask_from_hex (tw_ext W) (mask_to_hex (tw_ext W) (capability_mask p)) = Inr (capability_mask p)"
    using assms from_capabilities_spec by (simp add: mask_hex_roundtrip passport_world_def issued_facts(3) [OF i])
  show ?thesis
    by (rule issued_guard [OF i, of "''trade.equity''" 900])
      (simp_all add: provable_receipt_commitment_valid_def p good_receipt_def m)
qed simp_all

lemma two_hop_delegation_chain_passes:
  assumes "passport_world W"
  shows "two_hop_delegation_chain W = Some ()"
proof (rule make_passport_issued [OF assms, of "[''trade.equity'', ''portfolio.read'']" "''enterprise-agent''"])
  fix p assume p: "make_passport W ''enterprise-agent'' [''trade.equity'', ''portfolio.read''] = Some p"
    and i: "issued W 0 ''enterprise-agent'' [''trade.equity'', ''portfolio.read''] 3600 p"
  show ?thesis
    by (rule issued_guard [OF i, of "''trade.equity''" 1800]) (simp_all add: two_hop_delegation_chain_def p good_receipt_def)
qed simp_all

subsection \<open>Masks\<close>

text \<open>Commitments are hashes of masks; the tests trust them to tell masks apart.\<close>

definition commitments_apart :: "ext \<Rightarrow> bool" where
  "commitments_apart E \<longleftrightarrow> (\<forall>m m'. mask_wf m \<longrightarrow> mask_wf m' \<longrightarrow> mask_commitment E m = mask_commitment E m' \<longrightarrow> m = m')"

lemma masks_apart: "mask_bits m \<noteq> mask_bits m' \<Longrightarrow> commitments_apart E \<Longrightarrow> mask_wf m \<Longrightarrow> mask_wf m' \<Longrightarrow> mask_commitment E m \<noteq> mask_commitment E m'"
  by (auto simp: commitments_apart_def)

lemma caps_subset_iff: "is_subset_of (from_capabilities E as) (from_capabilities E bs) \<longleftrightarrow> cap_pos E ` set as \<subseteq> cap_pos E ` set bs"
  by (rule hashed.subset_iff) (simp_all add: list_all_iff)

lemma caps_wf_bits [simp]: "mask_wf (from_capabilities E cs)" "mask_bits (from_capabilities E cs) = cap_pos E ` set cs"
  using from_capabilities_spec [of E cs] by simp_all

lemma cap_pos_less: "cap_pos E c < 256"
  using capability_to_bit_bounds [of E c] by (simp add: cap_pos_def)

lemma full_not_few: "card (set cs) < 256 \<Longrightarrow> mask_bits FULL \<noteq> mask_bits (from_capabilities E cs)"
  using card_image_le [of "set cs" "cap_pos E"] by (auto dest: arg_cong [of _ _ card])

lemma enforce_is_ok: "is_ok (enforce_narrowing a b) \<longleftrightarrow> is_subset_of a b"
  by (simp add: enforce_narrowing_def)

lemma narrowing_matrix_subset_semantics_passes:
  assumes "cap_pos E ''portfolio.read'' \<noteq> cap_pos E ''trade.equity''"
  shows "narrowing_matrix_subset_semantics E = Some ()"
  using assms cap_pos_less
  by (simp add: narrowing_matrix_subset_semantics_def enforce_is_ok caps_subset_iff is_subset_of_iff)

lemma narrowing_matrix_commitment_stable_and_unique_passes:
  assumes "cap_pos E ''trade.equity'' \<noteq> cap_pos E ''portfolio.write''" "commitments_apart E"
  shows "narrowing_matrix_commitment_stable_and_unique E = Some ()"
  using masks_apart [OF _ assms(2), of "from_capabilities E [''trade.equity'']" "from_capabilities E [''portfolio.write'']"] assms(1)
  by (simp add: narrowing_matrix_commitment_stable_and_unique_def)

lemma narrowing_matrix_roundtrip_hex_passes: "hex_ok E \<Longrightarrow> narrowing_matrix_roundtrip_hex E = Some ()"
  by (simp add: narrowing_matrix_roundtrip_hex_def mask_hex_roundtrip)

lemma csv_examples:
  "csv_items ''trade.equity , portfolio.read, audit.read'' = [''trade.equity'', ''portfolio.read'', ''audit.read'']"
  "csv_items ''trade.equity, portfolio.read'' = [''trade.equity'', ''portfolio.read'']" "csv_items ''trade.equity'' = [''trade.equity'']"
  by code_simp+

lemma narrowing_matrix_from_csv_passes: "narrowing_matrix_from_csv E = Some ()"
  by (simp add: narrowing_matrix_from_csv_def from_csv_def csv_examples)

lemma csv_matches_slice_passes:
  assumes W: "passport_world W" and ns: "length ns \<le> 1000"
  shows "csv_matches_slice W ns = Some ()"
proof -
  let ?cs = "[''trade.equity'', ''portfolio.read'']"
  obtain a where a: "issued W 0 ns ?cs 3600 a" by (rule issued_exists [OF W, of 3600 ?cs ns 0]) (use ns in simp_all)
  obtain b where b: "issue_inner (tw_ext W) (tw_nonce W 1) ns ?cs 3600 (tw_key W 0) (tw_clock W 1) = Some (Inr b)"
    using issue_inner_succeeds [OF _ _ passport_fits [OF W] clock_bounds(1) [OF W], of ?cs ns 3600 "tw_nonce W 1" "tw_key W 0" 1] ns by auto
  from issue_inner_Inr(1,2) [OF b] show ?thesis
    by (simp add: csv_matches_slice_def issued_facts [OF a] issue_from_csv_def csv_examples b [simplified] passport_wf_def)
qed

lemma passport_issue_from_csv_matches_slice_passes: "passport_world W \<Longrightarrow> passport_issue_from_csv_matches_slice W = Some ()"
  by (simp add: passport_issue_from_csv_matches_slice_def csv_matches_slice_passes)

subsection \<open>\<open>tests/passport_integration.rs\<close>\<close>

definition trading_passport :: "test_world \<Rightarrow> dyolo_passport option" where
  "trading_passport W = issue_or_panic W 0 ''acme-trading-bot'' [''trade.equity'', ''portfolio.read''] (30 * 24 * 3600)"

definition passport_issue_stores_correct_namespace_and_capabilities :: "test_world \<Rightarrow> unit option" where
  "passport_issue_stores_correct_namespace_and_capabilities W = do {
     p \<leftarrow> trading_passport W;
     _ \<leftarrow> require (pp_namespace p = ''acme-trading-bot'');
     _ \<leftarrow> require (\<not> mask_is_empty (capability_mask p));
     require (is_subset_of (from_capabilities (tw_ext W) [''trade.equity'']) (capability_mask p))
   }"

definition passport_scope_root_is_deterministic :: "test_world \<Rightarrow> unit option" where
  "passport_scope_root_is_deterministic W = do {
     p \<leftarrow> trading_passport W;
     r1 \<leftarrow> unwrap (passport_scope_root (tw_ext W) p);
     r2 \<leftarrow> unwrap (passport_scope_root (tw_ext W) p);
     require (r1 = r2)
   }"

definition passport_new_chain_anchors_at_holder_key_and_scope :: "test_world \<Rightarrow> unit option" where
  "passport_new_chain_anchors_at_holder_key_and_scope W = do {
     p \<leftarrow> trading_passport W;
     chain \<leftarrow> unwrap (passport_new_chain p);
     _ \<leftarrow> require (principal_pk chain = passport_verifying_key p);
     scope \<leftarrow> unwrap (passport_scope_root (tw_ext W) p);
     _ \<leftarrow> require (principal_scope chain = scope);
     require (namespace chain = Some ''acme-trading-bot'')
   }"

definition passport_guard_local_single_capability_end_to_end :: "test_world \<Rightarrow> unit option" where
  "passport_guard_local_single_capability_end_to_end W = do {
     p \<leftarrow> trading_passport W;
     guard_accepts W p ''trade.equity'' 3600 ''acme-trading-bot''
   }"

definition passport_guard_rejects_out_of_scope_intent :: "test_world \<Rightarrow> unit option" where
  "passport_guard_rejects_out_of_scope_intent W = do {
     p \<leftarrow> trading_passport W;
     guard_refuses W p ''portfolio.read'' 3600 ''trade.equity''
   }"

definition passport_issue_sub_rejects_capability_escalation :: "test_world \<Rightarrow> unit option" where
  "passport_issue_sub_rejects_capability_escalation W = do {
     p \<leftarrow> trading_passport W;
     result \<leftarrow> sub_cert W p [''trade.equity'', ''admin.delete''] 3600;
     require (\<not> is_ok result)
   }"

definition passport_issue_sub_accepts_exact_capability_set :: "test_world \<Rightarrow> unit option" where
  "passport_issue_sub_accepts_exact_capability_set W = do {
     p \<leftarrow> trading_passport W;
     result \<leftarrow> sub_cert W p [''trade.equity'', ''portfolio.read''] 3600;
     require (is_ok result)
   }"

definition passport_narrowing_matrix_subset_algebra :: "ext \<Rightarrow> unit option" where
  "passport_narrowing_matrix_subset_algebra E = do {
     let parent = from_capabilities E [''a'', ''b'', ''c''];
     let child = from_capabilities E [''a''];
     let unrelated = from_capabilities E [''z''];
     _ \<leftarrow> require (is_subset_of child parent);
     _ \<leftarrow> require (\<not> is_subset_of parent child);
     _ \<leftarrow> require (\<not> is_subset_of unrelated parent);
     _ \<leftarrow> require (is_subset_of EMPTY parent);
     require (\<not> is_subset_of parent EMPTY)
   }"

definition passport_provable_receipt_commitment_tamper_detection :: "test_world \<Rightarrow> unit option" where
  "passport_provable_receipt_commitment_tamper_detection W = do {
     p \<leftarrow> trading_passport W;
     chain \<leftarrow> sub_chain W p [''trade.equity''] 3600;
     res \<leftarrow> guard_now W p chain ''trade.equity'';
     receipt \<leftarrow> unwrap res;
     let receipt = receipt\<lparr>capability_mask_hex := mask_to_hex (tw_ext W) FULL\<rparr>;
     require (\<not> verify_commitment (tw_ext W) receipt)
   }"

definition passport_issue_from_csv_matches_slice_issue :: "test_world \<Rightarrow> unit option" where
  "passport_issue_from_csv_matches_slice_issue W = csv_matches_slice W ''bot''"

definition passport_sub_from_csv_matches_sub_slice :: "test_world \<Rightarrow> unit option" where
  "passport_sub_from_csv_matches_sub_slice W = do {
     p \<leftarrow> trading_passport W;
     ra \<leftarrow> sub_cert W p [''trade.equity''] 3600;
     a \<leftarrow> unwrap ra;
     rb \<leftarrow> issue_sub_from_csv (tw_ext W) (tw_nonce W 2) p (tw_pk W 1) ''trade.equity'' 3600 (tw_key W 0) (tw_clock W 2);
     b \<leftarrow> unwrap rb;
     require (scope_root a = scope_root b)
   }"

lemma trading_passport_issued:
  assumes "passport_world W"
  obtains p where "trading_passport W = Some p" "issued W 0 ''acme-trading-bot'' [''trade.equity'', ''portfolio.read''] (30 * 24 * 3600) p"
proof (rule issued_exists [OF assms, of "30 * 24 * 3600" "[''trade.equity'', ''portfolio.read'']" "''acme-trading-bot''" 0])
  fix p assume "issued W 0 ''acme-trading-bot'' [''trade.equity'', ''portfolio.read''] (30 * 24 * 3600) p"
  then show ?thesis using that issued_facts(1) by (simp add: trading_passport_def)
qed simp_all

lemma passport_lifecycle_passes:
  assumes "passport_world W"
  shows "passport_issue_stores_correct_namespace_and_capabilities W = Some ()"
    "passport_scope_root_is_deterministic W = Some ()"
    "passport_new_chain_anchors_at_holder_key_and_scope W = Some ()"
    "passport_guard_local_single_capability_end_to_end W = Some ()"
proof -
  obtain p where p: "trading_passport W = Some p" "issued W 0 ''acme-trading-bot'' [''trade.equity'', ''portfolio.read''] (30 * 24 * 3600) p"
    by (rule trading_passport_issued [OF assms])
  note f = issued_facts [OF p(2)]
  show "passport_issue_stores_correct_namespace_and_capabilities W = Some ()"
    using f(4) by (simp add: passport_issue_stores_correct_namespace_and_capabilities_def p(1) f(2,3) caps_subset_iff)
  show "passport_scope_root_is_deterministic W = Some ()" by (simp add: passport_scope_root_is_deterministic_def p(1) f(6))
  show "passport_new_chain_anchors_at_holder_key_and_scope W = Some ()"
    by (simp add: passport_new_chain_anchors_at_holder_key_and_scope_def p(1) f(5,6,7) chain_new_def)
  show "passport_guard_local_single_capability_end_to_end W = Some ()"
    using guard_accepts_passes [OF p(2), of "''trade.equity''" 3600]
    by (simp add: passport_guard_local_single_capability_end_to_end_def p(1))
qed

lemma passport_guard_rejects_out_of_scope_intent_passes:
  assumes "passport_world W" "cap_hash (tw_ext W) ''trade.equity'' \<noteq> cap_hash (tw_ext W) ''portfolio.read''"
  shows "passport_guard_rejects_out_of_scope_intent W = Some ()"
  by (rule trading_passport_issued [OF assms(1)])
    (use assms(2) in \<open>simp add: passport_guard_rejects_out_of_scope_intent_def guard_refuses_passes\<close>)

lemma passport_issue_sub_rejects_capability_escalation_passes:
  assumes "passport_world W"
    and "cap_hash (tw_ext W) ''admin.delete'' \<noteq> cap_hash (tw_ext W) ''trade.equity''"
    and "cap_hash (tw_ext W) ''admin.delete'' \<noteq> cap_hash (tw_ext W) ''portfolio.read''"
  shows "passport_issue_sub_rejects_capability_escalation W = Some ()"
proof (rule trading_passport_issued [OF assms(1)])
  fix p assume p: "trading_passport W = Some p" and i: "issued W 0 ''acme-trading-bot'' [''trade.equity'', ''portfolio.read''] (30 * 24 * 3600) p"
  show ?thesis
    by (rule issued_escalation [OF i, of "''admin.delete''" "[''trade.equity'', ''admin.delete'']" 3600])
      (use assms(2,3) in \<open>simp_all add: passport_issue_sub_rejects_capability_escalation_def p\<close>)
qed

lemma passport_issue_sub_accepts_exact_capability_set_passes:
  assumes "passport_world W"
  shows "passport_issue_sub_accepts_exact_capability_set W = Some ()"
proof (rule trading_passport_issued [OF assms(1)])
  fix p assume p: "trading_passport W = Some p" and i: "issued W 0 ''acme-trading-bot'' [''trade.equity'', ''portfolio.read''] (30 * 24 * 3600) p"
  show ?thesis
    by (rule issued_sub [OF i, of "[''trade.equity'', ''portfolio.read'']" 3600])
      (simp_all add: passport_issue_sub_accepts_exact_capability_set_def p)
qed

lemma passport_narrowing_matrix_subset_algebra_passes:
  assumes "cap_pos E ''z'' \<notin> cap_pos E ` {''a'', ''b'', ''c''}" "cap_pos E ''b'' \<noteq> cap_pos E ''a''"
  shows "passport_narrowing_matrix_subset_algebra E = Some ()"
  using assms cap_pos_less
  by (simp add: passport_narrowing_matrix_subset_algebra_def caps_subset_iff is_subset_of_iff)

text \<open>A receipt whose mask is replaced by the full one no longer opens its commitment.\<close>

lemma full_mask_tamper_seen:
  assumes "hex_ok E" "commitments_apart E" "card (set cs) < 256" "narrowing_commitment r = mask_commitment E (from_capabilities E cs)"
  shows "\<not> verify_commitment E (r\<lparr>capability_mask_hex := mask_to_hex E FULL\<rparr>)"
  using masks_apart [OF full_not_few [OF assms(3)] assms(2)] assms(1,4)
  by (simp add: verify_commitment_def mask_hex_roundtrip)

lemma passport_provable_receipt_commitment_tamper_detection_passes:
  assumes "passport_world W" "commitments_apart (tw_ext W)"
  shows "passport_provable_receipt_commitment_tamper_detection W = Some ()"
proof (rule trading_passport_issued [OF assms(1)])
  fix p assume p: "trading_passport W = Some p" and i: "issued W 0 ''acme-trading-bot'' [''trade.equity'', ''portfolio.read''] (30 * 24 * 3600) p"
  have h: "hex_ok (tw_ext W)" using assms(1) by (simp add: passport_world_def)
  have "card (set [''trade.equity'', ''portfolio.read'']) < 256" by simp
  note t = full_mask_tamper_seen [OF h assms(2) this, folded issued_facts(3) [OF i]]
  show ?thesis
    by (rule issued_guard [OF i, of "''trade.equity''" 3600])
      (simp_all add: passport_provable_receipt_commitment_tamper_detection_def p good_receipt_def t)
qed

lemma passport_issue_from_csv_matches_slice_issue_passes:
  "passport_world W \<Longrightarrow> passport_issue_from_csv_matches_slice_issue W = Some ()"
  by (simp add: passport_issue_from_csv_matches_slice_issue_def csv_matches_slice_passes)

lemma passport_sub_from_csv_matches_sub_slice_passes:
  assumes W: "passport_world W"
  shows "passport_sub_from_csv_matches_sub_slice W = Some ()"
proof (rule trading_passport_issued [OF W])
  fix p assume p: "trading_passport W = Some p" and i: "issued W 0 ''acme-trading-bot'' [''trade.equity'', ''portfolio.read''] (30 * 24 * 3600) p"
  note f = issued_facts [OF i]
  obtain a where a: "sub_cert W p [''trade.equity''] 3600 = Some (Inr a)" by (rule issued_sub [OF i, of "[''trade.equity'']" 3600]) simp_all
  obtain b where b: "issue_sub (tw_ext W) (tw_nonce W 2) p (tw_pk W 1) [''trade.equity''] 3600 (tw_key W 0) (tw_clock W 2) = Some (Inr b)"
    using issue_sub_succeeds [OF f(9) _ _ passport_fits [OF W] clock_bounds(1) [OF W], of "[''trade.equity'']" 3600 "tw_nonce W 2" "tw_pk W 1" "tw_key W 0" 2] f(2,10)
    by auto
  have "scope_root a = scope_root b"
    using issue_sub_Inr(3) [OF f(9) a [unfolded sub_cert_def]] issue_sub_Inr(3) [OF f(9) b] by auto
  then show ?thesis
    unfolding passport_sub_from_csv_matches_sub_slice_def issue_sub_from_csv_def csv_examples p a b bind.bind_lunit unwrap_simps by simp
qed

subsection \<open>The unit tests of \<open>src/passport/mod.rs\<close>\<close>

definition make_test_agent :: "test_world \<Rightarrow> string list \<Rightarrow> dyolo_passport option" where
  "make_test_agent W caps = issue_or_panic W 0 ''test-agent'' caps 3600"

definition issue_stores_namespace_and_mask :: "test_world \<Rightarrow> unit option" where
  "issue_stores_namespace_and_mask W = do {
     p \<leftarrow> make_test_agent W [''trade.equity'', ''portfolio.read''];
     _ \<leftarrow> require (pp_namespace p = ''test-agent'');
     require (\<not> mask_is_empty (capability_mask p))
   }"

definition scope_root_is_deterministic :: "test_world \<Rightarrow> unit option" where
  "scope_root_is_deterministic W = do {
     p \<leftarrow> make_test_agent W [''trade.equity'', ''portfolio.read''];
     r1 \<leftarrow> unwrap (passport_scope_root (tw_ext W) p);
     r2 \<leftarrow> unwrap (passport_scope_root (tw_ext W) p);
     require (r1 = r2)
   }"

definition new_chain_uses_passport_key_and_scope :: "test_world \<Rightarrow> unit option" where
  "new_chain_uses_passport_key_and_scope W = do {
     p \<leftarrow> make_test_agent W [''trade.equity''];
     chain \<leftarrow> unwrap (passport_new_chain p);
     _ \<leftarrow> require (principal_pk chain = passport_verifying_key p);
     scope \<leftarrow> unwrap (passport_scope_root (tw_ext W) p);
     require (principal_scope chain = scope)
   }"

definition issue_sub_rejects_escalation :: "test_world \<Rightarrow> unit option" where
  "issue_sub_rejects_escalation W = do {
     p \<leftarrow> make_test_agent W [''trade.equity''];
     result \<leftarrow> sub_cert W p [''trade.equity'', ''portfolio.write''] 1800;
     require (\<not> is_ok result)
   }"

definition issue_sub_accepts_valid_subset :: "test_world \<Rightarrow> unit option" where
  "issue_sub_accepts_valid_subset W = do {
     p \<leftarrow> make_test_agent W [''trade.equity'', ''portfolio.read''];
     result \<leftarrow> sub_cert W p [''trade.equity''] 1800;
     require (is_ok result)
   }"

definition unit_guard_local_end_to_end :: "test_world \<Rightarrow> unit option" where
  "unit_guard_local_end_to_end W = do {
     p \<leftarrow> make_test_agent W [''trade.equity'', ''portfolio.read''];
     chain \<leftarrow> sub_chain W p [''trade.equity''] 1800;
     res \<leftarrow> guard_now W p chain ''trade.equity'';
     receipt \<leftarrow> unwrap res;
     _ \<leftarrow> require (passport_namespace receipt = ''test-agent'');
     require (verify_commitment (tw_ext W) receipt)
   }"

definition guard_rejects_out_of_scope_intent :: "test_world \<Rightarrow> unit option" where
  "guard_rejects_out_of_scope_intent W = do {
     p \<leftarrow> make_test_agent W [''portfolio.read''];
     guard_refuses W p ''portfolio.read'' 1800 ''trade.equity''
   }"

definition issue_from_csv_matches_slice :: "test_world \<Rightarrow> unit option" where
  "issue_from_csv_matches_slice W = csv_matches_slice W ''a''"

lemma make_test_agent_issued:
  assumes "passport_world W" "caps \<noteq> []" "list_all cap_ok caps" "sum_list (map length caps) \<le> 1000"
  obtains p where "make_test_agent W caps = Some p" "issued W 0 ''test-agent'' caps 3600 p"
  by (rule make_passport_issued [OF assms(1-3), of "''test-agent''"])
    (use assms(4) that in \<open>simp_all add: make_passport_def make_test_agent_def\<close>)

lemma passport_unit_tests_pass:
  assumes W: "passport_world W"
  shows "issue_stores_namespace_and_mask W = Some ()" "scope_root_is_deterministic W = Some ()"
    "issue_sub_accepts_valid_subset W = Some ()" "unit_guard_local_end_to_end W = Some ()"
    "new_chain_uses_passport_key_and_scope W = Some ()" "issue_from_csv_matches_slice W = Some ()"
proof -
  obtain p where p: "make_test_agent W [''trade.equity'', ''portfolio.read''] = Some p"
      "issued W 0 ''test-agent'' [''trade.equity'', ''portfolio.read''] 3600 p"
    by (rule make_test_agent_issued [OF W, of "[''trade.equity'', ''portfolio.read'']"]) simp_all
  note f = issued_facts [OF p(2)]
  show "issue_stores_namespace_and_mask W = Some ()" by (simp add: issue_stores_namespace_and_mask_def p(1) f(2,4))
  show "scope_root_is_deterministic W = Some ()" by (simp add: scope_root_is_deterministic_def p(1) f(6))
  show "issue_sub_accepts_valid_subset W = Some ()"
    by (rule issued_sub [OF p(2), of "[''trade.equity'']" 1800]) (simp_all add: issue_sub_accepts_valid_subset_def p(1))
  show "unit_guard_local_end_to_end W = Some ()"
    by (rule issued_guard [OF p(2), of "''trade.equity''" 1800]) (simp_all add: unit_guard_local_end_to_end_def p(1) good_receipt_def f(2))
  show "new_chain_uses_passport_key_and_scope W = Some ()"
    by (rule make_test_agent_issued [OF W, of "[''trade.equity'']"])
      (simp_all add: new_chain_uses_passport_key_and_scope_def issued_facts chain_new_def)
  show "issue_from_csv_matches_slice W = Some ()" by (simp add: issue_from_csv_matches_slice_def csv_matches_slice_passes [OF W])
qed

lemma passport_unit_rejections_pass:
  assumes W: "passport_world W"
  shows "cap_hash (tw_ext W) ''portfolio.write'' \<noteq> cap_hash (tw_ext W) ''trade.equity'' \<Longrightarrow> issue_sub_rejects_escalation W = Some ()"
    and "cap_hash (tw_ext W) ''trade.equity'' \<noteq> cap_hash (tw_ext W) ''portfolio.read'' \<Longrightarrow> guard_rejects_out_of_scope_intent W = Some ()"
proof -
  assume ne: "cap_hash (tw_ext W) ''portfolio.write'' \<noteq> cap_hash (tw_ext W) ''trade.equity''"
  obtain p where p: "make_test_agent W [''trade.equity''] = Some p" "issued W 0 ''test-agent'' [''trade.equity''] 3600 p"
    by (rule make_test_agent_issued [OF W, of "[''trade.equity'']"]) simp_all
  show "issue_sub_rejects_escalation W = Some ()"
    by (rule issued_escalation [OF p(2), of "''portfolio.write''" "[''trade.equity'', ''portfolio.write'']" 1800])
      (use ne in \<open>simp_all add: issue_sub_rejects_escalation_def p(1)\<close>)
next
  assume ne: "cap_hash (tw_ext W) ''trade.equity'' \<noteq> cap_hash (tw_ext W) ''portfolio.read''"
  show "guard_rejects_out_of_scope_intent W = Some ()"
    by (rule make_test_agent_issued [OF W, of "[''portfolio.read'']"])
      (use ne in \<open>simp_all add: guard_rejects_out_of_scope_intent_def guard_refuses_passes\<close>)
qed

section \<open>A run of the tests\<close>

text \<open>Worlds as the tests assume them exist: the stand-in crates, eight keys and nonces by number, and a clock that stands still.\<close>

definition toy_world :: test_world where
  "toy_world = \<lparr>tw_ext = toy_ext, tw_key = (\<lambda>k. toy_signer [of_nat k]), tw_nonce = (\<lambda>k. [of_nat k]),
     tw_clock = (\<lambda>_. 1700000000), tw_rnd = []\<rparr>"

lemma toy_hex_length: "length (toy_hex_enc b) = 2 * length b"
  by (induction b) simp_all

lemma toy_world_ok: "passport_world toy_world"
proof -
  have u: "unat (of_nat k :: u8) = k" if "k < 8" for k using that by (simp add: unat_of_nat)
  have "inj_on (\<lambda>k. [of_nat k :: u8]) {..<8}"
    by (rule inj_onI) (metis list.inject lessThan_iff u)
  moreover have "verifying_key (toy_signer pk) = pk" for pk by (simp add: toy_signer_def)
  ultimately have "world_ok toy_world" by (simp add: world_ok_def toy_world_def)
  then show ?thesis by (simp add: passport_world_def toy_world_def toy_ext_def toy_hex_length hex_ok_def toy_hex_round)
qed

end
