(* ===== verification/A1_UnitTests.thy ===== *)
theory A1_UnitTests
  imports A1_PassportScenarios A1_Async
begin

text \<open>
  The unit tests of the core modules as programs over the model, each shown to pass: intents and trees
  (\<open>src/intent.rs\<close>), stores (\<open>src/registry.rs\<close>), policies (\<open>src/policy.rs\<close>), chains (\<open>src/chain.rs\<close>),
  contexts (\<open>src/context.rs\<close>) and masks (\<open>src/identity/narrowing.rs\<close>).
\<close>

section \<open>Loops and searches of the tests\<close>

fun for_each :: "'a list \<Rightarrow> ('a \<Rightarrow> unit option) \<Rightarrow> unit option" where
  "for_each [] f = Some ()"
| "for_each (x # xs) f = do { _ \<leftarrow> f x; for_each xs f }"

lemma for_each_Some: "(\<And>x. x \<in> set xs \<Longrightarrow> f x = Some ()) \<Longrightarrow> for_each xs f = Some ()"
  by (induction xs) auto

fun str_contains :: "string \<Rightarrow> string \<Rightarrow> bool" where
  "str_contains [] t \<longleftrightarrow> t = []"
| "str_contains (c # s) t \<longleftrightarrow> starts_with (c # s) t \<or> str_contains s t"

section \<open>Intents and trees\<close>

definition sample_intents :: "ext \<Rightarrow> bytes list" where
  "sample_intents E = map (\<lambda>i. intent_hash E (''action_'' @ dec i) [of_nat i]) [0..<8]"

definition tree_root_is_deterministic :: "ext \<Rightarrow> unit option" where
  "tree_root_is_deterministic E = do {
     a \<leftarrow> unwrap (tree_build E (sample_intents E));
     b \<leftarrow> unwrap (tree_build E (rev (sample_intents E)));
     require (tree_root a = tree_root b)
   }"

definition proofs_verify_for_all_leaves :: "ext \<Rightarrow> unit option" where
  "proofs_verify_for_all_leaves E = do {
     tree \<leftarrow> unwrap (tree_build E (sample_intents E));
     let root = tree_root tree;
     for_each (sample_intents E) (\<lambda>intent. do {
       p \<leftarrow> unwrap (tree_prove tree intent);
       require (merkle_verify E p intent root)
     })
   }"

definition unknown_intent_proof_fails :: "ext \<Rightarrow> unit option" where
  "unknown_intent_proof_fails E = do {
     tree \<leftarrow> unwrap (tree_build E (sample_intents E));
     let unknown = intent_hash E ''unknown'' [];
     require (tree_prove tree unknown = Inl IntentNotFound)
   }"

definition sub_scope_derives_correct_root :: "ext \<Rightarrow> unit option" where
  "sub_scope_derives_correct_root E = do {
     tree \<leftarrow> unwrap (tree_build E (sample_intents E));
     let subset_of = take 3 (sample_intents E);
     pf \<leftarrow> unwrap (sub_scope_build tree subset_of);
     derived \<leftarrow> unwrap (verify_and_derive_root E pf (tree_root tree));
     sub \<leftarrow> unwrap (tree_build E subset_of);
     require (derived = tree_root sub)
   }"

definition full_passthrough_returns_parent_root :: "ext \<Rightarrow> unit option" where
  "full_passthrough_returns_parent_root E = do {
     tree \<leftarrow> unwrap (tree_build E (sample_intents E));
     let root = tree_root tree;
     derived \<leftarrow> unwrap (verify_and_derive_root E full_passthrough root);
     require (derived = root)
   }"

definition intent_struct_hash_is_order_independent :: "ext \<Rightarrow> unit option" where
  "intent_struct_hash_is_order_independent E = do {
     a \<leftarrow> unwrap (intent_new ''trade'');
     a \<leftarrow> intent_param a ''symbol'' ''AAPL'';
     a \<leftarrow> intent_param a ''qty'' ''100'';
     b \<leftarrow> unwrap (intent_new ''trade'');
     b \<leftarrow> intent_param b ''qty'' ''100'';
     b \<leftarrow> intent_param b ''symbol'' ''AAPL'';
     require (intent_hash_of E a = intent_hash_of E b)
   }"

definition intent_display_test :: "unit option" where
  "intent_display_test = do {
     i \<leftarrow> unwrap (intent_new ''trade.equity'');
     i \<leftarrow> intent_param i ''symbol'' ''AAPL'';
     let s = intent_display i;
     _ \<leftarrow> require (str_contains s ''trade.equity'');
     require (str_contains s ''symbol=aapl'')
   }"

lemma sample_intents_ne: "sample_intents E \<noteq> []" "set (take 3 (sample_intents E)) \<subseteq> set (sample_intents E)" "take 3 (sample_intents E) \<noteq> []"
  by (simp add: sample_intents_def) (rule set_take_subset, simp add: sample_intents_def)

lemma intent_tests_pass:
  "tree_root_is_deterministic E = Some ()" "proofs_verify_for_all_leaves E = Some ()"
  "sub_scope_derives_correct_root E = Some ()" "full_passthrough_returns_parent_root E = Some ()"
proof -
  obtain t where t: "tree_build E (sample_intents E) = Inr t" using tree_build_nonempty [OF sample_intents_ne(1)] by auto
  have "tree_build E (rev (sample_intents E)) = Inr t" using tree_build_set [of "rev (sample_intents E)" "sample_intents E" E] t by simp
  then show "tree_root_is_deterministic E = Some ()" by (simp add: tree_root_is_deterministic_def t)
  have "for_each (sample_intents E) (\<lambda>i. do { p \<leftarrow> unwrap (tree_prove t i); require (merkle_verify E p i (tree_root t)) }) = Some ()"
    by (rule for_each_Some) (use tree_prove_complete [OF t] in fastforce)
  then show "proofs_verify_for_all_leaves E = Some ()" by (simp add: proofs_verify_for_all_leaves_def t Let_def)
  show "sub_scope_derives_correct_root E = Some ()"
    using sub_scope_roundtrip [OF t sample_intents_ne(2,3)] by (auto simp: sub_scope_derives_correct_root_def t Let_def)
  show "full_passthrough_returns_parent_root E = Some ()"
    by (simp add: full_passthrough_returns_parent_root_def t Let_def verify_and_derive_root_def full_passthrough_def)
qed

lemma unknown_intent_proof_fails_passes:
  assumes "intent_hash E ''unknown'' [] \<notin> set (sample_intents E)"
  shows "unknown_intent_proof_fails E = Some ()"
proof -
  obtain t where t: "tree_build E (sample_intents E) = Inr t" using tree_build_nonempty [OF sample_intents_ne(1)] by auto
  show ?thesis using tree_prove_missing [OF t assms] by (simp add: unknown_intent_proof_fails_def t Let_def)
qed

lemma intent_params_example:
  "do { a \<leftarrow> unwrap (intent_new ''trade''); a \<leftarrow> intent_param a ''symbol'' ''AAPL''; intent_param a ''qty'' ''100'' }
     = Some \<lparr>action = ''trade'', params = [(''qty'', ''100''), (''symbol'', ''aapl'')]\<rparr>"
  "do { b \<leftarrow> unwrap (intent_new ''trade''); b \<leftarrow> intent_param b ''qty'' ''100''; intent_param b ''symbol'' ''AAPL'' }
     = Some \<lparr>action = ''trade'', params = [(''qty'', ''100''), (''symbol'', ''aapl'')]\<rparr>"
  by code_simp+

lemma intent_struct_hash_is_order_independent_passes: "intent_struct_hash_is_order_independent E = Some ()"
proof -
  have eq: "intent_struct_hash_is_order_independent E =
      do { a \<leftarrow> do { a \<leftarrow> unwrap (intent_new ''trade''); a \<leftarrow> intent_param a ''symbol'' ''AAPL''; intent_param a ''qty'' ''100'' };
           b \<leftarrow> do { b \<leftarrow> unwrap (intent_new ''trade''); b \<leftarrow> intent_param b ''qty'' ''100''; intent_param b ''symbol'' ''AAPL'' };
           require (intent_hash_of E a = intent_hash_of E b) }"
    by (simp add: intent_struct_hash_is_order_independent_def)
  show ?thesis unfolding eq intent_params_example by simp
qed

lemma intent_display_test_passes: "intent_display_test = Some ()"
  by code_simp

section \<open>Stores\<close>

definition try_consume_is_atomic_and_idempotent :: "test_world \<Rightarrow> unit option" where
  "try_consume_is_atomic_and_idempotent W = do {
     let nonce = tw_nonce W 0;
     let (first, store) = mem_try_consume (tw_clock W 0) mem_nonce_new nonce;
     fresh \<leftarrow> unwrap first;
     _ \<leftarrow> require fresh;
     let (second, store) = mem_try_consume (tw_clock W 1) store nonce;
     again \<leftarrow> unwrap second;
     _ \<leftarrow> require (\<not> again);
     consumed \<leftarrow> unwrap (mem_is_consumed (tw_clock W 2) store nonce);
     require consumed
   }"

definition try_consume_concurrent_exactly_one_winner :: "test_world \<Rightarrow> unit option" where
  "try_consume_concurrent_exactly_one_winner W = do {
     wins \<leftarrow> race (tw_clock W) (tw_nonce W 0) 32 mem_nonce_new;
     require (wins = 1)
   }"

definition revoke_batch_marks_all_fingerprints :: "unit option" where
  "revoke_batch_marks_all_fingerprints = do {
     let fps = map (\<lambda>i. of_nat i # replicate 31 0) [0..<8];
     let (res, store) = mem_revoke_batch mem_rev_new fps;
     _ \<leftarrow> unwrap res;
     for_each fps (\<lambda>fp. do { revoked \<leftarrow> unwrap (mem_is_revoked store fp); require revoked })
   }"

text \<open>The five requests and the sixth, each at its reading of the clock.\<close>

fun rate_allow :: "test_world \<Rightarrow> bytes \<Rightarrow> nat \<Rightarrow> nat \<Rightarrow> memory_rate_limit_store \<Rightarrow> memory_rate_limit_store option" where
  "rate_allow W key k 0 store = Some store"
| "rate_allow W key k (Suc n) store = do {
     (res, store') \<leftarrow> check_and_record (tw_clock W k) store key 5 60;
     allowed \<leftarrow> unwrap res;
     _ \<leftarrow> require allowed;
     rate_allow W key (Suc k) n store'
   }"

definition rate_limit_enforces_window :: "test_world \<Rightarrow> unit option" where
  "rate_limit_enforces_window W = do {
     let key = str_bytes ''test-principal'';
     store \<leftarrow> rate_allow W key 0 5 rate_limit_new;
     (res, store') \<leftarrow> check_and_record (tw_clock W 5) store key 5 60;
     allowed \<leftarrow> unwrap res;
     require (\<not> allowed)
   }"

lemma try_consume_is_atomic_and_idempotent_passes: "try_consume_is_atomic_and_idempotent W = Some ()"
proof -
  obtain s1 where s1: "mem_try_consume (tw_clock W 0) mem_nonce_new (tw_nonce W 0) = (Inr True, s1)" "nonce_inv_forever s1" "live 0 s1 = {tw_nonce W 0}"
    using try_consume_forever [OF new_stores(2), of "tw_clock W 0" "tw_nonce W 0"] by auto
  obtain s2 where s2: "mem_try_consume (tw_clock W 1) s1 (tw_nonce W 0) = (Inr False, s2)" "nonce_inv_forever s2" "live 0 s2 = {tw_nonce W 0}"
    using try_consume_forever [OF s1(2), of "tw_clock W 1" "tw_nonce W 0"] s1(3) by auto
  have "live (tw_clock W 2) s2 = {tw_nonce W 0}" using mem_forever.used_time [OF s2(2), of "tw_clock W 2" 0] s2(3) by simp
  moreover have "nonce_inv s2" using s2(2) by (simp add: nonce_inv_forever_def)
  ultimately have "mem_is_consumed (tw_clock W 2) s2 (tw_nonce W 0) = Inr True" by (simp add: mem_is_consumed_spec)
  with s1(1) s2(1) show ?thesis by (simp add: try_consume_is_atomic_and_idempotent_def Let_def del: One_nat_def)
qed

lemma try_consume_concurrent_exactly_one_winner_passes: "try_consume_concurrent_exactly_one_winner W = Some ()"
  by (simp add: try_consume_concurrent_exactly_one_winner_def race_wins)

lemma revoke_batch_marks_all_fingerprints_passes: "revoke_batch_marks_all_fingerprints = Some ()"
proof -
  let ?fps = "map (\<lambda>i. of_nat i # replicate 31 0) [0..<8] :: bytes list"
  obtain s where s: "mem_revoke_batch mem_rev_new ?fps = (Inr (), s)" "mem_rev_inv s" "revoked_set s = set ?fps"
    using mem_revoke_batch_spec [OF new_stores(1), of ?fps] by auto
  have "for_each ?fps (\<lambda>fp. do { revoked \<leftarrow> unwrap (mem_is_revoked s fp); require revoked }) = Some ()"
    by (rule for_each_Some) (simp only: mem_rev.is_rev_spec [OF s(2)] s(3) unwrap_simps bind.bind_lunit require_simps)
  with s(1) show ?thesis
    unfolding revoke_batch_marks_all_fingerprints_def Let_def by (simp only: prod.case bind.bind_lunit unwrap_simps)
qed

lemma minute_fits: "unat (max 60 (1 :: u64)) * 2 < 2 ^ 64"
  by (simp add: max_def word_le_nat_alt)

text \<open>The calls of the test fall in one window of a minute, or the last of them starts a new one and the assertion fails.\<close>

lemma rate_allow_spec:
  assumes "\<forall>k. window_start (tw_clock W k) 60 = st" "\<not> rl_poisoned s" "unat (window_count st s key) + n \<le> 5"
  shows "\<exists>s'. rate_allow W key k n s = Some s' \<and> \<not> rl_poisoned s' \<and> unat (window_count st s' key) = unat (window_count st s key) + n"
  using assms(2,3)
proof (induction n arbitrary: k s)
  case (Suc n)
  have lt: "window_count st s key < 5" using Suc.prems(2) by (simp add: word_less_nat_alt)
  have st: "window_start (tw_clock W k) 60 = st" using assms(1) by simp
  obtain s' where s': "check_and_record (tw_clock W k) s key 5 60 = Some (Inr True, s')" "\<not> rl_poisoned s'"
      "window_count st s' key = window_count st s key + 1"
    using check_and_record_spec [OF Suc.prems(1) minute_fits, of "tw_clock W k" key 5] lt st by auto
  have "unat (window_count st s' key) = Suc (unat (window_count st s key))" using s'(3) unat_Suc_below [OF lt] by simp
  with Suc.IH [OF s'(2), of "Suc k"] Suc.prems(2) s'(1) show ?case by simp
qed simp

lemma rate_limit_enforces_window_passes:
  assumes "\<forall>k. window_start (tw_clock W k) 60 = st"
  shows "rate_limit_enforces_window W = Some ()"
proof -
  let ?k = "str_bytes ''test-principal''"
  have "unat (window_count st rate_limit_new ?k) + 5 \<le> 5" by (simp add: window_count_def rate_limit_new_def)
  then obtain s where s: "rate_allow W ?k 0 5 rate_limit_new = Some s" "\<not> rl_poisoned s" "unat (window_count st s ?k) = 5"
    using rate_allow_spec [OF assms, of rate_limit_new ?k 5 0] by (auto simp: rate_limit_new_def window_count_def)
  have "\<not> window_count st s ?k < 5" using s(3) by (simp add: word_less_nat_alt)
  then obtain s' where "check_and_record (tw_clock W 5) s ?k 5 60 = Some (Inr False, s')"
    using check_and_record_spec [OF s(2) minute_fits, of "tw_clock W 5" ?k 5] assms by auto
  with s(1) show ?thesis by (simp add: rate_limit_enforces_window_def Let_def)
qed

section \<open>Policies\<close>

definition make_chain :: "test_world \<Rightarrow> nat \<Rightarrow> u64 \<Rightarrow> dyolo_chain option" where
  "make_chain W d ttl = do {
     let E = tw_ext W;
     tree \<leftarrow> unwrap (tree_build E [intent_hash E ''trade.equity'' []]);
     let scope = tree_root tree;
     expiry \<leftarrow> checked_add 1700000000 ttl;
     hand_out E (tw_key W) (\<lambda>k. tw_pk W (Suc k)) (\<lambda>k b. b) (tw_nonce W) scope 1700000000 expiry 0 d (chain_new (tw_pk W 0) scope)
   }"

definition depth_policy_enforced :: "test_world \<Rightarrow> unit option" where
  "depth_policy_enforced W = do {
     chain \<leftarrow> make_chain W 3 3600;
     _ \<leftarrow> require (\<not> is_ok (check_chain (policy_max_chain_depth 2 (policy_new ''test'')) chain));
     require (is_ok (check_chain (policy_max_chain_depth 5 (policy_new ''test'')) chain))
   }"

definition ttl_policy_enforced :: "test_world \<Rightarrow> unit option" where
  "ttl_policy_enforced W = do {
     chain \<leftarrow> make_chain W 1 7200;
     require (\<not> is_ok (check_chain (policy_max_ttl_secs 3600 (policy_new ''test'')) chain))
   }"

definition capability_set_prefix_matching :: "unit option" where
  "capability_set_prefix_matching = do {
     let caps = capset_allow ''query'' (capset_allow ''trade.'' capset_new);
     _ \<leftarrow> require (permits caps ''trade.equity'');
     _ \<leftarrow> require (permits caps ''trade.fx'');
     _ \<leftarrow> require (permits caps ''query'');
     require (\<not> permits caps ''admin.delete'')
   }"

definition wildcard_permits_all :: "unit option" where
  "wildcard_permits_all = require (permits capset_wildcard ''anything.at.all'')"

definition intent_checked_against_capabilities :: "unit option" where
  "intent_checked_against_capabilities = do {
     let policy = policy_capabilities (capset_allow ''trade.equity'' capset_new) (policy_new ''test'');
     allowed \<leftarrow> unwrap (intent_new ''trade.equity'');
     forbidden \<leftarrow> unwrap (intent_new ''admin.delete'');
     _ \<leftarrow> require (is_ok (check_intent policy allowed));
     require (\<not> is_ok (check_intent policy forbidden))
   }"

lemma make_chain_Some:
  assumes "checked_add 1700000000 ttl = Some e" "1700000000 < e"
  obtains c where "make_chain W d ttl = Some c" "length (certs c) = d" "\<forall>x\<in>set (certs c). issued_at x = 1700000000 \<and> expiration_unix x = e"
proof -
  let ?h = "intent_hash (tw_ext W) ''trade.equity'' []"
  obtain c where "hand_out (tw_ext W) (tw_key W) (\<lambda>k. tw_pk W (Suc k)) (\<lambda>k b. b) (tw_nonce W) ?h 1700000000 e 0 d (chain_new (tw_pk W 0) ?h) = Some c"
      "length (certs c) = d" "\<forall>x\<in>set (certs c). issued_at x = 1700000000 \<and> expiration_unix x = e"
    using hand_out_spec [OF keeps_window_simps(1) assms(2), where n = d and k = 0] by fastforce
  then show ?thesis using that assms(1) by (simp add: make_chain_def tree_build_one Let_def)
qed

lemma depth_policy_enforced_passes: "depth_policy_enforced W = Some ()"
proof -
  obtain c where c: "make_chain W 3 3600 = Some c" "length (certs c) = 3" "\<forall>x\<in>set (certs c). issued_at x = 1700000000 \<and> expiration_unix x = 1700003600"
    by (rule make_chain_Some [of 3600 1700003600 W 3]) (simp_all add: checked_add_def)
  have "certs c \<noteq> []" using c(2) by auto
  then show ?thesis
    using c(1,2) check_chain_limits [OF refl refl _ _ c(3)] by (simp add: depth_policy_enforced_def policy_defs)
qed

lemma ttl_policy_enforced_passes: "ttl_policy_enforced W = Some ()"
proof -
  obtain c where c: "make_chain W 1 7200 = Some c" "length (certs c) = 1" "\<forall>x\<in>set (certs c). issued_at x = 1700000000 \<and> expiration_unix x = 1700007200"
    by (rule make_chain_Some [of 7200 1700007200 W 1]) (simp_all add: checked_add_def)
  have "certs c \<noteq> []" using c(2) by auto
  then show ?thesis
    using c(1) check_chain_limits [OF refl refl _ _ c(3)] by (simp add: ttl_policy_enforced_def policy_defs)
qed

lemma capability_tests_pass:
  "capability_set_prefix_matching = Some ()" "wildcard_permits_all = Some ()" "intent_checked_against_capabilities = Some ()"
  by code_simp+

section \<open>Chains\<close>

definition unit_trade :: "ext \<Rightarrow> bytes" where
  "unit_trade E = intent_hash E ''TRADE_AAPL_100'' (str_bytes ''limit=182.50'')"

definition unit_query :: "ext \<Rightarrow> bytes" where
  "unit_query E = intent_hash E ''QUERY_PORTFOLIO'' []"

definition chain_setup :: "ext \<Rightarrow> intent_tree option" where
  "chain_setup E = unwrap (tree_build E [unit_trade E, unit_query E])"

definition two_hop_chain :: "test_world \<Rightarrow> bytes \<Rightarrow> u64 \<Rightarrow> dyolo_chain option" where
  "two_hop_chain W scope now = do {
     expiry \<leftarrow> checked_add now 3600;
     ca \<leftarrow> builder_sign (tw_ext W) (tw_key W 0) (builder_new (tw_nonce W 0) (tw_pk W 1) scope now expiry);
     cb \<leftarrow> builder_sign (tw_ext W) (tw_key W 1) (builder_new (tw_nonce W 1) (tw_pk W 2) scope now expiry);
     Some (chain_push cb (chain_push ca (chain_new (tw_pk W 0) scope)))
   }"

definition full_delegation_chain_succeeds :: "test_world \<Rightarrow> unit option" where
  "full_delegation_chain_succeeds W = do {
     tree \<leftarrow> chain_setup (tw_ext W);
     let trade = unit_trade (tw_ext W);
     pf \<leftarrow> unwrap (tree_prove tree trade);
     chain \<leftarrow> two_hop_chain W (tree_root tree) 1700000000;
     receipt \<leftarrow> unwrap (fst (authorize_mem W 1700000000 0 (tw_pk W 2) trade pf mem_rev_new chain mem_nonce_new));
     _ \<leftarrow> require (chain_depth receipt = 2);
     _ \<leftarrow> require (receipt_intent receipt = trade);
     require (receipt_namespace receipt = None)
   }"

definition batch_authorize_all_or_nothing :: "test_world \<Rightarrow> unit option" where
  "batch_authorize_all_or_nothing W = do {
     let E = tw_ext W;
     tree \<leftarrow> chain_setup E;
     t_proof \<leftarrow> unwrap (tree_prove tree (unit_trade E));
     q_proof \<leftarrow> unwrap (tree_prove tree (unit_query E));
     chain \<leftarrow> two_hop_chain W (tree_root tree) 1700000000;
     let res = fst (authorize_batch E (tw_pk W 2) [(unit_trade E, t_proof), (unit_query E, q_proof)] 1700000000 1700000000
       (mem_is_revoked mem_rev_new) (mem_try_consume_batch (tw_clock W 0)) chain mem_nonce_new);
     _ \<leftarrow> require (all_authorized res);
     require (authorized_count res = 2)
   }"

definition chain_fingerprint_stable :: "test_world \<Rightarrow> unit option" where
  "chain_fingerprint_stable W = do {
     tree \<leftarrow> chain_setup (tw_ext W);
     chain \<leftarrow> two_hop_chain W (tree_root tree) 1700000000;
     let clone = \<lparr>principal_pk = principal_pk chain, principal_scope = principal_scope chain, certs = certs chain,
       drift_tolerance_secs = drift_tolerance_secs chain, namespace = namespace chain\<rparr>;
     require (fingerprint (tw_ext W) chain = fingerprint (tw_ext W) clone)
   }"

text \<open>The adapters run their calls as tasks that are joined.\<close>

definition authorize_async_succeeds :: "test_world \<Rightarrow> unit option" where
  "authorize_async_succeeds W = do {
     tree \<leftarrow> chain_setup (tw_ext W);
     let trade = unit_trade (tw_ext W);
     pf \<leftarrow> unwrap (tree_prove tree trade);
     chain \<leftarrow> two_hop_chain W (tree_root tree) 1700000000;
     receipt \<leftarrow> unwrap (fst (authorize_async (tw_ext W) (tw_rnd W) (tw_pk W 2) trade pf 1700000000 (tw_clock W 1)
       (adapt_is_revoked (\<lambda>_. None) (mem_is_revoked mem_rev_new)) (adapt_consume None (mem_try_consume_batch (tw_clock W 0))) chain mem_nonce_new));
     require (chain_depth receipt = 2)
   }"

lemma chain_setup_cases:
  obtains t where "chain_setup E = Some t" "tree_build E [unit_trade E, unit_query E] = Inr t"
    "\<And>h. h = unit_trade E \<or> h = unit_query E \<Longrightarrow> \<exists>p. tree_prove t h = Inr p \<and> intent_authorized E p h (tree_root t)"
proof -
  obtain t where t: "tree_build E [unit_trade E, unit_query E] = Inr t" using tree_build_nonempty [of "[unit_trade E, unit_query E]" E] by auto
  show ?thesis by (rule that [OF _ t]) (use tree_prove_complete [OF t] t in \<open>auto simp: chain_setup_def intent_authorized_merkle\<close>)
qed

abbreviation unit_chain :: "test_world \<Rightarrow> bytes \<Rightarrow> dyolo_chain" where
  "unit_chain W scope \<equiv> two_hops (tw_ext W) (tw_key W 0) (tw_key W 1) (tw_pk W 2) scope scope full_passthrough (tw_nonce W 0) (tw_nonce W 1) 1700000000 1700003600 16"

lemma two_hop_chain_Some: "two_hop_chain W scope 1700000000 = Some (unit_chain W scope)"
  by (simp add: two_hop_chain_def checked_add_def builder_sign_issue two_hops_def)

lemma unit_chain_valid:
  assumes "world_ok W" "intent_authorized (tw_ext W) p h scope"
  shows "chain_valid (tw_ext W) (tw_pk W 2) h p 1700000000 15 (unit_chain W scope)"
proof (rule two_hops_valid)
  show "tw_nonce W 0 \<noteq> tw_nonce W 1" using world_distinct(2) [OF assms(1)] by simp
  show "(1700000000 :: u64) \<le> sat_add 1700000000 15" by (rule sat_add_ge)
  show "sat_sub 1700000000 15 \<le> (1700003600 :: u64)" by (simp add: word_le_nat_alt unat_sat_sub)
qed (use assms in simp_all)

lemma unit_chain_authorized:
  assumes "world_ok W" "intent_authorized (tw_ext W) p h scope"
  shows "fst (authorize_mem W 1700000000 k (tw_pk W 2) h p mem_rev_new (unit_chain W scope) mem_nonce_new)
    = Inr (receipt_for (tw_ext W) 1700000000 h (unit_chain W scope))"
proof -
  have "chain_valid (tw_ext W) (tw_pk W 2) h p 1700000000 (drift_tolerance_secs (unit_chain W scope)) (unit_chain W scope)"
    using unit_chain_valid [OF assms] by simp
  from authorize_mem_outcome [OF assms(1) new_stores(1,2) this, of k h p] assms(2) show ?thesis by (simp add: prod_eq_iff)
qed

lemma clone_same:
  "\<lparr>principal_pk = principal_pk c, principal_scope = principal_scope c, certs = certs c,
     drift_tolerance_secs = drift_tolerance_secs c, namespace = namespace c\<rparr> = c"
  by simp

lemma chain_tests_pass:
  assumes W: "world_ok W"
  shows "full_delegation_chain_succeeds W = Some ()" "batch_authorize_all_or_nothing W = Some ()"
    "chain_fingerprint_stable W = Some ()" "authorize_async_succeeds W = Some ()"
proof -
  let ?E = "tw_ext W"
  have bc: "batch_complete ?E" "batch_sound ?E" using W by (simp_all add: world_ok_def)
  obtain t where t: "chain_setup ?E = Some t"
    "\<And>h. h = unit_trade ?E \<or> h = unit_query ?E \<Longrightarrow> \<exists>p. tree_prove t h = Inr p \<and> intent_authorized ?E p h (tree_root t)"
    by (rule chain_setup_cases [of ?E]) blast
  obtain tp where tp: "tree_prove t (unit_trade ?E) = Inr tp" "intent_authorized ?E tp (unit_trade ?E) (tree_root t)"
    using t(2) [of "unit_trade ?E"] by auto
  obtain qp where qp: "tree_prove t (unit_query ?E) = Inr qp" "intent_authorized ?E qp (unit_query ?E) (tree_root t)"
    using t(2) [of "unit_query ?E"] by auto
  let ?c = "unit_chain W (tree_root t)" and ?xs = "[(unit_trade (tw_ext W), tp), (unit_query (tw_ext W), qp)]"
  have ns: "namespace ?c = None" by (simp add: two_hops_def chain_push_def chain_new_def)
  note a = unit_chain_authorized [OF W tp(2), of 0]
  show "full_delegation_chain_succeeds W = Some ()"
    by (simp add: full_delegation_chain_succeeds_def t(1) tp(1) two_hop_chain_Some a Let_def receipt_for_def receipt_of_def ns
        del: One_nat_def)
  have "chain_valid ?E (tw_pk W 2) (unit_trade ?E) tp 1700000000 (drift_tolerance_secs ?c) ?c" using unit_chain_valid [OF W tp(2)] by simp
  then obtain s' where "authorize_batch ?E (tw_pk W 2) ?xs 1700000000 1700000000 (mem_is_revoked mem_rev_new) (mem_try_consume_batch (tw_clock W 0)) ?c mem_nonce_new
      = (\<lparr>receipts = map (\<lambda>x. Some (receipt_of ?c (result_of ?E 1700000000 ?c) (fst x) 1700000000)) ?xs, errors = replicate (length ?xs) None, all_authorized = True\<rparr>, s')"
    using mem_auth.batch_ok [OF new_stores(1) nonce_inv_new bc, of ?xs "tw_pk W 2" 1700000000 ?c "tw_clock W 0" 1700000000] tp(2) qp(2) by auto
  then show "batch_authorize_all_or_nothing W = Some ()"
    by (simp add: batch_authorize_all_or_nothing_def t(1) tp(1) qp(1) two_hop_chain_Some Let_def authorized_count_def)
  show "chain_fingerprint_stable W = Some ()" 
    unfolding chain_fingerprint_stable_def t(1) two_hop_chain_Some bind.bind_lunit Let_def clone_same by simp
  have "fst (authorize_async ?E (tw_rnd W) (tw_pk W 2) (unit_trade ?E) tp 1700000000 (tw_clock W 1)
       (adapt_is_revoked (\<lambda>_. None) (mem_is_revoked mem_rev_new)) (adapt_consume None (mem_try_consume_batch (tw_clock W 0))) ?c mem_nonce_new)
     = Inr (receipt_for ?E 1700000000 (unit_trade ?E) ?c)"
    using a unfolding adapt_joined authorize_async_def authorize_async_eq authorize_mem_def authorize_def by simp
  then show "authorize_async_succeeds W = Some ()"
    by (simp add: authorize_async_succeeds_def t(1) tp(1) two_hop_chain_Some Let_def receipt_for_def receipt_of_def)
qed

definition namespace_isolation_different_scopes :: "test_world \<Rightarrow> unit option" where
  "namespace_isolation_different_scopes W = do {
     let E = tw_ext W;
     let now = tw_clock W 0;
     let base_scope = intent_hash E ''trade'' [];
     let chain_a = with_namespace E ''tenant-a'' (chain_new (tw_pk W 0) base_scope);
     let chain_b = with_namespace E ''tenant-b'' (chain_new (tw_pk W 0) base_scope);
     _ \<leftarrow> require (principal_scope chain_a \<noteq> principal_scope chain_b);
     _ \<leftarrow> require (fingerprint E chain_a \<noteq> fingerprint E chain_b);
     let scope_a = principal_scope chain_a;
     let scope_b = principal_scope chain_b;
     expiry \<leftarrow> checked_add now 86400;
     cert_a \<leftarrow> builder_sign E (tw_key W 0) (builder_new (tw_nonce W 0) (tw_pk W 1) scope_a now expiry);
     cert_b \<leftarrow> builder_sign E (tw_key W 0) (builder_new (tw_nonce W 1) (tw_pk W 1) scope_b now expiry);
     let ca = chain_push cert_a (chain_new (tw_pk W 0) scope_a);
     _ \<leftarrow> require (is_ok (fst (authorize_mem W now 1 (tw_pk W 1) scope_a proof_default mem_rev_new ca mem_nonce_new)));
     let cb = chain_push cert_b (chain_new (tw_pk W 0) scope_b);
     _ \<leftarrow> require (is_ok (fst (authorize_mem W now 3 (tw_pk W 1) scope_b proof_default mem_rev_new cb mem_nonce_new)));
     cert_b_wrong \<leftarrow> builder_sign E (tw_key W 0) (builder_new (tw_nonce W 2) (tw_pk W 1) scope_b now expiry);
     let c_wrong = chain_push cert_b_wrong (chain_new (tw_pk W 0) scope_a);
     require (\<not> is_ok (fst (authorize_mem W now 5 (tw_pk W 1) scope_a proof_default mem_rev_new c_wrong mem_nonce_new)))
   }"

text \<open>A certificate that passes on another scope than its chain's is refused.\<close>

lemma foreign_scope_invalid:
  assumes "sr \<noteq> scope"
  shows "\<not> chain_valid E a i p now drift
    (chain_push (cert_issue E s dt sr full_passthrough nn iat e md extensions_new) (chain_new pk scope))"
  using assms by (simp add: chain_valid_def chain_push_def chain_new_def is_passthrough_def full_passthrough_def)

lemma namespace_isolation_different_scopes_passes:
  assumes W: "world_ok W"
    and scopes: "namespace_scope (tw_ext W) ''tenant-a'' (intent_hash (tw_ext W) ''trade'' []) \<noteq> namespace_scope (tw_ext W) ''tenant-b'' (intent_hash (tw_ext W) ''trade'' [])"
    and fps: "fingerprint (tw_ext W) (with_namespace (tw_ext W) ''tenant-a'' (chain_new (tw_pk W 0) (intent_hash (tw_ext W) ''trade'' [])))
      \<noteq> fingerprint (tw_ext W) (with_namespace (tw_ext W) ''tenant-b'' (chain_new (tw_pk W 0) (intent_hash (tw_ext W) ''trade'' [])))"
  shows "namespace_isolation_different_scopes W = Some ()"
proof -
  let ?E = "tw_ext W" and ?now = "tw_clock W 0"
  let ?a = "namespace_scope ?E ''tenant-a'' (intent_hash ?E ''trade'' [])" and ?b = "namespace_scope ?E ''tenant-b'' (intent_hash ?E ''trade'' [])"
  have sc: "principal_scope (with_namespace ?E ns (chain_new pk s)) = namespace_scope ?E ns s" for ns pk s
    by (simp add: with_namespace_def chain_new_def)
  obtain e where e: "checked_add ?now 86400 = Some e" using W by (simp add: checked_add_def world_ok_def)
  have w: "?now < e" "?now \<le> sat_add ?now 15" "sat_sub ?now 15 \<le> e" by (rule clock_window [OF W _ _ e]; simp)+
  have lt: "?now < e" by (rule w(1))
  let ?c = "\<lambda>s n. one_hop ?E (tw_key W 0) (tw_pk W 1) s (tw_nonce W n) ?now e 16"
  have ok: "is_ok (fst (authorize_mem W ?now k (tw_pk W 1) s proof_default mem_rev_new (?c s n) mem_nonce_new))" for k s n
    using w W by (simp add: authorize_mem_ok_iff one_hop_valid_iff)
  let ?w = "chain_push (cert_issue ?E (tw_key W 0) (tw_pk W 1) ?b full_passthrough (tw_nonce W 2) ?now e 16 extensions_new) (chain_new (tw_pk W 0) ?a)"
  have no: "\<not> is_ok (fst (authorize_mem W ?now 5 (tw_pk W 1) ?a proof_default mem_rev_new ?w mem_nonce_new))"
    using foreign_scope_invalid [OF not_sym [OF scopes]] by (simp only: authorize_mem_ok_iff [OF W new_stores(1,2)]) blast
  show ?thesis
    using ok no scopes fps
    by (simp add: namespace_isolation_different_scopes_def Let_def sc e builder_sign_issue lt one_hop_def del: One_nat_def)
qed

section \<open>Contexts\<close>

text \<open>The health check of a store that has none of its own.\<close>

definition default_health_check :: "storage_error + unit" where
  "default_health_check = Inr ()"

definition context_builder_defaults_and_authorizes :: "test_world \<Rightarrow> unit option" where
  "context_builder_defaults_and_authorizes W = do {
     let (ctx, rs, ns) = cb_build context_builder;
     let E = tw_ext W;
     let trade = intent_hash E ''trade.equity'' [];
     tree \<leftarrow> unwrap (tree_build E [trade]);
     let root = tree_root tree;
     expiry \<leftarrow> checked_add (tw_clock W 0) (86400 * 365);
     cert \<leftarrow> builder_sign E (tw_key W 0) (builder_new (tw_nonce W 0) (tw_pk W 1) root (tw_clock W 0) expiry);
     let chain = chain_push cert (with_drift_tolerance 9999999 (chain_new (tw_pk W 0) root));
     pf \<leftarrow> unwrap (tree_prove tree trade);
     let ((res, ns), event) = ctx_authorize E (tw_rnd W) ctx chain (tw_pk W 1) trade pf (tw_clock W 1) (tw_clock W 3)
       (mem_is_revoked rs) (mem_try_consume_batch (tw_clock W 2)) ns;
     require (is_ok res)
   }"

definition sync_context_health_check_returns_ok :: "unit option" where
  "sync_context_health_check_returns_ok = require (is_ok (ctx_health_check default_health_check default_health_check))"

definition health_check_returns_ok_for_memory_stores :: "unit option" where
  "health_check_returns_ok_for_memory_stores = do {
     _ \<leftarrow> require (is_ok default_health_check);
     _ \<leftarrow> require (is_ok default_health_check);
     require (is_ok default_health_check)
   }"

lemma health_checks_pass: "sync_context_health_check_returns_ok = Some ()" "health_check_returns_ok_for_memory_stores = Some ()"
  by (simp_all add: sync_context_health_check_returns_ok_def health_check_returns_ok_for_memory_stores_def default_health_check_def ctx_health_check_def)

lemma context_builder_defaults_and_authorizes_passes:
  assumes W: "world_ok W"
  shows "context_builder_defaults_and_authorizes W = Some ()"
proof -
  let ?E = "tw_ext W" and ?h = "intent_hash (tw_ext W) ''trade.equity'' []"
  obtain e where e: "checked_add (tw_clock W 0) (86400 * 365) = Some e" using W by (simp add: checked_add_def world_ok_def)
  have w2: "tw_clock W 0 < e" "tw_clock W 0 \<le> sat_add (tw_clock W 1) 9999999" "sat_sub (tw_clock W 1) 9999999 \<le> e"
  proof -
    show "tw_clock W 0 < e" by (rule clock_window [OF W _ _ e]) simp_all
    show "tw_clock W 0 \<le> sat_add (tw_clock W 1) 9999999"
      using W sat_add_ge [of "tw_clock W 1" 9999999] by (auto simp: world_ok_def intro: order_trans)
    have "unat (tw_clock W 1) < unat (tw_clock W 0) + 3600" using W by (simp add: world_ok_def)
    then show "sat_sub (tw_clock W 1) 9999999 \<le> e"
      using checked_add_unat [OF e] by (simp add: word_le_nat_alt unat_sat_sub)
  qed
  let ?c = "one_hop ?E (tw_key W 0) (tw_pk W 1) ?h (tw_nonce W 0) (tw_clock W 0) e 16"
  let ?d = "with_drift_tolerance 9999999 ?c"
  have d: "chain_push x (with_drift_tolerance t c) = with_drift_tolerance t (chain_push x c)" for x t c
    by (simp add: chain_push_def with_drift_tolerance_def)
  have cv: "chain_valid ?E a i p now drift (with_drift_tolerance t c) = chain_valid ?E a i p now drift c" for a i p now drift t c
    by (simp add: chain_valid_def with_drift_tolerance_def)
  obtain pf where pf: "tree_prove \<lparr>leaves = [?h], layers = [[?h]]\<rparr> ?h = Inr pf" "merkle_verify ?E pf ?h ?h"
    using tree_prove_complete [OF tree_build_one, of ?h ?h ?E] by auto
  have v: "chain_valid ?E (tw_pk W 1) ?h pf (tw_clock W 1) (drift_tolerance_secs ?d) ?d"
    unfolding cv using w2 W pf(2) by (simp add: one_hop_valid_iff with_drift_tolerance_def)
  have "chain_fps ?E ?d \<inter> revoked_set mem_rev_new = {}" "chain_nonces ?d \<inter> live 0 mem_nonce_new = {}" by simp_all
  then have "is_ok (fst (authorize_mem W (tw_clock W 1) 2 (tw_pk W 1) ?h pf mem_rev_new ?d mem_nonce_new))"
    using v by (simp only: authorize_mem_ok_iff [OF W new_stores(1,2)] simp_thms)
  then have ok: "is_ok (fst (fst (ctx_authorize ?E (tw_rnd W) (fst (cb_build context_builder)) ?d (tw_pk W 1) ?h pf (tw_clock W 1) (tw_clock W 3)
      (mem_is_revoked mem_rev_new) (mem_try_consume_batch (tw_clock W 2)) mem_nonce_new)))"
    by (simp add: ctx_authorize_def authorize_mem_def authorize_def cb_build_def context_builder_def)
  have b: "cb_build context_builder = (fst (cb_build context_builder), mem_rev_new, mem_nonce_new)"
    by (simp add: cb_build_def context_builder_def)
  obtain res ns ev where A: "ctx_authorize ?E (tw_rnd W) (fst (cb_build context_builder)) ?d (tw_pk W 1) ?h pf (tw_clock W 1) (tw_clock W 3)
      (mem_is_revoked mem_rev_new) (mem_try_consume_batch (tw_clock W 2)) mem_nonce_new = ((res, ns), ev)" by (metis surj_pair)
  have c: "builder_sign ?E (tw_key W 0) (builder_new (tw_nonce W 0) (tw_pk W 1) ?h (tw_clock W 0) e)
      = Some (cert_issue ?E (tw_key W 0) (tw_pk W 1) ?h full_passthrough (tw_nonce W 0) (tw_clock W 0) e 16 extensions_new)"
    using w2(1) by (simp add: builder_sign_issue)
  show ?thesis
    using ok A unfolding context_builder_defaults_and_authorizes_def
    by (subst b) (simp only: Let_def prod.case tree_build_one unwrap_simps bind.bind_lunit single_tree_root e c d pf(1)
        one_hop_def [symmetric] A fst_conv require_simps)
qed

end
