(* ===== verification/A1_MaskTests.thy ===== *)
theory A1_MaskTests
  imports A1_UnitTests
begin

text \<open>
  The unit tests of \<open>src/identity/narrowing.rs\<close>, masks of hashed names and the registry that gives each
  name a bit of its own.
\<close>

section \<open>Masks of hashed names\<close>

definition empty_is_subset_of_full :: "unit option" where
  "empty_is_subset_of_full = require (is_subset_of EMPTY FULL)"

definition full_is_not_subset_of_empty :: "unit option" where
  "full_is_not_subset_of_empty = require (\<not> is_subset_of FULL EMPTY)"

definition subset_of_itself :: "ext \<Rightarrow> unit option" where
  "subset_of_itself E = do {
     let m = from_capabilities E [''trade.equity'', ''portfolio.read''];
     require (is_subset_of m m)
   }"

definition sub_is_subset_of_parent :: "ext \<Rightarrow> unit option" where
  "sub_is_subset_of_parent E = do {
     let parent = from_capabilities E [''trade.equity'', ''portfolio.read'', ''portfolio.write''];
     let child = from_capabilities E [''trade.equity''];
     _ \<leftarrow> require (is_subset_of child parent);
     require (\<not> is_subset_of parent child)
   }"

definition escalation_detected :: "ext \<Rightarrow> unit option" where
  "escalation_detected E = do {
     let parent = from_capabilities E [''portfolio.read''];
     let child = from_capabilities E [''trade.equity''];
     require (\<not> is_ok (enforce_narrowing child parent))
   }"

definition commitment_is_stable :: "ext \<Rightarrow> unit option" where
  "commitment_is_stable E = do {
     let m = from_capabilities E [''trade.equity''];
     require (mask_commitment E m = mask_commitment E m)
   }"

definition commitment_differs_across_masks :: "ext \<Rightarrow> unit option" where
  "commitment_differs_across_masks E = do {
     let a = from_capabilities E [''trade.equity''];
     let b = from_capabilities E [''portfolio.write''];
     require (mask_commitment E a \<noteq> mask_commitment E b)
   }"

definition roundtrip_hex :: "ext \<Rightarrow> unit option" where
  "roundtrip_hex E = do {
     let m = from_capabilities E [''trade.equity'', ''audit.read''];
     m2 \<leftarrow> unwrap (mask_from_hex E (mask_to_hex E m));
     require (m = m2)
   }"

definition csv_parsing :: "ext \<Rightarrow> unit option" where
  "csv_parsing E = do {
     let m = from_csv E ''trade.equity , portfolio.read, audit.read'';
     require (m = from_capabilities E [''trade.equity'', ''portfolio.read'', ''audit.read''])
   }"

definition intersect_produces_common_bits :: "ext \<Rightarrow> unit option" where
  "intersect_produces_common_bits E = do {
     let a = from_capabilities E [''trade.equity'', ''portfolio.read''];
     let b = from_capabilities E [''trade.equity'', ''audit.read''];
     require (intersect a b = from_capabilities E [''trade.equity''])
   }"

lemma full_nonempty: "mask_bits FULL \<noteq> {}"
proof -
  have "(0 :: nat) \<in> {..<256}" by simp
  then show ?thesis unfolding mask_bits_FULL by blast
qed

lemma mask_tests_pass:
  "empty_is_subset_of_full = Some ()" "full_is_not_subset_of_empty = Some ()" "subset_of_itself E = Some ()"
  "commitment_is_stable E = Some ()" "csv_parsing E = Some ()" "hex_ok E \<Longrightarrow> roundtrip_hex E = Some ()"
  using full_nonempty
  by (simp_all add: empty_is_subset_of_full_def full_is_not_subset_of_empty_def subset_of_itself_def commitment_is_stable_def
      csv_parsing_def roundtrip_hex_def is_subset_of_iff mask_hex_roundtrip from_csv_def csv_examples Let_def)

text \<open>The others hold of names whose bits differ, which a hash to 256 bits does not promise.\<close>

lemma hashed_mask_tests_pass:
  "cap_pos E ''portfolio.read'' \<noteq> cap_pos E ''trade.equity'' \<Longrightarrow> sub_is_subset_of_parent E = Some ()"
  "cap_pos E ''trade.equity'' \<noteq> cap_pos E ''portfolio.read'' \<Longrightarrow> escalation_detected E = Some ()"
  "cap_pos E ''trade.equity'' \<noteq> cap_pos E ''portfolio.write'' \<Longrightarrow> commitments_apart E \<Longrightarrow> commitment_differs_across_masks E = Some ()"
  using masks_apart [of "from_capabilities E [''trade.equity'']" "from_capabilities E [''portfolio.write'']" E]
  by (simp_all add: sub_is_subset_of_parent_def escalation_detected_def commitment_differs_across_masks_def caps_subset_iff enforce_is_ok
      Let_def)

lemma intersect_produces_common_bits_passes:
  assumes "cap_pos E ''portfolio.read'' \<noteq> cap_pos E ''audit.read''"
  shows "intersect_produces_common_bits E = Some ()"
proof -
  have "intersect (from_capabilities E [''trade.equity'', ''portfolio.read'']) (from_capabilities E [''trade.equity'', ''audit.read''])
      = from_capabilities E [''trade.equity'']"
    by (rule mask_eqI) (use assms in auto)
  then show ?thesis by (simp add: intersect_produces_common_bits_def)
qed

section \<open>The registry\<close>

definition registry_sequential_slots :: "unit option" where
  "registry_sequential_slots = do {
     let (r0, reg) = register registry_new ''alpha'';
     s0 \<leftarrow> unwrap r0;
     let (r1, reg) = register reg ''beta'';
     s1 \<leftarrow> unwrap r1;
     let (r2, reg) = register reg ''gamma'';
     s2 \<leftarrow> unwrap r2;
     _ \<leftarrow> require (s0 = 0);
     _ \<leftarrow> require (s1 = 1);
     require (s2 = 2)
   }"

definition registry_idempotent_register :: "unit option" where
  "registry_idempotent_register = do {
     let (r0, reg) = register registry_new ''alpha'';
     s0 \<leftarrow> unwrap r0;
     let (r1, reg) = register reg ''alpha'';
     s1 \<leftarrow> unwrap r1;
     _ \<leftarrow> require (s0 = s1);
     require (registry_len reg = 1)
   }"

definition registry_build_mask_subset :: "unit option" where
  "registry_build_mask_subset = do {
     let (res, reg) = register_all registry_new [''trade.equity'', ''portfolio.read'', ''audit.read''];
     _ \<leftarrow> unwrap res;
     parent \<leftarrow> unwrap (build_mask reg [''trade.equity'', ''portfolio.read'']);
     child \<leftarrow> unwrap (build_mask reg [''trade.equity'']);
     _ \<leftarrow> require (is_subset_of child parent);
     require (\<not> is_subset_of parent child)
   }"

definition registry_rejects_unknown_capability :: "unit option" where
  "registry_rejects_unknown_capability = do {
     let (res, reg) = register registry_new ''trade.equity'';
     _ \<leftarrow> unwrap res;
     require (\<not> is_ok (build_mask reg [''portfolio.write'']))
   }"

definition registry_full_mask_covers_all :: "unit option" where
  "registry_full_mask_covers_all = do {
     let (res, reg) = register_all registry_new [''a'', ''b'', ''c''];
     _ \<leftarrow> unwrap res;
     let full = build_full_mask reg;
     a \<leftarrow> unwrap (build_mask reg [''a'']);
     b \<leftarrow> unwrap (build_mask reg [''b'']);
     c \<leftarrow> unwrap (build_mask reg [''c'']);
     _ \<leftarrow> require (is_subset_of a full);
     _ \<leftarrow> require (is_subset_of b full);
     require (is_subset_of c full)
   }"

definition caps_256 :: "string list" where
  "caps_256 = map (\<lambda>i. ''cap.'' @ dec i) [0..<256]"

definition registry_no_collisions_across_256_caps :: "unit option" where
  "registry_no_collisions_across_256_caps = do {
     let (res, reg) = register_all registry_new caps_256;
     _ \<leftarrow> unwrap res;
     for_each caps_256 (\<lambda>cap. do {
       m \<leftarrow> unwrap (build_mask reg [cap]);
       require (capacity_count m = 1)
     })
   }"

definition registry_over_256_returns_error :: "unit option" where
  "registry_over_256_returns_error = do {
     let (res, reg) = register_all registry_new caps_256;
     _ \<leftarrow> unwrap res;
     require (\<not> is_ok (fst (register reg ''one.too.many'')))
   }"

definition registry_names_in_order_matches_registration :: "unit option" where
  "registry_names_in_order_matches_registration = do {
     let names = [''gamma'', ''alpha'', ''beta'', ''delta''];
     let (res, reg) = register_all registry_new names;
     _ \<leftarrow> unwrap res;
     require (names_in_order reg = names)
   }"

definition registry_no_collision_where_hash_would_collide :: "unit option" where
  "registry_no_collision_where_hash_would_collide = do {
     let (res, reg) = register_all registry_new [''cap.0'', ''cap.1''];
     _ \<leftarrow> unwrap res;
     m0 \<leftarrow> unwrap (build_mask reg [''cap.0'']);
     m1 \<leftarrow> unwrap (build_mask reg [''cap.1'']);
     require (intersect m0 m1 = EMPTY)
   }"

text \<open>A registry that has taken distinct names, at most 256 of them, knows each of them and gives each its bit.\<close>

lemma register_all_new:
  assumes "distinct names" "length names \<le> 256"
  obtains reg where "register_all registry_new names = (Inr (), reg)" "reg_inv reg" "map fst (slots reg) = names"
    "\<And>c. reg_valid reg c \<longleftrightarrow> c \<in> set names" "\<And>cs. set cs \<subseteq> set names \<Longrightarrow> build_mask reg cs = Inr (reg_mask reg cs)"
proof -
  let ?r = "snd (register_all registry_new names)"
  have a: "fst (register_all registry_new names) = Inr ()" "map fst (slots ?r) = names"
    using register_all_distinct [OF reg_inv_new assms(1)] assms(2) by (simp_all add: registry_new_def)
  have i: "reg_inv ?r" by (rule register_all_inv [OF reg_inv_new])
  have v: "reg_valid ?r c \<longleftrightarrow> c \<in> set names" for c
  proof -
    have "set names = fst ` set (slots ?r)" using a(2) by (metis list.set_map)
    then show ?thesis using i by (simp add: reg_valid_def map_of_eq_None_iff)
  qed
  have b: "build_mask ?r cs = Inr (reg_mask ?r cs)" if "set cs \<subseteq> set names" for cs
  proof -
    have "list_all (reg_valid ?r) cs" using v that by (auto simp: list_all_iff)
    from build_mask_spec [OF this] show ?thesis by (auto simp: reg_mask_def)
  qed
  show ?thesis by (rule that [OF _ i a(2) v b]) (use a(1) in \<open>simp add: prod_eq_iff\<close>)
qed

lemma build_full_mask_bits: "mask_wf (build_full_mask r) \<and> mask_bits (build_full_mask r) = unat ` set (map snd (slots r))"
proof -
  let ?f = "\<lambda>s :: u8. (unat s div 8, unat s mod 8)"
  have "unat s < 256" for s :: u8 using unsigned_less [of s] by simp
  then have b: "fst (?f s) < 32 \<and> snd (?f s) < 8" for s
    using div_less_iff_less_mult [of 8 "unat s" 32] by simp
  have "mask_bits \<lparr>mask = replicate 32 0\<rparr> = {}" using mask_bits_EMPTY by (simp only: EMPTY_def)
  moreover have "(\<lambda>s. 8 * fst (?f s) + snd (?f s)) = unat" by (rule HOL.ext) simp
  ultimately show ?thesis
    using fold_or_bit [of "replicate 32 0" "map snd (slots r)" ?f] b
    by (simp only: build_full_mask_def from_raw_def length_replicate Un_empty_right simp_thms fst_conv snd_conv)
qed

lemma full_mask_covers:
  assumes "reg_valid r c"
  shows "is_subset_of (reg_mask r [c]) (build_full_mask r)"
proof -
  obtain s where s: "map_of (slots r) c = Some s" using assms by (auto simp: reg_valid_def)
  have v: "list_all (reg_valid r) [c]" using assms by simp
  have "reg_pos r c \<in> unat ` set (map snd (slots r))" using map_of_SomeD [OF s] s by (force simp: reg_pos_def)
  then show ?thesis
    using build_full_mask_bits [of r] registry.build_wf [OF v] registry.build_bits [OF v] by (simp add: is_subset_of_iff)
qed

text \<open>Decimal numerals are read back by their value.\<close>

definition dec_value :: "string \<Rightarrow> nat" where
  "dec_value s = foldl (\<lambda>a c. 10 * a + (of_char c - 48)) 0 s"

lemma dec_value_dec: "dec_value (dec n) = n"
proof (induction n rule: dec.induct)
  case (1 n)
  show ?case
  proof (cases "n < 10")
    case True
    then show ?thesis by (subst dec.simps) (simp add: dec_value_def of_char_of)
  next
    case False
    have "dec_value (s @ [c]) = 10 * dec_value s + (of_char c - 48)" for s c by (simp add: dec_value_def)
    then show ?thesis using 1 [OF False] False by (subst dec.simps) (simp add: of_char_of)
  qed
qed

lemma dec_eq_iff: "dec m = dec n \<longleftrightarrow> m = n"
  using dec_value_dec by metis

lemma caps_256_distinct: "distinct caps_256" "length caps_256 = 256"
  by (auto simp: caps_256_def distinct_map inj_on_def dec_eq_iff)

lemma caps_256_missing: "''one.too.many'' \<notin> set caps_256"
  by (auto simp: caps_256_def)

lemma registry_slot_tests_pass:
  "registry_sequential_slots = Some ()" "registry_idempotent_register = Some ()"
  by (simp_all add: registry_sequential_slots_def registry_idempotent_register_def register_def registry_new_def registry_len_def Let_def)

lemma registry_build_mask_subset_passes: "registry_build_mask_subset = Some ()"
proof (rule register_all_new [of "[''trade.equity'', ''portfolio.read'', ''audit.read'']"])
  fix reg assume r: "register_all registry_new [''trade.equity'', ''portfolio.read'', ''audit.read''] = (Inr (), reg)"
    and v: "\<And>c. reg_valid reg c \<longleftrightarrow> c \<in> set [''trade.equity'', ''portfolio.read'', ''audit.read'']"
    and b: "\<And>cs. set cs \<subseteq> set [''trade.equity'', ''portfolio.read'', ''audit.read''] \<Longrightarrow> build_mask reg cs = Inr (reg_mask reg cs)"
  have "build_mask reg [''trade.equity'', ''portfolio.read''] = Inr (reg_mask reg [''trade.equity'', ''portfolio.read''])"
    "build_mask reg [''trade.equity''] = Inr (reg_mask reg [''trade.equity''])" by (rule b, simp)+
  then show ?thesis
    unfolding registry_build_mask_subset_def r by (simp add: Let_def registry.subset_exact v)
qed simp_all

lemma registry_rejects_unknown_capability_passes: "registry_rejects_unknown_capability = Some ()"
  by (simp add: registry_rejects_unknown_capability_def register_def registry_new_def build_mask_def Let_def ok_or_def)

lemma registry_full_mask_covers_all_passes: "registry_full_mask_covers_all = Some ()"
proof (rule register_all_new [of "[''a'', ''b'', ''c'']"])
  fix reg assume r: "register_all registry_new [''a'', ''b'', ''c''] = (Inr (), reg)"
    and v: "\<And>c. reg_valid reg c \<longleftrightarrow> c \<in> set [''a'', ''b'', ''c'']"
    and b: "\<And>cs. set cs \<subseteq> set [''a'', ''b'', ''c''] \<Longrightarrow> build_mask reg cs = Inr (reg_mask reg cs)"
  have "build_mask reg [''a''] = Inr (reg_mask reg [''a''])" "build_mask reg [''b''] = Inr (reg_mask reg [''b''])"
    "build_mask reg [''c''] = Inr (reg_mask reg [''c''])" by (rule b, simp)+
  then show ?thesis
    unfolding registry_full_mask_covers_all_def r by (simp add: Let_def full_mask_covers v)
qed simp_all

lemma registry_no_collisions_across_256_caps_passes: "registry_no_collisions_across_256_caps = Some ()"
proof (rule register_all_new [of caps_256])
  fix reg assume r: "register_all registry_new caps_256 = (Inr (), reg)"
    and v: "\<And>c. reg_valid reg c \<longleftrightarrow> c \<in> set caps_256"
    and b: "\<And>cs. set cs \<subseteq> set caps_256 \<Longrightarrow> build_mask reg cs = Inr (reg_mask reg cs)"
  have "for_each caps_256 (\<lambda>cap. do { m \<leftarrow> unwrap (build_mask reg [cap]); require (capacity_count m = 1) }) = Some ()"
    by (rule for_each_Some) (simp add: b registry.capacity_exact v)
  then show ?thesis unfolding registry_no_collisions_across_256_caps_def r by (simp add: Let_def)
qed (simp_all add: caps_256_distinct)

lemma registry_over_256_returns_error_passes: "registry_over_256_returns_error = Some ()"
proof (rule register_all_new [of caps_256])
  fix reg assume r: "register_all registry_new caps_256 = (Inr (), reg)" "reg_inv reg" "map fst (slots reg) = caps_256"
  have n: "map_of (slots reg) ''one.too.many'' = None"
    using caps_256_missing r(3) by (metis list.set_map map_of_eq_None_iff)
  have "reg_count reg = length (map fst (slots reg))" using r(2) by (simp add: reg_inv_def)
  then have "reg_count reg = 256" unfolding r(3) caps_256_distinct(2) .
  then show ?thesis unfolding registry_over_256_returns_error_def r(1) by (simp add: register_def n)
qed (simp_all add: caps_256_distinct)

lemma registry_names_in_order_matches_registration_passes: "registry_names_in_order_matches_registration = Some ()"
proof (rule register_all_new [of "[''gamma'', ''alpha'', ''beta'', ''delta'']"])
  fix reg assume r: "register_all registry_new [''gamma'', ''alpha'', ''beta'', ''delta''] = (Inr (), reg)" "reg_inv reg"
    "map fst (slots reg) = [''gamma'', ''alpha'', ''beta'', ''delta'']"
  show ?thesis
    unfolding registry_names_in_order_matches_registration_def Let_def r(1) prod.case names_in_order_inv [OF r(2)] r(3) by simp
qed simp_all

lemma registry_no_collision_where_hash_would_collide_passes: "registry_no_collision_where_hash_would_collide = Some ()"
proof (rule register_all_new [of "[''cap.0'', ''cap.1'']"])
  fix reg assume r: "register_all registry_new [''cap.0'', ''cap.1''] = (Inr (), reg)"
    and v: "\<And>c. reg_valid reg c \<longleftrightarrow> c \<in> set [''cap.0'', ''cap.1'']"
    and b: "\<And>cs. set cs \<subseteq> set [''cap.0'', ''cap.1''] \<Longrightarrow> build_mask reg cs = Inr (reg_mask reg cs)"
  have "build_mask reg [''cap.0''] = Inr (reg_mask reg [''cap.0''])" "build_mask reg [''cap.1''] = Inr (reg_mask reg [''cap.1''])"
    by (rule b, simp)+
  then show ?thesis
    unfolding registry_no_collision_where_hash_would_collide_def r by (simp add: Let_def registry.disjoint_exact v)
qed simp_all

end
