(* ===== verification/A1_TraceTests.thy ===== *)
theory A1_TraceTests
  imports A1_MaskTests
begin

text \<open>
  The unit tests of reasoning traces and provable receipts: \<open>src/provenance.rs\<close> and
  \<open>src/identity/receipt.rs\<close>. Where a test expects a change to be seen, its lemma names the inputs on which
  the hash must not collide.
\<close>

section \<open>Traces\<close>

text \<open>What the tests ask of the hash: 32 bytes.\<close>

definition hashes32 :: "ext \<Rightarrow> bool" where
  "hashes32 E \<longleftrightarrow> hash32 E \<and> (\<forall>m. length (b3_hash E m) = 32)"

definition fake_chain_fp :: bytes where
  "fake_chain_fp = (replicate 32 0)[0 := 0xAB, 31 := 0xCD]"

definition build_trace :: "ext \<Rightarrow> bytes \<Rightarrow> nat \<Rightarrow> reasoning_trace" where
  "build_trace E fresh n = fold (\<lambda>i t. record_step E Thought (str_bytes (''step '' @ dec i)) (1700000000 + of_nat i) t)
     [0..<n] (trace_new fresh 1700000000)"

definition flip_byte :: "nat \<Rightarrow> u8 \<Rightarrow> bytes \<Rightarrow> bytes" where
  "flip_byte i b bs = bs[i := (bs ! i) XOR b]"

definition single_step_trace_finalizes :: "ext \<Rightarrow> bytes \<Rightarrow> unit option" where
  "single_step_trace_finalizes E fresh = do {
     let t = build_trace E fresh 1;
     let fp = fake_chain_fp;
     root \<leftarrow> unwrap (finalize_trace E 1700001000 fp t);
     _ \<leftarrow> require (step_count root = 1);
     require (verify_chain_binding E root fp)
   }"

definition chain_binding_fails_wrong_fp :: "ext \<Rightarrow> bytes \<Rightarrow> unit option" where
  "chain_binding_fails_wrong_fp E fresh = do {
     let t = build_trace E fresh 3;
     let fp = fake_chain_fp;
     root \<leftarrow> unwrap (finalize_trace E 1700001000 fp t);
     let wrong_fp = flip_byte 0 0xFF fp;
     require (\<not> verify_chain_binding E root wrong_fp)
   }"

definition empty_trace_returns_error :: "ext \<Rightarrow> bytes \<Rightarrow> unit option" where
  "empty_trace_returns_error E fresh =
     require (\<not> is_ok (finalize_trace E 1700001000 fake_chain_fp (trace_new fresh 1700000000)))"

definition merkle_proof_verifies_each_step :: "ext \<Rightarrow> bytes \<Rightarrow> unit option" where
  "merkle_proof_verifies_each_step E fresh =
     for_each [1, 2, 3, 4, 5, 7, 8, 9, 15, 16] (\<lambda>n. do {
       let t = build_trace E fresh n;
       root \<leftarrow> unwrap (finalize_trace E 1700001000 fake_chain_fp t);
       for_each [0..<n] (\<lambda>i. do {
         pf \<leftarrow> trace_step_proof E t i;
         require (step_proof_verify E pf root)
       })
     })"

definition step_proof_out_of_range_is_none :: "ext \<Rightarrow> bytes \<Rightarrow> unit option" where
  "step_proof_out_of_range_is_none E fresh = do {
     let t = build_trace E fresh 3;
     _ \<leftarrow> require (trace_step_proof E t 3 = None);
     require (trace_step_proof E t 100 = None)
   }"

definition tampered_step_content_fails_proof :: "ext \<Rightarrow> bytes \<Rightarrow> unit option" where
  "tampered_step_content_fails_proof E fresh = do {
     let t = build_trace E fresh 4;
     root \<leftarrow> unwrap (finalize_trace E 1700001000 fake_chain_fp t);
     pf \<leftarrow> trace_step_proof E t 2;
     let pf = pf\<lparr>sp_step := (sp_step pf)\<lparr>content_hash := flip_byte 0 1 (content_hash (sp_step pf))\<rparr>\<rparr>;
     require (\<not> step_proof_verify E pf root)
   }"

definition reordered_step_index_fails_proof :: "ext \<Rightarrow> bytes \<Rightarrow> unit option" where
  "reordered_step_index_fails_proof E fresh = do {
     let t = build_trace E fresh 4;
     root \<leftarrow> unwrap (finalize_trace E 1700001000 fake_chain_fp t);
     pf \<leftarrow> trace_step_proof E t 1;
     let pf = pf\<lparr>sp_step := (sp_step pf)\<lparr>step_index := 3\<rparr>\<rparr>;
     require (\<not> step_proof_verify E pf root)
   }"

definition different_traces_produce_different_roots :: "ext \<Rightarrow> bytes \<Rightarrow> bytes \<Rightarrow> unit option" where
  "different_traces_produce_different_roots E fresh1 fresh2 = do {
     let fp = fake_chain_fp;
     r1 \<leftarrow> unwrap (finalize_trace E 1700001000 fp (build_trace E fresh1 3));
     r2 \<leftarrow> unwrap (finalize_trace E 1700001000 fp (build_trace E fresh2 3));
     _ \<leftarrow> require (prov_trace_id r1 \<noteq> prov_trace_id r2);
     require (chain_binding r1 \<noteq> chain_binding r2)
   }"

definition tool_call_and_observation_record_metadata :: "ext \<Rightarrow> bytes \<Rightarrow> unit option" where
  "tool_call_and_observation_record_metadata E fresh = do {
     let t = record_tool_call E ''search'' (str_bytes ''AAPL price'') 1700000001 (trace_new fresh 1700000000);
     let step = last (steps t);
     _ \<leftarrow> require (step_kind step = ToolCall);
     _ \<leftarrow> require (metadata_hash step \<noteq> replicate 32 0);
     let t = record_observation E ''search'' (str_bytes ''182.50'') 1700000002 t;
     let step = last (steps t);
     _ \<leftarrow> require (step_kind step = Observation);
     require (metadata_hash step \<noteq> replicate 32 0)
   }"

definition leaf_hash_is_index_sensitive :: "ext \<Rightarrow> unit option" where
  "leaf_hash_is_index_sensitive E = do {
     let s1 = \<lparr>step_index = 0, step_kind = Thought, content_hash = replicate 32 1, timestamp = 1700000000, metadata_hash = replicate 32 0\<rparr>;
     let hash_at_0 = leaf_hash E s1;
     let s1 = s1\<lparr>step_index := 1\<rparr>;
     let hash_at_1 = leaf_hash E s1;
     require (hash_at_0 \<noteq> hash_at_1)
   }"

text \<open>The trace of \<open>n\<close> thoughts, step by step.\<close>

lemma build_trace_Suc:
  "build_trace E fresh (Suc n) = record_step E Thought (str_bytes (''step '' @ dec n)) (1700000000 + of_nat n) (build_trace E fresh n)"
  by (simp add: build_trace_def)

lemma build_trace_steps:
  "length (steps (build_trace E fresh n)) = n" "trace_nonce (build_trace E fresh n) = fresh"
  "i < n \<Longrightarrow> steps (build_trace E fresh n) ! i = \<lparr>step_index = word_of_nat i, step_kind = Thought,
     content_hash = b3_hash E (str_bytes (''step '' @ dec i)), timestamp = 1700000000 + of_nat i, metadata_hash = replicate 32 0\<rparr>"
proof -
  have "length (steps (build_trace E fresh n)) = n \<and> trace_nonce (build_trace E fresh n) = fresh
     \<and> (\<forall>i<n. steps (build_trace E fresh n) ! i = \<lparr>step_index = word_of_nat i, step_kind = Thought,
       content_hash = b3_hash E (str_bytes (''step '' @ dec i)), timestamp = 1700000000 + of_nat i, metadata_hash = replicate 32 0\<rparr>)"
  proof (induction n)
    case 0
    show ?case by (simp add: build_trace_def trace_new_def)
  next
    case (Suc n)
    then show ?case
      by (auto simp: build_trace_Suc record_step_def record_hashed_def nth_append less_Suc_eq simp del: of_nat_Suc)
  qed
  then show "length (steps (build_trace E fresh n)) = n" "trace_nonce (build_trace E fresh n) = fresh"
    "i < n \<Longrightarrow> steps (build_trace E fresh n) ! i = \<lparr>step_index = word_of_nat i, step_kind = Thought,
     content_hash = b3_hash E (str_bytes (''step '' @ dec i)), timestamp = 1700000000 + of_nat i, metadata_hash = replicate 32 0\<rparr>"
    by blast+
qed

lemma build_trace_wf: "hashes32 E \<Longrightarrow> trace_wf (build_trace E fresh n)"
  by (simp add: trace_wf_def build_trace_steps step_wf_def hashes32_def)

lemma finalize_build:
  assumes "0 < n"
  obtains r where "finalize_trace E at fp (build_trace E fresh n) = Inr r"
proof -
  have "steps (build_trace E fresh n) \<noteq> []" using build_trace_steps(1) [of E fresh n] assms by auto
  then show ?thesis using that by (simp add: finalize_trace_def Let_def)
qed

lemma trace_tests_pass:
  "single_step_trace_finalizes E fresh = Some ()" "empty_trace_returns_error E fresh = Some ()"
  "step_proof_out_of_range_is_none E fresh = Some ()"
proof -
  obtain r where r: "finalize_trace E 1700001000 fake_chain_fp (build_trace E fresh 1) = Inr r" by (rule finalize_build [of 1]) simp_all
  show "single_step_trace_finalizes E fresh = Some ()"
    using finalize_trace_Inr [OF r] r build_trace_steps(1) [of E fresh 1] by (simp add: single_step_trace_finalizes_def Let_def)
  show "empty_trace_returns_error E fresh = Some ()" by (simp add: empty_trace_returns_error_def finalize_trace_def trace_new_def)
  show "step_proof_out_of_range_is_none E fresh = Some ()"
    by (simp add: step_proof_out_of_range_is_none_def trace_step_proof_def build_trace_steps(1) Let_def)
qed

lemma merkle_proof_verifies_each_step_passes:
  assumes "hashes32 E"
  shows "merkle_proof_verifies_each_step E fresh = Some ()"
proof -
  have "(do { root \<leftarrow> unwrap (finalize_trace E 1700001000 fake_chain_fp (build_trace E fresh n));
       for_each [0..<n] (\<lambda>i. do { pf \<leftarrow> trace_step_proof E (build_trace E fresh n) i; require (step_proof_verify E pf root) }) }) = Some ()"
    if "n \<in> set [1, 2, 3, 4, 5, 7, 8, 9, 15, 16]" for n
  proof -
    have n: "0 < n" "n < 2 ^ 32" using that by auto
    obtain r where r: "finalize_trace E 1700001000 fake_chain_fp (build_trace E fresh n) = Inr r" by (rule finalize_build [OF n(1)])
    have "for_each [0..<n] (\<lambda>i. do { pf \<leftarrow> trace_step_proof E (build_trace E fresh n) i; require (step_proof_verify E pf r) }) = Some ()"
    proof (rule for_each_Some)
      fix i assume "i \<in> set [0..<n]"
      then show "do { pf \<leftarrow> trace_step_proof E (build_trace E fresh n) i; require (step_proof_verify E pf r) } = Some ()"
        using step_proof_complete [OF build_trace_wf [OF assms] _ _ r] n(2) build_trace_steps(1) [of E fresh n] by fastforce
    qed
    with r show ?thesis by simp
  qed
  then show ?thesis unfolding merkle_proof_verifies_each_step_def Let_def by (rule for_each_Some)
qed

text \<open>A step that is not the recorded one at its position has no proof that verifies.\<close>

lemma forged_step_fails:
  assumes "hashes32 E" "finalize_trace E at fp (build_trace E fresh n) = Inr r" "n < 2 ^ 32"
    and "step_wf (sp_step p)" "step_proof_trust E (build_trace E fresh n) p"
    and "unat (step_index (sp_step p)) < n \<Longrightarrow> sp_step p \<noteq> steps (build_trace E fresh n) ! unat (step_index (sp_step p))"
  shows "\<not> step_proof_verify E p r"
  using step_proof_sound [OF build_trace_wf [OF assms(1)] _ assms(2,4,5)] assms(3,6) build_trace_steps(1) [of E fresh n] by auto

lemma flip_byte_neq: "i < length bs \<Longrightarrow> b \<noteq> 0 \<Longrightarrow> flip_byte i b bs \<noteq> bs"
proof
  assume i: "i < length bs" "b \<noteq> 0" and "flip_byte i b bs = bs"
  then have "(bs ! i) XOR b = bs ! i" by (metis flip_byte_def nth_list_update_eq)
  then have "((bs ! i) XOR (bs ! i)) XOR b = 0" by (metis xor.assoc xor_self_eq)
  then show False using i(2) by simp
qed

lemma length_flip_byte [simp]: "length (flip_byte i b bs) = length bs"
  by (simp add: flip_byte_def)

lemma trace_step_proof_build:
  assumes "hashes32 E" "i < n" "n < 2 ^ 32" "finalize_trace E at fp (build_trace E fresh n) = Inr r"
  obtains p where "trace_step_proof E (build_trace E fresh n) i = Some p" "sp_step p = steps (build_trace E fresh n) ! i"
  using step_proof_complete [OF build_trace_wf [OF assms(1)] _ _ assms(4), of i] assms(2,3) build_trace_steps(1) [of E fresh n] that by auto

lemma tampered_step_content_fails_proof_passes:
  assumes "hashes32 E"
    and trust: "\<And>p. trace_step_proof E (build_trace E fresh 4) 2 = Some p \<Longrightarrow> step_proof_trust E (build_trace E fresh 4)
      (p\<lparr>sp_step := (sp_step p)\<lparr>content_hash := flip_byte 0 1 (content_hash (sp_step p))\<rparr>\<rparr>)"
  shows "tampered_step_content_fails_proof E fresh = Some ()"
proof -
  obtain r where r: "finalize_trace E 1700001000 fake_chain_fp (build_trace E fresh 4) = Inr r" by (rule finalize_build [of 4]) simp_all
  obtain p where p: "trace_step_proof E (build_trace E fresh 4) 2 = Some p" "sp_step p = steps (build_trace E fresh 4) ! 2"
    by (rule trace_step_proof_build [OF assms(1) _ _ r, of 2]) simp_all
  have s: "length (content_hash (sp_step p)) = 32" "step_index (sp_step p) = 2" "length (metadata_hash (sp_step p)) = 32"
    using assms(1) by (simp_all add: p(2) build_trace_steps hashes32_def)
  let ?p = "p\<lparr>sp_step := (sp_step p)\<lparr>content_hash := flip_byte 0 1 (content_hash (sp_step p))\<rparr>\<rparr>"
  have "content_hash (sp_step ?p) \<noteq> content_hash (sp_step p)" using flip_byte_neq [of 0 "content_hash (sp_step p)" 1] s(1) by simp
  then have "sp_step ?p \<noteq> steps (build_trace E fresh 4) ! 2" using p(2) by metis
  then have "\<not> step_proof_verify E ?p r"
    by (intro forged_step_fails [OF assms(1) r _ _ trust [OF p(1)]]) (simp_all add: step_wf_def s)
  then show ?thesis by (simp add: tampered_step_content_fails_proof_def r p(1) Let_def)
qed

lemma reordered_step_index_fails_proof_passes:
  assumes "hashes32 E"
    and trust: "\<And>p. trace_step_proof E (build_trace E fresh 4) 1 = Some p \<Longrightarrow> step_proof_trust E (build_trace E fresh 4)
      (p\<lparr>sp_step := (sp_step p)\<lparr>step_index := 3\<rparr>\<rparr>)"
  shows "reordered_step_index_fails_proof E fresh = Some ()"
proof -
  obtain r where r: "finalize_trace E 1700001000 fake_chain_fp (build_trace E fresh 4) = Inr r" by (rule finalize_build [of 4]) simp_all
  obtain p where p: "trace_step_proof E (build_trace E fresh 4) 1 = Some p" "sp_step p = steps (build_trace E fresh 4) ! 1"
    by (rule trace_step_proof_build [OF assms(1) _ _ r, of 1]) simp_all
  let ?p = "p\<lparr>sp_step := (sp_step p)\<lparr>step_index := 3\<rparr>\<rparr>"
  have s: "step_wf (sp_step ?p)" "timestamp (sp_step ?p) = 1700000001"
    using assms(1) by (simp_all add: p(2) build_trace_steps hashes32_def step_wf_def)
  have "timestamp (sp_step ?p) \<noteq> timestamp (steps (build_trace E fresh 4) ! 3)" unfolding s(2) by (simp add: build_trace_steps)
  then have "sp_step ?p \<noteq> steps (build_trace E fresh 4) ! 3" by metis
  then have "\<not> step_proof_verify E ?p r"
    by (intro forged_step_fails [OF assms(1) r _ s(1) trust [OF p(1)]]) simp_all
  then show ?thesis using p(1) by (simp add: reordered_step_index_fails_proof_def r Let_def)
qed

text \<open>Bindings and leaves are hashes of injective encodings.\<close>

definition binding_apart :: "ext \<Rightarrow> provenance_root \<Rightarrow> bytes \<Rightarrow> provenance_root \<Rightarrow> bytes \<Rightarrow> bool" where
  "binding_apart E r fp r' fp' \<longleftrightarrow>
     inj_on (b3_derive E DOMAIN_PROVENANCE_ROOT) {concat (binding_chunks r fp), concat (binding_chunks r' fp')}"

lemma compute_chain_binding_eq: "compute_chain_binding E r fp = b3_derive E DOMAIN_PROVENANCE_ROOT (concat (binding_chunks r fp))"
  by (simp add: compute_chain_binding_def h_finalize_def h_updates_eq new_derive_key_def)

lemma length_fake_chain_fp [simp]: "length fake_chain_fp = 32"
  by (simp add: fake_chain_fp_def)

lemma chain_binding_fails_wrong_fp_passes:
  assumes "\<And>r. finalize_trace E 1700001000 fake_chain_fp (build_trace E fresh 3) = Inr r \<Longrightarrow>
      binding_apart E r fake_chain_fp r (flip_byte 0 0xFF fake_chain_fp)"
  shows "chain_binding_fails_wrong_fp E fresh = Some ()"
proof -
  obtain r where r: "finalize_trace E 1700001000 fake_chain_fp (build_trace E fresh 3) = Inr r" by (rule finalize_build [of 3]) simp_all
  have ne: "flip_byte 0 0xFF fake_chain_fp \<noteq> fake_chain_fp" by (rule flip_byte_neq) simp_all
  have "compute_chain_binding E r (flip_byte 0 0xFF fake_chain_fp) \<noteq> compute_chain_binding E r fake_chain_fp"
    using assms [OF r] ne unfolding compute_chain_binding_eq binding_apart_def
    by (auto simp: inj_on_def binding_chunks_def)
  then have "\<not> verify_chain_binding E r (flip_byte 0 0xFF fake_chain_fp)"
    using finalize_trace_Inr [OF r] by (simp add: verify_chain_binding_def)
  then show ?thesis by (simp add: chain_binding_fails_wrong_fp_def r Let_def)
qed

lemma different_traces_produce_different_roots_passes:
  assumes "hash32 E" "fresh1 \<noteq> fresh2" "length fresh1 = 16" "length fresh2 = 16"
    and apart: "\<And>r1 r2. finalize_trace E 1700001000 fake_chain_fp (build_trace E fresh1 3) = Inr r1 \<Longrightarrow>
      finalize_trace E 1700001000 fake_chain_fp (build_trace E fresh2 3) = Inr r2 \<Longrightarrow> binding_apart E r1 fake_chain_fp r2 fake_chain_fp"
  shows "different_traces_produce_different_roots E fresh1 fresh2 = Some ()"
proof -
  obtain r1 where r1: "finalize_trace E 1700001000 fake_chain_fp (build_trace E fresh1 3) = Inr r1" by (rule finalize_build [of 3]) simp_all
  obtain r2 where r2: "finalize_trace E 1700001000 fake_chain_fp (build_trace E fresh2 3) = Inr r2" by (rule finalize_build [of 3]) simp_all
  note f1 = finalize_trace_Inr [OF r1] and f2 = finalize_trace_Inr [OF r2]
  have same: "steps (build_trace E fresh1 3) = steps (build_trace E fresh2 3)"
    by (intro nth_equalityI) (simp_all add: build_trace_steps)
  have "prov_trace_id r1 \<noteq> prov_trace_id r2" using f1 f2 assms(2) by (simp add: build_trace_steps(2))
  moreover have "concat (binding_chunks r1 fake_chain_fp) \<noteq> concat (binding_chunks r2 fake_chain_fp)"
    using f1 f2 assms(2-4) by (simp add: binding_chunks_def same build_trace_steps(2))
  then have "chain_binding r1 \<noteq> chain_binding r2"
    using apart [OF r1 r2] f1 f2 unfolding verify_chain_binding_def compute_chain_binding_eq binding_apart_def
    by (auto simp: inj_on_def)
  ultimately show ?thesis by (simp add: different_traces_produce_different_roots_def r1 r2 Let_def)
qed

lemma tool_call_and_observation_record_metadata_passes:
  "hash_metadata E [(''tool'', ''search'')] \<noteq> replicate 32 0 \<Longrightarrow> tool_call_and_observation_record_metadata E fresh = Some ()"
  by (simp add: tool_call_and_observation_record_metadata_def record_tool_call_def record_observation_def record_hashed_def trace_new_def)

lemma leaf_hash_is_index_sensitive_passes:
  assumes "inj_on (b3_derive E DOMAIN_PROVENANCE_LEAF) ((\<lambda>i. concat (leaf_chunks \<lparr>step_index = i, step_kind = Thought,
      content_hash = replicate 32 1, timestamp = 1700000000, metadata_hash = replicate 32 0\<rparr>)) ` {0, 1})"
  shows "leaf_hash_is_index_sensitive E = Some ()"
proof -
  let ?s = "\<lambda>i. \<lparr>step_index = i, step_kind = Thought, content_hash = replicate 32 1, timestamp = 1700000000, metadata_hash = replicate 32 0\<rparr>"
  have "concat (leaf_chunks (?s 0)) \<noteq> concat (leaf_chunks (?s 1))"
    using leaf_chunks_inj [of "?s 0" "?s 1"] by (auto simp: step_wf_def)
  then have "b3_derive E DOMAIN_PROVENANCE_LEAF (concat (leaf_chunks (?s 0))) \<noteq> b3_derive E DOMAIN_PROVENANCE_LEAF (concat (leaf_chunks (?s 1)))"
    using assms by (auto simp: inj_on_def)
  then have "leaf_hash E (?s 0) \<noteq> leaf_hash E (?s 1)"
    by (simp add: leaf_hash_def h_finalize_def h_updates_eq new_derive_key_def)
  then show ?thesis by (simp add: leaf_hash_is_index_sensitive_def Let_def)
qed

section \<open>Receipts\<close>

text \<open>\<open>Display\<close> of a provable receipt.\<close>

definition provable_display :: "ext \<Rightarrow> provable_receipt \<Rightarrow> string" where
  "provable_display E r = ''ProvableReceipt { namespace='' @ passport_namespace r @ '', depth='' @ dec (chain_depth (inner r))
     @ '', fingerprint='' @ provable_fingerprint_hex E r @ '', provenance='' @ (if has_provenance r then ''attached'' else ''none'')
     @ '', system=a1_dyolo_v2.8.0 }''"

definition dummy_receipt :: verification_receipt where
  "dummy_receipt = \<lparr>chain_depth = 1, verified_scope_root = replicate 32 0, receipt_intent = replicate 32 1,
     verified_at_unix = 1700000000, chain_fingerprint = replicate 32 2, receipt_namespace = Some ''test''\<rparr>"

definition make_receipt :: "ext \<Rightarrow> provable_receipt" where
  "make_receipt E = provable_receipt_new E dummy_receipt ''test-ns'' (from_capabilities E [''trade.equity''])"

definition commitment_roundtrip :: "ext \<Rightarrow> unit option" where
  "commitment_roundtrip E = require (verify_commitment E (make_receipt E))"

definition tampered_mask_fails_commitment :: "ext \<Rightarrow> unit option" where
  "tampered_mask_fails_commitment E = do {
     let receipt = (make_receipt E)\<lparr>capability_mask_hex := mask_to_hex E FULL\<rparr>;
     require (\<not> verify_commitment E receipt)
   }"

definition no_provenance_by_default :: "ext \<Rightarrow> unit option" where
  "no_provenance_by_default E = do {
     let receipt = make_receipt E;
     _ \<leftarrow> require (\<not> has_provenance receipt);
     require (provenance receipt = None)
   }"

definition with_provenance_attaches_root :: "ext \<Rightarrow> bytes \<Rightarrow> unit option" where
  "with_provenance_attaches_root E fresh = do {
     let receipt = make_receipt E;
     let fp = chain_fingerprint (inner receipt);
     let t = record_step E Thought (str_bytes ''analyzing the request'') 1700000001 (trace_new fresh 1700000000);
     let t = record_step E FinalAction (str_bytes ''execute trade'') 1700000002 t;
     root \<leftarrow> unwrap (finalize_trace E 1700000003 fp t);
     let receipt = with_provenance root receipt;
     _ \<leftarrow> require (has_provenance receipt);
     pr \<leftarrow> provenance receipt;
     _ \<leftarrow> require (step_count pr = 2);
     require (verify_chain_binding E pr fp)
   }"

definition bind_reasoning_trace_convenience :: "ext \<Rightarrow> bytes \<Rightarrow> unit option" where
  "bind_reasoning_trace_convenience E fresh = do {
     let t = record_step E Thought (str_bytes ''step one'') 1700000001 (trace_new fresh 1700000000);
     receipt \<leftarrow> unwrap (bind_reasoning_trace E t 1700000002 (make_receipt E));
     require (has_provenance receipt)
   }"

definition bind_empty_trace_returns_err :: "ext \<Rightarrow> bytes \<Rightarrow> unit option" where
  "bind_empty_trace_returns_err E fresh =
     require (\<not> is_ok (bind_reasoning_trace E (trace_new fresh 1700000000) 1700000001 (make_receipt E)))"

definition verify_provenance_step_without_provenance_is_false :: "ext \<Rightarrow> bytes \<Rightarrow> unit option" where
  "verify_provenance_step_without_provenance_is_false E fresh = do {
     let t = record_step E Thought (str_bytes ''only thought'') 1700000001 (trace_new fresh 1700000000);
     pf \<leftarrow> trace_step_proof E t 0;
     require (\<not> verify_provenance_step E pf (make_receipt E))
   }"

definition dquote :: "string \<Rightarrow> string" where
  "dquote s = CHR 0x22 # s @ [CHR 0x22]"

definition verify_provenance_step_roundtrip :: "ext \<Rightarrow> bytes \<Rightarrow> unit option" where
  "verify_provenance_step_roundtrip E fresh = do {
     let t = record_step E Thought (str_bytes ''checking price'') 1700000001 (trace_new fresh 1700000000);
     let t = record_tool_call E ''get_price'' (str_bytes (''{'' @ dquote ''symbol'' @ '':'' @ dquote ''AAPL'' @ ''}'')) 1700000002 t;
     let t = record_step E Observation (str_bytes ''182.50'') 1700000003 t;
     let t = record_step E FinalAction (str_bytes ''buy AAPL x10'') 1700000004 t;
     let receipt = make_receipt E;
     root \<leftarrow> unwrap (finalize_trace E 1700000005 (chain_fingerprint (inner receipt)) t);
     let receipt = with_provenance root receipt;
     for_each [0..<4] (\<lambda>i. do {
       pf \<leftarrow> trace_step_proof E t i;
       require (verify_provenance_step E pf receipt)
     })
   }"

definition tampered_step_fails_verify :: "ext \<Rightarrow> bytes \<Rightarrow> unit option" where
  "tampered_step_fails_verify E fresh = do {
     let t = record_step E Thought (str_bytes ''step a'') 1700000001 (trace_new fresh 1700000000);
     let t = record_step E Thought (str_bytes ''step b'') 1700000002 t;
     let receipt = make_receipt E;
     root \<leftarrow> unwrap (finalize_trace E 1700000003 (chain_fingerprint (inner receipt)) t);
     let receipt = with_provenance root receipt;
     pf \<leftarrow> trace_step_proof E t 0;
     let pf = pf\<lparr>sp_step := (sp_step pf)\<lparr>content_hash := flip_byte 0 0xFF (content_hash (sp_step pf))\<rparr>\<rparr>;
     require (\<not> verify_provenance_step E pf receipt)
   }"

definition display_shows_provenance_state :: "ext \<Rightarrow> bytes \<Rightarrow> unit option" where
  "display_shows_provenance_state E fresh = do {
     let receipt = make_receipt E;
     _ \<leftarrow> require (str_contains (provable_display E receipt) ''provenance=none'');
     let t = record_step E Thought (str_bytes ''x'') 1700000001 (trace_new fresh 1700000000);
     root \<leftarrow> unwrap (finalize_trace E 1700000002 (chain_fingerprint (inner receipt)) t);
     let receipt = with_provenance root receipt;
     require (str_contains (provable_display E receipt) ''provenance=attached'')
   }"

text \<open>A trace whose steps are recorded by the code verifies step by step, bound to a receipt.\<close>

lemma recorded_wf:
  "hashes32 E \<Longrightarrow> trace_wf t \<Longrightarrow> trace_wf (record_step E k c ts t)"
  "hashes32 E \<Longrightarrow> trace_wf t \<Longrightarrow> trace_wf (record_tool_call E tool c ts t)"
  by (simp_all add: record_step_def record_tool_call_def record_hashed_wf hashes32_def hash_metadata_def)

lemma recorded_length:
  "length (steps (record_step E k c ts t)) = Suc (length (steps t))" "length (steps (record_tool_call E tool c ts t)) = Suc (length (steps t))"
  "steps (trace_new fresh ts) = []"
  by (simp_all add: record_step_def record_tool_call_def record_hashed_def trace_new_def)

lemma recorded_ne [simp]: "steps (record_step E k c ts t) \<noteq> []"
  by (simp add: record_step_def record_hashed_def)

lemma finalize_recorded:
  assumes "steps t \<noteq> []"
  obtains r where "finalize_trace E at fp t = Inr r" "verify_chain_binding E r fp" "step_count r = word_of_nat (length (steps t))"
proof -
  obtain r where r: "finalize_trace E at fp t = Inr r" using assms by (simp add: finalize_trace_def Let_def)
  with finalize_trace_Inr [OF r] show ?thesis using that by blast
qed

lemma with_provenance_sels [simp]:
  "provenance (with_provenance root r) = Some root" "has_provenance (with_provenance root r)"
  "inner (with_provenance root r) = inner r" "passport_namespace (with_provenance root r) = passport_namespace r"
  by (simp_all add: with_provenance_def has_provenance_def)

lemma make_receipt_sels [simp]: "\<not> has_provenance (make_receipt E)" "provenance (make_receipt E) = None"
  by (simp_all add: make_receipt_def provable_receipt_new_def has_provenance_def)

lemma receipt_tests_pass:
  "hex_ok E \<Longrightarrow> commitment_roundtrip E = Some ()" "no_provenance_by_default E = Some ()"
  "hex_ok E \<Longrightarrow> commitments_apart E \<Longrightarrow> tampered_mask_fails_commitment E = Some ()"
  "bind_empty_trace_returns_err E fresh = Some ()" "verify_provenance_step_without_provenance_is_false E fresh = Some ()"
proof -
  show "commitment_roundtrip E = Some ()" if "hex_ok E"
    using that by (simp add: commitment_roundtrip_def make_receipt_def verify_commitment_new)
  show "no_provenance_by_default E = Some ()" by (simp add: no_provenance_by_default_def Let_def)
  show "tampered_mask_fails_commitment E = Some ()" if "hex_ok E" "commitments_apart E"
    using full_mask_tamper_seen [OF that, of "[''trade.equity'']" "make_receipt E"]
    by (simp add: tampered_mask_fails_commitment_def make_receipt_def provable_receipt_new_def Let_def)
  show "bind_empty_trace_returns_err E fresh = Some ()"
    by (simp add: bind_empty_trace_returns_err_def bind_reasoning_trace_def finalize_trace_def recorded_length)
  show "verify_provenance_step_without_provenance_is_false E fresh = Some ()"
    by (simp add: verify_provenance_step_without_provenance_is_false_def trace_step_proof_def recorded_length verify_provenance_step_def Let_def)
qed

lemma provenance_attachment_passes:
  "with_provenance_attaches_root E fresh = Some ()" "bind_reasoning_trace_convenience E fresh = Some ()"
proof -
  let ?t = "record_step E FinalAction (str_bytes ''execute trade'') 1700000002
    (record_step E Thought (str_bytes ''analyzing the request'') 1700000001 (trace_new fresh 1700000000))"
  have "steps ?t \<noteq> []" by simp
  then obtain r where "finalize_trace E 1700000003 (chain_fingerprint (inner (make_receipt E))) ?t = Inr r"
      "verify_chain_binding E r (chain_fingerprint (inner (make_receipt E)))" "step_count r = word_of_nat (length (steps ?t))"
    by (rule finalize_recorded)
  then show "with_provenance_attaches_root E fresh = Some ()"
    by (simp add: with_provenance_attaches_root_def Let_def recorded_length)
  let ?u = "record_step E Thought (str_bytes ''step one'') 1700000001 (trace_new fresh 1700000000)"
  have "steps ?u \<noteq> []" by simp
  then obtain r where "finalize_trace E 1700000002 (chain_fingerprint (inner (make_receipt E))) ?u = Inr r" by (rule finalize_recorded)
  then show "bind_reasoning_trace_convenience E fresh = Some ()"
    by (simp add: bind_reasoning_trace_convenience_def bind_reasoning_trace_def Let_def)
qed

lemma verify_provenance_step_roundtrip_passes:
  assumes "hashes32 E"
  shows "verify_provenance_step_roundtrip E fresh = Some ()"
proof -
  let ?t = "record_step E FinalAction (str_bytes ''buy AAPL x10'') 1700000004 (record_step E Observation (str_bytes ''182.50'') 1700000003
    (record_tool_call E ''get_price'' (str_bytes (''{'' @ dquote ''symbol'' @ '':'' @ dquote ''AAPL'' @ ''}'')) 1700000002
      (record_step E Thought (str_bytes ''checking price'') 1700000001 (trace_new fresh 1700000000))))"
  define t where "t = ?t"
  have wf: "trace_wf t" unfolding t_def by (intro recorded_wf assms trace_new_wf)
  have len: "length (steps t) = 4" unfolding t_def recorded_length by simp
  then have "steps t \<noteq> []" by auto
  then obtain r where r: "finalize_trace E 1700000005 (chain_fingerprint (inner (make_receipt E))) t = Inr r" by (rule finalize_recorded)
  have "for_each [0..<4] (\<lambda>i. do { pf \<leftarrow> trace_step_proof E t i; require (verify_provenance_step E pf (with_provenance r (make_receipt E))) }) = Some ()"
  proof (rule for_each_Some)
    fix i :: nat assume "i \<in> set [0..<4]"
    then show "do { pf \<leftarrow> trace_step_proof E t i; require (verify_provenance_step E pf (with_provenance r (make_receipt E))) } = Some ()"
      using step_proof_complete [OF wf _ _ r, of i] len by (auto simp: verify_provenance_step_def)
  qed
  then show ?thesis
    unfolding verify_provenance_step_roundtrip_def Let_def t_def [symmetric] r unwrap_simps bind.bind_lunit .
qed

lemma tampered_step_fails_verify_passes:
  assumes "hashes32 E"
    and t: "t = record_step E Thought (str_bytes ''step b'') 1700000002 (record_step E Thought (str_bytes ''step a'') 1700000001 (trace_new fresh 1700000000))"
    and trust: "\<And>p. trace_step_proof E t 0 = Some p \<Longrightarrow>
      step_proof_trust E t (p\<lparr>sp_step := (sp_step p)\<lparr>content_hash := flip_byte 0 0xFF (content_hash (sp_step p))\<rparr>\<rparr>)"
  shows "tampered_step_fails_verify E fresh = Some ()"
proof -
  have wf: "trace_wf t" unfolding t by (intro recorded_wf assms trace_new_wf)
  have len: "length (steps t) = 2" unfolding t recorded_length by simp
  then have "steps t \<noteq> []" by auto
  then obtain r where r: "finalize_trace E 1700000003 (chain_fingerprint (inner (make_receipt E))) t = Inr r" by (rule finalize_recorded)
  obtain p where p: "trace_step_proof E t 0 = Some p" "sp_step p = steps t ! 0"
    using step_proof_complete [OF wf _ _ r, of 0] len by auto
  have s: "step_index (sp_step p) = 0" "step_wf (sp_step p)" using wf len p(2) by (auto simp: trace_wf_def)
  let ?p = "p\<lparr>sp_step := (sp_step p)\<lparr>content_hash := flip_byte 0 0xFF (content_hash (sp_step p))\<rparr>\<rparr>"
  have "content_hash (sp_step ?p) \<noteq> content_hash (sp_step p)"
    using flip_byte_neq [of 0 "content_hash (sp_step p)" "0xFF"] s(2) by (cases "content_hash (sp_step p)") (simp_all add: step_wf_def)
  then have ne: "sp_step ?p \<noteq> steps t ! 0" using p(2) by metis
  have wf': "step_wf (sp_step ?p)" "step_index (sp_step ?p) = 0" using s by (simp_all add: step_wf_def)
  have "\<not> step_proof_verify E ?p r"
    using step_proof_sound [OF wf _ r wf'(1) trust [OF p(1)]] len ne wf'(2) by auto
  then show ?thesis
    unfolding tampered_step_fails_verify_def Let_def t [symmetric] r unwrap_simps bind.bind_lunit p(1)
    by (simp add: verify_provenance_step_def)
qed

lemma contains_middle: "str_contains (a @ t @ b) t"
proof (induction a)
  case Nil
  have "starts_with (t @ b) t" by simp
  then show ?case by (cases "t @ b") simp_all
next
  case (Cons c a)
  then show ?case by simp
qed

lemma display_shows_provenance_state_passes: "display_shows_provenance_state E fresh = Some ()"
proof -
  let ?t = "record_step E Thought (str_bytes ''x'') 1700000001 (trace_new fresh 1700000000)"
  have "steps ?t \<noteq> []" by simp
  then obtain r where r: "finalize_trace E 1700000002 (chain_fingerprint (inner (make_receipt E))) ?t = Inr r" by (rule finalize_recorded)
  have state: "str_contains (provable_display E x) (''provenance='' @ (if has_provenance x then ''attached'' else ''none''))" for x
  proof -
    have "provable_display E x = (''ProvableReceipt { namespace='' @ passport_namespace x @ '', depth='' @ dec (chain_depth (inner x))
        @ '', fingerprint='' @ provable_fingerprint_hex E x @ '', '') @ (''provenance='' @ (if has_provenance x then ''attached'' else ''none''))
        @ '', system=a1_dyolo_v2.8.0 }''" by (simp add: provable_display_def)
    then show ?thesis using contains_middle by metis
  qed
  from state [of "make_receipt E"] state [of "with_provenance r (make_receipt E)"]
  have "str_contains (provable_display E (make_receipt E)) ''provenance=none''"
    "str_contains (provable_display E (with_provenance r (make_receipt E))) ''provenance=attached''" by simp_all
  then show ?thesis
    unfolding display_shows_provenance_state_def Let_def r unwrap_simps bind.bind_lunit by simp
qed

end
