(* ===== verification/A1_SealTests.thy ===== *)
theory A1_SealTests
  imports A1_TraceTests A1_Zk A1_Hybrid A1_Did A1_Demo
begin

text \<open>
  The unit tests of the signed messages: \<open>src/negotiate.rs\<close>, \<open>src/zk.rs\<close>, \<open>src/anchor.rs\<close>, \<open>src/did.rs\<close>
  and \<open>src/hybrid.rs\<close>. The clock of these tests is a constant. Where a test changes what was signed, its lemma
  says on which two inputs hash and signature are trusted (\<open>unforged\<close>).
\<close>

unbundle bit_operations_syntax

section \<open>What the tests share\<close>

text \<open>Keys and signatures have their lengths, \<open>hex\<close> writes two digits a byte, nonces and hashes have 16 and 32 bytes.\<close>

definition seal_world :: "test_world \<Rightarrow> bool" where
  "seal_world W \<longleftrightarrow> hex_ok (tw_ext W) \<and> hash32 (tw_ext W) \<and> (\<forall>b. length (hex_enc (tw_ext W) b) = 2 * length b)
     \<and> (\<forall>k. signer_wf (tw_ext W) (tw_key W k)) \<and> (\<forall>k. length (tw_nonce W k) = 16)"

lemma seal_worldD:
  assumes "seal_world W"
  shows "hex_ok (tw_ext W)" "hash32 (tw_ext W)" "length (hex_enc (tw_ext W) b) = 2 * length b"
    "signer_wf (tw_ext W) (tw_key W k)" "length (tw_nonce W k) = 16" "length (tw_pk W k) = 32"
    "hex_dec (tw_ext W) (hex_enc (tw_ext W) b) = Some b" "signer_ok (tw_ext W) (tw_key W k)"
  using assms by (auto simp: seal_world_def hex_ok_def signer_wf_def)

text \<open>The two digests differ, and the signature of the first is not one of the second.\<close>

definition unforged :: "ext \<Rightarrow> signer \<Rightarrow> hasher \<Rightarrow> hasher \<Rightarrow> bool" where
  "unforged E S g h \<longleftrightarrow> hash_binds E g h
     \<and> (ed_verify E (verifying_key S) (h_finalize E h) (sign_message S (h_finalize E g)) \<longrightarrow> h_finalize E g = h_finalize E h)"

lemma unforgedD:
  "unforged E S g h \<Longrightarrow> g \<noteq> h \<Longrightarrow> \<not> ed_verify E (verifying_key S) (h_finalize E h) (sign_message S (h_finalize E g))"
  by (auto simp: unforged_def hash_binds_def)

lemma updates_neq: "concat xs \<noteq> concat ys \<Longrightarrow> h_updates g xs \<noteq> h_updates g ys"
  using h_updates_inj by blast

section \<open>Negotiation\<close>

text \<open>Nonces: 0 of the certificate, 1 of the request, 2 of the offer. Keys: 0 of the requester, 1 of the offerer.\<close>

abbreviation test_request :: "test_world \<Rightarrow> string list \<Rightarrow> string \<Rightarrow> capability_request" where
  "test_request W caps name \<equiv> request_build (tw_ext W) (tw_nonce W 1) (tw_key W 0) caps name 3600 1700000000"

definition capability_request_sign_verify :: "test_world \<Rightarrow> (bytes \<Rightarrow> string) \<Rightarrow> unit option" where
  "capability_request_sign_verify W pk_msg = do {
     let req = test_request W [''trade.equity'', ''portfolio.read''] ''trade.equity'';
     vk \<leftarrow> unwrap (request_verify (tw_ext W) pk_msg req);
     require (vk = tw_pk W 0)
   }"

definition capability_request_tampered_fails :: "test_world \<Rightarrow> (bytes \<Rightarrow> string) \<Rightarrow> unit option" where
  "capability_request_tampered_fails W pk_msg = do {
     let req = test_request W [''trade.equity''] ''trade.equity'';
     let req = req\<lparr>requested_capabilities := requested_capabilities req @ [''admin.everything'']\<rparr>;
     require (\<not> is_ok (request_verify (tw_ext W) pk_msg req))
   }"

definition capability_request_freshness :: "test_world \<Rightarrow> unit option" where
  "capability_request_freshness W = do {
     let now = 1700000000;
     let req = test_request W [''read''] ''read'';
     _ \<leftarrow> require (is_ok (verify_freshness (now + 60) 300 req));
     require (\<not> is_ok (verify_freshness (now + 400) 300 req))
   }"

text \<open>The certificate that is offered: the offerer's, for the requester.\<close>

definition offered_cert :: "test_world \<Rightarrow> string \<Rightarrow> delegation_cert option" where
  "offered_cert W a = do {
     intent \<leftarrow> intent_named (tw_ext W) a;
     expiry \<leftarrow> checked_add 1700000000 3600;
     builder_sign (tw_ext W) (tw_key W 1) (builder_new (tw_nonce W 0) (tw_pk W 0) intent 1700000000 expiry)
   }"

definition full_negotiation_handshake :: "test_world \<Rightarrow> (bytes \<Rightarrow> string) \<Rightarrow> unit option" where
  "full_negotiation_handshake W pk_msg = do {
     let E = tw_ext W;
     cert \<leftarrow> offered_cert W ''trade.equity'';
     let req = test_request W [''trade.equity''] ''trade.equity'';
     _ \<leftarrow> unwrap (request_verify E pk_msg req);
     offer \<leftarrow> unwrap (offer_build E (tw_nonce W 2) (tw_key W 1) req cert 1700000000 120);
     _ \<leftarrow> unwrap (offer_verify E pk_msg offer);
     acceptance \<leftarrow> unwrap (acceptance_build E (tw_key W 0) offer (1700000000 + 1));
     _ \<leftarrow> unwrap (acceptance_verify E pk_msg acceptance);
     Some ()
   }"

definition offer_tampered_cert_fails_signature :: "test_world \<Rightarrow> (bytes \<Rightarrow> string) \<Rightarrow> unit option" where
  "offer_tampered_cert_fails_signature W pk_msg = do {
     let E = tw_ext W;
     cert \<leftarrow> offered_cert W ''read'';
     let req = test_request W [''read''] ''read'';
     offer \<leftarrow> unwrap (offer_build E (tw_nonce W 2) (tw_key W 1) req cert 1700000000 120);
     let offer = offer\<lparr>offer_nonce := hex_enc E (replicate 16 0)\<rparr>;
     require (\<not> is_ok (offer_verify E pk_msg offer))
   }"

lemma offered_cert_Some: "a \<noteq> [] \<Longrightarrow> length a \<le> 256 \<Longrightarrow> \<exists>c. offered_cert W a = Some c"
  by (simp add: offered_cert_def intent_named_Some checked_add_def builder_sign_issue)

lemma negotiation_tests_pass:
  assumes W: "seal_world W"
  shows "capability_request_sign_verify W pm = Some ()" "capability_request_freshness W = Some ()"
    "full_negotiation_handshake W pm = Some ()"
proof -
  let ?E = "tw_ext W"
  note w = seal_worldD [OF W]
  have r: "request_verify ?E pm (test_request W caps n) = Inr (tw_pk W 0)" for caps n
    by (rule request_roundtrip [OF w(1,4,5)])
  show "capability_request_sign_verify W pm = Some ()" by (simp add: capability_request_sign_verify_def r del: One_nat_def)
  have "rq_timestamp (test_request W caps n) = 1700000000" for caps n by (simp add: request_build_def Let_def)
  then have "verify_freshness (1700000000 + 60) 300 (test_request W caps n) = Inr ()"
    "verify_freshness (1700000000 + 400) 300 (test_request W caps n) \<noteq> Inr ()" for caps n
    by (simp_all add: verify_freshness_iff)
  then show "capability_request_freshness W = Some ()"
    by (simp add: capability_request_freshness_def Let_def is_ok_def split: sum.split)
  obtain c where c: "offered_cert W ''trade.equity'' = Some c" using offered_cert_Some [of "''trade.equity''" W] by auto
  let ?r = "test_request W [''trade.equity''] ''trade.equity''"
  have n: "parse_nonce_hex ?E (rq_nonce ?r) = Inr (tw_nonce W 1)"
    using parse_nonce_round [OF w(1,5)] by (simp add: request_build_def Let_def)
  obtain offer where offer: "offer_build ?E (tw_nonce W 2) (tw_key W 1) ?r c 1700000000 120 = Inr offer"
      "offer_verify ?E pm offer = Inr (tw_pk W 1)" "parse_nonce_hex ?E (offer_nonce offer) = Inr (tw_nonce W 2)"
    using offer_roundtrip [OF w(1) w(4) [of 1] w(5) [of 2] n, of c 1700000000 120 pm] by auto
  obtain ac where "acceptance_build ?E (tw_key W 0) offer (1700000000 + 1) = Inr ac" "acceptance_verify ?E pm ac = Inr (tw_pk W 0)"
    using acceptance_roundtrip [OF w(1) w(4) [of 0] offer(3), of "1700000000 + 1" pm] by auto
  with c r offer show "full_negotiation_handshake W pm = Some ()"
    unfolding full_negotiation_handshake_def Let_def by simp
qed

lemma request_tampered:
  assumes W: "seal_world W"
    and u: "unforged (tw_ext W) (tw_key W 0)
      (h_updates (new_derive_key DOMAIN_NEG_REQUEST) (request_chunks (did_of_pk (tw_ext W) (tw_pk W 0)) (tw_nonce W 1) 1700000000 3600 n caps))
      (h_updates (new_derive_key DOMAIN_NEG_REQUEST) (request_chunks (did_of_pk (tw_ext W) (tw_pk W 0)) (tw_nonce W 1) 1700000000 3600 n caps'))"
    and ne: "concat (request_chunks (did_of_pk (tw_ext W) (tw_pk W 0)) (tw_nonce W 1) 1700000000 3600 n caps)
      \<noteq> concat (request_chunks (did_of_pk (tw_ext W) (tw_pk W 0)) (tw_nonce W 1) 1700000000 3600 n caps')"
  shows "request_verify (tw_ext W) pm ((test_request W caps n)\<lparr>requested_capabilities := caps'\<rparr>) = Inl (InvalidSignature 0)"
proof -
  note w = seal_worldD [OF W]
  show ?thesis
    using unforgedD [OF u updates_neq [OF ne]] parse_pk_round [OF w(1,4)] parse_nonce_round [OF w(1,5)] parse_sig_round [OF w(1,4)]
    by (simp add: request_verify_def request_build_def Let_def request_signable_bytes_def)
qed

lemma did_fits: "seal_world W \<Longrightarrow> fits (did_of_pk (tw_ext W) (tw_pk W k))"
  using seal_worldD [of W] by (simp add: did_of_pk_def fits_def)

lemma capability_request_tampered_fails_passes:
  assumes W: "seal_world W"
    and u: "unforged (tw_ext W) (tw_key W 0)
      (h_updates (new_derive_key DOMAIN_NEG_REQUEST) (request_chunks (did_of_pk (tw_ext W) (tw_pk W 0)) (tw_nonce W 1) 1700000000 3600
        ''trade.equity'' [''trade.equity'']))
      (h_updates (new_derive_key DOMAIN_NEG_REQUEST) (request_chunks (did_of_pk (tw_ext W) (tw_pk W 0)) (tw_nonce W 1) 1700000000 3600
        ''trade.equity'' [''trade.equity'', ''admin.everything'']))"
  shows "capability_request_tampered_fails W pm = Some ()"
proof -
  have "requested_capabilities (test_request W caps n) = caps" for caps n by (simp add: request_build_def Let_def)
  moreover have "request_verify (tw_ext W) pm ((test_request W [''trade.equity''] ''trade.equity'')
      \<lparr>requested_capabilities := [''trade.equity'', ''admin.everything'']\<rparr>) = Inl (InvalidSignature 0)"
  proof (rule request_tampered [OF W u])
    let ?c = "request_chunks (did_of_pk (tw_ext W) (tw_pk W 0)) (tw_nonce W 1) 1700000000 3600 ''trade.equity''"
    show "concat (?c [''trade.equity'']) \<noteq> concat (?c [''trade.equity'', ''admin.everything''])"
    proof
      assume e: "concat (?c [''trade.equity'']) = concat (?c [''trade.equity'', ''admin.everything''])"
      have "[''trade.equity''] = [''trade.equity'', ''admin.everything'']"
        using request_chunks_inj [OF did_fits [OF W] did_fits [OF W] _ _ _ _ _ _ _ _ e] seal_worldD(5) [OF W] by (simp add: fits_def)
      then show False by simp
    qed
  qed
  ultimately show ?thesis by (simp add: capability_request_tampered_fails_def Let_def)
qed

lemma offer_tampered_cert_fails_signature_passes:
  assumes W: "seal_world W" and nz: "tw_nonce W 2 \<noteq> replicate 16 0"
    and u: "\<And>c. offered_cert W ''read'' = Some c \<Longrightarrow> unforged (tw_ext W) (tw_key W 1)
      (h_updates (new_derive_key DOMAIN_NEG_OFFER) (let did = did_of_pk (tw_ext W) (tw_pk W 1) in
        [le64 (u64_of (length did)), str_bytes did, tw_nonce W 1, tw_nonce W 2, le64 1700000000, cert_fingerprint (tw_ext W) c]))
      (h_updates (new_derive_key DOMAIN_NEG_OFFER) (let did = did_of_pk (tw_ext W) (tw_pk W 1) in
        [le64 (u64_of (length did)), str_bytes did, tw_nonce W 1, replicate 16 0, le64 1700000000, cert_fingerprint (tw_ext W) c]))"
  shows "offer_tampered_cert_fails_signature W pm = Some ()"
proof -
  let ?E = "tw_ext W" and ?did = "did_of_pk (tw_ext W) (tw_pk W 1)"
  note w = seal_worldD [OF W]
  obtain c where c: "offered_cert W ''read'' = Some c" using offered_cert_Some [of "''read''" W] by auto
  let ?ch = "\<lambda>nn. [le64 (u64_of (length ?did)), str_bytes ?did, tw_nonce W 1, nn, le64 1700000000, cert_fingerprint ?E c]"
  have "concat (?ch (tw_nonce W 2)) \<noteq> concat (?ch (replicate 16 0))" using nz w(5) [of 2] by (simp add: append_eq_append_conv)
  from unforgedD [OF u [OF c, unfolded Let_def] updates_neq [OF this]]
  have bad: "\<not> ed_verify ?E (tw_pk W 1) (offer_signable_bytes ?E ?did (tw_nonce W 1) (replicate 16 0) 1700000000 (cert_fingerprint ?E c))
      (sign_message (tw_key W 1) (offer_signable_bytes ?E ?did (tw_nonce W 1) (tw_nonce W 2) 1700000000 (cert_fingerprint ?E c)))"
    by (simp add: offer_signable_bytes_def)
  let ?r = "test_request W [''read''] ''read''"
  have n: "parse_nonce_hex ?E (rq_nonce ?r) = Inr (tw_nonce W 1)" "rq_nonce ?r = hex_enc ?E (tw_nonce W 1)"
    using parse_nonce_round [OF w(1,5)] by (simp_all add: request_build_def Let_def)
  have p: "strip_prefix ''did:a1:'' ?did = Some (hex_enc ?E (tw_pk W 1))" unfolding did_of_pk_def by (rule strip_prefix_append)
  have z: "parse_nonce_hex ?E (hex_enc ?E (replicate 16 0)) = Inr (replicate 16 0)" by (rule parse_nonce_round [OF w(1)]) simp
  show ?thesis
    unfolding offer_tampered_cert_fails_signature_def Let_def c bind.bind_lunit offer_build_def n bindR_simps unwrap_simps
    using bad p z n(1) parse_pk_round [OF w(1,4)] parse_nonce_round [OF w(1,5)] parse_sig_round [OF w(1,4)]
    by (simp add: offer_verify_def ok_or_def Let_def)
qed

section \<open>Commitments\<close>

text \<open>The chain that the tests seal: one certificate for one intent, which is returned too.\<close>

definition sealed_chain :: "test_world \<Rightarrow> string \<Rightarrow> (bytes \<times> dyolo_chain) option" where
  "sealed_chain W a = do {
     intent \<leftarrow> intent_named (tw_ext W) a;
     expiry \<leftarrow> checked_add 1700000000 3600;
     cert \<leftarrow> builder_sign (tw_ext W) (tw_key W 0) (builder_new (tw_nonce W 0) (tw_pk W 1) intent 1700000000 expiry);
     Some (intent, chain_push cert (chain_new (tw_pk W 0) intent))
   }"

definition sealed :: "test_world \<Rightarrow> string \<Rightarrow> string option \<Rightarrow> zk_chain_commitment option" where
  "sealed W a ns = do {
     (intent, chain) \<leftarrow> sealed_chain W a;
     Some (zk_seal (tw_ext W) chain intent (replicate 32 0) 1700000000 (tw_key W 0) ns)
   }"

definition seal_and_verify :: "test_world \<Rightarrow> unit option" where
  "seal_and_verify W = do {
     commitment \<leftarrow> sealed W ''trade.equity'' (Some ''acme-bot'');
     _ \<leftarrow> require (is_ok (zk_verify_commitment (tw_ext W) (replicate 32 0) 1700000000 (Some 86400) commitment));
     _ \<leftarrow> require (zk_mode commitment = Blake3Commit);
     require (\<not> has_zk_proof commitment)
   }"

definition tampered_commitment_fails :: "test_world \<Rightarrow> unit option" where
  "tampered_commitment_fails W = do {
     commitment \<leftarrow> sealed W ''read'' None;
     let commitment = commitment\<lparr>zk_commitment := flip_byte 0 0xFF (zk_commitment commitment)\<rparr>;
     require (\<not> is_ok (zk_verify_commitment (tw_ext W) (replicate 32 0) 1700000000 None commitment))
   }"

definition expired_commitment_fails :: "test_world \<Rightarrow> unit option" where
  "expired_commitment_fails W = do {
     commitment \<leftarrow> sealed W ''read'' None;
     require (\<not> is_ok (zk_verify_commitment (tw_ext W) (replicate 32 0) (1700000000 + 7200) (Some 3600) commitment))
   }"

definition with_zk_proof_upgrades_mode :: "test_world \<Rightarrow> unit option" where
  "with_zk_proof_upgrades_mode W = do {
     commitment \<leftarrow> sealed W ''read'' None;
     let commitment = with_zk_proof (tw_ext W) (str_bytes ''placeholder-proof-bytes'') commitment;
     _ \<leftarrow> require (zk_mode commitment = ExternalZkvm);
     _ \<leftarrow> require (has_zk_proof commitment);
     require (is_ok (zk_verify_commitment (tw_ext W) (replicate 32 0) 1700000000 None commitment))
   }"

definition anchor_hash_is_deterministic :: "test_world \<Rightarrow> unit option" where
  "anchor_hash_is_deterministic W = do {
     c \<leftarrow> sealed W ''read'' None;
     require (anchor_hash (tw_ext W) c = anchor_hash (tw_ext W) c)
   }"

definition zk_trace_proof_seal_verify :: "test_world \<Rightarrow> unit option" where
  "zk_trace_proof_seal_verify W = do {
     let E = tw_ext W;
     (intent, chain) \<leftarrow> sealed_chain W ''trade.equity'';
     let chain_fp = fingerprint E chain;
     let commitment = zk_seal E chain intent (replicate 32 0) 1700000000 (tw_key W 0) None;
     let trace = trace_new (tw_nonce W 1) 1700000000;
     let trace = record_step E Thought (str_bytes ''analyzing trade'') (1700000000 + 1) trace;
     let trace = record_step E FinalAction (str_bytes ''execute trade.equity AAPL 100'') (1700000000 + 2) trace;
     root \<leftarrow> unwrap (finalize_trace E (1700000000 + 3) chain_fp trace);
     let pf = zk_trace_seal E commitment root (tw_key W 0);
     _ \<leftarrow> require (is_ok (zk_trace_verify E pf));
     require (\<not> trace_has_zk_proof pf)
   }"

definition zk_trace_proof_tampered_fails :: "test_world \<Rightarrow> unit option" where
  "zk_trace_proof_tampered_fails W = do {
     let E = tw_ext W;
     (intent, chain) \<leftarrow> sealed_chain W ''read'';
     let chain_fp = fingerprint E chain;
     let trace = record_step E Thought (str_bytes ''step one'') (1700000000 + 1) (trace_new (tw_nonce W 1) 1700000000);
     root \<leftarrow> unwrap (finalize_trace E (1700000000 + 2) chain_fp trace);
     let commitment = zk_seal E chain intent (replicate 32 0) 1700000000 (tw_key W 0) None;
     let pf = zk_trace_seal E commitment root (tw_key W 0);
     let pf = pf\<lparr>combined_commitment := flip_byte 0 0xFF (combined_commitment pf)\<rparr>;
     require (\<not> is_ok (zk_trace_verify E pf))
   }"

lemma sealed_chain_Some: "a \<noteq> [] \<Longrightarrow> length a \<le> 256 \<Longrightarrow> \<exists>c. sealed_chain W a = Some (named_hash (tw_ext W) a, c)"
  by (simp add: sealed_chain_def intent_named_Some checked_add_def builder_sign_issue)

text \<open>What a sealed commitment answers, whatever the chain.\<close>

lemma sealed_cases:
  assumes W: "seal_world W" and a: "a \<noteq> []" "length a \<le> 256"
  obtains z where "sealed W a ns = Some z" "zk_mode z = Blake3Commit" "zk_proof_hex z = []" "length (zk_commitment z) = 32"
    "zk_intent z = named_hash (tw_ext W) a" "sealed_at_unix z = 1700000000"
    "\<And>now m. zk_verify_commitment (tw_ext W) (replicate 32 0) now m z =
       (case m of Some k \<Rightarrow> if 1700000000 + unat k < unat now then Inl (Expired 0 (1700000000 + k) now) else Inr () | None \<Rightarrow> Inr ())"
    "\<And>x. x \<noteq> zk_commitment z \<Longrightarrow> zk_verify_commitment (tw_ext W) (replicate 32 0) now m (z\<lparr>zk_commitment := x\<rparr>) = Inl InvalidSubScopeProof"
proof -
  let ?E = "tw_ext W"
  note w = seal_worldD [OF W]
  obtain c where c: "sealed_chain W a = Some (named_hash ?E a, c)" using sealed_chain_Some [OF a] by blast
  let ?z = "zk_seal ?E c (named_hash ?E a) (replicate 32 0) 1700000000 (tw_key W 0) ns"
  show ?thesis
  proof (rule that)
    show "sealed W a ns = Some ?z" by (simp add: sealed_def c)
    show "zk_verify_commitment ?E (replicate 32 0) now m ?z =
       (case m of Some k \<Rightarrow> if 1700000000 + unat k < unat now then Inl (Expired 0 (1700000000 + k) now) else Inr () | None \<Rightarrow> Inr ())" for now m
      by (simp add: zk_seal_verifies [OF w(1,2,4)] split: option.split)
    show "zk_verify_commitment ?E (replicate 32 0) now m (?z\<lparr>zk_commitment := x\<rparr>) = Inl InvalidSubScopeProof"
      if "x \<noteq> zk_commitment ?z" for x
      using that w(7) length_fingerprint [OF w(2)] by (auto simp: zk_verify_commitment_def zk_seal_def Let_def fixed_bytes_def ok_or_def)
  qed (use w(2) in \<open>simp_all add: zk_seal_def Let_def compute_commitment_def\<close>)
qed

lemma flip_32: "length b = 32 \<Longrightarrow> flip_byte 0 0xFF b \<noteq> b"
  by (rule flip_byte_neq) simp_all

lemma commitment_tests_pass:
  assumes W: "seal_world W"
  shows "seal_and_verify W = Some ()" "tampered_commitment_fails W = Some ()" "expired_commitment_fails W = Some ()"
    "with_zk_proof_upgrades_mode W = Some ()" "anchor_hash_is_deterministic W = Some ()"
proof -
  let ?E = "tw_ext W"
  obtain z where z: "sealed W ''trade.equity'' (Some ''acme-bot'') = Some z" "zk_mode z = Blake3Commit"
      "zk_verify_commitment ?E (replicate 32 0) 1700000000 (Some 86400) z = Inr ()"
    by (rule sealed_cases [OF W, of "''trade.equity''" "Some ''acme-bot''"]) auto
  then show "seal_and_verify W = Some ()" by (simp add: seal_and_verify_def has_zk_proof_def)
  obtain y where y: "sealed W ''read'' None = Some y" "length (zk_commitment y) = 32"
      "zk_verify_commitment ?E (replicate 32 0) 1700000000 None y = Inr ()"
      "zk_verify_commitment ?E (replicate 32 0) (1700000000 + 7200) (Some 3600) y = Inl (Expired 0 (1700000000 + 3600) (1700000000 + 7200))"
      "\<And>x. x \<noteq> zk_commitment y \<Longrightarrow> zk_verify_commitment ?E (replicate 32 0) 1700000000 None (y\<lparr>zk_commitment := x\<rparr>) = Inl InvalidSubScopeProof"
    by (rule sealed_cases [OF W, of "''read''" None 1700000000 None]) auto
  show "tampered_commitment_fails W = Some ()"
    by (simp add: tampered_commitment_fails_def y(1) y(5) [OF flip_32 [OF y(2)]] Let_def)
  show "expired_commitment_fails W = Some ()"
    unfolding expired_commitment_fails_def y(1) bind.bind_lunit y(4) by simp
  show "anchor_hash_is_deterministic W = Some ()" by (simp add: anchor_hash_is_deterministic_def y(1))
  let ?p = "with_zk_proof ?E (str_bytes ''placeholder-proof-bytes'') y"
  have "zk_verify_commitment ?E (replicate 32 0) 1700000000 None ?p = zk_verify_commitment ?E (replicate 32 0) 1700000000 None y"
    by (simp add: zk_verify_commitment_def with_zk_proof_def)
  moreover have "length (hex_enc ?E (str_bytes ''placeholder-proof-bytes'')) \<noteq> 0"
    unfolding seal_worldD(3) [OF W] by (simp add: str_bytes_def)
  then have "hex_enc ?E (str_bytes ''placeholder-proof-bytes'') \<noteq> []" by auto
  ultimately show "with_zk_proof_upgrades_mode W = Some ()"
    by (simp add: with_zk_proof_upgrades_mode_def y(1,3) Let_def) (simp add: with_zk_proof_def has_zk_proof_def)
qed

lemma finalize_after_step: "\<exists>r. finalize_trace E at fp (record_step E k c ts t) = Inr r"
  by (simp add: finalize_trace_def record_step_def record_hashed_def Let_def)

lemma trace_proof_tests_pass:
  assumes W: "seal_world W"
  shows "zk_trace_proof_seal_verify W = Some ()" "zk_trace_proof_tampered_fails W = Some ()"
proof -
  let ?E = "tw_ext W"
  note w = seal_worldD [OF W]
  obtain c where c: "sealed_chain W ''trade.equity'' = Some (named_hash ?E ''trade.equity'', c)"
    using sealed_chain_Some [of "''trade.equity''" W] by auto
  have ok: "zk_trace_verify ?E (zk_trace_seal ?E z r (tw_key W 0)) = Inr ()" "\<not> trace_has_zk_proof (zk_trace_seal ?E z r (tw_key W 0))" for z r
    using zk_trace_seal_verifies [OF w(1,4)] by (simp_all add: zk_trace_seal_def Let_def trace_has_zk_proof_def)
  let ?t = "record_step ?E Thought (str_bytes ''analyzing trade'') (1700000000 + 1) (trace_new (tw_nonce W 1) 1700000000)"
  obtain r where "finalize_trace ?E (1700000000 + 3) (fingerprint ?E c)
      (record_step ?E FinalAction (str_bytes ''execute trade.equity AAPL 100'') (1700000000 + 2) ?t) = Inr r"
    using finalize_after_step by blast
  then show "zk_trace_proof_seal_verify W = Some ()"
    unfolding zk_trace_proof_seal_verify_def Let_def c bind.bind_lunit prod.case by (simp add: ok del: One_nat_def)
  obtain d where d: "sealed_chain W ''read'' = Some (named_hash ?E ''read'', d)" using sealed_chain_Some [of "''read''" W] by auto
  obtain q where q: "finalize_trace ?E (1700000000 + 2) (fingerprint ?E d)
      (record_step ?E Thought (str_bytes ''step one'') (1700000000 + 1) (trace_new (tw_nonce W 1) 1700000000)) = Inr q"
    using finalize_after_step by blast
  have "zk_trace_verify ?E ((zk_trace_seal ?E z r (tw_key W 0))\<lparr>combined_commitment := flip_byte 0 0xFF (combined_commitment (zk_trace_seal ?E z r (tw_key W 0)))\<rparr>)
      = Inl InvalidSubScopeProof" for z r
    using flip_32 [of "trace_combined_commitment ?E (zk_commitment z) (merkle_root r)"] w(2)
    by (simp add: zk_trace_verify_def zk_trace_seal_def Let_def trace_combined_commitment_def)
  with q show "zk_trace_proof_tampered_fails W = Some ()"
    unfolding zk_trace_proof_tampered_fails_def Let_def d bind.bind_lunit prod.case by simp
qed

section \<open>Anchoring\<close>

definition make_commitment :: "test_world \<Rightarrow> zk_chain_commitment option" where
  "make_commitment W = sealed W ''trade.equity'' (Some ''acme-bot'')"

definition prepared :: "test_world \<Rightarrow> string \<Rightarrow> anchor_network \<Rightarrow> anchored_receipt option" where
  "prepared W did network = do {
     commitment \<leftarrow> make_commitment W;
     Some (anchor_prepare (tw_ext W) commitment did network 1700000000 (tw_key W 0))
   }"

definition prepare_evm_integrity :: "test_world \<Rightarrow> unit option" where
  "prepare_evm_integrity W = do {
     receipt \<leftarrow> prepared W ''did:a1:abc123'' Ethereum;
     _ \<leftarrow> require (verify_integrity (tw_ext W) receipt);
     _ \<leftarrow> require (\<not> is_anchored receipt);
     _ \<leftarrow> require (evm_calldata receipt \<noteq> None);
     require (solana_instruction_data receipt = None)
   }"

definition prepare_solana_integrity :: "test_world \<Rightarrow> unit option" where
  "prepare_solana_integrity W = do {
     receipt \<leftarrow> prepared W ''did:a1:abc123'' Solana;
     _ \<leftarrow> require (verify_integrity (tw_ext W) receipt);
     _ \<leftarrow> require (evm_calldata receipt = None);
     text \<leftarrow> solana_instruction_data receipt;
     data \<leftarrow> hex_dec (tw_ext W) text;
     require (length data = 80)
   }"

definition evm_calldata_selector_and_length :: "test_world \<Rightarrow> unit option" where
  "evm_calldata_selector_and_length W = do {
     let did = ''did:a1:'' @ replicate 64 (CHR ''a'');
     receipt \<leftarrow> prepared W did BaseNet;
     text \<leftarrow> evm_calldata receipt;
     raw \<leftarrow> hex_dec (tw_ext W) text;
     _ \<leftarrow> require (take 4 raw = [0xd5, 0xe5, 0xb5, 0xb0]);
     require (length raw \<ge> 4 + 32 * 5)
   }"

definition anchor_hash_hex_format :: "test_world \<Rightarrow> unit option" where
  "anchor_hash_hex_format W = do {
     receipt \<leftarrow> prepared W ''did:a1:abc'' Ethereum;
     _ \<leftarrow> require (starts_with (anchor_hash_hex (tw_ext W) receipt) ''0x'');
     require (length (anchor_hash_hex (tw_ext W) receipt) = 66)
   }"

definition with_confirmation_marks_anchored :: "test_world \<Rightarrow> unit option" where
  "with_confirmation_marks_anchored W = do {
     receipt \<leftarrow> prepared W ''did:a1:abc'' Polygon;
     let receipt = with_confirmation ''0xdeadbeef00000000000000000000000000000000000000000000000000000000'' 19000000 receipt;
     _ \<leftarrow> require (is_anchored receipt);
     require (block_number receipt = Some 19000000)
   }"

definition anchor_hash_stable_across_prepare_calls :: "test_world \<Rightarrow> unit option" where
  "anchor_hash_stable_across_prepare_calls W = do {
     commitment \<leftarrow> make_commitment W;
     let h1 = anchor_hash (tw_ext W) commitment;
     let receipt = anchor_prepare (tw_ext W) commitment ''did:a1:abc'' Ethereum 1700000000 (tw_key W 0);
     require (ar_anchor_hash receipt = h1)
   }"

lemma anchor_tests_pass:
  assumes W: "seal_world W"
  shows "prepare_evm_integrity W = Some ()" "prepare_solana_integrity W = Some ()" "evm_calldata_selector_and_length W = Some ()"
    "anchor_hash_hex_format W = Some ()" "with_confirmation_marks_anchored W = Some ()"
    "anchor_hash_stable_across_prepare_calls W = Some ()"
proof -
  let ?E = "tw_ext W"
  note w = seal_worldD [OF W]
  obtain z where z: "make_commitment W = Some z" "zk_intent z = named_hash ?E ''trade.equity''"
    unfolding make_commitment_def by (rule sealed_cases [OF W, of "''trade.equity''" "Some ''acme-bot''"]) auto
  have i: "length (zk_intent z) = 32" using w(2) by (simp add: z(2) named_hash_def intent_hash_of_def)
  have h: "length (anchor_hash ?E z) = 32" using w(2) by (simp add: anchor_hash_def)
  have p: "prepared W did n = Some (anchor_prepare ?E z did n 1700000000 (tw_key W 0))" for did n by (simp add: prepared_def z(1))
  note ap = anchor_prepare_def [of ?E z _ _ 1700000000 "tw_key W 0"] network_is_evm_def Let_def
  show "prepare_evm_integrity W = Some ()"
    by (simp add: prepare_evm_integrity_def p prepare_integrity) (simp add: ap is_anchored_def)
  have "length (build_solana_instruction_data ?E (anchor_hash ?E z) (zk_intent z) t) = 80" for t
    using w(2) by (simp add: build_solana_instruction_data_def Let_def i h)
  then show "prepare_solana_integrity W = Some ()"
    by (simp add: prepare_solana_integrity_def p prepare_integrity) (simp add: ap w(7))
  have "take 4 (build_evm_calldata a b t did) = [0xd5, 0xe5, 0xb5, 0xb0]" for a b t did by (simp add: build_evm_calldata_def Let_def)
  then show "evm_calldata_selector_and_length W = Some ()"
    by (simp add: evm_calldata_selector_and_length_def p) (simp add: ap w(7) evm_calldata_layout(1) [OF h i])
  show "anchor_hash_hex_format W = Some ()"
    by (simp add: anchor_hash_hex_format_def p anchor_hash_hex_def) (simp add: ap w(3) h starts_with_def)
  show "with_confirmation_marks_anchored W = Some ()"
    by (simp add: with_confirmation_marks_anchored_def p with_confirmation_def is_anchored_def)
  show "anchor_hash_stable_across_prepare_calls W = Some ()"
    by (simp add: anchor_hash_stable_across_prepare_calls_def z(1)) (simp add: ap)
qed


section \<open>Identifiers and credentials\<close>

text \<open>\<open>String::from_utf8\<close> with \<open>unwrap_or_default\<close>: strings are their bytes, and ill-formed ones become empty.\<close>

fun utf8_valid :: "bytes \<Rightarrow> bool" where
  "utf8_valid [] \<longleftrightarrow> True"
| "utf8_valid (a # bs) \<longleftrightarrow>
     (let cont = (\<lambda>b. 0x80 \<le> b \<and> b \<le> (0xBF :: u8)) in
      if a < 0x80 then utf8_valid bs
      else if 0xC2 \<le> a \<and> a \<le> 0xDF then (case bs of b # cs \<Rightarrow> cont b \<and> utf8_valid cs | _ \<Rightarrow> False)
      else if 0xE0 \<le> a \<and> a \<le> 0xEF then
        (case bs of
           b # c # cs \<Rightarrow> cont b \<and> cont c \<and> (a = 0xE0 \<longrightarrow> 0xA0 \<le> b) \<and> (a = 0xED \<longrightarrow> b \<le> 0x9F) \<and> utf8_valid cs
         | _ \<Rightarrow> False)
      else if 0xF0 \<le> a \<and> a \<le> 0xF4 then
        (case bs of
           b # c # d # cs \<Rightarrow> cont b \<and> cont c \<and> cont d \<and> (a = 0xF0 \<longrightarrow> 0x90 \<le> b) \<and> (a = 0xF4 \<longrightarrow> b \<le> 0x8F) \<and> utf8_valid cs
         | _ \<Rightarrow> False)
      else False)"

definition from_utf8_or_default :: "bytes \<Rightarrow> string" where
  "from_utf8_or_default b = (if utf8_valid b then map (\<lambda>x. char_of (unat x)) b else [])"

definition did_roundtrip_test :: "test_world \<Rightarrow> (bytes \<Rightarrow> string) \<Rightarrow> unit option" where
  "did_roundtrip_test W pk_msg = do {
     let did = did_from_key (tw_ext W) (tw_pk W 0);
     _ \<leftarrow> require (starts_with did ''did:a1:'');
     recovered \<leftarrow> unwrap (did_verifying_key (tw_ext W) pk_msg did);
     require (tw_pk W 0 = recovered)
   }"

definition did_parse_rejects_malformed :: "ext \<Rightarrow> unit option" where
  "did_parse_rejects_malformed E = do {
     _ \<leftarrow> require (\<not> is_ok (did_parse E ''did:key:abc''));
     _ \<leftarrow> require (\<not> is_ok (did_parse E ''did:a1:notvalidhex!''));
     _ \<leftarrow> require (\<not> is_ok (did_parse E ''notadid''));
     require (\<not> is_ok (did_parse E ''did:a1:deadbeef''))
   }"

definition did_document_structure :: "test_world \<Rightarrow> unit option" where
  "did_document_structure W = do {
     let doc = did_for_identity (tw_ext W) (tw_pk W 0);
     _ \<leftarrow> require (starts_with (doc_id doc) ''did:a1:'');
     _ \<leftarrow> require (length (doc_methods doc) = 1);
     _ \<leftarrow> require (method_type (doc_methods doc ! 0) = ''Ed25519VerificationKey2020'');
     _ \<leftarrow> require (a1_version doc = ''2.8.0'');
     require (doc_namespace doc = None)
   }"

definition did_document_with_passport_metadata :: "test_world \<Rightarrow> unit option" where
  "did_document_with_passport_metadata W = do {
     let doc = with_passport_metadata ''acme-bot'' ''ff00ff00'' (did_for_identity (tw_ext W) (tw_pk W 0));
     _ \<leftarrow> require (doc_namespace doc = Some ''acme-bot'');
     require (doc_mask_hex doc = Some ''ff00ff00'')
   }"

text \<open>The credential that a test issues: key 0 to the agent of key 1, for \<open>ttl\<close> seconds.\<close>

definition test_vc :: "test_world \<Rightarrow> string \<Rightarrow> string list \<Rightarrow> u64 \<Rightarrow> u8 \<Rightarrow> verifiable_credential option" where
  "test_vc W ns caps ttl b = do {
     let agent_did = did_from_key (tw_ext W) (tw_pk W 1);
     expiry \<leftarrow> checked_add 1700000000 ttl;
     unwrap (vc_issue (tw_ext W) (tw_key W 0) agent_did ns caps 1700000000 expiry (replicate 32 b))
   }"

definition vc_issue_and_verify :: "test_world \<Rightarrow> (bytes \<Rightarrow> string) \<Rightarrow> unit option" where
  "vc_issue_and_verify W pk_msg = do {
     vc \<leftarrow> test_vc W ''acme-trading-bot'' [''trade.equity'', ''portfolio.read''] 86400 7;
     _ \<leftarrow> require (is_ok (vc_verify (tw_ext W) pk_msg vc));
     _ \<leftarrow> require (vc_type vc ! 1 = ''A1CapabilityCredential'');
     require (subject_capabilities (vc_subject vc) = [''trade.equity'', ''portfolio.read''])
   }"

definition tampered_capabilities_fail_verify :: "test_world \<Rightarrow> (bytes \<Rightarrow> string) \<Rightarrow> unit option" where
  "tampered_capabilities_fail_verify W pk_msg = do {
     vc \<leftarrow> test_vc W ''acme-trading-bot'' [''trade.equity''] 86400 1;
     let vc = vc\<lparr>vc_subject := (vc_subject vc)\<lparr>subject_capabilities := subject_capabilities (vc_subject vc) @ [''admin.everything'']\<rparr>\<rparr>;
     require (\<not> is_ok (vc_verify (tw_ext W) pk_msg vc))
   }"

definition tampered_proof_fails_verify :: "test_world \<Rightarrow> (bytes \<Rightarrow> string) \<Rightarrow> unit option" where
  "tampered_proof_fails_verify W pk_msg = do {
     vc \<leftarrow> test_vc W ''acme-bot'' [''read''] 3600 2;
     let bad = str_bytes (proof_value (vc_proof_of vc));
     _ \<leftarrow> require (bad \<noteq> []);
     let bad = flip_byte 0 0xFF bad;
     let vc = vc\<lparr>vc_proof_of := (vc_proof_of vc)\<lparr>proof_value := from_utf8_or_default bad\<rparr>\<rparr>;
     require (\<not> is_ok (vc_verify (tw_ext W) pk_msg vc))
   }"

definition iso8601_epoch :: "unit option" where
  "iso8601_epoch = require (unix_to_iso8601 0 = ''1970-01-01T00:00:00Z'')"

definition iso8601_known_date :: "unit option" where
  "iso8601_known_date = require (starts_with (unix_to_iso8601 1700000000) ''2023-'')"

lemma iso8601_tests_pass: "iso8601_epoch = Some ()" "iso8601_known_date = Some ()"
proof -
  have "days_to_ymd 0 = (1970, 1, 1)" by code_simp
  moreover have "iso_text 1970 1 1 0 0 0 = ''1970-01-01T00:00:00Z''" by code_simp
  ultimately show "iso8601_epoch = Some ()" by (simp add: iso8601_epoch_def unix_to_iso8601_def Let_def)
  have "year_loop 19675 1970 = (317, 2023)" by (simp add: year_loop.simps year_len_def is_leap_def)
  then have "days_to_ymd 19675 = (2023, 11, 14)" by (simp add: days_to_ymd_def month_days_def is_leap_def)
  moreover have "starts_with (iso_text 2023 11 14 22 13 20) ''2023-''" by code_simp
  ultimately show "iso8601_known_date = Some ()" by (simp add: iso8601_known_date_def unix_to_iso8601_def Let_def)
qed

lemma did_from_key_starts: "starts_with (did_from_key E vk) ''did:a1:''"
  by (simp add: did_from_key_def DID_METHOD_def starts_with_def)

lemma did_tests_pass:
  assumes W: "seal_world W"
  shows "did_roundtrip_test W pm = Some ()" "did_document_structure W = Some ()" "did_document_with_passport_metadata W = Some ()"
proof -
  note w = seal_worldD [OF W]
  have "did_verifying_key (tw_ext W) pm (did_from_key (tw_ext W) (tw_pk W 0)) = Inr (tw_pk W 0)"
    using w(4) [of 0] w(7) by (simp add: did_verifying_key_def did_parts_from_key fixed_bytes_def signer_wf_def)
  then show "did_roundtrip_test W pm = Some ()" by (simp add: did_roundtrip_test_def did_from_key_starts)
  show "did_document_structure W = Some ()"
    by (simp add: did_document_structure_def did_for_identity_def Let_def did_from_key_starts)
  show "did_document_with_passport_metadata W = Some ()" by (simp add: did_document_with_passport_metadata_def with_passport_metadata_def)
qed

text \<open>What \<open>hex::decode\<close> documents of its errors: odd digits and other characters are refused, two digits make a byte.\<close>

definition hex_strict :: "ext \<Rightarrow> bool" where
  "hex_strict E \<longleftrightarrow> (\<forall>s b. hex_dec E s = Some b \<longrightarrow> length s = 2 * length b \<and> set s \<subseteq> set ''0123456789abcdefABCDEF'')"

lemma did_parse_rejects_malformed_passes:
  assumes "hex_strict E"
  shows "did_parse_rejects_malformed E = Some ()"
proof -
  have n: "hex_dec E ''notvalidhex!'' = None" using assms unfolding hex_strict_def by (cases "hex_dec E ''notvalidhex!''") fastforce+
  have d: "length b \<noteq> 32" if "hex_dec E ''deadbeef'' = Some b" for b
    using assms that unfolding hex_strict_def by fastforce
  have p: "did_parts ''did:key:abc'' = (''did'', ''key'', ''abc'')" "did_parts ''did:a1:notvalidhex!'' = (''did'', ''a1'', ''notvalidhex!'')"
    "did_parts ''notadid'' = (''notadid'', [], [])" "did_parts ''did:a1:deadbeef'' = (''did'', ''a1'', ''deadbeef'')"
    by (simp_all add: did_parts_def)
  show ?thesis
    using d by (cases "hex_dec E ''deadbeef''") (simp_all add: did_parse_rejects_malformed_def did_parse_def p DID_METHOD_def n ok_or_def)
qed


definition vc_hasher :: "verifiable_credential \<Rightarrow> hasher" where
  "vc_hasher v = h_updates (new_derive_key DOMAIN_VC_SIGN)
     (vc_chunks (vc_id v) (vc_issuer v) (issuance_date v) (case expiration_date v of Some e \<Rightarrow> e | None \<Rightarrow> []) (vc_subject v))"

lemma test_vc_cases:
  assumes W: "seal_world W" and ttl: "unat ttl < 2 ^ 32"
  obtains v where "test_vc W ns caps ttl b = Some v" "vc_verify (tw_ext W) pm v = Inr ()"
    "subject_capabilities (vc_subject v) = caps" "vc_type v = [''VerifiableCredential'', ''A1CapabilityCredential'']"
    "vc_issuer v = did_from_key (tw_ext W) (tw_pk W 0)"
    "proof_value (vc_proof_of v) = hex_enc (tw_ext W) (sign_message (tw_key W 0) (h_finalize (tw_ext W) (vc_hasher v)))"
proof -
  note w = seal_worldD [OF W]
  have "\<exists>e. checked_add 1700000000 ttl = Some e" using ttl by (simp add: checked_add_def)
  then obtain e where e: "checked_add 1700000000 ttl = Some e" by blast
  let ?i = "vc_issue (tw_ext W) (tw_key W 0) (did_from_key (tw_ext W) (tw_pk W 1)) ns caps 1700000000 e (replicate 32 b)"
  obtain v where v: "?i = Inr v" by (simp add: vc_issue_def Let_def)
  have "length (hex_enc (tw_ext W) (tw_pk W 0)) \<noteq> 0" unfolding w(3) w(6) by simp
  then have "hex_enc (tw_ext W) (tw_pk W 0) \<noteq> []" by auto
  note ok = vc_roundtrip [OF w(1,4) this v, of pm]
  show ?thesis
    by (rule that [of v]) (use v ok in \<open>auto simp: test_vc_def e vc_issue_def vc_hasher_def vc_signable_bytes_def Let_def simp del: One_nat_def\<close>)
qed

lemma vc_issue_and_verify_passes:
  assumes "seal_world W"
  shows "vc_issue_and_verify W pm = Some ()"
  by (rule test_vc_cases [OF assms, of 86400 "''acme-trading-bot''" "[''trade.equity'', ''portfolio.read'']" 7 pm])
    (simp_all add: vc_issue_and_verify_def)

lemma issuer_key:
  assumes W: "seal_world W"
  shows "did_parse (tw_ext W) (did_from_key (tw_ext W) (tw_pk W k)) = Inr (did_from_key (tw_ext W) (tw_pk W k))"
    "did_verifying_key (tw_ext W) pm (did_from_key (tw_ext W) (tw_pk W k)) = Inr (tw_pk W k)"
proof -
  note w = seal_worldD [OF W]
  have "length (hex_enc (tw_ext W) (tw_pk W k)) \<noteq> 0" unfolding w(3) w(6) by simp
  then have "hex_enc (tw_ext W) (tw_pk W k) \<noteq> []" by auto
  then show "did_parse (tw_ext W) (did_from_key (tw_ext W) (tw_pk W k)) = Inr (did_from_key (tw_ext W) (tw_pk W k))"
    "did_verifying_key (tw_ext W) pm (did_from_key (tw_ext W) (tw_pk W k)) = Inr (tw_pk W k)"
    using did_roundtrip [OF w(1) w(6) [of k], of pm] w(4) [of k] by (simp_all add: signer_wf_def)
qed

lemma vc_tampered:
  assumes W: "seal_world W" and "vc_issuer v = did_from_key (tw_ext W) (tw_pk W 0)" "vc_issuer v' = vc_issuer v"
    and "proof_value (vc_proof_of v') = hex_enc (tw_ext W) (sign_message (tw_key W 0) (h_finalize (tw_ext W) (vc_hasher v)))"
    and "unforged (tw_ext W) (tw_key W 0) (vc_hasher v) (vc_hasher v')" "vc_hasher v \<noteq> vc_hasher v'"
  shows "vc_verify (tw_ext W) pm v' = Inl (HybridSignatureInvalid ''vc-ed25519'')"
  using assms(2-4) unforgedD [OF assms(5,6)] issuer_key(1) [OF W, of 0] issuer_key(2) [OF W, of pm 0] seal_worldD(4) [OF W, of 0] seal_worldD(7) [OF W]
  by (simp add: vc_verify_def vc_hasher_def vc_signable_bytes_def Let_def ok_or_def fixed_bytes_def signer_wf_def)

lemma tampered_capabilities_fail_verify_passes:
  assumes W: "seal_world W"
    and u: "\<And>v v'. test_vc W ''acme-trading-bot'' [''trade.equity''] 86400 1 = Some v \<Longrightarrow>
      v' = v\<lparr>vc_subject := (vc_subject v)\<lparr>subject_capabilities := [''trade.equity'', ''admin.everything'']\<rparr>\<rparr> \<Longrightarrow>
      unforged (tw_ext W) (tw_key W 0) (vc_hasher v) (vc_hasher v')"
  shows "tampered_capabilities_fail_verify W pm = Some ()"
proof (rule test_vc_cases [OF W, of 86400 "''acme-trading-bot''" "[''trade.equity'']" 1 pm])
  fix v assume v: "test_vc W ''acme-trading-bot'' [''trade.equity''] 86400 1 = Some v" "subject_capabilities (vc_subject v) = [''trade.equity'']"
    "vc_issuer v = did_from_key (tw_ext W) (tw_pk W 0)"
    "proof_value (vc_proof_of v) = hex_enc (tw_ext W) (sign_message (tw_key W 0) (h_finalize (tw_ext W) (vc_hasher v)))"
  let ?v = "v\<lparr>vc_subject := (vc_subject v)\<lparr>subject_capabilities := [''trade.equity'', ''admin.everything'']\<rparr>\<rparr>"
  have "vc_hasher v \<noteq> vc_hasher ?v"
    unfolding vc_hasher_def
  proof (rule updates_neq, rule notI, drule arg_cong [where f = length])
  qed (simp add: concat_vc_chunks counted_def v(2) lp_def)
  then have "vc_verify (tw_ext W) pm ?v = Inl (HybridSignatureInvalid ''vc-ed25519'')"
    by (intro vc_tampered [OF W v(3)] u [OF v(1) refl]) (simp_all add: v(4))
  then show ?thesis by (simp add: tampered_capabilities_fail_verify_def v(1,2) Let_def)
qed simp

text \<open>A hexadecimal digit with its bits inverted starts no character that an ASCII character continues.\<close>

definition hex_lower :: "ext \<Rightarrow> bool" where
  "hex_lower E \<longleftrightarrow> (\<forall>b. set (hex_enc E b) \<subseteq> set ''0123456789abcdef'')"

lemma inverted_digit_invalid:
  assumes "c \<in> set ''0123456789abcdef''" "d \<in> set ''0123456789abcdef''"
  shows "\<not> utf8_valid ((of_char c XOR 0xFF) # of_char d # bs)"
proof -
  have d: "\<not> 0x80 \<le> (of_char d :: u8)" using assms(2) by auto
  have "(of_char c XOR 0xFF :: u8) \<in> set [0xCF, 0xCE, 0xCD, 0xCC, 0xCB, 0xCA, 0xC9, 0xC8, 0xC7, 0xC6, 0x9E, 0x9D, 0x9C, 0x9B, 0x9A, 0x99]"
    using assms(1) by auto
  moreover have "\<not> utf8_valid (a # of_char d # bs)" if "0x80 \<le> a" "a \<le> 0xDF" for a :: u8
  proof -
    have "\<not> a < 0x80" using that(1) by simp
    moreover have "\<not> 0xE0 \<le> a" "\<not> 0xF0 \<le> a" using that(2) by (auto simp: word_le_nat_alt word_less_nat_alt)
    ultimately show ?thesis unfolding utf8_valid.simps(2) Let_def by (simp add: d)
  qed
  ultimately show ?thesis by (auto simp del: utf8_valid.simps)
qed

lemma tampered_proof_fails_verify_passes:
  assumes W: "seal_world W" and l: "hex_lower (tw_ext W)"
  shows "tampered_proof_fails_verify W pm = Some ()"
proof (rule test_vc_cases [OF W, of 3600 "''acme-bot''" "[''read'']" 2 pm])
  note w = seal_worldD [OF W]
  fix v assume v: "test_vc W ''acme-bot'' [''read''] 3600 2 = Some v" "vc_issuer v = did_from_key (tw_ext W) (tw_pk W 0)"
    "proof_value (vc_proof_of v) = hex_enc (tw_ext W) (sign_message (tw_key W 0) (h_finalize (tw_ext W) (vc_hasher v)))"
  let ?h = "hex_enc (tw_ext W) (sign_message (tw_key W 0) (h_finalize (tw_ext W) (vc_hasher v)))"
  have "length ?h = 128" using w(4) [of 0] unfolding w(3) signer_wf_def by simp
  then obtain c d s where h: "?h = c # d # s" by (cases ?h; cases "tl ?h") auto
  have sub: "set (c # d # s) \<subseteq> set ''0123456789abcdef''" using l unfolding hex_lower_def h [symmetric] by blast
  have "c \<in> set ''0123456789abcdef''" by (rule subsetD [OF sub]) simp
  moreover have "d \<in> set ''0123456789abcdef''" by (rule subsetD [OF sub]) simp
  ultimately have "\<not> utf8_valid ((of_char c XOR 0xFF) # of_char d # str_bytes s)" by (rule inverted_digit_invalid)
  then have "\<not> utf8_valid (flip_byte 0 0xFF (str_bytes ?h))" unfolding h by (simp add: flip_byte_def str_bytes_def del: utf8_valid.simps)
  then have e: "from_utf8_or_default (flip_byte 0 0xFF (str_bytes ?h)) = []" by (simp add: from_utf8_or_default_def)
  have "hex_enc (tw_ext W) [] = []" using w(3) [of "[]"] by simp
  then have "hex_dec (tw_ext W) [] = Some []" using w(7) [of "[]"] by simp
  then have "vc_verify (tw_ext W) pm (v\<lparr>vc_proof_of := (vc_proof_of v)\<lparr>proof_value := []\<rparr>\<rparr>) = Inl (WireFormatError ''signature must be 64 bytes'')"
    using issuer_key(1) [OF W, of 0] issuer_key(2) [OF W, of pm 0] by (simp add: vc_verify_def v(2) Let_def fixed_bytes_def)
  moreover have "str_bytes ?h \<noteq> []" by (simp add: h str_bytes_def)
  ultimately show ?thesis by (simp add: tampered_proof_fails_verify_def v(1,3) Let_def e)
qed simp


section \<open>Hybrid signatures\<close>

definition algorithm_roundtrip :: "unit option" where
  "algorithm_roundtrip = do {
     _ \<leftarrow> for_each [1, 2, 3] (\<lambda>v. do { alg \<leftarrow> unwrap (alg_from_u8 v); require (alg_as_u8 alg = v) });
     _ \<leftarrow> require (\<not> is_ok (alg_from_u8 0));
     require (\<not> is_ok (alg_from_u8 255))
   }"

definition classical_adapter_verify :: "test_world \<Rightarrow> bool \<Rightarrow> unit option" where
  "classical_adapter_verify W pq = do {
     let msg = str_bytes ''test-message-a1-hybrid'';
     let sig = adapter_sign (tw_ext W) (tw_key W 0) msg;
     let pk = adapter_key (tw_key W 0);
     require (is_ok (hybrid_verify (tw_ext W) pq msg pk sig))
   }"

definition pq_context_binding :: "test_world \<Rightarrow> bool \<Rightarrow> unit option" where
  "pq_context_binding W pq = do {
     let msg = str_bytes ''a1-hybrid-context-test'';
     let sig = adapter_sign (tw_ext W) (tw_key W 0) msg;
     let sig = sig\<lparr>pq_context := flip_byte 0 0x01 (pq_context sig)\<rparr>;
     let pk = adapter_key (tw_key W 0);
     require (\<not> is_ok (hybrid_verify (tw_ext W) pq msg pk sig))
   }"

definition algorithm_mismatch_rejected :: "test_world \<Rightarrow> bool \<Rightarrow> unit option" where
  "algorithm_mismatch_rejected W pq = do {
     let msg = str_bytes ''mismatch-test'';
     let sig = adapter_sign (tw_ext W) (tw_key W 0) msg;
     let pk = adapter_key (tw_key W 0);
     let pk = pk\<lparr>hk_algorithm := HybridMlDsa44Ed25519\<rparr>;
     require (\<not> is_ok (hybrid_verify (tw_ext W) pq msg pk sig))
   }"

definition hybrid_public_key_commitment_distinct :: "test_world \<Rightarrow> unit option" where
  "hybrid_public_key_commitment_distinct W = do {
     let pk_ed = hybrid_classical (tw_pk W 0);
     let pk_hybrid = pk_ed\<lparr>hk_algorithm := HybridMlDsa44Ed25519\<rparr>;
     require (hybrid_key_commitment (tw_ext W) pk_ed \<noteq> hybrid_key_commitment (tw_ext W) pk_hybrid)
   }"

definition chain_algorithm_compatibility_uniform :: "unit option" where
  "chain_algorithm_compatibility_uniform = do {
     let algs = [AlgEd25519, AlgEd25519, AlgEd25519];
     res \<leftarrow> from_algorithms algs;
     compat \<leftarrow> unwrap res;
     require (compat = Uniform AlgEd25519)
   }"

definition chain_algorithm_compatibility_mixed_monotonic :: "unit option" where
  "chain_algorithm_compatibility_mixed_monotonic = do {
     let algs = [AlgEd25519, HybridMlDsa44Ed25519, HybridMlDsa44Ed25519];
     res \<leftarrow> from_algorithms algs;
     compat \<leftarrow> unwrap res;
     require (compat = MixedClassicalToHybrid 1 HybridMlDsa44Ed25519)
   }"

definition chain_algorithm_compatibility_non_monotonic_rejected :: "unit option" where
  "chain_algorithm_compatibility_non_monotonic_rejected = do {
     let algs = [HybridMlDsa44Ed25519, AlgEd25519];
     res \<leftarrow> from_algorithms algs;
     require (\<not> is_ok res)
   }"

definition negotiate_algorithm_defaults_to_ed25519_without_pq_feature :: "bool \<Rightarrow> unit option" where
  "negotiate_algorithm_defaults_to_ed25519_without_pq_feature pq = do {
     let candidates = [AlgEd25519, HybridMlDsa44Ed25519];
     let chosen = negotiate_algorithm pq candidates;
     _ \<leftarrow> (if \<not> pq then require (chosen = AlgEd25519) else Some ());
     (if pq then require (chosen = HybridMlDsa44Ed25519) else Some ())
   }"

definition pq_size_constants :: "unit option" where
  "pq_size_constants = do {
     _ \<leftarrow> require (pq_public_key_len AlgEd25519 = 0);
     _ \<leftarrow> require (pq_public_key_len HybridMlDsa44Ed25519 = 1312);
     _ \<leftarrow> require (pq_public_key_len HybridMlDsa65Ed25519 = 1952);
     _ \<leftarrow> require (pq_signature_len HybridMlDsa44Ed25519 = 2420);
     require (pq_signature_len HybridMlDsa65Ed25519 = 3309)
   }"

lemma algorithm_tests_pass:
  "algorithm_roundtrip = Some ()" "chain_algorithm_compatibility_uniform = Some ()"
  "chain_algorithm_compatibility_mixed_monotonic = Some ()" "chain_algorithm_compatibility_non_monotonic_rejected = Some ()"
  "negotiate_algorithm_defaults_to_ed25519_without_pq_feature pq = Some ()" "pq_size_constants = Some ()"
  by (simp_all add: algorithm_roundtrip_def alg_from_u8_def chain_algorithm_compatibility_uniform_def from_algorithms_def
      chain_algorithm_compatibility_mixed_monotonic_def chain_algorithm_compatibility_non_monotonic_rejected_def
      negotiate_algorithm_defaults_to_ed25519_without_pq_feature_def negotiate_algorithm_def max_def less_eq_signature_algorithm_def
      pq_size_constants_def word_le_nat_alt)

lemma adapter_tests_pass:
  assumes W: "seal_world W"
  shows "classical_adapter_verify W pq = Some ()" "pq_context_binding W pq = Some ()" "algorithm_mismatch_rejected W pq = Some ()"
proof -
  let ?E = "tw_ext W" and ?S = "tw_key W 0"
  note w = seal_worldD [OF W]
  show "classical_adapter_verify W pq = Some ()"
    by (simp add: classical_adapter_verify_def classical_adapter.signs [OF w(8)])
  let ?s = "adapter_sign ?E ?S (str_bytes ''a1-hybrid-context-test'')"
  have "length (pq_context ?s) = 32" using w(2) by (simp add: adapter_sign_def compute_pq_context_def)
  then have "flip_byte 0 0x01 (pq_context ?s) \<noteq> pq_context ?s" by (intro flip_byte_neq) simp_all
  then have "hybrid_verify ?E pq (str_bytes ''a1-hybrid-context-test'') (adapter_key ?S) (?s\<lparr>pq_context := flip_byte 0 0x01 (pq_context ?s)\<rparr>) \<noteq> Inr ()"
    unfolding hybrid_verify_Inr by (simp add: adapter_sign_def)
  then show "pq_context_binding W pq = Some ()"
    unfolding pq_context_binding_def Let_def by (auto simp: is_ok_def split: sum.split)
  show "algorithm_mismatch_rejected W pq = Some ()"
    by (simp add: algorithm_mismatch_rejected_def classical_adapter.cross_algorithm adapter_algorithm_def)
qed

lemma hybrid_public_key_commitment_distinct_passes:
  assumes "hash_binds (tw_ext W) (h_updates (new_derive_key DOMAIN_HYBRID_ALGO) (key_chunks (hybrid_classical (tw_pk W 0))))
    (h_updates (new_derive_key DOMAIN_HYBRID_ALGO) (key_chunks ((hybrid_classical (tw_pk W 0))\<lparr>hk_algorithm := HybridMlDsa44Ed25519\<rparr>)))"
  shows "hybrid_public_key_commitment_distinct W = Some ()"
proof -
  have "concat (key_chunks (hybrid_classical (tw_pk W 0))) \<noteq> concat (key_chunks ((hybrid_classical (tw_pk W 0))\<lparr>hk_algorithm := HybridMlDsa44Ed25519\<rparr>))"
    by (simp add: key_chunks_def hybrid_classical_def)
  from updates_neq [OF this] assms show ?thesis
    unfolding hash_binds_def by (auto simp: hybrid_public_key_commitment_distinct_def hybrid_key_commitment_def Let_def)
qed

section \<open>A world of the tests\<close>

text \<open>The stand-in crates with keys of 32 bytes and nonces of 16 are such a world, and their codec is a strict one.\<close>

definition seal_toy :: test_world where
  "seal_toy = \<lparr>tw_ext = toy_ext, tw_key = (\<lambda>k. toy_signer (demo_pk (of_nat k))), tw_nonce = (\<lambda>k. replicate 15 7 @ [of_nat k]),
     tw_clock = (\<lambda>_. 1700000000), tw_rnd = []\<rparr>"

lemma seal_toy_ok: "seal_world seal_toy"
  using demo_signer_wf by (simp add: seal_world_def seal_toy_def toy_hex_ok) (simp add: toy_ext_def toy_hex_length)

lemma seal_toy_lower: "hex_lower (tw_ext seal_toy)"
proof -
  have "list_all (\<lambda>n. nibble n \<in> set ''0123456789abcdef'') [0..<16]" by code_simp
  then have n: "nibble n \<in> set ''0123456789abcdef''" if "n < 16" for n using that unfolding list_all_iff by (simp del: list.set nibble.simps)
  have "set (toy_hex_enc b) \<subseteq> set ''0123456789abcdef''" for b
  proof (induction b)
    case (Cons a b)
    have "unat a < 256" using unsigned_less [of a] by simp
    then have d: "unat a div 16 < 16" "unat a mod 16 < 16" by auto
    from n [OF d(1)] n [OF d(2)] Cons.IH show ?case unfolding toy_hex_enc.simps by (simp only: list.set insert_subset)
  qed simp
  then show ?thesis by (simp add: hex_lower_def seal_toy_def toy_ext_def)
qed

lemma seal_toy_strict: "hex_strict (tw_ext seal_toy)"
proof -
  have u: "c \<in> set ''0123456789abcdefABCDEF''" if "unnibble c = Some n" for c n
  proof -
    have "(of_char c :: nat) \<in> set ([48..<58] @ [97..<103])"
      using that unfolding unnibble_def Let_def set_append set_upt Un_iff atLeastLessThan_iff by (auto simp del: of_char_of split: if_splits)
    moreover have "list_all (\<lambda>k. char_of k \<in> set ''0123456789abcdefABCDEF'') ([48..<58] @ [97..<103 :: nat])" by code_simp
    ultimately have "char_of (of_char c :: nat) \<in> set ''0123456789abcdefABCDEF''" unfolding list_all_iff by blast
    then show ?thesis by simp
  qed
  have "toy_hex_dec s = Some b \<Longrightarrow> length s = 2 * length b \<and> set s \<subseteq> set ''0123456789abcdefABCDEF''" for s b
  proof (induction s arbitrary: b rule: toy_hex_dec.induct)
    case (2 c d cs)
    then obtain h l bs where p: "unnibble c = Some h" "unnibble d = Some l" "toy_hex_dec cs = Some bs" "b = word_of_nat (16 * h + l) # bs"
      by (auto split: option.splits)
    from "2.IH" [OF p(3)] u [OF p(1)] u [OF p(2)] p(4) show ?case by (simp only: list.set insert_subset list.size) simp
  qed simp_all
  then show ?thesis by (simp add: hex_strict_def seal_toy_def toy_ext_def)
qed

end
