(* ===== verification/A1_Protocol.thy ===== *)
theory A1_Protocol
  imports A1_Chain A1_Demo
begin

text \<open>
  The verification algorithm as \<open>spec/A1-PROTOCOL.md\<close>, section 9.2, writes it, set beside
  the authorization of \<open>src/chain.rs\<close>. The document's integers are unbounded (\<open>clock\<close> less the
  tolerance may be negative). It leaves \<open>SCOPE_IS_SUBSET\<close> and \<open>KNOWN_VERSIONS\<close> open: here a
  scope is a subset when the code's \<open>scope_step\<close> accepts it, and the one known version is the code's.
  The two agree except on the window of time and on the depth, and the lemmas below say
  exactly how.
\<close>

section \<open>The algorithm of the document\<close>

definition scope_is_subset :: "ext \<Rightarrow> bytes \<Rightarrow> delegation_cert \<Rightarrow> bool" where
  "scope_is_subset E parent x \<longleftrightarrow> scope_step E 0 parent x = Inr ()"

fun protocol_hops ::
  "ext \<Rightarrow> u64 \<Rightarrow> u64 \<Rightarrow> bytes set \<Rightarrow> bytes set \<Rightarrow> bytes \<Rightarrow> u64 \<Rightarrow> bytes \<Rightarrow> bytes set \<Rightarrow> delegation_cert list \<Rightarrow> bool" where
  "protocol_hops E clock drift nonces revoked parent_scope max_expiry prev_pk seen [] \<longleftrightarrow> True"
| "protocol_hops E clock drift nonces revoked parent_scope max_expiry prev_pk seen (x # xs) \<longleftrightarrow>
     delegator_pk x = prev_pk
     \<and> version x = CERT_VERSION
     \<and> verify_signature E x
     \<and> issued_at x < expiration_unix x
     \<and> expiration_unix x \<le> max_expiry
     \<and> uint (issued_at x) \<le> uint clock + uint drift
     \<and> uint (expiration_unix x) > uint clock - uint drift
     \<and> unat (max_depth x) \<ge> length xs
     \<and> nonce x \<notin> seen
     \<and> nonce x \<notin> nonces
     \<and> cert_fingerprint E x \<notin> revoked
     \<and> scope_is_subset E parent_scope x
     \<and> protocol_hops E clock drift nonces revoked (scope_root x) (expiration_unix x) (delegate_pk x)
         (insert (nonce x) seen) xs"

definition protocol_verify ::
  "ext \<Rightarrow> bytes \<Rightarrow> bytes \<Rightarrow> merkle_proof \<Rightarrow> u64 \<Rightarrow> bytes set \<Rightarrow> bytes set \<Rightarrow> dyolo_chain \<Rightarrow> bool" where
  "protocol_verify E agent_pk intent p clock nonces revoked c \<longleftrightarrow>
     length (certs c) > 0
     \<and> delegator_pk (certs c ! 0) = principal_pk c
     \<and> delegate_pk (last (certs c)) = agent_pk
     \<and> protocol_hops E clock (drift_tolerance_secs c) nonces revoked (principal_scope c) (- 1)
         (principal_pk c) {} (certs c)
     \<and> merkle_verify E p intent (scope_root (last (certs c)))"

section \<open>What the document asks in closed form\<close>

text \<open>The two places where the document and the code part: the window of a certificate, and the depth.\<close>

definition strict_window :: "u64 \<Rightarrow> u64 \<Rightarrow> delegation_cert \<Rightarrow> bool" where
  "strict_window now drift x \<longleftrightarrow> issued_at x < expiration_unix x \<and> uint now - uint drift < uint (expiration_unix x)"

definition depth_left :: "delegation_cert list \<Rightarrow> bool" where
  "depth_left xs \<longleftrightarrow> (\<forall>j<length xs. length xs - j - 1 \<le> unat (max_depth (xs ! j)))"

lemma depth_left_Cons [simp]:
  "depth_left (x # xs) \<longleftrightarrow> length xs \<le> unat (max_depth x) \<and> depth_left xs"
  by (simp add: depth_left_def All_less_Suc2)

lemma depth_left_Nil [simp]: "depth_left []" by (simp add: depth_left_def)

text \<open>The rule of the code says that every certificate but the last allows the whole chain.\<close>

lemma depths_ok_whole: "depths_ok xs \<longleftrightarrow> (\<forall>j<length xs - 1. length xs \<le> unat (max_depth (xs ! j)))"
proof (intro iffI allI impI)
  fix j assume "depths_ok xs" "j < length xs - 1"
  then have "length xs - 1 + 1 \<le> unat (max_depth (xs ! j))" unfolding depths_ok_def by fastforce
  then show "length xs \<le> unat (max_depth (xs ! j))" by linarith
next
  assume h: "\<forall>j<length xs - 1. length xs \<le> unat (max_depth (xs ! j))"
  show "depths_ok xs" unfolding depths_ok_def
  proof (intro allI impI)
    fix i j assume "i < length xs" "j < i"
    then have "j < length xs - 1" "i + 1 \<le> length xs" by auto
    with h show "i + 1 \<le> unat (max_depth (xs ! j))" using order_trans by blast
  qed
qed

text \<open>It is the stronger of the two.\<close>

lemma depths_ok_left: "depths_ok xs \<Longrightarrow> depth_left xs"
  unfolding depths_ok_whole depth_left_def
proof (intro allI impI)
  fix j assume h: "\<forall>j<length xs - 1. length xs \<le> unat (max_depth (xs ! j))" "j < length xs"
  then show "length xs - j - 1 \<le> unat (max_depth (xs ! j))"
    by (cases "j < length xs - 1") auto
qed

lemma early_enough: "issued_at x \<le> sat_add now drift \<longleftrightarrow> uint (issued_at x) \<le> uint now + uint drift"
  using unsigned_less [of "issued_at x", where 'a = nat]
  by (simp add: word_le_nat_alt unat_sat_add uint_nat min_def del: of_nat_unat) linarith

lemma late_enough: "sat_sub now drift \<le> e \<longleftrightarrow> uint now - uint drift \<le> uint (e :: u64)"
  by (simp add: word_le_nat_alt unat_sat_sub uint_nat del: of_nat_unat) linarith

lemma strict_in_window:
  "strict_window now drift x \<and> uint (issued_at x) \<le> uint now + uint drift \<longleftrightarrow>
     strict_window now drift x \<and> in_window now drift x"
  by (auto simp: strict_window_def in_window_def early_enough late_enough)

lemma scope_is_subset_iff:
  "scope_is_subset E s x \<longleftrightarrow>
     (if is_passthrough x then scope_root x = s else verify_and_derive_root E (scope_proof x) s = Inr (scope_root x))"
  by (simp add: scope_is_subset_def scope_step_Inr_iff)

lemma protocol_hops_iff:
  "protocol_hops E now drift U R s e pk S xs \<longleftrightarrow>
     linked pk xs \<and> scoped E s xs \<and> depth_left xs
     \<and> (\<forall>x\<in>set xs. version x = CERT_VERSION \<and> verify_signature E x \<and> strict_window now drift x \<and> in_window now drift x)
     \<and> (\<forall>x\<in>set xs. expiration_unix x \<le> e) \<and> sorted_wrt (\<lambda>x y. expiration_unix y \<le> expiration_unix x) xs
     \<and> distinct (map nonce xs) \<and> nonce ` set xs \<inter> (S \<union> U) = {} \<and> cert_fingerprint E ` set xs \<inter> R = {}"
proof (induction xs arbitrary: s e pk S)
  case (Cons x xs)
  have w: "issued_at x < expiration_unix x \<and> uint (issued_at x) \<le> uint now + uint drift
      \<and> uint (expiration_unix x) > uint now - uint drift \<longleftrightarrow> strict_window now drift x \<and> in_window now drift x"
    using strict_in_window [of now drift x] by (auto simp: strict_window_def)
  show ?case
    unfolding protocol_hops.simps Cons.IH scope_is_subset_iff
    using w by (auto simp: order.trans) 
qed simp

lemma protocol_verify_iff:
  "protocol_verify E agent intent p now U R c \<longleftrightarrow>
     certs c \<noteq> [] \<and> linked (principal_pk c) (certs c) \<and> leaf_pk (principal_pk c) (certs c) = agent
     \<and> (\<forall>x\<in>set (certs c). version x = CERT_VERSION \<and> verify_signature E x
          \<and> strict_window now (drift_tolerance_secs c) x \<and> in_window now (drift_tolerance_secs c) x)
     \<and> sorted_wrt (\<lambda>x y. expiration_unix y \<le> expiration_unix x) (certs c)
     \<and> depth_left (certs c) \<and> distinct (map nonce (certs c)) \<and> scoped E (principal_scope c) (certs c)
     \<and> intent_authorized E p intent (leaf_scope (principal_scope c) (certs c))
     \<and> chain_fps E c \<inter> R = {} \<and> chain_nonces c \<inter> U = {}"
proof (cases "certs c = []")
  case False
  have "linked (principal_pk c) (certs c) \<Longrightarrow> delegator_pk (certs c ! 0) = principal_pk c"
    using linked_hd [OF False] by (simp add: hd_conv_nth [OF False])
  moreover have "expiration_unix x \<le> - 1" for x by simp
  ultimately show ?thesis
    using False unfolding protocol_verify_def protocol_hops_iff intent_authorized_merkle
    by (auto simp: leaf_pk_def leaf_scope_def chain_fps_def chain_nonces_def)
qed (simp add: protocol_verify_def)

section \<open>The code beside the document\<close>

definition code_grants ::
  "ext \<Rightarrow> bytes \<Rightarrow> bytes \<Rightarrow> merkle_proof \<Rightarrow> u64 \<Rightarrow> u64 \<Rightarrow> memory_nonce_store \<Rightarrow> memory_revocation_store \<Rightarrow> dyolo_chain \<Rightarrow> bool" where
  "code_grants E agent intent p now t s r c \<longleftrightarrow>
     \<not> isl (fst (authorize_inner E agent intent p now (mem_is_revoked r) (mem_try_consume_batch t) None c s))"

lemma code_grants_iff:
  assumes "mem_rev_inv r" "nonce_inv s" "batch_complete E" "batch_sound E"
  shows "code_grants E agent intent p now t s r c \<longleftrightarrow>
    chain_valid E agent intent p now (drift_tolerance_secs c) c
    \<and> chain_fps E c \<inter> revoked_set r = {} \<and> chain_nonces c \<inter> live t s = {}"
proof -
  have "code_grants E agent intent p now t s r c \<longleftrightarrow>
    (\<exists>rc s'. authorize_inner E agent intent p now (mem_is_revoked r) (mem_try_consume_batch t) None c s = (Inr rc, s'))"
    unfolding code_grants_def
    by (cases "authorize_inner E agent intent p now (mem_is_revoked r) (mem_try_consume_batch t) None c s"; cases "fst (authorize_inner E agent intent p now (mem_is_revoked r) (mem_try_consume_batch t) None c s)") auto
  then show ?thesis
    unfolding mem_auth.authorize_inner_iff(1) [OF assms] by (simp add: policy_ok_def)
qed

text \<open>The namespace of a chain is not looked at: it only reaches the receipt.\<close>

lemma chain_valid_no_namespace:
  "chain_valid E agent intent p now drift (c\<lparr>namespace := n\<rparr>) \<longleftrightarrow> chain_valid E agent intent p now drift c"
  "chain_fps E (c\<lparr>namespace := n\<rparr>) = chain_fps E c" "chain_nonces (c\<lparr>namespace := n\<rparr>) = chain_nonces c"
  by (simp_all add: chain_valid_def chain_fps_def chain_nonces_def)

lemma code_grants_protocol:
  assumes "mem_rev_inv r" "nonce_inv s" "batch_complete E" "batch_sound E"
  shows "code_grants E agent intent p now t s r c \<Longrightarrow>
      protocol_verify E agent intent p now (live t s) (revoked_set r) c \<longleftrightarrow>
        (\<forall>x\<in>set (certs c). strict_window now (drift_tolerance_secs c) x)"
    and "protocol_verify E agent intent p now (live t s) (revoked_set r) c \<Longrightarrow>
      code_grants E agent intent p now t s r c \<longleftrightarrow> length (certs c) \<le> 255 \<and> depths_ok (certs c)"
    and "code_grants E agent intent p now t s r (c\<lparr>namespace := n\<rparr>) \<longleftrightarrow> code_grants E agent intent p now t s r c"
  using depths_ok_left [of "certs c"]
  unfolding code_grants_iff [OF assms] protocol_verify_iff chain_valid_no_namespace
  by (auto simp: chain_valid_def)

section \<open>Two chains on which they part\<close>

definition spec_cert :: "u8 \<Rightarrow> u8 \<Rightarrow> u64 \<Rightarrow> u64 \<Rightarrow> u8 \<Rightarrow> delegation_cert" where
  "spec_cert a b iat e md = cert_issue toy_ext (toy_signer (demo_pk a)) (demo_pk b) demo_scope
     full_passthrough (replicate 16 b) iat e md extensions_new"

lemma spec_cert_sels [simp]:
  "version (spec_cert a b iat e md) = CERT_VERSION" "delegator_pk (spec_cert a b iat e md) = demo_pk a"
  "delegate_pk (spec_cert a b iat e md) = demo_pk b" "scope_root (spec_cert a b iat e md) = demo_scope"
  "nonce (spec_cert a b iat e md) = replicate 16 b" "issued_at (spec_cert a b iat e md) = iat"
  "expiration_unix (spec_cert a b iat e md) = e" "max_depth (spec_cert a b iat e md) = md"
  "verify_signature toy_ext (spec_cert a b iat e md)" "is_passthrough (spec_cert a b iat e md)"
  by (simp_all add: spec_cert_def cert_issue_verifies is_passthrough_def full_passthrough_def)
    (simp add: toy_signer_def)

text \<open>A certificate issued after its own expiry, and a principal who allows one delegation.\<close>

definition backdated_chain :: dyolo_chain where
  "backdated_chain = demo_chain\<lparr>certs := [spec_cert 1 3 505 495 16]\<rparr>"

definition one_level_chain :: dyolo_chain where
  "one_level_chain = demo_chain\<lparr>certs := [spec_cert 1 2 100 1000 1, spec_cert 2 3 100 900 0]\<rparr>"

lemma backdated_granted:
  "code_grants toy_ext (demo_pk 3) [1] demo_proof 500 500 mem_nonce_new mem_rev_new backdated_chain"
  using demo_proof_verifies
  unfolding code_grants_iff [OF mem_rev_inv_new nonce_inv_new toy_batch_complete toy_batch_sound]
  by (simp add: backdated_chain_def chain_valid_def leaf_pk_def leaf_scope_def depths_ok_def in_window_def
      word_le_nat_alt unat_sat_add unat_sat_sub intent_authorized_merkle)

lemma backdated_not_strict: "\<exists>x\<in>set (certs backdated_chain). \<not> strict_window 500 15 x"
  by (simp add: backdated_chain_def strict_window_def)

lemma one_level_verifies:
  "protocol_verify toy_ext (demo_pk 3) [1] demo_proof 500 {} {} one_level_chain"
  using demo_proof_verifies
  unfolding protocol_verify_iff
  by (simp add: one_level_chain_def leaf_pk_def leaf_scope_def in_window_def strict_window_def
      word_le_nat_alt unat_sat_add unat_sat_sub intent_authorized_merkle)

lemma one_level_too_deep: "\<not> depths_ok (certs one_level_chain)"
  by (simp add: one_level_chain_def depths_ok_two)

end
