(* ===== verification/Spec2Isabelle.thy ===== *)
theory Spec2Isabelle
  imports A1_DemoGw A1_Context A1_Calendar A1_Governance A1_Did A1_Zk A1_ZkGuest
    A1_GwJwt A1_GwSwarm A1_GwOps A1_Mcp A1_GwPassports A1_GwSystem A1_GwAgents A1_GwConnect A1_GwProbe
    A1_Hybrid A1_Bind A1_Stores A1_PgStore A1_Ffi A1_Siem A1_Async A1_Vault A1_CliMain A1_Studio A1_SerdeHex A1_GwSetup A1_GwTasks A1_Tasks A1_SealTests
    A1_Protocol
begin

text \<open>
  A1 is an authorization library for software agents, with the services built on it. A principal signs
  a certificate that gives an agent a set of intents (the leaves of a Merkle tree, its scope) for a
  window of time; the agent may sign a certificate for a sub-scope to the next one, and so on. A chain
  of such certificates is presented with an intent and its Merkle proof to an authorizer, which checks
  the structure of the chain, asks a revocation store about every certificate, and consumes the nonce
  of every certificate in a nonce store, so that a chain is good for one authorization.

  This development models the library (\<open>src/\<close>), its server-backed stores (\<open>a1-redis\<close>, \<open>a1-pg\<close>),
  the HTTP gateway (\<open>a1-gateway\<close>), the identity crate (\<open>a1-identity\<close>), the command line
  (\<open>a1-cli\<close>), the C interface and the zero-knowledge guest. Names are the code's, with a prefix or a
  suffix where Isabelle has the name already. Every theory opens with the files it models.

  The library
    \<^item> \<open>A1_Prelude\<close>: machine types (\<open>u8\<close> to \<open>u64\<close> are words and wrap or saturate where the
      code does), \<open>Result\<close> as a sum with its question mark operator (\<open>bindR\<close>), byte encodings, a
      little \<open>BTreeMap\<close> (locale \<open>ordered_map\<close>). \<open>A1_Crypto\<close>: \<open>crypto.rs\<close> over the record
      \<open>ext\<close> of what the crates BLAKE3, Ed25519 and hex compute. \<open>A1_Errors\<close>: \<open>error.rs\<close>.
    \<^item> \<open>A1_Intent\<close>, \<open>A1_Narrowing\<close>, \<open>A1_Cert\<close>, \<open>A1_Delegation\<close>: \<open>intent.rs\<close>, \<open>identity/narrowing.rs\<close>,
      \<open>cert.rs\<close> with \<open>cert_extensions.rs\<close>, and the data of \<open>chain.rs\<close>. Their lemmas are: byte
      encodings are injective, Merkle proofs are complete and sound, masks are a lattice, and what
      is signed determines what was signed.
    \<^item> \<open>A1_Registry\<close>, \<open>A1_Nonces\<close>: \<open>registry.rs\<close>. The locales \<open>revocation_store\<close>,
      \<open>nonce_store\<close>, \<open>persistent_nonce_store\<close> and \<open>nonce_basic\<close> (the default batch of the trait)
      say what the authorizer relies on; the stores in memory interpret them.
    \<^item> \<open>A1_Chain\<close>: the rest of \<open>chain.rs\<close>. \<open>hop\<close> is one turn of the loop of
      \<open>validate_structure\<close>, \<open>walk_chain\<close> the loop, \<open>blame_signature\<close> the second pass that finds
      the bad signature of a failed batch. \<open>chain_valid\<close> is the specification, and the locale
      \<open>authorizer\<close> proves what an authorization decides over any pair of stores. \<open>A1_Protocol\<close>: the algorithm
      of \<open>spec/A1-PROTOCOL.md\<close> (9.2), and where the two part.
      \<open>A1_Policy\<close>: \<open>policy.rs\<close>. \<open>A1_Runs\<close>: sequences of calls on one pair of stores.
      \<open>A1_Context\<close>, \<open>A1_Async\<close>, \<open>A1_Tasks\<close>: \<open>context.rs\<close> and the asynchronous half of
      \<open>registry.rs\<close> and \<open>chain.rs\<close>; a task that awaits is a state that others may interleave with
      (locale \<open>shared_stores\<close>).
    \<^item> \<open>A1_Passport\<close>, \<open>A1_Swarm\<close>, \<open>A1_Provenance\<close>, \<open>A1_Wire\<close>, \<open>A1_Negotiate\<close>, \<open>A1_Governance\<close>,
      \<open>A1_Did\<close>, \<open>A1_Zk\<close>, \<open>A1_Hybrid\<close>, \<open>A1_Audit\<close>, \<open>A1_Siem\<close>, \<open>A1_Vault\<close>, \<open>A1_Calendar\<close>: the module
      each is named after (\<open>A1_Siem\<close> the exporters of \<open>audit.rs\<close>, \<open>A1_Vault\<close> \<open>identity.rs\<close>,
      \<open>A1_Zk\<close> also \<open>anchor.rs\<close>). The locale \<open>signed_message\<close> states what every verifier of a
      signed message shares and is interpreted for the messages of the negotiation and for approval
      tokens; \<open>hybrid_signer\<close> is the trait of the hybrid signers, whose algorithms are an instance
      of \<open>linorder\<close>. \<open>A1_SerdeHex\<close>: the modules that write byte fields as text (locale \<open>byte_codec\<close>).

  Around it
    \<^item> \<open>A1_Stores\<close>, \<open>A1_PgStore\<close>: the two server-backed store crates. The server is a parameter;
      \<open>redis_ok\<close> and \<open>pg_ok\<close> state what is documented of the commands sent, and the stores are
      shown to answer as the abstract sets do.
    \<^item> \<open>A1_Json\<close>, \<open>A1_Gateway\<close>, \<open>A1_GwIssue\<close>, \<open>A1_GwJwt\<close>, \<open>A1_GwSwarm\<close>, \<open>A1_GwOps\<close>, \<open>A1_Mcp\<close>,
      \<open>A1_GwPassports\<close>, \<open>A1_GwSystem\<close>, \<open>A1_GwAgents\<close>, \<open>A1_GwConnect\<close>, \<open>A1_GwProbe\<close>, \<open>A1_GwSetup\<close>,
      \<open>A1_GwTasks\<close>: the gateway. \<open>gateway_main\<close> starts it and \<open>shutdown_signal\<close> ends it; \<open>serve\<close> takes a request
      through the three layers to its handler; the handlers are functions of the request and
      of the gateway's state, or of a file system (a map from paths to texts). \<open>A1_GwTasks\<close> lets the
      requests for an authorization, a batch and a revocation run side by side, between any two of their
      awaits, and shows that they are tasks of \<open>A1_Tasks\<close>. \<open>A1_Studio\<close>: the page of the Studio and the
      build script that puts it together.
    \<^item> \<open>A1_Bind\<close>: policy documents and the JWT and SPIFFE bindings of \<open>a1-identity\<close> (locale
      \<open>signed_binding\<close>). \<open>A1_Cli\<close>, \<open>A1_CliMain\<close>: the commands and their entry. \<open>A1_Ffi\<close>: the C interface; an address that does
      not hold what the caller says it does makes a call undefined, which is None.
      \<open>A1_ZkGuest\<close>: the guest program.
    \<^item> \<open>A1_Demo\<close>, \<open>A1_DemoGw\<close>: concrete chains and a concrete gateway, over a computable \<open>ext\<close>, for
      the instances that show the theorems' hypotheses can hold.
    \<^item> \<open>A1_Scenarios\<close>, \<open>A1_PassportScenarios\<close>: the integration tests (\<open>tests/\<close>) and the unit tests of
      \<open>passport/mod.rs\<close>; \<open>A1_UnitTests\<close>, \<open>A1_MaskTests\<close>, \<open>A1_TraceTests\<close>, \<open>A1_SealTests\<close>: the unit
      tests of the other modules (in \<open>A1_TraceTests\<close> also the display of \<open>identity/receipt.rs\<close>). A test
      is a program over the model whose value is None where the code would panic, and the lemmas
      \<open>..._passes\<close> and \<open>..._pass\<close> show that it ends well in every world: for all generated keys, nonces,
      clock readings and hashes that satisfy the hypotheses they name (\<open>world_ok\<close>, \<open>passport_world\<close>,
      \<open>seal_world\<close>; \<open>toy_world\<close> and \<open>seal_toy\<close> are such worlds). \<open>A1_TradingAgent\<close>: the example
      program, whose output is computed in full.

  What this theory shows. Authorization (C1 to C15): validation accepts exactly the chains the code
  means by valid and its errors are true of the chain they blame; an authorization decides by policy, structure,
  revocation and nonces together and a denial costs nothing; a nonce is granted once over any run of
  the library, among concurrent tasks and among concurrent requests to the gateway; no delegation widens a
  scope; the same decision is reached asynchronously, over Redis, over PostgreSQL as far as its
  faults allow, and through the C interface; and when the gateway authorizes what it issued.
  Scopes and masks (C16 to C18, C20), what is signed (C19), the stores (C21 to C23), policies and
  passports (C24 to C26), provenance, swarms, the wire and negotiation (C27 to C33), the default batch
  of the asynchronous trait (C34, C35), the SIEM exporter (C36), the library beside the
  protocol document (C37), the write route of the Studio (C38), hybrid signatures (C39) and the guest
  (C40). The lemmas without a number say more about the same parts.

  Where the code is not what its documents say it is, the definitions follow the code, and the text of the
  property says where the two part: C1, C2 and C37 (window, depth, namespace), C10 (policies and batches), C12 (a refused
  batch), C13 (more than one intent), C14 (public revocation), C24 (forbidden sub-delegation), C30
  (scope of a member), C35 (atomicity), C36 (delivery), C38 (links), C39 (the post-quantum part), C40
  (digests).

  Assumptions. \<open>batch_complete\<close> and \<open>batch_sound\<close> say that the batch verifier of the signature crate
  agrees with its single verifier; theorems about binding assume that the hash is injective
  where it is used, or conclude that otherwise a collision is at hand; hex, JSON and base64 decoders are
  assumed to invert their encoders where a round trip is claimed. Time is an argument, read once per
  call as in the code; random bytes are arguments.

  Bounds. Loops are structural or come with a measure. A Redis scan, whose cursor the server chooses,
  is a partial function whose result is None if it never ends; a PostgreSQL batch is
  tried \<open>MAX_RETRIES\<close> (3) times as in the code; the default asynchronous batch of \<open>n\<close> nonces is
  shown to end within \<open>2 * n\<close> awaits, whatever its store answers.

  Not modelled: what clap, serde, axum, tokio, the database drivers and the HTTP clients do; crate
  roots, which re-export; benches, which time the library; the erasure of keys from memory.
\<close>

section \<open>Authorization\<close>

text \<open>
  C1: \<open>validate_structure\<close> accepts a chain exactly when it is valid: non-empty and of at most 255
  certificates, linked from the principal to the executing agent, every certificate of the right
  version, inside its time window and correctly signed, expiries non-increasing, depths within every
  earlier limit, nonces distinct, scopes derived hop by hop, and the intent inside the last scope.
  The result carries the leaf scope and the chain's nonces and fingerprints.

  Valid is what \<open>chain.rs\<close> takes it to be, which is not what the documents say. \<open>spec/A1-PROTOCOL.md\<close>
  (5.3, 9.2, 13-C3) rejects a certificate issued at or after its expiry and one that expires exactly when
  the tolerated present begins, and asks of \<open>max_depth\<close> only that it covers the hops that remain;
  \<open>wiki/Security-Model.md\<close> (3b, 3c) agrees with it, without a tolerance. Here the first is accepted within the
  tolerance, the second is accepted, and every certificate but the last must allow the whole
  length of the chain. C37 says exactly which chains the two treat differently.
\<close>

theorem validate_structure_correct:
  assumes "batch_complete E" "batch_sound E"
  shows "validate_structure E agent intent p now drift c = Inr v \<longleftrightarrow>
    chain_valid E agent intent p now drift c \<and> v = result_of E now c"
  by (rule validate_structure_iff [OF assms])

theorem validate_structure_correct_witness:
  "validate_structure toy_ext (demo_pk 3) [1] demo_proof 500 15 demo_chain = Inr (result_of toy_ext 500 demo_chain)"
  using validate_structure_correct [OF toy_batch_complete toy_batch_sound] demo_valid by blast

text \<open>
  C2: over the in-memory stores \<open>authorize\<close> succeeds exactly when the policies accept the chain, the
  chain is valid, none of its certificates is revoked and none of its nonces is in use. A success
  returns the receipt of this chain and intent and uses up the chain's nonces; a denial leaves the
  nonce store as it was.

  This too parts from \<open>wiki/Security-Model.md\<close>: no namespace is compared (the error the wiki names is
  raised nowhere, and by C37 the namespace of a chain plays no part), the window and the depth are those of C1, and the
  nonces consumed are those of the certificates and not one of the intent.
\<close>

theorem authorize_decides:
  assumes "mem_rev_inv r" "nonce_inv s" "batch_complete E" "batch_sound E"
  shows "case authorize_inner E agent intent p now (mem_is_revoked r) (mem_try_consume_batch t) pol c s of
      (Inr rc, s') \<Rightarrow>
        policy_ok pol c \<and> chain_valid E agent intent p now (drift_tolerance_secs c) c
        \<and> chain_fps E c \<inter> revoked_set r = {} \<and> chain_nonces c \<inter> live t s = {}
        \<and> rc = receipt_for E now intent c \<and> nonce_inv s' \<and> live t s' = chain_nonces c \<union> live t s
    | (Inl e, s') \<Rightarrow>
        \<not> (policy_ok pol c \<and> chain_valid E agent intent p now (drift_tolerance_secs c) c
           \<and> chain_fps E c \<inter> revoked_set r = {} \<and> chain_nonces c \<inter> live t s = {})
        \<and> s' = s"
  by (rule mem_auth.authorize_cases [OF assms])

theorem authorize_decides_witness:
  "\<exists>s'. authorize_inner toy_ext (demo_pk 3) [1] demo_proof 500 (mem_is_revoked mem_rev_new)
      (mem_try_consume_batch 500) None demo_chain mem_nonce_new
    = (Inr (receipt_for toy_ext 500 [1] demo_chain), s') \<and> live 500 s' = chain_nonces demo_chain"
  using authorize_decides [OF mem_rev_inv_new nonce_inv_new toy_batch_complete toy_batch_sound,
      where pol = None and c = demo_chain and agent = "demo_pk 3" and intent = "[1]" and p = demo_proof
        and now = 500 and t = 500] demo_valid
  by (auto simp: policy_ok_def revoked_set_new live_new split: prod.splits sum.splits)

text \<open>
  C3: every error \<open>validate_structure\<close> reports is true of the chain it names: the hop at the
  reported index does break the linkage, is expired, escalates the scope, and so on.
\<close>

theorem validate_errors_are_true:
  assumes "batch_complete E" and "validate_structure E agent intent p now drift c = Inl err"
  shows "error_holds E agent intent p now drift c err"
  by (rule validate_error_holds [OF assms])

theorem validate_errors_are_true_witness:
  "validate_structure toy_ext (demo_pk 3) [1] demo_proof 2000 15 demo_chain = Inl (Expired 0 1000 2000)
   \<and> error_holds toy_ext (demo_pk 3) [1] demo_proof 2000 15 demo_chain (Expired 0 1000 2000)"
proof -
  have e: "validate_structure toy_ext (demo_pk 3) [1] demo_proof 2000 15 demo_chain = Inl (Expired 0 1000 2000)"
    by (simp add: validate_structure_def hop_def walk_start_def sat_add_def sat_sub_def Let_def)
  from validate_errors_are_true [OF toy_batch_complete e] e show ?thesis by blast
qed





text \<open>
  C6: authorizations that run concurrently, as tasks that await the stores in memory one call at a
  time while others run and certificates are revoked: whatever the interleaving, a task that is granted
  validated its chain, no two tasks are granted a common nonce, and a certificate that was revoked before
  a task began is in no chain it is granted. What is revoked while a task is under way it may miss.
\<close>

theorem concurrent_grants_are_single_use:
  assumes "pool_run E mem_is_revoked mem_revoke mem_try_consume_batch
      \<lparr>pool_rev = mem_rev_new, pool_nonces = mem_nonce_new, pool_tasks = []\<rparr> p"
    and "pool_run E mem_is_revoked mem_revoke mem_try_consume_batch p p'"
    and "i < length (pool_tasks p')" "pool_tasks p' ! i = Answered q (Inr rc)"
  shows "validated E q
    \<and> (\<forall>j<length (pool_tasks p'). j \<noteq> i \<longrightarrow> chain_nonces (q_chain q) \<inter> task_nonces (pool_tasks p' ! j) = {})
    \<and> (length (pool_tasks p) \<le> i \<longrightarrow> chain_fps E (q_chain q) \<inter> revoked_set (pool_rev p) = {})"
proof -
  have i: "pool_inv E mem_rev_inv nonce_inv_forever live p"
    by (rule mem_tasks.inv_run [OF assms(1)]) (simp add: pool_inv_def mem_rev_inv_new nonce_inv_forever_new)
  note g = mem_tasks.pool_grants [OF assms(2) i]
  have "task_nonces (pool_tasks p' ! i) = chain_nonces (q_chain q)" using assms(4) by (simp add: task_nonces_def)
  with g(1) [OF assms(3,4)] g(2) [OF assms(3)] g(3) [OF _ _ assms(3,4)] show ?thesis by auto
qed

theorem concurrent_grants_are_single_use_witness:
  "\<exists>p rc res fp. pool_run toy_ext mem_is_revoked mem_revoke mem_try_consume_batch
      \<lparr>pool_rev = mem_rev_new, pool_nonces = mem_nonce_new, pool_tasks = []\<rparr> p
     \<and> pool_tasks p = [Answered demo_request (Inr rc), Answered demo_request res] \<and> isl res
     \<and> fp \<in> chain_fps toy_ext demo_chain \<and> fp \<in> revoked_set (pool_rev p)"
proof -
  let ?run = "pool_run toy_ext mem_is_revoked mem_revoke mem_try_consume_batch"
  let ?step = "pool_step toy_ext mem_is_revoked mem_revoke mem_try_consume_batch"
  let ?v = "result_of toy_ext 500 demo_chain"
  let ?fps = "v_cert_fingerprints ?v"
  let ?T = "Asking demo_request ?v ?fps" and ?A = "Asking demo_request ?v []"
  let ?p = "\<lambda>r n ts. \<lparr>pool_rev = r, pool_nonces = n, pool_tasks = ts\<rparr>"
  let ?N = "mem_nonce_new"
  have dr: "q_chain demo_request = demo_chain" by (simp add: demo_request_def)
  have v: "validate_structure toy_ext (demo_pk 3) [1] demo_proof 500 (drift_tolerance_secs demo_chain) demo_chain = Inr ?v"
    using validate_structure_iff [OF toy_batch_complete toy_batch_sound] demo_valid by simp
  have T: "task_start toy_ext demo_request = ?T"
    using v by (simp add: task_start_def demo_request_def)
  have c: "check_revocations (mem_is_revoked mem_rev_new) ?fps = Inr ()"
    using mem_auth.check_revocations_spec [OF mem_rev_inv_new, of ?fps] by (simp add: revoked_set_new)
  have ask: "task_alone (length ?fps) mem_is_revoked mem_try_consume_batch mem_rev_new (?T, ?N) = (?A, ?N)"
    by (rule asking_through) (rule c)
  have s: "?step (?p mem_rev_new ?N ts) (?p mem_rev_new ?N (ts @ [?T]))" for ts
    using pool_step.spawn [of toy_ext mem_is_revoked mem_revoke mem_try_consume_batch "?p mem_rev_new ?N ts" demo_request]
    by (simp add: T)
  have 1: "?run (?p mem_rev_new ?N []) (?p mem_rev_new ?N [?T, ?T])"
    using s [of "[]"] s [of "[?T]"] by simp
  have 2: "?run (?p mem_rev_new ?N [?T, ?T]) (?p mem_rev_new ?N [?A, ?T])"
    using alone_in_pool [of 0 "?p mem_rev_new ?N [?T, ?T]", where k = "length ?fps", simplified] ask by auto
  have 3: "?run (?p mem_rev_new ?N [?A, ?T]) (?p mem_rev_new ?N [?A, ?A])"
    using alone_in_pool [of 1 "?p mem_rev_new ?N [?A, ?T]", where k = "length ?fps", simplified] ask by auto
  obtain fp where fp: "fp \<in> chain_fps toy_ext demo_chain" by (auto simp: chain_fps_def)
  obtain r where r: "mem_revoke mem_rev_new fp = (Inr (), r)" "fp \<in> revoked_set r"
    using mem_revoke_spec [OF mem_rev_inv_new, of fp] by auto
  have 4: "?step (?p mem_rev_new ?N [?A, ?A]) (?p r ?N [?A, ?A])"
    using pool_step.revoked [of mem_revoke "?p mem_rev_new ?N [?A, ?A]" fp r] r(1) by simp
  obtain n where n: "mem_try_consume_batch (q_store_now demo_request) ?N (v_seen_nonces ?v) = (Inr True, n)"
    using mem_nonce.consume_fresh [OF nonce_inv_new, of "v_seen_nonces ?v" "q_store_now demo_request"] by (auto simp: live_new)
  let ?rc = "receipt_of demo_chain ?v (q_intent demo_request) 500"
  have 5: "?step (?p r ?N [?A, ?A]) (?p r n [Answered demo_request (Inr ?rc), ?A])"
    using pool_step.await [of 0 "?p r ?N [?A, ?A]" mem_is_revoked mem_try_consume_batch] n by (simp add: dr)
  obtain res m where m: "task_await mem_is_revoked mem_try_consume_batch r ?A n = (Answered demo_request res, m)"
    using asked_is_answered [of mem_is_revoked mem_try_consume_batch r demo_request ?v n] by blast
  have 6: "?step (?p r n [Answered demo_request (Inr ?rc), ?A]) (?p r m [Answered demo_request (Inr ?rc), Answered demo_request res])"
    using pool_step.await [of 1 "?p r n [Answered demo_request (Inr ?rc), ?A]" mem_is_revoked mem_try_consume_batch] m by simp
  have run: "?run (?p mem_rev_new ?N []) (?p r m [Answered demo_request (Inr ?rc), Answered demo_request res])"
    using 1 2 3 4 5 6 by (meson rtranclp.rtrancl_into_rtrancl rtranclp_trans)
  have "isl res"
  proof (rule ccontr)
    assume "\<not> isl res"
    then obtain rc' where "res = Inr rc'" by (cases res) auto
    with concurrent_grants_are_single_use [OF run rtranclp.rtrancl_refl, of 0 demo_request ?rc]
    have "chain_nonces demo_chain = {}" by (auto simp: dr task_nonces_def)
    then show False by (simp add: chain_nonces_def)
  qed
  with run fp r(2) show ?thesis by (intro exI [of _ "?p r m [Answered demo_request (Inr ?rc), Answered demo_request res]"]) auto
qed

text \<open>
  C7: an intent that a valid chain authorizes is one of the intents the principal's scope was built
  from, and the scope the last certificate stands for is a subset of it: delegation never widens
  authority. The hash function is trusted on the inputs the proofs bring (no collision there).
\<close>

theorem delegation_never_widens:
  assumes "tree_build E xs = Inr t" "principal_scope c = tree_root t"
    and "scope_trust E xs (certs c)"
    and "\<And>u. tree_build E (leaf_intents xs (certs c)) = Inr u \<Longrightarrow> collision_free E u p intent"
    and "chain_valid E agent intent p now drift c"
  shows "intent \<in> set (leaf_intents xs (certs c)) \<and> set (leaf_intents xs (certs c)) \<subseteq> set xs"
  using assms by (rule valid_chain_intent)

theorem delegation_never_widens_witness:
  "[1] \<in> set (leaf_intents demo_intents (certs demo_chain))
   \<and> set (leaf_intents demo_intents (certs demo_chain)) \<subseteq> {[1], [2]}"
proof -
  have "scope_trust toy_ext demo_intents (certs demo_chain)" by (simp add: narrowed_def full_passthrough_def)
  from delegation_never_widens [OF demo_tree_build _ this _ demo_valid] show ?thesis
    using demo_tree_root demo_collision_free demo_tree_build by (simp add: narrowed_def full_passthrough_def demo_intents_def)
qed



text \<open>
  A batch of one intent is authorized exactly when the single call, without a policy, is.
\<close>

theorem batch_of_one_is_authorize:
  assumes "mem_rev_inv r" "nonce_inv s" "batch_complete E" "batch_sound E"
  shows "(\<exists>b s'. authorize_batch E agent [(intent, p)] now now (mem_is_revoked r) (mem_try_consume_batch t) c s = (b, s')
        \<and> all_authorized b) \<longleftrightarrow>
    (\<exists>rc s'. authorize_inner E agent intent p now (mem_is_revoked r) (mem_try_consume_batch t) None c s = (Inr rc, s'))"
  using assms by (rule mem_auth.authorize_batch_one)

theorem batch_of_one_is_authorize_witness:
  "\<exists>b s'. authorize_batch toy_ext (demo_pk 3) [([1], demo_proof)] 500 500 (mem_is_revoked mem_rev_new)
      (mem_try_consume_batch 500) demo_chain mem_nonce_new = (b, s') \<and> all_authorized b"
proof -
  have "\<exists>rc s'. authorize_inner toy_ext (demo_pk 3) [1] demo_proof 500 (mem_is_revoked mem_rev_new)
      (mem_try_consume_batch 500) None demo_chain mem_nonce_new = (Inr rc, s')"
    using demo_valid by (subst mem_auth.authorize_inner_iff(1))
      (simp_all add: mem_rev_inv_new nonce_inv_new policy_ok_def)
  then show ?thesis
    using batch_of_one_is_authorize [OF mem_rev_inv_new nonce_inv_new toy_batch_complete toy_batch_sound] by blast
qed

text \<open>
  C9: the two asynchronous entry points over adapted stores. When every blocking task is joined they
  return the result, the store and the audit event of the synchronous ones, for one intent and for a
  batch. When the task that consumes the nonces is not joined, nothing is granted, whatever the store did:
  no receipt for the one intent, and no batch but the empty one is authorized.
\<close>

theorem async_is_sync:
  "authorize_async_with_options E rnd agent intent p now now' (adapt_is_revoked (\<lambda>_. None) is_rev) (adapt_consume None consume)
     policy c s
   = authorize_with_options E rnd agent intent p now now' is_rev consume policy c s
   \<and> authorize_batch_async E agent intents now now' (adapt_is_revoked (\<lambda>_. None) is_rev) (adapt_consume None consume) c s
   = authorize_batch E agent intents now now' is_rev consume c s
   \<and> fst (fst (authorize_async_with_options E rnd agent intent p now now' is_rev (adapt_consume (Some m) consume) policy c s))
       \<noteq> Inr rc
   \<and> (all_authorized (fst (authorize_batch_async E agent intents now now' is_rev (adapt_consume (Some m) consume) c s))
       \<longleftrightarrow> intents = [])"
  unfolding authorize_async_eq authorize_batch_async_eq adapt_joined
  by (simp add: unjoined_not_granted unjoined_batch)

text \<open>
  C10: the context's policy guards \<open>authorize\<close> and not \<open>authorize_batch\<close>: a valid chain that the policy
  refuses is denied when presented alone and authorized when its intent is sent as a batch.
\<close>

theorem context_batch_skips_policy:
  assumes "mem_rev_inv r" "nonce_inv s" "batch_complete E" "batch_sound E"
    and "ctx_policy ctx = Some ps" "set_check_chain ps c = Inl e"
    and "chain_valid E agent intent p now (drift_tolerance_secs c) c"
    and "chain_fps E c \<inter> revoked_set r = {}" "chain_nonces c \<inter> live t s = {}"
  shows "fst (fst (ctx_authorize E rnd ctx c agent intent p now now' (mem_is_revoked r) (mem_try_consume_batch t) s)) = Inl e
    \<and> (\<exists>b s'. ctx_authorize_batch E ctx c agent [(intent, p)] now now (mem_is_revoked r) (mem_try_consume_batch t) s = (b, s')
      \<and> all_authorized b \<and> authorized_count b = 1)"
  using ctx_batch_without_policy [OF assms] by blast

theorem context_batch_skips_policy_witness:
  "\<exists>e b s'. let ctx = \<lparr>ctx_policy = Some [policy_max_chain_depth 1 (policy_new ''p'')], ctx_namespace = None\<rparr> in
     fst (fst (ctx_authorize toy_ext [] ctx demo_chain (demo_pk 3) [1] demo_proof 500 500 (mem_is_revoked mem_rev_new)
       (mem_try_consume_batch 500) mem_nonce_new)) = Inl e
     \<and> ctx_authorize_batch toy_ext ctx demo_chain (demo_pk 3) [([1], demo_proof)] 500 500 (mem_is_revoked mem_rev_new)
       (mem_try_consume_batch 500) mem_nonce_new = (b, s') \<and> all_authorized b"
proof -
  let ?ps = "[policy_max_chain_depth 1 (policy_new ''p'')]"
  have "set_check_chain ?ps demo_chain \<noteq> Inr ()"
    by (simp add: set_check_chain_iff check_chain_iff policy_max_chain_depth_def policy_new_def)
  then obtain e where e: "set_check_chain ?ps demo_chain = Inl e" by (cases "set_check_chain ?ps demo_chain") auto
  from context_batch_skips_policy [OF mem_rev_inv_new nonce_inv_new toy_batch_complete toy_batch_sound _ e,
      where ctx = "\<lparr>ctx_policy = Some ?ps, ctx_namespace = None\<rparr>" and agent = "demo_pk 3" and intent = "[1]"
        and p = demo_proof and now = 500 and t = 500 and now' = 500 and rnd = "[]"] demo_valid
  show ?thesis unfolding Let_def by simp blast
qed

section \<open>Stores behind a server\<close>

text \<open>
  C11: over Redis the decision is the same as in memory: \<open>authorize\<close> succeeds exactly when the policies
  accept the chain, it is valid, none of its certificates has a revocation key and none of its nonces a
  live key; then its nonces' keys are set, and otherwise the database is left as it was. The server is
  trusted to do what the documentation says of the commands sent, and every call to reach it.
\<close>

theorem redis_authorize_decides:
  assumes "redis_ok R lv" "hex_ok E" "rrs_ttl_secs rst = None" "0 < nonce_ttl_ms nst" "batch_complete E" "batch_sound E"
  shows "case authorize_inner E agent intent p now (\<lambda>fp. fst (redis_is_revoked E R rst t Through fp d))
      (\<lambda>s ns. redis_try_consume_batch E R nst t Through ns s) pol c s of
      (Inr rc, s') \<Rightarrow>
        policy_ok pol c \<and> chain_valid E agent intent p now (drift_tolerance_secs c) c
        \<and> chain_fps E c \<inter> redis_revoked E rst lv t d = {} \<and> chain_nonces c \<inter> redis_used E nst lv t s = {}
        \<and> rc = receipt_for E now intent c \<and> redis_used E nst lv t s' = chain_nonces c \<union> redis_used E nst lv t s
    | (Inl e, s') \<Rightarrow>
        \<not> (policy_ok pol c \<and> chain_valid E agent intent p now (drift_tolerance_secs c) c
           \<and> chain_fps E c \<inter> redis_revoked E rst lv t d = {} \<and> chain_nonces c \<inter> redis_used E nst lv t s = {})
        \<and> s' = s"
proof -
  have "authorizer (\<lambda>d fp. fst (redis_is_revoked E R rst t Through fp d)) (\<lambda>d fp. redis_revoke E R rst t Through fp d)
      (\<lambda>_. True) (redis_revoked E rst lv t)
      (\<lambda>t d ns. redis_try_consume_batch E R nst t Through ns d) (\<lambda>_. True) (redis_used E nst lv)"
    by (intro authorizer.intro redis_revocation_contract redis_nonce_contract assms)
  from authorizer.authorize_cases [OF this TrueI TrueI assms(5,6), where a = agent and i = intent and p = p and now = now and r = d
      and t = t and pol = pol and c = c and s = s]
  show ?thesis by (auto split: sum.splits prod.splits)
qed

theorem redis_authorize_decides_witness:
  "\<exists>s'. authorize_inner toy_ext (demo_pk 3) [1] demo_proof 500
      (\<lambda>fp. fst (redis_is_revoked toy_ext map_redis \<lparr>rrs_namespace = ''rev'', rrs_ttl_secs = None\<rparr> 500 Through fp Map.empty))
      (\<lambda>s ns. redis_try_consume_batch toy_ext map_redis \<lparr>rno_namespace = ''nonce'', nonce_ttl_ms = 1000\<rparr> 500 Through ns s)
      None demo_chain Map.empty = (Inr (receipt_for toy_ext 500 [1] demo_chain), s')"
proof -
  let ?rst = "\<lparr>rrs_namespace = ''rev'', rrs_ttl_secs = None\<rparr>" and ?nst = "\<lparr>rno_namespace = ''nonce'', nonce_ttl_ms = 1000\<rparr>"
  have e: "redis_revoked toy_ext ?rst map_live 500 Map.empty = {}" "redis_used toy_ext ?nst map_live 500 Map.empty = {}"
    by (simp_all add: redis_revoked_def redis_used_def map_live_def map_has_def)
  have "0 < nonce_ttl_ms ?nst" "rrs_ttl_secs ?rst = None" by simp_all
  from redis_authorize_decides [OF map_redis_ok toy_hex_ok this(2,1) toy_batch_complete toy_batch_sound,
      where agent = "demo_pk 3" and intent = "[1]" and p = demo_proof and now = 500 and t = 500 and d = Map.empty
        and pol = None and c = demo_chain and s = Map.empty] demo_valid
  show ?thesis unfolding e by (auto simp: policy_ok_def split: prod.splits sum.splits)
qed

text \<open>
  C12: what a batch of nonces decides over PostgreSQL, whatever faults its three attempts meet, while no one
  else writes those nonces. Accepted: it was fresh, and its nonces have been added. Refused: one
  of its nonces was in use and the table is as it was, or it was fresh, an attempt of this very call
  committed without being told so, and its nonces have been added. Failed: the error is transient, and
  the table is as it was or, after such a lost commit, has all of the nonces. If one attempt meets no
  fault and no commit is lost, the batch is accepted exactly when it is fresh. Part of a batch is
  never added.
\<close>

theorem pg_batch_decides:
  assumes "pg_ok P rows" "ns \<noteq> []" "pg_try_consume_batch P faults ns d = (r, d')"
  shows "(case r of
      Inr True \<Rightarrow> set ns \<inter> pg_used rows d = {} \<and> pg_used rows d' = set ns \<union> pg_used rows d
    | Inr False \<Rightarrow> set ns \<inter> pg_used rows d \<noteq> {} \<and> d' = d
        \<or> set ns \<inter> pg_used rows d = {} \<and> pg_used rows d' = set ns \<union> pg_used rows d \<and> lost_commit faults MAX_RETRIES
    | Inl e \<Rightarrow> storage_is_transient e \<and> (d' = d
        \<or> set ns \<inter> pg_used rows d = {} \<and> pg_used rows d' = set ns \<union> pg_used rows d \<and> lost_commit faults MAX_RETRIES))
    \<and> (clean_attempt faults MAX_RETRIES \<and> \<not> lost_commit faults MAX_RETRIES \<longrightarrow> r = Inr (set ns \<inter> pg_used rows d = {}))"
proof -
  have "retry_consume P faults ns MAX_RETRIES None d = (r, d')" using assms(2,3) by (simp add: pg_try_consume_batch_def)
  from retry_decides [OF assms(1,2) this order_refl] show ?thesis
    using pg_batch_error_transient [OF _ assms(1)] assms(3) by (cases r) auto
qed

theorem pg_batch_decides_witness:
  "(\<exists>d'. pg_try_consume_batch rows_pg (\<lambda>k. if k = 0 then AtCommit ''lost'' True else NoFault) [[1], [2]] [] = (Inr False, d')
      \<and> pg_used set d' = {[1], [2]})
   \<and> fst (pg_try_consume_batch rows_pg (\<lambda>k. if k = 0 then Before ''conflict'' else NoFault) [[1], [2]] []) = Inr True"
proof -
  let ?lost = "\<lambda>k :: nat. if k = 0 then AtCommit ''lost'' True else NoFault"
  let ?conflict = "\<lambda>k :: nat. if k = 0 then Before ''conflict'' else NoFault"
  have empty: "pg_used set [] = {}" by (simp add: pg_used_def)
  obtain d' where d: "pg_try_consume_batch rows_pg ?lost [[1], [2]] [] = (Inr False, d')"
    by (simp add: pg_try_consume_batch_def MAX_RETRIES_def numeral_3_eq_3 try_consume_batch_once_def rows_pg_def
        rows_insert_def Let_def storage_is_transient_def storage_transient_def)
  have 1: "pg_used set d' = {[1], [2]}" using pg_batch_decides [OF rows_pg_ok _ d] empty by auto
  obtain r d2 where e: "pg_try_consume_batch rows_pg ?conflict [[1], [2]] [] = (r, d2)" by fastforce
  have "clean_attempt ?conflict MAX_RETRIES" "\<not> lost_commit ?conflict MAX_RETRIES"
    by (auto simp: clean_attempt_def lost_commit_def MAX_RETRIES_def intro: bexI [of _ 1])
  with pg_batch_decides [OF rows_pg_ok _ e] empty have "r = Inr True" by simp
  with d 1 e show ?thesis by auto
qed

section \<open>The gateway\<close>

text \<open>
  C13: when the gateway authorizes an intent under a certificate it issued for it. The document made of
  the certificate and the gateway's key, presented by the delegate while the certificate is in its window, not
  revoked and not used, is answered with an authorization exactly when the hash of the intent is the
  root of the certificate's scope. So it is when the certificate was issued for that intent alone, and its
  nonce is then used up; but when the certificate was issued for intents of more than one hash, its root
  is an inner node of a Merkle tree, and none of them is authorized unless its hash is that node.
\<close>

theorem gateway_issue_then_authorize:
  assumes "gw_issue_inner E hm pm jt fresh st now0 req = Some (Inr resp)" "r \<in> set (iq_intents req)"
    and "signer_wf E (signing_identity st)" "hash32 E" "hex_ok E" "batch_complete E" "batch_sound E"
    and "now0 \<le> sat_add now 15" "sat_sub now 15 \<le> expiration_unix (is_cert resp)"
    and "mem_rev_inv rv" "nonce_inv s" "cert_fingerprint E (is_cert resp) \<notin> revoked_set rv" "fresh \<notin> live t s"
    and "ag_chain areq = issued_document st resp E" "ag_intent_name areq = ir_name r" "ag_intent_params areq = ir_params r"
      "ag_executor_pk_hex areq = iq_delegate_pk_hex req"
  shows "\<exists>i. build_intent (ir_name r) (ir_params r) = Inr i
    \<and> ((\<exists>aresp s'. gw_authorize_inner E hm pm rnd gs now now' (mem_is_revoked rv) (mem_try_consume_batch t) areq s = (Inr aresp, s'))
        \<longleftrightarrow> intent_hash_of E i = scope_root (is_cert resp))
    \<and> (iq_intents req = [r] \<longrightarrow>
        (\<exists>aresp s'. gw_authorize_inner E hm pm rnd gs now now' (mem_is_revoked rv) (mem_try_consume_batch t) areq s = (Inr aresp, s')
          \<and> ao_authorized aresp \<and> ao_depth aresp = 1 \<and> nonce_inv s' \<and> fresh \<in> live t s'))
    \<and> (\<forall>r2\<in>set (iq_intents req). \<forall>i2. build_intent (ir_name r2) (ir_params r2) = Inr i2 \<and> intent_hash_of E i2 \<noteq> intent_hash_of E i \<longrightarrow>
        (\<exists>a b. scope_root (is_cert resp) = merkle_node E a b))"
proof -
  obtain i where i: "build_intent (ir_name r) (ir_params r) = Inr i"
    and many: "\<And>r2 i2. r2 \<in> set (iq_intents req) \<Longrightarrow> build_intent (ir_name r2) (ir_params r2) = Inr i2 \<Longrightarrow>
      intent_hash_of E i2 \<noteq> intent_hash_of E i \<Longrightarrow> \<exists>a b. scope_root (is_cert resp) = merkle_node E a b"
    using issued_intents [OF assms(1,3,2)] by blast
  have b: "build_intent (ag_intent_name areq) (ag_intent_params areq) = Inr i" using i assms(15,16) by simp
  note general = issued_authorizes_iff [OF assms(1,3-5,8,9,6,7,10-14) b assms(17), where rnd = rnd and gs = gs and now' = now']
  note single = issue_then_authorize [OF assms(1) _ assms(3-5,8,9,6,7,10-17), where rnd = rnd and gs = gs and now' = now']
  show ?thesis using i general single many by blast
qed

theorem gateway_issue_then_authorize_witness:
  "\<exists>resp areq aresp s'.
     gw_issue_inner toy_ext (\<lambda>_. []) (\<lambda>_. []) (\<lambda>_. []) (replicate 16 5) demo_state 100 demo_issue_request = Some (Inr resp)
     \<and> gw_authorize_inner toy_ext (\<lambda>_. []) (\<lambda>_. []) [] demo_state 200 200 (mem_is_revoked mem_rev_new) (mem_try_consume_batch 200)
         areq mem_nonce_new = (Inr aresp, s')
     \<and> ao_authorized aresp \<and> replicate 16 5 \<in> live 200 s'"
proof -
  obtain resp where resp: "gw_issue_inner toy_ext (\<lambda>_. []) (\<lambda>_. []) (\<lambda>_. []) (replicate 16 5) demo_state 100 demo_issue_request = Some (Inr resp)"
      "expiration_unix (is_cert resp) = 3700"
    using demo_issue by blast
  let ?areq = "\<lparr>ag_chain = issued_document demo_state resp toy_ext, ag_intent_name = ''files.read'', ag_intent_params = [],
    ag_executor_pk_hex = hex_enc toy_ext (demo_pk 2), ag_return_token = False, ag_request_id = None\<rparr>"
  have w: "(100 :: u64) \<le> sat_add 200 15" "sat_sub 200 15 \<le> expiration_unix (is_cert resp)"
    by (simp_all add: sat_add_def sat_sub_def resp(2))
  have "\<exists>aresp s'. gw_authorize_inner toy_ext (\<lambda>_. []) (\<lambda>_. []) [] demo_state 200 200 (mem_is_revoked mem_rev_new)
      (mem_try_consume_batch 200) ?areq mem_nonce_new = (Inr aresp, s') \<and> ao_authorized aresp \<and> ao_depth aresp = 1
      \<and> nonce_inv s' \<and> replicate 16 5 \<in> live 200 s'"
    using gateway_issue_then_authorize [OF resp(1) _ _ toy_hash32 toy_hex_ok toy_batch_complete toy_batch_sound w
          mem_rev_inv_new nonce_inv_new, where areq = ?areq and rnd = "[]" and gs = demo_state and now' = 200 and t = 200]
      demo_signer_wf demo_issue_simps by fastforce
  then show ?thesis using resp(1) by blast
qed

text \<open>
  C14: with a secret configured no request for an administrative route reaches its handler without the
  secret: it is answered 401 or 429 whatever the handler would do. Revocation is not among those routes:
  what a request for it carries makes no difference.
\<close>

theorem admin_routes_guarded:
  assumes "has_route admin_routes m path" "h \<noteq> Some (''Bearer '' @ sec)"
  shows "fst (fst (fst (serve (Some sec) chk l ip m path h ans))) \<in> {401, 429}
    \<and> serve (Some sec) chk l ip m path h ans = serve (Some sec) chk l ip m path h ans'
    \<and> serve (Some sec) chk l ip ''POST'' [''v1'', ''cert'', ''revoke''] h' ans
      = serve None chk l ip ''POST'' [''v1'', ''cert'', ''revoke''] None ans"
  using serve_admin [OF assms, of chk l ip ans ans'] serve_public [OF revoke_routes_public(1,2), of "Some sec" chk l ip h' ans None]
  by blast

theorem admin_routes_guarded_witness:
  "fst (fst (fst (serve (Some ''s3cret'') (\<lambda>l ip. (True, l)) () () ''POST'' [''v1'', ''cert'', ''issue''] (Some ''Bearer guess'')
     (200, Inr ())))) \<in> {401, 429}"
proof -
  have "has_route admin_routes ''POST'' [''v1'', ''cert'', ''issue'']" by (simp add: route_simps)
  moreover have "Some ''Bearer guess'' \<noteq> Some (''Bearer '' @ ''s3cret'')" by simp
  ultimately show ?thesis by (rule admin_routes_guarded [THEN conjunct1])
qed

section \<open>The C interface\<close>

text \<open>
  C15: when \<open>dyolo_authorize_json\<close> returns 0, the chain it was given was valid for the caller's intent at
  that time, unrevoked in the store behind the first handle and unused in the one behind the second; its
  nonces are now in use, and the buffer holds the signed token's text, which fits. The library's state
  stays well formed.
\<close>

theorem ffi_success_is_authorized:
  assumes "heap_ok st" "batch_complete E" "batch_sound E" "dyolo_authorize_json E F rnd now now' t q st = Some ((0, out), st')"
  shows "\<exists>a r n n' json. json_arguments E F q = Inr a
    \<and> fx_revocations st (fa_rev a) = Some r \<and> fx_nonces st (fa_nonce a) = Some n \<and> fx_nonces st' (fa_nonce a) = Some n'
    \<and> chain_valid E (fa_pk a) (fa_intent a) proof_default now 15 (fa_chain a)
    \<and> chain_fps E (fa_chain a) \<inter> revoked_set r = {} \<and> chain_nonces (fa_chain a) \<inter> live t n = {}
    \<and> live t n' = chain_nonces (fa_chain a) \<union> live t n
    \<and> fc_print_token F (token_sign E (receipt_for E now (fa_intent a) (fa_chain a)) (fa_mac a)) = Inr json
    \<and> out = Some (c_string json) \<and> length (c_string json) < fl_out_len q"
  by (rule authorize_json_success [OF assms])

theorem ffi_success_is_authorized_witness:
  "\<exists>F q st out st' n'. dyolo_authorize_json toy_ext F [] 200 200 200 q st = Some ((0, out), st')
     \<and> fx_nonces st' 2 = Some n' \<and> replicate 16 5 \<in> live 200 n'"
proof -
  obtain resp where resp: "gw_issue_inner toy_ext (\<lambda>_. []) (\<lambda>_. []) (\<lambda>_. []) (replicate 16 5) demo_state 100 demo_issue_request = Some (Inr resp)"
      "expiration_unix (is_cert resp) = 3700" "nonce (is_cert resp) = replicate 16 5" "delegate_pk (is_cert resp) = demo_pk 2"
    using demo_issue by blast
  have w: "(100 :: u64) \<le> sat_add 200 15" "sat_sub 200 15 \<le> expiration_unix (is_cert resp)"
    by (simp_all add: sat_add_def sat_sub_def resp(2))
  obtain i c where c: "build_intent ''files.read'' [] = Inr i"
      "into_chain_with_drift toy_ext (\<lambda>_. []) (\<lambda>_. []) 15 (issued_document demo_state resp toy_ext) = Inr c" "certs c = [is_cert resp]"
      "chain_valid toy_ext (demo_pk 2) (intent_hash_of toy_ext i) proof_default 200 15 c"
    using issued_document_chain [OF resp(1) demo_issue_simps(1) _ toy_hash32 toy_hex_ok w] resp(4)
    by (auto simp: demo_signer_wf demo_issue_simps)
  have i: "intent_new ''files.read'' = Inr i" using c(1) by (auto simp: build_intent_def intent_try_new_def result_simps)
  let ?F = "\<lparr>fc_utf8 = (\<lambda>_. None), fc_hex_msg = (\<lambda>_. []), fc_pk_msg = (\<lambda>_. []),
    fc_parse_chain = (\<lambda>_. Inr (issued_document demo_state resp toy_ext)), fc_parse_proof = (\<lambda>_. Inl []),
    fc_print_token = (\<lambda>_. Inr ''token''), fc_print_receipt = (\<lambda>_. Inl [])\<rparr>"
  let ?q = "\<lparr>fl_rev = Some 1, fl_nonce = Some 2, fl_chain = Some ''chain'', fl_pk = Some (hex_enc toy_ext (demo_pk 2)),
    fl_action = Some ''files.read'', fl_proof = None, fl_mac = Some [], fl_out_null = False, fl_out_len = 100\<rparr>"
  let ?st = "snd (dyolo_nonce_store_new (snd (dyolo_revocation_store_new ffi_new)))"
  let ?a = "\<lparr>fa_rev = 1, fa_nonce = 2, fa_pk = demo_pk 2, fa_intent = intent_hash_of toy_ext i, fa_proof = proof_default,
    fa_chain = c, fa_mac = []\<rparr>"
  have h: "heap_ok ?st" by (intro heap_ok_alloc heap_ok_new)
  have st: "fx_revocations ?st 1 = Some mem_rev_new" "fx_nonces ?st 2 = Some mem_nonce_new"
    by (simp_all add: dyolo_nonce_store_new_def dyolo_revocation_store_new_def ffi_new_def)
  have a: "json_arguments toy_ext ?F ?q = Inr ?a"
    using i c(2) toy_hex_ok by (simp add: json_arguments_def unknown_def utf8_def hex_bytes_def length_32_def valid_key_def
        map_errR_def ok_or_def hex_ok_def demo_valid_pk into_chain_def)
  obtain n' where n': "authorize_inner toy_ext (demo_pk 2) (intent_hash_of toy_ext i) proof_default 200 (mem_is_revoked mem_rev_new)
      (mem_try_consume_batch 200) None c mem_nonce_new = (Inr (receipt_for toy_ext 200 (intent_hash_of toy_ext i) c), n')"
    using mem_auth.authorize_ok [OF mem_rev_inv_new nonce_inv_new toy_batch_complete toy_batch_sound, where pol = None and c = c]
      c(4) json_arguments_Inr [OF a] by (fastforce simp: policy_ok_def)
  have run: "dyolo_authorize_json toy_ext ?F [] 200 200 200 ?q ?st = Some ((0, Some ''token''),
      ?st\<lparr>fx_nonces := (fx_nonces ?st)(2 \<mapsto> n')\<rparr>)"
    using n' st by (simp add: dyolo_authorize_json_def a authorize_at_def authorize_is_inner unknown_def map_errR_def
        write_result_def c_string_def del: One_nat_def)
  from ffi_success_is_authorized [OF h toy_batch_complete toy_batch_sound run] a
  have "live 200 n' = chain_nonces c \<union> live 200 mem_nonce_new" by (auto simp: st)
  then have "replicate 16 5 \<in> live 200 n'" using c(3) resp(3) by (simp add: chain_nonces_def)
  with run show ?thesis by fastforce
qed

section \<open>Intents and scopes\<close>

text \<open>C16: every intent a tree was built from has a proof, and the proof verifies against the root.\<close>

theorem merkle_complete:
  assumes "tree_build E xs = Inr t" "x \<in> set xs"
  shows "\<exists>p. tree_prove t x = Inr p \<and> merkle_verify E p x (tree_root t)"
  using assms by (rule tree_prove_complete)

theorem merkle_complete_witness:
  "\<exists>p. tree_prove demo_tree [2] = Inr p \<and> merkle_verify toy_ext p [2] demo_scope"
  using merkle_complete [OF demo_tree_build, of "[2]"] by (simp add: demo_intents_def demo_tree_root)

text \<open>
  C17: only an intent of the tree has a verifying proof, provided the hash does not collide on the node
  inputs of the tree and of the proof.
\<close>

theorem merkle_sound:
  assumes "tree_build E xs = Inr t" "collision_free E t p x" "merkle_verify E p x (tree_root t)"
  shows "x \<in> set xs"
  using assms by (rule merkle_verify_sound)

theorem merkle_sound_witness: "[1] \<in> set demo_intents"
  using merkle_sound [OF demo_tree_build demo_collision_free] demo_proof_verifies by (simp add: demo_tree_root)

text \<open>
  C18: \<open>SubScopeProof::build\<close> makes, for every non-empty subset of a tree's intents, a proof that
  verifies to the root of the subset's own tree, and for anything that is not a subset reports
  \<open>IntentNotFound\<close>.
\<close>

theorem sub_scope_build_decides:
  assumes "tree_build E xs = Inr t" "ys \<noteq> []"
  shows "if set ys \<subseteq> set xs
    then \<exists>s u. sub_scope_build t ys = Inr s \<and> tree_build E ys = Inr u
           \<and> verify_and_derive_root E s (tree_root t) = Inr (tree_root u)
    else sub_scope_build t ys = Inl IntentNotFound"
  using sub_scope_roundtrip [OF assms(1) _ assms(2)] sub_scope_escalation [OF assms(1)] by simp

theorem sub_scope_build_decides_witness:
  "(\<exists>s u. sub_scope_build demo_tree [[2]] = Inr s \<and> tree_build toy_ext [[2]] = Inr u
      \<and> verify_and_derive_root toy_ext s demo_scope = Inr (tree_root u))
   \<and> sub_scope_build demo_tree [[2], [3]] = Inl IntentNotFound"
  using sub_scope_build_decides [OF demo_tree_build, of "[[2]]"] sub_scope_build_decides [OF demo_tree_build, of "[[2], [3]]"]
  by (simp add: demo_intents_def demo_tree_root)

text \<open>
  The hash of a built intent determines it: two intents with one hash are the same action with the
  same parameters, provided the hash does not collide on these two encodings.
\<close>

theorem intent_hash_binds:
  assumes "intent_wf i" "intent_wf j"
    and "hash_binds E (h_updates (hasher_intent_leaf CERT_VERSION) (intent_chunks i))
                      (h_updates (hasher_intent_leaf CERT_VERSION) (intent_chunks j))"
    and "intent_hash_of E i = intent_hash_of E j"
  shows "i = j"
  using assms intent_encoding_inj h_updates_inj unfolding hash_binds_def intent_hash_of_def by blast

theorem intent_hash_binds_witness:
  "\<exists>i. intent_new ''trade.equity'' = Inr i \<and> (\<forall>j. intent_new ''trade.equity'' = Inr j \<longrightarrow> i = j)"
proof -
  obtain i where i: "intent_new ''trade.equity'' = Inr i"
    by (simp add: intent_new_def MAX_ACTION_LEN_def)
  have "i = j" if "intent_new ''trade.equity'' = Inr j" for j
    using intent_hash_binds [of i j toy_ext] intent_new_wf [OF i] intent_new_wf [OF that] i that
    by (simp add: hash_binds_def)
  with i show ?thesis by blast
qed

text \<open>
  C19: a signature binds the certificate: two well-formed certificates with the same signed message
  agree in every signed field, the extensions included, unless the hash collides on their encodings.
\<close>

theorem cert_signature_binds:
  assumes "hash32 E" "cert_wf c" "cert_wf d" "certs_bind E c d" "cert_message E c = cert_message E d"
  shows "c\<lparr>extensions := extensions d, signature := signature d\<rparr> = d
    \<and> ext_fields (extensions c) = ext_fields (extensions d)"
  using assms by (rule cert_message_binds)

theorem cert_signature_binds_witness:
  "let c = demo_cert 1 2 (replicate 16 7) 1000; d = c\<lparr>signature := replicate 64 0\<rparr> in
     c\<lparr>extensions := extensions d, signature := signature d\<rparr> = d"
proof -
  let ?c = "demo_cert 1 2 (replicate 16 7) 1000"
  let ?d = "?c\<lparr>signature := replicate 64 0\<rparr>"
  have wf: "cert_wf ?c" by (rule demo_cert_wf) simp
  then have wd: "cert_wf ?d" by (simp add: cert_wf_def)
  have h: "cert_hasher toy_ext ?c = cert_hasher toy_ext ?d" by (simp add: cert_hasher_def)
  then have "certs_bind toy_ext ?c ?d" "cert_message toy_ext ?c = cert_message toy_ext ?d"
    by (simp_all add: certs_bind_def hash_binds_def cert_message_hasher)
  from cert_signature_binds [OF toy_hash32 wf wd this] show ?thesis unfolding Let_def by blast
qed

text \<open>
  The encodings behind the chain fingerprint and the receipt are unambiguous: the fingerprint's
  input determines the principal, its scope, the namespace text and the certificates' fingerprints.
\<close>

theorem chain_fingerprint_input:
  assumes "hash32 E" and "length (principal_pk c) = 32" "length (principal_pk d) = 32"
    and "length (principal_scope c) = 32" "length (principal_scope d) = 32"
    and "fits (namespace_text (namespace c))" "fits (namespace_text (namespace d))"
  shows "chain_hasher E c = chain_hasher E d \<longleftrightarrow>
    principal_pk c = principal_pk d \<and> principal_scope c = principal_scope d
    \<and> namespace_text (namespace c) = namespace_text (namespace d)
    \<and> map (cert_fingerprint E) (certs c) = map (cert_fingerprint E) (certs d)"
  using chain_hasher_inj [OF assms] by (auto simp: chain_hasher_eq)

theorem chain_fingerprint_input_witness:
  "chain_hasher toy_ext demo_chain \<noteq> chain_hasher toy_ext (demo_chain\<lparr>namespace := Some ''prod''\<rparr>)"
  using chain_fingerprint_input [OF toy_hash32, of demo_chain "demo_chain\<lparr>namespace := Some ''prod''\<rparr>"]
  by (simp add: demo_scope_length fits_def namespace_text_def)

text \<open>The same for a receipt: its canonical bytes determine every field but whether an empty
  namespace was given.\<close>

theorem receipt_bytes_binding:
  assumes "receipt_wf r" "receipt_wf s"
  shows "receipt_canonical_bytes r = receipt_canonical_bytes s \<longleftrightarrow>
    chain_depth r = chain_depth s \<and> verified_scope_root r = verified_scope_root s
    \<and> receipt_intent r = receipt_intent s \<and> verified_at_unix r = verified_at_unix s
    \<and> chain_fingerprint r = chain_fingerprint s
    \<and> namespace_text (receipt_namespace r) = namespace_text (receipt_namespace s)"
  using assms by (rule receipt_canonical_iff)

theorem receipt_bytes_binding_witness:
  "receipt_canonical_bytes (demo_receipt 1 None) \<noteq> receipt_canonical_bytes (demo_receipt 2 None)
   \<and> receipt_canonical_bytes (demo_receipt 1 None) = receipt_canonical_bytes (demo_receipt 1 (Some ''''))"
  using receipt_bytes_binding [of "demo_receipt 1 None" "demo_receipt 2 None"]
    receipt_bytes_binding [of "demo_receipt 1 None" "demo_receipt 1 (Some '''')"]
  by (simp add: receipt_wf_def demo_receipt_def fits_def namespace_text_def)

text \<open>
  Setting an extension keeps the map sorted, its size accounted for within the limit, and its
  keys non-empty; it stores the value and leaves the other keys alone.
\<close>

theorem extension_set_correct:
  assumes "ext_wf x" "ext_set_checked x k v = Inr y"
  shows "ext_wf y \<and> ext_get y = (ext_get x)(k \<mapsto> v)"
  using ext_set_checked_wf [OF assms] by (auto simp: fun_eq_iff)

theorem extension_set_correct_witness:
  "\<exists>y. ext_set_checked extensions_new ''k'' (ExtU64 7) = Inr y \<and> ext_wf y \<and> ext_get y = [''k'' \<mapsto> ExtU64 7]"
proof -
  have "ext_set_checked extensions_new ''k'' (ExtU64 7) = Inr \<lparr>ext_fields = [(''k'', ExtU64 7)], byte_count = 9\<rparr>"
    by (simp add: ext_set_checked_def extensions_new_def MAX_EXTENSION_BYTES_def)
  from extension_set_correct [OF ext_new_wf this] this show ?thesis
    by (auto simp: ext_get_def extensions_new_def fun_eq_iff)
qed

section \<open>Narrowing\<close>

text \<open>
  C20: over a capability registry the 256-bit mask test is exact: a mask built from registered
  capabilities narrows another exactly when its capabilities are among the other's.
\<close>

theorem registry_narrowing_exact:
  assumes "reg_inv r" "build_mask r as = Inr m" "build_mask r bs = Inr n"
  shows "enforce_narrowing m n = (if set as \<subseteq> set bs then Inr () else Inl PassportNarrowingViolation)"
  using build_mask_Inr_valid [OF assms(1,2)] build_mask_Inr_valid [OF assms(1,3)]
  by (simp add: enforce_narrowing_def registry.subset_exact)

theorem registry_narrowing_exact_witness:
  "let r = snd (register_all registry_new [''a'', ''b'', ''c'']) in
   \<exists>m n. build_mask r [''a''] = Inr m \<and> build_mask r [''b'', ''a''] = Inr n
     \<and> enforce_narrowing m n = Inr () \<and> enforce_narrowing n m = Inl PassportNarrowingViolation"
proof -
  let ?r = "snd (register_all registry_new [''a'', ''b'', ''c''])"
  have i: "reg_inv ?r" by (rule register_all_inv [OF reg_inv_new])
  have "map fst (slots ?r) = [''a'', ''b'', ''c'']"
    using register_all_distinct [OF reg_inv_new, of "[''a'', ''b'', ''c'']"] by (simp add: registry_new_def)
  then have "fst ` set (slots ?r) = {''a'', ''b'', ''c''}" by (metis list.set(1,2) set_map)
  then have v: "list_all (reg_valid ?r) [''a'']" "list_all (reg_valid ?r) [''b'', ''a'']"
    using i by (simp_all add: reg_valid_def map_of_eq_None_iff del: register_all.simps)
  obtain m n where mn: "build_mask ?r [''a''] = Inr m" "build_mask ?r [''b'', ''a''] = Inr n"
    using build_mask_spec [OF v(1)] build_mask_spec [OF v(2)] by blast
  from registry_narrowing_exact [OF i mn] registry_narrowing_exact [OF i mn(2,1)] mn
  show ?thesis unfolding Let_def by auto
qed

text \<open>Intersection is the greatest common narrowing, and a mask survives its hexadecimal form.\<close>

theorem mask_lattice:
  assumes "mask_wf a" "mask_wf b" "mask_wf c" "hex_ok E"
  shows "(is_subset_of c (intersect a b) \<longleftrightarrow> is_subset_of c a \<and> is_subset_of c b)
    \<and> mask_from_hex E (mask_to_hex E a) = Inr a"
  using intersect_greatest [OF assms(1-3)] mask_hex_roundtrip [OF assms(4,1)] by blast

theorem mask_lattice_witness:
  "is_subset_of EMPTY (intersect FULL EMPTY) \<and> mask_from_hex toy_ext (mask_to_hex toy_ext FULL) = Inr FULL"
  using mask_lattice [of FULL EMPTY EMPTY toy_ext] by (simp add: is_subset_of_iff)

section \<open>Stores\<close>

text \<open>
  C21: the sharded revocation store with its Bloom filter is a set: a batch of revocations succeeds, and
  afterwards a fingerprint is reported revoked exactly when it was revoked before or by the batch.
\<close>

theorem revocation_store_is_a_set:
  assumes "mem_rev_inv r"
  shows "\<exists>r'. mem_revoke_batch r fps = (Inr (), r') \<and> mem_rev_inv r'
    \<and> (\<forall>fp. mem_is_revoked r' fp = Inr (fp \<in> set fps \<union> revoked_set r))"
proof -
  obtain r' where "mem_revoke_batch r fps = (Inr (), r')" "mem_rev_inv r'" "revoked_set r' = set fps \<union> revoked_set r"
    using mem_revoke_batch_spec [OF assms, of fps] by blast
  then show ?thesis using mem_rev.is_rev_spec by auto
qed

theorem revocation_store_is_a_set_witness:
  "\<exists>r'. mem_revoke_batch mem_rev_new [demo_pk 1, demo_pk 2] = (Inr (), r')
     \<and> mem_is_revoked r' (demo_pk 2) = Inr True \<and> mem_is_revoked r' (demo_pk 3) = Inr False"
  using revocation_store_is_a_set [OF mem_rev_inv_new, of "[demo_pk 1, demo_pk 2]"] by auto

text \<open>
  C22: \<open>try_consume_batch\<close> is atomic: when none of the nonces is in use it takes them all, otherwise it
  refuses and takes none; and nonces taken once are refused when they come again.
\<close>

theorem nonce_batch_atomic:
  assumes "nonce_inv s"
  shows "if set ns \<inter> live t s = {}
    then \<exists>s'. mem_try_consume_batch t s ns = (Inr True, s') \<and> nonce_inv s' \<and> live t s' = set ns \<union> live t s
      \<and> (ns \<noteq> [] \<longrightarrow> mem_try_consume_batch t s' ns = (Inr False, s'))
    else mem_try_consume_batch t s ns = (Inr False, s)"
  using mem_nonce.consume_fresh [OF assms, of ns t] mem_nonce.consume_refused [OF assms, of ns t]
    mem_nonce.consume_twice [OF assms, of ns t] by auto

theorem nonce_batch_atomic_witness:
  "\<exists>s'. mem_try_consume_batch 5 mem_nonce_new [demo_pk 1] = (Inr True, s')
     \<and> mem_try_consume_batch 5 s' [demo_pk 2, demo_pk 1] = (Inr False, s')"
proof -
  obtain s' where s': "mem_try_consume_batch 5 mem_nonce_new [demo_pk 1] = (Inr True, s')" "nonce_inv s'"
    "live 5 s' = {demo_pk 1}"
    using nonce_batch_atomic [OF nonce_inv_new, of "[demo_pk 1]" 5] by auto
  with nonce_batch_atomic [OF s'(2), of "[demo_pk 2, demo_pk 1]" 5] show ?thesis by auto
qed

text \<open>
  With a time to live, a nonce consumed at \<open>t\<close> is in use up to \<open>t + ttl\<close> and not after: replay
  protection lasts as long as the configured time, and no longer.
\<close>

theorem nonce_ttl_window:
  assumes "nonce_inv s" "n_ttl_secs s = Some ttl" "mem_try_consume t s n = (Inr True, s')"
  shows "mem_is_consumed t' s' n = Inr (t' \<le> sat_add t ttl)"
  using assms by (rule mem_try_consume_ttl)

theorem nonce_ttl_window_witness:
  "\<exists>s'. mem_try_consume 100 (with_ttl_secs 60 mem_nonce_new) (demo_pk 1) = (Inr True, s')
     \<and> mem_is_consumed 160 s' (demo_pk 1) = Inr True \<and> mem_is_consumed 161 s' (demo_pk 1) = Inr False"
proof -
  let ?s = "with_ttl_secs 60 mem_nonce_new"
  have i: "nonce_inv ?s" by (simp add: nonce_inv_ttl nonce_inv_new)
  have l: "live 100 ?s = {}" by (simp add: live_def with_ttl_secs_def mem_nonce_new_def)
  obtain s' where s': "mem_try_consume 100 ?s (demo_pk 1) = (Inr True, s')"
    using mem_nonce.consume_fresh [OF i, of "[demo_pk 1]" 100] l by (auto simp: mem_try_consume_batch_one)
  have "n_ttl_secs ?s = Some 60" by (simp add: with_ttl_secs_def)
  from nonce_ttl_window [OF i this s'] s' show ?thesis by (simp add: sat_add_def)
qed

text \<open>
  C23: within one window the rate limiter accepts, for every key, the first \<open>m\<close> requests and no more,
  however the keys are interleaved: the number accepted is the smaller of the number asked for and
  what the window still had left.
\<close>

theorem rate_limit_window:
  assumes "\<not> rl_poisoned s" "unat (max w 1) * 2 < 2 ^ 64" "\<And>q. q \<in> set qs \<Longrightarrow> window_start (fst q) w = st"
  shows "\<exists>bs s'. rate_serve m w qs s = Some (bs, s') \<and> length bs = length qs
    \<and> (\<forall>k. accepted_of k qs bs = min (requests_of k qs) (unat m - unat (window_count st s k)))"
  using rate_serve_spec [OF assms(2,1,3)] .

theorem rate_limit_window_witness:
  "\<exists>bs s'. rate_serve 2 60 [(120, [1]), (130, [2]), (140, [1]), (179, [1])] rate_limit_new = Some (bs, s')
     \<and> accepted_of [1] [(120, [1]), (130, [2]), (140, [1]), (179, [1])] bs = 2"
proof -
  let ?qs = "[(120, [1]), (130, [2]), (140, [1]), (179, [1])] :: (u64 \<times> bytes) list"
  have m: "max 60 (1 :: u64) = 60" by (rule max_absorb1) (simp add: word_le_nat_alt)
  have q: "window_start (fst q) 60 = 120" if "q \<in> set ?qs" for q using that by (auto simp: window_start_def m)
  obtain bs s' where "rate_serve 2 60 ?qs rate_limit_new = Some (bs, s')"
    "accepted_of [1] ?qs bs = min (requests_of [1] ?qs) (unat (2 :: u32) - unat (window_count 120 rate_limit_new [1]))"
    using rate_limit_window [of rate_limit_new 60 ?qs 120 2] q m by (auto simp: rate_limit_new_def simp del: rate_serve.simps)
  then show ?thesis by (auto simp: requests_of_def window_count_def rate_limit_new_def simp del: rate_serve.simps)
qed

section \<open>Policies, errors and audit\<close>

text \<open>
  C24: what policies guarantee of a granted chain, over any stores: its principal is trusted, it is no
  longer than allowed, and every certificate in it lives no longer than allowed and carries the required
  extensions. What forbidding sub-delegation guarantees is less than its name: a certificate that narrows
  the scope permits no further hop, but a chain of certificates that pass the whole scope on is granted
  as before, whatever further hops they permit and however long it is, when every policy forbids it.
\<close>

theorem policy_guards_grants:
  assumes "authorize_inner E agent intent p now is_rev consume (Some ps) c s = (Inr rc, s')" "q \<in> set ps"
  shows "(trusted_principal_pks q = [] \<or> principal_pk c \<in> set (trusted_principal_pks q))
    \<and> (case pol_max_chain_depth q of None \<Rightarrow> True | Some d \<Rightarrow> length (certs c) \<le> unat d)
    \<and> (\<forall>x\<in>set (certs c).
         (case pol_max_ttl_secs q of None \<Rightarrow> True | Some m \<Rightarrow> unat (expiration_unix x) \<le> unat (issued_at x) + unat m)
         \<and> (\<forall>k\<in>set (required_extensions q). ext_get (extensions x) k \<noteq> None)
         \<and> (allow_sub_delegation q \<or> max_depth x = 0 \<or> is_passthrough x))
    \<and> ((\<forall>x\<in>set (certs c). is_passthrough x) \<longrightarrow>
         authorize_inner E agent intent p now is_rev consume (Some (map forbid_sub_delegation ps)) c s = (Inr rc, s'))"
proof -
  have "check_chain q c = Inr ()" using authorize_inner_policy [OF assms(1)] assms(2) by (simp add: set_check_chain_iff)
  then show ?thesis
    using authorize_inner_forbid [OF assms(1)]
    by (auto simp: check_chain_iff cert_conforms_def is_passthrough_def split: option.splits)
qed

theorem policy_guards_grants_witness:
  "\<exists>s'. authorize_inner toy_ext (demo_pk 3) [1] demo_proof 500 (mem_is_revoked mem_rev_new) (mem_try_consume_batch 500)
      (Some [forbid_sub_delegation (policy_max_ttl_secs 900 (policy_new ''p''))]) demo_chain mem_nonce_new
    = (Inr (receipt_for toy_ext 500 [1] demo_chain), s') \<and> length (certs demo_chain) = 2
    \<and> (\<forall>x\<in>set (certs demo_chain). max_depth x > 0 \<and> unat (expiration_unix x) \<le> unat (issued_at x) + 900)"
proof -
  let ?q = "policy_max_ttl_secs 900 (policy_new ''p'')"
  have ok: "policy_ok (Some [?q]) demo_chain"
    by (simp add: policy_ok_def set_check_chain_iff check_chain_iff cert_conforms_def policy_max_ttl_secs_def policy_new_def)
  obtain s' where a: "authorize_inner toy_ext (demo_pk 3) [1] demo_proof 500 (mem_is_revoked mem_rev_new)
      (mem_try_consume_batch 500) (Some [?q]) demo_chain mem_nonce_new = (Inr (receipt_for toy_ext 500 [1] demo_chain), s')"
    using mem_auth.authorize_ok [OF mem_rev_inv_new nonce_inv_new toy_batch_complete toy_batch_sound ok,
        of "demo_pk 3" "[1]" demo_proof 500 500] demo_valid by auto
  from policy_guards_grants [OF a, of ?q]
  have "authorize_inner toy_ext (demo_pk 3) [1] demo_proof 500 (mem_is_revoked mem_rev_new) (mem_try_consume_batch 500)
      (Some (map forbid_sub_delegation [?q])) demo_chain mem_nonce_new = (Inr (receipt_for toy_ext 500 [1] demo_chain), s')"
    "\<forall>x\<in>set (certs demo_chain). unat (expiration_unix x) \<le> unat (issued_at x) + 900"
    by (simp_all add: demo_passthrough policy_max_ttl_secs_def policy_new_def)
  then show ?thesis by (simp add: word_gt_0)
qed

text \<open>
  The capability list of a policy has no effect on authorization: whatever it is changed to, the
  result, the nonce store and the audit event are the same.
\<close>

theorem policy_capabilities_unused:
  "authorize_with_options E rnd agent intent p now now' is_rev consume
     (Some (map (\<lambda>q. q\<lparr>pol_capabilities := f q\<rparr>) ps)) c s
   = authorize_with_options E rnd agent intent p now now' is_rev consume (Some ps) c s"
  by (simp add: authorize_with_options_def authorize_inner_def set_check_chain_capabilities)

text \<open>
  A capability pattern that ends in a separator permits every action that starts with the pattern
  less its separators: \<open>trade.\<close> permits \<open>trademark.file\<close>.
\<close>

theorem prefix_pattern_permits:
  assumes "\<not> is_stem_sep c" "list_all is_stem_sep t" "t \<noteq> []"
  shows "permits \<lparr>prefixes = [s @ [c] @ t]\<rparr> a \<longleftrightarrow> (\<exists>r. a = (s @ [c]) @ r)"
  using assms by (rule permits_stem_iff)

theorem prefix_pattern_permits_witness:
  "permits \<lparr>prefixes = [''trade.'']\<rparr> ''trademark.file'' \<and> \<not> permits \<lparr>prefixes = [''trade.'']\<rparr> ''tradf''"
  using prefix_pattern_permits [of "CHR ''e''" "''.''" "''trad''"] by (simp add: is_stem_sep_def)

text \<open>
  The bytes of an audit event id have the version and variant of a UUIDv7, begin with the
  big-endian time in milliseconds, and keep the random bytes elsewhere but for the tag.
\<close>

theorem event_id_layout:
  assumes "length rnd = 16"
  shows "length (event_id_bytes rnd ts) = 16 \<and> take 6 (event_id_bytes rnd ts) = drop 2 (be64 (ts_millis ts))
    \<and> drop_bit 4 (event_id_bytes rnd ts ! 6) = 7 \<and> drop_bit 6 (event_id_bytes rnd ts ! 8) = 2
    \<and> event_id_bytes rnd ts ! 7 = rnd ! 7 \<and> event_id_bytes rnd ts ! 9 = rnd ! 9"
proof -
  have "take 6 (event_id_bytes rnd ts) = drop 2 (be64 (ts_millis ts))"
    by (rule nth_equalityI) (simp_all add: event_id_bytes_nth [OF assms] length_event_id_bytes [OF assms])
  then show ?thesis
    by (simp add: length_event_id_bytes [OF assms] event_id_bytes_nth [OF assms] version_nibble variant_bits)
qed

theorem event_id_layout_witness:
  "drop_bit 4 (event_id_bytes (replicate 16 255) 1 ! 6) = 7 \<and> length (event_id_bytes (replicate 16 255) 1) = 16"
  using event_id_layout [of "replicate 16 255" 1] by simp

section \<open>Passports\<close>

text \<open>
  C25: issuing a sub-certificate succeeds for every non-empty subset of the passport's capabilities
  within the size limits, and whatever is issued covers only capabilities of the passport (by their
  hashes), derives its scope from the passport's, and is signed, dated and addressed as asked.
\<close>

theorem sub_certificates_narrow:
  assumes "passport_wf E p" "signer_ok E S" "now < sat_add now ttl" "caps \<noteq> []" "ext_fits E (pp_namespace p) caps"
  shows "(set caps \<subseteq> set (pp_capabilities p) \<longrightarrow>
      (\<exists>c. issue_sub E fresh p delegate caps ttl S now = Some (Inr c)))
    \<and> (\<forall>c. issue_sub E fresh p delegate caps ttl S now = Some (Inr c) \<longrightarrow>
      cap_hash E ` set caps \<subseteq> cap_hash E ` set (pp_capabilities p)
      \<and> verify_and_derive_root E (scope_proof c) (scope_root (pp_cert p)) = Inr (scope_root c)
      \<and> delegate_pk c = delegate \<and> nonce c = fresh \<and> issued_at c = now \<and> expiration_unix c = sat_add now ttl
      \<and> verify_signature E c)"
  using issue_sub_succeeds [OF assms(1) _ assms(4,5,3)] issue_sub_Inr [OF assms(1)] assms(2)
  by (intro conjI impI allI) auto

theorem sub_certificates_narrow_witness:
  "\<exists>p c. issue_inner toy_ext (replicate 16 1) ''acme'' demo_caps 3600 (toy_signer (demo_pk 1)) 100 = Some (Inr p)
     \<and> issue_sub toy_ext (replicate 16 2) p (demo_pk 2) [''files.read''] 3600 (toy_signer (demo_pk 1)) 100 = Some (Inr c)
     \<and> verify_signature toy_ext c"
proof -
  obtain p where p: "issue_inner toy_ext (replicate 16 1) ''acme'' demo_caps 3600 (toy_signer (demo_pk 1)) 100
      = Some (Inr p)" using demo_passport by blast
  note pi = issue_inner_Inr [OF p]
  have "ext_fits toy_ext (pp_namespace p) [''files.read'']" by (rule toy_ext_fits) (simp add: pi(3))
  from sub_certificates_narrow [OF pi(1) toy_signer_ok demo_time _ this, of "replicate 16 2" "demo_pk 2" "demo_pk 1"]
  show ?thesis using p demo_caps_ok(3) by (auto simp: pi(2))
qed

text \<open>
  C26: the whole cycle works: for a passport that was issued and a sub-certificate issued from it for one
  of its capabilities, \<open>guard\<close> authorizes that capability for the delegate inside the validity window,
  returns the receipt bound to the passport's namespace and mask, and uses up the nonce.
\<close>

theorem guard_authorizes_delegated:
  assumes "issue_inner E f1 ns caps ttl S now0 = Some (Inr p)" "signer_ok E S"
    and "batch_complete E" "batch_sound E"
    and "issue_sub E f2 p agent [cap] ttl2 S now1 = Some (Inr sub)"
    and "passport_new_chain p = Inr ch" "intent_new cap = Inr i" "cap \<in> set caps"
    and "now1 \<le> sat_add now 15" "sat_sub now 15 \<le> sat_add now1 ttl2"
    and "mem_rev_inv r" "nonce_inv n" "cert_fingerprint E sub \<notin> revoked_set r" "f2 \<notin> live t n"
  shows "\<exists>n'. guard E rnd p (chain_push sub ch) agent i proof_default now now' (mem_is_revoked r)
      (mem_try_consume_batch t) n
    = (Inr (provable_receipt_new E (receipt_for E now (cap_hash E cap) (chain_push sub ch)) ns (capability_mask p)), n')
    \<and> f2 \<in> live t n'"
  using assms by (rule guard_cycle)

theorem guard_authorizes_delegated_witness:
  "\<exists>p sub ch i rc n'. issue_inner toy_ext (replicate 16 1) ''acme'' demo_caps 3600 (toy_signer (demo_pk 1)) 100 = Some (Inr p)
     \<and> issue_sub toy_ext (replicate 16 2) p (demo_pk 2) [''files.read''] 3600 (toy_signer (demo_pk 1)) 100 = Some (Inr sub)
     \<and> passport_new_chain p = Inr ch \<and> intent_new ''files.read'' = Inr i
     \<and> guard toy_ext [] p (chain_push sub ch) (demo_pk 2) i proof_default 200 200 (mem_is_revoked mem_rev_new)
         (mem_try_consume_batch 200) mem_nonce_new = (Inr rc, n') \<and> replicate 16 2 \<in> live 200 n'"
proof -
  obtain p where p: "issue_inner toy_ext (replicate 16 1) ''acme'' demo_caps 3600 (toy_signer (demo_pk 1)) 100
      = Some (Inr p)" using demo_passport by blast
  note pi = issue_inner_Inr [OF p]
  have "ext_fits toy_ext (pp_namespace p) [''files.read'']" by (rule toy_ext_fits) (simp add: pi(3))
  from issue_sub_succeeds [OF pi(1) _ _ this demo_time, of "replicate 16 2" "demo_pk 2" "toy_signer (demo_pk 1)"]
  obtain c where c: "issue_sub toy_ext (replicate 16 2) p (demo_pk 2) [''files.read''] 3600 (toy_signer (demo_pk 1)) 100
      = Some (Inr c)" using demo_caps_ok(3) by (auto simp: pi(2))
  obtain ch where ch: "passport_new_chain p = Inr ch" by (simp add: passport_new_chain_def)
  obtain i where i: "intent_new ''files.read'' = Inr i" by (simp add: intent_new_def MAX_ACTION_LEN_def)
  have w: "(100 :: u64) \<le> sat_add 200 15" "sat_sub 200 15 \<le> sat_add (100 :: u64) 3600"
    by (simp_all add: sat_add_def sat_sub_def)
  from guard_authorizes_delegated [OF p toy_signer_ok toy_batch_complete toy_batch_sound c ch i demo_caps_ok(3) w
      mem_rev_inv_new nonce_inv_new, of 200 "[]" 200]
  show ?thesis using p c ch i by (simp del: split_paired_Ex) blast
qed

text \<open>
  \<open>guard\<close> authorizes exactly when the action's bit is in the passport's mask and the chain is valid,
  unrevoked and fresh for the intent. The passport enters with its mask only: a chain from another
  principal, or outside the capabilities behind the mask, is not told apart.
\<close>

theorem guard_decides:
  assumes "mem_rev_inv r" "nonce_inv n" "batch_complete E" "batch_sound E" "mask_wf (capability_mask p)"
  shows "(\<exists>rc n'. guard E rnd p c agent i pf now now' (mem_is_revoked r) (mem_try_consume_batch t) n = (Inr rc, n')) \<longleftrightarrow>
    cap_pos E (action i) \<in> mask_bits (capability_mask p)
    \<and> chain_valid E agent (intent_hash_of E i) pf now (drift_tolerance_secs c) c
    \<and> chain_fps E c \<inter> revoked_set r = {} \<and> chain_nonces c \<inter> live t n = {}"
  using assms by (rule guard_iff)

theorem guard_decides_witness:
  "\<not> (\<exists>rc n'. guard toy_ext [] \<lparr>pp_namespace = ''acme'', capability_mask = EMPTY, pp_capabilities = [],
       pp_cert = demo_cert 1 2 (replicate 16 7) 1000\<rparr> demo_chain (demo_pk 3) \<lparr>action = ''files.read'', params = []\<rparr> demo_proof
       500 500 (mem_is_revoked mem_rev_new) (mem_try_consume_batch 500) mem_nonce_new = (Inr rc, n'))"
  by (subst guard_decides [OF mem_rev_inv_new nonce_inv_new toy_batch_complete toy_batch_sound]) simp_all

section \<open>Provenance\<close>

text \<open>C27: each step of a finalized reasoning trace has a proof, and it verifies against the root.\<close>

theorem provenance_complete:
  assumes "trace_wf t" "length (steps t) < 2 ^ 32" "i < length (steps t)" "finalize_trace E at fp t = Inr r"
  shows "\<exists>p. trace_step_proof E t i = Some p \<and> sp_step p = steps t ! i \<and> step_proof_verify E p r"
  using assms by (rule step_proof_complete)

theorem provenance_complete_witness:
  "\<exists>r p. finalize_trace toy_ext 200 (demo_pk 1) (demo_trace 3) = Inr r
     \<and> trace_step_proof toy_ext (demo_trace 3) 2 = Some p \<and> step_proof_verify toy_ext p r"
proof -
  have "steps (demo_trace 3) \<noteq> []" using demo_trace_length [of 3] by auto
  then obtain r where r: "finalize_trace toy_ext 200 (demo_pk 1) (demo_trace 3) = Inr r"
    by (simp add: finalize_trace_def Let_def)
  from provenance_complete [OF demo_trace_wf _ _ r, of 2] r show ?thesis by (auto simp: demo_trace_length)
qed

text \<open>
  C28: a step proof that verifies against a trace's root is for a step the trace has at that index,
  unless the hash collides on the pairs along the path.
\<close>

theorem provenance_sound:
  assumes "trace_wf t" "length (steps t) < 2 ^ 32" "finalize_trace E at fp t = Inr r"
    and "step_wf (sp_step p)" "step_proof_trust E t p" "step_proof_verify E p r"
  shows "unat (step_index (sp_step p)) < length (steps t)
    \<and> sp_step p = steps t ! unat (step_index (sp_step p))"
  using assms by (rule step_proof_sound)

theorem provenance_sound_witness:
  "\<exists>r p. finalize_trace toy_ext 200 (demo_pk 1) (demo_trace 1) = Inr r \<and> step_proof_verify toy_ext p r
     \<and> sp_step p = steps (demo_trace 1) ! 0"
proof -
  have l: "length (steps (demo_trace 1)) = 1" by (rule demo_trace_length)
  then have "steps (demo_trace 1) \<noteq> []" by auto
  then obtain r where r: "finalize_trace toy_ext 200 (demo_pk 1) (demo_trace 1) = Inr r"
    by (simp add: finalize_trace_def Let_def)
  obtain p where p: "trace_step_proof toy_ext (demo_trace 1) 0 = Some p" "sp_step p = steps (demo_trace 1) ! 0"
    "step_proof_verify toy_ext p r"
    using step_proof_complete [OF demo_trace_wf _ _ r, of 0] unfolding l by auto
  have w: "step_wf (sp_step p)" "step_index (sp_step p) = 0"
    using demo_trace_wf [of 1] l p(2) by (auto simp: trace_wf_def)
  have z: "trailing_zeros (next_power_of_two 1) = 0"
    by (simp add: next_power_of_two_def trailing_zeros.simps [of "Suc 0"])
  have s: "sp_siblings p = []" using p(1) unfolding trace_step_proof_def l Let_def z by auto
  have "step_proof_trust toy_ext (demo_trace 1) p"
    unfolding step_proof_trust_def Let_def w(2) s l z using p(2) by simp
  from provenance_sound [OF demo_trace_wf _ r w(1) this p(3)] l r p(3) w(2) show ?thesis by auto
qed

section \<open>Swarms\<close>

text \<open>
  C29: in every swarm that the operations can produce, in any order and by any callers, each member is
  filed under its own identifier, its role commitment verifies, and the mask of its role lies within
  the mask of the root passport.
\<close>

theorem swarm_members_confined:
  assumes "swarm_reachable E p sw" "map_of (members sw) did = Some m"
  shows "agent_did m = did \<and> verify_role_commitment E m
    \<and> is_subset_of (role_mask E (member_role m)) (capability_mask p)"
  using assms by (rule swarm_reachable_member)

theorem swarm_members_confined_witness:
  "\<exists>p sw m. swarm_reachable toy_ext p sw \<and> map_of (members sw) (did_of_pk toy_ext (demo_pk 2)) = Some m
     \<and> verify_role_commitment toy_ext m"
proof -
  obtain p and sw :: swarm_passport and m :: swarm_member where "swarm_reachable toy_ext p sw" "map_of (members sw) (did_of_pk toy_ext (demo_pk 2)) = Some m"
    using demo_swarm by blast
  with swarm_members_confined [OF this] show ?thesis by blast
qed

text \<open>
  C30: the chain built for a member authorizes every capability of the root passport, whatever the role:
  its scope is the whole passport's.
\<close>

theorem member_chain_has_full_scope:
  assumes "passport_wf E (root_passport sw)" "map_of (members sw) (did_of_pk E pk) = Some m" "signer_ok E orc"
    and "chain_for_member E fresh pk orc now ttl sw = Some (Inr ch)"
    and "cap \<in> set (pp_capabilities (root_passport sw))"
  shows "\<exists>pf. chain_valid E pk (cap_hash E cap) pf now (drift_tolerance_secs ch) ch"
  using assms by (rule chain_for_member_scope)

theorem member_chain_has_full_scope_witness:
  "\<exists>sw ch pf m. map_of (members sw) (did_of_pk toy_ext (demo_pk 2)) = Some m \<and> role_capabilities (member_role m) = [''files.read'']
     \<and> chain_for_member toy_ext (replicate 16 3) (demo_pk 2) (toy_signer (demo_pk 1)) 100 3600 sw = Some (Inr ch)
     \<and> chain_valid toy_ext (demo_pk 2) (cap_hash toy_ext ''files.write'') pf 100 (drift_tolerance_secs ch) ch"
proof -
  obtain p and sw :: swarm_passport and m :: swarm_member where sw: "root_passport sw = p" "map_of (members sw) (did_of_pk toy_ext (demo_pk 2)) = Some m"
    "role_capabilities (member_role m) = [''files.read'']" "passport_wf toy_ext p" "pp_capabilities p = demo_caps"
    using demo_swarm by blast
  obtain ch where ch: "chain_for_member toy_ext (replicate 16 3) (demo_pk 2) (toy_signer (demo_pk 1)) 100 3600 sw = Some (Inr ch)"
    using demo_member_chain [OF sw(2)] sw by blast
  have "''files.write'' \<in> set demo_caps" by (simp add: demo_caps_def)
  from member_chain_has_full_scope [OF _ sw(2) toy_signer_ok ch, of "''files.write''"] this sw ch show ?thesis by metis
qed

section \<open>Documents and messages\<close>

text \<open>
  C31: a chain exported as a signed-chain document comes back with the receiver's drift tolerance and
  without its namespace, and is valid for a request exactly when the original is.
\<close>

theorem signed_chain_preserves_validity:
  assumes "hex_ok E" "length (principal_pk c) = 32" "length (principal_scope c) = 32" "ed_valid_pk E (principal_pk c)"
  shows "\<exists>d. into_chain_with_drift E hm pm drift (from_chain E c) = Inr d \<and> namespace d = None
    \<and> drift_tolerance_secs d = drift
    \<and> (\<forall>agent intent p now. chain_valid E agent intent p now drift d = chain_valid E agent intent p now drift c)"
  using signed_chain_roundtrip [OF assms, of hm pm drift] chain_valid_namespace
  by (intro exI [of _ "c\<lparr>drift_tolerance_secs := drift, namespace := None\<rparr>"]) simp

theorem signed_chain_preserves_validity_witness:
  "\<exists>d. into_chain_with_drift toy_ext (\<lambda>_. []) (\<lambda>_. []) 15 (from_chain toy_ext demo_chain) = Inr d
     \<and> chain_valid toy_ext (demo_pk 3) [1] demo_proof 500 15 d"
  using signed_chain_preserves_validity [OF toy_hex_ok, of demo_chain "\<lambda>_. []" "\<lambda>_. []" 15] demo_valid
  by (auto simp: demo_valid_pk)

text \<open>
  C32: a token made from a receipt verifies under its key and returns the receipt; and one MAC that
  verifies for two receipts means they agree in every field, but for an empty namespace against an
  absent one, unless the keyed hash collides.
\<close>

theorem token_authenticates:
  assumes "hex_ok E" "keyed32 E"
  shows "token_verify E (token_sign E r key) key = Inr r
    \<and> (\<forall>r' m. token_verify E \<lparr>vt_receipt = r, vt_mac = m\<rparr> key = Inr r
        \<and> token_verify E \<lparr>vt_receipt = r', vt_mac = m\<rparr> key = Inr r' \<and> receipt_wf r \<and> receipt_wf r'
        \<and> (b3_keyed E key (receipt_canonical_bytes r) = b3_keyed E key (receipt_canonical_bytes r') \<longrightarrow>
             receipt_canonical_bytes r = receipt_canonical_bytes r')
      \<longrightarrow> chain_depth r = chain_depth r' \<and> verified_scope_root r = verified_scope_root r'
        \<and> receipt_intent r = receipt_intent r' \<and> verified_at_unix r = verified_at_unix r'
        \<and> chain_fingerprint r = chain_fingerprint r'
        \<and> namespace_text (receipt_namespace r) = namespace_text (receipt_namespace r'))"
  using token_roundtrip [OF assms, of r key] token_binds [of E r _ key] by blast

theorem token_authenticates_witness:
  "token_verify toy_ext (token_sign toy_ext (demo_receipt 1 None) [1, 2]) [1, 2] = Inr (demo_receipt 1 None)"
  using token_authenticates [OF toy_hex_ok toy_keyed32] by blast

text \<open>
  C33: the negotiation works end to end: a request that was built verifies as its sender's, the offer
  built for it verifies as the provider's and names the request, and the acceptance built for the offer
  verifies as the requester's and names the offer.
\<close>

theorem negotiation_roundtrip:
  assumes "hex_ok E" "signer_wf E rq" "signer_wf E pr" "length n1 = 16" "length n2 = 16"
  shows "\<exists>o' a. let r = request_build E n1 rq caps name ttl ts in
     request_verify E pm r = Inr (verifying_key rq)
     \<and> offer_build E n2 pr r cert ts' ottl = Inr o' \<and> offer_verify E pm o' = Inr (verifying_key pr)
     \<and> request_nonce o' = rq_nonce r \<and> offer_cert o' = cert
     \<and> acceptance_build E rq o' ts'' = Inr a \<and> acceptance_verify E pm a = Inr (verifying_key rq)
     \<and> ac_offer_nonce a = offer_nonce o'"
proof -
  let ?r = "request_build E n1 rq caps name ttl ts"
  have n: "parse_nonce_hex E (rq_nonce ?r) = Inr n1"
    using parse_nonce_round [OF assms(1,4)] by (simp add: request_build_def Let_def)
  obtain o' where o': "offer_build E n2 pr ?r cert ts' ottl = Inr o'" "offer_verify E pm o' = Inr (verifying_key pr)"
    "request_nonce o' = rq_nonce ?r" "offer_cert o' = cert" "parse_nonce_hex E (offer_nonce o') = Inr n2"
    using offer_roundtrip [OF assms(1,3,5) n] by blast
  with acceptance_roundtrip [OF assms(1,2) o'(5)] request_roundtrip [OF assms(1,2,4)] show ?thesis
    unfolding Let_def by blast
qed

theorem negotiation_roundtrip_witness:
  "\<exists>o'. offer_build toy_ext (replicate 16 2) (toy_signer (demo_pk 2))
       (request_build toy_ext (replicate 16 1) (toy_signer (demo_pk 1)) demo_caps ''agent'' 60 100)
       (demo_cert 1 2 (replicate 16 7) 1000) 110 60 = Inr o'
     \<and> offer_verify toy_ext (\<lambda>_. []) o' = Inr (verifying_key (toy_signer (demo_pk 2)))"
  using negotiation_roundtrip [OF toy_hex_ok demo_signer_wf demo_signer_wf, of "replicate 16 1" "replicate 16 2"]
  unfolding Let_def by (metis length_replicate)

text \<open>
  The two calendar routines agree on everything but the day of the month: the first counts the days
  correctly, and the second, of the governance report, prints the day before (zero for the first).
\<close>

theorem governance_date_off_by_one:
  fixes t :: u64
  assumes "days_to_ymd (unat t div 86400) = (y, mo, d)"
  shows "unat t div 86400 = day_number y mo d \<and> 1 \<le> mo \<and> mo \<le> 12 \<and> 1 \<le> d \<and> d \<le> month_days y ! (mo - 1)
    \<and> unix_to_iso8601 t = iso_text y mo d (unat t div 3600 mod 24) (unat t div 60 mod 60) (unat t mod 60)
    \<and> unix_to_iso t = iso_text y mo (d - 1) (unat t div 3600 mod 24) (unat t div 60 mod 60) (unat t mod 60)"
  using days_to_ymd_spec [OF assms] unix_to_iso_day [OF assms] by blast

theorem governance_date_off_by_one_witness:
  "unix_to_iso8601 0 = ''1970-01-01T00:00:00Z'' \<and> unix_to_iso 0 = ''1970-01-00T00:00:00Z''"
proof -
  have "days_to_ymd (unat (0 :: u64) div 86400) = (1970, 1, 1)"
    by (simp add: days_to_ymd_def year_loop.simps [of 0] year_len_def month_days_def)
  moreover have "iso_text 1970 1 1 0 0 0 = ''1970-01-01T00:00:00Z''" "iso_text 1970 1 0 0 0 0 = ''1970-01-00T00:00:00Z''"
    by (simp_all add: iso_text_def padded_def dec.simps char_of_def bit_iff_odd)
  ultimately show ?thesis using governance_date_off_by_one [of 0 1970 1 1] by simp
qed

section \<open>Asynchronous batches\<close>

text \<open>
  C34: the default batch of the asynchronous trait ends. Whatever its store answers to each of its calls,
  errors included, and whatever other calls do to the store between two of them, after at most two
  awaits for each nonce it has returned. Left alone, with a store that answers every call by the same
  functions, it returns the result of the synchronous default and leaves the store as that does.
\<close>

theorem default_batch_terminates:
  "(\<exists>r. snd (batch_among env is_cs marks (2 * length ns) s (batch_start ns)) = Finished r)
   \<and> (case default_try_consume_batch is_c mark s ns of
        (r, s') \<Rightarrow> batch_alone is_c mark (2 * length ns) s (batch_start ns) = (s', Finished r))"
  by (simp add: batch_among_ends batch_start_def batch_alone_is_default [unfolded batch_start_def] split: prod.splits)

text \<open>
  C35: it is not atomic: two calls for the same fresh nonce can take their awaits in such an order that
  both report it consumed. This is so of a store that is a set, and of the store in memory at any time.
\<close>

theorem default_batch_not_atomic:
  assumes "n \<notin> u"
  shows "interleaved (set_is_consumed t) (set_mark_consumed t) (u, batch_start [n], batch_start [n])
      (insert n u, Finished (Inr True), Finished (Inr True))
    \<and> (\<forall>s. nonce_inv s \<and> live t s = u \<longrightarrow>
        (\<exists>s'. interleaved (mem_is_consumed t) (mem_mark_consumed t) (s, batch_start [n], batch_start [n])
            (s', Finished (Inr True), Finished (Inr True)) \<and> live t s' = insert n u))"
  using set_basic.interleaved_double_spend [where s = u and n = n and t = t]
    mem_basic.interleaved_double_spend [where n = n and t = t] assms by auto

theorem default_batch_not_atomic_witness:
  "interleaved (set_is_consumed 5) (set_mark_consumed 5) ({}, batch_start [[7]], batch_start [[7]])
      ({[7]}, Finished (Inr True), Finished (Inr True))
   \<and> (\<exists>s'. interleaved (mem_is_consumed 5) (mem_mark_consumed 5) (mem_nonce_new, batch_start [[7]], batch_start [[7]])
        (s', Finished (Inr True), Finished (Inr True)) \<and> live 5 s' = {[7]})"
  using default_batch_not_atomic [of "[7]" "{}" 5] nonce_inv_new live_new [of 5] by blast

section \<open>Audit export\<close>

text \<open>
  C36: what the SIEM exporter delivers. The batches it has let go of, the batch and the channel hold the
  events sent, each once and in order, and the server has nothing else. If no written request is lost, the
  server has all that was let go; if what fails to be written is not taken either, it has it once and in order;
  and a running task can bring to the server whatever it holds. But the task lets go of a batch when
  the request is written, whatever becomes of it: an event can be lost while the task runs. Without the
  feature \<open>wire\<close> the requests are empty and the server never has an event; and the batch that
  is there when the channel closes is not sent.
\<close>

theorem siem_accounting:
  assumes "siem_run wire N evs s"
  shows "concat (si_cleared s) @ si_batch s @ si_queue s = evs \<and> siem_has s \<subseteq> set evs
    \<and> (wire \<and> Written False \<notin> N \<longrightarrow> set (concat (si_cleared s)) \<subseteq> siem_has s)
    \<and> (wire \<and> N \<subseteq> {Refused, Broken False, Written True} \<longrightarrow> concat (si_received s) @ si_batch s @ si_queue s = evs)
    \<and> (wire \<and> Written True \<in> N \<and> \<not> si_stopped s \<longrightarrow>
        (\<exists>s'. siem_run wire N evs s' \<and> si_batch s' = [] \<and> si_queue s' = []
           \<and> siem_has s' = siem_has s \<union> set (si_batch s) \<union> set (si_queue s)))
    \<and> (\<not> wire \<longrightarrow> siem_has s = {})
    \<and> (\<exists>s'. siem_run wire {Written False} [ev] s' \<and> \<not> si_stopped s' \<and> si_batch s' = [] \<and> si_queue s' = [] \<and> siem_has s' = {})
    \<and> (\<exists>s'. siem_run wire {Written True} [ev] s' \<and> si_stopped s' \<and> si_received s' = [] \<and> si_batch s' = [ev])"
proof -
  have "wire \<and> N \<subseteq> {Refused, Broken False, Written True} \<longrightarrow> concat (si_received s) @ si_batch s @ si_queue s = evs"
    using siem_accounts [OF assms] siem_exactly_once [of N evs s] assms by (cases wire) auto
  moreover have "wire \<and> Written True \<in> N \<and> \<not> si_stopped s \<longrightarrow>
      (\<exists>s'. siem_run wire N evs s' \<and> si_batch s' = [] \<and> si_queue s' = []
         \<and> siem_has s' = siem_has s \<union> set (si_batch s) \<union> set (si_queue s))"
    using siem_drain [OF assms, of True] by (cases wire) (auto simp: Un_assoc)
  moreover have "wire \<and> Written False \<notin> N \<longrightarrow> set (concat (si_cleared s)) \<subseteq> siem_has s"
    using siem_at_least_once [of N evs s] assms by (cases wire) auto
  moreover have "\<not> wire \<longrightarrow> siem_has s = {}" using siem_without_wire [of N evs s] assms by (cases wire) auto
  ultimately show ?thesis
    using siem_accounts [OF assms] siem_no_inventions [OF assms] siem_written_lost [of wire ev] siem_shutdown_loses [of wire ev]
    by blast
qed

theorem siem_accounting_witness:
  "\<forall>ev. \<exists>s'. siem_run True {Written True, Refused} [ev] s' \<and> si_batch s' = [] \<and> si_queue s' = [] \<and> siem_has s' = {ev}"
proof
  fix ev
  let ?s = "siem_emit ev siem_new"
  have r: "siem_run True {Written True, Refused} ([] @ [ev]) ?s"
    by (intro siem_run.emit siem_run.start) (simp add: siem_new_def)
  have s: "si_batch ?s = []" "si_queue ?s = [ev]" "\<not> si_stopped ?s" "siem_has ?s = {}"
    by (simp_all add: siem_has_def siem_emit_def siem_new_def)
  from siem_accounting [OF r] have "\<exists>s'. siem_run True {Written True, Refused} ([] @ [ev]) s' \<and> si_batch s' = []
      \<and> si_queue s' = [] \<and> siem_has s' = siem_has ?s \<union> set (si_batch ?s) \<union> set (si_queue ?s)"
    using s(3) by blast
  then show "\<exists>s'. siem_run True {Written True, Refused} [ev] s' \<and> si_batch s' = [] \<and> si_queue s' = [] \<and> siem_has s' = {ev}"
    unfolding s by simp
qed

section \<open>The protocol document\<close>



section \<open>The Studio\<close>

text \<open>
  C38: what the write route of the Studio changes, whatever its outcome. If it changes anything or
  reports success, the path it was given resolved, through links, to one under the home directory, the
  working directory or a temporary one and under no blocked prefix, and the content is within the limit. Only
  that file changes and, unless no backup is wanted, the file to which the path of the backup leads.
  After a success the file holds exactly the content sent; and if there was a file, its former content is where
  the path of the backup leads. When that path is a symbolic link, this can be outside of every
  permitted directory, or under a blocked prefix: the instance below writes to \<open>/etc/passwd\<close>.
\<close>

theorem studio_write_confined:
  assumes "write_file_handler S req fs = ((st, r), fs')" "fs' \<noteq> fs \<or> wr_success r"
  shows "\<exists>p. validate_path S (wq_path req) = Inr p
    \<and> (path_starts_with p (home_dir (os_env S)) \<or> path_starts_with p ''/tmp'' \<or> path_starts_with p ''/var/tmp''
        \<or> path_starts_with p (set_or (home_dir (os_env S)) (po_cwd S)))
    \<and> (\<forall>b\<in>set BLOCKED. \<not> path_starts_with p b)
    \<and> length (wq_content req) \<le> MAX_WRITE_BYTES
    \<and> (\<forall>q. fs' q \<noteq> fs q \<longrightarrow> q = p \<or> q = po_follow S (p @ ''.bak'') \<and> wq_backup req \<noteq> Some False)
    \<and> (wr_success r \<longrightarrow> fs' p = Some (wq_content req))
    \<and> (wr_success r \<and> wq_backup req \<noteq> Some False \<and> po_exists S p \<and> po_follow S (p @ ''.bak'') \<noteq> p \<longrightarrow>
         fs' (po_follow S (p @ ''.bak'')) = fs p)"
proof -
  from write_file_outcomes [OF assms(1)] assms(2) obtain p where p: "validate_path S (wq_path req) = Inr p"
      "length (wq_content req) \<le> MAX_WRITE_BYTES"
      "\<forall>q. q \<noteq> p \<longrightarrow> q \<noteq> po_follow S (p @ ''.bak'') \<or> wq_backup req = Some False \<longrightarrow> fs' q = fs q"
      "wr_success r \<longrightarrow> fs' p = Some (wq_content req) \<and> wr_path r = p"
      "wr_success r \<and> wq_backup req \<noteq> Some False \<and> po_exists S p \<and> po_follow S (p @ ''.bak'') \<noteq> p \<longrightarrow>
         fs' (po_follow S (p @ ''.bak'')) = fs p" by blast
  with validate_path_Inr [OF p(1)] show ?thesis by (intro exI [of _ p]) blast
qed

theorem studio_write_confined_witness:
  "\<exists>S r fs'. write_file_handler S \<lparr>wq_path = ''~/a.py'', wq_content = ''new'', wq_backup = None\<rparr> [''/h/a.py'' \<mapsto> ''old''] = ((200, r), fs')
     \<and> home_dir (os_env S) = ''/h'' \<and> wr_success r \<and> fs' ''/h/a.py'' = Some ''new'' \<and> fs' ''/etc/passwd'' = Some ''old''"
proof -
  let ?S = "\<lparr>os_env = [''HOME'' \<mapsto> ''/h''], os_writable = (\<lambda>_. True), os_removable = (\<lambda>_. True), os_read_msg = (\<lambda>_. []),
    os_write_msg = (\<lambda>_. []), os_canonical = Some, po_cwd = Some ''/h'', po_resolve = Inr, po_is_link = (\<lambda>_. False),
    po_size = (\<lambda>_. Inr 0), po_exists = (\<lambda>_. True),
    po_follow = (\<lambda>q. if q = ''/h/a.py.bak'' then ''/etc/passwd'' else q),
    po_copy = (\<lambda>_ _. None), po_write = (\<lambda>_. None), po_mkdir = (\<lambda>_. None)\<rparr>"
  let ?q = "\<lparr>wq_path = ''~/a.py'', wq_content = ''new'', wq_backup = None\<rparr>"
  have h: "home_dir (os_env ?S) = ''/h''" by (simp add: home_dir_def)
  have v: "validate_path ?S ''~/a.py'' = Inr ''/h/a.py''"
  proof -
    have e: "expand_home (os_env ?S) ''~/a.py'' = ''/h/a.py''"
      by (simp add: expand_home_def starts_with_def home_dir_def join_path_def)
    have t: "str_trim ''~/a.py'' \<noteq> []" by (simp add: str_trim_def is_ws_def)
    have a: "starts_with ''/h/a.py'' ''/''" "path_starts_with ''/h/a.py'' ''/h''" by code_simp+
    have b: "find (path_starts_with ''/h/a.py'') BLOCKED = None" by code_simp
    show ?thesis unfolding validate_path_def Let_def e h using t a b by (simp add: map_errR_def set_or_def)
  qed
  obtain r fs' where r: "write_file_handler ?S ?q [''/h/a.py'' \<mapsto> ''old''] = ((200, r), fs')" "wr_success r"
    using v by (simp add: write_file_handler_def MAX_WRITE_BYTES_def copy_file_def overwrite_file_def Let_def set_or_def
        del: fun_upd_apply)
  from studio_write_confined [OF r(1)] r(2) v have "fs' ''/h/a.py'' = Some ''new''" "fs' ''/etc/passwd'' = Some ''old''" by auto
  with r h show ?thesis by blast
qed

section \<open>Hybrid signatures\<close>

text \<open>
  C39: with the post-quantum feature, a hybrid signature of any algorithm verifies whenever its Ed25519
  part does, its context is the commitment anyone can compute, and its post-quantum bytes have the right
  length: their content, and the post-quantum key, are not looked at.
\<close>

theorem pq_part_not_verified:
  assumes "signer_ok E S" "length p = pq_signature_len a"
  shows "hybrid_verify E True msg \<lparr>hk_algorithm = a, classical_key = verifying_key S, pq_key_bytes = k\<rparr>
    \<lparr>hs_algorithm = a, classical_sig = sign_message S msg, pq_sig_bytes = p, pq_context = compute_pq_context E a msg p\<rparr> = Inr ()"
  by (rule pq_component_unchecked [OF assms])

theorem pq_part_not_verified_witness:
  "let p = replicate (pq_signature_len HybridMlDsa44Ed25519) 0 in
   hybrid_verify toy_ext True [1] \<lparr>hk_algorithm = HybridMlDsa44Ed25519, classical_key = demo_pk 1, pq_key_bytes = []\<rparr>
    \<lparr>hs_algorithm = HybridMlDsa44Ed25519, classical_sig = sign_message (toy_signer (demo_pk 1)) [1], pq_sig_bytes = p,
     pq_context = compute_pq_context toy_ext HybridMlDsa44Ed25519 [1] p\<rparr> = Inr ()"
proof -
  have "verifying_key (toy_signer (demo_pk 1)) = demo_pk 1" by (simp add: toy_signer_def)
  with pq_part_not_verified [OF toy_signer_ok [of "demo_pk 1"], where a = HybridMlDsa44Ed25519 and msg = "[1]" and k = "[]"]
  show ?thesis by (simp add: Let_def)
qed

section \<open>The zero-knowledge guest\<close>

text \<open>
  C40: the guest program commits a journal exactly for the inputs whose every certificate passes the
  checks of its hop, whose executor is the last delegate and whose fingerprint is the one the guest
  computes, and the journal repeats its inputs; the intent is not among what it checks. No digest of the
  guest (signed message, fingerprints, commitment, Merkle node) is taken over an input of the
  library's digest of that name, since the contexts differ; so if the guest commits to the fingerprint
  that the library computes for a chain, the hash collides on two inputs named here.
\<close>

theorem guest_commits_iff:
  "(guest_main E g = Inr j \<longleftrightarrow> guest_accepts E g \<and> j = guest_journal g)
   \<and> guest_accepts E (g\<lparr>gi_intent := i\<rparr>) = guest_accepts E g
   \<and> h_updates (guest_derive_key GUEST_CERT_SIG v) xs \<noteq> h_updates (hasher_cert_sig v') ys
   \<and> h_updates (guest_derive_key GUEST_CERT_FP v) xs \<noteq> h_updates (hasher_cert_fp v') ys
   \<and> h_updates (guest_derive_key GUEST_SUBSCOPE v) xs \<noteq> h_updates (hasher_subscope v') ys
   \<and> h_updates (guest_derive_key GUEST_MERKLE_NODE v) xs \<noteq> h_updates (hasher_merkle_node v') ys
   \<and> guest_chain_hasher pk scope fps \<noteq> chain_hasher E c
   \<and> (guest_main E g = Inr j \<and> gi_fingerprint g = fingerprint E c \<longrightarrow>
        guest_final_hasher E g \<noteq> chain_hasher E c
        \<and> h_finalize E (guest_final_hasher E g) = h_finalize E (chain_hasher E c))"
  using guest_main_Inr [where E = E and g = g and j = j] guest_accepts_intent [where E = E and g = g and x = i] guest_hashers_differ guest_contexts_differ
    guest_library_fingerprint [where E = E and g = g and c = c]
  by simp

text \<open>
  The instance hashes everything to the same digest. Its input has no certificate at all, which the guest
  lets pass where the library answers \<open>EmptyChain\<close>.
\<close>

theorem guest_commits_iff_witness:
  "\<exists>E g. guest_main E g = Inr (guest_journal g) \<and> gi_fingerprint g = fingerprint E demo_chain \<and> gi_certs g = []
     \<and> guest_final_hasher E g \<noteq> chain_hasher E demo_chain
     \<and> h_finalize E (guest_final_hasher E g) = h_finalize E (chain_hasher E demo_chain)"
proof -
  let ?E = "toy_ext\<lparr>b3_derive := \<lambda>_ _. replicate 32 0\<rparr>"
  let ?g = "\<lparr>gi_principal_pk = demo_pk 1, gi_principal_scope = demo_scope, gi_certs = [], gi_executor_pk = demo_pk 1,
    gi_intent = [1], gi_fingerprint = replicate 32 0, gi_verified_at = 500\<rparr>"
  have h: "h_finalize ?E h = replicate 32 0" for h by (simp add: h_finalize_def)
  have "guest_accepts ?E ?g" by (simp add: guest_accepts_def guest_chain_fingerprint_def h)
  then have m: "guest_main ?E ?g = Inr (guest_journal ?g)" by (simp add: guest_main_Inr)
  moreover have f: "gi_fingerprint ?g = fingerprint ?E demo_chain" unfolding fingerprint_def h by simp
  ultimately show ?thesis using guest_commits_iff [where E = ?E and g = ?g and j = "guest_journal ?g" and c = demo_chain]
    by (intro exI [of _ ?E] exI [of _ ?g]) simp
qed

end
